(* ===== verification/Prelude.thy ===== *)
theory Prelude
  imports Main "HOL-Library.Word" "HOL-Library.Multiset"
begin

unbundle bit_operations_syntax

text \<open>
  Shared vocabulary of the development: the fixed-width types of the Rust sources, the checked
  and saturating arithmetic of its standard library, little-endian byte strings (the preimages
  of the hash functions), and the generic lemmas on lists and maps that the component theories
  use. Collections of simplification rules that several components extend are declared here.
\<close>

named_theorems auth_simps \<open>unfolding rules for authority checks\<close>
named_theorems clist_simps \<open>unfolding rules for capability-list operations\<close>
named_theorems ledger_simps \<open>unfolding rules for ledger operations\<close>

named_theorems eval_simps \<open>unfolding rules for program checks\<close>

section \<open>Machine integers and byte strings\<close>

type_synonym u8 = "8 word"
type_synonym u32 = "32 word"
type_synonym u64 = "64 word"

text \<open>
  A \<open>[u8; 32]\<close> is a value of one of \<open>2 ^ 256\<close> points: it is compared, stored and hashed, never
  computed with. It is a 256-bit word; \<open>bytes32_bytes\<close> below lists its bytes. A \<open>CellId\<close> is a
  newtype over such an array.
\<close>

type_synonym bytes32 = "256 word"
type_synonym cell_id = bytes32

text \<open>
  \<open>i64\<close> values are integers; every operation of the code that could leave the range of \<open>i64\<close> is
  a checked one, so the range is an invariant to be proved (\<open>in_i64\<close>) rather than a type.
\<close>

definition in_i64 :: "int \<Rightarrow> bool" where
  "in_i64 x \<longleftrightarrow> - (2 ^ 63) \<le> x \<and> x < 2 ^ 63"

definition checked_add_i64 :: "int \<Rightarrow> int \<Rightarrow> int option" where
  "checked_add_i64 a b = (if in_i64 (a + b) then Some (a + b) else None)"

definition checked_sub_i64 :: "int \<Rightarrow> int \<Rightarrow> int option" where
  "checked_sub_i64 a b = (if in_i64 (a - b) then Some (a - b) else None)"

definition i64_try_from :: "u64 \<Rightarrow> int option" where
  "i64_try_from a = (if unat a < 2 ^ 63 then Some (uint a) else None)"

definition checked_add_word :: "'a::len word \<Rightarrow> 'a word \<Rightarrow> 'a word option" where
  "checked_add_word a b = (if unat a + unat b < 2 ^ LENGTH('a) then Some (a + b) else None)"

definition saturating_add_word :: "'a::len word \<Rightarrow> 'a word \<Rightarrow> 'a word" where
  "saturating_add_word a b = (if unat a + unat b < 2 ^ LENGTH('a) then a + b else - 1)"

definition saturating_sub_word :: "'a::len word \<Rightarrow> 'a word \<Rightarrow> 'a word" where
  "saturating_sub_word a b = (if b \<le> a then a - b else 0)"

text \<open>Arithmetic on \<open>i128\<close> in a release build wraps; products and sums are taken modulo \<open>2 ^ 128\<close>.\<close>

definition wrap_i128 :: "int \<Rightarrow> int" where
  "wrap_i128 x = sint (word_of_int x :: 128 word)"

lemma checked_add_i64_Some [simp]:
  "checked_add_i64 a b = Some c \<longleftrightarrow> c = a + b \<and> in_i64 (a + b)"
  by (auto simp: checked_add_i64_def)

lemma checked_add_i64_None [simp]: "checked_add_i64 a b = None \<longleftrightarrow> \<not> in_i64 (a + b)"
  by (auto simp: checked_add_i64_def)

lemma checked_sub_i64_Some [simp]:
  "checked_sub_i64 a b = Some c \<longleftrightarrow> c = a - b \<and> in_i64 (a - b)"
  by (auto simp: checked_sub_i64_def)

lemma checked_sub_i64_None [simp]: "checked_sub_i64 a b = None \<longleftrightarrow> \<not> in_i64 (a - b)"
  by (auto simp: checked_sub_i64_def)

lemma i64_try_from_SomeD:
  assumes "i64_try_from a = Some x"
  shows "x = int (unat a)" "0 \<le> x" "in_i64 x"
proof -
  have lt: "unat a < 2 ^ 63" and x: "x = uint a"
    using assms by (auto simp: i64_try_from_def split: if_splits)
  show eq: "x = int (unat a)" using x by simp
  show "0 \<le> x" using eq by simp
  have "int (unat a) < int (2 ^ 63)" using lt by (subst of_nat_less_iff)
  then have "x < 2 ^ 63" using eq by simp
  moreover have "- (2 ^ 63) \<le> x" by (rule order_trans [OF _ \<open>0 \<le> x\<close>]) simp
  ultimately show "in_i64 x" by (simp only: in_i64_def)
qed

lemma unat_saturating_add:
  fixes a b :: "'a::len word"
  shows "unat (saturating_add_word a b) = min (2 ^ LENGTH('a) - 1) (unat a + unat b)"
  by (auto simp: saturating_add_word_def unat_word_ariths unsigned_minus_1_eq_mask mask_eq_exp_minus_1)

lemma checked_add_word_SomeD:
  assumes "checked_add_word a b = Some c"
  shows "unat c = unat a + unat b" "c = a + b"
  using assms by (auto simp: checked_add_word_def unat_word_ariths split: if_splits)

lemma checked_add_word_one_SomeD:
  assumes "checked_add_word a (1 :: 'a::len word) = Some c"
  shows "unat c = Suc (unat a)" "a < c" "c = a + 1"
proof -
  have "unat (1 :: 'a word) = 1" by simp
  then show u: "unat c = Suc (unat a)" using checked_add_word_SomeD [OF assms] by simp
  then show "a < c" by (simp add: word_less_nat_alt)
  show "c = a + 1" using checked_add_word_SomeD [OF assms] by simp
qed

section \<open>Little-endian byte strings\<close>

primrec le_bytes :: "nat \<Rightarrow> 'a::len word \<Rightarrow> u8 list" where
  "le_bytes 0 w = []"
| "le_bytes (Suc n) w = ucast w # le_bytes n (drop_bit 8 w)"

primrec from_le_bytes :: "u8 list \<Rightarrow> 'a::len word" where
  "from_le_bytes [] = 0"
| "from_le_bytes (b # bs) = ucast b OR push_bit 8 (from_le_bytes bs)"

lemma length_le_bytes [simp]: "length (le_bytes n w) = n"
  by (induction n arbitrary: w) auto

lemma from_le_le_bytes:
  fixes w :: "'a::len word"
  assumes "8 \<le> LENGTH('a)"
  shows "from_le_bytes (le_bytes n w) = take_bit (8 * n) w"
proof (induction n arbitrary: w)
  case 0
  then show ?case by simp
next
  case (Suc n)
  have "ucast (ucast w :: u8) = take_bit 8 w"
    by (rule bit_word_eqI) (auto simp: bit_simps)
  then have "from_le_bytes (le_bytes (Suc n) w) =
      take_bit 8 w OR push_bit 8 (take_bit (8 * n) (drop_bit 8 w))"
    using Suc.IH by simp
  also have "\<dots> = take_bit (8 * Suc n) w"
    by (rule bit_word_eqI) (auto simp: bit_simps)
  finally show ?case .
qed

text \<open>
  The word of a 32-byte array is its big-endian reading, so the order of words is the
  lexicographic order the code sorts arrays by.
\<close>

definition bytes32_bytes :: "bytes32 \<Rightarrow> u8 list" where
  "bytes32_bytes w = rev (le_bytes 32 w)"

definition from_bytes32 :: "u8 list \<Rightarrow> bytes32" where
  "from_bytes32 bs = from_le_bytes (rev bs)"

abbreviation u64_bytes :: "u64 \<Rightarrow> u8 list" where
  "u64_bytes \<equiv> le_bytes 8"

abbreviation u32_bytes :: "u32 \<Rightarrow> u8 list" where
  "u32_bytes \<equiv> le_bytes 4"

lemma length_bytes32_bytes [simp]: "length (bytes32_bytes w) = 32"
  by (simp add: bytes32_bytes_def)

lemma from_bytes32_bytes [simp]: "from_bytes32 (bytes32_bytes w) = w"
  unfolding from_bytes32_def bytes32_bytes_def rev_rev_ident
  by (subst from_le_le_bytes) (simp_all add: take_bit_word_eq_self)

lemma from_le_bytes64 [simp]: "from_le_bytes (u64_bytes w) = w"
  by (subst from_le_le_bytes) (simp_all add: take_bit_word_eq_self)

lemma from_le_bytes_u32 [simp]: "from_le_bytes (u32_bytes w) = w"
  by (subst from_le_le_bytes) (simp_all add: take_bit_word_eq_self)

lemma bytes32_bytes_inject [simp]: "bytes32_bytes a = bytes32_bytes b \<longleftrightarrow> a = b"
  by (metis from_bytes32_bytes)

lemma u64_bytes_inject [simp]: "u64_bytes a = u64_bytes b \<longleftrightarrow> a = b"
  by (metis from_le_bytes64)

lemma u32_bytes_inject [simp]: "u32_bytes a = u32_bytes b \<longleftrightarrow> a = b"
  by (metis from_le_bytes_u32)

text \<open>The bytes of an ASCII literal, as \<open>b"..."\<close> gives them.\<close>

definition ascii :: "string \<Rightarrow> u8 list" where
  "ascii s = map of_char s"

section \<open>Loops with early return\<close>

text \<open>
  A \<open>for\<close> loop whose body may return an error: the state built up so far is what the caller sees.
\<close>

fun foreach :: "('a \<Rightarrow> 's \<Rightarrow> 'e option \<times> 's) \<Rightarrow> 'a list \<Rightarrow> 's \<Rightarrow> 'e option \<times> 's" where
  "foreach body [] s = (None, s)"
| "foreach body (x # xs) s =
     (case body x s of
        (Some e, s') \<Rightarrow> (Some e, s')
      | (None, s') \<Rightarrow> foreach body xs s')"

lemma foreach_inv:
  assumes "P s" "\<And>x s. x \<in> set xs \<Longrightarrow> P s \<Longrightarrow> P (snd (body x s))"
  shows "P (snd (foreach body xs s))"
  using assms
proof (induction xs arbitrary: s)
  case (Cons x xs)
  obtain e s' where b: "body x s = (e, s')" by (cases "body x s")
  then have "P s'" using Cons.prems(2) [of x s] Cons.prems(1) by simp
  then show ?case using b Cons.IH [of s'] Cons.prems(2) by (cases e) auto
qed simp

lemma foreach_append:
  "foreach body (xs @ ys) s =
     (case foreach body xs s of (Some e, s') \<Rightarrow> (Some e, s') | (None, s') \<Rightarrow> foreach body ys s')"
  by (induction xs arbitrary: s) (auto split: prod.splits option.splits)

section \<open>Checks with early return\<close>

text \<open>
  The \<open>?\<close> operator on \<open>Result\<close>: \<open>and_then\<close> passes the first error on, \<open>ensure\<close> is a guard with its error,
  \<open>all_ok\<close> a sequence of checks and \<open>check_all\<close> a loop of them.
\<close>

definition and_then :: "'e + 'a \<Rightarrow> ('a \<Rightarrow> 'e + 'b) \<Rightarrow> 'e + 'b" where
  "and_then r k = (case r of Inl e \<Rightarrow> Inl e | Inr x \<Rightarrow> k x)"

definition ensure :: "bool \<Rightarrow> 'e \<Rightarrow> 'e + unit" where
  "ensure b e = (if b then Inr () else Inl e)"

definition ok_or :: "'a option \<Rightarrow> 'e \<Rightarrow> 'e + 'a" where
  "ok_or x e = (case x of Some v \<Rightarrow> Inr v | None \<Rightarrow> Inl e)"

primrec all_ok :: "('e + unit) list \<Rightarrow> 'e + unit" where
  "all_ok [] = Inr ()"
| "all_ok (r # rs) = (case r of Inl e \<Rightarrow> Inl e | Inr _ \<Rightarrow> all_ok rs)"

fun check_all :: "('a \<Rightarrow> 'e + unit) \<Rightarrow> 'a list \<Rightarrow> 'e + unit" where
  "check_all f [] = Inr ()"
| "check_all f (x # xs) = (case f x of Inl e \<Rightarrow> Inl e | Inr _ \<Rightarrow> check_all f xs)"

lemma and_then_simps [simp]: "and_then (Inl e) k = Inl e" "and_then (Inr x) k = k x"
  by (simp_all add: and_then_def)

lemma and_then_ok: "and_then r k = Inr y \<longleftrightarrow> (\<exists>x. r = Inr x \<and> k x = Inr y)"
  by (cases r) auto

lemma ensure_ok [simp]: "ensure b e = Inr u \<longleftrightarrow> b"
  by (simp add: ensure_def)

lemma ensure_simps [simp]: "ensure True e = Inr ()" "ensure False e = Inl e"
  by (simp_all add: ensure_def)

lemma ensure_error: "ensure b e = Inl e' \<longleftrightarrow> \<not> b \<and> e' = e"
  by (auto simp: ensure_def)

lemma ok_or_ok [simp]: "ok_or x e = Inr v \<longleftrightarrow> x = Some v"
  by (cases x) (auto simp: ok_or_def)

lemma ok_or_simps [simp]: "ok_or (Some v) e = Inr v" "ok_or None e = Inl e"
  by (simp_all add: ok_or_def)

lemma all_ok_iff: "all_ok rs = Inr () \<longleftrightarrow> (\<forall>r \<in> set rs. r = Inr ())"
  by (induction rs) (auto split: sum.splits)

lemma check_all_iff: "check_all f xs = Inr u \<longleftrightarrow> (\<forall>x \<in> set xs. f x = Inr ())"
  by (induction xs) (auto split: sum.splits)

lemma check_all_ok: "check_all f xs = Inr u \<Longrightarrow> x \<in> set xs \<Longrightarrow> f x = Inr ()"
  by (induction xs) (auto split: sum.splits)

section \<open>Lists and maps\<close>

lemma find_eq_filter_hd:
  "find P xs = (case filter P xs of [] \<Rightarrow> None | x # _ \<Rightarrow> Some x)"
  by (induction xs) auto

lemma find_distinct_key:
  assumes "distinct (map k xs)" "x \<in> set xs" "k x = s"
  shows "find (\<lambda>r. k r = s) xs = Some x"
  using assms by (induction xs) auto

lemma find_SomeD: "find P xs = Some x \<Longrightarrow> x \<in> set xs \<and> P x"
  by (auto simp: find_Some_iff in_set_conv_nth)

lemma find_filter_ne:
  "s \<noteq> t \<Longrightarrow> find (\<lambda>r. k r = s) (filter (\<lambda>r. k r \<noteq> t) xs) = find (\<lambda>r. k r = s) xs"
  by (induction xs) auto

lemma find_filter_eq: "find (\<lambda>r. k r = s) (filter (\<lambda>r. k r \<noteq> s) xs) = None"
  by (simp add: find_None_iff)

lemma find_append: "find P (xs @ ys) = (case find P xs of None \<Rightarrow> find P ys | Some x \<Rightarrow> Some x)"
  by (induction xs) auto

lemma find_map_key:
  assumes "\<And>x. k (f x) = k x"
  shows "find (\<lambda>r. k r = s) (map f xs) = map_option f (find (\<lambda>r. k r = s) xs)"
  using assms by (induction xs) auto

lemma filter_other_key:
  "k x \<notin> k ` set xs \<Longrightarrow> filter (\<lambda>r. k r \<noteq> k x) xs = xs"
  by (induction xs) auto

lemma mset_filter_key_append:
  assumes "distinct (map k xs)" "x \<in> set xs"
  shows "mset (filter (\<lambda>r. k r \<noteq> k x) xs @ [x]) = mset xs"
  using assms
proof (induction xs)
  case (Cons y ys)
  show ?case
  proof (cases "x = y")
    case True
    then show ?thesis using Cons.prems filter_other_key [of k y ys] by simp
  next
    case False
    then have "x \<in> set ys" using Cons.prems by simp
    then have "k y \<noteq> k x" using Cons.prems by auto
    then show ?thesis using Cons.IH Cons.prems \<open>x \<in> set ys\<close> by simp
  qed
qed simp

text \<open>
  Totals over a finite map. \<open>map_total f m\<close> adds \<open>f v\<close> over the values of \<open>m\<close>; the conservation
  theorems say which operations leave such a total unchanged.
\<close>

definition map_total :: "('v \<Rightarrow> int) \<Rightarrow> ('k \<rightharpoonup> 'v) \<Rightarrow> int" where
  "map_total f m = (\<Sum>k \<in> dom m. f (the (m k)))"

lemma map_total_upd_new:
  assumes "finite (dom m)" "m k = None"
  shows "map_total f (m(k \<mapsto> v)) = map_total f m + f v"
proof -
  have k: "k \<notin> dom m" using assms by auto
  have "map_total f (m(k \<mapsto> v)) = (\<Sum>x \<in> insert k (dom m). f (the ((m(k \<mapsto> v)) x)))"
    by (simp only: map_total_def dom_fun_upd option.distinct if_False)
  also have "\<dots> = f v + (\<Sum>x \<in> dom m. f (the ((m(k \<mapsto> v)) x)))"
    using assms k by simp
  also have "(\<Sum>x \<in> dom m. f (the ((m(k \<mapsto> v)) x))) = map_total f m"
    unfolding map_total_def using k by (intro sum.cong) auto
  finally show ?thesis by (simp only: add.commute)
qed

lemma map_total_upd:
  assumes "finite (dom m)" "m k = Some v"
  shows "map_total f (m(k \<mapsto> w)) = map_total f m - f v + f w"
proof -
  define n where "n = m(k := None)"
  have fin: "finite (dom n)" and none: "n k = None"
    using assms by (auto simp: n_def)
  have m: "m = n(k \<mapsto> v)" and mw: "m(k \<mapsto> w) = n(k \<mapsto> w)"
    using assms by (auto simp: n_def)
  show ?thesis
    unfolding mw map_total_upd_new [OF fin none]
    by (subst m) (simp add: map_total_upd_new [OF fin none])
qed

lemma map_total_remove:
  assumes "finite (dom m)" "m k = Some v"
  shows "map_total f (m(k := None)) = map_total f m - f v"
proof -
  define n where "n = m(k := None)"
  have fin: "finite (dom n)" and none: "n k = None"
    using assms by (auto simp: n_def)
  have "m = n(k \<mapsto> v)" using assms by (auto simp: n_def)
  then have "map_total f m = map_total f n + f v"
    using map_total_upd_new [OF fin none, of f v] by simp
  then show ?thesis by (simp add: n_def)
qed

end
