(* ===== verification/Permissions.thy ===== *)
theory Permissions
  imports Prelude
begin

text \<open>
  The authorization lattice of \<open>cell/src/permissions.rs\<close>: the requirement an action carries
  (\<open>AuthRequired\<close>), the kind of authorization a turn provides (\<open>AuthKind\<close>), the eight-slot
  permission record of a cell and its presets. The narrowing relation of the code is shown to be
  a bounded partial order, and narrowing is shown sound for what satisfies a requirement.
\<close>

section \<open>Requirements and provided authorization\<close>

datatype auth_required =
    AuthNone
  | Signature
  | Proof
  | Either
  | Impossible
  | Custom (vk_hash: bytes32)

datatype auth_kind = SignatureKind | ProofKind

fun is_satisfied_by :: "auth_required \<Rightarrow> auth_kind \<Rightarrow> bool" where
  "is_satisfied_by AuthNone provided = True"
| "is_satisfied_by Signature provided = (provided = SignatureKind)"
| "is_satisfied_by Proof provided = (provided = ProofKind)"
| "is_satisfied_by Either provided = (provided = SignatureKind \<or> provided = ProofKind)"
| "is_satisfied_by Impossible provided = False"
| "is_satisfied_by (Custom _) provided = False"

fun is_narrower_or_equal :: "auth_required \<Rightarrow> auth_required \<Rightarrow> bool" where
  "is_narrower_or_equal Impossible _ = True"
| "is_narrower_or_equal _ Impossible = False"
| "is_narrower_or_equal _ AuthNone = True"
| "is_narrower_or_equal AuthNone _ = False"
| "is_narrower_or_equal Proof Either = True"
| "is_narrower_or_equal Signature Either = True"
| "is_narrower_or_equal (Custom a) (Custom b) = (a = b)"
| "is_narrower_or_equal (Custom _) _ = False"
| "is_narrower_or_equal _ (Custom _) = False"
| "is_narrower_or_equal a b = (a = b)"

lemma narrower_refl [simp]: "is_narrower_or_equal a a"
  by (cases a) auto

lemma narrower_trans:
  "is_narrower_or_equal a b \<Longrightarrow> is_narrower_or_equal b c \<Longrightarrow> is_narrower_or_equal a c"
  by (cases a; cases b; cases c) auto

lemma narrower_antisym:
  "is_narrower_or_equal a b \<Longrightarrow> is_narrower_or_equal b a \<Longrightarrow> a = b"
  by (cases a; cases b) auto

lemma narrower_top [simp]: "is_narrower_or_equal a AuthNone"
  by (cases a) auto

lemma narrower_Impossible_iff [simp]: "is_narrower_or_equal a Impossible \<longleftrightarrow> a = Impossible"
  by (cases a) auto

lemma AuthNone_narrower_iff [simp]: "is_narrower_or_equal AuthNone a \<longleftrightarrow> a = AuthNone"
  by (cases a) auto

text \<open>The narrowing relation is the order of the type, so the library's order lemmas apply.\<close>

instantiation auth_required :: "{order_bot, order_top}"
begin

definition less_eq_auth_required :: "auth_required \<Rightarrow> auth_required \<Rightarrow> bool" where
  "a \<le> b \<longleftrightarrow> is_narrower_or_equal a b"

definition less_auth_required :: "auth_required \<Rightarrow> auth_required \<Rightarrow> bool" where
  "a < b \<longleftrightarrow> is_narrower_or_equal a b \<and> a \<noteq> b"

definition bot_auth_required :: auth_required where
  "bot = Impossible"

definition top_auth_required :: auth_required where
  "top = AuthNone"

instance
proof
  fix a b c :: auth_required
  show "(a < b) = (a \<le> b \<and> \<not> b \<le> a)"
    unfolding less_eq_auth_required_def less_auth_required_def
    using narrower_antisym by blast
  show "a \<le> a" by (simp add: less_eq_auth_required_def)
  show "a \<le> b \<Longrightarrow> b \<le> c \<Longrightarrow> a \<le> c"
    unfolding less_eq_auth_required_def by (rule narrower_trans)
  show "a \<le> b \<Longrightarrow> b \<le> a \<Longrightarrow> a = b"
    unfolding less_eq_auth_required_def by (rule narrower_antisym)
  show "bot \<le> a" by (simp add: less_eq_auth_required_def bot_auth_required_def)
  show "a \<le> top" by (simp add: less_eq_auth_required_def top_auth_required_def)
qed

end

lemmas auth_order_defs =
  less_eq_auth_required_def less_auth_required_def bot_auth_required_def top_auth_required_def

lemma narrower_satisfied:
  "is_narrower_or_equal a b \<Longrightarrow> is_satisfied_by a k \<Longrightarrow> is_satisfied_by b k"
  by (cases a; cases b) auto

section \<open>Permission records\<close>

datatype action =
    Send
  | Receive
  | SetState
  | SetPermissions
  | SetVerificationKey
  | IncrementNonce
  | Delegate
  | Access

record permissions =
  p_send :: auth_required
  p_receive :: auth_required
  p_set_state :: auth_required
  p_set_permissions :: auth_required
  p_set_verification_key :: auth_required
  p_increment_nonce :: auth_required
  p_delegate :: auth_required
  p_access :: auth_required

definition default_user :: permissions where
  "default_user = \<lparr>p_send = Signature, p_receive = AuthNone, p_set_state = Signature,
     p_set_permissions = Signature, p_set_verification_key = Signature,
     p_increment_nonce = Signature, p_delegate = Signature, p_access = AuthNone\<rparr>"

definition sovereign_default :: permissions where
  "sovereign_default = \<lparr>p_send = Signature, p_receive = AuthNone, p_set_state = Signature,
     p_set_permissions = Signature, p_set_verification_key = Proof,
     p_increment_nonce = Signature, p_delegate = Signature, p_access = AuthNone\<rparr>"

definition zkapp :: permissions where
  "zkapp = \<lparr>p_send = Proof, p_receive = AuthNone, p_set_state = Proof,
     p_set_permissions = Proof, p_set_verification_key = Proof,
     p_increment_nonce = Proof, p_delegate = Proof, p_access = Proof\<rparr>"

definition frozen :: permissions where
  "frozen = \<lparr>p_send = Impossible, p_receive = Impossible, p_set_state = Impossible,
     p_set_permissions = Impossible, p_set_verification_key = Impossible,
     p_increment_nonce = Impossible, p_delegate = Impossible, p_access = Impossible\<rparr>"

definition enveloped_worker :: "bytes32 \<Rightarrow> permissions" where
  "enveloped_worker owner_vk_hash = \<lparr>p_send = Signature, p_receive = AuthNone,
     p_set_state = Signature, p_set_permissions = Custom owner_vk_hash,
     p_set_verification_key = Custom owner_vk_hash, p_increment_nonce = Signature,
     p_delegate = Custom owner_vk_hash, p_access = AuthNone\<rparr>"

fun for_action :: "permissions \<Rightarrow> action \<Rightarrow> auth_required" where
  "for_action p Send = p_send p"
| "for_action p Receive = p_receive p"
| "for_action p SetState = p_set_state p"
| "for_action p SetPermissions = p_set_permissions p"
| "for_action p SetVerificationKey = p_set_verification_key p"
| "for_action p IncrementNonce = p_increment_nonce p"
| "for_action p Delegate = p_delegate p"
| "for_action p Access = p_access p"

definition check_permission :: "permissions \<Rightarrow> action \<Rightarrow> auth_kind \<Rightarrow> bool" where
  "check_permission p a auth = is_satisfied_by (for_action p a) auth"

lemmas preset_defs =
  default_user_def sovereign_default_def zkapp_def frozen_def enveloped_worker_def

text \<open>The actions that widen a cell's authority: changing its gates, its key, or delegating.\<close>

definition widening_actions :: "action set" where
  "widening_actions = {SetPermissions, SetVerificationKey, Delegate}"

lemma for_action_enveloped_worker:
  "for_action (enveloped_worker vk) a =
     (if a \<in> widening_actions then Custom vk
      else if a = Receive \<or> a = Access then AuthNone else Signature)"
  by (cases a) (auto simp: enveloped_worker_def widening_actions_def)

lemma for_action_frozen [simp]: "for_action frozen a = Impossible"
  by (cases a) (auto simp: frozen_def)

lemma check_permission_mono:
  assumes "for_action p a \<le> for_action q a" "check_permission p a k"
  shows "check_permission q a k"
  using assms narrower_satisfied by (auto simp: check_permission_def less_eq_auth_required_def)

section \<open>Properties\<close>

text \<open>Narrowing a permission slot is sound and narrowing is a bounded partial order: whatever
  authorization satisfies the narrower requirement satisfies the wider one, mutual narrowing is
  equality, narrowing composes, \<open>Impossible\<close> is below and \<open>None\<close> is above every requirement.\<close>

theorem auth_narrowing_sound:
  assumes "is_narrower_or_equal a b"
  shows "(\<forall>k. is_satisfied_by a k \<longrightarrow> is_satisfied_by b k) \<and>
    (is_narrower_or_equal b a \<longrightarrow> a = b) \<and>
    (\<forall>c. is_narrower_or_equal b c \<longrightarrow> is_narrower_or_equal a c) \<and>
    is_narrower_or_equal Impossible a \<and> is_narrower_or_equal b AuthNone"
  using assms narrower_satisfied narrower_antisym narrower_trans by auto

theorem auth_narrowing_sound_witness:
  "is_satisfied_by Signature SignatureKind \<and> is_satisfied_by Either SignatureKind"
  using auth_narrowing_sound [of Signature Either] by simp

text \<open>A worker stamped with the owner envelope: neither a signature nor a proof ever authorizes an
  authority-widening action (changing permissions, the verification key, or delegating), while the
  host can still drive the cell by signature.\<close>

theorem enveloped_worker_gates_widening:
  "check_permission (enveloped_worker vk) a k \<longleftrightarrow>
     a = Receive \<or> a = Access \<or> (a \<notin> widening_actions \<and> k = SignatureKind)"
  by (cases a) (auto simp: check_permission_def enveloped_worker_def widening_actions_def)

end
