(* ===== verification/Facet.thy ===== *)
theory Facet
  imports Prelude
begin

unbundle bit_operations_syntax

text \<open>
  Effect masks and extended facets (\<open>cell/src/facet.rs\<close>). A capability may carry a 32-bit mask of
  the effect kinds it permits; an extended facet adds parameterised constraints. The lemmas show
  that mask attenuation is exactly bitwise inclusion and that attenuation of an extended facet
  never lets an effect through that the parent refuses, and record the one constraint
  (\<open>RateLimit\<close>, whose running counter the comparison ignores) where that fails.
\<close>

section \<open>Effect kinds\<close>

type_synonym effect_mask = u32

definition EFFECT_SET_FIELD :: effect_mask where "EFFECT_SET_FIELD = push_bit 0 1"
definition EFFECT_TRANSFER :: effect_mask where "EFFECT_TRANSFER = push_bit 1 1"
definition EFFECT_GRANT_CAPABILITY :: effect_mask where "EFFECT_GRANT_CAPABILITY = push_bit 2 1"
definition EFFECT_REVOKE_CAPABILITY :: effect_mask where "EFFECT_REVOKE_CAPABILITY = push_bit 3 1"
definition EFFECT_EMIT_EVENT :: effect_mask where "EFFECT_EMIT_EVENT = push_bit 4 1"
definition EFFECT_INCREMENT_NONCE :: effect_mask where "EFFECT_INCREMENT_NONCE = push_bit 5 1"
definition EFFECT_CREATE_CELL :: effect_mask where "EFFECT_CREATE_CELL = push_bit 6 1"
definition EFFECT_SET_PERMISSIONS :: effect_mask where "EFFECT_SET_PERMISSIONS = push_bit 7 1"
definition EFFECT_SET_VERIFICATION_KEY :: effect_mask where
  "EFFECT_SET_VERIFICATION_KEY = push_bit 8 1"
definition EFFECT_NOTE_SPEND :: effect_mask where "EFFECT_NOTE_SPEND = push_bit 9 1"
definition EFFECT_NOTE_CREATE :: effect_mask where "EFFECT_NOTE_CREATE = push_bit 10 1"
definition EFFECT_SEAL_OPS :: effect_mask where "EFFECT_SEAL_OPS = push_bit 11 1"
definition EFFECT_BRIDGE_OPS :: effect_mask where "EFFECT_BRIDGE_OPS = push_bit 12 1"
definition EFFECT_INTRODUCE :: effect_mask where "EFFECT_INTRODUCE = push_bit 13 1"
definition EFFECT_OBLIGATION_OPS :: effect_mask where "EFFECT_OBLIGATION_OPS = push_bit 14 1"
definition EFFECT_ESCROW_OPS :: effect_mask where "EFFECT_ESCROW_OPS = push_bit 15 1"
definition EFFECT_DELEGATION_OPS :: effect_mask where "EFFECT_DELEGATION_OPS = push_bit 16 1"
definition EFFECT_SOVEREIGN_OPS :: effect_mask where "EFFECT_SOVEREIGN_OPS = push_bit 17 1"
definition EFFECT_QUEUE_OPS :: effect_mask where "EFFECT_QUEUE_OPS = push_bit 18 1"
definition EFFECT_CAPTP_OPS :: effect_mask where "EFFECT_CAPTP_OPS = push_bit 19 1"
definition EFFECT_REFUSAL :: effect_mask where "EFFECT_REFUSAL = push_bit 20 1"
definition EFFECT_LIFECYCLE_OPS :: effect_mask where "EFFECT_LIFECYCLE_OPS = push_bit 21 1"
definition EFFECT_BURN :: effect_mask where "EFFECT_BURN = push_bit 22 1"
definition EFFECT_ATTENUATE_CAPABILITY :: effect_mask where
  "EFFECT_ATTENUATE_CAPABILITY = push_bit 23 1"
definition EFFECT_SET_PROGRAM :: effect_mask where "EFFECT_SET_PROGRAM = push_bit 24 1"
definition EFFECT_REACTIVE_OPS :: effect_mask where "EFFECT_REACTIVE_OPS = push_bit 25 1"
definition EFFECT_MINT :: effect_mask where "EFFECT_MINT = push_bit 26 1"
definition EFFECT_ALL :: effect_mask where "EFFECT_ALL = 0xFFFFFFFF"

lemmas effect_bit_defs =
  EFFECT_SET_FIELD_def EFFECT_TRANSFER_def EFFECT_GRANT_CAPABILITY_def
  EFFECT_REVOKE_CAPABILITY_def EFFECT_EMIT_EVENT_def EFFECT_INCREMENT_NONCE_def
  EFFECT_CREATE_CELL_def EFFECT_SET_PERMISSIONS_def EFFECT_SET_VERIFICATION_KEY_def
  EFFECT_NOTE_SPEND_def EFFECT_NOTE_CREATE_def EFFECT_SEAL_OPS_def EFFECT_BRIDGE_OPS_def
  EFFECT_INTRODUCE_def EFFECT_OBLIGATION_OPS_def EFFECT_ESCROW_OPS_def
  EFFECT_DELEGATION_OPS_def EFFECT_SOVEREIGN_OPS_def EFFECT_QUEUE_OPS_def
  EFFECT_CAPTP_OPS_def EFFECT_REFUSAL_def EFFECT_LIFECYCLE_OPS_def EFFECT_BURN_def
  EFFECT_ATTENUATE_CAPABILITY_def EFFECT_SET_PROGRAM_def EFFECT_REACTIVE_OPS_def
  EFFECT_MINT_def

definition FACET_READ_ONLY :: effect_mask where "FACET_READ_ONLY = EFFECT_EMIT_EVENT"
definition FACET_TRANSFER_ONLY :: effect_mask where "FACET_TRANSFER_ONLY = EFFECT_TRANSFER"
definition FACET_STATE_WRITER :: effect_mask where
  "FACET_STATE_WRITER = EFFECT_SET_FIELD OR EFFECT_EMIT_EVENT"
definition FACET_ADMIN :: effect_mask where
  "FACET_ADMIN = EFFECT_SET_PERMISSIONS OR EFFECT_SET_VERIFICATION_KEY"
definition FACET_DELEGATOR :: effect_mask where
  "FACET_DELEGATOR = EFFECT_GRANT_CAPABILITY OR EFFECT_REVOKE_CAPABILITY OR EFFECT_INTRODUCE"

section \<open>Mask attenuation\<close>

definition is_facet_attenuation :: "effect_mask \<Rightarrow> effect_mask \<Rightarrow> bool" where
  "is_facet_attenuation parent_mask child_mask \<longleftrightarrow> child_mask AND parent_mask = child_mask"

fun is_effect_permitted :: "effect_mask option \<Rightarrow> effect_mask \<Rightarrow> bool" where
  "is_effect_permitted None effect_bit = True"
| "is_effect_permitted (Some m) effect_bit = (if m = 0 then False else effect_bit AND m \<noteq> 0)"

lemma facet_attenuation_iff_bits:
  "is_facet_attenuation p c \<longleftrightarrow> (\<forall>n < 32. bit c n \<longrightarrow> bit p n)"
  unfolding is_facet_attenuation_def bit_eq_iff
  by (auto simp: bit_simps dest: bit_imp_le_length)

lemma facet_attenuation_refl [simp]: "is_facet_attenuation p p"
  by (simp add: is_facet_attenuation_def)

lemma facet_attenuation_trans:
  "is_facet_attenuation p q \<Longrightarrow> is_facet_attenuation q r \<Longrightarrow> is_facet_attenuation p r"
  by (auto simp: facet_attenuation_iff_bits)

lemma EFFECT_ALL_eq: "EFFECT_ALL = - 1"
  by (simp add: EFFECT_ALL_def)

lemma facet_attenuation_all [simp]: "is_facet_attenuation EFFECT_ALL c"
  unfolding is_facet_attenuation_def EFFECT_ALL_eq by simp

lemma is_effect_permitted_Some [simp]: "is_effect_permitted (Some m) b \<longleftrightarrow> b AND m \<noteq> 0"
  by simp

declare is_effect_permitted.simps(2) [simp del]

lemma attenuation_permitted:
  assumes "is_facet_attenuation p c" "is_effect_permitted (Some c) b"
  shows "is_effect_permitted (Some p) b"
proof -
  have "b AND c = (b AND p) AND c"
    using assms(1) by (metis is_facet_attenuation_def and.assoc and.commute)
  then show ?thesis using assms(2) by auto
qed

text \<open>
  The optional mask of a capability reads as the set of effect bits it lets through; absent means
  everything. \<open>mask_le\<close> is inclusion of what the masks permit.
\<close>

definition mask_le :: "effect_mask option \<Rightarrow> effect_mask option \<Rightarrow> bool" where
  "mask_le c p \<longleftrightarrow> (\<forall>b. is_effect_permitted c b \<longrightarrow> is_effect_permitted p b)"

lemma mask_le_refl [simp]: "mask_le m m"
  by (simp add: mask_le_def)

lemma mask_le_trans: "mask_le a b \<Longrightarrow> mask_le b c \<Longrightarrow> mask_le a c"
  by (simp add: mask_le_def)

lemma mask_le_None [simp]: "mask_le m None"
  by (simp add: mask_le_def)

lemma mask_le_Some: "is_facet_attenuation p c \<Longrightarrow> mask_le (Some c) (Some p)"
  unfolding mask_le_def using attenuation_permitted by blast

section \<open>Human-readable masks\<close>

definition describe_mask :: "effect_mask \<Rightarrow> string list" where
  "describe_mask emask = map snd (filter (\<lambda>(b, _). emask AND b \<noteq> 0)
    [(EFFECT_SET_FIELD, ''SetField''), (EFFECT_TRANSFER, ''Transfer''),
     (EFFECT_GRANT_CAPABILITY, ''GrantCapability''),
     (EFFECT_REVOKE_CAPABILITY, ''RevokeCapability''), (EFFECT_EMIT_EVENT, ''EmitEvent''),
     (EFFECT_INCREMENT_NONCE, ''IncrementNonce''), (EFFECT_CREATE_CELL, ''CreateCell''),
     (EFFECT_SET_PERMISSIONS, ''SetPermissions''),
     (EFFECT_SET_VERIFICATION_KEY, ''SetVerificationKey''),
     (EFFECT_SET_PROGRAM, ''SetProgram''), (EFFECT_NOTE_SPEND, ''NoteSpend''),
     (EFFECT_NOTE_CREATE, ''NoteCreate''), (EFFECT_SEAL_OPS, ''SealOps''),
     (EFFECT_BRIDGE_OPS, ''BridgeOps''), (EFFECT_INTRODUCE, ''Introduce''),
     (EFFECT_OBLIGATION_OPS, ''ObligationOps''), (EFFECT_ESCROW_OPS, ''EscrowOps''),
     (EFFECT_DELEGATION_OPS, ''DelegationOps''), (EFFECT_SOVEREIGN_OPS, ''SovereignOps''),
     (EFFECT_BURN, ''Burn''), (EFFECT_MINT, ''Mint'')])"

section \<open>Extended facets\<close>

datatype facet_constraint =
    MaxTransferAmount u64
  | AllowedTargets "cell_id list"
  | RateLimit (max_per_epoch: u32) (current_epoch_count: u32)
  | Budget (remaining: u64)

record effect_context =
  transfer_amount :: "u64 option"
  target_cell :: "cell_id option"
  ctx_effect_bit :: effect_mask

datatype facet_violation =
    EffectTypeNotPermitted effect_mask effect_mask
  | TransferAmountExceeded u64 u64
  | TargetNotAllowed cell_id
  | RateLimitExceeded u32 u32
  | BudgetExhausted u64 u64

record extended_facet =
  xf_effect_mask :: effect_mask
  xf_constraints :: "facet_constraint list"

definition extended_from_mask :: "effect_mask \<Rightarrow> extended_facet" where
  "extended_from_mask emask = \<lparr>xf_effect_mask = emask, xf_constraints = []\<rparr>"

fun check_constraint :: "facet_constraint \<Rightarrow> effect_context \<Rightarrow> facet_violation + unit" where
  "check_constraint (MaxTransferAmount mx) context =
     (case transfer_amount context of
        Some amount \<Rightarrow> if mx < amount then Inl (TransferAmountExceeded amount mx) else Inr ()
      | None \<Rightarrow> Inr ())"
| "check_constraint (AllowedTargets targets) context =
     (case target_cell context of
        Some target \<Rightarrow> if target \<notin> set targets then Inl (TargetNotAllowed target) else Inr ()
      | None \<Rightarrow> Inr ())"
| "check_constraint (RateLimit max_pe current) context =
     (if max_pe \<le> current then Inl (RateLimitExceeded max_pe current) else Inr ())"
| "check_constraint (Budget rem) context =
     (let amount = (case transfer_amount context of Some a \<Rightarrow> a | None \<Rightarrow> 0)
      in if rem < amount then Inl (BudgetExhausted amount rem) else Inr ())"

fun check_constraints :: "facet_constraint list \<Rightarrow> effect_context \<Rightarrow> facet_violation + unit" where
  "check_constraints [] context = Inr ()"
| "check_constraints (c # cs) context =
     (case check_constraint c context of Inl e \<Rightarrow> Inl e | Inr _ \<Rightarrow> check_constraints cs context)"

definition check_effect ::
  "extended_facet \<Rightarrow> effect_mask \<Rightarrow> effect_context \<Rightarrow> facet_violation + unit" where
  "check_effect f effect_bit context =
     (if \<not> is_effect_permitted (Some (xf_effect_mask f)) effect_bit
      then Inl (EffectTypeNotPermitted effect_bit (xf_effect_mask f))
      else check_constraints (xf_constraints f) context)"

fun is_at_least_as_tight :: "facet_constraint \<Rightarrow> facet_constraint \<Rightarrow> bool" where
  "is_at_least_as_tight (MaxTransferAmount a) (MaxTransferAmount b) = (a \<le> b)"
| "is_at_least_as_tight (AllowedTargets a) (AllowedTargets b) = list_all (\<lambda>t. t \<in> set b) a"
| "is_at_least_as_tight (RateLimit a _) (RateLimit b _) = (a \<le> b)"
| "is_at_least_as_tight (Budget a) (Budget b) = (a \<le> b)"
| "is_at_least_as_tight _ _ = False"

definition is_attenuation_of :: "extended_facet \<Rightarrow> extended_facet \<Rightarrow> bool" where
  "is_attenuation_of child parent \<longleftrightarrow>
     is_facet_attenuation (xf_effect_mask parent) (xf_effect_mask child) \<and>
     list_all (\<lambda>pc. list_ex (\<lambda>c. is_at_least_as_tight c pc) (xf_constraints child))
       (xf_constraints parent)"

lemma check_constraints_ok [simp]:
  "check_constraints cs ctx = Inr () \<longleftrightarrow> (\<forall>c \<in> set cs. check_constraint c ctx = Inr ())"
  by (induction cs) (auto split: sum.splits)

lemma check_effect_ok:
  "check_effect f b ctx = Inr () \<longleftrightarrow>
     is_effect_permitted (Some (xf_effect_mask f)) b \<and>
     (\<forall>c \<in> set (xf_constraints f). check_constraint c ctx = Inr ())"
  by (simp add: check_effect_def)

lemma tight_refl [simp]: "is_at_least_as_tight c c"
  by (cases c) (auto simp: list_all_iff)

lemma tight_trans:
  "is_at_least_as_tight a b \<Longrightarrow> is_at_least_as_tight b c \<Longrightarrow> is_at_least_as_tight a c"
  by (cases a; cases b; cases c) (auto simp: list_all_iff)

text \<open>
  The comparison of two rate limits looks at the limit only. It is sound when the child's counter
  has not been reset below the parent's.
\<close>

fun counter_covers :: "facet_constraint \<Rightarrow> facet_constraint \<Rightarrow> bool" where
  "counter_covers (RateLimit _ child_count) (RateLimit _ parent_count) =
     (parent_count \<le> child_count)"
| "counter_covers _ _ = True"

lemma tight_check:
  assumes "is_at_least_as_tight c p" "counter_covers c p" "check_constraint c ctx = Inr ()"
  shows "check_constraint p ctx = Inr ()"
  using assms
  by (cases c; cases p)
     (auto simp: list_all_iff Let_def split: option.splits if_splits)

lemma attenuation_of_refl: "is_attenuation_of f f"
  by (auto simp: is_attenuation_of_def list_all_iff list_ex_iff intro: tight_refl)

lemma attenuation_of_trans:
  assumes "is_attenuation_of a b" "is_attenuation_of b c"
  shows "is_attenuation_of a c"
  using assms unfolding is_attenuation_of_def list_all_iff list_ex_iff
  by (meson facet_attenuation_trans tight_trans)

section \<open>Facet builder\<close>

record facet_builder =
  fb_mask :: effect_mask

definition facet_builder_new :: facet_builder where
  "facet_builder_new = \<lparr>fb_mask = 0\<rparr>"

definition facet_builder_from_mask :: "effect_mask \<Rightarrow> facet_builder" where
  "facet_builder_from_mask emask = \<lparr>fb_mask = emask\<rparr>"

definition fb_or :: "effect_mask \<Rightarrow> facet_builder \<Rightarrow> facet_builder" where
  "fb_or k b = b\<lparr>fb_mask := fb_mask b OR k\<rparr>"

definition allow_set_field :: "facet_builder \<Rightarrow> facet_builder" where
  "allow_set_field = fb_or EFFECT_SET_FIELD"
definition allow_transfer :: "facet_builder \<Rightarrow> facet_builder" where
  "allow_transfer = fb_or EFFECT_TRANSFER"
definition allow_grant_capability :: "facet_builder \<Rightarrow> facet_builder" where
  "allow_grant_capability = fb_or EFFECT_GRANT_CAPABILITY"
definition allow_revoke_capability :: "facet_builder \<Rightarrow> facet_builder" where
  "allow_revoke_capability = fb_or EFFECT_REVOKE_CAPABILITY"
definition allow_emit_event :: "facet_builder \<Rightarrow> facet_builder" where
  "allow_emit_event = fb_or EFFECT_EMIT_EVENT"
definition allow_increment_nonce :: "facet_builder \<Rightarrow> facet_builder" where
  "allow_increment_nonce = fb_or EFFECT_INCREMENT_NONCE"
definition allow_create_cell :: "facet_builder \<Rightarrow> facet_builder" where
  "allow_create_cell = fb_or EFFECT_CREATE_CELL"
definition allow_set_permissions :: "facet_builder \<Rightarrow> facet_builder" where
  "allow_set_permissions = fb_or EFFECT_SET_PERMISSIONS"
definition allow_set_verification_key :: "facet_builder \<Rightarrow> facet_builder" where
  "allow_set_verification_key = fb_or EFFECT_SET_VERIFICATION_KEY"

definition facet_build :: "facet_builder \<Rightarrow> effect_mask" where
  "facet_build b = fb_mask b"

lemma fb_or_widens: "is_facet_attenuation (facet_build (fb_or k b)) (facet_build b)"
  by (auto simp: facet_attenuation_iff_bits facet_build_def fb_or_def bit_simps)

lemma fb_or_permits:
  assumes "k \<noteq> 0"
  shows "is_effect_permitted (Some (facet_build (fb_or k b))) k"
proof -
  have "k AND (fb_mask b OR k) = k"
    by (rule bit_word_eqI) (auto simp: bit_simps)
  then show ?thesis using assms by (simp add: facet_build_def fb_or_def)
qed

section \<open>Properties\<close>

text \<open>Facet attenuation never amplifies: if a child facet is an attenuation of its parent and
  none of its rate-limit counters lags behind the parent's, every effect the child lets through
  is let through by the parent.\<close>

theorem facet_attenuation_sound:
  assumes "is_attenuation_of child parent"
    and "\<forall>c \<in> set (xf_constraints child). \<forall>p \<in> set (xf_constraints parent). counter_covers c p"
    and "check_effect child b ctx = Inr ()"
  shows "check_effect parent b ctx = Inr ()"
proof -
  have "check_constraint p ctx = Inr ()" if p: "p \<in> set (xf_constraints parent)" for p
  proof -
    obtain c where "c \<in> set (xf_constraints child)" "is_at_least_as_tight c p"
      using assms(1) p by (auto simp: is_attenuation_of_def list_all_iff list_ex_iff)
    then show ?thesis using tight_check assms(2,3) p by (auto simp: check_effect_ok)
  qed
  then show ?thesis
    using assms(1,3) attenuation_permitted by (auto simp: check_effect_ok is_attenuation_of_def)
qed

definition facet_example :: "u64 \<Rightarrow> extended_facet" where
  "facet_example n = \<lparr>xf_effect_mask = EFFECT_TRANSFER, xf_constraints = [MaxTransferAmount n]\<rparr>"

definition context_example :: effect_context where
  "context_example = \<lparr>transfer_amount = Some 5, target_cell = None, ctx_effect_bit = EFFECT_TRANSFER\<rparr>"

theorem facet_attenuation_sound_witness:
  "check_effect (facet_example 10) EFFECT_TRANSFER context_example = Inr () \<and>
   check_effect (facet_example 100) EFFECT_TRANSFER context_example = Inr ()"
proof -
  have "is_attenuation_of (facet_example 10) (facet_example 100)"
    by (simp add: is_attenuation_of_def facet_example_def)
  moreover have "check_effect (facet_example 10) EFFECT_TRANSFER context_example = Inr ()"
    by (simp add: check_effect_def facet_example_def context_example_def EFFECT_TRANSFER_def)
  ultimately show ?thesis
    using facet_attenuation_sound [of "facet_example 10" "facet_example 100" EFFECT_TRANSFER
        context_example]
    by (simp add: facet_example_def)
qed

text \<open>The rate-limit comparison looks at the limits only, so a facet that passes the attenuation
  check can permit an effect its parent refuses: the child's counter has been reset.\<close>

theorem rate_limit_attenuation_amplifies:
  "\<exists>child parent b ctx.
     is_attenuation_of child parent \<and> check_effect child b ctx = Inr () \<and>
     check_effect parent b ctx = Inl (RateLimitExceeded 5 5)"
proof -
  define mk where "mk = (\<lambda>n. \<lparr>xf_effect_mask = EFFECT_TRANSFER, xf_constraints = [RateLimit 5 n]\<rparr>)"
  have "is_attenuation_of (mk 0) (mk 5) \<and> check_effect (mk 0) EFFECT_TRANSFER context_example = Inr ()
      \<and> check_effect (mk 5) EFFECT_TRANSFER context_example = Inl (RateLimitExceeded 5 5)"
    by (simp add: mk_def is_attenuation_of_def check_effect_def EFFECT_TRANSFER_def)
  then show ?thesis by blast
qed

end
