(* ===== verification/Capability.thy ===== *)
theory Capability
  imports Permissions Facet
begin

unbundle bit_operations_syntax

text \<open>
  Capability lists (\<open>cell/src/capability.rs\<close>), the provenance hashes of \<open>cell/src/derivation.rs\<close>
  that every minted entry carries, and the cached capability root of \<open>cell/src/commitment.rs\<close>.

  A c-list is a record of the live entries in push order, the next slot number, the sorted list
  of revoked slots, and a packed cache of the capability root. Operations that take \<open>&mut self\<close>
  return their result together with the new record; the early return of a grant whose slot
  counter would overflow leaves a record whose cache is already cleared, as in the code.
  \<open>blake3\<close> is the parameter \<open>H\<close> (bytes to 32 bytes); the sorted Poseidon2 root of the circuit
  library is the parameter \<open>root8\<close>, a function of the live entries and the tombstones.
\<close>

section \<open>Provenance\<close>

type_synonym hash_fun = "u8 list \<Rightarrow> bytes32"

definition NO_TURN_CONTEXT :: bytes32 where
  "NO_TURN_CONTEXT = 0"

definition mint_provenance :: "hash_fun \<Rightarrow> bytes32" where
  "mint_provenance H = H (ascii ''dregg-cap-mint-root-v1'')"

definition cap_provenance_preimage :: "cell_id \<Rightarrow> u32 \<Rightarrow> bytes32 \<Rightarrow> bytes32 \<Rightarrow> u8 list" where
  "cap_provenance_preimage target slot parent_provenance created_by_turn =
     ascii ''dregg-cap-provenance-v1'' @ bytes32_bytes target @ u32_bytes slot @
     bytes32_bytes parent_provenance @ bytes32_bytes created_by_turn"

definition cap_provenance :: "hash_fun \<Rightarrow> cell_id \<Rightarrow> u32 \<Rightarrow> bytes32 \<Rightarrow> bytes32 \<Rightarrow> bytes32" where
  "cap_provenance H target slot parent_provenance created_by_turn =
     H (cap_provenance_preimage target slot parent_provenance created_by_turn)"

definition cred_nul :: "hash_fun \<Rightarrow> bytes32 \<Rightarrow> bytes32" where
  "cred_nul H provenance = H (ascii ''dregg-cred-revocation-v1'' @ bytes32_bytes provenance)"

definition chan_nul :: "hash_fun \<Rightarrow> bytes32 \<Rightarrow> bytes32" where
  "chan_nul H channel_id = H (ascii ''dregg-chan-revocation-v1'' @ bytes32_bytes channel_id)"

lemma cap_provenance_preimage_inject [simp]:
  "cap_provenance_preimage t s p c = cap_provenance_preimage t' s' p' c' \<longleftrightarrow>
     t = t' \<and> s = s' \<and> p = p' \<and> c = c'"
  by (simp add: cap_provenance_preimage_def)

lemma cred_chan_preimage_ne:
  "ascii ''dregg-cred-revocation-v1'' @ xs \<noteq> ascii ''dregg-chan-revocation-v1'' @ ys"
  by (simp add: ascii_def)

section \<open>Capability references\<close>

record capability_ref =
  cr_target :: cell_id
  cr_slot :: u32
  cr_permissions :: auth_required
  cr_breadstuff :: "bytes32 option"
  cr_expires_at :: "u64 option"
  cr_allowed_effects :: "effect_mask option"
  cr_stored_epoch :: "u64 option"
  cr_provenance :: bytes32

record attenuated_cap =
  ac_target :: cell_id
  ac_permissions :: auth_required
  ac_breadstuff :: "bytes32 option"
  ac_expires_at :: "u64 option"
  ac_allowed_effects :: "effect_mask option"
  ac_stored_epoch :: "u64 option"
  ac_parent_provenance :: bytes32

text \<open>\<open>r.expires_at.is_none_or(|exp| current_height <= exp)\<close>\<close>

definition unexpired :: "u64 option \<Rightarrow> u64 \<Rightarrow> bool" where
  "unexpired e current_height = (case e of None \<Rightarrow> True | Some x \<Rightarrow> current_height \<le> x)"

section \<open>The capability-root cache\<close>

definition PRESENT :: u64 where
  "PRESENT = push_bit 32 1"

definition cap_root_cache_load :: "u64 \<Rightarrow> u32 option" where
  "cap_root_cache_load packed =
     (if packed AND PRESENT \<noteq> 0 then Some (ucast (packed AND 0xFFFFFFFF)) else None)"

definition cap_root_cache_store :: "u32 option \<Rightarrow> u64" where
  "cap_root_cache_store value = (case value of Some v \<Rightarrow> PRESENT OR ucast v | None \<Rightarrow> 0)"

lemma PRESENT_eq: "PRESENT = 0x100000000"
  by (simp add: PRESENT_def)

lemma bit_PRESENT: "bit PRESENT n \<longleftrightarrow> n = 32"
  unfolding PRESENT_def by (simp only: bit_push_bit_iff) (auto simp: bit_1_iff)

lemma mask32_u64: "(0xFFFFFFFF :: u64) = mask 32"
  by (simp add: mask_eq_exp_minus_1)

lemma cache_load_store [simp]: "cap_root_cache_load (cap_root_cache_store v) = v"
proof (cases v)
  case None
  then show ?thesis by (simp add: cap_root_cache_load_def cap_root_cache_store_def)
next
  case (Some w)
  have "bit ((PRESENT OR ucast w) AND PRESENT) 32"
    by (simp add: bit_simps bit_PRESENT)
  then have present: "(PRESENT OR ucast w) AND PRESENT \<noteq> 0"
    by (metis bit_0_eq bot_apply bot_bool_def)
  have "(ucast ((PRESENT OR ucast w) AND (mask 32 :: u64)) :: u32) = w"
    by (rule bit_word_eqI) (auto simp: bit_simps bit_PRESENT)
  then show ?thesis
    using Some present by (simp add: cap_root_cache_load_def cap_root_cache_store_def mask32_u64)
qed

lemma cache_load_zero [simp]: "cap_root_cache_load 0 = None"
  by (simp add: cap_root_cache_load_def)

section \<open>Capability sets\<close>

record capability_set =
  cs_refs :: "capability_ref list"
  cs_next_slot :: u32
  cs_cap_root_cache :: u64
  cs_tombstones :: "u32 list"

definition clist_new :: capability_set where
  "clist_new = \<lparr>cs_refs = [], cs_next_slot = 0, cs_cap_root_cache = 0, cs_tombstones = []\<rparr>"

definition invalidate_cap_root_cache :: "capability_set \<Rightarrow> capability_set" where
  "invalidate_cap_root_cache s = s\<lparr>cs_cap_root_cache := cap_root_cache_store None\<rparr>"

definition BABYBEAR_P :: nat where
  "BABYBEAR_P = 2 ^ 31 - 2 ^ 27 + 1"

definition BabyBear_new :: "u32 \<Rightarrow> u32" where
  "BabyBear_new v = of_nat (unat v mod BABYBEAR_P)"

definition cached_cap_root :: "capability_set \<Rightarrow> u32 option" where
  "cached_cap_root s = map_option BabyBear_new (cap_root_cache_load (cs_cap_root_cache s))"

definition store_cap_root :: "u32 \<Rightarrow> capability_set \<Rightarrow> capability_set" where
  "store_cap_root felt s = s\<lparr>cs_cap_root_cache := cap_root_cache_store (Some felt)\<rparr>"

text \<open>
  The grants differ in the entry they push; \<open>clist_push\<close> is their common body: clear the cache,
  take the next slot, advance the counter or stop, append the entry.
\<close>

definition clist_push ::
  "capability_set \<Rightarrow> (u32 \<Rightarrow> capability_ref) \<Rightarrow> u32 option \<times> capability_set" where
  "clist_push s entry =
     (let s = invalidate_cap_root_cache s; slot = cs_next_slot s in
      case checked_add_word slot 1 of
        None \<Rightarrow> (None, s)
      | Some n \<Rightarrow> (Some slot, s\<lparr>cs_next_slot := n, cs_refs := cs_refs s @ [entry slot]\<rparr>))"

definition grant_provenanced ::
  "hash_fun \<Rightarrow> capability_set \<Rightarrow> cell_id \<Rightarrow> auth_required \<Rightarrow> bytes32 option \<Rightarrow> u64 option \<Rightarrow>
   effect_mask option \<Rightarrow> u64 option \<Rightarrow> bytes32 \<Rightarrow> bytes32 \<Rightarrow> u32 option \<times> capability_set" where
  "grant_provenanced H s target perms breadstuff expires_at allowed_effects stored_epoch
     parent_provenance created_by_turn =
     clist_push s (\<lambda>slot.
       \<lparr>cr_target = target, cr_slot = slot, cr_permissions = perms, cr_breadstuff = breadstuff,
        cr_expires_at = expires_at, cr_allowed_effects = allowed_effects,
        cr_stored_epoch = stored_epoch,
        cr_provenance = cap_provenance H target slot parent_provenance created_by_turn\<rparr>)"

definition grant_with_breadstuff ::
  "hash_fun \<Rightarrow> capability_set \<Rightarrow> cell_id \<Rightarrow> auth_required \<Rightarrow> bytes32 option \<Rightarrow>
   u32 option \<times> capability_set" where
  "grant_with_breadstuff H s target perms breadstuff =
     clist_push s (\<lambda>slot.
       \<lparr>cr_target = target, cr_slot = slot, cr_permissions = perms, cr_breadstuff = breadstuff,
        cr_expires_at = None, cr_allowed_effects = None, cr_stored_epoch = None,
        cr_provenance = cap_provenance H target slot (mint_provenance H) NO_TURN_CONTEXT\<rparr>)"

definition grant ::
  "hash_fun \<Rightarrow> capability_set \<Rightarrow> cell_id \<Rightarrow> auth_required \<Rightarrow> u32 option \<times> capability_set" where
  "grant H s target perms = grant_with_breadstuff H s target perms None"

definition grant_with_expiry ::
  "hash_fun \<Rightarrow> capability_set \<Rightarrow> cell_id \<Rightarrow> auth_required \<Rightarrow> u64 \<Rightarrow> u32 option \<times> capability_set"
  where
  "grant_with_expiry H s target perms expires_at =
     clist_push s (\<lambda>slot.
       \<lparr>cr_target = target, cr_slot = slot, cr_permissions = perms, cr_breadstuff = None,
        cr_expires_at = Some expires_at, cr_allowed_effects = None, cr_stored_epoch = None,
        cr_provenance = cap_provenance H target slot (mint_provenance H) NO_TURN_CONTEXT\<rparr>)"

definition grant_full ::
  "hash_fun \<Rightarrow> capability_set \<Rightarrow> cell_id \<Rightarrow> auth_required \<Rightarrow> bytes32 option \<Rightarrow> u64 option \<Rightarrow>
   u32 option \<times> capability_set" where
  "grant_full H s target perms breadstuff expires_at =
     clist_push s (\<lambda>slot.
       \<lparr>cr_target = target, cr_slot = slot, cr_permissions = perms, cr_breadstuff = breadstuff,
        cr_expires_at = expires_at, cr_allowed_effects = None, cr_stored_epoch = None,
        cr_provenance = cap_provenance H target slot (mint_provenance H) NO_TURN_CONTEXT\<rparr>)"

definition grant_ref_provenanced ::
  "hash_fun \<Rightarrow> capability_set \<Rightarrow> capability_ref \<Rightarrow> bytes32 \<Rightarrow> u32 option \<times> capability_set" where
  "grant_ref_provenanced H s cap created_by_turn =
     clist_push s (\<lambda>slot.
       \<lparr>cr_target = cr_target cap, cr_slot = slot, cr_permissions = cr_permissions cap,
        cr_breadstuff = cr_breadstuff cap, cr_expires_at = cr_expires_at cap,
        cr_allowed_effects = cr_allowed_effects cap, cr_stored_epoch = cr_stored_epoch cap,
        cr_provenance = cap_provenance H (cr_target cap) slot (cr_provenance cap) created_by_turn\<rparr>)"

definition grant_ref ::
  "hash_fun \<Rightarrow> capability_set \<Rightarrow> capability_ref \<Rightarrow> u32 option \<times> capability_set" where
  "grant_ref H s cap =
     clist_push s (\<lambda>slot.
       \<lparr>cr_target = cr_target cap, cr_slot = slot, cr_permissions = cr_permissions cap,
        cr_breadstuff = cr_breadstuff cap, cr_expires_at = cr_expires_at cap,
        cr_allowed_effects = cr_allowed_effects cap, cr_stored_epoch = cr_stored_epoch cap,
        cr_provenance = cap_provenance H (cr_target cap) slot (cr_provenance cap) NO_TURN_CONTEXT\<rparr>)"

definition grant_snapshot ::
  "hash_fun \<Rightarrow> capability_set \<Rightarrow> cell_id \<Rightarrow> auth_required \<Rightarrow> bytes32 option \<Rightarrow> u64 \<Rightarrow>
   u32 option \<times> capability_set" where
  "grant_snapshot H s target perms breadstuff stored_epoch =
     clist_push s (\<lambda>slot.
       \<lparr>cr_target = target, cr_slot = slot, cr_permissions = perms, cr_breadstuff = breadstuff,
        cr_expires_at = None, cr_allowed_effects = None, cr_stored_epoch = Some stored_epoch,
        cr_provenance = cap_provenance H target slot (mint_provenance H) NO_TURN_CONTEXT\<rparr>)"

definition grant_faceted ::
  "hash_fun \<Rightarrow> capability_set \<Rightarrow> cell_id \<Rightarrow> auth_required \<Rightarrow> effect_mask \<Rightarrow>
   u32 option \<times> capability_set" where
  "grant_faceted H s target perms emask =
     clist_push s (\<lambda>slot.
       \<lparr>cr_target = target, cr_slot = slot, cr_permissions = perms, cr_breadstuff = None,
        cr_expires_at = None, cr_allowed_effects = Some emask, cr_stored_epoch = None,
        cr_provenance = cap_provenance H target slot (mint_provenance H) NO_TURN_CONTEXT\<rparr>)"

definition insert_attenuated_provenanced ::
  "hash_fun \<Rightarrow> capability_set \<Rightarrow> attenuated_cap \<Rightarrow> bytes32 \<Rightarrow> u32 option \<times> capability_set" where
  "insert_attenuated_provenanced H s cap created_by_turn =
     clist_push s (\<lambda>slot.
       \<lparr>cr_target = ac_target cap, cr_slot = slot, cr_permissions = ac_permissions cap,
        cr_breadstuff = ac_breadstuff cap, cr_expires_at = ac_expires_at cap,
        cr_allowed_effects = ac_allowed_effects cap, cr_stored_epoch = ac_stored_epoch cap,
        cr_provenance =
          cap_provenance H (ac_target cap) slot (ac_parent_provenance cap) created_by_turn\<rparr>)"

definition insert_attenuated ::
  "hash_fun \<Rightarrow> capability_set \<Rightarrow> attenuated_cap \<Rightarrow> u32 option \<times> capability_set" where
  "insert_attenuated H s cap = insert_attenuated_provenanced H s cap NO_TURN_CONTEXT"

text \<open>
  \<open>binary_search\<close> followed by \<open>insert\<close> at the reported position inserts a fresh slot into the sorted
  vector and leaves it alone when the slot is there; the vector is sorted in every well-formed
  set (\<open>clist_wf\<close> below).
\<close>

definition clist_revoke :: "capability_set \<Rightarrow> u32 \<Rightarrow> bool \<times> capability_set" where
  "clist_revoke s slot =
     (let s = invalidate_cap_root_cache s;
          before = length (cs_refs s);
          s = s\<lparr>cs_refs := filter (\<lambda>r. cr_slot r \<noteq> slot) (cs_refs s)\<rparr>;
          removed = length (cs_refs s) < before
      in (removed,
          if removed \<and> slot \<notin> set (cs_tombstones s)
          then s\<lparr>cs_tombstones := insort slot (cs_tombstones s)\<rparr> else s))"

definition clist_lookup :: "capability_set \<Rightarrow> u32 \<Rightarrow> capability_ref option" where
  "clist_lookup s slot = find (\<lambda>r. cr_slot r = slot) (cs_refs s)"

definition has_access :: "capability_set \<Rightarrow> cell_id \<Rightarrow> bool" where
  "has_access s target =
     list_ex (\<lambda>r. cr_target r = target \<and> cr_permissions r \<noteq> Impossible) (cs_refs s)"

definition has_access_at :: "capability_set \<Rightarrow> cell_id \<Rightarrow> u64 \<Rightarrow> bool" where
  "has_access_at s target current_height =
     list_ex (\<lambda>r. cr_target r = target \<and> cr_permissions r \<noteq> Impossible \<and>
                  unexpired (cr_expires_at r) current_height) (cs_refs s)"

definition permits_effect_at ::
  "capability_set \<Rightarrow> cell_id \<Rightarrow> u64 \<Rightarrow> effect_mask \<Rightarrow> bool" where
  "permits_effect_at s target current_height effect_bit =
     list_ex (\<lambda>r. cr_target r = target \<and> cr_permissions r \<noteq> Impossible \<and>
                  unexpired (cr_expires_at r) current_height \<and>
                  is_effect_permitted (cr_allowed_effects r) effect_bit) (cs_refs s)"

definition mask_or_all :: "effect_mask option \<Rightarrow> effect_mask" where
  "mask_or_all m = (case m of Some x \<Rightarrow> x | None \<Rightarrow> EFFECT_ALL)"

definition effect_mask_union_for :: "capability_set \<Rightarrow> cell_id \<Rightarrow> effect_mask" where
  "effect_mask_union_for s target =
     foldl (\<lambda>acc r. acc OR mask_or_all (cr_allowed_effects r)) 0
       (filter (\<lambda>r. cr_target r = target \<and> cr_permissions r \<noteq> Impossible) (cs_refs s))"

definition attenuate :: "capability_set \<Rightarrow> u32 \<Rightarrow> auth_required \<Rightarrow> attenuated_cap option" where
  "attenuate s slot narrower =
     (case clist_lookup s slot of
        None \<Rightarrow> None
      | Some existing \<Rightarrow>
          if \<not> is_narrower_or_equal narrower (cr_permissions existing) then None
          else Some \<lparr>ac_target = cr_target existing, ac_permissions = narrower,
                 ac_breadstuff = cr_breadstuff existing, ac_expires_at = cr_expires_at existing,
                 ac_allowed_effects = cr_allowed_effects existing,
                 ac_stored_epoch = cr_stored_epoch existing,
                 ac_parent_provenance = cr_provenance existing\<rparr>)"

definition attenuate_faceted ::
  "capability_set \<Rightarrow> u32 \<Rightarrow> auth_required \<Rightarrow> effect_mask \<Rightarrow> attenuated_cap option" where
  "attenuate_faceted s slot narrower emask =
     (case clist_lookup s slot of
        None \<Rightarrow> None
      | Some existing \<Rightarrow>
          if \<not> is_narrower_or_equal narrower (cr_permissions existing) then None
          else if \<not> is_facet_attenuation (mask_or_all (cr_allowed_effects existing)) emask then None
          else Some \<lparr>ac_target = cr_target existing, ac_permissions = narrower,
                 ac_breadstuff = cr_breadstuff existing, ac_expires_at = cr_expires_at existing,
                 ac_allowed_effects = Some emask,
                 ac_stored_epoch = cr_stored_epoch existing,
                 ac_parent_provenance = cr_provenance existing\<rparr>)"

definition narrowed_effects ::
  "effect_mask option \<Rightarrow> effect_mask option \<Rightarrow> effect_mask option option" where
  "narrowed_effects existing narrower =
     (case narrower of
        Some new_mask \<Rightarrow>
          if \<not> is_facet_attenuation (mask_or_all existing) new_mask then None
          else Some (Some new_mask)
      | None \<Rightarrow> Some existing)"

fun narrowed_expiry :: "u64 option \<Rightarrow> u64 option \<Rightarrow> u64 option option" where
  "narrowed_expiry (Some e) (Some n) = (if e < n then None else Some (Some n))"
| "narrowed_expiry None (Some n) = Some (Some n)"
| "narrowed_expiry existing_exp None = Some existing_exp"

text \<open>\<open>iter_mut().find(..)\<close>: the first entry with the key is updated.\<close>

fun update_first :: "('a \<Rightarrow> bool) \<Rightarrow> ('a \<Rightarrow> 'a) \<Rightarrow> 'a list \<Rightarrow> 'a list" where
  "update_first P f [] = []"
| "update_first P f (x # xs) = (if P x then f x # xs else x # update_first P f xs)"

definition attenuate_in_place ::
  "(capability_ref \<Rightarrow> bytes32) \<Rightarrow> capability_set \<Rightarrow> u32 \<Rightarrow> auth_required \<Rightarrow>
   effect_mask option \<Rightarrow> u64 option \<Rightarrow> bytes32 option \<times> capability_set" where
  "attenuate_in_place leaf_commitment s slot narrower narrower_effects narrower_exp =
     (case clist_lookup s slot of
        None \<Rightarrow> (None, s)
      | Some existing \<Rightarrow>
          if \<not> is_narrower_or_equal narrower (cr_permissions existing) then (None, s)
          else case narrowed_effects (cr_allowed_effects existing) narrower_effects of
            None \<Rightarrow> (None, s)
          | Some new_effects \<Rightarrow>
              (case narrowed_expiry (cr_expires_at existing) narrower_exp of
                 None \<Rightarrow> (None, s)
               | Some new_expiry \<Rightarrow>
                   let upd = (\<lambda>r. r\<lparr>cr_permissions := narrower, cr_allowed_effects := new_effects,
                                   cr_expires_at := new_expiry\<rparr>);
                       s = invalidate_cap_root_cache s
                   in (Some (leaf_commitment (upd existing)),
                       s\<lparr>cs_refs := update_first (\<lambda>r. cr_slot r = slot) upd (cs_refs s)\<rparr>)))"

definition clist_restore :: "capability_set \<Rightarrow> capability_ref \<Rightarrow> capability_set" where
  "clist_restore s cap =
     (let s = invalidate_cap_root_cache s;
          s = s\<lparr>cs_tombstones := filter (\<lambda>t. t \<noteq> cr_slot cap) (cs_tombstones s)\<rparr>
      in if \<not> list_ex (\<lambda>r. cr_slot r = cr_slot cap) (cs_refs s)
         then s\<lparr>cs_refs := cs_refs s @ [cap]\<rparr> else s)"

text \<open>\<open>iter().max()\<close> of a possibly empty sequence.\<close>

definition list_max :: "'a::linorder list \<Rightarrow> 'a option" where
  "list_max xs = (if xs = [] then None else Some (Max (set xs)))"

definition clist_reconstruct :: "capability_ref list \<Rightarrow> u32 list \<Rightarrow> capability_set" where
  "clist_reconstruct live tombstones =
     (let refs = sort_key cr_slot live;
          tombs = remdups_adj (sort tombstones);
          next_slot = (case list_max (map cr_slot refs @ tombs) of
                         None \<Rightarrow> 0 | Some m \<Rightarrow> saturating_add_word m 1)
      in \<lparr>cs_refs = refs, cs_next_slot = next_slot, cs_cap_root_cache = 0,
          cs_tombstones = tombs\<rparr>)"

definition clist_len :: "capability_set \<Rightarrow> nat" where
  "clist_len s = length (cs_refs s)"

definition clist_is_empty :: "capability_set \<Rightarrow> bool" where
  "clist_is_empty s \<longleftrightarrow> cs_refs s = []"

definition capabilities_for :: "capability_set \<Rightarrow> cell_id \<Rightarrow> capability_ref list" where
  "capabilities_for s target = filter (\<lambda>r. cr_target r = target) (cs_refs s)"

definition lookup_by_target :: "capability_set \<Rightarrow> cell_id \<Rightarrow> capability_ref option" where
  "lookup_by_target s target = find (\<lambda>r. cr_target r = target) (cs_refs s)"

definition is_attenuation :: "auth_required \<Rightarrow> auth_required \<Rightarrow> bool" where
  "is_attenuation held granted = is_narrower_or_equal granted held"

text \<open>
  The canonical root (\<open>compute_canonical_capability_root_felt\<close>): a hit answers from the cache, a
  miss computes the root and stores lane 0. The cache is interior-mutable, so the set is
  returned too.
\<close>

type_synonym root8_fun = "capability_ref list \<Rightarrow> u32 list \<Rightarrow> u32 list"

definition compute_canonical_capability_root_felt ::
  "root8_fun \<Rightarrow> capability_set \<Rightarrow> u32 \<times> capability_set" where
  "compute_canonical_capability_root_felt root8 s =
     (case cached_cap_root s of
        Some cached \<Rightarrow> (cached, s)
      | None \<Rightarrow> (let r = root8 (cs_refs s) (cs_tombstones s) in (r ! 0, store_cap_root (r ! 0) s)))"


section \<open>Well-formed capability sets\<close>

abbreviation live_slots :: "capability_set \<Rightarrow> u32 set" where
  "live_slots s \<equiv> cr_slot ` set (cs_refs s)"

definition clist_wf :: "capability_set \<Rightarrow> bool" where
  "clist_wf s \<longleftrightarrow>
     distinct (map cr_slot (cs_refs s)) \<and>
     sorted (cs_tombstones s) \<and> distinct (cs_tombstones s) \<and>
     live_slots s \<inter> set (cs_tombstones s) = {} \<and>
     (\<forall>k \<in> live_slots s \<union> set (cs_tombstones s). k < cs_next_slot s)"

text \<open>Every slot number handed out so far is either live or tombstoned.\<close>

definition clist_complete :: "capability_set \<Rightarrow> bool" where
  "clist_complete s \<longleftrightarrow> live_slots s \<union> set (cs_tombstones s) = {k. k < cs_next_slot s}"

definition slotted :: "(u32 \<Rightarrow> capability_ref) \<Rightarrow> bool" where
  "slotted entry \<longleftrightarrow> (\<forall>k. cr_slot (entry k) = k)"

lemma clist_wfD:
  assumes "clist_wf s"
  shows "distinct (map cr_slot (cs_refs s))" "sorted (cs_tombstones s)"
    "distinct (cs_tombstones s)" "live_slots s \<inter> set (cs_tombstones s) = {}"
    "k \<in> live_slots s \<Longrightarrow> k < cs_next_slot s"
    "k \<in> set (cs_tombstones s) \<Longrightarrow> k < cs_next_slot s"
  using assms by (auto simp: clist_wf_def)

lemma clist_wf_new [simp]: "clist_wf clist_new" "clist_complete clist_new"
  by (auto simp: clist_wf_def clist_complete_def clist_new_def)

lemma invalidate_simps [simp]:
  "cs_refs (invalidate_cap_root_cache s) = cs_refs s"
  "cs_next_slot (invalidate_cap_root_cache s) = cs_next_slot s"
  "cs_tombstones (invalidate_cap_root_cache s) = cs_tombstones s"
  "cs_cap_root_cache (invalidate_cap_root_cache s) = 0"
  by (simp_all add: invalidate_cap_root_cache_def cap_root_cache_store_def)

lemma clist_push_cases:
  obtains (full) "checked_add_word (cs_next_slot s) 1 = None"
      "clist_push s e = (None, invalidate_cap_root_cache s)"
  | (ok) n where "checked_add_word (cs_next_slot s) 1 = Some n"
      "clist_push s e = (Some (cs_next_slot s), (invalidate_cap_root_cache s)
         \<lparr>cs_next_slot := n, cs_refs := cs_refs s @ [e (cs_next_slot s)]\<rparr>)"
  by (cases "checked_add_word (cs_next_slot s) 1") (auto simp: clist_push_def Let_def)

lemma clist_push_refs:
  "cs_refs (snd (clist_push s e)) =
     (case fst (clist_push s e) of None \<Rightarrow> cs_refs s | Some k \<Rightarrow> cs_refs s @ [e k])"
  by (cases rule: clist_push_cases [of s e]) auto

lemma clist_push_tombstones [simp]: "cs_tombstones (snd (clist_push s e)) = cs_tombstones s"
  by (cases rule: clist_push_cases [of s e]) auto

lemma clist_push_cache [simp]: "cs_cap_root_cache (snd (clist_push s e)) = 0"
  by (cases rule: clist_push_cases [of s e]) auto

lemma clist_push_slot: "fst (clist_push s e) = Some k \<Longrightarrow> k = cs_next_slot s"
  by (cases rule: clist_push_cases [of s e]) auto

lemma clist_push_wf:
  assumes "clist_wf s" "slotted e"
  shows "clist_wf (snd (clist_push s e))"
proof (cases rule: clist_push_cases [of s e])
  case full
  then show ?thesis using assms by (simp add: clist_wf_def)
next
  case (ok n)
  have lt: "cs_next_slot s < n" using checked_add_word_one_SomeD [OF ok(1)] by simp
  have old: "k < n" if "k < cs_next_slot s" for k using that lt by (rule less_trans)
  have fresh: "cs_next_slot s \<notin> live_slots s" "cs_next_slot s \<notin> set (cs_tombstones s)"
    using clist_wfD [OF assms(1)] by blast+
  show ?thesis
    using assms ok lt fresh clist_wfD [OF assms(1)]
    by (auto simp: clist_wf_def slotted_def intro: old)
qed

lemma less_inc_iff:
  assumes "checked_add_word (a :: u32) 1 = Some n"
  shows "k < n \<longleftrightarrow> k < a \<or> k = a"
proof -
  have "unat n = Suc (unat a)" using checked_add_word_one_SomeD [OF assms] by simp
  then show ?thesis by (auto simp: word_less_nat_alt word_unat_eq_iff less_Suc_eq)
qed

lemma clist_push_complete:
  assumes "clist_complete s" "slotted e"
  shows "clist_complete (snd (clist_push s e))"
proof (cases rule: clist_push_cases [of s e])
  case full
  then show ?thesis using assms by (simp add: clist_complete_def)
next
  case (ok n)
  have "{k. k < n} = insert (cs_next_slot s) {k. k < cs_next_slot s}"
    using less_inc_iff [OF ok(1)] by auto
  moreover have "live_slots (snd (clist_push s e)) = insert (cs_next_slot s) (live_slots s)"
    using ok assms(2) by (simp add: slotted_def)
  ultimately show ?thesis using assms(1) ok by (simp add: clist_complete_def)
qed

lemma filter_length_removed:
  "length (filter (\<lambda>r. f r \<noteq> k) xs) < length xs \<longleftrightarrow> k \<in> f ` set xs"
  by (induction xs) (auto simp: le_imp_less_Suc less_Suc_eq_le)

lemma clist_revoke_eq:
  "clist_revoke s k = (k \<in> live_slots s,
     (invalidate_cap_root_cache s)\<lparr>cs_refs := filter (\<lambda>r. cr_slot r \<noteq> k) (cs_refs s),
       cs_tombstones := (if k \<in> live_slots s \<and> k \<notin> set (cs_tombstones s)
                         then insort k (cs_tombstones s) else cs_tombstones s)\<rparr>)"
  by (simp add: clist_revoke_def Let_def filter_length_removed)

lemma live_slots_filter:
  "cr_slot ` set (filter (\<lambda>r. cr_slot r \<noteq> k) rs) = cr_slot ` set rs - {k}"
  by auto

lemma distinct_map_filter_key: "distinct (map f xs) \<Longrightarrow> distinct (map f (filter P xs))"
  by (induction xs) auto

lemma clist_revoke_wf:
  assumes "clist_wf s"
  shows "clist_wf (snd (clist_revoke s k))"
  using clist_wfD [OF assms] clist_wfD(5) [OF assms, of k]
  unfolding clist_wf_def clist_revoke_eq
  by (auto simp: sorted_insort distinct_insort set_insort_key distinct_map_filter_key)

lemma clist_revoke_complete:
  "clist_complete s \<Longrightarrow> clist_complete (snd (clist_revoke s k))"
  unfolding clist_complete_def clist_revoke_eq
  by (auto simp: set_insort_key)

lemma update_first_key:
  assumes "\<And>x. k (f x) = k x"
  shows "map k (update_first P f xs) = map k xs"
  using assms by (induction xs) auto

lemma find_update_first:
  assumes "\<And>x. k (f x) = k x"
  shows "find (\<lambda>r. k r = a) (update_first (\<lambda>r. k r = b) f xs) =
    (if a = b then map_option f (find (\<lambda>r. k r = a) xs) else find (\<lambda>r. k r = a) xs)"
  using assms by (induction xs) auto

text \<open>The three refusals of \<open>attenuate_in_place\<close> and its success, in one place.\<close>

lemma attenuate_in_place_cases:
  obtains (refused) "attenuate_in_place lc s k nr ne nx = (None, s)"
  | (ok) existing eff exp where
      "clist_lookup s k = Some existing" "is_narrower_or_equal nr (cr_permissions existing)"
      "narrowed_effects (cr_allowed_effects existing) ne = Some eff"
      "narrowed_expiry (cr_expires_at existing) nx = Some exp"
      "attenuate_in_place lc s k nr ne nx =
         (Some (lc (existing\<lparr>cr_permissions := nr, cr_allowed_effects := eff,
                             cr_expires_at := exp\<rparr>)),
          (invalidate_cap_root_cache s)\<lparr>cs_refs := update_first (\<lambda>r. cr_slot r = k)
             (\<lambda>r. r\<lparr>cr_permissions := nr, cr_allowed_effects := eff, cr_expires_at := exp\<rparr>)
             (cs_refs s)\<rparr>)"
proof (cases "clist_lookup s k")
  case None
  then show ?thesis using refused by (simp add: attenuate_in_place_def)
next
  case (Some existing)
  note lk = this
  show ?thesis
  proof (cases "is_narrower_or_equal nr (cr_permissions existing)")
    case False
    then show ?thesis using refused lk by (simp add: attenuate_in_place_def)
  next
    case True
    then show ?thesis
      using refused ok lk
      by (cases "narrowed_effects (cr_allowed_effects existing) ne";
          cases "narrowed_expiry (cr_expires_at existing) nx")
         (simp_all add: attenuate_in_place_def Let_def)
  qed
qed

lemma slots_update_first:
  assumes "\<And>r. cr_slot (f r) = cr_slot r"
  shows "cr_slot ` set (update_first P f rs) = cr_slot ` set rs"
  using update_first_key [where k = cr_slot and f = f and P = P and xs = rs] assms
  by (metis list.set_map)

lemma attenuate_in_place_wf:
  "clist_wf s \<Longrightarrow> clist_wf (snd (attenuate_in_place lc s k nr ne nx))"
  by (cases rule: attenuate_in_place_cases [of lc s k nr ne nx])
     (simp_all add: clist_wf_def update_first_key slots_update_first)

lemma attenuate_in_place_complete:
  "clist_complete s \<Longrightarrow> clist_complete (snd (attenuate_in_place lc s k nr ne nx))"
  by (cases rule: attenuate_in_place_cases [of lc s k nr ne nx])
     (simp_all add: clist_complete_def slots_update_first)

lemma clist_restore_eq:
  "clist_restore s cap = (invalidate_cap_root_cache s)
     \<lparr>cs_tombstones := filter (\<lambda>t. t \<noteq> cr_slot cap) (cs_tombstones s),
      cs_refs := (if cr_slot cap \<in> live_slots s then cs_refs s else cs_refs s @ [cap])\<rparr>"
proof -
  have "list_ex (\<lambda>r. cr_slot r = cr_slot cap) (cs_refs s) \<longleftrightarrow> cr_slot cap \<in> live_slots s"
    by (auto simp: list_ex_iff intro: rev_image_eqI)
  then show ?thesis by (simp add: clist_restore_def Let_def)
qed

lemma clist_restore_wf:
  assumes "clist_wf s" "cr_slot cap < cs_next_slot s"
  shows "clist_wf (clist_restore s cap)"
  using clist_wfD [OF assms(1)] assms(2)
  by (auto simp: clist_restore_eq clist_wf_def sorted_wrt_filter)

lemma clist_restore_complete:
  assumes "clist_complete s" "cr_slot cap < cs_next_slot s"
  shows "clist_complete (clist_restore s cap)"
  using assms by (auto simp: clist_restore_eq clist_complete_def)

section \<open>Lookups\<close>

lemma clist_lookup_SomeD:
  "clist_lookup s k = Some r \<Longrightarrow> r \<in> set (cs_refs s) \<and> cr_slot r = k"
  unfolding clist_lookup_def by (rule find_SomeD)

lemma clist_lookup_None_iff: "clist_lookup s k = None \<longleftrightarrow> k \<notin> live_slots s"
  by (auto simp: clist_lookup_def find_None_iff)

lemma clist_lookup_iff:
  assumes "clist_wf s"
  shows "clist_lookup s k = Some r \<longleftrightarrow> r \<in> set (cs_refs s) \<and> cr_slot r = k"
proof
  show "clist_lookup s k = Some r" if "r \<in> set (cs_refs s) \<and> cr_slot r = k"
    using find_distinct_key [of cr_slot "cs_refs s" r k] clist_wfD(1) [OF assms] that
    unfolding clist_lookup_def by blast
qed (rule clist_lookup_SomeD)

lemma clist_lookup_push:
  assumes "clist_wf s" "slotted e" "fst (clist_push s e) = Some k"
  shows "clist_lookup (snd (clist_push s e)) = (clist_lookup s)(k \<mapsto> e k)"
proof
  fix j
  have k: "k = cs_next_slot s" using clist_push_slot [OF assms(3)] .
  have fresh: "clist_lookup s k = None"
    using clist_wfD(5) [OF assms(1)] unfolding clist_lookup_None_iff k by blast
  have "clist_lookup (snd (clist_push s e)) j =
      (case clist_lookup s j of None \<Rightarrow> if cr_slot (e k) = j then Some (e k) else None
       | Some r \<Rightarrow> Some r)"
    using assms(3) by (simp add: clist_lookup_def clist_push_refs find_append split: option.split)
  then show "clist_lookup (snd (clist_push s e)) j = ((clist_lookup s)(k \<mapsto> e k)) j"
    using fresh assms(2) by (auto simp: slotted_def split: option.splits)
qed

lemma clist_lookup_push_None:
  "fst (clist_push s e) = None \<Longrightarrow> clist_lookup (snd (clist_push s e)) = clist_lookup s"
  by (auto simp: clist_lookup_def clist_push_refs)

lemma clist_lookup_revoke:
  "clist_lookup (snd (clist_revoke s k)) = (clist_lookup s)(k := None)"
  by (rule ext) (auto simp: clist_lookup_def clist_revoke_eq find_filter_ne find_filter_eq)

lemma clist_revoke_fst: "fst (clist_revoke s k) \<longleftrightarrow> clist_lookup s k \<noteq> None"
  by (auto simp: clist_revoke_eq clist_lookup_None_iff)

lemma clist_revoke_tombstones:
  "set (cs_tombstones (snd (clist_revoke s k))) =
     (if clist_lookup s k = None then set (cs_tombstones s)
      else insert k (set (cs_tombstones s)))"
  by (auto simp: clist_revoke_eq clist_lookup_None_iff set_insort_key)

lemma clist_lookup_attenuate_other:
  "j \<noteq> k \<Longrightarrow> clist_lookup (snd (attenuate_in_place lc s k nr ne nx)) j = clist_lookup s j"
  by (cases rule: attenuate_in_place_cases [of lc s k nr ne nx])
     (simp_all add: clist_lookup_def find_update_first)

lemma clist_lookup_restore:
  assumes "clist_lookup s (cr_slot cap) = None"
  shows "clist_lookup (clist_restore s cap) = (clist_lookup s)(cr_slot cap \<mapsto> cap)"
proof
  fix j
  have "cr_slot cap \<notin> live_slots s" using assms by (simp add: clist_lookup_None_iff)
  then have "clist_lookup (clist_restore s cap) j =
      (case clist_lookup s j of None \<Rightarrow> if cr_slot cap = j then Some cap else None
       | Some r \<Rightarrow> Some r)"
    by (cases "find (\<lambda>r. cr_slot r = j) (cs_refs s)")
       (simp_all add: clist_lookup_def clist_restore_eq find_append)
  then show "clist_lookup (clist_restore s cap) j = ((clist_lookup s)(cr_slot cap \<mapsto> cap)) j"
    using assms by (auto split: option.splits)
qed


section \<open>Authority carried by entries\<close>

definition cap_authorizes :: "capability_ref \<Rightarrow> cell_id \<Rightarrow> u64 \<Rightarrow> effect_mask \<Rightarrow> bool" where
  "cap_authorizes r target height b \<longleftrightarrow>
     cr_target r = target \<and> cr_permissions r \<noteq> Impossible \<and>
     unexpired (cr_expires_at r) height \<and> is_effect_permitted (cr_allowed_effects r) b"

definition cap_le :: "capability_ref \<Rightarrow> capability_ref \<Rightarrow> bool" where
  "cap_le c p \<longleftrightarrow>
     cr_target c = cr_target p \<and> cr_permissions c \<le> cr_permissions p \<and>
     mask_le (cr_allowed_effects c) (cr_allowed_effects p) \<and>
     (\<forall>h. unexpired (cr_expires_at c) h \<longrightarrow> unexpired (cr_expires_at p) h)"

lemma cap_le_refl [simp]: "cap_le c c"
  by (simp add: cap_le_def)

lemma cap_le_self: "r \<in> S \<Longrightarrow> \<exists>q \<in> S. cap_le r q"
  using cap_le_refl by blast

lemma cap_le_trans: "cap_le a b \<Longrightarrow> cap_le b c \<Longrightarrow> cap_le a c"
  by (auto simp: cap_le_def elim: mask_le_trans)

lemma cap_le_authorizes: "cap_le c p \<Longrightarrow> cap_authorizes c t h b \<Longrightarrow> cap_authorizes p t h b"
  by (auto simp: cap_le_def cap_authorizes_def mask_le_def less_eq_auth_required_def)

lemma permits_effect_at_iff:
  "permits_effect_at s t h b \<longleftrightarrow> (\<exists>r \<in> set (cs_refs s). cap_authorizes r t h b)"
  by (auto simp: permits_effect_at_def cap_authorizes_def list_ex_iff)

lemma mask_le_mask_or_all:
  "is_facet_attenuation (mask_or_all p) c \<Longrightarrow> mask_le (Some c) p"
  by (auto simp: mask_or_all_def split: option.splits intro: mask_le_Some)

lemma narrowed_effects_le: "narrowed_effects old new = Some m \<Longrightarrow> mask_le m old"
  by (auto simp: narrowed_effects_def split: option.splits if_splits
      intro: mask_le_mask_or_all)

lemma narrowed_expiry_le:
  "narrowed_expiry old new = Some m \<Longrightarrow> unexpired m h \<Longrightarrow> unexpired old h"
  by (cases "(old, new)" rule: narrowed_expiry.cases)
     (auto simp: unexpired_def split: if_splits)

text \<open>What an \<open>AttenuatedCap\<close> becomes once inserted.\<close>

definition attenuated_ref :: "attenuated_cap \<Rightarrow> u32 \<Rightarrow> bytes32 \<Rightarrow> capability_ref" where
  "attenuated_ref cap slot prov =
     \<lparr>cr_target = ac_target cap, cr_slot = slot, cr_permissions = ac_permissions cap,
      cr_breadstuff = ac_breadstuff cap, cr_expires_at = ac_expires_at cap,
      cr_allowed_effects = ac_allowed_effects cap, cr_stored_epoch = ac_stored_epoch cap,
      cr_provenance = prov\<rparr>"

lemma attenuate_le:
  "attenuate s k nr = Some a \<Longrightarrow>
     \<exists>r \<in> set (cs_refs s). cr_slot r = k \<and> cap_le (attenuated_ref a slot prov) r"
  using clist_lookup_SomeD [of s k]
  by (auto simp: attenuate_def attenuated_ref_def cap_le_def less_eq_auth_required_def
      split: option.splits if_splits)

lemma attenuate_faceted_le:
  "attenuate_faceted s k nr m = Some a \<Longrightarrow>
     \<exists>r \<in> set (cs_refs s). cr_slot r = k \<and> cap_le (attenuated_ref a slot prov) r"
  using clist_lookup_SomeD [of s k] mask_le_mask_or_all
  by (fastforce simp: attenuate_faceted_def attenuated_ref_def cap_le_def less_eq_auth_required_def
      split: option.splits if_splits)

lemma insert_attenuated_refs:
  "set (cs_refs (snd (insert_attenuated_provenanced H s a turn))) \<subseteq>
     set (cs_refs s) \<union> {attenuated_ref a k (cap_provenance H (ac_target a) k
       (ac_parent_provenance a) turn) |k. True}"
  unfolding insert_attenuated_provenanced_def clist_push_refs attenuated_ref_def
  by (auto split: option.splits)

lemma insert_attenuated_le:
  assumes "\<And>k prov. \<exists>r \<in> set (cs_refs s). cr_slot r = n \<and> cap_le (attenuated_ref a k prov) r"
    "r' \<in> set (cs_refs (snd (insert_attenuated_provenanced H s a turn)))"
  shows "\<exists>r \<in> set (cs_refs s). cap_le r' r"
proof -
  consider "r' \<in> set (cs_refs s)" | k prov where "r' = attenuated_ref a k prov"
    using insert_attenuated_refs [of H s a turn] assms(2) by blast
  then show ?thesis using assms(1) cap_le_refl by cases blast+
qed

lemma set_update_first: "x \<in> set (update_first P f xs) \<Longrightarrow> x \<in> set xs \<or> (\<exists>y \<in> set xs. P y \<and> x = f y)"
  by (induction xs) (auto split: if_splits)

lemma attenuate_in_place_le:
  assumes "clist_wf s" "r' \<in> set (cs_refs (snd (attenuate_in_place lc s k nr ne nx)))"
  shows "\<exists>r \<in> set (cs_refs s). cap_le r' r"
proof (cases rule: attenuate_in_place_cases [of lc s k nr ne nx])
  case refused
  then show ?thesis using assms(2) cap_le_self by auto
next
  case (ok existing eff exp)
  define f where "f = (\<lambda>r :: capability_ref. r\<lparr>cr_permissions := nr, cr_allowed_effects := eff,
      cr_expires_at := exp\<rparr>)"
  have "r' \<in> set (update_first (\<lambda>r. cr_slot r = k) f (cs_refs s))"
    using assms(2) ok(5) by (simp add: f_def)
  then consider "r' \<in> set (cs_refs s)" | y where "y \<in> set (cs_refs s)" "cr_slot y = k" "r' = f y"
    by (auto dest: set_update_first)
  then show ?thesis
  proof cases
    case 2
    then have "clist_lookup s k = Some y" using clist_lookup_iff [OF assms(1)] by blast
    then have "y = existing" using ok(1) by simp
    then have "cap_le r' existing"
      using 2 ok narrowed_effects_le narrowed_expiry_le
      by (auto simp: cap_le_def f_def less_eq_auth_required_def)
    then show ?thesis using 2 \<open>y = existing\<close> by auto
  qed (rule cap_le_self)
qed

text \<open>
  A holder that receives no new grants can only attenuate (a copy or in place) and revoke.
  \<open>confined_step\<close> is one such step on its c-list.
\<close>

inductive confined_step ::
  "hash_fun \<Rightarrow> (capability_ref \<Rightarrow> bytes32) \<Rightarrow> capability_set \<Rightarrow> capability_set \<Rightarrow> bool"
  for H :: hash_fun and leaf :: "capability_ref \<Rightarrow> bytes32" where
  copy: "attenuate s k nr = Some a \<Longrightarrow>
     confined_step H leaf s (snd (insert_attenuated_provenanced H s a turn))"
| copy_faceted: "attenuate_faceted s k nr m = Some a \<Longrightarrow>
     confined_step H leaf s (snd (insert_attenuated_provenanced H s a turn))"
| in_place: "confined_step H leaf s (snd (attenuate_in_place leaf s k nr ne nx))"
| revoke: "confined_step H leaf s (snd (clist_revoke s k))"

inductive_cases confined_stepE: "confined_step H leaf s s'"

lemma slotted_entries [simp]:
  "slotted (\<lambda>slot. \<lparr>cr_target = t, cr_slot = slot, cr_permissions = p, cr_breadstuff = b,
     cr_expires_at = e, cr_allowed_effects = m, cr_stored_epoch = ep, cr_provenance = f slot\<rparr>)"
  by (simp add: slotted_def)

lemma confined_step_wf: "confined_step H leaf s s' \<Longrightarrow> clist_wf s \<Longrightarrow> clist_wf s'"
  by (induction rule: confined_step.induct)
     (auto simp: insert_attenuated_provenanced_def
       intro: clist_push_wf attenuate_in_place_wf clist_revoke_wf)

lemma confined_step_le:
  assumes "confined_step H leaf s s'" "clist_wf s" "r' \<in> set (cs_refs s')"
  shows "\<exists>r \<in> set (cs_refs s). cap_le r' r"
  using assms
proof (cases rule: confined_step.cases)
  case (copy k nr a turn)
  then show ?thesis
    using attenuate_le [OF copy(2)] insert_attenuated_le assms(3) by blast
next
  case (copy_faceted k nr m a turn)
  then show ?thesis
    using attenuate_faceted_le [OF copy_faceted(2)] insert_attenuated_le assms(3) by blast
next
  case (in_place k nr ne nx)
  then show ?thesis using attenuate_in_place_le assms by blast
next
  case (revoke k)
  then show ?thesis using assms(3) by (auto simp: clist_revoke_eq intro: cap_le_self)
qed

lemma confined_run_le:
  assumes "(confined_step H leaf)\<^sup>*\<^sup>* s s'" "clist_wf s"
  shows "clist_wf s' \<and> (\<forall>r' \<in> set (cs_refs s'). \<exists>r \<in> set (cs_refs s). cap_le r' r)"
  using assms
proof (induction rule: rtranclp_induct)
  case base
  then show ?case using cap_le_refl by blast
next
  case (step y z)
  then have wf: "clist_wf y" and IH: "\<forall>r' \<in> set (cs_refs y). \<exists>r \<in> set (cs_refs s). cap_le r' r"
    by auto
  have "\<exists>r \<in> set (cs_refs s). cap_le r' r" if "r' \<in> set (cs_refs z)" for r'
    using confined_step_le [OF step.hyps(2) wf that] IH cap_le_trans by blast
  then show ?case using confined_step_wf [OF step.hyps(2) wf] by blast
qed


section \<open>Slot registries\<close>

text \<open>
  The contract a client of a c-list relies on: issuing takes a slot that was never used, retiring
  is permanent. A slot is \<open>dead\<close> once it has been live and was retired.
\<close>

locale slot_registry =
  fixes inv :: "'s \<Rightarrow> bool"
    and live :: "'s \<Rightarrow> 'k \<rightharpoonup> 'r"
    and dead :: "'s \<Rightarrow> 'k set"
    and good :: "('k \<Rightarrow> 'r) \<Rightarrow> bool"
    and issue :: "'s \<Rightarrow> ('k \<Rightarrow> 'r) \<Rightarrow> 'k option \<times> 's"
    and retire :: "'s \<Rightarrow> 'k \<Rightarrow> bool \<times> 's"
  assumes dead_not_live: "inv s \<Longrightarrow> k \<in> dead s \<Longrightarrow> live s k = None"
    and inv_issue: "inv s \<Longrightarrow> good e \<Longrightarrow> inv (snd (issue s e))"
    and inv_retire: "inv s \<Longrightarrow> inv (snd (retire s k))"
    and issue_fresh: "inv s \<Longrightarrow> good e \<Longrightarrow> fst (issue s e) = Some k \<Longrightarrow>
          live s k = None \<and> k \<notin> dead s"
    and issue_live: "inv s \<Longrightarrow> good e \<Longrightarrow>
          live (snd (issue s e)) =
            (case fst (issue s e) of None \<Rightarrow> live s | Some k \<Rightarrow> (live s)(k \<mapsto> e k))"
    and issue_dead: "dead (snd (issue s e)) = dead s"
    and retire_live: "live (snd (retire s k)) = (live s)(k := None)"
    and retire_dead: "dead (snd (retire s k)) = (if live s k = None then dead s else insert k (dead s))"
    and retire_result: "fst (retire s k) \<longleftrightarrow> live s k \<noteq> None"
begin

inductive registry_step :: "'s \<Rightarrow> 's \<Rightarrow> bool" where
  issue: "good e \<Longrightarrow> registry_step s (snd (issue s e))"
| retire: "registry_step s (snd (retire s k))"
| keep: "(inv s \<Longrightarrow> inv s') \<Longrightarrow> dom (live s') = dom (live s) \<Longrightarrow> dead s' = dead s \<Longrightarrow>
    registry_step s s'"

lemma registry_step_inv: "registry_step s s' \<Longrightarrow> inv s \<Longrightarrow> inv s'"
  by (induction rule: registry_step.induct) (auto intro: inv_issue inv_retire)

lemma registry_step_dead: "registry_step s s' \<Longrightarrow> dead s \<subseteq> dead s'"
  by (induction rule: registry_step.induct) (auto simp: issue_dead retire_dead)

lemma registry_run:
  assumes "registry_step\<^sup>*\<^sup>* s s'" "inv s"
  shows "inv s' \<and> dead s \<subseteq> dead s'"
  using assms
  by (induction rule: rtranclp_induct) (auto dest: registry_step_inv registry_step_dead)

lemma retired_forever:
  assumes "registry_step\<^sup>*\<^sup>* s s'" "inv s" "k \<in> dead s"
  shows "k \<in> dead s'" "live s' k = None"
  using registry_run [OF assms(1,2)] assms(3) dead_not_live by blast+

lemma never_reissued:
  assumes "inv s" "live s k \<noteq> None" "registry_step\<^sup>*\<^sup>* (snd (retire s k)) s'" "good e"
  shows "fst (issue s' e) \<noteq> Some k"
proof
  assume a: "fst (issue s' e) = Some k"
  have "k \<in> dead (snd (retire s k))" using assms(2) by (auto simp: retire_dead)
  then have "k \<in> dead s'" "inv s'"
    using registry_run [OF assms(3) inv_retire [OF assms(1)]] by auto
  then show False using issue_fresh [OF _ assms(4) a] by blast
qed

end

lemma clist_push_fresh:
  assumes "clist_wf s" "fst (clist_push s e) = Some k"
  shows "clist_lookup s k = None \<and> k \<notin> set (cs_tombstones s)"
  using clist_wfD(5,6) [OF assms(1), of k] clist_push_slot [OF assms(2)]
  by (auto simp: clist_lookup_None_iff)

interpretation clist: slot_registry clist_wf clist_lookup "\<lambda>s. set (cs_tombstones s)" slotted
  clist_push clist_revoke
proof
  fix s e k
  show "clist_wf s \<Longrightarrow> k \<in> set (cs_tombstones s) \<Longrightarrow> clist_lookup s k = None"
    using clist_wfD(4) by (auto simp: clist_lookup_None_iff)
  show "clist_wf s \<Longrightarrow> slotted e \<Longrightarrow> fst (clist_push s e) = Some k \<Longrightarrow>
      clist_lookup s k = None \<and> k \<notin> set (cs_tombstones s)"
    by (rule clist_push_fresh)
  show "clist_wf s \<Longrightarrow> slotted e \<Longrightarrow> clist_lookup (snd (clist_push s e)) =
      (case fst (clist_push s e) of None \<Rightarrow> clist_lookup s | Some k \<Rightarrow> (clist_lookup s)(k \<mapsto> e k))"
    by (auto simp: clist_lookup_push clist_lookup_push_None split: option.split)
qed (simp_all add: clist_push_wf clist_revoke_wf clist_lookup_revoke clist_revoke_tombstones
       clist_revoke_fst)

section \<open>Runs of operations\<close>

datatype clist_op =
    OpGrant cell_id auth_required
  | OpGrantBreadstuff cell_id auth_required "bytes32 option"
  | OpGrantExpiry cell_id auth_required u64
  | OpGrantFull cell_id auth_required "bytes32 option" "u64 option"
  | OpGrantRef capability_ref
  | OpGrantRefProvenanced capability_ref bytes32
  | OpGrantSnapshot cell_id auth_required "bytes32 option" u64
  | OpGrantFaceted cell_id auth_required effect_mask
  | OpGrantProvenanced cell_id auth_required "bytes32 option" "u64 option"
      "effect_mask option" "u64 option" bytes32 bytes32
  | OpInsertAttenuated attenuated_cap
  | OpInsertAttenuatedProvenanced attenuated_cap bytes32
  | OpAttenuateInPlace u32 auth_required "effect_mask option" "u64 option"
  | OpRevoke u32
  | OpComputeRoot

fun clist_apply ::
  "hash_fun \<Rightarrow> (capability_ref \<Rightarrow> bytes32) \<Rightarrow> root8_fun \<Rightarrow> clist_op \<Rightarrow> capability_set \<Rightarrow>
   capability_set" where
  "clist_apply H leaf root8 (OpGrant t p) s = snd (grant H s t p)"
| "clist_apply H leaf root8 (OpGrantBreadstuff t p b) s = snd (grant_with_breadstuff H s t p b)"
| "clist_apply H leaf root8 (OpGrantExpiry t p e) s = snd (grant_with_expiry H s t p e)"
| "clist_apply H leaf root8 (OpGrantFull t p b e) s = snd (grant_full H s t p b e)"
| "clist_apply H leaf root8 (OpGrantRef c) s = snd (grant_ref H s c)"
| "clist_apply H leaf root8 (OpGrantRefProvenanced c u) s = snd (grant_ref_provenanced H s c u)"
| "clist_apply H leaf root8 (OpGrantSnapshot t p b ep) s = snd (grant_snapshot H s t p b ep)"
| "clist_apply H leaf root8 (OpGrantFaceted t p m) s = snd (grant_faceted H s t p m)"
| "clist_apply H leaf root8 (OpGrantProvenanced t p b e m ep par u) s =
     snd (grant_provenanced H s t p b e m ep par u)"
| "clist_apply H leaf root8 (OpInsertAttenuated a) s = snd (insert_attenuated H s a)"
| "clist_apply H leaf root8 (OpInsertAttenuatedProvenanced a u) s =
     snd (insert_attenuated_provenanced H s a u)"
| "clist_apply H leaf root8 (OpAttenuateInPlace k nr ne nx) s =
     snd (attenuate_in_place leaf s k nr ne nx)"
| "clist_apply H leaf root8 (OpRevoke k) s = snd (clist_revoke s k)"
| "clist_apply H leaf root8 OpComputeRoot s = snd (compute_canonical_capability_root_felt root8 s)"

lemmas grant_defs = grant_def grant_with_breadstuff_def grant_with_expiry_def grant_full_def
  grant_ref_def grant_ref_provenanced_def grant_snapshot_def grant_faceted_def
  grant_provenanced_def insert_attenuated_def insert_attenuated_provenanced_def

lemma clist_apply_cases:
  obtains (push) e where "slotted e" "clist_apply H leaf root8 op s = snd (clist_push s e)"
  | (att) k nr ne nx where "clist_apply H leaf root8 op s = snd (attenuate_in_place leaf s k nr ne nx)"
  | (rev) k where "clist_apply H leaf root8 op s = snd (clist_revoke s k)"
  | (root) "clist_apply H leaf root8 op s = snd (compute_canonical_capability_root_felt root8 s)"
  by (cases op) (auto simp: grant_defs intro: that slotted_entries)

lemma compute_root_keeps [simp]:
  "cs_refs (snd (compute_canonical_capability_root_felt root8 s)) = cs_refs s"
  "cs_tombstones (snd (compute_canonical_capability_root_felt root8 s)) = cs_tombstones s"
  "cs_next_slot (snd (compute_canonical_capability_root_felt root8 s)) = cs_next_slot s"
  by (auto simp: compute_canonical_capability_root_felt_def store_cap_root_def Let_def
      split: option.splits)

lemma dom_lookup: "dom (clist_lookup s) = live_slots s"
  using clist_lookup_None_iff [of s] by (auto simp: dom_def)

lemma attenuate_in_place_keeps [simp]:
  "live_slots (snd (attenuate_in_place lc s k nr ne nx)) = live_slots s"
  "cs_tombstones (snd (attenuate_in_place lc s k nr ne nx)) = cs_tombstones s"
  "cs_next_slot (snd (attenuate_in_place lc s k nr ne nx)) = cs_next_slot s"
  by (cases rule: attenuate_in_place_cases [of lc s k nr ne nx]; simp add: slots_update_first)+

lemma clist_apply_registry_step: "clist.registry_step s (clist_apply H leaf root8 op s)"
proof (cases rule: clist_apply_cases [of H leaf root8 op s])
  case (push e)
  then show ?thesis by (simp add: clist.registry_step.issue)
next
  case (att k nr ne nx)
  then show ?thesis
    by (simp add: clist.registry_step.keep dom_lookup attenuate_in_place_wf)
next
  case (rev k)
  then show ?thesis by (simp add: clist.registry_step.retire)
next
  case root
  then show ?thesis
    by (simp only:) (rule clist.registry_step.keep; simp add: dom_lookup clist_wf_def)
qed

lemma clist_fold_registry:
  "clist.registry_step\<^sup>*\<^sup>* s (fold (clist_apply H leaf root8) ops s)"
proof (induction ops arbitrary: s)
  case (Cons op ops)
  have "clist.registry_step s (clist_apply H leaf root8 op s)"
    by (rule clist_apply_registry_step)
  then show ?case
    unfolding fold_simps by (rule converse_rtranclp_into_rtranclp) (rule Cons.IH)
qed simp

lemma clist_apply_complete:
  "clist_complete s \<Longrightarrow> clist_complete (clist_apply H leaf root8 op s)"
  by (cases rule: clist_apply_cases [of H leaf root8 op s])
     (auto simp: clist_push_complete attenuate_in_place_complete clist_revoke_complete,
      simp add: clist_complete_def)

section \<open>The cached root\<close>

definition cache_ok :: "root8_fun \<Rightarrow> capability_set \<Rightarrow> bool" where
  "cache_ok root8 s \<longleftrightarrow>
     (\<forall>v. cap_root_cache_load (cs_cap_root_cache s) = Some v \<longrightarrow>
          v = root8 (cs_refs s) (cs_tombstones s) ! 0)"

definition canonical_root8 :: "root8_fun \<Rightarrow> bool" where
  "canonical_root8 root8 \<longleftrightarrow> (\<forall>refs tombs. unat (root8 refs tombs ! 0) < BABYBEAR_P)"

lemma BabyBear_new_canonical: "unat v < BABYBEAR_P \<Longrightarrow> BabyBear_new v = v"
  by (simp add: BabyBear_new_def)

lemma attenuate_in_place_cache:
  "snd (attenuate_in_place lc s k nr ne nx) = s \<or>
   cs_cap_root_cache (snd (attenuate_in_place lc s k nr ne nx)) = 0"
  by (cases rule: attenuate_in_place_cases [of lc s k nr ne nx]) auto

lemma compute_root_cache_ok:
  "cache_ok root8 s \<Longrightarrow> cache_ok root8 (snd (compute_canonical_capability_root_felt root8 s))"
  by (auto simp: cache_ok_def compute_canonical_capability_root_felt_def store_cap_root_def
      Let_def split: option.splits)

lemma clist_apply_cache_ok:
  assumes "cache_ok root8 s"
  shows "cache_ok root8 (clist_apply H leaf root8 op s)"
proof (cases rule: clist_apply_cases [of H leaf root8 op s])
  case (att k nr ne nx)
  then show ?thesis
    using assms attenuate_in_place_cache [of leaf s k nr ne nx] by (auto simp: cache_ok_def)
next
  case root
  then show ?thesis using compute_root_cache_ok [OF assms] by simp
qed (simp_all add: cache_ok_def clist_revoke_eq)

lemma clist_fold_ok:
  assumes "clist_complete s" "cache_ok root8 s"
  shows "clist_complete (fold (clist_apply H leaf root8) ops s)"
    "cache_ok root8 (fold (clist_apply H leaf root8) ops s)"
  using assms
  by (induction ops arbitrary: s) (auto simp: clist_apply_complete clist_apply_cache_ok)

lemma compute_root_value:
  assumes "cache_ok root8 s" "canonical_root8 root8"
  shows "fst (compute_canonical_capability_root_felt root8 s) =
    root8 (cs_refs s) (cs_tombstones s) ! 0"
  using assms BabyBear_new_canonical
  by (auto simp: compute_canonical_capability_root_felt_def cached_cap_root_def cache_ok_def
      canonical_root8_def Let_def split: option.splits)


section \<open>Persistence\<close>

lemma list_max_below:
  assumes "set xs = {k. k < (n :: u32)}"
  shows "(case list_max xs of None \<Rightarrow> 0 | Some m \<Rightarrow> saturating_add_word m 1) = n"
proof (cases "n = 0")
  case True
  then have "xs = []" using assms by simp
  then show ?thesis using True by (simp add: list_max_def)
next
  case False
  then have n: "Suc (unat (n - 1)) = unat n"
    by (simp add: unat_minus_one unat_gt_0)
  have le: "k < n \<longleftrightarrow> k \<le> n - 1" for k
    unfolding word_less_nat_alt word_le_nat_alt n [symmetric] less_Suc_eq_le ..
  have "Max (set xs) = n - 1"
  proof (rule Max_eqI)
    show "k \<le> n - 1" if "k \<in> set xs" for k
      using that assms le by simp
    show "n - 1 \<in> set xs" using assms le by simp
  qed simp
  moreover have "xs \<noteq> []"
  proof
    assume "xs = []"
    then have "n - 1 \<notin> {k. k < n}" using assms by simp
    then show False using le by simp
  qed
  moreover have "unat n < 2 ^ LENGTH(32)" by (rule unsigned_less)
  then have "unat (n - 1) + 1 < 2 ^ LENGTH(32)" using n by simp
  ultimately show ?thesis by (simp add: list_max_def saturating_add_word_def)
qed

lemma reconstruct_eq:
  assumes "clist_wf s" "clist_complete s" "sorted (map cr_slot (cs_refs s))"
  shows "clist_reconstruct (cs_refs s) (cs_tombstones s) = invalidate_cap_root_cache s"
proof -
  have "sort_key cr_slot (cs_refs s) = cs_refs s"
    using assms(3) by (rule sort_key_id_if_sorted)
  moreover have "remdups_adj (sort (cs_tombstones s)) = cs_tombstones s"
    using clist_wfD [OF assms(1)] by (simp add: sorted_sort_id remdups_adj_distinct)
  moreover have "set (map cr_slot (cs_refs s) @ cs_tombstones s) = {k. k < cs_next_slot s}"
    using assms(2) by (simp add: clist_complete_def)
  ultimately show ?thesis
    using list_max_below
    by (simp add: clist_reconstruct_def Let_def invalidate_cap_root_cache_def
        cap_root_cache_store_def)
qed

lemma insort_filter_id:
  "sorted xs \<Longrightarrow> x \<notin> set xs \<Longrightarrow> filter (\<lambda>t. t \<noteq> x) (insort x xs) = xs"
  by (induction xs) (auto simp: filter_id_conv)

lemma revoke_restore_eq:
  assumes "clist_wf s" "clist_lookup s k = Some cap"
  shows "clist_restore (snd (clist_revoke s k)) cap =
    (invalidate_cap_root_cache s)
      \<lparr>cs_refs := filter (\<lambda>r. cr_slot r \<noteq> k) (cs_refs s) @ [cap]\<rparr>"
proof -
  have k: "k \<in> live_slots s" "cr_slot cap = k" "k \<notin> set (cs_tombstones s)"
    using clist_lookup_SomeD [OF assms(2)] clist_wfD(4) [OF assms(1)] by auto
  moreover have "filter (\<lambda>t. t \<noteq> k) (insort k (cs_tombstones s)) = cs_tombstones s"
    using clist_wfD(2) [OF assms(1)] k(3) by (rule insort_filter_id)
  moreover have "k \<notin> cr_slot ` {x \<in> set (cs_refs s). cr_slot x \<noteq> k}" by auto
  ultimately show ?thesis
    by (simp add: clist_restore_eq clist_revoke_eq invalidate_cap_root_cache_def)
qed

lemma mset_revoke_restore:
  assumes "clist_wf s" "clist_lookup s k = Some cap"
  shows "mset (cs_refs (clist_restore (snd (clist_revoke s k)) cap)) = mset (cs_refs s)"
proof -
  have "cap \<in> set (cs_refs s)" "cr_slot cap = k" using clist_lookup_SomeD [OF assms(2)] by auto
  then show ?thesis
    using mset_filter_key_append [OF clist_wfD(1) [OF assms(1)], of cap]
    by (simp add: revoke_restore_eq [OF assms])
qed

section \<open>Properties\<close>

text \<open>Concrete parameters for the witnesses.\<close>

definition demo_hash :: hash_fun where
  "demo_hash bs = from_bytes32 (drop (length bs - 32) bs)"

definition demo_root8 :: root8_fun where
  "demo_root8 refs tombs = replicate 8 (if refs = [] then 0 else if tombs = [] then 1 else 2)"

definition demo_ops :: "clist_op list" where
  "demo_ops = [OpGrant 7 Either, OpGrantFaceted 8 Signature EFFECT_TRANSFER, OpComputeRoot,
     OpRevoke 0, OpGrantExpiry 9 Proof 100]"

lemmas demo_op_simps = demo_ops_def grant_defs clist_push_def clist_revoke_def clist_new_def
  invalidate_cap_root_cache_def checked_add_word_def cap_root_cache_store_def Let_def

text \<open>Every capability list reached from the empty one by any sequence of grants, attenuations,
  revocations and root computations is well formed: slots are pairwise distinct, the tombstones
  are sorted, distinct and disjoint from the live slots, and live slots and tombstones together
  are exactly the slot numbers issued so far.\<close>

theorem clist_reachable_wf:
  "clist_wf (fold (clist_apply H leaf root8) ops clist_new) \<and>
   clist_complete (fold (clist_apply H leaf root8) ops clist_new)"
proof -
  have "cache_ok root8 clist_new" by (simp add: cache_ok_def clist_new_def)
  then show ?thesis
    using clist.registry_run [OF clist_fold_registry] clist_fold_ok(1) by simp
qed

text \<open>Revocation is permanent: once a live slot has been revoked, no later sequence of
  operations makes it live again, it stays tombstoned, and no later grant returns that slot.\<close>

theorem revoked_slot_never_returns:
  assumes "clist_wf s" and "clist_lookup s k \<noteq> None"
  shows "clist_lookup (fold (clist_apply H leaf root8) ops (snd (clist_revoke s k))) k = None \<and>
    k \<in> set (cs_tombstones (fold (clist_apply H leaf root8) ops (snd (clist_revoke s k)))) \<and>
    fst (grant_provenanced H (fold (clist_apply H leaf root8) ops (snd (clist_revoke s k)))
      t p b e m ep par turn) \<noteq> Some k"
proof -
  have dead: "k \<in> set (cs_tombstones (snd (clist_revoke s k)))"
    using assms(2) by (auto simp: clist_revoke_tombstones)
  show ?thesis
    using clist.retired_forever [OF clist_fold_registry clist_revoke_wf [OF assms(1)] dead]
      clist.never_reissued [OF assms clist_fold_registry slotted_entries]
    by (simp add: grant_provenanced_def)
qed

theorem revoked_slot_never_returns_witness:
  "clist_lookup (fold (clist_apply demo_hash cr_provenance demo_root8) demo_ops
     (snd (clist_revoke (snd (grant demo_hash clist_new 7 Either)) 0))) 0 = None"
proof -
  have "clist_wf (snd (grant demo_hash clist_new 7 Either))"
    by (simp add: grant_defs clist_push_wf)
  moreover have "clist_lookup (snd (grant demo_hash clist_new 7 Either)) 0 \<noteq> None"
    by (simp add: clist_lookup_def demo_op_simps)
  ultimately show ?thesis by (rule revoked_slot_never_returns [THEN conjunct1])
qed

text \<open>C12. Confinement: a holder that is granted nothing new and only attenuates (by copy, by facet,
  or in place) and revokes never gains authority. Whatever its list permits after any number of
  such steps (target, height, effect kind) it already permitted before.\<close>

theorem attenuation_confined:
  assumes "clist_wf s" and "(confined_step H leaf)\<^sup>*\<^sup>* s s'"
  shows "permits_effect_at s' target height b \<longrightarrow> permits_effect_at s target height b"
  using confined_run_le [OF assms(2,1)] cap_le_authorizes
  by (auto simp: permits_effect_at_iff) blast

theorem attenuation_confined_witness:
  "permits_effect_at (snd (attenuate_in_place cr_provenance (snd (grant demo_hash clist_new 7 Either))
      0 Signature (Some EFFECT_TRANSFER) (Some 50))) 7 50 EFFECT_TRANSFER \<and>
   permits_effect_at (snd (grant demo_hash clist_new 7 Either)) 7 50 EFFECT_TRANSFER"
proof -
  let ?s = "snd (grant demo_hash clist_new 7 Either)"
  let ?s' = "snd (attenuate_in_place cr_provenance ?s 0 Signature (Some EFFECT_TRANSFER) (Some 50))"
  have wf: "clist_wf ?s" by (simp add: grant_defs clist_push_wf)
  have "(confined_step demo_hash cr_provenance)\<^sup>*\<^sup>* ?s ?s'"
    by (rule r_into_rtranclp) (rule confined_step.in_place)
  then have imp: "permits_effect_at ?s' 7 50 EFFECT_TRANSFER \<longrightarrow> permits_effect_at ?s 7 50 EFFECT_TRANSFER"
    by (rule attenuation_confined [OF wf])
  have "permits_effect_at ?s' 7 50 EFFECT_TRANSFER"
    by (simp add: demo_op_simps attenuate_in_place_def clist_lookup_def narrowed_effects_def
        mask_or_all_def permits_effect_at_def unexpired_def EFFECT_TRANSFER_def)
  then show ?thesis using imp by simp
qed

text \<open>The cached capability root is never stale: after any sequence of operations, asking for
  the root gives the root of the current entries and tombstones, whether it is answered from the
  cache or recomputed.\<close>

theorem cached_root_coherent:
  assumes "canonical_root8 root8"
  shows "fst (compute_canonical_capability_root_felt root8
      (fold (clist_apply H leaf root8) ops clist_new)) =
    root8 (cs_refs (fold (clist_apply H leaf root8) ops clist_new))
      (cs_tombstones (fold (clist_apply H leaf root8) ops clist_new)) ! 0"
proof -
  have "cache_ok root8 clist_new" by (simp add: cache_ok_def clist_new_def)
  then show ?thesis using compute_root_value [OF _ assms] clist_fold_ok(2) by simp
qed

lemma demo_root8_canonical: "canonical_root8 demo_root8"
  by (simp add: canonical_root8_def demo_root8_def BABYBEAR_P_def)

theorem cached_root_coherent_witness:
  "fst (compute_canonical_capability_root_felt demo_root8
      (fold (clist_apply demo_hash cr_provenance demo_root8) demo_ops clist_new)) =
    demo_root8 (cs_refs (fold (clist_apply demo_hash cr_provenance demo_root8) demo_ops clist_new))
      (cs_tombstones (fold (clist_apply demo_hash cr_provenance demo_root8) demo_ops clist_new)) ! 0"
  by (rule cached_root_coherent [OF demo_root8_canonical])

text \<open>Provenance separates grants: unless the hash collides on the two preimages, two entries
  minted with a different target, slot, parent or turn carry different provenances, and so do
  their revocation nullifiers; a credential nullifier never equals a channel nullifier.\<close>

theorem provenance_separates:
  assumes "inj_on H {cap_provenance_preimage t k p u, cap_provenance_preimage t' k' p' u'}"
    and "inj_on H {ascii ''dregg-cred-revocation-v1'' @ bytes32_bytes (cap_provenance H t k p u),
                   ascii ''dregg-cred-revocation-v1'' @ bytes32_bytes (cap_provenance H t' k' p' u')}"
    and "(t, k, p, u) \<noteq> (t', k', p', u')"
  shows "cap_provenance H t k p u \<noteq> cap_provenance H t' k' p' u' \<and>
    cred_nul H (cap_provenance H t k p u) \<noteq> cred_nul H (cap_provenance H t' k' p' u')"
proof
  show ne: "cap_provenance H t k p u \<noteq> cap_provenance H t' k' p' u'"
    using assms(1,3) unfolding cap_provenance_def inj_on_def
    by (metis cap_provenance_preimage_inject insert_iff)
  then show "cred_nul H (cap_provenance H t k p u) \<noteq> cred_nul H (cap_provenance H t' k' p' u')"
    using assms(2) unfolding cred_nul_def inj_on_def
    by (metis bytes32_bytes_inject insert_iff same_append_eq)
qed

lemma demo_provenance: "cap_provenance demo_hash t k p u = u"
  by (simp add: cap_provenance_def cap_provenance_preimage_def demo_hash_def)

lemma demo_hash_tail [simp]: "demo_hash (xs @ bytes32_bytes a) = a"
  by (simp add: demo_hash_def)

theorem provenance_separates_witness:
  "cap_provenance demo_hash 7 0 1 1 \<noteq> cap_provenance demo_hash 7 0 1 2 \<and>
   cred_nul demo_hash (cap_provenance demo_hash 7 0 1 1) \<noteq>
   cred_nul demo_hash (cap_provenance demo_hash 7 0 1 2)"
proof (rule provenance_separates)
  show "inj_on demo_hash {cap_provenance_preimage 7 0 1 1, cap_provenance_preimage 7 0 1 2}"
    using demo_provenance [of 7 0 1] by (auto simp: inj_on_def cap_provenance_def)
  show "inj_on demo_hash
      {ascii ''dregg-cred-revocation-v1'' @ bytes32_bytes (cap_provenance demo_hash 7 0 1 1),
       ascii ''dregg-cred-revocation-v1'' @ bytes32_bytes (cap_provenance demo_hash 7 0 1 2)}"
    by (auto simp: inj_on_def)
qed simp

text \<open>Persistence round trip: rebuilding a capability list from its live entries and its
  tombstones gives the list back (with an empty root cache), whenever the entries are in slot
  order. In particular the slot counter is recovered exactly, so no slot is ever issued twice
  across a restart.\<close>

theorem reconstruct_roundtrip:
  assumes "clist_wf s" and "clist_complete s" and "sorted (map cr_slot (cs_refs s))"
  shows "clist_reconstruct (cs_refs s) (cs_tombstones s) = s\<lparr>cs_cap_root_cache := 0\<rparr>"
  using reconstruct_eq [OF assms]
  by (simp add: invalidate_cap_root_cache_def cap_root_cache_store_def)

theorem reconstruct_roundtrip_witness:
  "clist_reconstruct (cs_refs (snd (clist_revoke (snd (grant demo_hash clist_new 7 Either)) 0)))
     (cs_tombstones (snd (clist_revoke (snd (grant demo_hash clist_new 7 Either)) 0))) =
   (snd (clist_revoke (snd (grant demo_hash clist_new 7 Either)) 0))\<lparr>cs_cap_root_cache := 0\<rparr>"
proof (rule reconstruct_roundtrip)
  let ?s = "snd (grant demo_hash clist_new 7 Either)"
  have "clist_wf ?s" "clist_complete ?s"
    by (simp_all add: grant_defs clist_push_wf clist_push_complete)
  then show "clist_wf (snd (clist_revoke ?s 0))" "clist_complete (snd (clist_revoke ?s 0))"
    by (simp_all add: clist_revoke_wf clist_revoke_complete)
  show "sorted (map cr_slot (cs_refs (snd (clist_revoke ?s 0))))"
    by (simp add: demo_op_simps)
qed

text \<open>Undoing a revocation: restoring the revoked entry gives back every lookup, the tombstones,
  the slot counter and the same multiset of live entries, so every order-insensitive root is the
  one before the revocation.\<close>

theorem revoke_restore_roundtrip:
  assumes "clist_wf s" and "clist_lookup s k = Some cap"
  shows "clist_lookup (clist_restore (snd (clist_revoke s k)) cap) = clist_lookup s \<and>
    cs_tombstones (clist_restore (snd (clist_revoke s k)) cap) = cs_tombstones s \<and>
    cs_next_slot (clist_restore (snd (clist_revoke s k)) cap) = cs_next_slot s \<and>
    mset (cs_refs (clist_restore (snd (clist_revoke s k)) cap)) = mset (cs_refs s)"
proof -
  have k: "cr_slot cap = k" using clist_lookup_SomeD [OF assms(2)] by simp
  have "clist_lookup (clist_restore (snd (clist_revoke s k)) cap) = clist_lookup s"
    using k assms(2) by (auto simp: clist_lookup_restore clist_lookup_revoke)
  then show ?thesis
    using mset_revoke_restore [OF assms] by (simp add: revoke_restore_eq [OF assms])
qed

theorem revoke_restore_roundtrip_witness:
  "clist_lookup (clist_restore (snd (clist_revoke (snd (grant demo_hash clist_new 7 Either)) 0))
     \<lparr>cr_target = 7, cr_slot = 0, cr_permissions = Either, cr_breadstuff = None,
      cr_expires_at = None, cr_allowed_effects = None, cr_stored_epoch = None,
      cr_provenance = 0\<rparr>) =
   clist_lookup (snd (grant demo_hash clist_new 7 Either))"
proof -
  let ?s = "snd (grant demo_hash clist_new 7 Either)"
  have wf: "clist_wf ?s" by (simp add: grant_defs clist_push_wf)
  have "clist_lookup ?s 0 = Some \<lparr>cr_target = 7, cr_slot = 0, cr_permissions = Either,
      cr_breadstuff = None, cr_expires_at = None, cr_allowed_effects = None,
      cr_stored_epoch = None, cr_provenance = 0\<rparr>"
    by (simp add: clist_lookup_def demo_op_simps demo_provenance NO_TURN_CONTEXT_def)
  then show ?thesis using revoke_restore_roundtrip [OF wf] by blast
qed

end
