(* ===== verification/CellState.thy ===== *)
theory CellState
  imports Prelude
begin

unbundle bit_operations_syntax

text \<open>
  The state block of a cell (\<open>cell/src/state.rs\<close>): sixteen fixed fields with their visibility and
  commitments, the overflow field map and the heap with their committed roots, the signed balance,
  the nonce and the epoch counters. Hash functions and the sorted Poseidon2 trees of the circuit
  library are the fields of the record \<open>crypto\<close>, a parameter of every operation that hashes.
  The lemmas give the read-after-write laws, the range and sign discipline of the balance
  operations, and that the biased wire encoding of a balance is an order embedding.
\<close>

section \<open>Cryptographic primitives as parameters\<close>

type_synonym field_element = bytes32
type_synonym digest8 = "u32 list"
type_synonym fields_map = "u64 \<rightharpoonup> field_element"
type_synonym heap_map = "(u32 \<times> u32) \<rightharpoonup> field_element"

text \<open>
  \<open>blake3\<close> hashes the bytes fed to a plain hasher, \<open>derive_key\<close> those fed to a hasher with a context
  string. \<open>fields_root8\<close> and \<open>heap_root8\<close> are the canonical roots over the two maps.
  \<open>heap_value_update m c k v\<close> is the answer of \<open>apply_value_update\<close> on the cached tree when the tree
  reflects the map \<open>m\<close>, and \<open>None\<close> when there is no cached tree or it does not hold the address.
\<close>

record crypto =
  blake3 :: "u8 list \<Rightarrow> bytes32"
  derive_key :: "string \<Rightarrow> u8 list \<Rightarrow> bytes32"
  fields_root8 :: "fields_map \<Rightarrow> digest8"
  heap_root8 :: "heap_map \<Rightarrow> digest8"
  heap_value_update :: "heap_map \<Rightarrow> u32 \<Rightarrow> u32 \<Rightarrow> field_element \<Rightarrow> digest8 option"

text \<open>The documented behaviour of the incremental heap tree.\<close>

definition heap_update_sound :: "('a crypto_scheme) \<Rightarrow> bool" where
  "heap_update_sound E \<longleftrightarrow>
     (\<forall>m c k v r. heap_value_update E m c k v = Some r \<longrightarrow> r = heap_root8 E (m((c, k) \<mapsto> v)))"

section \<open>The state record\<close>

definition STATE_SLOTS :: nat where "STATE_SLOTS = 16"
definition N_SYSTEM_ROOTS :: nat where "N_SYSTEM_ROOTS = 8"
definition FIELD_ZERO :: field_element where "FIELD_ZERO = 0"
definition REFUSAL_AUDIT_EXT_KEY :: u64 where "REFUSAL_AUDIT_EXT_KEY = 0x100000000"

datatype field_visibility = Public | Committed | SelectivelyDisclosable

datatype public_field_view = Revealed field_element | CommittedView bytes32

record cell_state =
  st_fields :: "field_element list"
  st_field_visibility :: "field_visibility list"
  st_commitments :: "bytes32 option list"
  st_nonce :: u64
  st_balance :: int
  st_proved_state :: bool
  st_delegation_epoch :: u64
  st_committed_height :: u64
  st_swiss_table_root :: bytes32
  st_refcount_table_root :: bytes32
  st_fields_root :: digest8
  st_fields_map :: fields_map
  st_system_roots :: "field_element list"
  st_heap_root :: digest8
  st_heap_map :: heap_map

definition default_system_roots :: "field_element list" where
  "default_system_roots = replicate N_SYSTEM_ROOTS FIELD_ZERO"

definition cell_state_new :: "('a crypto_scheme) \<Rightarrow> int \<Rightarrow> cell_state" where
  "cell_state_new E balance = \<lparr>
     st_fields = replicate STATE_SLOTS FIELD_ZERO,
     st_field_visibility = replicate STATE_SLOTS Public,
     st_commitments = replicate STATE_SLOTS None,
     st_nonce = 0, st_balance = balance, st_proved_state = False,
     st_delegation_epoch = 0, st_committed_height = 0,
     st_swiss_table_root = 0, st_refcount_table_root = 0,
     st_fields_root = fields_root8 E Map.empty, st_fields_map = Map.empty,
     st_system_roots = default_system_roots,
     st_heap_root = heap_root8 E Map.empty, st_heap_map = Map.empty\<rparr>"

section \<open>Balances\<close>

definition credit_balance :: "cell_state \<Rightarrow> u64 \<Rightarrow> bool \<times> cell_state" where
  "credit_balance s amount =
     (case i64_try_from amount of
        None \<Rightarrow> (False, s)
      | Some amt \<Rightarrow> (case checked_add_i64 (st_balance s) amt of
            Some n \<Rightarrow> (True, s\<lparr>st_balance := n\<rparr>)
          | None \<Rightarrow> (False, s)))"

definition debit_balance :: "cell_state \<Rightarrow> u64 \<Rightarrow> bool \<times> cell_state" where
  "debit_balance s amount =
     (case i64_try_from amount of
        None \<Rightarrow> (False, s)
      | Some amt \<Rightarrow>
          if amt \<le> st_balance s then (True, s\<lparr>st_balance := st_balance s - amt\<rparr>) else (False, s))"

definition well_debit_balance :: "cell_state \<Rightarrow> u64 \<Rightarrow> bool \<times> cell_state" where
  "well_debit_balance s amount =
     (case i64_try_from amount of
        None \<Rightarrow> (False, s)
      | Some amt \<Rightarrow> (case checked_sub_i64 (st_balance s) amt of
            Some n \<Rightarrow> (True, s\<lparr>st_balance := n\<rparr>)
          | None \<Rightarrow> (False, s)))"

definition apply_balance_change :: "cell_state \<Rightarrow> int \<Rightarrow> bool \<times> cell_state" where
  "apply_balance_change s delta =
     (case checked_add_i64 (st_balance s) delta of
        Some new_bal \<Rightarrow>
          if 0 \<le> delta \<or> 0 \<le> new_bal then (True, s\<lparr>st_balance := new_bal\<rparr>) else (False, s)
      | None \<Rightarrow> (False, s))"

definition apply_balance_change_well :: "cell_state \<Rightarrow> int \<Rightarrow> bool \<times> cell_state" where
  "apply_balance_change_well s delta =
     (case checked_add_i64 (st_balance s) delta of
        Some new_bal \<Rightarrow> (True, s\<lparr>st_balance := new_bal\<rparr>)
      | None \<Rightarrow> (False, s))"

definition increment_nonce :: "cell_state \<Rightarrow> bool \<times> cell_state" where
  "increment_nonce s =
     (case checked_add_word (st_nonce s) 1 of
        Some n \<Rightarrow> (True, s\<lparr>st_nonce := n\<rparr>)
      | None \<Rightarrow> (False, s))"

definition bump_delegation_epoch :: "cell_state \<Rightarrow> bool \<times> cell_state" where
  "bump_delegation_epoch s =
     (case checked_add_word (st_delegation_epoch s) 1 of
        Some e \<Rightarrow> (True, s\<lparr>st_delegation_epoch := e\<rparr>)
      | None \<Rightarrow> (False, s))"

section \<open>Fields\<close>

definition system_root :: "cell_state \<Rightarrow> nat \<Rightarrow> field_element option" where
  "system_root s index =
     (if index < length (st_system_roots s) then Some (st_system_roots s ! index) else None)"

definition set_system_root :: "cell_state \<Rightarrow> nat \<Rightarrow> field_element \<Rightarrow> bool \<times> cell_state" where
  "set_system_root s index value =
     (if index < N_SYSTEM_ROOTS
      then (True, s\<lparr>st_system_roots := (st_system_roots s)[index := value]\<rparr>) else (False, s))"

definition compute_commitment :: "('a crypto_scheme) \<Rightarrow> field_element \<Rightarrow> u64 \<Rightarrow> bytes32" where
  "compute_commitment E value nonce = blake3 E (bytes32_bytes value @ u64_bytes nonce)"

definition set_field_visibility ::
  "('a crypto_scheme) \<Rightarrow> cell_state \<Rightarrow> nat \<Rightarrow> field_visibility \<Rightarrow> u64 \<Rightarrow> bool \<times> cell_state" where
  "set_field_visibility E s index visibility commitment_nonce =
     (if STATE_SLOTS \<le> index then (False, s)
      else let s = s\<lparr>st_field_visibility := (st_field_visibility s)[index := visibility]\<rparr> in
        (True, s\<lparr>st_commitments := (st_commitments s)[index :=
           (case visibility of
              Public \<Rightarrow> None
            | _ \<Rightarrow> Some (compute_commitment E (st_fields s ! index) commitment_nonce))]\<rparr>))"

definition get_field_public :: "cell_state \<Rightarrow> nat \<Rightarrow> public_field_view option" where
  "get_field_public s index =
     (if STATE_SLOTS \<le> index then None
      else case st_field_visibility s ! index of
        Public \<Rightarrow> Some (Revealed (st_fields s ! index))
      | _ \<Rightarrow> (case st_commitments s ! index of
                Some h \<Rightarrow> Some (CommittedView h)
              | None \<Rightarrow> Some (CommittedView 0)))"

definition get_field :: "cell_state \<Rightarrow> nat \<Rightarrow> field_element option" where
  "get_field s index = (if index < length (st_fields s) then Some (st_fields s ! index) else None)"

definition set_field :: "cell_state \<Rightarrow> nat \<Rightarrow> field_element \<Rightarrow> bool \<times> cell_state" where
  "set_field s index value =
     (if index < STATE_SLOTS
      then let s = s\<lparr>st_fields := (st_fields s)[index := value]\<rparr> in
        (True, if st_commitments s ! index \<noteq> None
               then s\<lparr>st_commitments := (st_commitments s)[index := None]\<rparr> else s)
      else (False, s))"

definition get_field_ext :: "cell_state \<Rightarrow> u64 \<Rightarrow> field_element option" where
  "get_field_ext s key =
     (if unat key < STATE_SLOTS then Some (st_fields s ! unat key) else st_fields_map s key)"

definition set_field_ext ::
  "('a crypto_scheme) \<Rightarrow> cell_state \<Rightarrow> u64 \<Rightarrow> field_element \<Rightarrow> bool \<times> cell_state" where
  "set_field_ext E s key value =
     (if unat key < STATE_SLOTS then set_field s (unat key) value
      else let s = s\<lparr>st_fields_map := (st_fields_map s)(key \<mapsto> value)\<rparr> in
        (True, s\<lparr>st_fields_root := fields_root8 E (st_fields_map s)\<rparr>))"

definition reseal_fields_root :: "('a crypto_scheme) \<Rightarrow> cell_state \<Rightarrow> cell_state" where
  "reseal_fields_root E s = s\<lparr>st_fields_root := fields_root8 E (st_fields_map s)\<rparr>"

definition fields_root_membership ::
  "('a crypto_scheme) \<Rightarrow> cell_state \<Rightarrow> u64 \<Rightarrow> field_element option" where
  "fields_root_membership E s key =
     (case st_fields_map s key of
        None \<Rightarrow> None
      | Some v \<Rightarrow> if fields_root8 E (st_fields_map s) = st_fields_root s then Some v else None)"

section \<open>Heap\<close>

definition get_heap :: "cell_state \<Rightarrow> u32 \<Rightarrow> u32 \<Rightarrow> field_element option" where
  "get_heap s coll key = st_heap_map s (coll, key)"

definition rebuild_heap_cache :: "('a crypto_scheme) \<Rightarrow> cell_state \<Rightarrow> cell_state" where
  "rebuild_heap_cache E s = s\<lparr>st_heap_root := heap_root8 E (st_heap_map s)\<rparr>"

definition set_heap ::
  "('a crypto_scheme) \<Rightarrow> cell_state \<Rightarrow> u32 \<Rightarrow> u32 \<Rightarrow> field_element \<Rightarrow> bool \<times> cell_state" where
  "set_heap E s coll key value =
     (let before = st_heap_map s;
          s = s\<lparr>st_heap_map := before((coll, key) \<mapsto> value)\<rparr>
      in case (if before (coll, key) \<noteq> None then heap_value_update E before coll key value
               else None) of
           Some root \<Rightarrow> (True, s\<lparr>st_heap_root := root\<rparr>)
         | None \<Rightarrow> (True, rebuild_heap_cache E s))"

definition remove_heap ::
  "('a crypto_scheme) \<Rightarrow> cell_state \<Rightarrow> u32 \<Rightarrow> u32 \<Rightarrow> bool \<times> cell_state" where
  "remove_heap E s coll key =
     (let removed = st_heap_map s (coll, key) \<noteq> None;
          s = s\<lparr>st_heap_map := (st_heap_map s)((coll, key) := None)\<rparr>
      in (removed, if removed then rebuild_heap_cache E s else s))"

definition reseal_heap_root :: "('a crypto_scheme) \<Rightarrow> cell_state \<Rightarrow> cell_state" where
  "reseal_heap_root E s = rebuild_heap_cache E s"

definition heap_root_membership ::
  "('a crypto_scheme) \<Rightarrow> cell_state \<Rightarrow> u32 \<Rightarrow> u32 \<Rightarrow> field_element option" where
  "heap_root_membership E s coll key =
     (case st_heap_map s (coll, key) of
        None \<Rightarrow> None
      | Some v \<Rightarrow> if heap_root8 E (st_heap_map s) = st_heap_root s then Some v else None)"

section \<open>System-roots digest\<close>

definition SYSTEM_ROOTS_CONTEXT :: string where
  "SYSTEM_ROOTS_CONTEXT = ''dregg-cell:system-roots v1''"

definition system_roots_preimage :: "field_element list \<Rightarrow> u8 list" where
  "system_roots_preimage roots =
     u64_bytes (of_nat N_SYSTEM_ROOTS) @ concat (map bytes32_bytes roots)"

definition empty_system_roots_digest :: "('a crypto_scheme) \<Rightarrow> bytes32" where
  "empty_system_roots_digest E =
     derive_key E SYSTEM_ROOTS_CONTEXT (system_roots_preimage default_system_roots)"

definition compute_system_roots_digest :: "('a crypto_scheme) \<Rightarrow> field_element list \<Rightarrow> bytes32" where
  "compute_system_roots_digest E roots =
     (if roots = default_system_roots then empty_system_roots_digest E
      else derive_key E SYSTEM_ROOTS_CONTEXT (system_roots_preimage roots))"

section \<open>Wire encoding of balances\<close>

definition balance_biased :: "int \<Rightarrow> u64" where
  "balance_biased balance = word_of_int balance XOR push_bit 63 1"

definition balance_from_biased :: "u64 \<Rightarrow> int" where
  "balance_from_biased biased = sint (biased XOR push_bit 63 1)"

definition balance_limbs :: "int \<Rightarrow> u32 \<times> u32" where
  "balance_limbs balance =
     (let b = balance_biased balance in (ucast (b AND 0xFFFFFFFF), ucast (drop_bit 32 b)))"

definition encode_balance_le :: "int \<Rightarrow> u8 list" where
  "encode_balance_le balance = u64_bytes (balance_biased balance)"

definition decode_balance_le :: "u8 list \<Rightarrow> int" where
  "decode_balance_le bytes = balance_from_biased (from_le_bytes bytes)"

section \<open>Invariant\<close>

definition state_wf :: "cell_state \<Rightarrow> bool" where
  "state_wf s \<longleftrightarrow>
     length (st_fields s) = STATE_SLOTS \<and> length (st_field_visibility s) = STATE_SLOTS \<and>
     length (st_commitments s) = STATE_SLOTS \<and> length (st_system_roots s) = N_SYSTEM_ROOTS \<and>
     in_i64 (st_balance s)"

text \<open>The committed roots agree with the maps they commit to.\<close>

definition roots_sealed :: "('a crypto_scheme) \<Rightarrow> cell_state \<Rightarrow> bool" where
  "roots_sealed E s \<longleftrightarrow>
     st_fields_root s = fields_root8 E (st_fields_map s) \<and>
     st_heap_root s = heap_root8 E (st_heap_map s)"

lemmas balance_op_defs =
  credit_balance_def debit_balance_def well_debit_balance_def apply_balance_change_def
  apply_balance_change_well_def

lemma in_i64_between: "in_i64 a \<Longrightarrow> in_i64 c \<Longrightarrow> a \<le> b \<Longrightarrow> b \<le> c \<Longrightarrow> in_i64 b"
  by (simp add: in_i64_def)

lemma in_i64_0 [simp]: "in_i64 0"
  by (simp add: in_i64_def)

text \<open>The exact success condition and result of each balance operation.\<close>

lemma credit_balance_ok:
  "credit_balance s a = (True, s') \<longleftrightarrow>
     unat a < 2 ^ 63 \<and> in_i64 (st_balance s + int (unat a)) \<and>
     s' = s\<lparr>st_balance := st_balance s + int (unat a)\<rparr>"
  by (auto simp: credit_balance_def i64_try_from_def split: option.splits)

lemma debit_balance_ok:
  "debit_balance s a = (True, s') \<longleftrightarrow>
     unat a < 2 ^ 63 \<and> int (unat a) \<le> st_balance s \<and>
     s' = s\<lparr>st_balance := st_balance s - int (unat a)\<rparr>"
  by (auto simp: debit_balance_def i64_try_from_def split: option.splits if_splits)

lemma well_debit_balance_ok:
  "well_debit_balance s a = (True, s') \<longleftrightarrow>
     unat a < 2 ^ 63 \<and> in_i64 (st_balance s - int (unat a)) \<and>
     s' = s\<lparr>st_balance := st_balance s - int (unat a)\<rparr>"
  by (auto simp: well_debit_balance_def i64_try_from_def split: option.splits)

lemma apply_balance_change_ok:
  "apply_balance_change s d = (True, s') \<longleftrightarrow>
     in_i64 (st_balance s + d) \<and> (0 \<le> d \<or> 0 \<le> st_balance s + d) \<and>
     s' = s\<lparr>st_balance := st_balance s + d\<rparr>"
  by (auto simp: apply_balance_change_def split: option.splits if_splits)

lemma balance_op_refused:
  "credit_balance s a = (False, s') \<Longrightarrow> s' = s"
  "debit_balance s a = (False, s') \<Longrightarrow> s' = s"
  "well_debit_balance s a = (False, s') \<Longrightarrow> s' = s"
  "apply_balance_change s d = (False, s') \<Longrightarrow> s' = s"
  "apply_balance_change_well s d = (False, s') \<Longrightarrow> s' = s"
  by (auto simp: balance_op_defs split: option.splits if_splits)

lemma debit_balance_in_range:
  assumes "in_i64 (st_balance s)"
  shows "in_i64 (st_balance (snd (debit_balance s a)))"
proof (cases "fst (debit_balance s a)")
  case True
  then have "debit_balance s a = (True, snd (debit_balance s a))" by (metis prod.collapse)
  then have "int (unat a) \<le> st_balance s"
    "st_balance (snd (debit_balance s a)) = st_balance s - int (unat a)"
    unfolding debit_balance_ok by auto
  then show ?thesis using in_i64_between [OF in_i64_0 assms] by simp
next
  case False
  then have "debit_balance s a = (False, snd (debit_balance s a))" by (metis prod.collapse)
  then show ?thesis using assms balance_op_refused(2) by metis
qed

lemma balance_ops_wf:
  assumes "state_wf s"
  shows "state_wf (snd (credit_balance s a))" "state_wf (snd (debit_balance s a))"
    "state_wf (snd (well_debit_balance s a))" "state_wf (snd (apply_balance_change s d))"
    "state_wf (snd (apply_balance_change_well s d))"
  using assms debit_balance_in_range [of s a]
  by (auto simp: state_wf_def balance_op_defs split: option.splits if_splits)


lemma field_ops_wf:
  assumes "state_wf s"
  shows "state_wf (snd (set_field s i v))" "state_wf (snd (set_field_ext E s k v))"
    "state_wf (snd (set_field_visibility E s i vis n))" "state_wf (snd (set_system_root s i v))"
    "state_wf (snd (set_heap E s c h v))" "state_wf (snd (remove_heap E s c h))"
    "state_wf (snd (increment_nonce s))" "state_wf (snd (bump_delegation_epoch s))"
  using assms
  by (auto simp: state_wf_def set_field_def set_field_ext_def set_field_visibility_def
      set_system_root_def set_heap_def remove_heap_def increment_nonce_def rebuild_heap_cache_def
      bump_delegation_epoch_def Let_def split: option.splits if_splits)

lemma state_wf_new: "in_i64 b \<Longrightarrow> state_wf (cell_state_new E b)"
  by (simp add: state_wf_def cell_state_new_def default_system_roots_def)

lemma roots_sealed_new: "roots_sealed E (cell_state_new E b)"
  by (simp add: roots_sealed_def cell_state_new_def)

lemma set_heap_sealed:
  assumes "heap_update_sound E"
  shows "st_heap_root (snd (set_heap E s c k v)) = heap_root8 E (st_heap_map (snd (set_heap E s c k v)))"
  using assms
  by (auto simp: set_heap_def heap_update_sound_def rebuild_heap_cache_def Let_def
      split: option.splits if_splits)

lemma set_heap_map [simp]: "st_heap_map (snd (set_heap E s c k v)) = (st_heap_map s)((c, k) \<mapsto> v)"
  by (auto simp: set_heap_def rebuild_heap_cache_def Let_def split: option.splits)

lemma set_field_ext_map:
  "st_fields_map (snd (set_field_ext E s k v)) =
     (if unat k < STATE_SLOTS then st_fields_map s else (st_fields_map s)(k \<mapsto> v))"
  by (auto simp: set_field_ext_def set_field_def Let_def)

lemma roots_sealed_ops:
  assumes "roots_sealed E s"
  shows "roots_sealed E (snd (set_field s i v))" "roots_sealed E (snd (set_field_ext E s k v))"
    "heap_update_sound E \<Longrightarrow> roots_sealed E (snd (set_heap E s c h v))"
    "roots_sealed E (snd (remove_heap E s c h))"
proof -
  show "roots_sealed E (snd (set_field s i v))"
    using assms by (auto simp: roots_sealed_def set_field_def Let_def)
  show "roots_sealed E (snd (set_field_ext E s k v))"
    using assms by (auto simp: roots_sealed_def set_field_ext_def set_field_def Let_def)
  show "roots_sealed E (snd (remove_heap E s c h))"
    using assms
    by (auto simp: roots_sealed_def remove_heap_def rebuild_heap_cache_def Let_def fun_upd_idem)
  show "roots_sealed E (snd (set_heap E s c h v))" if "heap_update_sound E"
    using assms set_heap_sealed [OF that, of s c h v]
    by (auto simp: roots_sealed_def set_heap_def rebuild_heap_cache_def Let_def
        split: option.splits)
qed

lemma get_set_field_ext:
  assumes "state_wf s"
  shows "get_field_ext (snd (set_field_ext E s k v)) j = (if j = k then Some v else get_field_ext s j)"
  using assms
  by (auto simp: get_field_ext_def set_field_ext_def set_field_def state_wf_def Let_def
      nth_list_update word_unat_eq_iff split: if_splits)

lemma get_set_heap:
  "get_heap (snd (set_heap E s c k v)) c' k' = (if (c', k') = (c, k) then Some v else get_heap s c' k')"
  by (auto simp: get_heap_def)

lemma get_remove_heap:
  "get_heap (snd (remove_heap E s c k)) c' k' = (if (c', k') = (c, k) then None else get_heap s c' k')"
  by (auto simp: get_heap_def remove_heap_def rebuild_heap_cache_def Let_def)

text \<open>A hidden field shows the public view nothing but a commitment.\<close>

lemma public_view_hides:
  assumes "index < STATE_SLOTS" "st_field_visibility s ! index \<noteq> Public"
  shows "\<exists>h. get_field_public s index = Some (CommittedView h)"
  using assms
  by (cases "st_field_visibility s ! index") (auto simp: get_field_public_def split: option.splits)

section \<open>The biased encoding\<close>

lemma bit_top_bit: "bit (push_bit 63 1 :: u64) n \<longleftrightarrow> n = 63"
  by (simp only: bit_push_bit_iff) (auto simp: bit_1_iff)

lemma xor_top_bit: "(x :: u64) XOR push_bit 63 1 = x + push_bit 63 1"
proof -
  define t where "t = (push_bit 63 1 :: u64)"
  have bit_t: "bit t n \<longleftrightarrow> n = 63" for n unfolding t_def by (rule bit_top_bit)
  have tt: "t + t = 0" by (simp add: t_def)
  have "x XOR t = x + t"
  proof (cases "bit x 63")
    case False
    then have "x AND t = 0" "x XOR t = x OR t"
      by (auto intro!: bit_word_eqI simp: bit_simps bit_t)
    then show ?thesis by (metis disjunctive_add_eq_or)
  next
    case True
    then have "x = (x XOR t) OR t" "(x XOR t) AND t = 0"
      by (auto intro!: bit_word_eqI simp: bit_simps bit_t)
    then have "x = (x XOR t) + t" by (metis disjunctive_add_eq_or)
    then have "x + t = (x XOR t) + (t + t)" by (metis add.assoc)
    then show ?thesis using tt by simp
  qed
  then show ?thesis by (simp only: t_def)
qed

lemma balance_biased_eq: "balance_biased b = word_of_int (b + 2 ^ 63)"
  unfolding balance_biased_def xor_top_bit by simp

lemma uint_balance_biased:
  assumes "in_i64 b"
  shows "uint (balance_biased b) = b + 2 ^ 63"
proof -
  have "uint (balance_biased b) = (b + 2 ^ 63) mod 2 ^ 64"
    by (simp only: balance_biased_eq uint_word_of_int) simp
  also have "\<dots> = b + 2 ^ 63"
    using assms by (intro mod_pos_pos_trivial) (simp_all add: in_i64_def)
  finally show ?thesis .
qed

lemma balance_biased_less_iff:
  "in_i64 a \<Longrightarrow> in_i64 b \<Longrightarrow> balance_biased a < balance_biased b \<longleftrightarrow> a < b"
  by (simp add: word_less_def uint_balance_biased)

lemma balance_from_biased_biased:
  assumes "in_i64 b"
  shows "balance_from_biased (balance_biased b) = b"
proof -
  have "balance_biased b XOR push_bit 63 1 = word_of_int b"
    unfolding balance_biased_def by (simp only: xor.assoc xor_self_eq xor.right_neutral)
  moreover have "signed_take_bit 63 b = b"
    using assms by (intro signed_take_bit_int_eq_self) (simp_all add: in_i64_def)
  ultimately show ?thesis
    unfolding balance_from_biased_def by (simp only: sint_sbintrunc') simp
qed

lemma balance_limbs_biased:
  assumes "balance_limbs a = balance_limbs b"
  shows "balance_biased a = balance_biased b"
proof (rule bit_word_eqI)
  fix n :: nat
  assume n: "n < LENGTH(64)"
  define x y where "x = balance_biased a" and "y = balance_biased b"
  have lo: "(ucast (x AND mask 32) :: u32) = ucast (y AND mask 32)"
    and hi: "(ucast (drop_bit 32 x) :: u32) = ucast (drop_bit 32 y)"
    using assms by (simp_all add: balance_limbs_def x_def y_def Let_def mask_eq_exp_minus_1)
  have lo_bit: "bit (ucast (x AND mask 32) :: u32) n \<longleftrightarrow> bit (ucast (y AND mask 32) :: u32) n"
    using lo by simp
  have hi_bit: "bit (ucast (drop_bit 32 x) :: u32) (n - 32) \<longleftrightarrow>
      bit (ucast (drop_bit 32 y) :: u32) (n - 32)"
    using hi by simp
  have "bit x n \<longleftrightarrow> bit y n"
  proof (cases "n < 32")
    case True
    then show ?thesis using lo_bit by (simp add: bit_simps)
  next
    case False
    moreover have "n - 32 < 32" using n by simp
    ultimately show ?thesis using hi_bit by (simp add: bit_simps)
  qed
  then show "bit (balance_biased a) n \<longleftrightarrow> bit (balance_biased b) n" by (simp add: x_def y_def)
qed

section \<open>Properties\<close>

definition demo_crypto :: crypto where
  "demo_crypto = \<lparr>blake3 = (\<lambda>_. 0), derive_key = (\<lambda>_ _. 0), fields_root8 = (\<lambda>_. replicate 8 0),
     heap_root8 = (\<lambda>_. replicate 8 0), heap_value_update = (\<lambda>_ _ _ _. Some (replicate 8 0))\<rparr>"

lemma demo_heap_sound: "heap_update_sound demo_crypto"
  by (simp add: heap_update_sound_def demo_crypto_def)

text \<open>The biased wire encoding of a signed balance is a bijection that preserves order: decoding
  gives the balance back, comparing the encoded words compares the balances, and the limbs are the
  low and high half of the encoded word.\<close>

theorem balance_encoding_order:
  assumes "in_i64 a" and "in_i64 b"
  shows "decode_balance_le (encode_balance_le a) = a \<and>
    (balance_biased a < balance_biased b \<longleftrightarrow> a < b) \<and>
    (balance_limbs a = balance_limbs b \<longrightarrow> a = b)"
proof -
  have "balance_limbs a = balance_limbs b \<longrightarrow> a = b"
    using balance_limbs_biased balance_from_biased_biased [OF assms(1)]
      balance_from_biased_biased [OF assms(2)] by metis
  then show ?thesis
    using balance_biased_less_iff [OF assms] balance_from_biased_biased [OF assms(1)]
    by (simp add: decode_balance_le_def encode_balance_le_def)
qed

theorem balance_encoding_order_witness:
  "decode_balance_le (encode_balance_le (- 5)) = - 5 \<and> balance_biased (- 5) < balance_biased 3"
  using balance_encoding_order [of "- 5" 3] by (simp add: in_i64_def)

text \<open>Balance discipline on every branch: a balance never leaves the range of \<open>i64\<close>; an ordinary
  debit succeeds exactly when the balance covers it and never makes a non-negative balance
  negative; the well debit may go negative but not out of range; a credit never reduces; and a
  refused operation changes nothing.\<close>

theorem balance_discipline:
  assumes "state_wf s"
  shows "state_wf (snd (credit_balance s a)) \<and> state_wf (snd (debit_balance s a)) \<and>
    state_wf (snd (well_debit_balance s a)) \<and> state_wf (snd (apply_balance_change s d)) \<and>
    (fst (debit_balance s a) \<longleftrightarrow> unat a < 2 ^ 63 \<and> int (unat a) \<le> st_balance s) \<and>
    (0 \<le> st_balance s \<longrightarrow> 0 \<le> st_balance (snd (debit_balance s a))) \<and>
    (0 \<le> st_balance s \<longrightarrow> 0 \<le> st_balance (snd (apply_balance_change s d))) \<and>
    st_balance s \<le> st_balance (snd (credit_balance s a)) \<and>
    (\<not> fst (credit_balance s a) \<longrightarrow> snd (credit_balance s a) = s) \<and>
    (\<not> fst (debit_balance s a) \<longrightarrow> snd (debit_balance s a) = s) \<and>
    (\<not> fst (well_debit_balance s a) \<longrightarrow> snd (well_debit_balance s a) = s) \<and>
    (\<not> fst (apply_balance_change s d) \<longrightarrow> snd (apply_balance_change s d) = s)"
proof -
  have "fst (debit_balance s a) \<longleftrightarrow> unat a < 2 ^ 63 \<and> int (unat a) \<le> st_balance s"
    by (auto simp: debit_balance_def i64_try_from_def)
  moreover have "0 \<le> st_balance s \<longrightarrow> 0 \<le> st_balance (snd (debit_balance s a))"
    by (auto simp: debit_balance_def split: option.splits)
  moreover have "0 \<le> st_balance s \<longrightarrow> 0 \<le> st_balance (snd (apply_balance_change s d))"
    by (auto simp: apply_balance_change_def split: option.splits)
  moreover have "st_balance s \<le> st_balance (snd (credit_balance s a))"
    by (auto simp: credit_balance_def dest: i64_try_from_SomeD split: option.splits)
  ultimately show ?thesis
    using balance_ops_wf [OF assms] balance_op_refused [of s] by (metis prod.collapse)
qed

theorem balance_discipline_witness:
  "fst (debit_balance (cell_state_new demo_crypto 10) 4) \<and>
   st_balance (snd (debit_balance (cell_state_new demo_crypto 10) 4)) = 6 \<and>
   \<not> fst (debit_balance (cell_state_new demo_crypto 10) 11)"
proof -
  have "state_wf (cell_state_new demo_crypto 10)"
    by (rule state_wf_new) (simp add: in_i64_def)
  then have "fst (debit_balance (cell_state_new demo_crypto 10) 4)"
    "\<not> fst (debit_balance (cell_state_new demo_crypto 10) 11)"
    using balance_discipline [of "cell_state_new demo_crypto 10" 4 0]
      balance_discipline [of "cell_state_new demo_crypto 10" 11 0]
    by (simp_all add: cell_state_new_def)
  then show ?thesis
    by (simp add: debit_balance_def i64_try_from_def cell_state_new_def)
qed

text \<open>Read after write for the unified field space and the heap: a write is read back at its key
  and nowhere else, on both sides of the sixteen-slot boundary, and every write leaves the
  committed roots equal to the roots of the maps they commit to.\<close>

theorem field_heap_read_after_write:
  assumes "state_wf s" and "roots_sealed E s" and "heap_update_sound E"
  shows "get_field_ext (snd (set_field_ext E s k v)) j = (if j = k then Some v else get_field_ext s j) \<and>
    get_heap (snd (set_heap E s c h v)) c' h' = (if (c', h') = (c, h) then Some v else get_heap s c' h') \<and>
    get_heap (snd (remove_heap E s c h)) c' h' = (if (c', h') = (c, h) then None else get_heap s c' h') \<and>
    roots_sealed E (snd (set_field_ext E s k v)) \<and> roots_sealed E (snd (set_heap E s c h v)) \<and>
    roots_sealed E (snd (remove_heap E s c h)) \<and>
    heap_root_membership E (snd (set_heap E s c h v)) c h = Some v"
proof -
  have "heap_root_membership E (snd (set_heap E s c h v)) c h = Some v"
    using set_heap_sealed [OF assms(3), of s c h v] by (simp add: heap_root_membership_def)
  then show ?thesis
    by (simp only: get_set_field_ext [OF assms(1)] get_set_heap get_remove_heap
        roots_sealed_ops [OF assms(2)] assms(3) simp_thms)
qed

theorem field_heap_read_after_write_witness:
  "get_field_ext (snd (set_field_ext demo_crypto (cell_state_new demo_crypto 0) 20 9)) 20 = Some 9 \<and>
   get_field_ext (snd (set_field_ext demo_crypto (cell_state_new demo_crypto 0) 3 9)) 20 = None"
proof -
  have wf: "state_wf (cell_state_new demo_crypto 0)" by (rule state_wf_new) simp
  note raw = field_heap_read_after_write [OF wf roots_sealed_new demo_heap_sound]
  have "get_field_ext (snd (set_field_ext demo_crypto (cell_state_new demo_crypto 0) 20 9)) 20 = Some 9"
    by (rule raw [THEN conjunct1, of 20 9 20, unfolded if_P [OF refl]])
  moreover have "get_field_ext (snd (set_field_ext demo_crypto (cell_state_new demo_crypto 0) 3 9)) 20 =
      get_field_ext (cell_state_new demo_crypto 0) 20"
    using raw [THEN conjunct1, of 3 9 20] by simp
  ultimately show ?thesis
    by (simp add: get_field_ext_def cell_state_new_def STATE_SLOTS_def)
qed

end
