(* ===== verification/Lifecycle.thy ===== *)
theory Lifecycle
  imports CellState
begin

text \<open>
  Cell lifecycles (\<open>cell/src/lifecycle.rs\<close>): the five states, death certificates and archival
  attestations. The transitions themselves are operations of a cell (theory \<open>Cell\<close>).
\<close>

datatype cell_lifecycle =
    Live
  | Sealed (reason_hash: bytes32) (sealed_at: u64)
  | Migrated (migrated_to: cell_id) (attestation: bytes32) (migrated_at: u64)
  | Destroyed (death_certificate_hash: bytes32) (destroyed_at: u64)
  | Archived (checkpoint: bytes32) (archived_through: u64)

fun discriminant :: "cell_lifecycle \<Rightarrow> u8" where
  "discriminant Live = 0"
| "discriminant (Sealed _ _) = 1"
| "discriminant (Migrated _ _ _) = 2"
| "discriminant (Destroyed _ _) = 3"
| "discriminant (Archived _ _) = 4"

fun lc_accepts_effects :: "cell_lifecycle \<Rightarrow> bool" where
  "lc_accepts_effects Live = True"
| "lc_accepts_effects (Archived _ _) = True"
| "lc_accepts_effects _ = False"

fun is_terminal :: "cell_lifecycle \<Rightarrow> bool" where
  "is_terminal (Destroyed _ _) = True"
| "is_terminal (Migrated _ _ _) = True"
| "is_terminal _ = False"

fun is_sealed :: "cell_lifecycle \<Rightarrow> bool" where
  "is_sealed (Sealed _ _) = True"
| "is_sealed _ = False"

fun is_destroyed :: "cell_lifecycle \<Rightarrow> bool" where
  "is_destroyed (Destroyed _ _) = True"
| "is_destroyed _ = False"

definition lc_is_live :: "cell_lifecycle \<Rightarrow> bool" where
  "lc_is_live lc \<longleftrightarrow> lc = Live"

datatype death_reason = Voluntary | Forced | MigratedReason | CustomReason bytes32

record death_certificate =
  dc_cell_id :: cell_id
  dc_last_receipt_hash :: bytes32
  dc_final_state_commitment :: bytes32
  dc_destroyed_at_height :: u64
  dc_reason :: death_reason

datatype lifecycle_transition_error =
    Terminal
  | AlreadySealed
  | NotSealed
  | CertificateMismatch
  | InvalidAttestation string
  | ArchiveNotMonotone
  | SealedCannotArchive

fun death_reason_bytes :: "death_reason \<Rightarrow> u8 list" where
  "death_reason_bytes Voluntary = [0]"
| "death_reason_bytes Forced = [1]"
| "death_reason_bytes MigratedReason = [2]"
| "death_reason_bytes (CustomReason h) = 3 # bytes32_bytes h"

definition certificate_preimage :: "death_certificate \<Rightarrow> u8 list" where
  "certificate_preimage c =
     bytes32_bytes (dc_cell_id c) @ bytes32_bytes (dc_last_receipt_hash c) @
     bytes32_bytes (dc_final_state_commitment c) @ u64_bytes (dc_destroyed_at_height c) @
     death_reason_bytes (dc_reason c)"

definition certificate_hash :: "('a crypto_scheme) \<Rightarrow> death_certificate \<Rightarrow> bytes32" where
  "certificate_hash E c = derive_key E ''dregg-cell:death-certificate v1'' (certificate_preimage c)"

record archival_attestation =
  aa_cell_id :: cell_id
  aa_archive_start_height :: u64
  aa_archive_end_height :: u64
  aa_archive_blob_hash :: bytes32
  aa_archive_terminal_commitment :: bytes32
  aa_archive_terminal_receipt_hash :: bytes32

definition checkpoint_preimage :: "archival_attestation \<Rightarrow> u8 list" where
  "checkpoint_preimage a =
     bytes32_bytes (aa_cell_id a) @ u64_bytes (aa_archive_start_height a) @
     u64_bytes (aa_archive_end_height a) @ bytes32_bytes (aa_archive_blob_hash a) @
     bytes32_bytes (aa_archive_terminal_commitment a) @
     bytes32_bytes (aa_archive_terminal_receipt_hash a)"

definition checkpoint_hash :: "('a crypto_scheme) \<Rightarrow> archival_attestation \<Rightarrow> bytes32" where
  "checkpoint_hash E a = derive_key E ''dregg-cell:archival-attestation v1'' (checkpoint_preimage a)"

definition attestation_validate :: "archival_attestation \<Rightarrow> string + unit" where
  "attestation_validate a =
     (if aa_archive_end_height a < aa_archive_start_height a
      then Inl ''archive_start_height > archive_end_height''
      else if aa_archive_blob_hash a = 0 then Inl ''archive_blob_hash is zero''
      else if aa_archive_terminal_receipt_hash a = 0
      then Inl ''archive_terminal_receipt_hash is zero''
      else Inr ())"

lemma death_reason_bytes_inject [simp]: "death_reason_bytes a = death_reason_bytes b \<longleftrightarrow> a = b"
  by (cases a; cases b) auto

lemma certificate_preimage_inject: "certificate_preimage a = certificate_preimage b \<longleftrightarrow> a = b"
  by (auto simp: certificate_preimage_def intro: death_certificate.equality)

lemma checkpoint_preimage_inject: "checkpoint_preimage a = checkpoint_preimage b \<longleftrightarrow> a = b"
  by (auto simp: checkpoint_preimage_def intro: archival_attestation.equality)

lemma terminal_no_effects: "is_terminal lc \<Longrightarrow> \<not> lc_accepts_effects lc"
  by (cases lc) auto

end
