(* ===== verification/Program.thy ===== *)
theory Program
  imports Prelude
begin

text \<open>
  The vocabulary of cell programs: witnessed predicates (\<open>cell/src/predicate.rs\<close>), collection predicates
  (\<open>cell/src/program/collection.rs\<close>), state constraints, transition guards and cases
  (\<open>cell/src/program/types.rs\<close>). The constructors keep the source's names behind a prefix for their
  type: \<open>Sc\<close> for \<open>StateConstraint\<close>, \<open>Ss\<close> for \<open>SimpleStateConstraint\<close>, \<open>Ha\<close> for \<open>HeapAtom\<close>, \<open>Ep\<close> for
  \<open>ElemPredAtom\<close>, \<open>Cp\<close> for \<open>CollPred\<close>, \<open>Tg\<close> for \<open>TransitionGuard\<close>, \<open>Wk\<close> for \<open>WitnessedPredicateKind\<close> and \<open>Ir\<close>
  for \<open>InputRef\<close>. Signed 64-bit literals are integers; \<open>usize\<close> indices are naturals.
\<close>

section \<open>Witnessed predicates\<close>

datatype witnessed_predicate_kind =
    WkDfa | WkTemporal | WkMerkleMembership | WkNonMembership | WkBlindedSet | WkBridgePredicate
  | WkPedersenEquality | WkCustom (wk_vk_hash: bytes32)

datatype input_ref =
    IrSlot u8
  | IrWitness nat
  | IrPublicInput nat
  | IrSender
  | IrSigningMessage

record witnessed_predicate =
  wp_kind :: witnessed_predicate_kind
  wp_commitment :: bytes32
  wp_input_ref :: input_ref
  wp_proof_witness_index :: nat

section \<open>Collection predicates\<close>

datatype elem_pred_atom =
    EpFieldEquals u32 bytes32
  | EpFieldGte u32 bytes32
  | EpFieldLte u32 bytes32
  | EpFieldInSet u32 "u64 list"

datatype coll_pred =
    CpCountSatGe u32 elem_pred_atom
  | CpSumOfLe u32 int
  | CpSumOfGe u32 int
  | CpAllMembers elem_pred_atom
  | CpExistsMember elem_pred_atom
  | CpMOfNDistinct u32 u32 elem_pred_atom

section \<open>State constraints\<close>

datatype hash_kind = HkBlake3 | HkPoseidon2

datatype authorized_set =
    AsPublicRoot u8
  | AsBlindedSet bytes32
  | AsCredentialSet bytes32 bytes32

datatype renounced_set = RsPublicRoot u8 | RsBlindedSet bytes32

datatype delta_relation = DrEqual | DrEqualAndOpposite

record read_set =
  rs_new_slots :: "u8 list"
  rs_old_slots :: "u8 list"
  rs_reads_height :: bool
  rs_reads_epoch :: bool
  rs_reads_sender :: bool
  rs_reads_preimage :: bool

record custom_descriptor =
  cd_human_name :: string
  cd_semver :: string
  cd_authoring_package :: string

datatype heap_atom =
    HaEquals bytes32
  | HaGte bytes32
  | HaLte bytes32
  | HaImmutable
  | HaWriteOnce
  | HaMonotonic
  | HaStrictMonotonic
  | HaMemberOf "u64 list"
  | HaInRangeTwoSided u64 u64
  | HaDeltaBounded u64
  | HaDeltaEquals int

datatype simple_state_constraint =
    SsFieldEquals u8 bytes32
  | SsFieldGte u8 bytes32
  | SsFieldLte u8 bytes32
  | SsWriteOnce u8
  | SsImmutable u8
  | SsMonotonic u8
  | SsStrictMonotonic u8
  | SsBoundedBy u8 u8
  | SsFieldGteHeight u8 int
  | SsFieldLteHeight u8 int
  | SsTemporalGate "u64 option" "u64 option"
  | SsNot simple_state_constraint
  | SsSenderIs bytes32
  | SsSenderInSlot u8
  | SsBalanceGte u64
  | SsBalanceLte u64
  | SsPreimageGate u8 hash_kind
  | SsHeapField u64 heap_atom
  | SsDelegationEpochEquals u8
  | SsCountGe u32 u8
  | SsSenderMemberOf "bytes32 list"
  | SsBalanceDeltaLte int
  | SsBalanceDeltaGte int

datatype bound_branch =
    BbSimple simple_state_constraint
  | BbWitnessed u8 bytes32 u8 bytes32 nat

text \<open>
  The constructors of \<open>StateConstraint\<close> come in four groups by what their check reads (the new state; the
  step from the old state; the block and the sender; witnesses of the action), and three connectives.
  The enum of the source is the sum of the groups and the connectives. The connectives apply to
  \<open>SimpleStateConstraint\<close>, whose lift is never a connective, so the groups are the atoms of the language.
\<close>

datatype value_constraint =
    ScFieldEquals u8 bytes32
  | ScFieldGte u8 bytes32
  | ScFieldLte u8 bytes32
  | ScFieldLteField u8 u8
  | ScFieldLteOther u8 u8 int
  | ScSumEquals "u8 list" bytes32
  | ScBalanceGte u64
  | ScBalanceLte u64
  | ScSymEq u8 u64
  | ScSymMemberOf u8 "u64 list"
  | ScDigEq u8 bytes32
  | ScDigFieldEq u8 u8
  | ScMemberOf u8 "u64 list"
  | ScPrefixOf "u8 list" "u64 list"
  | ScInRangeTwoSided u8 u64 u64
  | ScAffineLe "(int \<times> u8) list" int
  | ScAffineEq "(int \<times> u8) list" int
  | ScReachable u8 u64 "(u64 \<times> u64) list"
  | ScClearanceDominates u8 u8 u8 "(bytes32 \<times> bytes32) list"
  | ScHeapFieldLteOther u64 u64 int
  | ScCollectionAggregate u32 u32 u32 coll_pred
  | ScFieldsCollectionAggregate u64 u32 u32 coll_pred

datatype transition_constraint =
    ScWriteOnce u8
  | ScImmutable u8
  | ScMonotonic u8
  | ScStrictMonotonic u8
  | ScBoundedBy u8 u8
  | ScFieldDelta u8 bytes32
  | ScFieldDeltaInRange u8 bytes32 bytes32
  | ScSumEqualsAcross "u8 list" "u8 list"
  | ScRateLimitBySum u8 u64 u64
  | ScMonotonicSequence u8
  | ScAllowedTransitions u8 "(bytes32 \<times> bytes32) list"
  | ScSettleEscrow u8 u8
  | ScVaultDeposit u8 u8
  | ScDeltaBounded u8 u64
  | ScBalanceDeltaLte int
  | ScBalanceDeltaGte int
  | ScAffineDeltaLe "(int \<times> u8) list" int
  | ScHeapField u64 heap_atom
  | ScRateBound u8 u64
  | ScUntilEvent u8
  | ScSinceEvent u8

datatype context_constraint =
    ScFieldGteHeight u8 int
  | ScFieldLteHeight u8 int
  | ScRateLimit u32 u64
  | ScTemporalGate "u64 option" "u64 option"
  | ScDischargeObligation u8 u8 u8 u32 u32
  | ScSenderIs bytes32
  | ScSenderInSlot u8
  | ScSenderMemberOf "bytes32 list"
  | ScDelegationEpochEquals u8
  | ScCooledSince u64 u64
  | ScChallengeWindow u8 u64 u64

datatype witness_constraint =
    ScSenderAuthorized authorized_set
  | ScRenounced renounced_set
  | ScCapabilityUniqueness u8
  | ScPreimageGate u8 hash_kind
  | ScKeyRotationGate u8 u8 u8 u64 hash_kind
  | ScTemporalPredicate u8 bytes32
  | ScBoundDelta u8 cell_id u8 delta_relation
  | ScWitnessed witnessed_predicate
  | ScCustom bytes32 custom_descriptor read_set
  | ScCountGe u32 u8
  | ScObservedFieldEquals u8 bytes32 u8 bytes32 nat

datatype constraint_atom =
    ScValue value_constraint
  | ScTransition transition_constraint
  | ScContext context_constraint
  | ScWitness witness_constraint

datatype state_constraint =
    ScAtom constraint_atom
  | ScAnyOf "simple_state_constraint list"
  | ScAllOf "simple_state_constraint list"
  | ScAnyOfBound "bound_branch list"

section \<open>Guards, cases and programs\<close>

datatype transition_guard =
    TgAlways
  | TgMethodIs bytes32
  | TgEffectKindIs u32
  | TgSlotChanged u8
  | TgAnyOf "transition_guard list"
  | TgAllOf "transition_guard list"

record transition_case =
  tc_guard :: transition_guard
  tc_constraints :: "state_constraint list"

datatype cell_program =
    ProgNone
  | Predicate "state_constraint list"
  | Cases "transition_case list"
  | Circuit (circuit_hash: bytes32)

end
