(* ===== verification/Cell.thy ===== *)
theory Cell
  imports Capability Lifecycle Program
begin

text \<open>
  Cells (\<open>cell/src/cell.rs\<close>) and delegation snapshots (\<open>cell/src/delegation.rs\<close>): the record, its
  constructors and the lifecycle transitions seal, unseal, destroy and archive. The lemmas give the
  lifecycle as a state machine: every transition starts in a non-terminal state, the terminal
  states are absorbing, and a refused transition changes nothing.
\<close>

section \<open>Delegation snapshots\<close>

type_synonym bytes64 = "512 word"

record delegated_ref =
  dr_source :: cell_id
  dr_child :: cell_id
  dr_snapshot :: "capability_ref list"
  dr_delegation_epoch :: u64
  dr_refreshed_at :: u64
  dr_max_staleness :: u64
  dr_clist_commitment :: bytes32
  dr_parent_signature :: bytes64

definition delegated_ref_new ::
  "cell_id \<Rightarrow> cell_id \<Rightarrow> capability_ref list \<Rightarrow> u64 \<Rightarrow> u64 \<Rightarrow> u64 \<Rightarrow> bytes32 \<Rightarrow> bytes64 \<Rightarrow> delegated_ref"
  where
  "delegated_ref_new source child snapshot epoch refreshed_at max_staleness commitment sig =
     \<lparr>dr_source = source, dr_child = child, dr_snapshot = snapshot, dr_delegation_epoch = epoch,
      dr_refreshed_at = refreshed_at, dr_max_staleness = max_staleness,
      dr_clist_commitment = commitment, dr_parent_signature = sig\<rparr>"

definition compute_clist_commitment :: "('a crypto_scheme) \<Rightarrow> u8 list \<Rightarrow> bytes32" where
  "compute_clist_commitment E serialized_clist =
     derive_key E ''dregg-delegation-clist-commitment-v1'' serialized_clist"

definition signing_message :: "('a crypto_scheme) \<Rightarrow> bytes32 \<Rightarrow> u64 \<Rightarrow> cell_id \<Rightarrow> bytes32" where
  "signing_message E commitment epoch child =
     derive_key E ''dregg-delegation-sig-v1''
       (bytes32_bytes commitment @ u64_bytes epoch @ bytes32_bytes child)"

definition is_stale :: "delegated_ref \<Rightarrow> u64 \<Rightarrow> bool" where
  "is_stale d now =
     (if dr_max_staleness d = 0 then True
      else dr_max_staleness d < saturating_sub_word now (dr_refreshed_at d))"

definition dr_has_capability :: "delegated_ref \<Rightarrow> cell_id \<Rightarrow> bool" where
  "dr_has_capability d target = list_ex (\<lambda>cap. cr_target cap = target) (dr_snapshot d)"

definition dr_capabilities_for :: "delegated_ref \<Rightarrow> cell_id \<Rightarrow> capability_ref list" where
  "dr_capabilities_for d target = filter (\<lambda>cap. cr_target cap = target) (dr_snapshot d)"

section \<open>Cells\<close>

datatype cell_mode = Hosted | Sovereign

record verification_key =
  vk_hash_bytes :: bytes32
  vk_data :: "u8 list"

definition from_parts_checked ::
  "('a crypto_scheme) \<Rightarrow> bytes32 \<Rightarrow> u8 list \<Rightarrow> (bytes32 \<times> bytes32) + verification_key" where
  "from_parts_checked E hash data =
     (let expected = blake3 E data in
      if expected \<noteq> hash then Inl (expected, hash)
      else Inr \<lparr>vk_hash_bytes = hash, vk_data = data\<rparr>)"

record cell =
  c_id :: cell_id
  c_public_key :: bytes32
  c_state :: cell_state
  c_permissions :: permissions
  c_verification_key :: "verification_key option"
  c_delegate :: "cell_id option"
  c_delegation :: "delegated_ref option"
  c_token_id :: bytes32
  c_capabilities :: capability_set
  c_program :: cell_program
  c_mode :: cell_mode
  c_lifecycle :: cell_lifecycle
  c_leaf_cache :: "bytes32 option"

record cell_config =
  cc_mode :: cell_mode
  cc_balance :: int
  cc_permissions :: "permissions option"
  cc_program :: "cell_program option"
  cc_verification_key :: "verification_key option"

definition cell_config_default :: cell_config where
  "cell_config_default = \<lparr>cc_mode = Sovereign, cc_balance = 0, cc_permissions = None,
     cc_program = None, cc_verification_key = None\<rparr>"

definition derive_raw :: "('a crypto_scheme) \<Rightarrow> bytes32 \<Rightarrow> bytes32 \<Rightarrow> cell_id" where
  "derive_raw E public_key token_id =
     derive_key E ''dregg-cell-id-v1'' (bytes32_bytes public_key @ bytes32_bytes token_id)"

definition from_config ::
  "('a crypto_scheme) \<Rightarrow> bytes32 \<Rightarrow> bytes32 \<Rightarrow> cell_config \<Rightarrow> cell" where
  "from_config E public_key token_id config = \<lparr>
     c_id = derive_raw E public_key token_id, c_public_key = public_key,
     c_state = cell_state_new E (cc_balance config),
     c_permissions = (case cc_permissions config of Some p \<Rightarrow> p | None \<Rightarrow> default_user),
     c_verification_key = cc_verification_key config, c_delegate = None, c_delegation = None,
     c_token_id = token_id, c_capabilities = clist_new,
     c_program = (case cc_program config of Some p \<Rightarrow> p | None \<Rightarrow> ProgNone),
     c_mode = cc_mode config, c_lifecycle = Live, c_leaf_cache = None\<rparr>"

definition cell_new :: "('a crypto_scheme) \<Rightarrow> bytes32 \<Rightarrow> bytes32 \<Rightarrow> cell" where
  "cell_new E public_key token_id = \<lparr>
     c_id = derive_raw E public_key token_id, c_public_key = public_key,
     c_state = cell_state_new E 0, c_permissions = default_user, c_verification_key = None,
     c_delegate = None, c_delegation = None, c_token_id = token_id, c_capabilities = clist_new,
     c_program = ProgNone, c_mode = Sovereign, c_lifecycle = Live, c_leaf_cache = None\<rparr>"

definition new_hosted :: "('a crypto_scheme) \<Rightarrow> bytes32 \<Rightarrow> bytes32 \<Rightarrow> cell" where
  "new_hosted E public_key token_id = (cell_new E public_key token_id)\<lparr>c_mode := Hosted\<rparr>"

definition with_balance :: "('a crypto_scheme) \<Rightarrow> bytes32 \<Rightarrow> bytes32 \<Rightarrow> int \<Rightarrow> cell" where
  "with_balance E public_key token_id balance = \<lparr>
     c_id = derive_raw E public_key token_id, c_public_key = public_key,
     c_state = cell_state_new E balance, c_permissions = default_user, c_verification_key = None,
     c_delegate = None, c_delegation = None, c_token_id = token_id, c_capabilities = clist_new,
     c_program = ProgNone, c_mode = Hosted, c_lifecycle = Live, c_leaf_cache = None\<rparr>"

definition remote_stub_with_id_pk_balance ::
  "('a crypto_scheme) \<Rightarrow> cell_id \<Rightarrow> bytes32 \<Rightarrow> int \<Rightarrow> cell" where
  "remote_stub_with_id_pk_balance E cid public_key balance = \<lparr>
     c_id = cid, c_public_key = public_key,
     c_state = cell_state_new E balance, c_permissions = default_user, c_verification_key = None,
     c_delegate = None, c_delegation = None, c_token_id = 0, c_capabilities = clist_new,
     c_program = ProgNone, c_mode = Hosted, c_lifecycle = Live, c_leaf_cache = None\<rparr>"

definition spawn_child :: "('a crypto_scheme) \<Rightarrow> cell \<Rightarrow> bytes32 \<Rightarrow> bytes32 \<Rightarrow> cell" where
  "spawn_child E parent child_public_key child_token_id = \<lparr>
     c_id = derive_raw E child_public_key child_token_id, c_public_key = child_public_key,
     c_state = cell_state_new E 0, c_permissions = default_user, c_verification_key = None,
     c_delegate = Some (c_id parent), c_delegation = None, c_token_id = child_token_id,
     c_capabilities = clist_new, c_program = ProgNone, c_mode = Hosted, c_lifecycle = Live,
     c_leaf_cache = None\<rparr>"

definition verify_id_integrity :: "('a crypto_scheme) \<Rightarrow> cell \<Rightarrow> bool" where
  "verify_id_integrity E c \<longleftrightarrow> c_id c = derive_raw E (c_public_key c) (c_token_id c)"

definition accepts_effects :: "cell \<Rightarrow> bool" where
  "accepts_effects c = lc_accepts_effects (c_lifecycle c)"

definition cell_is_live :: "cell \<Rightarrow> bool" where
  "cell_is_live c = lc_is_live (c_lifecycle c)"

section \<open>Lifecycle transitions\<close>

type_synonym transition_result = "(lifecycle_transition_error + unit) \<times> cell"

definition seal :: "cell \<Rightarrow> bytes32 \<Rightarrow> u64 \<Rightarrow> transition_result" where
  "seal c reason at_height =
     (case c_lifecycle c of
        Live \<Rightarrow> (Inr (), c\<lparr>c_lifecycle := Sealed reason at_height\<rparr>)
      | Archived _ _ \<Rightarrow> (Inr (), c\<lparr>c_lifecycle := Sealed reason at_height\<rparr>)
      | Sealed _ _ \<Rightarrow> (Inl AlreadySealed, c)
      | Destroyed _ _ \<Rightarrow> (Inl Terminal, c)
      | Migrated _ _ _ \<Rightarrow> (Inl Terminal, c))"

definition unseal :: "cell \<Rightarrow> transition_result" where
  "unseal c =
     (if is_sealed (c_lifecycle c) then (Inr (), c\<lparr>c_lifecycle := Live\<rparr>) else (Inl NotSealed, c))"

definition destroy :: "('a crypto_scheme) \<Rightarrow> cell \<Rightarrow> death_certificate \<Rightarrow> transition_result" where
  "destroy E c certificate =
     (if is_terminal (c_lifecycle c) then (Inl Terminal, c)
      else if dc_cell_id certificate \<noteq> c_id c then (Inl CertificateMismatch, c)
      else (Inr (), c\<lparr>c_lifecycle := Destroyed (certificate_hash E certificate)
                         (dc_destroyed_at_height certificate)\<rparr>))"

definition archive :: "('a crypto_scheme) \<Rightarrow> cell \<Rightarrow> archival_attestation \<Rightarrow> transition_result" where
  "archive E c att =
     (if is_terminal (c_lifecycle c) then (Inl Terminal, c)
      else if is_sealed (c_lifecycle c) then (Inl SealedCannotArchive, c)
      else if aa_cell_id att \<noteq> c_id c then (Inl CertificateMismatch, c)
      else case attestation_validate att of
        Inl why \<Rightarrow> (Inl (InvalidAttestation why), c)
      | Inr _ \<Rightarrow>
          if (case c_lifecycle c of
                Archived _ through \<Rightarrow> aa_archive_end_height att \<le> through
              | _ \<Rightarrow> False)
          then (Inl ArchiveNotMonotone, c)
          else (Inr (), c\<lparr>c_lifecycle := Archived (checkpoint_hash E att)
                             (aa_archive_end_height att)\<rparr>))"

inductive lifecycle_step :: "('a crypto_scheme) \<Rightarrow> cell \<Rightarrow> cell \<Rightarrow> bool" for E where
  seal: "seal c reason h = (Inr (), c') \<Longrightarrow> lifecycle_step E c c'"
| unseal: "unseal c = (Inr (), c') \<Longrightarrow> lifecycle_step E c c'"
| destroy: "destroy E c cert = (Inr (), c') \<Longrightarrow> lifecycle_step E c c'"
| archive: "archive E c att = (Inr (), c') \<Longrightarrow> lifecycle_step E c c'"

inductive_cases lifecycle_stepE: "lifecycle_step E c c'"

lemma transition_refused:
  "seal c r h = (Inl e, c') \<Longrightarrow> c' = c"
  "unseal c = (Inl e, c') \<Longrightarrow> c' = c"
  "destroy E c cert = (Inl e, c') \<Longrightarrow> c' = c"
  "archive E c att = (Inl e, c') \<Longrightarrow> c' = c"
  by (auto simp: seal_def unseal_def destroy_def archive_def
      split: cell_lifecycle.splits if_splits sum.splits)

lemma seal_ok:
  "seal c r h = (Inr (), c') \<longleftrightarrow>
     lc_accepts_effects (c_lifecycle c) \<and> c' = c\<lparr>c_lifecycle := Sealed r h\<rparr>"
  by (auto simp: seal_def split: cell_lifecycle.splits)

lemma unseal_ok:
  "unseal c = (Inr (), c') \<longleftrightarrow> is_sealed (c_lifecycle c) \<and> c' = c\<lparr>c_lifecycle := Live\<rparr>"
  by (auto simp: unseal_def)

lemma destroy_ok:
  "destroy E c cert = (Inr (), c') \<longleftrightarrow>
     \<not> is_terminal (c_lifecycle c) \<and> dc_cell_id cert = c_id c \<and>
     c' = c\<lparr>c_lifecycle := Destroyed (certificate_hash E cert) (dc_destroyed_at_height cert)\<rparr>"
  by (auto simp: destroy_def)

lemma archive_ok:
  "archive E c att = (Inr (), c') \<longleftrightarrow>
     lc_accepts_effects (c_lifecycle c) \<and> aa_cell_id att = c_id c \<and>
     attestation_validate att = Inr () \<and>
     (\<forall>h through. c_lifecycle c = Archived h through \<longrightarrow> through < aa_archive_end_height att) \<and>
     c' = c\<lparr>c_lifecycle := Archived (checkpoint_hash E att) (aa_archive_end_height att)\<rparr>"
  by (cases "c_lifecycle c") (auto simp: archive_def split: sum.splits if_splits)

lemmas transition_ok = seal_ok unseal_ok destroy_ok archive_ok

text \<open>A transition changes nothing but the lifecycle, and never leaves a terminal state.\<close>

lemma lifecycle_step_only:
  "lifecycle_step E c c' \<Longrightarrow> c' = c\<lparr>c_lifecycle := c_lifecycle c'\<rparr>"
  by (erule lifecycle_stepE) (auto simp: transition_ok)

lemma lifecycle_step_not_terminal: "lifecycle_step E c c' \<Longrightarrow> \<not> is_terminal (c_lifecycle c)"
  by (erule lifecycle_stepE)
     (cases "c_lifecycle c"; auto simp: transition_ok)+

lemma lifecycle_never_migrated:
  "lifecycle_step E c c' \<Longrightarrow> c_lifecycle c' \<noteq> Migrated to att h"
  by (erule lifecycle_stepE) (auto simp: transition_ok)

section \<open>Properties\<close>

lemma lifecycle_run_terminal:
  assumes "(lifecycle_step E)\<^sup>*\<^sup>* c c'" "is_terminal (c_lifecycle c)"
  shows "c' = c"
  using assms by (cases rule: converse_rtranclpE) (auto dest: lifecycle_step_not_terminal)

lemma lifecycle_run_frame:
  assumes "(lifecycle_step E)\<^sup>*\<^sup>* c c'"
  shows "c' = c\<lparr>c_lifecycle := c_lifecycle c'\<rparr>"
proof -
  have "\<exists>l. c' = c\<lparr>c_lifecycle := l\<rparr>"
    using assms
  proof (induction rule: rtranclp_induct)
    case base
    show ?case by (rule exI [of _ "c_lifecycle c"]) simp
  next
    case (step y z)
    then obtain l where "y = c\<lparr>c_lifecycle := l\<rparr>" by blast
    moreover obtain m where "z = y\<lparr>c_lifecycle := m\<rparr>"
      using lifecycle_step_only [OF step.hyps(2)] by blast
    ultimately have "z = c\<lparr>c_lifecycle := m\<rparr>" by simp
    then show ?case by blast
  qed
  then show ?thesis by auto
qed

lemma transition_refused_snd:
  "fst (seal c r h) = Inl e \<Longrightarrow> snd (seal c r h) = c"
  "fst (unseal c) = Inl e \<Longrightarrow> snd (unseal c) = c"
  "fst (destroy E c cert) = Inl e \<Longrightarrow> snd (destroy E c cert) = c"
  "fst (archive E c att) = Inl e \<Longrightarrow> snd (archive E c att) = c"
  using transition_refused(1) [of c r h e "snd (seal c r h)"]
    transition_refused(2) [of c e "snd (unseal c)"]
    transition_refused(3) [of E c cert e "snd (destroy E c cert)"]
    transition_refused(4) [of E c att e "snd (archive E c att)"]
  by (simp_all add: prod_eq_iff)

text \<open>The lifecycle is a state machine with absorbing terminal states: along any run of seal,
  unseal, destroy and archive, a cell that is destroyed or migrated stays exactly as it is and
  accepts no effects, a refused transition changes nothing, and no transition touches anything but
  the lifecycle field.\<close>

theorem lifecycle_terminal_absorbing:
  assumes "(lifecycle_step E)\<^sup>*\<^sup>* c c'"
  shows "(is_terminal (c_lifecycle c) \<longrightarrow> c' = c \<and> \<not> accepts_effects c') \<and>
    c' = c\<lparr>c_lifecycle := c_lifecycle c'\<rparr> \<and>
    (\<forall>e r h. fst (seal c r h) = Inl e \<longrightarrow> snd (seal c r h) = c) \<and>
    (\<forall>e. fst (unseal c) = Inl e \<longrightarrow> snd (unseal c) = c) \<and>
    (\<forall>e cert. fst (destroy E c cert) = Inl e \<longrightarrow> snd (destroy E c cert) = c) \<and>
    (\<forall>e att. fst (archive E c att) = Inl e \<longrightarrow> snd (archive E c att) = c)"
  using lifecycle_run_terminal [OF assms] lifecycle_run_frame [OF assms] terminal_no_effects
    transition_refused_snd
  unfolding accepts_effects_def by blast

definition demo_cell :: cell where
  "demo_cell = cell_new demo_crypto 1 2"

definition demo_certificate :: death_certificate where
  "demo_certificate = \<lparr>dc_cell_id = c_id demo_cell, dc_last_receipt_hash = 5,
     dc_final_state_commitment = 6, dc_destroyed_at_height = 9, dc_reason = Voluntary\<rparr>"

theorem lifecycle_terminal_absorbing_witness:
  "is_terminal (c_lifecycle (snd (destroy demo_crypto demo_cell demo_certificate))) \<and>
   fst (seal (snd (destroy demo_crypto demo_cell demo_certificate)) 3 4) = Inl Terminal \<and>
   snd (seal (snd (destroy demo_crypto demo_cell demo_certificate)) 3 4) =
     snd (destroy demo_crypto demo_cell demo_certificate)"
proof -
  let ?d = "snd (destroy demo_crypto demo_cell demo_certificate)"
  have t: "is_terminal (c_lifecycle ?d)" "fst (seal ?d 3 4) = Inl Terminal"
    by (simp_all add: destroy_def demo_cell_def demo_certificate_def cell_new_def seal_def)
  have "(lifecycle_step demo_crypto)\<^sup>*\<^sup>* ?d ?d" by simp
  then show ?thesis using lifecycle_terminal_absorbing [of demo_crypto ?d ?d] t by blast
qed

text \<open>Archive heights are monotone only between two archive steps: sealing and unsealing an
  archived cell forgets its checkpoint, after which the cell can be archived at a lower height than
  before.\<close>

theorem archive_monotone_bypass:
  "\<exists>c c1 c2 c3 att.
     c_lifecycle c = Archived 7 100 \<and>
     fst (archive demo_crypto c att) = Inl ArchiveNotMonotone \<and>
     seal c 1 101 = (Inr (), c1) \<and> unseal c1 = (Inr (), c2) \<and>
     archive demo_crypto c2 att = (Inr (), c3) \<and>
     archived_through (c_lifecycle c3) < archived_through (c_lifecycle c)"
proof -
  define c where "c = demo_cell\<lparr>c_lifecycle := Archived 7 100\<rparr>"
  define att where "att = \<lparr>aa_cell_id = c_id demo_cell, aa_archive_start_height = 0,
     aa_archive_end_height = 50, aa_archive_blob_hash = 1, aa_archive_terminal_commitment = 1,
     aa_archive_terminal_receipt_hash = 1\<rparr>"
  have "c_lifecycle c = Archived 7 100 \<and>
     fst (archive demo_crypto c att) = Inl ArchiveNotMonotone \<and>
     seal c 1 101 = (Inr (), c\<lparr>c_lifecycle := Sealed 1 101\<rparr>) \<and>
     unseal (c\<lparr>c_lifecycle := Sealed 1 101\<rparr>) = (Inr (), c\<lparr>c_lifecycle := Live\<rparr>) \<and>
     archive demo_crypto (c\<lparr>c_lifecycle := Live\<rparr>) att =
       (Inr (), c\<lparr>c_lifecycle := Archived (checkpoint_hash demo_crypto att) 50\<rparr>)"
    by (simp add: c_def att_def archive_def seal_def unseal_def attestation_validate_def)
  then show ?thesis by fastforce
qed

end
