(* ===== verification/Commitment.thy ===== *)
theory Commitment
  imports Cell
begin

text \<open>
  The canonical state commitment (\<open>cell/src/commitment.rs\<close>): the bytes every field of a cell feeds to
  the domain-separated hasher, in order. The encoders are shown to be prefix codes, each through an
  interpretation of the locale \<open>prefix_code\<close>, so the concatenation of all of them determines every
  committed field: two cells with different committed content never share a preimage. What the
  commitment leaves out (the child, commitment and signature of a delegation snapshot, the
  provenance and stored epoch of its entries, the data of a verification key) is visible in the
  \<open>view\<close> functions.
\<close>

section \<open>Prefix codes\<close>

text \<open>A tag byte 0 or 1, and the payload after a 1.\<close>

fun enc_option :: "('a \<Rightarrow> u8 list) \<Rightarrow> 'a option \<Rightarrow> u8 list" where
  "enc_option enc (Some x) = 1 # enc x"
| "enc_option enc None = [0]"

locale prefix_code =
  fixes ok :: "'a \<Rightarrow> bool" and view :: "'a \<Rightarrow> 'v" and enc :: "'a \<Rightarrow> u8 list"
  assumes prefix: "ok x \<Longrightarrow> ok y \<Longrightarrow> enc x @ r = enc y @ s \<Longrightarrow> view x = view y \<and> r = s"
begin

lemma list_prefix:
  assumes "list_all ok xs" "list_all ok ys" "length xs = length ys"
    "concat (map enc xs) @ r = concat (map enc ys) @ s"
  shows "map view xs = map view ys \<and> r = s"
  using assms(3,1,2,4)
proof (induction xs ys rule: list_induct2)
  case (Cons x xs y ys)
  have okx: "ok x" "ok y" using Cons.prems(1,2) by simp_all
  have "enc x @ concat (map enc xs) @ r = enc y @ concat (map enc ys) @ s"
    using Cons.prems(3) by simp
  note eq = prefix [OF okx this]
  then have "map view xs = map view ys \<and> r = s" using Cons.IH Cons.prems(1,2) by simp
  then show ?case using eq by simp
qed simp

lemma option_prefix:
  assumes "pred_option ok x" "pred_option ok y"
    "enc_option enc x @ r = enc_option enc y @ s"
  shows "map_option view x = map_option view y \<and> r = s"
proof (cases x)
  case None
  then show ?thesis using assms(3) by (cases y) auto
next
  case (Some a)
  then obtain b where b: "y = Some b" using assms(3) by (cases y) auto
  then have "enc a @ r = enc b @ s" using assms(3) Some by simp
  then show ?thesis using prefix [of a b r s] assms(1,2) Some b by simp
qed

end

text \<open>Fixed-width words are prefix codes because their encodings have one length.\<close>

lemma fixed_width_prefix:
  assumes "length (enc x) = length (enc y)" "enc x @ r = enc y @ s"
  shows "enc x = enc y" "r = s"
  using assms by (auto simp: append_eq_append_conv)

interpretation code32: prefix_code "\<lambda>_. True" id bytes32_bytes
  by unfold_locales simp

interpretation code64: prefix_code "\<lambda>_. True" id u64_bytes
  by unfold_locales simp

interpretation code_lane: prefix_code "\<lambda>_. True" id u32_bytes
  by unfold_locales simp

section \<open>Encoders\<close>

fun auth_byte :: "auth_required \<Rightarrow> u8" where
  "auth_byte AuthNone = 0"
| "auth_byte Signature = 1"
| "auth_byte Proof = 2"
| "auth_byte Either = 3"
| "auth_byte Impossible = 4"
| "auth_byte (Custom _) = 5"

definition hash_auth_required :: "auth_required \<Rightarrow> u8 list" where
  "hash_auth_required auth =
     [auth_byte auth] @ (case auth of Custom vk \<Rightarrow> bytes32_bytes vk | _ \<Rightarrow> [])"

fun visibility_byte :: "field_visibility \<Rightarrow> u8" where
  "visibility_byte Public = 0"
| "visibility_byte Committed = 1"
| "visibility_byte SelectivelyDisclosable = 2"

fun hash_lifecycle_payload :: "cell_lifecycle \<Rightarrow> u8 list" where
  "hash_lifecycle_payload Live = []"
| "hash_lifecycle_payload (Sealed rh at_h) = bytes32_bytes rh @ u64_bytes at_h"
| "hash_lifecycle_payload (Migrated to att at_h) =
     bytes32_bytes to @ bytes32_bytes att @ u64_bytes at_h"
| "hash_lifecycle_payload (Destroyed ch at_h) = bytes32_bytes ch @ u64_bytes at_h"
| "hash_lifecycle_payload (Archived ch th) = bytes32_bytes ch @ u64_bytes th"

definition hash_lifecycle :: "cell_lifecycle \<Rightarrow> u8 list" where
  "hash_lifecycle lc = [discriminant lc] @ hash_lifecycle_payload lc"

definition hash_permissions :: "permissions \<Rightarrow> u8 list" where
  "hash_permissions p =
     hash_auth_required (p_send p) @ hash_auth_required (p_receive p) @
     hash_auth_required (p_set_state p) @ hash_auth_required (p_set_permissions p) @
     hash_auth_required (p_set_verification_key p) @ hash_auth_required (p_increment_nonce p) @
     hash_auth_required (p_delegate p) @ hash_auth_required (p_access p)"

definition hash_capability_ref :: "capability_ref \<Rightarrow> u8 list" where
  "hash_capability_ref cap =
     bytes32_bytes (cr_target cap) @ u32_bytes (cr_slot cap) @
     hash_auth_required (cr_permissions cap) @ enc_option bytes32_bytes (cr_breadstuff cap) @
     enc_option u64_bytes (cr_expires_at cap) @ enc_option u32_bytes (cr_allowed_effects cap)"

definition hash_delegation :: "delegated_ref \<Rightarrow> u8 list" where
  "hash_delegation d =
     bytes32_bytes (dr_source d) @ u64_bytes (dr_delegation_epoch d) @
     u64_bytes (dr_refreshed_at d) @ u64_bytes (dr_max_staleness d) @
     u64_bytes (of_nat (length (dr_snapshot d))) @
     concat (map hash_capability_ref (dr_snapshot d))"

definition digest8_to_bytes32 :: "digest8 \<Rightarrow> u8 list" where
  "digest8_to_bytes32 digest = concat (map u32_bytes digest)"

definition hash_cell_state :: "('a crypto_scheme) \<Rightarrow> cell_state \<Rightarrow> u8 list" where
  "hash_cell_state E s =
     u64_bytes (st_nonce s) @ encode_balance_le (st_balance s) @
     concat (map bytes32_bytes (st_fields s)) @
     concat (map (\<lambda>v. [visibility_byte v]) (st_field_visibility s)) @
     concat (map (enc_option bytes32_bytes) (st_commitments s)) @
     [of_bool (st_proved_state s)] @ u64_bytes (st_delegation_epoch s) @
     u64_bytes (st_committed_height s) @ bytes32_bytes (st_swiss_table_root s) @
     bytes32_bytes (st_refcount_table_root s) @ digest8_to_bytes32 (st_fields_root s) @
     bytes32_bytes (compute_system_roots_digest E (st_system_roots s)) @
     digest8_to_bytes32 (st_heap_root s)"

text \<open>
  Parameters of the commitment beyond the hash functions: the capability root of the circuit
  library, the leaf commitment of one entry, and the serialisation of programs.
\<close>

record cell_crypto = crypto +
  cap_root8 :: root8_fun
  cap_leaf_commitment :: "capability_ref \<Rightarrow> bytes32"
  program_postcard :: "cell_program \<Rightarrow> u8 list"

definition framed :: "u8 list \<Rightarrow> u8 list" where
  "framed bytes = u64_bytes (of_nat (length bytes)) @ bytes"

definition hash_program :: "('a cell_crypto_scheme) \<Rightarrow> cell_program \<Rightarrow> u8 list" where
  "hash_program E prog =
     (case prog of
        ProgNone \<Rightarrow> [0]
      | Predicate _ \<Rightarrow> 1 # framed (program_postcard E prog)
      | Circuit h \<Rightarrow> 2 # bytes32_bytes h
      | Cases _ \<Rightarrow> 3 # framed (program_postcard E prog))"

definition compute_canonical_capability_root_wide ::
  "('a cell_crypto_scheme) \<Rightarrow> capability_set \<Rightarrow> u8 list" where
  "compute_canonical_capability_root_wide E caps =
     digest8_to_bytes32 (cap_root8 E (cs_refs caps) (cs_tombstones caps))"

definition CANONICAL_COMMITMENT_CONTEXT :: string where
  "CANONICAL_COMMITMENT_CONTEXT = ''dregg-cell:canonical-state-commitment v9''"

fun mode_byte :: "cell_mode \<Rightarrow> u8" where
  "mode_byte Hosted = 0"
| "mode_byte Sovereign = 1"

definition state_commitment_preimage :: "('a cell_crypto_scheme) \<Rightarrow> cell \<Rightarrow> u8 list" where
  "state_commitment_preimage E c =
     bytes32_bytes (c_id c) @ bytes32_bytes (c_public_key c) @ bytes32_bytes (c_token_id c) @
     [mode_byte (c_mode c)] @
     hash_cell_state E (c_state c) @ hash_permissions (c_permissions c) @
     enc_option (\<lambda>vk. bytes32_bytes (vk_hash_bytes vk)) (c_verification_key c) @
     compute_canonical_capability_root_wide E (c_capabilities c) @
     enc_option bytes32_bytes (c_delegate c) @
     enc_option hash_delegation (c_delegation c) @
     hash_program E (c_program c) @ hash_lifecycle (c_lifecycle c)"

definition compute_canonical_state_commitment :: "('a cell_crypto_scheme) \<Rightarrow> cell \<Rightarrow> bytes32" where
  "compute_canonical_state_commitment E c =
     derive_key E CANONICAL_COMMITMENT_CONTEXT (state_commitment_preimage E c)"

definition invalidate_leaf_cache :: "cell \<Rightarrow> cell" where
  "invalidate_leaf_cache c = c\<lparr>c_leaf_cache := None\<rparr>"

definition cached_leaf_digest :: "('a cell_crypto_scheme) \<Rightarrow> cell \<Rightarrow> bytes32 \<times> cell" where
  "cached_leaf_digest E c =
     (case c_leaf_cache c of
        Some d \<Rightarrow> (d, c)
      | None \<Rightarrow> (let d = compute_canonical_state_commitment E c in (d, c\<lparr>c_leaf_cache := Some d\<rparr>)))"

section \<open>The encoders are prefix codes\<close>

interpretation auth_code: prefix_code "\<lambda>_. True" id hash_auth_required
proof
  fix x y r s
  assume "hash_auth_required x @ r = hash_auth_required y @ s"
  then show "id x = id y \<and> r = s"
    by (cases x; cases y) (auto simp: hash_auth_required_def)
qed

interpretation lifecycle_code: prefix_code "\<lambda>_. True" id hash_lifecycle
proof
  fix x y r s
  assume "hash_lifecycle x @ r = hash_lifecycle y @ s"
  then show "id x = id y \<and> r = s"
    by (cases x; cases y) (auto simp: hash_lifecycle_def)
qed

lemma auth_prefix [simp]:
  "hash_auth_required x @ r = hash_auth_required y @ s \<longleftrightarrow> x = y \<and> r = s"
  using auth_code.prefix [where x = x and y = y and r = r and s = s] by auto

interpretation perms_code: prefix_code "\<lambda>_. True" id hash_permissions
  by unfold_locales (auto simp: hash_permissions_def intro: permissions.equality)

lemma opt_prefix [simp]:
  "enc_option bytes32_bytes x @ r = enc_option bytes32_bytes y @ s \<longleftrightarrow> x = y \<and> r = s"
  "enc_option u64_bytes p @ r = enc_option u64_bytes q @ s \<longleftrightarrow> p = q \<and> r = s"
  "enc_option u32_bytes u @ r = enc_option u32_bytes v @ s \<longleftrightarrow> u = v \<and> r = s"
  using code32.option_prefix [where x = x and y = y and r = r and s = s]
    code64.option_prefix [where x = p and y = q and r = r and s = s]
    code_lane.option_prefix [where x = u and y = v and r = r and s = s]
  by (auto simp: pred_option_def option.map_id)

text \<open>What the commitment sees of a delegated entry and of a snapshot.\<close>

definition cap_view :: "capability_ref \<Rightarrow> capability_ref" where
  "cap_view cap = cap\<lparr>cr_stored_epoch := None, cr_provenance := 0\<rparr>"

interpretation cap_code: prefix_code "\<lambda>_. True" cap_view hash_capability_ref
  by unfold_locales
     (auto simp: hash_capability_ref_def cap_view_def intro!: capability_ref.equality)

definition delegation_view :: "delegated_ref \<Rightarrow> delegated_ref" where
  "delegation_view d =
     d\<lparr>dr_child := 0, dr_snapshot := map cap_view (dr_snapshot d), dr_clist_commitment := 0,
       dr_parent_signature := 0\<rparr>"

definition snapshot_ok :: "delegated_ref \<Rightarrow> bool" where
  "snapshot_ok d \<longleftrightarrow> length (dr_snapshot d) < 2 ^ 64"

lemma of_nat_u64_inject:
  assumes "m < 2 ^ 64" "n < 2 ^ 64" "(of_nat m :: u64) = of_nat n"
  shows "m = n"
proof -
  have "unat (of_nat m :: u64) = m" "unat (of_nat n :: u64) = n"
    using assms(1,2) by (simp_all only: unat_of_nat) simp_all
  then show ?thesis using assms(3) by metis
qed

text \<open>A count, then that many encoded items.\<close>

context prefix_code
begin

lemma counted_prefix:
  assumes "length xs < 2 ^ 64" "length ys < 2 ^ 64" "list_all ok xs" "list_all ok ys"
    "u64_bytes (of_nat (length xs)) @ concat (map enc xs) @ r =
     u64_bytes (of_nat (length ys)) @ concat (map enc ys) @ s"
  shows "map view xs = map view ys \<and> r = s"
proof -
  have "(of_nat (length xs) :: u64) = of_nat (length ys)"
    "concat (map enc xs) @ r = concat (map enc ys) @ s"
    using assms(5) by simp_all
  then show ?thesis using list_prefix of_nat_u64_inject assms(1-4) by blast
qed

end

interpretation delegation_code: prefix_code snapshot_ok delegation_view hash_delegation
proof
  fix x y r s
  assume ok: "snapshot_ok x" "snapshot_ok y" and eq: "hash_delegation x @ r = hash_delegation y @ s"
  have "map cap_view (dr_snapshot x) = map cap_view (dr_snapshot y) \<and> r = s"
    using eq ok
    by (intro cap_code.counted_prefix)
       (simp_all add: hash_delegation_def snapshot_ok_def list_all_iff)
  then show "delegation_view x = delegation_view y \<and> r = s"
    using eq by (auto simp: hash_delegation_def delegation_view_def intro!: delegated_ref.equality)
qed

interpretation visibility_code: prefix_code "\<lambda>_. True" id "\<lambda>v. [visibility_byte v]"
proof
  fix x y :: field_visibility and r s
  assume "[visibility_byte x] @ r = [visibility_byte y] @ s"
  then show "id x = id y \<and> r = s" by (cases x; cases y) auto
qed

interpretation slot_commitment_code: prefix_code "\<lambda>_. True" id "enc_option bytes32_bytes"
  by unfold_locales simp

definition octet :: "digest8 \<Rightarrow> bool" where
  "octet d \<longleftrightarrow> length d = 8"

interpretation octet_code: prefix_code octet id digest8_to_bytes32
proof
  fix x y r s
  assume "octet x" "octet y" "digest8_to_bytes32 x @ r = digest8_to_bytes32 y @ s"
  then show "id x = id y \<and> r = s"
    using code_lane.list_prefix [where xs = x and ys = y and r = r and s = s]
    by (simp add: octet_def digest8_to_bytes32_def list_all_iff)
qed

text \<open>
  The state block: everything but the two maps (bound through their roots) and the side-table
  roots (bound through their digest).
\<close>

definition state_view :: "('a crypto_scheme) \<Rightarrow> cell_state \<Rightarrow> cell_state \<times> bytes32" where
  "state_view E s =
     (s\<lparr>st_fields_map := Map.empty, st_heap_map := Map.empty, st_system_roots := []\<rparr>,
      compute_system_roots_digest E (st_system_roots s))"

definition state_ok :: "cell_state \<Rightarrow> bool" where
  "state_ok s \<longleftrightarrow> state_wf s \<and> octet (st_fields_root s) \<and> octet (st_heap_root s)"

lemma encode_balance_prefix:
  assumes "in_i64 a" "in_i64 b"
  shows "encode_balance_le a @ r = encode_balance_le b @ s \<longleftrightarrow> a = b \<and> r = s"
proof -
  have "balance_biased a = balance_biased b \<longleftrightarrow> a = b"
    using balance_from_biased_biased [OF assms(1)] balance_from_biased_biased [OF assms(2)] by metis
  then show ?thesis by (simp add: encode_balance_le_def)
qed

lemma slots_prefix:
  "length xs = length ys \<Longrightarrow>
     concat (map bytes32_bytes xs) @ r = concat (map bytes32_bytes ys) @ s \<longleftrightarrow> xs = ys \<and> r = s"
  using code32.list_prefix [where xs = xs and ys = ys and r = r and s = s]
  by (auto simp: list_all_iff)

lemma commitments_prefix:
  "length xs = length ys \<Longrightarrow>
     concat (map (enc_option bytes32_bytes) xs) @ r = concat (map (enc_option bytes32_bytes) ys) @ s
     \<longleftrightarrow> xs = ys \<and> r = s"
  using slot_commitment_code.list_prefix [where xs = xs and ys = ys and r = r and s = s]
  by (auto simp: list_all_iff)

lemma visibilities_prefix:
  "length xs = length ys \<Longrightarrow>
     concat (map (\<lambda>v. [visibility_byte v]) xs) @ r = concat (map (\<lambda>v. [visibility_byte v]) ys) @ s
     \<longleftrightarrow> xs = ys \<and> r = s"
  using visibility_code.list_prefix [where xs = xs and ys = ys and r = r and s = s]
  by (auto simp: list_all_iff)

lemma octet_prefix:
  "octet x \<Longrightarrow> octet y \<Longrightarrow>
     digest8_to_bytes32 x @ r = digest8_to_bytes32 y @ s \<longleftrightarrow> x = y \<and> r = s"
  using octet_code.prefix [of x y r s] by auto

lemma of_bool_u8_inject [simp]: "(of_bool a :: u8) = of_bool b \<longleftrightarrow> a = b"
  by simp

lemmas prefix_simps = slots_prefix commitments_prefix visibilities_prefix octet_prefix
  encode_balance_prefix

interpretation state_code: prefix_code state_ok "state_view E" "hash_cell_state E"
proof
  fix x y r s
  assume ok: "state_ok x" "state_ok y" and eq: "hash_cell_state E x @ r = hash_cell_state E y @ s"
  have len: "length (st_fields x) = length (st_fields y)"
    "length (st_field_visibility x) = length (st_field_visibility y)"
    "length (st_commitments x) = length (st_commitments y)"
    and bal: "in_i64 (st_balance x)" "in_i64 (st_balance y)"
    and oct: "octet (st_fields_root x)" "octet (st_fields_root y)"
      "octet (st_heap_root x)" "octet (st_heap_root y)"
    using ok by (simp_all add: state_ok_def state_wf_def)
  have "st_nonce x = st_nonce y \<and> st_balance x = st_balance y \<and> st_fields x = st_fields y \<and>
      st_field_visibility x = st_field_visibility y \<and> st_commitments x = st_commitments y \<and>
      st_proved_state x = st_proved_state y \<and> st_delegation_epoch x = st_delegation_epoch y \<and>
      st_committed_height x = st_committed_height y \<and>
      st_swiss_table_root x = st_swiss_table_root y \<and>
      st_refcount_table_root x = st_refcount_table_root y \<and> st_fields_root x = st_fields_root y \<and>
      compute_system_roots_digest E (st_system_roots x) =
        compute_system_roots_digest E (st_system_roots y) \<and>
      st_heap_root x = st_heap_root y \<and> r = s"
    using eq unfolding hash_cell_state_def append_assoc
    by (simp only: prefix_simps len bal oct append_Cons append_Nil list.inject u64_bytes_inject
        bytes32_bytes_inject append_eq_append_conv length_le_bytes length_bytes32_bytes of_bool_u8_inject simp_thms)
  then show "state_view E x = state_view E y \<and> r = s"
    by (auto simp: state_view_def intro!: cell_state.equality)
qed


definition program_ok :: "('a cell_crypto_scheme) \<Rightarrow> cell_program \<Rightarrow> bool" where
  "program_ok E p \<longleftrightarrow> length (program_postcard E p) < 2 ^ 64"

lemma framed_prefix:
  assumes "length xs < 2 ^ 64" "length ys < 2 ^ 64"
  shows "framed xs @ r = framed ys @ s \<longleftrightarrow> xs = ys \<and> r = s"
proof
  assume "framed xs @ r = framed ys @ s"
  then have eq: "u64_bytes (of_nat (length xs)) = u64_bytes (of_nat (length ys))" "xs @ r = ys @ s"
    by (auto simp: framed_def)
  then have "length xs = length ys" using of_nat_u64_inject [OF assms] by simp
  then show "xs = ys \<and> r = s" using eq(2) by simp
qed simp

interpretation program_code: prefix_code "program_ok E" "hash_program E" "hash_program E"
proof
  fix x y r s
  assume ok: "program_ok E x" "program_ok E y" and eq: "hash_program E x @ r = hash_program E y @ s"
  have "framed (program_postcard E x) @ r = framed (program_postcard E y) @ s \<longleftrightarrow>
      program_postcard E x = program_postcard E y \<and> r = s"
    using ok by (intro framed_prefix) (simp_all add: program_ok_def)
  then show "hash_program E x = hash_program E y \<and> r = s"
    using eq by (cases x; cases y) (simp_all add: hash_program_def)
qed

section \<open>The whole preimage\<close>

definition cell_ok :: "('a cell_crypto_scheme) \<Rightarrow> cell \<Rightarrow> bool" where
  "cell_ok E c \<longleftrightarrow>
     state_ok (c_state c) \<and>
     octet (cap_root8 E (cs_refs (c_capabilities c)) (cs_tombstones (c_capabilities c))) \<and>
     pred_option snapshot_ok (c_delegation c) \<and> program_ok E (c_program c)"

text \<open>Everything of a cell that its commitment binds.\<close>

record committed_view =
  cv_id :: cell_id
  cv_public_key :: bytes32
  cv_token_id :: bytes32
  cv_mode :: cell_mode
  cv_state :: "cell_state \<times> bytes32"
  cv_permissions :: permissions
  cv_vk_hash :: "bytes32 option"
  cv_cap_root :: digest8
  cv_delegate :: "cell_id option"
  cv_delegation :: "delegated_ref option"
  cv_program :: "u8 list"
  cv_lifecycle :: cell_lifecycle

definition cell_view :: "('a cell_crypto_scheme) \<Rightarrow> cell \<Rightarrow> committed_view" where
  "cell_view E c = \<lparr>
     cv_id = c_id c, cv_public_key = c_public_key c, cv_token_id = c_token_id c,
     cv_mode = c_mode c, cv_state = state_view E (c_state c), cv_permissions = c_permissions c,
     cv_vk_hash = map_option vk_hash_bytes (c_verification_key c),
     cv_cap_root = cap_root8 E (cs_refs (c_capabilities c)) (cs_tombstones (c_capabilities c)),
     cv_delegate = c_delegate c, cv_delegation = map_option delegation_view (c_delegation c),
     cv_program = hash_program E (c_program c), cv_lifecycle = c_lifecycle c\<rparr>"

interpretation vk_code: prefix_code "\<lambda>_. True" vk_hash_bytes "\<lambda>vk. bytes32_bytes (vk_hash_bytes vk)"
  by unfold_locales simp

lemma mode_byte_inject [simp]:
  "mode_byte m = mode_byte n \<longleftrightarrow> m = n"
  by (cases m; cases n) auto

lemma preimage_view:
  assumes ok: "cell_ok E c" "cell_ok E d"
    and eq: "state_commitment_preimage E c = state_commitment_preimage E d"
  shows "cell_view E c = cell_view E d"
proof -
  have ids: "c_id c = c_id d" "c_public_key c = c_public_key d" "c_token_id c = c_token_id d"
    "c_mode c = c_mode d"
    using eq by (simp_all add: state_commitment_preimage_def)
  define r where "r = (\<lambda>c :: cell. enc_option (\<lambda>vk. bytes32_bytes (vk_hash_bytes vk)) (c_verification_key c) @
       compute_canonical_capability_root_wide E (c_capabilities c) @
       enc_option bytes32_bytes (c_delegate c) @ enc_option hash_delegation (c_delegation c) @
       hash_program E (c_program c) @ hash_lifecycle (c_lifecycle c))"
  have "hash_cell_state E (c_state c) @ hash_permissions (c_permissions c) @ r c =
      hash_cell_state E (c_state d) @ hash_permissions (c_permissions d) @ r d"
    using eq by (simp add: state_commitment_preimage_def r_def)
  then have st: "state_view E (c_state c) = state_view E (c_state d)"
    "hash_permissions (c_permissions c) @ r c = hash_permissions (c_permissions d) @ r d"
    using state_code.prefix ok unfolding cell_ok_def by blast+
  have perms: "c_permissions c = c_permissions d" "r c = r d"
    using perms_code.prefix [where x = "c_permissions c" and y = "c_permissions d"] st(2) by auto
  define q where "q = (\<lambda>c :: cell. compute_canonical_capability_root_wide E (c_capabilities c) @
       enc_option bytes32_bytes (c_delegate c) @ enc_option hash_delegation (c_delegation c) @
       hash_program E (c_program c) @ hash_lifecycle (c_lifecycle c))"
  have vk: "map_option vk_hash_bytes (c_verification_key c) =
      map_option vk_hash_bytes (c_verification_key d)" "q c = q d"
    using vk_code.option_prefix [where x = "c_verification_key c" and y = "c_verification_key d"
        and r = "q c" and s = "q d"] perms(2)
    by (simp_all add: q_def r_def pred_option_def)
  have cap: "cv_cap_root (cell_view E c) = cv_cap_root (cell_view E d)"
    "c_delegate c = c_delegate d"
    "enc_option hash_delegation (c_delegation c) @ hash_program E (c_program c) @
       hash_lifecycle (c_lifecycle c) =
     enc_option hash_delegation (c_delegation d) @ hash_program E (c_program d) @
       hash_lifecycle (c_lifecycle d)"
    using vk(2) ok
    by (simp_all add: q_def compute_canonical_capability_root_wide_def octet_prefix cell_ok_def
        cell_view_def)
  have deleg: "map_option delegation_view (c_delegation c) = map_option delegation_view (c_delegation d)"
    "hash_program E (c_program c) @ hash_lifecycle (c_lifecycle c) =
     hash_program E (c_program d) @ hash_lifecycle (c_lifecycle d)"
    using delegation_code.option_prefix [OF _ _ cap(3)] ok by (simp_all add: cell_ok_def)
  have prog: "hash_program E (c_program c) = hash_program E (c_program d)"
    "hash_lifecycle (c_lifecycle c) = hash_lifecycle (c_lifecycle d)"
    using program_code.prefix [OF _ _ deleg(2)] ok by (simp_all add: cell_ok_def)
  have "c_lifecycle c = c_lifecycle d"
    using lifecycle_code.prefix [where x = "c_lifecycle c" and y = "c_lifecycle d" and r = "[]"
        and s = "[]"] prog(2) by simp
  then show ?thesis
    using ids st(1) perms(1) vk(1) cap(1,2) deleg(1) prog(1) by (simp add: cell_view_def)
qed

section \<open>Properties\<close>

text \<open>C16. The state commitment binds the whole cell: unless the hash collides on the two preimages,
  two cells with the same commitment agree on their identity, mode, nonce, balance, every field,
  visibility and commitment, the roots of both maps and of the side tables, all permissions, the
  verification-key hash, the capability root, the delegate, the delegation snapshot, the program
  bytes and the lifecycle.\<close>

theorem commitment_binding:
  assumes "cell_ok E c" and "cell_ok E d"
    and "inj_on (derive_key E CANONICAL_COMMITMENT_CONTEXT)
           {state_commitment_preimage E c, state_commitment_preimage E d}"
    and "compute_canonical_state_commitment E c = compute_canonical_state_commitment E d"
  shows "cell_view E c = cell_view E d"
proof -
  have "state_commitment_preimage E c = state_commitment_preimage E d"
    using assms(4) inj_onD [OF assms(3)] unfolding compute_canonical_state_commitment_def by blast
  then show ?thesis by (rule preimage_view [OF assms(1,2)])
qed

definition demo_cell_crypto :: cell_crypto where
  "demo_cell_crypto = crypto.extend demo_crypto
     \<lparr>cap_root8 = (\<lambda>_ _. replicate 8 0), cap_leaf_commitment = cr_provenance,
      program_postcard = (\<lambda>_. [])\<rparr>"

theorem commitment_binding_witness:
  "cell_view demo_cell_crypto (demo_cell\<lparr>c_leaf_cache := Some 3\<rparr>) = cell_view demo_cell_crypto demo_cell"
proof (rule commitment_binding)
  have pre: "state_commitment_preimage E (demo_cell\<lparr>c_leaf_cache := Some 3\<rparr>) =
      state_commitment_preimage E demo_cell" for E :: cell_crypto
    by (simp add: state_commitment_preimage_def)
  show "cell_ok demo_cell_crypto demo_cell"
    "cell_ok demo_cell_crypto (demo_cell\<lparr>c_leaf_cache := Some 3\<rparr>)"
    by (simp_all add: cell_ok_def demo_cell_def cell_new_def state_ok_def state_wf_def
        cell_state_new_def default_system_roots_def octet_def demo_cell_crypto_def
        crypto.extend_def demo_crypto_def program_ok_def)
  show "inj_on (derive_key demo_cell_crypto CANONICAL_COMMITMENT_CONTEXT)
      {state_commitment_preimage demo_cell_crypto (demo_cell\<lparr>c_leaf_cache := Some 3\<rparr>),
       state_commitment_preimage demo_cell_crypto demo_cell}"
    by (simp add: pre)
  show "compute_canonical_state_commitment demo_cell_crypto (demo_cell\<lparr>c_leaf_cache := Some 3\<rparr>) =
      compute_canonical_state_commitment demo_cell_crypto demo_cell"
    by (simp add: compute_canonical_state_commitment_def pre)
qed

end
