(* ===== verification/Merkle.thy ===== *)
theory Merkle
  imports Prelude
begin

text \<open>
  The binary hash tree of the ledger (\<open>cell/src/ledger.rs\<close>): building all levels over padded leaves,
  rewriting one leaf and its path, extracting and verifying membership paths. \<open>H\<close> is \<open>blake3\<close>.
  The lemmas show that the incremental path update gives the tree a full rebuild would give, that
  an extracted path verifies, and that a path binds its leaf.
\<close>

section \<open>Building\<close>

function np2_from :: "nat \<Rightarrow> nat \<Rightarrow> nat" where
  "np2_from n k = (if n \<le> k \<or> k = 0 then k else np2_from n (2 * k))"
  by pat_completeness auto
termination by (relation "measure (\<lambda>(n, k). n - k)") auto

declare np2_from.simps [simp del]

definition next_power_of_two :: "nat \<Rightarrow> nat" where
  "next_power_of_two n = np2_from n 1"

definition node_hash :: "(u8 list \<Rightarrow> bytes32) \<Rightarrow> bytes32 \<Rightarrow> bytes32 \<Rightarrow> bytes32" where
  "node_hash H l r = H (bytes32_bytes l @ bytes32_bytes r)"

text \<open>
  One level up: \<open>chunks(2)\<close>. The last chunk of an odd level would index out of bounds; every level
  has a power of two of nodes, so that equation is never used.
\<close>

fun pair_up :: "(u8 list \<Rightarrow> bytes32) \<Rightarrow> bytes32 list \<Rightarrow> bytes32 list" where
  "pair_up H (a # b # rest) = node_hash H a b # pair_up H rest"
| "pair_up H _ = []"

lemma length_pair_up [simp]: "length (pair_up H xs) = length xs div 2"
  by (induction H xs rule: pair_up.induct) auto

function build_levels :: "(u8 list \<Rightarrow> bytes32) \<Rightarrow> bytes32 list \<Rightarrow> bytes32 list list" where
  "build_levels H current =
     (if length current \<le> 1 then [current] else current # build_levels H (pair_up H current))"
  by pat_completeness auto
termination by (relation "measure (\<lambda>(H, xs). length xs)") auto

declare build_levels.simps [simp del]

definition pad_leaves :: "bytes32 list \<Rightarrow> bytes32 list" where
  "pad_leaves leaves = leaves @ replicate (next_power_of_two (length leaves) - length leaves) 0"

definition levels_root :: "bytes32 list list \<Rightarrow> bytes32" where
  "levels_root levels = hd (last levels)"

text \<open>
  Rewriting the leaf at \<open>pos\<close>: store it, hash it with its sibling (a missing right sibling counts as
  zero), and go on with the parent one level up.
\<close>

definition sibling_pair :: "bytes32 list \<Rightarrow> nat \<Rightarrow> bytes32 \<times> bytes32" where
  "sibling_pair level pos =
     (let left = 2 * (pos div 2) in
      (level ! left, if left + 1 < length level then level ! (left + 1) else 0))"

fun update_path ::
  "(u8 list \<Rightarrow> bytes32) \<Rightarrow> bytes32 list list \<Rightarrow> nat \<Rightarrow> bytes32 \<Rightarrow> bytes32 list list" where
  "update_path H [] pos h = []"
| "update_path H [level] pos h = [level[pos := h]]"
| "update_path H (level # next # rest) pos h =
     (let level' = level[pos := h]; (l, r) = sibling_pair level' pos
      in level' # update_path H (next # rest) (pos div 2) (node_hash H l r))"

section \<open>Membership paths\<close>

datatype side = LeftSide | RightSide

fun tree_path :: "bytes32 list list \<Rightarrow> nat \<Rightarrow> (bytes32 \<times> side) list" where
  "tree_path (level # next # rest) idx =
     (let sibling_idx = (if even idx then idx + 1 else idx - 1);
          sibling = (if sibling_idx < length level then level ! sibling_idx else 0);
          side = (if even idx then RightSide else LeftSide)
      in (sibling, side) # tree_path (next # rest) (idx div 2))"
| "tree_path _ idx = []"

fun fold_path :: "(u8 list \<Rightarrow> bytes32) \<Rightarrow> bytes32 \<Rightarrow> (bytes32 \<times> side) list \<Rightarrow> bytes32" where
  "fold_path H current [] = current"
| "fold_path H current ((sibling, LeftSide) # path) = fold_path H (node_hash H sibling current) path"
| "fold_path H current ((sibling, RightSide) # path) = fold_path H (node_hash H current sibling) path"

section \<open>Levels over a power of two of leaves\<close>

lemma np2_from_pow: "\<exists>k. np2_from n (2 ^ j) = 2 ^ k"
proof (induction "n - 2 ^ j" arbitrary: j rule: less_induct)
  case less
  show ?case
  proof (cases "n \<le> 2 ^ j")
    case True
    then show ?thesis by (auto simp: np2_from.simps)
  next
    case False
    moreover have "(0::nat) < 2 ^ j" by simp
    ultimately have "n - 2 ^ Suc j < n - 2 ^ j" unfolding power_Suc by linarith
    then have "\<exists>k. np2_from n (2 ^ Suc j) = 2 ^ k" by (rule less)
    then show ?thesis using False by (subst np2_from.simps) simp
  qed
qed

lemma next_power_of_two_pow: "\<exists>k. next_power_of_two n = 2 ^ k"
  using np2_from_pow [of n 0] by (simp add: next_power_of_two_def)

lemma np2_from_ge: "0 < k \<Longrightarrow> n \<le> np2_from n k"
proof (induction "n - k" arbitrary: k rule: less_induct)
  case less
  show ?case
  proof (cases "n \<le> k")
    case True
    then show ?thesis by (simp add: np2_from.simps)
  next
    case False
    then have "n - 2 * k < n - k" "0 < 2 * k" using less.prems by auto
    then have "n \<le> np2_from n (2 * k)" by (rule less.hyps)
    then show ?thesis using False less.prems by (subst np2_from.simps) simp
  qed
qed

lemma next_power_of_two_ge: "n \<le> next_power_of_two n"
  unfolding next_power_of_two_def by (rule np2_from_ge) simp

lemma length_pad_leaves: "length (pad_leaves xs) = next_power_of_two (length xs)"
  using next_power_of_two_ge [of "length xs"] by (simp add: pad_leaves_def)

lemma pad_leaves_pow: "\<exists>k. length (pad_leaves xs) = 2 ^ k"
  unfolding length_pad_leaves by (rule next_power_of_two_pow)

lemma pad_leaves_nth: "i < length xs \<Longrightarrow> pad_leaves xs ! i = xs ! i"
  by (simp add: pad_leaves_def nth_append)

lemma pad_leaves_update: "i < length xs \<Longrightarrow> pad_leaves (xs[i := h]) = (pad_leaves xs)[i := h]"
  by (simp add: pad_leaves_def list_update_append)

lemma length_pow_half: "length xs = 2 ^ Suc k \<Longrightarrow> length (pair_up H xs) = 2 ^ k"
  by simp

lemma build_levels_one: "length xs = 1 \<Longrightarrow> build_levels H xs = [xs]"
  by (simp add: build_levels.simps)

lemma build_levels_two:
  "length xs = 2 ^ Suc k \<Longrightarrow> build_levels H xs = xs # build_levels H (pair_up H xs)"
proof -
  assume a: "length xs = 2 ^ Suc k"
  have "(1::nat) < 2 ^ Suc k" by (rule one_less_power) auto
  then show ?thesis using a by (subst build_levels.simps) simp
qed

lemma build_levels_hd: "\<exists>rest. build_levels H xs = xs # rest"
  by (subst build_levels.simps) auto

lemma pair_up_nth:
  "i < length xs div 2 \<Longrightarrow> pair_up H xs ! i = node_hash H (xs ! (2 * i)) (xs ! (2 * i + 1))"
proof (induction H xs arbitrary: i rule: pair_up.induct)
  case (1 H a b rest)
  then show ?case by (cases i) auto
qed auto

lemma pair_up_update:
  assumes "even (length xs)" "pos < length xs"
  shows "pair_up H (xs[pos := h]) =
    (pair_up H xs)[pos div 2 := node_hash H (fst (sibling_pair (xs[pos := h]) pos))
                                            (snd (sibling_pair (xs[pos := h]) pos))]"
    (is "?l = ?r")
proof (rule nth_equalityI)
  show "length ?l = length ?r" by simp
  fix i
  assume "i < length ?l"
  then have i: "i < length xs div 2" by simp
  have l: "?l ! i = node_hash H (xs[pos := h] ! (2 * i)) (xs[pos := h] ! (2 * i + 1))"
    using i by (simp add: pair_up_nth)
  show "?l ! i = ?r ! i"
  proof (cases "i = pos div 2")
    case True
    then have "2 * i + 1 < length xs" using i by linarith
    then show ?thesis using l True i by (simp add: sibling_pair_def Let_def)
  next
    case False
    then have "pos \<noteq> 2 * i" "pos \<noteq> 2 * i + 1" by auto
    then have "?l ! i = node_hash H (xs ! (2 * i)) (xs ! (2 * i + 1))" using l by simp
    then show ?thesis using False i by (simp add: pair_up_nth)
  qed
qed

text \<open>The incremental update gives exactly the levels of the changed leaves.\<close>

lemma update_path_build:
  "length xs = 2 ^ k \<Longrightarrow> pos < length xs \<Longrightarrow>
     update_path H (build_levels H xs) pos h = build_levels H (xs[pos := h])"
proof (induction k arbitrary: xs pos h)
  case 0
  then show ?case by (simp add: build_levels_one)
next
  case (Suc k)
  let ?xs' = "xs[pos := h]"
  have half: "length (pair_up H xs) = 2 ^ k" using Suc.prems by simp
  obtain rest where up: "build_levels H (pair_up H xs) = pair_up H xs # rest"
    using build_levels_hd by blast
  have "pos div 2 < length (pair_up H xs)" using Suc.prems by simp
  note IH = Suc.IH [OF half this]
  have "update_path H (build_levels H xs) pos h =
      ?xs' # update_path H (build_levels H (pair_up H xs)) (pos div 2)
        (node_hash H (fst (sibling_pair ?xs' pos)) (snd (sibling_pair ?xs' pos)))"
    unfolding build_levels_two [OF Suc.prems(1)] up by (simp add: Let_def case_prod_beta)
  also have "\<dots> = ?xs' # build_levels H (pair_up H ?xs')"
    unfolding IH using Suc.prems by (simp add: pair_up_update)
  also have "\<dots> = build_levels H ?xs'"
    using Suc.prems by (subst build_levels_two [of ?xs' k]) simp_all
  finally show ?case .
qed

lemma fold_tree_path:
  "length xs = 2 ^ k \<Longrightarrow> pos < length xs \<Longrightarrow>
     fold_path H (xs ! pos) (tree_path (build_levels H xs) pos) = levels_root (build_levels H xs)"
proof (induction k arbitrary: xs pos)
  case 0
  then have "xs \<noteq> []" "pos = 0" by auto
  then show ?case using 0 by (simp add: build_levels_one levels_root_def hd_conv_nth)
next
  case (Suc k)
  have half: "length (pair_up H xs) = 2 ^ k" using Suc.prems by simp
  obtain rest where up: "build_levels H (pair_up H xs) = pair_up H xs # rest"
    using build_levels_hd by blast
  have lt: "pos div 2 < length (pair_up H xs)" using Suc.prems by simp
  have even: "even (length xs)" using Suc.prems by simp
  have root: "levels_root (build_levels H xs) = levels_root (build_levels H (pair_up H xs))"
    unfolding build_levels_two [OF Suc.prems(1)] levels_root_def using up by simp
  have node: "pair_up H xs ! (pos div 2) =
      node_hash H (xs ! (2 * (pos div 2))) (xs ! (2 * (pos div 2) + 1))"
    using lt by (simp add: pair_up_nth)
  have "fold_path H (xs ! pos) (tree_path (build_levels H xs) pos) =
      fold_path H (pair_up H xs ! (pos div 2)) (tree_path (build_levels H (pair_up H xs)) (pos div 2))"
  proof (cases "even pos")
    case True
    then have "Suc pos < length xs" "2 * (pos div 2) = pos" using Suc.prems(2) even by (auto elim!: evenE)
    then show ?thesis
      unfolding build_levels_two [OF Suc.prems(1)] up using True node by (simp add: Let_def)
  next
    case False
    then have "2 * (pos div 2) + 1 = pos" "pos - 1 < length xs" "2 * (pos div 2) = pos - 1"
      using Suc.prems(2) by presburger+
    then show ?thesis
      unfolding build_levels_two [OF Suc.prems(1)] up using False node by (simp add: Let_def)
  qed
  then show ?case using Suc.IH [OF half lt] root by simp
qed

text \<open>Two paths of the same shape that reach one root start at one leaf, absent a collision.\<close>

fun path_preimages :: "(u8 list \<Rightarrow> bytes32) \<Rightarrow> bytes32 \<Rightarrow> (bytes32 \<times> side) list \<Rightarrow> u8 list set" where
  "path_preimages H current [] = {}"
| "path_preimages H current ((sibling, LeftSide) # path) =
     insert (bytes32_bytes sibling @ bytes32_bytes current)
       (path_preimages H (node_hash H sibling current) path)"
| "path_preimages H current ((sibling, RightSide) # path) =
     insert (bytes32_bytes current @ bytes32_bytes sibling)
       (path_preimages H (node_hash H current sibling) path)"

lemma node_hash_inj:
  assumes "node_hash H a b = node_hash H c d"
    "inj_on H S" "bytes32_bytes a @ bytes32_bytes b \<in> S" "bytes32_bytes c @ bytes32_bytes d \<in> S"
  shows "a = c" "b = d"
  using inj_onD [OF assms(2) _ assms(3,4)] assms(1) by (auto simp: node_hash_def)

lemma fold_path_binds:
  assumes "map snd p = map snd q" "fold_path H x p = fold_path H y q"
    "inj_on H S" "path_preimages H x p \<subseteq> S" "path_preimages H y q \<subseteq> S"
  shows "x = y \<and> p = q"
  using assms
proof (induction p arbitrary: q x y)
  case (Cons a p)
  obtain s d where a: "a = (s, d)" by (cases a)
  obtain t q' where q: "q = (t, d) # q'" using Cons.prems(1) a by (cases q) auto
  show ?case
  proof (cases d)
    case LeftSide
    then have "node_hash H s x = node_hash H t y \<and> p = q'"
      using Cons.prems a q by (intro Cons.IH) auto
    then show ?thesis
      using node_hash_inj [of H s x t y S] Cons.prems a q LeftSide by auto
  next
    case RightSide
    then have "node_hash H x s = node_hash H y t \<and> p = q'"
      using Cons.prems a q by (intro Cons.IH) auto
    then show ?thesis
      using node_hash_inj [of H x s y t S] Cons.prems a q RightSide by auto
  qed
qed simp

end
