(* ===== verification/Ledger.thy ===== *)
theory Ledger
  imports Commitment Merkle
begin

text \<open>
  The ledger (\<open>cell/src/ledger.rs\<close>): the store of cells with its public-key index, its lazily
  maintained hash tree and its restore point, the sovereign side maps, and deltas.

  A hash map is a HOL map; where the code iterates over a hash map, the order in which the map
  yields its keys is an argument (\<open>order\<close>). A method that hands out \<open>&mut Cell\<close> is modelled with the
  write made through it: \<open>get_mut_with L id f\<close> is \<open>get_mut\<close> followed by the mutation \<open>f\<close>. The leaf
  digest memo of a cell has interior mutability, so hashing returns the cell with its memo filled.
  Witness subscriptions (channels) are not modelled.
\<close>

section \<open>State\<close>

record sovereign_registration =
  sr_commitment :: bytes32
  sr_registered_at :: u64
  sr_ttl_blocks :: u64
  sr_last_activity :: u64
  sr_verification_key_hash :: "bytes32 option"
  sr_max_custom_effects :: "u8 option"
  sr_owner_public_key :: "bytes32 option"

datatype pending = Clean | Values "cell_id set" | Structural

fun touch_value :: "cell_id \<Rightarrow> pending \<Rightarrow> pending" where
  "touch_value i Clean = Values {i}"
| "touch_value i (Values s) = Values (insert i s)"
| "touch_value i Structural = Structural"

definition touch_structural :: "pending \<Rightarrow> pending" where
  "touch_structural p = Structural"

record migration_voucher =
  mv_cell_id :: cell_id
  mv_state_commitment :: bytes32
  mv_from :: bytes32
  mv_to :: bytes32
  mv_target_mode :: cell_mode
  mv_prepared_at :: u64

record migration_lock =
  ml_voucher :: migration_voucher

record restore_point =
  rp_cells :: "cell_id \<rightharpoonup> cell option"
  rp_sovereign_commitments :: "cell_id \<rightharpoonup> bytes32"
  rp_sovereign_registrations :: "cell_id \<rightharpoonup> sovereign_registration"
  rp_sovereign_witness_sequence :: "cell_id \<rightharpoonup> u64"
  rp_migration_locks :: "cell_id \<rightharpoonup> migration_lock"

record ledger =
  l_cells :: "cell_id \<rightharpoonup> cell"
  l_sovereign_commitments :: "cell_id \<rightharpoonup> bytes32"
  l_sovereign_registrations :: "cell_id \<rightharpoonup> sovereign_registration"
  l_leaf_positions :: "cell_id \<rightharpoonup> nat"
  l_tree_levels :: "bytes32 list list"
  l_root :: bytes32
  l_pending :: pending
  l_sovereign_witness_sequence :: "cell_id \<rightharpoonup> u64"
  l_migration_locks :: "cell_id \<rightharpoonup> migration_lock"
  l_pubkey_index :: "bytes32 \<rightharpoonup> cell_id list"
  l_restore_point :: "restore_point option"

datatype ledger_error =
    CellAlreadyExists cell_id
  | CellNotFound cell_id
  | InvalidFieldIndex cell_id nat
  | InsufficientBalance cell_id int u64
  | BalanceOverflow cell_id
  | TransferSourceNotFound cell_id
  | TransferDestNotFound cell_id
  | SovereignWitnessRequired cell_id
  | SovereignCommitmentMismatch cell_id bytes32 bytes32
  | SovereignAlreadyExists cell_id
  | NotSovereign cell_id
  | InvalidDelta string

definition compute_empty_root :: "('a crypto_scheme) \<Rightarrow> bytes32" where
  "compute_empty_root E = blake3 E (ascii ''dregg-cell:empty-ledger'')"

definition ledger_new :: "('a crypto_scheme) \<Rightarrow> ledger" where
  "ledger_new E = \<lparr>
     l_cells = Map.empty, l_sovereign_commitments = Map.empty,
     l_sovereign_registrations = Map.empty, l_leaf_positions = Map.empty, l_tree_levels = [],
     l_root = compute_empty_root E, l_pending = Clean,
     l_sovereign_witness_sequence = Map.empty, l_migration_locks = Map.empty,
     l_pubkey_index = Map.empty, l_restore_point = None\<rparr>"

section \<open>Cell store\<close>

definition begin_restore_point :: "ledger \<Rightarrow> ledger" where
  "begin_restore_point L = L\<lparr>l_restore_point := Some \<lparr>
     rp_cells = Map.empty,
     rp_sovereign_commitments = l_sovereign_commitments L,
     rp_sovereign_registrations = l_sovereign_registrations L,
     rp_sovereign_witness_sequence = l_sovereign_witness_sequence L,
     rp_migration_locks = l_migration_locks L\<rparr>\<rparr>"

definition commit_restore_point :: "ledger \<Rightarrow> ledger" where
  "commit_restore_point L = L\<lparr>l_restore_point := None\<rparr>"

definition has_restore_point :: "ledger \<Rightarrow> bool" where
  "has_restore_point L \<longleftrightarrow> l_restore_point L \<noteq> None"

definition journal_cell :: "ledger \<Rightarrow> cell_id \<Rightarrow> ledger" where
  "journal_cell L i =
     (case l_restore_point L of
        None \<Rightarrow> L
      | Some rp \<Rightarrow>
          if rp_cells rp i \<noteq> None then L
          else L\<lparr>l_restore_point := Some (rp\<lparr>rp_cells := (rp_cells rp)(i \<mapsto> l_cells L i)\<rparr>)\<rparr>)"

definition pubkey_index_add :: "ledger \<Rightarrow> bytes32 \<Rightarrow> cell_id \<Rightarrow> ledger" where
  "pubkey_index_add L pk i =
     L\<lparr>l_pubkey_index := (l_pubkey_index L)(pk \<mapsto>
        (case l_pubkey_index L pk of None \<Rightarrow> [] | Some ids \<Rightarrow> ids) @ [i])\<rparr>"

definition pubkey_index_remove :: "ledger \<Rightarrow> bytes32 \<Rightarrow> cell_id \<Rightarrow> ledger" where
  "pubkey_index_remove L pk i =
     (case l_pubkey_index L pk of
        None \<Rightarrow> L
      | Some ids \<Rightarrow>
          let ids' = filter (\<lambda>c. c \<noteq> i) ids
          in L\<lparr>l_pubkey_index := (if ids' = [] then (l_pubkey_index L)(pk := None)
                                 else (l_pubkey_index L)(pk \<mapsto> ids'))\<rparr>)"

definition cell_by_pubkey :: "ledger \<Rightarrow> bytes32 \<Rightarrow> cell option" where
  "cell_by_pubkey L pk =
     (case l_pubkey_index L pk of
        None \<Rightarrow> None
      | Some ids \<Rightarrow> (case ids of [] \<Rightarrow> None | i # _ \<Rightarrow> l_cells L i))"

definition ledger_get :: "ledger \<Rightarrow> cell_id \<Rightarrow> cell option" where
  "ledger_get L i = l_cells L i"

definition ledger_contains :: "ledger \<Rightarrow> cell_id \<Rightarrow> bool" where
  "ledger_contains L i \<longleftrightarrow> l_cells L i \<noteq> None"

definition get_mut_with :: "ledger \<Rightarrow> cell_id \<Rightarrow> (cell \<Rightarrow> cell) \<Rightarrow> ledger" where
  "get_mut_with L i f =
     (let L = journal_cell L i in
      case l_cells L i of
        None \<Rightarrow> L
      | Some c \<Rightarrow> L\<lparr>l_cells := (l_cells L)(i \<mapsto> f (invalidate_leaf_cache c)),
                    l_pending := touch_value i (l_pending L)\<rparr>)"

definition update_with ::
  "('a crypto_scheme) \<Rightarrow> ledger \<Rightarrow> cell_id \<Rightarrow> (cell \<Rightarrow> 'r \<times> cell) \<Rightarrow> (ledger_error + 'r) \<times> ledger" where
  "update_with E L i f =
     (let L = journal_cell L i in
      case l_cells L i of
        None \<Rightarrow> (Inl (CellNotFound i), L)
      | Some snapshot \<Rightarrow>
          let (result, c) = f (invalidate_leaf_cache snapshot) in
          if \<not> verify_id_integrity E c
          then (Inl (InvalidDelta ''cell id integrity broken''),
                L\<lparr>l_cells := (l_cells L)(i \<mapsto> snapshot)\<rparr>)
          else (Inr result, L\<lparr>l_cells := (l_cells L)(i \<mapsto> c),
                              l_pending := touch_value i (l_pending L)\<rparr>))"

definition create_cell :: "('a crypto_scheme) \<Rightarrow> ledger \<Rightarrow> bytes32 \<Rightarrow> bytes32 \<Rightarrow> cell_id \<times> ledger" where
  "create_cell E L public_key token_id =
     (let c = new_hosted E public_key token_id;
          L = journal_cell L (c_id c);
          L = L\<lparr>l_cells := (l_cells L)(c_id c \<mapsto> c)\<rparr>;
          L = pubkey_index_add L (c_public_key c) (c_id c)
      in (c_id c, L\<lparr>l_pending := touch_structural (l_pending L)\<rparr>))"

definition insert_cell :: "ledger \<Rightarrow> cell \<Rightarrow> (ledger_error + cell_id) \<times> ledger" where
  "insert_cell L c =
     (if l_cells L (c_id c) \<noteq> None then (Inl (CellAlreadyExists (c_id c)), L)
      else let c = invalidate_leaf_cache c;
               L = journal_cell L (c_id c);
               L = L\<lparr>l_cells := (l_cells L)(c_id c \<mapsto> c)\<rparr>;
               L = pubkey_index_add L (c_public_key c) (c_id c)
           in (Inr (c_id c), L\<lparr>l_pending := touch_structural (l_pending L)\<rparr>))"

definition ledger_remove :: "ledger \<Rightarrow> cell_id \<Rightarrow> cell option \<times> ledger" where
  "ledger_remove L i =
     (let L = journal_cell L i;
          removed = l_cells L i;
          L = L\<lparr>l_cells := (l_cells L)(i := None)\<rparr>
      in case removed of
           None \<Rightarrow> (None, L)
         | Some c \<Rightarrow>
             let L = pubkey_index_remove L (c_public_key c) i
             in (Some c, L\<lparr>l_pending := touch_structural (l_pending L)\<rparr>))"

fun rollback_cells :: "(cell_id \<rightharpoonup> cell option) \<Rightarrow> cell_id list \<Rightarrow> ledger \<Rightarrow> ledger" where
  "rollback_cells prior [] L = L"
| "rollback_cells prior (i # order) L =
     (let L = snd (ledger_remove L i);
          L = (case prior i of
                 Some (Some c) \<Rightarrow> snd (insert_cell L c)
               | _ \<Rightarrow> L)
      in rollback_cells prior order L)"

definition rollback_restore_point :: "cell_id list \<Rightarrow> ledger \<Rightarrow> ledger" where
  "rollback_restore_point order L =
     (case l_restore_point L of
        None \<Rightarrow> L
      | Some rp \<Rightarrow>
          rollback_cells (rp_cells rp) order
            (L\<lparr>l_restore_point := None,
               l_sovereign_commitments := rp_sovereign_commitments rp,
               l_sovereign_registrations := rp_sovereign_registrations rp,
               l_sovereign_witness_sequence := rp_sovereign_witness_sequence rp,
               l_migration_locks := rp_migration_locks rp\<rparr>))"

section \<open>The hash tree\<close>

definition rebuild_tree :: "('a cell_crypto_scheme) \<Rightarrow> ledger \<Rightarrow> ledger" where
  "rebuild_tree E L =
     (let L = L\<lparr>l_pending := Clean\<rparr> in
      if dom (l_cells L) = {}
      then L\<lparr>l_leaf_positions := Map.empty, l_tree_levels := [], l_root := compute_empty_root E\<rparr>
      else
        let ids = sorted_list_of_set (dom (l_cells L));
            leaves = map (\<lambda>i. fst (cached_leaf_digest E (the (l_cells L i)))) ids;
            L = L\<lparr>l_cells := (\<lambda>i. map_option (\<lambda>c. snd (cached_leaf_digest E c)) (l_cells L i)),
                  l_leaf_positions := map_of (zip ids [0..<length ids])\<rparr>
        in if length leaves = 1
           then L\<lparr>l_tree_levels := [leaves], l_root := leaves ! 0\<rparr>
           else let levels = build_levels (blake3 E) (pad_leaves leaves)
                in L\<lparr>l_tree_levels := levels, l_root := levels_root levels\<rparr>)"

definition update_leaf :: "('a cell_crypto_scheme) \<Rightarrow> cell_id \<Rightarrow> ledger \<Rightarrow> ledger" where
  "update_leaf E i L =
     (case l_leaf_positions L i of
        None \<Rightarrow> L
      | Some pos \<Rightarrow>
          (case l_cells L i of
             None \<Rightarrow> L
           | Some c \<Rightarrow>
               let (h, c') = cached_leaf_digest E c;
                   levels = update_path (blake3 E) (l_tree_levels L) pos h
               in L\<lparr>l_cells := (l_cells L)(i \<mapsto> c'), l_tree_levels := levels,
                    l_root := levels_root levels\<rparr>))"

definition materialize :: "('a cell_crypto_scheme) \<Rightarrow> ledger \<Rightarrow> ledger" where
  "materialize E L =
     (let p = l_pending L; L = L\<lparr>l_pending := Clean\<rparr> in
      case p of
        Clean \<Rightarrow> L
      | Structural \<Rightarrow> rebuild_tree E L
      | Values ids \<Rightarrow>
          if l_tree_levels L = [] then rebuild_tree E L
          else fold (update_leaf E) (sorted_list_of_set ids) L)"

definition ledger_root :: "('a cell_crypto_scheme) \<Rightarrow> ledger \<Rightarrow> bytes32 \<times> ledger" where
  "ledger_root E L = (let L = materialize E L in (l_root L, L))"

record membership_proof =
  mp_cell_id :: cell_id
  mp_leaf_hash :: bytes32
  mp_path :: "(bytes32 \<times> side) list"
  mp_root :: bytes32

definition membership_proof_of ::
  "('a cell_crypto_scheme) \<Rightarrow> ledger \<Rightarrow> cell_id \<Rightarrow> membership_proof option \<times> ledger" where
  "membership_proof_of E L i =
     (if l_cells L i = None then (None, L)
      else
        let L = materialize E L;
            (leaf, c) = cached_leaf_digest E (the (l_cells L i));
            L = L\<lparr>l_cells := (l_cells L)(i \<mapsto> c)\<rparr>
        in case l_leaf_positions L i of
             None \<Rightarrow> (None, L)
           | Some pos \<Rightarrow>
               (Some \<lparr>mp_cell_id = i, mp_leaf_hash = leaf,
                      mp_path = (if length (l_tree_levels L) \<le> 1 then []
                                 else tree_path (l_tree_levels L) pos),
                      mp_root = l_root L\<rparr>, L))"

definition verify_membership :: "('a crypto_scheme) \<Rightarrow> membership_proof \<Rightarrow> bool" where
  "verify_membership E p \<longleftrightarrow> fold_path (blake3 E) (mp_leaf_hash p) (mp_path p) = mp_root p"

section \<open>Sovereign cells\<close>

definition register_sovereign_cell ::
  "ledger \<Rightarrow> cell_id \<Rightarrow> bytes32 \<Rightarrow> (ledger_error + unit) \<times> ledger" where
  "register_sovereign_cell L i commitment =
     (if l_cells L i \<noteq> None \<or> l_sovereign_commitments L i \<noteq> None
      then (Inl (SovereignAlreadyExists i), L)
      else (Inr (), L\<lparr>l_sovereign_commitments := (l_sovereign_commitments L)(i \<mapsto> commitment)\<rparr>))"

definition update_sovereign_commitment ::
  "ledger \<Rightarrow> cell_id \<Rightarrow> bytes32 \<Rightarrow> (ledger_error + unit) \<times> ledger" where
  "update_sovereign_commitment L i commitment =
     (if l_sovereign_commitments L i = None then (Inl (NotSovereign i), L)
      else (Inr (), L\<lparr>l_sovereign_commitments := (l_sovereign_commitments L)(i \<mapsto> commitment)\<rparr>))"

definition is_sovereign :: "ledger \<Rightarrow> cell_id \<Rightarrow> bool" where
  "is_sovereign L i \<longleftrightarrow> l_sovereign_commitments L i \<noteq> None"

definition is_sovereign_registered :: "ledger \<Rightarrow> cell_id \<Rightarrow> bool" where
  "is_sovereign_registered L i \<longleftrightarrow> l_sovereign_registrations L i \<noteq> None"

definition last_sovereign_witness_sequence :: "ledger \<Rightarrow> cell_id \<Rightarrow> u64" where
  "last_sovereign_witness_sequence L i =
     (case l_sovereign_witness_sequence L i of None \<Rightarrow> 0 | Some s \<Rightarrow> s)"

definition bump_sovereign_witness_sequence :: "ledger \<Rightarrow> cell_id \<Rightarrow> u64 \<Rightarrow> ledger" where
  "bump_sovereign_witness_sequence L i s =
     L\<lparr>l_sovereign_witness_sequence := (l_sovereign_witness_sequence L)(i \<mapsto> s)\<rparr>"

definition make_sovereign ::
  "('a cell_crypto_scheme) \<Rightarrow> ledger \<Rightarrow> cell_id \<Rightarrow> (ledger_error + cell) \<times> ledger" where
  "make_sovereign E L i =
     (let (removed, L) = ledger_remove L i in
      case removed of
        None \<Rightarrow> (Inl (CellNotFound i), L)
      | Some c \<Rightarrow>
          (Inr c, L\<lparr>l_sovereign_commitments :=
             (l_sovereign_commitments L)(i \<mapsto> compute_canonical_state_commitment E c)\<rparr>))"

definition undo_make_sovereign :: "ledger \<Rightarrow> cell \<Rightarrow> ledger" where
  "undo_make_sovereign L c =
     snd (insert_cell
       (L\<lparr>l_sovereign_commitments := (l_sovereign_commitments L)(c_id c := None)\<rparr>) c)"

definition register_sovereign_cell_with_vk ::
  "ledger \<Rightarrow> cell_id \<Rightarrow> bytes32 \<Rightarrow> u64 \<Rightarrow> u64 \<Rightarrow> bytes32 option \<Rightarrow> (ledger_error + unit) \<times> ledger" where
  "register_sovereign_cell_with_vk L i commitment height ttl vk_digest =
     (if l_cells L i \<noteq> None \<or> l_sovereign_commitments L i \<noteq> None \<or>
         l_sovereign_registrations L i \<noteq> None
      then (Inl (SovereignAlreadyExists i), L)
      else (Inr (), L\<lparr>l_sovereign_registrations := (l_sovereign_registrations L)(i \<mapsto>
         \<lparr>sr_commitment = commitment, sr_registered_at = height, sr_ttl_blocks = ttl,
          sr_last_activity = height, sr_verification_key_hash = vk_digest,
          sr_max_custom_effects = None, sr_owner_public_key = None\<rparr>)\<rparr>))"

definition deregister_sovereign_cell ::
  "ledger \<Rightarrow> cell_id \<Rightarrow> (ledger_error + unit) \<times> ledger" where
  "deregister_sovereign_cell L i =
     (if l_sovereign_registrations L i \<noteq> None
      then (Inr (), L\<lparr>l_sovereign_registrations := (l_sovereign_registrations L)(i := None)\<rparr>)
      else if l_sovereign_commitments L i \<noteq> None
      then (Inr (), L\<lparr>l_sovereign_commitments := (l_sovereign_commitments L)(i := None)\<rparr>)
      else (Inl (NotSovereign i), L))"

definition update_sovereign_registration_commitment ::
  "ledger \<Rightarrow> cell_id \<Rightarrow> bytes32 \<Rightarrow> bytes32 \<Rightarrow> u64 \<Rightarrow> (ledger_error + unit) \<times> ledger" where
  "update_sovereign_registration_commitment L i old new height =
     (case l_sovereign_registrations L i of
        None \<Rightarrow> (Inl (NotSovereign i), L)
      | Some reg \<Rightarrow>
          if sr_commitment reg \<noteq> old
          then (Inl (SovereignCommitmentMismatch i (sr_commitment reg) old), L)
          else (Inr (), L\<lparr>l_sovereign_registrations := (l_sovereign_registrations L)(i \<mapsto>
                 reg\<lparr>sr_commitment := new, sr_last_activity := height\<rparr>)\<rparr>))"

definition expire_sovereign_registrations :: "ledger \<Rightarrow> u64 \<Rightarrow> ledger" where
  "expire_sovereign_registrations L height =
     L\<lparr>l_sovereign_registrations := (\<lambda>i.
        case l_sovereign_registrations L i of
          None \<Rightarrow> None
        | Some reg \<Rightarrow>
            if saturating_sub_word height (sr_last_activity reg) \<le> sr_ttl_blocks reg
            then Some reg else None)\<rparr>"

end
