(* ===== verification/LedgerTree.thy ===== *)
theory LedgerTree
  imports Ledger
begin

text \<open>
  The lazily maintained root. The invariant \<open>tree_inv\<close> says what the stored levels know about the
  cells under each value of the pending marker; every operation preserves it, and materializing
  gives the root a full rebuild over the current cells would give.
\<close>

section \<open>Reference root\<close>

definition cell_ids :: "(cell_id \<rightharpoonup> cell) \<Rightarrow> cell_id list" where
  "cell_ids cells = sorted_list_of_set (dom cells)"

definition leaves_of :: "('a cell_crypto_scheme) \<Rightarrow> (cell_id \<rightharpoonup> cell) \<Rightarrow> bytes32 list" where
  "leaves_of E cells =
     map (\<lambda>i. compute_canonical_state_commitment E (the (cells i))) (cell_ids cells)"

definition canonical_root :: "('a cell_crypto_scheme) \<Rightarrow> (cell_id \<rightharpoonup> cell) \<Rightarrow> bytes32" where
  "canonical_root E cells =
     (if dom cells = {} then compute_empty_root E
      else levels_root (build_levels (blake3 E) (pad_leaves (leaves_of E cells))))"

abbreviation commit_of :: "('a cell_crypto_scheme) \<Rightarrow> cell \<Rightarrow> bytes32" where
  "commit_of \<equiv> compute_canonical_state_commitment"

text \<open>Cells up to the digest memo, which the code's equality ignores as well.\<close>

definition strip_leaf :: "cell \<Rightarrow> cell" where
  "strip_leaf c = c\<lparr>c_leaf_cache := None\<rparr>"

definition strip_cells :: "(cell_id \<rightharpoonup> cell) \<Rightarrow> cell_id \<rightharpoonup> cell" where
  "strip_cells cells = (\<lambda>i. map_option strip_leaf (cells i))"

lemma commit_strip [simp]:
  "compute_canonical_state_commitment E (c\<lparr>c_leaf_cache := m\<rparr>) = compute_canonical_state_commitment E c"
  by (simp add: compute_canonical_state_commitment_def state_commitment_preimage_def)

lemma commit_strip_leaf [simp]: "commit_of E (strip_leaf c) = commit_of E c"
  by (simp add: strip_leaf_def)

lemma strip_leaf_idem [simp]: "strip_leaf (c\<lparr>c_leaf_cache := m\<rparr>) = strip_leaf c"
  by (simp add: strip_leaf_def)

lemma strip_invalidate [simp]: "strip_leaf (invalidate_leaf_cache c) = strip_leaf c"
  by (simp add: invalidate_leaf_cache_def)

lemma dom_strip [simp]: "dom (strip_cells cells) = dom cells"
  by (auto simp: strip_cells_def dom_def)

lemma strip_cells_upd: "strip_cells (cells(i \<mapsto> c)) = (strip_cells cells)(i \<mapsto> strip_leaf c)"
  by (auto simp: strip_cells_def)

lemma commit_of_strip_eq: "strip_leaf c = strip_leaf d \<Longrightarrow> commit_of E c = commit_of E d"
  by (metis commit_strip_leaf)

lemma canonical_root_strip:
  assumes "strip_cells a = strip_cells b"
  shows "canonical_root E a = canonical_root E b"
proof -
  have d: "dom a = dom b" using assms by (metis dom_strip)
  have "commit_of E (the (a i)) = commit_of E (the (b i))" if "i \<in> dom a" for i
  proof -
    have "map_option strip_leaf (a i) = map_option strip_leaf (b i)"
      using assms unfolding strip_cells_def by (rule fun_cong)
    then show ?thesis using that d by (auto dest!: commit_of_strip_eq [of _ _ E])
  qed
  then have "leaves_of E a = leaves_of E b"
    unfolding leaves_of_def cell_ids_def d
    by (cases "finite (dom b)") (auto intro!: map_cong simp: d)
  then show ?thesis by (simp add: canonical_root_def d)
qed

section \<open>Digest memo\<close>

definition memo_ok :: "('a cell_crypto_scheme) \<Rightarrow> cell \<Rightarrow> bool" where
  "memo_ok E c \<longleftrightarrow> (\<forall>d. c_leaf_cache c = Some d \<longrightarrow> d = commit_of E c)"

lemma cached_leaf_digest_value: "memo_ok E c \<Longrightarrow> fst (cached_leaf_digest E c) = commit_of E c"
  by (auto simp: memo_ok_def cached_leaf_digest_def Let_def split: option.splits)

lemma cached_leaf_digest_cell:
  assumes "memo_ok E c"
  shows "strip_leaf (snd (cached_leaf_digest E c)) = strip_leaf c \<and>
    memo_ok E (snd (cached_leaf_digest E c)) \<and> c_id (snd (cached_leaf_digest E c)) = c_id c"
  using assms by (auto simp: memo_ok_def cached_leaf_digest_def Let_def split: option.splits)

lemma memo_ok_invalidate [simp]: "memo_ok E (invalidate_leaf_cache c)"
  by (simp add: memo_ok_def invalidate_leaf_cache_def)

section \<open>What the stored levels know\<close>

definition positions_of :: "(cell_id \<rightharpoonup> cell) \<Rightarrow> cell_id \<rightharpoonup> nat" where
  "positions_of cells = map_of (zip (cell_ids cells) [0..<length (cell_ids cells)])"

text \<open>The levels are those of some leaves that are right for every cell outside \<open>S\<close>.\<close>

definition tree_matches :: "('a cell_crypto_scheme) \<Rightarrow> ledger \<Rightarrow> cell_id set \<Rightarrow> bool" where
  "tree_matches E L S \<longleftrightarrow>
     (\<exists>leaves. length leaves = length (cell_ids (l_cells L)) \<and> leaves \<noteq> [] \<and>
        l_tree_levels L = build_levels (blake3 E) (pad_leaves leaves) \<and>
        l_root L = levels_root (l_tree_levels L) \<and>
        l_leaf_positions L = positions_of (l_cells L) \<and>
        (\<forall>n < length leaves. cell_ids (l_cells L) ! n \<notin> S \<longrightarrow>
           leaves ! n = commit_of E (the (l_cells L (cell_ids (l_cells L) ! n)))))"

definition tree_inv :: "('a cell_crypto_scheme) \<Rightarrow> ledger \<Rightarrow> bool" where
  "tree_inv E L \<longleftrightarrow>
     finite (dom (l_cells L)) \<and> (\<forall>i c. l_cells L i = Some c \<longrightarrow> memo_ok E c) \<and>
     (case l_pending L of
        Clean \<Rightarrow> (if l_tree_levels L = []
                  then dom (l_cells L) = {} \<and> l_root L = compute_empty_root E
                  else tree_matches E L {})
      | Values S \<Rightarrow> finite S \<and> (l_tree_levels L \<noteq> [] \<longrightarrow> tree_matches E L S)
      | Structural \<Rightarrow> True)"

lemma cell_ids_props:
  assumes "finite (dom cells)"
  shows "set (cell_ids cells) = dom cells" "distinct (cell_ids cells)" "sorted (cell_ids cells)"
  using assms by (simp_all add: cell_ids_def)

lemma positions_of_iff:
  assumes "finite (dom cells)"
  shows "positions_of cells i = Some n \<longleftrightarrow> n < length (cell_ids cells) \<and> cell_ids cells ! n = i"
proof -
  have d: "distinct (map fst (zip (cell_ids cells) [0..<length (cell_ids cells)]))"
    using cell_ids_props(2) [OF assms] by simp
  show ?thesis
    unfolding positions_of_def map_of_eq_Some_iff [OF d]
    by (auto simp: in_set_conv_nth)
qed

lemma positions_of_None:
  assumes "finite (dom cells)"
  shows "positions_of cells i = None \<longleftrightarrow> i \<notin> dom cells"
proof -
  have "positions_of cells i \<noteq> None \<longleftrightarrow> i \<in> set (cell_ids cells)"
    using positions_of_iff [OF assms] by (auto simp: in_set_conv_nth)
  then show ?thesis using cell_ids_props(1) [OF assms] by blast
qed

lemma build_levels_ne [simp]: "build_levels H xs \<noteq> []"
  using build_levels_hd [of H xs] by auto

lemma pad_leaves_one: "length xs = 1 \<Longrightarrow> pad_leaves xs = xs"
  by (simp add: pad_leaves_def next_power_of_two_def np2_from.simps)

lemma build_levels_single: "length xs = 1 \<Longrightarrow> build_levels H (pad_leaves xs) = [xs]"
  by (simp add: pad_leaves_one build_levels_one)

section \<open>Materializing\<close>

lemma rebuild_tree_matches:
  assumes "finite (dom (l_cells L))" "dom (l_cells L) \<noteq> {}"
    "\<forall>i c. l_cells L i = Some c \<longrightarrow> memo_ok E c"
  shows "tree_matches E (rebuild_tree E L) {}" "l_pending (rebuild_tree E L) = Clean"
    "strip_cells (l_cells (rebuild_tree E L)) = strip_cells (l_cells L)"
    "\<forall>i c. l_cells (rebuild_tree E L) i = Some c \<longrightarrow> memo_ok E c"
proof -
  define ids where "ids = cell_ids (l_cells L)"
  define cells' where "cells' = (\<lambda>i. map_option (\<lambda>c. snd (cached_leaf_digest E c)) (l_cells L i))"
  define leaves where "leaves = map (\<lambda>i. fst (cached_leaf_digest E (the (l_cells L i)))) ids"
  have set_ids: "set ids = dom (l_cells L)" using cell_ids_props(1) assms(1) by (simp add: ids_def)
  have dom': "dom cells' = dom (l_cells L)" by (auto simp: cells'_def dom_def)
  then have ids': "cell_ids cells' = ids" by (simp add: cell_ids_def ids_def)
  have strip: "strip_cells cells' = strip_cells (l_cells L)"
  proof
    fix i
    show "strip_cells cells' i = strip_cells (l_cells L) i"
      using assms(3) cached_leaf_digest_cell
      by (cases "l_cells L i") (auto simp: strip_cells_def cells'_def)
  qed
  have memo: "\<forall>i c. cells' i = Some c \<longrightarrow> memo_ok E c"
    using assms(3) cached_leaf_digest_cell by (auto simp: cells'_def)
  have "ids \<noteq> []" using assms(2) set_ids by (metis empty_set)
  then have ne: "leaves \<noteq> []" by (simp add: leaves_def)
  have leaf: "leaves ! n = commit_of E (the (cells' (ids ! n)))" if "n < length leaves" for n
  proof -
    have "n < length ids" using that by (simp add: leaves_def)
    then have "ids ! n \<in> dom (l_cells L)" unfolding set_ids [symmetric] by (rule nth_mem)
    then obtain c where c: "l_cells L (ids ! n) = Some c" by auto
    then have "commit_of E c = commit_of E (snd (cached_leaf_digest E c))"
      using assms(3) cached_leaf_digest_cell commit_of_strip_eq by metis
    then show ?thesis
      using that c assms(3) by (simp add: leaves_def cells'_def cached_leaf_digest_value)
  qed
  have eq: "rebuild_tree E L = L\<lparr>l_pending := Clean, l_cells := cells',
      l_leaf_positions := map_of (zip ids [0..<length ids]),
      l_tree_levels := build_levels (blake3 E) (pad_leaves leaves),
      l_root := levels_root (build_levels (blake3 E) (pad_leaves leaves))\<rparr>"
  proof (cases "length leaves = 1")
    case True
    then have "build_levels (blake3 E) (pad_leaves leaves) = [leaves]" "hd leaves = leaves ! 0"
      using build_levels_single ne by (simp_all add: hd_conv_nth)
    then show ?thesis
      using assms(2) True
      by (simp add: rebuild_tree_def Let_def ids_def [symmetric] cell_ids_def [symmetric]
          cells'_def leaves_def [symmetric] levels_root_def del: One_nat_def)
  next
    case False
    then show ?thesis
      using assms(2)
      by (simp add: rebuild_tree_def Let_def ids_def [symmetric] cell_ids_def [symmetric]
          cells'_def leaves_def [symmetric] del: One_nat_def length_map)
  qed
  have len: "length leaves = length ids" by (simp add: leaves_def)
  show "tree_matches E (rebuild_tree E L) {}"
    unfolding tree_matches_def eq using len ne leaf
    by (auto simp: ids' positions_of_def)
  show "l_pending (rebuild_tree E L) = Clean" unfolding eq by simp
  show "strip_cells (l_cells (rebuild_tree E L)) = strip_cells (l_cells L)"
    unfolding eq using strip by simp
  show "\<forall>i c. l_cells (rebuild_tree E L) i = Some c \<longrightarrow> memo_ok E c" unfolding eq using memo by simp
qed


lemma fst_snd_cached:
  "cached_leaf_digest E c = (fst (cached_leaf_digest E c), snd (cached_leaf_digest E c))"
  by simp

text \<open>What one leaf update, or a run of them, keeps and establishes.\<close>

definition refreshed :: "('a cell_crypto_scheme) \<Rightarrow> ledger \<Rightarrow> cell_id set \<Rightarrow> ledger \<Rightarrow> bool" where
  "refreshed E L S L' \<longleftrightarrow>
     tree_matches E L' S \<and> strip_cells (l_cells L') = strip_cells (l_cells L) \<and>
     (\<forall>j c. l_cells L' j = Some c \<longrightarrow> memo_ok E c) \<and> l_pending L' = l_pending L"

lemma update_leaf_absent:
  assumes m: "tree_matches E L S" "finite (dom (l_cells L))"
    "\<forall>i c. l_cells L i = Some c \<longrightarrow> memo_ok E c" and none: "l_cells L i = None"
  shows "refreshed E L (S - {i}) (update_leaf E i L)"
proof -
  have ids: "cell_ids (l_cells L) ! n \<noteq> i" if "n < length (cell_ids (l_cells L))" for n
    using nth_mem [OF that] cell_ids_props(1) [OF m(2)] none by auto
  have pos: "l_leaf_positions L i = None"
    using m(1) none positions_of_None [OF m(2)] unfolding tree_matches_def by auto
  obtain leaves where lv: "length leaves = length (cell_ids (l_cells L))" "leaves \<noteq> []"
    "l_tree_levels L = build_levels (blake3 E) (pad_leaves leaves)"
    "l_root L = levels_root (l_tree_levels L)" "l_leaf_positions L = positions_of (l_cells L)"
    "\<And>n. n < length leaves \<Longrightarrow> cell_ids (l_cells L) ! n \<notin> S \<Longrightarrow>
      leaves ! n = commit_of E (the (l_cells L (cell_ids (l_cells L) ! n)))"
    using m(1) unfolding tree_matches_def by blast
  have "tree_matches E L (S - {i})"
    unfolding tree_matches_def using lv ids by (intro exI [of _ leaves]) simp
  then show ?thesis using pos m(3) by (simp add: update_leaf_def refreshed_def)
qed

lemma update_leaf_present:
  assumes m: "tree_matches E L S" "finite (dom (l_cells L))"
    "\<forall>i c. l_cells L i = Some c \<longrightarrow> memo_ok E c" and c: "l_cells L i = Some c"
  shows "refreshed E L (S - {i}) (update_leaf E i L)"
proof -
  obtain leaves where lv: "length leaves = length (cell_ids (l_cells L))" "leaves \<noteq> []"
    "l_tree_levels L = build_levels (blake3 E) (pad_leaves leaves)"
    "l_leaf_positions L = positions_of (l_cells L)"
    "\<And>n. n < length leaves \<Longrightarrow> cell_ids (l_cells L) ! n \<notin> S \<Longrightarrow>
      leaves ! n = commit_of E (the (l_cells L (cell_ids (l_cells L) ! n)))"
    using m(1) unfolding tree_matches_def by blast
  obtain pos where "l_leaf_positions L i = Some pos"
    using lv(4) positions_of_None [OF m(2)] c by fastforce
  then have pos: "l_leaf_positions L i = Some pos" "pos < length leaves"
    "cell_ids (l_cells L) ! pos = i"
    using lv(1,4) positions_of_iff [OF m(2)] by auto
  define c' where "c' = snd (cached_leaf_digest E c)"
  define cells' where "cells' = (l_cells L)(i \<mapsto> c')"
  define new where "new = leaves[pos := commit_of E c]"
  have memo: "memo_ok E c" using m(3) c by blast
  have c': "strip_leaf c' = strip_leaf c" "memo_ok E c'"
    using cached_leaf_digest_cell [OF memo] by (simp_all add: c'_def)
  have ids': "cell_ids cells' = cell_ids (l_cells L)"
    using c by (simp add: cell_ids_def cells'_def insert_absorb domI)
  obtain k where k: "length (pad_leaves leaves) = 2 ^ k" using pad_leaves_pow by blast
  have "pos < length (pad_leaves leaves)"
    using pos(2) next_power_of_two_ge [of "length leaves"] by (simp add: length_pad_leaves)
  then have "update_path (blake3 E) (l_tree_levels L) pos (commit_of E c) =
      build_levels (blake3 E) (pad_leaves new)"
    unfolding lv(3) new_def using update_path_build [OF k] pos(2) by (simp add: pad_leaves_update)
  then have eq: "update_leaf E i L = L\<lparr>l_cells := cells',
      l_tree_levels := build_levels (blake3 E) (pad_leaves new),
      l_root := levels_root (build_levels (blake3 E) (pad_leaves new))\<rparr>"
    using pos(1) c cached_leaf_digest_value [OF memo]
    by (simp add: update_leaf_def case_prod_beta Let_def cells'_def c'_def)
  have commit': "commit_of E (the (cells' j)) = commit_of E (the (l_cells L j))" for j
    using c commit_of_strip_eq [OF c'(1), of E] by (simp add: cells'_def)
  have "new ! n = commit_of E (the (cells' (cell_ids (l_cells L) ! n)))"
    if n: "n < length leaves" "cell_ids (l_cells L) ! n \<notin> S - {i}" for n
  proof (cases "n = pos")
    case True
    then show ?thesis using pos commit' c by (simp add: new_def)
  next
    case False
    then have "cell_ids (l_cells L) ! n \<noteq> i"
      using pos n(1) lv(1) cell_ids_props(2) [OF m(2)] by (auto simp: nth_eq_iff_index_eq)
    then show ?thesis using n lv(5) commit' False by (simp add: new_def)
  qed
  then have "tree_matches E (update_leaf E i L) (S - {i})"
    unfolding tree_matches_def eq using lv(1,2,4) ids'
    by (intro exI [of _ new]) (simp add: positions_of_def new_def)
  moreover have "strip_cells cells' = strip_cells (l_cells L)"
    using c c'(1) by (auto simp: cells'_def strip_cells_def)
  ultimately show ?thesis
    unfolding refreshed_def eq using m(3) c'(2) by (auto simp: cells'_def)
qed

lemma update_leaf_refreshed:
  assumes "tree_matches E L S" "finite (dom (l_cells L))"
    "\<forall>i c. l_cells L i = Some c \<longrightarrow> memo_ok E c"
  shows "refreshed E L (S - {i}) (update_leaf E i L)"
  using update_leaf_absent [OF assms] update_leaf_present [OF assms] by (cases "l_cells L i") blast+

lemma update_leaves_refreshed:
  assumes "tree_matches E L S" "finite (dom (l_cells L))"
    "\<forall>i c. l_cells L i = Some c \<longrightarrow> memo_ok E c"
  shows "refreshed E L (S - set ids) (fold (update_leaf E) ids L)"
  using assms
proof (induction ids arbitrary: L S)
  case Nil
  then show ?case by (simp add: refreshed_def)
next
  case (Cons i ids)
  have step: "refreshed E L (S - {i}) (update_leaf E i L)"
    by (rule update_leaf_refreshed [OF Cons.prems])
  then have "dom (l_cells (update_leaf E i L)) = dom (l_cells L)"
    unfolding refreshed_def by (metis dom_strip)
  then have "refreshed E (update_leaf E i L) (S - {i} - set ids)
      (fold (update_leaf E) ids (update_leaf E i L))"
    using step Cons.prems(2) by (intro Cons.IH) (auto simp: refreshed_def)
  moreover have "S - {i} - set ids = S - set (i # ids)" by auto
  ultimately show ?case using step unfolding refreshed_def by simp
qed

lemma tree_matches_root:
  assumes "tree_matches E L {}" "finite (dom (l_cells L))"
  shows "l_root L = canonical_root E (l_cells L)"
proof -
  obtain leaves where lv: "length leaves = length (cell_ids (l_cells L))" "leaves \<noteq> []"
    "l_tree_levels L = build_levels (blake3 E) (pad_leaves leaves)"
    "l_root L = levels_root (l_tree_levels L)"
    "\<And>n. n < length leaves \<Longrightarrow>
      leaves ! n = commit_of E (the (l_cells L (cell_ids (l_cells L) ! n)))"
    using assms(1) unfolding tree_matches_def by blast
  have "leaves = leaves_of E (l_cells L)"
    unfolding leaves_of_def using lv(1,5) by (intro nth_equalityI) simp_all
  moreover have "dom (l_cells L) \<noteq> {}"
    using lv(1,2) cell_ids_props(1) [OF assms(2)] by auto
  ultimately show ?thesis using lv by (simp add: canonical_root_def)
qed

text \<open>The marker is cleared, the root is the reference root, the cells are the same.\<close>

definition materialized :: "('a cell_crypto_scheme) \<Rightarrow> ledger \<Rightarrow> ledger \<Rightarrow> bool" where
  "materialized E L M \<longleftrightarrow>
     l_root M = canonical_root E (l_cells L) \<and> tree_inv E M \<and> l_pending M = Clean \<and>
     strip_cells (l_cells M) = strip_cells (l_cells L) \<and>
     (dom (l_cells L) \<noteq> {} \<longrightarrow> tree_matches E M {})"

lemma materialize_correct:
  assumes inv: "tree_inv E L"
  shows "materialized E L (materialize E L)"
proof -
  have fin: "finite (dom (l_cells L))" and memo: "\<forall>i c. l_cells L i = Some c \<longrightarrow> memo_ok E c"
    using inv by (simp_all add: tree_inv_def)
  have good: ?thesis if r: "refreshed E (L\<lparr>l_pending := Clean\<rparr>) {} (materialize E L)"
  proof -
    have strip: "strip_cells (l_cells (materialize E L)) = strip_cells (l_cells L)"
      and m: "tree_matches E (materialize E L) {}" and p: "l_pending (materialize E L) = Clean"
      and mm: "\<forall>j c. l_cells (materialize E L) j = Some c \<longrightarrow> memo_ok E c"
      using r by (simp_all add: refreshed_def)
    have d: "finite (dom (l_cells (materialize E L)))" using strip fin by (metis dom_strip)
    have "l_tree_levels (materialize E L) \<noteq> []"
      using m unfolding tree_matches_def by (metis build_levels_ne)
    then have "tree_inv E (materialize E L)" using m p mm d by (simp add: tree_inv_def)
    then show ?thesis using tree_matches_root [OF m d] canonical_root_strip [OF strip] strip m p
      by (simp add: materialized_def)
  qed
  have rebuild: ?thesis if "materialize E L = rebuild_tree E L'" "l_cells L' = l_cells L"
    for L'
  proof (cases "dom (l_cells L) = {}")
    case True
    then show ?thesis using that
      by (simp add: rebuild_tree_def Let_def tree_inv_def canonical_root_def materialized_def)
  next
    case False
    have "finite (dom (l_cells L'))" "dom (l_cells L') \<noteq> {}"
      "\<forall>i c. l_cells L' i = Some c \<longrightarrow> memo_ok E c"
      using False fin memo unfolding that(2) by simp_all
    note r = rebuild_tree_matches [OF this]
    show ?thesis
      by (rule good) (unfold refreshed_def that(1), use r that(2) in simp)
  qed
  show ?thesis
  proof (cases "l_pending L")
    case Clean
    then have m: "materialize E L = L" by (simp add: materialize_def Let_def)
    show ?thesis
    proof (cases "l_tree_levels L = []")
      case True
      then show ?thesis using inv Clean m by (simp add: tree_inv_def canonical_root_def materialized_def)
    next
      case False
      then show ?thesis using inv Clean m memo by (intro good) (simp add: tree_inv_def refreshed_def)
    qed
  next
    case Structural
    then show ?thesis by (intro rebuild [of "L\<lparr>l_pending := Clean\<rparr>"]) (simp_all add: materialize_def Let_def)
  next
    case (Values ids)
    show ?thesis
    proof (cases "l_tree_levels L = []")
      case True
      then show ?thesis using Values
        by (intro rebuild [of "L\<lparr>l_pending := Clean\<rparr>"]) (simp_all add: materialize_def Let_def)
    next
      case False
      have "tree_matches E L ids" "finite ids" using inv Values False by (simp_all add: tree_inv_def)
      then have "refreshed E (L\<lparr>l_pending := Clean\<rparr>) (ids - set (sorted_list_of_set ids))
          (fold (update_leaf E) (sorted_list_of_set ids) (L\<lparr>l_pending := Clean\<rparr>))"
        using fin memo by (intro update_leaves_refreshed) (simp_all add: tree_matches_def)
      then show ?thesis
        using Values False \<open>finite ids\<close> by (intro good) (simp add: materialize_def Let_def)
    qed
  qed
qed


section \<open>Every operation keeps the invariant\<close>

text \<open>
  A mutation written through a reference keeps the sealed identity fields and cannot reach the
  digest memo.
\<close>

definition sealed :: "(cell \<Rightarrow> cell) \<Rightarrow> bool" where
  "sealed f \<longleftrightarrow> (\<forall>c. c_id (f c) = c_id c \<and> c_public_key (f c) = c_public_key c \<and>
     c_token_id (f c) = c_token_id c \<and> c_leaf_cache (f c) = c_leaf_cache c)"

lemma sealedD:
  "sealed f \<Longrightarrow> c_id (f c) = c_id c" "sealed f \<Longrightarrow> c_public_key (f c) = c_public_key c"
  "sealed f \<Longrightarrow> c_token_id (f c) = c_token_id c" "sealed f \<Longrightarrow> c_leaf_cache (f c) = c_leaf_cache c"
  by (simp_all add: sealed_def)

lemma journal_cell_simps [simp]:
  "l_cells (journal_cell L i) = l_cells L" "l_pending (journal_cell L i) = l_pending L"
  "l_tree_levels (journal_cell L i) = l_tree_levels L" "l_root (journal_cell L i) = l_root L"
  "l_leaf_positions (journal_cell L i) = l_leaf_positions L"
  "l_pubkey_index (journal_cell L i) = l_pubkey_index L"
  "l_sovereign_commitments (journal_cell L i) = l_sovereign_commitments L"
  "l_sovereign_registrations (journal_cell L i) = l_sovereign_registrations L"
  "l_sovereign_witness_sequence (journal_cell L i) = l_sovereign_witness_sequence L"
  "l_migration_locks (journal_cell L i) = l_migration_locks L"
  by (auto simp: journal_cell_def split: option.splits)

lemma pubkey_index_simps [simp]:
  "l_cells (pubkey_index_add L pk i) = l_cells L" "l_pending (pubkey_index_add L pk i) = l_pending L"
  "l_tree_levels (pubkey_index_add L pk i) = l_tree_levels L"
  "l_root (pubkey_index_add L pk i) = l_root L"
  "l_restore_point (pubkey_index_add L pk i) = l_restore_point L"
  "l_sovereign_commitments (pubkey_index_add L pk i) = l_sovereign_commitments L"
  "l_cells (pubkey_index_remove L pk i) = l_cells L"
  "l_pending (pubkey_index_remove L pk i) = l_pending L"
  "l_tree_levels (pubkey_index_remove L pk i) = l_tree_levels L"
  "l_root (pubkey_index_remove L pk i) = l_root L"
  "l_restore_point (pubkey_index_remove L pk i) = l_restore_point L"
  "l_sovereign_commitments (pubkey_index_remove L pk i) = l_sovereign_commitments L"
  by (auto simp: pubkey_index_add_def pubkey_index_remove_def Let_def split: option.splits)

lemma touch_structural_simp [simp]: "touch_structural p = Structural"
  by (simp add: touch_structural_def)

lemma tree_inv_structural:
  assumes "finite (dom (l_cells L))" "\<forall>i c. l_cells L i = Some c \<longrightarrow> memo_ok E c"
    "l_pending L = Structural"
  shows "tree_inv E L"
  using assms by (simp add: tree_inv_def)

text \<open>The fields the invariant reads.\<close>

lemma tree_inv_cong:
  assumes "l_cells L' = l_cells L" "l_pending L' = l_pending L"
    "l_tree_levels L' = l_tree_levels L" "l_root L' = l_root L"
    "l_leaf_positions L' = l_leaf_positions L"
  shows "tree_inv E L' = tree_inv E L"
proof -
  have "tree_matches E L' S = tree_matches E L S" for S by (simp add: tree_matches_def assms)
  then show ?thesis by (cases "l_pending L") (simp_all add: tree_inv_def assms)
qed

lemma tree_matches_write:
  assumes "tree_matches E L S" "finite (dom (l_cells L))" "l_cells L i = Some c"
  shows "tree_matches E (L\<lparr>l_cells := (l_cells L)(i \<mapsto> c'), l_pending := p\<rparr>) (insert i S)"
proof -
  have ids: "cell_ids ((l_cells L)(i \<mapsto> c')) = cell_ids (l_cells L)"
    using assms(3) by (simp add: cell_ids_def insert_absorb domI)
  obtain leaves where lv: "length leaves = length (cell_ids (l_cells L))" "leaves \<noteq> []"
    "l_tree_levels L = build_levels (blake3 E) (pad_leaves leaves)"
    "l_root L = levels_root (l_tree_levels L)" "l_leaf_positions L = positions_of (l_cells L)"
    "\<And>n. n < length leaves \<Longrightarrow> cell_ids (l_cells L) ! n \<notin> S \<Longrightarrow>
      leaves ! n = commit_of E (the (l_cells L (cell_ids (l_cells L) ! n)))"
    using assms(1) unfolding tree_matches_def by blast
  show ?thesis
    unfolding tree_matches_def using lv
    by (intro exI [of _ leaves]) (simp add: ids positions_of_def)
qed

lemma tree_inv_write:
  assumes inv: "tree_inv E L" and c: "l_cells L i = Some c" and memo: "memo_ok E c'"
  shows "tree_inv E (L\<lparr>l_cells := (l_cells L)(i \<mapsto> c'), l_pending := touch_value i (l_pending L)\<rparr>)"
proof -
  have fin: "finite (dom (l_cells L))" using inv by (simp add: tree_inv_def)
  have ne: "dom (l_cells L) \<noteq> {}" using c by auto
  show ?thesis
    using inv memo ne tree_matches_write [OF _ fin c, where c' = c']
    by (cases "l_pending L") (auto simp: tree_inv_def split: if_splits)
qed

lemma get_mut_with_tree_inv:
  assumes "tree_inv E L" "sealed f"
  shows "tree_inv E (get_mut_with L i f)"
proof (cases "l_cells L i")
  case None
  then show ?thesis using assms by (simp add: get_mut_with_def tree_inv_cong [of "journal_cell L i" L])
next
  case (Some c)
  have j: "tree_inv E (journal_cell L i)" using assms by (simp add: tree_inv_cong [of "journal_cell L i" L])
  have "memo_ok E (f (invalidate_leaf_cache c))"
    using sealedD(4) [OF assms(2)] by (simp add: memo_ok_def invalidate_leaf_cache_def)
  then show ?thesis
    using tree_inv_write [OF j, of i c] Some by (simp add: get_mut_with_def Let_def)
qed

lemma insert_cell_tree_inv:
  assumes "tree_inv E L"
  shows "tree_inv E (snd (insert_cell L c))"
proof (cases "l_cells L (c_id c) = None")
  case True
  then show ?thesis
    using assms
    by (intro tree_inv_structural)
       (auto simp: insert_cell_def Let_def tree_inv_def invalidate_leaf_cache_def memo_ok_def
         split: if_splits)
qed (use assms in \<open>simp add: insert_cell_def\<close>)

lemma ledger_remove_tree_inv:
  assumes "tree_inv E L"
  shows "tree_inv E (snd (ledger_remove L i))"
proof (cases "l_cells L i")
  case None
  then have "(l_cells L)(i := None) = l_cells L" by auto
  then show ?thesis
    using assms None
    by (simp add: ledger_remove_def Let_def)
       (subst tree_inv_cong [of _ L]; simp)
next
  case (Some c)
  then show ?thesis
    using assms
    by (intro tree_inv_structural) (auto simp: ledger_remove_def Let_def tree_inv_def split: if_splits)
qed

end
