(* ===== verification/LedgerDelta.thy ===== *)
theory LedgerDelta
  imports LedgerTree
begin

text \<open>
  Deltas (\<open>LedgerDelta\<close>, \<open>apply_delta\<close> and its helpers in \<open>cell/src/ledger.rs\<close>): validation with running
  balances, in-place application against an undo map, and rollback from it. The lemmas show that a
  failed delta leaves the ledger as it was, that validation is complete up to nonce overflow, and
  what a successful delta does to the total balance.
\<close>

section \<open>Deltas\<close>

record cell_state_delta =
  cd_field_updates :: "(nat \<times> field_element) list"
  cd_nonce_increment :: bool
  cd_balance_change :: int
  cd_permission_changes :: "permissions option"
  cd_capability_grants :: "capability_ref list"
  cd_capability_revocations :: "u32 list"

definition cell_state_delta_empty :: cell_state_delta where
  "cell_state_delta_empty = \<lparr>cd_field_updates = [], cd_nonce_increment = False,
     cd_balance_change = 0, cd_permission_changes = None, cd_capability_grants = [],
     cd_capability_revocations = []\<rparr>"

record ledger_delta =
  ld_created :: "cell list"
  ld_updated :: "(cell_id \<times> cell_state_delta) list"
  ld_computron_transfers :: "(cell_id \<times> cell_id \<times> u64) list"
  ld_removed :: "cell_id list"

definition ledger_delta_new :: ledger_delta where
  "ledger_delta_new = \<lparr>ld_created = [], ld_updated = [], ld_computron_transfers = [], ld_removed = []\<rparr>"

section \<open>Validation\<close>

definition validate_created :: "ledger \<Rightarrow> cell \<Rightarrow> (cell_id \<rightharpoonup> cell) \<Rightarrow> ledger_error option \<times> (cell_id \<rightharpoonup> cell)" where
  "validate_created L c created =
     (if l_cells L (c_id c) \<noteq> None then (Some (CellAlreadyExists (c_id c)), created)
      else (None, created(c_id c \<mapsto> c)))"

definition delta_lookup :: "ledger \<Rightarrow> (cell_id \<rightharpoonup> cell) \<Rightarrow> cell_id \<Rightarrow> cell option" where
  "delta_lookup L created i = (case l_cells L i of Some c \<Rightarrow> Some c | None \<Rightarrow> created i)"

type_synonym balances = "cell_id \<rightharpoonup> int"

definition get_running_balance ::
  "(cell_id \<Rightarrow> cell option) \<Rightarrow> balances \<Rightarrow> cell_id \<Rightarrow> int option \<times> balances" where
  "get_running_balance lookup rb i =
     (case rb i of
        Some b \<Rightarrow> (Some b, rb)
      | None \<Rightarrow> (case lookup i of
            None \<Rightarrow> (None, rb)
          | Some c \<Rightarrow> (Some (st_balance (c_state c)), rb(i \<mapsto> st_balance (c_state c)))))"

fun first_bad_index :: "(nat \<times> field_element) list \<Rightarrow> nat option" where
  "first_bad_index [] = None"
| "first_bad_index ((index, _) # us) =
     (if STATE_SLOTS \<le> index then Some index else first_bad_index us)"

definition unsigned_abs :: "int \<Rightarrow> u64" where
  "unsigned_abs d = word_of_int \<bar>d\<bar>"

definition validate_update ::
  "(cell_id \<Rightarrow> cell option) \<Rightarrow> cell_id \<times> cell_state_delta \<Rightarrow> balances \<Rightarrow> ledger_error option \<times> balances" where
  "validate_update lookup u rb =
     (let (i, d) = u in
      case lookup i of
        None \<Rightarrow> (Some (CellNotFound i), rb)
      | Some c \<Rightarrow>
          (case first_bad_index (cd_field_updates d) of
             Some index \<Rightarrow> (Some (InvalidFieldIndex i index), rb)
           | None \<Rightarrow>
               let (b, rb) = get_running_balance lookup rb i;
                   balance = (case b of Some x \<Rightarrow> x | None \<Rightarrow> st_balance (c_state c))
               in case checked_add_i64 balance (cd_balance_change d) of
                    None \<Rightarrow> (Some (BalanceOverflow i), rb)
                  | Some new_balance \<Rightarrow>
                      if cd_balance_change d < 0 \<and> new_balance < 0
                      then (Some (InsufficientBalance i balance (unsigned_abs (cd_balance_change d))), rb)
                      else (None, rb(i \<mapsto> new_balance))))"

definition validate_transfer ::
  "(cell_id \<Rightarrow> cell option) \<Rightarrow> cell_id \<times> cell_id \<times> u64 \<Rightarrow> balances \<Rightarrow> ledger_error option \<times> balances" where
  "validate_transfer lookup t rb =
     (let (from_id, to_id, amount) = t in
      case i64_try_from amount of
        None \<Rightarrow> (Some (BalanceOverflow from_id), rb)
      | Some amt \<Rightarrow>
          let (fb, rb) = get_running_balance lookup rb from_id in
          case fb of
            None \<Rightarrow> (Some (TransferSourceNotFound from_id), rb)
          | Some from_balance \<Rightarrow>
              if from_balance < amt
              then (Some (InsufficientBalance from_id from_balance amount), rb)
              else
                let rb = rb(from_id \<mapsto> from_balance - amt);
                    (tb, rb) = get_running_balance lookup rb to_id
                in case tb of
                     None \<Rightarrow> (Some (TransferDestNotFound to_id), rb)
                   | Some to_balance \<Rightarrow>
                       (case checked_add_i64 to_balance amt of
                          None \<Rightarrow> (Some (BalanceOverflow to_id), rb)
                        | Some new_to \<Rightarrow> (None, rb(to_id \<mapsto> new_to))))"

definition validate_delta :: "ledger \<Rightarrow> ledger_delta \<Rightarrow> ledger_error option" where
  "validate_delta L d =
     (case foreach (validate_created L) (ld_created d) Map.empty of
        (Some e, _) \<Rightarrow> Some e
      | (None, created) \<Rightarrow>
          (case foreach (validate_update (delta_lookup L created)) (ld_updated d) Map.empty of
             (Some e, _) \<Rightarrow> Some e
           | (None, rb) \<Rightarrow>
               fst (foreach (validate_transfer (delta_lookup L created))
                      (ld_computron_transfers d) rb)))"

section \<open>Application\<close>

definition apply_field_update ::
  "cell_id \<Rightarrow> nat \<times> field_element \<Rightarrow> cell \<Rightarrow> ledger_error option \<times> cell" where
  "apply_field_update i u c =
     (let (index, v) = u in
      if STATE_SLOTS \<le> index then (Some (InvalidFieldIndex i index), c)
      else (None, c\<lparr>c_state := (c_state c)\<lparr>st_fields := (st_fields (c_state c))[index := v]\<rparr>\<rparr>))"

definition apply_delta_grant :: "('a crypto_scheme) \<Rightarrow> capability_ref \<Rightarrow> capability_set \<Rightarrow> capability_set" where
  "apply_delta_grant E r cs =
     snd (grant_full (blake3 E) cs (cr_target r) (cr_permissions r) (cr_breadstuff r)
       (cr_expires_at r))"

definition apply_cell_delta ::
  "('a crypto_scheme) \<Rightarrow> cell \<Rightarrow> cell_state_delta \<Rightarrow> cell_id \<Rightarrow> ledger_error option \<times> cell" where
  "apply_cell_delta E c d i =
     (case foreach (apply_field_update i) (cd_field_updates d) (invalidate_leaf_cache c) of
        (Some e, c) \<Rightarrow> (Some e, c)
      | (None, c) \<Rightarrow>
          let (ok, st) = (if cd_nonce_increment d then increment_nonce (c_state c)
                          else (True, c_state c));
              c = c\<lparr>c_state := st\<rparr>
          in if \<not> ok then (Some (InvalidDelta ''nonce overflow''), c)
             else
               let (ok, st) = apply_balance_change (c_state c) (cd_balance_change d) in
               if \<not> ok
               then (Some (if cd_balance_change d < 0
                           then InsufficientBalance i (st_balance (c_state c))
                                  (unsigned_abs (cd_balance_change d))
                           else BalanceOverflow i), c)
               else
                 let c = c\<lparr>c_state := st\<rparr>;
                     c = (case cd_permission_changes d of
                            Some p \<Rightarrow> c\<lparr>c_permissions := p\<rparr> | None \<Rightarrow> c);
                     cs = fold (apply_delta_grant E) (cd_capability_grants d) (c_capabilities c);
                     cs = fold (\<lambda>slot cs. snd (clist_revoke cs slot)) (cd_capability_revocations d) cs
                 in (None, c\<lparr>c_capabilities := cs\<rparr>))"

type_synonym undo_map = "cell_id \<rightharpoonup> cell option"

text \<open>\<open>undo.entry(id).or_insert_with(|| self.cells.get(id).cloned())\<close>\<close>

definition undo_note :: "ledger \<Rightarrow> cell_id \<Rightarrow> undo_map \<Rightarrow> undo_map" where
  "undo_note L i undo = (if undo i = None then undo(i \<mapsto> l_cells L i) else undo)"

definition delta_create :: "cell \<Rightarrow> ledger \<times> undo_map \<Rightarrow> ledger \<times> undo_map" where
  "delta_create c s =
     (let (L, undo) = s;
          undo = (if undo (c_id c) = None then undo(c_id c \<mapsto> None) else undo);
          L = L\<lparr>l_cells := (l_cells L)(c_id c \<mapsto> c)\<rparr>
      in (pubkey_index_add L (c_public_key c) (c_id c), undo))"

definition delta_update ::
  "('a crypto_scheme) \<Rightarrow> cell_id \<times> cell_state_delta \<Rightarrow> ledger \<times> undo_map \<Rightarrow>
   ledger_error option \<times> ledger \<times> undo_map" where
  "delta_update E u s =
     (let (i, d) = u; (L, undo) = s; undo = undo_note L i undo in
      case l_cells L i of
        None \<Rightarrow> (Some (CellNotFound i), L, undo)
      | Some c \<Rightarrow>
          let (e, c') = apply_cell_delta E c d i
          in (e, L\<lparr>l_cells := (l_cells L)(i \<mapsto> c')\<rparr>, undo))"

definition set_cell_balance :: "int \<Rightarrow> cell \<Rightarrow> cell" where
  "set_cell_balance b c = (invalidate_leaf_cache c)\<lparr>c_state := (c_state c)\<lparr>st_balance := b\<rparr>\<rparr>"

definition delta_transfer ::
  "cell_id \<times> cell_id \<times> u64 \<Rightarrow> ledger \<times> undo_map \<Rightarrow> ledger_error option \<times> ledger \<times> undo_map" where
  "delta_transfer t s =
     (let (from_id, to_id, amount) = t; (L, undo) = s in
      case i64_try_from amount of
        None \<Rightarrow> (Some (BalanceOverflow from_id), L, undo)
      | Some amt \<Rightarrow>
          let undo = undo_note L from_id undo in
          case l_cells L from_id of
            None \<Rightarrow> (Some (TransferSourceNotFound from_id), L, undo)
          | Some from_cell \<Rightarrow>
              let bal = st_balance (c_state from_cell) in
              if bal < amt then (Some (InsufficientBalance from_id bal amount), L, undo)
              else
                let L = L\<lparr>l_cells := (l_cells L)(from_id \<mapsto> set_cell_balance (bal - amt) from_cell)\<rparr>;
                    undo = undo_note L to_id undo
                in case l_cells L to_id of
                     None \<Rightarrow> (Some (TransferDestNotFound to_id), L, undo)
                   | Some to_cell \<Rightarrow>
                       (case checked_add_i64 (st_balance (c_state to_cell)) amt of
                          None \<Rightarrow> (Some (BalanceOverflow to_id),
                                    L\<lparr>l_cells := (l_cells L)(to_id \<mapsto> invalidate_leaf_cache to_cell)\<rparr>,
                                    undo)
                        | Some b \<Rightarrow>
                            (None, L\<lparr>l_cells := (l_cells L)(to_id \<mapsto> set_cell_balance b to_cell)\<rparr>,
                             undo)))"

definition delta_remove :: "cell_id \<Rightarrow> ledger \<times> undo_map \<Rightarrow> ledger \<times> undo_map" where
  "delta_remove i s =
     (let (L, undo) = s; undo = undo_note L i undo in
      case l_cells L i of
        None \<Rightarrow> (L, undo)
      | Some c \<Rightarrow>
          (pubkey_index_remove (L\<lparr>l_cells := (l_cells L)(i := None)\<rparr>) (c_public_key c) i, undo))"

definition apply_delta_in_place ::
  "('a crypto_scheme) \<Rightarrow> ledger_delta \<Rightarrow> ledger \<times> undo_map \<Rightarrow> ledger_error option \<times> ledger \<times> undo_map"
  where
  "apply_delta_in_place E d s =
     (let s = fold delta_create (ld_created d) s in
      case foreach (delta_update E) (ld_updated d) s of
        (Some e, s) \<Rightarrow> (Some e, s)
      | (None, s) \<Rightarrow>
          (case foreach delta_transfer (ld_computron_transfers d) s of
             (Some e, s) \<Rightarrow> (Some e, s)
           | (None, s) \<Rightarrow> (None, fold delta_remove (ld_removed d) s)))"

definition rollback_one :: "undo_map \<Rightarrow> cell_id \<Rightarrow> ledger \<Rightarrow> ledger" where
  "rollback_one undo i L =
     (case undo i of
        None \<Rightarrow> L
      | Some None \<Rightarrow>
          (case l_cells L i of
             None \<Rightarrow> L
           | Some c \<Rightarrow>
               pubkey_index_remove (L\<lparr>l_cells := (l_cells L)(i := None)\<rparr>) (c_public_key c) i)
      | Some (Some c) \<Rightarrow> L\<lparr>l_cells := (l_cells L)(i \<mapsto> c)\<rparr>)"

definition rollback_delta_from_undo :: "cell_id list \<Rightarrow> undo_map \<Rightarrow> ledger \<Rightarrow> ledger" where
  "rollback_delta_from_undo order undo L = fold (rollback_one undo) order L"

definition delta_touch :: "ledger_delta \<Rightarrow> pending \<Rightarrow> pending" where
  "delta_touch d p =
     (if ld_created d \<noteq> [] \<or> ld_removed d \<noteq> [] then touch_structural p
      else fold (\<lambda>(from_id, to_id, _) p. touch_value to_id (touch_value from_id p))
             (ld_computron_transfers d)
             (fold (\<lambda>(i, _) p. touch_value i p) (ld_updated d) p))"

definition apply_delta ::
  "('a crypto_scheme) \<Rightarrow> (undo_map \<Rightarrow> cell_id list) \<Rightarrow> ledger \<Rightarrow> ledger_delta \<Rightarrow>
   (ledger_error + unit) \<times> ledger" where
  "apply_delta E order L d =
     (case validate_delta L d of
        Some e \<Rightarrow> (Inl e, L)
      | None \<Rightarrow>
          (case apply_delta_in_place E d (L, Map.empty) of
             (Some e, L', undo) \<Rightarrow> (Inl e, rollback_delta_from_undo (order undo) undo L')
           | (None, L', undo) \<Rightarrow> (Inr (), L'\<lparr>l_pending := delta_touch d (l_pending L')\<rparr>)))"

section \<open>Rollback restores the cells\<close>

text \<open>Nothing but the cells and the public-key index differs.\<close>

definition same_rest :: "ledger \<Rightarrow> ledger \<Rightarrow> bool" where
  "same_rest L L' \<longleftrightarrow> L'\<lparr>l_cells := l_cells L, l_pubkey_index := l_pubkey_index L\<rparr> = L"

lemma same_rest_refl [simp]: "same_rest L L"
  by (simp add: same_rest_def)

lemma same_rest_cells [simp]: "same_rest L (L'\<lparr>l_cells := m\<rparr>) = same_rest L L'"
  by (simp add: same_rest_def)

lemma same_rest_index [simp]:
  "same_rest L (pubkey_index_add L' pk i) = same_rest L L'"
  "same_rest L (pubkey_index_remove L' pk i) = same_rest L L'"
  by (auto simp: same_rest_def pubkey_index_add_def pubkey_index_remove_def Let_def
      split: option.splits)

text \<open>The undo map holds the original image of exactly the cells that may differ.\<close>

definition undo_inv :: "ledger \<Rightarrow> ledger \<times> undo_map \<Rightarrow> bool" where
  "undo_inv L0 s \<longleftrightarrow>
     same_rest L0 (fst s) \<and>
     (\<forall>i. snd s i = None \<longrightarrow> l_cells (fst s) i = l_cells L0 i) \<and>
     (\<forall>i p. snd s i = Some p \<longrightarrow> p = l_cells L0 i)"

lemma undo_inv_note: "undo_inv L0 (L, undo) \<Longrightarrow> undo_inv L0 (L, undo_note L i undo)"
  by (auto simp: undo_inv_def undo_note_def)

lemma undo_inv_write:
  assumes "undo_inv L0 (L, undo)" "undo i \<noteq> None"
  shows "undo_inv L0 (L\<lparr>l_cells := (l_cells L)(i := x)\<rparr>, undo)"
  using assms by (auto simp: undo_inv_def)

lemma undo_note_noted [simp]: "undo_note L i undo i \<noteq> None"
  by (auto simp: undo_note_def)

lemma undo_inv_create:
  assumes "undo_inv L0 s" "l_cells L0 (c_id c) = None"
  shows "undo_inv L0 (delta_create c s)"
proof -
  obtain L undo where s: "s = (L, undo)" by (cases s)
  let ?undo = "if undo (c_id c) = None then undo(c_id c \<mapsto> None) else undo"
  have "undo_inv L0 (L, ?undo)" "?undo (c_id c) \<noteq> None"
    using assms by (auto simp: s undo_inv_def)
  then have "undo_inv L0 (L\<lparr>l_cells := (l_cells L)(c_id c \<mapsto> c)\<rparr>, ?undo)"
    by (rule undo_inv_write)
  then show ?thesis by (simp add: s delta_create_def Let_def undo_inv_def)
qed

lemma undo_inv_update:
  assumes "undo_inv L0 s"
  shows "undo_inv L0 (snd (delta_update E u s))"
proof -
  obtain L undo i d where s: "s = (L, undo)" and u: "u = (i, d)" by (cases s; cases u)
  note n = undo_inv_note [OF assms [unfolded s], of i]
  show ?thesis
    using n undo_inv_write [OF n undo_note_noted]
    by (auto simp: s u delta_update_def Let_def split: option.splits prod.splits)
qed

lemma undo_inv_transfer:
  assumes "undo_inv L0 s"
  shows "undo_inv L0 (snd (delta_transfer t s))"
proof -
  obtain L undo a b m where s: "s = (L, undo)" and t: "t = (a, b, m)" by (cases s; cases t)
  note n1 = undo_inv_note [OF assms [unfolded s], of a]
  note w1 = undo_inv_write [OF n1 undo_note_noted]
  note n2 = undo_inv_note [OF w1, where i = b]
  note w2 = undo_inv_write [OF n2 undo_note_noted]
  show ?thesis
    using assms n1 w1 n2 w2
    by (auto simp: s t delta_transfer_def Let_def split: option.splits)
qed

lemma undo_inv_created:
  assumes "\<forall>c \<in> set cs. l_cells L0 (c_id c) = None" "undo_inv L0 s"
  shows "undo_inv L0 (fold delta_create cs s)"
  using assms
proof (induction cs arbitrary: s)
  case (Cons c cs)
  then have "undo_inv L0 (delta_create c s)" by (intro undo_inv_create) simp_all
  then show ?case using Cons by simp
qed simp

lemma in_place_failure_undo_inv:
  assumes "\<forall>c \<in> set (ld_created d). l_cells L (c_id c) = None"
    "apply_delta_in_place E d (L, Map.empty) = (Some e, s)"
  shows "undo_inv L s"
proof -
  let ?s1 = "fold delta_create (ld_created d) (L, Map.empty)"
  have "undo_inv L (L, Map.empty)" by (simp add: undo_inv_def)
  then have 1: "undo_inv L ?s1" using undo_inv_created [OF assms(1)] by blast
  have 2: "undo_inv L (snd (foreach (delta_update E) (ld_updated d) ?s1))"
    using 1 by (rule foreach_inv) (rule undo_inv_update)
  have "undo_inv L (snd (foreach delta_transfer (ld_computron_transfers d)
      (snd (foreach (delta_update E) (ld_updated d) ?s1))))"
    using 2 by (rule foreach_inv) (rule undo_inv_transfer)
  then show ?thesis
    using assms(2) 2 by (auto simp: apply_delta_in_place_def Let_def split: prod.splits option.splits)
qed

lemma rollback_one_cells:
  assumes "undo i = Some p"
  shows "l_cells (rollback_one undo i L) = (l_cells L)(i := p)"
  using assms by (auto simp: rollback_one_def split: option.splits)

lemma rollback_one_rest: "same_rest L0 L \<Longrightarrow> same_rest L0 (rollback_one undo i L)"
  by (auto simp: rollback_one_def split: option.splits)

lemma rollback_cells_eq:
  assumes "set order \<subseteq> dom undo"
  shows "l_cells (fold (rollback_one undo) order L) =
    (\<lambda>i. if i \<in> set order then the (undo i) else l_cells L i)"
  using assms
proof (induction order arbitrary: L)
  case (Cons i order)
  then obtain p where "undo i = Some p" by auto
  then show ?case using Cons by (auto simp: rollback_one_cells)
qed simp

lemma rollback_delta_cells:
  assumes "undo_inv L0 (L, undo)" "set order = dom undo"
  shows "l_cells (rollback_delta_from_undo order undo L) = l_cells L0"
    "same_rest L0 (rollback_delta_from_undo order undo L)"
proof -
  show "l_cells (rollback_delta_from_undo order undo L) = l_cells L0"
    using assms by (auto simp: rollback_delta_from_undo_def rollback_cells_eq undo_inv_def fun_eq_iff)
  have "same_rest L0 L" using assms(1) by (simp add: undo_inv_def)
  then show "same_rest L0 (rollback_delta_from_undo order undo L)"
    unfolding rollback_delta_from_undo_def
    by (induction order arbitrary: L) (auto intro: rollback_one_rest)
qed

lemma validate_created_ok:
  assumes "fst (foreach (validate_created L) cs m) = None"
  shows "(\<forall>c \<in> set cs. l_cells L (c_id c) = None) \<and>
    snd (foreach (validate_created L) cs m) = fold (\<lambda>c m. m(c_id c \<mapsto> c)) cs m"
  using assms by (induction cs arbitrary: m) (auto simp: validate_created_def split: if_splits)

lemma validate_delta_created:
  "validate_delta L d = None \<Longrightarrow> \<forall>c \<in> set (ld_created d). l_cells L (c_id c) = None"
  using validate_created_ok [of L "ld_created d" Map.empty]
  by (auto simp: validate_delta_def split: prod.splits option.splits)

section \<open>Rollback restores the public-key index\<close>

definition idx_list :: "ledger \<Rightarrow> bytes32 \<Rightarrow> cell_id list" where
  "idx_list L pk = (case l_pubkey_index L pk of None \<Rightarrow> [] | Some ids \<Rightarrow> ids)"

text \<open>The index lists, for every key, exactly the cells with that key, and no empty lists.\<close>

definition index_ok :: "ledger \<Rightarrow> bool" where
  "index_ok L \<longleftrightarrow>
     (\<forall>pk. l_pubkey_index L pk \<noteq> Some []) \<and>
     (\<forall>pk i. i \<in> set (idx_list L pk) \<longleftrightarrow> (\<exists>c. l_cells L i = Some c \<and> c_public_key c = pk))"

lemma idx_list_add:
  "idx_list (pubkey_index_add L pk i) = (idx_list L)(pk := idx_list L pk @ [i])"
  by (auto simp: idx_list_def pubkey_index_add_def split: option.splits)

lemma idx_list_remove:
  "idx_list (pubkey_index_remove L pk i) = (idx_list L)(pk := filter (\<lambda>c. c \<noteq> i) (idx_list L pk))"
  by (auto simp: idx_list_def pubkey_index_remove_def Let_def split: option.splits)

lemma idx_list_cells [simp]: "idx_list (L\<lparr>l_cells := m\<rparr>) = idx_list L"
  by (auto simp: idx_list_def)

lemma index_nonempty_add:
  "\<forall>p. l_pubkey_index L p \<noteq> Some [] \<Longrightarrow> \<forall>p. l_pubkey_index (pubkey_index_add L pk i) p \<noteq> Some []"
  by (auto simp: pubkey_index_add_def)

lemma index_nonempty_remove:
  "\<forall>p. l_pubkey_index L p \<noteq> Some [] \<Longrightarrow>
     \<forall>p. l_pubkey_index (pubkey_index_remove L pk i) p \<noteq> Some []"
  by (auto simp: pubkey_index_remove_def Let_def split: option.splits)

lemma index_eqI:
  assumes "\<forall>p. l_pubkey_index L p \<noteq> Some []" "\<forall>p. l_pubkey_index L' p \<noteq> Some []"
    "idx_list L = idx_list L'"
  shows "l_pubkey_index L = l_pubkey_index L'"
proof
  fix pk
  have "idx_list L pk = idx_list L' pk" using assms(3) by simp
  then show "l_pubkey_index L pk = l_pubkey_index L' pk"
    using assms(1,2) by (auto simp: idx_list_def split: option.splits)
qed

lemma same_restD:
  assumes "same_rest L L'" "l_cells L' = l_cells L" "l_pubkey_index L' = l_pubkey_index L"
  shows "L' = L"
proof -
  have "L' = L'\<lparr>l_cells := l_cells L', l_pubkey_index := l_pubkey_index L'\<rparr>" by simp
  also have "\<dots> = L" using assms(1) unfolding assms(2,3) same_rest_def .
  finally show ?thesis .
qed

lemma apply_field_updates_pk:
  "c_public_key (snd (foreach (apply_field_update i) us c)) = c_public_key c"
  by (rule foreach_inv [where P = "\<lambda>x. c_public_key x = c_public_key c"])
     (auto simp: apply_field_update_def split: prod.splits)

lemma apply_cell_delta_pk: "c_public_key (snd (apply_cell_delta E c d i)) = c_public_key c"
  using apply_field_updates_pk [of i "cd_field_updates d" "invalidate_leaf_cache c"]
  by (auto simp: apply_cell_delta_def Let_def invalidate_leaf_cache_def
      split: prod.splits option.splits)

text \<open>Created cells are still there under their own key, and noted as absent.\<close>

definition created_inv :: "cell list \<Rightarrow> ledger \<times> undo_map \<Rightarrow> bool" where
  "created_inv cs s \<longleftrightarrow>
     (\<forall>c \<in> set cs. snd s (c_id c) \<noteq> None \<and>
        (\<exists>c'. l_cells (fst s) (c_id c) = Some c' \<and> c_public_key c' = c_public_key c))"

definition keeps_keys :: "ledger \<times> undo_map \<Rightarrow> ledger \<times> undo_map \<Rightarrow> bool" where
  "keeps_keys s s' \<longleftrightarrow>
     idx_list (fst s') = idx_list (fst s) \<and> l_pubkey_index (fst s') = l_pubkey_index (fst s) \<and>
     (\<forall>i. snd s i \<noteq> None \<longrightarrow> snd s' i \<noteq> None) \<and>
     (\<forall>i. map_option c_public_key (l_cells (fst s') i) = map_option c_public_key (l_cells (fst s) i))"

lemma keeps_keys_refl [simp]: "keeps_keys s s"
  by (simp add: keeps_keys_def)

lemma keeps_keys_trans: "keeps_keys a b \<Longrightarrow> keeps_keys b c \<Longrightarrow> keeps_keys a c"
  by (simp add: keeps_keys_def)

lemma keeps_keys_write:
  assumes "l_cells L i = Some c" "c_public_key c' = c_public_key c" "\<And>j. undo j \<noteq> None \<Longrightarrow> undo' j \<noteq> None"
  shows "keeps_keys (L, undo) (L\<lparr>l_cells := (l_cells L)(i \<mapsto> c')\<rparr>, undo')"
  using assms by (auto simp: keeps_keys_def)

lemma undo_note_mono: "undo j \<noteq> None \<Longrightarrow> undo_note L i undo j \<noteq> None"
  by (auto simp: undo_note_def)

lemma keeps_keys_note: "keeps_keys (L, undo) (L, undo_note L i undo)"
  using undo_note_mono by (auto simp: keeps_keys_def)

lemma delta_update_keys: "keeps_keys s (snd (delta_update E u s))"
proof -
  obtain L undo i d where s: "s = (L, undo)" and u: "u = (i, d)" by (cases s; cases u)
  show ?thesis
  proof (cases "l_cells L i")
    case None
    then show ?thesis by (simp add: s u delta_update_def Let_def keeps_keys_note)
  next
    case (Some c)
    have "keeps_keys (L, undo) (L\<lparr>l_cells := (l_cells L)(i \<mapsto> snd (apply_cell_delta E c d i))\<rparr>,
        undo_note L i undo)"
      using undo_note_mono by (intro keeps_keys_write [OF Some apply_cell_delta_pk]) blast
    then show ?thesis using Some by (simp add: s u delta_update_def Let_def case_prod_beta)
  qed
qed

lemma balance_write_keys:
  assumes "l_cells L i = Some c"
  shows "keeps_keys (L, undo_note L i undo)
    (L\<lparr>l_cells := (l_cells L)(i \<mapsto> set_cell_balance b c)\<rparr>, undo_note L i undo)"
    "keeps_keys (L, undo_note L i undo)
    (L\<lparr>l_cells := (l_cells L)(i \<mapsto> invalidate_leaf_cache c)\<rparr>, undo_note L i undo)"
  using keeps_keys_write [OF assms, of "set_cell_balance b c"]
    keeps_keys_write [OF assms, of "invalidate_leaf_cache c"]
  by (simp_all add: set_cell_balance_def invalidate_leaf_cache_def)

lemma delta_transfer_keys: "keeps_keys s (snd (delta_transfer t s))"
proof -
  obtain L undo a b m where s: "s = (L, undo)" and t: "t = (a, b, m)" by (cases s; cases t)
  note note1 = keeps_keys_note [of L undo a]
  show ?thesis
  proof (cases "i64_try_from m")
    case None
    then show ?thesis by (simp add: s t delta_transfer_def)
  next
    case (Some amt)
    show ?thesis
    proof (cases "l_cells L a")
      case None
      then show ?thesis using Some note1 by (simp add: s t delta_transfer_def Let_def)
    next
      case (Some ca)
      let ?L1 = "L\<lparr>l_cells := (l_cells L)(a \<mapsto> set_cell_balance (st_balance (c_state ca) - amt) ca)\<rparr>"
      note w1 = keeps_keys_trans [OF note1 balance_write_keys(1) [OF Some, where undo = undo]]
      note n2 = keeps_keys_trans [OF w1 keeps_keys_note [where i = b]]
      show ?thesis
        using \<open>i64_try_from m = Some amt\<close> Some note1 n2
          keeps_keys_trans [OF n2 balance_write_keys(1) [where i = b]]
          keeps_keys_trans [OF n2 balance_write_keys(2) [where i = b]]
        by (auto simp: s t delta_transfer_def Let_def split: option.splits)
    qed
  qed
qed

lemma delta_create_index:
  "idx_list (fst (fold delta_create cs s)) pk =
     idx_list (fst s) pk @ map c_id (filter (\<lambda>c. c_public_key c = pk) cs)"
  by (induction cs arbitrary: s) (auto simp: delta_create_def Let_def idx_list_add split: prod.splits)

lemma delta_create_nonempty:
  "\<forall>p. l_pubkey_index (fst s) p \<noteq> Some [] \<Longrightarrow>
     \<forall>p. l_pubkey_index (fst (fold delta_create cs s)) p \<noteq> Some []"
proof (induction cs arbitrary: s)
  case (Cons c cs)
  have "\<forall>p. l_pubkey_index (fst (delta_create c s)) p \<noteq> Some []"
    using Cons.prems by (auto simp: delta_create_def Let_def pubkey_index_add_def split: prod.splits)
  then show ?case using Cons.IH by simp
qed simp

lemma delta_create_other:
  assumes "i \<notin> c_id ` set cs"
  shows "l_cells (fst (fold delta_create cs s)) i = l_cells (fst s) i"
  using assms by (induction cs arbitrary: s) (auto simp: delta_create_def Let_def split: prod.splits)

lemma delta_create_undo_mono:
  "snd s i \<noteq> None \<Longrightarrow> snd (fold delta_create cs s) i \<noteq> None"
proof (induction cs arbitrary: s)
  case (Cons c cs)
  have "snd (delta_create c s) i \<noteq> None"
    using Cons.prems by (auto simp: delta_create_def Let_def split: prod.splits)
  then show ?case using Cons.IH by simp
qed simp

lemma delta_create_created_inv:
  assumes "distinct (map c_id cs)"
  shows "created_inv cs (fold delta_create cs s)"
  using assms
proof (induction cs arbitrary: s)
  case (Cons c cs)
  have c: "l_cells (fst (delta_create c s)) (c_id c) = Some c" "snd (delta_create c s) (c_id c) \<noteq> None"
    by (auto simp: delta_create_def Let_def split: prod.splits)
  have "c_id c \<notin> c_id ` set cs" using Cons.prems by auto
  then show ?case
    using Cons.IH [of "delta_create c s"] Cons.prems c delta_create_other delta_create_undo_mono
    by (simp add: created_inv_def)
qed (simp add: created_inv_def)

lemma created_inv_keys: "created_inv cs s \<Longrightarrow> keeps_keys s s' \<Longrightarrow> created_inv cs s'"
  unfolding created_inv_def keeps_keys_def by (metis (no_types, lifting) map_option_eq_Some)

lemma in_place_failure_keys:
  assumes "apply_delta_in_place E d (L, Map.empty) = (Some e, s)"
  shows "keeps_keys (fold delta_create (ld_created d) (L, Map.empty)) s"
proof -
  let ?s1 = "fold delta_create (ld_created d) (L, Map.empty)"
  let ?r2 = "foreach (delta_update E) (ld_updated d) ?s1"
  have 2: "keeps_keys ?s1 (snd ?r2)"
    by (rule foreach_inv) (auto intro: keeps_keys_trans delta_update_keys)
  have "keeps_keys ?s1 (snd (foreach delta_transfer (ld_computron_transfers d) (snd ?r2)))"
    using 2 by (rule foreach_inv) (auto intro: keeps_keys_trans delta_transfer_keys)
  then show ?thesis
    using assms 2 by (auto simp: apply_delta_in_place_def Let_def split: prod.splits option.splits)
qed

lemma rollback_one_index:
  "idx_list (rollback_one undo i L) pk =
     filter (\<lambda>j. \<not> (j = i \<and> undo i = Some None \<and>
                     (\<exists>c. l_cells L i = Some c \<and> c_public_key c = pk))) (idx_list L pk)"
  by (auto simp: rollback_one_def idx_list_remove split: option.splits intro!: filter_cong)

lemma rollback_one_nonempty:
  "\<forall>p. l_pubkey_index L p \<noteq> Some [] \<Longrightarrow> \<forall>p. l_pubkey_index (rollback_one undo i L) p \<noteq> Some []"
  using index_nonempty_remove [of "L\<lparr>l_cells := (l_cells L)(i := None)\<rparr>"]
  by (auto simp: rollback_one_def split: option.splits)

lemma rollback_one_cells_other: "j \<noteq> i \<Longrightarrow> l_cells (rollback_one undo i L) j = l_cells L j"
  by (auto simp: rollback_one_def split: option.splits)

lemma rollback_index:
  assumes "distinct order"
  shows "idx_list (fold (rollback_one undo) order L) pk =
    filter (\<lambda>j. \<not> (j \<in> set order \<and> undo j = Some None \<and>
                    (\<exists>c. l_cells L j = Some c \<and> c_public_key c = pk))) (idx_list L pk)"
  using assms
proof (induction order arbitrary: L)
  case (Cons i order)
  let ?L = "rollback_one undo i L"
  have IH: "idx_list (fold (rollback_one undo) order ?L) pk =
      filter (\<lambda>j. \<not> (j \<in> set order \<and> undo j = Some None \<and>
        (\<exists>c. l_cells ?L j = Some c \<and> c_public_key c = pk))) (idx_list ?L pk)"
    using Cons by simp
  have other: "l_cells ?L j = l_cells L j" if "j \<in> set order" for j
    using that Cons.prems rollback_one_cells_other by (metis distinct.simps(2))
  show ?case
    unfolding fold_simps IH rollback_one_index filter_filter
    by (rule filter_cong [OF refl]) (use other in auto)
qed simp

lemma rollback_nonempty:
  "\<forall>p. l_pubkey_index L p \<noteq> Some [] \<Longrightarrow>
     \<forall>p. l_pubkey_index (fold (rollback_one undo) order L) p \<noteq> Some []"
proof (induction order arbitrary: L)
  case (Cons i order)
  show ?case unfolding fold_simps by (rule Cons.IH) (rule rollback_one_nonempty [OF Cons.prems])
qed simp

text \<open>A failed delta gives back the very ledger it started from.\<close>

lemma failed_delta_restores:
  assumes ok: "index_ok L" and v: "validate_delta L d = None" and dist: "distinct (map c_id (ld_created d))"
    and fail: "apply_delta_in_place E d (L, Map.empty) = (Some e, L', undo)"
    and ord: "distinct order" "set order = dom undo"
  shows "rollback_delta_from_undo order undo L' = L"
proof -
  let ?s1 = "fold delta_create (ld_created d) (L, Map.empty)"
  have inv: "undo_inv L (L', undo)"
    by (rule in_place_failure_undo_inv [OF validate_delta_created [OF v] fail])
  have keys: "keeps_keys ?s1 (L', undo)" by (rule in_place_failure_keys [OF fail])
  have cr: "created_inv (ld_created d) (L', undo)"
    using created_inv_keys [OF delta_create_created_inv [OF dist] keys] .
  have ne: "\<forall>p. l_pubkey_index L p \<noteq> Some []" using ok by (simp add: index_ok_def)
  have ne': "\<forall>p. l_pubkey_index L' p \<noteq> Some []"
    using keys delta_create_nonempty [of "(L, Map.empty)" "ld_created d"] ne by (simp add: keeps_keys_def)
  have idx': "idx_list L' pk = idx_list L pk @ map c_id (filter (\<lambda>c. c_public_key c = pk) (ld_created d))" for pk
    using keys delta_create_index [of "ld_created d" "(L, Map.empty)" pk] by (simp add: keeps_keys_def)
  have "idx_list (fold (rollback_one undo) order L') pk = idx_list L pk" for pk
  proof -
    let ?gone = "\<lambda>j. j \<in> set order \<and> undo j = Some None \<and>
        (\<exists>c. l_cells L' j = Some c \<and> c_public_key c = pk)"
    have old: "\<not> ?gone j" if "j \<in> set (idx_list L pk)" for j
      using that ok inv by (auto simp: index_ok_def undo_inv_def)
    have new: "?gone (c_id c)" if c: "c \<in> set (ld_created d)" "c_public_key c = pk" for c
    proof -
      obtain p where p: "undo (c_id c) = Some p" using cr c by (auto simp: created_inv_def)
      then have "p = l_cells L (c_id c)" using inv unfolding undo_inv_def by (metis snd_conv)
      then have "p = None" using validate_delta_created [OF v] c by simp
      then show ?thesis using p cr c ord(2) by (auto simp: created_inv_def)
    qed
    have "filter (\<lambda>j. \<not> ?gone j) (idx_list L pk) = idx_list L pk"
      using old by (simp add: filter_id_conv)
    moreover have "filter (\<lambda>j. \<not> ?gone j)
        (map c_id (filter (\<lambda>c. c_public_key c = pk) (ld_created d))) = []"
      using new by (auto simp: filter_empty_conv)
    ultimately show ?thesis by (simp only: rollback_index [OF ord(1)] idx' filter_append append_Nil2)
  qed
  then have "l_pubkey_index (rollback_delta_from_undo order undo L') = l_pubkey_index L"
    unfolding rollback_delta_from_undo_def
    using index_eqI [OF rollback_nonempty [OF ne'] ne] by (simp add: fun_eq_iff)
  then show ?thesis using same_restD rollback_delta_cells [OF inv ord(2)] by blast
qed

section \<open>Balances under a delta\<close>

definition cell_balance :: "cell \<Rightarrow> int" where
  "cell_balance c = st_balance (c_state c)"

definition total_balance :: "(cell_id \<rightharpoonup> cell) \<Rightarrow> int" where
  "total_balance cells = map_total cell_balance cells"

lemma cell_balance_set [simp]: "cell_balance (set_cell_balance b c) = b"
  by (simp add: cell_balance_def set_cell_balance_def)

lemma cell_balance_invalidate [simp]: "cell_balance (invalidate_leaf_cache c) = cell_balance c"
  by (simp add: cell_balance_def invalidate_leaf_cache_def)

lemma total_balance_write:
  assumes "finite (dom cells)" "cells i = Some c"
  shows "total_balance (cells(i \<mapsto> c')) = total_balance cells - cell_balance c + cell_balance c'"
  unfolding total_balance_def by (rule map_total_upd [OF assms])

lemma total_balance_new:
  assumes "finite (dom cells)" "cells i = None"
  shows "total_balance (cells(i \<mapsto> c)) = total_balance cells + cell_balance c"
  unfolding total_balance_def by (rule map_total_upd_new [OF assms])

lemma total_balance_remove:
  assumes "finite (dom cells)" "cells i = Some c"
  shows "total_balance (cells(i := None)) = total_balance cells - cell_balance c"
  unfolding total_balance_def by (rule map_total_remove [OF assms])

lemma field_updates_balance:
  "cell_balance (snd (foreach (apply_field_update i) us c)) = cell_balance c"
  by (rule foreach_inv [where P = "\<lambda>x. cell_balance x = cell_balance c"])
     (auto simp: apply_field_update_def cell_balance_def split: prod.splits)

lemma field_updates_result:
  "fst (foreach (apply_field_update i) us c) =
     map_option (InvalidFieldIndex i) (first_bad_index us)"
  by (induction us arbitrary: c) (auto simp: apply_field_update_def)

lemma increment_nonce_balance [simp]: "st_balance (snd (increment_nonce s)) = st_balance s"
  by (auto simp: increment_nonce_def split: option.splits)

text \<open>The state that reaches the balance step: fields written, nonce possibly advanced.\<close>

definition pre_balance_state :: "cell_id \<Rightarrow> cell \<Rightarrow> cell_state_delta \<Rightarrow> bool \<times> cell_state" where
  "pre_balance_state i c d =
     (let s = c_state (snd (foreach (apply_field_update i) (cd_field_updates d) (invalidate_leaf_cache c)))
      in if cd_nonce_increment d then increment_nonce s else (True, s))"

lemma pre_balance: "st_balance (snd (pre_balance_state i c d)) = cell_balance c"
  using field_updates_balance [of i "cd_field_updates d" "invalidate_leaf_cache c"]
  by (simp add: pre_balance_state_def Let_def cell_balance_def invalidate_leaf_cache_def)

lemma apply_cell_delta_None_iff:
  "fst (apply_cell_delta E c d i) = None \<longleftrightarrow>
     first_bad_index (cd_field_updates d) = None \<and> fst (pre_balance_state i c d) \<and>
     in_i64 (cell_balance c + cd_balance_change d) \<and>
     (0 \<le> cd_balance_change d \<or> 0 \<le> cell_balance c + cd_balance_change d)"
proof -
  have fst_eq: "fst (foreach (apply_field_update i) (cd_field_updates d) (invalidate_leaf_cache c)) = None \<longleftrightarrow>
      first_bad_index (cd_field_updates d) = None"
    by (simp add: field_updates_result)
  have "fst (apply_balance_change (snd (pre_balance_state i c d)) (cd_balance_change d)) \<longleftrightarrow>
      in_i64 (cell_balance c + cd_balance_change d) \<and>
      (0 \<le> cd_balance_change d \<or> 0 \<le> cell_balance c + cd_balance_change d)"
    unfolding apply_balance_change_def pre_balance [symmetric, of c i d]
    by (auto split: option.splits)
  then show ?thesis
    using fst_eq
    by (auto simp: apply_cell_delta_def pre_balance_state_def Let_def
        split: prod.splits option.splits if_splits)
qed

lemma apply_cell_delta_ok:
  assumes "fst (apply_cell_delta E c d i) = None"
  shows "cell_balance (snd (apply_cell_delta E c d i)) = cell_balance c + cd_balance_change d"
proof -
  have *: "st_balance st = cell_balance c + cd_balance_change d"
    if "apply_balance_change (snd (pre_balance_state i c d)) (cd_balance_change d) = (True, st)" for st
    using that pre_balance [of i c d] by (auto simp: apply_balance_change_ok)
  show ?thesis
    using assms
    by (auto simp: apply_cell_delta_def Let_def cell_balance_def pre_balance_state_def
        split: prod.splits option.splits if_splits
        intro!: * [unfolded pre_balance_state_def Let_def cell_balance_def])
qed

lemma apply_cell_delta_nonce:
  assumes "first_bad_index (cd_field_updates d) = None"
    "in_i64 (cell_balance c + cd_balance_change d)"
    "0 \<le> cd_balance_change d \<or> 0 \<le> cell_balance c + cd_balance_change d"
    "fst (apply_cell_delta E c d i) = Some e"
  shows "e = InvalidDelta ''nonce overflow''"
proof -
  have "\<not> fst (pre_balance_state i c d)"
    using assms apply_cell_delta_None_iff [of E c d i] by auto
  then show ?thesis
    using assms(1,4) field_updates_result [of i "cd_field_updates d" "invalidate_leaf_cache c"]
    by (auto simp: apply_cell_delta_def pre_balance_state_def Let_def
        split: prod.splits option.splits if_splits)
qed

lemma delta_update_ok:
  assumes "delta_update E (i, d) (L, undo) = (None, L', undo')"
  shows "\<exists>c c'. l_cells L i = Some c \<and> L' = L\<lparr>l_cells := (l_cells L)(i \<mapsto> c')\<rparr> \<and>
    cell_balance c' = cell_balance c + cd_balance_change d"
proof -
  obtain c where c: "l_cells L i = Some c"
    using assms by (auto simp: delta_update_def Let_def split: option.splits)
  then have "fst (apply_cell_delta E c d i) = None"
    and "L' = L\<lparr>l_cells := (l_cells L)(i \<mapsto> snd (apply_cell_delta E c d i))\<rparr>"
    using assms by (simp_all add: delta_update_def Let_def case_prod_beta)
  then show ?thesis using c apply_cell_delta_ok by blast
qed

lemma delta_transfer_ok:
  assumes "delta_transfer (a, b, m) (L, undo) = (None, L', undo')"
  shows "\<exists>ca cb m1. l_cells L a = Some ca \<and> int (unat m) \<le> cell_balance ca \<and>
    m1 = (l_cells L)(a \<mapsto> set_cell_balance (cell_balance ca - int (unat m)) ca) \<and>
    m1 b = Some cb \<and> in_i64 (cell_balance cb + int (unat m)) \<and>
    L' = L\<lparr>l_cells := m1(b \<mapsto> set_cell_balance (cell_balance cb + int (unat m)) cb)\<rparr>"
proof -
  obtain amt where amt: "i64_try_from m = Some amt"
    using assms by (auto simp: delta_transfer_def split: option.splits)
  note eq = i64_try_from_SomeD(1) [OF amt]
  obtain ca where ca: "l_cells L a = Some ca"
    using assms amt by (auto simp: delta_transfer_def Let_def split: option.splits)
  show ?thesis
    using assms amt ca
    by (auto simp: delta_transfer_def Let_def eq cell_balance_def
        split: option.splits if_splits)
qed

lemma delta_transfer_total:
  assumes "delta_transfer t (L, undo) = (None, L', undo')" "finite (dom (l_cells L))"
  shows "total_balance (l_cells L') = total_balance (l_cells L)" "finite (dom (l_cells L'))"
    "dom (l_cells L') = dom (l_cells L)"
proof -
  obtain a b m where t: "t = (a, b, m)" by (cases t)
  obtain ca cb m1 where c: "l_cells L a = Some ca"
    "m1 = (l_cells L)(a \<mapsto> set_cell_balance (cell_balance ca - int (unat m)) ca)" "m1 b = Some cb"
    "L' = L\<lparr>l_cells := m1(b \<mapsto> set_cell_balance (cell_balance cb + int (unat m)) cb)\<rparr>"
    using delta_transfer_ok [OF assms(1) [unfolded t]] by blast
  have fin: "finite (dom m1)" and d1: "dom m1 = dom (l_cells L)" using assms(2) c by auto
  have "total_balance (l_cells L') = total_balance m1 + int (unat m)"
    using total_balance_write [OF fin c(3)] by (simp add: c(4))
  also have "total_balance m1 = total_balance (l_cells L) - int (unat m)"
    unfolding c(2) total_balance_write [OF assms(2) c(1)] by simp
  finally show "total_balance (l_cells L') = total_balance (l_cells L)" by simp
  show d: "dom (l_cells L') = dom (l_cells L)" using c(3,4) d1 by auto
  then show "finite (dom (l_cells L'))" using assms(2) by simp
qed

lemma delta_updates_total:
  assumes "foreach (delta_update E) us (L, undo) = (None, L', undo')" "finite (dom (l_cells L))"
  shows "total_balance (l_cells L') =
      total_balance (l_cells L) + (\<Sum>u \<leftarrow> us. cd_balance_change (snd u)) \<and>
    finite (dom (l_cells L'))"
  using assms
proof (induction us arbitrary: L undo)
  case (Cons u us)
  obtain i d where u: "u = (i, d)" by (cases u)
  obtain L1 undo1 where step: "delta_update E u (L, undo) = (None, L1, undo1)"
    and rest: "foreach (delta_update E) us (L1, undo1) = (None, L', undo')"
    using Cons.prems(1) by (auto split: prod.splits option.splits)
  obtain c c' where c: "l_cells L i = Some c" "L1 = L\<lparr>l_cells := (l_cells L)(i \<mapsto> c')\<rparr>"
    "cell_balance c' = cell_balance c + cd_balance_change d"
    using delta_update_ok [OF step [unfolded u]] by blast
  have "total_balance (l_cells L1) = total_balance (l_cells L) + cd_balance_change d"
    using total_balance_write [OF Cons.prems(2) c(1), of c'] c by simp
  moreover have "finite (dom (l_cells L1))" using Cons.prems(2) c by simp
  ultimately show ?case using Cons.IH [OF rest] u by simp
qed simp

lemma delta_transfers_total:
  assumes "foreach delta_transfer ts (L, undo) = (None, L', undo')" "finite (dom (l_cells L))"
  shows "total_balance (l_cells L') = total_balance (l_cells L) \<and> finite (dom (l_cells L'))"
  using assms
proof (induction ts arbitrary: L undo)
  case (Cons t ts)
  obtain L1 undo1 where step: "delta_transfer t (L, undo) = (None, L1, undo1)"
    and rest: "foreach delta_transfer ts (L1, undo1) = (None, L', undo')"
    using Cons.prems(1) by (auto split: prod.splits option.splits)
  show ?case
    using Cons.IH [OF rest] delta_transfer_total [OF step Cons.prems(2)] by simp
qed simp

lemma delta_creates_cells:
  "l_cells (fst (fold delta_create cs s)) = fold (\<lambda>c m. m(c_id c \<mapsto> c)) cs (l_cells (fst s))"
  by (induction cs arbitrary: s) (simp_all add: delta_create_def Let_def case_prod_beta)

lemma creates_total:
  assumes "distinct (map c_id cs)" "\<forall>c \<in> set cs. m (c_id c) = None" "finite (dom m)"
  shows "total_balance (fold (\<lambda>c m. m(c_id c \<mapsto> c)) cs m) =
      total_balance m + (\<Sum>c \<leftarrow> cs. cell_balance c) \<and>
    finite (dom (fold (\<lambda>c m. m(c_id c \<mapsto> c)) cs m))"
  using assms
proof (induction cs arbitrary: m)
  case (Cons c cs)
  have "\<forall>x \<in> set cs. (m(c_id c \<mapsto> c)) (c_id x) = None"
    using Cons.prems(1,2) by (auto simp: image_iff)
  then show ?case
    using Cons total_balance_new [OF Cons.prems(3), of "c_id c" c] by (simp del: fun_upd_apply)
qed simp

lemma apply_delta_total:
  assumes "apply_delta E order L d = (Inr (), L')" "ld_removed d = []"
    "distinct (map c_id (ld_created d))" "finite (dom (l_cells L))"
  shows "total_balance (l_cells L') = total_balance (l_cells L) +
    (\<Sum>c \<leftarrow> ld_created d. cell_balance c) + (\<Sum>u \<leftarrow> ld_updated d. cd_balance_change (snd u))"
proof -
  let ?s1 = "fold delta_create (ld_created d) (L, Map.empty)"
  have v: "validate_delta L d = None"
    using assms(1) by (auto simp: apply_delta_def split: option.splits)
  obtain L2 u2 L3 u3 where
    2: "foreach (delta_update E) (ld_updated d) (fst ?s1, snd ?s1) = (None, L2, u2)" and
    3: "foreach delta_transfer (ld_computron_transfers d) (L2, u2) = (None, L3, u3)" and
    4: "l_cells L' = l_cells L3"
    using assms(1,2) v
    by (auto simp: apply_delta_def apply_delta_in_place_def Let_def split: prod.splits option.splits)
  have 1: "total_balance (l_cells (fst ?s1)) =
      total_balance (l_cells L) + (\<Sum>c \<leftarrow> ld_created d. cell_balance c)"
    "finite (dom (l_cells (fst ?s1)))"
    using creates_total [OF assms(3) validate_delta_created [OF v] assms(4)]
    by (simp_all add: delta_creates_cells)
  show ?thesis
    using delta_transfers_total [OF 3] delta_updates_total [OF 2 1(2)] 1(1) 4 by simp
qed

section \<open>Validation is complete up to nonce overflow\<close>

text \<open>
  The running balances of the validator simulate the balances in the cells as the delta is applied:
  \<open>running lookup rb i\<close> is what the validator believes, and it is what the cell holds.
\<close>

definition running :: "(cell_id \<Rightarrow> cell option) \<Rightarrow> balances \<Rightarrow> cell_id \<Rightarrow> int option" where
  "running lookup rb i =
     (case rb i of Some b \<Rightarrow> Some b | None \<Rightarrow> map_option cell_balance (lookup i))"

definition simulates :: "(cell_id \<Rightarrow> cell option) \<Rightarrow> balances \<Rightarrow> ledger \<Rightarrow> bool" where
  "simulates lookup rb L \<longleftrightarrow>
     (\<forall>i. running lookup rb i = map_option cell_balance (l_cells L i)) \<and>
     (\<forall>i. lookup i = None \<longleftrightarrow> l_cells L i = None)"

lemma get_running_balance_eq:
  "fst (get_running_balance lookup rb i) = running lookup rb i"
  "running lookup (snd (get_running_balance lookup rb i)) = running lookup rb"
  by (auto simp: get_running_balance_def running_def cell_balance_def fun_eq_iff split: option.splits)

lemma running_upd: "running lookup (rb(i \<mapsto> b)) = (running lookup rb)(i \<mapsto> b)"
  by (auto simp: running_def)

lemma simulates_write:
  assumes "simulates lookup rb L" "l_cells L i = Some c" "cell_balance c' = b"
  shows "simulates lookup (rb(i \<mapsto> b)) (L\<lparr>l_cells := (l_cells L)(i \<mapsto> c')\<rparr>)"
  using assms by (auto simp: simulates_def running_upd)

lemma simulates_cached:
  "simulates lookup rb L \<Longrightarrow> simulates lookup (snd (get_running_balance lookup rb i)) L"
  by (simp add: simulates_def get_running_balance_eq)

lemma validate_update_step:
  assumes sim: "simulates lookup rb L" and v: "validate_update lookup (i, d) rb = (None, rb')"
  obtains c where "l_cells L i = Some c" "first_bad_index (cd_field_updates d) = None"
    "in_i64 (cell_balance c + cd_balance_change d)"
    "0 \<le> cd_balance_change d \<or> 0 \<le> cell_balance c + cd_balance_change d"
    "rb' = (snd (get_running_balance lookup rb i))(i \<mapsto> cell_balance c + cd_balance_change d)"
proof -
  obtain lc where lc: "lookup i = Some lc"
    using v by (auto simp: validate_update_def split: option.splits)
  have "lookup i = None \<longleftrightarrow> l_cells L i = None" using sim unfolding simulates_def by blast
  then obtain c where c: "l_cells L i = Some c" using lc by auto
  have "fst (get_running_balance lookup rb i) = Some (cell_balance c)"
    using sim c by (simp add: get_running_balance_eq simulates_def)
  then show ?thesis
    using v lc c that [OF c]
    by (auto simp: validate_update_def Let_def case_prod_beta
        split: option.splits if_splits)
qed

lemma validate_update_sim:
  assumes "simulates lookup rb L" "validate_update lookup u rb = (None, rb')"
    "delta_update E u (L, undo) = (e, L', undo')"
  shows "(e = None \<and> simulates lookup rb' L') \<or> e = Some (InvalidDelta ''nonce overflow'')"
proof -
  obtain i d where u: "u = (i, d)" by (cases u)
  obtain c where c: "l_cells L i = Some c" "first_bad_index (cd_field_updates d) = None"
    "in_i64 (cell_balance c + cd_balance_change d)"
    "0 \<le> cd_balance_change d \<or> 0 \<le> cell_balance c + cd_balance_change d"
    "rb' = (snd (get_running_balance lookup rb i))(i \<mapsto> cell_balance c + cd_balance_change d)"
    using validate_update_step [OF assms(1) assms(2) [unfolded u]] by blast
  have e: "e = fst (apply_cell_delta E c d i)"
    "L' = L\<lparr>l_cells := (l_cells L)(i \<mapsto> snd (apply_cell_delta E c d i))\<rparr>"
    using assms(3) c(1) by (simp_all add: u delta_update_def Let_def case_prod_beta)
  show ?thesis
  proof (cases e)
    case None
    then have "cell_balance (snd (apply_cell_delta E c d i)) = cell_balance c + cd_balance_change d"
      using apply_cell_delta_ok e(1) by metis
    then show ?thesis
      using None simulates_write [OF simulates_cached [OF assms(1)] c(1)] e(2) c(5) by simp
  next
    case (Some x)
    then show ?thesis using apply_cell_delta_nonce [OF c(2,3,4)] e(1) by metis
  qed
qed

lemma validate_transfer_sim:
  assumes sim: "simulates lookup rb L" and v: "validate_transfer lookup t rb = (None, rb')"
  shows "\<exists>L' undo'. delta_transfer t (L, undo) = (None, L', undo') \<and> simulates lookup rb' L'"
proof -
  obtain a b m where t: "t = (a, b, m)" by (cases t)
  define rb1 where "rb1 = snd (get_running_balance lookup rb a)"
  obtain amt where amt: "i64_try_from m = Some amt"
    using v by (auto simp: t validate_transfer_def split: option.splits)
  obtain fb where fb: "running lookup rb a = Some fb" "amt \<le> fb"
    using v amt get_running_balance_eq(1) [of lookup rb a]
    by (auto simp: t validate_transfer_def Let_def case_prod_beta split: option.splits if_splits)
  obtain ca where ca: "l_cells L a = Some ca" "cell_balance ca = fb"
    using sim fb(1) by (auto simp: simulates_def)
  define rb2 where "rb2 = rb1(a \<mapsto> fb - amt)"
  define L1 where "L1 = L\<lparr>l_cells := (l_cells L)(a \<mapsto> set_cell_balance (fb - amt) ca)\<rparr>"
  have sim1: "simulates lookup rb2 L1"
    unfolding rb2_def L1_def rb1_def
    by (rule simulates_write [OF simulates_cached [OF sim] ca(1)]) simp
  have fst_a: "fst (get_running_balance lookup rb a) = Some fb"
    using fb(1) by (simp add: get_running_balance_eq)
  have v2: "(case fst (get_running_balance lookup rb2 b) of
        None \<Rightarrow> (Some (TransferDestNotFound b), snd (get_running_balance lookup rb2 b))
      | Some to_balance \<Rightarrow>
          (case checked_add_i64 to_balance amt of
             None \<Rightarrow> (Some (BalanceOverflow b), snd (get_running_balance lookup rb2 b))
           | Some new_to \<Rightarrow> (None, (snd (get_running_balance lookup rb2 b))(b \<mapsto> new_to)))) = (None, rb')"
    using v amt fst_a fb(2) unfolding rb2_def rb1_def
    by (cases "get_running_balance lookup rb a") (simp add: t validate_transfer_def Let_def case_prod_beta cong: option.case_cong)
  then obtain tb where tb: "running lookup rb2 b = Some tb" "in_i64 (tb + amt)"
    "rb' = (snd (get_running_balance lookup rb2 b))(b \<mapsto> tb + amt)"
    using get_running_balance_eq(1) [of lookup rb2 b] by (auto split: option.splits)
  obtain cb where cb: "l_cells L1 b = Some cb" "cell_balance cb = tb"
    using sim1 tb(1) by (auto simp: simulates_def)
  have "simulates lookup rb' (L1\<lparr>l_cells := (l_cells L1)(b \<mapsto> set_cell_balance (tb + amt) cb)\<rparr>)"
    unfolding tb(3) by (rule simulates_write [OF simulates_cached [OF sim1] cb(1)]) simp
  moreover have "st_balance (c_state ca) = fb" "st_balance (c_state cb) = tb"
    using ca(2) cb(2) by (simp_all add: cell_balance_def)
  moreover have "\<not> fb < amt" using fb(2) by simp
  ultimately show ?thesis
    using amt ca(1) cb(1) tb(2)
    by (simp add: t delta_transfer_def Let_def L1_def [symmetric] checked_add_i64_def)
qed

lemma validate_updates_sim:
  assumes "simulates lookup rb L" "foreach (validate_update lookup) us rb = (None, rb')"
    "foreach (delta_update E) us (L, undo) = (e, L', undo')"
  shows "(e = None \<and> simulates lookup rb' L') \<or> e = Some (InvalidDelta ''nonce overflow'')"
  using assms
proof (induction us arbitrary: rb L undo)
  case (Cons u us)
  obtain rb1 where v: "validate_update lookup u rb = (None, rb1)"
    "foreach (validate_update lookup) us rb1 = (None, rb')"
    using Cons.prems(2) by (auto split: prod.splits option.splits)
  obtain e1 L1 undo1 where s: "delta_update E u (L, undo) = (e1, L1, undo1)"
    by (cases "delta_update E u (L, undo)") auto
  show ?case
    using validate_update_sim [OF Cons.prems(1) v(1) s] Cons.IH [OF _ v(2)] Cons.prems(3) s by auto
qed auto

lemma validate_transfers_sim:
  assumes "simulates lookup rb L" "fst (foreach (validate_transfer lookup) ts rb) = None"
  shows "fst (foreach delta_transfer ts (L, undo)) = None"
  using assms
proof (induction ts arbitrary: rb L undo)
  case (Cons t ts)
  obtain rb1 where v: "validate_transfer lookup t rb = (None, rb1)"
    "fst (foreach (validate_transfer lookup) ts rb1) = None"
    using Cons.prems(2) by (auto split: prod.splits option.splits)
  obtain L1 undo1 where "delta_transfer t (L, undo) = (None, L1, undo1)" "simulates lookup rb1 L1"
    using validate_transfer_sim [OF Cons.prems(1) v(1)] by blast
  then show ?case using Cons.IH v(2) by simp
qed simp

lemma created_lookup:
  assumes "\<forall>c \<in> set cs. l_cells L (c_id c) = None"
  shows "delta_lookup L (fold (\<lambda>c m. m(c_id c \<mapsto> c)) cs Map.empty) =
    fold (\<lambda>c m. m(c_id c \<mapsto> c)) cs (l_cells L)"
proof -
  have gen: "fold (\<lambda>c m. m(c_id c \<mapsto> c)) cs (m ++ n) = m ++ fold (\<lambda>c m. m(c_id c \<mapsto> c)) cs n"
    for m n :: "cell_id \<rightharpoonup> cell"
    by (induction cs arbitrary: n) (simp_all del: map_add_upd add: map_add_upd [symmetric])
  have none: "fold (\<lambda>c m. m(c_id c \<mapsto> c)) cs Map.empty i = None" if "l_cells L i \<noteq> None" for i
  proof -
    have "i \<notin> c_id ` set cs" using that assms by auto
    then show ?thesis
      using delta_create_other [of i cs "(L\<lparr>l_cells := Map.empty\<rparr>, Map.empty)"]
      by (simp add: delta_creates_cells)
  qed
  show ?thesis
    using gen [of "l_cells L" Map.empty] none
    by (auto simp: delta_lookup_def fun_eq_iff map_add_def split: option.splits)
qed

lemma validated_only_nonce:
  assumes v: "validate_delta L d = None"
    and f: "apply_delta_in_place E d (L, Map.empty) = (Some e, s)"
  shows "e = InvalidDelta ''nonce overflow''"
proof -
  define created where "created = fold (\<lambda>c m. m(c_id c \<mapsto> c)) (ld_created d) (Map.empty :: cell_id \<rightharpoonup> cell)"
  let ?s1 = "fold delta_create (ld_created d) (L, Map.empty)"
  let ?look = "delta_lookup L created"
  have fresh: "\<forall>c \<in> set (ld_created d). l_cells L (c_id c) = None"
    by (rule validate_delta_created [OF v])
  have "foreach (validate_created L) (ld_created d) Map.empty = (None, created)"
    using v validate_created_ok [of L "ld_created d" Map.empty]
    by (auto simp: validate_delta_def created_def split: prod.splits option.splits)
  then obtain rb where rb: "foreach (validate_update ?look) (ld_updated d) Map.empty = (None, rb)"
    "fst (foreach (validate_transfer ?look) (ld_computron_transfers d) rb) = None"
    using v by (auto simp: validate_delta_def split: prod.splits option.splits)
  have "l_cells (fst ?s1) = ?look" using created_lookup [OF fresh] by (simp add: delta_creates_cells created_def)
  then have sim: "simulates ?look Map.empty (fst ?s1)" by (simp add: simulates_def running_def)
  obtain e2 L2 u2 where 2: "foreach (delta_update E) (ld_updated d) (fst ?s1, snd ?s1) = (e2, L2, u2)"
    by (cases "foreach (delta_update E) (ld_updated d) (fst ?s1, snd ?s1)") auto
  from validate_updates_sim [OF sim rb(1) 2] show ?thesis
    using f 2 validate_transfers_sim [OF _ rb(2), of L2 u2]
    by (auto simp: apply_delta_in_place_def Let_def split: prod.splits option.splits)
qed

section \<open>Properties of deltas\<close>

text \<open>The order in which a hash map yields its keys: every key of a finite map once.\<close>

definition enumerates :: "(('k \<rightharpoonup> 'v) \<Rightarrow> 'k list) \<Rightarrow> bool" where
  "enumerates order \<longleftrightarrow>
     (\<forall>m. finite (dom m) \<longrightarrow> distinct (order m) \<and> set (order m) = dom m)"

lemma enumerates_sorted: "enumerates (\<lambda>m :: 'k :: linorder \<rightharpoonup> 'v. sorted_list_of_set (dom m))"
  by (simp add: enumerates_def)

lemma undo_note_finite: "finite (dom undo) \<Longrightarrow> finite (dom (undo_note L i undo))"
  by (simp add: undo_note_def)

lemma delta_create_finite: "finite (dom (snd s)) \<Longrightarrow> finite (dom (snd (delta_create c s)))"
  by (auto simp: delta_create_def Let_def split: prod.splits)

lemma delta_update_finite: "finite (dom (snd s)) \<Longrightarrow> finite (dom (snd (snd (delta_update E u s))))"
  by (auto simp: delta_update_def Let_def undo_note_finite split: prod.splits option.splits)

lemma delta_transfer_finite: "finite (dom (snd s)) \<Longrightarrow> finite (dom (snd (snd (delta_transfer t s))))"
  by (auto simp: delta_transfer_def Let_def undo_note_finite split: prod.splits option.splits)

lemma delta_remove_finite: "finite (dom (snd s)) \<Longrightarrow> finite (dom (snd (delta_remove i s)))"
  by (auto simp: delta_remove_def Let_def undo_note_finite split: prod.splits option.splits)

lemma delta_folds_finite:
  "finite (dom (snd s)) \<Longrightarrow> finite (dom (snd (fold delta_create cs s)))"
  "finite (dom (snd s)) \<Longrightarrow> finite (dom (snd (fold delta_remove is s)))"
  "finite (dom (snd s)) \<Longrightarrow> finite (dom (snd (snd (foreach (delta_update E) us s))))"
  "finite (dom (snd s)) \<Longrightarrow> finite (dom (snd (snd (foreach delta_transfer ts s))))"
proof -
  show "finite (dom (snd s)) \<Longrightarrow> finite (dom (snd (fold delta_create cs s)))"
    by (induction cs arbitrary: s) (simp_all add: delta_create_finite)
  show "finite (dom (snd s)) \<Longrightarrow> finite (dom (snd (fold delta_remove is s)))"
    by (induction "is" arbitrary: s) (simp_all add: delta_remove_finite)
  show "finite (dom (snd s)) \<Longrightarrow> finite (dom (snd (snd (foreach (delta_update E) us s))))"
    by (rule foreach_inv [where P = "\<lambda>s. finite (dom (snd s))"]) (simp_all add: delta_update_finite)
  show "finite (dom (snd s)) \<Longrightarrow> finite (dom (snd (snd (foreach delta_transfer ts s))))"
    by (rule foreach_inv [where P = "\<lambda>s. finite (dom (snd s))"]) (simp_all add: delta_transfer_finite)
qed

lemma in_place_finite:
  assumes "apply_delta_in_place E d (L, Map.empty) = (e, L', undo)"
  shows "finite (dom undo)"
proof -
  let ?s1 = "fold delta_create (ld_created d) (L, Map.empty)"
  let ?r2 = "foreach (delta_update E) (ld_updated d) ?s1"
  let ?r3 = "foreach delta_transfer (ld_computron_transfers d) (snd ?r2)"
  have 1: "finite (dom (snd ?s1))" by (rule delta_folds_finite) simp
  have 2: "finite (dom (snd (snd ?r2)))" by (rule delta_folds_finite(3) [OF 1])
  have 3: "finite (dom (snd (snd ?r3)))" by (rule delta_folds_finite(4) [OF 2])
  show ?thesis
    using assms 2 3 delta_folds_finite(2) [OF 3, of "ld_removed d"]
    by (auto simp: apply_delta_in_place_def Let_def split: prod.splits option.splits)
qed

lemma apply_delta_failed:
  assumes "index_ok L" and "distinct (map c_id (ld_created d))" and "enumerates order"
    and "apply_delta E order L d = (Inl e, L')"
  shows "L' = L"
proof (cases "validate_delta L d")
  case None
  obtain e' L1 undo where ip: "apply_delta_in_place E d (L, Map.empty) = (e', L1, undo)"
    by (cases "apply_delta_in_place E d (L, Map.empty)") auto
  have e: "e' = Some e" "L' = rollback_delta_from_undo (order undo) undo L1"
    using assms(4) None ip by (auto simp: apply_delta_def split: option.splits)
  have "distinct (order undo)" "set (order undo) = dom undo"
    using assms(3) in_place_finite [OF ip] by (simp_all add: enumerates_def)
  then show ?thesis
    using failed_delta_restores [OF assms(1) None assms(2)] ip e by simp
qed (use assms(4) in \<open>simp add: apply_delta_def\<close>)


text \<open>The validator is complete up to nonce overflow: with its running balances it foresees every
  other error, so the only failure that can reach the rollback path is the overflow of a nonce.\<close>

theorem validated_delta_fails_only_on_nonce:
  assumes "validate_delta L d = None" and "fst (apply_delta E order L d) = Inl e"
  shows "e = InvalidDelta ''nonce overflow''"
proof -
  obtain e' s where ip: "apply_delta_in_place E d (L, Map.empty) = (e', s)"
    by (cases "apply_delta_in_place E d (L, Map.empty)")
  then have "e' = Some e" using assms by (auto simp: apply_delta_def split: option.splits prod.splits)
  then show ?thesis using validated_only_nonce [OF assms(1)] ip by simp
qed

text \<open>Conservation: a successful delta without removals changes the sum of all balances by
  exactly the balances of the created cells and the declared balance changes. Computron transfers,
  self-transfers included, move value and neither mint nor burn it.\<close>

theorem delta_conservation:
  assumes "apply_delta E order L d = (Inr (), L')" and "ld_removed d = []"
    and "distinct (map c_id (ld_created d))" and "finite (dom (l_cells L))"
  shows "total_balance (l_cells L') = total_balance (l_cells L) +
    (\<Sum>c \<leftarrow> ld_created d. cell_balance c) + (\<Sum>u \<leftarrow> ld_updated d. cd_balance_change (snd u))"
  by (rule apply_delta_total [OF assms])

section \<open>Witnesses\<close>

text \<open>Two cells; a delta that credits the first, moves value to the second and bumps a nonce.\<close>

definition demo_account :: "cell_id \<Rightarrow> int \<Rightarrow> u64 \<Rightarrow> cell" where
  "demo_account i b n = demo_cell\<lparr>c_id := i, c_public_key := i,
     c_state := (cell_state_new demo_crypto b)\<lparr>st_nonce := n\<rparr>\<rparr>"

definition demo_ledger :: "u64 \<Rightarrow> ledger" where
  "demo_ledger n = (ledger_new demo_crypto)\<lparr>
     l_cells := [1 \<mapsto> demo_account 1 10 n, 2 \<mapsto> demo_account 2 5 0],
     l_pubkey_index := [1 \<mapsto> [1], 2 \<mapsto> [2]]\<rparr>"

definition demo_delta :: ledger_delta where
  "demo_delta = \<lparr>ld_created = [demo_account 3 7 0],
     ld_updated = [(1, cell_state_delta_empty\<lparr>cd_nonce_increment := True, cd_balance_change := 4\<rparr>)],
     ld_computron_transfers = [(1, 2, 6)], ld_removed = []\<rparr>"

abbreviation demo_order :: "undo_map \<Rightarrow> cell_id list" where
  "demo_order \<equiv> \<lambda>m. sorted_list_of_set (dom m)"

lemmas demo_delta_simps =
  apply_delta_def apply_delta_in_place_def validate_delta_def demo_delta_def validate_created_def
  validate_update_def validate_transfer_def delta_lookup_def get_running_balance_def demo_ledger_def
  demo_account_def demo_cell_def cell_new_def cell_state_new_def cell_state_delta_empty_def
  delta_create_def delta_update_def delta_transfer_def undo_note_def pubkey_index_add_def
  apply_cell_delta_def increment_nonce_def apply_balance_change_def invalidate_leaf_cache_def
  checked_add_i64_def in_i64_def i64_try_from_def set_cell_balance_def
  checked_add_word_def

lemma demo_index_ok: "index_ok (demo_ledger n)"
  by (auto simp: index_ok_def idx_list_def demo_ledger_def demo_account_def ledger_new_def)

lemma demo_validates: "validate_delta (demo_ledger n) demo_delta = None"
  by (simp add: demo_delta_simps Let_def)

lemma demo_fails: "fst (apply_delta demo_crypto demo_order (demo_ledger 18446744073709551615) demo_delta) =
    Inl (InvalidDelta ''nonce overflow'')"
  using demo_validates [of 18446744073709551615]
  by (simp add: demo_delta_simps Let_def)

lemma demo_succeeds: "fst (apply_delta demo_crypto demo_order (demo_ledger 0) demo_delta) = Inr ()"
  using demo_validates [of 0]
  by (simp add: demo_delta_simps Let_def)


theorem validated_delta_fails_only_on_nonce_witness:
  "\<exists>e. fst (apply_delta demo_crypto demo_order (demo_ledger 18446744073709551615) demo_delta) = Inl e \<and>
     e = InvalidDelta ''nonce overflow''"
  using validated_delta_fails_only_on_nonce [OF demo_validates demo_fails] demo_fails by blast

theorem delta_conservation_witness:
  "total_balance (l_cells (demo_ledger 0)) + 7 + 4 =
     total_balance (l_cells (snd (apply_delta demo_crypto demo_order (demo_ledger 0) demo_delta)))"
proof -
  let ?r = "apply_delta demo_crypto demo_order (demo_ledger 0) demo_delta"
  have "?r = (Inr (), snd ?r)" using demo_succeeds by (metis prod.collapse)
  moreover have "ld_removed demo_delta = []" "distinct (map c_id (ld_created demo_delta))"
    "finite (dom (l_cells (demo_ledger 0)))"
    by (simp_all add: demo_delta_def demo_ledger_def)
  ultimately have "total_balance (l_cells (snd ?r)) = total_balance (l_cells (demo_ledger 0)) +
      (\<Sum>c \<leftarrow> ld_created demo_delta. cell_balance c) +
      (\<Sum>u \<leftarrow> ld_updated demo_delta. cd_balance_change (snd u))"
    by (rule delta_conservation)
  then show ?thesis
    by (simp add: demo_delta_def demo_account_def cell_balance_def cell_state_new_def)
qed

section \<open>Digest memos of created cells\<close>

text \<open>A delta trusts the digest memo a created cell arrives with: on an empty ledger the root after
  creating \<open>c\<close> is whatever the memo holds, although the commitment of \<open>c\<close> may differ. \<open>insert_cell\<close>
  invalidates the memo of the same cell, so there the root is its commitment.\<close>

theorem delta_trusts_created_memo:
  assumes "c_leaf_cache c = Some d"
  shows "fst (ledger_root E (snd (apply_delta E order (ledger_new E)
      (ledger_delta_new\<lparr>ld_created := [c]\<rparr>)))) = d \<and>
    fst (ledger_root E (snd (insert_cell (ledger_new E) c))) = compute_canonical_state_commitment E c"
  using assms
  by (simp add: apply_delta_def validate_delta_def validate_created_def ledger_delta_new_def
        ledger_new_def apply_delta_in_place_def delta_create_def pubkey_index_add_def delta_touch_def
        touch_structural_def ledger_root_def materialize_def rebuild_tree_def Let_def
        cached_leaf_digest_def insert_cell_def journal_cell_def invalidate_leaf_cache_def
        del: fun_upd_apply)
     (simp add: Let_def)

theorem delta_trusts_created_memo_witness:
  "fst (ledger_root demo_cell_crypto (snd (apply_delta demo_cell_crypto demo_order (ledger_new demo_cell_crypto)
     (ledger_delta_new\<lparr>ld_created := [demo_cell\<lparr>c_leaf_cache := Some 3\<rparr>]\<rparr>)))) = 3 \<and>
   compute_canonical_state_commitment demo_cell_crypto demo_cell = 0"
  using delta_trusts_created_memo [of "demo_cell\<lparr>c_leaf_cache := Some 3\<rparr>" 3 demo_cell_crypto demo_order]
  by (simp add: compute_canonical_state_commitment_def demo_cell_crypto_def crypto.extend_def demo_crypto_def)

text \<open>A delta may create the same cell twice: the second creation replaces the first, and the key of the first
  stays in the public-key index, where it leads to a cell with another key.\<close>

lemma delta_creates_twice:
  assumes "c_id d = c_id c" "c_public_key d \<noteq> c_public_key c"
  shows "let (r, L) = apply_delta E order (ledger_new E) (ledger_delta_new\<lparr>ld_created := [c, d]\<rparr>) in
    r = Inr () \<and> l_cells L (c_id c) = Some d \<and> cell_by_pubkey L (c_public_key c) = Some d"
  using assms
  by (simp add: apply_delta_def validate_delta_def validate_created_def ledger_delta_new_def
      ledger_new_def apply_delta_in_place_def delta_create_def pubkey_index_add_def delta_touch_def
      touch_structural_def cell_by_pubkey_def Let_def)

section \<open>Grants in deltas\<close>

text \<open>A delta grants more than it carries: a capability reference whose effect mask refuses an effect
  is installed without its mask, so the cell that receives it may perform the effect.
  (Grants go through \<open>grant_full\<close>, which keeps target, permissions, breadstuff and expiry only.)\<close>

theorem delta_grant_drops_facet:
  assumes "apply_cell_delta E c d i = (None, c')" and "cd_capability_grants d = [r]"
    and "cd_capability_revocations d = []"
    and "unat (cs_next_slot (c_capabilities c)) + 1 < 2 ^ 32"
    and "cr_permissions r \<noteq> Impossible" and "unexpired (cr_expires_at r) h"
    and "\<not> is_effect_permitted (cr_allowed_effects r) effect_bit"
  shows "permits_effect_at (c_capabilities c') (cr_target r) h effect_bit"
proof -
  have same: "c_capabilities (snd (foreach (apply_field_update i) us x)) = c_capabilities x" for us x
    by (rule foreach_inv [where P = "\<lambda>y. c_capabilities y = c_capabilities x"])
       (auto simp: apply_field_update_def split: prod.splits)
  have c': "c_capabilities c' = apply_delta_grant E r (c_capabilities c)"
    using assms(1-3) same [of "cd_field_updates d" "invalidate_leaf_cache c"]
    by (auto simp: apply_cell_delta_def Let_def invalidate_leaf_cache_def split: prod.splits option.splits if_splits)
  have "checked_add_word (cs_next_slot (c_capabilities c)) 1 \<noteq> None"
    using assms(4) by (simp add: checked_add_word_def)
  then show ?thesis
    unfolding c' using assms(5,6)
    by (auto simp: apply_delta_grant_def grant_full_def clist_push_def invalidate_cap_root_cache_def Let_def
        permits_effect_at_def)
qed

theorem delta_grant_drops_facet_witness:
  "permits_effect_at (c_capabilities (snd (apply_cell_delta demo_crypto demo_cell
     (cell_state_delta_empty\<lparr>cd_capability_grants := [\<lparr>cr_target = 9, cr_slot = 0, cr_permissions = AuthNone,
        cr_breadstuff = None, cr_expires_at = None, cr_allowed_effects = Some 0, cr_stored_epoch = None,
        cr_provenance = 0\<rparr>]\<rparr>) 0))) 9 5 EFFECT_TRANSFER"
proof -
  let ?r = "\<lparr>cr_target = 9, cr_slot = 0, cr_permissions = AuthNone, cr_breadstuff = None, cr_expires_at = None,
    cr_allowed_effects = Some 0, cr_stored_epoch = None, cr_provenance = 0\<rparr>"
  let ?d = "cell_state_delta_empty\<lparr>cd_capability_grants := [?r]\<rparr>"
  have "apply_cell_delta demo_crypto demo_cell ?d 0 = (None, snd (apply_cell_delta demo_crypto demo_cell ?d 0))"
    by (simp add: apply_cell_delta_def cell_state_delta_empty_def apply_balance_change_def Let_def
        demo_cell_def cell_new_def invalidate_leaf_cache_def cell_state_new_def checked_add_i64_def in_i64_def)
  then have "permits_effect_at (c_capabilities (snd (apply_cell_delta demo_crypto demo_cell ?d 0)))
      (cr_target ?r) 5 EFFECT_TRANSFER"
    by (rule delta_grant_drops_facet)
       (simp_all add: cell_state_delta_empty_def demo_cell_def cell_new_def clist_new_def unexpired_def)
  then show ?thesis by simp
qed

end
