(* ===== verification/Migration.thy ===== *)
theory Migration
  imports LedgerDelta
begin

text \<open>
  Two-step migration of a cell between federations (\<open>cell/src/migration.rs\<close> and the \<open>migrate_*\<close>
  methods of \<open>cell/src/ledger.rs\<close>): PREPARE locks the cell at the source and mints a voucher, ACCEPT
  installs the cell at the destination and mints a receipt, COMMIT turns the source copy into a
  tombstone. The protocol between federations is a step relation over one ledger per federation.
\<close>

section \<open>Vouchers and receipts\<close>

type_synonym federation_id = bytes32

record migration_receipt =
  mr_cell_id :: cell_id
  mr_voucher_hash :: bytes32
  mr_accepted_by :: federation_id
  mr_accepted_at :: u64

datatype migration_error =
    NotMigratable
  | DestinationOccupied cell_id
  | StateMismatch
  | WrongDestination
  | ReceiptMismatch
  | SourceNotFound cell_id
  | IdentityBroken cell_id

fun target_mode_byte :: "cell_mode \<Rightarrow> u8" where
  "target_mode_byte Hosted = 0"
| "target_mode_byte Sovereign = 1"

definition voucher_preimage :: "migration_voucher \<Rightarrow> u8 list" where
  "voucher_preimage v =
     bytes32_bytes (mv_cell_id v) @ bytes32_bytes (mv_state_commitment v) @
     bytes32_bytes (mv_from v) @ bytes32_bytes (mv_to v) @
     [target_mode_byte (mv_target_mode v)] @ u64_bytes (mv_prepared_at v)"

definition voucher_hash :: "('a crypto_scheme) \<Rightarrow> migration_voucher \<Rightarrow> bytes32" where
  "voucher_hash E v = derive_key E ''dregg-cell:migration-voucher v1'' (voucher_preimage v)"

definition receipt_attestation :: "('a crypto_scheme) \<Rightarrow> migration_receipt \<Rightarrow> bytes32" where
  "receipt_attestation E r =
     derive_key E ''dregg-cell:migration-receipt v1''
       (bytes32_bytes (mr_cell_id r) @ bytes32_bytes (mr_voucher_hash r) @
        bytes32_bytes (mr_accepted_by r) @ u64_bytes (mr_accepted_at r))"

section \<open>Cell side\<close>

definition cell_migration_voucher ::
  "('a cell_crypto_scheme) \<Rightarrow> cell \<Rightarrow> federation_id \<Rightarrow> federation_id \<Rightarrow> cell_mode \<Rightarrow> u64 \<Rightarrow>
   migration_error + migration_voucher" where
  "cell_migration_voucher E c from to target_mode prepared_at =
     (if is_terminal (c_lifecycle c) then Inl NotMigratable
      else if \<not> verify_id_integrity E c then Inl (IdentityBroken (c_id c))
      else Inr \<lparr>mv_cell_id = c_id c,
                mv_state_commitment = compute_canonical_state_commitment E c,
                mv_from = from, mv_to = to, mv_target_mode = target_mode,
                mv_prepared_at = prepared_at\<rparr>)"

definition cell_migrate_commit ::
  "('a crypto_scheme) \<Rightarrow> cell \<Rightarrow> migration_voucher \<Rightarrow> migration_receipt \<Rightarrow>
   (migration_error + unit) \<times> cell" where
  "cell_migrate_commit E c v r =
     (if is_terminal (c_lifecycle c) then (Inl NotMigratable, c)
      else if mr_cell_id r \<noteq> c_id c \<or> mv_cell_id v \<noteq> c_id c \<or> mr_voucher_hash r \<noteq> voucher_hash E v
      then (Inl ReceiptMismatch, c)
      else (Inr (), c\<lparr>c_lifecycle :=
              Migrated (c_id c) (receipt_attestation E r) (mr_accepted_at r)\<rparr>))"

section \<open>Ledger side\<close>

definition is_migration_locked :: "ledger \<Rightarrow> cell_id \<Rightarrow> bool" where
  "is_migration_locked L i \<longleftrightarrow> l_migration_locks L i \<noteq> None"

definition migration_voucher_for :: "ledger \<Rightarrow> cell_id \<Rightarrow> migration_voucher option" where
  "migration_voucher_for L i = map_option ml_voucher (l_migration_locks L i)"

definition migrate_prepare ::
  "('a cell_crypto_scheme) \<Rightarrow> ledger \<Rightarrow> cell_id \<Rightarrow> federation_id \<Rightarrow> federation_id \<Rightarrow> cell_mode \<Rightarrow> u64 \<Rightarrow>
   (migration_error + migration_voucher) \<times> ledger" where
  "migrate_prepare E L i from to target_mode prepared_at =
     (if l_migration_locks L i \<noteq> None then (Inl NotMigratable, L)
      else case l_cells L i of
        None \<Rightarrow> (Inl (SourceNotFound i), L)
      | Some c \<Rightarrow>
          (case cell_migration_voucher E c from to target_mode prepared_at of
             Inl e \<Rightarrow> (Inl e, L)
           | Inr v \<Rightarrow> (Inr v, L\<lparr>l_migration_locks := (l_migration_locks L)(i \<mapsto> \<lparr>ml_voucher = v\<rparr>)\<rparr>)))"

definition migrate_accept ::
  "('a cell_crypto_scheme) \<Rightarrow> ledger \<Rightarrow> migration_voucher \<Rightarrow> cell \<Rightarrow> federation_id \<Rightarrow> u64 \<Rightarrow>
   (migration_error + migration_receipt) \<times> ledger" where
  "migrate_accept E L v c this_federation accepted_at =
     (if mv_to v \<noteq> this_federation then (Inl WrongDestination, L)
      else if c_id c \<noteq> mv_cell_id v then (Inl StateMismatch, L)
      else if \<not> verify_id_integrity E c then (Inl (IdentityBroken (c_id c)), L)
      else if compute_canonical_state_commitment E c \<noteq> mv_state_commitment v
      then (Inl StateMismatch, L)
      else if l_cells L (c_id c) \<noteq> None \<or> l_sovereign_commitments L (c_id c) \<noteq> None \<or>
              l_sovereign_registrations L (c_id c) \<noteq> None
      then (Inl (DestinationOccupied (c_id c)), L)
      else
        (Inr \<lparr>mr_cell_id = c_id c, mr_voucher_hash = voucher_hash E v,
              mr_accepted_by = this_federation, mr_accepted_at = accepted_at\<rparr>,
         case mv_target_mode v of
           Hosted \<Rightarrow>
             let installed = (invalidate_leaf_cache c)\<lparr>c_mode := Hosted, c_lifecycle := Live\<rparr>;
                 L = L\<lparr>l_cells := (l_cells L)(c_id c \<mapsto> installed)\<rparr>;
                 L = pubkey_index_add L (c_public_key installed) (c_id c)
             in L\<lparr>l_pending := touch_structural (l_pending L)\<rparr>
         | Sovereign \<Rightarrow>
             L\<lparr>l_sovereign_commitments :=
                 (l_sovereign_commitments L)(c_id c \<mapsto> mv_state_commitment v)\<rparr>))"

definition migrate_commit ::
  "('a crypto_scheme) \<Rightarrow> ledger \<Rightarrow> cell_id \<Rightarrow> migration_receipt \<Rightarrow> (migration_error + unit) \<times> ledger" where
  "migrate_commit E L i r =
     (case l_migration_locks L i of
        None \<Rightarrow> (Inl ReceiptMismatch, L)
      | Some lock \<Rightarrow>
          (case l_cells L i of
             None \<Rightarrow> (Inl (SourceNotFound i), L)
           | Some c \<Rightarrow>
               (case cell_migrate_commit E (invalidate_leaf_cache c) (ml_voucher lock) r of
                  (Inl e, c') \<Rightarrow> (Inl e, L\<lparr>l_cells := (l_cells L)(i \<mapsto> c')\<rparr>)
                | (Inr _, c') \<Rightarrow>
                    (Inr (), L\<lparr>l_cells := (l_cells L)(i \<mapsto> c'),
                               l_migration_locks := (l_migration_locks L)(i := None),
                               l_pending := touch_value i (l_pending L)\<rparr>))))"

section \<open>The protocol between federations\<close>

record network =
  nw_ledger :: "federation_id \<Rightarrow> ledger"
  nw_vouchers :: "migration_voucher set"

abbreviation nw_update :: "network \<Rightarrow> federation_id \<Rightarrow> ledger \<Rightarrow> network" where
  "nw_update N f L \<equiv> N\<lparr>nw_ledger := (nw_ledger N)(f := L)\<rparr>"

text \<open>
  Vouchers are authentic (a federation accepts only vouchers that were minted), receipts are
  arbitrary. Between the protocol steps every federation writes to its cells through \<open>get_mut\<close>; a
  write keeps the identity of a cell and does not revive a terminal one.
\<close>

inductive migration_step :: "('a cell_crypto_scheme) \<Rightarrow> network \<Rightarrow> network \<Rightarrow> bool" for E where
  prepare: "migrate_prepare E (nw_ledger N f) i f to m t = (Inr v, L') \<Longrightarrow>
    migration_step E N ((nw_update N f L')\<lparr>nw_vouchers := insert v (nw_vouchers N)\<rparr>)"
| accept: "v \<in> nw_vouchers N \<Longrightarrow> migrate_accept E (nw_ledger N g) v c g t = (Inr r, L') \<Longrightarrow>
    migration_step E N (nw_update N g L')"
| commit: "migrate_commit E (nw_ledger N f) i r = (res, L') \<Longrightarrow>
    migration_step E N (nw_update N f L')"
| mutate: "sealed u \<Longrightarrow> (\<And>c. is_terminal (c_lifecycle c) \<Longrightarrow> is_terminal (c_lifecycle (u c))) \<Longrightarrow>
    migration_step E N (nw_update N f (get_mut_with (nw_ledger N f) i u))"

text \<open>Where a cell is known, and where it is held without a migration lock: hosted in a lifecycle that is not
  terminal, or as a sovereign commitment. The lock is a mark; no write looks at it.\<close>

definition present :: "ledger \<Rightarrow> cell_id \<Rightarrow> bool" where
  "present L i \<longleftrightarrow> l_cells L i \<noteq> None \<or> l_sovereign_commitments L i \<noteq> None \<or>
     l_sovereign_registrations L i \<noteq> None"

definition unlocked_copy :: "ledger \<Rightarrow> cell_id \<Rightarrow> bool" where
  "unlocked_copy L i \<longleftrightarrow> \<not> is_migration_locked L i \<and>
     (case l_cells L i of
        Some c \<Rightarrow> \<not> is_terminal (c_lifecycle c)
      | None \<Rightarrow> l_sovereign_commitments L i \<noteq> None \<or> l_sovereign_registrations L i \<noteq> None)"

definition keyed :: "ledger \<Rightarrow> bool" where
  "keyed L \<longleftrightarrow> (\<forall>i c. l_cells L i = Some c \<longrightarrow> c_id c = i)"

text \<open>
  The unlocked copies of a cell: at a federation that holds one, or travelling in a voucher
  whose destination does not know the cell yet.
\<close>

definition holders :: "network \<Rightarrow> cell_id \<Rightarrow> (federation_id + migration_voucher) set" where
  "holders N i = {Inl f | f. unlocked_copy (nw_ledger N f) i} \<union>
     {Inr v | v. v \<in> nw_vouchers N \<and> mv_cell_id v = i \<and> \<not> present (nw_ledger N (mv_to v)) i}"

definition single_home :: "network \<Rightarrow> cell_id \<Rightarrow> bool" where
  "single_home N i \<longleftrightarrow>
     (\<forall>f. keyed (nw_ledger N f)) \<and> (\<forall>x \<in> holders N i. \<forall>y \<in> holders N i. x = y)"

lemma single_homeI:
  assumes "\<And>f. keyed (nw_ledger N f)" "holders N i \<subseteq> {x}"
  shows "single_home N i"
  using assms by (auto simp: single_home_def)

lemma single_home_le:
  assumes "single_home N i" "\<And>f. keyed (nw_ledger N' f)" "holders N' i \<subseteq> holders N i"
  shows "single_home N' i"
  using assms by (auto simp: single_home_def subset_iff)

lemma holder_unique:
  assumes "single_home N i" "x \<in> holders N i"
  shows "holders N i = {x}"
  using assms by (auto simp: single_home_def)

lemma inl_holder [simp]: "Inl f \<in> holders N i \<longleftrightarrow> unlocked_copy (nw_ledger N f) i"
  by (auto simp: holders_def)

lemma inr_holder [simp]:
  "Inr v \<in> holders N i \<longleftrightarrow>
     v \<in> nw_vouchers N \<and> mv_cell_id v = i \<and> \<not> present (nw_ledger N (mv_to v)) i"
  by (auto simp: holders_def)

lemma holders_subsetI:
  assumes "\<And>f. unlocked_copy (nw_ledger N f) i \<Longrightarrow> Inl f \<in> X"
    "\<And>v. v \<in> nw_vouchers N \<Longrightarrow> mv_cell_id v = i \<Longrightarrow> \<not> present (nw_ledger N (mv_to v)) i \<Longrightarrow> Inr v \<in> X"
  shows "holders N i \<subseteq> X"
  using assms by (auto simp: holders_def)

lemma keyed_upd:
  assumes "keyed L" "c_id c = i" "l_cells L' = (l_cells L)(i \<mapsto> c)"
  shows "keyed L'"
  using assms by (auto simp: keyed_def)

lemma prepare_ok:
  assumes "migrate_prepare E L i f to m t = (Inr v, L')"
  obtains c where "l_cells L i = Some c" "l_migration_locks L i = None"
    "cell_migration_voucher E c f to m t = Inr v" "\<not> is_terminal (c_lifecycle c)"
    "L' = L\<lparr>l_migration_locks := (l_migration_locks L)(i \<mapsto> \<lparr>ml_voucher = v\<rparr>)\<rparr>"
  using assms
  by (auto simp: migrate_prepare_def cell_migration_voucher_def split: if_splits option.splits sum.splits)

lemma prepare_cell:
  assumes "migrate_prepare E S i src dst m t1 = (Inr v, S1)" "l_cells S i = Some c"
  shows "cell_migration_voucher E c src dst m t1 = Inr v" "\<not> is_terminal (c_lifecycle c)"
    "S1 = S\<lparr>l_migration_locks := (l_migration_locks S)(i \<mapsto> \<lparr>ml_voucher = v\<rparr>)\<rparr>"
  using prepare_ok [OF assms(1)] assms(2) by (metis option.inject)+

lemma voucher_ok:
  assumes "cell_migration_voucher E c f to m t = Inr v"
  shows "mv_cell_id v = c_id c" "mv_to v = to" "mv_from v = f" "mv_target_mode v = m"
    "mv_state_commitment v = compute_canonical_state_commitment E c" "verify_id_integrity E c"
  using assms by (auto simp: cell_migration_voucher_def split: if_splits)

lemma accept_ok:
  assumes "migrate_accept E L v c g t = (Inr r, L')"
  shows "mv_to v = g" "mv_cell_id v = c_id c" "\<not> present L (c_id c)" "verify_id_integrity E c"
    "mv_state_commitment v = compute_canonical_state_commitment E c"
    "present L' (c_id c)" "l_migration_locks L' = l_migration_locks L"
  using assms
  by (auto simp: migrate_accept_def present_def Let_def pubkey_index_add_def
      split: if_splits cell_mode.splits)

lemma accept_other:
  assumes "migrate_accept E L v c g t = (Inr r, L')" "i \<noteq> c_id c"
  shows "l_cells L' i = l_cells L i" "l_sovereign_commitments L' i = l_sovereign_commitments L i"
    "l_sovereign_registrations L' i = l_sovereign_registrations L i"
  using assms
  by (auto simp: migrate_accept_def Let_def pubkey_index_add_def split: if_splits cell_mode.splits)

lemma accept_keyed: "migrate_accept E L v c g t = (Inr r, L') \<Longrightarrow> keyed L \<Longrightarrow> keyed L'"
  by (auto simp: migrate_accept_def keyed_def Let_def pubkey_index_add_def invalidate_leaf_cache_def
      split: if_splits cell_mode.splits)

text \<open>A commit and a write act on one cell, never revive it and keep it present.\<close>

definition quiet :: "ledger \<Rightarrow> ledger \<Rightarrow> bool" where
  "quiet L L' \<longleftrightarrow> (keyed L \<longrightarrow> keyed L') \<and>
     (\<forall>i. (unlocked_copy L' i \<longrightarrow> unlocked_copy L i) \<and> (present L i \<longrightarrow> present L' i))"

lemma quiet_write:
  assumes "l_cells L i = Some c" "c_id c' = c_id c"
    "is_terminal (c_lifecycle c) \<Longrightarrow> is_terminal (c_lifecycle c')"
    "l_cells L' = (l_cells L)(i \<mapsto> c')" "l_migration_locks L' = l_migration_locks L"
    "l_sovereign_commitments L' = l_sovereign_commitments L"
    "l_sovereign_registrations L' = l_sovereign_registrations L"
  shows "quiet L L'"
  using assms
  by (auto simp: quiet_def keyed_def unlocked_copy_def present_def is_migration_locked_def cong: option.case_cong)

lemma get_mut_quiet:
  assumes "sealed u" "\<And>c. is_terminal (c_lifecycle c) \<Longrightarrow> is_terminal (c_lifecycle (u c))"
  shows "quiet L (get_mut_with L i u)"
proof (cases "l_cells L i")
  case None
  then show ?thesis
    by (simp add: get_mut_with_def quiet_def keyed_def unlocked_copy_def present_def is_migration_locked_def
        cong: option.case_cong)
next
  case (Some c)
  then show ?thesis
    using assms sealedD(1) [OF assms(1)]
    by (intro quiet_write [OF Some, of "u (invalidate_leaf_cache c)"])
       (simp_all add: get_mut_with_def invalidate_leaf_cache_def)
qed

lemma cell_migrate_commit_cases:
  assumes "cell_migrate_commit E c v r = (res, c')"
  shows "(res \<noteq> Inr () \<and> c' = c) \<or>
    (res = Inr () \<and> mr_voucher_hash r = voucher_hash E v \<and> mr_cell_id r = c_id c \<and> mv_cell_id v = c_id c \<and>
     \<not> is_terminal (c_lifecycle c) \<and>
     c' = c\<lparr>c_lifecycle := Migrated (c_id c) (receipt_attestation E r) (mr_accepted_at r)\<rparr>)"
  using assms by (auto simp: cell_migrate_commit_def split: if_splits)

lemma commit_quiet:
  assumes "migrate_commit E L i r = (res, L')"
  shows "quiet L L'"
proof (cases "l_migration_locks L i = None \<or> l_cells L i = None")
  case True
  then show ?thesis
    using assms by (auto simp: migrate_commit_def quiet_def split: option.splits)
next
  case False
  then obtain lock c where lc: "l_migration_locks L i = Some lock" "l_cells L i = Some c" by auto
  obtain res1 c' where m: "cell_migrate_commit E (invalidate_leaf_cache c) (ml_voucher lock) r = (res1, c')"
    by (cases "cell_migrate_commit E (invalidate_leaf_cache c) (ml_voucher lock) r")
  from cell_migrate_commit_cases [OF m] show ?thesis
  proof
    assume "res1 \<noteq> Inr () \<and> c' = invalidate_leaf_cache c"
    then show ?thesis
      using assms m lc
      by (intro quiet_write [OF lc(2), of "invalidate_leaf_cache c"])
         (auto simp: migrate_commit_def invalidate_leaf_cache_def split: sum.splits)
  next
    assume a: "res1 = Inr () \<and> mr_voucher_hash r = voucher_hash E (ml_voucher lock) \<and>
      mr_cell_id r = c_id (invalidate_leaf_cache c) \<and>
      mv_cell_id (ml_voucher lock) = c_id (invalidate_leaf_cache c) \<and>
      \<not> is_terminal (c_lifecycle (invalidate_leaf_cache c)) \<and>
      c' = (invalidate_leaf_cache c)\<lparr>c_lifecycle := Migrated (c_id (invalidate_leaf_cache c))
        (receipt_attestation E r) (mr_accepted_at r)\<rparr>"
    then have "l_cells L' = (l_cells L)(i \<mapsto> c')"
      "l_migration_locks L' = (l_migration_locks L)(i := None)"
      "l_sovereign_commitments L' = l_sovereign_commitments L"
      "l_sovereign_registrations L' = l_sovereign_registrations L"
      using assms m lc by (auto simp: migrate_commit_def)
    then show ?thesis
      using a lc by (auto simp: quiet_def keyed_def unlocked_copy_def present_def is_migration_locked_def
        invalidate_leaf_cache_def cong: option.case_cong split: if_splits)
  qed
qed

lemma quiet_single_home:
  assumes "single_home N i" "quiet (nw_ledger N f) L'"
  shows "single_home (nw_update N f L') i"
proof (rule single_home_le [OF assms(1)])
  show "keyed (nw_ledger (nw_update N f L') g)" for g
    using assms by (auto simp: single_home_def quiet_def)
  show "holders (nw_update N f L') i \<subseteq> holders N i"
    using assms(2) by (intro holders_subsetI) (auto simp: quiet_def split: if_splits)
qed

lemma prepare_single_home:
  assumes h: "single_home N i" and p: "migrate_prepare E (nw_ledger N f) j f to m t = (Inr v, L')"
  shows "single_home ((nw_update N f L')\<lparr>nw_vouchers := insert v (nw_vouchers N)\<rparr>) i"
proof -
  let ?N' = "(nw_update N f L')\<lparr>nw_vouchers := insert v (nw_vouchers N)\<rparr>"
  from prepare_ok [OF p] obtain c where c: "l_cells (nw_ledger N f) j = Some c"
    "l_migration_locks (nw_ledger N f) j = None" "cell_migration_voucher E c f to m t = Inr v"
    "\<not> is_terminal (c_lifecycle c)"
    "L' = (nw_ledger N f)\<lparr>l_migration_locks := (l_migration_locks (nw_ledger N f))(j \<mapsto> \<lparr>ml_voucher = v\<rparr>)\<rparr>" .
  have k: "keyed (nw_ledger N g)" for g using h by (simp add: single_home_def)
  then have k': "keyed (nw_ledger ?N' g)" for g
    using k [of f] by (auto simp: c(5) keyed_def)
  have id: "mv_cell_id v = j" using k [of f] c(1) voucher_ok(1) [OF c(3)] by (simp add: keyed_def)
  have pres: "present (nw_ledger ?N' g) i = present (nw_ledger N g) i" for g
    by (simp add: c(5) present_def)
  show ?thesis
  proof (cases "i = j")
    case True
    then have "unlocked_copy (nw_ledger N f) i"
      using c(1,2,4) by (simp add: unlocked_copy_def is_migration_locked_def)
    then have one: "holders N i = {Inl f}" by (intro holder_unique [OF h]) simp
    have "\<not> unlocked_copy L' i" using True by (simp add: c(5) unlocked_copy_def is_migration_locked_def)
    then have "holders ?N' i \<subseteq> {Inr v}"
      using one pres by (intro holders_subsetI) (auto simp: set_eq_iff split: if_splits)
    then show ?thesis by (rule single_homeI [OF k'])
  next
    case False
    then have "holders ?N' i \<subseteq> holders N i"
      using id pres by (intro holders_subsetI) (auto simp: c(5) unlocked_copy_def is_migration_locked_def
          cong: option.case_cong split: if_splits)
    then show ?thesis by (rule single_home_le [OF h k'])
  qed
qed

lemma accept_single_home:
  assumes h: "single_home N i" and v: "v \<in> nw_vouchers N"
    and a: "migrate_accept E (nw_ledger N g) v c g t = (Inr r, L')"
  shows "single_home (nw_update N g L') i"
proof -
  have k': "keyed (nw_ledger (nw_update N g L') f)" for f
    using h accept_keyed [OF a] by (simp add: single_home_def)
  show ?thesis
  proof (cases "i = c_id c")
    case True
    then have "Inr v \<in> holders N i" using v accept_ok(1,2,3) [OF a] by simp
    then have one: "holders N i = {Inr v}" by (rule holder_unique [OF h])
    have "\<not> unlocked_copy (nw_ledger N f) i" for f
      using one inl_holder [of f N i] by auto
    moreover have "w = v" if "w \<in> nw_vouchers N" "mv_cell_id w = i" "\<not> present (nw_ledger N (mv_to w)) i" for w
      using one inr_holder [of w N i] that by auto
    ultimately have "holders (nw_update N g L') i \<subseteq> {Inl g}"
      using accept_ok(1,6) [OF a] True by (intro holders_subsetI) (auto split: if_splits)
    then show ?thesis by (rule single_homeI [OF k'])
  next
    case False
    then have "unlocked_copy L' i = unlocked_copy (nw_ledger N g) i" "present L' i = present (nw_ledger N g) i"
      using accept_other [OF a False] accept_ok(7) [OF a]
      by (simp_all add: unlocked_copy_def present_def is_migration_locked_def cong: option.case_cong)
    then have "holders (nw_update N g L') i \<subseteq> holders N i"
      by (intro holders_subsetI) (auto split: if_splits)
    then show ?thesis by (rule single_home_le [OF h k'])
  qed
qed

lemma migration_step_single_home:
  assumes "migration_step E N N'" "single_home N i"
  shows "single_home N' i"
  using assms
proof (cases rule: migration_step.cases)
  case (prepare f j to m t v L')
  then show ?thesis using prepare_single_home assms(2) by simp
next
  case (accept v g c t r L')
  then show ?thesis using accept_single_home assms(2) by simp
next
  case (commit f j r res L')
  then show ?thesis using quiet_single_home [OF assms(2) commit_quiet] by simp
next
  case (mutate u f j)
  then show ?thesis using quiet_single_home [OF assms(2) get_mut_quiet] by simp
qed

lemma migration_run_single_home:
  assumes "(migration_step E)\<^sup>*\<^sup>* N N'" "single_home N i"
  shows "single_home N' i"
  using assms by (induction rule: rtranclp_induct) (auto intro: migration_step_single_home)

section \<open>Properties\<close>

text \<open>C19. One unlocked copy, and what the lock is worth. If at most one federation holds a cell without a
  migration lock and no voucher for it is in flight, then in every state the protocol can reach, with
  prepares, accepts of minted vouchers (also replayed), commits on arbitrary receipts and writes
  interleaved at all federations, at most one federation holds it without a lock: every other copy is
  locked or a tombstone. The lock does not keep the other copy still: between ACCEPT and COMMIT the cell is
  in two ledgers, and the locked copy takes every write that reaches the ledger like any other cell.\<close>

theorem migration_one_unlocked_copy:
  assumes "(migration_step E)\<^sup>*\<^sup>* N N'"
    and "\<forall>f. keyed (nw_ledger N f)" and "nw_vouchers N = {}"
    and "\<forall>f. unlocked_copy (nw_ledger N f) i \<longrightarrow> f = home"
  shows "(\<forall>f g. unlocked_copy (nw_ledger N' f) i \<and> unlocked_copy (nw_ledger N' g) i \<longrightarrow> f = g) \<and>
    (\<forall>f c u. is_migration_locked (nw_ledger N' f) i \<and> l_cells (nw_ledger N' f) i = Some c \<longrightarrow>
       l_cells (get_mut_with (nw_ledger N' f) i u) i = Some (u (invalidate_leaf_cache c)))"
proof -
  have "single_home N i"
    using assms(2,3,4) by (intro single_homeI [of _ _ "Inl home"] holders_subsetI) auto
  then have "single_home N' i" by (rule migration_run_single_home [OF assms(1)])
  then have "f = g" if "unlocked_copy (nw_ledger N' f) i" "unlocked_copy (nw_ledger N' g) i" for f g
    using that unfolding single_home_def by (metis inl_holder sum.inject(1))
  then show ?thesis by (auto simp: get_mut_with_def)
qed

text \<open>C23. A migration goes through: after PREPARE for a hosted target, a destination that does not know the cell accepts
  it, and the receipt commits at the source. Then the source copy is a terminal tombstone that carries
  the attestation and is no longer locked, and the destination holds the cell live and hosted with the
  state, permissions, capabilities, program and identity it had, so no authority is made or lost.\<close>

theorem migration_goes_through:
  assumes p: "migrate_prepare E S i src dst Hosted t1 = (Inr v, S1)"
    and c: "l_cells S i = Some c" and k: "keyed S" and d: "\<not> present D i"
  shows "\<exists>r D' S'. migrate_accept E D v c dst t2 = (Inr r, D') \<and>
     migrate_commit E S1 i r = (Inr (), S') \<and>
     l_cells D' i = Some (c\<lparr>c_leaf_cache := None, c_mode := Hosted, c_lifecycle := Live\<rparr>) \<and>
     l_cells S' i = Some (c\<lparr>c_leaf_cache := None,
        c_lifecycle := Migrated i (receipt_attestation E r) t2\<rparr>) \<and>
     \<not> is_migration_locked S' i"
proof -
  note v = prepare_cell [OF p c]
  note vo = voucher_ok [OF v(1)]
  have i: "c_id c = i" using k c by (simp add: keyed_def)
  define r where "r = \<lparr>mr_cell_id = i, mr_voucher_hash = voucher_hash E v, mr_accepted_by = dst,
    mr_accepted_at = t2\<rparr>"
  have "\<exists>D'. migrate_accept E D v c dst t2 = (Inr r, D') \<and>
      l_cells D' i = Some (c\<lparr>c_leaf_cache := None, c_mode := Hosted, c_lifecycle := Live\<rparr>)"
    using d vo i by (simp add: migrate_accept_def present_def Let_def invalidate_leaf_cache_def r_def)
  moreover have "\<exists>S'. migrate_commit E S1 i r = (Inr (), S') \<and>
      l_cells S' i = Some (c\<lparr>c_leaf_cache := None,
        c_lifecycle := Migrated i (receipt_attestation E r) t2\<rparr>) \<and> \<not> is_migration_locked S' i"
    using v(2,3) vo(1) i c
    by (simp add: migrate_commit_def cell_migrate_commit_def invalidate_leaf_cache_def r_def
        is_migration_locked_def)
  ultimately show ?thesis by blast
qed

text \<open>No authority is inflated in transit: whatever cell a destination accepts under a voucher
  agrees with the cell the source locked on everything the state commitment covers (balance, nonce,
  fields, permissions, capability root, program, lifecycle and identity), unless the hash collides.\<close>

theorem migration_accept_binds:
  assumes "migrate_prepare E S i src dst m t1 = (Inr v, S1)" and "l_cells S i = Some c"
    and "migrate_accept E D v d dst t2 = (Inr r, D')"
    and "cell_ok E c" and "cell_ok E d"
    and "inj_on (derive_key E CANONICAL_COMMITMENT_CONTEXT)
           {state_commitment_preimage E c, state_commitment_preimage E d}"
  shows "cell_view E d = cell_view E c"
proof -
  have "mv_state_commitment v = compute_canonical_state_commitment E c"
    by (rule voucher_ok(5) [OF prepare_cell(1) [OF assms(1,2)]])
  then have "compute_canonical_state_commitment E d = compute_canonical_state_commitment E c"
    using accept_ok(5) [OF assms(3)] by simp
  then have "state_commitment_preimage E d = state_commitment_preimage E c"
    using inj_onD [OF assms(6)] unfolding compute_canonical_state_commitment_def by blast
  then show ?thesis by (rule preimage_view [OF assms(5,4)])
qed

text \<open>The migration lock does not make a cell quiescent by itself: a locked cell can still be
  written through \<open>get_mut\<close>, and a commit on the matching receipt then succeeds and buries the write.
  Here a credit of \<open>b\<close> after PREPARE is in the tombstone while the destination installs the cell
  without it.\<close>

theorem locked_cell_still_writable:
  assumes "migrate_prepare E S i src dst Hosted t1 = (Inr v, S1)"
    and "l_cells S i = Some c" and "keyed S" and "\<not> present D i"
  shows "\<exists>r D' S' c'. migrate_accept E D v c dst t2 = (Inr r, D') \<and>
     migrate_commit E (get_mut_with S1 i (\<lambda>c. c\<lparr>c_state := (c_state c)\<lparr>st_balance := b\<rparr>\<rparr>)) i r =
       (Inr (), S') \<and>
     l_cells S' i = Some c' \<and> st_balance (c_state c') = b \<and>
     (\<exists>d. l_cells D' i = Some d \<and> st_balance (c_state d) = st_balance (c_state c))"
proof -
  note v = prepare_cell [OF assms(1,2)]
  have "c_id c = i" using assms(2,3) by (simp add: keyed_def)
  then show ?thesis
    using v(2,3) voucher_ok [OF v(1)] assms(2,4)
    by (simp add: migrate_accept_def present_def Let_def invalidate_leaf_cache_def migrate_commit_def
        cell_migrate_commit_def get_mut_with_def)
qed

section \<open>Witnesses\<close>

definition demo_home :: ledger where
  "demo_home = (ledger_new demo_cell_crypto)\<lparr>l_cells := [0 \<mapsto> demo_cell]\<rparr>"

definition demo_voucher :: migration_voucher where
  "demo_voucher = \<lparr>mv_cell_id = 0, mv_state_commitment = 0, mv_from = 1, mv_to = 2,
     mv_target_mode = Hosted, mv_prepared_at = 10\<rparr>"

definition demo_receipt :: migration_receipt where
  "demo_receipt = \<lparr>mr_cell_id = 0, mr_voucher_hash = 0, mr_accepted_by = 2, mr_accepted_at = 20\<rparr>"

lemma demo_derive_key [simp]: "derive_key demo_cell_crypto ctx bs = 0"
  by (simp add: demo_cell_crypto_def crypto.extend_def demo_crypto_def)

lemma demo_cell_fields [simp]:
  "c_id demo_cell = 0" "c_lifecycle demo_cell = Live" "verify_id_integrity demo_cell_crypto demo_cell"
  "compute_canonical_state_commitment demo_cell_crypto demo_cell = 0"
  by (simp_all add: demo_cell_def cell_new_def derive_raw_def demo_crypto_def verify_id_integrity_def
      compute_canonical_state_commitment_def)

lemma demo_prepare:
  "migrate_prepare demo_cell_crypto demo_home 0 1 2 Hosted 10 =
     (Inr demo_voucher, demo_home\<lparr>l_migration_locks := [0 \<mapsto> \<lparr>ml_voucher = demo_voucher\<rparr>]\<rparr>)"
  by (simp add: migrate_prepare_def demo_home_def ledger_new_def cell_migration_voucher_def demo_voucher_def)

lemma demo_home_cell: "l_cells demo_home 0 = Some demo_cell" "keyed demo_home"
  "\<not> present (ledger_new demo_cell_crypto) 0"
  by (simp_all add: demo_home_def keyed_def present_def ledger_new_def)

lemma demo_accept:
  "fst (migrate_accept demo_cell_crypto (ledger_new demo_cell_crypto) demo_voucher demo_cell 2 20) =
     Inr demo_receipt"
  by (simp add: migrate_accept_def demo_voucher_def ledger_new_def voucher_hash_def demo_receipt_def)

definition demo_network :: network where
  "demo_network = \<lparr>nw_ledger = (\<lambda>_. ledger_new demo_cell_crypto)(1 := demo_home), nw_vouchers = {}\<rparr>"

text \<open>After PREPARE and ACCEPT the destination has the only unlocked copy, and a credit still reaches the locked one.\<close>

theorem migration_one_unlocked_copy_witness:
  "\<exists>N'. (migration_step demo_cell_crypto)\<^sup>*\<^sup>* demo_network N' \<and>
     {f. unlocked_copy (nw_ledger N' f) 0} = {2} \<and> is_migration_locked (nw_ledger N' 1) 0 \<and>
     map_option (\<lambda>c. st_balance (c_state c)) (l_cells (get_mut_with (nw_ledger N' 1) 0
       (\<lambda>c. c\<lparr>c_state := (c_state c)\<lparr>st_balance := 100\<rparr>\<rparr>)) 0) = Some 100"
proof -
  define N1 where "N1 = (nw_update demo_network 1
    (demo_home\<lparr>l_migration_locks := [0 \<mapsto> \<lparr>ml_voucher = demo_voucher\<rparr>]\<rparr>))\<lparr>nw_vouchers :=
      insert demo_voucher (nw_vouchers demo_network)\<rparr>"
  define D' where "D' = snd (migrate_accept demo_cell_crypto (ledger_new demo_cell_crypto) demo_voucher demo_cell 2 20)"
  define N2 where "N2 = nw_update N1 2 D'"
  have 1: "migration_step demo_cell_crypto demo_network N1"
    unfolding N1_def
    by (rule migration_step.prepare [of _ _ _ 0 2 Hosted 10]) (simp add: demo_network_def demo_prepare)
  have "migrate_accept demo_cell_crypto (nw_ledger N1 2) demo_voucher demo_cell 2 20 = (Inr demo_receipt, D')"
    using demo_accept by (simp add: N1_def D'_def demo_network_def prod_eq_iff)
  then have 2: "migration_step demo_cell_crypto N1 N2"
    unfolding N2_def by (intro migration_step.accept) (auto simp: N1_def)
  have run: "(migration_step demo_cell_crypto)\<^sup>*\<^sup>* demo_network N2" using 1 2 by auto
  have act: "unlocked_copy (nw_ledger N2 2) 0"
    by (simp add: N2_def D'_def unlocked_copy_def is_migration_locked_def migrate_accept_def demo_voucher_def
        ledger_new_def pubkey_index_add_def Let_def)
  have init: "\<forall>f. keyed (nw_ledger demo_network f)" "nw_vouchers demo_network = {}"
    "\<forall>f. unlocked_copy (nw_ledger demo_network f) 0 \<longrightarrow> f = 1"
    using demo_home_cell(2) by (auto simp: demo_network_def keyed_def unlocked_copy_def ledger_new_def)
  note both = migration_one_unlocked_copy [OF run init]
  have "f = 2" if "unlocked_copy (nw_ledger N2 f) 0" for f
    using both that act by blast
  then have "{f. unlocked_copy (nw_ledger N2 f) 0} = {2}" using act by blast
  moreover have "is_migration_locked (nw_ledger N2 1) 0" "l_cells (nw_ledger N2 1) 0 = Some demo_cell"
    using demo_home_cell(1) by (simp_all add: N2_def N1_def is_migration_locked_def)
  ultimately show ?thesis using run both by (intro exI [of _ N2]) simp
qed

theorem migration_goes_through_witness:
  "\<exists>r D' S'. migrate_accept demo_cell_crypto (ledger_new demo_cell_crypto) demo_voucher demo_cell 2 20 = (Inr r, D') \<and>
     migrate_commit demo_cell_crypto (demo_home\<lparr>l_migration_locks := [0 \<mapsto> \<lparr>ml_voucher = demo_voucher\<rparr>]\<rparr>) 0 r =
       (Inr (), S') \<and> \<not> is_migration_locked S' 0"
  using migration_goes_through [OF demo_prepare demo_home_cell, of 20] by blast

theorem migration_accept_binds_witness:
  "cell_view demo_cell_crypto (demo_cell\<lparr>c_leaf_cache := Some 3\<rparr>) = cell_view demo_cell_crypto demo_cell"
proof -
  let ?d = "demo_cell\<lparr>c_leaf_cache := Some 3\<rparr>"
  let ?r = "migrate_accept demo_cell_crypto (ledger_new demo_cell_crypto) demo_voucher ?d 2 20"
  have id: "verify_id_integrity demo_cell_crypto ?d"
    by (simp add: verify_id_integrity_def derive_raw_def)
  have "?r = (Inr demo_receipt, snd ?r)"
    using id by (simp add: migrate_accept_def demo_voucher_def ledger_new_def voucher_hash_def demo_receipt_def)
  moreover have "cell_ok demo_cell_crypto demo_cell" "cell_ok demo_cell_crypto ?d"
    by (simp_all add: cell_ok_def demo_cell_def cell_new_def state_ok_def state_wf_def
        cell_state_new_def default_system_roots_def octet_def demo_cell_crypto_def
        crypto.extend_def demo_crypto_def program_ok_def)
  moreover have "inj_on (derive_key demo_cell_crypto CANONICAL_COMMITMENT_CONTEXT)
      {state_commitment_preimage demo_cell_crypto demo_cell, state_commitment_preimage demo_cell_crypto ?d}"
    by (simp add: state_commitment_preimage_def)
  ultimately show ?thesis by (rule migration_accept_binds [OF demo_prepare demo_home_cell(1)])
qed

lemma demo_cell_balance: "st_balance (c_state demo_cell) = 0"
  by (simp add: demo_cell_def cell_new_def cell_state_new_def)

theorem locked_cell_still_writable_witness:
  "\<exists>r D' S' c'. migrate_accept demo_cell_crypto (ledger_new demo_cell_crypto) demo_voucher demo_cell 2 20 = (Inr r, D') \<and>
     migrate_commit demo_cell_crypto
       (get_mut_with (demo_home\<lparr>l_migration_locks := [0 \<mapsto> \<lparr>ml_voucher = demo_voucher\<rparr>]\<rparr>) 0
          (\<lambda>c. c\<lparr>c_state := (c_state c)\<lparr>st_balance := 100\<rparr>\<rparr>)) 0 r = (Inr (), S') \<and>
     l_cells S' 0 = Some c' \<and> st_balance (c_state c') = 100 \<and>
     (\<exists>d. l_cells D' 0 = Some d \<and> st_balance (c_state d) = 0)"
  using locked_cell_still_writable [OF demo_prepare demo_home_cell, of 20 100]
  unfolding demo_cell_balance by blast

end
