(* ===== verification/LedgerRun.thy ===== *)
theory LedgerRun
  imports Migration
begin

text \<open>
  Runs of the ledger: the operations of \<open>cell/src/ledger.rs\<close> as a step relation, the invariant they
  keep (stored levels, public-key index, keys, restore point), and what follows from it for the root,
  membership proofs, lookups by public key and the restore point.
\<close>

section \<open>Public-key index\<close>

lemma index_ok_cong:
  assumes "l_pubkey_index L' = l_pubkey_index L"
    "\<And>i. map_option c_public_key (l_cells L' i) = map_option c_public_key (l_cells L i)"
  shows "index_ok L' = index_ok L"
proof -
  have "(\<exists>c. l_cells L' i = Some c \<and> c_public_key c = pk) \<longleftrightarrow>
      (\<exists>c. l_cells L i = Some c \<and> c_public_key c = pk)" for i pk
    using assms(2) [of i] by (cases "l_cells L i"; cases "l_cells L' i") auto
  then show ?thesis by (simp add: index_ok_def idx_list_def assms(1))
qed

lemma index_ok_add:
  assumes "index_ok L" "l_cells L i = None"
    "l_cells L' = (l_cells L)(i \<mapsto> c)" "l_pubkey_index L' = l_pubkey_index (pubkey_index_add L (c_public_key c) i)"
  shows "index_ok L'"
proof -
  have "idx_list L' = (idx_list L)(c_public_key c := idx_list L (c_public_key c) @ [i])"
    using idx_list_add [of L "c_public_key c" i] by (simp add: idx_list_def assms(4) fun_eq_iff)
  moreover have "l_pubkey_index L' pk \<noteq> Some []" for pk
    using assms(1) by (simp add: assms(4) pubkey_index_add_def index_ok_def)
  ultimately show ?thesis using assms(1,2) by (auto simp: index_ok_def assms(3))
qed

lemma index_ok_remove:
  assumes "index_ok L" "l_cells L i = Some c"
    "l_cells L' = (l_cells L)(i := None)"
    "l_pubkey_index L' = l_pubkey_index (pubkey_index_remove L (c_public_key c) i)"
  shows "index_ok L'"
proof -
  have "idx_list L' = (idx_list L)(c_public_key c := filter (\<lambda>j. j \<noteq> i) (idx_list L (c_public_key c)))"
    using idx_list_remove [of L "c_public_key c" i] by (simp add: idx_list_def assms(4) fun_eq_iff)
  moreover have "l_pubkey_index L' pk \<noteq> Some []" for pk
    using assms(1) index_nonempty_remove [of L "c_public_key c" i] by (simp add: assms(4) index_ok_def)
  ultimately show ?thesis using assms(1,2) by (auto simp: index_ok_def assms(3))
qed

lemma index_of_fields [simp]:
  "l_pubkey_index (pubkey_index_add (L\<lparr>l_cells := m\<rparr>) pk i) = l_pubkey_index (pubkey_index_add L pk i)"
  "l_pubkey_index (pubkey_index_remove (L\<lparr>l_cells := m\<rparr>) pk i) = l_pubkey_index (pubkey_index_remove L pk i)"
  "l_pubkey_index (pubkey_index_add (journal_cell L j) pk i) = l_pubkey_index (pubkey_index_add L pk i)"
  "l_pubkey_index (pubkey_index_remove (journal_cell L j) pk i) = l_pubkey_index (pubkey_index_remove L pk i)"
  by (simp_all add: pubkey_index_add_def pubkey_index_remove_def Let_def split: option.splits)

section \<open>The ledger invariant\<close>

text \<open>
  Levels and memos are right up to the pending marker, the index lists exactly the cells of each
  key, cells are stored under their id, and so are the images of an armed restore point.
\<close>

definition images_keyed :: "ledger \<Rightarrow> bool" where
  "images_keyed L \<longleftrightarrow> (\<forall>rp. l_restore_point L = Some rp \<longrightarrow>
     finite (dom (rp_cells rp)) \<and> (\<forall>i c. rp_cells rp i = Some (Some c) \<longrightarrow> c_id c = i))"

definition ledger_inv :: "('a cell_crypto_scheme) \<Rightarrow> ledger \<Rightarrow> bool" where
  "ledger_inv E L \<longleftrightarrow> tree_inv E L \<and> index_ok L \<and> keyed L \<and> images_keyed L"

lemma ledger_invI [intro?]:
  "tree_inv E L \<Longrightarrow> index_ok L \<Longrightarrow> keyed L \<Longrightarrow> images_keyed L \<Longrightarrow> ledger_inv E L"
  by (simp add: ledger_inv_def)

lemma images_keyed_cong: "l_restore_point L' = l_restore_point L \<Longrightarrow> images_keyed L' = images_keyed L"
  by (simp add: images_keyed_def)

lemma images_keyed_journal: "keyed L \<Longrightarrow> images_keyed L \<Longrightarrow> images_keyed (journal_cell L i)"
  by (auto simp: images_keyed_def journal_cell_def keyed_def split: option.splits)

lemma keyed_cong:
  assumes "\<And>i. map_option c_id (l_cells L' i) = map_option c_id (l_cells L i)"
  shows "keyed L' = keyed L"
proof -
  have "(\<forall>c. l_cells L' i = Some c \<longrightarrow> c_id c = i) \<longleftrightarrow> (\<forall>c. l_cells L i = Some c \<longrightarrow> c_id c = i)" for i
    using assms [of i] by (cases "l_cells L i"; cases "l_cells L' i") auto
  then show ?thesis by (simp add: keyed_def)
qed

lemma ledger_inv_new: "ledger_inv E (ledger_new E)"
  by (simp add: ledger_inv_def tree_inv_def index_ok_def idx_list_def keyed_def images_keyed_def ledger_new_def)

text \<open>Operations that leave the cell store, its index and its tree alone.\<close>

definition same_store :: "ledger \<Rightarrow> ledger \<Rightarrow> bool" where
  "same_store L L' \<longleftrightarrow> l_cells L' = l_cells L \<and> l_pending L' = l_pending L \<and>
     l_tree_levels L' = l_tree_levels L \<and> l_root L' = l_root L \<and>
     l_leaf_positions L' = l_leaf_positions L \<and> l_pubkey_index L' = l_pubkey_index L \<and>
     l_restore_point L' = l_restore_point L"

lemma same_store_inv: "same_store L L' \<Longrightarrow> ledger_inv E L \<Longrightarrow> ledger_inv E L'"
  unfolding same_store_def ledger_inv_def
  using tree_inv_cong [of L' L E] index_ok_cong [of L' L] keyed_cong [of L' L] images_keyed_cong [of L' L]
  by simp

lemma side_maps_same_store:
  "same_store L (snd (register_sovereign_cell L i h))"
  "same_store L (snd (update_sovereign_commitment L i h))"
  "same_store L (bump_sovereign_witness_sequence L i s)"
  "same_store L (snd (register_sovereign_cell_with_vk L i h height ttl vk))"
  "same_store L (snd (deregister_sovereign_cell L i))"
  "same_store L (snd (update_sovereign_registration_commitment L i old new height))"
  "same_store L (expire_sovereign_registrations L height)"
  "same_store L (snd (migrate_prepare E L i from to m t))"
  by (auto simp: same_store_def register_sovereign_cell_def update_sovereign_commitment_def
      bump_sovereign_witness_sequence_def register_sovereign_cell_with_vk_def
      deregister_sovereign_cell_def update_sovereign_registration_commitment_def
      expire_sovereign_registrations_def migrate_prepare_def split: option.splits sum.splits)

section \<open>Writes, insertions and removals\<close>

lemma get_mut_with_inv:
  assumes "ledger_inv E L" "sealed u"
  shows "ledger_inv E (get_mut_with L i u)"
proof
  show "tree_inv E (get_mut_with L i u)"
    using assms by (simp add: ledger_inv_def get_mut_with_tree_inv)
  have same: "map_option c_public_key (l_cells (get_mut_with L i u) j) = map_option c_public_key (l_cells L j)"
    "map_option c_id (l_cells (get_mut_with L i u) j) = map_option c_id (l_cells L j)" for j
    using sealedD(1,2) [OF assms(2)]
    by (auto simp: get_mut_with_def Let_def invalidate_leaf_cache_def split: option.splits)
  have "l_pubkey_index (get_mut_with L i u) = l_pubkey_index L"
    by (simp add: get_mut_with_def Let_def split: option.splits)
  then show "index_ok (get_mut_with L i u)"
    using index_ok_cong same(1) assms(1) unfolding ledger_inv_def by blast
  show "keyed (get_mut_with L i u)"
    using keyed_cong [OF same(2)] assms(1) unfolding ledger_inv_def by blast
  have "l_restore_point (get_mut_with L i u) = l_restore_point (journal_cell L i)"
    by (simp add: get_mut_with_def Let_def split: option.splits)
  then show "images_keyed (get_mut_with L i u)"
    using images_keyed_journal [of L i] images_keyed_cong assms(1) unfolding ledger_inv_def by blast
qed

lemma insert_cell_inv:
  assumes "ledger_inv E L"
  shows "ledger_inv E (snd (insert_cell L c))"
proof (cases "l_cells L (c_id c) = None")
  case True
  let ?c = "invalidate_leaf_cache c" and ?L = "snd (insert_cell L c)"
  have id: "c_id ?c = c_id c" by (simp add: invalidate_leaf_cache_def)
  have f: "l_cells ?L = (l_cells L)(c_id c \<mapsto> ?c)"
    "l_pubkey_index ?L = l_pubkey_index (pubkey_index_add L (c_public_key ?c) (c_id c))"
    "l_restore_point ?L = l_restore_point (journal_cell L (c_id c))"
    using True by (simp_all add: insert_cell_def Let_def id)
  show ?thesis
  proof
    show "tree_inv E ?L" using assms by (simp add: ledger_inv_def insert_cell_tree_inv)
    show "index_ok ?L" using index_ok_add [OF _ True f(1,2)] assms by (simp add: ledger_inv_def)
    show "keyed ?L" using keyed_upd [OF _ id f(1)] assms by (simp add: ledger_inv_def)
    show "images_keyed ?L"
      using images_keyed_cong [OF f(3)] images_keyed_journal assms by (simp add: ledger_inv_def)
  qed
qed (use assms in \<open>simp add: insert_cell_def\<close>)

lemma create_cell_insert:
  assumes "l_cells L (derive_raw E pk tok) = None"
  shows "create_cell E L pk tok =
    (derive_raw E pk tok, snd (insert_cell L (new_hosted E pk tok)))"
  using assms
  by (simp add: create_cell_def insert_cell_def new_hosted_def cell_new_def invalidate_leaf_cache_def Let_def)

lemma ledger_remove_inv:
  assumes "ledger_inv E L"
  shows "ledger_inv E (snd (ledger_remove L i))"
proof
  let ?L = "snd (ledger_remove L i)"
  show "tree_inv E ?L" using assms by (simp add: ledger_inv_def ledger_remove_tree_inv)
  show "index_ok ?L"
  proof (cases "l_cells L i")
    case None
    then show ?thesis
      using assms index_ok_cong [of ?L L] by (auto simp: ledger_remove_def Let_def ledger_inv_def)
  next
    case (Some c)
    then show ?thesis
      using assms index_ok_remove [OF _ Some, of ?L] by (simp add: ledger_remove_def Let_def ledger_inv_def)
  qed
  have "l_cells ?L = (l_cells L)(i := None)"
    by (cases "l_cells L i") (simp_all add: ledger_remove_def Let_def)
  then show "keyed ?L" using assms by (simp add: ledger_inv_def keyed_def)
  have "l_restore_point ?L = l_restore_point (journal_cell L i)"
    by (cases "l_cells L i") (simp_all add: ledger_remove_def Let_def)
  then show "images_keyed ?L"
    using images_keyed_journal [of L i] images_keyed_cong assms unfolding ledger_inv_def by blast
qed

lemma update_with_inv:
  assumes inv: "ledger_inv E L" and u: "sealed (\<lambda>c. snd (f c))"
  shows "ledger_inv E (snd (update_with E L i f))"
proof (cases "l_cells L i")
  case None
  have "snd (update_with E L i f) = get_mut_with L i id"
    using None by (simp add: update_with_def get_mut_with_def Let_def)
  then show ?thesis using get_mut_with_inv [OF inv, of id] by (simp add: sealed_def)
next
  case (Some c)
  show ?thesis
  proof (cases "verify_id_integrity E (snd (f (invalidate_leaf_cache c)))")
    case True
    then have "snd (update_with E L i f) = get_mut_with L i (\<lambda>c. snd (f c))"
      using Some by (simp add: update_with_def get_mut_with_def Let_def case_prod_beta)
    then show ?thesis using get_mut_with_inv [OF inv u] by simp
  next
    case False
    then have "snd (update_with E L i f) = journal_cell L i"
      using Some by (simp add: update_with_def Let_def case_prod_beta fun_upd_idem)
    then show ?thesis
      using inv images_keyed_journal [of L i] tree_inv_cong [of "journal_cell L i" L E]
        index_ok_cong [of "journal_cell L i" L] keyed_cong [of "journal_cell L i" L]
      by (simp add: ledger_inv_def)
  qed
qed

section \<open>Reading the root\<close>

lemma update_leaf_rest [simp]:
  "l_pubkey_index (update_leaf E i L) = l_pubkey_index L"
  "l_restore_point (update_leaf E i L) = l_restore_point L"
  "l_sovereign_commitments (update_leaf E i L) = l_sovereign_commitments L"
  "l_sovereign_registrations (update_leaf E i L) = l_sovereign_registrations L"
  "l_sovereign_witness_sequence (update_leaf E i L) = l_sovereign_witness_sequence L"
  "l_migration_locks (update_leaf E i L) = l_migration_locks L"
  by (auto simp: update_leaf_def Let_def split: option.splits prod.splits)

lemma update_leaves_rest [simp]:
  "l_pubkey_index (fold (update_leaf E) is L) = l_pubkey_index L"
  "l_restore_point (fold (update_leaf E) is L) = l_restore_point L"
  "l_sovereign_commitments (fold (update_leaf E) is L) = l_sovereign_commitments L"
  "l_sovereign_registrations (fold (update_leaf E) is L) = l_sovereign_registrations L"
  "l_sovereign_witness_sequence (fold (update_leaf E) is L) = l_sovereign_witness_sequence L"
  "l_migration_locks (fold (update_leaf E) is L) = l_migration_locks L"
  by (induction "is" arbitrary: L) simp_all

lemma rebuild_tree_rest [simp]:
  "l_pubkey_index (rebuild_tree E L) = l_pubkey_index L"
  "l_restore_point (rebuild_tree E L) = l_restore_point L"
  "l_sovereign_commitments (rebuild_tree E L) = l_sovereign_commitments L"
  "l_sovereign_registrations (rebuild_tree E L) = l_sovereign_registrations L"
  "l_sovereign_witness_sequence (rebuild_tree E L) = l_sovereign_witness_sequence L"
  "l_migration_locks (rebuild_tree E L) = l_migration_locks L"
  by (simp_all add: rebuild_tree_def Let_def)

lemma materialize_rest [simp]:
  "l_pubkey_index (materialize E L) = l_pubkey_index L"
  "l_restore_point (materialize E L) = l_restore_point L"
  "l_sovereign_commitments (materialize E L) = l_sovereign_commitments L"
  "l_sovereign_registrations (materialize E L) = l_sovereign_registrations L"
  "l_sovereign_witness_sequence (materialize E L) = l_sovereign_witness_sequence L"
  "l_migration_locks (materialize E L) = l_migration_locks L"
  by (simp_all add: materialize_def Let_def split: pending.splits)

lemma strip_leaf_fields:
  "strip_leaf c = strip_leaf d \<Longrightarrow> c_public_key c = c_public_key d \<and> c_id c = c_id d"
  by (auto simp: strip_leaf_def dest!: arg_cong [where f = "\<lambda>c. (c_public_key c, c_id c)"])

lemma strip_cells_same:
  assumes "strip_cells a = strip_cells b"
  shows "map_option c_public_key (a i) = map_option c_public_key (b i)"
    "map_option c_id (a i) = map_option c_id (b i)"
proof -
  have "map_option strip_leaf (a i) = map_option strip_leaf (b i)"
    using assms unfolding strip_cells_def by (rule fun_cong)
  then show "map_option c_public_key (a i) = map_option c_public_key (b i)"
    "map_option c_id (a i) = map_option c_id (b i)"
    by (cases "a i"; cases "b i"; auto dest: strip_leaf_fields)+
qed

text \<open>A change of digest memos only.\<close>

lemma memo_change_inv:
  assumes "ledger_inv E L" "tree_inv E L'" "strip_cells (l_cells L') = strip_cells (l_cells L)"
    "l_pubkey_index L' = l_pubkey_index L" "l_restore_point L' = l_restore_point L"
  shows "ledger_inv E L'"
  using assms index_ok_cong [OF assms(4) strip_cells_same(1) [OF assms(3)]]
    keyed_cong [OF strip_cells_same(2) [OF assms(3)]] images_keyed_cong [OF assms(5)]
  by (simp add: ledger_inv_def)

lemma materialize_inv: "ledger_inv E L \<Longrightarrow> ledger_inv E (materialize E L)"
  using memo_change_inv [of E L "materialize E L"] materialize_correct [of E L]
  by (simp add: ledger_inv_def materialized_def)

lemma ledger_root_inv: "ledger_inv E L \<Longrightarrow> ledger_inv E (snd (ledger_root E L))"
  by (simp add: ledger_root_def Let_def materialize_inv)

lemma tree_inv_memo_write:
  assumes inv: "tree_inv E L" and c: "l_cells L i = Some c" and s: "strip_leaf c' = strip_leaf c"
    and m: "memo_ok E c'"
  shows "tree_inv E (L\<lparr>l_cells := (l_cells L)(i \<mapsto> c')\<rparr>)"
proof -
  have ids: "cell_ids ((l_cells L)(i \<mapsto> c')) = cell_ids (l_cells L)"
    using c by (simp add: cell_ids_def insert_absorb domI)
  have "commit_of E c' = commit_of E c" by (rule commit_of_strip_eq [OF s])
  then have commit: "commit_of E (the (((l_cells L)(i \<mapsto> c')) j)) = commit_of E (the (l_cells L j))" for j
    using c by simp
  have "tree_matches E (L\<lparr>l_cells := (l_cells L)(i \<mapsto> c')\<rparr>) S = tree_matches E L S" for S
    using commit by (simp add: tree_matches_def ids positions_of_def del: fun_upd_apply)
  moreover have "dom (l_cells L) \<noteq> {}" using c by auto
  ultimately show ?thesis
    using inv m by (cases "l_pending L") (auto simp: tree_inv_def split: if_splits)
qed

lemma membership_proof_inv:
  assumes "ledger_inv E L"
  shows "ledger_inv E (snd (membership_proof_of E L i))"
proof (cases "l_cells L i = None")
  case False
  let ?M = "materialize E L"
  have inv: "ledger_inv E ?M" and strip: "strip_cells (l_cells ?M) = strip_cells (l_cells L)"
    using materialize_inv [OF assms] materialize_correct [of E L] assms
    by (simp_all add: materialized_def ledger_inv_def)
  then have "dom (l_cells ?M) = dom (l_cells L)" by (metis dom_strip)
  then obtain c where c: "l_cells ?M i = Some c" using False by blast
  then have m: "memo_ok E c" using inv by (simp add: ledger_inv_def tree_inv_def)
  let ?L' = "?M\<lparr>l_cells := (l_cells ?M)(i \<mapsto> snd (cached_leaf_digest E c))\<rparr>"
  have "tree_inv E ?L'"
    using cached_leaf_digest_cell [OF m] inv c tree_inv_memo_write [of E ?M i c]
    by (simp add: ledger_inv_def)
  moreover have "strip_cells (l_cells ?L') = strip_cells (l_cells ?M)"
    using cached_leaf_digest_cell [OF m] c by (auto simp: strip_cells_def)
  ultimately have "ledger_inv E ?L'" using memo_change_inv [OF inv] by simp
  then show ?thesis
    using False c by (auto simp: membership_proof_of_def Let_def case_prod_beta split: option.splits)
qed (use assms in \<open>simp add: membership_proof_of_def\<close>)

section \<open>Sovereign cells, migration and the restore point\<close>

lemma make_sovereign_inv:
  assumes "ledger_inv E L"
  shows "ledger_inv E (snd (make_sovereign E L i))"
proof -
  have "same_store (snd (ledger_remove L i)) (snd (make_sovereign E L i))"
    by (auto simp: make_sovereign_def same_store_def split: prod.splits option.splits)
  then show ?thesis using same_store_inv ledger_remove_inv [OF assms] by blast
qed

lemma undo_make_sovereign_inv:
  assumes "ledger_inv E L"
  shows "ledger_inv E (undo_make_sovereign L c)"
proof -
  have "ledger_inv E (L\<lparr>l_sovereign_commitments := (l_sovereign_commitments L)(c_id c := None)\<rparr>)"
    by (rule same_store_inv [OF _ assms]) (simp add: same_store_def)
  then show ?thesis unfolding undo_make_sovereign_def by (rule insert_cell_inv)
qed

lemma migrate_accept_inv:
  assumes "ledger_inv E L"
  shows "ledger_inv E (snd (migrate_accept E L v c g t))"
proof (cases "\<exists>r. fst (migrate_accept E L v c g t) = Inr r \<and> mv_target_mode v = Hosted")
  case True
  let ?L = "snd (migrate_accept E L v c g t)"
  let ?c = "(invalidate_leaf_cache c)\<lparr>c_mode := Hosted, c_lifecycle := Live\<rparr>"
  have none: "l_cells L (c_id c) = None"
    using True accept_ok(3) [of E L v c g t _ ?L] by (auto simp: present_def prod_eq_iff)
  have id: "c_id ?c = c_id c" "c_leaf_cache ?c = None" by (simp_all add: invalidate_leaf_cache_def)
  have f: "l_cells ?L = (l_cells L)(c_id c \<mapsto> ?c)" "l_pending ?L = Structural"
    "l_pubkey_index ?L = l_pubkey_index (pubkey_index_add L (c_public_key ?c) (c_id c))"
    "l_restore_point ?L = l_restore_point L"
    using True by (auto simp: migrate_accept_def Let_def split: if_splits)
  show ?thesis
  proof
    show "tree_inv E ?L"
      using assms id by (intro tree_inv_structural) (auto simp: f ledger_inv_def tree_inv_def memo_ok_def)
    show "index_ok ?L" using index_ok_add [OF _ none f(1,3)] assms by (simp add: ledger_inv_def)
    show "keyed ?L" using keyed_upd [OF _ id(1) f(1)] assms by (simp add: ledger_inv_def)
    show "images_keyed ?L" using images_keyed_cong [OF f(4)] assms by (simp add: ledger_inv_def)
  qed
next
  case False
  then have "same_store L (snd (migrate_accept E L v c g t))"
    by (cases "mv_target_mode v") (auto simp: migrate_accept_def same_store_def split: if_splits)
  then show ?thesis using same_store_inv assms by blast
qed

lemma migrate_commit_inv:
  assumes inv: "ledger_inv E L"
  shows "ledger_inv E (snd (migrate_commit E L i r))"
proof (cases "l_migration_locks L i = None \<or> l_cells L i = None")
  case True
  then show ?thesis using inv by (auto simp: migrate_commit_def split: option.splits)
next
  case False
  then obtain lock c where lc: "l_migration_locks L i = Some lock" "l_cells L i = Some c" by auto
  let ?c = "invalidate_leaf_cache c"
  let ?t = "\<lambda>c. c\<lparr>c_lifecycle := Migrated (c_id c) (receipt_attestation E r) (mr_accepted_at r)\<rparr> :: cell"
  obtain res c' where m: "cell_migrate_commit E ?c (ml_voucher lock) r = (res, c')"
    by (cases "cell_migrate_commit E ?c (ml_voucher lock) r")
  show ?thesis
  proof (cases "res = Inr ()")
    case True
    then have c': "c' = ?t ?c" using cell_migrate_commit_cases [OF m] by simp
    let ?W = "L\<lparr>l_cells := (l_cells L)(i \<mapsto> c'), l_pending := touch_value i (l_pending L)\<rparr>"
    have "snd (migrate_commit E L i r) = ?W\<lparr>l_migration_locks := (l_migration_locks L)(i := None)\<rparr>"
      using m True lc by (simp add: migrate_commit_def)
    moreover have "tree_inv E ?W"
      using tree_inv_write [OF _ lc(2), of E c'] inv
      by (simp add: ledger_inv_def c' memo_ok_def invalidate_leaf_cache_def)
    moreover have "index_ok ?W"
      using index_ok_cong [of ?W L] inv lc(2) by (simp add: ledger_inv_def c' invalidate_leaf_cache_def)
    moreover have "keyed ?W"
      using keyed_cong [of ?W L] inv lc(2) by (simp add: ledger_inv_def c' invalidate_leaf_cache_def)
    moreover have "images_keyed ?W" using images_keyed_cong [of ?W L] inv by (simp add: ledger_inv_def)
    ultimately show ?thesis
      using same_store_inv [of ?W "?W\<lparr>l_migration_locks := (l_migration_locks L)(i := None)\<rparr>" E]
      by (simp add: ledger_inv_def same_store_def)
  next
    case False
    then have "c' = ?c" using cell_migrate_commit_cases [OF m] by auto
    then have L': "snd (migrate_commit E L i r) = L\<lparr>l_cells := (l_cells L)(i \<mapsto> ?c)\<rparr>"
      using m False lc by (cases res) (simp_all add: migrate_commit_def)
    have s: "strip_cells ((l_cells L)(i \<mapsto> ?c)) = strip_cells (l_cells L)"
      using lc(2) by (auto simp: strip_cells_def)
    have "tree_inv E (L\<lparr>l_cells := (l_cells L)(i \<mapsto> ?c)\<rparr>)"
      using tree_inv_memo_write [OF _ lc(2), of E ?c] inv by (simp add: ledger_inv_def)
    then show ?thesis unfolding L' by (rule memo_change_inv [OF inv]) (simp_all add: s)
  qed
qed

lemma begin_restore_point_inv: "ledger_inv E L \<Longrightarrow> ledger_inv E (begin_restore_point L)"
  using tree_inv_cong [of "begin_restore_point L" L E] index_ok_cong [of "begin_restore_point L" L]
  by (simp add: ledger_inv_def begin_restore_point_def images_keyed_def keyed_def)

lemma commit_restore_point_inv: "ledger_inv E L \<Longrightarrow> ledger_inv E (commit_restore_point L)"
  using tree_inv_cong [of "commit_restore_point L" L E] index_ok_cong [of "commit_restore_point L" L]
  by (simp add: ledger_inv_def commit_restore_point_def images_keyed_def keyed_def)

lemma rollback_cells_inv: "ledger_inv E L \<Longrightarrow> ledger_inv E (rollback_cells prior order L)"
proof (induction order arbitrary: L)
  case (Cons i order)
  then show ?case
    by (auto simp: Let_def intro!: Cons.IH ledger_remove_inv insert_cell_inv split: option.splits)
qed simp

lemma rollback_restore_point_inv:
  assumes "ledger_inv E L"
  shows "ledger_inv E (rollback_restore_point order L)"
proof (cases "l_restore_point L")
  case (Some rp)
  let ?L = "L\<lparr>l_restore_point := None, l_sovereign_commitments := rp_sovereign_commitments rp,
     l_sovereign_registrations := rp_sovereign_registrations rp,
     l_sovereign_witness_sequence := rp_sovereign_witness_sequence rp,
     l_migration_locks := rp_migration_locks rp\<rparr>"
  have "ledger_inv E ?L"
    using assms tree_inv_cong [of ?L L E] index_ok_cong [of ?L L]
    by (simp add: ledger_inv_def images_keyed_def keyed_def)
  then show ?thesis using Some by (simp add: rollback_restore_point_def rollback_cells_inv)
qed (use assms in \<open>simp add: rollback_restore_point_def\<close>)

section \<open>Deltas\<close>

text \<open>
  What a run of in-place updates and transfers keeps: the set of cells, their keys and memos, and
  every cell outside the set \<open>T\<close> of touched ids.
\<close>

definition delta_kept :: "('a cell_crypto_scheme) \<Rightarrow> cell_id set \<Rightarrow> ledger \<Rightarrow> ledger \<Rightarrow> bool" where
  "delta_kept E T L L' \<longleftrightarrow>
     L'\<lparr>l_cells := l_cells L\<rparr> = L \<and> dom (l_cells L') = dom (l_cells L) \<and>
     (\<forall>i. i \<notin> T \<longrightarrow> l_cells L' i = l_cells L i) \<and>
     (\<forall>i. map_option c_public_key (l_cells L' i) = map_option c_public_key (l_cells L i) \<and>
          map_option c_id (l_cells L' i) = map_option c_id (l_cells L i)) \<and>
     ((\<forall>i c. l_cells L i = Some c \<longrightarrow> memo_ok E c) \<longrightarrow> (\<forall>i c. l_cells L' i = Some c \<longrightarrow> memo_ok E c))"

lemma delta_kept_refl [simp]: "delta_kept E T L L"
  by (simp add: delta_kept_def)

lemma delta_keptD:
  assumes "delta_kept E T L L'"
  shows "L'\<lparr>l_cells := l_cells L\<rparr> = L" "dom (l_cells L') = dom (l_cells L)"
    "i \<notin> T \<Longrightarrow> l_cells L' i = l_cells L i"
    "map_option c_public_key (l_cells L' i) = map_option c_public_key (l_cells L i)"
    "map_option c_id (l_cells L' i) = map_option c_id (l_cells L i)"
    "(\<forall>i c. l_cells L i = Some c \<longrightarrow> memo_ok E c) \<Longrightarrow> (\<forall>i c. l_cells L' i = Some c \<longrightarrow> memo_ok E c)"
  using assms unfolding delta_kept_def by blast+

lemma delta_kept_trans:
  assumes "delta_kept E S L L1" "delta_kept E T L1 L2" "S \<subseteq> U" "T \<subseteq> U"
  shows "delta_kept E U L L2"
proof -
  have "L2\<lparr>l_cells := l_cells L\<rparr> = (L2\<lparr>l_cells := l_cells L1\<rparr>)\<lparr>l_cells := l_cells L\<rparr>" by simp
  also have "\<dots> = L" unfolding delta_keptD(1) [OF assms(2)] by (rule delta_keptD(1) [OF assms(1)])
  finally have "L2\<lparr>l_cells := l_cells L\<rparr> = L" .
  moreover have "l_cells L2 i = l_cells L i" if "i \<notin> U" for i
  proof -
    have "i \<notin> S" "i \<notin> T" using that assms(3,4) by auto
    then show ?thesis using delta_keptD(3) [OF assms(1)] delta_keptD(3) [OF assms(2)] by simp
  qed
  ultimately show ?thesis
    unfolding delta_kept_def
    by (simp add: delta_keptD(2,4,5) [OF assms(1)] delta_keptD(2,4,5) [OF assms(2)])
       (use delta_keptD(6) [OF assms(1)] delta_keptD(6) [OF assms(2)] in blast)
qed

lemma delta_kept_write:
  assumes "l_cells L i = Some c" "c_public_key c' = c_public_key c" "c_id c' = c_id c"
    "c_leaf_cache c' = None" "i \<in> T"
  shows "delta_kept E T L (L\<lparr>l_cells := (l_cells L)(i \<mapsto> c')\<rparr>)"
  using assms by (auto simp: delta_kept_def memo_ok_def)

lemma apply_field_updates_sealed:
  "c_id (snd (foreach (apply_field_update i) us c)) = c_id c \<and>
   c_leaf_cache (snd (foreach (apply_field_update i) us c)) = c_leaf_cache c"
  by (rule foreach_inv [where P = "\<lambda>x. c_id x = c_id c \<and> c_leaf_cache x = c_leaf_cache c"])
     (auto simp: apply_field_update_def split: prod.splits)

lemma apply_cell_delta_sealed:
  "c_id (snd (apply_cell_delta E c d i)) = c_id c"
  "c_leaf_cache (snd (apply_cell_delta E c d i)) = None"
  using apply_field_updates_sealed [of i "cd_field_updates d" "invalidate_leaf_cache c"]
  by (auto simp: apply_cell_delta_def Let_def invalidate_leaf_cache_def split: prod.splits option.splits)

lemma delta_update_kept:
  "delta_kept E' {fst u} (fst s) (fst (snd (delta_update E u s)))"
proof -
  obtain L undo i d where s: "s = (L, undo)" and u: "u = (i, d)" by (cases s; cases u)
  show ?thesis
    by (auto simp: s u delta_update_def Let_def apply_cell_delta_sealed apply_cell_delta_pk
        intro!: delta_kept_write split: option.splits prod.splits
        dest!: arg_cong [where f = snd, of "apply_cell_delta E _ _ _"])
qed

lemma set_cell_balance_kept:
  "l_cells L i = Some c \<Longrightarrow> i \<in> T \<Longrightarrow>
     delta_kept E T L (L\<lparr>l_cells := (l_cells L)(i \<mapsto> set_cell_balance b c)\<rparr>)"
  "l_cells L i = Some c \<Longrightarrow> i \<in> T \<Longrightarrow>
     delta_kept E T L (L\<lparr>l_cells := (l_cells L)(i \<mapsto> invalidate_leaf_cache c)\<rparr>)"
  by (rule delta_kept_write; simp add: set_cell_balance_def invalidate_leaf_cache_def)+

lemma delta_transfer_kept:
  "delta_kept E {fst t, fst (snd t)} (fst s) (fst (snd (delta_transfer t s)))"
proof -
  obtain L undo a b m where s: "s = (L, undo)" and t: "t = (a, b, m)" by (cases s; cases t)
  show ?thesis
  proof (cases "i64_try_from m")
    case None
    then show ?thesis by (simp add: s t delta_transfer_def)
  next
    case (Some amt)
    show ?thesis
    proof (cases "l_cells L a")
      case None
      then show ?thesis using Some by (simp add: s t delta_transfer_def Let_def)
    next
      case (Some ca)
      let ?L1 = "L\<lparr>l_cells := (l_cells L)(a \<mapsto> set_cell_balance (st_balance (c_state ca) - amt) ca)\<rparr>"
      have 1: "delta_kept E {a} L ?L1" by (rule set_cell_balance_kept(1) [OF Some]) simp
      have 2: "delta_kept E {a, b} L (?L1\<lparr>l_cells := (l_cells ?L1)(b \<mapsto> x)\<rparr>)"
        if "l_cells ?L1 b = Some cb" "x = invalidate_leaf_cache cb \<or> (\<exists>n. x = set_cell_balance n cb)" for x cb
        using delta_kept_trans [OF 1, of "{b}" _ "{a, b}"] set_cell_balance_kept [OF that(1), of "{b}" E] that(2)
        by blast
      have 3: "delta_kept E {a, b} L ?L1" by (rule delta_kept_trans [OF 1, of "{}"]) auto
      show ?thesis
      proof (cases "l_cells ?L1 b")
        case None
        then show ?thesis
          using Some \<open>i64_try_from m = Some amt\<close> 3 by (simp add: s t delta_transfer_def Let_def del: fun_upd_apply)
      next
        case (Some cb)
        then show ?thesis
          using \<open>l_cells L a = Some ca\<close> \<open>i64_try_from m = Some amt\<close> 2 [OF Some]
          by (auto simp: s t delta_transfer_def Let_def simp del: fun_upd_apply split: option.splits)
      qed
    qed
  qed
qed

lemma foreach_kept:
  assumes "\<And>x s. x \<in> set xs \<Longrightarrow> delta_kept E T (fst s) (fst (snd (g x s)))"
  shows "delta_kept E T (fst s) (fst (snd (foreach g xs s)))"
  by (rule foreach_inv [where P = "\<lambda>s'. delta_kept E T (fst s) (fst s')"])
     (auto intro: delta_kept_trans [OF _ assms])

definition touched :: "ledger_delta \<Rightarrow> cell_id list" where
  "touched d = map fst (ld_updated d) @ concat (map (\<lambda>(a, b, _). [a, b]) (ld_computron_transfers d))"

lemma delta_middle_kept:
  assumes "foreach (delta_update E) (ld_updated d) s = (e, s1)"
    "foreach delta_transfer (ld_computron_transfers d) s1 = (e', s2)"
  shows "delta_kept E' (set (touched d)) (fst s) (fst s2)"
proof -
  have "delta_kept E' (set (touched d)) (fst s) (fst (snd (foreach (delta_update E) (ld_updated d) s)))"
    by (rule foreach_kept) (rule delta_kept_trans [OF delta_kept_refl delta_update_kept order_refl],
        auto simp: touched_def)
  moreover have "delta_kept E' (set (touched d)) (fst s1)
      (fst (snd (foreach delta_transfer (ld_computron_transfers d) s1)))"
    by (rule foreach_kept) (rule delta_kept_trans [OF delta_kept_refl delta_transfer_kept order_refl],
        force simp: touched_def)
  ultimately show ?thesis using delta_kept_trans assms by fastforce
qed

text \<open>The part of the invariant that does not mention the tree.\<close>

definition store_ok :: "('a cell_crypto_scheme) \<Rightarrow> ledger \<Rightarrow> bool" where
  "store_ok E L \<longleftrightarrow> finite (dom (l_cells L)) \<and> (\<forall>i c. l_cells L i = Some c \<longrightarrow> memo_ok E c) \<and>
     index_ok L \<and> keyed L \<and> images_keyed L"

lemma ledger_inv_store: "ledger_inv E L \<Longrightarrow> store_ok E L"
  by (simp add: ledger_inv_def store_ok_def tree_inv_def)

lemma store_structural_inv:
  assumes "store_ok E L"
  shows "ledger_inv E (L\<lparr>l_pending := Structural\<rparr>)"
proof -
  let ?L = "L\<lparr>l_pending := Structural\<rparr>"
  show ?thesis
    using assms index_ok_cong [of ?L L]
    by (simp add: ledger_inv_def store_ok_def tree_inv_def keyed_def images_keyed_def)
qed

lemma delta_create_store:
  assumes "store_ok E (fst s)" "l_cells (fst s) (c_id c) = None" "memo_ok E c"
  shows "store_ok E (fst (delta_create c s))"
proof -
  let ?L = "fst (delta_create c s)"
  have f: "l_cells ?L = (l_cells (fst s))(c_id c \<mapsto> c)"
    "l_pubkey_index ?L = l_pubkey_index (pubkey_index_add (fst s) (c_public_key c) (c_id c))"
    "l_restore_point ?L = l_restore_point (fst s)"
    by (simp_all add: delta_create_def Let_def case_prod_beta)
  have "index_ok ?L" using index_ok_add [OF _ assms(2) f(1,2)] assms(1) by (simp add: store_ok_def)
  moreover have "keyed ?L" using keyed_upd [OF _ _ f(1)] assms(1) by (simp add: store_ok_def)
  moreover have "images_keyed ?L" using images_keyed_cong [OF f(3)] assms(1) by (simp add: store_ok_def)
  ultimately show ?thesis using assms(1,3) by (auto simp: store_ok_def f(1))
qed

lemma delta_creates_store:
  assumes "store_ok E (fst s)" "distinct (map c_id cs)"
    "\<forall>c \<in> set cs. l_cells (fst s) (c_id c) = None \<and> memo_ok E c"
  shows "store_ok E (fst (fold delta_create cs s))"
  using assms
proof (induction cs arbitrary: s)
  case (Cons c cs)
  have "\<forall>x \<in> set cs. l_cells (fst (delta_create c s)) (c_id x) = None \<and> memo_ok E x"
    using Cons.prems(2,3) by (auto simp: delta_create_def Let_def case_prod_beta image_iff)
  then show ?case using Cons.IH [OF delta_create_store] Cons.prems by simp
qed simp

lemma delta_remove_store:
  assumes "store_ok E (fst s)"
  shows "store_ok E (fst (delta_remove i s))"
proof (cases "l_cells (fst s) i")
  case None
  then show ?thesis using assms by (simp add: delta_remove_def Let_def case_prod_beta)
next
  case (Some c)
  let ?L = "fst (delta_remove i s)"
  have f: "l_cells ?L = (l_cells (fst s))(i := None)"
    "l_pubkey_index ?L = l_pubkey_index (pubkey_index_remove (fst s) (c_public_key c) i)"
    "l_restore_point ?L = l_restore_point (fst s)"
    using Some by (simp_all add: delta_remove_def Let_def case_prod_beta)
  have "index_ok ?L" using index_ok_remove [OF _ Some f(1,2)] assms by (simp add: store_ok_def)
  moreover have "images_keyed ?L" using images_keyed_cong [OF f(3)] assms by (simp add: store_ok_def)
  ultimately show ?thesis using assms by (auto simp: store_ok_def f(1) keyed_def split: if_splits)
qed

lemma delta_removes_store: "store_ok E (fst s) \<Longrightarrow> store_ok E (fst (fold delta_remove is s))"
  by (induction "is" arbitrary: s) (simp_all add: delta_remove_store)

lemma delta_kept_fields:
  assumes "delta_kept E T L L'"
  shows "l_pubkey_index L' = l_pubkey_index L" "l_restore_point L' = l_restore_point L"
    "l_pending L' = l_pending L" "l_tree_levels L' = l_tree_levels L" "l_root L' = l_root L"
    "l_leaf_positions L' = l_leaf_positions L"
proof -
  note eq = delta_keptD(1) [OF assms]
  show "l_pubkey_index L' = l_pubkey_index L" "l_restore_point L' = l_restore_point L"
    "l_pending L' = l_pending L" "l_tree_levels L' = l_tree_levels L" "l_root L' = l_root L"
    "l_leaf_positions L' = l_leaf_positions L"
    using arg_cong [OF eq, of l_pubkey_index] arg_cong [OF eq, of l_restore_point]
      arg_cong [OF eq, of l_pending] arg_cong [OF eq, of l_tree_levels] arg_cong [OF eq, of l_root]
      arg_cong [OF eq, of l_leaf_positions]
    by simp_all
qed

lemma delta_kept_store:
  assumes "delta_kept E T L L'" "store_ok E L"
  shows "store_ok E L'"
  using assms(2) delta_keptD(2,6) [OF assms(1)]
    index_ok_cong [OF delta_kept_fields(1) [OF assms(1)] delta_keptD(4) [OF assms(1)]]
    keyed_cong [OF delta_keptD(5) [OF assms(1)]] images_keyed_cong [OF delta_kept_fields(2) [OF assms(1)]]
  by (simp add: store_ok_def)

lemma fold_touch_value:
  "fold touch_value is p =
     (case p of Clean \<Rightarrow> if is = [] then Clean else Values (set is)
      | Values s \<Rightarrow> Values (s \<union> set is) | Structural \<Rightarrow> Structural)"
  by (induction "is" arbitrary: p) (auto split: pending.splits)

lemma fold_touch_transfers:
  "fold (\<lambda>(from_id, to_id, _) p. touch_value to_id (touch_value from_id p)) ts p =
     fold touch_value (concat (map (\<lambda>(a, b, _). [a, b]) ts)) p"
  by (induction ts arbitrary: p) auto

lemma fold_touch_updates: "fold (\<lambda>(i, _) p. touch_value i p) us p = fold touch_value (map fst us) p"
  by (induction us arbitrary: p) auto

lemma delta_touch_values:
  "ld_created d = [] \<Longrightarrow> ld_removed d = [] \<Longrightarrow> delta_touch d p = fold touch_value (touched d) p"
  by (simp add: delta_touch_def touched_def fold_touch_transfers fold_touch_updates)

lemma tree_matches_writes:
  assumes "tree_matches E L S" "delta_kept E T L L'"
  shows "tree_matches E (L'\<lparr>l_pending := p\<rparr>) (S \<union> T)"
proof -
  have ids: "cell_ids (l_cells L') = cell_ids (l_cells L)"
    by (simp add: cell_ids_def delta_keptD(2) [OF assms(2)])
  obtain leaves where lv: "length leaves = length (cell_ids (l_cells L))" "leaves \<noteq> []"
    "l_tree_levels L = build_levels (blake3 E) (pad_leaves leaves)"
    "l_root L = levels_root (l_tree_levels L)" "l_leaf_positions L = positions_of (l_cells L)"
    "\<And>n. n < length leaves \<Longrightarrow> cell_ids (l_cells L) ! n \<notin> S \<Longrightarrow>
      leaves ! n = commit_of E (the (l_cells L (cell_ids (l_cells L) ! n)))"
    using assms(1) unfolding tree_matches_def by blast
  show ?thesis
    unfolding tree_matches_def using lv
    by (intro exI [of _ leaves])
       (simp add: ids positions_of_def delta_kept_fields [OF assms(2)] delta_keptD(3) [OF assms(2)])
qed

lemma tree_inv_writes:
  assumes inv: "tree_inv E L" and k: "delta_kept E (set is) L L'"
  shows "tree_inv E (L'\<lparr>l_pending := fold touch_value is (l_pending L)\<rparr>)"
proof -
  let ?L = "L'\<lparr>l_pending := fold touch_value is (l_pending L)\<rparr>"
  have memo: "\<forall>i c. l_cells L' i = Some c \<longrightarrow> memo_ok E c"
    using delta_keptD(6) [OF k] inv by (simp add: tree_inv_def)
  have fin: "finite (dom (l_cells L'))" using inv delta_keptD(2) [OF k] by (simp add: tree_inv_def)
  note m = tree_matches_writes [OF _ k]
  show ?thesis
  proof (cases "is = []")
    case True
    then have "l_cells L' = l_cells L" using delta_keptD(3) [OF k] by (simp add: fun_eq_iff)
    then have "tree_inv E ?L = tree_inv E L"
      using True delta_kept_fields [OF k] by (intro tree_inv_cong) simp_all
    then show ?thesis using inv by simp
  next
    case False
    then show ?thesis
      using inv memo fin m [of "{}"] m
      by (cases "l_pending L")
         (auto simp: tree_inv_def fold_touch_value delta_kept_fields [OF k] split: if_splits)
  qed
qed

lemma apply_delta_inv:
  assumes inv: "ledger_inv E L" and dist: "distinct (map c_id (ld_created d))"
    and memo: "\<forall>c \<in> set (ld_created d). memo_ok E c" and ord: "enumerates order"
  shows "ledger_inv E (snd (apply_delta E order L d))"
proof (cases "fst (apply_delta E order L d)")
  case (Inl e)
  then have "snd (apply_delta E order L d) = L"
    using apply_delta_failed [OF _ dist ord, of L E e] inv by (metis ledger_inv_def prod.collapse)
  then show ?thesis using inv by simp
next
  case (Inr u)
  let ?s1 = "fold delta_create (ld_created d) (L, Map.empty)"
  have v: "validate_delta L d = None" using Inr by (simp add: apply_delta_def split: option.splits)
  obtain s2 s3 where 2: "foreach (delta_update E) (ld_updated d) ?s1 = (None, s2)"
    and 3: "foreach delta_transfer (ld_computron_transfers d) s2 = (None, s3)"
    and L': "snd (apply_delta E order L d) = (fst (fold delta_remove (ld_removed d) s3))
        \<lparr>l_pending := delta_touch d (l_pending (fst (fold delta_remove (ld_removed d) s3)))\<rparr>"
    using Inr v
    by (auto simp: apply_delta_def apply_delta_in_place_def Let_def split: prod.splits option.splits)
  note kept = delta_middle_kept [OF 2 3, of E]
  show ?thesis
  proof (cases "ld_created d = [] \<and> ld_removed d = []")
    case True
    let ?M = "(fst s3)\<lparr>l_pending := fold touch_value (touched d) (l_pending L)\<rparr>"
    have k: "delta_kept E (set (touched d)) L (fst s3)" using kept True by simp
    have "snd (apply_delta E order L d) = ?M"
      unfolding L' using True by (simp add: delta_touch_values delta_kept_fields(3) [OF k])
    moreover have "tree_inv E ?M" using tree_inv_writes [OF _ k] inv by (simp add: ledger_inv_def)
    moreover have "store_ok E (fst s3)" by (rule delta_kept_store [OF k ledger_inv_store [OF inv]])
    ultimately show ?thesis
      using index_ok_cong [of ?M "fst s3"] keyed_cong [of ?M "fst s3"] images_keyed_cong [of ?M "fst s3"]
      by (simp add: ledger_inv_def store_ok_def)
  next
    case False
    have "store_ok E (fst ?s1)"
      using ledger_inv_store [OF inv] dist memo validate_delta_created [OF v]
      by (intro delta_creates_store) simp_all
    then have "store_ok E (fst (fold delta_remove (ld_removed d) s3))"
      by (intro delta_removes_store delta_kept_store [OF kept])
    then show ?thesis
      unfolding L' using False by (auto simp: delta_touch_def intro: store_structural_inv)
  qed
qed

section \<open>Runs\<close>

text \<open>
  \<open>ledger_op\<close> are the operations an armed restore point covers: they journal the cells they write,
  or change only the side maps it has a copy of. A write keeps the identity of the cell and cannot
  reach the digest memo (the fields are private); \<open>create_cell\<close> does not look whether the id is
  taken, so it is used on a fresh one.
\<close>

inductive ledger_op :: "('a cell_crypto_scheme) \<Rightarrow> ledger \<Rightarrow> ledger \<Rightarrow> bool" for E where
  get_mut: "sealed u \<Longrightarrow> ledger_op E L (get_mut_with L i u)"
| update_with: "sealed (\<lambda>c. snd (f c)) \<Longrightarrow>
    ledger_op E L (snd (update_with E L i (f :: cell \<Rightarrow> unit \<times> cell)))"
| create: "l_cells L (derive_raw E pk tok) = None \<Longrightarrow> ledger_op E L (snd (create_cell E L pk tok))"
| insert: "ledger_op E L (snd (insert_cell L c))"
| remove: "ledger_op E L (snd (ledger_remove L i))"
| root: "ledger_op E L (snd (ledger_root E L))"
| proof_of: "ledger_op E L (snd (membership_proof_of E L i))"
| register: "ledger_op E L (snd (register_sovereign_cell L i h))"
| update_commitment: "ledger_op E L (snd (update_sovereign_commitment L i h))"
| bump: "ledger_op E L (bump_sovereign_witness_sequence L i s)"
| register_vk: "ledger_op E L (snd (register_sovereign_cell_with_vk L i h height ttl vk))"
| deregister: "ledger_op E L (snd (deregister_sovereign_cell L i))"
| update_registration:
    "ledger_op E L (snd (update_sovereign_registration_commitment L i old new height))"
| expire: "ledger_op E L (expire_sovereign_registrations L height)"
| sovereign: "ledger_op E L (snd (make_sovereign E L i))"
| undo_sovereign: "ledger_op E L (undo_make_sovereign L c)"
| migrate_prepare: "ledger_op E L (snd (migrate_prepare E L i from to m t))"

text \<open>A delta is clean when the cells it creates have different ids and carry no digest memo, or the right one.
  \<open>apply_delta\<close> asks for neither; \<open>delta_trusts_created_memo\<close> and \<open>delta_creates_twice\<close> show what happens otherwise.\<close>

definition clean_delta :: "('a cell_crypto_scheme) \<Rightarrow> ledger_delta \<Rightarrow> bool" where
  "clean_delta E d \<longleftrightarrow> distinct (map c_id (ld_created d)) \<and> (\<forall>c \<in> set (ld_created d). memo_ok E c)"

text \<open>\<open>ledger_step\<close> adds clean deltas, the rest of the migration protocol and the restore point itself.\<close>

inductive ledger_step :: "('a cell_crypto_scheme) \<Rightarrow> ledger \<Rightarrow> ledger \<Rightarrow> bool" for E where
  op: "ledger_op E L L' \<Longrightarrow> ledger_step E L L'"
| delta: "clean_delta E d \<Longrightarrow> enumerates order \<Longrightarrow> ledger_step E L (snd (apply_delta E order L d))"
| migrate_accept: "ledger_step E L (snd (migrate_accept E L v c g t))"
| migrate_commit: "ledger_step E L (snd (migrate_commit E L i r))"
| begin_rp: "ledger_step E L (begin_restore_point L)"
| commit_rp: "ledger_step E L (commit_restore_point L)"
| rollback_rp: "ledger_step E L (rollback_restore_point order L)"

lemma ledger_op_inv:
  assumes "ledger_op E L L'" "ledger_inv E L"
  shows "ledger_inv E L'"
  using assms
proof (cases rule: ledger_op.cases)
  case (create pk tok)
  then show ?thesis using assms(2) insert_cell_inv by (simp add: create_cell_insert)
qed (use assms(2) in \<open>simp_all add: get_mut_with_inv update_with_inv insert_cell_inv
  ledger_remove_inv ledger_root_inv membership_proof_inv make_sovereign_inv undo_make_sovereign_inv
  same_store_inv [OF side_maps_same_store(1)] same_store_inv [OF side_maps_same_store(2)]
  same_store_inv [OF side_maps_same_store(3)] same_store_inv [OF side_maps_same_store(4)]
  same_store_inv [OF side_maps_same_store(5)] same_store_inv [OF side_maps_same_store(6)]
  same_store_inv [OF side_maps_same_store(7)] same_store_inv [OF side_maps_same_store(8)]\<close>)

lemma ledger_step_inv:
  assumes "ledger_step E L L'" "ledger_inv E L"
  shows "ledger_inv E L'"
  using assms
  by (cases rule: ledger_step.cases)
     (simp_all add: ledger_op_inv apply_delta_inv clean_delta_def migrate_accept_inv migrate_commit_inv
       begin_restore_point_inv commit_restore_point_inv rollback_restore_point_inv)

lemma ledger_run_inv:
  assumes "(ledger_step E)\<^sup>*\<^sup>* (ledger_new E) L"
  shows "ledger_inv E L"
  using assms by (induction rule: rtranclp_induct) (auto intro: ledger_inv_new ledger_step_inv)

section \<open>Membership proofs\<close>

lemma tree_path_single: "length levels \<le> 1 \<Longrightarrow> tree_path levels pos = []"
  by (cases levels; cases "tl levels") auto

lemma membership_proof_value:
  assumes inv: "ledger_inv E L" and c: "l_cells L i = Some c"
  obtains p where "fst (membership_proof_of E L i) = Some p" "mp_cell_id p = i"
    "mp_leaf_hash p = commit_of E c" "mp_root p = canonical_root E (l_cells L)" "verify_membership E p"
proof -
  let ?M = "materialize E L"
  have m: "materialized E L ?M" using inv by (simp add: ledger_inv_def materialize_correct)
  then have tm: "tree_matches E ?M {}" using c by (auto simp: materialized_def)
  have strip: "strip_cells (l_cells ?M) = strip_cells (l_cells L)" using m by (simp add: materialized_def)
  then have d: "dom (l_cells ?M) = dom (l_cells L)" by (metis dom_strip)
  then have fin: "finite (dom (l_cells ?M))" using inv by (simp add: ledger_inv_def tree_inv_def)
  obtain cM where cM: "l_cells ?M i = Some cM" using d c by blast
  have "map_option strip_leaf (l_cells ?M i) = map_option strip_leaf (l_cells L i)"
    using strip unfolding strip_cells_def by (rule fun_cong)
  then have commit: "commit_of E cM = commit_of E c" using cM c by (auto intro: commit_of_strip_eq)
  have memo: "memo_ok E cM" using m cM by (simp add: materialized_def tree_inv_def)
  obtain leaves where lv: "length leaves = length (cell_ids (l_cells ?M))"
    "l_tree_levels ?M = build_levels (blake3 E) (pad_leaves leaves)"
    "l_root ?M = levels_root (l_tree_levels ?M)" "l_leaf_positions ?M = positions_of (l_cells ?M)"
    "\<And>n. n < length leaves \<Longrightarrow> leaves ! n = commit_of E (the (l_cells ?M (cell_ids (l_cells ?M) ! n)))"
    using tm unfolding tree_matches_def by blast
  obtain pos where pos: "l_leaf_positions ?M i = Some pos"
    using positions_of_None [OF fin, of i] cM lv(4) by auto
  then have "pos < length leaves" "cell_ids (l_cells ?M) ! pos = i"
    using positions_of_iff [OF fin] lv(1,4) by simp_all
  then have leaf: "pad_leaves leaves ! pos = commit_of E c" "pos < length (pad_leaves leaves)"
    using lv(5) cM commit pad_leaves_nth next_power_of_two_ge [of "length leaves"]
    by (simp_all add: length_pad_leaves)
  obtain k where "length (pad_leaves leaves) = 2 ^ k" using pad_leaves_pow by blast
  then have path: "fold_path (blake3 E) (commit_of E c) (tree_path (l_tree_levels ?M) pos) = l_root ?M"
    using fold_tree_path [of "pad_leaves leaves" k pos "blake3 E"] leaf lv(2,3) by simp
  let ?p = "\<lparr>mp_cell_id = i, mp_leaf_hash = commit_of E c,
     mp_path = tree_path (l_tree_levels ?M) pos, mp_root = l_root ?M\<rparr>"
  have "fst (membership_proof_of E L i) = Some ?p"
    using c cM pos cached_leaf_digest_value [OF memo] commit tree_path_single [of "l_tree_levels ?M" pos]
    by (simp add: membership_proof_of_def Let_def case_prod_beta)
  moreover have "verify_membership E ?p" using path by (simp add: verify_membership_def)
  ultimately show ?thesis using that [of ?p] m by (simp add: materialized_def)
qed

section \<open>Rollback to the restore point\<close>

text \<open>
  Relative to the ledger \<open>L0\<close> at which the restore point was armed: its side-map copies are those of
  \<open>L0\<close>, a cell with a recorded image has the image it had, and a cell without one is unchanged. Cells
  are compared up to their digest memo.
\<close>

definition covers :: "ledger \<Rightarrow> ledger \<Rightarrow> bool" where
  "covers L0 L \<longleftrightarrow> (\<exists>rp. l_restore_point L = Some rp \<and>
     rp_sovereign_commitments rp = l_sovereign_commitments L0 \<and>
     rp_sovereign_registrations rp = l_sovereign_registrations L0 \<and>
     rp_sovereign_witness_sequence rp = l_sovereign_witness_sequence L0 \<and>
     rp_migration_locks rp = l_migration_locks L0 \<and>
     (\<forall>i. map_option strip_leaf (case rp_cells rp i of Some p \<Rightarrow> p | None \<Rightarrow> l_cells L i) =
          map_option strip_leaf (l_cells L0 i)))"

lemma covers_begin: "covers L (begin_restore_point L)"
  by (simp add: covers_def begin_restore_point_def)

lemma covers_memo:
  assumes "covers L0 L" "strip_cells (l_cells L') = strip_cells (l_cells L)"
    "l_restore_point L' = l_restore_point L"
  shows "covers L0 L'"
proof -
  have "map_option strip_leaf (l_cells L' i) = map_option strip_leaf (l_cells L i)" for i
    using assms(2) unfolding strip_cells_def by (rule fun_cong)
  then show ?thesis using assms(1,3) by (simp add: covers_def option.case_distrib cong: option.case_cong)
qed

text \<open>A write to one cell after journalling it.\<close>

lemma covers_journal:
  assumes "covers L0 L" "l_restore_point L' = l_restore_point (journal_cell L i)"
    "\<And>j. j \<noteq> i \<Longrightarrow> l_cells L' j = l_cells L j"
  shows "covers L0 L'"
proof -
  obtain rp where rp: "l_restore_point L = Some rp"
    "rp_sovereign_commitments rp = l_sovereign_commitments L0"
    "rp_sovereign_registrations rp = l_sovereign_registrations L0"
    "rp_sovereign_witness_sequence rp = l_sovereign_witness_sequence L0"
    "rp_migration_locks rp = l_migration_locks L0"
    "\<And>j. map_option strip_leaf (case rp_cells rp j of Some p \<Rightarrow> p | None \<Rightarrow> l_cells L j) =
       map_option strip_leaf (l_cells L0 j)"
    using assms(1) unfolding covers_def by blast
  define rp' where "rp' = (if rp_cells rp i \<noteq> None then rp
    else rp\<lparr>rp_cells := (rp_cells rp)(i \<mapsto> l_cells L i)\<rparr>)"
  have "l_restore_point L' = Some rp'"
    using assms(2) rp(1) by (auto simp: journal_cell_def rp'_def)
  moreover have "map_option strip_leaf (case rp_cells rp' j of Some p \<Rightarrow> p | None \<Rightarrow> l_cells L' j) =
      map_option strip_leaf (l_cells L0 j)" for j
    using rp(6) [of j] assms(3) [of j] by (cases "j = i") (auto simp: rp'_def split: option.splits)
  ultimately show ?thesis using rp(2-5) by (auto simp: covers_def rp'_def)
qed

lemma covers_same_store: "covers L0 L \<Longrightarrow> same_store L L' \<Longrightarrow> covers L0 L'"
  by (rule covers_memo) (simp_all add: same_store_def)

lemma covers_get_mut: "covers L0 L \<Longrightarrow> covers L0 (get_mut_with L i u)"
  by (erule covers_journal [of _ _ _ i]) (auto simp: get_mut_with_def Let_def split: option.splits)

lemma covers_update_with: "covers L0 L \<Longrightarrow> covers L0 (snd (update_with E L i f))"
  by (erule covers_journal [of _ _ _ i])
     (auto simp: update_with_def Let_def case_prod_beta split: option.splits)

lemma covers_insert: "covers L0 L \<Longrightarrow> covers L0 (snd (insert_cell L c))"
proof (cases "l_cells L (c_id c) = None")
  case True
  assume "covers L0 L"
  then show ?thesis
    by (rule covers_journal [of _ _ _ "c_id c"])
       (use True in \<open>auto simp: insert_cell_def Let_def invalidate_leaf_cache_def\<close>)
qed (simp add: insert_cell_def)

lemma covers_remove: "covers L0 L \<Longrightarrow> covers L0 (snd (ledger_remove L i))"
  by (erule covers_journal [of _ _ _ i]) (auto simp: ledger_remove_def Let_def split: option.splits)

lemma covers_make_sovereign: "covers L0 L \<Longrightarrow> covers L0 (snd (make_sovereign E L i))"
  by (rule covers_same_store [OF covers_remove [of _ _ i]])
     (auto simp: make_sovereign_def same_store_def split: prod.splits option.splits)

lemma covers_undo_make_sovereign: "covers L0 L \<Longrightarrow> covers L0 (undo_make_sovereign L c)"
  unfolding undo_make_sovereign_def
  by (rule covers_insert, rule covers_memo) simp_all

lemma materialize_strip:
  "ledger_inv E L \<Longrightarrow> strip_cells (l_cells (materialize E L)) = strip_cells (l_cells L)"
  using materialize_correct [of E L] by (simp add: ledger_inv_def materialized_def)

lemma covers_op:
  assumes "ledger_op E L L'" "covers L0 L" "ledger_inv E L"
  shows "covers L0 L'"
  using assms(1)
proof (cases rule: ledger_op.cases)
  case (create pk tok)
  then show ?thesis using covers_insert [OF assms(2)] by (simp add: create_cell_insert)
next
  case root
  then show ?thesis
    using covers_memo [OF assms(2) materialize_strip [OF assms(3)]] by (simp add: ledger_root_def Let_def)
next
  case (proof_of i)
  have "strip_cells (l_cells L') = strip_cells (l_cells L)"
  proof (cases "l_cells L i")
    case None
    then show ?thesis by (simp add: proof_of membership_proof_of_def)
  next
    case (Some c)
    let ?M = "materialize E L"
    have "dom (l_cells ?M) = dom (l_cells L)" by (metis materialize_strip [OF assms(3)] dom_strip)
    then obtain cM where cM: "l_cells ?M i = Some cM" using Some by blast
    then have "memo_ok E cM"
      using materialize_inv [OF assms(3)] by (simp add: ledger_inv_def tree_inv_def)
    then have "strip_cells ((l_cells ?M)(i \<mapsto> snd (cached_leaf_digest E cM))) = strip_cells (l_cells ?M)"
      using cached_leaf_digest_cell [of E cM] cM by (auto simp: strip_cells_def)
    then show ?thesis
      using Some cM materialize_strip [OF assms(3)]
      by (simp add: proof_of membership_proof_of_def Let_def case_prod_beta split: option.splits)
  qed
  moreover have "l_restore_point L' = l_restore_point L"
    by (simp add: proof_of membership_proof_of_def Let_def case_prod_beta split: option.splits)
  ultimately show ?thesis by (rule covers_memo [OF assms(2)])
qed (use assms(2) in \<open>simp_all add: covers_get_mut covers_update_with covers_insert covers_remove
  covers_make_sovereign covers_undo_make_sovereign covers_same_store [OF _ side_maps_same_store(1)]
  covers_same_store [OF _ side_maps_same_store(2)] covers_same_store [OF _ side_maps_same_store(3)]
  covers_same_store [OF _ side_maps_same_store(4)] covers_same_store [OF _ side_maps_same_store(5)]
  covers_same_store [OF _ side_maps_same_store(6)] covers_same_store [OF _ side_maps_same_store(7)]
  covers_same_store [OF _ side_maps_same_store(8)]\<close>)

lemma covered_run:
  assumes "(ledger_op E)\<^sup>*\<^sup>* (begin_restore_point L) L'" "ledger_inv E L"
  shows "covers L L' \<and> ledger_inv E L'"
  using assms(1)
proof (induction rule: rtranclp_induct)
  case base
  then show ?case using covers_begin begin_restore_point_inv assms(2) by blast
next
  case (step y z)
  then show ?case using covers_op ledger_op_inv by blast
qed

text \<open>The side maps, and that no restore point is armed.\<close>

definition side_maps :: "ledger \<Rightarrow> (cell_id \<rightharpoonup> bytes32) \<times> (cell_id \<rightharpoonup> sovereign_registration) \<times>
    (cell_id \<rightharpoonup> u64) \<times> (cell_id \<rightharpoonup> migration_lock)" where
  "side_maps L = (l_sovereign_commitments L, l_sovereign_registrations L,
     l_sovereign_witness_sequence L, l_migration_locks L)"

lemma side_maps_index [simp]:
  "side_maps (pubkey_index_add L pk i) = side_maps L" "side_maps (pubkey_index_remove L pk i) = side_maps L"
  "side_maps (journal_cell L i) = side_maps L"
  "side_maps (L\<lparr>l_cells := m\<rparr>) = side_maps L" "side_maps (L\<lparr>l_pending := p\<rparr>) = side_maps L"
  by (auto simp: side_maps_def pubkey_index_add_def pubkey_index_remove_def Let_def split: option.splits)

lemma remove_insert_rest:
  "side_maps (snd (ledger_remove L i)) = side_maps L"
  "side_maps (snd (insert_cell L c)) = side_maps L"
  "l_restore_point L = None \<Longrightarrow> l_restore_point (snd (ledger_remove L i)) = None"
  "l_restore_point L = None \<Longrightarrow> l_restore_point (snd (insert_cell L c)) = None"
  "l_cells (snd (ledger_remove L i)) = (l_cells L)(i := None)"
  "l_cells (snd (insert_cell L c)) =
     (if l_cells L (c_id c) = None then (l_cells L)(c_id c \<mapsto> invalidate_leaf_cache c) else l_cells L)"
proof -
  show "side_maps (snd (ledger_remove L i)) = side_maps L"
    "l_cells (snd (ledger_remove L i)) = (l_cells L)(i := None)"
    by (cases "l_cells L i"; simp add: ledger_remove_def Let_def)+
  show "side_maps (snd (insert_cell L c)) = side_maps L"
    "l_cells (snd (insert_cell L c)) =
     (if l_cells L (c_id c) = None then (l_cells L)(c_id c \<mapsto> invalidate_leaf_cache c) else l_cells L)"
    by (simp_all add: insert_cell_def Let_def invalidate_leaf_cache_def)
  show "l_restore_point L = None \<Longrightarrow> l_restore_point (snd (ledger_remove L i)) = None"
    by (cases "l_cells L i"; simp add: ledger_remove_def Let_def journal_cell_def)
  show "l_restore_point L = None \<Longrightarrow> l_restore_point (snd (insert_cell L c)) = None"
    by (simp add: insert_cell_def Let_def journal_cell_def)
qed

lemma rollback_cells_rest:
  assumes "l_restore_point L = None"
  shows "side_maps (rollback_cells prior order L) = side_maps L \<and>
    l_restore_point (rollback_cells prior order L) = None"
  using assms
proof (induction order arbitrary: L)
  case (Cons i order)
  let ?L1 = "snd (ledger_remove L i)"
  let ?L2 = "case prior i of Some (Some c) \<Rightarrow> snd (insert_cell ?L1 c) | _ \<Rightarrow> ?L1"
  have "side_maps ?L2 = side_maps L \<and> l_restore_point ?L2 = None"
    using Cons.prems by (simp add: remove_insert_rest split: option.splits)
  then show ?case using Cons.IH [of ?L2] by (simp add: Let_def)
qed simp

lemma rollback_cells_images:
  assumes "\<And>i c. prior i = Some (Some c) \<Longrightarrow> c_id c = i" "set order \<subseteq> dom prior"
  shows "map_option strip_leaf (l_cells (rollback_cells prior order L) j) =
    map_option strip_leaf (if j \<in> set order then the (prior j) else l_cells L j)"
  using assms(2)
proof (induction order arbitrary: L)
  case (Cons i order)
  let ?L1 = "snd (ledger_remove L i)"
  let ?L2 = "case prior i of Some (Some c) \<Rightarrow> snd (insert_cell ?L1 c) | _ \<Rightarrow> ?L1"
  obtain p where p: "prior i = Some p" using Cons.prems by auto
  have "map_option strip_leaf (l_cells ?L2 j) = map_option strip_leaf (if j = i then p else l_cells L j)"
    using p assms(1) [of i] by (cases p) (auto simp: remove_insert_rest)
  then show ?case using Cons.IH [of ?L2] Cons.prems p by (auto simp: Let_def)
qed simp

lemma rollback_restores:
  assumes cov: "covers L L'" and inv: "ledger_inv E L'"
    and ord: "\<And>rp. l_restore_point L' = Some rp \<Longrightarrow> set order = dom (rp_cells rp)"
  shows "strip_cells (l_cells (rollback_restore_point order L')) = strip_cells (l_cells L) \<and>
    side_maps (rollback_restore_point order L') = side_maps L \<and>
    \<not> has_restore_point (rollback_restore_point order L')"
proof -
  obtain rp where rp: "l_restore_point L' = Some rp"
    "rp_sovereign_commitments rp = l_sovereign_commitments L"
    "rp_sovereign_registrations rp = l_sovereign_registrations L"
    "rp_sovereign_witness_sequence rp = l_sovereign_witness_sequence L"
    "rp_migration_locks rp = l_migration_locks L"
    "\<And>i. map_option strip_leaf (case rp_cells rp i of Some p \<Rightarrow> p | None \<Rightarrow> l_cells L' i) =
       map_option strip_leaf (l_cells L i)"
    using cov unfolding covers_def by blast
  let ?S = "L'\<lparr>l_restore_point := None, l_sovereign_commitments := rp_sovereign_commitments rp,
     l_sovereign_registrations := rp_sovereign_registrations rp,
     l_sovereign_witness_sequence := rp_sovereign_witness_sequence rp,
     l_migration_locks := rp_migration_locks rp\<rparr>"
  have R: "rollback_restore_point order L' = rollback_cells (rp_cells rp) order ?S"
    using rp(1) by (simp add: rollback_restore_point_def)
  have keys: "\<And>i c. rp_cells rp i = Some (Some c) \<Longrightarrow> c_id c = i"
    using inv rp(1) by (simp add: ledger_inv_def images_keyed_def)
  have "map_option strip_leaf (l_cells (rollback_cells (rp_cells rp) order ?S) j) =
      map_option strip_leaf (l_cells L j)" for j
  proof -
    have "map_option strip_leaf (l_cells (rollback_cells (rp_cells rp) order ?S) j) =
        map_option strip_leaf (if j \<in> set order then the (rp_cells rp j) else l_cells ?S j)"
      by (rule rollback_cells_images) (use keys ord rp(1) in auto)
    then show ?thesis using rp(6) [of j] ord [OF rp(1)] by (auto split: option.splits)
  qed
  then show ?thesis
    unfolding R using rollback_cells_rest [of ?S "rp_cells rp" order] rp(2-5)
    by (simp add: strip_cells_def side_maps_def has_restore_point_def)
qed

section \<open>Properties\<close>

text \<open>C14. The root is canonical: after any run of ledger operations (writes through references, guarded
  updates, creations, insertions, removals, clean deltas, sovereign and migration operations, restore points
  and rollbacks, earlier root reads and proofs), \<open>root()\<close> returns the hash a full rebuild over the sorted current
  cells gives, whatever mixture of batched leaf updates and rebuilds and digest memos led there,
  and reading it changes no cell beyond its memo. A delta is clean when the cells it creates have
  different ids and arrive without a stale digest memo. The code does not check this; with a stale memo
  the root is not the one of the rebuild (\<open>delta_trusts_created_memo\<close>).\<close>

theorem ledger_root_canonical:
  assumes "(ledger_step E)\<^sup>*\<^sup>* (ledger_new E) L"
  shows "fst (ledger_root E L) = canonical_root E (l_cells L) \<and>
    strip_cells (l_cells (snd (ledger_root E L))) = strip_cells (l_cells L)"
  using ledger_run_inv [OF assms] materialize_correct [of E L]
  by (simp add: ledger_inv_def materialized_def ledger_root_def Let_def)

text \<open>Membership proofs are complete: in every reachable ledger a cell that is present has a proof,
  for its own id, with its state commitment as the leaf and the canonical root, and the proof verifies;
  for an absent cell there is none.\<close>

theorem membership_proof_complete:
  assumes "(ledger_step E)\<^sup>*\<^sup>* (ledger_new E) L"
  shows "case l_cells L i of
      None \<Rightarrow> fst (membership_proof_of E L i) = None
    | Some c \<Rightarrow> \<exists>p. fst (membership_proof_of E L i) = Some p \<and> mp_cell_id p = i \<and>
        mp_leaf_hash p = compute_canonical_state_commitment E c \<and>
        mp_root p = canonical_root E (l_cells L) \<and> verify_membership E p"
proof (cases "l_cells L i")
  case (Some c)
  then show ?thesis using membership_proof_value [OF ledger_run_inv [OF assms] Some] by fastforce
qed (simp add: membership_proof_of_def)

text \<open>Membership proofs are sound: a proof that verifies against the root of a reachable ledger
  along the positions of cell \<open>i\<close> carries the commitment of cell \<open>i\<close> and its very sibling path, unless
  the node hash collides. The verifier does not check the positions, so the statement has to.\<close>

theorem membership_proof_sound:
  assumes "(ledger_step E)\<^sup>*\<^sup>* (ledger_new E) L" and "l_cells L i = Some c"
    and "fst (membership_proof_of E L i) = Some q"
    and "verify_membership E p" and "mp_root p = canonical_root E (l_cells L)"
    and "map snd (mp_path p) = map snd (mp_path q)"
    and "inj_on (blake3 E) (path_preimages (blake3 E) (mp_leaf_hash p) (mp_path p) \<union>
           path_preimages (blake3 E) (mp_leaf_hash q) (mp_path q))"
  shows "mp_leaf_hash p = compute_canonical_state_commitment E c \<and> mp_path p = mp_path q"
proof -
  obtain q' where "fst (membership_proof_of E L i) = Some q'" "mp_leaf_hash q' = commit_of E c"
    "mp_root q' = canonical_root E (l_cells L)" "verify_membership E q'"
    using membership_proof_value [OF ledger_run_inv [OF assms(1)] assms(2)] by metis
  then have q: "mp_leaf_hash q = commit_of E c" "verify_membership E q" "mp_root q = mp_root p"
    using assms(3,5) by simp_all
  then have "fold_path (blake3 E) (mp_leaf_hash p) (mp_path p) =
      fold_path (blake3 E) (mp_leaf_hash q) (mp_path q)"
    using assms(4) by (simp add: verify_membership_def)
  then show ?thesis using fold_path_binds [OF assms(6) _ assms(7)] q(1) by simp
qed

text \<open>A failed turn leaves no trace: with a restore point armed in any reachable ledger, after any
  run of covered operations, rolling back gives every cell the value it had (cells created since are
  gone, removed ones are back), restores the four side maps, disarms the restore point and brings the root back.\<close>

theorem restore_point_rollback:
  assumes "(ledger_step E)\<^sup>*\<^sup>* (ledger_new E) L" and "(ledger_op E)\<^sup>*\<^sup>* (begin_restore_point L) L'"
    and "\<forall>rp. l_restore_point L' = Some rp \<longrightarrow> set order = dom (rp_cells rp)"
  shows "strip_cells (l_cells (rollback_restore_point order L')) = strip_cells (l_cells L) \<and>
    side_maps (rollback_restore_point order L') = side_maps L \<and>
    \<not> has_restore_point (rollback_restore_point order L') \<and>
    fst (ledger_root E (rollback_restore_point order L')) = fst (ledger_root E L)"
proof -
  have inv: "ledger_inv E L" by (rule ledger_run_inv [OF assms(1)])
  have c: "covers L L'" "ledger_inv E L'" using covered_run [OF assms(2) inv] by simp_all
  note r = rollback_restores [OF c, of order]
  have "ledger_inv E (rollback_restore_point order L')" by (rule rollback_restore_point_inv [OF c(2)])
  then show ?thesis
    using r assms(3) inv materialize_correct [of E L] materialize_correct [of E "rollback_restore_point order L'"]
      canonical_root_strip [of "l_cells (rollback_restore_point order L')" "l_cells L" E]
    by (simp add: ledger_inv_def materialized_def ledger_root_def Let_def)
qed

text \<open>Lookup by public key is exact: in every reachable ledger it finds a cell iff one with that key
  is stored, and the cell it finds has the key and is stored under its id.\<close>

theorem cell_by_pubkey_correct:
  assumes "(ledger_step E)\<^sup>*\<^sup>* (ledger_new E) L"
  shows "case cell_by_pubkey L pk of
      None \<Rightarrow> \<forall>i c. l_cells L i = Some c \<longrightarrow> c_public_key c \<noteq> pk
    | Some c \<Rightarrow> c_public_key c = pk \<and> l_cells L (c_id c) = Some c"
proof -
  have ok: "index_ok L" "keyed L" using ledger_run_inv [OF assms] by (simp_all add: ledger_inv_def)
  show ?thesis
  proof (cases "idx_list L pk")
    case Nil
    then have "cell_by_pubkey L pk = None"
      by (auto simp: cell_by_pubkey_def idx_list_def split: option.splits)
    then show ?thesis using ok(1) Nil by (auto simp: index_ok_def) (metis empty_iff list.set(1))
  next
    case (Cons i ids)
    then obtain c where c: "l_cells L i = Some c" "c_public_key c = pk"
      using ok(1) unfolding index_ok_def by (metis list.set_intros(1))
    moreover have "cell_by_pubkey L pk = Some c"
      using Cons c(1) by (auto simp: cell_by_pubkey_def idx_list_def split: option.splits)
    ultimately show ?thesis using ok(2) by (auto simp: keyed_def)
  qed
qed

section \<open>Witnesses\<close>

definition demo_store :: ledger where
  "demo_store = snd (insert_cell (ledger_new demo_cell_crypto) demo_cell)"

lemma demo_store_run: "(ledger_step demo_cell_crypto)\<^sup>*\<^sup>* (ledger_new demo_cell_crypto) demo_store"
  unfolding demo_store_def by (rule r_into_rtranclp, rule ledger_step.op, rule ledger_op.insert)

lemma demo_store_cells [simp]: "l_cells demo_store = [0 \<mapsto> invalidate_leaf_cache demo_cell]"
  by (simp add: demo_store_def remove_insert_rest) (simp add: ledger_new_def)

lemma demo_commit [simp]: "compute_canonical_state_commitment demo_cell_crypto (invalidate_leaf_cache demo_cell) = 0"
  by (simp add: invalidate_leaf_cache_def)

theorem ledger_root_canonical_witness:
  "fst (ledger_root demo_cell_crypto demo_store) = canonical_root demo_cell_crypto (l_cells demo_store)"
  using ledger_root_canonical [OF demo_store_run] by simp

theorem membership_proof_complete_witness:
  "\<exists>p. fst (membership_proof_of demo_cell_crypto demo_store 0) = Some p \<and> mp_cell_id p = 0 \<and>
     mp_leaf_hash p = 0 \<and> verify_membership demo_cell_crypto p"
  using membership_proof_complete [OF demo_store_run, of 0] by auto

theorem membership_proof_sound_witness:
  "\<exists>q. fst (membership_proof_of demo_cell_crypto demo_store 0) = Some q \<and> mp_leaf_hash q = 0 \<and> mp_path q = []"
proof -
  obtain q where q: "fst (membership_proof_of demo_cell_crypto demo_store 0) = Some q"
    "mp_root q = canonical_root demo_cell_crypto (l_cells demo_store)" "verify_membership demo_cell_crypto q"
    using membership_proof_value [OF ledger_run_inv [OF demo_store_run], of 0] by auto
  have "l_pending demo_store = Structural"
    by (simp add: demo_store_def insert_cell_def Let_def ledger_new_def)
  then have "length (l_tree_levels (materialize demo_cell_crypto demo_store)) = 1"
    by (simp add: materialize_def rebuild_tree_def Let_def)
  then have path: "mp_path q = []"
    using q(1) by (auto simp: membership_proof_of_def Let_def case_prod_beta split: if_splits option.splits)
  then have "mp_leaf_hash q = compute_canonical_state_commitment demo_cell_crypto (invalidate_leaf_cache demo_cell) \<and>
      mp_path q = mp_path q"
    by (intro membership_proof_sound [OF demo_store_run _ q(1) q(3) q(2)]) simp_all
  then show ?thesis using q(1) path by simp
qed

theorem restore_point_rollback_witness:
  "strip_cells (l_cells (rollback_restore_point [0] (snd (ledger_remove (begin_restore_point demo_store) 0)))) =
     strip_cells (l_cells demo_store)"
proof -
  have "(ledger_op demo_cell_crypto)\<^sup>*\<^sup>* (begin_restore_point demo_store)
      (snd (ledger_remove (begin_restore_point demo_store) 0))"
    by (rule r_into_rtranclp) (rule ledger_op.remove)
  moreover have "\<forall>rp. l_restore_point (snd (ledger_remove (begin_restore_point demo_store) 0)) = Some rp \<longrightarrow>
      set [0] = dom (rp_cells rp)"
    by (auto simp: ledger_remove_def Let_def journal_cell_def begin_restore_point_def)
  ultimately show ?thesis using restore_point_rollback [OF demo_store_run] by blast
qed

theorem cell_by_pubkey_correct_witness:
  "map_option c_public_key (cell_by_pubkey demo_store 1) = Some 1"
  using cell_by_pubkey_correct [OF demo_store_run, of 1]
  by (auto simp: invalidate_leaf_cache_def demo_cell_def cell_new_def split: option.splits if_splits)

end
