(* ===== verification/LedgerWitness.thy ===== *)
theory LedgerWitness
  imports LedgerRun
begin

text \<open>
  Witness freshness and sovereign histories (\<open>compute_witness_diff\<close>, \<open>extract_path\<close>, \<open>SovereignHistory\<close>
  and \<open>pre_turn_touched_ledger\<close> in \<open>cell/src/ledger.rs\<close>). The lemmas show that a diff carries the
  sibling hashes of the membership proof for the new root, that the hash chain of a history
  determines the effects recorded in it, and that the pre-turn view of a turn in progress holds the
  cells the turn has touched as they were.
\<close>

section \<open>Witness diffs\<close>

record witness_diff =
  wd_cell_id :: cell_id
  wd_old_path :: "bytes32 list"
  wd_new_path :: "bytes32 list"
  wd_new_root :: bytes32

definition root_cached :: "ledger \<Rightarrow> bytes32" where
  "root_cached L = l_root L"

definition is_clean :: "ledger \<Rightarrow> bool" where
  "is_clean L \<longleftrightarrow> l_pending L = Clean"

fun sibling_hashes :: "bytes32 list list \<Rightarrow> nat \<Rightarrow> bytes32 list" where
  "sibling_hashes (level # next # rest) idx =
     (let sibling_idx = (if even idx then idx + 1 else idx - 1)
      in (if sibling_idx < length level then level ! sibling_idx else 0) #
           sibling_hashes (next # rest) (idx div 2))"
| "sibling_hashes _ idx = []"

definition extract_path :: "ledger \<Rightarrow> cell_id \<Rightarrow> bytes32 list" where
  "extract_path L i =
     (case l_leaf_positions L i of
        None \<Rightarrow> []
      | Some pos \<Rightarrow> if length (l_tree_levels L) \<le> 1 then [] else sibling_hashes (l_tree_levels L) pos)"

definition compute_witness_diff ::
  "('a cell_crypto_scheme) \<Rightarrow> ledger \<Rightarrow> cell_id \<Rightarrow> bytes32 \<Rightarrow> witness_diff option \<times> ledger" where
  "compute_witness_diff E L i old_root =
     (if l_cells L i = None then (None, L)
      else if root_cached L \<noteq> old_root \<and> is_clean L then (None, L)
      else
        let old_path = (if is_clean L then extract_path L i else []);
            L = materialize E L
        in (Some \<lparr>wd_cell_id = i, wd_old_path = old_path, wd_new_path = extract_path L i,
                  wd_new_root = l_root L\<rparr>, L))"

lemma sibling_hashes_path: "sibling_hashes levels pos = map fst (tree_path levels pos)"
  by (induction levels pos rule: sibling_hashes.induct) (simp_all add: Let_def)

lemma proof_path:
  assumes "fst (membership_proof_of E L i) = Some q"
  shows "extract_path (materialize E L) i = map fst (mp_path q)" "mp_root q = l_root (materialize E L)"
  using assms
  by (auto simp: membership_proof_of_def extract_path_def Let_def case_prod_beta sibling_hashes_path
      split: if_splits option.splits)

section \<open>Sovereign histories\<close>

record sovereign_history =
  sh_genesis_commitment :: bytes32
  sh_current_commitment :: bytes32
  sh_step_count :: u64
  sh_accumulated_hash :: bytes32
  sh_ivc_proof :: "u8 list option"

definition sovereign_history_new :: "('a crypto_scheme) \<Rightarrow> bytes32 \<Rightarrow> sovereign_history" where
  "sovereign_history_new E genesis = \<lparr>sh_genesis_commitment = genesis, sh_current_commitment = genesis,
     sh_step_count = 0, sh_accumulated_hash = blake3 E (bytes32_bytes genesis), sh_ivc_proof = None\<rparr>"

definition record_step ::
  "('a crypto_scheme) \<Rightarrow> sovereign_history \<Rightarrow> bytes32 \<Rightarrow> bytes32 \<Rightarrow> sovereign_history" where
  "record_step E h new_commitment effects_digest =
     (let h = h\<lparr>sh_step_count := sh_step_count h + 1, sh_current_commitment := new_commitment\<rparr>
      in h\<lparr>sh_accumulated_hash := blake3 E (bytes32_bytes (sh_accumulated_hash h) @
             bytes32_bytes effects_digest @ u64_bytes (sh_step_count h)),
           sh_ivc_proof := None\<rparr>)"

definition attach_ivc_proof :: "sovereign_history \<Rightarrow> u8 list \<Rightarrow> sovereign_history" where
  "attach_ivc_proof h p = h\<lparr>sh_ivc_proof := Some p\<rparr>"

definition has_ivc_proof :: "sovereign_history \<Rightarrow> bool" where
  "has_ivc_proof h \<longleftrightarrow> sh_ivc_proof h \<noteq> None"

text \<open>The history after a sequence of (commitment, effects digest) pairs.\<close>

definition history_of :: "('a crypto_scheme) \<Rightarrow> bytes32 \<Rightarrow> (bytes32 \<times> bytes32) list \<Rightarrow> sovereign_history" where
  "history_of E genesis steps =
     fold (\<lambda>(c, e) h. record_step E h c e) steps (sovereign_history_new E genesis)"

lemma history_of_snoc:
  "history_of E g (steps @ [(c, e)]) = record_step E (history_of E g steps) c e"
  by (simp add: history_of_def)

text \<open>The bytes the chain hashes.\<close>

fun chain_preimages ::
  "('a crypto_scheme) \<Rightarrow> bytes32 \<Rightarrow> (bytes32 \<times> bytes32) list \<Rightarrow> u8 list set" where
  "chain_preimages E g steps =
     insert (bytes32_bytes g)
       ((\<lambda>n. bytes32_bytes (sh_accumulated_hash (history_of E g (take n steps))) @
             bytes32_bytes (snd (steps ! n)) @
             u64_bytes (sh_step_count (history_of E g (take n steps)) + 1)) ` {..<length steps})"

lemma chain_preimages_snoc:
  "chain_preimages E g (steps @ [(c, e)]) =
     insert (bytes32_bytes (sh_accumulated_hash (history_of E g steps)) @ bytes32_bytes e @
             u64_bytes (sh_step_count (history_of E g steps) + 1)) (chain_preimages E g steps)"
proof -
  let ?s = "steps @ [(c, e)]"
  let ?pre = "\<lambda>xs n. bytes32_bytes (sh_accumulated_hash (history_of E g (take n xs))) @
    bytes32_bytes (snd (xs ! n)) @ u64_bytes (sh_step_count (history_of E g (take n xs)) + 1)"
  have "?pre ?s ` {..<length ?s} = insert (?pre ?s (length steps)) (?pre ?s ` {..<length steps})"
    by (simp add: lessThan_Suc)
  moreover have "?pre ?s ` {..<length steps} = ?pre steps ` {..<length steps}"
    by (intro image_cong) (simp_all add: nth_append)
  ultimately show ?thesis by (auto simp: insert_commute)
qed

lemma bytes32_append_inject:
  "bytes32_bytes a @ xs = bytes32_bytes b @ ys \<longleftrightarrow> a = b \<and> xs = ys"
  by auto

lemma chain_binds:
  assumes "inj_on (blake3 E) S" "chain_preimages E g xs \<subseteq> S" "chain_preimages E g' ys \<subseteq> S"
    "sh_accumulated_hash (history_of E g xs) = sh_accumulated_hash (history_of E g' ys)"
  shows "g = g' \<and> map snd xs = map snd ys"
  using assms
proof (induction xs arbitrary: ys rule: rev_induct)
  case Nil
  have len: "length (bytes32_bytes g) = 32" by simp
  show ?case
  proof (cases ys rule: rev_cases)
    case Nil
    then have "blake3 E (bytes32_bytes g) = blake3 E (bytes32_bytes g')"
      using Nil.prems(4) by (simp add: history_of_def sovereign_history_new_def)
    then have "bytes32_bytes g = bytes32_bytes g'"
      by (rule inj_onD [OF Nil.prems(1)]) (use Nil.prems(2,3) in simp_all)
    then show ?thesis using Nil by simp
  next
    case (snoc ys' y)
    obtain c e where y: "y = (c, e)" by (cases y)
    let ?p = "bytes32_bytes (sh_accumulated_hash (history_of E g' ys')) @ bytes32_bytes e @
      u64_bytes (sh_step_count (history_of E g' ys') + 1)"
    have "blake3 E (bytes32_bytes g) = blake3 E ?p"
      using Nil.prems(4)
      by (simp add: snoc y history_of_snoc record_step_def Let_def)
         (simp add: history_of_def sovereign_history_new_def)
    moreover have "?p \<in> S" using Nil.prems(3) unfolding snoc y chain_preimages_snoc by simp
    ultimately have "bytes32_bytes g = ?p" using Nil.prems(2) by (intro inj_onD [OF Nil.prems(1)]) simp_all
    then have "length (bytes32_bytes g) = length ?p" by (rule arg_cong)
    then show ?thesis by simp
  qed
next
  case (snoc x xs)
  obtain c e where x: "x = (c, e)" by (cases x)
  let ?p = "bytes32_bytes (sh_accumulated_hash (history_of E g xs)) @ bytes32_bytes e @
      u64_bytes (sh_step_count (history_of E g xs) + 1)"
  have pS: "?p \<in> S" and xsS: "chain_preimages E g xs \<subseteq> S"
    using snoc.prems(2) unfolding x chain_preimages_snoc by simp_all
  show ?case
  proof (cases ys rule: rev_cases)
    case Nil
    have "blake3 E ?p = blake3 E (bytes32_bytes g')"
      using snoc.prems(4)
      by (simp add: Nil x history_of_snoc record_step_def Let_def)
         (simp add: history_of_def sovereign_history_new_def)
    then have "?p = bytes32_bytes g'" using snoc.prems(3) by (intro inj_onD [OF snoc.prems(1) _ pS]) simp_all
    then have "length ?p = length (bytes32_bytes g')" by (rule arg_cong)
    then show ?thesis by simp
  next
    case (snoc ys' y)
    obtain c' e' where y: "y = (c', e')" by (cases y)
    let ?q = "bytes32_bytes (sh_accumulated_hash (history_of E g' ys')) @ bytes32_bytes e' @
      u64_bytes (sh_step_count (history_of E g' ys') + 1)"
    have qS: "?q \<in> S" and ysS: "chain_preimages E g' ys' \<subseteq> S"
      using snoc.prems(3) unfolding snoc y chain_preimages_snoc by simp_all
    have "blake3 E ?p = blake3 E ?q"
      using snoc.prems(4) by (simp add: snoc x y history_of_snoc record_step_def Let_def)
    then have "?p = ?q" by (rule inj_onD [OF snoc.prems(1) _ pS qS])
    then have eq: "sh_accumulated_hash (history_of E g xs) = sh_accumulated_hash (history_of E g' ys')"
      "e = e'"
      unfolding bytes32_append_inject by simp_all
    then show ?thesis using snoc.IH [OF snoc.prems(1) xsS ysS eq(1)] by (simp add: snoc x y)
  qed
qed

lemma history_steps: "sh_step_count (history_of E g steps) = of_nat (length steps)"
  by (induction steps rule: rev_induct)
     (simp_all add: history_of_def sovereign_history_new_def record_step_def Let_def split: prod.splits)

section \<open>The pre-turn view\<close>

definition pre_turn_insert :: "(cell_id \<rightharpoonup> cell option) \<Rightarrow> cell_id \<Rightarrow> ledger \<Rightarrow> ledger" where
  "pre_turn_insert images i pre =
     (case images i of Some (Some c) \<Rightarrow> snd (insert_cell pre c) | _ \<Rightarrow> pre)"

definition pre_turn_touched_ledger :: "('a crypto_scheme) \<Rightarrow> cell_id list \<Rightarrow> ledger \<Rightarrow> ledger" where
  "pre_turn_touched_ledger E order L =
     (case l_restore_point L of
        None \<Rightarrow> ledger_new E
      | Some rp \<Rightarrow> fold (pre_turn_insert (rp_cells rp)) order (ledger_new E))"

lemma pre_turn_fold:
  assumes "\<And>i c. images i = Some (Some c) \<Longrightarrow> c_id c = i" "distinct order"
    "\<And>i. i \<in> set order \<Longrightarrow> l_cells L i = None"
  shows "map_option strip_leaf (l_cells (fold (pre_turn_insert images) order L) j) =
    map_option strip_leaf (if j \<in> set order then (case images j of Some p \<Rightarrow> p | None \<Rightarrow> None) else l_cells L j)"
  using assms(2,3)
proof (induction order arbitrary: L)
  case (Cons i order)
  have step: "l_cells (pre_turn_insert images i L) k = (if k = i then
      (case images i of Some p \<Rightarrow> map_option invalidate_leaf_cache p | None \<Rightarrow> None) else l_cells L k)" for k
    using Cons.prems(2) [of i] assms(1) [of i]
    by (auto simp: pre_turn_insert_def remove_insert_rest split: option.splits)
  have "l_cells (pre_turn_insert images i L) k = None" if "k \<in> set order" for k
    using Cons.prems that by (auto simp: step)
  then show ?case
    using Cons.IH [of "pre_turn_insert images i L"] Cons.prems(1)
    by (auto simp: step option.map_comp comp_def split: option.splits)
qed simp

section \<open>Properties\<close>

text \<open>A witness diff refreshes a membership proof: for a cell of a reachable ledger, whenever
  \<open>compute_witness_diff\<close> answers, its new root is the canonical root and its new path is the sibling
  path of the cell's membership proof; it answers unless the caller's root is not the one of a tree that is up to
  date.\<close>

theorem witness_diff_refreshes:
  assumes "(ledger_step E)\<^sup>*\<^sup>* (ledger_new E) L" and "l_cells L i = Some c"
    and "fst (membership_proof_of E L i) = Some q"
  shows "case fst (compute_witness_diff E L i old_root) of
      None \<Rightarrow> is_clean L \<and> root_cached L \<noteq> old_root
    | Some d \<Rightarrow> wd_cell_id d = i \<and> wd_new_root d = canonical_root E (l_cells L) \<and>
        wd_new_path d = map fst (mp_path q) \<and> (is_clean L \<longrightarrow> wd_old_path d = wd_new_path d)"
proof -
  have "l_root (materialize E L) = canonical_root E (l_cells L)"
    using ledger_run_inv [OF assms(1)] materialize_correct [of E L]
    by (simp add: ledger_inv_def materialized_def)
  moreover have "materialize E L = L" if "is_clean L"
  proof -
    have "L\<lparr>l_pending := Clean\<rparr> = L" using that by (simp add: is_clean_def)
    then show ?thesis using that by (simp add: is_clean_def materialize_def Let_def)
  qed
  ultimately show ?thesis
    using assms(2) proof_path(1) [OF assms(3)]
    by (auto simp: compute_witness_diff_def Let_def)
qed

text \<open>The accumulated hash of a sovereign history binds its genesis commitment and the whole
  sequence of effect digests, length included, unless the hash collides on the chains. The state
  commitments of the steps are not hashed: the current one is whatever the last step carried.\<close>

theorem sovereign_history_binds:
  assumes "inj_on (blake3 E) (chain_preimages E g xs \<union> chain_preimages E g' ys)"
    and "sh_accumulated_hash (history_of E g xs) = sh_accumulated_hash (history_of E g' ys)"
  shows "g = g' \<and> map snd xs = map snd ys \<and>
    sh_step_count (history_of E g xs) = sh_step_count (history_of E g' ys)"
proof -
  have "g = g' \<and> map snd xs = map snd ys" by (rule chain_binds [OF assms(1) _ _ assms(2)]) auto
  then show ?thesis unfolding history_steps by (metis length_map)
qed

text \<open>The pre-turn view is what the turn found: with a restore point armed and any covered run since,
  the view holds exactly the touched cells that existed, with the values they had when the turn
  began; a cell the turn created is absent.\<close>

theorem pre_turn_view_correct:
  assumes "(ledger_step E)\<^sup>*\<^sup>* (ledger_new E) L" and "(ledger_op E)\<^sup>*\<^sup>* (begin_restore_point L) L'"
    and "l_restore_point L' = Some rp" and "distinct order" and "set order = dom (rp_cells rp)"
  shows "map_option strip_leaf (l_cells (pre_turn_touched_ledger E order L') i) =
    (if rp_cells rp i = None then None else map_option strip_leaf (l_cells L i))"
proof -
  have c: "covers L L'" "ledger_inv E L'"
    using covered_run [OF assms(2) ledger_run_inv [OF assms(1)]] by simp_all
  then have keys: "\<And>i c. rp_cells rp i = Some (Some c) \<Longrightarrow> c_id c = i"
    using assms(3) by (simp add: ledger_inv_def images_keyed_def)
  have image: "map_option strip_leaf (case rp_cells rp i of Some p \<Rightarrow> p | None \<Rightarrow> l_cells L' i) =
      map_option strip_leaf (l_cells L i)"
    using c(1) assms(3) by (simp add: covers_def)
  have "map_option strip_leaf (l_cells (pre_turn_touched_ledger E order L') i) =
      map_option strip_leaf (if i \<in> set order then (case rp_cells rp i of Some p \<Rightarrow> p | None \<Rightarrow> None)
        else l_cells (ledger_new E) i)"
    using pre_turn_fold [OF keys assms(4), where L = "ledger_new E" and j = i] assms(3)
    by (simp add: pre_turn_touched_ledger_def ledger_new_def)
  then show ?thesis using image assms(5) by (auto simp: ledger_new_def split: option.splits)
qed

section \<open>Witnesses\<close>

theorem witness_diff_refreshes_witness:
  "\<exists>d. fst (compute_witness_diff demo_cell_crypto demo_store 0 7) = Some d \<and>
     wd_new_root d = canonical_root demo_cell_crypto (l_cells demo_store)"
proof -
  obtain q where q: "fst (membership_proof_of demo_cell_crypto demo_store 0) = Some q"
    using membership_proof_value [OF ledger_run_inv [OF demo_store_run], of 0] by auto
  have "\<not> is_clean demo_store"
    by (simp add: is_clean_def demo_store_def insert_cell_def Let_def ledger_new_def)
  moreover have "l_cells demo_store 0 = Some (invalidate_leaf_cache demo_cell)" by simp
  ultimately show ?thesis
    using witness_diff_refreshes [OF demo_store_run _ q, of "invalidate_leaf_cache demo_cell" 7]
    by (auto split: option.splits)
qed

definition length_crypto :: crypto where
  "length_crypto = demo_crypto\<lparr>blake3 := (\<lambda>bs. of_nat (length bs))\<rparr>"

theorem sovereign_history_binds_witness:
  "sh_step_count (history_of length_crypto 3 [(4, 5)]) = sh_step_count (history_of length_crypto 3 [(6, 5)])"
proof -
  have "chain_preimages length_crypto 3 [(4, 5)] = chain_preimages length_crypto 3 [(6, 5)]"
    by (simp add: history_of_def)
  moreover have "inj_on (blake3 length_crypto) (chain_preimages length_crypto 3 [(4, 5)])"
    by (auto simp: inj_on_def length_crypto_def history_of_def)
  ultimately show ?thesis
    using sovereign_history_binds [of length_crypto 3 "[(4, 5)]" 3 "[(6, 5)]"]
    by (simp add: history_of_def record_step_def Let_def)
qed

theorem pre_turn_view_correct_witness:
  "map_option strip_leaf (l_cells (pre_turn_touched_ledger demo_cell_crypto [0]
     (snd (ledger_remove (begin_restore_point demo_store) 0))) 0) = map_option strip_leaf (l_cells demo_store 0)"
proof -
  let ?L = "snd (ledger_remove (begin_restore_point demo_store) 0)"
  have run: "(ledger_op demo_cell_crypto)\<^sup>*\<^sup>* (begin_restore_point demo_store) ?L"
    by (rule r_into_rtranclp) (rule ledger_op.remove)
  obtain rp where rp: "l_restore_point ?L = Some rp" "dom (rp_cells rp) = {0}"
    by (simp add: ledger_remove_def Let_def journal_cell_def begin_restore_point_def)
  then have "rp_cells rp 0 \<noteq> None" by auto
  then show ?thesis
    using pre_turn_view_correct [OF demo_store_run run rp(1), of "[0]" 0] rp(2) by simp
qed

end
