(* ===== verification/AppendSet.thy ===== *)
theory AppendSet
  imports Merkle CellState "HOL-Library.Multiset" "HOL-Library.Product_Lexorder"
begin

text \<open>
  The append-only accumulators: revealed nullifiers (\<open>cell/src/nullifier_set.rs\<close>), revoked
  credentials (\<open>cell/src/revoked_set.rs\<close>), note commitments (\<open>cell/src/commitment_set.rs\<close>) and bridged
  nullifiers (\<open>cell-crypto/src/note_bridge.rs\<close>). The first three share their code up to the error they
  report; a \<open>BTreeMap\<close> is a finite map read in the order of its keys. The locale \<open>spend_once\<close> is what the
  turn journal relies on: a key goes in once, and taking the last insertion out again gives the set
  back exactly.
\<close>

section \<open>Sets\<close>

record append_record =
  ar_value :: u64
  ar_seq :: u64

record append_set =
  as_entries :: "bytes32 \<rightharpoonup> append_record"
  as_next_seq :: u64

datatype note_error =
    DoubleSpend bytes32
  | DuplicateCommitment bytes32
  | AlreadyRevoked bytes32
  | ConservationViolation u64 u64 u64

definition append_new :: append_set where
  "append_new = \<lparr>as_entries = Map.empty, as_next_seq = 0\<rparr>"

definition append_len :: "append_set \<Rightarrow> nat" where
  "append_len s = card (dom (as_entries s))"

definition append_contains :: "append_set \<Rightarrow> bytes32 \<Rightarrow> bool" where
  "append_contains s k \<longleftrightarrow> as_entries s k \<noteq> None"

definition append_value_of :: "append_set \<Rightarrow> bytes32 \<Rightarrow> u64 option" where
  "append_value_of s k = map_option ar_value (as_entries s k)"

definition append_seq_of :: "append_set \<Rightarrow> bytes32 \<Rightarrow> u64 option" where
  "append_seq_of s k = map_option ar_seq (as_entries s k)"

definition append_insert ::
  "(bytes32 \<Rightarrow> note_error) \<Rightarrow> append_set \<Rightarrow> bytes32 \<Rightarrow> u64 \<Rightarrow> (note_error + unit) \<times> append_set" where
  "append_insert err s k v =
     (if as_entries s k \<noteq> None then (Inl (err k), s)
      else (Inr (), s\<lparr>as_entries := (as_entries s)(k \<mapsto> \<lparr>ar_value = v, ar_seq = as_next_seq s\<rparr>),
                      as_next_seq := as_next_seq s + 1\<rparr>))"

definition append_remove :: "append_set \<Rightarrow> bytes32 \<Rightarrow> bool \<times> append_set" where
  "append_remove s k =
     (if as_entries s k = None then (False, s)
      else let m = (as_entries s)(k := None)
           in (True, s\<lparr>as_entries := m,
                       as_next_seq := (if dom m = {} then 0
                                       else Max ((\<lambda>i. ar_seq (the (m i)) + 1) ` dom m))\<rparr>))"

definition sorted_vec :: "append_set \<Rightarrow> bytes32 list" where
  "sorted_vec s = sorted_list_of_set (dom (as_entries s))"

type_synonym tau_record = "bytes32 \<times> u64 \<times> u64"

definition tau_key :: "tau_record \<Rightarrow> u64 \<times> bytes32" where
  "tau_key r = (snd (snd r), fst r)"

definition iter_in_append_order :: "append_set \<Rightarrow> tau_record list" where
  "iter_in_append_order s =
     sort_key tau_key
       (map (\<lambda>k. (k, ar_value (the (as_entries s k)), ar_seq (the (as_entries s k)))) (sorted_vec s))"

fun add_records :: "(bytes32 \<Rightarrow> note_error) \<Rightarrow> tau_record list \<Rightarrow> append_set \<Rightarrow> note_error + append_set" where
  "add_records err [] s = Inr s"
| "add_records err ((k, v, q) # rs) s =
     (if as_entries s k \<noteq> None then Inl (err k)
      else add_records err rs
             (s\<lparr>as_entries := (as_entries s)(k \<mapsto> \<lparr>ar_value = v, ar_seq = q\<rparr>),
                as_next_seq := max (as_next_seq s) (q + 1)\<rparr>))"

definition append_from_records ::
  "(bytes32 \<Rightarrow> note_error) \<Rightarrow> tau_record list \<Rightarrow> note_error + append_set" where
  "append_from_records err rs = add_records err (sort_key tau_key rs) append_new"

definition aafi_next_free_index :: "append_set \<Rightarrow> nat" where
  "aafi_next_free_index s = card (dom (as_entries s)) + 1"

text \<open>The three sets of the executor.\<close>

definition nullifier_insert :: "append_set \<Rightarrow> bytes32 \<Rightarrow> u64 \<Rightarrow> (note_error + unit) \<times> append_set" where
  "nullifier_insert = append_insert DoubleSpend"

definition commitment_insert :: "append_set \<Rightarrow> bytes32 \<Rightarrow> u64 \<Rightarrow> (note_error + unit) \<times> append_set" where
  "commitment_insert = append_insert DuplicateCommitment"

definition revoked_insert :: "append_set \<Rightarrow> bytes32 \<Rightarrow> u64 \<Rightarrow> (note_error + unit) \<times> append_set" where
  "revoked_insert = append_insert AlreadyRevoked"

definition nullifier_from_records :: "tau_record list \<Rightarrow> note_error + append_set" where
  "nullifier_from_records = append_from_records DoubleSpend"

definition commitment_from_records :: "tau_record list \<Rightarrow> note_error + append_set" where
  "commitment_from_records = append_from_records DuplicateCommitment"

definition revoked_from_records :: "tau_record list \<Rightarrow> note_error + append_set" where
  "revoked_from_records = append_from_records AlreadyRevoked"

text \<open>Bridged nullifiers: a sorted vector searched by bisection.\<close>

definition bridged_contains :: "bytes32 list \<Rightarrow> bytes32 \<Rightarrow> bool" where
  "bridged_contains ns k \<longleftrightarrow> k \<in> set ns"

definition bridged_insert :: "bytes32 list \<Rightarrow> bytes32 \<Rightarrow> bool \<times> bytes32 list" where
  "bridged_insert ns k = (if k \<in> set ns then (False, ns) else (True, insort k ns))"

definition bridged_remove :: "bytes32 list \<Rightarrow> bytes32 \<Rightarrow> bool \<times> bytes32 list" where
  "bridged_remove ns k = (if k \<in> set ns then (True, remove1 k ns) else (False, ns))"

section \<open>Invariant\<close>

text \<open>
  The append cursor is one past the highest sequence number, sequence numbers are distinct, and the
  counter has not wrapped.
\<close>

definition append_ok :: "append_set \<Rightarrow> bool" where
  "append_ok s \<longleftrightarrow> finite (dom (as_entries s)) \<and>
     (\<forall>k r. as_entries s k = Some r \<longrightarrow> ar_seq r < as_next_seq s) \<and>
     (\<forall>j k r. as_entries s j = Some r \<longrightarrow> map_option ar_seq (as_entries s k) = Some (ar_seq r) \<longrightarrow> j = k) \<and>
     (as_next_seq s = 0 \<or> (\<exists>k r. as_entries s k = Some r \<and> as_next_seq s = ar_seq r + 1))"

definition append_room :: "append_set \<Rightarrow> bool" where
  "append_room s \<longleftrightarrow> as_next_seq s \<noteq> - 1"

lemma append_ok_new: "append_ok append_new"
  by (simp add: append_ok_def append_new_def)

lemma word_inc_le: "(a :: 'a::len word) < b \<Longrightarrow> a + 1 \<le> b"
  by (simp add: inc_le)

lemma word_less_inc:
  assumes "(a :: 'a::len word) \<noteq> - 1"
  shows "a < a + 1"
proof -
  have "a + 1 \<noteq> 0" using assms by (simp add: eq_neg_iff_add_eq_0)
  then have "unat (a + 1) \<noteq> 0" by (simp add: unat_eq_0)
  moreover have "unat (a + 1) = (unat a + 1) mod 2 ^ LENGTH('a)" by (simp add: unat_word_ariths)
  ultimately have "(unat a + 1) mod 2 ^ LENGTH('a) \<noteq> 0" by simp
  moreover have "unat a < 2 ^ LENGTH('a)" by simp
  ultimately have "unat a + 1 < 2 ^ LENGTH('a)"
    by (metis Suc_eq_plus1 Suc_leI le_neq_implies_less mod_self)
  then have "unat (a + 1) = unat a + 1" by (simp add: unat_word_ariths)
  then show ?thesis by (simp add: word_less_nat_alt)
qed

section \<open>Insertion and removal\<close>

lemma append_insert_new:
  assumes "as_entries s k = None"
  shows "append_insert err s k v =
    (Inr (), s\<lparr>as_entries := (as_entries s)(k \<mapsto> \<lparr>ar_value = v, ar_seq = as_next_seq s\<rparr>),
                as_next_seq := as_next_seq s + 1\<rparr>)"
  using assms by (simp add: append_insert_def)

lemma append_insert_ok:
  assumes "append_ok s" "append_room s" "as_entries s k = None"
  shows "append_ok (snd (append_insert err s k v))"
proof -
  have lt: "as_next_seq s < as_next_seq s + 1"
    using assms(2) by (intro word_less_inc) (simp add: append_room_def)
  have seq: "ar_seq r < as_next_seq s" if "as_entries s j = Some r" for j r
    using assms(1) that unfolding append_ok_def by blast
  have below: "ar_seq r < as_next_seq s + 1" "ar_seq r \<noteq> as_next_seq s" if "as_entries s j = Some r" for j r
    using less_trans [OF seq [OF that] lt] seq [OF that] by simp_all
  have old: "map_option ar_seq (as_entries s j) \<noteq> Some (as_next_seq s)" for j
    using below(2) [of j] by (cases "as_entries s j") auto
  let ?s = "snd (append_insert err s k v)"
  have e: "as_entries ?s = (as_entries s)(k \<mapsto> \<lparr>ar_value = v, ar_seq = as_next_seq s\<rparr>)"
    and n: "as_next_seq ?s = as_next_seq s + 1"
    by (simp_all add: append_insert_new [OF assms(3)])
  have "finite (dom (as_entries ?s))" using assms(1) by (simp add: e append_ok_def)
  moreover have "ar_seq r < as_next_seq ?s" if "as_entries ?s j = Some r" for j r
    using that below(1) [of j r] lt by (cases "j = k") (auto simp: e n)
  moreover have "i = j" if "as_entries ?s i = Some r" "map_option ar_seq (as_entries ?s j) = Some (ar_seq r)" for i j r
  proof (cases "i = k \<or> j = k")
    case True
    then show ?thesis using that old [of j] below(2) [of i r] by (auto simp: e split: if_splits)
  next
    case False
    then have "as_entries s i = Some r" "map_option ar_seq (as_entries s j) = Some (ar_seq r)"
      using that by (simp_all add: e)
    then show ?thesis using assms(1) unfolding append_ok_def by blast
  qed
  moreover have "\<exists>j r. as_entries ?s j = Some r \<and> as_next_seq ?s = ar_seq r + 1"
    by (intro exI [of _ k]) (simp add: e n)
  ultimately show ?thesis unfolding append_ok_def by blast
qed

lemma append_cursor:
  assumes "append_ok s"
  shows "as_next_seq s = (if dom (as_entries s) = {} then 0
    else Max ((\<lambda>i. ar_seq (the (as_entries s i)) + 1) ` dom (as_entries s)))"
proof (cases "dom (as_entries s) = {}")
  case True
  then show ?thesis using assms by (auto simp: append_ok_def dom_def)
next
  case False
  let ?S = "(\<lambda>i. ar_seq (the (as_entries s i)) + 1) ` dom (as_entries s)"
  have fin: "finite ?S" and ne: "?S \<noteq> {}" using assms False by (auto simp: append_ok_def)
  have le: "x \<le> as_next_seq s" if "x \<in> ?S" for x
    using that assms by (auto simp: append_ok_def intro!: word_inc_le)
  have "as_next_seq s \<in> ?S"
  proof (cases "as_next_seq s = 0")
    case True
    obtain k r where "as_entries s k = Some r" using False unfolding dom_def by blast
    then have "ar_seq r < 0" using assms True unfolding append_ok_def by metis
    then show ?thesis by simp
  next
    case False
    then obtain k r where "as_entries s k = Some r" "as_next_seq s = ar_seq r + 1"
      using assms unfolding append_ok_def by blast
    then show ?thesis by (auto intro!: image_eqI [of _ _ k])
  qed
  then have "Max ?S = as_next_seq s" using fin le by (intro Max_eqI)
  then show ?thesis using False by simp
qed

lemma append_insert_remove:
  assumes "append_ok s" "as_entries s k = None"
  shows "append_remove (snd (append_insert err s k v)) k = (True, s)"
proof -
  have "(as_entries s)(k := None) = as_entries s" using assms(2) by auto
  then show ?thesis
    unfolding append_insert_new [OF assms(2)] append_remove_def
    using append_cursor [OF assms(1)] by (simp add: Let_def del: dom_eq_empty_conv)
qed

section \<open>The contract the journal relies on\<close>

locale spend_once =
  fixes ok :: "'s \<Rightarrow> bool" and room :: "'s \<Rightarrow> bool" and has :: "'s \<Rightarrow> 'k \<Rightarrow> bool"
    and ins :: "'s \<Rightarrow> 'k \<Rightarrow> 'v \<Rightarrow> ('e + unit) \<times> 's" and del :: "'s \<Rightarrow> 'k \<Rightarrow> bool \<times> 's"
  assumes ins_fresh: "ok s \<Longrightarrow> room s \<Longrightarrow> \<not> has s k \<Longrightarrow>
      fst (ins s k v) = Inr () \<and> ok (snd (ins s k v)) \<and>
      (\<forall>j. has (snd (ins s k v)) j \<longleftrightarrow> j = k \<or> has s j)"
    and ins_again: "has s k \<Longrightarrow> \<exists>e. ins s k v = (Inl e, s)"
    and undo: "ok s \<Longrightarrow> \<not> has s k \<Longrightarrow> del (snd (ins s k v)) k = (True, s)"
begin

text \<open>A second insertion of a key is refused and changes nothing, whatever was inserted in between.\<close>

lemma ins_mono:
  assumes "ok s" "room s" "has s j"
  shows "has (snd (ins s k v)) j"
proof (cases "has s k")
  case True
  then show ?thesis using ins_again [of s k v] assms(3) by auto
qed (use ins_fresh assms in blast)

lemma ins_twice:
  assumes "ok s" "room s"
  shows "\<exists>e. ins (snd (ins s k v)) k w = (Inl e, snd (ins s k v))"
proof -
  have "has (snd (ins s k v)) k"
  proof (cases "has s k")
    case True
    then show ?thesis using ins_again [of s k v] by auto
  qed (use ins_fresh assms in blast)
  then show ?thesis by (rule ins_again)
qed

end

lemma append_spend_once:
  "spend_once append_ok append_room append_contains (append_insert err) append_remove"
proof
  fix s k v
  show "append_ok s \<Longrightarrow> append_room s \<Longrightarrow> \<not> append_contains s k \<Longrightarrow>
      fst (append_insert err s k v) = Inr () \<and> append_ok (snd (append_insert err s k v)) \<and>
      (\<forall>j. append_contains (snd (append_insert err s k v)) j \<longleftrightarrow> j = k \<or> append_contains s j)"
    using append_insert_ok [of s k err v] by (simp add: append_contains_def append_insert_new)
  show "append_contains s k \<Longrightarrow> \<exists>e. append_insert err s k v = (Inl e, s)"
    by (simp add: append_contains_def append_insert_def)
  show "append_ok s \<Longrightarrow> \<not> append_contains s k \<Longrightarrow> append_remove (snd (append_insert err s k v)) k = (True, s)"
    by (simp add: append_contains_def append_insert_remove)
qed

interpretation nullifiers: spend_once append_ok append_room append_contains nullifier_insert append_remove
  unfolding nullifier_insert_def by (rule append_spend_once)

interpretation commitments: spend_once append_ok append_room append_contains commitment_insert append_remove
  unfolding commitment_insert_def by (rule append_spend_once)

interpretation revoked: spend_once append_ok append_room append_contains revoked_insert append_remove
  unfolding revoked_insert_def by (rule append_spend_once)

text \<open>The sorted vector answers with a flag; as an insertion that may be refused:\<close>

definition bridged_ins :: "bytes32 list \<Rightarrow> bytes32 \<Rightarrow> unit \<Rightarrow> (unit + unit) \<times> bytes32 list" where
  "bridged_ins ns k v = (let (fresh, ns') = bridged_insert ns k in (if fresh then Inr () else Inl (), ns'))"

interpretation bridged: spend_once "\<lambda>ns. sorted ns \<and> distinct ns" "\<lambda>_. True" bridged_contains bridged_ins bridged_remove
proof
  fix ns :: "bytes32 list" and k and v :: unit
  show "sorted ns \<and> distinct ns \<Longrightarrow> True \<Longrightarrow> \<not> bridged_contains ns k \<Longrightarrow>
      fst (bridged_ins ns k v) = Inr () \<and> (sorted (snd (bridged_ins ns k v)) \<and> distinct (snd (bridged_ins ns k v))) \<and>
      (\<forall>j. bridged_contains (snd (bridged_ins ns k v)) j \<longleftrightarrow> j = k \<or> bridged_contains ns j)"
    by (simp add: bridged_contains_def bridged_ins_def bridged_insert_def set_insort_key distinct_insort
        sorted_insort)
  show "bridged_contains ns k \<Longrightarrow> \<exists>e. bridged_ins ns k v = (Inl e, ns)"
    by (simp add: bridged_contains_def bridged_ins_def bridged_insert_def)
  show "sorted ns \<and> distinct ns \<Longrightarrow> \<not> bridged_contains ns k \<Longrightarrow>
      bridged_remove (snd (bridged_ins ns k v)) k = (True, ns)"
    by (simp add: bridged_contains_def bridged_ins_def bridged_insert_def bridged_remove_def
        set_insort_key remove1_insort_key)
qed

section \<open>Append order\<close>

abbreviation tau_of :: "append_set \<Rightarrow> bytes32 \<Rightarrow> tau_record" where
  "tau_of s k \<equiv> (k, ar_value (the (as_entries s k)), ar_seq (the (as_entries s k)))"

lemma iter_eq: "iter_in_append_order s = sort_key tau_key (map (tau_of s) (sorted_vec s))"
  by (simp add: iter_in_append_order_def)

lemma tau_inj: "inj_on tau_key (set (map (tau_of s) ks))"
  by (auto simp: inj_on_def tau_key_def)

lemma mset_sorted_list: "finite A \<Longrightarrow> mset (sorted_list_of_set A) = mset_set A"
  by (metis mset_sorted_list_of_multiset sorted_list_of_mset_set)

lemma mset_iter:
  "finite (dom (as_entries s)) \<Longrightarrow>
     mset (iter_in_append_order s) = image_mset (tau_of s) (mset_set (dom (as_entries s)))"
  by (simp add: iter_in_append_order_def sorted_vec_def mset_sorted_list)

lemma set_iter:
  "finite (dom (as_entries s)) \<Longrightarrow> set (iter_in_append_order s) = tau_of s ` dom (as_entries s)"
  by (simp add: iter_in_append_order_def sorted_vec_def)

lemma iter_insert:
  assumes ok: "append_ok s" and fresh: "as_entries s k = None"
  shows "iter_in_append_order (snd (append_insert err s k v)) =
    iter_in_append_order s @ [(k, v, as_next_seq s)]"
proof -
  let ?s = "snd (append_insert err s k v)"
  have fin: "finite (dom (as_entries s))" using ok by (simp add: append_ok_def)
  have e: "as_entries ?s = (as_entries s)(k \<mapsto> \<lparr>ar_value = v, ar_seq = as_next_seq s\<rparr>)"
    by (simp add: append_insert_new [OF fresh])
  have k: "k \<notin> dom (as_entries s)" using fresh by auto
  have "image_mset (tau_of ?s) (mset_set (dom (as_entries s))) =
      image_mset (tau_of s) (mset_set (dom (as_entries s)))"
    using k fin by (intro image_mset_cong) (auto simp: e)
  then have "mset (map (tau_of ?s) (sorted_vec ?s)) = mset (iter_in_append_order s @ [(k, v, as_next_seq s)])"
    using fin k by (simp add: sorted_vec_def mset_sorted_list mset_iter) (simp add: e)
  moreover have "sorted (map tau_key (iter_in_append_order s @ [(k, v, as_next_seq s)]))"
  proof -
    have "tau_key r \<le> tau_key (k, v, as_next_seq s)" if "r \<in> set (iter_in_append_order s)" for r
      using that ok by (auto simp: set_iter [OF fin] append_ok_def tau_key_def less_eq_prod_def)
    moreover have "sorted (map tau_key (iter_in_append_order s))" by (simp add: iter_eq)
    ultimately show ?thesis by (simp add: sorted_append)
  qed
  ultimately show ?thesis
    unfolding iter_eq [of ?s] by (intro sort_key_inj_key_eq tau_inj)
qed

lemma iter_distinct: "distinct (map fst (iter_in_append_order s))"
proof -
  have m: "mset (map fst (iter_in_append_order s)) = mset (map fst (map (tau_of s) (sorted_vec s)))"
    by (simp only: iter_eq mset_map mset_sort)
  have d: "distinct (map fst (map (tau_of s) (sorted_vec s)))"
    by (simp add: comp_def sorted_vec_def)
  show ?thesis using mset_eq_imp_distinct_iff [OF m] d by blast
qed

section \<open>Recovery from records\<close>

lemma add_records_value:
  assumes "distinct (map fst rs)" "\<forall>r \<in> set rs. as_entries s (fst r) = None"
  shows "add_records err rs s = Inr \<lparr>
    as_entries = as_entries s ++ map_of (map (\<lambda>(k, v, q). (k, \<lparr>ar_value = v, ar_seq = q\<rparr>)) rs),
    as_next_seq = fold (\<lambda>(k, v, q) n. max n (q + 1)) rs (as_next_seq s)\<rparr>"
  using assms
proof (induction rs arbitrary: s)
  case (Cons r rs)
  obtain k v q where r: "r = (k, v, q)" by (cases r)
  let ?s = "s\<lparr>as_entries := (as_entries s)(k \<mapsto> \<lparr>ar_value = v, ar_seq = q\<rparr>),
    as_next_seq := max (as_next_seq s) (q + 1)\<rparr>"
  let ?m = "map_of (map (\<lambda>(k, v, q). (k, \<lparr>ar_value = v, ar_seq = q\<rparr>)) rs)"
  have "\<forall>r \<in> set rs. as_entries ?s (fst r) = None" using Cons.prems by (auto simp: r)
  then have "add_records err rs ?s = Inr \<lparr>as_entries = as_entries ?s ++ ?m,
      as_next_seq = fold (\<lambda>(k, v, q) n. max n (q + 1)) rs (as_next_seq ?s)\<rparr>"
    using Cons.prems(1) by (intro Cons.IH) simp_all
  moreover have "?m k = None"
    using Cons.prems(1) by (force simp: r map_of_eq_None_iff image_iff)
  then have "(as_entries s)(k \<mapsto> x) ++ ?m = as_entries s ++ ?m(k \<mapsto> x)" for x
    by (auto simp: map_add_def fun_eq_iff split: option.splits)
  ultimately show ?case using Cons.prems(2) by (simp add: r fun_upd_def [symmetric] del: fun_upd_apply)
qed simp

lemma fold_max_Max:
  "fold (\<lambda>(k, v, q) n. max n (q + 1)) rs n =
     Max (insert n ((\<lambda>(k, v, q). q + 1) ` set rs))" for n :: "'a::len word"
proof (induction rs arbitrary: n)
  case (Cons r rs)
  obtain k v q where r: "r = (k, v, q)" by (cases r)
  show ?case
    by (cases "rs = []") (simp_all add: r Cons.IH max.assoc)
qed simp

lemma from_records_perm:
  assumes ok: "append_ok s" and perm: "mset rs = mset (iter_in_append_order s)"
  shows "append_from_records err rs = Inr s"
proof -
  have fin: "finite (dom (as_entries s))" using ok by (simp add: append_ok_def)
  let ?rs = "iter_in_append_order s"
  let ?al = "map (\<lambda>(k, v, q). (k, \<lparr>ar_value = v, ar_seq = q\<rparr>)) ?rs"
  have "sorted (map tau_key ?rs)" by (simp add: iter_eq)
  moreover have "inj_on tau_key (set rs)"
    using tau_inj [of s "sorted_vec s"] mset_eq_setD [OF perm] by (simp add: iter_eq)
  ultimately have sorted: "sort_key tau_key rs = ?rs" using perm by (intro sort_key_inj_key_eq)
  have keys: "map fst ?al = map fst ?rs" by (simp add: case_prod_beta comp_def)
  have "map_of ?al k = as_entries s k" for k
  proof (cases "as_entries s k")
    case None
    then have "k \<notin> fst ` set ?al" unfolding set_map [symmetric] keys by (auto simp: set_iter [OF fin])
    then show ?thesis using None by (simp add: map_of_eq_None_iff)
  next
    case (Some r)
    then have "(k, r) \<in> set ?al" by (force simp: set_iter [OF fin])
    then have "map_of ?al k = Some r" using iter_distinct [of s] by (intro map_of_is_SomeI) (simp_all only: keys)
    then show ?thesis using Some by simp
  qed
  then have entries: "map_of ?al = as_entries s" by (simp add: fun_eq_iff)
  have image: "(\<lambda>(k, v, q). q + 1) ` set ?rs = (\<lambda>i. ar_seq (the (as_entries s i)) + 1) ` dom (as_entries s)"
    by (simp add: set_iter [OF fin] image_image)
  have cursor: "fold (\<lambda>(k, v, q) n. max n (q + 1)) ?rs 0 = as_next_seq s"
    unfolding fold_max_Max image
    by (subst append_cursor [OF ok]) (use fin in \<open>simp add: Max_insert\<close>)
  show ?thesis
    unfolding append_from_records_def sorted
    by (subst add_records_value) (simp_all add: iter_distinct append_new_def entries cursor)
qed

lemma add_records_dup: "add_records err rs s = Inr t \<Longrightarrow> distinct (map fst rs)"
proof -
  have gen: "distinct (map fst rs) \<and> (\<forall>r \<in> set rs. as_entries s (fst r) = None)"
    if "add_records err rs s = Inr t" for rs s
    using that
  proof (induction rs arbitrary: s)
    case (Cons r rs)
    obtain k v q where r: "r = (k, v, q)" by (cases r)
    then show ?case using Cons.IH Cons.prems by (fastforce split: if_splits)
  qed simp
  show "add_records err rs s = Inr t \<Longrightarrow> distinct (map fst rs)" using gen by blast
qed

section \<open>Merkle tree over the sorted nullifiers\<close>

definition nf_leaf_hash :: "('a crypto_scheme) \<Rightarrow> bytes32 \<Rightarrow> bytes32" where
  "nf_leaf_hash E n = derive_key E ''dregg-nullifier-leaf v1'' (bytes32_bytes n)"

definition nf_node_hash :: "('a crypto_scheme) \<Rightarrow> bytes32 \<Rightarrow> bytes32 \<Rightarrow> bytes32" where
  "nf_node_hash E l r = derive_key E ''dregg-nullifier-node v1'' (bytes32_bytes l @ bytes32_bytes r)"

definition pad_even :: "bytes32 list \<Rightarrow> bytes32 list" where
  "pad_even level = (if even (length level) then level else level @ [0])"

fun nf_pairs :: "(bytes32 \<Rightarrow> bytes32 \<Rightarrow> bytes32) \<Rightarrow> bytes32 list \<Rightarrow> bytes32 list" where
  "nf_pairs N (a # b # rest) = N a b # nf_pairs N rest"
| "nf_pairs N _ = []"

lemma length_nf_pairs [simp]: "length (nf_pairs N xs) = length xs div 2"
  by (induction N xs rule: nf_pairs.induct) auto

lemma length_pad_even: "length (pad_even xs) div 2 < length xs" if "1 < length xs"
  using that by (auto simp: pad_even_def elim!: oddE evenE)

function nf_merkle_root :: "(bytes32 \<Rightarrow> bytes32 \<Rightarrow> bytes32) \<Rightarrow> bytes32 list \<Rightarrow> bytes32" where
  "nf_merkle_root N level =
     (if level = [] then 0
      else if length level = 1 then level ! 0
      else nf_merkle_root N (nf_pairs N (pad_even level)))"
  by pat_completeness auto
termination
proof (relation "measure (\<lambda>(N, level). length level)", goal_cases)
  case (2 N level)
  then have "1 < length level" by (cases level) auto
  then show ?case using length_pad_even by simp
qed simp

function nf_merkle_path :: "(bytes32 \<Rightarrow> bytes32 \<Rightarrow> bytes32) \<Rightarrow> bytes32 list \<Rightarrow> nat \<Rightarrow> bytes32 list" where
  "nf_merkle_path N level idx =
     (if length level \<le> 1 then []
      else pad_even level ! (if even idx then idx + 1 else idx - 1) #
             nf_merkle_path N (nf_pairs N (pad_even level)) (idx div 2))"
  by pat_completeness auto
termination
  by (relation "measure (\<lambda>(N, level, idx). length level)") (simp_all add: length_pad_even)

declare nf_merkle_root.simps [simp del] nf_merkle_path.simps [simp del]

record merkle_membership_proof =
  mm_element :: bytes32
  mm_index :: nat
  mm_siblings :: "bytes32 list"

record non_membership_proof =
  nm_absent :: bytes32
  nm_left_neighbor :: "bytes32 option"
  nm_right_neighbor :: "bytes32 option"
  nm_left_membership_proof :: "merkle_membership_proof option"
  nm_right_membership_proof :: "merkle_membership_proof option"
  nm_root :: bytes32

fun nf_fold :: "(bytes32 \<Rightarrow> bytes32 \<Rightarrow> bytes32) \<Rightarrow> bytes32 \<Rightarrow> nat \<Rightarrow> bytes32 list \<Rightarrow> bytes32" where
  "nf_fold N current idx [] = current"
| "nf_fold N current idx (sibling # rest) =
     nf_fold N (if even idx then N current sibling else N sibling current) (idx div 2) rest"

definition verify_membership_proof :: "('a crypto_scheme) \<Rightarrow> merkle_membership_proof \<Rightarrow> bytes32 \<Rightarrow> bool" where
  "verify_membership_proof E p root \<longleftrightarrow>
     nf_fold (nf_node_hash E) (nf_leaf_hash E (mm_element p)) (mm_index p) (mm_siblings p) = root"

definition nullifier_root :: "('a crypto_scheme) \<Rightarrow> append_set \<Rightarrow> bytes32" where
  "nullifier_root E s =
     (if dom (as_entries s) = {} then 0
      else nf_merkle_root (nf_node_hash E) (map (nf_leaf_hash E) (sorted_vec s)))"

definition prove_membership_from_sorted ::
  "('a crypto_scheme) \<Rightarrow> bytes32 list \<Rightarrow> nat \<Rightarrow> merkle_membership_proof" where
  "prove_membership_from_sorted E keys index =
     \<lparr>mm_element = keys ! index, mm_index = index,
      mm_siblings = nf_merkle_path (nf_node_hash E) (map (nf_leaf_hash E) keys) index\<rparr>"

text \<open>\<open>binary_search(n).unwrap_err()\<close>: where the absent key would go.\<close>

definition insertion_point :: "bytes32 list \<Rightarrow> bytes32 \<Rightarrow> nat" where
  "insertion_point keys n = length (takeWhile (\<lambda>x. x < n) keys)"

definition prove_non_membership ::
  "('a crypto_scheme) \<Rightarrow> append_set \<Rightarrow> bytes32 \<Rightarrow> non_membership_proof option" where
  "prove_non_membership E s n =
     (if as_entries s n \<noteq> None then None
      else
        let keys = sorted_vec s; idx = insertion_point keys n in
        Some \<lparr>nm_absent = n,
          nm_left_neighbor = (if 0 < idx then Some (keys ! (idx - 1)) else None),
          nm_right_neighbor = (if idx < length keys then Some (keys ! idx) else None),
          nm_left_membership_proof =
            (if 0 < idx then Some (prove_membership_from_sorted E keys (idx - 1)) else None),
          nm_right_membership_proof =
            (if idx < length keys then Some (prove_membership_from_sorted E keys idx) else None),
          nm_root = nullifier_root E s\<rparr>)"

definition neighbor_proved ::
  "('a crypto_scheme) \<Rightarrow> bytes32 option \<Rightarrow> merkle_membership_proof option \<Rightarrow> bytes32 \<Rightarrow> bool" where
  "neighbor_proved E neighbor proof root =
     (case neighbor of
        None \<Rightarrow> True
      | Some n \<Rightarrow> (case proof of
            None \<Rightarrow> False
          | Some p \<Rightarrow> mm_element p = n \<and> verify_membership_proof E p root))"

definition verify_non_membership :: "('a crypto_scheme) \<Rightarrow> non_membership_proof \<Rightarrow> bytes32 \<Rightarrow> bool" where
  "verify_non_membership E p root =
     (if nm_root p \<noteq> root then False
      else if (case nm_left_neighbor p of Some l \<Rightarrow> nm_absent p \<le> l | None \<Rightarrow> False) then False
      else if (case nm_right_neighbor p of Some r \<Rightarrow> r \<le> nm_absent p | None \<Rightarrow> False) then False
      else if \<not> neighbor_proved E (nm_left_neighbor p) (nm_left_membership_proof p) root then False
      else if \<not> neighbor_proved E (nm_right_neighbor p) (nm_right_membership_proof p) root then False
      else (case (nm_left_membership_proof p, nm_right_membership_proof p) of
              (Some l, Some r) \<Rightarrow> mm_index r = mm_index l + 1
            | _ \<Rightarrow> True))"

section \<open>Proofs of absence\<close>

lemma nf_pairs_nth:
  "i < length xs div 2 \<Longrightarrow> nf_pairs N xs ! i = N (xs ! (2 * i)) (xs ! (2 * i + 1))"
proof (induction N xs arbitrary: i rule: nf_pairs.induct)
  case (1 N a b rest)
  then show ?case by (cases i) auto
qed auto

lemma pad_even_nth: "i < length xs \<Longrightarrow> pad_even xs ! i = xs ! i"
  by (simp add: pad_even_def nth_append)

lemma nf_path_folds:
  "idx < length level \<Longrightarrow>
     nf_fold N (level ! idx) idx (nf_merkle_path N level idx) = nf_merkle_root N level"
proof (induction N level idx rule: nf_merkle_path.induct)
  case (1 N level idx)
  show ?case
  proof (cases "length level \<le> 1")
    case True
    then have "length level = 1" "idx = 0" "level \<noteq> []" using "1.prems" by auto
    then show ?thesis by (subst nf_merkle_path.simps, subst nf_merkle_root.simps) simp
  next
    case False
    let ?p = "pad_even level"
    have ev: "even (length ?p)" and le: "length level \<le> length ?p" by (auto simp: pad_even_def)
    then have i: "idx < length ?p" "idx div 2 < length ?p div 2"
      using "1.prems" by (auto elim!: evenE)
    let ?q = "nf_pairs N ?p"
    have node: "?q ! (idx div 2) =
        (if even idx then N (level ! idx) (?p ! (idx + 1)) else N (?p ! (idx - 1)) (level ! idx))"
      using nf_pairs_nth [OF i(2), of N] pad_even_nth [OF "1.prems"]
      by (cases "even idx") (auto elim!: evenE oddE)
    have "nf_fold N (?q ! (idx div 2)) (idx div 2) (nf_merkle_path N ?q (idx div 2)) = nf_merkle_root N ?q"
      using "1.IH" [OF False] i by simp
    moreover have "nf_merkle_root N level = nf_merkle_root N ?q"
      using False by (subst nf_merkle_root.simps) auto
    ultimately show ?thesis
      using False node by (subst nf_merkle_path.simps) (cases "even idx"; simp)
  qed
qed

lemma membership_from_sorted:
  assumes "index < length (sorted_vec s)"
  shows "verify_membership_proof E (prove_membership_from_sorted E (sorted_vec s) index) (nullifier_root E s)"
proof -
  have "dom (as_entries s) \<noteq> {}" using assms by (auto simp: sorted_vec_def)
  then show ?thesis
    using nf_path_folds [of index "map (nf_leaf_hash E) (sorted_vec s)" "nf_node_hash E"] assms
    by (simp add: verify_membership_proof_def prove_membership_from_sorted_def nullifier_root_def)
qed

lemma insertion_point_props:
  assumes "sorted keys" "n \<notin> set keys"
  shows "insertion_point keys n \<le> length keys"
    "0 < insertion_point keys n \<Longrightarrow> keys ! (insertion_point keys n - 1) < n"
    "insertion_point keys n < length keys \<Longrightarrow> n < keys ! insertion_point keys n"
proof -
  let ?t = "takeWhile (\<lambda>x. x < n) keys"
  show "insertion_point keys n \<le> length keys"
    by (simp add: insertion_point_def length_takeWhile_le)
  show "keys ! (insertion_point keys n - 1) < n" if "0 < insertion_point keys n"
  proof -
    have "insertion_point keys n - 1 < length ?t" using that by (simp add: insertion_point_def)
    then have "?t ! (insertion_point keys n - 1) \<in> set ?t" "keys ! (insertion_point keys n - 1) = ?t ! (insertion_point keys n - 1)"
      by (rule nth_mem, simp add: takeWhile_nth)
    then show ?thesis by (metis set_takeWhileD)
  qed
  show "n < keys ! insertion_point keys n" if "insertion_point keys n < length keys"
  proof -
    have "\<not> keys ! insertion_point keys n < n"
      using that nth_length_takeWhile [of "\<lambda>x. x < n" keys] by (simp add: insertion_point_def)
    moreover have "keys ! insertion_point keys n \<noteq> n" using assms(2) that by (metis nth_mem)
    ultimately show ?thesis by simp
  qed
qed

lemma non_membership_complete:
  assumes "finite (dom (as_entries s))" "as_entries s n = None"
  shows "\<exists>p. prove_non_membership E s n = Some p \<and> nm_absent p = n \<and>
    verify_non_membership E p (nullifier_root E s)"
proof -
  let ?k = "sorted_vec s"
  have k: "sorted ?k" "n \<notin> set ?k" using assms by (auto simp: sorted_vec_def)
  note ip = insertion_point_props [OF k]
  let ?i = "insertion_point ?k n"
  have "?i - 1 < length ?k" if "0 < ?i" using that ip(1) by simp
  then show ?thesis
    using assms(2) ip(2,3) membership_from_sorted [of "?i - 1" s E] membership_from_sorted [of ?i s E]
    by (auto simp: prove_non_membership_def verify_non_membership_def Let_def neighbor_proved_def
        prove_membership_from_sorted_def not_le)
qed

section \<open>Properties\<close>

text \<open>The specification: the sequence of (key, value) pairs in the order they were added.\<close>

definition appended :: "append_set \<Rightarrow> (bytes32 \<times> u64) list" where
  "appended s = map (\<lambda>(k, v, q). (k, v)) (iter_in_append_order s)"

lemma appended_keys: "finite (dom (as_entries s)) \<Longrightarrow> fst ` set (appended s) = dom (as_entries s)"
  by (auto simp: appended_def set_iter image_iff)

lemma appended_map_of: "append_ok s \<Longrightarrow> map_of (appended s) k = append_value_of s k"
proof -
  assume ok: "append_ok s"
  then have fin: "finite (dom (as_entries s))" by (simp add: append_ok_def)
  have d: "distinct (map fst (appended s))"
    using iter_distinct [of s] by (simp add: appended_def comp_def case_prod_beta)
  show ?thesis
  proof (cases "as_entries s k")
    case None
    then have "k \<notin> fst ` set (appended s)" by (auto simp: appended_keys [OF fin])
    then show ?thesis using None by (simp add: append_value_of_def map_of_eq_None_iff)
  next
    case (Some r)
    then have "(k, ar_value r) \<in> set (appended s)"
      by (force simp: appended_def set_iter [OF fin])
    then have "map_of (appended s) k = Some (ar_value r)" by (rule map_of_is_SomeI [OF d])
    then show ?thesis using Some by (simp add: append_value_of_def)
  qed
qed

text \<open>C18. The accumulators implement an append-only sequence without repetitions: inserting a key that
  occurs is refused with the set unchanged, inserting a new key appends the pair and keeps the
  representation well formed, membership and values are those of the sequence, and taking the key just inserted out
  again (the rollback path) gives back the very set, append cursor included, so a replayed turn gets the same
  append position.\<close>

theorem append_set_refines:
  assumes "append_ok s" and "append_room s"
  shows "(append_contains s k \<longleftrightarrow> k \<in> fst ` set (appended s)) \<and>
    append_value_of s k = map_of (appended s) k \<and>
    (if append_contains s k then append_insert err s k v = (Inl (err k), s)
     else fst (append_insert err s k v) = Inr () \<and> append_ok (snd (append_insert err s k v)) \<and>
       appended (snd (append_insert err s k v)) = appended s @ [(k, v)] \<and>
       append_remove (snd (append_insert err s k v)) k = (True, s))"
proof -
  have fin: "finite (dom (as_entries s))" using assms(1) by (simp add: append_ok_def)
  have c: "append_contains s k \<longleftrightarrow> k \<in> fst ` set (appended s)"
    by (simp add: append_contains_def appended_keys [OF fin] domIff)
  show ?thesis
  proof (cases "append_contains s k")
    case True
    then show ?thesis
      using c appended_map_of [OF assms(1)] by (simp add: append_contains_def append_insert_def)
  next
    case False
    then have none: "as_entries s k = None" by (simp add: append_contains_def)
    have "appended (snd (append_insert err s k v)) = appended s @ [(k, v)]"
      by (simp add: appended_def iter_insert [OF assms(1) none])
    then show ?thesis
      using False c appended_map_of [OF assms(1)] append_insert_ok [OF assms none]
        append_insert_remove [OF assms(1) none]
      by (simp add: append_insert_new [OF none])
  qed
qed

text \<open>C25. Persisting an accumulator as its records and reading them back, in whatever order the store returns
  them, gives the same accumulator, append cursor included; any list of records with a repeated key is
  refused.\<close>

theorem append_set_recovers:
  assumes "append_ok s"
  shows "(mset rs = mset (iter_in_append_order s) \<longrightarrow> append_from_records err rs = Inr s) \<and>
    (\<not> distinct (map fst rs) \<longrightarrow> (\<exists>e. append_from_records err rs = Inl e))"
proof -
  have "\<exists>e. append_from_records err rs = Inl e" if d: "\<not> distinct (map fst rs)"
  proof (cases "append_from_records err rs")
    case (Inr t)
    then have "distinct (map fst (sort_key tau_key rs))"
      using add_records_dup by (simp add: append_from_records_def)
    then show ?thesis using d mset_eq_imp_distinct_iff [of "map fst (sort_key tau_key rs)" "map fst rs"] by simp
  qed simp
  then show ?thesis using from_records_perm [OF assms] by blast
qed

text \<open>Absence proofs are complete: for a nullifier that is not in the set a proof is produced and it
  verifies against the current root; for one that is in the set none is produced.\<close>

theorem non_membership_proof_complete:
  assumes "finite (dom (as_entries s))"
  shows "if append_contains s n then prove_non_membership E s n = None
    else \<exists>p. prove_non_membership E s n = Some p \<and> nm_absent p = n \<and>
      verify_non_membership E p (nullifier_root E s)"
  using non_membership_complete [OF assms, of n E]
  by (simp add: append_contains_def prove_non_membership_def)

text \<open>Absence proofs are not sound: for every set and every nullifier, revealed ones included, there is a
  proof of absence that verifies against the root of the set: the one that claims no neighbours at
  all. The verifier never asks that a missing neighbour means the end of the sorted sequence.\<close>

theorem non_membership_forgeable:
  "\<exists>p. nm_absent p = n \<and> verify_non_membership E p (nullifier_root E s)"
proof
  let ?p = "\<lparr>nm_absent = n, nm_left_neighbor = None, nm_right_neighbor = None,
    nm_left_membership_proof = None, nm_right_membership_proof = None, nm_root = nullifier_root E s\<rparr>"
  show "nm_absent ?p = n \<and> verify_non_membership E ?p (nullifier_root E s)"
    by (simp add: verify_non_membership_def neighbor_proved_def)
qed

section \<open>Witnesses\<close>

definition demo_set :: append_set where
  "demo_set = snd (nullifier_insert append_new 5 7)"

lemma demo_set_ok: "append_ok demo_set" "append_room demo_set" "append_contains demo_set 5" "\<not> append_contains demo_set 4"
proof -
  show "append_ok demo_set"
    unfolding demo_set_def nullifier_insert_def
    by (rule append_insert_ok [OF append_ok_new]) (simp_all add: append_room_def append_new_def)
  show "append_room demo_set" "append_contains demo_set 5" "\<not> append_contains demo_set 4"
    by (simp_all add: demo_set_def nullifier_insert_def append_insert_def append_new_def append_room_def
        append_contains_def)
qed

theorem append_set_refines_witness:
  "append_insert DoubleSpend demo_set 5 9 = (Inl (DoubleSpend 5), demo_set) \<and>
   append_remove (snd (append_insert DoubleSpend demo_set 4 9)) 4 = (True, demo_set)"
  using append_set_refines [OF demo_set_ok(1,2), of 5 DoubleSpend 9]
    append_set_refines [OF demo_set_ok(1,2), of 4 DoubleSpend 9] demo_set_ok(3,4)
  by simp

text \<open>Two records, read back in the wrong order.\<close>

theorem append_set_recovers_witness:
  "append_from_records DoubleSpend (rev (iter_in_append_order (snd (nullifier_insert demo_set 4 9)))) =
     Inr (snd (nullifier_insert demo_set 4 9)) \<and> length (iter_in_append_order (snd (nullifier_insert demo_set 4 9))) = 2"
proof -
  have ok: "append_ok (snd (nullifier_insert demo_set 4 9))"
    unfolding nullifier_insert_def using demo_set_ok by (intro append_insert_ok) (simp_all add: append_contains_def)
  have "dom (as_entries (snd (nullifier_insert demo_set 4 9))) = {4, 5}"
    by (auto simp: demo_set_def nullifier_insert_def append_insert_def append_new_def)
  then have "length (iter_in_append_order (snd (nullifier_insert demo_set 4 9))) = 2"
    by (simp add: iter_in_append_order_def sorted_vec_def)
  then show ?thesis using append_set_recovers [OF ok] by simp
qed

theorem non_membership_proof_complete_witness:
  "\<exists>p. prove_non_membership demo_crypto demo_set 4 = Some p \<and> nm_absent p = 4"
proof -
  have "finite (dom (as_entries demo_set))" using demo_set_ok(1) by (simp add: append_ok_def)
  then show ?thesis using non_membership_proof_complete [of demo_set 4 demo_crypto] demo_set_ok(4) by auto
qed

end
