(* ===== verification/Journal.thy ===== *)
theory Journal
  imports Ledger AppendSet
begin

text \<open>
  The turn journal (\<open>turn/src/journal.rs\<close>): every mutation the executor makes pushes an entry that
  carries the value it overwrites, \<open>touched_cells\<close> is the write set, and \<open>rollback\<close> undoes the entries
  from the last to the first. \<open>exec_stores\<close> is what a rollback writes to: the ledger and the four
  append-only sets of the executor.

  \<open>stores_view\<close> is what a rollback is held to: every cell with its c-list as a map from slots to
  capabilities, and the entries of the four sets. Left out of it are the digest memo of a cell, the
  commitment a \<open>SetField\<close> clears, the order of a c-list, and its tombstones and slot counter, which
  the undo of a grant or a revocation does not bring back. \<open>undoable\<close> relates two states when the
  entries journalled between them undo one into the view of the other; it composes, so the proof for
  a turn is one lemma per journalled write.
\<close>

section \<open>Entries\<close>

datatype journal_entry =
    JSetField cell_id u64 "field_element option"
  | JSetBalance cell_id int
  | JSetNonce cell_id u64
  | JGrantCapability cell_id u32
  | JRevokeCapability cell_id capability_ref
  | JCreateCell cell_id
  | JMakeSovereign cell
  | JSetProvedState cell_id bool
  | JSetPermissions cell_id permissions
  | JSetVerificationKey cell_id "verification_key option"
  | JSetProgram cell_id cell_program
  | JSetDelegation cell_id "delegated_ref option"
  | JSetDelegationEpoch cell_id u64
  | JSetCommittedHeight cell_id u64
  | JNoteSpend
  | JNoteCreate
  | JEventEmitted cell_id bytes32 "field_element list"
  | JBridgedNullifierInserted bytes32
  | JNoteNullifierInserted bytes32
  | JNoteCommitmentInserted bytes32
  | JRevocationInserted bytes32
  | JSetLifecycle cell_id cell_lifecycle
  | JSetHeap cell_id u32 u32 "field_element option"
  | JAttenuateCapability cell_id u32 auth_required "effect_mask option" "u64 option"

type_synonym ledger_journal = "journal_entry list"

definition journal_new :: ledger_journal where
  "journal_new = []"

text \<open>Each \<open>record_*\<close> method pushes the entry of its name.\<close>

definition journal_push :: "ledger_journal \<Rightarrow> journal_entry \<Rightarrow> ledger_journal" where
  "journal_push J e = J @ [e]"

fun entry_cell :: "journal_entry \<Rightarrow> cell_id option" where
  "entry_cell (JSetField i _ _) = Some i"
| "entry_cell (JSetBalance i _) = Some i"
| "entry_cell (JSetNonce i _) = Some i"
| "entry_cell (JGrantCapability i _) = Some i"
| "entry_cell (JRevokeCapability i _) = Some i"
| "entry_cell (JCreateCell i) = Some i"
| "entry_cell (JSetProvedState i _) = Some i"
| "entry_cell (JSetPermissions i _) = Some i"
| "entry_cell (JSetVerificationKey i _) = Some i"
| "entry_cell (JSetProgram i _) = Some i"
| "entry_cell (JSetDelegation i _) = Some i"
| "entry_cell (JSetDelegationEpoch i _) = Some i"
| "entry_cell (JSetCommittedHeight i _) = Some i"
| "entry_cell (JEventEmitted i _ _) = Some i"
| "entry_cell (JSetLifecycle i _) = Some i"
| "entry_cell (JSetHeap i _ _ _) = Some i"
| "entry_cell (JAttenuateCapability i _ _ _ _) = Some i"
| "entry_cell (JMakeSovereign c) = Some (c_id c)"
| "entry_cell JNoteSpend = None"
| "entry_cell JNoteCreate = None"
| "entry_cell (JBridgedNullifierInserted _) = None"
| "entry_cell (JNoteNullifierInserted _) = None"
| "entry_cell (JNoteCommitmentInserted _) = None"
| "entry_cell (JRevocationInserted _) = None"

fun touched_cells_from :: "cell_id list \<Rightarrow> ledger_journal \<Rightarrow> cell_id list" where
  "touched_cells_from out [] = out"
| "touched_cells_from out (e # es) =
     (case entry_cell e of
        None \<Rightarrow> touched_cells_from out es
      | Some i \<Rightarrow> touched_cells_from (if i \<in> set out then out else out @ [i]) es)"

definition touched_cells :: "ledger_journal \<Rightarrow> cell_id list" where
  "touched_cells J = touched_cells_from [] J"

section \<open>Rollback\<close>

record exec_stores =
  xs_ledger :: ledger
  xs_bridged :: "bytes32 list"
  xs_nullifiers :: append_set
  xs_commitments :: append_set
  xs_revoked :: append_set

definition map_state :: "(cell_state \<Rightarrow> cell_state) \<Rightarrow> cell \<Rightarrow> cell" where
  "map_state f c = c\<lparr>c_state := f (c_state c)\<rparr>"

definition map_caps :: "(capability_set \<Rightarrow> capability_set) \<Rightarrow> cell \<Rightarrow> cell" where
  "map_caps f c = c\<lparr>c_capabilities := f (c_capabilities c)\<rparr>"

text \<open>
  The prior value of a fixed slot is always recorded (the code \<open>expect\<close>s it); the branch without it
  is not reached.
\<close>

definition undo_field :: "('a crypto_scheme) \<Rightarrow> u64 \<Rightarrow> field_element option \<Rightarrow> cell_state \<Rightarrow> cell_state" where
  "undo_field E index old_value s =
     (if unat index < STATE_SLOTS
      then (case old_value of
              Some v \<Rightarrow> s\<lparr>st_fields := (st_fields s)[unat index := v]\<rparr>
            | None \<Rightarrow> s)
      else (case old_value of
              Some v \<Rightarrow> snd (set_field_ext E s index v)
            | None \<Rightarrow> reseal_fields_root E (s\<lparr>st_fields_map := (st_fields_map s)(index := None)\<rparr>)))"

definition undo_heap ::
  "('a crypto_scheme) \<Rightarrow> u32 \<Rightarrow> u32 \<Rightarrow> field_element option \<Rightarrow> cell_state \<Rightarrow> cell_state" where
  "undo_heap E coll key old_value s =
     (case old_value of
        Some v \<Rightarrow> snd (set_heap E s coll key v)
      | None \<Rightarrow> snd (remove_heap E s coll key))"

definition undo_attenuate ::
  "u32 \<Rightarrow> auth_required \<Rightarrow> effect_mask option \<Rightarrow> u64 option \<Rightarrow> capability_set \<Rightarrow> capability_set" where
  "undo_attenuate slot perms effects expiry cs =
     (let cs = invalidate_cap_root_cache cs in
      cs\<lparr>cs_refs := update_first (\<lambda>r. cr_slot r = slot)
           (\<lambda>r. r\<lparr>cr_permissions := perms, cr_allowed_effects := effects, cr_expires_at := expiry\<rparr>)
           (cs_refs cs)\<rparr>)"

definition with_cell ::
  "cell_id \<Rightarrow> (cell \<Rightarrow> cell) \<Rightarrow> ('a exec_stores_scheme) \<Rightarrow> ('a exec_stores_scheme)" where
  "with_cell i f S = S\<lparr>xs_ledger := get_mut_with (xs_ledger S) i f\<rparr>"

fun undo_entry ::
  "('a crypto_scheme) \<Rightarrow> journal_entry \<Rightarrow> ('b exec_stores_scheme) \<Rightarrow> ('b exec_stores_scheme)" where
  "undo_entry E (JSetField i index old) S = with_cell i (map_state (undo_field E index old)) S"
| "undo_entry E (JSetBalance i old) S = with_cell i (map_state (\<lambda>s. s\<lparr>st_balance := old\<rparr>)) S"
| "undo_entry E (JSetNonce i old) S = with_cell i (map_state (\<lambda>s. s\<lparr>st_nonce := old\<rparr>)) S"
| "undo_entry E (JGrantCapability i slot) S = with_cell i (map_caps (\<lambda>cs. snd (clist_revoke cs slot))) S"
| "undo_entry E (JRevokeCapability i cap) S = with_cell i (map_caps (\<lambda>cs. clist_restore cs cap)) S"
| "undo_entry E (JCreateCell i) S = S\<lparr>xs_ledger := snd (ledger_remove (xs_ledger S) i)\<rparr>"
| "undo_entry E (JMakeSovereign c) S = S\<lparr>xs_ledger := undo_make_sovereign (xs_ledger S) c\<rparr>"
| "undo_entry E (JSetProvedState i old) S = with_cell i (map_state (\<lambda>s. s\<lparr>st_proved_state := old\<rparr>)) S"
| "undo_entry E (JSetPermissions i old) S = with_cell i (\<lambda>c. c\<lparr>c_permissions := old\<rparr>) S"
| "undo_entry E (JSetVerificationKey i old) S = with_cell i (\<lambda>c. c\<lparr>c_verification_key := old\<rparr>) S"
| "undo_entry E (JSetProgram i old) S = with_cell i (\<lambda>c. c\<lparr>c_program := old\<rparr>) S"
| "undo_entry E (JSetDelegation i old) S = with_cell i (\<lambda>c. c\<lparr>c_delegation := old\<rparr>) S"
| "undo_entry E (JSetDelegationEpoch i old) S =
     with_cell i (map_state (\<lambda>s. s\<lparr>st_delegation_epoch := old\<rparr>)) S"
| "undo_entry E (JSetCommittedHeight i old) S =
     with_cell i (map_state (\<lambda>s. s\<lparr>st_committed_height := old\<rparr>)) S"
| "undo_entry E (JBridgedNullifierInserted n) S = S\<lparr>xs_bridged := snd (bridged_remove (xs_bridged S) n)\<rparr>"
| "undo_entry E (JNoteNullifierInserted n) S =
     S\<lparr>xs_nullifiers := snd (append_remove (xs_nullifiers S) n)\<rparr>"
| "undo_entry E (JNoteCommitmentInserted n) S =
     S\<lparr>xs_commitments := snd (append_remove (xs_commitments S) n)\<rparr>"
| "undo_entry E (JRevocationInserted n) S = S\<lparr>xs_revoked := snd (append_remove (xs_revoked S) n)\<rparr>"
| "undo_entry E (JSetLifecycle i old) S = with_cell i (\<lambda>c. c\<lparr>c_lifecycle := old\<rparr>) S"
| "undo_entry E (JSetHeap i coll key old) S = with_cell i (map_state (undo_heap E coll key old)) S"
| "undo_entry E (JAttenuateCapability i slot perms effects expiry) S =
     with_cell i (map_caps (undo_attenuate slot perms effects expiry)) S"
| "undo_entry E JNoteSpend S = S"
| "undo_entry E JNoteCreate S = S"
| "undo_entry E (JEventEmitted _ _ _) S = S"

definition rollback ::
  "('a crypto_scheme) \<Rightarrow> ledger_journal \<Rightarrow> ('b exec_stores_scheme) \<Rightarrow> ('b exec_stores_scheme)" where
  "rollback E J S = fold (undo_entry E) (rev J) S"

section \<open>The write set\<close>

lemma set_touched_cells_from:
  "set (touched_cells_from out J) = set out \<union> {i. \<exists>e \<in> set J. entry_cell e = Some i}"
  by (induction J arbitrary: out) (auto split: option.splits)

lemma set_touched_cells: "set (touched_cells J) = {i. \<exists>e \<in> set J. entry_cell e = Some i}"
  by (simp add: touched_cells_def set_touched_cells_from)

lemma distinct_touched_cells_from: "distinct out \<Longrightarrow> distinct (touched_cells_from out J)"
  by (induction J arbitrary: out) (auto split: option.splits)

lemma distinct_touched_cells: "distinct (touched_cells J)"
  by (simp add: touched_cells_def distinct_touched_cells_from)

section \<open>What a rollback is held to\<close>

definition journal_view :: "cell \<Rightarrow> cell \<times> (u32 \<rightharpoonup> capability_ref)" where
  "journal_view c =
     (c\<lparr>c_leaf_cache := None, c_capabilities := clist_new,
        c_state := (c_state c)\<lparr>st_commitments := []\<rparr>\<rparr>,
      clist_lookup (c_capabilities c))"

definition cells_view :: "ledger \<Rightarrow> cell_id \<Rightarrow> (cell \<times> (u32 \<rightharpoonup> capability_ref)) option" where
  "cells_view L i = map_option journal_view (l_cells L i)"

definition sets_view ::
  "('b exec_stores_scheme) \<Rightarrow>
     bytes32 list \<times> (bytes32 \<rightharpoonup> append_record) \<times> (bytes32 \<rightharpoonup> append_record) \<times> (bytes32 \<rightharpoonup> append_record)" where
  "sets_view S = (xs_bridged S, as_entries (xs_nullifiers S), as_entries (xs_commitments S),
     as_entries (xs_revoked S))"

definition stores_view where
  "stores_view S = (cells_view (xs_ledger S), sets_view S)"

lemma l_cells_ledger_ops [simp]:
  "l_cells (journal_cell L i) = l_cells L"
  "l_cells (pubkey_index_add L pk i) = l_cells L"
  "l_cells (pubkey_index_remove L pk i) = l_cells L"
  "l_cells (snd (ledger_remove L i)) = (l_cells L)(i := None)"
  "l_cells (get_mut_with L i f) =
     (case l_cells L i of None \<Rightarrow> l_cells L | Some c \<Rightarrow> (l_cells L)(i \<mapsto> f (invalidate_leaf_cache c)))"
  by (auto simp: journal_cell_def pubkey_index_add_def pubkey_index_remove_def ledger_remove_def
      get_mut_with_def Let_def split: option.splits)

lemma journal_view_eqE:
  assumes "journal_view d = journal_view c"
  obtains m cs k where "d = c\<lparr>c_leaf_cache := m, c_capabilities := cs, c_state := (c_state c)\<lparr>st_commitments := k\<rparr>\<rparr>"
    "clist_lookup cs = clist_lookup (c_capabilities c)"
proof
  let ?norm = "\<lambda>c. c\<lparr>c_leaf_cache := None, c_capabilities := clist_new,
        c_state := (c_state c)\<lparr>st_commitments := []\<rparr>\<rparr>"
  have n: "?norm d = ?norm c" and l: "clist_lookup (c_capabilities d) = clist_lookup (c_capabilities c)"
    using assms by (simp_all add: journal_view_def)
  have "d = (?norm d)\<lparr>c_leaf_cache := c_leaf_cache d, c_capabilities := c_capabilities d,
        c_state := (c_state (?norm d))\<lparr>st_commitments := st_commitments (c_state d)\<rparr>\<rparr>"
    by simp
  also have "\<dots> = c\<lparr>c_leaf_cache := c_leaf_cache d, c_capabilities := c_capabilities d,
        c_state := (c_state c)\<lparr>st_commitments := st_commitments (c_state d)\<rparr>\<rparr>"
    unfolding n by simp
  finally show "d = c\<lparr>c_leaf_cache := c_leaf_cache d, c_capabilities := c_capabilities d,
        c_state := (c_state c)\<lparr>st_commitments := st_commitments (c_state d)\<rparr>\<rparr>" .
  show "clist_lookup (c_capabilities d) = clist_lookup (c_capabilities c)" by (rule l)
qed

lemma journal_view_invalidate [simp]: "journal_view (invalidate_leaf_cache c) = journal_view c"
  by (simp add: journal_view_def invalidate_leaf_cache_def)

text \<open>An update that acts alike on cells with the same view.\<close>

definition view_safe :: "(cell \<Rightarrow> cell) \<Rightarrow> bool" where
  "view_safe f \<longleftrightarrow> (\<forall>c d. journal_view d = journal_view c \<longrightarrow> journal_view (f d) = journal_view (f c))"

lemma view_safeD: "view_safe f \<Longrightarrow> journal_view d = journal_view c \<Longrightarrow> journal_view (f d) = journal_view (f c)"
  unfolding view_safe_def by blast

lemma view_safe_state:
  assumes "\<And>s k. \<exists>k'. f (s\<lparr>st_commitments := k\<rparr>) = (f s)\<lparr>st_commitments := k'\<rparr>"
  shows "view_safe (map_state f)"
  unfolding view_safe_def
proof (intro allI impI)
  fix c d :: cell
  assume "journal_view d = journal_view c"
  then obtain m cs k where d: "d = c\<lparr>c_leaf_cache := m, c_capabilities := cs, c_state := (c_state c)\<lparr>st_commitments := k\<rparr>\<rparr>"
    and l: "clist_lookup cs = clist_lookup (c_capabilities c)"
    by (rule journal_view_eqE)
  obtain k' where "f ((c_state c)\<lparr>st_commitments := k\<rparr>) = (f (c_state c))\<lparr>st_commitments := k'\<rparr>"
    using assms by blast
  then show "journal_view (map_state f d) = journal_view (map_state f c)"
    by (simp add: d l journal_view_def map_state_def)
qed

lemma view_safe_caps:
  assumes "\<And>a b. clist_lookup a = clist_lookup b \<Longrightarrow> clist_lookup (f a) = clist_lookup (f b)"
  shows "view_safe (map_caps f)"
  unfolding view_safe_def
proof (intro allI impI)
  fix c d :: cell
  assume "journal_view d = journal_view c"
  then obtain m cs k where d: "d = c\<lparr>c_leaf_cache := m, c_capabilities := cs, c_state := (c_state c)\<lparr>st_commitments := k\<rparr>\<rparr>"
    and l: "clist_lookup cs = clist_lookup (c_capabilities c)"
    by (rule journal_view_eqE)
  then show "journal_view (map_caps f d) = journal_view (map_caps f c)"
    using assms [OF l] by (simp add: journal_view_def map_caps_def)
qed

lemma view_safe_upd:
  "view_safe (\<lambda>c. c\<lparr>c_permissions := p\<rparr>)" "view_safe (\<lambda>c. c\<lparr>c_verification_key := v\<rparr>)"
  "view_safe (\<lambda>c. c\<lparr>c_program := g\<rparr>)" "view_safe (\<lambda>c. c\<lparr>c_delegation := r\<rparr>)"
  "view_safe (\<lambda>c. c\<lparr>c_lifecycle := l\<rparr>)"
  unfolding view_safe_def by ((intro allI impI, erule journal_view_eqE, simp add: journal_view_def)+)

lemma lookup_revoke:
  "clist_lookup (snd (clist_revoke cs slot)) = (clist_lookup cs)(slot := None)"
proof
  fix k
  have f: "find (\<lambda>r. cr_slot r = j) (filter (\<lambda>r. cr_slot r \<noteq> slot) xs) =
      (if j = slot then None else find (\<lambda>r. cr_slot r = j) xs)" for j xs
    by (induction xs) auto
  show "clist_lookup (snd (clist_revoke cs slot)) k = ((clist_lookup cs)(slot := None)) k"
    by (simp add: clist_revoke_def clist_lookup_def Let_def f)
qed

lemma lookup_restore:
  "clist_lookup (clist_restore cs cap) =
     (if clist_lookup cs (cr_slot cap) = None then (clist_lookup cs)(cr_slot cap \<mapsto> cap)
      else clist_lookup cs)"
proof
  fix k
  have a: "find P (xs @ ys) = (case find P xs of None \<Rightarrow> find P ys | Some x \<Rightarrow> Some x)" for P and xs ys :: "capability_ref list"
    by (induction xs) auto
  have e: "list_ex P xs \<longleftrightarrow> find P xs \<noteq> None" for P and xs :: "capability_ref list"
    by (auto simp: find_None_iff list_ex_iff)
  show "clist_lookup (clist_restore cs cap) k =
     (if clist_lookup cs (cr_slot cap) = None then (clist_lookup cs)(cr_slot cap \<mapsto> cap)
      else clist_lookup cs) k"
    by (auto simp: clist_restore_def clist_lookup_def Let_def a e split: option.splits)
qed

lemma lookup_update_first:
  assumes "\<And>r. cr_slot (f r) = cr_slot r"
  shows "find (\<lambda>r. cr_slot r = k) (update_first (\<lambda>r. cr_slot r = slot) f xs) =
    (if k = slot then map_option f (find (\<lambda>r. cr_slot r = k) xs) else find (\<lambda>r. cr_slot r = k) xs)"
  by (induction xs) (auto simp: assms)

lemma lookup_undo_attenuate:
  "clist_lookup (undo_attenuate slot p e x cs) =
     (clist_lookup cs)(slot := map_option
        (\<lambda>r. r\<lparr>cr_permissions := p, cr_allowed_effects := e, cr_expires_at := x\<rparr>) (clist_lookup cs slot))"
  by (rule ext) (simp add: undo_attenuate_def clist_lookup_def Let_def lookup_update_first)

lemma undo_field_safe: "\<exists>k'. undo_field E index old (s\<lparr>st_commitments := k\<rparr>) =
    (undo_field E index old s)\<lparr>st_commitments := k'\<rparr>"
  by (cases "unat index < STATE_SLOTS"; cases old)
     (auto simp: undo_field_def set_field_ext_def reseal_fields_root_def Let_def
       intro: exI [of _ k])

lemma undo_heap_safe: "\<exists>k'. undo_heap E coll key old (s\<lparr>st_commitments := k\<rparr>) =
    (undo_heap E coll key old s)\<lparr>st_commitments := k'\<rparr>"
  by (rule exI [of _ k], cases old)
     (auto simp: undo_heap_def set_heap_def remove_heap_def rebuild_heap_cache_def Let_def
       split: option.splits)

lemma view_safe_caps_undo:
  "view_safe (map_caps (\<lambda>cs. snd (clist_revoke cs slot)))"
  "view_safe (map_caps (\<lambda>cs. clist_restore cs cap))"
  "view_safe (map_caps (undo_attenuate slot p e x))"
  by (rule view_safe_caps, simp add: lookup_revoke lookup_restore lookup_undo_attenuate)+

lemma view_safe_state_plain:
  assumes "\<And>s k. f (s\<lparr>st_commitments := k\<rparr>) = (f s)\<lparr>st_commitments := k\<rparr>"
  shows "view_safe (map_state f)"
  by (rule view_safe_state, rule exI, rule assms)

lemma view_safe_state_undo:
  "view_safe (map_state (undo_field E index old))"
  "view_safe (map_state (undo_heap E coll key old))"
  by (rule view_safe_state, rule undo_field_safe) (rule view_safe_state, rule undo_heap_safe)

lemma view_safe_state_upd:
  "view_safe (map_state (\<lambda>s. s\<lparr>st_balance := b\<rparr>))"
  "view_safe (map_state (\<lambda>s. s\<lparr>st_nonce := n\<rparr>))"
  "view_safe (map_state (\<lambda>s. s\<lparr>st_proved_state := q\<rparr>))"
  "view_safe (map_state (\<lambda>s. s\<lparr>st_delegation_epoch := n\<rparr>))"
  "view_safe (map_state (\<lambda>s. s\<lparr>st_committed_height := n\<rparr>))"
  by (rule view_safe_state_plain, simp)+

lemmas view_safe_intros = view_safe_upd view_safe_caps_undo view_safe_state_undo view_safe_state_upd

lemma cells_view_get_mut:
  "cells_view (get_mut_with L i f) =
     (case l_cells L i of None \<Rightarrow> cells_view L
      | Some c \<Rightarrow> (cells_view L)(i \<mapsto> journal_view (f (invalidate_leaf_cache c))))"
  by (rule ext) (simp add: cells_view_def split: option.splits)

lemma cells_view_SomeD:
  assumes "cells_view L = cells_view M" "l_cells L i = Some c"
  obtains d where "l_cells M i = Some d" "journal_view d = journal_view c"
proof -
  have "map_option journal_view (l_cells M i) = Some (journal_view c)"
    using fun_cong [OF assms(1), of i] assms(2) by (simp add: cells_view_def)
  then obtain d where "l_cells M i = Some d" "journal_view d = journal_view c" by auto
  then show thesis by (rule that)
qed

lemma cells_view_NoneD: "cells_view L = cells_view M \<Longrightarrow> l_cells L i = None \<longleftrightarrow> l_cells M i = None"
  by (drule fun_cong [of _ _ i]) (cases "l_cells L i"; cases "l_cells M i"; simp add: cells_view_def)

lemma get_mut_view_cong:
  assumes "view_safe f" "cells_view L = cells_view M"
  shows "cells_view (get_mut_with L i f) = cells_view (get_mut_with M i f)"
proof (cases "l_cells L i")
  case None
  then show ?thesis using assms(2) cells_view_NoneD [OF assms(2), of i]
    by (simp add: cells_view_get_mut)
next
  case (Some c)
  obtain d where d: "l_cells M i = Some d" "journal_view d = journal_view c"
    using cells_view_SomeD [OF assms(2) Some] by blast
  then have "journal_view (f (invalidate_leaf_cache d)) = journal_view (f (invalidate_leaf_cache c))"
    by (intro view_safeD [OF assms(1)]) simp
  then show ?thesis using Some d(1) assms(2) by (simp add: cells_view_get_mut)
qed

lemma with_cell_cong:
  assumes "view_safe f" "stores_view S = stores_view T"
  shows "stores_view (with_cell i f S) = stores_view (with_cell i f T)"
  using assms(2) get_mut_view_cong [OF assms(1), of "xs_ledger S" "xs_ledger T" i]
  by (simp add: stores_view_def with_cell_def sets_view_def)

lemma cells_view_remove: "cells_view (snd (ledger_remove L i)) = (cells_view L)(i := None)"
  by (rule ext) (simp add: cells_view_def)

lemma cells_view_insert:
  "cells_view (snd (insert_cell L c)) =
     (if l_cells L (c_id c) = None then (cells_view L)(c_id c \<mapsto> journal_view c) else cells_view L)"
proof -
  have "c_id (invalidate_leaf_cache c) = c_id c" by (simp add: invalidate_leaf_cache_def)
  then show ?thesis by (intro ext) (simp add: insert_cell_def Let_def cells_view_def)
qed

lemma cells_view_undo_sovereign:
  "cells_view (undo_make_sovereign L c) =
     (if l_cells L (c_id c) = None then (cells_view L)(c_id c \<mapsto> journal_view c) else cells_view L)"
proof -
  let ?L = "L\<lparr>l_sovereign_commitments := (l_sovereign_commitments L)(c_id c := None)\<rparr>"
  have "cells_view ?L = cells_view L" by (rule ext) (simp add: cells_view_def)
  then show ?thesis by (simp add: undo_make_sovereign_def cells_view_insert)
qed

lemma append_remove_entries: "as_entries (snd (append_remove s k)) = (as_entries s)(k := None)"
  by (auto simp: append_remove_def Let_def)

lemma undo_entry_cong:
  assumes "stores_view S = stores_view T"
  shows "stores_view (undo_entry E e S) = stores_view (undo_entry E e T)"
proof -
  have c: "cells_view (xs_ledger S) = cells_view (xs_ledger T)" and s: "sets_view S = sets_view T"
    using assms by (simp_all add: stores_view_def)
  have sets: "xs_bridged S = xs_bridged T" "as_entries (xs_nullifiers S) = as_entries (xs_nullifiers T)"
    "as_entries (xs_commitments S) = as_entries (xs_commitments T)"
    "as_entries (xs_revoked S) = as_entries (xs_revoked T)"
    using s by (simp_all add: sets_view_def)
  have w: "stores_view (with_cell i f S) = stores_view (with_cell i f T)" if "view_safe f" for i f
    using with_cell_cong [OF that assms] .
  show ?thesis
    by (cases e)
       (simp_all add: assms w view_safe_intros,
        simp_all add: stores_view_def sets_view_def cells_view_remove cells_view_undo_sovereign
          append_remove_entries c cells_view_NoneD [OF c] sets)
qed

section \<open>Undoable sequences of writes\<close>

definition undoable ::
  "('a crypto_scheme) \<Rightarrow> ('b exec_stores_scheme) \<Rightarrow> ledger_journal \<Rightarrow> ('b exec_stores_scheme) \<Rightarrow> bool" where
  "undoable E S J T \<longleftrightarrow> stores_view (rollback E J T) = stores_view S"

lemma rollback_cong:
  "stores_view S = stores_view T \<Longrightarrow> stores_view (rollback E J S) = stores_view (rollback E J T)"
  unfolding rollback_def
proof (induction J arbitrary: S T rule: rev_induct)
  case (snoc e J)
  show ?case using snoc.IH [OF undo_entry_cong [OF snoc.prems]] by simp
qed simp

lemma rollback_append: "rollback E (J @ K) S = rollback E J (rollback E K S)"
  by (simp add: rollback_def)

lemma undoable_same: "stores_view T = stores_view S \<Longrightarrow> undoable E S [] T"
  by (simp add: undoable_def rollback_def)

lemma undoable_trans:
  assumes "undoable E S J T" "undoable E T K U"
  shows "undoable E S (J @ K) U"
  using assms rollback_cong [of "rollback E K U" T E J]
  by (simp add: undoable_def rollback_append)

lemma undoable_last:
  "stores_view (undo_entry E e T) = stores_view S \<Longrightarrow> undoable E S [e] T"
  by (simp add: undoable_def rollback_def)

text \<open>One journalled write to the cell \<open>i\<close>.\<close>

lemma undoable_write:
  assumes "\<And>U. undo_entry E e U = with_cell i f (U :: 'b exec_stores_scheme)"
    and "l_cells (xs_ledger S) i = Some c" "l_cells (xs_ledger T) = (l_cells (xs_ledger S))(i \<mapsto> c')"
    and "sets_view T = sets_view (S :: 'b exec_stores_scheme)"
    and "journal_view (f (invalidate_leaf_cache c')) = journal_view c"
  shows "undoable E S [e] T"
proof (rule undoable_last)
  have "cells_view (get_mut_with (xs_ledger T) i f) = cells_view (xs_ledger S)"
    by (rule ext) (simp add: cells_view_get_mut assms cells_view_def)
  then show "stores_view (undo_entry E e T) = stores_view S"
    using assms(4) by (simp add: assms(1) with_cell_def stores_view_def sets_view_def)
qed

lemma undoable_create:
  assumes "l_cells (xs_ledger S) i = None" "l_cells (xs_ledger T) = (l_cells (xs_ledger S))(i \<mapsto> c)"
    and "sets_view T = sets_view S"
  shows "undoable E S [JCreateCell i] T"
proof (rule undoable_last)
  have "cells_view (snd (ledger_remove (xs_ledger T) i)) = cells_view (xs_ledger S)"
    by (rule ext) (simp add: cells_view_def assms)
  then show "stores_view (undo_entry E (JCreateCell i) T) = stores_view S"
    using assms(3) by (simp add: stores_view_def sets_view_def)
qed

lemma undoable_sovereign:
  assumes "l_cells (xs_ledger S) (c_id c) = Some c"
    and "l_cells (xs_ledger T) = (l_cells (xs_ledger S))(c_id c := None)"
    and "sets_view T = sets_view S"
  shows "undoable E S [JMakeSovereign c] T"
proof (rule undoable_last)
  have "cells_view (undo_make_sovereign (xs_ledger T) c) = cells_view (xs_ledger S)"
    by (rule ext) (simp add: cells_view_undo_sovereign cells_view_def assms)
  then show "stores_view (undo_entry E (JMakeSovereign c) T) = stores_view S"
    using assms(3) by (simp add: stores_view_def sets_view_def)
qed

lemma undoable_note:
  "undo_entry E e T = T \<Longrightarrow> stores_view T = stores_view S \<Longrightarrow> undoable E S [e] T"
  by (rule undoable_last) simp

end
