(* ===== verification/RevocationChannel.thy ===== *)
theory RevocationChannel
  imports CellState
begin

text \<open>
  Revocation channels (\<open>cell/src/revocation_channel.rs\<close>): a channel is tripped once, by its revoker, and
  a capability that names it in its breadstuff can then no longer be exercised. The set of channels is
  a map from channel ids; \<open>channel_op\<close> are the state-changing operations of the set, and the lemma on
  their runs says that a tripped channel stays tripped as long as it is not removed.
\<close>

type_synonym channel_id = bytes32

datatype channel_state = Active | Tripped (trip_reason: bytes32) (tripped_at: u64)

definition state_is_active :: "channel_state \<Rightarrow> bool" where
  "state_is_active s \<longleftrightarrow> s = Active"

definition state_is_tripped :: "channel_state \<Rightarrow> bool" where
  "state_is_tripped s \<longleftrightarrow> (case s of Tripped _ _ \<Rightarrow> True | Active \<Rightarrow> False)"

record revocation_channel =
  rc_channel_id :: channel_id
  rc_revoker :: cell_id
  rc_state :: channel_state
  rc_subscribers :: "cell_id list"
  rc_created_at :: u64

datatype revocation_channel_error =
    NotAuthorized cell_id cell_id
  | AlreadyTripped channel_id
  | ChannelNotFound channel_id
  | ChannelAlreadyExists channel_id
  | ChannelTripped channel_id u64
  | StaleChannelCheck channel_id u64 u64 u64

definition derive_channel_id :: "('a crypto_scheme) \<Rightarrow> cell_id \<Rightarrow> u64 \<Rightarrow> channel_id" where
  "derive_channel_id E revoker nonce =
     blake3 E (ascii ''dregg-revocation-channel'' @ bytes32_bytes revoker @ u64_bytes nonce)"

definition channel_new :: "('a crypto_scheme) \<Rightarrow> cell_id \<Rightarrow> u64 \<Rightarrow> u64 \<Rightarrow> revocation_channel" where
  "channel_new E revoker nonce created_at = \<lparr>
     rc_channel_id = derive_channel_id E revoker nonce, rc_revoker = revoker, rc_state = Active,
     rc_subscribers = [], rc_created_at = created_at\<rparr>"

definition trip ::
  "revocation_channel \<Rightarrow> cell_id \<Rightarrow> bytes32 \<Rightarrow> u64 \<Rightarrow>
     (revocation_channel_error + unit) \<times> revocation_channel" where
  "trip ch caller reason at_height =
     (if caller \<noteq> rc_revoker ch then (Inl (NotAuthorized caller (rc_revoker ch)), ch)
      else if state_is_tripped (rc_state ch) then (Inl (AlreadyTripped (rc_channel_id ch)), ch)
      else (Inr (), ch\<lparr>rc_state := Tripped reason at_height\<rparr>))"

definition channel_subscribe :: "revocation_channel \<Rightarrow> cell_id \<Rightarrow> revocation_channel" where
  "channel_subscribe ch c =
     (if c \<in> set (rc_subscribers ch) then ch
      else ch\<lparr>rc_subscribers := rc_subscribers ch @ [c]\<rparr>)"

definition channel_unsubscribe :: "revocation_channel \<Rightarrow> cell_id \<Rightarrow> revocation_channel" where
  "channel_unsubscribe ch c = ch\<lparr>rc_subscribers := filter (\<lambda>s. s \<noteq> c) (rc_subscribers ch)\<rparr>"

type_synonym channel_set = "channel_id \<rightharpoonup> revocation_channel"

definition channels_register ::
  "channel_set \<Rightarrow> revocation_channel \<Rightarrow> (revocation_channel_error + channel_id) \<times> channel_set" where
  "channels_register cs ch =
     (let i = rc_channel_id ch in
      if cs i \<noteq> None then (Inl (ChannelAlreadyExists i), cs) else (Inr i, cs(i \<mapsto> ch)))"

definition is_channel_active :: "channel_set \<Rightarrow> channel_id \<Rightarrow> bool" where
  "is_channel_active cs i =
     (case cs i of Some ch \<Rightarrow> state_is_active (rc_state ch) | None \<Rightarrow> False)"

definition check_exercise_permitted ::
  "channel_set \<Rightarrow> channel_id \<Rightarrow> u64 \<Rightarrow> u64 \<Rightarrow> u64 \<Rightarrow> revocation_channel_error + unit" where
  "check_exercise_permitted cs i now last_checked_at max_staleness =
     (case cs i of
        None \<Rightarrow> Inl (ChannelTripped i 0)
      | Some ch \<Rightarrow>
          (case rc_state ch of
             Active \<Rightarrow>
               if max_staleness = 0
               then (if last_checked_at < now
                     then Inl (StaleChannelCheck i last_checked_at max_staleness now) else Inr ())
               else if max_staleness < saturating_sub_word now last_checked_at
               then Inl (StaleChannelCheck i last_checked_at max_staleness now)
               else Inr ()
           | Tripped _ at_height \<Rightarrow> Inl (ChannelTripped i at_height)))"

definition trip_channel ::
  "channel_set \<Rightarrow> channel_id \<Rightarrow> cell_id \<Rightarrow> bytes32 \<Rightarrow> u64 \<Rightarrow>
     (revocation_channel_error + unit) \<times> channel_set" where
  "trip_channel cs i caller reason at_height =
     (case cs i of
        None \<Rightarrow> (Inl (ChannelNotFound i), cs)
      | Some ch \<Rightarrow> (let (r, ch) = trip ch caller reason at_height in (r, cs(i \<mapsto> ch))))"

definition channels_subscribe ::
  "channel_set \<Rightarrow> channel_id \<Rightarrow> cell_id \<Rightarrow> (revocation_channel_error + unit) \<times> channel_set" where
  "channels_subscribe cs i c =
     (case cs i of
        None \<Rightarrow> (Inl (ChannelNotFound i), cs)
      | Some ch \<Rightarrow> (Inr (), cs(i \<mapsto> channel_subscribe ch c)))"

definition channels_remove :: "channel_set \<Rightarrow> channel_id \<Rightarrow> revocation_channel option \<times> channel_set" where
  "channels_remove cs i = (cs i, cs(i := None))"

section \<open>Runs\<close>

inductive channel_op :: "channel_id set \<Rightarrow> channel_set \<Rightarrow> channel_set \<Rightarrow> bool" for kept where
  register: "channel_op kept cs (snd (channels_register cs ch))"
| trip: "channel_op kept cs (snd (trip_channel cs i caller reason h))"
| subscribe: "channel_op kept cs (snd (channels_subscribe cs i c))"
| remove: "i \<notin> kept \<Longrightarrow> channel_op kept cs (snd (channels_remove cs i))"

definition is_tripped_in :: "channel_set \<Rightarrow> channel_id \<Rightarrow> bool" where
  "is_tripped_in cs i \<longleftrightarrow> (case cs i of Some ch \<Rightarrow> state_is_tripped (rc_state ch) | None \<Rightarrow> False)"

lemma tripped_op:
  assumes "channel_op kept cs cs'" "i \<in> kept" "is_tripped_in cs i"
  shows "is_tripped_in cs' i"
  using assms
  by (cases rule: channel_op.cases)
     (auto simp: is_tripped_in_def channels_register_def trip_channel_def trip_def channels_subscribe_def
       channel_subscribe_def channels_remove_def Let_def split: option.splits if_splits prod.splits)

lemma tripped_run:
  "(channel_op kept)\<^sup>*\<^sup>* cs cs' \<Longrightarrow> i \<in> kept \<Longrightarrow> is_tripped_in cs i \<Longrightarrow> is_tripped_in cs' i"
  by (induction rule: rtranclp_induct) (auto intro: tripped_op)

lemma trip_channel_trips:
  "fst (trip_channel cs i caller reason h) = Inr () \<Longrightarrow> is_tripped_in (snd (trip_channel cs i caller reason h)) i"
  by (auto simp: trip_channel_def trip_def is_tripped_in_def state_is_tripped_def Let_def
      split: option.splits if_splits prod.splits)

lemma tripped_check:
  "is_tripped_in cs i \<Longrightarrow> \<exists>e. check_exercise_permitted cs i now checked stale = Inl e"
  by (auto simp: is_tripped_in_def state_is_tripped_def check_exercise_permitted_def
      split: option.splits channel_state.splits)

end
