(* ===== verification/Factory.thy ===== *)
theory Factory
  imports Commitment
begin

text \<open>
  Cell factories (\<open>cell/src/factory.rs\<close>): descriptors with their capability templates and field
  constraints, the check of a creation against its descriptor, and the registry with the per-epoch
  creation budget. The lemmas say what a validated creation may contain and that the budget of an
  epoch is never exceeded.
\<close>

datatype cap_target = SelfCell | Specific cell_id | AnyCell

record cap_template =
  ct_target :: cap_target
  ct_max_permissions :: auth_required
  ct_attenuatable :: bool

record cap_grant =
  cg_target :: cap_target
  cg_max_permissions :: auth_required
  cg_attenuatable :: bool

datatype field_constraint =
    FcEquality u32 u64
  | FcRange u32 u64 u64
  | FcNonZero u32

record factory_creation_params =
  fp_mode :: cell_mode
  fp_program_vk :: "bytes32 option"
  fp_initial_fields :: "(u32 \<times> u64) list"
  fp_initial_caps :: "cap_grant list"
  fp_owner_pubkey :: bytes32

datatype child_vk_strategy =
    FixedVk "bytes32 option"
  | DerivedVk bytes32
  | FromSet "bytes32 list"

datatype factory_error =
    ProgramMismatch "bytes32 option" "bytes32 option"
  | ModeMismatch cell_mode cell_mode
  | CapabilityOutsideTemplate nat
  | FieldConstraintViolation u32 string
  | FactoryBudgetExceeded u64 u64
  | FactoryVkMismatch bytes32 bytes32
  | DerivedVkMismatch bytes32 "bytes32 option"
  | VkNotInApprovedSet "bytes32 option" nat
  | DuplicateInitialField u32

record factory_descriptor =
  fd_factory_vk :: bytes32
  fd_child_program_vk :: "bytes32 option"
  fd_child_vk_strategy :: "child_vk_strategy option"
  fd_allowed_cap_templates :: "cap_template list"
  fd_field_constraints :: "field_constraint list"
  fd_state_constraints :: "state_constraint list"
  fd_default_mode :: cell_mode
  fd_creation_budget :: "u64 option"

section \<open>Hashes\<close>

definition canonical_program_vk :: "('a cell_crypto_scheme) \<Rightarrow> cell_program \<Rightarrow> bytes32" where
  "canonical_program_vk E program =
     derive_key E ''dregg-cellprogram-vk-v1'' (framed (program_postcard E program))"

definition derive_child_vk :: "('a crypto_scheme) \<Rightarrow> bytes32 \<Rightarrow> bytes32 \<Rightarrow> bytes32" where
  "derive_child_vk E factory_vk param_hash =
     derive_key E ''dregg-derived-child-vk-v1'' (bytes32_bytes factory_vk @ bytes32_bytes param_hash)"

fun factory_mode_byte :: "cell_mode \<Rightarrow> u8" where
  "factory_mode_byte Hosted = 0"
| "factory_mode_byte Sovereign = 1"

fun perm_bytes :: "auth_required \<Rightarrow> u8 list" where
  "perm_bytes AuthNone = [0]"
| "perm_bytes Signature = [1]"
| "perm_bytes Proof = [2]"
| "perm_bytes Either = [3]"
| "perm_bytes Impossible = [4]"
| "perm_bytes (Custom vk) = 5 # bytes32_bytes vk"

fun cap_target_bytes :: "cap_target \<Rightarrow> u8 list" where
  "cap_target_bytes SelfCell = [0]"
| "cap_target_bytes (Specific i) = 1 # bytes32_bytes i"
| "cap_target_bytes AnyCell = [2]"

definition param_preimage :: "factory_creation_params \<Rightarrow> u8 list" where
  "param_preimage params =
     (let fvals = sort_key fst (fp_initial_fields params) in
      factory_mode_byte (fp_mode params) # u64_bytes (of_nat (length fvals)) @
      concat (map (\<lambda>(idx, val). u32_bytes idx @ u64_bytes val) fvals) @
      u64_bytes (of_nat (length (fp_initial_caps params))) @
      concat (map (\<lambda>cap. cap_target_bytes (cg_target cap) @ perm_bytes (cg_max_permissions cap))
        (fp_initial_caps params)) @
      bytes32_bytes (fp_owner_pubkey params))"

definition compute_param_hash :: "('a crypto_scheme) \<Rightarrow> factory_creation_params \<Rightarrow> bytes32" where
  "compute_param_hash E params = derive_key E ''dregg-factory-params-v1'' (param_preimage params)"

definition template_hash :: "('a crypto_scheme) \<Rightarrow> cap_template \<Rightarrow> bytes32" where
  "template_hash E t =
     blake3 E (ascii ''dregg-cap-template:'' @ cap_target_bytes (ct_target t) @
       perm_bytes (ct_max_permissions t) @ [if ct_attenuatable t then 1 else 0])"

fun field_constraint_bytes :: "field_constraint \<Rightarrow> u8 list" where
  "field_constraint_bytes (FcEquality i v) = 0 # u32_bytes i @ u64_bytes v"
| "field_constraint_bytes (FcRange i lo hi) = 1 # u32_bytes i @ u64_bytes lo @ u64_bytes hi"
| "field_constraint_bytes (FcNonZero i) = 2 # u32_bytes i"

definition field_constraint_hash :: "('a crypto_scheme) \<Rightarrow> field_constraint \<Rightarrow> bytes32" where
  "field_constraint_hash E c = blake3 E (ascii ''dregg-field-constraint:'' @ field_constraint_bytes c)"

fun strategy_bytes :: "child_vk_strategy \<Rightarrow> u8 list" where
  "strategy_bytes (FixedVk None) = [0]"
| "strategy_bytes (FixedVk (Some vk)) = 1 # bytes32_bytes vk"
| "strategy_bytes (DerivedVk base) = 2 # bytes32_bytes base"
| "strategy_bytes (FromSet vks) =
     3 # u64_bytes (of_nat (length vks)) @ concat (map bytes32_bytes (sort vks))"

definition strategy_hash :: "('a crypto_scheme) \<Rightarrow> child_vk_strategy \<Rightarrow> bytes32" where
  "strategy_hash E s = derive_key E ''dregg-child-vk-strategy-v1'' (strategy_bytes s)"

text \<open>The postcard encoding of a constraint list is the parameter \<open>encode\<close>.\<close>

definition descriptor_hash ::
  "('a crypto_scheme) \<Rightarrow> (state_constraint list \<Rightarrow> u8 list) \<Rightarrow> factory_descriptor \<Rightarrow> bytes32" where
  "descriptor_hash E encode d =
     derive_key E ''dregg-factory-descriptor-v1''
       (bytes32_bytes (fd_factory_vk d) @
        (case fd_child_program_vk d of Some vk \<Rightarrow> 1 # bytes32_bytes vk | None \<Rightarrow> [0]) @
        (case fd_child_vk_strategy d of Some s \<Rightarrow> 1 # bytes32_bytes (strategy_hash E s) | None \<Rightarrow> [0]) @
        u64_bytes (of_nat (length (fd_allowed_cap_templates d))) @
        concat (map (\<lambda>t. bytes32_bytes (template_hash E t)) (fd_allowed_cap_templates d)) @
        u64_bytes (of_nat (length (fd_field_constraints d))) @
        concat (map (\<lambda>c. bytes32_bytes (field_constraint_hash E c)) (fd_field_constraints d)) @
        framed (encode (fd_state_constraints d)) @
        factory_mode_byte (fd_default_mode d) #
        (case fd_creation_budget d of Some b \<Rightarrow> 1 # u64_bytes b | None \<Rightarrow> [0]))"

section \<open>Checking a creation\<close>

definition is_in_approved_set :: "bytes32 list \<Rightarrow> bytes32 \<Rightarrow> bool" where
  "is_in_approved_set approved vk \<longleftrightarrow> vk \<in> set approved"

definition validate_child_vk ::
  "('a crypto_scheme) \<Rightarrow> child_vk_strategy \<Rightarrow> bytes32 option \<Rightarrow> factory_creation_params \<Rightarrow>
     factory_error + unit" where
  "validate_child_vk E strategy claimed params =
     (case strategy of
        FixedVk expected \<Rightarrow>
          if claimed \<noteq> expected then Inl (ProgramMismatch expected claimed) else Inr ()
      | DerivedVk base \<Rightarrow>
          let expected = derive_child_vk E base (compute_param_hash E params) in
          if claimed = Some expected then Inr () else Inl (DerivedVkMismatch expected claimed)
      | FromSet approved \<Rightarrow>
          (case claimed of
             Some vk \<Rightarrow> if is_in_approved_set approved vk then Inr ()
                        else Inl (VkNotInApprovedSet claimed (length approved))
           | None \<Rightarrow> Inl (VkNotInApprovedSet claimed (length approved))))"

definition field_value :: "(u32 \<times> u64) list \<Rightarrow> u32 \<Rightarrow> u64" where
  "field_value fvals i = (case find (\<lambda>p. fst p = i) fvals of Some p \<Rightarrow> snd p | None \<Rightarrow> 0)"

fun constraint_check :: "field_constraint \<Rightarrow> (u32 \<times> u64) list \<Rightarrow> factory_error + unit" where
  "constraint_check (FcEquality i v) fvals =
     (if field_value fvals i \<noteq> v
      then Inl (FieldConstraintViolation i ''expected value differs'') else Inr ())"
| "constraint_check (FcRange i lo hi) fvals =
     (if field_value fvals i < lo \<or> hi < field_value fvals i
      then Inl (FieldConstraintViolation i ''value outside range'') else Inr ())"
| "constraint_check (FcNonZero i) fvals =
     (if field_value fvals i = 0
      then Inl (FieldConstraintViolation i ''field must be non-zero'') else Inr ())"

fun check_duplicates :: "u32 set \<Rightarrow> (u32 \<times> u64) list \<Rightarrow> factory_error + unit" where
  "check_duplicates seen [] = Inr ()"
| "check_duplicates seen ((i, v) # fs) =
     (if i \<in> seen then Inl (DuplicateInitialField i) else check_duplicates (insert i seen) fs)"

definition cap_within_templates :: "factory_descriptor \<Rightarrow> cap_grant \<Rightarrow> bool" where
  "cap_within_templates d cap =
     list_ex (\<lambda>t.
       (case ct_target t of AnyCell \<Rightarrow> True | other \<Rightarrow> cg_target cap = other) \<and>
       is_narrower_or_equal (cg_max_permissions cap) (ct_max_permissions t) \<and>
       (\<not> cg_attenuatable cap \<or> ct_attenuatable t)) (fd_allowed_cap_templates d)"

fun check_caps :: "factory_descriptor \<Rightarrow> nat \<Rightarrow> cap_grant list \<Rightarrow> factory_error + unit" where
  "check_caps d k [] = Inr ()"
| "check_caps d k (cap # caps) =
     (if \<not> cap_within_templates d cap then Inl (CapabilityOutsideTemplate k)
      else check_caps d (Suc k) caps)"

definition validate_creation ::
  "('a crypto_scheme) \<Rightarrow> factory_descriptor \<Rightarrow> factory_creation_params \<Rightarrow> factory_error + unit" where
  "validate_creation E d params =
     (case check_duplicates {} (fp_initial_fields params) of
        Inl e \<Rightarrow> Inl e
      | Inr _ \<Rightarrow>
     (case (case fd_child_vk_strategy d of
              Some strategy \<Rightarrow> validate_child_vk E strategy (fp_program_vk params) params
            | None \<Rightarrow> if fd_child_program_vk d \<noteq> fp_program_vk params
                      then Inl (ProgramMismatch (fd_child_program_vk d) (fp_program_vk params))
                      else Inr ()) of
        Inl e \<Rightarrow> Inl e
      | Inr _ \<Rightarrow>
          if fd_default_mode d \<noteq> fp_mode params then Inl (ModeMismatch (fd_default_mode d) (fp_mode params))
          else
     (case check_caps d 0 (fp_initial_caps params) of
        Inl e \<Rightarrow> Inl e
      | Inr _ \<Rightarrow> check_all (\<lambda>c. constraint_check c (fp_initial_fields params)) (fd_field_constraints d))))"

section \<open>The registry\<close>

record factory_registry =
  fr_descriptors :: "bytes32 \<rightharpoonup> factory_descriptor"
  fr_creation_counts :: "(bytes32 \<times> u64) \<rightharpoonup> u64"
  fr_current_epoch :: u64

definition registry_new :: factory_registry where
  "registry_new = \<lparr>fr_descriptors = Map.empty, fr_creation_counts = Map.empty, fr_current_epoch = 0\<rparr>"

definition deploy :: "factory_registry \<Rightarrow> factory_descriptor \<Rightarrow> bytes32 \<times> factory_registry" where
  "deploy R d =
     (fd_factory_vk d,
      if fr_descriptors R (fd_factory_vk d) = None
      then R\<lparr>fr_descriptors := (fr_descriptors R)(fd_factory_vk d \<mapsto> d)\<rparr> else R)"

definition record_creation ::
  "factory_registry \<Rightarrow> bytes32 \<Rightarrow> (factory_error + unit) \<times> factory_registry" where
  "record_creation R vk =
     (case fr_descriptors R vk of
        None \<Rightarrow> (Inl (FactoryVkMismatch vk 0), R)
      | Some d \<Rightarrow>
          (case fd_creation_budget d of
             None \<Rightarrow> (Inr (), R)
           | Some budget \<Rightarrow>
               let key = (vk, fr_current_epoch R);
                   used = (case fr_creation_counts R key of Some n \<Rightarrow> n | None \<Rightarrow> 0);
                   R = R\<lparr>fr_creation_counts := (fr_creation_counts R)(key \<mapsto> used)\<rparr>
               in if budget \<le> used then (Inl (FactoryBudgetExceeded budget used), R)
                  else (Inr (), R\<lparr>fr_creation_counts := (fr_creation_counts R)(key \<mapsto> used + 1)\<rparr>)))"

definition advance_epoch :: "factory_registry \<Rightarrow> factory_registry" where
  "advance_epoch R =
     (let R = R\<lparr>fr_current_epoch := fr_current_epoch R + 1\<rparr> in
      R\<lparr>fr_creation_counts := (\<lambda>k. if snd k = fr_current_epoch R then fr_creation_counts R k else None)\<rparr>)"

definition validate_and_record ::
  "('a crypto_scheme) \<Rightarrow> factory_registry \<Rightarrow> bytes32 \<Rightarrow> factory_creation_params \<Rightarrow>
     (factory_error + unit) \<times> factory_registry" where
  "validate_and_record E R vk params =
     (case fr_descriptors R vk of
        None \<Rightarrow> (Inl (FactoryVkMismatch vk 0), R)
      | Some d \<Rightarrow>
          (case validate_creation E d params of
             Inl e \<Rightarrow> (Inl e, R)
           | Inr _ \<Rightarrow> record_creation R vk))"

section \<open>What a validated creation contains\<close>

lemma check_caps_ok: "check_caps d k caps = Inr u \<Longrightarrow> cap \<in> set caps \<Longrightarrow> cap_within_templates d cap"
  by (induction caps arbitrary: k) (auto split: if_splits)

lemma check_duplicates_ok:
  "check_duplicates seen fs = Inr u \<Longrightarrow> distinct (map fst fs) \<and> fst ` set fs \<inter> seen = {}"
  by (induction seen fs rule: check_duplicates.induct) (auto split: if_splits)

lemma validate_creationD:
  assumes "validate_creation E d params = Inr u"
  shows "distinct (map fst (fp_initial_fields params))"
    and "fd_default_mode d = fp_mode params"
    and "cap \<in> set (fp_initial_caps params) \<Longrightarrow> cap_within_templates d cap"
    and "c \<in> set (fd_field_constraints d) \<Longrightarrow> constraint_check c (fp_initial_fields params) = Inr ()"
    and "fd_child_vk_strategy d = None \<Longrightarrow> fp_program_vk params = fd_child_program_vk d"
    and "fd_child_vk_strategy d = Some s \<Longrightarrow> validate_child_vk E s (fp_program_vk params) params = Inr ()"
proof -
  obtain u1 where dup: "check_duplicates {} (fp_initial_fields params) = Inr u1"
    using assms by (auto simp: validate_creation_def split: sum.splits)
  have rest: "fd_default_mode d = fp_mode params \<and>
      (\<exists>u. check_caps d 0 (fp_initial_caps params) = Inr u) \<and>
      (\<exists>u. check_all (\<lambda>c. constraint_check c (fp_initial_fields params)) (fd_field_constraints d) = Inr u) \<and>
      (fd_child_vk_strategy d = None \<longrightarrow> fp_program_vk params = fd_child_program_vk d) \<and>
      (\<forall>s. fd_child_vk_strategy d = Some s \<longrightarrow> validate_child_vk E s (fp_program_vk params) params = Inr ())"
    using assms dup by (auto simp: validate_creation_def split: sum.splits option.splits if_splits)
  show "distinct (map fst (fp_initial_fields params))" using check_duplicates_ok [OF dup] by blast
  show "fd_default_mode d = fp_mode params" using rest by blast
  show "cap_within_templates d cap" if "cap \<in> set (fp_initial_caps params)"
    using rest check_caps_ok that by blast
  show "constraint_check c (fp_initial_fields params) = Inr ()" if "c \<in> set (fd_field_constraints d)"
    using rest check_all_ok [of "\<lambda>c. constraint_check c (fp_initial_fields params)"] that by blast
  show "fd_child_vk_strategy d = None \<Longrightarrow> fp_program_vk params = fd_child_program_vk d" using rest by blast
  show "fd_child_vk_strategy d = Some s \<Longrightarrow> validate_child_vk E s (fp_program_vk params) params = Inr ()"
    using rest by blast
qed

section \<open>Creation budgets\<close>

datatype registry_op = Deploy factory_descriptor | Create bytes32 factory_creation_params | NextEpoch

definition used_in_epoch :: "factory_registry \<Rightarrow> bytes32 \<Rightarrow> u64" where
  "used_in_epoch R vk = (case fr_creation_counts R (vk, fr_current_epoch R) of Some n \<Rightarrow> n | None \<Rightarrow> 0)"

fun factory_step :: "('a crypto_scheme) \<Rightarrow> factory_registry \<Rightarrow> registry_op \<Rightarrow> bool \<times> factory_registry" where
  "factory_step E R (Deploy d) = (False, snd (deploy R d))"
| "factory_step E R (Create vk params) =
     (let (r, R) = validate_and_record E R vk params in (r = Inr (), R))"
| "factory_step E R NextEpoch = (False, advance_epoch R)"

text \<open>How often a run of registry operations creates a cell with the factory \<open>vk\<close>.\<close>

fun created_by :: "('a crypto_scheme) \<Rightarrow> bytes32 \<Rightarrow> registry_op list \<Rightarrow> factory_registry \<Rightarrow> nat" where
  "created_by E vk [] R = 0"
| "created_by E vk (op # ops) R =
     (let (made, R') = factory_step E R op
      in (if made \<and> (\<exists>params. op = Create vk params) then 1 else 0) + created_by E vk ops R')"

lemma record_creation_frame:
  "fr_descriptors (snd (record_creation R vk)) = fr_descriptors R"
  "fr_current_epoch (snd (record_creation R vk)) = fr_current_epoch R"
  "vk' \<noteq> vk \<Longrightarrow> used_in_epoch (snd (record_creation R vk)) vk' = used_in_epoch R vk'"
  by (auto simp: record_creation_def used_in_epoch_def Let_def split: option.splits)

lemma record_creation_budget:
  assumes "fr_descriptors R vk = Some d" "fd_creation_budget d = Some b"
  shows "fst (record_creation R vk) = Inr () \<longleftrightarrow> used_in_epoch R vk < b"
    and "used_in_epoch (snd (record_creation R vk)) vk =
      (if used_in_epoch R vk < b then used_in_epoch R vk + 1 else used_in_epoch R vk)"
  using assms by (auto simp: record_creation_def used_in_epoch_def Let_def not_le split: if_splits)

lemma validate_and_record_cases:
  obtains (refused) e where "validate_and_record E R vk params = (Inl e, R)"
  | (recorded) d where "fr_descriptors R vk = Some d" "validate_creation E d params = Inr ()"
      "validate_and_record E R vk params = record_creation R vk"
proof (cases "fr_descriptors R vk")
  case None
  then show thesis using refused by (simp add: validate_and_record_def)
next
  case (Some d)
  then show thesis using refused recorded [of d]
    by (cases "validate_creation E d params") (simp_all add: validate_and_record_def)
qed

lemma word_inc_below:
  assumes "(a :: 'a::len word) < b"
  shows "unat (a + 1) = unat a + 1"
proof -
  have "unat a + 1 \<le> unat b" using assms by (simp add: word_less_nat_alt)
  also have "unat b < 2 ^ LENGTH('a)" by simp
  finally show ?thesis by (simp add: unat_word_ariths)
qed

lemma factory_step_budget:
  assumes "fr_descriptors R vk = Some d" "fd_creation_budget d = Some b" "op \<noteq> NextEpoch"
    and st: "factory_step E R op = (made, R')"
  shows "fr_descriptors R' vk = Some d \<and> fr_current_epoch R' = fr_current_epoch R \<and>
    unat (used_in_epoch R' vk) =
      unat (used_in_epoch R vk) + (if made \<and> (\<exists>params. op = Create vk params) then 1 else 0) \<and>
    (made \<and> (\<exists>params. op = Create vk params) \<longrightarrow> unat (used_in_epoch R vk) < unat b)"
proof (cases op)
  case (Deploy d')
  then show ?thesis using assms by (auto simp: deploy_def used_in_epoch_def)
next
  case (Create vk' params)
  show ?thesis
  proof (cases rule: validate_and_record_cases [of E R vk' params])
    case (refused e)
    then show ?thesis using assms Create by auto
  next
    case (recorded d')
    then have R': "R' = snd (record_creation R vk')" and made: "made \<longleftrightarrow> fst (record_creation R vk') = Inr ()"
      using st Create by (auto simp: prod.case_eq_if)
    show ?thesis
    proof (cases "vk' = vk")
      case True
      note made' = made [unfolded True record_creation_budget(1) [OF assms(1,2)]]
      show ?thesis
        using assms(1) True Create made' word_inc_below [of "used_in_epoch R vk" b]
        by (simp add: R' record_creation_frame record_creation_budget(2) [OF assms(1,2)] word_less_nat_alt)
    qed (use assms(1) Create in \<open>simp add: R' record_creation_frame\<close>)
  qed
qed (use assms in simp)

lemma created_by_bound:
  assumes "fr_descriptors R vk = Some d" "fd_creation_budget d = Some b" "NextEpoch \<notin> set ops"
  shows "created_by E vk ops R \<le> unat b - unat (used_in_epoch R vk)"
  using assms
proof (induction ops arbitrary: R)
  case (Cons op ops)
  obtain made R' where st: "factory_step E R op = (made, R')" by fastforce
  have ne: "op \<noteq> NextEpoch" using Cons.prems(3) by auto
  note b = factory_step_budget [OF Cons.prems(1,2) ne st]
  have "created_by E vk ops R' \<le> unat b - unat (used_in_epoch R' vk)"
    using Cons.IH [of R'] Cons.prems b by auto
  then show ?case using b by (auto simp: st)
qed simp

text \<open>C24. The creation budget of a factory holds: whatever deployments and creation requests arrive in one
  epoch, and whatever the requests contain, at most as many of them create a cell with that factory as
  its budget has left at the start, and at most the budget in all.\<close>

theorem factory_budget_respected:
  assumes "fr_descriptors R vk = Some d" "fd_creation_budget d = Some budget" "NextEpoch \<notin> set ops"
  shows "created_by E vk ops R \<le> unat budget - unat (used_in_epoch R vk)"
  by (rule created_by_bound [OF assms])

definition demo_descriptor :: factory_descriptor where
  "demo_descriptor = \<lparr>fd_factory_vk = 3, fd_child_program_vk = None, fd_child_vk_strategy = None,
     fd_allowed_cap_templates = [\<lparr>ct_target = SelfCell, ct_max_permissions = Signature, ct_attenuatable = True\<rparr>],
     fd_field_constraints = [FcRange 2 1 9], fd_state_constraints = [], fd_default_mode = Hosted,
     fd_creation_budget = Some 1\<rparr>"

definition demo_params :: factory_creation_params where
  "demo_params = \<lparr>fp_mode = Hosted, fp_program_vk = None, fp_initial_fields = [(2, 5)],
     fp_initial_caps = [\<lparr>cg_target = SelfCell, cg_max_permissions = Signature, cg_attenuatable = False\<rparr>],
     fp_owner_pubkey = 1\<rparr>"

theorem factory_budget_respected_witness:
  "created_by demo_crypto 3 [Create 3 demo_params, Create 3 demo_params, Create 3 demo_params]
     (snd (deploy registry_new demo_descriptor)) \<le> 1 \<and>
   fst (validate_and_record demo_crypto (snd (deploy registry_new demo_descriptor)) 3 demo_params) = Inr ()"
proof
  show "created_by demo_crypto 3 [Create 3 demo_params, Create 3 demo_params, Create 3 demo_params]
     (snd (deploy registry_new demo_descriptor)) \<le> 1"
    using factory_budget_respected [of "snd (deploy registry_new demo_descriptor)" 3 demo_descriptor 1
      "[Create 3 demo_params, Create 3 demo_params, Create 3 demo_params]" demo_crypto]
    by (simp add: deploy_def registry_new_def used_in_epoch_def demo_descriptor_def)
  show "fst (validate_and_record demo_crypto (snd (deploy registry_new demo_descriptor)) 3 demo_params) = Inr ()"
    by (simp add: validate_and_record_def deploy_def registry_new_def demo_descriptor_def demo_params_def
        validate_creation_def cap_within_templates_def field_value_def record_creation_def Let_def)
qed

end
