(* ===== verification/Executor.thy ===== *)
theory Executor
  imports Journal RevocationChannel Factory
begin

unbundle bit_operations_syntax

text \<open>
  The effect handlers of the turn executor (\<open>turn/src/executor/apply.rs\<close>): one definition per
  \<open>apply_*\<close> method, the authority checks they share, and the dispatcher \<open>apply_effect\<close> with its recursion
  through \<open>ExerciseViaCapability\<close>.

  A handler takes the state \<open>exec_state\<close> (the ledger, the four append-only sets, the factory registry
  and the journal) and returns the result with the new state; an early return leaves the state as it
  is at that point, so a handler that fails half way keeps what it has written and journalled. The
  configuration of the \<open>TurnExecutor\<close> is the record \<open>exec_env\<close>. \<open>get_mut\<close> is the mutable borrow of a cell
  (it records the cell in an armed restore point and clears the digest memo even when the handler
  then refuses) and \<open>put_cell\<close> the write through it. Signature, range-proof and STARK verifiers, the
  postcard encoding of a c-list and the shielded pool are fields of \<open>exec_crypto\<close>.

  The path that an error carries is left out, and error texts are kept without the values formatted
  into them. The reactive effects (\<open>Promise\<close>, \<open>Notify\<close>, \<open>React\<close>) are not constructors here: their wake
  turn is a whole turn; the registry they use is the theory \<open>Pending\<close>. The boxed action of a \<open>PipelinedSend\<close>
  is represented by its \<open>Action::hash\<close>, which is all the handler and the hash of the effect use of it; two sends
  that are equal here may carry different actions in the code.
\<close>

section \<open>Effects, errors, configuration\<close>

record attested_root =
  ar_merkle_root :: bytes32
  ar_note_tree_root :: "bytes32 option"
  ar_height :: u64

record portable_note_proof =
  pn_nullifier :: bytes32
  pn_destination_federation :: bytes32
  pn_source_root :: attested_root
  pn_spending_proof :: "u8 list"
  pn_destination_commitment :: bytes32
  pn_value :: u64
  pn_asset_type :: u64

datatype refusal_reason =
    Declined | NoAuthority | WindowExpired | CustomRefusal (refusal_hash: bytes32)

typedecl shielded_payload

datatype effect =
    ESetField cell_id u64 field_element
  | ETransfer cell_id cell_id u64
  | EGrantCapability cell_id cell_id capability_ref
  | ERevokeCapability cell_id u32
  | EEmitEvent cell_id bytes32 "field_element list"
  | EIncrementNonce cell_id
  | ECreateCell bytes32 bytes32 u64
  | ESetPermissions cell_id permissions
  | ESetVerificationKey cell_id "verification_key option"
  | ESetProgram cell_id cell_program
  | ENoteSpend bytes32 bytes32 u64 u64 "u8 list" "bytes32 option"
  | ENoteCreate bytes32 u64 u64 "u8 list" "bytes32 option" "u8 list option"
  | ESpawnWithDelegation bytes32 bytes32 u64
  | ERefreshDelegation cell_id bytes32
  | ERevokeDelegation cell_id
  | EBridgeMint portable_note_proof
  | EIntroduce cell_id cell_id cell_id auth_required
  | EPipelinedSend bytes32 u32 bytes32
  | EExerciseViaCapability u32 "effect list"
  | EMakeSovereign cell_id
  | ECreateCellFromFactory bytes32 bytes32 bytes32 factory_creation_params
  | ERefusal cell_id bytes32 refusal_reason u32
  | ECellSeal cell_id bytes32
  | ECellUnseal cell_id
  | ECellDestroy cell_id death_certificate
  | EBurn cell_id u32 u64
  | EAttenuateCapability cell_id u32 auth_required "effect_mask option" "u64 option"
  | EReceiptArchive u64 archival_attestation
  | EMint cell_id u32 u64
  | EShieldedTransfer shielded_payload
  | ECustom cell_id bytes32 bytes32

datatype bridge_error =
    UntrustedRoot
  | MissingNoteTreeRoot
  | InvalidSpendingProof
  | AlreadyBridged bytes32
  | DestinationMismatch bytes32 bytes32

datatype turn_error =
    TInsufficientBalance cell_id u64 int
  | TPermissionDenied cell_id string auth_required
  | TPreconditionFailed string
  | TInvalidAuthorization string
  | TCellNotFound cell_id
  | TCapabilityNotHeld cell_id cell_id
  | TDelegationDenied cell_id cell_id
  | TCellAlreadyExists cell_id
  | TTransferDestNotFound cell_id
  | TBalanceOverflow cell_id
  | TNonceOverflow cell_id
  | TCreateCellNonZeroBalance cell_id u64
  | TIntroductionDenied cell_id cell_id cell_id string
  | TBridgeMintFailed bridge_error
  | TCapabilityRevoked cell_id bytes32 u64
  | TCapabilityStale cell_id cell_id u64 u64
  | TCapabilitySlotOverflow cell_id
  | TInvalidEffect string
  | TCustomEffectRequiresProofCarryingTurn cell_id
  | TFacetViolation cell_id cell_id u32 string effect_mask

fun effect_kind_mask :: "effect \<Rightarrow> effect_mask" where
  "effect_kind_mask (ESetField _ _ _) = EFFECT_SET_FIELD"
| "effect_kind_mask (ETransfer _ _ _) = EFFECT_TRANSFER"
| "effect_kind_mask (EGrantCapability _ _ _) = EFFECT_GRANT_CAPABILITY"
| "effect_kind_mask (ERevokeCapability _ _) = EFFECT_REVOKE_CAPABILITY"
| "effect_kind_mask (EEmitEvent _ _ _) = EFFECT_EMIT_EVENT"
| "effect_kind_mask (EIncrementNonce _) = EFFECT_INCREMENT_NONCE"
| "effect_kind_mask (ECreateCell _ _ _) = EFFECT_CREATE_CELL"
| "effect_kind_mask (ESetPermissions _ _) = EFFECT_SET_PERMISSIONS"
| "effect_kind_mask (ESetVerificationKey _ _) = EFFECT_SET_VERIFICATION_KEY"
| "effect_kind_mask (ESetProgram _ _) = EFFECT_SET_PROGRAM"
| "effect_kind_mask (ENoteSpend _ _ _ _ _ _) = EFFECT_NOTE_SPEND"
| "effect_kind_mask (ENoteCreate _ _ _ _ _ _) = EFFECT_NOTE_CREATE"
| "effect_kind_mask (EIntroduce _ _ _ _) = EFFECT_INTRODUCE"
| "effect_kind_mask (EPipelinedSend _ _ _) = EFFECT_INTRODUCE"
| "effect_kind_mask (EBridgeMint _) = EFFECT_BRIDGE_OPS"
| "effect_kind_mask (ESpawnWithDelegation _ _ _) = EFFECT_DELEGATION_OPS"
| "effect_kind_mask (ERefreshDelegation _ _) = EFFECT_DELEGATION_OPS"
| "effect_kind_mask (ERevokeDelegation _) = EFFECT_DELEGATION_OPS"
| "effect_kind_mask (EExerciseViaCapability _ _) = EFFECT_ALL"
| "effect_kind_mask (EMakeSovereign _) = EFFECT_SOVEREIGN_OPS"
| "effect_kind_mask (ECreateCellFromFactory _ _ _ _) = EFFECT_CREATE_CELL"
| "effect_kind_mask (ERefusal _ _ _ _) = EFFECT_REFUSAL"
| "effect_kind_mask (ECellSeal _ _) = EFFECT_LIFECYCLE_OPS"
| "effect_kind_mask (ECellUnseal _) = EFFECT_LIFECYCLE_OPS"
| "effect_kind_mask (ECellDestroy _ _) = EFFECT_LIFECYCLE_OPS"
| "effect_kind_mask (EReceiptArchive _ _) = EFFECT_LIFECYCLE_OPS"
| "effect_kind_mask (EBurn _ _ _) = EFFECT_BURN"
| "effect_kind_mask (EMint _ _ _) = EFFECT_MINT"
| "effect_kind_mask (EAttenuateCapability _ _ _ _ _) = EFFECT_ATTENUATE_CAPABILITY"
| "effect_kind_mask (EShieldedTransfer _) = EFFECT_NOTE_SPEND"
| "effect_kind_mask (ECustom _ _ _) = EFFECT_SOVEREIGN_OPS"

text \<open>
  \<open>valid_point\<close> is \<open>ValueCommitment::from_bytes\<close> succeeding, \<open>verify_range\<close> the Bulletproof check,
  \<open>verify_note_stark\<close> the closure that \<open>apply_bridge_mint\<close> hands to \<open>verify_portable_note\<close>, and
  \<open>shielded_nullifiers\<close> the outcome of parsing and verifying a shielded payload: \<open>None\<close> when any check
  fails, otherwise the field nullifiers it spends.
\<close>

record exec_crypto = cell_crypto +
  clist_postcard :: "capability_ref list \<Rightarrow> u8 list"
  valid_point :: "bytes32 \<Rightarrow> bool"
  verify_range :: "bytes32 \<Rightarrow> u8 list \<Rightarrow> bool"
  verify_note_stark :: "bytes32 \<Rightarrow> bytes32 \<Rightarrow> bytes32 \<Rightarrow> u64 \<Rightarrow> u64 \<Rightarrow> u8 list \<Rightarrow> bool"
  shielded_nullifiers :: "shielded_payload \<Rightarrow> u32 list option"

record exec_env =
  x_block_height :: u64
  x_current_timestamp :: int
  x_max_introduction_lifetime :: u64
  x_issuer_wells :: "bytes32 \<rightharpoonup> cell_id"
  x_revocation_channels :: "channel_set option"
  x_proof_verifier :: "(u8 list \<Rightarrow> string \<Rightarrow> string \<Rightarrow> u8 list \<Rightarrow> bool) option"
  x_last_receipt_hash :: "cell_id \<rightharpoonup> bytes32"
  x_local_federation_id :: bytes32
  x_trusted_federation_roots :: "attested_root list"

record exec_state = exec_stores +
  xs_journal :: ledger_journal
  xs_factories :: factory_registry

type_synonym exec_result = "(turn_error + unit) \<times> exec_state"

abbreviation cell_at :: "exec_state \<Rightarrow> cell_id \<rightharpoonup> cell" where
  "cell_at S \<equiv> l_cells (xs_ledger S)"

definition record_entry :: "exec_state \<Rightarrow> journal_entry \<Rightarrow> exec_state" where
  "record_entry S e = S\<lparr>xs_journal := journal_push (xs_journal S) e\<rparr>"

definition get_mut :: "exec_state \<Rightarrow> cell_id \<Rightarrow> cell option \<times> exec_state" where
  "get_mut S i =
     (let L = get_mut_with (xs_ledger S) i (\<lambda>c. c) in (l_cells L i, S\<lparr>xs_ledger := L\<rparr>))"

definition put_cell :: "exec_state \<Rightarrow> cell_id \<Rightarrow> cell \<Rightarrow> exec_state" where
  "put_cell S i c = S\<lparr>xs_ledger := (xs_ledger S)\<lparr>l_cells := (cell_at S)(i \<mapsto> c)\<rparr>\<rparr>"

section \<open>Authority checks\<close>

definition has_access_including_delegation_at :: "cell \<Rightarrow> cell_id \<Rightarrow> u64 \<Rightarrow> bool" where
  "has_access_including_delegation_at c target current_height \<longleftrightarrow>
     c_id c = target \<or> has_access_at (c_capabilities c) target current_height \<or>
     (case c_delegation c of Some d \<Rightarrow> dr_has_capability d target | None \<Rightarrow> False)"

definition permits_effect_including_delegation_at :: "cell \<Rightarrow> cell_id \<Rightarrow> u64 \<Rightarrow> effect_mask \<Rightarrow> bool" where
  "permits_effect_including_delegation_at c target current_height effect_bit \<longleftrightarrow>
     c_id c = target \<or> permits_effect_at (c_capabilities c) target current_height effect_bit \<or>
     (case c_delegation c of
        Some d \<Rightarrow> list_ex (\<lambda>cap. cr_permissions cap \<noteq> Impossible \<and>
                          is_effect_permitted (cr_allowed_effects cap) effect_bit)
                   (dr_capabilities_for d target)
      | None \<Rightarrow> False)"

fun walk_delegation_hops :: "nat \<Rightarrow> ledger \<Rightarrow> cell_id \<Rightarrow> cell_id \<Rightarrow> u64 \<Rightarrow> cell_id option" where
  "walk_delegation_hops 0 L current target h = None"
| "walk_delegation_hops (Suc n) L current target h =
     (case l_cells L current of
        None \<Rightarrow> None
      | Some c \<Rightarrow>
          (case c_delegate c of
             None \<Rightarrow> None
           | Some parent \<Rightarrow>
               (case l_cells L parent of
                  None \<Rightarrow> None
                | Some p \<Rightarrow>
                    if has_access_including_delegation_at p target h then Some parent
                    else walk_delegation_hops n L parent target h)))"

definition walk_delegation_chain_for_capability ::
  "ledger \<Rightarrow> cell_id \<Rightarrow> cell_id \<Rightarrow> u64 \<Rightarrow> cell_id option" where
  "walk_delegation_chain_for_capability L start target current_height =
     walk_delegation_hops 16 L start target current_height"

definition check_cross_cell_permission ::
  "exec_env \<Rightarrow> ledger \<Rightarrow> cell_id \<Rightarrow> cell_id \<Rightarrow> action \<Rightarrow> string \<Rightarrow> effect_mask \<Rightarrow> turn_error + unit" where
  "check_cross_cell_permission X L actor target permission_action action_name effect_bit =
     (let target_check =
        (case l_cells L target of
           None \<Rightarrow> Inl (TCellNotFound target)
         | Some c \<Rightarrow>
             let required = for_action (c_permissions c) permission_action in
             if required = Impossible then Inl (TPermissionDenied target action_name required)
             else if required \<noteq> AuthNone then Inl (TPermissionDenied target action_name required)
             else Inr ())
      in if actor = target then target_check
         else case l_cells L actor of
           None \<Rightarrow> Inl (TCellNotFound actor)
         | Some a \<Rightarrow>
             if \<not> has_access_including_delegation_at a target (x_block_height X)
             then Inl (TCapabilityNotHeld actor target)
             else if \<not> permits_effect_including_delegation_at a target (x_block_height X) effect_bit
             then Inl (TFacetViolation actor target 0 action_name
                    (effect_mask_union_for (c_capabilities a) target))
             else target_check)"

text \<open>The check a handler makes on a cell other than the target of the action.\<close>

definition cross_check ::
  "exec_env \<Rightarrow> exec_state \<Rightarrow> cell_id \<Rightarrow> cell_id \<Rightarrow> cell_id \<Rightarrow> action \<Rightarrow> string \<Rightarrow> effect_mask \<Rightarrow>
     turn_error + unit" where
  "cross_check X S action_target actor i permission_action action_name effect_bit =
     (if i \<noteq> action_target
      then check_cross_cell_permission X (xs_ledger S) actor i permission_action action_name effect_bit
      else Inr ())"

section \<open>State and value\<close>

definition apply_set_field ::
  "('a exec_crypto_scheme) \<Rightarrow> exec_env \<Rightarrow> exec_state \<Rightarrow> cell_id \<Rightarrow> cell_id \<Rightarrow> cell_id \<Rightarrow> u64 \<Rightarrow>
     field_element \<Rightarrow> exec_result" where
  "apply_set_field E X S action_target actor i index value =
     (case cross_check X S action_target actor i SetState ''SetState'' EFFECT_SET_FIELD of
        Inl e \<Rightarrow> (Inl e, S)
      | Inr _ \<Rightarrow>
          (case get_mut S i of
             (None, S) \<Rightarrow> (Inl (TCellNotFound i), S)
           | (Some c, S) \<Rightarrow>
               if \<not> cell_is_live c then (Inl (TInvalidEffect ''SetField target cell is not live''), S)
               else if unat index < STATE_SLOTS
               then let S = record_entry S (JSetField i index (Some (st_fields (c_state c) ! unat index)))
                    in (Inr (), put_cell S i (map_state (\<lambda>s. snd (set_field s (unat index) value)) c))
               else let S = record_entry S (JSetField i index (get_field_ext (c_state c) index))
                    in (Inr (), put_cell S i (map_state (\<lambda>s. snd (set_field_ext E s index value)) c))))"

definition apply_transfer ::
  "exec_env \<Rightarrow> exec_state \<Rightarrow> cell_id \<Rightarrow> cell_id \<Rightarrow> cell_id \<Rightarrow> cell_id \<Rightarrow> u64 \<Rightarrow> exec_result" where
  "apply_transfer X S action_target actor src dst amount =
     (if src = dst then (Inl (TInvalidEffect ''self-transfer rejected''), S)
      else case cross_check X S action_target actor src Send ''Send'' EFFECT_TRANSFER of
        Inl e \<Rightarrow> (Inl e, S)
      | Inr _ \<Rightarrow>
     (case cell_at S src of
        None \<Rightarrow> (Inl (TCellNotFound src), S)
      | Some from_cell \<Rightarrow>
          if \<not> cell_is_live from_cell
          then (Inl (TInvalidEffect ''Transfer source cell is not live''), S)
          else
     (case i64_try_from amount of
        None \<Rightarrow> (Inl (TBalanceOverflow src), S)
      | Some amount_i \<Rightarrow>
          if st_balance (c_state from_cell) < amount_i
          then (Inl (TInsufficientBalance src amount (st_balance (c_state from_cell))), S)
          else
     (case cell_at S dst of
        None \<Rightarrow> (Inl (TTransferDestNotFound dst), S)
      | Some to_cell \<Rightarrow>
          if \<not> cell_is_live to_cell
          then (Inl (TInvalidEffect ''Transfer destination cell is not live''), S)
          else if checked_add_i64 (st_balance (c_state to_cell)) amount_i = None
          then (Inl (TBalanceOverflow dst), S)
          else
            let old_from = st_balance (c_state from_cell);
                old_to = st_balance (c_state to_cell);
                S = record_entry S (JSetBalance src old_from);
                S = record_entry S (JSetBalance dst old_to);
                S = with_cell src (map_state (\<lambda>s. s\<lparr>st_balance := old_from - amount_i\<rparr>)) S;
                S = with_cell dst (map_state (\<lambda>s. s\<lparr>st_balance := old_to + amount_i\<rparr>)) S
            in (Inr (), S)))))"

definition apply_increment_nonce ::
  "exec_env \<Rightarrow> exec_state \<Rightarrow> cell_id \<Rightarrow> cell_id \<Rightarrow> cell_id \<Rightarrow> exec_result" where
  "apply_increment_nonce X S action_target actor i =
     (case cross_check X S action_target actor i IncrementNonce ''IncrementNonce'' EFFECT_INCREMENT_NONCE of
        Inl e \<Rightarrow> (Inl e, S)
      | Inr _ \<Rightarrow>
          (case get_mut S i of
             (None, S) \<Rightarrow> (Inl (TCellNotFound i), S)
           | (Some c, S) \<Rightarrow>
               if \<not> cell_is_live c
               then (Inl (TInvalidEffect ''IncrementNonce target cell is not live''), S)
               else
                 let S = record_entry S (JSetNonce i (st_nonce (c_state c)));
                     (ok, s) = increment_nonce (c_state c);
                     S = put_cell S i (c\<lparr>c_state := s\<rparr>)
                 in if ok then (Inr (), S) else (Inl (TNonceOverflow i), S)))"

definition apply_create_cell ::
  "('a exec_crypto_scheme) \<Rightarrow> exec_state \<Rightarrow> bytes32 \<Rightarrow> bytes32 \<Rightarrow> u64 \<Rightarrow> exec_result" where
  "apply_create_cell E S public_key token_id balance =
     (if balance \<noteq> 0
      then (Inl (TCreateCellNonZeroBalance (derive_raw E public_key token_id) balance), S)
      else
        let new_cell = with_balance E public_key token_id 0; i = c_id new_cell in
        (case insert_cell (xs_ledger S) new_cell of
           (Inl _, L) \<Rightarrow> (Inl (TCellAlreadyExists i), S\<lparr>xs_ledger := L\<rparr>)
         | (Inr _, L) \<Rightarrow> (Inr (), record_entry (S\<lparr>xs_ledger := L\<rparr>) (JCreateCell i))))"

definition apply_set_permissions ::
  "exec_env \<Rightarrow> exec_state \<Rightarrow> cell_id \<Rightarrow> cell_id \<Rightarrow> cell_id \<Rightarrow> permissions \<Rightarrow> exec_result" where
  "apply_set_permissions X S action_target actor i new_permissions =
     (case cross_check X S action_target actor i SetPermissions ''SetPermissions'' EFFECT_SET_PERMISSIONS of
        Inl e \<Rightarrow> (Inl e, S)
      | Inr _ \<Rightarrow>
          (case get_mut S i of
             (None, S) \<Rightarrow> (Inl (TCellNotFound i), S)
           | (Some c, S) \<Rightarrow>
               if \<not> cell_is_live c
               then (Inl (TInvalidEffect ''SetPermissions target cell is not live''), S)
               else (Inr (), put_cell (record_entry S (JSetPermissions i (c_permissions c))) i
                      (c\<lparr>c_permissions := new_permissions\<rparr>))))"

definition apply_set_verification_key ::
  "('a exec_crypto_scheme) \<Rightarrow> exec_env \<Rightarrow> exec_state \<Rightarrow> cell_id \<Rightarrow> cell_id \<Rightarrow> cell_id \<Rightarrow>
     verification_key option \<Rightarrow> exec_result" where
  "apply_set_verification_key E X S action_target actor i new_vk =
     (case cross_check X S action_target actor i SetVerificationKey ''SetVerificationKey''
             EFFECT_SET_VERIFICATION_KEY of
        Inl e \<Rightarrow> (Inl e, S)
      | Inr _ \<Rightarrow>
          if (case new_vk of Some vk \<Rightarrow> blake3 E (vk_data vk) \<noteq> vk_hash_bytes vk | None \<Rightarrow> False)
          then (Inl (TInvalidEffect ''VerificationKey integrity invariant violated''), S)
          else
          (case get_mut S i of
             (None, S) \<Rightarrow> (Inl (TCellNotFound i), S)
           | (Some c, S) \<Rightarrow>
               if \<not> cell_is_live c
               then (Inl (TInvalidEffect ''SetVerificationKey target cell is not live''), S)
               else (Inr (), put_cell (record_entry S (JSetVerificationKey i (c_verification_key c))) i
                      (c\<lparr>c_verification_key := new_vk\<rparr>))))"

definition apply_set_program ::
  "exec_env \<Rightarrow> exec_state \<Rightarrow> cell_id \<Rightarrow> cell_id \<Rightarrow> cell_id \<Rightarrow> cell_program \<Rightarrow> exec_result" where
  "apply_set_program X S action_target actor i program =
     (case cross_check X S action_target actor i SetVerificationKey ''SetProgram'' EFFECT_SET_PROGRAM of
        Inl e \<Rightarrow> (Inl e, S)
      | Inr _ \<Rightarrow>
          (case get_mut S i of
             (None, S) \<Rightarrow> (Inl (TCellNotFound i), S)
           | (Some c, S) \<Rightarrow>
               if \<not> cell_is_live c
               then (Inl (TInvalidEffect ''SetProgram target cell is not live''), S)
               else (Inr (), put_cell (record_entry S (JSetProgram i (c_program c))) i
                      (c\<lparr>c_program := program\<rparr>))))"

definition apply_emit_event ::
  "exec_state \<Rightarrow> cell_id \<Rightarrow> bytes32 \<Rightarrow> field_element list \<Rightarrow> exec_result" where
  "apply_emit_event S i topic data =
     (case cell_at S i of
        None \<Rightarrow> (Inl (TCellNotFound i), S)
      | Some c \<Rightarrow>
          if \<not> accepts_effects c
          then (Inl (TInvalidEffect ''EmitEvent target cell does not accept effects''), S)
          else (Inr (), record_entry S (JEventEmitted i topic data)))"

fun refusal_bytes :: "refusal_reason \<Rightarrow> u8 list" where
  "refusal_bytes Declined = [0]"
| "refusal_bytes NoAuthority = [1]"
| "refusal_bytes WindowExpired = [2]"
| "refusal_bytes (CustomRefusal h) = 3 # bytes32_bytes h"

definition apply_refusal ::
  "('a exec_crypto_scheme) \<Rightarrow> exec_env \<Rightarrow> exec_state \<Rightarrow> cell_id \<Rightarrow> cell_id \<Rightarrow> cell_id \<Rightarrow> bytes32 \<Rightarrow>
     refusal_reason \<Rightarrow> exec_result" where
  "apply_refusal E X S action_target actor i offered reason =
     (case cross_check X S action_target actor i SetState ''Refusal'' EFFECT_REFUSAL of
        Inl e \<Rightarrow> (Inl e, S)
      | Inr _ \<Rightarrow>
          (case get_mut S i of
             (None, S) \<Rightarrow> (Inl (TCellNotFound i), S)
           | (Some c, S) \<Rightarrow>
               if \<not> cell_is_live c then (Inl (TInvalidEffect ''Refusal target cell is not live''), S)
               else
                 let S = record_entry S (JSetNonce i (st_nonce (c_state c)));
                     (ok, s) = increment_nonce (c_state c);
                     c = c\<lparr>c_state := s\<rparr>;
                     S = put_cell S i c
                 in if \<not> ok then (Inl (TNonceOverflow i), S)
                    else
                      let audit = derive_key E ''dregg-refusal-audit-v1''
                            (bytes32_bytes offered @ refusal_bytes reason);
                          key = REFUSAL_AUDIT_EXT_KEY;
                          S = record_entry S (JSetField i key (get_field_ext (c_state c) key))
                      in (Inr (), put_cell S i (map_state (\<lambda>s. snd (set_field_ext E s key audit)) c))))"

section \<open>Lifecycle\<close>

definition apply_cell_seal ::
  "exec_env \<Rightarrow> exec_state \<Rightarrow> cell_id \<Rightarrow> cell_id \<Rightarrow> bytes32 \<Rightarrow> exec_result" where
  "apply_cell_seal X S action_target target reason =
     (if target \<noteq> action_target
      then (Inl (TInvalidEffect ''CellSeal target must match action target''), S)
      else case get_mut S target of
        (None, S) \<Rightarrow> (Inl (TCellNotFound target), S)
      | (Some c, S) \<Rightarrow>
          (case seal c reason (x_block_height X) of
             (Inl _, c') \<Rightarrow> (Inl (TInvalidEffect ''CellSeal failed''), put_cell S target c')
           | (Inr _, c') \<Rightarrow>
               (Inr (), record_entry (put_cell S target c') (JSetLifecycle target (c_lifecycle c)))))"

definition apply_cell_unseal :: "exec_state \<Rightarrow> cell_id \<Rightarrow> cell_id \<Rightarrow> exec_result" where
  "apply_cell_unseal S action_target target =
     (if target \<noteq> action_target
      then (Inl (TInvalidEffect ''CellUnseal target must match action target''), S)
      else case get_mut S target of
        (None, S) \<Rightarrow> (Inl (TCellNotFound target), S)
      | (Some c, S) \<Rightarrow>
          (case unseal c of
             (Inl _, c') \<Rightarrow> (Inl (TInvalidEffect ''CellUnseal failed''), put_cell S target c')
           | (Inr _, c') \<Rightarrow>
               (Inr (), record_entry (put_cell S target c') (JSetLifecycle target (c_lifecycle c)))))"

definition apply_cell_destroy ::
  "('a exec_crypto_scheme) \<Rightarrow> exec_state \<Rightarrow> cell_id \<Rightarrow> cell_id \<Rightarrow> death_certificate \<Rightarrow> exec_result" where
  "apply_cell_destroy E S action_target target certificate =
     (if target \<noteq> action_target
      then (Inl (TInvalidEffect ''CellDestroy target must match action target''), S)
      else case get_mut S target of
        (None, S) \<Rightarrow> (Inl (TCellNotFound target), S)
      | (Some c, S) \<Rightarrow>
          (case destroy E c certificate of
             (Inl _, c') \<Rightarrow> (Inl (TInvalidEffect ''CellDestroy failed''), put_cell S target c')
           | (Inr _, c') \<Rightarrow>
               (Inr (), record_entry (put_cell S target c') (JSetLifecycle target (c_lifecycle c)))))"

definition apply_receipt_archive ::
  "('a exec_crypto_scheme) \<Rightarrow> exec_env \<Rightarrow> exec_state \<Rightarrow> cell_id \<Rightarrow> u64 \<Rightarrow> archival_attestation \<Rightarrow>
     exec_result" where
  "apply_receipt_archive E X S action_target prefix_end_height att =
     (if aa_cell_id att \<noteq> action_target
      then (Inl (TInvalidEffect ''ReceiptArchive checkpoint cell_id mismatches action target''), S)
      else if aa_archive_end_height att \<noteq> prefix_end_height
      then (Inl (TInvalidEffect ''ReceiptArchive prefix_end_height mismatch''), S)
      else if x_block_height X < prefix_end_height
      then (Inl (TInvalidEffect ''ReceiptArchive prefix_end_height exceeds current head height''), S)
      else if (case x_last_receipt_hash X action_target of
                 Some live_head \<Rightarrow> aa_archive_terminal_receipt_hash att \<noteq> live_head
               | None \<Rightarrow> False)
      then (Inl (TInvalidEffect ''ReceiptArchive does not match live chain head''), S)
      else case get_mut S action_target of
        (None, S) \<Rightarrow> (Inl (TCellNotFound action_target), S)
      | (Some c, S) \<Rightarrow>
          if \<not> cell_is_live c then (Inl (TInvalidEffect ''ReceiptArchive on a non-Live cell''), S)
          else
          (case archive E c att of
             (Inl _, c') \<Rightarrow> (Inl (TInvalidEffect ''ReceiptArchive failed''), put_cell S action_target c')
           | (Inr _, c') \<Rightarrow>
               (Inr (), record_entry (put_cell S action_target c')
                  (JSetLifecycle action_target (c_lifecycle c)))))"

definition apply_make_sovereign ::
  "('a exec_crypto_scheme) \<Rightarrow> exec_state \<Rightarrow> cell_id \<Rightarrow> cell_id \<Rightarrow> exec_result" where
  "apply_make_sovereign E S action_target i =
     (if i \<noteq> action_target
      then (Inl (TInvalidEffect ''MakeSovereign cell must match action target''), S)
      else case cell_at S i of
        None \<Rightarrow> (Inl (TCellNotFound i), S)
      | Some c \<Rightarrow>
          if \<not> cell_is_live c
          then (Inl (TInvalidEffect ''MakeSovereign target cell is not live''), S)
          else
          (case make_sovereign E (xs_ledger S) i of
             (Inl _, L) \<Rightarrow> (Inl (TInvalidEffect ''MakeSovereign failed''), S\<lparr>xs_ledger := L\<rparr>)
           | (Inr removed, L) \<Rightarrow> (Inr (), record_entry (S\<lparr>xs_ledger := L\<rparr>) (JMakeSovereign removed))))"

section \<open>Capabilities\<close>

text \<open>The comparison of a granted capability with the one its grantor holds.\<close>

definition grant_within :: "capability_ref \<Rightarrow> capability_ref \<Rightarrow> bool" where
  "grant_within held cap \<longleftrightarrow>
     is_attenuation (cr_permissions held) (cr_permissions cap) \<and>
     is_facet_attenuation (mask_or_all (cr_allowed_effects held)) (mask_or_all (cr_allowed_effects cap)) \<and>
     (case cr_expires_at held of
        None \<Rightarrow> True
      | Some held_exp \<Rightarrow> (case cr_expires_at cap of None \<Rightarrow> False | Some e \<Rightarrow> \<not> held_exp < e))"

definition apply_grant_capability ::
  "('a exec_crypto_scheme) \<Rightarrow> exec_env \<Rightarrow> exec_state \<Rightarrow> cell_id \<Rightarrow> cell_id \<Rightarrow> cell_id \<Rightarrow> cell_id \<Rightarrow>
     capability_ref \<Rightarrow> bytes32 \<Rightarrow> exec_result" where
  "apply_grant_capability E X S action_target actor src dst cap created_by_turn =
     (case cross_check X S action_target actor src Delegate ''Delegate'' EFFECT_GRANT_CAPABILITY of
        Inl e \<Rightarrow> (Inl e, S)
      | Inr _ \<Rightarrow>
     (case cell_at S src of
        None \<Rightarrow> (Inl (TCellNotFound src), S)
      | Some from_cell \<Rightarrow>
     (case (if cr_target cap = src then Inr ()
            else case lookup_by_target (c_capabilities from_cell) (cr_target cap) of
              None \<Rightarrow> Inl (TCapabilityNotHeld src (cr_target cap))
            | Some held \<Rightarrow> if grant_within held cap then Inr () else Inl (TDelegationDenied src dst)) of
        Inl e \<Rightarrow> (Inl e, S)
      | Inr _ \<Rightarrow>
     (case get_mut S dst of
        (None, S) \<Rightarrow> (Inl (TCellNotFound dst), S)
      | (Some c, S) \<Rightarrow>
          (case grant_ref_provenanced (blake3 E) (c_capabilities c) cap created_by_turn of
             (None, cs) \<Rightarrow> (Inl (TCapabilitySlotOverflow dst), put_cell S dst (c\<lparr>c_capabilities := cs\<rparr>))
           | (Some slot, cs) \<Rightarrow>
               (Inr (), record_entry (put_cell S dst (c\<lparr>c_capabilities := cs\<rparr>))
                  (JGrantCapability dst slot)))))))"

definition insert_revocation :: "exec_state \<Rightarrow> bytes32 \<Rightarrow> u64 \<Rightarrow> exec_state" where
  "insert_revocation S key height =
     (if append_contains (xs_revoked S) key then S
      else record_entry (S\<lparr>xs_revoked := snd (revoked_insert (xs_revoked S) key height)\<rparr>)
             (JRevocationInserted key))"

definition apply_revocation_channel_trip ::
  "('a exec_crypto_scheme) \<Rightarrow> exec_state \<Rightarrow> bytes32 \<Rightarrow> u64 \<Rightarrow> exec_state" where
  "apply_revocation_channel_trip E S ch height = insert_revocation S (chan_nul (blake3 E) ch) height"

definition apply_revoke_capability ::
  "('a exec_crypto_scheme) \<Rightarrow> exec_env \<Rightarrow> exec_state \<Rightarrow> cell_id \<Rightarrow> cell_id \<Rightarrow> cell_id \<Rightarrow> u32 \<Rightarrow> exec_result" where
  "apply_revoke_capability E X S action_target actor i slot =
     (case cross_check X S action_target actor i Delegate ''Delegate'' EFFECT_REVOKE_CAPABILITY of
        Inl e \<Rightarrow> (Inl e, S)
      | Inr _ \<Rightarrow>
     (case get_mut S i of
        (None, S) \<Rightarrow> (Inl (TCellNotFound i), S)
      | (Some c, S) \<Rightarrow>
          let found = clist_lookup (c_capabilities c) slot;
              S = (case found of Some old \<Rightarrow> record_entry S (JRevokeCapability i old) | None \<Rightarrow> S);
              S = put_cell S i (c\<lparr>c_capabilities := snd (clist_revoke (c_capabilities c) slot)\<rparr>);
              S = (case found of
                     Some old \<Rightarrow> insert_revocation S (cred_nul (blake3 E) (cr_provenance old)) (x_block_height X)
                   | None \<Rightarrow> S)
          in (Inr (), S)))"

definition apply_attenuate_capability ::
  "('a exec_crypto_scheme) \<Rightarrow> exec_state \<Rightarrow> cell_id \<Rightarrow> cell_id \<Rightarrow> u32 \<Rightarrow> auth_required \<Rightarrow>
     effect_mask option \<Rightarrow> u64 option \<Rightarrow> exec_result" where
  "apply_attenuate_capability E S actor i slot narrower narrower_effects narrower_exp =
     (if i \<noteq> actor then (Inl (TInvalidEffect ''AttenuateCapability cell must match the actor''), S)
      else case get_mut S i of
        (None, S) \<Rightarrow> (Inl (TCellNotFound i), S)
      | (Some c, S) \<Rightarrow>
          (case clist_lookup (c_capabilities c) slot of
             None \<Rightarrow> (Inl (TInvalidEffect ''AttenuateCapability slot not present in c-list''), S)
           | Some prior \<Rightarrow>
               (case attenuate_in_place (cap_leaf_commitment E) (c_capabilities c) slot narrower
                       narrower_effects narrower_exp of
                  (None, cs) \<Rightarrow>
                    (Inl (TInvalidEffect ''AttenuateCapability rejected: not a monotone narrowing''),
                     put_cell S i (c\<lparr>c_capabilities := cs\<rparr>))
                | (Some _, cs) \<Rightarrow>
                    (Inr (), record_entry (put_cell S i (c\<lparr>c_capabilities := cs\<rparr>))
                       (JAttenuateCapability i slot (cr_permissions prior) (cr_allowed_effects prior)
                          (cr_expires_at prior))))))"

definition apply_introduce ::
  "('a exec_crypto_scheme) \<Rightarrow> exec_env \<Rightarrow> exec_state \<Rightarrow> cell_id \<Rightarrow> cell_id \<Rightarrow> cell_id \<Rightarrow> auth_required \<Rightarrow>
     bytes32 \<Rightarrow> exec_result" where
  "apply_introduce E X S introducer recipient target perms created_by_turn =
     (let denied = TIntroductionDenied introducer recipient target in
      case cell_at S introducer of
        None \<Rightarrow> (Inl (TCellNotFound introducer), S)
      | Some intro_cell \<Rightarrow>
          if \<not> has_access (c_capabilities intro_cell) recipient
          then (Inl (denied ''introducer has no capability to recipient''), S)
          else
     (case lookup_by_target (c_capabilities intro_cell) target of
        None \<Rightarrow> (Inl (denied ''introducer has no capability to target''), S)
      | Some held \<Rightarrow>
          if \<not> unexpired (cr_expires_at held) (x_block_height X)
          then (Inl (denied ''introducer's capability to target has expired''), S)
          else if \<not> is_attenuation (cr_permissions held) perms
          then (Inl (denied ''granted permissions exceed introducer's own (amplification denied)''), S)
          else
     (case cell_at S target of
        None \<Rightarrow> (Inl (TCellNotFound target), S)
      | Some tcell \<Rightarrow>
          if p_delegate (c_permissions tcell) = Impossible
          then (Inl (denied ''target cell has delegate=Impossible (consent denied)''), S)
          else if cell_at S recipient = None then (Inl (TCellNotFound recipient), S)
          else
     (case get_mut S recipient of
        (None, S) \<Rightarrow> (Inl (TCellNotFound recipient), S)
      | (Some c, S) \<Rightarrow>
          let expires_at = x_block_height X + x_max_introduction_lifetime X in
          (case grant_provenanced (blake3 E) (c_capabilities c) target perms None (Some expires_at) None
                  None (cr_provenance held) created_by_turn of
             (None, cs) \<Rightarrow>
               (Inl (TCapabilitySlotOverflow recipient), put_cell S recipient (c\<lparr>c_capabilities := cs\<rparr>))
           | (Some slot, cs) \<Rightarrow>
               (Inr (), record_entry (put_cell S recipient (c\<lparr>c_capabilities := cs\<rparr>))
                  (JGrantCapability recipient slot)))))))"

section \<open>Delegation\<close>

definition apply_spawn_with_delegation ::
  "('a exec_crypto_scheme) \<Rightarrow> exec_env \<Rightarrow> exec_state \<Rightarrow> cell_id \<Rightarrow> bytes32 \<Rightarrow> bytes32 \<Rightarrow> u64 \<Rightarrow> exec_result" where
  "apply_spawn_with_delegation E X S action_target child_public_key child_token_id max_staleness =
     (case cell_at S action_target of
        None \<Rightarrow> (Inl (TCellNotFound action_target), S)
      | Some parent \<Rightarrow>
          let snapshot = cs_refs (c_capabilities parent);
              child_id = derive_raw E child_public_key child_token_id;
              child = (with_balance E child_public_key child_token_id 0)
                \<lparr>c_delegate := Some action_target,
                 c_delegation := Some (delegated_ref_new action_target child_id snapshot
                   (st_delegation_epoch (c_state parent)) (word_of_int (x_current_timestamp X))
                   max_staleness (compute_clist_commitment E (clist_postcard E snapshot)) 0)\<rparr>
          in (case insert_cell (xs_ledger S) child of
                (Inl _, L) \<Rightarrow> (Inl (TCellAlreadyExists child_id), S\<lparr>xs_ledger := L\<rparr>)
              | (Inr _, L) \<Rightarrow> (Inr (), record_entry (S\<lparr>xs_ledger := L\<rparr>) (JCreateCell child_id))))"

definition apply_refresh_delegation ::
  "('a exec_crypto_scheme) \<Rightarrow> exec_env \<Rightarrow> exec_state \<Rightarrow> cell_id \<Rightarrow> cell_id \<Rightarrow> bytes32 \<Rightarrow> exec_result" where
  "apply_refresh_delegation E X S action_target child declared_snapshot =
     (if child \<noteq> action_target
      then (Inl (TInvalidEffect ''RefreshDelegation child must equal the action target''), S)
      else case cell_at S action_target of
        None \<Rightarrow> (Inl (TCellNotFound action_target), S)
      | Some child_cell \<Rightarrow>
     (case c_delegate child_cell of
        None \<Rightarrow> (Inl (TInvalidAuthorization ''cell has no delegate (parent) to refresh from''), S)
      | Some parent_id \<Rightarrow>
          let max_staleness = (case c_delegation child_cell of Some d \<Rightarrow> dr_max_staleness d | None \<Rightarrow> 0);
              old_delegation = c_delegation child_cell in
     (case cell_at S parent_id of
        None \<Rightarrow> (Inl (TCellNotFound parent_id), S)
      | Some parent \<Rightarrow>
          let new_snapshot = cs_refs (c_capabilities parent);
              clist_commitment = compute_clist_commitment E (clist_postcard E new_snapshot) in
          if clist_commitment \<noteq> declared_snapshot
          then (Inl (TInvalidEffect ''RefreshDelegation snapshot does not match (forged refresh)''), S)
          else
     (case get_mut S action_target of
        (None, S) \<Rightarrow> (Inl (TCellNotFound action_target), S)
      | (Some c, S) \<Rightarrow>
          (Inr (), put_cell (record_entry S (JSetDelegation action_target old_delegation)) action_target
             (c\<lparr>c_delegation := Some (delegated_ref_new parent_id action_target new_snapshot
                (st_delegation_epoch (c_state parent)) (word_of_int (x_current_timestamp X))
                max_staleness clist_commitment 0)\<rparr>))))))"

text \<open>
  \<open>get_mut(action_target).unwrap()\<close> panics when the parent is not hosted here; the branch is an error
  that leaves the state alone.
\<close>

definition apply_revoke_delegation :: "exec_state \<Rightarrow> cell_id \<Rightarrow> cell_id \<Rightarrow> exec_result" where
  "apply_revoke_delegation S action_target child =
     (case cell_at S child of
        None \<Rightarrow> (Inl (TCellNotFound child), S)
      | Some child_cell \<Rightarrow>
          if c_delegate child_cell \<noteq> Some action_target
          then (Inl (TDelegationDenied action_target child), S)
          else
     (case get_mut S action_target of
        (None, S) \<Rightarrow> (Inl (TCellNotFound action_target), S)
      | (Some parent, S) \<Rightarrow>
          let S = record_entry S (JSetDelegationEpoch action_target (st_delegation_epoch (c_state parent)));
              (ok, s) = bump_delegation_epoch (c_state parent);
              S = put_cell S action_target (parent\<lparr>c_state := s\<rparr>) in
          if \<not> ok then (Inl (TNonceOverflow action_target), S)
          else
     (case get_mut S child of
        (None, S) \<Rightarrow> (Inl (TCellNotFound child), S)
      | (Some c, S) \<Rightarrow>
          (Inr (), put_cell (record_entry S (JSetDelegation child (c_delegation child_cell))) child
             (c\<lparr>c_delegation := None\<rparr>)))))"

section \<open>Notes\<close>

definition is_null32 :: "bytes32 \<Rightarrow> bool" where
  "is_null32 b \<longleftrightarrow> b = 0"

definition note_spend_inputs :: "bytes32 \<Rightarrow> bytes32 \<Rightarrow> u64 \<Rightarrow> u64 \<Rightarrow> u8 list" where
  "note_spend_inputs nullifier note_tree_root value asset_type =
     bytes32_bytes nullifier @ bytes32_bytes note_tree_root @ u64_bytes value @ u64_bytes asset_type @
     replicate 32 0"

definition apply_note_spend ::
  "('a exec_crypto_scheme) \<Rightarrow> exec_env \<Rightarrow> exec_state \<Rightarrow> bytes32 \<Rightarrow> bytes32 \<Rightarrow> u64 \<Rightarrow> u64 \<Rightarrow> u8 list \<Rightarrow>
     bytes32 option \<Rightarrow> exec_result" where
  "apply_note_spend E X S nullifier note_tree_root value asset_type spending_proof value_commitment =
     (if is_null32 nullifier then (Inl (TInvalidEffect ''null nullifier in NoteSpend''), S)
      else if is_null32 note_tree_root then (Inl (TInvalidEffect ''null note_tree_root in NoteSpend''), S)
      else if spending_proof = [] then (Inl (TInvalidEffect ''NoteSpend missing spending proof''), S)
      else case x_proof_verifier X of
        None \<Rightarrow> (Inl (TInvalidEffect ''no proof verifier configured for note spend verification''), S)
      | Some verify \<Rightarrow>
          if \<not> verify spending_proof ''note-spend'' ''note-tree''
                 (note_spend_inputs nullifier note_tree_root value asset_type)
          then (Inl (TInvalidEffect ''NoteSpend spending proof verification failed''), S)
          else if append_contains (xs_nullifiers S) nullifier
          then (Inl (TInvalidEffect ''double-spend: nullifier already in note_nullifiers set''), S)
          else
          (case nullifier_insert (xs_nullifiers S) nullifier value of
             (Inl _, ns) \<Rightarrow> (Inl (TInvalidEffect ''nullifier insert failed''), S\<lparr>xs_nullifiers := ns\<rparr>)
           | (Inr _, ns) \<Rightarrow>
               let S = record_entry (S\<lparr>xs_nullifiers := ns\<rparr>) (JNoteNullifierInserted nullifier);
                   S = record_entry S JNoteSpend
               in if (case value_commitment of Some vc \<Rightarrow> \<not> valid_point E vc | None \<Rightarrow> False)
                  then (Inl (TInvalidEffect ''NoteSpend value_commitment is not a valid Ristretto point''), S)
                  else (Inr (), S)))"

definition note_create_proofs ::
  "('a exec_crypto_scheme) \<Rightarrow> bytes32 option \<Rightarrow> u8 list option \<Rightarrow> turn_error + unit" where
  "note_create_proofs E value_commitment range_proof =
     (case value_commitment of
        None \<Rightarrow>
          (case range_proof of
             None \<Rightarrow> Inr ()
           | Some _ \<Rightarrow> Inl (TInvalidEffect ''NoteCreate has range_proof but no value_commitment''))
      | Some vc \<Rightarrow>
          if \<not> valid_point E vc
          then Inl (TInvalidEffect ''NoteCreate value_commitment is not a valid Ristretto point'')
          else
          (case range_proof of
             None \<Rightarrow> Inl (TInvalidEffect ''NoteCreate has value_commitment but no range_proof'')
           | Some rp \<Rightarrow>
               if rp = [] then Inl (TInvalidEffect ''NoteCreate range_proof is empty'')
               else if \<not> verify_range E vc rp
               then Inl (TInvalidEffect ''NoteCreate range proof verification failed'')
               else Inr ()))"

definition apply_note_create ::
  "('a exec_crypto_scheme) \<Rightarrow> exec_state \<Rightarrow> bytes32 \<Rightarrow> u64 \<Rightarrow> bytes32 option \<Rightarrow> u8 list option \<Rightarrow>
     exec_result" where
  "apply_note_create E S commitment value value_commitment range_proof =
     (if is_null32 commitment then (Inl (TInvalidEffect ''null commitment in NoteCreate''), S)
      else case note_create_proofs E value_commitment range_proof of
        Inl e \<Rightarrow> (Inl e, S)
      | Inr _ \<Rightarrow>
          if append_contains (xs_commitments S) commitment
          then (Inl (TInvalidEffect ''duplicate commitment: already in note_commitments set''), S)
          else
          (case commitment_insert (xs_commitments S) commitment value of
             (Inl _, cs) \<Rightarrow>
               (Inl (TInvalidEffect ''NoteCreate commitment insert failed''), S\<lparr>xs_commitments := cs\<rparr>)
           | (Inr _, cs) \<Rightarrow>
               let S = record_entry (S\<lparr>xs_commitments := cs\<rparr>) (JNoteCommitmentInserted commitment)
               in (Inr (), record_entry S JNoteCreate)))"

definition shielded_nullifier_key :: "('a crypto_scheme) \<Rightarrow> u32 \<Rightarrow> bytes32" where
  "shielded_nullifier_key E field_nullifier =
     derive_key E ''dregg-shielded-nullifier v1'' (u32_bytes field_nullifier)"

fun insert_shielded :: "bytes32 list \<Rightarrow> append_set \<Rightarrow> (note_error + unit) \<times> append_set" where
  "insert_shielded [] ns = (Inr (), ns)"
| "insert_shielded (nf # nfs) ns =
     (case nullifier_insert ns nf 0 of
        (Inl e, ns) \<Rightarrow> (Inl e, ns)
      | (Inr _, ns) \<Rightarrow> insert_shielded nfs ns)"

definition apply_shielded_transfer ::
  "('a exec_crypto_scheme) \<Rightarrow> exec_state \<Rightarrow> shielded_payload \<Rightarrow> exec_result" where
  "apply_shielded_transfer E S payload =
     (case shielded_nullifiers E payload of
        None \<Rightarrow> (Inl (TInvalidEffect ''shielded transfer rejected''), S)
      | Some fnfs \<Rightarrow>
          let nfs = map (shielded_nullifier_key E) fnfs in
          if list_ex (append_contains (xs_nullifiers S)) nfs
          then (Inl (TInvalidEffect ''double-spend: shielded nullifier already in note_nullifiers set''), S)
          else
          (case insert_shielded nfs (xs_nullifiers S) of
             (Inl _, ns) \<Rightarrow> (Inl (TInvalidEffect ''shielded nullifier insert failed''), S\<lparr>xs_nullifiers := ns\<rparr>)
           | (Inr _, ns) \<Rightarrow>
               (Inr (), foldl (\<lambda>S nf. record_entry (record_entry S (JNoteNullifierInserted nf)) JNoteSpend)
                  (S\<lparr>xs_nullifiers := ns\<rparr>) nfs)))"

definition verify_portable_note ::
  "('a exec_crypto_scheme) \<Rightarrow> portable_note_proof \<Rightarrow> bytes32 \<Rightarrow> attested_root list \<Rightarrow> bridge_error + unit" where
  "verify_portable_note E p local_federation_id trusted_roots =
     (if pn_destination_federation p \<noteq> local_federation_id
      then Inl (DestinationMismatch (pn_destination_federation p) local_federation_id)
      else if \<not> list_ex (\<lambda>r. ar_merkle_root r = ar_merkle_root (pn_source_root p) \<and>
                  ar_height r = ar_height (pn_source_root p) \<and>
                  ar_note_tree_root r = ar_note_tree_root (pn_source_root p)) trusted_roots
      then Inl UntrustedRoot
      else case ar_note_tree_root (pn_source_root p) of
        None \<Rightarrow> Inl MissingNoteTreeRoot
      | Some root \<Rightarrow>
          if verify_note_stark E (pn_nullifier p) root (pn_destination_federation p) (pn_value p)
               (pn_asset_type p) (pn_spending_proof p)
          then Inr () else Inl InvalidSpendingProof)"

definition apply_bridge_mint ::
  "('a exec_crypto_scheme) \<Rightarrow> exec_env \<Rightarrow> exec_state \<Rightarrow> portable_note_proof \<Rightarrow> exec_result" where
  "apply_bridge_mint E X S p =
     (case verify_portable_note E p (x_local_federation_id X) (x_trusted_federation_roots X) of
        Inl e \<Rightarrow> (Inl (TBridgeMintFailed e), S)
      | Inr _ \<Rightarrow>
          (case bridged_insert (xs_bridged S) (pn_nullifier p) of
             (False, ns) \<Rightarrow>
               (Inl (TBridgeMintFailed (AlreadyBridged (pn_nullifier p))), S\<lparr>xs_bridged := ns\<rparr>)
           | (True, ns) \<Rightarrow>
               (Inr (), record_entry (S\<lparr>xs_bridged := ns\<rparr>) (JBridgedNullifierInserted (pn_nullifier p)))))"

section \<open>Supply\<close>

definition derive_issuer_well :: "('a crypto_scheme) \<Rightarrow> bytes32 \<Rightarrow> bytes32 \<times> cell_id" where
  "derive_issuer_well E token_id =
     (let well_pubkey = derive_key E ''dregg-issuer-well-key-v1'' (bytes32_bytes token_id)
      in (well_pubkey, derive_raw E well_pubkey token_id))"

definition issuer_well_for ::
  "('a crypto_scheme) \<Rightarrow> exec_env \<Rightarrow> ledger \<Rightarrow> cell_id \<Rightarrow> cell_id option" where
  "issuer_well_for E X L i =
     (case l_cells L i of
        None \<Rightarrow> None
      | Some c \<Rightarrow>
          Some (case x_issuer_wells X (c_token_id c) of
                  Some w \<Rightarrow> w
                | None \<Rightarrow> snd (derive_issuer_well E (c_token_id c))))"

text \<open>The lazy creation of the well, the same block in \<open>apply_burn\<close> and \<open>apply_mint\<close>.\<close>

definition ensure_well ::
  "('a exec_crypto_scheme) \<Rightarrow> exec_state \<Rightarrow> bytes32 \<Rightarrow> cell_id \<Rightarrow> exec_result" where
  "ensure_well E S token_id well_id =
     (if ledger_contains (xs_ledger S) well_id then (Inr (), S)
      else
        let (well_pubkey, derived_id) = derive_issuer_well E token_id in
        if well_id \<noteq> derived_id then (Inl (TInvalidEffect ''registered issuer well not found''), S)
        else
        (case insert_cell (xs_ledger S) (with_balance E well_pubkey token_id 0) of
           (Inl _, L) \<Rightarrow> (Inl (TInvalidEffect ''issuer well insertion failed''), S\<lparr>xs_ledger := L\<rparr>)
         | (Inr _, L) \<Rightarrow> (Inr (), record_entry (S\<lparr>xs_ledger := L\<rparr>) (JCreateCell well_id))))"

definition apply_burn ::
  "('a exec_crypto_scheme) \<Rightarrow> exec_env \<Rightarrow> exec_state \<Rightarrow> cell_id \<Rightarrow> cell_id \<Rightarrow> u32 \<Rightarrow> u64 \<Rightarrow> exec_result" where
  "apply_burn E X S actor target slot amount =
     (if slot \<noteq> 0 then (Inl (TInvalidEffect ''Burn slot is not a burnable balance slot''), S)
      else case (if actor \<noteq> target
                 then check_cross_cell_permission X (xs_ledger S) actor target Send ''Burn'' EFFECT_BURN
                 else Inr ()) of
        Inl e \<Rightarrow> (Inl e, S)
      | Inr _ \<Rightarrow>
     (case cell_at S target of
        None \<Rightarrow> (Inl (TCellNotFound target), S)
      | Some holder \<Rightarrow>
     (case issuer_well_for E X (xs_ledger S) target of
        None \<Rightarrow> (Inl (TCellNotFound target), S)
      | Some well_id \<Rightarrow>
     (case get_mut S target of
        (None, S) \<Rightarrow> (Inl (TCellNotFound target), S)
      | (Some cm, S) \<Rightarrow>
     (case debit_balance (c_state cm) amount of
        (False, s) \<Rightarrow> (Inl (TInsufficientBalance target amount (st_balance (c_state cm))),
                       put_cell S target (cm\<lparr>c_state := s\<rparr>))
      | (True, s) \<Rightarrow>
          let S = record_entry (put_cell S target (cm\<lparr>c_state := s\<rparr>))
                    (JSetBalance target (st_balance (c_state cm))) in
     (case ensure_well E S (c_token_id holder) well_id of
        (Inl e, S) \<Rightarrow> (Inl e, S)
      | (Inr _, S) \<Rightarrow>
     (case get_mut S well_id of
        (None, S) \<Rightarrow> (Inl (TInvalidEffect ''issuer well not found''), S)
      | (Some well, S) \<Rightarrow>
          if \<not> cell_is_live well then (Inl (TInvalidEffect ''issuer well is not live''), S)
          else
          (case credit_balance (c_state well) amount of
             (False, s) \<Rightarrow> (Inl (TInvalidEffect ''issuer well balance overflow on burn credit''),
                            put_cell S well_id (well\<lparr>c_state := s\<rparr>))
           | (True, s) \<Rightarrow>
               (Inr (), record_entry (put_cell S well_id (well\<lparr>c_state := s\<rparr>))
                  (JSetBalance well_id (st_balance (c_state well))))))))))))"

definition holds_mint_authority :: "exec_env \<Rightarrow> ledger \<Rightarrow> cell_id \<Rightarrow> cell_id \<Rightarrow> bool" where
  "holds_mint_authority X L actor well =
     (if actor = well then False
      else case l_cells L actor of
        None \<Rightarrow> False
      | Some c \<Rightarrow>
          list_ex (\<lambda>cap. cr_permissions cap = AuthNone \<and>
              unexpired (cr_expires_at cap) (x_block_height X) \<and>
              is_effect_permitted (cr_allowed_effects cap) EFFECT_MINT)
            (capabilities_for (c_capabilities c) well @
             (case c_delegation c of Some d \<Rightarrow> dr_capabilities_for d well | None \<Rightarrow> [])))"

definition apply_mint ::
  "('a exec_crypto_scheme) \<Rightarrow> exec_env \<Rightarrow> exec_state \<Rightarrow> cell_id \<Rightarrow> cell_id \<Rightarrow> u32 \<Rightarrow> u64 \<Rightarrow> exec_result" where
  "apply_mint E X S actor target slot amount =
     (if slot \<noteq> 0 then (Inl (TInvalidEffect ''Mint slot is not a mintable balance slot''), S)
      else case cell_at S target of
        None \<Rightarrow> (Inl (TCellNotFound target), S)
      | Some holder \<Rightarrow>
     (case issuer_well_for E X (xs_ledger S) target of
        None \<Rightarrow> (Inl (TCellNotFound target), S)
      | Some well_id \<Rightarrow>
          if well_id = target
          then (Inl (TInvalidEffect ''Mint target must not be the asset's own issuer well''), S)
          else if actor = target \<or> actor = well_id
          then (Inl (TInvalidEffect ''Mint is privileged: self-mint rejected''), S)
          else
     (case ensure_well E S (c_token_id holder) well_id of
        (Inl e, S) \<Rightarrow> (Inl e, S)
      | (Inr _, S) \<Rightarrow>
          if \<not> holds_mint_authority X (xs_ledger S) actor well_id
          then (Inl (TCapabilityNotHeld actor well_id), S)
          else
     (case cell_at S target of
        None \<Rightarrow> (Inl (TCellNotFound target), S)
      | Some recip \<Rightarrow>
          if \<not> cell_is_live recip then (Inl (TInvalidEffect ''Mint recipient cell is not live''), S)
          else
     (case cell_at S well_id of
        None \<Rightarrow> (Inl (TInvalidEffect ''issuer well not found''), S)
      | Some well \<Rightarrow>
          if \<not> cell_is_live well then (Inl (TInvalidEffect ''issuer well is not live''), S)
          else
     (case get_mut S well_id of
        (None, S) \<Rightarrow> (Inl (TCellNotFound well_id), S)
      | (Some well, S) \<Rightarrow>
     (case well_debit_balance (c_state well) amount of
        (False, s) \<Rightarrow> (Inl (TInvalidEffect ''issuer well balance underflow on mint debit''),
                       put_cell S well_id (well\<lparr>c_state := s\<rparr>))
      | (True, s) \<Rightarrow>
          let S = record_entry (put_cell S well_id (well\<lparr>c_state := s\<rparr>))
                    (JSetBalance well_id (st_balance (c_state well))) in
     (case get_mut S target of
        (None, S) \<Rightarrow> (Inl (TCellNotFound target), S)
      | (Some recip, S) \<Rightarrow>
          (case credit_balance (c_state recip) amount of
             (False, s) \<Rightarrow> (Inl (TInvalidEffect ''mint recipient balance overflow on credit''),
                            put_cell S target (recip\<lparr>c_state := s\<rparr>))
           | (True, s) \<Rightarrow>
               (Inr (), record_entry (put_cell S target (recip\<lparr>c_state := s\<rparr>))
                  (JSetBalance target (st_balance (c_state recip)))))))))))))"

section \<open>Factories\<close>

definition effective_vk ::
  "('a crypto_scheme) \<Rightarrow> factory_registry \<Rightarrow> bytes32 \<Rightarrow> factory_creation_params \<Rightarrow> bytes32 option" where
  "effective_vk E R factory_vk params =
     (case fr_descriptors R factory_vk of
        None \<Rightarrow> fp_program_vk params
      | Some d \<Rightarrow>
          (case fd_child_vk_strategy d of
             Some (DerivedVk base_vk) \<Rightarrow> Some (derive_child_vk E base_vk (compute_param_hash E params))
           | Some (FromSet _) \<Rightarrow> fp_program_vk params
           | Some (FixedVk vk) \<Rightarrow> vk
           | None \<Rightarrow> fp_program_vk params))"

definition u64_field :: "u64 \<Rightarrow> field_element" where
  "u64_field v = from_bytes32 (u64_bytes v @ replicate 24 0)"

fun init_fields :: "(u32 \<times> u64) list \<Rightarrow> field_element list \<Rightarrow> field_element list" where
  "init_fields [] fs = fs"
| "init_fields ((idx, val) # rest) fs =
     init_fields rest (if unat idx < STATE_SLOTS then fs[unat idx := u64_field val] else fs)"

fun grant_target :: "cell_id \<Rightarrow> cap_target \<Rightarrow> cell_id" where
  "grant_target new_id SelfCell = new_id"
| "grant_target new_id (Specific i) = i"
| "grant_target new_id AnyCell = new_id"

definition factory_cell ::
  "('a crypto_scheme) \<Rightarrow> factory_registry \<Rightarrow> bytes32 \<Rightarrow> bytes32 \<Rightarrow> bytes32 \<Rightarrow> factory_creation_params \<Rightarrow> cell" where
  "factory_cell E R factory_vk owner_pubkey token_id params =
     (let new_id = derive_raw E owner_pubkey token_id;
          c = (case fp_mode params of
                 Hosted \<Rightarrow> new_hosted E owner_pubkey token_id
               | Sovereign \<Rightarrow> cell_new E owner_pubkey token_id);
          c = map_state (\<lambda>s. s\<lparr>st_fields := init_fields (fp_initial_fields params) (st_fields s)\<rparr>) c;
          c = (case effective_vk E R factory_vk params of
                 Some vk \<Rightarrow> c\<lparr>c_verification_key :=
                   Some \<lparr>vk_hash_bytes = vk, vk_data = bytes32_bytes vk\<rparr>\<rparr>
               | None \<Rightarrow> c);
          constraints = (case fr_descriptors R factory_vk of
                           Some d \<Rightarrow> fd_state_constraints d | None \<Rightarrow> []);
          c = (if constraints \<noteq> [] then c\<lparr>c_program := Predicate constraints\<rparr> else c)
      in map_caps (\<lambda>cs. foldl (\<lambda>cs g. snd (grant (blake3 E) cs (grant_target new_id (cg_target g))
           (cg_max_permissions g))) cs (fp_initial_caps params)) c)"

definition apply_create_cell_from_factory ::
  "('a exec_crypto_scheme) \<Rightarrow> exec_state \<Rightarrow> bytes32 \<Rightarrow> bytes32 \<Rightarrow> bytes32 \<Rightarrow> factory_creation_params \<Rightarrow>
     exec_result" where
  "apply_create_cell_from_factory E S factory_vk owner_pubkey token_id params =
     (if fp_owner_pubkey params \<noteq> owner_pubkey
      then (Inl (TInvalidEffect ''factory creation owner_pubkey must match params.owner_pubkey''), S)
      else
      (case validate_and_record E (xs_factories S) factory_vk params of
         (Inl _, R) \<Rightarrow> (Inl (TInvalidEffect ''factory creation failed''), S\<lparr>xs_factories := R\<rparr>)
       | (Inr _, R) \<Rightarrow>
           let S = S\<lparr>xs_factories := R\<rparr>;
               new_id = derive_raw E owner_pubkey token_id in
           (case insert_cell (xs_ledger S) (factory_cell E R factory_vk owner_pubkey token_id params) of
              (Inl _, L) \<Rightarrow> (Inl (TCellAlreadyExists new_id), S\<lparr>xs_ledger := L\<rparr>)
            | (Inr _, L) \<Rightarrow> (Inr (), record_entry (S\<lparr>xs_ledger := L\<rparr>) (JCreateCell new_id)))))"

section \<open>Exercising a capability\<close>

text \<open>The permission of the target cell that an inner effect needs, with the name the error reports.\<close>

fun inner_permission :: "effect \<Rightarrow> (action \<times> string) option" where
  "inner_permission (ESetField _ _ _) = Some (SetState, ''SetState'')"
| "inner_permission (ETransfer _ _ _) = Some (Send, ''Send'')"
| "inner_permission (EIncrementNonce _) = Some (IncrementNonce, ''IncrementNonce'')"
| "inner_permission (EGrantCapability _ _ _) = Some (Delegate, ''Delegate'')"
| "inner_permission (ERevokeCapability _ _) = Some (Delegate, ''Delegate'')"
| "inner_permission (ESetPermissions _ _) = Some (SetPermissions, ''SetPermissions'')"
| "inner_permission (ESetVerificationKey _ _) = Some (SetVerificationKey, ''SetVerificationKey'')"
| "inner_permission (ESetProgram _ _) = Some (SetVerificationKey, ''SetProgram'')"
| "inner_permission _ = None"

fun foreign_source :: "cell_id \<Rightarrow> effect \<Rightarrow> cell_id option" where
  "foreign_source cap_target (ETransfer src _ _) = (if src \<noteq> cap_target then Some src else None)"
| "foreign_source cap_target _ = None"

definition inner_check ::
  "exec_env \<Rightarrow> ledger \<Rightarrow> cell_id \<Rightarrow> capability_ref \<Rightarrow> cell \<Rightarrow> effect \<Rightarrow> turn_error + unit" where
  "inner_check X L actor cap tcell inner =
     (case foreign_source (cr_target cap) inner of
        Some src \<Rightarrow>
          check_cross_cell_permission X L actor src Send ''Send (Transfer.from via ExerciseViaCapability)''
            EFFECT_TRANSFER
      | None \<Rightarrow>
          (case inner_permission inner of
             None \<Rightarrow> Inr ()
           | Some (perm_action, name) \<Rightarrow>
               let required = for_action (c_permissions tcell) perm_action in
               if required = Impossible then Inl (TPermissionDenied (cr_target cap) name required)
               else if required \<noteq> AuthNone \<and> \<not> is_narrower_or_equal (cr_permissions cap) required
               then Inl (TPermissionDenied (cr_target cap) name required)
               else Inr ()))"

definition exercise_check ::
  "exec_env \<Rightarrow> ledger \<Rightarrow> cell_id \<Rightarrow> u32 \<Rightarrow> effect list \<Rightarrow> turn_error + cell_id" where
  "exercise_check X L actor cap_slot inner_effects =
     (case l_cells L actor of
        None \<Rightarrow> Inl (TCellNotFound actor)
      | Some actor_cell \<Rightarrow>
     (case clist_lookup (c_capabilities actor_cell) cap_slot of
        None \<Rightarrow> Inl (TCapabilityNotHeld actor 0)
      | Some cap \<Rightarrow>
          if \<not> unexpired (cr_expires_at cap) (x_block_height X)
          then Inl (TCapabilityNotHeld actor (cr_target cap))
          else
     (case (case x_revocation_channels X of
              None \<Rightarrow> Inr ()
            | Some channels \<Rightarrow>
                (case cr_breadstuff cap of
                   None \<Rightarrow> Inr ()
                 | Some b \<Rightarrow>
                     (case check_exercise_permitted channels b (x_block_height X) (x_block_height X)
                             (x_max_introduction_lifetime X) of
                        Inr _ \<Rightarrow> Inr ()
                      | Inl _ \<Rightarrow> if channels b \<noteq> None then Inl (TCapabilityRevoked actor b (x_block_height X))
                                 else Inr ()))) of
        Inl e \<Rightarrow> Inl e
      | Inr _ \<Rightarrow>
     (case l_cells L (cr_target cap) of
        None \<Rightarrow> Inl (TCellNotFound (cr_target cap))
      | Some tcell \<Rightarrow>
          if (case cr_stored_epoch cap of
                Some stored \<Rightarrow> stored < st_delegation_epoch (c_state tcell) | None \<Rightarrow> False)
          then Inl (TCapabilityStale actor (cr_target cap) (the (cr_stored_epoch cap))
                 (st_delegation_epoch (c_state tcell)))
          else if cr_permissions cap = Impossible
          then Inl (TPermissionDenied (cr_target cap) ''ExerciseViaCapability'' Impossible)
          else
     (case check_all (inner_check X L actor cap tcell) inner_effects of
        Inl e \<Rightarrow> Inl e
      | Inr _ \<Rightarrow>
     (case (if cr_allowed_effects cap = None then Inr ()
            else check_all (\<lambda>inner.
              if is_effect_permitted (cr_allowed_effects cap) (effect_kind_mask inner) then Inr ()
              else Inl (TFacetViolation actor (cr_target cap) cap_slot ''inner effect''
                     (case cr_allowed_effects cap of Some m \<Rightarrow> m | None \<Rightarrow> 0))) inner_effects) of
        Inl e \<Rightarrow> Inl e
      | Inr _ \<Rightarrow> Inr (cr_target cap)))))))"

section \<open>Dispatch\<close>

text \<open>Every effect but \<open>ExerciseViaCapability\<close>, which runs the dispatcher on its inner effects.\<close>

definition apply_basic_effect ::
  "('a exec_crypto_scheme) \<Rightarrow> exec_env \<Rightarrow> bytes32 \<Rightarrow> cell_id \<Rightarrow> cell_id \<Rightarrow> effect \<Rightarrow> exec_state \<Rightarrow> exec_result" where
  "apply_basic_effect E X created_by_turn action_target actor eff S =
     (case eff of
        ESetField i index value \<Rightarrow> apply_set_field E X S action_target actor i index value
      | ETransfer src dst amount \<Rightarrow> apply_transfer X S action_target actor src dst amount
      | EGrantCapability src dst cap \<Rightarrow>
          apply_grant_capability E X S action_target actor src dst cap created_by_turn
      | ERevokeCapability i slot \<Rightarrow> apply_revoke_capability E X S action_target actor i slot
      | EEmitEvent i topic data \<Rightarrow> apply_emit_event S i topic data
      | EIncrementNonce i \<Rightarrow> apply_increment_nonce X S action_target actor i
      | ECreateCell public_key token_id balance \<Rightarrow> apply_create_cell E S public_key token_id balance
      | ESetPermissions i perms \<Rightarrow> apply_set_permissions X S action_target actor i perms
      | ESetVerificationKey i vk \<Rightarrow> apply_set_verification_key E X S action_target actor i vk
      | ESetProgram i program \<Rightarrow> apply_set_program X S action_target actor i program
      | ENoteSpend nullifier root value asset_type prf vc \<Rightarrow>
          apply_note_spend E X S nullifier root value asset_type prf vc
      | ENoteCreate commitment value _ _ vc rp \<Rightarrow> apply_note_create E S commitment value vc rp
      | ESpawnWithDelegation pk tok stale \<Rightarrow> apply_spawn_with_delegation E X S action_target pk tok stale
      | ERefreshDelegation child snapshot \<Rightarrow> apply_refresh_delegation E X S action_target child snapshot
      | ERevokeDelegation child \<Rightarrow> apply_revoke_delegation S action_target child
      | EBridgeMint p \<Rightarrow> apply_bridge_mint E X S p
      | EIntroduce introducer recipient target perms \<Rightarrow>
          apply_introduce E X S introducer recipient target perms created_by_turn
      | EPipelinedSend _ _ _ \<Rightarrow>
          (Inl (TPreconditionFailed ''unresolved PipelinedSend; turn must be executed within a pipeline''), S)
      | EExerciseViaCapability _ _ \<Rightarrow> (Inr (), S)
      | EMakeSovereign i \<Rightarrow> apply_make_sovereign E S action_target i
      | ECreateCellFromFactory vk owner tok params \<Rightarrow> apply_create_cell_from_factory E S vk owner tok params
      | ERefusal i offered reason _ \<Rightarrow> apply_refusal E X S action_target actor i offered reason
      | ECellSeal target reason \<Rightarrow> apply_cell_seal X S action_target target reason
      | ECellUnseal target \<Rightarrow> apply_cell_unseal S action_target target
      | ECellDestroy target cert \<Rightarrow> apply_cell_destroy E S action_target target cert
      | EBurn target slot amount \<Rightarrow> apply_burn E X S actor target slot amount
      | EAttenuateCapability i slot narrower effs expiry \<Rightarrow>
          apply_attenuate_capability E S actor i slot narrower effs expiry
      | EReceiptArchive h att \<Rightarrow> apply_receipt_archive E X S action_target h att
      | EMint target slot amount \<Rightarrow> apply_mint E X S actor target slot amount
      | EShieldedTransfer payload \<Rightarrow> apply_shielded_transfer E S payload
      | ECustom i _ _ \<Rightarrow> (Inl (TCustomEffectRequiresProofCarryingTurn i), S))"

function apply_effect ::
  "('a exec_crypto_scheme) \<Rightarrow> exec_env \<Rightarrow> bytes32 \<Rightarrow> cell_id \<Rightarrow> cell_id \<Rightarrow> effect \<Rightarrow> exec_state \<Rightarrow> exec_result"
and apply_effects ::
  "('a exec_crypto_scheme) \<Rightarrow> exec_env \<Rightarrow> bytes32 \<Rightarrow> cell_id \<Rightarrow> cell_id \<Rightarrow> effect list \<Rightarrow> exec_state \<Rightarrow> exec_result"
where
  "apply_effect E X turn action_target actor eff S =
     (case eff of
        EExerciseViaCapability cap_slot inner_effects \<Rightarrow>
          (case exercise_check X (xs_ledger S) actor cap_slot inner_effects of
             Inl e \<Rightarrow> (Inl e, S)
           | Inr cap_target \<Rightarrow> apply_effects E X turn cap_target actor inner_effects S)
      | _ \<Rightarrow> apply_basic_effect E X turn action_target actor eff S)"
| "apply_effects E X turn action_target actor [] S = (Inr (), S)"
| "apply_effects E X turn action_target actor (eff # effs) S =
     (case apply_effect E X turn action_target actor eff S of
        (Inl e, S) \<Rightarrow> (Inl e, S)
      | (Inr _, S) \<Rightarrow> apply_effects E X turn action_target actor effs S)"
  by pat_completeness auto
termination
  by (relation "measure (\<lambda>x. case x of Inl (E, X, t, at, a, eff, S) \<Rightarrow> 2 * size eff
       | Inr (E, X, t, at, a, effs, S) \<Rightarrow> 2 * size_list size effs + 1)") auto

declare apply_effect.simps [simp del]

end
