(* ===== verification/ExecutorSteps.thy ===== *)
theory ExecutorSteps
  imports Executor
begin

text \<open>
  The executor as a step relation. \<open>cell_write\<close> lists the writes a handler makes to one cell, each
  with the journal entry that goes with it; \<open>exec_step\<close> lists the elementary steps of a handler: a
  borrow, a journalled write, the creation of a cell, making one sovereign, and the insertions into
  the append-only sets. Every handler is a run of such steps, whether it succeeds or fails
  (\<open>apply_effects_steps\<close>), so an invariant of the executor is proved once per kind of step.
\<close>

section \<open>Writes to one cell\<close>

text \<open>
  The two powers a handler may use: writing balances (and removing cells), and adding authority
  (granting a capability, installing a delegation). A relation for the powers \<open>B\<close> has no other steps.
\<close>

datatype power = MovesValue | AddsAuthority

inductive cell_write :: "('a exec_crypto_scheme) \<Rightarrow> power set \<Rightarrow> cell_id \<Rightarrow> cell \<Rightarrow> journal_entry \<Rightarrow> cell \<Rightarrow> bool" for E B i c where
  field: "cell_is_live c \<Longrightarrow> unat index < STATE_SLOTS \<Longrightarrow>
    cell_write E B i c (JSetField i index (Some (st_fields (c_state c) ! unat index)))
      (map_state (\<lambda>s. snd (set_field s (unat index) v)) c)"
| overflow: "cell_is_live c \<Longrightarrow> \<not> unat index < STATE_SLOTS \<Longrightarrow>
    cell_write E B i c (JSetField i index (get_field_ext (c_state c) index))
      (map_state (\<lambda>s. snd (set_field_ext E s index v)) c)"
| balance: "MovesValue \<in> B \<Longrightarrow> cell_write E B i c (JSetBalance i (st_balance (c_state c))) (map_state (\<lambda>s. s\<lparr>st_balance := b\<rparr>) c)"
| nonce: "cell_is_live c \<Longrightarrow>
    cell_write E B i c (JSetNonce i (st_nonce (c_state c))) (map_state (\<lambda>s. s\<lparr>st_nonce := n\<rparr>) c)"
| perms: "cell_is_live c \<Longrightarrow>
    cell_write E B i c (JSetPermissions i (c_permissions c)) (c\<lparr>c_permissions := p\<rparr>)"
| vk: "cell_is_live c \<Longrightarrow>
    cell_write E B i c (JSetVerificationKey i (c_verification_key c)) (c\<lparr>c_verification_key := k\<rparr>)"
| program: "cell_is_live c \<Longrightarrow>
    cell_write E B i c (JSetProgram i (c_program c)) (c\<lparr>c_program := g\<rparr>)"
| delegation: "d = None \<or> AddsAuthority \<in> B \<Longrightarrow>
    cell_write E B i c (JSetDelegation i (c_delegation c)) (c\<lparr>c_delegation := d\<rparr>)"
| epoch: "cell_write E B i c (JSetDelegationEpoch i (st_delegation_epoch (c_state c)))
    (map_state (\<lambda>s. s\<lparr>st_delegation_epoch := n\<rparr>) c)"
| lifecycle: "lifecycle_step E c c' \<Longrightarrow> cell_write E B i c (JSetLifecycle i (c_lifecycle c)) c'"
| grant: "AddsAuthority \<in> B \<Longrightarrow> slotted entry \<Longrightarrow> clist_push (c_capabilities c) entry = (Some slot, cs) \<Longrightarrow>
    cell_write E B i c (JGrantCapability i slot) (c\<lparr>c_capabilities := cs\<rparr>)"
| revoke: "clist_lookup (c_capabilities c) slot = Some old \<Longrightarrow>
    cell_write E B i c (JRevokeCapability i old)
      (c\<lparr>c_capabilities := snd (clist_revoke (c_capabilities c) slot)\<rparr>)"
| attenuate: "clist_lookup (c_capabilities c) slot = Some prior \<Longrightarrow>
    attenuate_in_place leaf (c_capabilities c) slot p e x = (Some h, cs) \<Longrightarrow>
    cell_write E B i c (JAttenuateCapability i slot (cr_permissions prior) (cr_allowed_effects prior)
        (cr_expires_at prior)) (c\<lparr>c_capabilities := cs\<rparr>)"

lemma lifecycle_step_upd: "lifecycle_step E c c' \<Longrightarrow> \<exists>l. c' = c\<lparr>c_lifecycle := l\<rparr>"
  by (cases rule: lifecycle_step.cases)
     (auto simp: seal_def unseal_def destroy_def archive_def split: cell_lifecycle.splits sum.splits if_splits)

lemma cell_write_frame:
  assumes "cell_write E B i c e c'"
  shows "c_id c' = c_id c" "c_public_key c' = c_public_key c" "c_token_id c' = c_token_id c"
    "c_leaf_cache c' = c_leaf_cache c" "c_delegate c' = c_delegate c" "c_mode c' = c_mode c"
  using assms by (cases rule: cell_write.cases; auto simp: map_state_def dest!: lifecycle_step_upd)+

text \<open>A write that leaves no trace but cleared caches.\<close>

definition silent :: "cell \<Rightarrow> cell \<Rightarrow> bool" where
  "silent c c' \<longleftrightarrow> (\<exists>m k. c' = c\<lparr>c_leaf_cache := m,
     c_capabilities := (c_capabilities c)\<lparr>cs_cap_root_cache := k\<rparr>\<rparr>)"

lemma silent_refl [simp]: "silent c c"
proof -
  have "c = c\<lparr>c_leaf_cache := c_leaf_cache c,
      c_capabilities := (c_capabilities c)\<lparr>cs_cap_root_cache := cs_cap_root_cache (c_capabilities c)\<rparr>\<rparr>"
    by simp
  then show ?thesis unfolding silent_def by blast
qed

lemma silent_memo [simp]: "silent c (invalidate_leaf_cache c)"
proof -
  have "invalidate_leaf_cache c = c\<lparr>c_leaf_cache := None,
      c_capabilities := (c_capabilities c)\<lparr>cs_cap_root_cache := cs_cap_root_cache (c_capabilities c)\<rparr>\<rparr>"
    by (simp add: invalidate_leaf_cache_def)
  then show ?thesis unfolding silent_def by blast
qed

lemma silent_caps [simp]: "silent c (c\<lparr>c_capabilities := invalidate_cap_root_cache (c_capabilities c)\<rparr>)"
proof -
  have "c\<lparr>c_capabilities := invalidate_cap_root_cache (c_capabilities c)\<rparr> =
      c\<lparr>c_leaf_cache := c_leaf_cache c,
        c_capabilities := (c_capabilities c)\<lparr>cs_cap_root_cache := cap_root_cache_store None\<rparr>\<rparr>"
    by (simp add: invalidate_cap_root_cache_def)
  then show ?thesis unfolding silent_def by blast
qed

lemma silentD:
  assumes "silent c c'"
  shows "journal_view c' = journal_view c" "c_id c' = c_id c" "c_lifecycle c' = c_lifecycle c"
    "c_state c' = c_state c" "c_token_id c' = c_token_id c"
    "cs_refs (c_capabilities c') = cs_refs (c_capabilities c)"
    "clist_wf (c_capabilities c') = clist_wf (c_capabilities c)"
proof -
  obtain m k where "c' = c\<lparr>c_leaf_cache := m, c_capabilities := (c_capabilities c)\<lparr>cs_cap_root_cache := k\<rparr>\<rparr>"
    using assms by (auto simp: silent_def)
  then show "journal_view c' = journal_view c" "c_id c' = c_id c" "c_lifecycle c' = c_lifecycle c"
    "c_state c' = c_state c" "c_token_id c' = c_token_id c"
    "cs_refs (c_capabilities c') = cs_refs (c_capabilities c)"
    "clist_wf (c_capabilities c') = clist_wf (c_capabilities c)"
    by (simp_all add: journal_view_def clist_lookup_def [abs_def] clist_wf_def)
qed

section \<open>Elementary steps\<close>

definition fields_sealed :: "('a crypto_scheme) \<Rightarrow> cell \<Rightarrow> bool" where
  "fields_sealed E c \<longleftrightarrow> st_fields_root (c_state c) = fields_root8 E (st_fields_map (c_state c))"

definition no_authority :: "cell \<Rightarrow> bool" where
  "no_authority c \<longleftrightarrow> cs_refs (c_capabilities c) = [] \<and> c_delegation c = None"

definition fresh_cell :: "('a crypto_scheme) \<Rightarrow> cell \<Rightarrow> bool" where
  "fresh_cell E c \<longleftrightarrow> st_balance (c_state c) = 0 \<and> clist_wf (c_capabilities c) \<and> fields_sealed E c"

inductive exec_step :: "('a exec_crypto_scheme) \<Rightarrow> power set \<Rightarrow> exec_state \<Rightarrow> exec_state \<Rightarrow> bool" for E B where
  borrow: "exec_step E B S (snd (get_mut S i))"
| quiet: "cell_at S i = Some c \<Longrightarrow> silent (invalidate_leaf_cache c) c' \<Longrightarrow> c_leaf_cache c' = None \<Longrightarrow>
    exec_step E B S (with_cell i (\<lambda>_. c') S)"
| cell: "cell_at S i = Some c \<Longrightarrow> cell_write E B i (invalidate_leaf_cache c) e c' \<Longrightarrow>
    exec_step E B S (record_entry (with_cell i (\<lambda>_. c') S) e)"
| create: "cell_at S (c_id c) = None \<Longrightarrow> fresh_cell E c \<Longrightarrow> no_authority c \<or> AddsAuthority \<in> B \<Longrightarrow>
    exec_step E B S (record_entry (S\<lparr>xs_ledger := snd (insert_cell (xs_ledger S) c)\<rparr>) (JCreateCell (c_id c)))"
| sovereign: "MovesValue \<in> B \<Longrightarrow> cell_at S i = Some c \<Longrightarrow> cell_is_live c \<Longrightarrow>
    exec_step E B S (record_entry (S\<lparr>xs_ledger := snd (make_sovereign E (xs_ledger S) i)\<rparr>) (JMakeSovereign c))"
| nullifier: "\<not> append_contains (xs_nullifiers S) n \<Longrightarrow>
    exec_step E B S (record_entry (S\<lparr>xs_nullifiers := snd (nullifier_insert (xs_nullifiers S) n v)\<rparr>)
      (JNoteNullifierInserted n))"
| commitment: "\<not> append_contains (xs_commitments S) n \<Longrightarrow>
    exec_step E B S (record_entry (S\<lparr>xs_commitments := snd (commitment_insert (xs_commitments S) n v)\<rparr>)
      (JNoteCommitmentInserted n))"
| revoked: "\<not> append_contains (xs_revoked S) n \<Longrightarrow>
    exec_step E B S (record_entry (S\<lparr>xs_revoked := snd (revoked_insert (xs_revoked S) n v)\<rparr>)
      (JRevocationInserted n))"
| bridged: "\<not> bridged_contains (xs_bridged S) n \<Longrightarrow>
    exec_step E B S (record_entry (S\<lparr>xs_bridged := snd (bridged_insert (xs_bridged S) n)\<rparr>)
      (JBridgedNullifierInserted n))"
| note_spend: "exec_step E B S (record_entry S JNoteSpend)"
| note_create: "exec_step E B S (record_entry S JNoteCreate)"
| event: "exec_step E B S (record_entry S (JEventEmitted i topic data))"
| factories: "exec_step E B S (S\<lparr>xs_factories := R\<rparr>)"

abbreviation exec_steps :: "('a exec_crypto_scheme) \<Rightarrow> power set \<Rightarrow> exec_state \<Rightarrow> exec_state \<Rightarrow> bool" where
  "exec_steps E B \<equiv> (exec_step E B)\<^sup>*\<^sup>*"

lemma steps_then: "exec_steps E B S T \<Longrightarrow> exec_step E B T U \<Longrightarrow> exec_steps E B S U"
  by (rule rtranclp.rtrancl_into_rtrancl)

lemma steps_one: "exec_step E B S T \<Longrightarrow> exec_steps E B S T"
  by (rule r_into_rtranclp)

lemma cell_write_mono: "cell_write E B i c e c' \<Longrightarrow> B \<subseteq> B' \<Longrightarrow> cell_write E B' i c e c'"
  by (induction rule: cell_write.induct) (blast intro: cell_write.intros)+

lemma exec_step_mono: "exec_step E B S T \<Longrightarrow> B \<subseteq> B' \<Longrightarrow> exec_step E B' S T"
  by (induction rule: exec_step.induct) (blast intro: exec_step.intros dest: cell_write_mono)+

lemma exec_steps_mono: "exec_steps E B S T \<Longrightarrow> B \<subseteq> B' \<Longrightarrow> exec_steps E B' S T"
  by (induction rule: rtranclp_induct) (auto intro: steps_then exec_step_mono)

lemma state_simps [simp]:
  "cell_at (record_entry S e) = cell_at S" "xs_journal (record_entry S e) = xs_journal S @ [e]"
  "xs_ledger (record_entry S e) = xs_ledger S" "xs_nullifiers (record_entry S e) = xs_nullifiers S"
  "xs_commitments (record_entry S e) = xs_commitments S" "xs_revoked (record_entry S e) = xs_revoked S"
  "xs_bridged (record_entry S e) = xs_bridged S" "xs_factories (record_entry S e) = xs_factories S"
  "cell_at (put_cell S i c) = (cell_at S)(i \<mapsto> c)" "xs_journal (put_cell S i c) = xs_journal S"
  "xs_nullifiers (put_cell S i c) = xs_nullifiers S" "xs_commitments (put_cell S i c) = xs_commitments S"
  "xs_revoked (put_cell S i c) = xs_revoked S" "xs_bridged (put_cell S i c) = xs_bridged S"
  "xs_factories (put_cell S i c) = xs_factories S"
  "put_cell (record_entry S e) i c = record_entry (put_cell S i c) e"
  by (simp_all add: record_entry_def put_cell_def journal_push_def)

lemma get_mut_simps [simp]:
  "xs_journal (snd (get_mut S i)) = xs_journal S" "xs_nullifiers (snd (get_mut S i)) = xs_nullifiers S"
  "xs_commitments (snd (get_mut S i)) = xs_commitments S" "xs_revoked (snd (get_mut S i)) = xs_revoked S"
  "xs_bridged (snd (get_mut S i)) = xs_bridged S" "xs_factories (snd (get_mut S i)) = xs_factories S"
  by (simp_all add: get_mut_def Let_def)

lemma cell_at_get_mut:
  "cell_at (snd (get_mut S i)) =
     (case cell_at S i of None \<Rightarrow> cell_at S | Some c \<Rightarrow> (cell_at S)(i \<mapsto> invalidate_leaf_cache c))"
  by (simp add: get_mut_def Let_def)

lemma get_mut_fst: "fst (get_mut S i) = map_option invalidate_leaf_cache (cell_at S i)"
  by (simp add: get_mut_def Let_def split: option.splits)

lemma get_mutD:
  assumes "get_mut S i = (r, T)"
  shows "r = cell_at T i" "T = snd (get_mut S i)" "exec_steps E B S T"
    "cell_at S i = None \<longleftrightarrow> r = None"
proof -
  show T: "T = snd (get_mut S i)" using assms by simp
  show "r = cell_at T i" using assms by (auto simp: get_mut_def Let_def)
  show "exec_steps E B S T" unfolding T by (rule r_into_rtranclp, rule exec_step.borrow)
  have "r = fst (get_mut S i)" using assms by simp
  then show "cell_at S i = None \<longleftrightarrow> r = None" by (simp add: get_mut_fst)
qed

lemma put_borrowed:
  "cell_at S i = Some c \<Longrightarrow> put_cell (snd (get_mut S i)) i c' = with_cell i (\<lambda>_. c') S"
  by (simp add: with_cell_def put_cell_def get_mut_def get_mut_with_def Let_def)

lemma get_mut_SomeD:
  assumes "get_mut S i = (Some c, T)"
  shows "cell_at S i \<noteq> None" "cell_at S i = Some d \<Longrightarrow> c = invalidate_leaf_cache d"
    and "put_cell T i c' = with_cell i (\<lambda>_. c') S"
proof -
  obtain d where d: "cell_at S i = Some d" using get_mutD(4) [OF assms] by auto
  then show "cell_at S i \<noteq> None" by simp
  have "Some c = fst (get_mut S i)" using assms by simp
  then show "cell_at S i = Some d \<Longrightarrow> c = invalidate_leaf_cache d" for d by (simp add: get_mut_fst)
  show "put_cell T i c' = with_cell i (\<lambda>_. c') S" using put_borrowed [OF d, of c'] assms by simp
qed

lemma with_cell_const:
  "cell_at S i = Some c \<Longrightarrow> with_cell i f S = with_cell i (\<lambda>_. f (invalidate_leaf_cache c)) S"
  by (simp add: with_cell_def get_mut_with_def Let_def)

lemma record_with_cell: "with_cell i f (record_entry S e) = record_entry (with_cell i f S) e"
  by (simp add: with_cell_def record_entry_def)

lemma touch_twice: "touch_value i (touch_value i p) = touch_value i p"
  by (cases p) auto

lemma with_cell_twice:
  assumes "cell_at S i = Some c"
  shows "with_cell i (\<lambda>_. c2) (with_cell i (\<lambda>_. c1) S) = with_cell i (\<lambda>_. c2) S"
proof -
  have rp: "journal_cell ((journal_cell L i)\<lparr>l_cells := m, l_pending := p\<rparr>) i =
      (journal_cell L i)\<lparr>l_cells := m, l_pending := p\<rparr>" for L m p
    by (auto simp: journal_cell_def split: option.splits)
  show ?thesis
    using assms
    by (simp add: with_cell_def get_mut_with_def Let_def rp touch_twice)
qed

text \<open>The steps a handler takes through a borrowed cell.\<close>

lemma steps_none: "get_mut S i = (None, T) \<Longrightarrow> exec_steps E B S T"
  by (rule get_mutD(3))

lemma steps_some: "get_mut S i = (Some c, T) \<Longrightarrow> exec_steps E B S T"
  by (rule get_mutD(3))

lemma steps_quiet:
  assumes "get_mut S i = (Some c, T)" "silent c c'" "c_leaf_cache c' = c_leaf_cache c"
  shows "exec_steps E B S (put_cell T i c')"
proof -
  obtain d where d: "cell_at S i = Some d" "c = invalidate_leaf_cache d"
    using get_mut_SomeD(1,2) [OF assms(1)] by blast
  show ?thesis
    unfolding get_mut_SomeD(3) [OF assms(1)]
    using exec_step.quiet [OF d(1), of c' E B] assms(2,3)
    by (simp add: d(2) steps_one) (simp add: invalidate_leaf_cache_def steps_one)
qed

lemma steps_cell:
  assumes "get_mut S i = (Some c, T)" "cell_write E B i c e c'"
  shows "exec_steps E B S (record_entry (put_cell T i c') e)"
proof -
  obtain d where d: "cell_at S i = Some d" "c = invalidate_leaf_cache d"
    using get_mut_SomeD(1,2) [OF assms(1)] by blast
  show ?thesis
    unfolding get_mut_SomeD(3) [OF assms(1)]
    using exec_step.cell [OF d(1), of E B e c'] assms(2) by (simp add: d(2) steps_one)
qed

lemma steps_create:
  assumes "insert_cell (xs_ledger S) c = (Inr j, L)" "fresh_cell E c" "i = c_id c"
    "no_authority c \<or> AddsAuthority \<in> B"
  shows "exec_steps E B S (record_entry (S\<lparr>xs_ledger := L\<rparr>) (JCreateCell i))"
proof -
  have "cell_at S (c_id c) = None" and "L = snd (insert_cell (xs_ledger S) c)"
    using assms(1) by (auto simp: insert_cell_def Let_def split: if_splits)
  then show ?thesis using exec_step.create [of S c E B] assms(2-4) by auto
qed

lemma insert_refused: "insert_cell L c = (Inl e, L') \<Longrightarrow> L' = L"
  by (auto simp: insert_cell_def Let_def split: if_splits)

section \<open>Every handler is a run of steps\<close>

lemmas handler_splits = sum.splits prod.splits option.splits if_splits

lemma set_field_steps: "exec_steps E B S (snd (apply_set_field E X S at actor i index v))"
  by (auto simp: apply_set_field_def Let_def split: handler_splits
      intro: steps_none steps_some steps_cell cell_write.intros)

lemma set_permissions_steps: "exec_steps E B S (snd (apply_set_permissions X S at actor i p))"
  by (auto simp: apply_set_permissions_def Let_def split: handler_splits
      intro: steps_none steps_some steps_cell cell_write.intros)

lemma set_verification_key_steps: "exec_steps E B S (snd (apply_set_verification_key E X S at actor i k))"
  by (auto simp: apply_set_verification_key_def Let_def split: handler_splits
      intro: steps_none steps_some steps_cell cell_write.intros)

lemma set_program_steps: "exec_steps E B S (snd (apply_set_program X S at actor i g))"
  by (auto simp: apply_set_program_def Let_def split: handler_splits
      intro: steps_none steps_some steps_cell cell_write.intros)

lemma emit_event_steps: "exec_steps E B S (snd (apply_emit_event S i topic data))"
  by (auto simp: apply_emit_event_def split: handler_splits intro: exec_step.event)

lemma increment_nonce_state: "\<exists>n. increment_nonce s = (ok, s\<lparr>st_nonce := n\<rparr>)" if "increment_nonce s = (ok, s')"
  using that by (auto simp: increment_nonce_def split: option.splits intro: exI [of _ "st_nonce s"])

lemma write_nonce:
  assumes "cell_is_live c" "increment_nonce (c_state c) = (ok, s)"
  shows "cell_write E B i c (JSetNonce i (st_nonce (c_state c))) (c\<lparr>c_state := s\<rparr>)"
proof -
  obtain n where "s = (c_state c)\<lparr>st_nonce := n\<rparr>" using increment_nonce_state [OF assms(2)] assms(2) by auto
  then show ?thesis using cell_write.nonce [OF assms(1), of E B i n] by (simp add: map_state_def)
qed

lemma increment_nonce_steps: "exec_steps E B S (snd (apply_increment_nonce X S at actor i))"
  by (auto simp: apply_increment_nonce_def Let_def split: handler_splits
      intro: steps_none steps_some steps_cell write_nonce)

lemma put_put [simp]: "put_cell (put_cell S i c) i d = put_cell S i d"
  by (simp add: put_cell_def)

lemma write_ext:
  "cell_is_live c \<Longrightarrow> \<not> unat index < STATE_SLOTS \<Longrightarrow> s = c_state c \<Longrightarrow>
    cell_write E B i c (JSetField i index (get_field_ext s index))
      (map_state (\<lambda>s. snd (set_field_ext E s index v)) c)"
  by (simp add: cell_write.overflow)

lemma refusal_steps: "exec_steps E B S (snd (apply_refusal E X S at actor i offered reason))"
proof -
  have key: "\<not> unat REFUSAL_AUDIT_EXT_KEY < STATE_SLOTS"
    by (simp add: REFUSAL_AUDIT_EXT_KEY_def STATE_SLOTS_def)
  have two: "exec_steps E B S (record_entry (record_entry (put_cell T i c2) e1) e2)"
    if g: "get_mut S i = (Some c, T)" and w: "cell_write E B i c e1 c1" "cell_write E B i c1 e2 c2" for T c c1 c2 e1 e2
  proof -
    have m: "c_leaf_cache c = None" using get_mut_SomeD(1,2) [OF g] by (auto simp: invalidate_leaf_cache_def)
    then have c1: "invalidate_leaf_cache c1 = c1"
      using cell_write_frame(4) [OF w(1)] by (simp add: invalidate_leaf_cache_def)
    let ?U = "record_entry (put_cell T i c1) e1"
    have "exec_step E B ?U (record_entry (with_cell i (\<lambda>_. c2) ?U) e2)"
      by (rule exec_step.cell [of _ _ c1]) (use w(2) c1 in simp_all)
    moreover obtain d where "cell_at S i = Some d" using get_mut_SomeD(1) [OF g] by blast
    then have "with_cell i (\<lambda>_. c2) ?U = record_entry (put_cell T i c2) e1"
      unfolding get_mut_SomeD(3) [OF g] by (simp add: record_with_cell with_cell_twice)
    ultimately show ?thesis using steps_then [OF steps_cell [OF g w(1)]] by simp
  qed
  show ?thesis
    by (auto simp: apply_refusal_def Let_def split: handler_splits
        intro: steps_none steps_some steps_cell write_nonce intro!: two write_ext key)
       (simp add: cell_is_live_def)
qed

lemma bare_with_balance [simp]: "no_authority (with_balance E pk tok b)"
  by (simp add: no_authority_def with_balance_def clist_new_def)

lemma fresh_with_balance: "fresh_cell E (with_balance E pk tok 0)"
  by (simp add: fresh_cell_def with_balance_def cell_state_new_def fields_sealed_def)

lemma create_cell_steps: "exec_steps E B S (snd (apply_create_cell E S pk tok b))"
  by (auto simp: apply_create_cell_def Let_def split: handler_splits dest: insert_refused
      intro: steps_create fresh_with_balance bare_with_balance)

lemma transition_refused_same:
  "seal c r h = (Inl e, c') \<Longrightarrow> c' = c" "unseal c = (Inl e, c') \<Longrightarrow> c' = c"
  "destroy E c cert = (Inl e, c') \<Longrightarrow> c' = c" "archive E c att = (Inl e, c') \<Longrightarrow> c' = c"
  by (auto simp: seal_def unseal_def destroy_def archive_def split: cell_lifecycle.splits sum.splits if_splits)

lemma steps_refused: "get_mut S i = (Some c, T) \<Longrightarrow> exec_steps E B S (put_cell T i c)"
  by (rule steps_quiet [OF _ silent_refl refl])

lemma lifecycle_steps:
  "exec_steps E B S (snd (apply_cell_seal X S at i r))"
  "exec_steps E B S (snd (apply_cell_unseal S at i))"
  "exec_steps E B S (snd (apply_cell_destroy E S at i cert))"
  "exec_steps E B S (snd (apply_receipt_archive E X S at h att))"
  by (auto simp: apply_cell_seal_def apply_cell_unseal_def apply_cell_destroy_def apply_receipt_archive_def
      split: handler_splits dest!: transition_refused_same
      intro: steps_none steps_some steps_refused steps_cell cell_write.lifecycle lifecycle_step.intros)

lemma make_sovereign_hosted:
  "l_cells L i = Some c \<Longrightarrow> make_sovereign E L i = (Inr c, snd (make_sovereign E L i))"
  by (auto simp: make_sovereign_def ledger_remove_def Let_def split: option.splits prod.splits)

lemma make_sovereign_steps: "exec_steps E {MovesValue} S (snd (apply_make_sovereign E S at i))"
proof (cases "cell_at S i")
  case (Some c)
  obtain L where L: "make_sovereign E (xs_ledger S) i = (Inr c, L)"
    using make_sovereign_hosted [OF Some] by blast
  show ?thesis using exec_step.sovereign [OF singletonI Some, of E] Some L
    by (cases "i = at") (auto simp: apply_make_sovereign_def)
qed (auto simp: apply_make_sovereign_def)

lemma push_full: "clist_push cs e = (None, cs') \<Longrightarrow> cs' = invalidate_cap_root_cache cs"
  by (cases rule: clist_push_cases [of cs e]) auto

lemma write_grant:
  "grant_ref_provenanced H (c_capabilities c) cap turn = (Some slot, cs) \<Longrightarrow>
     cell_write E {AddsAuthority} i c (JGrantCapability i slot) (c\<lparr>c_capabilities := cs\<rparr>)"
  "grant_provenanced H (c_capabilities c) t p b x m ep prov turn = (Some slot, cs) \<Longrightarrow>
     cell_write E {AddsAuthority} i c (JGrantCapability i slot) (c\<lparr>c_capabilities := cs\<rparr>)"
  by (auto simp: grant_ref_provenanced_def grant_provenanced_def intro!: cell_write.grant [OF singletonI, rotated])

lemma steps_grant_full:
  "get_mut S i = (Some c, T) \<Longrightarrow> grant_ref_provenanced H (c_capabilities c) cap turn = (None, cs) \<Longrightarrow>
     exec_steps E B S (put_cell T i (c\<lparr>c_capabilities := cs\<rparr>))"
  "get_mut S i = (Some c, T) \<Longrightarrow> grant_provenanced H (c_capabilities c) t p b x m ep prov turn = (None, cs) \<Longrightarrow>
     exec_steps E B S (put_cell T i (c\<lparr>c_capabilities := cs\<rparr>))"
  by (auto simp: grant_ref_provenanced_def grant_provenanced_def dest!: push_full intro: steps_quiet)

lemma grant_capability_steps:
  "exec_steps E {AddsAuthority} S (snd (apply_grant_capability E X S at actor src dst cap turn))"
  by (auto simp: apply_grant_capability_def split: handler_splits
      intro: steps_none steps_some steps_cell write_grant steps_grant_full)

lemma introduce_steps: "exec_steps E {AddsAuthority} S (snd (apply_introduce E X S a b t p turn))"
  by (auto simp: apply_introduce_def Let_def split: handler_splits
      intro: steps_none steps_some steps_cell write_grant steps_grant_full)

lemma attenuate_refused: "attenuate_in_place leaf cs slot p e x = (None, cs') \<Longrightarrow> cs' = cs"
  by (auto simp: attenuate_in_place_def Let_def split: option.splits if_splits)

lemma attenuate_capability_steps:
  "exec_steps E B S (snd (apply_attenuate_capability E S actor i slot p e x))"
  by (auto simp: apply_attenuate_capability_def split: handler_splits dest!: attenuate_refused
      intro: steps_none steps_some steps_refused steps_cell cell_write.attenuate)

lemma insert_revocation_steps: "exec_steps E B S T \<Longrightarrow> exec_steps E B S (insert_revocation T k h)"
  by (auto simp: insert_revocation_def intro: steps_then exec_step.revoked)

lemma revoke_missing:
  assumes "clist_lookup cs slot = None"
  shows "snd (clist_revoke cs slot) = invalidate_cap_root_cache cs"
proof -
  have "filter (\<lambda>r. cr_slot r \<noteq> slot) (cs_refs cs) = cs_refs cs"
    using assms by (auto simp: clist_lookup_def find_None_iff filter_id_conv)
  then show ?thesis by (simp add: clist_revoke_def Let_def)
qed

lemma revoke_capability_steps: "exec_steps E B S (snd (apply_revoke_capability E X S at actor i slot))"
  by (auto simp: apply_revoke_capability_def Let_def revoke_missing split: handler_splits
      intro: steps_none steps_quiet steps_cell cell_write.revoke insert_revocation_steps)

lemma spawn_steps: "exec_steps E {AddsAuthority} S (snd (apply_spawn_with_delegation E X S at pk tok stale))"
  by (auto simp: apply_spawn_with_delegation_def Let_def split: handler_splits dest: insert_refused
      intro!: steps_create [OF _ _ _ disjI2])
     (simp_all add: fresh_cell_def with_balance_def cell_state_new_def fields_sealed_def)

lemma refresh_steps: "exec_steps E {AddsAuthority} S (snd (apply_refresh_delegation E X S at child snap))"
proof (cases "cell_at S at")
  case (Some d)
  have "c_delegation c = c_delegation d" if "get_mut S at = (Some c, T)" for c T
  proof -
    have "Some c = fst (get_mut S at)" using that by simp
    then show ?thesis by (simp add: get_mut_fst Some invalidate_leaf_cache_def)
  qed
  then have "exec_steps E {AddsAuthority} S (record_entry (put_cell T at (c\<lparr>c_delegation := r\<rparr>)) (JSetDelegation at (c_delegation d)))"
    if "get_mut S at = (Some c, T)" for c T r
    using steps_cell [OF that cell_write.delegation [OF disjI2 [OF singletonI]], of E r] that by simp
  then show ?thesis
    using Some by (auto simp: apply_refresh_delegation_def Let_def split: handler_splits intro: steps_none)
qed (auto simp: apply_refresh_delegation_def)

lemma bump_state: "bump_delegation_epoch s = (ok, s') \<Longrightarrow> \<exists>n. s' = s\<lparr>st_delegation_epoch := n\<rparr>"
  by (auto simp: bump_delegation_epoch_def split: option.splits intro: exI [of _ "st_delegation_epoch s"])

lemma write_epoch:
  assumes "bump_delegation_epoch (c_state c) = (ok, s)"
  shows "cell_write E B i c (JSetDelegationEpoch i (st_delegation_epoch (c_state c))) (c\<lparr>c_state := s\<rparr>)"
proof -
  obtain n where "s = (c_state c)\<lparr>st_delegation_epoch := n\<rparr>" using bump_state [OF assms] by blast
  then show ?thesis using cell_write.epoch [of E B i c n] by (simp add: map_state_def)
qed

lemma revoke_delegation_steps: "exec_steps E B S (snd (apply_revoke_delegation S at child))"
proof (cases "cell_at S child")
  case (Some d)
  have keep: "c_delegation c = c_delegation d"
    if "get_mut S at = (Some p, T)" "get_mut (record_entry (put_cell T at (p\<lparr>c_state := s\<rparr>)) e) child = (Some c, U)"
    for p c T U s e
  proof -
    have p: "cell_at S at \<noteq> None" "Some p = fst (get_mut S at)" and T: "T = snd (get_mut S at)"
      using that(1) get_mutD(4) [OF that(1)] by simp_all
    then obtain q where q: "cell_at S at = Some q" "p = invalidate_leaf_cache q" by (auto simp: get_mut_fst)
    have "Some c = fst (get_mut (record_entry (put_cell T at (p\<lparr>c_state := s\<rparr>)) e) child)" using that(2) by simp
    then show ?thesis using Some q
      by (cases "child = at") (auto simp: get_mut_fst T cell_at_get_mut invalidate_leaf_cache_def)
  qed
  have last: "exec_steps E B S (record_entry (put_cell U child (c\<lparr>c_delegation := None\<rparr>)) (JSetDelegation child (c_delegation d)))"
    if a: "get_mut S at = (Some p, T)" "bump_delegation_epoch (c_state p) = (ok, s)"
      and u: "get_mut (record_entry (put_cell T at (p\<lparr>c_state := s\<rparr>))
        (JSetDelegationEpoch at (st_delegation_epoch (c_state p)))) child = (Some c, U)" for p c T U ok s
    using rtranclp_trans [OF steps_cell [OF a(1) write_epoch [OF a(2)]] steps_cell [OF u cell_write.delegation [OF disjI1 [OF refl]], of E B]]
      keep [OF a(1) u] by simp
  have mid: "exec_steps E B S U"
    if a: "get_mut S at = (Some p, T)" "bump_delegation_epoch (c_state p) = (ok, s)"
      and u: "get_mut (record_entry (put_cell T at (p\<lparr>c_state := s\<rparr>))
        (JSetDelegationEpoch at (st_delegation_epoch (c_state p)))) child = (r, U)" for p r T U ok s
    using rtranclp_trans [OF steps_cell [OF a(1) write_epoch [OF a(2)]] get_mutD(3) [OF u, of E B]] .
  show ?thesis
    using Some by (auto simp: apply_revoke_delegation_def Let_def split: handler_splits
        intro: steps_none last mid steps_cell write_epoch)
qed (auto simp: apply_revoke_delegation_def)

lemma insert_new: "\<not> append_contains s k \<Longrightarrow> append_insert err s k v \<noteq> (Inl e, s')"
  by (simp add: append_insert_def append_contains_def)

lemma note_spend_steps: "exec_steps E B S (snd (apply_note_spend E X S n r v a p vc))"
proof -
  have step: "exec_steps E B S (record_entry (record_entry (S\<lparr>xs_nullifiers := ns\<rparr>) (JNoteNullifierInserted n)) JNoteSpend)"
    if "\<not> append_contains (xs_nullifiers S) n" "nullifier_insert (xs_nullifiers S) n v = (res, ns)" for ns res
    using steps_then [OF steps_one [OF exec_step.nullifier [OF that(1), of E B v]] exec_step.note_spend]
      that(2) by simp
  have "nullifier_insert (xs_nullifiers S) n v \<noteq> (Inl e, ns)" if "\<not> append_contains (xs_nullifiers S) n" for e ns
    using insert_new [OF that] by (simp add: nullifier_insert_def)
  then show ?thesis
    by (auto simp: apply_note_spend_def Let_def split: handler_splits intro: step)
qed

lemma note_create_steps: "exec_steps E B S (snd (apply_note_create E S n v vc rp))"
proof -
  have step: "exec_steps E B S (record_entry (record_entry (S\<lparr>xs_commitments := ns\<rparr>) (JNoteCommitmentInserted n)) JNoteCreate)"
    if "\<not> append_contains (xs_commitments S) n" "commitment_insert (xs_commitments S) n v = (res, ns)" for ns res
    using steps_then [OF steps_one [OF exec_step.commitment [OF that(1), of E B v]] exec_step.note_create]
      that(2) by simp
  have "commitment_insert (xs_commitments S) n v \<noteq> (Inl e, ns)" if "\<not> append_contains (xs_commitments S) n" for e ns
    using insert_new [OF that] by (simp add: commitment_insert_def)
  then show ?thesis
    by (auto simp: apply_note_create_def Let_def split: handler_splits intro: step)
qed

lemma bridge_mint_steps: "exec_steps E B S (snd (apply_bridge_mint E X S p))"
proof (cases "bridged_contains (xs_bridged S) (pn_nullifier p)")
  case True
  then have "bridged_insert (xs_bridged S) (pn_nullifier p) = (False, xs_bridged S)"
    by (simp add: bridged_contains_def bridged_insert_def)
  then show ?thesis by (auto simp: apply_bridge_mint_def split: handler_splits)
next
  case False
  then obtain ns where "bridged_insert (xs_bridged S) (pn_nullifier p) = (True, ns)"
    by (simp add: bridged_contains_def bridged_insert_def)
  then show ?thesis using exec_step.bridged [OF False, of E B]
    by (auto simp: apply_bridge_mint_def split: handler_splits)
qed

text \<open>
  \<open>verify_stark_side\<close> of the shielded pool rejects a transfer that spends one nullifier twice, and
  distinct field nullifiers have distinct keys (collision resistance of the hash).
\<close>

definition shielded_distinct :: "('a exec_crypto_scheme) \<Rightarrow> bool" where
  "shielded_distinct E \<longleftrightarrow>
     (\<forall>p nfs. shielded_nullifiers E p = Some nfs \<longrightarrow> distinct (map (shielded_nullifier_key E) nfs))"

abbreviation record_spent :: "exec_state \<Rightarrow> bytes32 \<Rightarrow> exec_state" where
  "record_spent S nf \<equiv> record_entry (record_entry S (JNoteNullifierInserted nf)) JNoteSpend"

lemma insert_shielded_ok:
  assumes "distinct nfs" "\<forall>nf \<in> set nfs. \<not> append_contains ns nf"
  shows "fst (insert_shielded nfs ns) = Inr ()"
  using assms
proof (induction nfs arbitrary: ns)
  case (Cons nf nfs)
  obtain ns' where ns': "nullifier_insert ns nf 0 = (Inr (), ns')"
    using Cons.prems by (simp add: nullifier_insert_def append_insert_def append_contains_def)
  moreover have "\<forall>k \<in> set nfs. \<not> append_contains ns' k"
    using Cons.prems ns' by (auto simp: nullifier_insert_def append_insert_def append_contains_def split: if_splits)
  ultimately show ?case using Cons by simp
qed simp

lemma insert_shielded_steps:
  "insert_shielded nfs (xs_nullifiers S) = (Inr u, ns) \<Longrightarrow>
     exec_steps E B S (foldl record_spent (S\<lparr>xs_nullifiers := ns\<rparr>) nfs)"
proof (induction nfs arbitrary: S)
  case (Cons nf nfs)
  obtain ns' where ns': "nullifier_insert (xs_nullifiers S) nf 0 = (Inr (), ns')"
    and rest: "insert_shielded nfs ns' = (Inr u, ns)"
    using Cons.prems by (auto split: prod.splits sum.splits)
  have new: "\<not> append_contains (xs_nullifiers S) nf"
    using ns' by (auto simp: nullifier_insert_def append_insert_def append_contains_def split: if_splits)
  let ?T = "record_spent (S\<lparr>xs_nullifiers := ns'\<rparr>) nf"
  have "exec_steps E B S ?T"
    using steps_then [OF steps_one [OF exec_step.nullifier [OF new, of E B 0]] exec_step.note_spend] ns' by simp
  moreover have "exec_steps E B ?T (foldl record_spent (?T\<lparr>xs_nullifiers := ns\<rparr>) nfs)"
    using Cons.IH [of ?T] rest by simp
  moreover have "?T\<lparr>xs_nullifiers := ns\<rparr> = record_spent (S\<lparr>xs_nullifiers := ns\<rparr>) nf"
    by (simp add: record_entry_def)
  ultimately show ?case by (metis (no_types, lifting) foldl_Cons rtranclp_trans)
qed auto

lemma shielded_steps:
  assumes "shielded_distinct E"
  shows "exec_steps E B S (snd (apply_shielded_transfer E S p))"
proof (cases "shielded_nullifiers E p")
  case (Some fnfs)
  let ?nfs = "map (shielded_nullifier_key E) fnfs"
  show ?thesis
  proof (cases "list_ex (append_contains (xs_nullifiers S)) ?nfs")
    case False
    have "distinct ?nfs" using assms Some by (simp add: shielded_distinct_def)
    then have "fst (insert_shielded ?nfs (xs_nullifiers S)) = Inr ()"
      using False by (intro insert_shielded_ok) (auto simp: list_ex_iff)
    then obtain ns where ns: "insert_shielded ?nfs (xs_nullifiers S) = (Inr (), ns)"
      by (metis prod.collapse)
    show ?thesis
      using insert_shielded_steps [OF ns, of E B] False Some ns by (simp add: apply_shielded_transfer_def Let_def)
  qed (use Some in \<open>simp add: apply_shielded_transfer_def Let_def\<close>)
qed (simp add: apply_shielded_transfer_def)

lemma write_balance:
  assumes "s = (c_state c)\<lparr>st_balance := b\<rparr>"
  shows "cell_write E {MovesValue} i c (JSetBalance i (st_balance (c_state c))) (c\<lparr>c_state := s\<rparr>)"
  using cell_write.balance [OF singletonI, of E i c b] assms by (simp add: map_state_def)

lemma balance_op_state:
  "debit_balance s a = (ok, s') \<Longrightarrow> \<exists>b. s' = s\<lparr>st_balance := b\<rparr>"
  "credit_balance s a = (ok, s') \<Longrightarrow> \<exists>b. s' = s\<lparr>st_balance := b\<rparr>"
  "well_debit_balance s a = (ok, s') \<Longrightarrow> \<exists>b. s' = s\<lparr>st_balance := b\<rparr>"
  by (auto simp: balance_op_defs split: option.splits if_splits intro: exI [of _ "st_balance s"])

lemma steps_with_cell:
  assumes "cell_at S i = Some c" "cell_write E {MovesValue} i (invalidate_leaf_cache c) e (f (invalidate_leaf_cache c))"
  shows "exec_steps E {MovesValue} S (record_entry (with_cell i f S) e)"
  using exec_step.cell [OF assms] with_cell_const [OF assms(1), of f] by (simp add: steps_one)

lemma cell_at_with_cell:
  "cell_at (with_cell i f S) =
     (case cell_at S i of None \<Rightarrow> cell_at S | Some c \<Rightarrow> (cell_at S)(i \<mapsto> f (invalidate_leaf_cache c)))"
  by (simp add: with_cell_def)

lemma transfer_moves:
  assumes "cell_at S src = Some a" "cell_at S dst = Some b" "src \<noteq> dst"
  shows "exec_steps E {MovesValue} S
    (with_cell dst (map_state (\<lambda>s. s\<lparr>st_balance := y\<rparr>)) (with_cell src (map_state (\<lambda>s. s\<lparr>st_balance := x\<rparr>))
      (record_entry (record_entry S (JSetBalance src (st_balance (c_state a))))
        (JSetBalance dst (st_balance (c_state b))))))"
proof -
  let ?f = "map_state (\<lambda>s. s\<lparr>st_balance := x\<rparr>)" and ?g = "map_state (\<lambda>s. s\<lparr>st_balance := y\<rparr>)"
  let ?T = "record_entry (with_cell src ?f S) (JSetBalance src (st_balance (c_state a)))"
  have st: "c_state (invalidate_leaf_cache c) = c_state c" for c
    by (simp add: invalidate_leaf_cache_def)
  have "exec_steps E {MovesValue} S ?T"
    using cell_write.balance [OF singletonI, of E src "invalidate_leaf_cache a" x]
    by (intro steps_with_cell [OF assms(1)]) (simp add: st)
  moreover have "exec_steps E {MovesValue} ?T (record_entry (with_cell dst ?g ?T) (JSetBalance dst (st_balance (c_state b))))"
    using cell_write.balance [OF singletonI, of E dst "invalidate_leaf_cache b" y] assms
    by (intro steps_with_cell [of _ dst b]) (simp_all add: st cell_at_with_cell)
  ultimately show ?thesis by (simp add: record_with_cell)
qed

lemma transfer_steps: "exec_steps E {MovesValue} S (snd (apply_transfer X S at actor src dst amount))"
  by (auto simp: apply_transfer_def Let_def split: handler_splits intro!: transfer_moves)

lemma ensure_well_steps:
  assumes "ensure_well E S tok w = (r, T)"
  shows "exec_steps E B S T"
proof -
  have "exec_steps E B S (snd (ensure_well E S tok w))"
    by (auto simp: ensure_well_def derive_issuer_well_def Let_def split: handler_splits dest: insert_refused
        intro!: steps_create fresh_with_balance) (simp_all add: with_balance_def)
  then show ?thesis using assms by simp
qed

lemma steps_balance:
  assumes "get_mut S i = (Some c, T)" "s = (c_state c)\<lparr>st_balance := b\<rparr>"
  shows "exec_steps E {MovesValue} S (record_entry (put_cell T i (c\<lparr>c_state := s\<rparr>)) (JSetBalance i (st_balance (c_state c))))"
  by (rule steps_cell [OF assms(1) write_balance [OF assms(2)]])

lemma steps_debit:
  "get_mut S i = (Some c, T) \<Longrightarrow> debit_balance (c_state c) a = (ok, s) \<Longrightarrow>
     exec_steps E {MovesValue} S (record_entry (put_cell T i (c\<lparr>c_state := s\<rparr>)) (JSetBalance i (st_balance (c_state c))))"
  "get_mut S i = (Some c, T) \<Longrightarrow> credit_balance (c_state c) a = (ok, s) \<Longrightarrow>
     exec_steps E {MovesValue} S (record_entry (put_cell T i (c\<lparr>c_state := s\<rparr>)) (JSetBalance i (st_balance (c_state c))))"
  "get_mut S i = (Some c, T) \<Longrightarrow> well_debit_balance (c_state c) a = (ok, s) \<Longrightarrow>
     exec_steps E {MovesValue} S (record_entry (put_cell T i (c\<lparr>c_state := s\<rparr>)) (JSetBalance i (st_balance (c_state c))))"
  using balance_op_state steps_balance by metis+

lemma steps_op_refused:
  "get_mut S i = (Some c, T) \<Longrightarrow> debit_balance (c_state c) a = (False, s) \<Longrightarrow>
     exec_steps E {MovesValue} S (put_cell T i (c\<lparr>c_state := s\<rparr>))"
  "get_mut S i = (Some c, T) \<Longrightarrow> credit_balance (c_state c) a = (False, s) \<Longrightarrow>
     exec_steps E {MovesValue} S (put_cell T i (c\<lparr>c_state := s\<rparr>))"
  "get_mut S i = (Some c, T) \<Longrightarrow> well_debit_balance (c_state c) a = (False, s) \<Longrightarrow>
     exec_steps E {MovesValue} S (put_cell T i (c\<lparr>c_state := s\<rparr>))"
  by (auto dest!: balance_op_refused intro: steps_refused)

text \<open>The second half of a burn, and of a mint.\<close>

lemma burn_credit_steps:
  assumes "exec_steps E {MovesValue} S T"
  shows "get_mut T w = (None, U) \<Longrightarrow> exec_steps E {MovesValue} S U"
    and "get_mut T w = (Some c, U) \<Longrightarrow> exec_steps E {MovesValue} S U"
    and "get_mut T w = (Some c, U) \<Longrightarrow> credit_balance (c_state c) a = (True, s) \<Longrightarrow>
      exec_steps E {MovesValue} S (record_entry (put_cell U w (c\<lparr>c_state := s\<rparr>)) (JSetBalance w (st_balance (c_state c))))"
    and "get_mut T w = (Some c, U) \<Longrightarrow> credit_balance (c_state c) a = (False, s) \<Longrightarrow>
      exec_steps E {MovesValue} S (put_cell U w (c\<lparr>c_state := s\<rparr>))"
  using assms by (blast intro: rtranclp_trans steps_none steps_some steps_debit steps_op_refused)+

lemma burn_steps: "exec_steps E {MovesValue} S (snd (apply_burn E X S actor target slot amount))"
proof -
  have paid: "exec_steps E {MovesValue} S U"
    if "get_mut S target = (Some c, T)" "debit_balance (c_state c) amount = (True, s)"
      "ensure_well E (record_entry (put_cell T target (c\<lparr>c_state := s\<rparr>))
        (JSetBalance target (st_balance (c_state c)))) tok w = (r, U)" for c T s tok w r U
    using rtranclp_trans [OF steps_debit(1) [OF that(1,2)] ensure_well_steps [OF that(3)]] .
  show ?thesis
    by (auto simp: apply_burn_def Let_def split: handler_splits bool.splits
        intro: steps_none steps_op_refused paid burn_credit_steps [OF paid])
qed

lemma mint_steps: "exec_steps E {MovesValue} S (snd (apply_mint E X S actor target slot amount))"
proof -
  have owed: "exec_steps E {MovesValue} S (record_entry (put_cell U w (c\<lparr>c_state := s\<rparr>)) (JSetBalance w (st_balance (c_state c))))"
    if "ensure_well E S tok w = (r, T)" "get_mut T w = (Some c, U)"
      "well_debit_balance (c_state c) amount = (True, s)" for tok w r T U c s
    using rtranclp_trans [OF ensure_well_steps [OF that(1)] steps_debit(3) [OF that(2,3)]] .
  have refused: "exec_steps E {MovesValue} S (put_cell U w (c\<lparr>c_state := s\<rparr>))"
    if "ensure_well E S tok w = (r, T)" "get_mut T w = (Some c, U)"
      "well_debit_balance (c_state c) amount = (False, s)" for tok w r T U c s
    using rtranclp_trans [OF ensure_well_steps [OF that(1)] steps_op_refused(3) [OF that(2,3)]] .
  have missing: "exec_steps E {MovesValue} S U" if "ensure_well E S tok w = (r, T)" "get_mut T j = (c, U)" for tok w r T U j c
    using rtranclp_trans [OF ensure_well_steps [OF that(1)] get_mutD(3) [OF that(2)]] .
  show ?thesis
    by (auto simp: apply_mint_def Let_def split: handler_splits bool.splits
        intro: ensure_well_steps owed refused missing burn_credit_steps [OF owed])
qed

lemma granted_wf:
  "clist_wf cs \<Longrightarrow> clist_wf (foldl (\<lambda>cs g. snd (grant H cs (t g) (p g))) cs gs)"
proof (induction gs arbitrary: cs)
  case (Cons g gs)
  have "clist_wf (snd (grant H cs (t g) (p g)))"
    unfolding grant_def grant_with_breadstuff_def by (rule clist_push_wf [OF Cons.prems]) simp
  then show ?case using Cons.IH by simp
qed simp

lemma factory_cell_simps:
  "c_id (factory_cell E R fvk owner tok params) = derive_raw E owner tok"
  "c_state (factory_cell E R fvk owner tok params) =
     (cell_state_new E 0)\<lparr>st_fields := init_fields (fp_initial_fields params) (st_fields (cell_state_new E 0))\<rparr>"
  "c_capabilities (factory_cell E R fvk owner tok params) =
     foldl (\<lambda>cs g. snd (grant (blake3 E) cs (grant_target (derive_raw E owner tok) (cg_target g))
       (cg_max_permissions g))) clist_new (fp_initial_caps params)"
  "c_lifecycle (factory_cell E R fvk owner tok params) = Live"
  "c_mode (factory_cell E R fvk owner tok params) = fp_mode params"
  "c_verification_key (factory_cell E R fvk owner tok params) =
     map_option (\<lambda>vk. \<lparr>vk_hash_bytes = vk, vk_data = bytes32_bytes vk\<rparr>) (effective_vk E R fvk params)"
  by (simp_all add: factory_cell_def map_state_def map_caps_def new_hosted_def cell_new_def Let_def
      split: cell_mode.splits option.splits)

lemma fresh_factory_cell: "fresh_cell E (factory_cell E R fvk owner tok params)"
  by (simp add: fresh_cell_def fields_sealed_def factory_cell_simps granted_wf) (simp add: cell_state_new_def)

lemma factory_steps: "exec_steps E {AddsAuthority} S (snd (apply_create_cell_from_factory E S fvk owner tok params))"
proof -
  have made: "exec_steps E {AddsAuthority} S (record_entry (S\<lparr>xs_factories := R, xs_ledger := L\<rparr>) (JCreateCell (derive_raw E owner tok)))"
    if "insert_cell (xs_ledger S) (factory_cell E R fvk owner tok params) = (Inr j, L)" for R L j owner
  proof -
    let ?T = "S\<lparr>xs_factories := R\<rparr>"
    have "exec_steps E {AddsAuthority} ?T (record_entry (?T\<lparr>xs_ledger := L\<rparr>) (JCreateCell (derive_raw E owner tok)))"
      by (rule steps_create [OF _ fresh_factory_cell [of E R fvk owner tok params] _ disjI2])
         (use that in \<open>simp_all add: factory_cell_simps\<close>)
    then show ?thesis using rtranclp_trans [OF steps_one [OF exec_step.factories [of E "{AddsAuthority}" S R]]] by simp
  qed
  have refused: "exec_steps E {AddsAuthority} S (S\<lparr>xs_factories := R, xs_ledger := L\<rparr>)"
    if "insert_cell (xs_ledger S) c = (Inl j, L)" for R L j c
    using insert_refused [OF that] steps_one [OF exec_step.factories [of E "{AddsAuthority}" S R]] by simp
  show ?thesis
    by (auto simp: apply_create_cell_from_factory_def Let_def split: handler_splits
        intro: made refused exec_step.factories)
qed

lemmas handler_steps =
  set_field_steps transfer_steps grant_capability_steps revoke_capability_steps emit_event_steps
  increment_nonce_steps create_cell_steps set_permissions_steps set_verification_key_steps
  set_program_steps note_spend_steps note_create_steps spawn_steps refresh_steps
  revoke_delegation_steps bridge_mint_steps introduce_steps make_sovereign_steps factory_steps
  refusal_steps lifecycle_steps burn_steps attenuate_capability_steps mint_steps

text \<open>The powers that the handler of an effect uses.\<close>

fun powers :: "effect \<Rightarrow> power set" where
  "powers (ETransfer _ _ _) = {MovesValue}"
| "powers (EBurn _ _ _) = {MovesValue}"
| "powers (EMint _ _ _) = {MovesValue}"
| "powers (EMakeSovereign _) = {MovesValue}"
| "powers (EGrantCapability _ _ _) = {AddsAuthority}"
| "powers (EIntroduce _ _ _ _) = {AddsAuthority}"
| "powers (ESpawnWithDelegation _ _ _) = {AddsAuthority}"
| "powers (ERefreshDelegation _ _) = {AddsAuthority}"
| "powers (ECreateCellFromFactory _ _ _ _) = {AddsAuthority}"
| "powers _ = {}"

lemma basic_effect_powers:
  assumes "shielded_distinct E"
  shows "exec_steps E (powers eff) S (snd (apply_basic_effect E X turn at actor eff S))"
  unfolding apply_basic_effect_def
  by (cases eff) (simp_all only: powers.simps effect.case snd_conv handler_steps shielded_steps [OF assms(1)]
      rtranclp.rtrancl_refl)

lemma basic_effect_steps:
  assumes "shielded_distinct E" "powers eff \<subseteq> B"
  shows "exec_steps E B S (snd (apply_basic_effect E X turn at actor eff S))"
  by (rule exec_steps_mono [OF basic_effect_powers [OF assms(1)] assms(2)])

lemma apply_effect_cases:
  "apply_effect E X turn at actor (EExerciseViaCapability slot inner) S =
     (case exercise_check X (xs_ledger S) actor slot inner of
        Inl e \<Rightarrow> (Inl e, S) | Inr t \<Rightarrow> apply_effects E X turn t actor inner S)"
  "(\<forall>slot inner. eff \<noteq> EExerciseViaCapability slot inner) \<Longrightarrow>
     apply_effect E X turn at actor eff S = apply_basic_effect E X turn at actor eff S"
  by (simp add: apply_effect.simps) (cases eff; simp add: apply_effect.simps)

section \<open>Properties of a list of effects\<close>

text \<open>
  \<open>all_basic P\<close> holds of an effect when \<open>P\<close> holds of it, or of every effect inside it when it exercises
  a capability.
\<close>

fun all_basic :: "(effect \<Rightarrow> bool) \<Rightarrow> effect \<Rightarrow> bool" where
  "all_basic P (EExerciseViaCapability slot inner) = list_all (all_basic P) inner"
| "all_basic P eff = P eff"

lemma all_basic_iff:
  "(\<forall>slot inner. eff \<noteq> EExerciseViaCapability slot inner) \<Longrightarrow> all_basic P eff = P eff"
  by (cases eff) auto

text \<open>
  What holds of every single handler, across success and failure, and composes along successful
  handlers, holds of a whole list of effects with its nested exercises.
\<close>

locale effect_rel =
  fixes E :: "'a exec_crypto_scheme" and X :: exec_env and turn :: bytes32 and P :: "effect \<Rightarrow> bool"
    and R :: "exec_state \<Rightarrow> turn_error + unit \<Rightarrow> exec_state \<Rightarrow> bool"
  assumes refl: "R S r S"
    and trans: "R S (Inr ()) T \<Longrightarrow> R T r U \<Longrightarrow> R S r U"
    and basic: "P eff \<Longrightarrow> apply_basic_effect E X turn target actor eff S = (r, T) \<Longrightarrow> R S r T"
begin

lemma effect_of_effects:
  assumes "\<And>slot inner target S r T. eff = EExerciseViaCapability slot inner \<Longrightarrow>
      list_all (all_basic P) inner \<Longrightarrow> apply_effects E X turn target actor inner S = (r, T) \<Longrightarrow> R S r T"
    and "all_basic P eff" "apply_effect E X turn target actor eff S = (r, T)"
  shows "R S r T"
proof (cases "\<exists>slot inner. eff = EExerciseViaCapability slot inner")
  case True
  then obtain slot inner where "eff = EExerciseViaCapability slot inner" by blast
  then show ?thesis using assms refl by (auto simp: apply_effect_cases(1) split: sum.splits)
next
  case False
  then show ?thesis using assms(2,3) basic by (simp add: all_basic_iff apply_effect_cases(2))
qed

lemma effects:
  "list_all (all_basic P) effs \<Longrightarrow> apply_effects E X turn target actor effs S = (r, T) \<Longrightarrow> R S r T"
proof (induction "size_list size effs" arbitrary: effs target S r T rule: less_induct)
  case less
  show ?case
  proof (cases effs)
    case Nil
    then show ?thesis using less.prems refl by simp
  next
    case (Cons eff rest)
    obtain q U where step: "apply_effect E X turn target actor eff S = (q, U)" by fastforce
    have "R S q U"
    proof (rule effect_of_effects [OF _ _ step])
      show "all_basic P eff" using less.prems(1) Cons by simp
      fix slot inner target' S' r' T'
      assume "eff = EExerciseViaCapability slot inner" "list_all (all_basic P) inner"
        "apply_effects E X turn target' actor inner S' = (r', T')"
      then show "R S' r' T'" using less.hyps [of inner] Cons by simp
    qed
    moreover have "R U r T" if "q = Inr ()"
      using less.hyps [of rest] less.prems Cons step that by simp
    ultimately show ?thesis using less.prems(2) Cons step trans by (cases q) auto
  qed
qed

end

interpretation step_run: effect_rel E X turn "\<lambda>eff. powers eff \<subseteq> B"
  "\<lambda>S r T. shielded_distinct E \<longrightarrow> exec_steps E B S T" for E X turn B
proof
  fix S T :: exec_state and eff target actor and r :: "turn_error + unit"
  assume "powers eff \<subseteq> B" "apply_basic_effect E X turn target actor eff S = (r, T)"
  then show "shielded_distinct E \<longrightarrow> exec_steps E B S T"
    using basic_effect_steps [of E eff B S X turn target actor] by auto
qed auto

lemma all_basic_True: "all_basic (\<lambda>_. True) eff"
  by (induction eff) (auto simp: list_all_iff)

lemma apply_effects_steps:
  assumes "shielded_distinct E" "apply_effects E X turn target actor effs S = (r, T)"
  shows "exec_steps E UNIV S T"
  using step_run.effects [where B = UNIV, OF _ assms(2)] assms(1)
  by (simp add: list_all_iff all_basic_True)

end
