(* ===== verification/ExecutorUndo.thy ===== *)
theory ExecutorUndo
  imports ExecutorSteps
begin

text \<open>
  What the journal of a turn is good for: it lists every cell the effects have changed, and rolling it
  back gives the stores back as they were, whether the effects succeeded or stopped half way.
  \<open>cells_ok\<close> is the invariant this rests on: cells are stored under their id, c-lists are well formed,
  and the root of the overflow fields commits to the map it is for.
\<close>

section \<open>The invariant\<close>

definition cells_ok :: "('a crypto_scheme) \<Rightarrow> ('b exec_stores_scheme) \<Rightarrow> bool" where
  "cells_ok E S \<longleftrightarrow> (\<forall>i c. l_cells (xs_ledger S) i = Some c \<longrightarrow>
     c_id c = i \<and> clist_wf (c_capabilities c) \<and> fields_sealed E c)"

lemma cells_okD:
  assumes "cells_ok E S" "l_cells (xs_ledger S) i = Some c"
  shows "c_id c = i" "clist_wf (c_capabilities c)" "fields_sealed E c"
  using assms by (auto simp: cells_ok_def)

lemma invalidate_frame [simp]:
  "c_id (invalidate_leaf_cache c) = c_id c" "c_state (invalidate_leaf_cache c) = c_state c"
  "c_capabilities (invalidate_leaf_cache c) = c_capabilities c"
  "c_lifecycle (invalidate_leaf_cache c) = c_lifecycle c"
  "c_permissions (invalidate_leaf_cache c) = c_permissions c"
  "c_verification_key (invalidate_leaf_cache c) = c_verification_key c"
  "c_program (invalidate_leaf_cache c) = c_program c"
  "c_delegation (invalidate_leaf_cache c) = c_delegation c"
  "c_token_id (invalidate_leaf_cache c) = c_token_id c"
  "fields_sealed E (invalidate_leaf_cache c) = fields_sealed E c"
  by (simp_all add: invalidate_leaf_cache_def fields_sealed_def)

lemma cell_write_ok:
  assumes "cell_write E B i c e c'" "clist_wf (c_capabilities c)" "fields_sealed E c"
  shows "clist_wf (c_capabilities c') \<and> fields_sealed E c'"
  using assms
proof (cases rule: cell_write.cases)
  case (lifecycle)
  then show ?thesis using assms(2,3) by (auto dest!: lifecycle_step_upd simp: fields_sealed_def)
next
  case (grant entry slot cs)
  then show ?thesis using assms(2,3) clist_push_wf [OF assms(2) grant(4)] by (simp add: fields_sealed_def)
next
  case (attenuate slot prior leaf p e x h cs)
  have "clist_wf (snd (attenuate_in_place leaf (c_capabilities c) slot p e x))"
    by (rule attenuate_in_place_wf [OF assms(2)])
  then show ?thesis using assms(3) attenuate by (simp add: fields_sealed_def)
qed (use assms(2,3) in \<open>auto simp: map_state_def fields_sealed_def set_field_def set_field_ext_def Let_def
  clist_revoke_wf\<close>)

lemma l_cells_insert:
  "l_cells (snd (insert_cell L c)) =
     (if l_cells L (c_id c) = None then (l_cells L)(c_id c \<mapsto> invalidate_leaf_cache c) else l_cells L)"
  by (simp add: insert_cell_def Let_def)

lemma l_cells_make_sovereign: "l_cells (snd (make_sovereign E L i)) = (l_cells L)(i := None)"
  by (auto simp: make_sovereign_def ledger_remove_def Let_def split: option.splits)

lemma exec_step_ok:
  assumes "exec_step E B S T" "cells_ok E S"
  shows "cells_ok E T"
  using assms(1)
proof (cases rule: exec_step.cases)
  case (borrow i)
  then show ?thesis using assms(2)
    by (auto simp: cells_ok_def cell_at_get_mut split: option.splits if_splits)
next
  case (quiet i c c')
  then show ?thesis using assms(2) silentD(2,4,7) [OF quiet(3)]
    by (auto simp: cells_ok_def cell_at_with_cell fields_sealed_def)
next
  case (cell i c e c')
  have "clist_wf (c_capabilities c')" "fields_sealed E c'" "c_id c' = i"
    using cell_write_ok [OF cell(3)] cell_write_frame(1) [OF cell(3)] cells_okD [OF assms(2) cell(2)] by simp_all
  then show ?thesis using assms(2) cell by (auto simp: cells_ok_def cell_at_with_cell)
next
  case (create c)
  then show ?thesis using assms(2) by (auto simp: cells_ok_def l_cells_insert fresh_cell_def)
qed (use assms(2) in \<open>auto simp: cells_ok_def l_cells_make_sovereign\<close>)

section \<open>Undoing one step\<close>

lemma push_lookup:
  assumes "clist_wf cs" "slotted entry" "clist_push cs entry = (Some slot, cs')"
  shows "(clist_lookup cs')(slot := None) = clist_lookup cs"
proof -
  have fresh: "clist_lookup cs slot = None" using clist_push_fresh [OF assms(1), of entry slot] assms(3) by simp
  have refs: "cs_refs cs' = cs_refs cs @ [entry slot]" using clist_push_refs [of cs entry] assms(3) by simp
  have slot: "cr_slot (entry slot) = slot" using assms(2) by (simp add: slotted_def)
  have "find P (xs @ [y]) = find P xs" if "\<not> P y" for P xs and y :: capability_ref
    using that by (induction xs) auto
  then have "clist_lookup cs' k = clist_lookup cs k" if "k \<noteq> slot" for k
    using that slot by (simp add: clist_lookup_def refs)
  then show ?thesis using fresh by (intro HOL.ext) simp
qed

lemma journal_view_state:
  "(c_state d)\<lparr>st_commitments := []\<rparr> = (c_state c)\<lparr>st_commitments := []\<rparr> \<Longrightarrow>
   d = c\<lparr>c_leaf_cache := m, c_state := s\<rparr> \<Longrightarrow> journal_view d = journal_view c"
  by (simp add: journal_view_def)

lemma journal_view_caps:
  "clist_lookup cs = clist_lookup (c_capabilities c) \<Longrightarrow>
   journal_view (c\<lparr>c_leaf_cache := m, c_capabilities := cs\<rparr>) = journal_view c"
  by (simp add: journal_view_def)

lemma undo_field_fixed:
  assumes "unat index < STATE_SLOTS"
  shows "(undo_field E index (Some (st_fields s ! unat index)) (snd (set_field s (unat index) v)))
      \<lparr>st_commitments := k\<rparr> = s\<lparr>st_commitments := k\<rparr>"
  using assms by (simp add: undo_field_def set_field_def Let_def)

lemma undo_field_ext:
  assumes "\<not> unat index < STATE_SLOTS" "st_fields_root s = fields_root8 E (st_fields_map s)"
  shows "(undo_field E index (get_field_ext s index) (snd (set_field_ext E s index v)))
      \<lparr>st_commitments := k\<rparr> = s\<lparr>st_commitments := k\<rparr>"
proof (cases "st_fields_map s index")
  case None
  then have "(st_fields_map s)(index := None) = st_fields_map s" by auto
  then show ?thesis using assms None
    by (simp add: undo_field_def set_field_ext_def get_field_ext_def reseal_fields_root_def Let_def)
next
  case (Some w)
  then have "(st_fields_map s)(index \<mapsto> w) = st_fields_map s" by auto
  then show ?thesis using assms Some
    by (simp add: undo_field_def set_field_ext_def get_field_ext_def Let_def)
qed

lemma lookup_attenuated:
  assumes "clist_lookup cs slot = Some prior" "attenuate_in_place leaf cs slot p e x = (Some h, cs')"
  shows "clist_lookup (undo_attenuate slot (cr_permissions prior) (cr_allowed_effects prior) (cr_expires_at prior) cs')
    = clist_lookup cs"
proof -
  obtain e' x' where "cs_refs cs' = update_first (\<lambda>r. cr_slot r = slot)
      (\<lambda>r. r\<lparr>cr_permissions := p, cr_allowed_effects := e', cr_expires_at := x'\<rparr>) (cs_refs cs)"
    using assms by (auto simp: attenuate_in_place_def Let_def split: if_splits option.splits)
  then have l: "clist_lookup cs' = (clist_lookup cs)(slot := map_option
      (\<lambda>r. r\<lparr>cr_permissions := p, cr_allowed_effects := e', cr_expires_at := x'\<rparr>) (clist_lookup cs slot))"
    by (intro HOL.ext) (simp add: clist_lookup_def lookup_update_first)
  show ?thesis unfolding lookup_undo_attenuate l using assms(1) by (intro HOL.ext) simp
qed

lemma cell_write_undo:
  assumes "cell_write E B i c e c'" "clist_wf (c_capabilities c)" "fields_sealed E c"
  shows "\<exists>f. (\<forall>U :: exec_state. undo_entry E e U = with_cell i f U) \<and>
    journal_view (f (invalidate_leaf_cache c')) = journal_view c"
  using assms(1)
proof (cases rule: cell_write.cases)
  case (field index v)
  show ?thesis unfolding field
    by (rule exI [of _ "map_state (undo_field E index (Some (st_fields (c_state c) ! unat index)))"])
       (simp add: map_state_def journal_view_def invalidate_leaf_cache_def undo_field_fixed [OF field(4)])
next
  case (overflow index v)
  show ?thesis unfolding overflow
    by (rule exI [of _ "map_state (undo_field E index (get_field_ext (c_state c) index))"])
       (simp add: map_state_def journal_view_def invalidate_leaf_cache_def
         undo_field_ext [OF overflow(4) assms(3) [unfolded fields_sealed_def]])
next
  case (lifecycle)
  then obtain l where "c' = c\<lparr>c_lifecycle := l\<rparr>" using lifecycle_step_upd by blast
  then show ?thesis unfolding lifecycle
    by (intro exI [of _ "\<lambda>d. d\<lparr>c_lifecycle := c_lifecycle c\<rparr>"])
       (simp add: journal_view_def invalidate_leaf_cache_def)
next
  case (grant entry slot cs)
  show ?thesis unfolding grant
    by (rule exI [of _ "map_caps (\<lambda>cs. snd (clist_revoke cs slot))"])
       (simp add: map_caps_def journal_view_def invalidate_leaf_cache_def lookup_revoke
         push_lookup [OF assms(2) grant(4,5)])
next
  case (revoke slot old)
  have "cr_slot old = slot" using revoke(3) by (auto simp: clist_lookup_def find_Some_iff)
  then have "clist_lookup (clist_restore (snd (clist_revoke (c_capabilities c) slot)) old) = clist_lookup (c_capabilities c)"
    using revoke(3) by (intro HOL.ext) (simp add: lookup_restore lookup_revoke)
  then show ?thesis unfolding revoke
    by (intro exI [of _ "map_caps (\<lambda>cs. clist_restore cs old)"])
       (simp add: map_caps_def journal_view_def invalidate_leaf_cache_def)
next
  case (attenuate slot prior leaf p e' x h cs)
  show ?thesis unfolding attenuate
    by (rule exI [of _ "map_caps (undo_attenuate slot (cr_permissions prior) (cr_allowed_effects prior) (cr_expires_at prior))"])
       (simp add: map_caps_def journal_view_def invalidate_leaf_cache_def lookup_attenuated [OF attenuate(3,4)])
next
  case (balance b)
  show ?thesis unfolding balance
    by (rule exI [of _ "map_state (\<lambda>s. s\<lparr>st_balance := st_balance (c_state c)\<rparr>)"])
       (simp add: map_state_def journal_view_def invalidate_leaf_cache_def)
next
  case (nonce n)
  show ?thesis unfolding nonce
    by (rule exI [of _ "map_state (\<lambda>s. s\<lparr>st_nonce := st_nonce (c_state c)\<rparr>)"])
       (simp add: map_state_def journal_view_def invalidate_leaf_cache_def)
next
  case (epoch n)
  show ?thesis unfolding epoch
    by (rule exI [of _ "map_state (\<lambda>s. s\<lparr>st_delegation_epoch := st_delegation_epoch (c_state c)\<rparr>)"])
       (simp add: map_state_def journal_view_def invalidate_leaf_cache_def)
next
  case (perms p)
  show ?thesis unfolding perms
    by (rule exI [of _ "\<lambda>d. d\<lparr>c_permissions := c_permissions c\<rparr>"])
       (simp add: journal_view_def invalidate_leaf_cache_def)
next
  case (vk k)
  show ?thesis unfolding vk
    by (rule exI [of _ "\<lambda>d. d\<lparr>c_verification_key := c_verification_key c\<rparr>"])
       (simp add: journal_view_def invalidate_leaf_cache_def)
next
  case (program g)
  show ?thesis unfolding program
    by (rule exI [of _ "\<lambda>d. d\<lparr>c_program := c_program c\<rparr>"])
       (simp add: journal_view_def invalidate_leaf_cache_def)
next
  case (delegation d)
  show ?thesis unfolding delegation
    by (rule exI [of _ "\<lambda>d. d\<lparr>c_delegation := c_delegation c\<rparr>"])
       (simp add: journal_view_def invalidate_leaf_cache_def)
qed

section \<open>Undoing a run\<close>

text \<open>Cells that no entry of the journal names are unchanged up to cleared caches.\<close>

definition untouched :: "exec_state \<Rightarrow> ledger_journal \<Rightarrow> exec_state \<Rightarrow> bool" where
  "untouched S J T \<longleftrightarrow>
     (\<forall>i. i \<notin> set (touched_cells J) \<longrightarrow> rel_option silent (cell_at S i) (cell_at T i))"

lemma silent_trans: "silent a b \<Longrightarrow> silent b c \<Longrightarrow> silent a c"
  unfolding silent_def by (elim exE) (simp, blast)

lemma untouched_trans:
  assumes "untouched S J T" "untouched T K U"
  shows "untouched S (J @ K) U"
proof -
  have "rel_option silent (cell_at S i) (cell_at U i)"
    if "rel_option silent (cell_at S i) (cell_at T i)" "rel_option silent (cell_at T i) (cell_at U i)" for i
    using that by (cases "cell_at S i"; cases "cell_at T i"; cases "cell_at U i") (auto intro: silent_trans)
  then show ?thesis using assms by (auto simp: untouched_def set_touched_cells)
qed

lemma untouched_eq:
  assumes "\<And>i. i \<notin> set (touched_cells J) \<Longrightarrow> cell_at T i = cell_at S i"
  shows "untouched S J T"
  using assms by (auto simp: untouched_def option.rel_refl)

definition journalled :: "('a exec_crypto_scheme) \<Rightarrow> exec_state \<Rightarrow> exec_state \<Rightarrow> bool" where
  "journalled E S T \<longleftrightarrow>
     (\<exists>J. xs_journal T = xs_journal S @ J \<and> undoable E S J T \<and> untouched S J T)"

lemma journalledI:
  "xs_journal T = xs_journal S @ J \<Longrightarrow> undoable E S J T \<Longrightarrow> untouched S J T \<Longrightarrow> journalled E S T"
  unfolding journalled_def by blast

lemma sets_view_with_cell [simp]: "sets_view (with_cell i f S) = sets_view S"
  by (simp add: sets_view_def with_cell_def)

lemma sets_view_record [simp]: "sets_view (record_entry S e) = sets_view S"
  by (simp add: sets_view_def)

lemma touched_one: "set (touched_cells [e]) = set_option (entry_cell e)"
  by (auto simp: set_touched_cells)

lemma cell_write_entry:
  assumes "cell_write E B i c e c'"
  shows "entry_cell e = Some i"
  using assms by (cases rule: cell_write.cases) auto

lemma insert_undo:
  assumes "as_entries s k = None"
  shows "(as_entries (snd (append_insert err s k v)))(k := None) = as_entries s"
  using assms by (auto simp: append_insert_def)

lemma undoable_insert:
  assumes "stores_view (undo_entry E e T) = stores_view S" "cell_at T = cell_at S"
    "xs_journal T = xs_journal S @ [e]"
  shows "journalled E S T"
  by (rule journalledI [OF assms(3) undoable_last [OF assms(1)]], rule untouched_eq) (simp add: assms(2))

lemma exec_step_journalled:
  assumes "exec_step E B S T" "cells_ok E S"
  shows "journalled E S T"
  using assms(1)
proof (cases rule: exec_step.cases)
  case (borrow i)
  have "cells_view (xs_ledger T) = cells_view (xs_ledger S)" unfolding borrow
    by (rule ext) (auto simp: cells_view_def cell_at_get_mut split: option.splits)
  then have "stores_view T = stores_view S" unfolding borrow by (simp add: stores_view_def sets_view_def)
  then show ?thesis
    by (intro journalledI [of _ _ "[]"] undoable_same)
       (auto simp: borrow untouched_def cell_at_get_mut option.rel_refl split: option.splits)
next
  case (quiet i c c')
  have v: "journal_view c' = journal_view c" using silentD(1) [OF quiet(3)] by simp
  have "cells_view (xs_ledger T) = cells_view (xs_ledger S)" unfolding quiet(1)
    by (rule ext) (auto simp: cells_view_def cell_at_with_cell quiet(2) v)
  then have "stores_view T = stores_view S" unfolding quiet(1) by (simp add: stores_view_def)
  moreover have "silent c c'" using silent_trans [OF silent_memo quiet(3)] .
  ultimately show ?thesis
    by (intro journalledI [of _ _ "[]"] undoable_same)
       (auto simp: quiet(1,2) with_cell_def untouched_def option.rel_refl)
next
  case (cell i c e c')
  note ok = cells_okD [OF assms(2) cell(2)]
  obtain f where f: "\<And>U :: exec_state. undo_entry E e U = with_cell i f U"
      "journal_view (f (invalidate_leaf_cache c')) = journal_view (invalidate_leaf_cache c)"
    using cell_write_undo [OF cell(3)] ok by auto
  have "undoable E S [e] T"
    by (rule undoable_write [OF f(1) cell(2), of _ c']) (simp_all add: cell(1,2) cell_at_with_cell f(2))
  then show ?thesis
    by (rule journalledI [rotated], intro untouched_eq)
       (auto simp: cell(1,2) touched_one cell_write_entry [OF cell(3)] cell_at_with_cell with_cell_def)
next
  case (create c)
  have "undoable E S [JCreateCell (c_id c)] T"
    by (rule undoable_create [OF create(2)])
       (simp_all add: create(1,2) l_cells_insert sets_view_def)
  then show ?thesis
    by (rule journalledI [rotated], intro untouched_eq) (auto simp: create(1,2) touched_one l_cells_insert)
next
  case (sovereign i c)
  have "c_id c = i" using cells_okD [OF assms(2) sovereign(3)] by simp
  then have "undoable E S [JMakeSovereign c] T"
    using sovereign(3) by (intro undoable_sovereign) (simp_all add: sovereign(1) l_cells_make_sovereign sets_view_def)
  then show ?thesis
    by (rule journalledI [rotated], intro untouched_eq)
       (auto simp: sovereign(1) \<open>c_id c = i\<close> touched_one l_cells_make_sovereign)
next
  case (nullifier n v)
  then show ?thesis
    by (intro undoable_insert [where e = "JNoteNullifierInserted n"])
       (auto simp: stores_view_def sets_view_def append_remove_entries nullifier_insert_def insert_undo append_contains_def)
next
  case (commitment n v)
  then show ?thesis
    by (intro undoable_insert [where e = "JNoteCommitmentInserted n"])
       (auto simp: stores_view_def sets_view_def append_remove_entries commitment_insert_def insert_undo append_contains_def)
next
  case (revoked n v)
  then show ?thesis
    by (intro undoable_insert [where e = "JRevocationInserted n"])
       (auto simp: stores_view_def sets_view_def append_remove_entries revoked_insert_def insert_undo append_contains_def)
next
  case (bridged n)
  then show ?thesis
    by (intro undoable_insert [where e = "JBridgedNullifierInserted n"])
       (auto simp: stores_view_def sets_view_def bridged_remove_def bridged_insert_def bridged_contains_def
         set_insort_key remove1_insort_key)
next
  case note_spend
  then show ?thesis by (intro undoable_insert [where e = JNoteSpend]) (auto simp: stores_view_def)
next
  case note_create
  then show ?thesis by (intro undoable_insert [where e = JNoteCreate]) (auto simp: stores_view_def)
next
  case (event i topic data)
  then show ?thesis by (intro undoable_insert [where e = "JEventEmitted i topic data"]) (auto simp: stores_view_def)
next
  case (factories R)
  then show ?thesis
    by (intro journalledI [of _ _ "[]"] undoable_same untouched_eq) (auto simp: stores_view_def sets_view_def)
qed

lemma journalled_refl: "journalled E S S"
  by (auto intro!: journalledI [of _ _ "[]"] undoable_same untouched_eq)

lemma journalled_trans:
  assumes "journalled E S T" "journalled E T U"
  shows "journalled E S U"
proof -
  obtain J where J: "xs_journal T = xs_journal S @ J" "undoable E S J T" "untouched S J T"
    using assms(1) by (auto simp: journalled_def)
  obtain K where K: "xs_journal U = xs_journal T @ K" "undoable E T K U" "untouched T K U"
    using assms(2) by (auto simp: journalled_def)
  show ?thesis
    by (rule journalledI [of _ _ "J @ K"])
       (simp_all add: J(1) K(1) undoable_trans [OF J(2) K(2)] untouched_trans [OF J(3) K(3)])
qed

lemma exec_steps_journalled:
  assumes "exec_steps E B S T" "cells_ok E S"
  shows "journalled E S T \<and> cells_ok E T"
  using assms(1)
proof (induction rule: rtranclp_induct)
  case base
  show ?case using assms(2) by (simp add: journalled_refl)
next
  case (step T U)
  then show ?case
    using exec_step_journalled [OF step.hyps(2)] exec_step_ok [OF step.hyps(2)] journalled_trans by blast
qed

section \<open>The journal of a turn\<close>

text \<open>A small executor state: two hosted cells, the first with a balance of 100.\<close>

definition demo_exec_crypto :: exec_crypto where
  "demo_exec_crypto = cell_crypto.extend demo_cell_crypto
     \<lparr>clist_postcard = (\<lambda>_. []), valid_point = (\<lambda>_. True), verify_range = (\<lambda>_ _. True),
      verify_note_stark = (\<lambda>_ _ _ _ _ _. True), shielded_nullifiers = (\<lambda>_. None)\<rparr>"

definition demo_env :: exec_env where
  "demo_env = \<lparr>x_block_height = 10, x_current_timestamp = 0, x_max_introduction_lifetime = 1000,
     x_issuer_wells = Map.empty, x_revocation_channels = None,
     x_proof_verifier = Some (\<lambda>_ _ _ _. True), x_last_receipt_hash = Map.empty,
     x_local_federation_id = 0, x_trusted_federation_roots = []\<rparr>"

definition demo_hosted :: "cell_id \<Rightarrow> bytes32 \<Rightarrow> int \<Rightarrow> cell" where
  "demo_hosted i tok b = (with_balance demo_exec_crypto i tok b)\<lparr>c_id := i\<rparr>"

definition demo_exec :: exec_state where
  "demo_exec = \<lparr>xs_ledger = (ledger_new demo_exec_crypto)
       \<lparr>l_cells := [1 \<mapsto> demo_hosted 1 7 100, 2 \<mapsto> demo_hosted 2 7 5]\<rparr>,
     xs_bridged = [], xs_nullifiers = append_new, xs_commitments = append_new,
     xs_revoked = append_new, xs_journal = [], xs_factories = registry_new\<rparr>"

lemma demo_hosted_simps [simp]:
  "c_id (demo_hosted i tok b) = i" "c_lifecycle (demo_hosted i tok b) = Live"
  "c_permissions (demo_hosted i tok b) = default_user" "c_token_id (demo_hosted i tok b) = tok"
  "c_capabilities (demo_hosted i tok b) = clist_new" "c_delegation (demo_hosted i tok b) = None"
  "st_balance (c_state (demo_hosted i tok b)) = b" "st_nonce (c_state (demo_hosted i tok b)) = 0"
  "fields_sealed demo_exec_crypto (demo_hosted i tok b)"
  by (simp_all add: demo_hosted_def with_balance_def cell_state_new_def fields_sealed_def)

lemma demo_shielded: "shielded_distinct demo_exec_crypto"
  by (simp add: shielded_distinct_def demo_exec_crypto_def cell_crypto.defs)

lemma demo_exec_ok: "cells_ok demo_exec_crypto demo_exec"
  by (auto simp: cells_ok_def demo_exec_def split: if_splits)

text \<open>A turn is atomic through its journal: take any list of effects, run it from a fresh journal, and
  roll the journal back, whether the effects all succeeded or stopped half way. Every cell is then as
  it was (fields, balance, nonce, permissions, keys, program, delegation, lifecycle, and the
  capability in every slot), cells created by the effects are gone, cells they made sovereign are
  hosted again, and the spent nullifiers, the note commitments, the revocations and the bridged
  nullifiers are those of before. (Tombstones, slot counters and the field commitments that a
  \<open>SetField\<close> clears are not part of this: the rollback does not bring them back.)
\<close>

theorem turn_rollback_restores:
  assumes "shielded_distinct E" "cells_ok E S" "xs_journal S = []"
    and "apply_effects E X turn target actor effs S = (r, T)"
  shows "stores_view (rollback E (xs_journal T) T) = stores_view S"
proof -
  have "journalled E S T"
    using exec_steps_journalled [OF apply_effects_steps [OF assms(1,4)] assms(2)] by blast
  then show ?thesis using assms(3) by (auto simp: journalled_def undoable_def)
qed

definition demo_turn :: "effect list" where
  "demo_turn = [ETransfer 1 2 30, EIncrementNonce 1, ETransfer 1 2 1000]"

abbreviation demo_run :: "effect list \<Rightarrow> exec_result" where
  "demo_run effs \<equiv> apply_effects demo_exec_crypto demo_env 0 1 1 effs demo_exec"

lemmas demo_exec_simps =
  apply_effect_cases apply_basic_effect_def apply_transfer_def apply_increment_nonce_def cross_check_def
  cell_is_live_def lc_is_live_def map_state_def invalidate_leaf_cache_def cell_at_with_cell
  i64_try_from_def in_i64_def increment_nonce_def checked_add_word_def

lemma demo_run_fails: "fst (demo_run demo_turn) = Inl (TInsufficientBalance 1 1000 70)"
  by (simp add: demo_turn_def demo_exec_simps demo_exec_def get_mut_def Let_def)

theorem turn_rollback_restores_witness:
  "fst (demo_run demo_turn) =
     Inl (TInsufficientBalance 1 1000 70) \<and>
   (let T = snd (demo_run demo_turn)
    in stores_view (rollback demo_exec_crypto (xs_journal T) T) = stores_view demo_exec)"
proof -
  have j: "xs_journal demo_exec = []" by (simp add: demo_exec_def)
  show ?thesis
    using turn_rollback_restores [OF demo_shielded demo_exec_ok j prod.collapse [symmetric]] demo_run_fails
    by (simp add: Let_def)
qed

text \<open>C22. The effects keep the stores well formed: from a state in which every cell is stored under its own id,
  every c-list has distinct live slots below its counter and disjoint sorted tombstones, and every
  root of overflow fields commits to its map, any list of effects, finished or stopped half way, ends
  in such a state.\<close>

theorem effects_keep_cells_ok:
  assumes "shielded_distinct E" "cells_ok E S" "apply_effects E X turn target actor effs S = (r, T)"
  shows "cells_ok E T"
  using exec_steps_journalled [OF apply_effects_steps [OF assms(1,3)] assms(2)] by blast

theorem effects_keep_cells_ok_witness: "cells_ok demo_exec_crypto (snd (demo_run demo_turn))"
  by (rule effects_keep_cells_ok [OF demo_shielded demo_exec_ok prod.collapse [symmetric]])

text \<open>The write set of a turn is complete: a cell that \<open>touched_cells\<close> of the turn's journal does not
  list exists after the effects exactly if it existed before, and is then unchanged up to cleared
  digest memos; the list has no duplicates.
\<close>

theorem write_set_complete:
  assumes "shielded_distinct E" "cells_ok E S" "xs_journal S = []"
    and "apply_effects E X turn target actor effs S = (r, T)"
  shows "distinct (touched_cells (xs_journal T)) \<and>
    (i \<notin> set (touched_cells (xs_journal T)) \<longrightarrow> rel_option silent (cell_at S i) (cell_at T i))"
proof -
  have "journalled E S T"
    using exec_steps_journalled [OF apply_effects_steps [OF assms(1,4)] assms(2)] by blast
  then show ?thesis
    using assms(3) distinct_touched_cells by (auto simp: journalled_def untouched_def)
qed

theorem write_set_complete_witness:
  "fst (demo_run demo_turn) \<noteq> Inr () \<and>
   distinct (touched_cells (xs_journal (snd (demo_run demo_turn))))"
proof -
  have j: "xs_journal demo_exec = []" by (simp add: demo_exec_def)
  show ?thesis
    using write_set_complete [OF demo_shielded demo_exec_ok j prod.collapse [symmetric]] demo_run_fails
    by simp
qed

end
