(* ===== verification/ExecutorAuthority.thy ===== *)
theory ExecutorAuthority
  imports ExecutorUndo
begin

text \<open>
  Authority under the effect handlers. \<open>held_caps\<close> collects the capabilities that the cells of a state
  hold, in their c-lists and in their delegation snapshots. A handler that adds no authority only
  narrows or drops capabilities; the handlers that add some (\<open>GrantCapability\<close>, \<open>Introduce\<close>,
  \<open>SpawnWithDelegation\<close>, \<open>RefreshDelegation\<close>) are followed one by one. Two orders compare a capability
  with its source: \<open>grant_le\<close> (permission, facet and lifetime; like \<open>cap_le\<close>, but for the effect kinds that
  exist, all non-zero masks) and \<open>tier_le\<close> (target and permission only).
\<close>

section \<open>Held capabilities\<close>

definition cell_held :: "cell \<Rightarrow> capability_ref set" where
  "cell_held c = set (cs_refs (c_capabilities c)) \<union>
     (case c_delegation c of Some d \<Rightarrow> set (dr_snapshot d) | None \<Rightarrow> {})"

definition held_caps :: "exec_state \<Rightarrow> capability_ref set" where
  "held_caps S = {r. \<exists>i c. cell_at S i = Some c \<and> r \<in> cell_held c}"

definition grant_le :: "capability_ref \<Rightarrow> capability_ref \<Rightarrow> bool" where
  "grant_le c p \<longleftrightarrow>
     cr_target c = cr_target p \<and> cr_permissions c \<le> cr_permissions p \<and>
     (\<forall>b. b \<noteq> 0 \<longrightarrow> is_effect_permitted (cr_allowed_effects c) b \<longrightarrow> is_effect_permitted (cr_allowed_effects p) b) \<and>
     (\<forall>h. unexpired (cr_expires_at c) h \<longrightarrow> unexpired (cr_expires_at p) h)"

definition tier_le :: "capability_ref \<Rightarrow> capability_ref \<Rightarrow> bool" where
  "tier_le c p \<longleftrightarrow> cr_target c = cr_target p \<and> cr_permissions c \<le> cr_permissions p"

definition below :: "(capability_ref \<Rightarrow> capability_ref \<Rightarrow> bool) \<Rightarrow> capability_ref set \<Rightarrow> capability_ref set \<Rightarrow> bool" where
  "below le R Q \<longleftrightarrow> (\<forall>r \<in> R. \<exists>q \<in> Q. le r q)"

text \<open>What the two orders have in common.\<close>

locale cap_order =
  fixes le :: "capability_ref \<Rightarrow> capability_ref \<Rightarrow> bool"
  assumes order_refl: "le r r"
    and order_trans: "le a b \<Longrightarrow> le b c \<Longrightarrow> le a c"
    and order_cap: "cap_le r q \<Longrightarrow> le r q"
begin

lemma below_refl: "R \<subseteq> Q \<Longrightarrow> below le R Q"
  using order_refl by (auto simp: below_def)

lemma below_trans: "below le R Q \<Longrightarrow> below le Q P \<Longrightarrow> below le R P"
  unfolding below_def by (meson order_trans)

lemma below_Un: "below le (R \<union> R') Q \<longleftrightarrow> below le R Q \<and> below le R' Q"
  by (auto simp: below_def)

lemma below_mono: "below le R Q \<Longrightarrow> Q \<subseteq> Q' \<Longrightarrow> below le R Q'"
  unfolding below_def by blast

lemma cell_write_below:
  assumes "cell_write E B i c e c'" "AddsAuthority \<notin> B" "clist_wf (c_capabilities c)"
  shows "below le (cell_held c') (cell_held c)"
  using assms(1)
proof (cases rule: cell_write.cases)
  case (attenuate slot prior leaf p m x h cs)
  then have "\<exists>q \<in> set (cs_refs (c_capabilities c)). cap_le r q" if "r \<in> set (cs_refs cs)" for r
    using attenuate_in_place_le [OF assms(3), of r leaf slot p m x] that by simp
  then have "below le (set (cs_refs cs)) (set (cs_refs (c_capabilities c)))"
    unfolding below_def using order_cap by blast
  then show ?thesis
    unfolding attenuate cell_held_def
    by (simp add: below_Un) (auto intro: below_mono below_refl)
next
  case (revoke slot old)
  then show ?thesis by (intro below_refl) (auto simp: cell_held_def clist_revoke_def Let_def invalidate_cap_root_cache_def)
qed (use assms(2) in \<open>auto simp: cell_held_def map_state_def dest!: lifecycle_step_upd intro!: below_refl\<close>)

lemma write_held:
  assumes "cell_at S i = Some c" "cell_at T = (cell_at S)(i \<mapsto> c')" "below le (cell_held c') (held_caps S)"
  shows "below le (held_caps T) (held_caps S)"
proof -
  have "held_caps T \<subseteq> held_caps S \<union> cell_held c'"
    using assms(2) by (auto simp: held_caps_def split: if_splits)
  then show ?thesis
    using assms(3) order_refl unfolding below_def by blast
qed

lemma held_of: "cell_at S i = Some c \<Longrightarrow> cell_held c \<subseteq> held_caps S"
  by (auto simp: held_caps_def)

lemma write_below:
  assumes "cell_at S i = Some c" "cell_at T = (cell_at S)(i \<mapsto> c')" "below le (cell_held c') (cell_held c)"
  shows "below le (held_caps T) (held_caps S)"
  by (rule write_held [OF assms(1,2) below_mono [OF assms(3) held_of [OF assms(1)]]])

lemma cell_held_memo: "cell_held (invalidate_leaf_cache c) = cell_held c"
  by (simp add: cell_held_def)

lemma step_below:
  assumes "exec_step E {MovesValue} S T" "cells_ok E S"
  shows "below le (held_caps T) (held_caps S)"
  using assms(1)
proof cases
  case (borrow i)
  show ?thesis
  proof (cases "cell_at S i")
    case (Some c)
    then show ?thesis unfolding borrow
      by (intro write_below [OF Some, of _ "invalidate_leaf_cache c"] below_refl)
         (simp_all add: cell_at_get_mut cell_held_memo)
  qed (simp add: borrow held_caps_def cell_at_get_mut below_refl)
next
  case (quiet i c c')
  then have "cell_held c' = cell_held c" by (auto simp: silent_def cell_held_def)
  then show ?thesis using quiet
    by (intro write_below [OF quiet(2), of _ c'] below_refl) (simp_all add: cell_at_with_cell)
next
  case (cell i c e c')
  show ?thesis
  proof (rule write_below [OF cell(2), of _ c'])
    show "cell_at T = (cell_at S)(i \<mapsto> c')" using cell by (simp add: cell_at_with_cell)
    show "below le (cell_held c') (cell_held c)"
      using cell_write_below [OF cell(3)] cells_okD(2) [OF assms(2) cell(2)] by (simp add: cell_held_memo)
  qed
next
  case (create c)
  then have "cell_held c = {}" by (simp add: no_authority_def cell_held_def)
  then show ?thesis using create
    by (intro below_refl) (auto simp: held_caps_def l_cells_insert cell_held_memo split: if_splits)
next
  case (sovereign i c)
  then show ?thesis by (intro below_refl) (auto simp: held_caps_def l_cells_make_sovereign split: if_splits)
qed (auto simp: held_caps_def intro!: below_refl)

lemma steps_below:
  assumes "exec_steps E {MovesValue} S T" "cells_ok E S"
  shows "below le (held_caps T) (held_caps S)"
  using assms(1)
proof (induction rule: rtranclp_induct)
  case (step T U)
  have "cells_ok E T" using exec_steps_journalled [OF step.hyps(1) assms(2)] by blast
  then show ?case using step_below [OF step.hyps(2)] step.IH below_trans by blast
qed (simp add: below_refl)

lemma held_record [simp]: "held_caps (record_entry S e) = held_caps S"
  by (simp add: held_caps_def)

lemma get_mut_below:
  fixes E :: "'a exec_crypto_scheme"
  shows "get_mut S i = (r, T) \<Longrightarrow> cells_ok E S \<Longrightarrow> below le (held_caps T) (held_caps S)"
  using steps_below [OF get_mutD(3)] by blast

lemma put_below:
  assumes "get_mut S i = (Some c, T)" "\<And>d. cell_at S i = Some d \<Longrightarrow> c = invalidate_leaf_cache d \<Longrightarrow>
      below le (cell_held c') (held_caps S)"
  shows "below le (held_caps (put_cell T i c')) (held_caps S)"
proof -
  obtain d where d: "cell_at S i = Some d" "c = invalidate_leaf_cache d"
    using get_mut_SomeD(1,2) [OF assms(1)] by blast
  show ?thesis
  proof (rule write_held [OF d(1), of _ c'])
    show "cell_at (put_cell T i c') = (cell_at S)(i \<mapsto> c')"
      using get_mut_SomeD(3) [OF assms(1), of c'] d(1) by (simp add: cell_at_with_cell)
  qed (rule assms(2) [OF d])
qed

text \<open>A capability pushed below one that is held.\<close>

lemma push_below:
  assumes "get_mut S i = (Some c, T)" "clist_push (c_capabilities c) entry = (r, cs)"
    and "\<And>k. le (entry k) q" "q \<in> held_caps S"
  shows "below le (held_caps (put_cell T i (c\<lparr>c_capabilities := cs\<rparr>))) (held_caps S)"
proof (rule put_below [OF assms(1)])
  fix d assume d: "cell_at S i = Some d" "c = invalidate_leaf_cache d"
  have "cell_held (c\<lparr>c_capabilities := cs\<rparr>) \<subseteq> cell_held d \<union> {entry k |k. True}"
    using assms(2) d(2) clist_push_refs [of "c_capabilities c" entry]
    by (auto simp: cell_held_def split: option.splits)
  moreover have "cell_held d \<subseteq> held_caps S" by (rule held_of [OF d(1)])
  ultimately show "below le (cell_held (c\<lparr>c_capabilities := cs\<rparr>)) (held_caps S)"
    unfolding below_def using assms(3,4) order_refl by blast
qed

end

interpretation full: cap_order grant_le
  by unfold_locales (auto simp: grant_le_def cap_le_def mask_le_def)

interpretation tier: cap_order tier_le
  by unfold_locales (auto simp: tier_le_def cap_le_def)

lemma lookup_held:
  "cell_at S i = Some c \<Longrightarrow> lookup_by_target (c_capabilities c) t = Some q \<Longrightarrow> q \<in> held_caps S \<and> cr_target q = t"
  by (force simp: lookup_by_target_def find_Some_iff held_caps_def cell_held_def)

lemma grant_within_le:
  assumes "grant_within q cap" "cr_target q = cr_target cap"
  shows "grant_le cap q"
proof -
  have "is_effect_permitted (cr_allowed_effects q) b"
    if "b \<noteq> 0" "is_effect_permitted (cr_allowed_effects cap) b" for b
    using assms(1) that mask_le_mask_or_all [of "cr_allowed_effects q" "mask_or_all (cr_allowed_effects cap)"]
    by (cases "cr_allowed_effects cap")
       (auto simp: grant_within_def mask_or_all_def mask_le_def EFFECT_ALL_eq split: option.splits)
  moreover have "unexpired (cr_expires_at q) h" if "unexpired (cr_expires_at cap) h" for h
    using assms(1) that by (auto simp: grant_within_def unexpired_def split: option.splits)
  ultimately show ?thesis
    using assms by (simp add: grant_le_def grant_within_def is_attenuation_def less_eq_auth_required_def)
qed

section \<open>The handlers that add authority\<close>

text \<open>
  A cell may grant capabilities to itself at will: those, and the initial capabilities of a cell that
  a factory creates, have their source in the cell and in the factory's descriptor, not in another
  capability.
\<close>

fun derives_authority :: "effect \<Rightarrow> bool" where
  "derives_authority (EGrantCapability src _ cap) = (cr_target cap \<noteq> src)"
| "derives_authority (ECreateCellFromFactory _ _ _ _) = False"
| "derives_authority _ = True"

lemma same_below: "held_caps T = held_caps S \<Longrightarrow> below grant_le (held_caps T) (held_caps S)"
  by (simp add: full.below_refl)

lemma grant_below:
  fixes E :: "'a exec_crypto_scheme"
  assumes "cells_ok E S" "cr_target cap \<noteq> src"
  shows "below grant_le (held_caps (snd (apply_grant_capability E X S at actor src dst cap turn))) (held_caps S)"
proof -
  have "below grant_le (held_caps (put_cell T dst (d\<lparr>c_capabilities := cs\<rparr>))) (held_caps S)"
    if "cell_at S src = Some c" "lookup_by_target (c_capabilities c) (cr_target cap) = Some q"
      "grant_within q cap" "get_mut S dst = (Some d, T)"
      "grant_ref_provenanced H (c_capabilities d) cap turn = (r, cs)" for c q d T H r cs
  proof (rule full.push_below [OF that(4)])
    show "clist_push (c_capabilities d) (\<lambda>slot.
       \<lparr>cr_target = cr_target cap, cr_slot = slot, cr_permissions = cr_permissions cap,
        cr_breadstuff = cr_breadstuff cap, cr_expires_at = cr_expires_at cap,
        cr_allowed_effects = cr_allowed_effects cap, cr_stored_epoch = cr_stored_epoch cap,
        cr_provenance = cap_provenance H (cr_target cap) slot (cr_provenance cap) turn\<rparr>) = (r, cs)"
      using that(5) by (simp add: grant_ref_provenanced_def)
    show "q \<in> held_caps S" using lookup_held [OF that(1,2)] by simp
  qed (use grant_within_le [OF that(3)] lookup_held [OF that(1,2)] in \<open>simp add: grant_le_def\<close>)
  then show ?thesis
    using assms(2)
    by (auto simp: apply_grant_capability_def split: handler_splits
        intro: full.below_refl full.get_mut_below [OF _ assms(1)])
qed

lemma introduce_below:
  fixes E :: "'a exec_crypto_scheme"
  assumes "cells_ok E S"
  shows "below tier_le (held_caps (snd (apply_introduce E X S a b t p turn))) (held_caps S)"
proof -
  have "below tier_le (held_caps (put_cell T b (d\<lparr>c_capabilities := cs\<rparr>))) (held_caps S)"
    if "cell_at S a = Some c" "lookup_by_target (c_capabilities c) t = Some q"
      "is_attenuation (cr_permissions q) p" "get_mut S b = (Some d, T)"
      "grant_provenanced H (c_capabilities d) t p bs x m ep prov turn = (r, cs)" for c q d T H bs x m ep prov r cs
  proof (rule tier.push_below [OF that(4)])
    show "clist_push (c_capabilities d) (\<lambda>slot.
       \<lparr>cr_target = t, cr_slot = slot, cr_permissions = p, cr_breadstuff = bs, cr_expires_at = x,
        cr_allowed_effects = m, cr_stored_epoch = ep,
        cr_provenance = cap_provenance H t slot prov turn\<rparr>) = (r, cs)"
      using that(5) by (simp add: grant_provenanced_def)
    show "q \<in> held_caps S" using lookup_held [OF that(1,2)] by simp
  qed (use that(3) lookup_held [OF that(1,2)] in
      \<open>simp add: tier_le_def is_attenuation_def less_eq_auth_required_def\<close>)
  then show ?thesis
    by (auto simp: apply_introduce_def Let_def split: handler_splits
        intro: tier.below_refl tier.get_mut_below [OF _ assms])
qed

lemma spawn_held:
  "held_caps (snd (apply_spawn_with_delegation E X S at pk tok stale)) \<subseteq> held_caps S"
proof -
  have spawned: "x \<in> held_caps S"
    if "cell_at S at = Some p" "insert_cell (xs_ledger S) ((with_balance E pk tok 0)\<lparr>c_delegate := a,
        c_delegation := Some (delegated_ref_new at k (cs_refs (c_capabilities p)) e f g h j)\<rparr>) = (r, L)"
      "x \<in> held_caps (S\<lparr>xs_ledger := L\<rparr>)" for p a k e f g h j r L x
  proof -
    let ?c = "(with_balance E pk tok 0)\<lparr>c_delegate := a,
      c_delegation := Some (delegated_ref_new at k (cs_refs (c_capabilities p)) e f g h j)\<rparr>"
    have "cell_held ?c \<subseteq> cell_held p"
      using bare_with_balance [of E pk tok 0] by (auto simp: cell_held_def no_authority_def delegated_ref_new_def)
    moreover have "l_cells L = (if cell_at S (c_id ?c) = None
        then (cell_at S)(c_id ?c \<mapsto> invalidate_leaf_cache ?c) else cell_at S)"
      using that(2) l_cells_insert [of "xs_ledger S" ?c] by simp
    then have "held_caps (S\<lparr>xs_ledger := L\<rparr>) \<subseteq> held_caps S \<union> cell_held ?c"
      by (auto simp: held_caps_def full.cell_held_memo split: if_splits)
    ultimately show ?thesis using full.held_of [OF that(1)] that(3) by blast
  qed
  show ?thesis
    by (auto simp: apply_spawn_with_delegation_def Let_def full.held_record split: handler_splits intro: spawned)
qed

lemma refresh_held:
  fixes E :: "'a exec_crypto_scheme"
  assumes "cells_ok E S"
  shows "below grant_le (held_caps (snd (apply_refresh_delegation E X S at child snap))) (held_caps S)"
proof -
  have "below grant_le (held_caps (put_cell T at (c\<lparr>c_delegation := Some d\<rparr>))) (held_caps S)"
    if "cell_at S j = Some p" "get_mut S at = (Some c, T)" "dr_snapshot d = cs_refs (c_capabilities p)" for j p c T d
  proof (rule full.put_below [OF that(2)])
    fix e assume "cell_at S at = Some e" "c = invalidate_leaf_cache e"
    then have "cell_held (c\<lparr>c_delegation := Some d\<rparr>) \<subseteq> held_caps S"
      using that(1,3) by (auto simp: cell_held_def held_caps_def)
    then show "below grant_le (cell_held (c\<lparr>c_delegation := Some d\<rparr>)) (held_caps S)"
      by (rule full.below_refl)
  qed
  then show ?thesis
    by (auto simp: apply_refresh_delegation_def delegated_ref_new_def Let_def split: handler_splits
        intro: full.below_refl full.get_mut_below [OF _ assms])
qed

section \<open>Confinement of a whole turn\<close>

fun is_introduction :: "effect \<Rightarrow> bool" where
  "is_introduction (EIntroduce _ _ _ _) = True"
| "is_introduction _ = False"

definition keeps_below ::
  "(capability_ref \<Rightarrow> capability_ref \<Rightarrow> bool) \<Rightarrow> ('a exec_crypto_scheme) \<Rightarrow> exec_state \<Rightarrow> exec_state \<Rightarrow> bool" where
  "keeps_below le E S T \<longleftrightarrow> (shielded_distinct E \<longrightarrow> cells_ok E S \<longrightarrow>
     cells_ok E T \<and> below le (held_caps T) (held_caps S))"

lemma basic_cells_ok:
  assumes "shielded_distinct E" "cells_ok E S" "apply_basic_effect E X turn target actor eff S = (r, T)"
  shows "cells_ok E T"
  using exec_steps_journalled [OF basic_effect_powers [OF assms(1), of eff S X turn target actor] assms(2)] assms(3)
  by simp

lemma basic_effect_below:
  assumes "shielded_distinct E" "cells_ok E S" "derives_authority eff" "\<not> is_introduction eff"
    and "apply_basic_effect E X turn target actor eff S = (r, T)"
  shows "below grant_le (held_caps T) (held_caps S)"
proof (cases "powers eff \<subseteq> {MovesValue}")
  case True
  show ?thesis
    using full.steps_below [OF basic_effect_steps [OF assms(1) True, of S X turn target actor] assms(2)] assms(5)
    by simp
next
  case False
  have T: "T = snd (apply_basic_effect E X turn target actor eff S)" using assms(5) by simp
  show ?thesis
    using False assms(3,4) unfolding T
    by (cases eff) (simp_all add: apply_basic_effect_def grant_below [OF assms(2)] refresh_held [OF assms(2)]
        full.below_refl [OF spawn_held])
qed

lemma below_weaken: "below grant_le R Q \<Longrightarrow> below tier_le R Q"
  unfolding below_def grant_le_def tier_le_def by blast

lemma basic_effect_tier:
  assumes "shielded_distinct E" "cells_ok E S" "derives_authority eff"
    and "apply_basic_effect E X turn target actor eff S = (r, T)"
  shows "below tier_le (held_caps T) (held_caps S)"
proof (cases "is_introduction eff")
  case True
  then obtain a b t p where eff: "eff = EIntroduce a b t p" by (cases eff) auto
  show ?thesis
    using introduce_below [OF assms(2), of X a b t p turn] assms(4) by (simp add: eff apply_basic_effect_def)
qed (rule below_weaken [OF basic_effect_below [OF assms(1-3) _ assms(4)]])

lemma keeps_below_intros:
  "keeps_below grant_le E S S" "keeps_below tier_le E S S"
  "keeps_below grant_le E S T \<Longrightarrow> keeps_below grant_le E T U \<Longrightarrow> keeps_below grant_le E S U"
  "keeps_below tier_le E S T \<Longrightarrow> keeps_below tier_le E T U \<Longrightarrow> keeps_below tier_le E S U"
  using full.below_refl tier.below_refl full.below_trans tier.below_trans
  by (auto simp: keeps_below_def)

interpretation confine: effect_rel E X turn "\<lambda>eff. derives_authority eff \<and> \<not> is_introduction eff"
  "\<lambda>S r T. keeps_below grant_le E S T" for E X turn
proof
  fix S T eff target actor r
  assume "derives_authority eff \<and> \<not> is_introduction eff"
    "apply_basic_effect E X turn target actor eff S = (r, T)"
  then show "keeps_below grant_le E S T"
    unfolding keeps_below_def using basic_effect_below basic_cells_ok by blast
qed (rule keeps_below_intros, blast intro: keeps_below_intros)

interpretation confine_tier: effect_rel E X turn derives_authority
  "\<lambda>S r T. keeps_below tier_le E S T" for E X turn
proof
  fix S T eff target actor r
  assume "derives_authority eff" "apply_basic_effect E X turn target actor eff S = (r, T)"
  then show "keeps_below tier_le E S T"
    unfolding keeps_below_def using basic_effect_tier basic_cells_ok by blast
qed (rule keeps_below_intros, blast intro: keeps_below_intros)

lemma all_basic_and: "all_basic (\<lambda>eff. P eff \<and> Q eff) eff \<longleftrightarrow> all_basic P eff \<and> all_basic Q eff"
proof (induction eff)
  case (EExerciseViaCapability slot inner)
  then show ?case by (auto simp: list_all_iff)
qed simp_all

lemma all_basic_conj:
  "list_all (all_basic P) effs \<Longrightarrow> list_all (all_basic Q) effs \<Longrightarrow>
     list_all (all_basic (\<lambda>eff. P eff \<and> Q eff)) effs"
  by (simp add: list_all_iff all_basic_and)

lemma grant_le_authorizes:
  "grant_le c p \<Longrightarrow> b \<noteq> 0 \<Longrightarrow> cap_authorizes c t h b \<Longrightarrow> cap_authorizes p t h b"
  by (auto simp: grant_le_def cap_authorizes_def less_eq_auth_required_def)

text \<open>C13. Only connectivity begets connectivity: run any effects in which no cell grants a capability
  to itself and no factory creates a cell, to success or to a failure half way. Every capability that
  any cell then holds, in its c-list or in a delegation snapshot, names a target and a permission tier
  that a capability held before already gave. Without introductions the same is true of what the
  capability permits: if it authorises an effect on a target at some height, a capability held before
  did.\<close>

theorem authority_confined:
  assumes "shielded_distinct E" "cells_ok E S" "list_all (all_basic derives_authority) effs"
    and "apply_effects E X turn target actor effs S = (r, T)" "cap \<in> held_caps T"
  shows "(\<exists>q \<in> held_caps S. cr_target cap = cr_target q \<and> cr_permissions cap \<le> cr_permissions q) \<and>
    (list_all (all_basic (\<lambda>eff. \<not> is_introduction eff)) effs \<and> b \<noteq> 0 \<and> cap_authorizes cap t h b \<longrightarrow>
      (\<exists>q \<in> held_caps S. cap_authorizes q t h b))"
proof -
  have "below tier_le (held_caps T) (held_caps S)"
    using confine_tier.effects [OF assms(3,4)] assms(1,2) by (simp add: keeps_below_def)
  then have tier: "\<exists>q \<in> held_caps S. cr_target cap = cr_target q \<and> cr_permissions cap \<le> cr_permissions q"
    using assms(5) by (auto simp: below_def tier_le_def)
  have "\<exists>q \<in> held_caps S. cap_authorizes q t h b"
    if "list_all (all_basic (\<lambda>eff. \<not> is_introduction eff)) effs" "b \<noteq> 0" "cap_authorizes cap t h b"
  proof -
    have "list_all (all_basic (\<lambda>eff. derives_authority eff \<and> \<not> is_introduction eff)) effs"
      using assms(3) that(1) by (rule all_basic_conj)
    then have "below grant_le (held_caps T) (held_caps S)"
      using confine.effects [OF _ assms(4)] assms(1,2) by (simp add: keeps_below_def)
    then show ?thesis
      using assms(5) that(2,3) grant_le_authorizes unfolding below_def by blast
  qed
  then show ?thesis using tier by blast
qed

text \<open>
  Three cells: the first holds a capability to the second, and one to the third that admits transfers
  only and expires at height 50.
\<close>

definition demo_cap :: "cell_id \<Rightarrow> u32 \<Rightarrow> effect_mask option \<Rightarrow> u64 option \<Rightarrow> capability_ref" where
  "demo_cap t k m x = \<lparr>cr_target = t, cr_slot = k, cr_permissions = AuthNone, cr_breadstuff = None,
     cr_expires_at = x, cr_allowed_effects = m, cr_stored_epoch = None, cr_provenance = 0\<rparr>"

definition demo_holder :: cell where
  "demo_holder = (demo_hosted 1 7 100)\<lparr>c_capabilities := \<lparr>cs_refs =
     [demo_cap 2 0 None None, demo_cap 3 1 (Some EFFECT_TRANSFER) (Some 50)], cs_next_slot = 2,
     cs_cap_root_cache = 0, cs_tombstones = []\<rparr>\<rparr>"

definition demo_peers :: exec_state where
  "demo_peers = demo_exec\<lparr>xs_ledger := (xs_ledger demo_exec)\<lparr>l_cells :=
     [1 \<mapsto> demo_holder, 2 \<mapsto> demo_hosted 2 7 5, 3 \<mapsto> demo_hosted 3 7 0]\<rparr>\<rparr>"

abbreviation peers_run :: "effect list \<Rightarrow> exec_result" where
  "peers_run effs \<equiv> apply_effects demo_exec_crypto demo_env 0 1 1 effs demo_peers"

lemma demo_peers_cells:
  "cell_at demo_peers = [1 \<mapsto> demo_holder, 2 \<mapsto> demo_hosted 2 7 5, 3 \<mapsto> demo_hosted 3 7 0]"
  by (simp add: demo_peers_def)

lemma demo_holder_simps [simp]:
  "cs_refs (c_capabilities demo_holder) = [demo_cap 2 0 None None, demo_cap 3 1 (Some EFFECT_TRANSFER) (Some 50)]"
  "cs_next_slot (c_capabilities demo_holder) = 2" "c_delegation demo_holder = None" "c_id demo_holder = 1"
  "fields_sealed demo_exec_crypto demo_holder" "cs_tombstones (c_capabilities demo_holder) = []"
  by (simp_all add: demo_holder_def fields_sealed_def demo_hosted_simps(9) [unfolded fields_sealed_def])

lemma demo_peers_ok: "cells_ok demo_exec_crypto demo_peers"
proof -
  have "clist_wf (c_capabilities demo_holder)"
    by (simp add: clist_wf_def demo_cap_def)
  then show ?thesis by (auto simp: cells_ok_def demo_peers_cells split: if_splits)
qed

lemma demo_peers_held:
  "held_caps demo_peers = {demo_cap 2 0 None None, demo_cap 3 1 (Some EFFECT_TRANSFER) (Some 50)}"
proof -
  have "cell_held (demo_hosted i t b) = {}" for i t b by (simp add: cell_held_def clist_new_def)
  moreover have "cell_held demo_holder = {demo_cap 2 0 None None, demo_cap 3 1 (Some EFFECT_TRANSFER) (Some 50)}"
    by (simp add: cell_held_def)
  ultimately show ?thesis by (auto simp: held_caps_def demo_peers_cells split: if_splits)
qed

lemmas peers_simps =
  apply_effect_cases apply_basic_effect_def cross_check_def cell_at_with_cell demo_peers_cells get_mut_def
  Let_def lookup_by_target_def unexpired_def clist_push_def checked_add_word_def
  invalidate_cap_root_cache_def invalidate_leaf_cache_def clist_new_def demo_env_def demo_cap_def
  is_attenuation_def grant_within_def grant_ref_provenanced_def grant_provenanced_def
  apply_grant_capability_def apply_introduce_def has_access_def default_user_def

definition demo_grant :: "effect list" where
  "demo_grant = [EGrantCapability 1 2 (demo_cap 3 0 (Some EFFECT_TRANSFER) (Some 40))]"

definition demo_introduction :: "effect list" where
  "demo_introduction = [EIntroduce 1 2 3 AuthNone]"

text \<open>In both runs the second cell ends with a single capability, to the third.\<close>

lemma demo_grant_runs:
  "\<exists>S c e. peers_run demo_grant = (Inr (), record_entry (put_cell S 2 c) e) \<and>
     (\<exists>r. cs_refs (c_capabilities c) = [r] \<and> cap_authorizes r 3 40 EFFECT_TRANSFER)"
  by (simp add: demo_grant_def peers_simps)
     (rule exI, rule exI, rule conjI, rule exI, rule refl, simp add: cap_authorizes_def unexpired_def EFFECT_TRANSFER_def)

lemma demo_introduction_runs:
  "\<exists>S c e. peers_run demo_introduction = (Inr (), record_entry (put_cell S 2 c) e) \<and>
     (\<exists>r. cs_refs (c_capabilities c) = [r] \<and> cap_authorizes r 3 500 EFFECT_BURN)"
  by (simp add: demo_introduction_def peers_simps)
     (rule exI, rule exI, rule conjI, rule exI, rule refl, simp add: cap_authorizes_def unexpired_def)

lemma put_held:
  "cs_refs (c_capabilities c) = [r] \<Longrightarrow> r \<in> held_caps (record_entry (put_cell S i c) e)"
  by (force simp: held_caps_def cell_held_def)

theorem authority_confined_witness:
  "fst (peers_run demo_grant) = Inr () \<and>
   (\<exists>q \<in> held_caps demo_peers. cap_authorizes q 3 40 EFFECT_TRANSFER)"
proof -
  obtain T r where T: "peers_run demo_grant = (Inr (), T)" "r \<in> held_caps T"
    and r: "cap_authorizes r 3 40 EFFECT_TRANSFER"
    using demo_grant_runs put_held by blast
  have "list_all (all_basic derives_authority) demo_grant"
    "list_all (all_basic (\<lambda>eff. \<not> is_introduction eff)) demo_grant"
    by (simp_all add: demo_grant_def demo_cap_def)
  moreover have "EFFECT_TRANSFER \<noteq> 0" by (simp add: EFFECT_TRANSFER_def)
  ultimately show ?thesis
    using authority_confined [OF demo_shielded demo_peers_ok _ T] T(1) r by fastforce
qed

text \<open>An introduction can amplify: in a state where every capability to a cell admits transfers only
  and expires at height 50, an \<open>Introduce\<close> that succeeds gives the recipient a capability that admits a
  burn at height 500. The handler compares permission tiers only; the new capability has no facet and
  lives for the introduction lifetime, whatever the introducer holds.\<close>

theorem introduce_amplifies:
  "fst (peers_run demo_introduction) = Inr () \<and>
   (\<exists>r \<in> held_caps (snd (peers_run demo_introduction)). cap_authorizes r 3 500 EFFECT_BURN) \<and>
   \<not> (\<exists>q \<in> held_caps demo_peers. cap_authorizes q 3 500 EFFECT_BURN)"
  using demo_introduction_runs put_held
  by (fastforce simp: demo_peers_held cap_authorizes_def demo_cap_def unexpired_def)

end
