(* ===== verification/ExecutorGates.thy ===== *)
theory ExecutorGates
  imports ExecutorAuthority
begin

text \<open>
  The gates around an action (\<open>turn/src/executor/authorize.rs\<close>): the permissions of the target cell that
  a direct action needs (\<open>determine_required_permissions\<close>), and the cells whose program is evaluated on
  the state before and after the action (\<open>collect_touched_cells\<close>). The theorems compare them with what
  the handlers do when the same effects run inside \<open>ExerciseViaCapability\<close>.
\<close>

section \<open>Required permissions\<close>

text \<open>
  The code keeps one flag per permission that is set when the permission enters the result;
  \<open>require_permission\<close> looks the permission up in the result instead.
\<close>

type_synonym required = "(action \<times> string) list"

definition require_permission :: "action \<Rightarrow> string \<Rightarrow> required \<Rightarrow> required" where
  "require_permission a name res = (if a \<in> fst ` set res then res else res @ [(a, name)])"

fun required_permission :: "cell_id \<Rightarrow> effect \<Rightarrow> (action \<times> string) option" where
  "required_permission target (ETransfer src _ _) = (if src = target then Some (Send, ''Send'') else None)"
| "required_permission target (ESetField _ _ _) = Some (SetState, ''SetState'')"
| "required_permission target (EIncrementNonce _) = Some (IncrementNonce, ''IncrementNonce'')"
| "required_permission target (ERefusal _ _ _ _) = Some (SetState, ''SetState'')"
| "required_permission target (EGrantCapability _ _ _) = Some (Delegate, ''Delegate'')"
| "required_permission target (ERevokeCapability _ _) = Some (Delegate, ''Delegate'')"
| "required_permission target (ESetPermissions _ _) = Some (SetPermissions, ''SetPermissions'')"
| "required_permission target (ESetVerificationKey _ _) = Some (SetVerificationKey, ''SetVerificationKey'')"
| "required_permission target (ESetProgram i _) =
     (if i = target then Some (SetVerificationKey, ''SetProgram'') else None)"
| "required_permission target (EMakeSovereign _) = Some (SetVerificationKey, ''MakeSovereign'')"
| "required_permission target (ECellSeal _ _) = Some (SetPermissions, ''Lifecycle'')"
| "required_permission target (ECellUnseal _) = Some (SetPermissions, ''Lifecycle'')"
| "required_permission target (ECellDestroy _ _) = Some (SetPermissions, ''Lifecycle'')"
| "required_permission target _ = None"

definition determine_required_permissions ::
  "cell_id \<Rightarrow> int option \<Rightarrow> effect list \<Rightarrow> required" where
  "determine_required_permissions target balance_change effs =
     foldl (\<lambda>res eff. case required_permission target eff of
              Some (a, name) \<Rightarrow> require_permission a name res
            | None \<Rightarrow> res)
       (case balance_change of
          Some delta \<Rightarrow> if delta < 0 then require_permission Send ''Send'' [] else []
        | None \<Rightarrow> [])
       effs"

lemma require_permission_fst [simp]: "fst ` set (require_permission a name res) = insert a (fst ` set res)"
  by (auto simp: require_permission_def)

lemma require_permission_distinct:
  "distinct (map fst res) \<Longrightarrow> distinct (map fst (require_permission a name res))"
  by (auto simp: require_permission_def)

lemma required_fold:
  "fst ` set (foldl (\<lambda>res eff. case required_permission target eff of
       Some (a, name) \<Rightarrow> require_permission a name res | None \<Rightarrow> res) res effs) =
     fst ` set res \<union> {a. \<exists>eff \<in> set effs. \<exists>name. required_permission target eff = Some (a, name)}"
  "distinct (map fst res) \<Longrightarrow> distinct (map fst (foldl (\<lambda>res eff. case required_permission target eff of
       Some (a, name) \<Rightarrow> require_permission a name res | None \<Rightarrow> res) res effs))"
  by (induction effs arbitrary: res) (auto simp: require_permission_distinct split: option.splits)

section \<open>Cells under the program gate\<close>

definition push_new :: "cell_id \<Rightarrow> cell_id list \<Rightarrow> cell_id list" where
  "push_new i out = (if i \<in> set out then out else out @ [i])"

fun walk_touched :: "effect \<Rightarrow> cell_id list \<Rightarrow> cell_id list" where
  "walk_touched (ETransfer src dst _) out = push_new dst (push_new src out)"
| "walk_touched (ESetField i _ _) out = push_new i out"
| "walk_touched (EIncrementNonce i) out = push_new i out"
| "walk_touched (EGrantCapability src dst _) out = push_new dst (push_new src out)"
| "walk_touched (EIntroduce introducer recipient target _) out =
     push_new target (push_new recipient (push_new introducer out))"
| "walk_touched (EExerciseViaCapability _ inner) out = fold walk_touched inner out"
| "walk_touched (ERevokeDelegation child) out = push_new child out"
| "walk_touched _ out = out"

definition collect_touched_cells :: "cell_id \<Rightarrow> effect list \<Rightarrow> cell_id list" where
  "collect_touched_cells target effs = fold walk_touched effs [target]"

section \<open>Direct and exercised effects\<close>

text \<open>The permission gate of a direct action is complete and has no duplicates: the permissions it
  asks for are those of its effects, and \<open>Send\<close> when the action withdraws.\<close>

theorem required_permissions_exact:
  "distinct (map fst (determine_required_permissions target delta effs)) \<and>
   fst ` set (determine_required_permissions target delta effs) =
     {a. \<exists>eff \<in> set effs. \<exists>name. required_permission target eff = Some (a, name)} \<union>
     (if \<exists>d. delta = Some d \<and> d < 0 then {Send} else {})"
  unfolding determine_required_permissions_def
  by (auto simp: required_fold intro!: required_fold(2) require_permission_distinct split: option.splits)

text \<open>
  A cell that nothing may change: every permission is \<open>Impossible\<close>. Another cell holds a capability to it
  at the weakest level.
\<close>

definition frozen_permissions :: permissions where
  "frozen_permissions = \<lparr>p_send = Impossible, p_receive = Impossible, p_set_state = Impossible,
     p_set_permissions = Impossible, p_set_verification_key = Impossible,
     p_increment_nonce = Impossible, p_delegate = Impossible, p_access = Impossible\<rparr>"

definition demo_frozen :: exec_state where
  "demo_frozen = demo_exec\<lparr>xs_ledger := (xs_ledger demo_exec)\<lparr>l_cells :=
     [1 \<mapsto> (demo_hosted 1 7 100)\<lparr>c_capabilities := \<lparr>cs_refs = [demo_cap 3 0 None None], cs_next_slot = 1,
        cs_cap_root_cache = 0, cs_tombstones = []\<rparr>\<rparr>,
      3 \<mapsto> (demo_hosted 3 7 0)\<lparr>c_permissions := frozen_permissions\<rparr>]\<rparr>\<rparr>"

abbreviation frozen_run :: "effect list \<Rightarrow> exec_result" where
  "frozen_run effs \<equiv> apply_effects demo_exec_crypto demo_env 0 1 1 effs demo_frozen"

definition demo_destroy :: effect where
  "demo_destroy = ECellDestroy 3 \<lparr>dc_cell_id = 3, dc_last_receipt_hash = 0, dc_final_state_commitment = 0,
     dc_destroyed_at_height = 10, dc_reason = Forced\<rparr>"

lemmas frozen_simps =
  demo_frozen_def apply_effect_cases apply_basic_effect_def exercise_check_def clist_lookup_def demo_cap_def
  unexpired_def demo_env_def inner_check_def get_mut_def Let_def

text \<open>Exercising a capability skips permissions that the same effect needs directly: a cell whose
  permissions are all \<open>Impossible\<close> is destroyed by the holder of a capability of level \<open>None\<close>, although a
  direct \<open>CellDestroy\<close> requires its \<open>SetPermissions\<close>, and a \<open>SetPermissions\<close> inside the exercise is refused.\<close>

theorem exercise_destroys_frozen_cell:
  "for_action (c_permissions (the (cell_at demo_frozen 3))) SetPermissions = Impossible \<and>
   map fst (determine_required_permissions 3 None [demo_destroy]) = [SetPermissions] \<and>
   fst (frozen_run [EExerciseViaCapability 0 [ESetPermissions 3 default_user]]) =
     Inl (TPermissionDenied 3 ''SetPermissions'' Impossible) \<and>
   fst (frozen_run [EExerciseViaCapability 0 [demo_destroy]]) = Inr () \<and>
   is_destroyed (c_lifecycle (the (cell_at (snd (frozen_run [EExerciseViaCapability 0 [demo_destroy]])) 3)))"
  by (simp add: frozen_simps determine_required_permissions_def demo_destroy_def require_permission_def
      frozen_permissions_def for_action.simps apply_cell_destroy_def destroy_def invalidate_leaf_cache_def)

definition demo_refusal :: "effect list" where
  "demo_refusal = [EExerciseViaCapability 0 [ERefusal 3 5 Declined 0]]"

text \<open>The program gate does not see every cell an action writes: a \<open>Refusal\<close> inside an exercise writes
  the nonce and the audit slot of the capability's target, here a cell that admits no state write at
  all, while \<open>collect_touched_cells\<close> lists only the target of the action, so the written cell's program
  is not evaluated.\<close>

theorem program_gate_misses_refusal:
  "fst (frozen_run demo_refusal) = Inr () \<and>
   collect_touched_cells 1 demo_refusal = [1] \<and>
   for_action (c_permissions (the (cell_at demo_frozen 3))) SetState = Impossible \<and>
   st_nonce (c_state (the (cell_at demo_frozen 3))) = 0 \<and>
   st_nonce (c_state (the (cell_at (snd (frozen_run demo_refusal)) 3))) = 1"
  by (simp add: frozen_simps demo_refusal_def collect_touched_cells_def frozen_permissions_def
      apply_refusal_def cross_check_def increment_nonce_def checked_add_word_def cell_is_live_def lc_is_live_def
      invalidate_leaf_cache_def map_state_def set_field_ext_def set_field_def Let_def)

end
