(* ===== verification/ExecutorSupply.thy ===== *)
theory ExecutorSupply
  imports ExecutorUndo LedgerDelta
begin

text \<open>
  Conservation of value by the effect handlers. The worth of an executor state is the sum of the
  hosted balances plus the balances of the cells that left for sovereign custody, which the journal
  holds. \<open>shifts d\<close> relates two states whose worth differs by \<open>d\<close>. Steps that move no value shift by 0;
  a transfer, a burn and a mint each write two balances whose shifts cancel; the locale \<open>effect_rel\<close>
  carries the fact through a list of effects with nested exercises.
\<close>

section \<open>Worth\<close>

fun entry_exported :: "journal_entry \<Rightarrow> int" where
  "entry_exported (JMakeSovereign c) = cell_balance c"
| "entry_exported _ = 0"

definition exported :: "ledger_journal \<Rightarrow> int" where
  "exported J = sum_list (map entry_exported J)"

definition worth :: "exec_state \<Rightarrow> int" where
  "worth S = total_balance (cell_at S) + exported (xs_journal S)"

definition shifts :: "int \<Rightarrow> exec_state \<Rightarrow> exec_state \<Rightarrow> bool" where
  "shifts d S T \<longleftrightarrow>
     (finite (dom (cell_at S)) \<longrightarrow> finite (dom (cell_at T)) \<and> worth T = worth S + d)"

lemma exported_record [simp]: "exported (J @ [e]) = exported J + entry_exported e"
  by (simp add: exported_def)

lemma shifts_refl [simp]: "shifts 0 S S"
  by (simp add: shifts_def)

lemma shifts_trans: "shifts d S T \<Longrightarrow> shifts e T U \<Longrightarrow> shifts (d + e) S U"
  by (auto simp: shifts_def)

lemma shifts_same: "cell_at T = cell_at S \<Longrightarrow> xs_journal T = xs_journal S \<Longrightarrow> shifts 0 S T"
  by (simp add: shifts_def worth_def)

lemma shifts_record: "shifts d S T \<Longrightarrow> shifts (d + entry_exported e) S (record_entry T e)"
  by (simp add: shifts_def worth_def)

lemma shifts_plain: "entry_exported e = 0 \<Longrightarrow> shifts d S T \<Longrightarrow> shifts d S (record_entry T e)"
  using shifts_record [of d S T e] by simp

lemma shifts_write:
  assumes "cell_at S i = Some c" "cell_at T = (cell_at S)(i \<mapsto> c')" "xs_journal T = xs_journal S"
    "d = cell_balance c' - cell_balance c"
  shows "shifts d S T"
  using assms total_balance_write [of "cell_at S" i c c'] by (simp add: shifts_def worth_def)

lemma shifts_get_mut:
  assumes "get_mut S i = (r, T)"
  shows "shifts 0 S T"
proof -
  have T: "T = snd (get_mut S i)" using assms by simp
  show ?thesis
  proof (cases "cell_at S i")
    case None
    then show ?thesis unfolding T by (intro shifts_same) (simp_all add: cell_at_get_mut)
  next
    case (Some c)
    then show ?thesis unfolding T by (intro shifts_write [OF Some, of _ "invalidate_leaf_cache c"]) (simp_all add: cell_at_get_mut)
  qed
qed

lemma shifts_with_cell:
  assumes "cell_at S i = Some c" "d = cell_balance (f (invalidate_leaf_cache c)) - cell_balance c"
  shows "shifts d S (with_cell i f S)"
  using assms by (intro shifts_write [OF assms(1)]) (simp_all add: cell_at_with_cell, simp add: with_cell_def)

lemma shifts_put:
  assumes "get_mut S i = (Some c, T)" "d = cell_balance c' - cell_balance c"
  shows "shifts d S (put_cell T i c')"
proof -
  obtain x where x: "cell_at S i = Some x" "c = invalidate_leaf_cache x"
    using get_mut_SomeD(1,2) [OF assms(1)] by blast
  then show ?thesis
    unfolding get_mut_SomeD(3) [OF assms(1)] using assms(2) by (intro shifts_with_cell [OF x(1)]) simp
qed

lemma cell_write_balance:
  assumes "cell_write E {AddsAuthority} i c e c'"
  shows "cell_balance c' = cell_balance c" "entry_exported e = 0"
  using assms
  by (cases rule: cell_write.cases; auto simp: cell_balance_def map_state_def set_field_def set_field_ext_def
        reseal_fields_root_def Let_def dest!: lifecycle_step_upd)+

lemma exec_step_shifts:
  assumes "exec_step E {AddsAuthority} S T"
  shows "shifts 0 S T"
  using assms
proof cases
  case (borrow i)
  then show ?thesis using shifts_get_mut [of S i] by (metis prod.collapse)
next
  case (quiet i c c')
  then show ?thesis
    using silentD(4) [of "invalidate_leaf_cache c" c']
    by (simp add: shifts_with_cell cell_balance_def invalidate_leaf_cache_def)
next
  case (cell i c e c')
  then have "shifts 0 S (with_cell i (\<lambda>_. c') S)"
    using cell_write_balance(1) [OF cell(3)] by (intro shifts_with_cell [OF cell(2)]) simp
  then show ?thesis using cell(1) cell_write_balance(2) [OF cell(3)] by (simp add: shifts_plain)
next
  case (create c)
  then show ?thesis
    using total_balance_new [of "cell_at S" "c_id c" "invalidate_leaf_cache c"]
    by (auto simp: shifts_def worth_def insert_cell_def fresh_cell_def cell_balance_def Let_def
        invalidate_leaf_cache_def)
qed (auto simp: shifts_def worth_def)

lemma exec_steps_shifts:
  assumes "exec_steps E {AddsAuthority} S T"
  shows "shifts 0 S T"
  using assms
proof (induction rule: rtranclp_induct)
  case (step T U)
  then show ?case using shifts_trans [OF step.IH exec_step_shifts [OF step.hyps(2)]] by simp
qed simp

section \<open>The effects that move value\<close>

lemma transfer_shifts:
  assumes "apply_transfer X S at actor src dst amount = (Inr (), T)"
  shows "shifts 0 S T"
proof -
  let ?m = "\<lambda>b. map_state (\<lambda>s. s\<lparr>st_balance := b\<rparr>)"
  obtain a b v where ab: "cell_at S src = Some a" "cell_at S dst = Some b" "src \<noteq> dst"
    and T: "T = with_cell dst (?m (cell_balance b + v)) (with_cell src (?m (cell_balance a - v))
        (record_entry (record_entry S (JSetBalance src (cell_balance a))) (JSetBalance dst (cell_balance b))))"
    using assms by (auto simp: apply_transfer_def Let_def cell_balance_def split: handler_splits)
  let ?S = "record_entry (record_entry S (JSetBalance src (cell_balance a))) (JSetBalance dst (cell_balance b))"
  have debit: "shifts (- v) ?S (with_cell src (?m (cell_balance a - v)) ?S)"
    using ab by (intro shifts_with_cell [of _ _ a]) (auto simp: cell_balance_def map_state_def)
  have credit: "shifts v (with_cell src (?m (cell_balance a - v)) ?S) T"
    unfolding T using ab
    by (intro shifts_with_cell [of _ _ b]) (auto simp: cell_balance_def map_state_def cell_at_with_cell)
  have "shifts 0 S ?S" by (intro shifts_plain) simp_all
  from shifts_trans [OF this shifts_trans [OF debit credit]] show ?thesis by simp
qed

lemma make_sovereign_shifts:
  assumes "apply_make_sovereign E S at i = (Inr (), T)"
  shows "shifts 0 S T"
proof -
  obtain c where c: "cell_at S i = Some c"
    using assms by (auto simp: apply_make_sovereign_def split: if_splits option.splits)
  obtain L where L: "make_sovereign E (xs_ledger S) i = (Inr c, L)"
    using make_sovereign_hosted [OF c] by blast
  have "l_cells L = (cell_at S)(i := None)"
    using L c by (auto simp: make_sovereign_def ledger_remove_def Let_def split: option.splits prod.splits)
  moreover have "T = record_entry (S\<lparr>xs_ledger := L\<rparr>) (JMakeSovereign c)"
    using assms c L by (auto simp: apply_make_sovereign_def split: if_splits)
  ultimately have "cell_at T = (cell_at S)(i := None)" "xs_journal T = xs_journal S @ [JMakeSovereign c]"
    by simp_all
  then show ?thesis
    using c total_balance_remove [of "cell_at S" i c] by (simp add: shifts_def worth_def)
qed

lemma ensure_well_shifts: "ensure_well E S tok w = (r, T) \<Longrightarrow> shifts 0 S T"
  by (rule exec_steps_shifts [OF ensure_well_steps])

lemma shifts_balance_op:
  "get_mut S i = (Some c, T) \<Longrightarrow> debit_balance (c_state c) a = (True, s) \<Longrightarrow>
     shifts (- int (unat a)) S (record_entry (put_cell T i (c\<lparr>c_state := s\<rparr>)) (JSetBalance i b))"
  "get_mut S i = (Some c, T) \<Longrightarrow> credit_balance (c_state c) a = (True, s) \<Longrightarrow>
     shifts (int (unat a)) S (record_entry (put_cell T i (c\<lparr>c_state := s\<rparr>)) (JSetBalance i b))"
  "get_mut S i = (Some c, T) \<Longrightarrow> well_debit_balance (c_state c) a = (True, s) \<Longrightarrow>
     shifts (- int (unat a)) S (record_entry (put_cell T i (c\<lparr>c_state := s\<rparr>)) (JSetBalance i b))"
  by (auto simp: debit_balance_ok credit_balance_ok well_debit_balance_ok cell_balance_def intro!: shifts_plain shifts_put)

lemma shifts_settle: "shifts (- d) S T \<Longrightarrow> shifts 0 T U \<Longrightarrow> shifts d U V \<Longrightarrow> shifts 0 S V"
  using shifts_trans [of "- d" S T 0 U] shifts_trans [of "- d" S U d V] by simp

lemma burn_shifts:
  assumes "apply_burn E X S actor target slot amount = (Inr (), T)"
  shows "shifts 0 S T"
  using assms
  by (auto simp: apply_burn_def Let_def split: handler_splits bool.splits
      intro: shifts_settle [OF shifts_balance_op(1) ensure_well_shifts shifts_balance_op(2)])

lemma mint_shifts:
  assumes "apply_mint E X S actor target slot amount = (Inr (), T)"
  shows "shifts 0 S T"
proof -
  have settle: "shifts 0 S V"
    if "ensure_well E S tok w = (q, R)" "get_mut R w = (Some c, T)"
      "well_debit_balance (c_state c) amount = (True, s)"
      "get_mut (record_entry (put_cell T w (c\<lparr>c_state := s\<rparr>)) (JSetBalance w e)) i = (Some d, U)"
      "credit_balance (c_state d) amount = (True, s')"
      "V = record_entry (put_cell U i (d\<lparr>c_state := s'\<rparr>)) (JSetBalance i f)" for tok w q R c T s e i d U s' f V
    using shifts_trans [OF ensure_well_shifts [OF that(1)]
      shifts_settle [OF shifts_balance_op(3) [OF that(2,3)] shifts_refl shifts_balance_op(2) [OF that(4,5)]]] that(6)
    by simp
  show ?thesis using assms
    by (auto simp: apply_mint_def Let_def split: handler_splits bool.splits intro: settle)
qed

lemma basic_effect_shifts:
  assumes "shielded_distinct E" "apply_basic_effect E X turn target actor eff S = (Inr (), T)"
  shows "shifts 0 S T"
proof (cases "powers eff \<subseteq> {AddsAuthority}")
  case True
  show ?thesis
    using exec_steps_shifts [OF basic_effect_steps [OF assms(1) True, of S X turn target actor]] assms(2) by simp
next
  case False
  then show ?thesis using assms(2)
    by (cases eff)
       (auto simp: apply_basic_effect_def intro: transfer_shifts burn_shifts mint_shifts make_sovereign_shifts)
qed

interpretation conserve: effect_rel E X turn "\<lambda>_. True"
  "\<lambda>S r T. shielded_distinct E \<longrightarrow> r = Inr () \<longrightarrow> shifts 0 S T" for E X turn
  by unfold_locales (auto dest: basic_effect_shifts shifts_trans)

text \<open>Value is conserved by a turn's effects: when a list of effects (transfers, burns, mints, cell
  creations, nested exercises and every other effect) succeeds from a fresh journal, the sum of all
  hosted balances, the negative balances of the issuer wells included, together with the balances of
  the cells that the effects made sovereign, is what it was before, and the ledger stays finite.\<close>

theorem effects_conserve_value:
  assumes "shielded_distinct E" "finite (dom (cell_at S))" "xs_journal S = []"
    and "apply_effects E X turn target actor effs S = (Inr (), T)"
  shows "finite (dom (cell_at T)) \<and>
    total_balance (cell_at T) + exported (xs_journal T) = total_balance (cell_at S)"
  using conserve.effects [OF _ assms(4)] assms(1-3)
  by (simp add: all_basic_True list_all_iff shifts_def worth_def exported_def)

definition demo_payment :: "effect list" where
  "demo_payment = [ETransfer 1 2 30, EMakeSovereign 1]"

lemma demo_payment_runs: "fst (demo_run demo_payment) = Inr ()"
  by (simp add: demo_payment_def demo_exec_simps demo_exec_def get_mut_def Let_def apply_make_sovereign_def
      make_sovereign_def ledger_remove_def)

lemma demo_worth: "finite (dom (cell_at demo_exec))" "total_balance (cell_at demo_exec) = 105"
  by (simp_all add: demo_exec_def total_balance_def map_total_def cell_balance_def)

theorem effects_conserve_value_witness:
  "fst (demo_run demo_payment) = Inr () \<and>
   total_balance (cell_at (snd (demo_run demo_payment))) + exported (xs_journal (snd (demo_run demo_payment))) = 105"
proof -
  have j: "xs_journal demo_exec = []" by (simp add: demo_exec_def)
  have "demo_run demo_payment = (Inr (), snd (demo_run demo_payment))"
    using demo_payment_runs by (metis prod.collapse)
  from effects_conserve_value [OF demo_shielded demo_worth(1) j this] show ?thesis
    using demo_payment_runs demo_worth(2) by simp
qed

end
