(* ===== verification/ExecutorSafety.thy ===== *)
theory ExecutorSafety
  imports ExecutorGates ExecutorSupply
begin

text \<open>
  Further safety properties of the effect handlers: terminal cells stay as they are, a note is spent at
  most once, a tripped revocation channel stops the capabilities that depend on it, and a few
  behaviours of the handlers that their callers should know about.
\<close>

section \<open>Terminal cells\<close>

definition frozen_part where
  "frozen_part c = (c_lifecycle c, st_fields (c_state c), st_fields_map (c_state c), st_nonce (c_state c),
     c_permissions c, c_verification_key c, c_program c)"

definition frozen_at :: "exec_state \<Rightarrow> cell_id \<Rightarrow> exec_state \<Rightarrow> bool" where
  "frozen_at S i T \<longleftrightarrow> (\<forall>c. cell_at S i = Some c \<and> is_terminal (c_lifecycle c) \<longrightarrow>
     (\<exists>c'. cell_at T i = Some c' \<and> frozen_part c' = frozen_part c))"

lemma frozen_at_trans: "frozen_at S i T \<Longrightarrow> frozen_at T i U \<Longrightarrow> frozen_at S i U"
  by (fastforce simp: frozen_at_def frozen_part_def)

lemma terminal_not_live: "is_terminal (c_lifecycle c) \<Longrightarrow> \<not> cell_is_live c"
  by (cases "c_lifecycle c") (auto simp: cell_is_live_def lc_is_live_def)

lemma cell_write_frozen:
  "cell_write E B i c e c' \<Longrightarrow> is_terminal (c_lifecycle c) \<Longrightarrow> frozen_part c' = frozen_part c"
  by (cases rule: cell_write.cases, assumption)
     (auto simp: frozen_part_def map_state_def terminal_not_live dest: lifecycle_step_not_terminal)

lemma frozen_write:
  assumes "cell_at S j = Some c" "cell_at T = (cell_at S)(j \<mapsto> c')"
    "is_terminal (c_lifecycle c) \<Longrightarrow> frozen_part c' = frozen_part c"
  shows "frozen_at S i T"
  using assms by (auto simp: frozen_at_def)

lemma frozen_memo [simp]: "frozen_part (invalidate_leaf_cache c) = frozen_part c"
  by (simp add: frozen_part_def)

lemma exec_step_frozen:
  assumes "exec_step E B S T"
  shows "frozen_at S i T"
  using assms
proof cases
  case (borrow j)
  show ?thesis
  proof (cases "cell_at S j")
    case (Some c)
    then show ?thesis unfolding borrow
      by (intro frozen_write [OF Some, of _ "invalidate_leaf_cache c"]) (simp_all add: cell_at_get_mut)
  qed (simp add: borrow frozen_at_def cell_at_get_mut)
next
  case (quiet j c c')
  then show ?thesis
    by (intro frozen_write [OF quiet(2), of _ c']) (auto simp: cell_at_with_cell frozen_part_def silent_def)
next
  case (cell j c e c')
  then show ?thesis
    using cell_write_frozen [OF cell(3)]
    by (intro frozen_write [OF cell(2), of _ c']) (simp_all add: cell_at_with_cell)
next
  case (sovereign j c)
  then show ?thesis using terminal_not_live [of c] by (auto simp: frozen_at_def l_cells_make_sovereign)
qed (auto simp: frozen_at_def l_cells_insert)

lemma exec_steps_frozen: "exec_steps E B S T \<Longrightarrow> frozen_at S i T"
  by (induction rule: rtranclp_induct)
     (simp add: frozen_at_def, blast intro: frozen_at_trans exec_step_frozen)

text \<open>C20. A destroyed or migrated cell stays what it was: no list of effects, whoever the actor is and
  whatever capabilities are exercised, removes it or changes its lifecycle, its fields, its nonce, its
  permissions, its verification key or its program.\<close>

theorem terminal_cell_frozen:
  assumes "shielded_distinct E" "apply_effects E X turn target actor effs S = (r, T)"
    and "cell_at S i = Some c" "is_terminal (c_lifecycle c)"
  shows "\<exists>c'. cell_at T i = Some c' \<and> c_lifecycle c' = c_lifecycle c \<and>
    st_fields (c_state c') = st_fields (c_state c) \<and> st_fields_map (c_state c') = st_fields_map (c_state c) \<and>
    st_nonce (c_state c') = st_nonce (c_state c) \<and> c_permissions c' = c_permissions c \<and>
    c_verification_key c' = c_verification_key c \<and> c_program c' = c_program c"
  using exec_steps_frozen [OF apply_effects_steps [OF assms(1,2)], of i] assms(3,4)
  by (auto simp: frozen_at_def frozen_part_def)

definition demo_dead :: exec_state where
  "demo_dead = put_cell demo_frozen 3 ((demo_hosted 3 7 0)\<lparr>c_lifecycle := Destroyed 1 2\<rparr>)"

theorem terminal_cell_frozen_witness:
  "c_lifecycle (the (cell_at (snd (apply_effects demo_exec_crypto demo_env 0 1 1
      [EExerciseViaCapability 0 [ECellUnseal 3], EIncrementNonce 3] demo_dead)) 3)) = Destroyed 1 2"
proof -
  let ?c = "(demo_hosted 3 7 0)\<lparr>c_lifecycle := Destroyed 1 2\<rparr>"
  have "cell_at demo_dead 3 = Some ?c" "is_terminal (c_lifecycle ?c)" by (simp_all add: demo_dead_def)
  from terminal_cell_frozen [OF demo_shielded prod.collapse [symmetric] this, of demo_env 0 1 1
      "[EExerciseViaCapability 0 [ECellUnseal 3], EIncrementNonce 3]"]
  show ?thesis by (auto simp del: apply_effects.simps)
qed

section \<open>Spent notes\<close>

definition spend_keys :: "('a exec_crypto_scheme) \<Rightarrow> effect \<Rightarrow> bytes32 list" where
  "spend_keys E eff =
     (case eff of
        ENoteSpend nullifier _ _ _ _ _ \<Rightarrow> [nullifier]
      | EShieldedTransfer p \<Rightarrow>
          (case shielded_nullifiers E p of Some fnfs \<Rightarrow> map (shielded_nullifier_key E) fnfs | None \<Rightarrow> [])
      | _ \<Rightarrow> [])"

text \<open>The nullifiers of a list of effects, those inside exercised capabilities included.\<close>

fun nullifiers_of :: "('a exec_crypto_scheme) \<Rightarrow> effect \<Rightarrow> bytes32 list" where
  "nullifiers_of E (EExerciseViaCapability slot inner) = concat (map (nullifiers_of E) inner)"
| "nullifiers_of E eff = spend_keys E eff"

definition spends :: "exec_state \<Rightarrow> bytes32 list \<Rightarrow> exec_state \<Rightarrow> bool" where
  "spends S ns T \<longleftrightarrow> distinct ns \<and>
     (\<forall>n \<in> set ns. \<not> append_contains (xs_nullifiers S) n \<and> append_contains (xs_nullifiers T) n) \<and>
     (\<forall>n. append_contains (xs_nullifiers S) n \<longrightarrow> append_contains (xs_nullifiers T) n)"

lemma spends_trans: "spends S ns T \<Longrightarrow> spends T ms U \<Longrightarrow> spends S (ns @ ms) U"
  by (auto simp: spends_def)

lemma nullifier_inserted:
  "nullifier_insert s k v = (Inr u, s') \<Longrightarrow>
     \<not> append_contains s k \<and> (\<forall>j. append_contains s' j \<longleftrightarrow> j = k \<or> append_contains s j)"
  by (auto simp: nullifier_insert_def append_insert_def append_contains_def split: if_splits)

lemma nullifiers_step:
  assumes "exec_step E B S T" "append_contains (xs_nullifiers S) n"
  shows "append_contains (xs_nullifiers T) n"
  using assms
  by (cases rule: exec_step.cases)
     (auto simp: with_cell_def nullifier_insert_def append_insert_def append_contains_def)

lemma nullifiers_grow:
  "exec_steps E B S T \<Longrightarrow> append_contains (xs_nullifiers S) n \<Longrightarrow> append_contains (xs_nullifiers T) n"
  by (induction rule: rtranclp_induct) (auto intro: nullifiers_step)

lemma insert_shielded_spends:
  "insert_shielded nfs s = (Inr u, s') \<Longrightarrow>
     distinct nfs \<and> (\<forall>n \<in> set nfs. \<not> append_contains s n) \<and>
     (\<forall>j. append_contains s' j \<longleftrightarrow> j \<in> set nfs \<or> append_contains s j)"
proof (induction nfs arbitrary: s)
  case (Cons nf nfs)
  then obtain w t where "nullifier_insert s nf 0 = (Inr w, t)" "insert_shielded nfs t = (Inr u, s')"
    by (auto split: prod.splits sum.splits)
  then show ?case using Cons.IH [of t] nullifier_inserted [of s nf 0 w t] by auto
qed auto

lemma recorded_nullifiers [simp]:
  "xs_nullifiers (foldl record_spent S nfs) = xs_nullifiers S"
  by (induction nfs arbitrary: S) auto

lemma basic_effect_spends:
  assumes "shielded_distinct E" "apply_basic_effect E X turn target actor eff S = (Inr (), T)"
  shows "spends S (spend_keys E eff) T"
proof -
  have grow: "append_contains (xs_nullifiers T) n" if "append_contains (xs_nullifiers S) n" for n
    using nullifiers_grow [OF basic_effect_powers [OF assms(1), of eff S X turn target actor]] assms(2) that by simp
  then have none: "spends S [] T" by (simp add: spends_def)
  show ?thesis
  proof (cases eff)
    case (ENoteSpend n r v a p vc)
    then have "\<not> append_contains (xs_nullifiers S) n \<and> append_contains (xs_nullifiers T) n"
      using assms(2) nullifier_inserted [of "xs_nullifiers S" n v]
      by (auto simp: apply_basic_effect_def apply_note_spend_def Let_def split: handler_splits)
    then show ?thesis using grow ENoteSpend by (simp add: spends_def spend_keys_def)
  next
    case (EShieldedTransfer p)
    then show ?thesis
      using assms(2) insert_shielded_spends
      by (auto simp: apply_basic_effect_def apply_shielded_transfer_def spend_keys_def spends_def Let_def
          split: handler_splits)
  qed (use none in \<open>simp_all add: spend_keys_def\<close>)
qed

lemma nullifiers_of_basic:
  "(\<forall>slot inner. eff \<noteq> EExerciseViaCapability slot inner) \<Longrightarrow> nullifiers_of E eff = spend_keys E eff"
  by (cases eff) auto

lemma effects_spend:
  "shielded_distinct E \<Longrightarrow> apply_effect E X turn target actor eff S = (Inr (), T) \<Longrightarrow>
     spends S (nullifiers_of E eff) T"
  "shielded_distinct E \<Longrightarrow> apply_effects E X turn target actor effs S = (Inr (), T) \<Longrightarrow>
     spends S (concat (map (nullifiers_of E) effs)) T"
proof (induction E X turn target actor eff S and E X turn target actor effs S
    arbitrary: T and T rule: apply_effect_apply_effects.induct)
  case (1 E X turn target actor eff S)
  show ?case
  proof (cases "\<exists>slot inner. eff = EExerciseViaCapability slot inner")
    case True
    then show ?thesis using 1 by (auto simp: apply_effect_cases(1) split: sum.splits)
  next
    case False
    then show ?thesis
      using 1(3) basic_effect_spends [OF 1(2)] by (simp add: nullifiers_of_basic apply_effect_cases(2))
  qed
next
  case (2 E X turn target actor S)
  then show ?case by (simp add: spends_def)
next
  case (3 E X turn target actor eff effs S)
  obtain U where "apply_effect E X turn target actor eff S = (Inr (), U)"
    and "apply_effects E X turn target actor effs U = (Inr (), T)"
    using 3(4) by (auto split: prod.splits sum.splits)
  then show ?case using 3(1) [OF 3(3)] 3(2) 3(3) spends_trans by fastforce
qed

text \<open>C17. A note is spent at most once: when a list of effects succeeds, the nullifiers of all its note
  spends and shielded transfers, those inside exercised capabilities included, are pairwise different,
  were unspent before, and are spent after; nothing that was spent becomes unspent.\<close>

theorem notes_spent_once:
  assumes "shielded_distinct E" "apply_effects E X turn target actor effs S = (Inr (), T)"
  shows "distinct (concat (map (nullifiers_of E) effs)) \<and>
    set (concat (map (nullifiers_of E) effs)) \<inter> {n. append_contains (xs_nullifiers S) n} = {} \<and>
    set (concat (map (nullifiers_of E) effs)) \<union> {n. append_contains (xs_nullifiers S) n} \<subseteq>
      {n. append_contains (xs_nullifiers T) n}"
  using effects_spend(2) [OF assms] by (auto simp: spends_def)

definition demo_spend :: "bytes32 \<Rightarrow> effect" where
  "demo_spend n = ENoteSpend n 9 5 0 [1] None"

lemma demo_spend_runs: "fst (demo_run [demo_spend 4, demo_spend 6]) = Inr ()"
  by (simp add: demo_spend_def apply_effect_cases apply_basic_effect_def apply_note_spend_def is_null32_def
      demo_env_def demo_exec_def append_new_def append_contains_def nullifier_insert_def append_insert_def Let_def)

theorem notes_spent_once_witness:
  "append_contains (xs_nullifiers (snd (demo_run [demo_spend 4, demo_spend 6]))) 4 \<and>
   fst (demo_run [demo_spend 4, demo_spend 4]) \<noteq> Inr ()"
proof
  have "demo_run [demo_spend 4, demo_spend 6] = (Inr (), snd (demo_run [demo_spend 4, demo_spend 6]))"
    using demo_spend_runs by (metis prod.collapse)
  from notes_spent_once [OF demo_shielded this]
  show "append_contains (xs_nullifiers (snd (demo_run [demo_spend 4, demo_spend 6]))) 4"
    by (simp add: demo_spend_def spend_keys_def del: apply_effects.simps)
  have "\<not> distinct (concat (map (nullifiers_of demo_exec_crypto) [demo_spend 4, demo_spend 4]))"
    by (simp add: demo_spend_def spend_keys_def)
  then show "fst (demo_run [demo_spend 4, demo_spend 4]) \<noteq> Inr ()"
    using notes_spent_once [OF demo_shielded] by (metis prod.collapse)
qed

section \<open>Revocation channels\<close>

lemma tripped_exercise:
  assumes "x_revocation_channels X = Some cs" "is_tripped_in cs ch" "cell_at S actor = Some a"
    and "clist_lookup (c_capabilities a) slot = Some cap" "cr_breadstuff cap = Some ch"
  shows "\<exists>e. exercise_check X (xs_ledger S) actor slot inner = Inl e"
proof -
  have "cs ch \<noteq> None" using assms(2) by (auto simp: is_tripped_in_def split: option.splits)
  moreover obtain e where "check_exercise_permitted cs ch (x_block_height X) (x_block_height X)
      (x_max_introduction_lifetime X) = Inl e"
    using tripped_check [OF assms(2)] by blast
  ultimately show ?thesis using assms by (auto simp: exercise_check_def)
qed

text \<open>A tripped channel stops its capabilities: once a revocation channel has been tripped, and whatever
  registrations, trips, subscriptions and removals of other channels follow, an exercise of a
  capability that depends on it is refused and changes nothing.\<close>

theorem tripped_channel_blocks_exercise:
  assumes "fst (trip_channel cs ch caller reason h) = Inr ()"
    and "(channel_op kept)\<^sup>*\<^sup>* (snd (trip_channel cs ch caller reason h)) cs'" "ch \<in> kept"
    and "x_revocation_channels X = Some cs'" "cell_at S actor = Some a"
    and "clist_lookup (c_capabilities a) slot = Some cap" "cr_breadstuff cap = Some ch"
  shows "\<exists>e. apply_effect E X turn target actor (EExerciseViaCapability slot inner) S = (Inl e, S)"
proof -
  have "is_tripped_in cs' ch"
    using tripped_run [OF assms(2,3) trip_channel_trips [OF assms(1)]] .
  then show ?thesis
    using tripped_exercise [OF assms(4) _ assms(5-7), of inner] by (auto simp: apply_effect_cases(1))
qed

definition demo_channel :: revocation_channel where
  "demo_channel = \<lparr>rc_channel_id = 12, rc_revoker = 5, rc_state = Active, rc_subscribers = [],
     rc_created_at = 0\<rparr>"

definition demo_linked :: exec_state where
  "demo_linked = put_cell demo_exec 1 ((demo_hosted 1 7 100)\<lparr>c_capabilities := \<lparr>cs_refs =
     [(demo_cap 2 0 None None)\<lparr>cr_breadstuff := Some 12\<rparr>], cs_next_slot = 1, cs_cap_root_cache = 0,
     cs_tombstones = []\<rparr>\<rparr>)"

theorem tripped_channel_blocks_exercise_witness:
  "\<exists>e. apply_effect demo_exec_crypto
      (demo_env\<lparr>x_revocation_channels := Some (snd (trip_channel [12 \<mapsto> demo_channel] 12 5 0 9))\<rparr>) 0 1 1
      (EExerciseViaCapability 0 [EIncrementNonce 2]) demo_linked = (Inl e, demo_linked)"
  by (rule tripped_channel_blocks_exercise [where kept = UNIV and cs = "[12 \<mapsto> demo_channel]" and a = "the (cell_at demo_linked 1)"
        and cap = "(demo_cap 2 0 None None)\<lparr>cr_breadstuff := Some 12\<rparr>" and h = 9 and reason = 0
        and caller = 5 and ch = 12, OF _ rtranclp.rtrancl_refl])
     (simp_all add: demo_linked_def clist_lookup_def demo_cap_def trip_channel_def trip_def demo_channel_def
        state_is_tripped_def)

section \<open>Behaviours to know about\<close>

text \<open>A delegation snapshot outlives the expiry of what it was taken from: the cross-cell check lets an
  actor through on a capability of its snapshot whose \<open>expires_at\<close> has passed, while the same capability
  in the actor's own c-list would not count.\<close>

theorem expired_snapshot_honoured:
  assumes "l_cells L actor = Some a" "c_delegation a = Some d" "r \<in> set (dr_snapshot d)" "cr_target r = t"
    and "cr_permissions r \<noteq> Impossible" "is_effect_permitted (cr_allowed_effects r) b"
    and "\<not> unexpired (cr_expires_at r) (x_block_height X)" "l_cells L t = Some c"
    and "for_action (c_permissions c) act = AuthNone"
  shows "check_cross_cell_permission X L actor t act name b = Inr () \<and>
    \<not> has_access_at ((c_capabilities a)\<lparr>cs_refs := [r]\<rparr>) t (x_block_height X)"
proof -
  have "has_access_including_delegation_at a t (x_block_height X)"
    using assms by (auto simp: has_access_including_delegation_at_def dr_has_capability_def list_ex_iff)
  moreover have "permits_effect_including_delegation_at a t (x_block_height X) b"
    using assms by (auto simp: permits_effect_including_delegation_at_def dr_capabilities_for_def list_ex_iff)
  ultimately show ?thesis
    using assms by (auto simp: check_cross_cell_permission_def has_access_at_def Let_def)
qed

definition demo_delegate :: ledger where
  "demo_delegate = (ledger_new demo_exec_crypto)\<lparr>l_cells :=
     [1 \<mapsto> (demo_hosted 1 7 0)\<lparr>c_delegation := Some (delegated_ref_new 9 1 [demo_cap 2 0 None (Some 4)] 0 0 0 0 0)\<rparr>,
      2 \<mapsto> demo_hosted 2 7 0]\<rparr>"

theorem expired_snapshot_honoured_witness:
  "check_cross_cell_permission demo_env demo_delegate 1 2 Access ''Access'' EFFECT_EMIT_EVENT = Inr ()"
  by (rule conjunct1, rule expired_snapshot_honoured [where a = "the (l_cells demo_delegate 1)"
        and d = "delegated_ref_new 9 1 [demo_cap 2 0 None (Some 4)] 0 0 0 0 0" and r = "demo_cap 2 0 None (Some 4)"
        and c = "demo_hosted 2 7 0"])
     (simp_all add: demo_delegate_def demo_cap_def delegated_ref_new_def demo_env_def unexpired_def default_user_def)

definition asset_total :: "bytes32 \<Rightarrow> (cell_id \<rightharpoonup> cell) \<Rightarrow> int" where
  "asset_total tok cells = map_total (\<lambda>c. if c_token_id c = tok then cell_balance c else 0) cells"

definition demo_assets :: exec_state where
  "demo_assets = demo_exec\<lparr>xs_ledger := (xs_ledger demo_exec)\<lparr>l_cells :=
     [1 \<mapsto> demo_hosted 1 7 100, 2 \<mapsto> demo_hosted 2 8 5]\<rparr>\<rparr>"

text \<open>A transfer does not compare the assets of its two cells: value moves from a cell of one token to a
  cell of another, so the total of each asset changes although the total over all assets does not.\<close>

theorem transfer_crosses_assets:
  "fst (apply_effects demo_exec_crypto demo_env 0 1 1 [ETransfer 1 2 30] demo_assets) = Inr () \<and>
   asset_total 7 (cell_at demo_assets) = 100 \<and> asset_total 8 (cell_at demo_assets) = 5 \<and>
   asset_total 7 (cell_at (snd (apply_effects demo_exec_crypto demo_env 0 1 1 [ETransfer 1 2 30] demo_assets))) = 70 \<and>
   asset_total 8 (cell_at (snd (apply_effects demo_exec_crypto demo_env 0 1 1 [ETransfer 1 2 30] demo_assets))) = 35"
  by (simp add: demo_exec_simps demo_assets_def Let_def asset_total_def map_total_def cell_balance_def)

definition demo_attestation :: archival_attestation where
  "demo_attestation = \<lparr>aa_cell_id = 1, aa_archive_start_height = 0, aa_archive_end_height = 4,
     aa_archive_blob_hash = 3, aa_archive_terminal_commitment = 3, aa_archive_terminal_receipt_hash = 3\<rparr>"

text \<open>Archiving receipts freezes the cell: \<open>ReceiptArchive\<close> needs no permission of its target, and after it
  the cell is no longer live, so its owner can neither transfer nor increment its nonce.\<close>

theorem receipt_archive_freezes:
  "determine_required_permissions 1 None [EReceiptArchive 4 demo_attestation] = [] \<and>
   fst (demo_run [EReceiptArchive 4 demo_attestation]) = Inr () \<and>
   fst (demo_run [EReceiptArchive 4 demo_attestation, EIncrementNonce 1]) =
     Inl (TInvalidEffect ''IncrementNonce target cell is not live'') \<and>
   fst (demo_run [EReceiptArchive 4 demo_attestation, ETransfer 1 2 1]) =
     Inl (TInvalidEffect ''Transfer source cell is not live'')"
  by (simp add: determine_required_permissions_def demo_exec_simps demo_exec_def get_mut_def Let_def
      apply_receipt_archive_def archive_def demo_attestation_def attestation_validate_def demo_env_def)

end
