(* ===== verification/ExecutorFactory.thy ===== *)
theory ExecutorFactory
  imports ExecutorSupply
begin

text \<open>
  What a cell created by a factory looks like: the handler of \<open>CreateCellFromFactory\<close> against the
  descriptor of the factory. The lemmas follow the three parts of the new cell that the descriptor
  constrains: its fields, its capabilities, and its verification key.
\<close>

section \<open>Fields\<close>

lemma init_fields_length [simp]: "length (init_fields fvals fs) = length fs"
  by (induction fvals fs rule: init_fields.induct) auto

lemma init_fields_other:
  "i \<notin> fst ` set fvals \<Longrightarrow> init_fields fvals fs ! unat i = fs ! unat i"
  by (induction fvals fs rule: init_fields.induct) (auto simp: nth_list_update word_unat_eq_iff)

lemma init_fields_nth:
  assumes "distinct (map fst fvals)" "unat i < STATE_SLOTS" "length fs = STATE_SLOTS"
  shows "init_fields fvals fs ! unat i =
    (case find (\<lambda>p. fst p = i) fvals of Some p \<Rightarrow> u64_field (snd p) | None \<Rightarrow> fs ! unat i)"
  using assms
proof (induction fvals fs rule: init_fields.induct)
  case (2 idx val rest fs)
  let ?fs = "if unat idx < STATE_SLOTS then fs[unat idx := u64_field val] else fs"
  show ?case
  proof (cases "idx = i")
    case True
    then have "init_fields rest ?fs ! unat i = ?fs ! unat i"
      using 2(2) by (intro init_fields_other) auto
    then show ?thesis using True 2(3,4) by simp
  next
    case False
    then have "?fs ! unat i = fs ! unat i" by (simp add: nth_list_update word_unat_eq_iff)
    then show ?thesis using 2 False by (auto split: option.splits)
  qed
qed simp

lemma from_le_zero: "set bs \<subseteq> {0} \<Longrightarrow> from_le_bytes bs = 0"
  by (induction bs) auto

lemma u64_field_0 [simp]: "u64_field 0 = 0"
  unfolding u64_field_def from_bytes32_def by (rule from_le_zero) (auto simp: numeral_eq_Suc)

lemma factory_field:
  assumes "distinct (map fst (fp_initial_fields params))" "unat i < STATE_SLOTS"
  shows "st_fields (c_state (factory_cell E R fvk owner tok params)) ! unat i =
    u64_field (field_value (fp_initial_fields params) i)"
  using init_fields_nth [OF assms, of "replicate STATE_SLOTS 0"] assms(2)
  by (simp add: factory_cell_simps cell_state_new_def field_value_def FIELD_ZERO_def split: option.splits)

section \<open>Capabilities\<close>

lemma granted_refs:
  assumes "r \<in> set (cs_refs (foldl (\<lambda>cs g. snd (grant H cs (t g) (p g))) cs gs))" "r \<notin> set (cs_refs cs)"
  shows "\<exists>g \<in> set gs. cr_target r = t g \<and> cr_permissions r = p g"
  using assms
proof (induction gs arbitrary: cs)
  case (Cons g gs)
  show ?case
  proof (cases "r \<in> set (cs_refs (snd (grant H cs (t g) (p g))))")
    case True
    then have "cr_target r = t g \<and> cr_permissions r = p g"
      using Cons.prems(2) by (auto simp: grant_def grant_with_breadstuff_def clist_push_refs split: option.splits)
    then show ?thesis by simp
  next
    case False
    then show ?thesis using Cons.IH [of "snd (grant H cs (t g) (p g))"] Cons.prems(1) by auto
  qed
qed simp

section \<open>Verification keys\<close>

text \<open>A validated claim is the key that the handler installs.\<close>

lemma effective_claimed:
  assumes "fr_descriptors R fvk = Some d" "validate_creation E d params = Inr ()"
  shows "effective_vk E R fvk params = fp_program_vk params"
  using validate_creationD(6) [OF assms(2)] assms(1)
  by (auto simp: effective_vk_def validate_child_vk_def Let_def split: option.splits child_vk_strategy.splits if_splits)

lemma factory_program:
  assumes "fr_descriptors R fvk = Some d" "fd_state_constraints d \<noteq> []"
  shows "c_program (factory_cell E R fvk owner tok params) = Predicate (fd_state_constraints d)"
  using assms by (simp add: factory_cell_def map_caps_def Let_def)

section \<open>The created cell\<close>

lemma factory_success:
  assumes "apply_create_cell_from_factory E S fvk owner tok params = (Inr (), T)"
    and "fr_descriptors (xs_factories S) fvk = Some d"
  obtains R where "fr_descriptors R fvk = Some d" "validate_creation E d params = Inr ()"
    "cell_at S (derive_raw E owner tok) = None"
    "cell_at T = (cell_at S)(derive_raw E owner tok \<mapsto> invalidate_leaf_cache (factory_cell E R fvk owner tok params))"
proof -
  obtain R u where R: "validate_and_record E (xs_factories S) fvk params = (Inr u, R)"
    using assms(1) by (auto simp: apply_create_cell_from_factory_def split: handler_splits)
  have valid: "validate_creation E d params = Inr ()" "R = snd (record_creation (xs_factories S) fvk)"
    using R assms(2) by (auto simp: validate_and_record_def split: sum.splits)
  let ?c = "factory_cell E R fvk owner tok params"
  obtain j L where L: "insert_cell (xs_ledger S) ?c = (Inr j, L)"
    and T: "T = record_entry (S\<lparr>xs_factories := R, xs_ledger := L\<rparr>) (JCreateCell (derive_raw E owner tok))"
    using assms(1) R
    by (cases "insert_cell (xs_ledger S) ?c"; cases "fst (insert_cell (xs_ledger S) ?c)")
       (auto simp: apply_create_cell_from_factory_def split: if_splits)
  have "cell_at S (derive_raw E owner tok) = None"
    using L by (auto simp: insert_cell_def Let_def factory_cell_simps split: if_splits)
  moreover have "l_cells L = (cell_at S)(derive_raw E owner tok \<mapsto> invalidate_leaf_cache ?c)"
    using L l_cells_insert [of "xs_ledger S" ?c] calculation by (simp add: factory_cell_simps)
  ultimately show thesis
    using that [of R] valid assms(2) T by (simp add: record_creation_frame)
qed

text \<open>A cell created by a factory conforms to its descriptor: it is new, live, empty and in the factory's
  mode; its verification key is the one claimed and validated (the descriptor's own when it fixes one);
  the factory's state constraints are its program; every initial capability lies under one of the
  templates; and a range the descriptor puts on one of the sixteen slots holds of the value stored there.\<close>

theorem factory_child_conforms:
  assumes "apply_create_cell_from_factory E S fvk owner tok params = (Inr (), T)"
    and "fr_descriptors (xs_factories S) fvk = Some d"
  shows "\<exists>c. cell_at S (derive_raw E owner tok) = None \<and> cell_at T (derive_raw E owner tok) = Some c \<and>
    c_lifecycle c = Live \<and> st_balance (c_state c) = 0 \<and> c_mode c = fd_default_mode d \<and>
    map_option vk_hash_bytes (c_verification_key c) = fp_program_vk params \<and>
    (fd_child_vk_strategy d = None \<longrightarrow> fp_program_vk params = fd_child_program_vk d) \<and>
    (fd_state_constraints d \<noteq> [] \<longrightarrow> c_program c = Predicate (fd_state_constraints d)) \<and>
    (\<forall>r \<in> set (cs_refs (c_capabilities c)). \<exists>t \<in> set (fd_allowed_cap_templates d).
       is_narrower_or_equal (cr_permissions r) (ct_max_permissions t)) \<and>
    (\<forall>i lo hi. FcRange i lo hi \<in> set (fd_field_constraints d) \<and> unat i < STATE_SLOTS \<longrightarrow>
       (\<exists>v. lo \<le> v \<and> v \<le> hi \<and> st_fields (c_state c) ! unat i = u64_field v))"
proof -
  obtain R where R: "fr_descriptors R fvk = Some d" "validate_creation E d params = Inr ()"
    "cell_at S (derive_raw E owner tok) = None"
    "cell_at T = (cell_at S)(derive_raw E owner tok \<mapsto> invalidate_leaf_cache (factory_cell E R fvk owner tok params))"
    using factory_success [OF assms] by metis
  let ?c = "factory_cell E R fvk owner tok params"
  note valid = validate_creationD [OF R(2)]
  have caps: "\<exists>t \<in> set (fd_allowed_cap_templates d). is_narrower_or_equal (cr_permissions r) (ct_max_permissions t)"
    if r: "r \<in> set (cs_refs (c_capabilities ?c))" for r
  proof -
    obtain g where "g \<in> set (fp_initial_caps params)" "cr_permissions r = cg_max_permissions g"
      using granted_refs [OF r [unfolded factory_cell_simps]] by (auto simp: clist_new_def)
    then show ?thesis using valid(3) [of g] by (auto simp: cap_within_templates_def list_ex_iff)
  qed
  have range: "\<exists>v. lo \<le> v \<and> v \<le> hi \<and> st_fields (c_state ?c) ! unat i = u64_field v"
    if "FcRange i lo hi \<in> set (fd_field_constraints d)" "unat i < STATE_SLOTS" for i lo hi
    using valid(4) [OF that(1)] factory_field [OF valid(1) that(2)]
    by (intro exI [of _ "field_value (fp_initial_fields params) i"]) (auto split: if_splits)
  have key: "map_option vk_hash_bytes (c_verification_key ?c) = fp_program_vk params"
    by (simp add: factory_cell_simps effective_claimed [OF R(1,2)] option.map_comp comp_def option.map_ident)
  show ?thesis
    using R(3,4) caps range key valid(2,5) factory_program [OF R(1), of E owner tok params]
    by (intro exI [of _ "invalidate_leaf_cache ?c"])
       (auto simp: factory_cell_simps(4,5) factory_cell_simps(2) invalidate_leaf_cache_def cell_state_new_def)
qed

definition demo_factory :: exec_state where
  "demo_factory = demo_exec\<lparr>xs_factories := snd (deploy registry_new demo_descriptor)\<rparr>"

lemma demo_factory_runs:
  "fst (apply_create_cell_from_factory demo_exec_crypto demo_factory 3 1 8 demo_params) = Inr ()"
  "fr_descriptors (xs_factories demo_factory) 3 = Some demo_descriptor"
proof -
  have "cell_at demo_factory (derive_raw demo_exec_crypto 1 8) = None"
    by (simp add: demo_factory_def demo_exec_def derive_raw_def demo_exec_crypto_def cell_crypto.defs
        demo_cell_crypto_def crypto.defs demo_crypto_def)
  then show "fst (apply_create_cell_from_factory demo_exec_crypto demo_factory 3 1 8 demo_params) = Inr ()"
    by (simp add: apply_create_cell_from_factory_def demo_factory_def validate_and_record_def deploy_def
        registry_new_def demo_descriptor_def demo_params_def validate_creation_def cap_within_templates_def
        field_value_def record_creation_def Let_def insert_cell_def factory_cell_simps)
qed (simp add: demo_factory_def deploy_def registry_new_def demo_descriptor_def)

theorem factory_child_conforms_witness:
  "\<exists>c v. cell_at (snd (apply_create_cell_from_factory demo_exec_crypto demo_factory 3 1 8 demo_params))
       (derive_raw demo_exec_crypto 1 8) = Some c \<and> c_mode c = Hosted \<and>
     st_fields (c_state c) ! 2 = u64_field v \<and> 1 \<le> v \<and> v \<le> 9"
proof -
  have "apply_create_cell_from_factory demo_exec_crypto demo_factory 3 1 8 demo_params =
      (Inr (), snd (apply_create_cell_from_factory demo_exec_crypto demo_factory 3 1 8 demo_params))"
    using demo_factory_runs(1) by (metis prod.collapse)
  from factory_child_conforms [OF this demo_factory_runs(2)]
  obtain c where c: "cell_at (snd (apply_create_cell_from_factory demo_exec_crypto demo_factory 3 1 8 demo_params))
       (derive_raw demo_exec_crypto 1 8) = Some c" "c_mode c = Hosted"
    and range: "\<And>i lo hi. FcRange i lo hi \<in> set (fd_field_constraints demo_descriptor) \<Longrightarrow> unat i < STATE_SLOTS \<Longrightarrow>
       \<exists>v. lo \<le> v \<and> v \<le> hi \<and> st_fields (c_state c) ! unat i = u64_field v"
    by (auto simp: demo_descriptor_def)
  show ?thesis using c range [of 2 1 9] by (auto simp: demo_descriptor_def STATE_SLOTS_def)
qed

end
