(* ===== verification/Pending.thy ===== *)
theory Pending
  imports Prelude "HOL-Library.Finite_Map"
begin

text \<open>
  The registry of pending turns (\<open>turn/src/pending.rs\<close>): submission, dependencies, resolution with its
  cascade to the dependents, timeouts. Turns, receipts, proof conditions and turn errors are type
  parameters, and \<open>Turn::hash\<close> is an argument of the submissions: the registry only stores and returns
  them. The \<open>HashMap\<close> is a finite map; where the code iterates over it, the order of the keys is an
  argument.

  The broken-promise cascade is a recursion over a dependency graph that may have cycles and shared
  dependents, with the registry as its mark of what has been visited. It ends because every call
  removes an entry first; its result is characterised by reachability in the graph before the call.
\<close>

section \<open>Entries\<close>

type_synonym turn_hash = bytes32

datatype 'cond resolution_condition =
    AwaitReceipt (awaited_turn: turn_hash) (awaited_federation: "bytes32 option")
  | AwaitCondition 'cond
  | AwaitHeight u64

datatype 'err broken_reason =
    TurnRejected 'err
  | Timeout
  | FederationUnreachable
  | DependencyBroken "'err broken_reason"

datatype ('receipt, 'err) resolution_outcome =
    Resolved 'receipt
  | Broken "'err broken_reason"

datatype ('turn, 'receipt, 'err) resolution_event =
    EvResolved turn_hash 'receipt
  | EvReadyToExecute turn_hash 'turn
  | EvBroken turn_hash "'err broken_reason"

record ('turn, 'cond) pending_entry =
  pe_turn :: 'turn
  pe_condition :: "'cond resolution_condition"
  pe_dependents :: "turn_hash list"
  pe_submitted_at :: u64
  pe_timeout_height :: u64

type_synonym ('turn, 'cond) pending_registry = "(turn_hash, ('turn, 'cond) pending_entry) fmap"

section \<open>Operations\<close>

definition pending_new :: "('t, 'c) pending_registry" where
  "pending_new = fmempty"

definition submit_pending_at ::
  "('t \<Rightarrow> turn_hash) \<Rightarrow> ('t, 'c) pending_registry \<Rightarrow> 't \<Rightarrow> 'c resolution_condition \<Rightarrow> u64 \<Rightarrow> u64 \<Rightarrow>
     turn_hash \<times> ('t, 'c) pending_registry" where
  "submit_pending_at hash R turn condition timeout_height submitted_at =
     (hash turn, fmupd (hash turn) \<lparr>pe_turn = turn, pe_condition = condition, pe_dependents = [],
        pe_submitted_at = submitted_at, pe_timeout_height = timeout_height\<rparr> R)"

definition submit_pending ::
  "('t \<Rightarrow> turn_hash) \<Rightarrow> ('t, 'c) pending_registry \<Rightarrow> 't \<Rightarrow> 'c resolution_condition \<Rightarrow> u64 \<Rightarrow>
     turn_hash \<times> ('t, 'c) pending_registry" where
  "submit_pending hash R turn condition timeout_height =
     (hash turn, fmupd (hash turn) \<lparr>pe_turn = turn, pe_condition = condition, pe_dependents = [],
        pe_submitted_at = 0, pe_timeout_height = timeout_height\<rparr> R)"

definition register_dependent ::
  "('t, 'c) pending_registry \<Rightarrow> turn_hash \<Rightarrow> turn_hash \<Rightarrow> ('t, 'c) pending_registry" where
  "register_dependent R pending_hash dependent_hash =
     (case fmlookup R pending_hash of
        None \<Rightarrow> R
      | Some e \<Rightarrow>
          if dependent_hash \<in> set (pe_dependents e) then R
          else fmupd pending_hash (e\<lparr>pe_dependents := pe_dependents e @ [dependent_hash]\<rparr>) R)"

fun condition_met_by_receipt :: "'c resolution_condition \<Rightarrow> turn_hash \<Rightarrow> bool" where
  "condition_met_by_receipt (AwaitReceipt turn_hash _) h = (turn_hash = h)"
| "condition_met_by_receipt (AwaitCondition _) h = False"
| "condition_met_by_receipt (AwaitHeight _) h = False"

fun cascade_resolved ::
  "('t, 'c) pending_registry \<Rightarrow> turn_hash \<Rightarrow> turn_hash list \<Rightarrow> ('t, 'r, 'e) resolution_event list" where
  "cascade_resolved R resolved_hash [] = []"
| "cascade_resolved R resolved_hash (dep # deps) =
     (case fmlookup R dep of
        Some e \<Rightarrow>
          if condition_met_by_receipt (pe_condition e) resolved_hash
          then EvReadyToExecute dep (pe_turn e) # cascade_resolved R resolved_hash deps
          else cascade_resolved R resolved_hash deps
      | None \<Rightarrow> cascade_resolved R resolved_hash deps)"

lemma fcard_drop: "fmlookup R k = Some e \<Longrightarrow> fcard (fmdom (fmdrop k R)) < fcard (fmdom R)"
  by (simp only: fmdom_drop) (intro fcard_fminus1_less fmdomI)

text \<open>
  The loop over the dependents in \<open>propagate_broken\<close>, with the recursive call of a dependent unfolded;
  the pairs are the hash and the reason of the \<open>Broken\<close> events.
\<close>

function break_dependents ::
  "'e broken_reason \<Rightarrow> turn_hash list \<Rightarrow> ('t, 'c) pending_registry \<Rightarrow>
     (turn_hash \<times> 'e broken_reason) list \<times> ('t, 'c) pending_registry" where
  "break_dependents reason [] R = ([], R)"
| "break_dependents reason (dep # deps) R =
     (case fmlookup R dep of
        None \<Rightarrow> break_dependents reason deps R
      | Some e \<Rightarrow>
          let dep_reason = DependencyBroken reason;
              (sub_events, R1) = break_dependents dep_reason (pe_dependents e) (fmdrop dep R);
              (events, R2) = break_dependents reason deps R1
          in ((dep, dep_reason) # sub_events @ events, R2))"
  by pat_completeness auto

termination
proof (relation "measures [\<lambda>(_, _, R). fcard (fmdom R), \<lambda>(_, deps, _). length deps]")
  have shrinks: "fcard (fmdom (snd (break_dependents reason deps R))) \<le> fcard (fmdom R)"
    if "break_dependents_dom (reason, deps, R)"
    for reason :: "'e broken_reason" and deps and R :: "('t, 'c) pending_registry"
    using that
  proof (induction rule: break_dependents.pinduct)
    case (2 reason dep deps R)
    show ?case
    proof (cases "fmlookup R dep")
      case None
      then show ?thesis using 2 by (simp add: break_dependents.psimps)
    next
      case (Some e)
      let ?sub = "break_dependents (DependencyBroken reason) (pe_dependents e) (fmdrop dep R)"
      have "fcard (fmdom (snd ?sub)) \<le> fcard (fmdom (fmdrop dep R))" using 2(3) [OF Some refl] by simp
      moreover have "fcard (fmdom (snd (break_dependents reason deps (snd ?sub)))) \<le> fcard (fmdom (snd ?sub))"
        using 2(4) [OF Some refl refl prod.collapse] by simp
      ultimately show ?thesis
        using fcard_drop [OF Some] 2(1) by (simp add: break_dependents.psimps Some Let_def prod.case_eq_if)
    qed
  qed (simp add: break_dependents.psimps)
  fix reason :: "'e broken_reason" and dep deps and R :: "('t, 'c) pending_registry" and e x
    and q sub R1
  assume e: "fmlookup R dep = Some e" "x = DependencyBroken reason"
  then show "((x, pe_dependents e, fmdrop dep R), reason, dep # deps, R)
      \<in> measures [\<lambda>(_, _, R). fcard (fmdom R), \<lambda>(_, deps, _). length deps]"
    using fcard_drop [OF e(1)] by simp
  assume sub: "q = break_dependents x (pe_dependents e) (fmdrop dep R)" "(sub, R1) = q"
    and d: "break_dependents_dom (x, pe_dependents e, fmdrop dep R)"
  then have "fcard (fmdom R1) \<le> fcard (fmdom (fmdrop dep R))"
    using shrinks [OF d] by (metis snd_conv)
  then show "((reason, deps, R1), reason, dep # deps, R)
      \<in> measures [\<lambda>(_, _, R). fcard (fmdom R), \<lambda>(_, deps, _). length deps]"
    using fcard_drop [OF e(1)] by simp
qed simp_all

definition propagate_broken ::
  "('t, 'c) pending_registry \<Rightarrow> turn_hash \<Rightarrow> turn_hash list \<Rightarrow> 'e broken_reason \<Rightarrow>
     ('t, 'r, 'e) resolution_event list \<times> ('t, 'c) pending_registry" where
  "propagate_broken R broken_hash dependents reason =
     (let (broken, R) = break_dependents reason dependents R
      in (map (\<lambda>(h, why). EvBroken h why) ((broken_hash, reason) # broken), R))"

definition resolve ::
  "('t, 'c) pending_registry \<Rightarrow> turn_hash \<Rightarrow> ('r, 'e) resolution_outcome \<Rightarrow>
     ('t, 'r, 'e) resolution_event list \<times> ('t, 'c) pending_registry" where
  "resolve R turn_hash outcome =
     (case fmlookup R turn_hash of
        None \<Rightarrow> ([], R)
      | Some entry \<Rightarrow>
          let R = fmdrop turn_hash R in
          (case outcome of
             Resolved receipt \<Rightarrow>
               (EvResolved turn_hash receipt # cascade_resolved R turn_hash (pe_dependents entry), R)
           | Broken reason \<Rightarrow> propagate_broken R turn_hash (pe_dependents entry) reason))"

fun resolve_timeouts ::
  "turn_hash list \<Rightarrow> ('t, 'c) pending_registry \<Rightarrow>
     ('t, 'r, 'e) resolution_event list \<times> ('t, 'c) pending_registry" where
  "resolve_timeouts [] R = ([], R)"
| "resolve_timeouts (h # hs) R =
     (let (sub_events, R) = resolve R h (Broken Timeout);
          (events, R) = resolve_timeouts hs R
      in (sub_events @ events, R))"

text \<open>\<open>keys\<close> is the order in which the hash map yields its keys.\<close>

definition check_timeouts ::
  "turn_hash list \<Rightarrow> ('t, 'c) pending_registry \<Rightarrow> u64 \<Rightarrow>
     ('t, 'r, 'e) resolution_event list \<times> ('t, 'c) pending_registry" where
  "check_timeouts keys R current_height =
     resolve_timeouts (filter (\<lambda>h. case fmlookup R h of
         Some e \<Rightarrow> pe_timeout_height e < current_height | None \<Rightarrow> False) keys) R"

definition check_height_conditions :: "turn_hash list \<Rightarrow> ('t, 'c) pending_registry \<Rightarrow> u64 \<Rightarrow> turn_hash list" where
  "check_height_conditions keys R current_height =
     filter (\<lambda>h. case fmlookup R h of
         Some e \<Rightarrow> (case pe_condition e of AwaitHeight at \<Rightarrow> at \<le> current_height | _ \<Rightarrow> False)
       | None \<Rightarrow> False) keys"

section \<open>Reachable dependents\<close>

inductive_set depends_on :: "('t, 'c) pending_registry \<Rightarrow> turn_hash set \<Rightarrow> turn_hash set" for R roots where
  root: "h \<in> roots \<Longrightarrow> h |\<in>| fmdom R \<Longrightarrow> h \<in> depends_on R roots"
| dependent: "h \<in> depends_on R roots \<Longrightarrow> fmlookup R h = Some e \<Longrightarrow> d \<in> set (pe_dependents e) \<Longrightarrow>
    d |\<in>| fmdom R \<Longrightarrow> d \<in> depends_on R roots"

definition drop_all :: "turn_hash set \<Rightarrow> ('t, 'c) pending_registry \<Rightarrow> ('t, 'c) pending_registry" where
  "drop_all A R = fmdrop_set A R"

lemma drop_all_lookup [simp]: "fmlookup (drop_all A R) h = (if h \<in> A then None else fmlookup R h)"
  by (simp add: drop_all_def)

lemma drop_all_dom [simp]: "h |\<in>| fmdom (drop_all A R) \<longleftrightarrow> h |\<in>| fmdom R \<and> h \<notin> A"
  by (auto simp: fmlookup_dom_iff split: if_splits)

lemma depends_on_dom: "h \<in> depends_on R roots \<Longrightarrow> h |\<in>| fmdom R"
  by (induction rule: depends_on.induct) auto

lemma depends_on_mono:
  "h \<in> depends_on (drop_all A R) roots \<Longrightarrow> roots \<subseteq> roots' \<Longrightarrow> h \<in> depends_on R roots'"
  by (induction rule: depends_on.induct) (auto intro: depends_on.intros split: if_splits)

lemma depends_on_sub: "h \<in> depends_on R roots \<Longrightarrow> roots \<subseteq> roots' \<Longrightarrow> h \<in> depends_on R roots'"
  by (induction rule: depends_on.induct) (auto intro: depends_on.intros)

definition closed_in :: "('t, 'c) pending_registry \<Rightarrow> turn_hash set \<Rightarrow> bool" where
  "closed_in R A \<longleftrightarrow> (\<forall>h \<in> A. \<forall>e. fmlookup R h = Some e \<longrightarrow> (\<forall>d \<in> set (pe_dependents e). d |\<in>| fmdom R \<longrightarrow> d \<in> A))"

lemma depends_on_closed: "closed_in R (depends_on R roots)"
  by (auto simp: closed_in_def intro: depends_on.dependent)

text \<open>One root can be taken out first: the rest is what the other roots reach without it.\<close>

lemma depends_on_insert:
  "depends_on R (insert r roots) =
     depends_on R {r} \<union> depends_on (drop_all (depends_on R {r}) R) roots" (is "?L = ?A \<union> ?B")
proof
  show "?L \<subseteq> ?A \<union> ?B"
  proof
    fix h assume "h \<in> ?L"
    then show "h \<in> ?A \<union> ?B"
    proof (induction rule: depends_on.induct)
      case (root h)
      then show ?case by (cases "h = r") (auto intro: depends_on.root)
    next
      case (dependent h e d)
      show ?case
      proof (cases "h \<in> ?A \<or> d \<in> ?A")
        case True
        then show ?thesis using depends_on_closed [of R "{r}"] dependent.hyps unfolding closed_in_def by blast
      next
        case False
        then have "d \<in> ?B"
          using dependent.IH dependent.hyps(2-4)
          by (intro depends_on.dependent [of h "drop_all ?A R" roots e d]) simp_all
        then show ?thesis by blast
      qed
    qed
  qed
  have "h \<in> ?L" if "h \<in> ?A" for h using depends_on_sub [OF that] by blast
  moreover have "h \<in> ?L" if "h \<in> ?B" for h using depends_on_mono [OF that] by blast
  ultimately show "?A \<union> ?B \<subseteq> ?L" by blast
qed

lemma drop_one: "fmdrop h R = drop_all {h} R"
  by (rule fmap_ext) auto

lemma drop_more: "drop_all B (drop_all A R) = drop_all (A \<union> B) R"
  by (rule fmap_ext) auto

text \<open>One entry with everything that depends on it.\<close>

lemma depends_on_one:
  assumes "fmlookup R h = Some e"
  shows "depends_on R {h} = insert h (depends_on (fmdrop h R) (set (pe_dependents e)))"
proof
  let ?A = "insert h (depends_on (fmdrop h R) (set (pe_dependents e)))"
  have h: "h |\<in>| fmdom R" using assms by (rule fmdomI)
  show "depends_on R {h} \<subseteq> ?A"
  proof
    fix x assume "x \<in> depends_on R {h}"
    then show "x \<in> ?A"
    proof (induction rule: depends_on.induct)
      case (dependent y ey d)
      show ?case
      proof (cases "d = h")
        case False
        show ?thesis
        proof (cases "y = h")
          case True
          then show ?thesis using dependent assms False by (auto intro: depends_on.root)
        next
          case neq: False
          then have "d \<in> depends_on (fmdrop h R) (set (pe_dependents e))"
            using dependent.IH dependent.hyps(2-4) False
            by (intro depends_on.dependent [of y "fmdrop h R" _ ey d]) simp_all
          then show ?thesis by blast
        qed
      qed simp
    qed simp
  qed
  have "x \<in> depends_on R {h}" if "x \<in> depends_on (fmdrop h R) (set (pe_dependents e))" for x
    using that
  proof (induction rule: depends_on.induct)
    case (root x)
    then show ?case using assms h by (auto intro: depends_on.intros)
  next
    case (dependent x ex d)
    then show ?case by (intro depends_on.dependent [of x R _ ex d]) (auto split: if_splits)
  qed
  then show "?A \<subseteq> depends_on R {h}" using h by (auto intro: depends_on.root)
qed

lemma depends_on_absent: "fmlookup R h = None \<Longrightarrow> depends_on R {h} = {}"
proof -
  assume "fmlookup R h = None"
  then have "h |\<notin>| fmdom R" by (simp add: fmdom_notI)
  then have "x \<notin> depends_on R {h}" for x
    using depends_on.induct [of x R "{h}" "\<lambda>_. False"] by blast
  then show ?thesis by blast
qed

lemma drop_none [simp]: "drop_all {} R = R"
  by (rule fmap_ext) auto

lemma depends_on_none [simp]: "depends_on R {} = {}"
proof -
  have "x \<notin> depends_on R {}" for x using depends_on.induct [of x R "{}" "\<lambda>_. False"] by blast
  then show ?thesis by blast
qed

section \<open>The cascade of a broken promise\<close>

lemma break_dependents_exact:
  "snd (break_dependents reason deps R) = drop_all (depends_on R (set deps)) R \<and>
   distinct (map fst (fst (break_dependents reason deps R))) \<and>
   fst ` set (fst (break_dependents reason deps R)) = depends_on R (set deps)"
proof (induction reason deps R rule: break_dependents.induct)
  case (2 reason dep deps R)
  show ?case
  proof (cases "fmlookup R dep")
    case None
    then show ?thesis
      using 2(1) depends_on_insert [of R dep "set deps"] depends_on_absent [OF None] by simp
  next
    case (Some e)
    let ?sub = "break_dependents (DependencyBroken reason) (pe_dependents e) (fmdrop dep R)"
    let ?A = "depends_on R {dep}" and ?S = "depends_on (fmdrop dep R) (set (pe_dependents e))"
    note one = depends_on_one [OF Some]
    note IH1 = 2(2) [OF Some refl]
    have R1: "snd ?sub = drop_all ?A R"
      using IH1 by (simp add: one drop_one drop_more)
    note IH2 = 2(3) [OF Some refl refl prod.collapse, unfolded R1]
    have fresh: "dep \<notin> ?S" using depends_on_dom [of dep "fmdrop dep R"] by auto
    have apart: "?A \<inter> depends_on (drop_all ?A R) (set deps) = {}"
      using depends_on_dom [of _ "drop_all ?A R" "set deps"] by auto
    have all: "depends_on R (set (dep # deps)) = ?A \<union> depends_on (drop_all ?A R) (set deps)"
      using depends_on_insert [of R dep "set deps"] by simp
    have unfold: "break_dependents reason (dep # deps) R =
        ((dep, DependencyBroken reason) # fst ?sub @ fst (break_dependents reason deps (drop_all ?A R)),
         snd (break_dependents reason deps (drop_all ?A R)))"
      by (simp add: Some Let_def prod.case_eq_if R1)
    have "distinct (map fst (fst (break_dependents reason (dep # deps) R)))"
      using IH1 IH2 fresh apart unfolding unfold one by (auto simp: image_Un)
    then show ?thesis
      using IH1 IH2 unfolding all unfold by (simp add: drop_more one image_Un Un_assoc)
  qed
qed simp

lemma resolve_broken_exact:
  fixes R :: "('t, 'c) pending_registry" and reason :: "'e broken_reason"
  assumes "fmlookup R h = Some entry"
    and "resolve R h (Broken reason) = (events :: ('t, 'r, 'e) resolution_event list, R')"
  shows "R' = drop_all (depends_on R {h}) R \<and>
    (\<exists>broken. events = map (\<lambda>(h, why). EvBroken h why) broken \<and> distinct (map fst broken) \<and>
       fst ` set broken = depends_on R {h} \<and> hd broken = (h, reason))"
proof -
  let ?b = "break_dependents reason (pe_dependents entry) (fmdrop h R)"
  note exact = break_dependents_exact [of reason "pe_dependents entry" "fmdrop h R"]
  have ev: "events = map (\<lambda>(h, why). EvBroken h why) ((h, reason) # fst ?b)" "R' = snd ?b"
    using assms by (auto simp: resolve_def propagate_broken_def Let_def prod.case_eq_if)
  have "h \<notin> depends_on (fmdrop h R) (set (pe_dependents entry))"
    using depends_on_dom [of h "fmdrop h R"] by auto
  then have "distinct (map fst ((h, reason) # fst ?b)) \<and> fst ` set ((h, reason) # fst ?b) = depends_on R {h}"
    using exact by (auto simp: depends_on_one [OF assms(1)])
  moreover have "R' = drop_all (depends_on R {h}) R"
    using exact ev(2) by (simp add: depends_on_one [OF assms(1)] drop_one drop_more)
  ultimately show ?thesis using ev(1) by (intro conjI exI [of _ "(h, reason) # fst ?b"]) auto
qed

lemma resolve_broken_registry:
  fixes R :: "('t, 'c) pending_registry"
  shows "snd (resolve R h (Broken reason) :: ('t, 'r, 'e) resolution_event list \<times> _) = drop_all (depends_on R {h}) R"
proof (cases "fmlookup R h")
  case None
  then show ?thesis by (simp add: resolve_def depends_on_absent)
next
  case (Some entry)
  show ?thesis using resolve_broken_exact [OF Some prod.collapse [symmetric]] by blast
qed

lemma resolve_timeouts_registry:
  fixes R :: "('t, 'c) pending_registry"
  shows "snd (resolve_timeouts hs R :: ('t, 'r, 'e) resolution_event list \<times> _) = drop_all (depends_on R (set hs)) R"
proof (induction hs arbitrary: R)
  case (Cons h hs)
  then show ?case
    by (simp add: resolve_broken_registry prod.case_eq_if Let_def drop_more depends_on_insert [of R h "set hs"])
qed simp

lemma drop_all_fcard:
  assumes "A = fset B" "B |\<subseteq>| fmdom R"
  shows "fcard (fmdom (drop_all A R)) + fcard B = fcard (fmdom R)"
proof -
  have "fmdom (drop_all A R) = fmdom R |-| B" using assms(1) by auto
  moreover have "card (fset B) \<le> card (fset (fmdom R))"
    using assms(2) by (intro card_mono) (simp_all add: less_eq_fset.rep_eq)
  ultimately show ?thesis
    using assms(2) by (simp add: fcard.rep_eq card_Diff_subset less_eq_fset.rep_eq)
qed

text \<open>A broken promise breaks exactly what depends on it: resolving a pending turn as broken removes that
  turn and every pending turn that its dependents reach, directly or through others, cycles and shared
  dependents included, and nothing else; it emits one \<open>Broken\<close> event for each, the turn itself first
  with the given reason.\<close>

theorem broken_promise_cascade:
  fixes R :: "('t, 'c) pending_registry" and reason :: "'e broken_reason"
  assumes "fmlookup R h = Some entry"
    and "resolve R h (Broken reason) = (events :: ('t, 'r, 'e) resolution_event list, R')"
  shows "(\<forall>x. fmlookup R' x = (if x \<in> depends_on R {h} then None else fmlookup R x)) \<and>
    (\<exists>broken. events = map (\<lambda>(h, why). EvBroken h why) broken \<and> distinct (map fst broken) \<and>
       fst ` set broken = depends_on R {h} \<and> hd broken = (h, reason))"
  using resolve_broken_exact [OF assms] by simp

definition demo_entry :: "turn_hash list \<Rightarrow> (nat, unit) pending_entry" where
  "demo_entry deps = \<lparr>pe_turn = 0, pe_condition = AwaitHeight 9, pe_dependents = deps, pe_submitted_at = 0,
     pe_timeout_height = 20\<rparr>"

text \<open>Three turns in a cycle, and one apart.\<close>

definition demo_registry :: "(nat, unit) pending_registry" where
  "demo_registry = fmap_of_list [(1, demo_entry [2, 3]), (2, demo_entry [1]), (3, demo_entry [2]), (4, demo_entry [])]"

abbreviation demo_break :: "(nat, unit, unit) resolution_event list \<times> (nat, unit) pending_registry" where
  "demo_break \<equiv> resolve demo_registry 1 (Broken Timeout)"

lemma demo_break_eval:
  "fst demo_break = [EvBroken 1 Timeout, EvBroken 2 (DependencyBroken Timeout), EvBroken 3 (DependencyBroken Timeout)]"
  by (simp add: resolve_def demo_registry_def demo_entry_def propagate_broken_def fmlookup_of_list Let_def)

theorem broken_promise_cascade_witness:
  "fmlookup (snd demo_break) 3 = None \<and> fmlookup (snd demo_break) 4 = Some (demo_entry [])"
proof -
  have e: "fmlookup demo_registry 1 = Some (demo_entry [2, 3])" "fmlookup demo_registry 4 = Some (demo_entry [])"
    by (simp_all add: demo_registry_def fmlookup_of_list)
  from broken_promise_cascade [OF e(1) prod.collapse [symmetric], where reason = Timeout]
  obtain broken where look: "\<And>x. fmlookup (snd demo_break) x =
      (if x \<in> depends_on demo_registry {1} then None else fmlookup demo_registry x)"
    and b: "fst demo_break = map (\<lambda>(h, why). EvBroken h why) broken"
      "fst ` set broken = depends_on demo_registry {1}"
    by blast
  have "map fst broken = [1, 2, 3]"
    using b(1) demo_break_eval by (auto simp: map_eq_Cons_conv)
  then have "depends_on demo_registry {1} = {1, 2, 3}"
    using b(2) by (metis list.set(1) list.set(2) list.set_map)
  then show ?thesis using look e(2) by simp
qed

text \<open>C21. The cascade ends: resolving a pending turn as broken emits as many events as entries leave the
  registry, so never more than the registry held, whatever cycles the dependencies have.\<close>

theorem broken_cascade_terminates:
  fixes R :: "('t, 'c) pending_registry" and reason :: "'e broken_reason"
  assumes "resolve R h (Broken reason) = (events :: ('t, 'r, 'e) resolution_event list, R')"
  shows "fcard (fmdom R') + length events = fcard (fmdom R)"
proof (cases "fmlookup R h")
  case None
  then show ?thesis using assms by (simp add: resolve_def)
next
  case (Some entry)
  from resolve_broken_exact [OF Some assms] obtain broken where R': "R' = drop_all (depends_on R {h}) R"
    and b: "events = map (\<lambda>(h, why). EvBroken h why) broken" "distinct (map fst broken)"
      "fst ` set broken = depends_on R {h}"
    by blast
  let ?B = "fset_of_list (map fst broken)"
  have B: "fset ?B = depends_on R {h}" using b(3) by (simp add: fset_of_list.rep_eq)
  then have "?B |\<subseteq>| fmdom R" using depends_on_dom [of _ R "{h}"] by (metis fsubsetI)
  from drop_all_fcard [OF B [symmetric] this]
  have "fcard (fmdom R') + fcard ?B = fcard (fmdom R)" unfolding R' .
  moreover have "fcard ?B = length broken"
    using distinct_card [OF b(2)] B b(3) by (simp add: fcard.rep_eq fset_of_list.rep_eq)
  ultimately show ?thesis using b(1) by simp
qed

theorem broken_cascade_terminates_witness:
  "fcard (fmdom (snd demo_break)) + 3 = fcard (fmdom demo_registry)"
  using broken_cascade_terminates [of demo_registry 1 Timeout "fst demo_break" "snd demo_break",
    OF prod.collapse [symmetric]] demo_break_eval
  by simp

text \<open>Timeouts do not depend on the order of the hash map: checking timeouts leaves exactly the entries
  that have not expired and that no expired entry reaches through its dependents; in particular none
  that has expired.\<close>

theorem timeouts_exact:
  fixes R :: "('t, 'c) pending_registry"
  assumes "set keys = fset (fmdom R)"
    and "check_timeouts keys R height = (events :: ('t, 'r, 'e) resolution_event list, R')"
  shows "R' = drop_all (depends_on R {h. \<exists>e. fmlookup R h = Some e \<and> pe_timeout_height e < height}) R \<and>
    (\<forall>h e. fmlookup R' h = Some e \<longrightarrow> height \<le> pe_timeout_height e)"
proof -
  let ?out = "{h. \<exists>e. fmlookup R h = Some e \<and> pe_timeout_height e < height}"
  have "set (filter (\<lambda>h. case fmlookup R h of
      Some e \<Rightarrow> pe_timeout_height e < height | None \<Rightarrow> False) keys) = ?out"
    using assms(1) by (auto split: option.splits intro: fmdomI)
  moreover have "R' = snd (check_timeouts keys R height :: ('t, 'r, 'e) resolution_event list \<times> _)"
    using assms(2) by simp
  ultimately have R': "R' = drop_all (depends_on R ?out) R"
    by (simp only: check_timeouts_def resolve_timeouts_registry)
  moreover have "height \<le> pe_timeout_height e" if "fmlookup R' h = Some e" for h e
  proof (rule ccontr)
    assume "\<not> height \<le> pe_timeout_height e"
    then have "h \<in> depends_on R ?out"
      using that by (intro depends_on.root) (auto simp: R' split: if_splits intro: fmdomI)
    then show False using that by (simp add: R')
  qed
  ultimately show ?thesis by blast
qed

theorem timeouts_exact_witness:
  "fmlookup (snd (check_timeouts [1, 2, 3, 4] demo_registry 30 ::
     (nat, unit, unit) resolution_event list \<times> (nat, unit) pending_registry)) 4 = None"
proof -
  let ?R' = "snd (check_timeouts [1, 2, 3, 4] demo_registry 30 ::
     (nat, unit, unit) resolution_event list \<times> (nat, unit) pending_registry)"
  have "set [1, 2, 3, 4] = fset (fmdom demo_registry)"
    by (auto simp: demo_registry_def fset_of_list.rep_eq)
  from timeouts_exact [OF this prod.collapse [symmetric]]
  have "?R' = drop_all (depends_on demo_registry {h. \<exists>e. fmlookup demo_registry h = Some e \<and>
      pe_timeout_height e < 30}) demo_registry"
    by blast
  moreover have "4 \<in> depends_on demo_registry {h. \<exists>e. fmlookup demo_registry h = Some e \<and> pe_timeout_height e < 30}"
    by (rule depends_on.root) (auto simp: demo_registry_def fmlookup_of_list demo_entry_def)
  ultimately show ?thesis by simp
qed

text \<open>Submitting a pending turn again forgets who waits for it: the entry is replaced by one without
  dependents, so a dependent registered before is not told when the turn resolves.\<close>

theorem resubmission_drops_dependents:
  "fst (resolve (snd (submit_pending hash (register_dependent R (hash turn) dependent) turn condition timeout))
     (hash turn) (Resolved receipt)) = [EvResolved (hash turn) receipt]"
  by (simp add: submit_pending_def resolve_def)

end
