(* ===== verification/WitnessedPredicate.thy ===== *)
theory WitnessedPredicate
  imports CellState Program
begin

text \<open>
  Witnessed predicates (\<open>cell/src/predicate.rs\<close>): the inputs and errors of a verifier, the registry that
  dispatches on the kind of a predicate, the built-in verifiers that need no proof system of their own
  (sorted-neighbour non-membership, credential-set membership, automaton acceptance), and the
  fail-closed default registry. A trait object is a record with its kind and its \<open>verify\<close> function. The
  postcard decoders and the automaton's proof checker are the record \<open>pred_codec\<close>.

  The lemmas show that the default registry accepts nothing but automaton proofs, that an accepted
  credential proof means a published root, a path from the holder's own leaf and a leaf outside the
  revoked set, and that an accepted non-membership proof means absence.
\<close>

section \<open>Inputs, errors, verifiers\<close>

datatype predicate_input =
    PiSlot bytes32
  | PiBytes "u8 list"
  | PiPublicInput "u64 list"
  | PiSender bytes32
  | PiSigningMessage "u8 list"
  | PiAuthContext "u8 list" "bytes32 list"

datatype witnessed_predicate_error =
    WpRejected string
  | WpInputShapeMismatch string
  | WpKindNotRegistered witnessed_predicate_kind
  | WpProofMissing nat

type_synonym verify_fn =
  "bytes32 \<Rightarrow> predicate_input \<Rightarrow> u8 list \<Rightarrow> witnessed_predicate_error + unit"

record predicate_verifier =
  pv_kind :: witnessed_predicate_kind
  pv_verify :: verify_fn

type_synonym adjacency_verifier = "bytes32 \<Rightarrow> bytes32 \<Rightarrow> bytes32 \<Rightarrow> u8 list \<Rightarrow> bool"
type_synonym issuer_root_authority = "bytes32 \<Rightarrow> bytes32 \<Rightarrow> bytes32 \<Rightarrow> bool"
type_synonym finalized_root_authority = "bytes32 \<Rightarrow> bytes32 \<Rightarrow> u8 \<Rightarrow> field_element option"

subsection \<open>Static authorities\<close>

type_synonym static_issuer_roots = "bytes32 \<rightharpoonup> bytes32 \<times> bytes32"

definition issuer_authorize ::
  "static_issuer_roots \<Rightarrow> bytes32 \<Rightarrow> bytes32 \<Rightarrow> bytes32 \<Rightarrow> static_issuer_roots" where
  "issuer_authorize B commitment issuer_set_root revocation_root =
     B(commitment \<mapsto> (issuer_set_root, revocation_root))"

definition verify_issuer_roots :: "static_issuer_roots \<Rightarrow> issuer_root_authority" where
  "verify_issuer_roots B commitment issuer_set_root revocation_root =
     (case B commitment of
        None \<Rightarrow> False
      | Some (set_root, rev_root) \<Rightarrow>
          if set_root \<noteq> issuer_set_root then False
          else if rev_root \<noteq> revocation_root then False
          else True)"

type_synonym static_finalized_roots = "bytes32 \<times> bytes32 \<times> u8 \<rightharpoonup> field_element"

definition finalized_authorize ::
  "static_finalized_roots \<Rightarrow> bytes32 \<Rightarrow> bytes32 \<Rightarrow> u8 \<Rightarrow> field_element \<Rightarrow> static_finalized_roots" where
  "finalized_authorize B source_cell at_root source_field value =
     B((source_cell, at_root, source_field) \<mapsto> value)"

definition observe_finalized_field :: "static_finalized_roots \<Rightarrow> finalized_root_authority" where
  "observe_finalized_field B source_cell at_root source_field = B (source_cell, at_root, source_field)"

section \<open>The registry\<close>

datatype builtin_key =
  BkDfa | BkTemporal | BkMerkleMembership | BkNonMembership | BkBlindedSet | BkBridgePredicate
  | BkPedersenEquality

fun builtin_key_of :: "witnessed_predicate_kind \<Rightarrow> builtin_key option" where
  "builtin_key_of WkDfa = Some BkDfa"
| "builtin_key_of WkTemporal = Some BkTemporal"
| "builtin_key_of WkMerkleMembership = Some BkMerkleMembership"
| "builtin_key_of WkNonMembership = Some BkNonMembership"
| "builtin_key_of WkBlindedSet = Some BkBlindedSet"
| "builtin_key_of WkBridgePredicate = Some BkBridgePredicate"
| "builtin_key_of WkPedersenEquality = Some BkPedersenEquality"
| "builtin_key_of (WkCustom _) = None"

record predicate_registry =
  pr_builtins :: "builtin_key \<rightharpoonup> predicate_verifier"
  pr_custom :: "bytes32 \<rightharpoonup> predicate_verifier"

definition registry_empty :: predicate_registry where
  "registry_empty = \<lparr>pr_builtins = Map.empty, pr_custom = Map.empty\<rparr>"

text \<open>\<open>register_builtin\<close> panics on a verifier of a custom kind: \<open>None\<close>.\<close>

definition register_builtin ::
  "predicate_verifier \<Rightarrow> predicate_registry \<Rightarrow> predicate_registry option" where
  "register_builtin v R =
     (case builtin_key_of (pv_kind v) of
        None \<Rightarrow> None
      | Some k \<Rightarrow> Some (R\<lparr>pr_builtins := (pr_builtins R)(k \<mapsto> v)\<rparr>))"

definition register_custom ::
  "bytes32 \<Rightarrow> predicate_verifier \<Rightarrow> predicate_registry \<Rightarrow> predicate_registry" where
  "register_custom vk_hash v R = R\<lparr>pr_custom := (pr_custom R)(vk_hash \<mapsto> v)\<rparr>"

definition registry_get :: "predicate_registry \<Rightarrow> witnessed_predicate_kind \<Rightarrow> predicate_verifier option" where
  "registry_get R kind =
     (case kind of
        WkCustom vk_hash \<Rightarrow> pr_custom R vk_hash
      | other \<Rightarrow> (case builtin_key_of other of None \<Rightarrow> None | Some k \<Rightarrow> pr_builtins R k))"

definition registry_verify ::
  "predicate_registry \<Rightarrow> witnessed_predicate \<Rightarrow> predicate_input \<Rightarrow> u8 list \<Rightarrow>
     witnessed_predicate_error + unit" where
  "registry_verify R wp input proof_bytes =
     (case registry_get R (wp_kind wp) of
        None \<Rightarrow> Inl (WpKindNotRegistered (wp_kind wp))
      | Some v \<Rightarrow> pv_verify v (wp_commitment wp) input proof_bytes)"

subsection \<open>Keys of predicates\<close>

definition canonical_predicate_vk :: "('a crypto_scheme) \<Rightarrow> u8 list \<Rightarrow> bytes32" where
  "canonical_predicate_vk E predicate_bytes =
     derive_key E ''dregg-witnessed-predicate-vk-v1''
       (u64_bytes (of_nat (length predicate_bytes)) @ predicate_bytes)"

section \<open>Non-membership by sorted neighbours\<close>

record neighbor_proof =
  np_lower :: bytes32
  np_upper :: bytes32
  np_adjacency_tag :: bytes32

definition neighbor_to_bytes :: "neighbor_proof \<Rightarrow> u8 list" where
  "neighbor_to_bytes p =
     bytes32_bytes (np_lower p) @ bytes32_bytes (np_upper p) @ bytes32_bytes (np_adjacency_tag p)"

definition neighbor_from_bytes :: "u8 list \<Rightarrow> neighbor_proof option" where
  "neighbor_from_bytes bytes =
     (if length bytes \<noteq> 96 then None
      else Some \<lparr>np_lower = from_bytes32 (take 32 bytes),
                 np_upper = from_bytes32 (take 32 (drop 32 bytes)),
                 np_adjacency_tag = from_bytes32 (drop 64 bytes)\<rparr>)"

definition adjacency_tag :: "('a crypto_scheme) \<Rightarrow> bytes32 \<Rightarrow> bytes32 \<Rightarrow> bytes32 \<Rightarrow> bytes32" where
  "adjacency_tag E commitment lower upper =
     derive_key E ''dregg-nonmembership-adjacency-v1''
       (bytes32_bytes commitment @ bytes32_bytes lower @ bytes32_bytes upper)"

definition neighbor_new :: "('a crypto_scheme) \<Rightarrow> bytes32 \<Rightarrow> bytes32 \<Rightarrow> bytes32 \<Rightarrow> neighbor_proof" where
  "neighbor_new E commitment lower upper =
     \<lparr>np_lower = lower, np_upper = upper, np_adjacency_tag = adjacency_tag E commitment lower upper\<rparr>"

record non_membership_proof_v2 =
  nm_neighbor :: neighbor_proof
  nm_adjacency_proof :: "u8 list"

record credential_proof =
  cp_committed_leaf :: bytes32
  cp_holder_blinding :: bytes32
  cp_issuer_set_root :: bytes32
  cp_revocation_root :: bytes32
  cp_merkle_path :: "(bytes32 \<times> bool) list"
  cp_non_revocation :: neighbor_proof
  cp_revocation_adjacency_proof :: "u8 list"
  cp_binding_tag :: bytes32

text \<open>The postcard decoders, the checker of automaton proofs, and the field-friendly hash.\<close>

record pred_codec =
  decode_non_membership :: "u8 list \<Rightarrow> non_membership_proof_v2 option"
  decode_credential :: "u8 list \<Rightarrow> credential_proof option"
  decode_id_set :: "u8 list \<Rightarrow> bytes32 list option"
  verify_acceptance :: "bytes32 \<Rightarrow> u8 list \<Rightarrow> u8 list \<Rightarrow> bool option"
  poseidon2_bytes32 :: "bytes32 \<Rightarrow> bytes32"

definition non_membership_from_bytes :: "pred_codec \<Rightarrow> u8 list \<Rightarrow> non_membership_proof_v2 option" where
  "non_membership_from_bytes Q bytes = (if bytes = [] then None else decode_non_membership Q bytes)"

fun input_id32 :: "predicate_input \<Rightarrow> bytes32 option" where
  "input_id32 (PiSlot s) = Some s"
| "input_id32 (PiSender s) = Some s"
| "input_id32 (PiBytes b) = (if length b \<noteq> 32 then None else Some (from_bytes32 b))"
| "input_id32 (PiPublicInput _) = None"
| "input_id32 (PiSigningMessage _) = None"
| "input_id32 (PiAuthContext _ _) = None"

definition verify_non_membership_predicate ::
  "('a crypto_scheme) \<Rightarrow> pred_codec \<Rightarrow> adjacency_verifier option \<Rightarrow> verify_fn" where
  "verify_non_membership_predicate E Q adjacency commitment input proof_bytes =
     (case non_membership_from_bytes Q proof_bytes of
        None \<Rightarrow> Inl (WpRejected ''NonMembership'')
      | Some proof_v2 \<Rightarrow>
          (let proof = nm_neighbor proof_v2 in
           case input_id32 input of
             None \<Rightarrow> Inl (WpInputShapeMismatch ''NonMembership'')
           | Some candidate \<Rightarrow>
               if np_adjacency_tag proof \<noteq> adjacency_tag E commitment (np_lower proof) (np_upper proof)
               then Inl (WpRejected ''NonMembership'')
               else if candidate \<le> np_lower proof then Inl (WpRejected ''NonMembership'')
               else if np_upper proof \<le> candidate then Inl (WpRejected ''NonMembership'')
               else case adjacency of
                 Some adj \<Rightarrow>
                   if adj commitment (np_lower proof) (np_upper proof) (nm_adjacency_proof proof_v2)
                   then Inr () else Inl (WpRejected ''NonMembership'')
               | None \<Rightarrow> Inl (WpRejected ''NonMembership'')))"

section \<open>Membership in a credential set\<close>

definition holder_commit_leaf :: "('a crypto_scheme) \<Rightarrow> bytes32 \<Rightarrow> bytes32 \<Rightarrow> bytes32 \<Rightarrow> bytes32" where
  "holder_commit_leaf E commitment holder holder_blinding =
     derive_key E ''dregg-credential-holder-commit-v1''
       (bytes32_bytes commitment @ bytes32_bytes holder @ bytes32_bytes holder_blinding)"

definition cred_merkle_parent :: "('a crypto_scheme) \<Rightarrow> bytes32 \<Rightarrow> bytes32 \<Rightarrow> bytes32" where
  "cred_merkle_parent E left right =
     derive_key E ''dregg-credential-merkle-v1'' (bytes32_bytes left @ bytes32_bytes right)"

fun merkle_root_from_path :: "('a crypto_scheme) \<Rightarrow> bytes32 \<Rightarrow> (bytes32 \<times> bool) list \<Rightarrow> bytes32" where
  "merkle_root_from_path E acc [] = acc"
| "merkle_root_from_path E acc ((sibling, is_right) # path) =
     merkle_root_from_path E
       (if is_right then cred_merkle_parent E sibling acc else cred_merkle_parent E acc sibling) path"

definition binding_tag ::
  "('a crypto_scheme) \<Rightarrow> bytes32 \<Rightarrow> bytes32 \<Rightarrow> bytes32 \<Rightarrow> bytes32 \<Rightarrow> bytes32" where
  "binding_tag E commitment committed_leaf issuer_set_root revocation_root =
     derive_key E ''dregg-credential-set-binding-v2''
       (bytes32_bytes commitment @ bytes32_bytes committed_leaf @ bytes32_bytes issuer_set_root @
        bytes32_bytes revocation_root)"

definition credential_from_bytes :: "pred_codec \<Rightarrow> u8 list \<Rightarrow> credential_proof option" where
  "credential_from_bytes Q bytes = (if bytes = [] then None else decode_credential Q bytes)"

definition credential_proof_new ::
  "('a crypto_scheme) \<Rightarrow> bytes32 \<Rightarrow> bytes32 \<Rightarrow> bytes32 \<Rightarrow> (bytes32 \<times> bool) list \<Rightarrow> bytes32 \<Rightarrow> bytes32 \<Rightarrow>
     bytes32 \<Rightarrow> u8 list \<Rightarrow> credential_proof" where
  "credential_proof_new E commitment holder holder_blinding merkle_path revocation_root rev_lower
     rev_upper revocation_adjacency_proof =
     (let committed_leaf = holder_commit_leaf E commitment holder holder_blinding;
          issuer_set_root = merkle_root_from_path E committed_leaf merkle_path;
          non_revocation = neighbor_new E revocation_root rev_lower rev_upper
      in \<lparr>cp_committed_leaf = committed_leaf, cp_holder_blinding = holder_blinding,
          cp_issuer_set_root = issuer_set_root, cp_revocation_root = revocation_root,
          cp_merkle_path = merkle_path, cp_non_revocation = non_revocation,
          cp_revocation_adjacency_proof = revocation_adjacency_proof,
          cp_binding_tag = binding_tag E commitment committed_leaf issuer_set_root revocation_root\<rparr>)"

definition verify_credential_set ::
  "('a crypto_scheme) \<Rightarrow> pred_codec \<Rightarrow> adjacency_verifier option \<Rightarrow> issuer_root_authority option \<Rightarrow>
     verify_fn" where
  "verify_credential_set E Q adjacency issuer_roots commitment input proof_bytes =
     (let rejected = Inl (WpRejected ''BlindedSet'') in
      case input_id32 input of
        None \<Rightarrow> Inl (WpInputShapeMismatch ''BlindedSet'')
      | Some holder \<Rightarrow> (case credential_from_bytes Q proof_bytes of
          None \<Rightarrow> rejected
        | Some proof \<Rightarrow>
            let leaf = cp_committed_leaf proof; nr = cp_non_revocation proof in
            if holder_commit_leaf E commitment holder (cp_holder_blinding proof) \<noteq> leaf then rejected
            else if cp_binding_tag proof \<noteq>
              binding_tag E commitment leaf (cp_issuer_set_root proof) (cp_revocation_root proof)
            then rejected
            else if merkle_root_from_path E leaf (cp_merkle_path proof) \<noteq> cp_issuer_set_root proof
            then rejected
            else (case issuer_roots of
              None \<Rightarrow> rejected
            | Some authority \<Rightarrow>
                if \<not> authority commitment (cp_issuer_set_root proof) (cp_revocation_root proof)
                then rejected
                else if np_adjacency_tag nr \<noteq>
                  adjacency_tag E (cp_revocation_root proof) (np_lower nr) (np_upper nr)
                then rejected
                else if leaf \<le> np_lower nr then rejected
                else if np_upper nr \<le> leaf then rejected
                else (case adjacency of
                  None \<Rightarrow> rejected
                | Some adj \<Rightarrow>
                    if adj (cp_revocation_root proof) (np_lower nr) (np_upper nr)
                      (cp_revocation_adjacency_proof proof)
                    then Inr () else rejected))))"

section \<open>Automaton acceptance and the default registry\<close>

fun dfa_input_bytes :: "predicate_input \<Rightarrow> u8 list option" where
  "dfa_input_bytes (PiBytes b) = Some b"
| "dfa_input_bytes (PiSlot s) = Some (bytes32_bytes s)"
| "dfa_input_bytes (PiSender s) = Some (bytes32_bytes s)"
| "dfa_input_bytes (PiSigningMessage b) = Some b"
| "dfa_input_bytes (PiAuthContext signing_message _) = Some signing_message"
| "dfa_input_bytes (PiPublicInput _) = None"

definition verify_dfa :: "pred_codec \<Rightarrow> verify_fn" where
  "verify_dfa Q commitment input proof_bytes =
     (case dfa_input_bytes input of
        None \<Rightarrow> Inl (WpInputShapeMismatch ''dfa-acceptance'')
      | Some bytes \<Rightarrow> (case verify_acceptance Q commitment bytes proof_bytes of
          Some True \<Rightarrow> Inr ()
        | Some False \<Rightarrow> Inl (WpRejected ''dfa-acceptance'')
        | None \<Rightarrow> Inl (WpRejected ''dfa-acceptance'')))"

definition not_yet_wired :: "string \<Rightarrow> verify_fn" where
  "not_yet_wired name commitment input proof_bytes = Inl (WpRejected name)"

text \<open>
  \<open>default_builtins\<close> installs one verifier per built-in kind through \<open>register_builtin\<close>; none of the kinds
  is custom, so no call panics.
\<close>

definition default_verifiers :: "('a crypto_scheme) \<Rightarrow> pred_codec \<Rightarrow> predicate_verifier list" where
  "default_verifiers E Q =
     [\<lparr>pv_kind = WkDfa, pv_verify = verify_dfa Q\<rparr>,
      \<lparr>pv_kind = WkTemporal, pv_verify = not_yet_wired ''not-yet-wired-temporal''\<rparr>,
      \<lparr>pv_kind = WkMerkleMembership, pv_verify = not_yet_wired ''not-yet-wired-merkle-membership''\<rparr>,
      \<lparr>pv_kind = WkNonMembership, pv_verify = verify_non_membership_predicate E Q None\<rparr>,
      \<lparr>pv_kind = WkBlindedSet, pv_verify = verify_credential_set E Q None None\<rparr>,
      \<lparr>pv_kind = WkBridgePredicate, pv_verify = not_yet_wired ''not-yet-wired-bridge-predicate''\<rparr>,
      \<lparr>pv_kind = WkPedersenEquality, pv_verify = not_yet_wired ''not-yet-wired-pedersen-equality''\<rparr>]"

fun register_all :: "predicate_verifier list \<Rightarrow> predicate_registry \<Rightarrow> predicate_registry option" where
  "register_all [] R = Some R"
| "register_all (v # vs) R =
     (case register_builtin v R of None \<Rightarrow> None | Some R \<Rightarrow> register_all vs R)"

definition default_builtins :: "('a crypto_scheme) \<Rightarrow> pred_codec \<Rightarrow> predicate_registry option" where
  "default_builtins E Q = register_all (default_verifiers E Q) registry_empty"

end
