(* ===== verification/Preconditions.thy ===== *)
theory Preconditions
  imports CellState Program
begin

text \<open>
  Preconditions of an action and the evaluation context (\<open>cell/src/preconditions.rs\<close>): the clauses on the
  target cell, on the block height and on the wall clock, the clause vocabulary with its builder, the
  hash that binds preconditions into a signature, and their evaluation. Timestamps are i64 values.
\<close>

section \<open>Data\<close>

record cell_state_precondition =
  cs_nonce :: "u64 option"
  cs_min_nonce :: "u64 option"
  cs_min_balance :: "u64 option"
  cs_field_equals :: "(nat \<times> field_element) list"
  cs_proved_state :: "bool option"

record network_precondition =
  net_min_height :: "u64 option"
  net_max_height :: "u64 option"

record time_range =
  tr_start :: int
  tr_end :: int

record preconditions =
  pc_cell_state :: "cell_state_precondition option"
  pc_network :: "network_precondition option"
  pc_valid_while :: "time_range option"
  pc_witnessed :: "witnessed_predicate list"

record eval_context =
  ec_block_height :: u64
  ec_timestamp :: int
  ec_current_epoch :: u64
  ec_sender :: "bytes32 option"
  ec_sender_epoch_count :: u32
  ec_revealed_preimage :: "bytes32 option"

datatype precondition =
    PcSlotEquals nat field_element
  | PcSlotZero nat
  | PcNonceAtLeast u64
  | PcWitnessed witnessed_predicate

datatype precondition_error =
    PeNonceMismatch u64 u64
  | PeNonceTooLow u64 u64
  | PeInsufficientBalance u64 int
  | PeFieldMismatch nat field_element field_element
  | PeInvalidFieldIndex nat
  | PeProvedStateMismatch bool bool
  | PeHeightTooLow u64 u64
  | PeHeightTooHigh u64 u64
  | PeTimeOutOfRange int int int

definition eval_context_minimal :: "u64 \<Rightarrow> int \<Rightarrow> eval_context" where
  "eval_context_minimal block_height timestamp =
     \<lparr>ec_block_height = block_height, ec_timestamp = timestamp, ec_current_epoch = 0,
      ec_sender = None, ec_sender_epoch_count = 0, ec_revealed_preimage = None\<rparr>"

definition cell_state_precondition_default :: cell_state_precondition where
  "cell_state_precondition_default =
     \<lparr>cs_nonce = None, cs_min_nonce = None, cs_min_balance = None, cs_field_equals = [],
      cs_proved_state = None\<rparr>"

definition preconditions_default :: preconditions where
  "preconditions_default =
     \<lparr>pc_cell_state = None, pc_network = None, pc_valid_while = None, pc_witnessed = []\<rparr>"

definition time_contains :: "time_range \<Rightarrow> int \<Rightarrow> bool" where
  "time_contains r timestamp \<longleftrightarrow> tr_start r \<le> timestamp \<and> timestamp \<le> tr_end r"

section \<open>Clauses\<close>

definition with_cell_state ::
  "(cell_state_precondition \<Rightarrow> cell_state_precondition) \<Rightarrow> preconditions \<Rightarrow> preconditions" where
  "with_cell_state f pre =
     pre\<lparr>pc_cell_state := Some (f (case pc_cell_state pre of
        Some cs \<Rightarrow> cs | None \<Rightarrow> cell_state_precondition_default))\<rparr>"

fun apply_to :: "precondition \<Rightarrow> preconditions \<Rightarrow> preconditions" where
  "apply_to (PcSlotEquals index value) pre =
     with_cell_state (\<lambda>cs. cs\<lparr>cs_field_equals := cs_field_equals cs @ [(index, value)]\<rparr>) pre"
| "apply_to (PcSlotZero index) pre =
     with_cell_state (\<lambda>cs. cs\<lparr>cs_field_equals := cs_field_equals cs @ [(index, 0)]\<rparr>) pre"
| "apply_to (PcNonceAtLeast n) pre =
     with_cell_state (\<lambda>cs. cs\<lparr>cs_min_nonce := Some (case cs_min_nonce cs of
        Some prev \<Rightarrow> max prev n | None \<Rightarrow> n)\<rparr>) pre"
| "apply_to (PcWitnessed wp) pre = pre\<lparr>pc_witnessed := pc_witnessed pre @ [wp]\<rparr>"

definition extend_clauses :: "preconditions \<Rightarrow> precondition list \<Rightarrow> preconditions" where
  "extend_clauses pre clauses = fold apply_to clauses pre"

section \<open>Hash\<close>

definition opt_u64_bytes :: "u64 option \<Rightarrow> u8 list" where
  "opt_u64_bytes x = (case x of Some n \<Rightarrow> 1 # u64_bytes n | None \<Rightarrow> [0])"

definition i64_bytes :: "int \<Rightarrow> u8 list" where
  "i64_bytes x = u64_bytes (word_of_int x)"

definition cell_state_precondition_bytes :: "cell_state_precondition \<Rightarrow> u8 list" where
  "cell_state_precondition_bytes cs =
     opt_u64_bytes (cs_nonce cs) @ opt_u64_bytes (cs_min_nonce cs) @
     opt_u64_bytes (cs_min_balance cs) @
     u64_bytes (of_nat (length (cs_field_equals cs))) @
     concat (map (\<lambda>(index, value). u64_bytes (of_nat index) @ bytes32_bytes value)
       (cs_field_equals cs)) @
     (case cs_proved_state cs of Some proved \<Rightarrow> [if proved then 1 else 0] | None \<Rightarrow> [])"

definition network_precondition_bytes :: "network_precondition \<Rightarrow> u8 list" where
  "network_precondition_bytes net =
     u64_bytes (case net_min_height net of Some h \<Rightarrow> h | None \<Rightarrow> 0) @
     u64_bytes (case net_max_height net of Some h \<Rightarrow> h | None \<Rightarrow> - 1)"

definition witnessed_bytes :: "(witnessed_predicate \<Rightarrow> u8 list) \<Rightarrow> witnessed_predicate \<Rightarrow> u8 list" where
  "witnessed_bytes postcard wp = u64_bytes (of_nat (length (postcard wp))) @ postcard wp"

definition preconditions_hash ::
  "('a crypto_scheme) \<Rightarrow> (witnessed_predicate \<Rightarrow> u8 list) \<Rightarrow> preconditions \<Rightarrow> bytes32" where
  "preconditions_hash E postcard pre =
     (if pc_cell_state pre = None \<and> pc_network pre = None \<and> pc_valid_while pre = None \<and>
         pc_witnessed pre = []
      then derive_key E ''dregg-empty-preconditions-v1'' []
      else blake3 E (ascii ''preconditions-v1'' @
        (case pc_cell_state pre of
           Some cs \<Rightarrow> 1 # cell_state_precondition_bytes cs | None \<Rightarrow> [0]) @
        (case pc_network pre of
           Some net \<Rightarrow> 1 # network_precondition_bytes net | None \<Rightarrow> [0]) @
        (case pc_valid_while pre of
           Some tr \<Rightarrow> 1 # i64_bytes (tr_start tr) @ i64_bytes (tr_end tr) | None \<Rightarrow> [0]) @
        u64_bytes (of_nat (length (pc_witnessed pre))) @
        concat (map (witnessed_bytes postcard) (pc_witnessed pre))))"

section \<open>Evaluation\<close>

fun check_field_equals :: "cell_state \<Rightarrow> (nat \<times> field_element) list \<Rightarrow> precondition_error + unit" where
  "check_field_equals s [] = Inr ()"
| "check_field_equals s ((index, expected) # rest) =
     (case get_field s index of
        Some actual \<Rightarrow>
          if actual = expected then check_field_equals s rest
          else Inl (PeFieldMismatch index expected actual)
      | None \<Rightarrow> Inl (PeInvalidFieldIndex index))"

definition cell_state_evaluate ::
  "cell_state_precondition \<Rightarrow> cell_state \<Rightarrow> precondition_error + unit" where
  "cell_state_evaluate p s = all_ok
     [case cs_nonce p of
        Some expected \<Rightarrow> ensure (st_nonce s = expected) (PeNonceMismatch expected (st_nonce s))
      | None \<Rightarrow> Inr (),
      case cs_min_nonce p of
        Some min_n \<Rightarrow> ensure (min_n \<le> st_nonce s) (PeNonceTooLow min_n (st_nonce s))
      | None \<Rightarrow> Inr (),
      case cs_min_balance p of
        Some min_bal \<Rightarrow>
          ensure (\<not> (st_balance s < 0 \<or> word_of_int (st_balance s) < min_bal))
            (PeInsufficientBalance min_bal (st_balance s))
      | None \<Rightarrow> Inr (),
      check_field_equals s (cs_field_equals p),
      case cs_proved_state p of
        Some expected \<Rightarrow>
          ensure (st_proved_state s = expected) (PeProvedStateMismatch expected (st_proved_state s))
      | None \<Rightarrow> Inr ()]"

definition network_evaluate :: "network_precondition \<Rightarrow> eval_context \<Rightarrow> precondition_error + unit" where
  "network_evaluate p ctx = all_ok
     [case net_min_height p of
        Some min_h \<Rightarrow>
          ensure (min_h \<le> ec_block_height ctx) (PeHeightTooLow min_h (ec_block_height ctx))
      | None \<Rightarrow> Inr (),
      case net_max_height p of
        Some max_h \<Rightarrow>
          ensure (ec_block_height ctx \<le> max_h) (PeHeightTooHigh max_h (ec_block_height ctx))
      | None \<Rightarrow> Inr ()]"

definition preconditions_evaluate ::
  "preconditions \<Rightarrow> cell_state \<Rightarrow> eval_context \<Rightarrow> precondition_error + unit" where
  "preconditions_evaluate pre s ctx = all_ok
     [case pc_cell_state pre of Some p \<Rightarrow> cell_state_evaluate p s | None \<Rightarrow> Inr (),
      case pc_network pre of Some p \<Rightarrow> network_evaluate p ctx | None \<Rightarrow> Inr (),
      case pc_valid_while pre of
        Some r \<Rightarrow> ensure (time_contains r (ec_timestamp ctx))
                    (PeTimeOutOfRange (ec_timestamp ctx) (tr_start r) (tr_end r))
      | None \<Rightarrow> Inr ()]"

section \<open>Clauses add up\<close>

fun clause_holds :: "precondition \<Rightarrow> cell_state \<Rightarrow> bool" where
  "clause_holds (PcSlotEquals index value) s \<longleftrightarrow> get_field s index = Some value"
| "clause_holds (PcSlotZero index) s \<longleftrightarrow> get_field s index = Some 0"
| "clause_holds (PcNonceAtLeast n) s \<longleftrightarrow> n \<le> st_nonce s"
| "clause_holds (PcWitnessed wp) s \<longleftrightarrow> True"

lemma check_field_equals_ok:
  "check_field_equals s fs = Inr u \<longleftrightarrow> (\<forall>(index, value) \<in> set fs. get_field s index = Some value)"
  by (induction fs) (auto split: option.splits if_splits)

lemma cell_state_evaluate_ok:
  "cell_state_evaluate p s = Inr () \<longleftrightarrow>
     (\<forall>n. cs_nonce p = Some n \<longrightarrow> st_nonce s = n) \<and> (\<forall>n. cs_min_nonce p = Some n \<longrightarrow> n \<le> st_nonce s) \<and>
     (\<forall>b. cs_min_balance p = Some b \<longrightarrow> 0 \<le> st_balance s \<and> b \<le> word_of_int (st_balance s)) \<and>
     (\<forall>(index, value) \<in> set (cs_field_equals p). get_field s index = Some value) \<and>
     (\<forall>b. cs_proved_state p = Some b \<longrightarrow> st_proved_state s = b)"
  unfolding cell_state_evaluate_def all_ok_iff
  by (auto simp: check_field_equals_ok not_less split: option.splits)

lemma default_precondition_ok [simp]: "cell_state_evaluate cell_state_precondition_default s = Inr ()"
  by (simp add: cell_state_evaluate_ok cell_state_precondition_default_def)

lemma apply_to_ok:
  "preconditions_evaluate (apply_to clause pre) s ctx = Inr () \<longleftrightarrow>
     preconditions_evaluate pre s ctx = Inr () \<and> clause_holds clause s"
proof -
  define p where "p = (case pc_cell_state pre of Some cs \<Rightarrow> cs | None \<Rightarrow> cell_state_precondition_default)"
  have p: "(case pc_cell_state pre of Some p \<Rightarrow> cell_state_evaluate p s | None \<Rightarrow> Inr ()) = cell_state_evaluate p s"
    by (simp add: p_def split: option.splits)
  show ?thesis
    unfolding preconditions_evaluate_def all_ok_iff
    by (cases clause)
      (auto simp: with_cell_state_def p p_def [symmetric] cell_state_evaluate_ok max_def split: option.splits if_splits)
qed

text \<open>The clause builder means conjunction: evaluating preconditions extended by any list of clauses
  succeeds exactly when the original preconditions succeed and every clause holds of the target cell,
  in whatever order they were added (lower bounds on the nonce merge into their maximum; a witnessed
  clause is left to the executor).\<close>

theorem clauses_conjoin:
  "preconditions_evaluate (extend_clauses pre clauses) s ctx = Inr () \<longleftrightarrow>
     preconditions_evaluate pre s ctx = Inr () \<and> list_all (\<lambda>k. clause_holds k s) clauses"
  unfolding extend_clauses_def by (induction clauses arbitrary: pre) (auto simp: apply_to_ok)

end
