(* ===== verification/ProgramEval.thy ===== *)
theory ProgramEval
  imports WitnessedPredicate Preconditions "HOL-Library.Product_Lexorder"
begin

text \<open>
  The evaluator of cell programs (\<open>cell/src/program/eval.rs\<close>, \<open>collection.rs\<close> and the guards of \<open>types.rs\<close>).
  \<open>evaluate_constraint_full\<close> is one function of the source with an arm per constraint; here each arm is an
  equation of the evaluator of its group, and the longer arms are definitions of their own. A violated
  constraint and a constraint that cannot be checked (no context, no old state, no witness) are
  different errors: negation turns the first into success and passes the second on. Descriptions and
  reasons of errors are left out. Fields are compared as 32-byte arrays, that is as big-endian numbers;
  \<open>field_to_u64\<close> reads the last eight bytes. Arithmetic on i128 that can leave its range wraps as the
  release build does.
\<close>

section \<open>Errors, metadata, witnesses\<close>

datatype program_error =
    ConstraintViolated state_constraint
  | InvalidFieldIndex u8
  | CircuitProofRequired bytes32
  | CustomConstraintUnevaluable bytes32
  | TransitionCheckRequiresOldState state_constraint u8
  | MissingContextField string
  | BoundDeltaNotWired cell_id
  | TemporalPredicateWitnessMissing bytes32
  | WitnessedPredicateRequiresExecutor string
  | NoTransitionCaseMatched
  | WitnessedPredicateRejected string
  | SenderMembershipWitnessMissing
  | PreimageWitnessMissing
  | CustomProgramProofRejected bytes32
  | CapabilityUniquenessRequiresExecutor u8
  | NegationNotLiftable

type_synonym check = "program_error + unit"

datatype witness_kind = WtPreimage32 | WtMerklePath | WtRateLimitCount | WtProofBytes | WtCleartext

record witness_blob =
  wb_kind :: witness_kind
  wb_bytes :: "u8 list"

record witness_bundle =
  wn_blobs :: "witness_blob list"
  wn_registry :: "predicate_registry option"
  wn_finalized_roots :: "finalized_root_authority option"

definition bundle_empty :: witness_bundle where
  "bundle_empty = \<lparr>wn_blobs = [], wn_registry = None, wn_finalized_roots = None\<rparr>"

definition bundle_blob :: "witness_bundle \<Rightarrow> nat \<Rightarrow> witness_blob option" where
  "bundle_blob W i = (if i < length (wn_blobs W) then Some (wn_blobs W ! i) else None)"

record transition_meta =
  tm_method :: bytes32
  tm_effects_mask :: u32
  tm_delegation_epoch :: "u64 option"

definition meta_new :: "bytes32 \<Rightarrow> u32 \<Rightarrow> transition_meta" where
  "meta_new method effects_mask =
     \<lparr>tm_method = method, tm_effects_mask = effects_mask, tm_delegation_epoch = None\<rparr>"

definition meta_wildcard :: transition_meta where
  "meta_wildcard = \<lparr>tm_method = 0, tm_effects_mask = 0, tm_delegation_epoch = None\<rparr>"

definition with_delegation_epoch :: "transition_meta \<Rightarrow> u64 \<Rightarrow> transition_meta" where
  "with_delegation_epoch m epoch = m\<lparr>tm_delegation_epoch := Some epoch\<rparr>"

section \<open>Field helpers\<close>

definition check_index :: "u8 \<Rightarrow> program_error + nat" where
  "check_index index =
     (if STATE_SLOTS \<le> unat index then Inl (InvalidFieldIndex index) else Inr (unat index))"

definition field_to_u64 :: "field_element \<Rightarrow> u64" where
  "field_to_u64 f = ucast f"

definition field_from_u64 :: "u64 \<Rightarrow> field_element" where
  "field_from_u64 v = ucast v"

definition field_delta_i128 :: "field_element \<Rightarrow> field_element \<Rightarrow> int" where
  "field_delta_i128 old new = uint (field_to_u64 new) - uint (field_to_u64 old)"

text \<open>\<open>field_add\<close> adds in the last eight bytes and keeps the first twenty-four of its first operand.\<close>

definition field_add :: "field_element \<Rightarrow> field_element \<Rightarrow> field_element" where
  "field_add a b =
     (a AND NOT (mask 64)) OR ucast (field_to_u64 a + field_to_u64 b)"

definition FIELD_DELTA_RESULT_BITS :: nat where "FIELD_DELTA_RESULT_BITS = 30"

definition field_result_in_range :: "field_element \<Rightarrow> bool" where
  "field_result_in_range f \<longleftrightarrow>
     drop_bit 64 f = 0 \<and> field_to_u64 f < push_bit FIELD_DELTA_RESULT_BITS 1"

definition hash_preimage32 :: "('a crypto_scheme) \<Rightarrow> pred_codec \<Rightarrow> hash_kind \<Rightarrow> bytes32 \<Rightarrow> bytes32" where
  "hash_preimage32 E Q k preimage =
     (case k of HkBlake3 \<Rightarrow> blake3 E (bytes32_bytes preimage)
      | HkPoseidon2 \<Rightarrow> poseidon2_bytes32 Q preimage)"

fun checked_sum :: "program_error \<Rightarrow> cell_state \<Rightarrow> u8 list \<Rightarrow> u64 \<Rightarrow> program_error + u64" where
  "checked_sum overflow s [] acc = Inr acc"
| "checked_sum overflow s (idx # indices) acc =
     and_then (check_index idx) (\<lambda>i.
     and_then (ok_or (checked_add_word acc (field_to_u64 (st_fields s ! i))) overflow) (\<lambda>acc.
     checked_sum overflow s indices acc))"

fun affine_sum_from :: "int \<Rightarrow> (int \<times> u8) list \<Rightarrow> cell_state \<Rightarrow> program_error + int" where
  "affine_sum_from acc [] s = Inr acc"
| "affine_sum_from acc ((k, idx) # terms) s =
     and_then (check_index idx) (\<lambda>i.
       affine_sum_from (wrap_i128 (acc + wrap_i128 (k * uint (field_to_u64 (st_fields s ! i))))) terms s)"

definition affine_sum :: "(int \<times> u8) list \<Rightarrow> cell_state \<Rightarrow> program_error + int" where
  "affine_sum terms s = affine_sum_from 0 terms s"

fun affine_delta_sum_from ::
  "int \<Rightarrow> (int \<times> u8) list \<Rightarrow> cell_state \<Rightarrow> cell_state \<Rightarrow> program_error + int" where
  "affine_delta_sum_from acc [] old new = Inr acc"
| "affine_delta_sum_from acc ((k, idx) # terms) old new =
     and_then (check_index idx) (\<lambda>i.
       affine_delta_sum_from
         (wrap_i128 (acc + wrap_i128 (k * field_delta_i128 (st_fields old ! i) (st_fields new ! i))))
         terms old new)"

definition affine_delta_sum :: "(int \<times> u8) list \<Rightarrow> cell_state \<Rightarrow> cell_state \<Rightarrow> program_error + int" where
  "affine_delta_sum terms old new = affine_delta_sum_from 0 terms old new"

text \<open>
  \<open>reachable_closure\<close> and \<open>dominates_closure\<close> are the same function at two types: a depth-first search
  with fuel one more than the number of edges.
\<close>

fun closure_go :: "('v \<times> 'v) list \<Rightarrow> 'v \<Rightarrow> 'v \<Rightarrow> nat \<Rightarrow> bool" where
  "closure_go edges a b 0 = False"
| "closure_go edges a b (Suc fuel) =
     (a = b \<or> list_ex (\<lambda>(src, mid). src = a \<and> closure_go edges mid b fuel) edges)"

definition reachable_closure :: "(u64 \<times> u64) list \<Rightarrow> u64 \<Rightarrow> u64 \<Rightarrow> bool" where
  "reachable_closure edges a b = closure_go edges a b (length edges + 1)"

definition dominates_closure ::
  "(field_element \<times> field_element) list \<Rightarrow> field_element \<Rightarrow> field_element \<Rightarrow> bool" where
  "dominates_closure edges a b = closure_go edges a b (length edges + 1)"

text \<open>Pairs of arrays sort as the concatenated 64 bytes do: lexicographically.\<close>

definition clearance_graph_root ::
  "('a crypto_scheme) \<Rightarrow> (field_element \<times> field_element) list \<Rightarrow> field_element" where
  "clearance_graph_root E edges =
     (let canon = remdups_adj (sort edges)
      in blake3 E (ascii ''dregg.clearance-graph-root.v1'' @
           rev (u64_bytes (of_nat (length canon))) @
           concat (map (\<lambda>(hi, lo). bytes32_bytes hi @ bytes32_bytes lo) canon)))"

definition count_ge_set_commitment :: "('a crypto_scheme) \<Rightarrow> bytes32 set \<Rightarrow> field_element" where
  "count_ge_set_commitment E elements =
     derive_key E ''dregg-countge-set-v1''
       (u64_bytes (of_nat (card elements)) @ concat (map bytes32_bytes (sorted_list_of_set elements)))"

definition credential_set_commitment :: "('a crypto_scheme) \<Rightarrow> bytes32 \<Rightarrow> bytes32 \<Rightarrow> bytes32" where
  "credential_set_commitment E issuer_cell credential_schema_id =
     derive_key E ''dregg-credential-set-v1''
       (bytes32_bytes issuer_cell @ bytes32_bytes credential_schema_id)"

section \<open>Collections\<close>

definition elem_read :: "field_element option list \<Rightarrow> u32 \<Rightarrow> field_element option" where
  "elem_read elem offset = (if unat offset < length elem then elem ! unat offset else None)"

fun elem_anchor :: "elem_pred_atom \<Rightarrow> u32" where
  "elem_anchor (EpFieldEquals offset _) = offset"
| "elem_anchor (EpFieldGte offset _) = offset"
| "elem_anchor (EpFieldLte offset _) = offset"
| "elem_anchor (EpFieldInSet offset _) = offset"

fun elem_eval :: "elem_pred_atom \<Rightarrow> field_element option list \<Rightarrow> bool" where
  "elem_eval (EpFieldEquals offset value) elem = (elem_read elem offset = Some value)"
| "elem_eval (EpFieldGte offset value) elem =
     (case elem_read elem offset of Some x \<Rightarrow> value \<le> x | None \<Rightarrow> False)"
| "elem_eval (EpFieldLte offset value) elem =
     (case elem_read elem offset of Some x \<Rightarrow> x \<le> value | None \<Rightarrow> False)"
| "elem_eval (EpFieldInSet offset vals) elem =
     (case elem_read elem offset of Some x \<Rightarrow> field_to_u64 x \<in> set vals | None \<Rightarrow> False)"

fun coll_anchor :: "coll_pred \<Rightarrow> u32" where
  "coll_anchor (CpCountSatGe _ p) = elem_anchor p"
| "coll_anchor (CpAllMembers p) = elem_anchor p"
| "coll_anchor (CpExistsMember p) = elem_anchor p"
| "coll_anchor (CpSumOfLe offset _) = offset"
| "coll_anchor (CpSumOfGe offset _) = offset"
| "coll_anchor (CpMOfNDistinct _ key_offset _) = key_offset"

definition coll_sum :: "field_element option list list \<Rightarrow> u32 \<Rightarrow> int" where
  "coll_sum coll offset = sum_list (map (\<lambda>e.
     case elem_read e offset of Some x \<Rightarrow> uint (field_to_u64 x) | None \<Rightarrow> 0) coll)"

definition distinct_keys :: "u32 \<Rightarrow> elem_pred_atom \<Rightarrow> field_element option list list \<Rightarrow> u64 set" where
  "distinct_keys key_offset approved coll =
     set (map field_to_u64 (List.map_filter (\<lambda>e. elem_read e key_offset) (filter (elem_eval approved) coll)))"

fun coll_eval :: "coll_pred \<Rightarrow> field_element option list list \<Rightarrow> bool" where
  "coll_eval (CpCountSatGe m p) coll = (unat m \<le> length (filter (elem_eval p) coll))"
| "coll_eval (CpSumOfLe offset bound) coll = (coll_sum coll offset \<le> bound)"
| "coll_eval (CpSumOfGe offset bound) coll = (bound \<le> coll_sum coll offset)"
| "coll_eval (CpAllMembers p) coll = list_all (elem_eval p) coll"
| "coll_eval (CpExistsMember p) coll = list_ex (elem_eval p) coll"
| "coll_eval (CpMOfNDistinct m key_offset approved) coll =
     (unat m \<le> card (distinct_keys key_offset approved coll))"

text \<open>
  The reading loop, over the look-up of a key: elements of \<open>stride\<close> keys until the anchor key of an
  element is absent or \<open>fuel\<close> elements have been read.
\<close>

fun read_elements :: "(nat \<Rightarrow> field_element option) \<Rightarrow> nat \<Rightarrow> nat \<Rightarrow> nat \<Rightarrow> nat \<Rightarrow> field_element option list list" where
  "read_elements look stride anchor i 0 = []"
| "read_elements look stride anchor i (Suc fuel) =
     (if look (i * stride + anchor) = None then []
      else map (\<lambda>f. look (i * stride + f)) [0..<stride] # read_elements look stride anchor (Suc i) fuel)"

definition collected :: "(nat \<Rightarrow> field_element option) \<Rightarrow> u32 \<Rightarrow> u32 \<Rightarrow> u32 \<Rightarrow> field_element option list list option" where
  "collected look stride fuel anchor =
     (if stride = 0 then None
      else let coll = read_elements look (unat stride) (unat anchor) 0 (unat fuel)
           in if coll = [] then None else Some coll)"

text \<open>Heap keys have 32 bits; a larger key is absent.\<close>

definition read_collection ::
  "cell_state \<Rightarrow> u32 \<Rightarrow> u32 \<Rightarrow> u32 \<Rightarrow> u32 \<Rightarrow> field_element option list list option" where
  "read_collection s collection_id stride fuel anchor =
     collected (\<lambda>k. if k < 2 ^ 32 then get_heap s collection_id (of_nat k) else None) stride fuel anchor"

text \<open>Keys of the overflow map have 64 bits; their sums wrap.\<close>

definition read_collection_fields ::
  "cell_state \<Rightarrow> u64 \<Rightarrow> u32 \<Rightarrow> u32 \<Rightarrow> u32 \<Rightarrow> field_element option list list option" where
  "read_collection_fields s base stride fuel anchor =
     collected (\<lambda>k. get_field_ext s (base + of_nat k)) stride fuel anchor"

section \<open>Checks of the new state\<close>

abbreviation violated :: "state_constraint \<Rightarrow> program_error" where
  "violated \<equiv> ConstraintViolated"

definition arm_field_equals :: "state_constraint \<Rightarrow> u8 \<Rightarrow> field_element \<Rightarrow> cell_state \<Rightarrow> check" where
  "arm_field_equals c index value new =
     and_then (check_index index) (\<lambda>i. ensure (st_fields new ! i = value) (violated c))"

definition arm_field_gte :: "state_constraint \<Rightarrow> u8 \<Rightarrow> field_element \<Rightarrow> cell_state \<Rightarrow> check" where
  "arm_field_gte c index value new =
     and_then (check_index index) (\<lambda>i. ensure (value \<le> st_fields new ! i) (violated c))"

definition arm_field_lte :: "state_constraint \<Rightarrow> u8 \<Rightarrow> field_element \<Rightarrow> cell_state \<Rightarrow> check" where
  "arm_field_lte c index value new =
     and_then (check_index index) (\<lambda>i. ensure (st_fields new ! i \<le> value) (violated c))"

definition arm_field_lte_field :: "state_constraint \<Rightarrow> u8 \<Rightarrow> u8 \<Rightarrow> cell_state \<Rightarrow> check" where
  "arm_field_lte_field c left right new =
     and_then (check_index left) (\<lambda>l. and_then (check_index right) (\<lambda>r.
       ensure (st_fields new ! l \<le> st_fields new ! r) (violated c)))"

definition arm_field_lte_other :: "state_constraint \<Rightarrow> u8 \<Rightarrow> u8 \<Rightarrow> int \<Rightarrow> cell_state \<Rightarrow> check" where
  "arm_field_lte_other c index other delta new =
     and_then (check_index index) (\<lambda>i. and_then (check_index other) (\<lambda>j.
       ensure (uint (field_to_u64 (st_fields new ! i)) \<le> uint (field_to_u64 (st_fields new ! j)) + delta)
         (violated c)))"

definition arm_sum_equals :: "state_constraint \<Rightarrow> u8 list \<Rightarrow> field_element \<Rightarrow> cell_state \<Rightarrow> check" where
  "arm_sum_equals c indices value new =
     and_then (checked_sum (violated c) new indices 0) (\<lambda>acc.
       ensure (acc = field_to_u64 value) (violated c))"

definition arm_balance_gte :: "state_constraint \<Rightarrow> u64 \<Rightarrow> cell_state \<Rightarrow> check" where
  "arm_balance_gte c min_bal new =
     ensure (\<not> (st_balance new < 0 \<or> word_of_int (st_balance new) < min_bal)) (violated c)"

definition arm_balance_lte :: "state_constraint \<Rightarrow> u64 \<Rightarrow> cell_state \<Rightarrow> check" where
  "arm_balance_lte c max_bal new =
     ensure (\<not> (0 \<le> st_balance new \<and> max_bal < word_of_int (st_balance new))) (violated c)"

definition arm_sym_eq :: "state_constraint \<Rightarrow> u8 \<Rightarrow> u64 \<Rightarrow> cell_state \<Rightarrow> check" where
  "arm_sym_eq c index symbol new =
     and_then (check_index index) (\<lambda>i. ensure (field_to_u64 (st_fields new ! i) = symbol) (violated c))"

definition arm_member_of :: "state_constraint \<Rightarrow> u8 \<Rightarrow> u64 list \<Rightarrow> cell_state \<Rightarrow> check" where
  "arm_member_of c index vals new =
     and_then (check_index index) (\<lambda>i. ensure (field_to_u64 (st_fields new ! i) \<in> set vals) (violated c))"

definition arm_dig_field_eq :: "state_constraint \<Rightarrow> u8 \<Rightarrow> u8 \<Rightarrow> cell_state \<Rightarrow> check" where
  "arm_dig_field_eq c left right new =
     and_then (check_index left) (\<lambda>l. and_then (check_index right) (\<lambda>r.
       ensure (st_fields new ! l = st_fields new ! r) (violated c)))"

definition arm_prefix_of :: "state_constraint \<Rightarrow> u8 list \<Rightarrow> u64 list \<Rightarrow> cell_state \<Rightarrow> check" where
  "arm_prefix_of c seg_indices prefix_segs new =
     (if length seg_indices < length prefix_segs then Inl (violated c)
      else check_all (\<lambda>(seg, want). and_then (check_index seg) (\<lambda>i.
             ensure (field_to_u64 (st_fields new ! i) = want) (violated c)))
           (zip seg_indices prefix_segs))"

definition arm_in_range :: "state_constraint \<Rightarrow> u8 \<Rightarrow> u64 \<Rightarrow> u64 \<Rightarrow> cell_state \<Rightarrow> check" where
  "arm_in_range c index lo hi new =
     and_then (check_index index) (\<lambda>i.
       let v = field_to_u64 (st_fields new ! i) in ensure (lo \<le> v \<and> v \<le> hi) (violated c))"

definition arm_affine_le :: "state_constraint \<Rightarrow> (int \<times> u8) list \<Rightarrow> int \<Rightarrow> cell_state \<Rightarrow> check" where
  "arm_affine_le c terms bound new =
     and_then (affine_sum terms new) (\<lambda>acc. ensure (acc \<le> bound) (violated c))"

definition arm_affine_eq :: "state_constraint \<Rightarrow> (int \<times> u8) list \<Rightarrow> int \<Rightarrow> cell_state \<Rightarrow> check" where
  "arm_affine_eq c terms bound new =
     and_then (affine_sum terms new) (\<lambda>acc. ensure (acc = bound) (violated c))"

definition arm_reachable :: "state_constraint \<Rightarrow> u8 \<Rightarrow> u64 \<Rightarrow> (u64 \<times> u64) list \<Rightarrow> cell_state \<Rightarrow> check" where
  "arm_reachable c from_index to_label edges new =
     and_then (check_index from_index) (\<lambda>i.
       ensure (reachable_closure edges (field_to_u64 (st_fields new ! i)) to_label) (violated c))"

definition arm_clearance_dominates ::
  "('a crypto_scheme) \<Rightarrow> state_constraint \<Rightarrow> u8 \<Rightarrow> u8 \<Rightarrow> u8 \<Rightarrow> (field_element \<times> field_element) list \<Rightarrow>
     cell_state \<Rightarrow> check" where
  "arm_clearance_dominates E c actor_label_index box_index root_index edges new =
     and_then (check_index actor_label_index) (\<lambda>a. and_then (check_index box_index) (\<lambda>b.
     and_then (check_index root_index) (\<lambda>r. all_ok
       [ensure (clearance_graph_root E edges = st_fields new ! r) (violated c),
        ensure (dominates_closure edges (st_fields new ! a) (st_fields new ! b)) (violated c)])))"

definition arm_heap_field_lte_other ::
  "state_constraint \<Rightarrow> u64 \<Rightarrow> u64 \<Rightarrow> int \<Rightarrow> cell_state \<Rightarrow> check" where
  "arm_heap_field_lte_other c key other_key delta new =
     (case get_field_ext new key of
        None \<Rightarrow> Inl (violated c)
      | Some x \<Rightarrow> (case get_field_ext new other_key of
          None \<Rightarrow> Inl (violated c)
        | Some y \<Rightarrow> ensure (uint (field_to_u64 x) \<le> uint (field_to_u64 y) + delta) (violated c)))"

definition arm_collection_aggregate ::
  "state_constraint \<Rightarrow> u32 \<Rightarrow> u32 \<Rightarrow> u32 \<Rightarrow> coll_pred \<Rightarrow> cell_state \<Rightarrow> check" where
  "arm_collection_aggregate c collection_id stride fuel pred new =
     (case read_collection new collection_id stride fuel (coll_anchor pred) of
        None \<Rightarrow> Inl (violated c)
      | Some coll \<Rightarrow> ensure (coll_eval pred coll) (violated c))"

definition arm_fields_collection_aggregate ::
  "state_constraint \<Rightarrow> u64 \<Rightarrow> u32 \<Rightarrow> u32 \<Rightarrow> coll_pred \<Rightarrow> cell_state \<Rightarrow> check" where
  "arm_fields_collection_aggregate c base stride fuel pred new =
     (case read_collection_fields new base stride fuel (coll_anchor pred) of
        None \<Rightarrow> Inl (violated c)
      | Some coll \<Rightarrow> ensure (coll_eval pred coll) (violated c))"

definition evaluate_value :: "('a crypto_scheme) \<Rightarrow> value_constraint \<Rightarrow> cell_state \<Rightarrow> check" where
  "evaluate_value E v new =
     (let c = ScAtom (ScValue v) in
      case v of
        ScFieldEquals index value \<Rightarrow> arm_field_equals c index value new
      | ScFieldGte index value \<Rightarrow> arm_field_gte c index value new
      | ScFieldLte index value \<Rightarrow> arm_field_lte c index value new
      | ScFieldLteField left right \<Rightarrow> arm_field_lte_field c left right new
      | ScFieldLteOther index other delta \<Rightarrow> arm_field_lte_other c index other delta new
      | ScSumEquals indices value \<Rightarrow> arm_sum_equals c indices value new
      | ScBalanceGte min_bal \<Rightarrow> arm_balance_gte c min_bal new
      | ScBalanceLte max_bal \<Rightarrow> arm_balance_lte c max_bal new
      | ScSymEq index symbol \<Rightarrow> arm_sym_eq c index symbol new
      | ScSymMemberOf index vals \<Rightarrow> arm_member_of c index vals new
      | ScDigEq index digest \<Rightarrow> arm_field_equals c index digest new
      | ScDigFieldEq left right \<Rightarrow> arm_dig_field_eq c left right new
      | ScMemberOf index vals \<Rightarrow> arm_member_of c index vals new
      | ScPrefixOf seg_indices prefix_segs \<Rightarrow> arm_prefix_of c seg_indices prefix_segs new
      | ScInRangeTwoSided index lo hi \<Rightarrow> arm_in_range c index lo hi new
      | ScAffineLe terms bound \<Rightarrow> arm_affine_le c terms bound new
      | ScAffineEq terms bound \<Rightarrow> arm_affine_eq c terms bound new
      | ScReachable from_index to_label edges \<Rightarrow> arm_reachable c from_index to_label edges new
      | ScClearanceDominates actor box root edges \<Rightarrow> arm_clearance_dominates E c actor box root edges new
      | ScHeapFieldLteOther key other_key delta \<Rightarrow> arm_heap_field_lte_other c key other_key delta new
      | ScCollectionAggregate coll stride fuel pred \<Rightarrow> arm_collection_aggregate c coll stride fuel pred new
      | ScFieldsCollectionAggregate base stride fuel pred \<Rightarrow>
          arm_fields_collection_aggregate c base stride fuel pred new)"

section \<open>Checks of the step from the old state\<close>

text \<open>
  Most transition checks pass without an old state on a fresh cell (nonce zero) and ask for the old
  state otherwise.
\<close>

definition against_old ::
  "state_constraint \<Rightarrow> u8 \<Rightarrow> cell_state \<Rightarrow> cell_state option \<Rightarrow> (cell_state \<Rightarrow> check) \<Rightarrow> check" where
  "against_old c index new old k =
     (case old of
        Some o_s \<Rightarrow> k o_s
      | None \<Rightarrow> if st_nonce new \<noteq> 0 then Inl (TransitionCheckRequiresOldState c index) else Inr ())"

definition arm_immutable :: "state_constraint \<Rightarrow> u8 \<Rightarrow> cell_state \<Rightarrow> cell_state option \<Rightarrow> check" where
  "arm_immutable c index new old =
     and_then (check_index index) (\<lambda>i. against_old c index new old (\<lambda>o_s.
       ensure (st_fields new ! i = st_fields o_s ! i) (violated c)))"

definition arm_write_once :: "state_constraint \<Rightarrow> u8 \<Rightarrow> cell_state \<Rightarrow> cell_state option \<Rightarrow> check" where
  "arm_write_once c index new old =
     and_then (check_index index) (\<lambda>i. against_old c index new old (\<lambda>o_s.
       ensure (st_fields o_s ! i = FIELD_ZERO \<or> st_fields new ! i = st_fields o_s ! i) (violated c)))"

definition arm_monotonic :: "state_constraint \<Rightarrow> u8 \<Rightarrow> cell_state \<Rightarrow> cell_state option \<Rightarrow> check" where
  "arm_monotonic c index new old =
     and_then (check_index index) (\<lambda>i. against_old c index new old (\<lambda>o_s.
       ensure (st_fields o_s ! i \<le> st_fields new ! i) (violated c)))"

definition arm_strict_monotonic :: "state_constraint \<Rightarrow> u8 \<Rightarrow> cell_state \<Rightarrow> cell_state option \<Rightarrow> check" where
  "arm_strict_monotonic c index new old =
     and_then (check_index index) (\<lambda>i. against_old c index new old (\<lambda>o_s.
       ensure (st_fields o_s ! i < st_fields new ! i) (violated c)))"

definition arm_bounded_by :: "state_constraint \<Rightarrow> u8 \<Rightarrow> u8 \<Rightarrow> cell_state \<Rightarrow> cell_state option \<Rightarrow> check" where
  "arm_bounded_by c index witness_index new old =
     and_then (check_index index) (\<lambda>i. and_then (check_index witness_index) (\<lambda>w.
       let changed = (case old of
             Some o_s \<Rightarrow> st_fields new ! i \<noteq> st_fields o_s ! i
           | None \<Rightarrow> st_fields new ! i \<noteq> FIELD_ZERO)
       in ensure (changed \<longrightarrow> st_fields new ! w \<noteq> FIELD_ZERO) (violated c)))"

definition arm_field_delta :: "state_constraint \<Rightarrow> u8 \<Rightarrow> field_element \<Rightarrow> cell_state \<Rightarrow> cell_state option \<Rightarrow> check" where
  "arm_field_delta c index delta new old =
     and_then (check_index index) (\<lambda>i. against_old c index new old (\<lambda>o_s. all_ok
       [ensure (st_fields new ! i = field_add (st_fields o_s ! i) delta) (violated c),
        ensure (field_result_in_range (st_fields new ! i)) (violated c)]))"

definition arm_field_delta_in_range ::
  "state_constraint \<Rightarrow> u8 \<Rightarrow> field_element \<Rightarrow> field_element \<Rightarrow> cell_state \<Rightarrow> cell_state option \<Rightarrow> check" where
  "arm_field_delta_in_range c index min_delta max_delta new old =
     and_then (check_index index) (\<lambda>i. against_old c index new old (\<lambda>o_s. all_ok
       [ensure (field_add (st_fields o_s ! i) min_delta \<le> st_fields new ! i \<and>
                st_fields new ! i \<le> field_add (st_fields o_s ! i) max_delta) (violated c),
        ensure (field_result_in_range (st_fields new ! i)) (violated c)]))"

text \<open>The two sums over the input fields advance together, so the first overflow of either is reported.\<close>

fun checked_sums ::
  "program_error \<Rightarrow> cell_state \<Rightarrow> cell_state \<Rightarrow> u8 list \<Rightarrow> u64 \<Rightarrow> u64 \<Rightarrow> program_error + u64 \<times> u64" where
  "checked_sums overflow new old [] a b = Inr (a, b)"
| "checked_sums overflow new old (idx # indices) a b =
     and_then (check_index idx) (\<lambda>i.
     and_then (ok_or (checked_add_word a (field_to_u64 (st_fields new ! i))) overflow) (\<lambda>a.
     and_then (ok_or (checked_add_word b (field_to_u64 (st_fields old ! i))) overflow) (\<lambda>b.
     checked_sums overflow new old indices a b)))"

definition arm_sum_equals_across ::
  "state_constraint \<Rightarrow> u8 list \<Rightarrow> u8 list \<Rightarrow> cell_state \<Rightarrow> cell_state option \<Rightarrow> check" where
  "arm_sum_equals_across c input_fields output_fields new old =
     against_old c 0 new old (\<lambda>o_s.
     and_then (checked_sums (violated c) new o_s input_fields 0 0) (\<lambda>(new_in, old_in).
     and_then (checked_sum (violated c) new output_fields 0) (\<lambda>new_out.
     and_then (ok_or (checked_add_word old_in new_out) (violated c)) (\<lambda>rhs.
       ensure (new_in = rhs) (violated c)))))"

definition arm_rate_limit_by_sum ::
  "state_constraint \<Rightarrow> u8 \<Rightarrow> u64 \<Rightarrow> cell_state \<Rightarrow> cell_state option \<Rightarrow> eval_context option \<Rightarrow> check" where
  "arm_rate_limit_by_sum c slot_index max_sum_per_epoch new old ctx =
     and_then (check_index slot_index) (\<lambda>i.
       let new_val = field_to_u64 (st_fields new ! i);
           old_val = (case old of Some o_s \<Rightarrow> field_to_u64 (st_fields o_s ! i) | None \<Rightarrow> 0);
           delta = saturating_sub_word new_val old_val;
           prior = (case ctx of Some x \<Rightarrow> ucast (ec_sender_epoch_count x) | None \<Rightarrow> 0)
       in ensure (saturating_add_word prior delta \<le> max_sum_per_epoch) (violated c))"

definition arm_monotonic_sequence :: "state_constraint \<Rightarrow> u8 \<Rightarrow> cell_state \<Rightarrow> cell_state option \<Rightarrow> check" where
  "arm_monotonic_sequence c seq_index new old =
     and_then (check_index seq_index) (\<lambda>i. against_old c seq_index new old (\<lambda>o_s.
       ensure (field_to_u64 (st_fields new ! i) = field_to_u64 (st_fields o_s ! i) + 1) (violated c)))"

definition arm_allowed_transitions ::
  "state_constraint \<Rightarrow> u8 \<Rightarrow> (field_element \<times> field_element) list \<Rightarrow> cell_state \<Rightarrow> cell_state option \<Rightarrow>
     check" where
  "arm_allowed_transitions c slot_index allowed new old =
     and_then (check_index slot_index) (\<lambda>i.
       let old_v = (case old of Some o_s \<Rightarrow> st_fields o_s ! i | None \<Rightarrow> FIELD_ZERO)
       in ensure ((old_v, st_fields new ! i) \<in> set allowed) (violated c))"

definition arm_settle_escrow :: "state_constraint \<Rightarrow> u8 \<Rightarrow> u8 \<Rightarrow> cell_state \<Rightarrow> cell_state option \<Rightarrow> check" where
  "arm_settle_escrow c leg_a leg_b new old =
     and_then (check_index leg_a) (\<lambda>a. and_then (check_index leg_b) (\<lambda>b.
     case old of
       None \<Rightarrow> Inl (TransitionCheckRequiresOldState c leg_a)
     | Some o_s \<Rightarrow> all_ok
         [ensure (field_to_u64 (st_fields o_s ! a) = 1 \<and> field_to_u64 (st_fields o_s ! b) = 1) (violated c),
          ensure (field_to_u64 (st_fields new ! a) = 2 \<and> field_to_u64 (st_fields new ! b) = 2) (violated c)]))"

definition arm_vault_deposit :: "state_constraint \<Rightarrow> u8 \<Rightarrow> u8 \<Rightarrow> cell_state \<Rightarrow> cell_state option \<Rightarrow> check" where
  "arm_vault_deposit c assets_slot shares_slot new old =
     and_then (check_index assets_slot) (\<lambda>a. and_then (check_index shares_slot) (\<lambda>s.
     case old of
       None \<Rightarrow> Inl (TransitionCheckRequiresOldState c assets_slot)
     | Some o_s \<Rightarrow>
         let before_assets = field_to_u64 (st_fields o_s ! a);
             after_assets = field_to_u64 (st_fields new ! a);
             before_shares = field_to_u64 (st_fields o_s ! s);
             after_shares = field_to_u64 (st_fields new ! s);
             d = after_assets - before_assets;
             m = after_shares - before_shares
         in all_ok
              [ensure (before_assets < after_assets) (violated c),
               ensure (before_shares < after_shares) (violated c),
               ensure (uint before_assets * uint m \<le> uint before_shares * uint d) (violated c)]))"

definition arm_delta_bounded :: "state_constraint \<Rightarrow> u8 \<Rightarrow> u64 \<Rightarrow> cell_state \<Rightarrow> cell_state option \<Rightarrow> check" where
  "arm_delta_bounded c index d new old =
     and_then (check_index index) (\<lambda>i. against_old c index new old (\<lambda>o_s.
       ensure (\<bar>field_delta_i128 (st_fields o_s ! i) (st_fields new ! i)\<bar> \<le> uint d) (violated c)))"

definition arm_balance_delta_lte :: "state_constraint \<Rightarrow> int \<Rightarrow> cell_state \<Rightarrow> cell_state option \<Rightarrow> check" where
  "arm_balance_delta_lte c max_delta new old =
     and_then (ok_or old (TransitionCheckRequiresOldState c 0)) (\<lambda>o_s.
       ensure (st_balance new - st_balance o_s \<le> max_delta) (violated c))"

definition arm_balance_delta_gte :: "state_constraint \<Rightarrow> int \<Rightarrow> cell_state \<Rightarrow> cell_state option \<Rightarrow> check" where
  "arm_balance_delta_gte c min_delta new old =
     and_then (ok_or old (TransitionCheckRequiresOldState c 0)) (\<lambda>o_s.
       ensure (min_delta \<le> st_balance new - st_balance o_s) (violated c))"

definition arm_affine_delta_le ::
  "state_constraint \<Rightarrow> (int \<times> u8) list \<Rightarrow> int \<Rightarrow> cell_state \<Rightarrow> cell_state option \<Rightarrow> check" where
  "arm_affine_delta_le c terms bound new old =
     and_then (ok_or old (TransitionCheckRequiresOldState c 0)) (\<lambda>o_s.
     and_then (affine_delta_sum terms o_s new) (\<lambda>acc. ensure (acc \<le> bound) (violated c)))"

fun heap_atom_holds :: "heap_atom \<Rightarrow> field_element option \<Rightarrow> field_element option \<Rightarrow> bool" where
  "heap_atom_holds (HaEquals value) old_v new_v = (new_v = Some value)"
| "heap_atom_holds (HaGte value) old_v new_v = (case new_v of Some x \<Rightarrow> value \<le> x | None \<Rightarrow> False)"
| "heap_atom_holds (HaLte value) old_v new_v = (case new_v of Some x \<Rightarrow> x \<le> value | None \<Rightarrow> False)"
| "heap_atom_holds (HaMemberOf vals) old_v new_v =
     (case new_v of Some x \<Rightarrow> field_to_u64 x \<in> set vals | None \<Rightarrow> False)"
| "heap_atom_holds (HaInRangeTwoSided lo hi) old_v new_v =
     (case new_v of Some x \<Rightarrow> lo \<le> field_to_u64 x \<and> field_to_u64 x \<le> hi | None \<Rightarrow> False)"
| "heap_atom_holds HaImmutable old_v new_v = (case old_v of None \<Rightarrow> True | Some a \<Rightarrow> new_v = Some a)"
| "heap_atom_holds HaWriteOnce old_v new_v =
     (case old_v of None \<Rightarrow> True | Some a \<Rightarrow> a = FIELD_ZERO \<or> new_v = Some a)"
| "heap_atom_holds HaMonotonic old_v new_v =
     (case (old_v, new_v) of (Some a, Some b) \<Rightarrow> a \<le> b | _ \<Rightarrow> False)"
| "heap_atom_holds HaStrictMonotonic old_v new_v =
     (case (old_v, new_v) of (Some a, Some b) \<Rightarrow> a < b | _ \<Rightarrow> False)"
| "heap_atom_holds (HaDeltaBounded d) old_v new_v =
     (case (old_v, new_v) of (Some a, Some b) \<Rightarrow> \<bar>field_delta_i128 a b\<bar> \<le> uint d | _ \<Rightarrow> False)"
| "heap_atom_holds (HaDeltaEquals d) old_v new_v =
     (case (old_v, new_v) of (Some a, Some b) \<Rightarrow> field_delta_i128 a b = d | _ \<Rightarrow> False)"

definition evaluate_heap_atom ::
  "state_constraint \<Rightarrow> u64 \<Rightarrow> heap_atom \<Rightarrow> cell_state \<Rightarrow> cell_state option \<Rightarrow> check" where
  "evaluate_heap_atom c key atom new old =
     ensure (heap_atom_holds atom (case old of Some o_s \<Rightarrow> get_field_ext o_s key | None \<Rightarrow> None)
       (get_field_ext new key)) (violated c)"

text \<open>The flags and counters of the temporal checks are read in the old state, and are zero without one.\<close>

definition old_u64 :: "cell_state option \<Rightarrow> nat \<Rightarrow> u64" where
  "old_u64 old i = (case old of Some o_s \<Rightarrow> field_to_u64 (st_fields o_s ! i) | None \<Rightarrow> 0)"

definition arm_rate_bound :: "state_constraint \<Rightarrow> u8 \<Rightarrow> u64 \<Rightarrow> cell_state option \<Rightarrow> check" where
  "arm_rate_bound c counter_index k old =
     and_then (check_index counter_index) (\<lambda>i. ensure (old_u64 old i < k) (violated c))"

definition arm_until_event :: "state_constraint \<Rightarrow> u8 \<Rightarrow> cell_state option \<Rightarrow> check" where
  "arm_until_event c flag_index old =
     and_then (check_index flag_index) (\<lambda>i. ensure (old_u64 old i = 0) (violated c))"

definition arm_since_event :: "state_constraint \<Rightarrow> u8 \<Rightarrow> cell_state option \<Rightarrow> check" where
  "arm_since_event c flag_index old =
     and_then (check_index flag_index) (\<lambda>i. ensure (old_u64 old i \<noteq> 0) (violated c))"

definition evaluate_transition ::
  "transition_constraint \<Rightarrow> cell_state \<Rightarrow> cell_state option \<Rightarrow> eval_context option \<Rightarrow> check" where
  "evaluate_transition t new old ctx =
     (let c = ScAtom (ScTransition t) in
      case t of
        ScWriteOnce index \<Rightarrow> arm_write_once c index new old
      | ScImmutable index \<Rightarrow> arm_immutable c index new old
      | ScMonotonic index \<Rightarrow> arm_monotonic c index new old
      | ScStrictMonotonic index \<Rightarrow> arm_strict_monotonic c index new old
      | ScBoundedBy index witness_index \<Rightarrow> arm_bounded_by c index witness_index new old
      | ScFieldDelta index delta \<Rightarrow> arm_field_delta c index delta new old
      | ScFieldDeltaInRange index min_delta max_delta \<Rightarrow>
          arm_field_delta_in_range c index min_delta max_delta new old
      | ScSumEqualsAcross input_fields output_fields \<Rightarrow>
          arm_sum_equals_across c input_fields output_fields new old
      | ScRateLimitBySum slot_index max_sum _ \<Rightarrow> arm_rate_limit_by_sum c slot_index max_sum new old ctx
      | ScMonotonicSequence seq_index \<Rightarrow> arm_monotonic_sequence c seq_index new old
      | ScAllowedTransitions slot_index allowed \<Rightarrow> arm_allowed_transitions c slot_index allowed new old
      | ScSettleEscrow leg_a leg_b \<Rightarrow> arm_settle_escrow c leg_a leg_b new old
      | ScVaultDeposit assets_slot shares_slot \<Rightarrow> arm_vault_deposit c assets_slot shares_slot new old
      | ScDeltaBounded index d \<Rightarrow> arm_delta_bounded c index d new old
      | ScBalanceDeltaLte max_delta \<Rightarrow> arm_balance_delta_lte c max_delta new old
      | ScBalanceDeltaGte min_delta \<Rightarrow> arm_balance_delta_gte c min_delta new old
      | ScAffineDeltaLe terms bound \<Rightarrow> arm_affine_delta_le c terms bound new old
      | ScHeapField key atom \<Rightarrow> evaluate_heap_atom c key atom new old
      | ScRateBound counter_index k \<Rightarrow> arm_rate_bound c counter_index k old
      | ScUntilEvent flag_index \<Rightarrow> arm_until_event c flag_index old
      | ScSinceEvent flag_index \<Rightarrow> arm_since_event c flag_index old)"

section \<open>Checks of the block, the sender and the metadata\<close>

definition need_ctx :: "eval_context option \<Rightarrow> string \<Rightarrow> program_error + eval_context" where
  "need_ctx ctx field = ok_or ctx (MissingContextField field)"

definition need_sender :: "eval_context option \<Rightarrow> program_error + bytes32" where
  "need_sender ctx =
     and_then (need_ctx ctx ''sender'') (\<lambda>x. ok_or (ec_sender x) (MissingContextField ''sender''))"

definition height_bound :: "u64 \<Rightarrow> int \<Rightarrow> u64" where
  "height_bound height offset = word_of_int (max 0 (uint height + offset))"

definition arm_field_gte_height ::
  "state_constraint \<Rightarrow> u8 \<Rightarrow> int \<Rightarrow> cell_state \<Rightarrow> eval_context option \<Rightarrow> check" where
  "arm_field_gte_height c index offset new ctx =
     and_then (check_index index) (\<lambda>i. and_then (need_ctx ctx ''block_height'') (\<lambda>x.
       ensure (height_bound (ec_block_height x) offset \<le> field_to_u64 (st_fields new ! i)) (violated c)))"

definition arm_field_lte_height ::
  "state_constraint \<Rightarrow> u8 \<Rightarrow> int \<Rightarrow> cell_state \<Rightarrow> eval_context option \<Rightarrow> check" where
  "arm_field_lte_height c index offset new ctx =
     and_then (check_index index) (\<lambda>i. and_then (need_ctx ctx ''block_height'') (\<lambda>x.
       ensure (field_to_u64 (st_fields new ! i) \<le> height_bound (ec_block_height x) offset) (violated c)))"

definition arm_rate_limit :: "state_constraint \<Rightarrow> u32 \<Rightarrow> eval_context option \<Rightarrow> check" where
  "arm_rate_limit c max_per_epoch ctx =
     and_then (need_ctx ctx ''sender_epoch_count'') (\<lambda>x.
       ensure (ec_sender_epoch_count x < max_per_epoch) (violated c))"

definition arm_temporal_gate ::
  "state_constraint \<Rightarrow> u64 option \<Rightarrow> u64 option \<Rightarrow> eval_context option \<Rightarrow> check" where
  "arm_temporal_gate c not_before not_after ctx =
     and_then (need_ctx ctx ''block_height'') (\<lambda>x. all_ok
       [ensure (case not_before of Some nb \<Rightarrow> nb \<le> ec_block_height x | None \<Rightarrow> True) (violated c),
        ensure (case not_after of Some na \<Rightarrow> ec_block_height x \<le> na | None \<Rightarrow> True) (violated c)])"

definition arm_discharge_obligation ::
  "state_constraint \<Rightarrow> u8 \<Rightarrow> u8 \<Rightarrow> u8 \<Rightarrow> u32 \<Rightarrow> u32 \<Rightarrow> cell_state \<Rightarrow> cell_state option \<Rightarrow>
     eval_context option \<Rightarrow> check" where
  "arm_discharge_obligation c cursor_slot due_slot amount_slot period amount new old ctx =
     and_then (check_index cursor_slot) (\<lambda>cs. and_then (check_index due_slot) (\<lambda>ds.
     and_then (check_index amount_slot) (\<lambda>am.
     and_then (ok_or old (TransitionCheckRequiresOldState c cursor_slot)) (\<lambda>o_s.
     and_then (need_ctx ctx ''block_height'') (\<lambda>x. all_ok
       [ensure (field_to_u64 (st_fields o_s ! ds) \<le> ec_block_height x) (violated c),
        and_then (ok_or (checked_add_word (field_to_u64 (st_fields o_s ! cs)) (ucast period)) (violated c))
          (\<lambda>expected_cursor. ensure (field_to_u64 (st_fields new ! cs) = expected_cursor) (violated c)),
        and_then (ok_or (checked_add_word (field_to_u64 (st_fields o_s ! am)) (ucast amount)) (violated c))
          (\<lambda>expected_total. ensure (field_to_u64 (st_fields new ! am) = expected_total) (violated c))])))))"

definition arm_sender_is :: "state_constraint \<Rightarrow> bytes32 \<Rightarrow> eval_context option \<Rightarrow> check" where
  "arm_sender_is c pk ctx = and_then (need_sender ctx) (\<lambda>sender. ensure (sender = pk) (violated c))"

definition arm_sender_in_slot :: "state_constraint \<Rightarrow> u8 \<Rightarrow> cell_state \<Rightarrow> eval_context option \<Rightarrow> check" where
  "arm_sender_in_slot c index new ctx =
     and_then (check_index index) (\<lambda>i. and_then (need_sender ctx) (\<lambda>sender.
       ensure (sender = st_fields new ! i) (violated c)))"

definition arm_sender_member_of :: "state_constraint \<Rightarrow> bytes32 list \<Rightarrow> eval_context option \<Rightarrow> check" where
  "arm_sender_member_of c members ctx =
     and_then (need_sender ctx) (\<lambda>sender. ensure (sender \<in> set members) (violated c))"

definition arm_delegation_epoch_equals ::
  "state_constraint \<Rightarrow> u8 \<Rightarrow> cell_state \<Rightarrow> transition_meta \<Rightarrow> check" where
  "arm_delegation_epoch_equals c index new meta =
     and_then (check_index index) (\<lambda>i.
     and_then (ok_or (tm_delegation_epoch meta) (MissingContextField ''delegation_epoch'')) (\<lambda>epoch.
       ensure (st_fields new ! i = field_from_u64 epoch) (violated c)))"

definition arm_cooled_since :: "state_constraint \<Rightarrow> u64 \<Rightarrow> u64 \<Rightarrow> eval_context option \<Rightarrow> check" where
  "arm_cooled_since c staged_at period ctx =
     and_then (need_ctx ctx ''block_height'') (\<lambda>x.
       ensure (saturating_add_word staged_at period \<le> ec_block_height x) (violated c))"

definition arm_challenge_window ::
  "state_constraint \<Rightarrow> u8 \<Rightarrow> u64 \<Rightarrow> u64 \<Rightarrow> cell_state option \<Rightarrow> eval_context option \<Rightarrow> check" where
  "arm_challenge_window c challenge_index staged_at period old ctx =
     and_then (check_index challenge_index) (\<lambda>i. and_then (need_ctx ctx ''block_height'') (\<lambda>x. all_ok
       [ensure (saturating_add_word staged_at period \<le> ec_block_height x) (violated c),
        ensure (old_u64 old i = 0) (violated c)]))"

definition evaluate_context ::
  "context_constraint \<Rightarrow> cell_state \<Rightarrow> cell_state option \<Rightarrow> eval_context option \<Rightarrow> transition_meta \<Rightarrow> check" where
  "evaluate_context k new old ctx meta =
     (let c = ScAtom (ScContext k) in
      case k of
        ScFieldGteHeight index offset \<Rightarrow> arm_field_gte_height c index offset new ctx
      | ScFieldLteHeight index offset \<Rightarrow> arm_field_lte_height c index offset new ctx
      | ScRateLimit max_per_epoch _ \<Rightarrow> arm_rate_limit c max_per_epoch ctx
      | ScTemporalGate not_before not_after \<Rightarrow> arm_temporal_gate c not_before not_after ctx
      | ScDischargeObligation cursor_slot due_slot amount_slot period amount \<Rightarrow>
          arm_discharge_obligation c cursor_slot due_slot amount_slot period amount new old ctx
      | ScSenderIs pk \<Rightarrow> arm_sender_is c pk ctx
      | ScSenderInSlot index \<Rightarrow> arm_sender_in_slot c index new ctx
      | ScSenderMemberOf members \<Rightarrow> arm_sender_member_of c members ctx
      | ScDelegationEpochEquals index \<Rightarrow> arm_delegation_epoch_equals c index new meta
      | ScCooledSince staged_at period \<Rightarrow> arm_cooled_since c staged_at period ctx
      | ScChallengeWindow challenge_index staged_at period \<Rightarrow>
          arm_challenge_window c challenge_index staged_at period old ctx)"

section \<open>Checks against witnesses\<close>

datatype unique_blob_error = BlobMissing | BlobAmbiguous

text \<open>The loop keeps the first match and stops with an error at the second.\<close>

definition unique_blob_of_kinds ::
  "witness_bundle \<Rightarrow> witness_kind list \<Rightarrow> unique_blob_error + nat \<times> witness_blob" where
  "unique_blob_of_kinds W kinds =
     (case filter (\<lambda>(i, b). wb_kind b \<in> set kinds) (enumerate 0 (wn_blobs W)) of
        [] \<Rightarrow> Inl BlobMissing
      | [x] \<Rightarrow> Inr x
      | _ \<Rightarrow> Inl BlobAmbiguous)"

definition map_err :: "('e \<Rightarrow> 'f) \<Rightarrow> 'e + 'a \<Rightarrow> 'f + 'a" where
  "map_err f r = (case r of Inl e \<Rightarrow> Inl (f e) | Inr x \<Rightarrow> Inr x)"

definition find_preimage32 :: "witness_bundle \<Rightarrow> eval_context option \<Rightarrow> bytes32 option" where
  "find_preimage32 W ctx =
     (case find (\<lambda>b. wb_kind b = WtPreimage32 \<and> length (wb_bytes b) = 32) (wn_blobs W) of
        Some b \<Rightarrow> Some (from_bytes32 (wb_bytes b))
      | None \<Rightarrow> (case ctx of Some x \<Rightarrow> ec_revealed_preimage x | None \<Rightarrow> None))"

definition blob_error :: "string \<Rightarrow> unique_blob_error \<Rightarrow> program_error" where
  "blob_error kind_name e =
     (case e of BlobMissing \<Rightarrow> SenderMembershipWitnessMissing
      | BlobAmbiguous \<Rightarrow> WitnessedPredicateRejected kind_name)"

fun authorized_set_target ::
  "('a crypto_scheme) \<Rightarrow> cell_state \<Rightarrow> authorized_set \<Rightarrow>
     program_error + bytes32 \<times> witnessed_predicate_kind" where
  "authorized_set_target E new (AsPublicRoot set_root_index) =
     and_then (check_index set_root_index) (\<lambda>i. Inr (st_fields new ! i, WkMerkleMembership))"
| "authorized_set_target E new (AsBlindedSet commitment) = Inr (commitment, WkBlindedSet)"
| "authorized_set_target E new (AsCredentialSet issuer_cell credential_schema_id) =
     Inr (credential_set_commitment E issuer_cell credential_schema_id, WkBlindedSet)"

definition arm_sender_authorized ::
  "('a crypto_scheme) \<Rightarrow> authorized_set \<Rightarrow> cell_state \<Rightarrow> eval_context option \<Rightarrow> witness_bundle \<Rightarrow> check" where
  "arm_sender_authorized E members new ctx W =
     and_then (need_sender ctx) (\<lambda>sender.
     and_then (authorized_set_target E new members) (\<lambda>(commitment, kind).
     and_then (ok_or (wn_registry W) SenderMembershipWitnessMissing) (\<lambda>registry.
     and_then (map_err (blob_error ''SenderAuthorized'')
         (unique_blob_of_kinds W [WtMerklePath, WtProofBytes])) (\<lambda>(blob_idx, blob).
       map_err (\<lambda>_. WitnessedPredicateRejected
           (case kind of WkMerkleMembership \<Rightarrow> ''MerkleMembership'' | WkBlindedSet \<Rightarrow> ''BlindedSet''
            | _ \<Rightarrow> ''Witnessed''))
         (registry_verify registry
           \<lparr>wp_kind = kind, wp_commitment = commitment, wp_input_ref = IrSender,
            wp_proof_witness_index = blob_idx\<rparr> (PiSender sender) (wb_bytes blob))))))"

definition arm_renounced ::
  "renounced_set \<Rightarrow> cell_state \<Rightarrow> eval_context option \<Rightarrow> witness_bundle \<Rightarrow> check" where
  "arm_renounced members new ctx W =
     and_then (need_sender ctx) (\<lambda>sender.
     and_then (case members of
         RsPublicRoot set_root_index \<Rightarrow>
           and_then (check_index set_root_index) (\<lambda>i. Inr (st_fields new ! i))
       | RsBlindedSet commitment \<Rightarrow> Inr commitment) (\<lambda>commitment.
     and_then (ok_or (wn_registry W) SenderMembershipWitnessMissing) (\<lambda>registry.
     and_then (map_err (blob_error ''NonMembership'') (unique_blob_of_kinds W [WtProofBytes]))
       (\<lambda>(blob_idx, blob).
       map_err (\<lambda>_. WitnessedPredicateRejected ''NonMembership'')
         (registry_verify registry
           \<lparr>wp_kind = WkNonMembership, wp_commitment = commitment, wp_input_ref = IrSender,
            wp_proof_witness_index = blob_idx\<rparr> (PiSender sender) (wb_bytes blob))))))"

definition arm_capability_uniqueness :: "u8 \<Rightarrow> check" where
  "arm_capability_uniqueness cap_set_root_slot =
     and_then (check_index cap_set_root_slot)
       (\<lambda>_. Inl (CapabilityUniquenessRequiresExecutor cap_set_root_slot))"

definition arm_preimage_gate ::
  "('a crypto_scheme) \<Rightarrow> pred_codec \<Rightarrow> state_constraint \<Rightarrow> u8 \<Rightarrow> hash_kind \<Rightarrow> cell_state \<Rightarrow>
     eval_context option \<Rightarrow> witness_bundle \<Rightarrow> check" where
  "arm_preimage_gate E Q c commitment_index k new ctx W =
     and_then (check_index commitment_index) (\<lambda>i.
     and_then (ok_or (find_preimage32 W ctx) PreimageWitnessMissing) (\<lambda>preimage.
       ensure (hash_preimage32 E Q k preimage = st_fields new ! i) (violated c)))"

text \<open>
  A key rotation: nothing changes, or the first digest is committed, or the preimage of the committed
  digest becomes the current key set, a fresh digest is committed and the height is stamped.
\<close>

definition rotation_inception ::
  "state_constraint \<Rightarrow> field_element \<Rightarrow> field_element \<Rightarrow> eval_context option \<Rightarrow> check" where
  "rotation_inception c new_digest new_stamp ctx = all_ok
     [ensure (new_digest \<noteq> FIELD_ZERO) (violated c),
      if new_stamp \<noteq> FIELD_ZERO
      then and_then (need_ctx ctx ''block_height'') (\<lambda>x.
             ensure (field_to_u64 new_stamp \<le> ec_block_height x) (violated c))
      else Inr ()]"

definition arm_key_rotation_gate ::
  "('a crypto_scheme) \<Rightarrow> pred_codec \<Rightarrow> state_constraint \<Rightarrow> u8 \<Rightarrow> u8 \<Rightarrow> u8 \<Rightarrow> u64 \<Rightarrow> hash_kind \<Rightarrow> cell_state \<Rightarrow>
     cell_state option \<Rightarrow> eval_context option \<Rightarrow> witness_bundle \<Rightarrow> check" where
  "arm_key_rotation_gate E Q c digest_slot current_slot last_rotated_slot cooling_period k new old ctx W =
     and_then (check_index digest_slot) (\<lambda>d. and_then (check_index current_slot) (\<lambda>u.
     and_then (check_index last_rotated_slot) (\<lambda>r.
     if old = None \<and> st_nonce new \<noteq> 0 then Inl (TransitionCheckRequiresOldState c digest_slot)
     else
       let old_fields = (case old of Some o_s \<Rightarrow> st_fields o_s | None \<Rightarrow> replicate STATE_SLOTS FIELD_ZERO);
           fields = st_fields new
       in if fields ! d = old_fields ! d \<and> fields ! u = old_fields ! u \<and> fields ! r = old_fields ! r
          then Inr ()
          else if old_fields ! d = FIELD_ZERO then rotation_inception c (fields ! d) (fields ! r) ctx
          else
            and_then (need_ctx ctx ''block_height'') (\<lambda>x.
            and_then (ok_or (find_preimage32 W ctx) PreimageWitnessMissing) (\<lambda>preimage. all_ok
              [ensure (hash_preimage32 E Q k preimage = old_fields ! d) (violated c),
               ensure (fields ! u = preimage) (violated c),
               ensure (fields ! d \<noteq> FIELD_ZERO) (violated c),
               ensure (saturating_add_word (field_to_u64 (old_fields ! r)) cooling_period
                 \<le> ec_block_height x) (violated c),
               ensure (field_to_u64 (fields ! r) = ec_block_height x \<and> drop_bit 64 (fields ! r) = 0)
                 (violated c)])))))"

definition arm_temporal_predicate :: "u8 \<Rightarrow> bytes32 \<Rightarrow> witness_bundle \<Rightarrow> check" where
  "arm_temporal_predicate witness_index dsl_hash W =
     and_then (ok_or (wn_registry W) (TemporalPredicateWitnessMissing dsl_hash)) (\<lambda>registry.
     let input_idx = unat witness_index; proof_idx = input_idx + 1 in
     and_then (ok_or (bundle_blob W input_idx) (TemporalPredicateWitnessMissing dsl_hash)) (\<lambda>input_blob.
     and_then (ok_or (case bundle_blob W proof_idx of
           Some b \<Rightarrow> if wb_kind b = WtProofBytes then Some b else None
         | None \<Rightarrow> None) (WitnessedPredicateRejected ''Temporal'')) (\<lambda>proof_blob.
       map_err (\<lambda>_. WitnessedPredicateRejected ''Temporal'')
         (registry_verify registry
           \<lparr>wp_kind = WkTemporal, wp_commitment = dsl_hash, wp_input_ref = IrWitness input_idx,
            wp_proof_witness_index = proof_idx\<rparr> (PiBytes (wb_bytes input_blob)) (wb_bytes proof_blob)))))"

fun predicate_kind_name :: "witnessed_predicate_kind \<Rightarrow> string" where
  "predicate_kind_name WkDfa = ''Dfa''"
| "predicate_kind_name WkTemporal = ''Temporal''"
| "predicate_kind_name WkMerkleMembership = ''MerkleMembership''"
| "predicate_kind_name WkNonMembership = ''NonMembership''"
| "predicate_kind_name WkBlindedSet = ''BlindedSet''"
| "predicate_kind_name WkBridgePredicate = ''BridgePredicate''"
| "predicate_kind_name WkPedersenEquality = ''PedersenEquality''"
| "predicate_kind_name (WkCustom _) = ''Custom''"

fun resolve_input ::
  "string \<Rightarrow> input_ref \<Rightarrow> cell_state \<Rightarrow> eval_context option \<Rightarrow> witness_bundle \<Rightarrow>
     program_error + predicate_input" where
  "resolve_input kind_name (IrSlot index) new ctx W =
     and_then (check_index index) (\<lambda>i. Inr (PiSlot (st_fields new ! i)))"
| "resolve_input kind_name (IrWitness index) new ctx W =
     and_then (ok_or (bundle_blob W index) (WitnessedPredicateRejected kind_name)) (\<lambda>b.
       Inr (PiBytes (wb_bytes b)))"
| "resolve_input kind_name (IrPublicInput _) new ctx W = Inl (WitnessedPredicateRejected kind_name)"
| "resolve_input kind_name IrSender new ctx W =
     and_then (need_sender ctx) (\<lambda>sender. Inr (PiSender sender))"
| "resolve_input kind_name IrSigningMessage new ctx W =
     and_then (ok_or (find (\<lambda>b. wb_kind b = WtCleartext) (wn_blobs W))
         (WitnessedPredicateRejected kind_name)) (\<lambda>b. Inr (PiBytes (wb_bytes b)))"

definition arm_witnessed ::
  "witnessed_predicate \<Rightarrow> cell_state \<Rightarrow> eval_context option \<Rightarrow> witness_bundle \<Rightarrow> check" where
  "arm_witnessed wp new ctx W =
     (let kind_name = predicate_kind_name (wp_kind wp) in
      and_then (ok_or (wn_registry W) (WitnessedPredicateRequiresExecutor kind_name)) (\<lambda>registry.
      and_then (ok_or (bundle_blob W (wp_proof_witness_index wp)) (WitnessedPredicateRejected kind_name))
        (\<lambda>proof_blob.
      and_then (resolve_input kind_name (wp_input_ref wp) new ctx W) (\<lambda>input.
        map_err (\<lambda>_. WitnessedPredicateRejected kind_name)
          (registry_verify registry wp input (wb_bytes proof_blob))))))"

definition arm_custom :: "bytes32 \<Rightarrow> cell_state \<Rightarrow> witness_bundle \<Rightarrow> check" where
  "arm_custom ir_hash new W =
     and_then (ok_or (wn_registry W) (CustomConstraintUnevaluable ir_hash)) (\<lambda>registry.
     and_then (map_err (\<lambda>_. CustomProgramProofRejected ir_hash) (unique_blob_of_kinds W [WtProofBytes]))
       (\<lambda>(proof_idx, proof_blob).
       map_err (\<lambda>_. CustomProgramProofRejected ir_hash)
         (registry_verify registry
           \<lparr>wp_kind = WkCustom ir_hash, wp_commitment = ir_hash, wp_input_ref = IrSlot 0,
            wp_proof_witness_index = proof_idx\<rparr> (PiSlot (st_fields new ! 0)) (wb_bytes proof_blob))))"

definition arm_count_ge ::
  "('a crypto_scheme) \<Rightarrow> pred_codec \<Rightarrow> state_constraint \<Rightarrow> u32 \<Rightarrow> u8 \<Rightarrow> cell_state \<Rightarrow> witness_bundle \<Rightarrow> check" where
  "arm_count_ge E Q c threshold set_commitment_slot new W =
     and_then (check_index set_commitment_slot) (\<lambda>i.
     and_then (map_err (\<lambda>e. case e of
           BlobMissing \<Rightarrow> MissingContextField ''count-ge set-exhibit witness (Cleartext)''
         | BlobAmbiguous \<Rightarrow> WitnessedPredicateRejected ''CountGe'')
         (unique_blob_of_kinds W [WtCleartext])) (\<lambda>(_, blob).
     and_then (ok_or (decode_id_set Q (wb_bytes blob)) (WitnessedPredicateRejected ''CountGe''))
       (\<lambda>elements. all_ok
         [ensure (st_fields new ! i = count_ge_set_commitment E (set elements)) (violated c),
          ensure (unat threshold \<le> card (set elements)) (violated c)])))"

definition arm_observed_field_equals ::
  "state_constraint \<Rightarrow> u8 \<Rightarrow> bytes32 \<Rightarrow> u8 \<Rightarrow> bytes32 \<Rightarrow> nat \<Rightarrow> cell_state \<Rightarrow> witness_bundle \<Rightarrow> check" where
  "arm_observed_field_equals c local_field source_cell source_field at_root proof_witness_index new W =
     and_then (check_index local_field) (\<lambda>i.
     and_then (ok_or (wn_finalized_roots W) (WitnessedPredicateRequiresExecutor ''ObservedFieldEquals''))
       (\<lambda>authority.
     and_then (ok_or (bundle_blob W proof_witness_index)
         (WitnessedPredicateRejected ''ObservedFieldEquals'')) (\<lambda>_.
     and_then (ok_or (authority source_cell at_root source_field)
         (WitnessedPredicateRejected ''ObservedFieldEquals'')) (\<lambda>observed.
       ensure (st_fields new ! i = observed) (violated c)))))"

definition evaluate_witness ::
  "('a crypto_scheme) \<Rightarrow> pred_codec \<Rightarrow> witness_constraint \<Rightarrow> cell_state \<Rightarrow> cell_state option \<Rightarrow>
     eval_context option \<Rightarrow> witness_bundle \<Rightarrow> check" where
  "evaluate_witness E Q w new old ctx W =
     (let c = ScAtom (ScWitness w) in
      case w of
        ScSenderAuthorized members \<Rightarrow> arm_sender_authorized E members new ctx W
      | ScRenounced members \<Rightarrow> arm_renounced members new ctx W
      | ScCapabilityUniqueness slot \<Rightarrow> arm_capability_uniqueness slot
      | ScPreimageGate commitment_index k \<Rightarrow> arm_preimage_gate E Q c commitment_index k new ctx W
      | ScKeyRotationGate digest_slot current_slot last_rotated_slot cooling_period k \<Rightarrow>
          arm_key_rotation_gate E Q c digest_slot current_slot last_rotated_slot cooling_period k new old ctx W
      | ScTemporalPredicate witness_index dsl_hash \<Rightarrow> arm_temporal_predicate witness_index dsl_hash W
      | ScBoundDelta local_slot peer_cell peer_slot relation \<Rightarrow> Inl (BoundDeltaNotWired peer_cell)
      | ScWitnessed wp \<Rightarrow> arm_witnessed wp new ctx W
      | ScCustom ir_hash descriptor reads \<Rightarrow> arm_custom ir_hash new W
      | ScCountGe threshold slot \<Rightarrow> arm_count_ge E Q c threshold slot new W
      | ScObservedFieldEquals local_field source_cell source_field at_root idx \<Rightarrow>
          arm_observed_field_equals c local_field source_cell source_field at_root idx new W)"

text \<open>The peer check that the executor runs for \<open>BoundDelta\<close>.\<close>

definition bound_delta_pair_matches ::
  "cell_state \<Rightarrow> cell_state \<Rightarrow> u8 \<Rightarrow> cell_state \<Rightarrow> cell_state \<Rightarrow> u8 \<Rightarrow> delta_relation \<Rightarrow>
     program_error + bool" where
  "bound_delta_pair_matches local_old local_new local_slot peer_old peer_new peer_slot relation =
     and_then (check_index local_slot) (\<lambda>l. and_then (check_index peer_slot) (\<lambda>p.
       let local_delta = field_delta_i128 (st_fields local_old ! l) (st_fields local_new ! l);
           peer_delta = field_delta_i128 (st_fields peer_old ! p) (st_fields peer_new ! p)
       in Inr (case relation of
            DrEqual \<Rightarrow> local_delta = peer_delta
          | DrEqualAndOpposite \<Rightarrow> local_delta + peer_delta = 0)))"

section \<open>Atoms, negation and connectives\<close>

text \<open>What one evaluation sees besides the constraint.\<close>

record eval_env =
  ev_new :: cell_state
  ev_old :: "cell_state option"
  ev_ctx :: "eval_context option"
  ev_meta :: transition_meta
  ev_witnesses :: witness_bundle

fun evaluate_atom :: "('a crypto_scheme) \<Rightarrow> pred_codec \<Rightarrow> eval_env \<Rightarrow> constraint_atom \<Rightarrow> check" where
  "evaluate_atom E Q V (ScValue v) = evaluate_value E v (ev_new V)"
| "evaluate_atom E Q V (ScTransition t) = evaluate_transition t (ev_new V) (ev_old V) (ev_ctx V)"
| "evaluate_atom E Q V (ScContext k) = evaluate_context k (ev_new V) (ev_old V) (ev_ctx V) (ev_meta V)"
| "evaluate_atom E Q V (ScWitness w) =
     evaluate_witness E Q w (ev_new V) (ev_old V) (ev_ctx V) (ev_witnesses V)"

primrec lift_simple :: "simple_state_constraint \<Rightarrow> program_error + constraint_atom" where
  "lift_simple (SsFieldEquals index value) = Inr (ScValue (ScFieldEquals index value))"
| "lift_simple (SsFieldGte index value) = Inr (ScValue (ScFieldGte index value))"
| "lift_simple (SsFieldLte index value) = Inr (ScValue (ScFieldLte index value))"
| "lift_simple (SsWriteOnce index) = Inr (ScTransition (ScWriteOnce index))"
| "lift_simple (SsImmutable index) = Inr (ScTransition (ScImmutable index))"
| "lift_simple (SsMonotonic index) = Inr (ScTransition (ScMonotonic index))"
| "lift_simple (SsStrictMonotonic index) = Inr (ScTransition (ScStrictMonotonic index))"
| "lift_simple (SsBoundedBy index witness_index) = Inr (ScTransition (ScBoundedBy index witness_index))"
| "lift_simple (SsFieldGteHeight index offset) = Inr (ScContext (ScFieldGteHeight index offset))"
| "lift_simple (SsFieldLteHeight index offset) = Inr (ScContext (ScFieldLteHeight index offset))"
| "lift_simple (SsTemporalGate not_before not_after) = Inr (ScContext (ScTemporalGate not_before not_after))"
| "lift_simple (SsNot inner) = Inl NegationNotLiftable"
| "lift_simple (SsSenderIs pk) = Inr (ScContext (ScSenderIs pk))"
| "lift_simple (SsSenderInSlot index) = Inr (ScContext (ScSenderInSlot index))"
| "lift_simple (SsBalanceGte min_bal) = Inr (ScValue (ScBalanceGte min_bal))"
| "lift_simple (SsBalanceLte max_bal) = Inr (ScValue (ScBalanceLte max_bal))"
| "lift_simple (SsPreimageGate index k) = Inr (ScWitness (ScPreimageGate index k))"
| "lift_simple (SsHeapField key atom) = Inr (ScTransition (ScHeapField key atom))"
| "lift_simple (SsDelegationEpochEquals index) = Inr (ScContext (ScDelegationEpochEquals index))"
| "lift_simple (SsCountGe threshold slot) = Inr (ScWitness (ScCountGe threshold slot))"
| "lift_simple (SsSenderMemberOf members) = Inr (ScContext (ScSenderMemberOf members))"
| "lift_simple (SsBalanceDeltaLte max_delta) = Inr (ScTransition (ScBalanceDeltaLte max_delta))"
| "lift_simple (SsBalanceDeltaGte min_delta) = Inr (ScTransition (ScBalanceDeltaGte min_delta))"

text \<open>The loop that peels a chain of negations, with the parity of its length.\<close>

primrec peel_not :: "simple_state_constraint \<Rightarrow> bool \<Rightarrow> simple_state_constraint \<times> bool" where
  "peel_not (SsNot inner) negated = peel_not inner (\<not> negated)"
| "peel_not (SsFieldEquals index value) negated = (SsFieldEquals index value, negated)"
| "peel_not (SsFieldGte index value) negated = (SsFieldGte index value, negated)"
| "peel_not (SsFieldLte index value) negated = (SsFieldLte index value, negated)"
| "peel_not (SsWriteOnce index) negated = (SsWriteOnce index, negated)"
| "peel_not (SsImmutable index) negated = (SsImmutable index, negated)"
| "peel_not (SsMonotonic index) negated = (SsMonotonic index, negated)"
| "peel_not (SsStrictMonotonic index) negated = (SsStrictMonotonic index, negated)"
| "peel_not (SsBoundedBy index w) negated = (SsBoundedBy index w, negated)"
| "peel_not (SsFieldGteHeight index offset) negated = (SsFieldGteHeight index offset, negated)"
| "peel_not (SsFieldLteHeight index offset) negated = (SsFieldLteHeight index offset, negated)"
| "peel_not (SsTemporalGate nb na) negated = (SsTemporalGate nb na, negated)"
| "peel_not (SsSenderIs pk) negated = (SsSenderIs pk, negated)"
| "peel_not (SsSenderInSlot index) negated = (SsSenderInSlot index, negated)"
| "peel_not (SsBalanceGte min_bal) negated = (SsBalanceGte min_bal, negated)"
| "peel_not (SsBalanceLte max_bal) negated = (SsBalanceLte max_bal, negated)"
| "peel_not (SsPreimageGate index k) negated = (SsPreimageGate index k, negated)"
| "peel_not (SsHeapField key atom) negated = (SsHeapField key atom, negated)"
| "peel_not (SsDelegationEpochEquals index) negated = (SsDelegationEpochEquals index, negated)"
| "peel_not (SsCountGe threshold slot) negated = (SsCountGe threshold slot, negated)"
| "peel_not (SsSenderMemberOf members) negated = (SsSenderMemberOf members, negated)"
| "peel_not (SsBalanceDeltaLte max_delta) negated = (SsBalanceDeltaLte max_delta, negated)"
| "peel_not (SsBalanceDeltaGte min_delta) negated = (SsBalanceDeltaGte min_delta, negated)"

definition negate_check :: "constraint_atom \<Rightarrow> check \<Rightarrow> check" where
  "negate_check atom inner =
     (case inner of
        Inr _ \<Rightarrow> Inl (ConstraintViolated (ScAtom atom))
      | Inl (ConstraintViolated _) \<Rightarrow> Inr ()
      | Inl other \<Rightarrow> Inl other)"

definition evaluate_simple_constraint ::
  "('a crypto_scheme) \<Rightarrow> pred_codec \<Rightarrow> eval_env \<Rightarrow> simple_state_constraint \<Rightarrow> check" where
  "evaluate_simple_constraint E Q V s =
     (let (atom, negated) = peel_not s False in
      and_then (lift_simple atom) (\<lambda>lifted.
        let inner = evaluate_atom E Q V lifted
        in if \<not> negated then inner else negate_check lifted inner))"

text \<open>The loop of \<open>AnyOf\<close>: the first success, or the last error.\<close>

fun first_ok :: "program_error \<Rightarrow> check list \<Rightarrow> check" where
  "first_ok last_err [] = Inl last_err"
| "first_ok last_err (r # rs) = (case r of Inr _ \<Rightarrow> Inr () | Inl e \<Rightarrow> first_ok e rs)"

fun evaluate_branch :: "('a crypto_scheme) \<Rightarrow> pred_codec \<Rightarrow> eval_env \<Rightarrow> bound_branch \<Rightarrow> check" where
  "evaluate_branch E Q V (BbSimple s) = evaluate_simple_constraint E Q V s"
| "evaluate_branch E Q V (BbWitnessed local_field source_cell source_field at_root idx) =
     evaluate_atom E Q V (ScWitness (ScObservedFieldEquals local_field source_cell source_field at_root idx))"

fun evaluate_constraint_full ::
  "('a crypto_scheme) \<Rightarrow> pred_codec \<Rightarrow> eval_env \<Rightarrow> state_constraint \<Rightarrow> check" where
  "evaluate_constraint_full E Q V (ScAtom a) = evaluate_atom E Q V a"
| "evaluate_constraint_full E Q V (ScAnyOf variants) =
     first_ok (violated (ScAnyOf variants)) (map (evaluate_simple_constraint E Q V) variants)"
| "evaluate_constraint_full E Q V (ScAnyOfBound branches) =
     first_ok (violated (ScAnyOfBound branches)) (map (evaluate_branch E Q V) branches)"
| "evaluate_constraint_full E Q V (ScAllOf variants) =
     check_all (evaluate_simple_constraint E Q V) variants"

text \<open>Sugar: the negation that cancels a double negation, and implication as a disjunction.\<close>

fun simple_not :: "simple_state_constraint \<Rightarrow> simple_state_constraint" where
  "simple_not (SsNot c) = c"
| "simple_not other = SsNot other"

definition simple_implies ::
  "simple_state_constraint \<Rightarrow> simple_state_constraint \<Rightarrow> state_constraint" where
  "simple_implies antecedent consequent = ScAnyOf [simple_not antecedent, consequent]"

section \<open>Guards and programs\<close>

fun guard_matches ::
  "transition_meta \<Rightarrow> cell_state option \<Rightarrow> cell_state \<Rightarrow> transition_guard \<Rightarrow> bool" where
  "guard_matches meta old new TgAlways = True"
| "guard_matches meta old new (TgMethodIs method) = (tm_method meta = method)"
| "guard_matches meta old new (TgEffectKindIs m) = (tm_effects_mask meta AND m \<noteq> 0)"
| "guard_matches meta old new (TgSlotChanged index) =
     (let i = unat index in
      if STATE_SLOTS \<le> i then False
      else case old of
        Some o_s \<Rightarrow> st_fields new ! i \<noteq> st_fields o_s ! i
      | None \<Rightarrow> st_fields new ! i \<noteq> FIELD_ZERO)"
| "guard_matches meta old new (TgAnyOf children) = list_ex (guard_matches meta old new) children"
| "guard_matches meta old new (TgAllOf children) = list_all (guard_matches meta old new) children"

fun is_method_dispatching :: "transition_guard \<Rightarrow> bool" where
  "is_method_dispatching TgAlways = False"
| "is_method_dispatching (TgMethodIs _) = True"
| "is_method_dispatching (TgEffectKindIs _) = True"
| "is_method_dispatching (TgSlotChanged _) = False"
| "is_method_dispatching (TgAnyOf children) = list_ex is_method_dispatching children"
| "is_method_dispatching (TgAllOf children) = list_ex is_method_dispatching children"

fun evaluate_cases ::
  "('a crypto_scheme) \<Rightarrow> pred_codec \<Rightarrow> eval_env \<Rightarrow> transition_case list \<Rightarrow> bool \<Rightarrow> bool \<Rightarrow> bool \<Rightarrow> check" where
  "evaluate_cases E Q V [] any_matched any_dispatch_case any_dispatch_matched =
     (if \<not> any_matched then Inl NoTransitionCaseMatched
      else if any_dispatch_case \<and> \<not> any_dispatch_matched then Inl NoTransitionCaseMatched
      else Inr ())"
| "evaluate_cases E Q V (k # ks) any_matched any_dispatch_case any_dispatch_matched =
     (let is_dispatch = is_method_dispatching (tc_guard k) in
      if guard_matches (ev_meta V) (ev_old V) (ev_new V) (tc_guard k)
      then and_then (check_all (evaluate_constraint_full E Q V) (tc_constraints k)) (\<lambda>_.
             evaluate_cases E Q V ks True (any_dispatch_case \<or> is_dispatch)
               (any_dispatch_matched \<or> is_dispatch))
      else evaluate_cases E Q V ks any_matched (any_dispatch_case \<or> is_dispatch) any_dispatch_matched)"

fun evaluate_full :: "('a crypto_scheme) \<Rightarrow> pred_codec \<Rightarrow> eval_env \<Rightarrow> cell_program \<Rightarrow> check" where
  "evaluate_full E Q V ProgNone = Inr ()"
| "evaluate_full E Q V (Predicate constraints) = check_all (evaluate_constraint_full E Q V) constraints"
| "evaluate_full E Q V (Cases cases) = evaluate_cases E Q V cases False False False"
| "evaluate_full E Q V (Circuit h) = Inl (CircuitProofRequired h)"

definition evaluate_with_meta ::
  "('a crypto_scheme) \<Rightarrow> pred_codec \<Rightarrow> cell_program \<Rightarrow> cell_state \<Rightarrow> cell_state option \<Rightarrow>
     eval_context option \<Rightarrow> transition_meta \<Rightarrow> check" where
  "evaluate_with_meta E Q p new old ctx meta =
     evaluate_full E Q \<lparr>ev_new = new, ev_old = old, ev_ctx = ctx, ev_meta = meta,
       ev_witnesses = bundle_empty\<rparr> p"

definition evaluate_program ::
  "('a crypto_scheme) \<Rightarrow> pred_codec \<Rightarrow> cell_program \<Rightarrow> cell_state \<Rightarrow> cell_state option \<Rightarrow>
     eval_context option \<Rightarrow> check" where
  "evaluate_program E Q p new old ctx = evaluate_with_meta E Q p new old ctx meta_wildcard"

definition evaluate_static ::
  "('a crypto_scheme) \<Rightarrow> pred_codec \<Rightarrow> cell_program \<Rightarrow> cell_state \<Rightarrow> cell_state option \<Rightarrow> check" where
  "evaluate_static E Q p new old = evaluate_program E Q p new old None"

definition requires_proof :: "cell_program \<Rightarrow> bool" where
  "requires_proof p = (case p of Circuit _ \<Rightarrow> True | _ \<Rightarrow> False)"

definition always_program :: "state_constraint list \<Rightarrow> cell_program" where
  "always_program constraints = Cases [\<lparr>tc_guard = TgAlways, tc_constraints = constraints\<rparr>]"

end
