(* ===== verification/ProgramLaws.thy ===== *)
theory ProgramLaws
  imports ProgramEval
begin

text \<open>
  What an accepted transition means. The graph searches of the evaluator compute the reflexive and
  transitive closure (their fuel is enough), and the committed clearance graph fixes the answer. A
  locale \<open>transition_law\<close> lifts a fact about one accepted step to whole histories of a cell; it is
  interpreted for the constraints that speak about histories. The arithmetic constraints are exact where
  their operands cannot overflow, and the affine ones are shown to wrap where they can. Negation fails
  closed. Guarded cases are accepted by default-deny.
\<close>

section \<open>Reading accepted checks\<close>

declare all_ok.simps(2) [simp del]

lemma all_ok_Cons [simp]: "all_ok (r # rs) = Inr u \<longleftrightarrow> r = Inr () \<and> all_ok rs = Inr ()"
  by (cases r) (auto simp: all_ok.simps)

lemma all_ok_simps [simp]: "all_ok (Inr u # rs) = all_ok rs" "all_ok (Inl e # rs) = Inl e"
  by (simp_all add: all_ok.simps)

lemma check_index_ok [simp]: "check_index index = Inr i \<longleftrightarrow> i = unat index \<and> unat index < STATE_SLOTS"
  by (auto simp: check_index_def)

lemmas accepted = and_then_ok against_old_def need_ctx_def need_sender_def Let_def

section \<open>Graph searches\<close>

lemma closure_go_iff:
  "closure_go edges a b fuel \<longleftrightarrow> (\<exists>n < fuel. (a, b) \<in> (set edges) ^^ n)"
proof (induction fuel arbitrary: a)
  case (Suc fuel)
  have "closure_go edges a b (Suc fuel) \<longleftrightarrow>
      a = b \<or> (\<exists>m. (a, m) \<in> set edges \<and> (\<exists>n < fuel. (m, b) \<in> (set edges) ^^ n))"
    using Suc.IH by (auto simp: list_ex_iff)
  also have "\<dots> \<longleftrightarrow> (\<exists>n < Suc fuel. (a, b) \<in> (set edges) ^^ n)"
  proof
    assume "a = b \<or> (\<exists>m. (a, m) \<in> set edges \<and> (\<exists>n < fuel. (m, b) \<in> (set edges) ^^ n))"
    then show "\<exists>n < Suc fuel. (a, b) \<in> (set edges) ^^ n"
    proof (elim disjE exE conjE)
      fix m n assume "(a, m) \<in> set edges" "n < fuel" "(m, b) \<in> (set edges) ^^ n"
      then show ?thesis using relpow_Suc_I2 [of a m "set edges" b n] by (intro exI [of _ "Suc n"]) simp
    qed (rule exI [of _ 0], simp)
  next
    assume "\<exists>n < Suc fuel. (a, b) \<in> (set edges) ^^ n"
    then obtain n where n: "n < Suc fuel" "(a, b) \<in> (set edges) ^^ n" by blast
    then show "a = b \<or> (\<exists>m. (a, m) \<in> set edges \<and> (\<exists>n < fuel. (m, b) \<in> (set edges) ^^ n))"
    proof (cases n)
      case (Suc k)
      then show ?thesis using n relpow_Suc_D2 [of a b k "set edges"] by auto
    qed simp
  qed
  finally show ?case .
qed simp

lemma closure_fuel_enough: "closure_go edges a b (length edges + 1) \<longleftrightarrow> (a, b) \<in> (set edges)\<^sup>*"
proof
  assume "(a, b) \<in> (set edges)\<^sup>*"
  then obtain n where "n \<le> card (set edges)" "(a, b) \<in> (set edges) ^^ n"
    by (auto simp: rtrancl_finite_eq_relpow)
  then show "closure_go edges a b (length edges + 1)"
    using card_length [of edges] by (auto simp only: closure_go_iff intro!: exI [of _ n])
qed (auto simp only: closure_go_iff rtrancl_power)

text \<open>The fuel-bounded depth-first search behind the Reachable constraint decides reachability: with
  fuel one more than the number of edges it answers true exactly for the pairs in the reflexive and
  transitive closure of the edges, cycles and duplicate edges included.\<close>

theorem reachable_closure_exact: "reachable_closure edges a b \<longleftrightarrow> (a, b) \<in> (set edges)\<^sup>*"
  unfolding reachable_closure_def by (rule closure_fuel_enough)

lemma dominates_closure_iff: "dominates_closure edges a b \<longleftrightarrow> (a, b) \<in> (set edges)\<^sup>*"
  unfolding dominates_closure_def by (rule closure_fuel_enough)

subsection \<open>The committed clearance graph\<close>

definition canonical_edges :: "(field_element \<times> field_element) list \<Rightarrow> (field_element \<times> field_element) list" where
  "canonical_edges edges = remdups_adj (sort edges)"

definition edge_bytes :: "field_element \<times> field_element \<Rightarrow> u8 list" where
  "edge_bytes e = bytes32_bytes (fst e) @ bytes32_bytes (snd e)"

definition graph_preimage :: "(field_element \<times> field_element) list \<Rightarrow> u8 list" where
  "graph_preimage edges =
     ascii ''dregg.clearance-graph-root.v1'' @
     rev (u64_bytes (of_nat (length (canonical_edges edges)))) @
     concat (map edge_bytes (canonical_edges edges))"

lemma graph_root_preimage: "clearance_graph_root E edges = blake3 E (graph_preimage edges)"
proof -
  have "(\<lambda>(hi, lo). bytes32_bytes hi @ bytes32_bytes lo) = edge_bytes"
    by (auto simp: edge_bytes_def fun_eq_iff)
  then show ?thesis
    by (simp add: clearance_graph_root_def graph_preimage_def canonical_edges_def Let_def)
qed

lemma strict_remdups_adj: "sorted xs \<Longrightarrow> sorted_wrt (<) (remdups_adj xs)"
proof (induction xs rule: remdups_adj.induct)
  case (3 x y xs)
  show ?case
  proof (cases "x = y")
    case False
    then have "x < y" "\<forall>z \<in> set xs. y \<le> z" "sorted (y # xs)" using 3(3) by auto
    then show ?thesis using 3(2) [OF False] False by (auto simp: less_le_trans)
  qed (use 3 in auto)
qed auto

lemma canonical_edges_set: "canonical_edges edges = sorted_list_of_set (set edges)"
proof -
  have "sorted_wrt (<) (canonical_edges edges)"
    unfolding canonical_edges_def by (rule strict_remdups_adj) simp
  moreover have "set (canonical_edges edges) = set edges" by (simp add: canonical_edges_def)
  ultimately show ?thesis
    by (metis sorted_list_of_set.idem_if_sorted_distinct strict_sorted_iff)
qed

lemma concat_map_inject:
  assumes "\<And>x. length (f x) = n" "\<And>x y. f x = f y \<Longrightarrow> x = y"
    and "length xs = length ys" "concat (map f xs) = concat (map f ys)"
  shows "xs = ys"
  using assms(3, 4) by (induction xs ys rule: list_induct2) (auto simp: assms(1) dest: assms(2))

lemma length_edge_bytes [simp]: "length (edge_bytes e) = 64"
  by (simp add: edge_bytes_def)

lemma edge_bytes_inject: "edge_bytes e = edge_bytes f \<Longrightarrow> e = f"
  by (cases e; cases f) (auto simp: edge_bytes_def)

lemma graph_preimage_inject: "graph_preimage e = graph_preimage f \<longleftrightarrow> set e = set f"
proof
  assume eq: "graph_preimage e = graph_preimage f"
  have len: "length (concat (map edge_bytes xs)) = 64 * length xs" for xs
    by (induction xs) auto
  have bytes: "concat (map edge_bytes (canonical_edges e)) = concat (map edge_bytes (canonical_edges f))"
    using eq by (simp add: graph_preimage_def)
  have "64 * length (canonical_edges e) = 64 * length (canonical_edges f)"
    using arg_cong [OF bytes, of length] unfolding len .
  then have same: "length (canonical_edges e) = length (canonical_edges f)" by simp
  have "canonical_edges e = canonical_edges f"
    by (rule concat_map_inject [of edge_bytes 64, OF length_edge_bytes _ same bytes]) (rule edge_bytes_inject)
  then have "set (canonical_edges e) = set (canonical_edges f)" by simp
  then show "set e = set f" by (simp add: canonical_edges_def)
qed (simp add: graph_preimage_def canonical_edges_set)


text \<open>The clearance gate is decided by the committed root: two carried graphs with the same root (no
  collision of the hash on their encodings) give the same verdict on every pair of labels, and the
  verdict is reachability. Order and repetition of the carried edges play no role.\<close>

theorem clearance_gate_committed:
  assumes "clearance_graph_root E edges = clearance_graph_root E edges'"
    and "blake3 E (graph_preimage edges) = blake3 E (graph_preimage edges') \<Longrightarrow>
      graph_preimage edges = graph_preimage edges'"
  shows "(arm_clearance_dominates E c actor box root edges new = Inr () \<longleftrightarrow>
      arm_clearance_dominates E c actor box root edges' new = Inr ()) \<and>
    (arm_clearance_dominates E c actor box root edges new = Inr () \<longrightarrow>
      (st_fields new ! unat actor, st_fields new ! unat box) \<in> (set edges')\<^sup>*)"
proof -
  have "set edges = set edges'"
    using assms by (simp add: graph_root_preimage graph_preimage_inject)
  then have eq: "clearance_graph_root E edges = clearance_graph_root E edges'"
      "dominates_closure edges = dominates_closure edges'"
    using assms(1) by (auto simp: dominates_closure_iff fun_eq_iff)
  show ?thesis
    by (auto simp: arm_clearance_dominates_def eq accepted dominates_closure_iff)
qed

section \<open>Guarded cases\<close>

definition case_matches :: "eval_env \<Rightarrow> transition_case \<Rightarrow> bool" where
  "case_matches V k = guard_matches (ev_meta V) (ev_old V) (ev_new V) (tc_guard k)"

definition case_dispatches :: "transition_case \<Rightarrow> bool" where
  "case_dispatches k = is_method_dispatching (tc_guard k)"

lemma evaluate_cases_ok:
  "evaluate_cases E Q V ks m d dm = Inr u \<longleftrightarrow>
     (\<forall>k \<in> set ks. case_matches V k \<longrightarrow> (\<forall>c \<in> set (tc_constraints k). evaluate_constraint_full E Q V c = Inr ())) \<and>
     (m \<or> (\<exists>k \<in> set ks. case_matches V k)) \<and>
     (d \<or> (\<exists>k \<in> set ks. case_dispatches k) \<longrightarrow>
        dm \<or> (\<exists>k \<in> set ks. case_dispatches k \<and> case_matches V k))"
  by (induction ks arbitrary: m d dm)
    (auto simp: and_then_ok check_all_iff case_matches_def case_dispatches_def Let_def split: if_splits)

text \<open>C27. A program of guarded cases is default-deny. It accepts exactly when some case matches, when
  some dispatching case matches if the program has any dispatching case at all, and when every
  constraint of every matching case holds.\<close>

theorem cases_default_deny:
  "evaluate_full E Q V (Cases ks) = Inr () \<longleftrightarrow>
     (\<exists>k \<in> set ks. case_matches V k) \<and>
     ((\<exists>k \<in> set ks. case_dispatches k) \<longrightarrow> (\<exists>k \<in> set ks. case_dispatches k \<and> case_matches V k)) \<and>
     (\<forall>k \<in> set ks. case_matches V k \<longrightarrow>
        (\<forall>c \<in> set (tc_constraints k). evaluate_constraint_full E Q V c = Inr ()))"
  by (auto simp: evaluate_cases_ok)

section \<open>Histories\<close>

text \<open>The constraints that every accepted evaluation of a program has checked.\<close>

fun always_enforced :: "cell_program \<Rightarrow> state_constraint set" where
  "always_enforced ProgNone = {}"
| "always_enforced (Predicate cs) = set cs"
| "always_enforced (Cases ks) = (\<Union>k \<in> {k \<in> set ks. tc_guard k = TgAlways}. set (tc_constraints k))"
| "always_enforced (Circuit h) = {}"

lemma enforced_holds:
  assumes "evaluate_full E Q V p = Inr ()" "c \<in> always_enforced p"
  shows "evaluate_constraint_full E Q V c = Inr ()"
  using assms by (cases p) (auto simp: check_all_iff evaluate_cases_ok case_matches_def)

text \<open>The states of a cell under a program: each step is accepted in some context, with some metadata
  and witnesses.\<close>

inductive program_run :: "('a crypto_scheme) \<Rightarrow> pred_codec \<Rightarrow> cell_program \<Rightarrow> cell_state \<Rightarrow> cell_state \<Rightarrow> bool"
  for E Q p where
  run_start: "program_run E Q p s s"
| run_step: "program_run E Q p s t \<Longrightarrow> ev_old V = Some t \<Longrightarrow> evaluate_full E Q V p = Inr () \<Longrightarrow>
    program_run E Q p s (ev_new V)"

text \<open>A constraint with a law: accepted steps obey a reflexive and transitive relation.\<close>

locale transition_law =
  fixes c :: transition_constraint and R :: "cell_state \<Rightarrow> cell_state \<Rightarrow> bool"
  assumes accepts: "evaluate_transition c new (Some old) ctx = Inr () \<Longrightarrow> R old new"
    and law_refl: "R s s"
    and law_trans: "R s t \<Longrightarrow> R t u \<Longrightarrow> R s u"
begin

lemma history:
  assumes "program_run E Q p s t" "ScAtom (ScTransition c) \<in> always_enforced p"
  shows "R s t"
  using assms(1)
proof induction
  case (run_step s t V)
  have "evaluate_transition c (ev_new V) (Some t) (ev_ctx V) = Inr ()"
    using enforced_holds [OF run_step.hyps(3) assms(2)] run_step.hyps(2) by simp
  then show ?case using accepts law_trans run_step.IH by blast
qed (rule law_refl)

end

lemmas transition_arms = evaluate_transition_def arm_immutable_def arm_write_once_def arm_monotonic_def
  arm_strict_monotonic_def arm_allowed_transitions_def arm_vault_deposit_def arm_settle_escrow_def

interpretation immutable: transition_law "ScImmutable i" "\<lambda>s t. st_fields t ! unat i = st_fields s ! unat i" for i
  by unfold_locales (auto simp: transition_arms accepted)

interpretation write_once: transition_law "ScWriteOnce i"
  "\<lambda>s t. st_fields s ! unat i = FIELD_ZERO \<or> st_fields t ! unat i = st_fields s ! unat i" for i
  by unfold_locales (auto simp: transition_arms accepted)

interpretation monotonic: transition_law "ScMonotonic i" "\<lambda>s t. st_fields s ! unat i \<le> st_fields t ! unat i" for i
  by unfold_locales (auto simp: transition_arms accepted)

interpretation strict: transition_law "ScStrictMonotonic i" "\<lambda>s t. s = t \<or> st_fields s ! unat i < st_fields t ! unat i" for i
  by unfold_locales (auto simp: transition_arms accepted)

interpretation automaton: transition_law "ScAllowedTransitions i allowed"
  "\<lambda>s t. (st_fields s ! unat i, st_fields t ! unat i) \<in> (set allowed)\<^sup>*" for i allowed
  by unfold_locales (auto simp: transition_arms accepted)

text \<open>C26. What a program enforces holds over the whole history of a cell, however many accepted
  transitions it makes: an immutable field keeps its value, a write-once field that is set stays as it
  is, a monotonic field never decreases, a strictly monotonic field never returns to an earlier value,
  and a field under a transition table only moves along the table.\<close>

theorem program_history:
  assumes "program_run E Q p s t"
  shows "(ScAtom (ScTransition (ScImmutable i)) \<in> always_enforced p \<longrightarrow>
      st_fields t ! unat i = st_fields s ! unat i) \<and>
    (ScAtom (ScTransition (ScWriteOnce i)) \<in> always_enforced p \<longrightarrow>
      st_fields s ! unat i \<noteq> FIELD_ZERO \<longrightarrow> st_fields t ! unat i = st_fields s ! unat i) \<and>
    (ScAtom (ScTransition (ScMonotonic i)) \<in> always_enforced p \<longrightarrow>
      st_fields s ! unat i \<le> st_fields t ! unat i) \<and>
    (ScAtom (ScTransition (ScStrictMonotonic i)) \<in> always_enforced p \<longrightarrow> s \<noteq> t \<longrightarrow>
      st_fields s ! unat i < st_fields t ! unat i) \<and>
    (ScAtom (ScTransition (ScAllowedTransitions i allowed)) \<in> always_enforced p \<longrightarrow>
      (st_fields s ! unat i, st_fields t ! unat i) \<in> (set allowed)\<^sup>*)"
  using immutable.history [OF assms] write_once.history [OF assms] monotonic.history [OF assms]
    strict.history [OF assms] automaton.history [OF assms]
  by blast

section \<open>Share vaults\<close>

definition slot_value :: "u8 \<Rightarrow> cell_state \<Rightarrow> nat" where
  "slot_value slot s = unat (field_to_u64 (st_fields s ! unat slot))"

text \<open>Deposits only: assets and shares grow, and a share never loses value.\<close>

definition vault_grows :: "u8 \<Rightarrow> u8 \<Rightarrow> cell_state \<Rightarrow> cell_state \<Rightarrow> bool" where
  "vault_grows a h s t \<longleftrightarrow>
     slot_value a s < slot_value a t \<and> slot_value h s < slot_value h t \<and>
     slot_value a s * slot_value h t \<le> slot_value a t * slot_value h s"

lemma unat_diff_less: "(a :: u64) < b \<Longrightarrow> unat (b - a) = unat b - unat a"
  by (rule unat_sub) simp

lemma uint_le_mult: "uint (a :: u64) * uint b \<le> uint c * uint d \<longleftrightarrow> unat a * unat b \<le> unat c * unat d"
  by (simp only: uint_nat of_nat_mult [symmetric] of_nat_le_iff)

lemma price_mono:
  fixes a a' h h' :: nat
  assumes "a * (h' - h) \<le> h * (a' - a)" "a \<le> a'" "h \<le> h'"
  shows "a * h' \<le> a' * h"
proof -
  obtain m d where "h' = h + m" "a' = a + d" using assms(2, 3) le_Suc_ex by blast
  then show ?thesis using assms(1) by (simp add: distrib_left distrib_right mult.commute)
qed

lemma vault_deposit_grows:
  assumes "evaluate_transition (ScVaultDeposit a h) new (Some old) ctx = Inr ()"
  shows "vault_grows a h old new"
proof -
  let ?A = "field_to_u64 (st_fields old ! unat a)" and ?A' = "field_to_u64 (st_fields new ! unat a)"
  let ?H = "field_to_u64 (st_fields old ! unat h)" and ?H' = "field_to_u64 (st_fields new ! unat h)"
  have lt: "?A < ?A'" "?H < ?H'" and le: "unat ?A * unat (?H' - ?H) \<le> unat ?H * unat (?A' - ?A)"
    using assms by (auto simp: transition_arms accepted uint_le_mult)
  then have "unat ?A * (unat ?H' - unat ?H) \<le> unat ?H * (unat ?A' - unat ?A)"
    by (simp add: unat_diff_less)
  then have "unat ?A * unat ?H' \<le> unat ?A' * unat ?H"
    by (rule price_mono) (use lt in \<open>simp_all add: word_less_nat_alt less_imp_le\<close>)
  then show ?thesis using lt by (simp add: vault_grows_def slot_value_def word_less_nat_alt)
qed

lemma vault_grows_trans: "vault_grows a h s t \<Longrightarrow> vault_grows a h t u \<Longrightarrow> vault_grows a h s u"
proof -
  assume st: "vault_grows a h s t" and tu: "vault_grows a h t u"
  let ?A = "slot_value a" and ?H = "slot_value h"
  have "?H t * (?A s * ?H u) = (?A s * ?H t) * ?H u" by (simp only: ac_simps)
  also have "\<dots> \<le> (?A t * ?H s) * ?H u" using st by (intro mult_le_mono1) (simp add: vault_grows_def)
  also have "\<dots> = (?A t * ?H u) * ?H s" by (simp only: ac_simps)
  also have "\<dots> \<le> (?A u * ?H t) * ?H s" using tu by (intro mult_le_mono1) (simp add: vault_grows_def)
  also have "\<dots> = ?H t * (?A u * ?H s)" by (simp only: ac_simps)
  finally have "?H t * (?A s * ?H u) \<le> ?H t * (?A u * ?H s)" .
  moreover have "0 < ?H t" using st by (auto simp: vault_grows_def)
  ultimately show "vault_grows a h s u" using st tu by (auto simp: vault_grows_def)
qed

interpretation vault: transition_law "ScVaultDeposit a h" "\<lambda>s t. s = t \<or> vault_grows a h s t" for a h
  by unfold_locales (auto dest: vault_deposit_grows vault_grows_trans)

text \<open>A vault whose program enforces VaultDeposit never dilutes its holders: over any history of
  accepted transitions the assets and the shares grow, and assets per share do not fall (compared as
  exact products, so no rounding and no overflow enters).\<close>

theorem vault_never_dilutes:
  assumes "program_run E Q p s t" "ScAtom (ScTransition (ScVaultDeposit a h)) \<in> always_enforced p" "s \<noteq> t"
  shows "slot_value a s < slot_value a t \<and> slot_value h s < slot_value h t \<and>
    slot_value a s * slot_value h t \<le> slot_value a t * slot_value h s"
  using vault.history [OF assms(1, 2)] assms(3) by (simp add: vault_grows_def)

section \<open>Exact arithmetic\<close>

lemma field_add_low: "field_to_u64 (field_add a b) = field_to_u64 a + field_to_u64 b"
proof -
  have "field_to_u64 ((a AND NOT (mask 64)) OR ucast w) = w" for w :: u64
    unfolding field_to_u64_def by (rule bit_word_eqI) (auto simp: bit_simps)
  then show ?thesis by (simp only: field_add_def)
qed

lemma in_range_value: "field_result_in_range f \<Longrightarrow> uint (field_to_u64 f) < 2 ^ 30"
  by (simp add: field_result_in_range_def FIELD_DELTA_RESULT_BITS_def word_less_def push_bit_eq_mult)

text \<open>FieldDelta is exact on the range it admits: if the old value is below 2^30 and the transition is
  accepted, the new value is the old one plus the delta read as a signed 64-bit number, and it is again
  below 2^30. A subtraction that would wrap around is never accepted.\<close>

theorem field_delta_exact:
  assumes "evaluate_transition (ScFieldDelta i delta) new (Some old) ctx = Inr ()"
    and "field_result_in_range (st_fields old ! unat i)"
  shows "uint (field_to_u64 (st_fields new ! unat i)) =
      uint (field_to_u64 (st_fields old ! unat i)) + sint (field_to_u64 delta) \<and>
    field_result_in_range (st_fields new ! unat i)"
proof -
  let ?o = "field_to_u64 (st_fields old ! unat i)" and ?n = "field_to_u64 (st_fields new ! unat i)"
  let ?d = "field_to_u64 delta"
  have n: "?n = ?o + ?d" and rng: "field_result_in_range (st_fields new ! unat i)"
    using assms(1) by (auto simp: evaluate_transition_def arm_field_delta_def accepted field_add_low)
  have b: "0 \<le> uint ?o" "uint ?o < 2 ^ 30" "0 \<le> uint ?n" "uint ?n < 2 ^ 30"
    using in_range_value [OF assms(2)] in_range_value [OF rng] by auto
  have "?d = word_of_int (uint ?n - uint ?o)" using n by (simp add: wi_hom_syms)
  then have "sint ?d = signed_take_bit 63 (uint ?n - uint ?o)" by (simp only: signed_of_int) simp
  also have "\<dots> = uint ?n - uint ?o"
  proof (rule signed_take_bit_int_eq_self)
    have "(2 :: int) ^ 30 < 2 ^ 63" by simp
    then show "- (2 ^ 63) \<le> uint ?n - uint ?o" and "uint ?n - uint ?o < 2 ^ 63"
      using b by - linarith+
  qed
  finally show ?thesis using rng by simp
qed

subsection \<open>Affine sums\<close>

fun affine_value :: "(int \<times> u8) list \<Rightarrow> cell_state \<Rightarrow> int" where
  "affine_value [] s = 0"
| "affine_value ((k, i) # terms) s = k * uint (field_to_u64 (st_fields s ! unat i)) + affine_value terms s"

definition affine_weight :: "(int \<times> u8) list \<Rightarrow> int" where
  "affine_weight terms = sum_list (map (\<lambda>(k, i). \<bar>k\<bar>) terms)"

lemma wrap_i128_eq: "wrap_i128 x = signed_take_bit 127 x"
  unfolding wrap_i128_def by (simp only: signed_of_int) simp

lemma wrap_i128_id: "\<bar>x\<bar> < 2 ^ 127 \<Longrightarrow> wrap_i128 x = x"
  by (simp add: wrap_i128_eq signed_take_bit_int_eq_self abs_less_iff)

lemma affine_term_bound:
  "\<bar>k * uint (field_to_u64 v)\<bar> \<le> \<bar>k\<bar> * 2 ^ 64"
proof -
  have "uint (field_to_u64 v) \<le> 2 ^ 64" using uint_lt2p [of "field_to_u64 v"] by simp
  then show ?thesis by (simp add: abs_mult mult_left_mono)
qed

lemma affine_sum_from_exact:
  assumes "\<bar>acc\<bar> + affine_weight terms * 2 ^ 64 < 2 ^ 127" "affine_sum_from acc terms s = Inr v"
  shows "v = acc + affine_value terms s"
  using assms
proof (induction terms arbitrary: acc)
  case (Cons t terms)
  obtain k i where t: "t = (k, i)" by (cases t)
  let ?x = "k * uint (field_to_u64 (st_fields s ! unat i))"
  have w: "affine_weight (t # terms) = \<bar>k\<bar> + affine_weight terms" by (simp add: affine_weight_def t)
  have nonneg: "0 \<le> affine_weight terms" by (auto simp: affine_weight_def intro!: sum_list_nonneg)
  have "\<bar>?x\<bar> \<le> \<bar>k\<bar> * 2 ^ 64" by (rule affine_term_bound)
  then have small: "\<bar>acc\<bar> + \<bar>?x\<bar> + affine_weight terms * 2 ^ 64 < 2 ^ 127"
    using Cons.prems(1) by (simp add: w distrib_right)
  then have "\<bar>?x\<bar> < 2 ^ 127" "\<bar>acc + ?x\<bar> < 2 ^ 127" and next': "\<bar>acc + ?x\<bar> + affine_weight terms * 2 ^ 64 < 2 ^ 127"
    using nonneg abs_triangle_ineq [of acc ?x] by (linarith | simp)+
  then have "affine_sum_from (acc + ?x) terms s = Inr v"
    using Cons.prems(2) by (simp add: t and_then_ok wrap_i128_id)
  then show ?case using Cons.IH [OF next'] by (simp add: t)
qed simp

text \<open>The affine checks are exact while the coefficients are small: if the absolute values of the
  coefficients add up to less than 2^63, an accepted AffineLe or AffineEq means the inequality or the
  equation between integers.\<close>

theorem affine_checks_exact:
  assumes "affine_weight terms < 2 ^ 63"
  shows "(evaluate_value E (ScAffineLe terms bound) new = Inr () \<longrightarrow> affine_value terms new \<le> bound) \<and>
    (evaluate_value E (ScAffineEq terms bound) new = Inr () \<longrightarrow> affine_value terms new = bound)"
proof -
  have "affine_weight terms * 2 ^ 64 < 2 ^ 63 * 2 ^ 64" using assms by (rule mult_strict_right_mono) simp
  then have "affine_sum_from 0 terms new = Inr v \<Longrightarrow> v = affine_value terms new" for v
    using affine_sum_from_exact [of 0 terms new v] by simp
  then show ?thesis
    by (auto simp: evaluate_value_def arm_affine_le_def arm_affine_eq_def affine_sum_def accepted)
qed

definition demo_overflow_state :: "('a crypto_scheme) \<Rightarrow> cell_state" where
  "demo_overflow_state E = (cell_state_new E 0)\<lparr>st_fields := replicate 16 (mask 64)\<rparr>"

text \<open>Beyond that bound the sum wraps around in 128 bits: a constraint that asks the sum of two
  fields, each with the largest coefficient, to be at most zero accepts a state where both fields are
  2^64 - 1 and the sum is a positive number of 128 bits.\<close>

theorem affine_le_wraps:
  "let terms = [(2 ^ 63 - 1, 0), (2 ^ 63 - 1, 1)]; s = demo_overflow_state E in
     evaluate_value E (ScAffineLe terms 0) s = Inr () \<and> 0 < affine_value terms s \<and>
     in_i64 (2 ^ 63 - 1)"
proof -
  have "field_to_u64 (mask 64) = - 1"
    unfolding field_to_u64_def by (rule bit_word_eqI) (auto simp: bit_simps)
  then have f: "uint (field_to_u64 (mask 64)) = 2 ^ 64 - 1"
    by (simp add: unsigned_minus_1_eq_mask mask_eq_exp_minus_1)
  show ?thesis
    by (simp add: evaluate_value_def arm_affine_le_def affine_sum_def check_index_def STATE_SLOTS_def
        demo_overflow_state_def cell_state_new_def f Let_def in_i64_def wrap_i128_eq)
qed

section \<open>Negation\<close>

lemma peel_not_parity: "peel_not s b = (fst (peel_not s False), b \<noteq> snd (peel_not s False))"
proof (induction s arbitrary: b)
  case (SsNot s)
  show ?case using SsNot.IH [of "\<not> b"] SsNot.IH [of True] by (simp add: prod_eq_iff)
qed simp_all

lemma peeled_lifts: "\<exists>a. lift_simple (fst (peel_not s False)) = Inr a"
proof (induction s)
  case (SsNot s)
  then show ?case using peel_not_parity [of s True] by (metis fst_conv peel_not.simps(1))
qed simp_all

text \<open>Negation inverts verdicts and nothing else. The negation of a check succeeds exactly when the
  check is violated, is violated exactly when the check succeeds, and passes every other error on, so a
  check that cannot be decided (no context, no old state, no witness, bad index) is never made to
  succeed by negating it; negating twice changes nothing.\<close>

theorem negation_fails_closed:
  "(evaluate_simple_constraint E Q V (SsNot s) = Inr () \<longleftrightarrow>
      (\<exists>c. evaluate_simple_constraint E Q V s = Inl (ConstraintViolated c))) \<and>
   ((\<exists>c. evaluate_simple_constraint E Q V (SsNot s) = Inl (ConstraintViolated c)) \<longleftrightarrow>
      evaluate_simple_constraint E Q V s = Inr ()) \<and>
   ((\<forall>c. e \<noteq> ConstraintViolated c) \<longrightarrow>
      (evaluate_simple_constraint E Q V (SsNot s) = Inl e \<longleftrightarrow> evaluate_simple_constraint E Q V s = Inl e)) \<and>
   evaluate_simple_constraint E Q V (SsNot (SsNot s)) = evaluate_simple_constraint E Q V s"
proof -
  obtain atom n where p: "peel_not s False = (atom, n)" by (cases "peel_not s False")
  obtain a where a: "lift_simple atom = Inr a" using peeled_lifts [of s] p by auto
  have n: "peel_not s True = (atom, \<not> n)" using peel_not_parity [of s True] p by simp
  show ?thesis
    by (cases "evaluate_atom E Q V a")
      (auto simp: evaluate_simple_constraint_def p n a negate_check_def Let_def split: program_error.splits)
qed

section \<open>Concrete instances\<close>

definition demo_slots :: "field_element list \<Rightarrow> cell_state" where
  "demo_slots xs = (cell_state_new demo_crypto 0)\<lparr>st_fields := xs @ replicate (STATE_SLOTS - length xs) FIELD_ZERO\<rparr>"

definition demo_codec :: pred_codec where
  "demo_codec = \<lparr>decode_non_membership = (\<lambda>_. None), decode_credential = (\<lambda>_. None), decode_id_set = (\<lambda>_. None),
     verify_acceptance = (\<lambda>_ _ _. None), poseidon2_bytes32 = (\<lambda>x. x + 1)\<rparr>"

definition demo_step_env :: "cell_state option \<Rightarrow> cell_state \<Rightarrow> eval_env" where
  "demo_step_env old new = \<lparr>ev_new = new, ev_old = old, ev_ctx = None, ev_meta = meta_wildcard, ev_witnesses = bundle_empty\<rparr>"

lemma demo_env_simps [simp]:
  "ev_new (demo_step_env old new) = new" "ev_old (demo_step_env old new) = old" "ev_ctx (demo_step_env old new) = None"
  "ev_meta (demo_step_env old new) = meta_wildcard" "ev_witnesses (demo_step_env old new) = bundle_empty"
  by (simp_all add: demo_step_env_def)

lemma demo_slots_fields [simp]:
  "st_fields (demo_slots xs) = xs @ replicate (16 - length xs) 0" "st_nonce (demo_slots xs) = 0"
  "st_balance (demo_slots xs) = 0"
  by (simp_all add: demo_slots_def cell_state_new_def STATE_SLOTS_def FIELD_ZERO_def)

lemma demo_slots_inject: "length xs = length ys \<Longrightarrow> demo_slots xs = demo_slots ys \<longleftrightarrow> xs = ys"
  by (metis append_eq_append_conv demo_slots_fields(1))

lemmas demo_eval = evaluate_transition_def transition_arms arm_field_delta_def check_index_def STATE_SLOTS_def
  against_old_def Let_def FIELD_ZERO_def

lemma demo_run:
  assumes "program_run E Q p s t" "evaluate_full E Q (demo_step_env (Some t) u) p = Inr ()"
  shows "program_run E Q p s u"
  using run_step [OF assms(1), of "demo_step_env (Some t) u"] assms(2) by simp

abbreviation demo_rules :: "state_constraint list" where
  "demo_rules \<equiv> [ScAtom (ScTransition (ScImmutable 0)), ScAtom (ScTransition (ScWriteOnce 1)),
     ScAtom (ScTransition (ScStrictMonotonic 2)), ScAtom (ScTransition (ScAllowedTransitions 3 [(0, 1), (1, 2)]))]"

theorem program_history_witness:
  "st_fields (demo_slots [7, 4, 2, 1]) ! 0 = 7 \<and>
   program_run demo_crypto demo_codec (always_program demo_rules) (demo_slots [7, 0, 1, 0]) (demo_slots [7, 4, 5, 2]) \<and>
   (0 :: field_element, 2) \<in> (set [(0, 1), (1, 2)])\<^sup>*"
proof -
  let ?run = "program_run demo_crypto demo_codec (always_program demo_rules)"
  let ?s = "demo_slots [7, 0, 1, 0]" and ?t = "demo_slots [7, 4, 2, 1]" and ?u = "demo_slots [7, 4, 5, 2]"
  have "evaluate_full demo_crypto demo_codec (demo_step_env (Some ?s) ?t) (always_program demo_rules) = Inr ()"
    "evaluate_full demo_crypto demo_codec (demo_step_env (Some ?t) ?u) (always_program demo_rules) = Inr ()"
    by (simp_all add: always_program_def demo_eval)
  then have run: "?run ?s ?u"
    by (blast intro: demo_run run_start)
  moreover have "(st_fields ?s ! unat (3 :: u8), st_fields ?u ! unat (3 :: u8)) \<in> (set [(0, 1), (1, 2)])\<^sup>*"
    using program_history [OF run, of 3 "[(0, 1), (1, 2)]"] by (simp add: always_program_def)
  ultimately show ?thesis by simp
qed

theorem cases_default_deny_witness:
  "evaluate_full demo_crypto demo_codec (demo_step_env None (demo_slots []))
     (Cases [\<lparr>tc_guard = TgMethodIs 9, tc_constraints = []\<rparr>, \<lparr>tc_guard = TgAlways, tc_constraints = []\<rparr>])
   \<noteq> Inr ()"
  by (subst cases_default_deny)
    (simp add: case_matches_def case_dispatches_def meta_wildcard_def)

theorem clearance_gate_committed_witness:
  "\<not> arm_clearance_dominates demo_crypto (ScAnyOf []) 0 1 2 [(5, 6), (6, 7)] (demo_slots [7, 5, 0]) = Inr () \<and>
   arm_clearance_dominates demo_crypto (ScAnyOf []) 0 1 2 [(6, 7), (5, 6), (6, 7)] (demo_slots [5, 7, 0]) = Inr ()"
proof -
  have same: "set [(5 :: field_element, 6 :: field_element), (6, 7)] = set [(6, 7), (5, 6), (6, 7)]" by auto
  then have pre: "graph_preimage [(5, 6), (6, 7)] = graph_preimage [(6, 7), (5, 6), (6, 7)]"
    by (simp only: graph_preimage_inject)
  then have root: "clearance_graph_root demo_crypto [(5, 6), (6, 7)] =
      clearance_graph_root demo_crypto [(6, 7), (5, 6), (6, 7)]"
    by (simp only: graph_root_preimage)
  have "arm_clearance_dominates demo_crypto (ScAnyOf []) 0 1 2 [(5, 6), (6, 7)] (demo_slots [5, 7, 0]) = Inr ()"
    by (simp add: arm_clearance_dominates_def check_index_def STATE_SLOTS_def graph_root_preimage demo_crypto_def
        dominates_closure_def)
  then have "arm_clearance_dominates demo_crypto (ScAnyOf []) 0 1 2 [(6, 7), (5, 6), (6, 7)] (demo_slots [5, 7, 0]) = Inr ()"
    using clearance_gate_committed [OF root, of "ScAnyOf []" 0 1 2 "demo_slots [5, 7, 0]"] pre by simp
  moreover have "\<not> arm_clearance_dominates demo_crypto (ScAnyOf []) 0 1 2 [(5, 6), (6, 7)] (demo_slots [7, 5, 0]) = Inr ()"
    by (simp add: arm_clearance_dominates_def check_index_def STATE_SLOTS_def dominates_closure_def and_then_ok)
  ultimately show ?thesis by blast
qed

theorem vault_never_dilutes_witness:
  "slot_value 0 (demo_slots [100, 10]) * slot_value 1 (demo_slots [250, 25]) \<le>
   slot_value 0 (demo_slots [250, 25]) * slot_value 1 (demo_slots [100, 10])"
proof -
  let ?p = "Predicate [ScAtom (ScTransition (ScVaultDeposit 0 1))]"
  let ?s = "demo_slots [100, 10]" and ?t = "demo_slots [250, 25]"
  have "evaluate_full demo_crypto demo_codec (demo_step_env (Some ?s) ?t) ?p = Inr ()"
    by (simp add: demo_eval field_to_u64_def)
  then have "program_run demo_crypto demo_codec ?p ?s ?t"
    by (rule demo_run [OF run_start])
  then show ?thesis
    using vault_never_dilutes [of demo_crypto demo_codec ?p ?s ?t 0 1] by (simp add: demo_slots_inject)
qed

theorem field_delta_exact_witness:
  "uint (field_to_u64 (st_fields (demo_slots [3]) ! 0)) = uint (field_to_u64 (st_fields (demo_slots [10]) ! 0)) + (- 7)"
proof -
  let ?d = "0xFFFFFFFFFFFFFFF9 :: field_element"
  have "evaluate_transition (ScFieldDelta 0 ?d) (demo_slots [3]) (Some (demo_slots [10])) None = Inr ()"
    by (simp add: demo_eval field_add_def field_to_u64_def field_result_in_range_def FIELD_DELTA_RESULT_BITS_def
        mask_eq_exp_minus_1)
  moreover have "field_result_in_range (10 :: field_element)"
    by (simp add: field_result_in_range_def FIELD_DELTA_RESULT_BITS_def field_to_u64_def)
  ultimately show ?thesis
    using field_delta_exact [of 0 ?d "demo_slots [3]" "demo_slots [10]" None] by (simp add: field_to_u64_def)
qed

theorem affine_checks_exact_witness:
  "affine_value [(2, 0), (- 3, 1)] (demo_slots [4, 2]) \<le> 2"
proof -
  have "evaluate_value demo_crypto (ScAffineLe [(2, 0), (- 3, 1)] 2) (demo_slots [4, 2]) = Inr ()"
    by (simp add: evaluate_value_def arm_affine_le_def affine_sum_def check_index_def STATE_SLOTS_def
        field_to_u64_def wrap_i128_eq)
  then show ?thesis
    using affine_checks_exact [of "[(2, 0), (- 3, 1)]" demo_crypto 2 "demo_slots [4, 2]"]
    by (simp add: affine_weight_def)
qed

theorem negation_fails_closed_witness:
  "evaluate_simple_constraint demo_crypto demo_codec (demo_step_env None (demo_slots [])) (SsNot (SsSenderIs 3)) =
     Inl (MissingContextField ''sender'')"
proof -
  have "evaluate_simple_constraint demo_crypto demo_codec (demo_step_env None (demo_slots [])) (SsSenderIs 3) =
     Inl (MissingContextField ''sender'')"
    by (simp add: evaluate_simple_constraint_def evaluate_context_def arm_sender_is_def need_sender_def need_ctx_def Let_def)
  then show ?thesis
    using negation_fails_closed [of demo_crypto demo_codec "demo_step_env None (demo_slots [])" "SsSenderIs 3"
        "MissingContextField ''sender''"]
    by simp
qed

end
