(* ===== verification/ProgramGates.thy ===== *)
theory ProgramGates
  imports ProgramLaws
begin

text \<open>
  The gates that tie a program to something outside the cell's fields: key rotation (a hash chain of
  committed keys with a cooling period), the discharge of a standing obligation (a schedule against the
  block height), and credentials (a published issuer root and a revocation set).
\<close>

section \<open>Key rotation\<close>

text \<open>Under a key-rotation gate the key set of a cell changes only along the committed chain: if the
  old state carries a digest and any of the three slots changes, the new key set hashes to that digest,
  a new non-zero digest is committed, the cooling period since the recorded height has passed, and the
  slot of the last rotation holds exactly the height of the block.\<close>

theorem key_rotation_follows_chain:
  assumes "evaluate_witness E Q (ScKeyRotationGate d u r cooling k) new (Some old) (Some ctx) W = Inr ()"
    and "st_fields old ! unat d \<noteq> FIELD_ZERO"
    and "st_fields new ! unat d \<noteq> st_fields old ! unat d \<or> st_fields new ! unat u \<noteq> st_fields old ! unat u \<or>
      st_fields new ! unat r \<noteq> st_fields old ! unat r"
  shows "hash_preimage32 E Q k (st_fields new ! unat u) = st_fields old ! unat d \<and>
    st_fields new ! unat d \<noteq> FIELD_ZERO \<and>
    saturating_add_word (field_to_u64 (st_fields old ! unat r)) cooling \<le> ec_block_height ctx \<and>
    st_fields new ! unat r = field_from_u64 (ec_block_height ctx)"
proof -
  have stamp: "f = field_from_u64 h" if "field_to_u64 f = h" "drop_bit 64 f = 0" for f h
  proof (rule bit_word_eqI)
    fix n assume "n < LENGTH(256)"
    have "bit (drop_bit 64 f) (n - 64) = False" using that(2) by simp
    then show "bit f n \<longleftrightarrow> bit (field_from_u64 h) n"
      using that(1) by (cases "n < 64") (auto simp: field_to_u64_def field_from_u64_def bit_simps)
  qed
  show ?thesis
    using assms by (auto simp: evaluate_witness_def arm_key_rotation_gate_def accepted split: if_splits intro: stamp)
qed

section \<open>Standing obligations\<close>

inductive discharged ::
  "context_constraint \<Rightarrow> transition_meta \<Rightarrow> nat \<Rightarrow> cell_state \<Rightarrow> cell_state \<Rightarrow> u64 \<Rightarrow> bool" for c meta where
  not_yet: "discharged c meta 0 s s h"
| once_more: "discharged c meta n s t h \<Longrightarrow> evaluate_context c new (Some t) (Some ctx) meta = Inr () \<Longrightarrow>
    discharged c meta (Suc n) s new (ec_block_height ctx)"

lemma discharge_step:
  assumes "evaluate_context (ScDischargeObligation cs ds am period amount) new (Some old) (Some ctx) meta = Inr ()"
  shows "slot_value ds old \<le> unat (ec_block_height ctx)"
    "slot_value cs new = slot_value cs old + unat period" "slot_value am new = slot_value am old + unat amount"
proof -
  have up: "unat (ucast w :: u64) = unat w" for w :: u32
    using unsigned_less [of w, where ?'a = nat] by (simp add: unsigned_ucast_eq take_bit_nat_eq_self)
  show "slot_value ds old \<le> unat (ec_block_height ctx)"
    "slot_value cs new = slot_value cs old + unat period" "slot_value am new = slot_value am old + unat amount"
    using assms by (auto simp: evaluate_context_def arm_discharge_obligation_def accepted slot_value_def
        word_le_nat_alt checked_add_word_SomeD(1) up)
qed

text \<open>A standing obligation whose due slot is its cursor is discharged on schedule: after n accepted
  discharges the cursor has advanced by exactly n periods and the total by exactly n amounts (without
  wrapping around), and the last discharge happened at or after the due height of its period.\<close>

theorem discharge_on_schedule:
  assumes "discharged (ScDischargeObligation cs cs am period amount) meta n s t h"
  shows "slot_value cs t = slot_value cs s + n * unat period \<and> slot_value am t = slot_value am s + n * unat amount \<and>
    (0 < n \<longrightarrow> slot_value cs s + (n - 1) * unat period \<le> unat h)"
  using assms
proof induction
  case (once_more n s t h new ctx)
  then show ?case using discharge_step [OF once_more.hyps(2)] by (auto simp: algebra_simps)
qed simp

section \<open>Credentials\<close>

lemma neighbor_roundtrip: "neighbor_from_bytes (neighbor_to_bytes p) = Some p"
  by (simp add: neighbor_from_bytes_def neighbor_to_bytes_def)

text \<open>The contract of an adjacency verifier: what it accepts are consecutive members of the committed set.\<close>

definition adjacency_sound :: "(bytes32 \<Rightarrow> bytes32 set) \<Rightarrow> adjacency_verifier \<Rightarrow> bool" where
  "adjacency_sound members adj \<longleftrightarrow>
     (\<forall>root lower upper proof. adj root lower upper proof \<longrightarrow>
        (\<forall>x \<in> members root. \<not> (lower < x \<and> x < upper)))"

lemma non_membership_sound:
  assumes "verify_non_membership_predicate E Q (Some adj) commitment input proof_bytes = Inr ()"
    and "adjacency_sound members adj" "input_id32 input = Some candidate"
  shows "candidate \<notin> members commitment"
  using assms
  by (auto simp: verify_non_membership_predicate_def adjacency_sound_def Let_def not_le
      split: option.splits if_splits)

lemma verify_credentialD:
  assumes "verify_credential_set E Q adjacency issuer_roots commitment input proof_bytes = Inr ()"
  obtains holder pf authority adj where "input_id32 input = Some holder"
    "credential_from_bytes Q proof_bytes = Some pf" "issuer_roots = Some authority" "adjacency = Some adj"
    "cp_committed_leaf pf = holder_commit_leaf E commitment holder (cp_holder_blinding pf)"
    "merkle_root_from_path E (cp_committed_leaf pf) (cp_merkle_path pf) = cp_issuer_set_root pf"
    "authority commitment (cp_issuer_set_root pf) (cp_revocation_root pf)"
    "np_lower (cp_non_revocation pf) < cp_committed_leaf pf" "cp_committed_leaf pf < np_upper (cp_non_revocation pf)"
    "adj (cp_revocation_root pf) (np_lower (cp_non_revocation pf)) (np_upper (cp_non_revocation pf))
       (cp_revocation_adjacency_proof pf)"
  using assms by (auto simp: verify_credential_set_def Let_def not_le split: option.splits if_splits)

text \<open>An accepted credential proof is what it claims. Against the table of published issuer roots and
  an adjacency verifier that only accepts consecutive members, acceptance means that the issuer has
  published roots for this commitment, that a Merkle path leads from the leaf of the presenting holder
  to the published membership root, and that this leaf is not in the published revocation set.\<close>

theorem credential_sound:
  assumes "verify_credential_set E Q (Some adj) (Some (verify_issuer_roots B)) commitment (PiSender holder)
      proof_bytes = Inr ()"
    and "adjacency_sound revoked adj"
  shows "\<exists>blinding path set_root rev_root. B commitment = Some (set_root, rev_root) \<and>
    merkle_root_from_path E (holder_commit_leaf E commitment holder blinding) path = set_root \<and>
    holder_commit_leaf E commitment holder blinding \<notin> revoked rev_root"
  using assms(1)
proof (rule verify_credentialD)
  fix h pf authority adj'
  let ?leaf = "cp_committed_leaf pf"
  assume a: "input_id32 (PiSender holder) = Some h" "Some (verify_issuer_roots B) = Some authority" "Some adj = Some adj'"
    "?leaf = holder_commit_leaf E commitment h (cp_holder_blinding pf)"
    "merkle_root_from_path E ?leaf (cp_merkle_path pf) = cp_issuer_set_root pf"
    "authority commitment (cp_issuer_set_root pf) (cp_revocation_root pf)"
    "np_lower (cp_non_revocation pf) < ?leaf" "?leaf < np_upper (cp_non_revocation pf)"
    "adj' (cp_revocation_root pf) (np_lower (cp_non_revocation pf)) (np_upper (cp_non_revocation pf))
       (cp_revocation_adjacency_proof pf)"
  then have "B commitment = Some (cp_issuer_set_root pf, cp_revocation_root pf)"
    by (auto simp: verify_issuer_roots_def split: option.splits if_splits)
  moreover have "?leaf \<notin> revoked (cp_revocation_root pf)" using a assms(2) by (auto simp: adjacency_sound_def)
  ultimately show ?thesis using a by fastforce
qed

lemma default_builtins_get:
  assumes "default_builtins E Q = Some R" "registry_get R kind = Some v"
  shows "v \<in> set (default_verifiers E Q) \<and> pv_kind v = kind"
  using assms
  by (cases kind)
    (auto simp: default_builtins_def default_verifiers_def register_builtin_def registry_empty_def registry_get_def)

text \<open>The registry that a host gets by default is fail-closed: it is built without a panic, and
  whatever the commitment, the input and the proof bytes, it accepts no witnessed predicate of any kind
  but automaton acceptance.\<close>

theorem default_registry_fails_closed:
  "\<exists>R. default_builtins E Q = Some R \<and>
    (\<forall>wp input proof_bytes. registry_verify R wp input proof_bytes = Inr () \<longrightarrow> wp_kind wp = WkDfa)"
proof -
  have "\<exists>R. default_builtins E Q = Some R"
    by (simp add: default_builtins_def default_verifiers_def register_builtin_def)
  then obtain R where R: "default_builtins E Q = Some R" ..
  have "wp_kind wp = WkDfa" if ok: "registry_verify R wp input proof_bytes = Inr ()" for wp input proof_bytes
  proof -
    obtain v where v: "registry_get R (wp_kind wp) = Some v" "pv_verify v (wp_commitment wp) input proof_bytes = Inr ()"
      using ok by (auto simp: registry_verify_def split: option.splits)
    then show ?thesis
      using default_builtins_get [OF R v(1)]
      by (auto simp: default_verifiers_def not_yet_wired_def verify_non_membership_predicate_def
          verify_credential_set_def Let_def split: option.splits if_splits)
  qed
  then show ?thesis using R by blast
qed

text \<open>A credential proof cannot be handed on: the same bytes are accepted for two senders only if their
  leaves collide.\<close>

lemma credential_not_transferable:
  assumes "verify_credential_set E Q adjacency roots commitment (PiSender holder) proof_bytes = Inr ()"
    and "verify_credential_set E Q adjacency roots commitment (PiSender other) proof_bytes = Inr ()"
  obtains blinding where
    "holder_commit_leaf E commitment holder blinding = holder_commit_leaf E commitment other blinding"
  using assms by (elim verify_credentialD) (metis input_id32.simps(2) option.inject)

text \<open>
  The gate of an obligation reads the due height from its own slot and does not ask that slot to move:
  with a due slot apart from the cursor, two periods are discharged at one height.
\<close>

lemma discharge_repeats_at_one_height:
  assumes "field_to_u64 (st_fields s ! 1) \<le> h"
    and "t = s\<lparr>st_fields := (st_fields s)[0 := field_from_u64 100, 2 := field_from_u64 5]\<rparr>"
    and "u = t\<lparr>st_fields := (st_fields t)[0 := field_from_u64 200, 2 := field_from_u64 10]\<rparr>"
    and "st_fields s ! 0 = 0" "st_fields s ! 2 = 0" "length (st_fields s) = STATE_SLOTS"
  shows "discharged (ScDischargeObligation 0 1 2 100 5) meta 2 s u h"
proof -
  let ?ctx = "eval_context_minimal h 0"
  have conv: "field_to_u64 (field_from_u64 v) = v" for v
    unfolding field_to_u64_def field_from_u64_def by (rule bit_word_eqI) (auto simp: bit_simps)
  have one: "evaluate_context (ScDischargeObligation 0 1 2 100 5) t (Some s) (Some ?ctx) meta = Inr ()"
    and two: "evaluate_context (ScDischargeObligation 0 1 2 100 5) u (Some t) (Some ?ctx) meta = Inr ()"
    using assms
    by (simp_all add: evaluate_context_def arm_discharge_obligation_def check_index_def need_ctx_def
        eval_context_minimal_def checked_add_word_def STATE_SLOTS_def conv Let_def)
      (simp_all add: field_to_u64_def)
  have "discharged (ScDischargeObligation 0 1 2 100 5) meta (Suc (Suc 0)) s u (ec_block_height ?ctx)"
    by (rule once_more [OF once_more [OF not_yet one] two])
  then show ?thesis by (simp add: eval_context_minimal_def numeral_2_eq_2)
qed

section \<open>Concrete instances\<close>

definition demo_height :: "u64 \<Rightarrow> eval_context" where
  "demo_height h = (eval_context_minimal h 0)\<lparr>ec_revealed_preimage := Some 41\<rparr>"

theorem key_rotation_follows_chain_witness:
  "hash_preimage32 demo_crypto demo_codec HkPoseidon2 (st_fields (demo_slots [9, 41, 60]) ! 1) = 42"
proof -
  have "evaluate_witness demo_crypto demo_codec (ScKeyRotationGate 0 1 2 50 HkPoseidon2) (demo_slots [9, 41, 60])
      (Some (demo_slots [42, 7, 5])) (Some (demo_height 60)) bundle_empty = Inr ()"
    by (simp add: evaluate_witness_def arm_key_rotation_gate_def check_index_def STATE_SLOTS_def FIELD_ZERO_def
        need_ctx_def find_preimage32_def bundle_empty_def demo_height_def eval_context_minimal_def
        hash_preimage32_def demo_codec_def field_to_u64_def saturating_add_word_def Let_def)
  then show ?thesis
    using key_rotation_follows_chain [of demo_crypto demo_codec 0 1 2 50 HkPoseidon2 "demo_slots [9, 41, 60]"
        "demo_slots [42, 7, 5]" "demo_height 60" bundle_empty]
    by (simp add: FIELD_ZERO_def)
qed

theorem discharge_on_schedule_witness:
  "slot_value 0 (demo_slots [110, 5]) = slot_value 0 (demo_slots [100, 0]) + 1 * unat (10 :: u32)"
proof -
  let ?c = "ScDischargeObligation 0 0 1 10 5"
  have "evaluate_context ?c (demo_slots [110, 5]) (Some (demo_slots [100, 0])) (Some (demo_height 104)) meta_wildcard = Inr ()"
    by (simp add: evaluate_context_def arm_discharge_obligation_def check_index_def STATE_SLOTS_def need_ctx_def
        demo_height_def eval_context_minimal_def checked_add_word_def field_to_u64_def Let_def)
  then have "discharged ?c meta_wildcard (Suc 0) (demo_slots [100, 0]) (demo_slots [110, 5]) (ec_block_height (demo_height 104))"
    by (rule once_more [OF not_yet])
  from discharge_on_schedule [OF this] show ?thesis by simp
qed

text \<open>A registry table with one issuer, a proof with an empty path, and a revocation set without members
  between zero and ten.\<close>

definition demo_credential_crypto :: crypto where
  "demo_credential_crypto = demo_crypto\<lparr>derive_key := (\<lambda>_ _. 5)\<rparr>"

definition demo_credential :: credential_proof where
  "demo_credential = credential_proof_new demo_credential_crypto 1 2 3 [] 8 0 10 []"

definition demo_credential_codec :: pred_codec where
  "demo_credential_codec = demo_codec\<lparr>decode_credential := (\<lambda>_. Some demo_credential)\<rparr>"

theorem credential_sound_witness:
  "holder_commit_leaf demo_credential_crypto 1 2 3 = 5 \<and>
   (\<exists>blinding path set_root rev_root. issuer_authorize Map.empty 1 5 8 1 = Some (set_root, rev_root) \<and>
     merkle_root_from_path demo_credential_crypto (holder_commit_leaf demo_credential_crypto 1 2 blinding) path = set_root \<and>
     holder_commit_leaf demo_credential_crypto 1 2 blinding \<notin> (\<lambda>_. {11, 12}) rev_root)"
proof -
  let ?adj = "\<lambda>(root :: bytes32) (lower :: bytes32) (upper :: bytes32) (proof :: u8 list). upper \<le> 10"
  have "adjacency_sound (\<lambda>_. {11, 12}) ?adj" by (auto simp: adjacency_sound_def dest: less_le_trans)
  moreover have "verify_credential_set demo_credential_crypto demo_credential_codec (Some ?adj)
      (Some (verify_issuer_roots (issuer_authorize Map.empty 1 5 8))) 1 (PiSender 2) [0] = Inr ()"
    by (simp add: verify_credential_set_def credential_from_bytes_def demo_credential_codec_def demo_credential_def
        credential_proof_new_def neighbor_new_def adjacency_tag_def binding_tag_def holder_commit_leaf_def
        demo_credential_crypto_def demo_crypto_def issuer_authorize_def verify_issuer_roots_def Let_def)
  ultimately show ?thesis
    using credential_sound [of demo_credential_crypto demo_credential_codec ?adj
        "issuer_authorize Map.empty 1 5 8" 1 2 "[0]" "\<lambda>_. {11, 12}"]
    by (simp add: holder_commit_leaf_def demo_credential_crypto_def)
qed

theorem default_registry_fails_closed_witness:
  "\<exists>R. default_builtins demo_crypto demo_codec = Some R \<and>
    registry_verify R \<lparr>wp_kind = WkTemporal, wp_commitment = 1, wp_input_ref = IrSender, wp_proof_witness_index = 0\<rparr>
      (PiSender 2) [1, 2, 3] \<noteq> Inr ()"
proof -
  obtain R where R: "default_builtins demo_crypto demo_codec = Some R"
    "\<forall>wp input proof_bytes. registry_verify R wp input proof_bytes = Inr () \<longrightarrow> wp_kind wp = WkDfa"
    using default_registry_fails_closed [of demo_crypto demo_codec] by blast
  then show ?thesis by fastforce
qed

end
