(* ===== verification/TurnAction.thy ===== *)
theory TurnAction
  imports ExecutorGates ProgramEval
begin

text \<open>
  Actions, authorizations and call forests (\<open>turn/src/action.rs\<close>, \<open>forest.rs\<close>, \<open>executor/costs.rs\<close>, the cost
  functions of \<open>executor/finalize.rs\<close>, and the handoff certificate of \<open>captp/src/handoff.rs\<close>): the data an
  executor receives, the hashes and messages that signatures cover, and what an action costs. Postcard
  encodings, the bytes of a shielded payload, Ed25519, ML-DSA, point arithmetic and token libraries are fields of
  the record \<open>turn_crypto\<close>. A 64-byte signature is the pair of its halves. The cached hash of a tree is
  left out: the executor uses \<open>CallForest::compute_hash\<close>, which does not read it.
\<close>

section \<open>Authorizations\<close>

type_synonym sig64 = "bytes32 \<times> bytes32"

record handoff_certificate =
  hc_introducer :: bytes32
  hc_introducer_signature :: sig64
  hc_target_federation :: bytes32
  hc_target_cell :: cell_id
  hc_recipient_pk :: bytes32
  hc_permissions :: auth_required
  hc_allowed_effects :: "effect_mask option"
  hc_expires_at :: "u64 option"
  hc_max_uses :: "u32 option"
  hc_nonce :: bytes32
  hc_swiss :: bytes32

datatype delegation_proof_data =
    SignedDelegation (sd_delegator_pk: bytes32) (sd_signature: sig64) (sd_bearer_pk: bytes32)
  | StarkDelegation "u8 list" bytes32

record bearer_cap_proof =
  bp_target :: cell_id
  bp_permissions :: auth_required
  bp_delegation_proof :: delegation_proof_data
  bp_expires_at :: u64
  bp_revocation_channel :: "bytes32 option"
  bp_allowed_effects :: "effect_mask option"

datatype token_key_ref =
    BiscuitIssuer bytes32
  | CellScopedMacaroon cell_id

datatype authorization =
    AuSignature bytes32 bytes32
  | AuProof "u8 list" string string
  | AuBreadstuff bytes32
  | AuBearer bearer_cap_proof
  | AuUnchecked
  | AuCapTpDelivered handoff_certificate bytes32 bytes32 sig64
  | AuCustom witnessed_predicate
  | AuOneOf "authorization list" u32
  | AuStealth bytes32 bytes32 bytes32 sig64
  | AuToken "u8 list" token_key_ref "u8 list list"
  | AuHybridSignature sig64 "u8 list" "u8 list"

datatype delegation_mode = DmNone | DmParentsOwn | DmInherit | DmSnapshotRefresh

datatype commitment_mode = CmFull | CmPartial

text \<open>The struct \<open>Action\<close>; the type \<open>action\<close> is the enum of permission slots. The witness blobs of an action
  have the kinds of those that the program evaluator sees.\<close>

record turn_action =
  ta_target :: cell_id
  ta_method :: bytes32
  ta_args :: "field_element list"
  ta_authorization :: authorization
  ta_preconditions :: preconditions
  ta_effects :: "effect list"
  ta_may_delegate :: delegation_mode
  ta_commitment_mode :: commitment_mode
  ta_balance_change :: "int option"
  ta_witness_blobs :: "witness_blob list"

record auth_request =
  rq_action :: bytes32
  rq_service :: cell_id
  rq_app_id :: bytes32
  rq_now :: int

datatype token_format = TfBiscuit | TfMacaroon

datatype token_verdict = TvOk | TvDenied | TvExpired | TvInvalid

text \<open>
  \<open>verify_strict\<close> includes decoding the key, for which \<open>valid_key\<close> stands alone where the code reports it
  as a separate error. \<open>stealth_point S c\<close> is the encoding of \<open>c\<cdot>G + S\<close>, when \<open>S\<close> decodes. \<open>detect_token\<close> fails on
  text that is no token. \<open>verify_biscuit\<close> and \<open>verify_macaroon\<close> decode and check a token against a request.
\<close>

record turn_crypto = exec_crypto +
  shielded_hash_bytes :: "shielded_payload \<Rightarrow> u8 list"
  preconditions_postcard :: "preconditions \<Rightarrow> u8 list"
  predicate_postcard :: "witnessed_predicate \<Rightarrow> u8 list"
  candidates_postcard :: "authorization list \<Rightarrow> u8 list"
  key_ref_postcard :: "token_key_ref \<Rightarrow> u8 list"
  effects_postcard :: "effect list \<Rightarrow> u8 list"
  shielded_bytes :: "shielded_payload \<Rightarrow> nat"
  valid_key :: "bytes32 \<Rightarrow> bool"
  verify_strict :: "bytes32 \<Rightarrow> u8 list \<Rightarrow> sig64 \<Rightarrow> bool"
  ml_dsa_verify :: "u8 list \<Rightarrow> u8 list \<Rightarrow> u8 list \<Rightarrow> bool"
  stealth_point :: "bytes32 \<Rightarrow> bytes32 \<Rightarrow> bytes32 option"
  verify_stark_delegation_binding ::
    "u8 list \<Rightarrow> bytes32 \<Rightarrow> cell_id \<Rightarrow> auth_required \<Rightarrow> u64 \<Rightarrow> bytes32 \<Rightarrow> bool"
  detect_token :: "u8 list \<Rightarrow> token_format option"
  verify_biscuit :: "bytes32 \<Rightarrow> u8 list \<Rightarrow> auth_request \<Rightarrow> token_verdict"
  verify_macaroon :: "bytes32 \<Rightarrow> u8 list \<Rightarrow> u8 list list \<Rightarrow> auth_request \<Rightarrow> token_verdict"

section \<open>Hashes and signing messages\<close>

definition sig64_bytes :: "sig64 \<Rightarrow> u8 list" where
  "sig64_bytes sig = bytes32_bytes (fst sig) @ bytes32_bytes (snd sig)"

definition handoff_signing_message :: "handoff_certificate \<Rightarrow> u8 list" where
  "handoff_signing_message cert =
     ascii ''dregg-handoff-cert-v1'' @ bytes32_bytes (hc_introducer cert) @
     bytes32_bytes (hc_target_federation cert) @ bytes32_bytes (hc_target_cell cert) @
     bytes32_bytes (hc_recipient_pk cert) @ hash_auth_required (hc_permissions cert) @
     (case hc_allowed_effects cert of Some m \<Rightarrow> 1 # u32_bytes m | None \<Rightarrow> [0]) @
     (case hc_expires_at cert of Some h \<Rightarrow> 1 # u64_bytes h | None \<Rightarrow> [0]) @
     (case hc_max_uses cert of Some n \<Rightarrow> 1 # u32_bytes n | None \<Rightarrow> [0]) @
     bytes32_bytes (hc_nonce cert) @ bytes32_bytes (hc_swiss cert)"

definition handoff_verify_signature :: "('a turn_crypto_scheme) \<Rightarrow> handoff_certificate \<Rightarrow> bytes32 \<Rightarrow> bool" where
  "handoff_verify_signature E cert introducer_pk =
     verify_strict E introducer_pk (handoff_signing_message cert) (hc_introducer_signature cert)"

definition handoff_is_valid :: "handoff_certificate \<Rightarrow> u64 \<Rightarrow> bool" where
  "handoff_is_valid cert current_height =
     (case hc_expires_at cert of Some exp \<Rightarrow> current_height \<le> exp | None \<Rightarrow> True)"

text \<open>
  The bytes an effect is hashed over. The two effects that carry hash chains of other structures
  (\<open>CellDestroy\<close>, \<open>ReceiptArchive\<close>) enter with the hash of the structure, the action of a pipelined send
  and the effects of an exercise with theirs. \<open>shielded_hash_bytes\<close> are the bytes of a shielded payload.
\<close>

definition option_bytes :: "('v \<Rightarrow> u8 list) \<Rightarrow> 'v option \<Rightarrow> u8 list" where
  "option_bytes f x = (case x of Some v \<Rightarrow> 1 # f v | None \<Rightarrow> [0])"

definition cap_target_bytes :: "cap_target \<Rightarrow> u8 list" where
  "cap_target_bytes t = (case t of SelfCell \<Rightarrow> [0] | Specific i \<Rightarrow> 1 # bytes32_bytes i | AnyCell \<Rightarrow> [2])"

definition creation_params_bytes :: "factory_creation_params \<Rightarrow> u8 list" where
  "creation_params_bytes p =
     [case fp_mode p of Hosted \<Rightarrow> 0 | Sovereign \<Rightarrow> 1] @ option_bytes bytes32_bytes (fp_program_vk p) @
     u64_bytes (of_nat (length (fp_initial_fields p))) @
     concat (map (\<lambda>(idx, val). u32_bytes idx @ u64_bytes val) (fp_initial_fields p)) @
     u64_bytes (of_nat (length (fp_initial_caps p))) @
     concat (map (\<lambda>g. cap_target_bytes (cg_target g) @ hash_auth_required (cg_max_permissions g) @
       [if cg_attenuatable g then 1 else 0]) (fp_initial_caps p)) @
     bytes32_bytes (fp_owner_pubkey p)"

definition refusal_reason_bytes :: "refusal_reason \<Rightarrow> u8 list" where
  "refusal_reason_bytes r =
     (case r of Declined \<Rightarrow> [0] | NoAuthority \<Rightarrow> [1] | WindowExpired \<Rightarrow> [2] | CustomRefusal h \<Rightarrow> 3 # bytes32_bytes h)"

fun effect_preimage :: "('a turn_crypto_scheme) \<Rightarrow> effect \<Rightarrow> u8 list" where
  "effect_preimage E (ESetField i index value) = 0 # bytes32_bytes i @ u64_bytes index @ bytes32_bytes value"
| "effect_preimage E (ETransfer src dst amount) = 1 # bytes32_bytes src @ bytes32_bytes dst @ u64_bytes amount"
| "effect_preimage E (EGrantCapability src dst cap) =
     2 # bytes32_bytes src @ bytes32_bytes dst @ bytes32_bytes (cr_target cap) @ u32_bytes (cr_slot cap)"
| "effect_preimage E (ERevokeCapability i slot) = 3 # bytes32_bytes i @ u32_bytes slot"
| "effect_preimage E (EEmitEvent i topic data) =
     4 # bytes32_bytes i @ bytes32_bytes topic @ concat (map bytes32_bytes data)"
| "effect_preimage E (EIncrementNonce i) = 5 # bytes32_bytes i"
| "effect_preimage E (ECreateCell pk tok balance) = 6 # bytes32_bytes pk @ bytes32_bytes tok @ u64_bytes balance"
| "effect_preimage E (ESetPermissions i p) = 7 # bytes32_bytes i @
     concat (map hash_auth_required [p_send p, p_receive p, p_set_state p, p_set_permissions p,
       p_set_verification_key p, p_increment_nonce p, p_delegate p, p_access p])"
| "effect_preimage E (ESetVerificationKey i vk) = 8 # bytes32_bytes i @ option_bytes vk_data vk"
| "effect_preimage E (ESetProgram i program) = 54 # bytes32_bytes i @ program_postcard E program"
| "effect_preimage E (ENoteSpend nullifier root value asset_type spending_proof vc) =
     9 # bytes32_bytes nullifier @ bytes32_bytes root @ u64_bytes value @ u64_bytes asset_type @ spending_proof @
     option_bytes bytes32_bytes vc"
| "effect_preimage E (ENoteCreate commitment value asset_type note vc rp) =
     10 # bytes32_bytes commitment @ u64_bytes value @ u64_bytes asset_type @ framed note @
     option_bytes bytes32_bytes vc @ option_bytes framed rp"
| "effect_preimage E (EBridgeMint p) =
     21 # bytes32_bytes (pn_nullifier p) @ bytes32_bytes (pn_destination_commitment p) @ u64_bytes (pn_value p) @
     u64_bytes (pn_asset_type p) @ bytes32_bytes (ar_merkle_root (pn_source_root p)) @
     u64_bytes (ar_height (pn_source_root p))"
| "effect_preimage E (EIntroduce introducer recipient target perms) =
     17 # bytes32_bytes introducer @ bytes32_bytes recipient @ bytes32_bytes target @ hash_auth_required perms"
| "effect_preimage E (EPipelinedSend source_turn output_slot act) =
     16 # bytes32_bytes source_turn @ u32_bytes output_slot @ bytes32_bytes act"
| "effect_preimage E (ESpawnWithDelegation pk tok max_staleness) =
     18 # bytes32_bytes pk @ bytes32_bytes tok @ u64_bytes max_staleness"
| "effect_preimage E (ERefreshDelegation child snapshot) = 19 # bytes32_bytes child @ bytes32_bytes snapshot"
| "effect_preimage E (ERevokeDelegation child) = 20 # bytes32_bytes child"
| "effect_preimage E (EExerciseViaCapability cap_slot inner) =
     25 # u32_bytes cap_slot @ concat (map (\<lambda>e. bytes32_bytes (blake3 E (effect_preimage E e))) inner)"
| "effect_preimage E (EMakeSovereign i) = 35 # bytes32_bytes i"
| "effect_preimage E (ECreateCellFromFactory vk owner tok params) =
     36 # bytes32_bytes vk @ bytes32_bytes owner @ bytes32_bytes tok @ creation_params_bytes params"
| "effect_preimage E (ECellSeal i reason) = 48 # bytes32_bytes i @ bytes32_bytes reason"
| "effect_preimage E (ECellUnseal i) = 49 # bytes32_bytes i"
| "effect_preimage E (ECellDestroy i cert) = 50 # bytes32_bytes i @ bytes32_bytes (certificate_hash E cert)"
| "effect_preimage E (EBurn i slot amount) = 51 # bytes32_bytes i @ u32_bytes slot @ u64_bytes amount"
| "effect_preimage E (EMint i slot amount) = 63 # bytes32_bytes i @ u32_bytes slot @ u64_bytes amount"
| "effect_preimage E (EAttenuateCapability i slot perms effs expiry) =
     52 # bytes32_bytes i @ u32_bytes slot @ hash_auth_required perms @ option_bytes u32_bytes effs @
     option_bytes u64_bytes expiry"
| "effect_preimage E (EReceiptArchive height cp) = 53 # u64_bytes height @ bytes32_bytes (checkpoint_hash E cp)"
| "effect_preimage E (ERefusal i offered reason index) =
     47 # bytes32_bytes i @ bytes32_bytes offered @ refusal_reason_bytes reason @ u32_bytes index"
| "effect_preimage E (EShieldedTransfer payload) = 63 # shielded_hash_bytes E payload"
| "effect_preimage E (ECustom i vk commitment) = 64 # bytes32_bytes i @ bytes32_bytes vk @ bytes32_bytes commitment"

definition effect_hash :: "('a turn_crypto_scheme) \<Rightarrow> effect \<Rightarrow> bytes32" where
  "effect_hash E eff = blake3 E (effect_preimage E eff)"

fun delegation_mode_byte :: "delegation_mode \<Rightarrow> u8" where
  "delegation_mode_byte DmNone = 0"
| "delegation_mode_byte DmParentsOwn = 1"
| "delegation_mode_byte DmInherit = 2"
| "delegation_mode_byte DmSnapshotRefresh = 3"

fun commitment_mode_byte :: "commitment_mode \<Rightarrow> u8" where
  "commitment_mode_byte CmFull = 0"
| "commitment_mode_byte CmPartial = 1"

fun witness_kind_byte :: "witness_kind \<Rightarrow> u8" where
  "witness_kind_byte WtPreimage32 = 0"
| "witness_kind_byte WtMerklePath = 1"
| "witness_kind_byte WtRateLimitCount = 2"
| "witness_kind_byte WtProofBytes = 3"
| "witness_kind_byte WtCleartext = 4"

definition balance_change_bytes :: "int option \<Rightarrow> u8 list" where
  "balance_change_bytes change = (case change of Some delta \<Rightarrow> 1 # i64_bytes delta | None \<Rightarrow> [0])"

fun delegation_proof_bytes :: "delegation_proof_data \<Rightarrow> u8 list" where
  "delegation_proof_bytes (SignedDelegation pk sig bearer) =
     0 # bytes32_bytes pk @ sig64_bytes sig @ bytes32_bytes bearer"
| "delegation_proof_bytes (StarkDelegation prf commitment) =
     1 # framed prf @ bytes32_bytes commitment"

fun authorization_bytes :: "('a turn_crypto_scheme) \<Rightarrow> authorization \<Rightarrow> u8 list" where
  "authorization_bytes E (AuSignature r s) = 0 # bytes32_bytes r @ bytes32_bytes s"
| "authorization_bytes E (AuHybridSignature ed ml pk) = 10 # sig64_bytes ed @ framed ml @ framed pk"
| "authorization_bytes E (AuProof prf act res) = 1 # prf @ ascii act @ ascii res"
| "authorization_bytes E (AuBreadstuff token) = 2 # bytes32_bytes token"
| "authorization_bytes E (AuBearer p) =
     4 # bytes32_bytes (bp_target p) @ u64_bytes (bp_expires_at p) @
     delegation_proof_bytes (bp_delegation_proof p) @
     (case bp_revocation_channel p of Some rc \<Rightarrow> 1 # bytes32_bytes rc | None \<Rightarrow> [0])"
| "authorization_bytes E AuUnchecked = [3]"
| "authorization_bytes E (AuCapTpDelivered cert ipk spk sig) =
     5 # framed (handoff_signing_message cert) @ sig64_bytes (hc_introducer_signature cert) @
     bytes32_bytes ipk @ bytes32_bytes spk @ sig64_bytes sig"
| "authorization_bytes E (AuCustom p) = 6 # framed (predicate_postcard E p)"
| "authorization_bytes E (AuOneOf candidates proof_index) =
     7 # u32_bytes proof_index @ u64_bytes (of_nat (length candidates)) @
     framed (candidates_postcard E candidates)"
| "authorization_bytes E (AuStealth otp eph c _) = 8 # bytes32_bytes otp @ bytes32_bytes eph @ bytes32_bytes c"
| "authorization_bytes E (AuToken encoded kr discharges) =
     9 # framed encoded @ framed (key_ref_postcard E kr) @
     u64_bytes (of_nat (length discharges)) @ concat (map framed discharges)"

definition action_preimage :: "('a turn_crypto_scheme) \<Rightarrow> turn_action \<Rightarrow> u8 list" where
  "action_preimage E a =
     ascii ''dregg-action-v2:'' @ bytes32_bytes (ta_target a) @ bytes32_bytes (ta_method a) @
     concat (map bytes32_bytes (ta_args a)) @ authorization_bytes E (ta_authorization a) @
     [delegation_mode_byte (ta_may_delegate a)] @ [commitment_mode_byte (ta_commitment_mode a)] @
     balance_change_bytes (ta_balance_change a) @
     concat (map (\<lambda>e. bytes32_bytes (effect_hash E e)) (ta_effects a)) @
     preconditions_postcard E (ta_preconditions a) @
     u64_bytes (of_nat (length (ta_witness_blobs a))) @
     concat (map (\<lambda>w. witness_kind_byte (wb_kind w) # framed (wb_bytes w)) (ta_witness_blobs a))"

definition action_hash :: "('a turn_crypto_scheme) \<Rightarrow> turn_action \<Rightarrow> bytes32" where
  "action_hash E a = blake3 E (action_preimage E a)"

text \<open>The part of an action that the full and the custom signing message share.\<close>

definition action_body :: "('a turn_crypto_scheme) \<Rightarrow> turn_action \<Rightarrow> u8 list" where
  "action_body E a =
     bytes32_bytes (ta_target a) @ bytes32_bytes (ta_method a) @
     concat (map bytes32_bytes (ta_args a)) @
     concat (map (\<lambda>e. bytes32_bytes (effect_hash E e)) (ta_effects a)) @
     [delegation_mode_byte (ta_may_delegate a)] @ [commitment_mode_byte (ta_commitment_mode a)] @
     balance_change_bytes (ta_balance_change a)"

definition compute_signing_message :: "('a turn_crypto_scheme) \<Rightarrow> turn_action \<Rightarrow> bytes32 \<Rightarrow> u64 \<Rightarrow> bytes32" where
  "compute_signing_message E a federation_id turn_nonce =
     blake3 E (ascii ''dregg-action-sig-v3:'' @ bytes32_bytes federation_id @ u64_bytes turn_nonce @
       action_body E a @ preconditions_postcard E (ta_preconditions a))"

definition partial_preimage :: "bytes32 \<Rightarrow> nat \<Rightarrow> bytes32 \<Rightarrow> u64 \<Rightarrow> u8 list" where
  "partial_preimage a_hash position federation_id turn_nonce =
     ascii ''dregg-partial-sig-v2:'' @ bytes32_bytes federation_id @ bytes32_bytes a_hash @
     u64_bytes (of_nat position) @ u64_bytes turn_nonce"

definition compute_partial_signing_message ::
  "('a turn_crypto_scheme) \<Rightarrow> turn_action \<Rightarrow> nat \<Rightarrow> bytes32 \<Rightarrow> u64 \<Rightarrow> bytes32" where
  "compute_partial_signing_message E a position federation_id turn_nonce =
     blake3 E (partial_preimage (action_hash E a) position federation_id turn_nonce)"

definition compute_custom_signing_message ::
  "('a turn_crypto_scheme) \<Rightarrow> turn_action \<Rightarrow> witnessed_predicate \<Rightarrow> nat \<Rightarrow> bytes32 \<Rightarrow> u64 \<Rightarrow> u8 list" where
  "compute_custom_signing_message E a p position federation_id turn_nonce =
     (let preconds = preconditions_postcard E (ta_preconditions a); pred = predicate_postcard E p in
      ascii ''dregg-custom-sig-v1:'' @ bytes32_bytes federation_id @ u64_bytes turn_nonce @
      u64_bytes (of_nat position) @ action_body E a @
      u32_bytes (of_nat (length preconds)) @ preconds @
      u32_bytes (of_nat (length pred)) @ pred)"

definition captp_delivered_signing_message_for_federation ::
  "('a turn_crypto_scheme) \<Rightarrow> bytes32 \<Rightarrow> bytes32 \<Rightarrow> cell_id \<Rightarrow> cell_id \<Rightarrow> u64 \<Rightarrow> effect list \<Rightarrow> u8 list" where
  "captp_delivered_signing_message_for_federation E federation_id cert_nonce agent target turn_nonce effs =
     (let effects_bytes = effects_postcard E effs in
      ascii ''dregg-captp-delivered-v2'' @ bytes32_bytes federation_id @ bytes32_bytes cert_nonce @
      bytes32_bytes agent @ bytes32_bytes target @ u64_bytes turn_nonce @
      u32_bytes (of_nat (length effects_bytes)) @ effects_bytes)"

definition stealth_signing_message ::
  "('a turn_crypto_scheme) \<Rightarrow> bytes32 \<Rightarrow> bytes32 \<Rightarrow> bytes32 \<Rightarrow> bytes32 \<Rightarrow> nat \<Rightarrow> u64 \<Rightarrow> bytes32" where
  "stealth_signing_message E federation_id a_hash ephemeral blinding position turn_nonce =
     blake3 E (ascii ''dregg-stealth-sig-v1:'' @ bytes32_bytes federation_id @ bytes32_bytes a_hash @
       bytes32_bytes ephemeral @ bytes32_bytes blinding @ u64_bytes (of_nat position) @
       u64_bytes turn_nonce)"

definition compute_bearer_delegation_message ::
  "('a turn_crypto_scheme) \<Rightarrow> cell_id \<Rightarrow> auth_required \<Rightarrow> bytes32 \<Rightarrow> u64 \<Rightarrow> bytes32 \<Rightarrow> bytes32" where
  "compute_bearer_delegation_message E target perms bearer_pk expires_at federation_id =
     blake3 E (ascii ''dregg-bearer-delegation-v1:'' @ bytes32_bytes federation_id @
       bytes32_bytes target @ hash_auth_required perms @ bytes32_bytes bearer_pk @ u64_bytes expires_at)"

definition derive_cell_macaroon_secret :: "('a turn_crypto_scheme) \<Rightarrow> bytes32 \<Rightarrow> cell_id \<Rightarrow> bytes32" where
  "derive_cell_macaroon_secret E federation_id i =
     derive_key E ''dregg-cell-macaroon-secret-v1'' (bytes32_bytes federation_id @ bytes32_bytes i)"

section \<open>Call forests\<close>

datatype call_tree = CallTree (ct_action: turn_action) (ct_children: "call_tree list")

type_synonym call_forest = "call_tree list"

fun tree_depth :: "call_tree \<Rightarrow> nat" where
  "tree_depth (CallTree a ts) = (if ts = [] then 0 else 1 + Max (set (map tree_depth ts)))"

fun tree_action_count :: "call_tree \<Rightarrow> nat" where
  "tree_action_count (CallTree a ts) = 1 + sum_list (map tree_action_count ts)"

fun all_effects :: "call_tree \<Rightarrow> effect list" where
  "all_effects (CallTree a ts) = ta_effects a @ concat (map all_effects ts)"

fun compute_tree_hash :: "('a turn_crypto_scheme) \<Rightarrow> call_tree \<Rightarrow> bytes32" where
  "compute_tree_hash E (CallTree a ts) =
     (let children_hash = (if ts = [] then 0
        else blake3 E (concat (map (\<lambda>t. bytes32_bytes (compute_tree_hash E t)) ts)))
      in blake3 E (bytes32_bytes (action_hash E a) @ bytes32_bytes children_hash))"

definition forest_compute_hash :: "('a turn_crypto_scheme) \<Rightarrow> call_forest \<Rightarrow> bytes32" where
  "forest_compute_hash E roots =
     (if roots = [] then 0 else blake3 E (concat (map (\<lambda>t. bytes32_bytes (compute_tree_hash E t)) roots)))"

definition forest_action_count :: "call_forest \<Rightarrow> nat" where
  "forest_action_count roots = sum_list (map tree_action_count roots)"

definition total_effects :: "call_forest \<Rightarrow> effect list" where
  "total_effects roots = concat (map all_effects roots)"

definition forest_max_depth :: "call_forest \<Rightarrow> nat" where
  "forest_max_depth roots = (if roots = [] then 0 else Max (set (map tree_depth roots)))"

text \<open>The iterator pops a node and pushes its children in reverse, so the first child is on top.\<close>

function iter_dfs :: "call_tree list \<Rightarrow> turn_action list" where
  "iter_dfs [] = []"
| "iter_dfs (CallTree a ts # stack) = a # iter_dfs (ts @ stack)"
  by pat_completeness auto
termination
  by (relation "measure (\<lambda>stack. sum_list (map tree_action_count stack))") auto

section \<open>Costs\<close>

record computron_costs =
  cc_action_base :: u64
  cc_effect_base :: u64
  cc_transfer :: u64
  cc_create_cell :: u64
  cc_proof_verify :: u64
  cc_signature_verify :: u64
  cc_per_byte :: u64

definition default_costs :: computron_costs where
  "default_costs = \<lparr>cc_action_base = 100, cc_effect_base = 50, cc_transfer = 75, cc_create_cell = 500,
     cc_proof_verify = 1000, cc_signature_verify = 200, cc_per_byte = 1\<rparr>"

definition zero_costs :: computron_costs where
  "zero_costs = \<lparr>cc_action_base = 0, cc_effect_base = 0, cc_transfer = 0, cc_create_cell = 0,
     cc_proof_verify = 0, cc_signature_verify = 0, cc_per_byte = 0\<rparr>"

definition saturating_mul_word :: "'a::len word \<Rightarrow> 'a word \<Rightarrow> 'a word" where
  "saturating_mul_word a b = (if unat a * unat b < 2 ^ LENGTH('a) then a * b else - 1)"

definition is_permission_effect :: "effect \<Rightarrow> bool" where
  "is_permission_effect eff =
     (case eff of ESetPermissions _ _ \<Rightarrow> True | ESetVerificationKey _ _ \<Rightarrow> True | ESetProgram _ _ \<Rightarrow> True
      | _ \<Rightarrow> False)"

fun data_bytes :: "('a turn_crypto_scheme) \<Rightarrow> effect \<Rightarrow> nat" where
  "data_bytes E (ESetField _ _ _) = 32 + 8 + 32"
| "data_bytes E (ETransfer _ _ _) = 32 + 32 + 8"
| "data_bytes E (EGrantCapability _ _ _) = 32 + 32 + 36"
| "data_bytes E (ERevokeCapability _ _) = 32 + 4"
| "data_bytes E (EEmitEvent _ _ data) = 32 + 32 + length data * 32"
| "data_bytes E (EIncrementNonce _) = 32"
| "data_bytes E (ECreateCell _ _ _) = 32 + 32 + 8"
| "data_bytes E (ESetPermissions _ _) = 32 + 8"
| "data_bytes E (ESetVerificationKey _ vk) = 32 + (case vk of None \<Rightarrow> 1 | Some k \<Rightarrow> 1 + length (vk_data k))"
| "data_bytes E (ENoteSpend _ _ _ _ prf vc) =
     32 + 32 + 8 + 8 + length prf + (case vc of None \<Rightarrow> 0 | Some _ \<Rightarrow> 32)"
| "data_bytes E (ENoteCreate _ _ _ note vc rp) =
     32 + 8 + 8 + length note + (case vc of None \<Rightarrow> 0 | Some _ \<Rightarrow> 32) +
     (case rp of None \<Rightarrow> 0 | Some b \<Rightarrow> length b)"
| "data_bytes E (EBridgeMint p) = 32 + 32 + 8 + 8 + length (pn_spending_proof p)"
| "data_bytes E (EPipelinedSend _ _ _) = 32 + 4 + 32"
| "data_bytes E (EIntroduce _ _ _ _) = 97"
| "data_bytes E (ESpawnWithDelegation _ _ _) = 32 + 32 + 8"
| "data_bytes E (ERefreshDelegation _ _) = 32 + 32"
| "data_bytes E (ERevokeDelegation _) = 32"
| "data_bytes E (EExerciseViaCapability _ inner) = 4 + sum_list (map (data_bytes E) inner)"
| "data_bytes E (EMakeSovereign _) = 32"
| "data_bytes E (ECreateCellFromFactory _ _ _ p) =
     32 + 32 + 32 + 1 + 33 + length (fp_initial_fields p) * 12 + length (fp_initial_caps p) * 34 + 32"
| "data_bytes E (ERefusal _ _ reason _) = 32 + 32 + 1 + (case reason of CustomRefusal _ \<Rightarrow> 32 | _ \<Rightarrow> 0) + 4"
| "data_bytes E (ECellSeal _ _) = 32 + 32"
| "data_bytes E (ECellUnseal _) = 32"
| "data_bytes E (ECellDestroy _ _) = 32 + 32"
| "data_bytes E (EBurn _ _ _) = 32 + 4 + 8"
| "data_bytes E (EMint _ _ _) = 32 + 4 + 8"
| "data_bytes E (EAttenuateCapability _ _ _ _ _) = 32 + 4 + 1 + 4 + 8"
| "data_bytes E (EReceiptArchive _ _) = 8 + 32"
| "data_bytes E (ESetProgram _ program) = 32 + length (program_postcard E program)"
| "data_bytes E (EShieldedTransfer payload) = shielded_bytes E payload"
| "data_bytes E (ECustom _ _ _) = 32 + 32 + 32"

text \<open>The surcharge of an effect. The sums inside an exercise and the product of an event wrap.\<close>

fun compute_effect_cost :: "('a turn_crypto_scheme) \<Rightarrow> computron_costs \<Rightarrow> effect \<Rightarrow> u64" where
  "compute_effect_cost E K eff =
     (let extra = (case eff of
          ETransfer _ _ _ \<Rightarrow> cc_transfer K
        | ECreateCell _ _ _ \<Rightarrow> cc_create_cell K
        | ESetField _ _ _ \<Rightarrow> 0
        | ERevokeCapability _ _ \<Rightarrow> 0
        | EEmitEvent _ _ data \<Rightarrow> of_nat (length data) * cc_per_byte K * 32
        | EIncrementNonce _ \<Rightarrow> 0
        | ENoteSpend _ _ _ _ _ _ \<Rightarrow> cc_proof_verify K
        | EBridgeMint _ \<Rightarrow> cc_proof_verify K
        | ESpawnWithDelegation _ _ _ \<Rightarrow> cc_create_cell K
        | EExerciseViaCapability _ inner \<Rightarrow> sum_list (map (compute_effect_cost E K) inner)
        | ECreateCellFromFactory _ _ _ _ \<Rightarrow> cc_create_cell K
        | ERefusal _ _ _ _ \<Rightarrow> saturating_add_word (cc_effect_base K) (cc_proof_verify K)
        | EBurn _ _ _ \<Rightarrow> saturating_add_word (cc_effect_base K) (cc_transfer K)
        | EMint _ _ _ \<Rightarrow> saturating_add_word (cc_effect_base K) (cc_transfer K)
        | EShieldedTransfer _ \<Rightarrow> cc_proof_verify K
        | ECustom _ _ _ \<Rightarrow> cc_proof_verify K
        | _ \<Rightarrow> cc_effect_base K)
      in saturating_add_word (saturating_add_word (cc_effect_base K) extra)
           (saturating_mul_word (of_nat (data_bytes E eff)) (cc_per_byte K)))"

fun estimate_authorization_cost :: "computron_costs \<Rightarrow> authorization \<Rightarrow> u64" where
  "estimate_authorization_cost K (AuSignature _ _) = cc_signature_verify K"
| "estimate_authorization_cost K (AuProof _ _ _) = cc_proof_verify K"
| "estimate_authorization_cost K (AuBreadstuff _) = cc_signature_verify K div 2"
| "estimate_authorization_cost K (AuBearer _) = cc_signature_verify K"
| "estimate_authorization_cost K AuUnchecked = 0"
| "estimate_authorization_cost K (AuCapTpDelivered _ _ _ _) = saturating_mul_word (cc_signature_verify K) 2"
| "estimate_authorization_cost K (AuHybridSignature _ _ _) = saturating_mul_word (cc_signature_verify K) 2"
| "estimate_authorization_cost K (AuCustom _) = cc_proof_verify K"
| "estimate_authorization_cost K (AuOneOf candidates _) =
     foldr max (map (estimate_authorization_cost K) candidates) 0"
| "estimate_authorization_cost K (AuStealth _ _ _ _) = cc_signature_verify K"
| "estimate_authorization_cost K (AuToken _ _ _) = cc_proof_verify K"

fun estimate_tree_cost :: "('a turn_crypto_scheme) \<Rightarrow> computron_costs \<Rightarrow> call_tree \<Rightarrow> u64" where
  "estimate_tree_cost E K (CallTree a ts) =
     (let acc = saturating_add_word (cc_action_base K)
            (estimate_authorization_cost K (ta_authorization a));
          acc = foldl (\<lambda>t eff. saturating_add_word t (compute_effect_cost E K eff)) acc (ta_effects a)
      in foldl saturating_add_word acc (map (estimate_tree_cost E K) ts))"

definition estimate_cost :: "('a turn_crypto_scheme) \<Rightarrow> computron_costs \<Rightarrow> call_forest \<Rightarrow> u64" where
  "estimate_cost E K roots = foldl saturating_add_word 0 (map (estimate_tree_cost E K) roots)"

end
