(* ===== verification/Authorize.thy ===== *)
theory Authorize
  imports TurnAction
begin

text \<open>
  The verification of authorizations (\<open>turn/src/executor/authorize.rs\<close>). \<open>verify_authorization\<close> takes an action
  and its target cell and dispatches on the authorization; signatures, proofs and breadstuffs go through
  the permissions that the effects of the action need, the other kinds have a check of their own and
  return. The membership paths that the executor keeps for the receipt of a turn
  (\<open>record_consumed_cap_witness\<close>) come from the circuit's capability tree and are left out; they do not
  influence a verdict. The path of an error is attached by the caller.
\<close>

section \<open>Errors and configuration\<close>

datatype auth_error =
    AeTurn turn_error
  | AeModeNotRegistered string bytes32
  | AeStealthInvalid string
  | AeTokenInvalid string
  | AeTokenInsufficient cell_id bytes32
  | AeBreadstuffExpired cell_id cell_id u64 u64
  | AeBreadstuffFacet cell_id cell_id effect_mask effect_mask
  | AeBreadstuffRevoked cell_id cell_id bytes32
  | AeBearerExpired cell_id u64 u64
  | AeBearerRevoked cell_id bytes32
  | AeBearerInvalidProof cell_id string
  | AeBearerDelegatorLacks cell_id cell_id
  | AeBearerAmplification cell_id auth_required auth_required
  | AeBearerFacetAmplification cell_id effect_mask effect_mask
  | AeBearerFacetViolation cell_id effect_mask effect_mask

type_synonym auth_check = "auth_error + unit"

abbreviation ae_invalid :: "string \<Rightarrow> auth_error" where
  "ae_invalid reason \<equiv> AeTurn (TInvalidAuthorization reason)"

abbreviation ae_denied :: "cell_id \<Rightarrow> string \<Rightarrow> auth_required \<Rightarrow> auth_error" where
  "ae_denied i name required \<equiv> AeTurn (TPermissionDenied i name required)"

text \<open>What the executor is configured with, beyond what the effect handlers read.\<close>

record turn_env =
  tv_exec :: exec_env
  tv_costs :: computron_costs
  tv_require_pq :: bool
  tv_witnessed_registry :: "predicate_registry option"

abbreviation tv_height :: "('v turn_env_scheme) \<Rightarrow> u64" where
  "tv_height V \<equiv> x_block_height (tv_exec V)"

abbreviation tv_federation :: "('v turn_env_scheme) \<Rightarrow> bytes32" where
  "tv_federation V \<equiv> x_local_federation_id (tv_exec V)"

definition MAX_AUTHORIZATION_PROOF_BYTES :: nat where "MAX_AUTHORIZATION_PROOF_BYTES = 256 * 1024"

definition effects_mask :: "turn_action \<Rightarrow> effect_mask" where
  "effects_mask a = foldl (\<lambda>acc e. acc OR effect_kind_mask e) 0 (ta_effects a)"

text \<open>The effects of an action lie within a mask.\<close>

definition within_mask :: "effect_mask \<Rightarrow> effect_mask \<Rightarrow> bool" where
  "within_mask effs m \<longleftrightarrow> effs = 0 \<or> effs AND m = effs"

definition path_position :: "nat list \<Rightarrow> nat" where
  "path_position path = (case path of [] \<Rightarrow> 0 | i # _ \<Rightarrow> i)"

section \<open>Signatures\<close>

definition signed_message :: "('a turn_crypto_scheme) \<Rightarrow> ('v turn_env_scheme) \<Rightarrow> turn_action \<Rightarrow> nat list \<Rightarrow> u64 \<Rightarrow> bytes32" where
  "signed_message E V a path turn_nonce =
     (case ta_commitment_mode a of
        CmPartial \<Rightarrow> compute_partial_signing_message E a (path_position path) (tv_federation V) turn_nonce
      | CmFull \<Rightarrow> compute_signing_message E a (tv_federation V) turn_nonce)"

definition verify_ed25519_signature ::
  "('a turn_crypto_scheme) \<Rightarrow> ('v turn_env_scheme) \<Rightarrow> turn_action \<Rightarrow> cell \<Rightarrow> sig64 \<Rightarrow> nat list \<Rightarrow> u64 \<Rightarrow> auth_check" where
  "verify_ed25519_signature E V a tcell sig path turn_nonce =
     (let message = bytes32_bytes (signed_message E V a path turn_nonce) in
      if \<not> valid_key E (c_public_key tcell) then Inl (ae_invalid ''invalid public key'')
      else ensure (verify_strict E (c_public_key tcell) message sig)
             (ae_invalid ''Ed25519 signature verification failed''))"

definition verify_hybrid_signature ::
  "('a turn_crypto_scheme) \<Rightarrow> ('v turn_env_scheme) \<Rightarrow> turn_action \<Rightarrow> cell \<Rightarrow> sig64 \<Rightarrow> u8 list \<Rightarrow> u8 list \<Rightarrow>
     nat list \<Rightarrow> u64 \<Rightarrow> auth_check" where
  "verify_hybrid_signature E V a tcell ed ml_dsa ml_dsa_pk path turn_nonce =
     (let message = bytes32_bytes (signed_message E V a path turn_nonce) in
      if \<not> valid_key E (c_public_key tcell) then Inl (ae_invalid ''invalid public key'')
      else if \<not> verify_strict E (c_public_key tcell) message ed
      then Inl (ae_invalid ''hybrid: classical half failed'')
      else if ml_dsa \<noteq> []
      then ensure (ml_dsa_verify E ml_dsa_pk message ml_dsa) (ae_invalid ''hybrid: post-quantum half failed'')
      else ensure (\<not> tv_require_pq V) (ae_invalid ''hybrid: post-quantum half absent''))"

definition verify_stealth_authorization ::
  "('a turn_crypto_scheme) \<Rightarrow> ('v turn_env_scheme) \<Rightarrow> turn_action \<Rightarrow> cell \<Rightarrow> nat list \<Rightarrow> u64 \<Rightarrow> auth_check" where
  "verify_stealth_authorization E V a tcell path turn_nonce =
     (case ta_authorization a of
        AuStealth one_time ephemeral blinding sig \<Rightarrow>
          (case stealth_point E (c_public_key tcell) blinding of
             None \<Rightarrow> Inl (AeStealthInvalid ''invalid spend key'')
           | Some expected \<Rightarrow>
               if expected \<noteq> one_time then Inl (AeStealthInvalid ''stealth relation failed'')
               else if \<not> valid_key E one_time then Inl (AeStealthInvalid ''invalid one-time key'')
               else ensure (verify_strict E one_time (bytes32_bytes
                      (stealth_signing_message E (tv_federation V) (action_hash E a) ephemeral blinding
                        (path_position path) turn_nonce)) sig)
                    (AeStealthInvalid ''signature''))
      | _ \<Rightarrow> Inl (AeStealthInvalid ''not a stealth authorization''))"

section \<open>Proofs, breadstuffs, bearer capabilities\<close>

definition verify_zk_proof ::
  "('v turn_env_scheme) \<Rightarrow> cell \<Rightarrow> u8 list \<Rightarrow> string \<Rightarrow> string \<Rightarrow> auth_check" where
  "verify_zk_proof V tcell proof_bytes bound_action bound_resource =
     (if proof_bytes = [] then Inl (ae_invalid ''proof bytes are empty'')
      else if MAX_AUTHORIZATION_PROOF_BYTES < length proof_bytes then Inl (ae_invalid ''proof too large'')
      else case c_verification_key tcell of
        None \<Rightarrow> Inl (ae_invalid ''no verification key'')
      | Some vk \<Rightarrow>
          (case x_proof_verifier (tv_exec V) of
             None \<Rightarrow> Inl (ae_invalid ''no proof verifier configured (fail-closed)'')
           | Some verifier \<Rightarrow> ensure (verifier proof_bytes bound_action bound_resource (vk_data vk))
               (ae_invalid ''ZK proof verification failed'')))"

text \<open>
  An error of the channel check is passed over when the token names no channel: a breadstuff need not
  have one.
\<close>

definition check_breadstuff ::
  "('a turn_crypto_scheme) \<Rightarrow> ('v turn_env_scheme) \<Rightarrow> append_set \<Rightarrow> ledger \<Rightarrow> cell_id \<Rightarrow> bytes32 \<Rightarrow> string \<Rightarrow>
     auth_required \<Rightarrow> cell_id \<Rightarrow> effect_mask \<Rightarrow> auth_check" where
  "check_breadstuff E V revoked L actor token action_name required target effs =
     (case l_cells L actor of
        None \<Rightarrow> Inl (AeTurn (TCellNotFound actor))
      | Some actor_cell \<Rightarrow>
     (case find (\<lambda>cap. cr_breadstuff cap = Some token \<and> cr_target cap = target)
             (cs_refs (c_capabilities actor_cell)) of
        None \<Rightarrow> Inl (ae_denied target action_name required)
      | Some cap \<Rightarrow>
          if (case cr_expires_at cap of Some e \<Rightarrow> e < tv_height V | None \<Rightarrow> False)
          then Inl (AeBreadstuffExpired actor target (the (cr_expires_at cap)) (tv_height V))
          else if (case cr_allowed_effects cap of Some m \<Rightarrow> m \<noteq> 0 \<and> \<not> within_mask effs m | None \<Rightarrow> False)
          then Inl (AeBreadstuffFacet actor target effs (the (cr_allowed_effects cap)))
          else if (case x_revocation_channels (tv_exec V) of
                None \<Rightarrow> False
              | Some channels \<Rightarrow>
                  isl (check_exercise_permitted channels token (tv_height V) (tv_height V)
                    (x_max_introduction_lifetime (tv_exec V))) \<and> channels token \<noteq> None)
          then Inl (AeBreadstuffRevoked actor target token)
          else ensure (\<not> append_contains revoked (cred_nul (blake3 E) (cr_provenance cap)) \<and>
                       \<not> append_contains revoked (chan_nul (blake3 E) token))
                 (AeBreadstuffRevoked actor target token)))"

definition bearer_channel_ok ::
  "('a turn_crypto_scheme) \<Rightarrow> ('v turn_env_scheme) \<Rightarrow> append_set \<Rightarrow> bearer_cap_proof \<Rightarrow> auth_check" where
  "bearer_channel_ok E V revoked p =
     (case bp_revocation_channel p of
        None \<Rightarrow> Inr ()
      | Some ch \<Rightarrow>
          (case x_revocation_channels (tv_exec V) of
             None \<Rightarrow> Inl (AeBearerRevoked (bp_target p) ch)
           | Some channels \<Rightarrow>
               if isl (check_exercise_permitted channels ch (tv_height V) (tv_height V)
                    (x_max_introduction_lifetime (tv_exec V)))
               then Inl (AeBearerRevoked (bp_target p) ch)
               else ensure (\<not> append_contains revoked (chan_nul (blake3 E) ch))
                      (AeBearerRevoked (bp_target p) ch)))"

definition verify_signed_delegation ::
  "('a turn_crypto_scheme) \<Rightarrow> ('v turn_env_scheme) \<Rightarrow> ledger \<Rightarrow> bearer_cap_proof \<Rightarrow> bytes32 \<Rightarrow> sig64 \<Rightarrow> bytes32 \<Rightarrow>
     auth_error + effect_mask option" where
  "verify_signed_delegation E V L p delegator_pk sig bearer_pk =
     (let message = bytes32_bytes (compute_bearer_delegation_message E (bp_target p) (bp_permissions p)
            bearer_pk (bp_expires_at p) (tv_federation V)) in
      if \<not> valid_key E delegator_pk then Inl (AeBearerInvalidProof (bp_target p) ''delegator key'')
      else if \<not> verify_strict E delegator_pk message sig
      then Inl (AeBearerInvalidProof (bp_target p) ''signature'')
      else case cell_by_pubkey L delegator_pk of
        None \<Rightarrow> Inl (AeBearerDelegatorLacks delegator_pk (bp_target p))
      | Some delegator \<Rightarrow>
          if \<not> has_access_including_delegation_at delegator (bp_target p) (tv_height V)
          then Inl (AeBearerDelegatorLacks (c_id delegator) (bp_target p))
          else case find (\<lambda>cap. cr_permissions cap \<noteq> Impossible)
                      (capabilities_for (c_capabilities delegator) (bp_target p)) of
            None \<Rightarrow> Inr None
          | Some cap \<Rightarrow>
              if \<not> is_narrower_or_equal (bp_permissions p) (cr_permissions cap)
              then Inl (AeBearerAmplification (bp_target p) (cr_permissions cap) (bp_permissions p))
              else (case (cr_allowed_effects cap, bp_allowed_effects p) of
                  (Some dm, Some bm) \<Rightarrow>
                    if dm \<noteq> 0 \<and> \<not> is_facet_attenuation dm bm
                    then Inl (AeBearerFacetAmplification (bp_target p) dm bm)
                    else Inr (Some dm)
                | _ \<Rightarrow> Inr (cr_allowed_effects cap)))"

definition verify_bearer_cap ::
  "('a turn_crypto_scheme) \<Rightarrow> ('v turn_env_scheme) \<Rightarrow> append_set \<Rightarrow> ledger \<Rightarrow> bearer_cap_proof \<Rightarrow>
     auth_error + effect_mask option" where
  "verify_bearer_cap E V revoked L p =
     (if bp_expires_at p < tv_height V
      then Inl (AeBearerExpired (bp_target p) (bp_expires_at p) (tv_height V))
      else and_then (bearer_channel_ok E V revoked p) (\<lambda>_.
        case bp_delegation_proof p of
          SignedDelegation delegator_pk sig bearer_pk \<Rightarrow>
            verify_signed_delegation E V L p delegator_pk sig bearer_pk
        | StarkDelegation prf commitment \<Rightarrow>
            if \<not> verify_stark_delegation_binding E prf commitment (bp_target p) (bp_permissions p)
                 (bp_expires_at p) (tv_federation V)
            then Inl (AeBearerInvalidProof (bp_target p) ''binding'')
            else Inl (AeBearerInvalidProof (bp_target p) ''v1 bearer-cap STARK is retired'')))"

definition verify_bearer_authorization ::
  "('a turn_crypto_scheme) \<Rightarrow> ('v turn_env_scheme) \<Rightarrow> append_set \<Rightarrow> ledger \<Rightarrow> turn_action \<Rightarrow> bearer_cap_proof \<Rightarrow> auth_check" where
  "verify_bearer_authorization E V revoked L a p =
     and_then (verify_bearer_cap E V revoked L p) (\<lambda>inherited.
       case (case bp_allowed_effects p of Some m \<Rightarrow> Some m | None \<Rightarrow> inherited) of
         None \<Rightarrow> Inr ()
       | Some m \<Rightarrow> ensure (m = 0 \<or> within_mask (effects_mask a) m)
           (AeBearerFacetViolation (bp_target p) (effects_mask a) m))"

section \<open>Delivered messages, custom predicates, tokens\<close>

definition captp_floors :: "turn_action \<Rightarrow> required" where
  "captp_floors a =
     (let floors = determine_required_permissions (ta_target a) (ta_balance_change a) (ta_effects a)
      in if floors = [] then [(Access, ''Access'')] else floors)"

definition verify_captp_delivered ::
  "('a turn_crypto_scheme) \<Rightarrow> ('v turn_env_scheme) \<Rightarrow> turn_action \<Rightarrow> cell \<Rightarrow> handoff_certificate \<Rightarrow> bytes32 \<Rightarrow> bytes32 \<Rightarrow>
     sig64 \<Rightarrow> u64 \<Rightarrow> auth_check" where
  "verify_captp_delivered E V a tcell cert introducer_pk sender_pk sig turn_nonce = all_ok
     [ensure (sender_pk = hc_recipient_pk cert) (ae_invalid ''captp-delivered: sender''),
      ensure (hc_target_federation cert = tv_federation V) (ae_invalid ''captp-delivered: federation''),
      ensure (hc_target_cell cert = ta_target a) (ae_invalid ''captp-delivered: target''),
      ensure (handoff_verify_signature E cert introducer_pk) (ae_invalid ''captp-delivered: certificate''),
      ensure (valid_key E sender_pk) (ae_invalid ''captp-delivered: sender key''),
      ensure (verify_strict E sender_pk (captp_delivered_signing_message_for_federation E (tv_federation V)
          (hc_nonce cert) (ta_target a) (ta_target a) turn_nonce (ta_effects a)) sig)
        (ae_invalid ''captp-delivered: sender signature''),
      ensure (case hc_allowed_effects cert of Some m \<Rightarrow> within_mask (effects_mask a) m | None \<Rightarrow> True)
        (ae_invalid ''captp-delivered: effects''),
      ensure (list_all (\<lambda>(p, name). is_narrower_or_equal (hc_permissions cert)
          (for_action (c_permissions tcell) p)) (captp_floors a))
        (ae_invalid ''captp-delivered: handoff amplifies authority''),
      ensure (handoff_is_valid cert (tv_height V)) (ae_invalid ''captp-delivered: expired'')]"

definition required_custom_vk :: "permissions \<Rightarrow> bytes32 option" where
  "required_custom_vk p =
     (case List.map_filter (\<lambda>req. case req of Custom vk \<Rightarrow> Some vk | _ \<Rightarrow> None)
        [p_send p, p_receive p, p_set_state p, p_set_permissions p, p_set_verification_key p,
         p_increment_nonce p, p_delegate p, p_access p] of
        [] \<Rightarrow> None | vk # _ \<Rightarrow> Some vk)"

fun predicate_kind_vk_hash :: "witnessed_predicate_kind \<Rightarrow> bytes32" where
  "predicate_kind_vk_hash (WkCustom vk) = vk"
| "predicate_kind_vk_hash _ = 0"

definition mode_not_registered :: "witnessed_predicate_kind \<Rightarrow> auth_error" where
  "mode_not_registered k = AeModeNotRegistered (predicate_kind_name k) (predicate_kind_vk_hash k)"

definition verify_custom_authorization ::
  "('a turn_crypto_scheme) \<Rightarrow> ('v turn_env_scheme) \<Rightarrow> turn_action \<Rightarrow> cell \<Rightarrow> witnessed_predicate \<Rightarrow> nat list \<Rightarrow> u64 \<Rightarrow>
     auth_check" where
  "verify_custom_authorization E V a tcell p path turn_nonce =
     and_then (case required_custom_vk (c_permissions tcell) of
         None \<Rightarrow> Inr ()
       | Some vk \<Rightarrow> ensure (wp_kind p = WkCustom vk) (ae_denied (ta_target a) ''Custom'' (Custom vk))) (\<lambda>_.
     and_then (ok_or (tv_witnessed_registry V) (mode_not_registered (wp_kind p))) (\<lambda>registry.
     and_then (ensure (registry_get registry (wp_kind p) \<noteq> None) (mode_not_registered (wp_kind p))) (\<lambda>_.
     let signing_message = compute_custom_signing_message E a p (path_position path) (tv_federation V) turn_nonce in
     and_then (ok_or (if wp_proof_witness_index p < length (ta_witness_blobs a)
           then Some (ta_witness_blobs a ! wp_proof_witness_index p) else None)
         (ae_invalid ''Custom: proof_witness_index'')) (\<lambda>proof_blob.
     and_then (case wp_input_ref p of
           IrSigningMessage \<Rightarrow> Inr (PiAuthContext signing_message (st_fields (c_state tcell)))
         | _ \<Rightarrow> Inl (ae_invalid ''Custom: input_ref'')) (\<lambda>input.
       map_err (\<lambda>e. case e of
           WpKindNotRegistered k \<Rightarrow> mode_not_registered k
         | _ \<Rightarrow> ae_invalid ''Custom auth predicate rejected'')
         (registry_verify registry p input (wb_bytes proof_blob)))))))"

definition token_auth_request :: "('v turn_env_scheme) \<Rightarrow> turn_action \<Rightarrow> auth_request" where
  "token_auth_request V a = \<lparr>rq_action = ta_method a, rq_service = ta_target a,
     rq_app_id = tv_federation V, rq_now = sint (tv_height V)\<rparr>"

definition token_outcome :: "turn_action \<Rightarrow> token_verdict \<Rightarrow> auth_check" where
  "token_outcome a v =
     (case v of TvOk \<Rightarrow> Inr ()
      | TvDenied \<Rightarrow> Inl (AeTokenInsufficient (ta_target a) (ta_method a))
      | TvExpired \<Rightarrow> Inl (AeTokenInsufficient (ta_target a) (ta_method a))
      | TvInvalid \<Rightarrow> Inl (AeTokenInvalid ''token verification failed''))"

definition verify_token_authorization ::
  "('a turn_crypto_scheme) \<Rightarrow> ('v turn_env_scheme) \<Rightarrow> turn_action \<Rightarrow> cell \<Rightarrow> u8 list \<Rightarrow> token_key_ref \<Rightarrow> u8 list list \<Rightarrow>
     auth_check" where
  "verify_token_authorization E V a tcell encoded key_ref discharges =
     (case detect_token E encoded of
        None \<Rightarrow> Inl (AeTokenInvalid ''format'')
      | Some fmt \<Rightarrow>
          (case (fmt, key_ref) of
             (TfBiscuit, BiscuitIssuer issuer) \<Rightarrow>
               if c_public_key tcell \<noteq> issuer \<and>
                  \<not> (case c_verification_key tcell of
                       Some vk \<Rightarrow> vk_data vk = bytes32_bytes issuer | None \<Rightarrow> False)
               then Inl (AeTokenInvalid ''issuer not trusted'')
               else token_outcome a (verify_biscuit E issuer encoded (token_auth_request V a))
           | (TfMacaroon, CellScopedMacaroon i) \<Rightarrow>
               if i \<noteq> ta_target a then Inl (AeTokenInvalid ''key_ref does not name the target'')
               else token_outcome a (verify_macaroon E
                      (derive_cell_macaroon_secret E (tv_federation V) (ta_target a)) encoded discharges
                      (token_auth_request V a))
           | (TfBiscuit, CellScopedMacaroon _) \<Rightarrow> Inl (AeTokenInvalid ''biscuit with macaroon key'')
           | (TfMacaroon, BiscuitIssuer _) \<Rightarrow> Inl (AeTokenInvalid ''macaroon with biscuit key'')))"

section \<open>Requirements\<close>

definition check_single_auth_requirement ::
  "('a turn_crypto_scheme) \<Rightarrow> ('v turn_env_scheme) \<Rightarrow> append_set \<Rightarrow> turn_action \<Rightarrow> cell \<Rightarrow> ledger \<Rightarrow> cell_id \<Rightarrow>
     nat list \<Rightarrow> u64 \<Rightarrow> auth_required \<Rightarrow> string \<Rightarrow> auth_check" where
  "check_single_auth_requirement E V revoked a tcell L actor path turn_nonce required name =
     (let denied = Inl (ae_denied (ta_target a) name required);
          signature = (\<lambda>r s. if tv_require_pq V then Inl (ae_invalid ''classical-only signature rejected'')
            else verify_ed25519_signature E V a tcell (r, s) path turn_nonce);
          hybrid = (\<lambda>ed ml pk. verify_hybrid_signature E V a tcell ed ml pk path turn_nonce);
          breadstuff = (\<lambda>token. check_breadstuff E V revoked L actor token name required (ta_target a)
            (effects_mask a))
      in case required of
        AuthNone \<Rightarrow> Inr ()
      | Impossible \<Rightarrow> denied
      | Signature \<Rightarrow>
          (case ta_authorization a of
             AuSignature r s \<Rightarrow> signature r s
           | AuHybridSignature ed ml pk \<Rightarrow> hybrid ed ml pk
           | AuStealth _ _ _ _ \<Rightarrow> verify_stealth_authorization E V a tcell path turn_nonce
           | AuBreadstuff token \<Rightarrow> breadstuff token
           | _ \<Rightarrow> denied)
      | Proof \<Rightarrow>
          (case ta_authorization a of
             AuProof prf act res \<Rightarrow> verify_zk_proof V tcell prf act res
           | _ \<Rightarrow> denied)
      | Custom _ \<Rightarrow> denied
      | Either \<Rightarrow>
          (case ta_authorization a of
             AuSignature r s \<Rightarrow> signature r s
           | AuHybridSignature ed ml pk \<Rightarrow> hybrid ed ml pk
           | AuProof prf act res \<Rightarrow> verify_zk_proof V tcell prf act res
           | AuBreadstuff token \<Rightarrow> breadstuff token
           | AuBearer p \<Rightarrow> map_sum id (\<lambda>_. ()) (verify_bearer_cap E V revoked L p)
           | AuStealth _ _ _ _ \<Rightarrow> verify_stealth_authorization E V a tcell path turn_nonce
           | _ \<Rightarrow> denied))"

definition check_receive :: "ledger \<Rightarrow> effect \<Rightarrow> auth_check" where
  "check_receive L eff =
     (case eff of
        ETransfer _ dst _ \<Rightarrow>
          (case l_cells L dst of
             None \<Rightarrow> Inr ()
           | Some c \<Rightarrow>
               let req = for_action (c_permissions c) Receive
               in ensure (req = AuthNone) (ae_denied dst ''Receive'' req))
      | _ \<Rightarrow> Inr ())"

definition check_permission_slots ::
  "('a turn_crypto_scheme) \<Rightarrow> ('v turn_env_scheme) \<Rightarrow> append_set \<Rightarrow> turn_action \<Rightarrow> cell \<Rightarrow> ledger \<Rightarrow> cell_id \<Rightarrow>
     nat list \<Rightarrow> u64 \<Rightarrow> auth_check" where
  "check_permission_slots E V revoked a tcell L actor path turn_nonce =
     (let required = determine_required_permissions (ta_target a) (ta_balance_change a) (ta_effects a);
          slots = (if required = [] then [(Access, ''Access'')] else required)
      in and_then (check_all (\<lambda>(p, name). check_single_auth_requirement E V revoked a tcell L actor
            path turn_nonce (for_action (c_permissions tcell) p) name) slots) (\<lambda>_.
         check_all (check_receive L) (ta_effects a)))"

text \<open>
  The dispatch for everything but \<open>OneOf\<close>. A nested \<open>OneOf\<close> is refused, so the recursion of the source is
  at most one level deep.
\<close>

definition verify_plain_authorization ::
  "('a turn_crypto_scheme) \<Rightarrow> ('v turn_env_scheme) \<Rightarrow> append_set \<Rightarrow> turn_action \<Rightarrow> cell \<Rightarrow> ledger \<Rightarrow> cell_id \<Rightarrow>
     nat list \<Rightarrow> u64 \<Rightarrow> auth_check" where
  "verify_plain_authorization E V revoked a tcell L actor path turn_nonce =
     (case ta_authorization a of
        AuCustom p \<Rightarrow> verify_custom_authorization E V a tcell p path turn_nonce
      | AuCapTpDelivered cert ipk spk sig \<Rightarrow>
          verify_captp_delivered E V a tcell cert ipk spk sig turn_nonce
      | AuBearer p \<Rightarrow> verify_bearer_authorization E V revoked L a p
      | AuToken encoded kr discharges \<Rightarrow> verify_token_authorization E V a tcell encoded kr discharges
      | AuStealth _ _ _ _ \<Rightarrow>
          and_then (verify_stealth_authorization E V a tcell path turn_nonce) (\<lambda>_.
            check_permission_slots E V revoked a tcell L actor path turn_nonce)
      | _ \<Rightarrow> check_permission_slots E V revoked a tcell L actor path turn_nonce)"

definition verify_authorization ::
  "('a turn_crypto_scheme) \<Rightarrow> ('v turn_env_scheme) \<Rightarrow> append_set \<Rightarrow> turn_action \<Rightarrow> cell \<Rightarrow> ledger \<Rightarrow> cell_id \<Rightarrow>
     nat list \<Rightarrow> u64 \<Rightarrow> auth_check" where
  "verify_authorization E V revoked a tcell L actor path turn_nonce =
     (case ta_authorization a of
        AuOneOf candidates proof_index \<Rightarrow>
          let idx = unat proof_index in
          if length candidates \<le> idx then Inl (ae_invalid ''OneOf: proof_index out of bounds'')
          else (case candidates ! idx of
                  AuUnchecked \<Rightarrow> Inl (ae_invalid ''OneOf: indexed candidate is Unchecked'')
                | AuOneOf _ _ \<Rightarrow> Inl (ae_invalid ''OneOf: nested OneOf'')
                | chosen \<Rightarrow> verify_plain_authorization E V revoked (a\<lparr>ta_authorization := chosen\<rparr>)
                    tcell L actor path turn_nonce)
      | _ \<Rightarrow> verify_plain_authorization E V revoked a tcell L actor path turn_nonce)"

end
