(* ===== verification/ExecuteTree.thy ===== *)
theory ExecuteTree
  imports Authorize
begin

text \<open>
  The execution of one call tree (\<open>turn/src/executor/execute_tree.rs\<close>): the capability gate with its
  delegation modes, preconditions, authorization, metering, effects in two passes, the proved-state flag,
  the declared balance change, the program gate over the touched cells, the nonce of the target, and the
  children. A step that fails leaves the state as it was when it failed, as in the code; the caller rolls
  the journal back. The order in which the hash map of touched cells yields its keys is the function
  \<open>te_key_order\<close>. Profiling and the capture of yielded memory do not change a result and are left out.
  Reading a capability root may fill its cache; that is left out too, the cached value is the same.
\<close>

section \<open>Errors, state\<close>

datatype tree_error =
    TeAuth auth_error
  | TeBudgetExceeded u64 u64
  | TeSovereignWitnessRequired cell_id
  | TeRefusalConflicts cell_id string
  | TeInvalidWitnessIndex cell_id u32 nat
  | TeBalanceChangeUnderflow cell_id int int
  | TeProgramViolation cell_id string
  | TeDelegationModeUnimplemented delegation_mode cell_id cell_id

abbreviation te_turn :: "turn_error \<Rightarrow> tree_error" where
  "te_turn e \<equiv> TeAuth (AeTurn e)"

text \<open>The rate-limit counters are written when a turn commits and read here.\<close>

record tree_env = turn_env +
  te_codec :: pred_codec
  te_rate_limit_counters :: "cell_id \<times> bytes32 \<times> u64 \<rightharpoonup> u32"
  te_rate_limit_sum_counters :: "cell_id \<times> u8 \<times> u64 \<rightharpoonup> u64"
  te_key_order :: "cell_id list \<Rightarrow> cell_id list"

record tree_state =
  ts_exec :: exec_state
  ts_computrons_used :: u64
  ts_effects_hashes :: "bytes32 list"
  ts_excess :: int

abbreviation ts_ledger :: "('s tree_state_scheme) \<Rightarrow> ledger" where
  "ts_ledger s \<equiv> xs_ledger (ts_exec s)"

type_synonym tree_result = "(tree_error \<times> nat list + unit) \<times> tree_state"

text \<open>One statement after another, until an error.\<close>

definition then_do :: "('e + unit) \<times> 's \<Rightarrow> ('s \<Rightarrow> ('e + unit) \<times> 's) \<Rightarrow> ('e + unit) \<times> 's" where
  "then_do m k = (case m of (Inl e, s) \<Rightarrow> (Inl e, s) | (Inr _, s) \<Rightarrow> k s)"

definition at_path :: "nat list \<Rightarrow> tree_error + unit \<Rightarrow> tree_error \<times> nat list + unit" where
  "at_path path r = (case r of Inl e \<Rightarrow> Inl (e, path) | Inr _ \<Rightarrow> Inr ())"

definition guard_at :: "nat list \<Rightarrow> tree_error + unit \<Rightarrow> tree_state \<Rightarrow> tree_result" where
  "guard_at path r s = (at_path path r, s)"

definition on_exec :: "nat list \<Rightarrow> (tree_error + unit) \<times> exec_state \<Rightarrow> tree_state \<Rightarrow> tree_result" where
  "on_exec path m s = (at_path path (fst m), s\<lparr>ts_exec := snd m\<rparr>)"

definition charge :: "nat list \<Rightarrow> u64 \<Rightarrow> u64 \<Rightarrow> tree_state \<Rightarrow> tree_result" where
  "charge path budget cost s =
     (let used = saturating_add_word (ts_computrons_used s) cost;
          s = s\<lparr>ts_computrons_used := used\<rparr>
      in if budget < used then (Inl (TeBudgetExceeded budget used, path), s) else (Inr (), s))"

section \<open>Program gate\<close>

definition epoch_for_height :: "u64 \<Rightarrow> u64 \<Rightarrow> u64" where
  "epoch_for_height block_height epoch_duration = block_height div max 1 epoch_duration"

fun rate_limit_of :: "state_constraint \<Rightarrow> (u32 \<times> u64) option" where
  "rate_limit_of (ScAtom (ScContext (ScRateLimit m d))) = Some (m, d)"
| "rate_limit_of _ = None"

fun rate_limit_sum_of :: "state_constraint \<Rightarrow> (u8 \<times> u64) option" where
  "rate_limit_sum_of (ScAtom (ScTransition (ScRateLimitBySum slot _ d))) = Some (slot, d)"
| "rate_limit_sum_of _ = None"

definition find_map :: "('a \<Rightarrow> 'b option) \<Rightarrow> 'a list \<Rightarrow> 'b option" where
  "find_map f xs = (case List.map_filter f xs of [] \<Rightarrow> None | y # _ \<Rightarrow> Some y)"

definition state_constraint_context_count ::
  "('v tree_env_scheme) \<Rightarrow> cell_id \<Rightarrow> cell_program \<Rightarrow> bytes32 option \<Rightarrow> u32" where
  "state_constraint_context_count V i prog sender =
     (case prog of
        Predicate constraints \<Rightarrow>
          (case find_map rate_limit_of constraints of
             Some (rate_max, epoch_duration) \<Rightarrow>
               (case sender of
                  None \<Rightarrow> 0
                | Some pk \<Rightarrow>
                    min (case te_rate_limit_counters V (i, pk, epoch_for_height (tv_height V) epoch_duration) of
                           Some k \<Rightarrow> k | None \<Rightarrow> 0) rate_max)
           | None \<Rightarrow>
               (case find_map rate_limit_sum_of constraints of
                  Some (slot, epoch_duration) \<Rightarrow>
                    ucast (min (case te_rate_limit_sum_counters V
                              (i, slot, epoch_for_height (tv_height V) epoch_duration) of
                            Some k \<Rightarrow> k | None \<Rightarrow> 0) (ucast (- 1 :: u32)))
                | None \<Rightarrow> 0))
      | _ \<Rightarrow> 0)"

fun executor_checked :: "state_constraint \<Rightarrow> bool" where
  "executor_checked (ScAtom (ScWitness (ScBoundDelta _ _ _ _))) = True"
| "executor_checked (ScAtom (ScWitness (ScCapabilityUniqueness _))) = True"
| "executor_checked _ = False"

definition evaluate_cell_program_for_executor ::
  "('a turn_crypto_scheme) \<Rightarrow> pred_codec \<Rightarrow> eval_env \<Rightarrow> cell_program \<Rightarrow> check" where
  "evaluate_cell_program_for_executor E Q W prog =
     (case prog of
        Predicate constraints \<Rightarrow>
          check_all (\<lambda>c. if executor_checked c then Inr () else evaluate_full E Q W (Predicate [c])) constraints
      | _ \<Rightarrow> evaluate_full E Q W prog)"

fun observed_source :: "state_constraint \<Rightarrow> (bytes32 \<times> u8) option" where
  "observed_source (ScAtom (ScWitness (ScObservedFieldEquals _ source_cell source_field _ _))) =
     Some (source_cell, source_field)"
| "observed_source _ = None"

definition authorize_source ::
  "('a turn_crypto_scheme) \<Rightarrow> ledger \<Rightarrow> bytes32 \<times> u8 \<Rightarrow> static_finalized_roots \<Rightarrow> static_finalized_roots" where
  "authorize_source E L src authority =
     (case l_cells L (fst src) of
        None \<Rightarrow> authority
      | Some peer \<Rightarrow>
          if length (st_fields (c_state peer)) \<le> unat (snd src) then authority
          else finalized_authorize authority (fst src) (compute_canonical_state_commitment E peer) (snd src)
                 (st_fields (c_state peer) ! unat (snd src)))"

definition build_finalized_root_authority ::
  "('a turn_crypto_scheme) \<Rightarrow> ledger \<Rightarrow> cell_id list \<Rightarrow> static_finalized_roots" where
  "build_finalized_root_authority E L to_check =
     fold (\<lambda>i authority. case l_cells L i of
         None \<Rightarrow> authority
       | Some c \<Rightarrow> (case c_program c of
           Predicate constraints \<Rightarrow> fold (authorize_source E L) (List.map_filter observed_source constraints) authority
         | _ \<Rightarrow> authority)) to_check Map.empty"

fun check_bound_delta ::
  "cell_id \<Rightarrow> (cell_id \<rightharpoonup> cell_state) \<Rightarrow> ledger \<Rightarrow> state_constraint \<Rightarrow> tree_error + unit" where
  "check_bound_delta i old L (ScAtom (ScWitness (ScBoundDelta local_slot peer_cell peer_slot relation))) =
     and_then (ok_or (old i) (TeProgramViolation i ''BoundDelta requires local old state'')) (\<lambda>local_old.
     and_then (ok_or (l_cells L i) (te_turn (TCellNotFound i))) (\<lambda>local_new.
     and_then (ok_or (old peer_cell) (TeProgramViolation i ''BoundDelta peer was not touched'')) (\<lambda>peer_old.
     and_then (ok_or (l_cells L peer_cell) (te_turn (TCellNotFound peer_cell))) (\<lambda>peer_new.
     and_then (map_err (\<lambda>_. TeProgramViolation i ''BoundDelta slot'')
         (bound_delta_pair_matches local_old (c_state local_new) local_slot peer_old (c_state peer_new)
           peer_slot relation)) (\<lambda>ok.
       ensure ok (TeProgramViolation i ''BoundDelta mismatch''))))))"
| "check_bound_delta i old L _ = Inr ()"

definition validate_bound_delta_program ::
  "cell_id \<Rightarrow> cell_program \<Rightarrow> (cell_id \<rightharpoonup> cell_state) \<Rightarrow> ledger \<Rightarrow> tree_error + unit" where
  "validate_bound_delta_program i prog old L =
     (case prog of Predicate constraints \<Rightarrow> check_all (check_bound_delta i old L) constraints | _ \<Rightarrow> Inr ())"

definition felt_to_bytes32 :: "u32 \<Rightarrow> bytes32" where
  "felt_to_bytes32 felt = from_bytes32 (u32_bytes felt @ replicate 28 0)"

text \<open>The pairs of the double loop: no slot twice, and no two entries alike in target, permissions,
  breadstuff and mask.\<close>

definition same_authority :: "capability_ref \<Rightarrow> capability_ref \<Rightarrow> bool" where
  "same_authority a b \<longleftrightarrow> cr_target a = cr_target b \<and> cr_permissions a = cr_permissions b \<and>
     cr_breadstuff a = cr_breadstuff b \<and> cr_allowed_effects a = cr_allowed_effects b"

fun caps_unique :: "capability_ref list \<Rightarrow> bool" where
  "caps_unique [] = True"
| "caps_unique (a # caps) \<longleftrightarrow>
     list_all (\<lambda>b. cr_slot a \<noteq> cr_slot b \<and> \<not> same_authority a b) caps \<and> caps_unique caps"

fun check_capability_uniqueness ::
  "('a turn_crypto_scheme) \<Rightarrow> cell_id \<Rightarrow> ledger \<Rightarrow> state_constraint \<Rightarrow> tree_error + unit" where
  "check_capability_uniqueness E i L (ScAtom (ScWitness (ScCapabilityUniqueness cap_set_root_slot))) =
     (let slot = unat cap_set_root_slot in
      if STATE_SLOTS \<le> slot then Inl (TeProgramViolation i ''CapabilityUniqueness slot'')
      else and_then (ok_or (l_cells L i) (te_turn (TCellNotFound i))) (\<lambda>c.
        let declared_root = st_fields (c_state c) ! slot;
            actual_root = felt_to_bytes32 (fst (compute_canonical_capability_root_felt (cap_root8 E) (c_capabilities c)))
        in all_ok
          [ensure (declared_root \<noteq> 0) (TeProgramViolation i ''CapabilityUniqueness zero root''),
           ensure (declared_root = actual_root) (TeProgramViolation i ''CapabilityUniqueness root''),
           ensure (caps_unique (cs_refs (c_capabilities c))) (TeProgramViolation i ''CapabilityUniqueness duplicate'')]))"
| "check_capability_uniqueness E i L _ = Inr ()"

definition validate_capability_uniqueness ::
  "('a turn_crypto_scheme) \<Rightarrow> cell_id \<Rightarrow> cell_program \<Rightarrow> ledger \<Rightarrow> tree_error + unit" where
  "validate_capability_uniqueness E i prog L =
     (case prog of Predicate constraints \<Rightarrow> check_all (check_capability_uniqueness E i L) constraints
      | _ \<Rightarrow> Inr ())"

text \<open>The states of the touched hosted cells before the effects.\<close>

definition old_cell_states :: "ledger \<Rightarrow> cell_id list \<Rightarrow> cell_id \<rightharpoonup> cell_state" where
  "old_cell_states L touched =
     (\<lambda>i. if i \<in> set touched then map_option c_state (l_cells L i) else None)"

definition gate_context :: "('v tree_env_scheme) \<Rightarrow> cell_id \<Rightarrow> cell_program \<Rightarrow> bytes32 option \<Rightarrow> eval_context" where
  "gate_context V i prog sender =
     \<lparr>ec_block_height = tv_height V, ec_timestamp = x_current_timestamp (tv_exec V),
      ec_current_epoch = tv_height V div 1024, ec_sender = sender,
      ec_sender_epoch_count = state_constraint_context_count V i prog sender, ec_revealed_preimage = None\<rparr>"

definition check_touched_cell ::
  "('a turn_crypto_scheme) \<Rightarrow> ('v tree_env_scheme) \<Rightarrow> ledger \<Rightarrow> (cell_id \<rightharpoonup> cell_state) \<Rightarrow> bytes32 option \<Rightarrow>
     transition_meta \<Rightarrow> witness_bundle \<Rightarrow> cell_id \<Rightarrow> tree_error + unit" where
  "check_touched_cell E V L old sender meta W i =
     (case l_cells L i of
        None \<Rightarrow> Inr ()
      | Some c \<Rightarrow>
          if c_program c = ProgNone then Inr ()
          else if requires_proof (c_program c) then Inr ()
          else all_ok
            [map_err (\<lambda>_. TeProgramViolation i ''program'')
               (evaluate_cell_program_for_executor E (te_codec V)
                 \<lparr>ev_new = c_state c, ev_old = old i,
                  ev_ctx = Some (gate_context V i (c_program c) sender),
                  ev_meta = with_delegation_epoch meta (st_delegation_epoch (c_state c)),
                  ev_witnesses = W\<rparr> (c_program c)),
             validate_bound_delta_program i (c_program c) old L,
             validate_capability_uniqueness E i (c_program c) L])"

text \<open>\<open>to_check\<close> holds the touched cells that were hosted, in the order of the map, and the target.\<close>

definition program_gate ::
  "('a turn_crypto_scheme) \<Rightarrow> ('v tree_env_scheme) \<Rightarrow> turn_action \<Rightarrow> cell_id \<Rightarrow> ledger \<Rightarrow> ledger \<Rightarrow> tree_error + unit" where
  "program_gate E V a parent L_old L =
     (let touched = collect_touched_cells (ta_target a) (ta_effects a);
          old = old_cell_states L_old touched;
          keys = te_key_order V (filter (\<lambda>i. old i \<noteq> None) touched);
          to_check = (if ta_target a \<in> set keys then keys else keys @ [ta_target a]);
          meta = meta_new (ta_method a) (effects_mask a);
          W = \<lparr>wn_blobs = ta_witness_blobs a, wn_registry = tv_witnessed_registry V,
               wn_finalized_roots = Some (observe_finalized_field (build_finalized_root_authority E L to_check))\<rparr>
      in check_all (check_touched_cell E V L old (map_option c_public_key (l_cells L parent)) meta W) to_check)"

section \<open>Preconditions\<close>

definition action_sender :: "authorization \<Rightarrow> bytes32 option" where
  "action_sender auth =
     (case auth of
        AuSignature pk _ \<Rightarrow> Some pk
      | AuBearer p \<Rightarrow> (case bp_delegation_proof p of SignedDelegation pk _ _ \<Rightarrow> Some pk | _ \<Rightarrow> None)
      | AuCapTpDelivered _ _ sender_pk _ \<Rightarrow> Some sender_pk
      | AuHybridSignature ed _ _ \<Rightarrow> Some (fst ed)
      | _ \<Rightarrow> None)"

definition precondition_failed :: "string \<Rightarrow> tree_error" where
  "precondition_failed reason = te_turn (TPreconditionFailed reason)"

definition nth_opt :: "'a list \<Rightarrow> nat \<Rightarrow> 'a option" where
  "nth_opt xs i = (if i < length xs then Some (xs ! i) else None)"

definition dispatch_witnessed_clause ::
  "('v turn_env_scheme) \<Rightarrow> turn_action \<Rightarrow> cell_state \<Rightarrow> bytes32 option \<Rightarrow> witnessed_predicate \<Rightarrow> tree_error + unit" where
  "dispatch_witnessed_clause V a s sender wp =
     and_then (ok_or (tv_witnessed_registry V) (precondition_failed ''no registry'')) (\<lambda>registry.
     and_then (ok_or (nth_opt (ta_witness_blobs a) (wp_proof_witness_index wp))
         (precondition_failed ''missing proof'')) (\<lambda>proof_blob.
     and_then (case wp_input_ref wp of
           IrSlot index \<Rightarrow>
             if STATE_SLOTS \<le> unat index then Inl (precondition_failed ''slot index'')
             else Inr (PiSlot (st_fields s ! unat index))
         | IrWitness index \<Rightarrow>
             and_then (ok_or (nth_opt (ta_witness_blobs a) index) (precondition_failed ''missing input''))
               (\<lambda>b. Inr (PiBytes (wb_bytes b)))
         | IrPublicInput _ \<Rightarrow> Inl (precondition_failed ''PublicInput'')
         | IrSender \<Rightarrow> and_then (ok_or sender (precondition_failed ''no sender'')) (\<lambda>pk. Inr (PiSender pk))
         | IrSigningMessage \<Rightarrow> Inl (precondition_failed ''SigningMessage'')) (\<lambda>input.
       map_err (\<lambda>_. precondition_failed ''witnessed clause'')
         (registry_verify registry wp input (wb_bytes proof_blob)))))"

definition check_preconditions ::
  "('v turn_env_scheme) \<Rightarrow> turn_action \<Rightarrow> cell \<Rightarrow> tree_error + unit" where
  "check_preconditions V a c =
     (let sender = action_sender (ta_authorization a);
          ctx = (eval_context_minimal (tv_height V) (x_current_timestamp (tv_exec V)))\<lparr>ec_sender := sender\<rparr>;
          witnessed = pc_witnessed (ta_preconditions a)
      in and_then (map_err (\<lambda>_. precondition_failed ''precondition'')
           (preconditions_evaluate (ta_preconditions a) (c_state c) ctx)) (\<lambda>_.
         if witnessed = [] then Inr ()
         else if tv_witnessed_registry V = None then Inl (precondition_failed ''no registry'')
         else check_all (dispatch_witnessed_clause V a (c_state c) sender) witnessed))"

section \<open>Gates of an action\<close>

text \<open>The parent borrows the snapshot of an ancestor that holds access, unless it has a delegation.\<close>

definition borrow_snapshot ::
  "('a turn_crypto_scheme) \<Rightarrow> ('v turn_env_scheme) \<Rightarrow> cell_id \<Rightarrow> cell_id \<Rightarrow> exec_state \<Rightarrow> exec_state" where
  "borrow_snapshot E V parent ancestor_id S =
     (case cell_at S ancestor_id of
        None \<Rightarrow> S
      | Some ancestor \<Rightarrow>
          let snapshot = cs_refs (c_capabilities ancestor) in
          (case get_mut S parent of
             (None, S) \<Rightarrow> S
           | (Some child, S) \<Rightarrow>
               if c_delegation child \<noteq> None then S
               else put_cell (record_entry S (JSetDelegation parent None)) parent
                 (child\<lparr>c_delegation := Some (delegated_ref_new ancestor_id parent snapshot
                    (st_delegation_epoch (c_state ancestor)) (word_of_int (x_current_timestamp (tv_exec V)))
                    (x_max_introduction_lifetime (tv_exec V))
                    (compute_clist_commitment E (clist_postcard E snapshot)) 0)\<rparr>)))"

definition capability_gate ::
  "('a turn_crypto_scheme) \<Rightarrow> ('v turn_env_scheme) \<Rightarrow> turn_action \<Rightarrow> cell_id \<Rightarrow> delegation_mode \<Rightarrow> exec_state \<Rightarrow>
     (tree_error + unit) \<times> exec_state" where
  "capability_gate E V a parent mode S =
     (let target = ta_target a;
          not_held = (Inl (te_turn (TCapabilityNotHeld parent target)));
          is_bearer = (case ta_authorization a of AuBearer _ \<Rightarrow> True | _ \<Rightarrow> False)
      in if target = parent \<or> is_bearer then (Inr (), S)
         else case cell_at S parent of
           None \<Rightarrow> (Inl (te_turn (TCellNotFound parent)), S)
         | Some p \<Rightarrow>
             if has_access_including_delegation_at p target (tv_height V) then (Inr (), S)
             else if mode \<noteq> DmSnapshotRefresh then (not_held, S)
             else case walk_delegation_chain_for_capability (xs_ledger S) parent target (tv_height V) of
               None \<Rightarrow> (not_held, S)
             | Some ancestor_id \<Rightarrow>
                 let S = borrow_snapshot E V parent ancestor_id S in
                 (case cell_at S parent of
                    Some p \<Rightarrow> if has_access_including_delegation_at p target (tv_height V) then (Inr (), S)
                              else (not_held, S)
                  | None \<Rightarrow> (not_held, S)))"

fun refusal_conflict :: "cell_id \<Rightarrow> effect \<Rightarrow> (bool \<times> string)" where
  "refusal_conflict i (ESetField c _ _) = (c = i, ''SetField'')"
| "refusal_conflict i (ESetPermissions c _) = (c = i, ''SetPermissions'')"
| "refusal_conflict i (ESetVerificationKey c _) = (c = i, ''SetVerificationKey'')"
| "refusal_conflict i (ETransfer src dst _) = (src = i \<or> dst = i, ''Transfer'')"
| "refusal_conflict i (EGrantCapability src dst _) = (src = i \<or> dst = i, ''GrantCapability'')"
| "refusal_conflict i (ERevokeCapability c _) = (c = i, ''RevokeCapability'')"
| "refusal_conflict i (EIncrementNonce c) = (c = i, ''IncrementNonce'')"
| "refusal_conflict i (ERefusal c _ _ _) = (c = i, ''Refusal'')"
| "refusal_conflict i _ = (False, '''')"

definition check_refusals :: "effect list \<Rightarrow> tree_error + unit" where
  "check_refusals effs =
     check_all (\<lambda>(k, eff). case eff of
         ERefusal i _ _ _ \<Rightarrow>
           check_all (\<lambda>(j, other). if j = k then Inr ()
             else let (conflicts, name) = refusal_conflict i other
                  in ensure (\<not> conflicts) (TeRefusalConflicts i name)) (enumerate 0 effs)
       | _ \<Rightarrow> Inr ()) (enumerate 0 effs)"

definition check_witness_indices :: "turn_action \<Rightarrow> tree_error + unit" where
  "check_witness_indices a =
     check_all (\<lambda>eff. case eff of
         ERefusal i _ _ idx \<Rightarrow>
           ensure (unat idx < length (ta_witness_blobs a))
             (TeInvalidWitnessIndex i idx (length (ta_witness_blobs a)))
       | _ \<Rightarrow> Inr ()) (ta_effects a)"

section \<open>Effects and their aftermath\<close>

definition step_effect ::
  "('a turn_crypto_scheme) \<Rightarrow> ('v turn_env_scheme) \<Rightarrow> bytes32 \<Rightarrow> cell_id \<Rightarrow> cell_id \<Rightarrow> u64 \<Rightarrow> nat list \<Rightarrow> effect \<Rightarrow>
     tree_state \<Rightarrow> tree_result" where
  "step_effect E V turn target actor budget path eff s =
     then_do (charge path budget (compute_effect_cost E (tv_costs V) eff) s) (\<lambda>s.
     then_do (on_exec path (apfst (map_sum te_turn id)
         (apply_effect E (tv_exec V) turn target actor eff (ts_exec s))) s) (\<lambda>s.
       (Inr (), s\<lparr>ts_effects_hashes := ts_effects_hashes s @ [effect_hash E eff]\<rparr>)))"

fun run_effects ::
  "('a turn_crypto_scheme) \<Rightarrow> ('v turn_env_scheme) \<Rightarrow> bytes32 \<Rightarrow> cell_id \<Rightarrow> cell_id \<Rightarrow> u64 \<Rightarrow> nat list \<Rightarrow> effect list \<Rightarrow>
     tree_state \<Rightarrow> tree_result" where
  "run_effects E V turn target actor budget path [] s = (Inr (), s)"
| "run_effects E V turn target actor budget path (eff # effs) s =
     then_do (step_effect E V turn target actor budget path eff s)
       (run_effects E V turn target actor budget path effs)"

definition field_writes :: "effect list \<Rightarrow> (cell_id \<times> u64) list" where
  "field_writes effs = List.map_filter (\<lambda>eff. case eff of ESetField i index _ \<Rightarrow> Some (i, index) | _ \<Rightarrow> None) effs"

definition set_proved :: "bool \<Rightarrow> cell_id \<Rightarrow> exec_state \<Rightarrow> exec_state" where
  "set_proved b i S =
     (case get_mut S i of
        (None, S) \<Rightarrow> S
      | (Some c, S) \<Rightarrow>
          if st_proved_state (c_state c) = b then S
          else put_cell (record_entry S (JSetProvedState i (st_proved_state (c_state c)))) i
                 (map_state (\<lambda>s. s\<lparr>st_proved_state := b\<rparr>) c))"

definition update_proved ::
  "('v tree_env_scheme) \<Rightarrow> bool \<Rightarrow> (cell_id \<times> u64) list \<Rightarrow> exec_state \<Rightarrow> exec_state" where
  "update_proved V is_proof_auth writes S =
     (let cells = te_key_order V (remdups (map fst writes)) in
      if is_proof_auth
      then fold (set_proved True)
             (filter (\<lambda>i. card (snd ` {w \<in> set writes. fst w = i}) = STATE_SLOTS) cells) S
      else fold (set_proved False) cells S)"

definition apply_balance_delta ::
  "nat list \<Rightarrow> cell_id \<Rightarrow> int \<Rightarrow> tree_state \<Rightarrow> tree_result" where
  "apply_balance_delta path target delta s =
     (case cell_at (ts_exec s) target of
        None \<Rightarrow> (Inl (te_turn (TCellNotFound target), path), s)
      | Some c \<Rightarrow>
          (case checked_add_i64 (st_balance (c_state c)) delta of
             None \<Rightarrow> (Inl (te_turn (TBalanceOverflow target), path), s)
           | Some new_bal \<Rightarrow>
               if \<not> (0 \<le> delta \<or> 0 \<le> new_bal)
               then (Inl (TeBalanceChangeUnderflow target (st_balance (c_state c)) delta, path), s)
               else
                 let S = ts_exec s;
                     S = record_entry (with_cell target (map_state (\<lambda>st. st\<lparr>st_balance := new_bal\<rparr>)) S)
                           (JSetBalance target (st_balance (c_state c)));
                     s = s\<lparr>ts_exec := S\<rparr>
                 in (case checked_sub_i64 (ts_excess s) delta of
                       None \<Rightarrow> (Inl (te_turn (TBalanceOverflow target), path), s)
                     | Some e \<Rightarrow> (Inr (), s\<lparr>ts_excess := e\<rparr>))))"

text \<open>The nonce of a changed target that is not the agent, not sovereign, has no program and was not
  bumped by an effect.\<close>

definition bump_target_nonce ::
  "turn_action \<Rightarrow> cell_id \<Rightarrow> ledger \<Rightarrow> exec_state \<Rightarrow> exec_state" where
  "bump_target_nonce a agent L_old S =
     (let target = ta_target a; L = xs_ledger S;
          explicit_bump = list_ex (\<lambda>eff. case eff of EIncrementNonce i \<Rightarrow> i = target | _ \<Rightarrow> False) (ta_effects a);
          sovereign = is_sovereign L target \<or> l_sovereign_registrations L target \<noteq> None
      in if target = agent \<or> sovereign \<or> explicit_bump then S
         else case l_cells L target of
           None \<Rightarrow> S
         | Some c \<Rightarrow>
             if c_program c = ProgNone \<and> map_option c_state (l_cells L_old target) \<noteq> Some (c_state c)
             then record_entry (with_cell target (map_state (\<lambda>st. snd (increment_nonce st))) S)
                    (JSetNonce target (st_nonce (c_state c)))
             else S)"

section \<open>The tree\<close>

text \<open>Everything an action does before its children.\<close>

definition execute_action ::
  "('a turn_crypto_scheme) \<Rightarrow> ('v tree_env_scheme) \<Rightarrow> u64 \<Rightarrow> cell_id \<Rightarrow> bytes32 \<Rightarrow> u64 \<Rightarrow> turn_action \<Rightarrow> cell_id \<Rightarrow>
     delegation_mode \<Rightarrow> nat list \<Rightarrow> tree_state \<Rightarrow> tree_result" where
  "execute_action E V turn_nonce agent turn budget a parent mode path s =
     then_do (charge path budget (cc_action_base (tv_costs V)) s) (\<lambda>s.
     then_do (guard_at path (if l_cells (ts_ledger s) (ta_target a) \<noteq> None then Inr ()
         else if is_sovereign (ts_ledger s) (ta_target a) then Inl (TeSovereignWitnessRequired (ta_target a))
         else Inl (te_turn (TCellNotFound (ta_target a)))) s) (\<lambda>s.
     then_do (on_exec path (capability_gate E V a parent mode (ts_exec s)) s) (\<lambda>s.
     (case l_cells (ts_ledger s) (ta_target a) of
        None \<Rightarrow> (Inl (te_turn (TCellNotFound (ta_target a)), path), s)
      | Some tcell \<Rightarrow>
     then_do (guard_at path (check_preconditions V a tcell) s) (\<lambda>s.
     then_do (guard_at path (map_sum TeAuth id (verify_authorization E V (xs_revoked (ts_exec s)) a tcell
         (ts_ledger s) parent path turn_nonce)) s) (\<lambda>s.
     then_do (guard_at path (check_refusals (ta_effects a)) s) (\<lambda>s.
     then_do (charge path budget (estimate_authorization_cost (tv_costs V) (ta_authorization a)) s) (\<lambda>s.
     let L_old = ts_ledger s;
         is_proof_auth = (case ta_authorization a of AuProof _ _ _ \<Rightarrow> True | _ \<Rightarrow> False);
         regular = filter (\<lambda>e. \<not> is_permission_effect e) (ta_effects a);
         permission = filter is_permission_effect (ta_effects a)
     in
     then_do (guard_at path (check_witness_indices a) s) (\<lambda>s.
     then_do (run_effects E V turn (ta_target a) parent budget path regular s) (\<lambda>s.
     then_do (run_effects E V turn (ta_target a) parent budget path permission s) (\<lambda>s.
     then_do (Inr (), s\<lparr>ts_exec := update_proved V is_proof_auth (field_writes regular) (ts_exec s)\<rparr>) (\<lambda>s.
     then_do (case ta_balance_change a of
         None \<Rightarrow> (Inr (), s) | Some delta \<Rightarrow> apply_balance_delta path (ta_target a) delta s) (\<lambda>s.
     then_do (guard_at path (program_gate E V a parent L_old (ts_ledger s)) s) (\<lambda>s.
       (Inr (), s\<lparr>ts_exec := bump_target_nonce a agent L_old (ts_exec s)\<rparr>)))))))))))))))"

definition child_gate :: "turn_action \<Rightarrow> turn_action \<Rightarrow> tree_error + unit" where
  "child_gate a child =
     (if ta_target child = ta_target a then Inr ()
      else case ta_may_delegate a of
        DmSnapshotRefresh \<Rightarrow> Inr ()
      | DmNone \<Rightarrow> Inl (te_turn (TDelegationDenied (ta_target a) (ta_target child)))
      | m \<Rightarrow> Inl (TeDelegationModeUnimplemented m (ta_target a) (ta_target child)))"

definition child_delegation :: "turn_action \<Rightarrow> delegation_mode" where
  "child_delegation a = (if ta_may_delegate a = DmSnapshotRefresh then DmSnapshotRefresh else DmNone)"

fun execute_tree ::
  "('a turn_crypto_scheme) \<Rightarrow> ('v tree_env_scheme) \<Rightarrow> u64 \<Rightarrow> cell_id \<Rightarrow> bytes32 \<Rightarrow> u64 \<Rightarrow> call_tree \<Rightarrow> cell_id \<Rightarrow>
     delegation_mode \<Rightarrow> nat list \<Rightarrow> tree_state \<Rightarrow> tree_result"
and execute_children ::
  "('a turn_crypto_scheme) \<Rightarrow> ('v tree_env_scheme) \<Rightarrow> u64 \<Rightarrow> cell_id \<Rightarrow> bytes32 \<Rightarrow> u64 \<Rightarrow> turn_action \<Rightarrow> nat \<Rightarrow>
     call_tree list \<Rightarrow> nat list \<Rightarrow> tree_state \<Rightarrow> tree_result" where
  "execute_tree E V turn_nonce agent turn budget (CallTree a children) parent mode path s =
     then_do (execute_action E V turn_nonce agent turn budget a parent mode path s)
       (execute_children E V turn_nonce agent turn budget a 0 children path)"
| "execute_children E V turn_nonce agent turn budget a k [] path s = (Inr (), s)"
| "execute_children E V turn_nonce agent turn budget a k (child # children) path s =
     then_do (guard_at (path @ [k]) (child_gate a (ct_action child)) s) (\<lambda>s.
     then_do (execute_tree E V turn_nonce agent turn budget child (ta_target a) (child_delegation a)
         (path @ [k]) s)
       (execute_children E V turn_nonce agent turn budget a (Suc k) children path))"

end
