(* ===== verification/TurnMetering.thy ===== *)
theory TurnMetering
  imports ExecuteTree
begin

text \<open>
  Metering. The executor charges computrons as it goes, the effects in two passes and the children after
  their parent, and stops when the budget is exceeded; the estimate adds the same costs up over the tree
  without executing it. Saturating addition is a commutative monoid, so the two agree whatever the order.
\<close>

section \<open>Saturating sums\<close>

lemma unat_top: "unat (a :: 'a::len word) \<le> 2 ^ LENGTH('a) - 1"
proof -
  have "unat a < 2 ^ LENGTH('a)" by (rule unsigned_less)
  then show ?thesis by linarith
qed

interpretation sat: comm_monoid "saturating_add_word :: 'a::len word \<Rightarrow> 'a word \<Rightarrow> 'a word" 0
proof
  fix a b c :: "'a word"
  have m: "min m (min m (x + y) + z) = min m (x + min m (y + z))" for m x y z :: nat
    by (simp add: min_def)
  show "saturating_add_word (saturating_add_word a b) c = saturating_add_word a (saturating_add_word b c)"
    by (simp only: word_unat_eq_iff unat_saturating_add m)
  show "saturating_add_word a b = saturating_add_word b a"
    by (simp add: word_unat_eq_iff unat_saturating_add add.commute)
  show "saturating_add_word a 0 = a"
    using unat_top [of a] by (simp add: word_unat_eq_iff unat_saturating_add)
qed

lemma sat_mono: "a \<le> saturating_add_word a b"
  using unat_top [of a] by (simp add: word_le_nat_alt unat_saturating_add)

definition sat_sum :: "'a::len word list \<Rightarrow> 'a word" where
  "sat_sum xs = foldr saturating_add_word xs 0"

lemma sat_sum_simps [simp]:
  "sat_sum [] = 0" "sat_sum (x # xs) = saturating_add_word x (sat_sum xs)"
  by (simp_all add: sat_sum_def)

lemma foldl_sat: "foldl saturating_add_word a xs = saturating_add_word a (sat_sum xs)"
  by (induction xs arbitrary: a) (simp_all add: sat.assoc)

lemma sat_sum_partition:
  "saturating_add_word (sat_sum (map f (filter (\<lambda>x. \<not> P x) xs))) (sat_sum (map f (filter P xs))) =
     sat_sum (map f xs)"
  by (induction xs) (simp_all add: sat.assoc sat.left_commute)

lemma foldl_costs: "foldl (\<lambda>t x. saturating_add_word t (f x)) a xs = saturating_add_word a (sat_sum (map f xs))"
  by (induction xs arbitrary: a) (simp_all add: sat.assoc)

lemma estimate_tree_sum:
  "estimate_tree_cost E K (CallTree a ts) =
     saturating_add_word (saturating_add_word (cc_action_base K) (estimate_authorization_cost K (ta_authorization a)))
       (saturating_add_word (sat_sum (map (compute_effect_cost E K) (ta_effects a)))
         (sat_sum (map (estimate_tree_cost E K) ts)))"
  by (simp del: compute_effect_cost.simps add: Let_def foldl_costs foldl_sat sat.assoc)

section \<open>Metered runs\<close>

text \<open>A run from \<open>s\<close> costs \<open>c\<close>: it ends with exactly that charged, or it stops; it stops for the budget only
  if that cost is over it.\<close>

definition over_budget :: "tree_error \<times> nat list + unit \<Rightarrow> bool" where
  "over_budget r \<longleftrightarrow> (\<exists>b u path. r = Inl (TeBudgetExceeded b u, path))"

definition metered :: "u64 \<Rightarrow> u64 \<Rightarrow> tree_state \<Rightarrow> tree_result \<Rightarrow> bool" where
  "metered budget c s m \<longleftrightarrow>
     (fst m = Inr () \<longrightarrow> ts_computrons_used (snd m) = saturating_add_word (ts_computrons_used s) c \<and>
        (ts_computrons_used s \<le> budget \<longrightarrow> ts_computrons_used (snd m) \<le> budget)) \<and>
     (over_budget (fst m) \<longrightarrow> budget < saturating_add_word (ts_computrons_used s) c)"

lemma metered_then:
  assumes "metered budget c s m" "\<And>t. m = (Inr (), t) \<Longrightarrow> metered budget d t (k t)"
  shows "metered budget (saturating_add_word c d) s (then_do m k)"
proof (cases m)
  case (Pair r t)
  show ?thesis
  proof (cases r)
    case (Inl e)
    have "saturating_add_word (ts_computrons_used s) c \<le>
        saturating_add_word (ts_computrons_used s) (saturating_add_word c d)"
      using sat_mono [of "saturating_add_word (ts_computrons_used s) c" d] by (simp add: sat.assoc)
    then show ?thesis using assms(1) Pair Inl by (auto simp: then_do_def metered_def)
  next
    case (Inr u)
    then show ?thesis using assms Pair by (auto simp: then_do_def metered_def sat.assoc)
  qed
qed

lemma metered_free:
  assumes "ts_computrons_used (snd m) = ts_computrons_used s" "\<not> over_budget (fst m)"
  shows "metered budget 0 s m"
  using assms by (simp add: metered_def)

lemma metered_charge: "metered budget c s (charge path budget c s)"
  by (auto simp: metered_def charge_def Let_def over_budget_def)

text \<open>A step that costs nothing, before or after one that does.\<close>

lemma metered_free_then:
  assumes "metered budget 0 s m" "\<And>t. m = (Inr (), t) \<Longrightarrow> metered budget d t (k t)"
  shows "metered budget d s (then_do m k)"
  using metered_then [OF assms(1), of d k] assms(2) by simp

section \<open>Errors that are not about the budget\<close>

fun budget_error :: "tree_error \<Rightarrow> bool" where
  "budget_error (TeBudgetExceeded _ _) = True"
| "budget_error _ = False"

definition unpriced :: "tree_error + 'a \<Rightarrow> bool" where
  "unpriced r \<longleftrightarrow> (\<forall>e. r = Inl e \<longrightarrow> \<not> budget_error e)"

lemma unpriced_simps [simp]: "unpriced (Inr x)" "unpriced (Inl e) \<longleftrightarrow> \<not> budget_error e"
  by (simp_all add: unpriced_def)

lemma unpriced_map_sum: "(\<And>e. \<not> budget_error (f e)) \<Longrightarrow> unpriced (map_sum f g r)"
  by (cases r) simp_all

lemma unpriced_check_all: "(\<And>x. unpriced (f x)) \<Longrightarrow> unpriced (check_all f xs)"
  by (induction xs) (auto simp: unpriced_def split: sum.splits)

lemma unpriced_and_then: "unpriced r \<Longrightarrow> (\<And>x. unpriced (k x)) \<Longrightarrow> unpriced (and_then r k)"
  by (cases r) simp_all

lemma unpriced_ensure: "\<not> budget_error e \<Longrightarrow> unpriced (ensure b e)"
  by (cases b) simp_all

lemma unpriced_ok_or: "\<not> budget_error e \<Longrightarrow> unpriced (ok_or x e)"
  by (cases x) simp_all

lemma unpriced_map_err: "(\<And>e. \<not> budget_error (f e)) \<Longrightarrow> unpriced (map_err f r)"
  by (cases r) (simp_all add: map_err_def)

lemma unpriced_all_ok: "list_all unpriced rs \<Longrightarrow> unpriced (all_ok rs)"
  by (induction rs) (auto split: sum.splits)

lemmas unpriced_rules = unpriced_check_all unpriced_and_then unpriced_ensure unpriced_ok_or unpriced_map_err
  unpriced_map_sum unpriced_all_ok

lemma over_budget_at_path: "unpriced r \<Longrightarrow> \<not> over_budget (at_path path r)"
  by (cases r) (auto simp: over_budget_def at_path_def)

lemma metered_guard: "unpriced r \<Longrightarrow> metered budget 0 s (guard_at path r s)"
  by (rule metered_free) (simp_all add: guard_at_def over_budget_at_path)

lemma metered_exec: "unpriced (fst m) \<Longrightarrow> metered budget 0 s (on_exec path m s)"
  by (rule metered_free) (simp_all add: on_exec_def over_budget_at_path)

lemma metered_ok: "ts_computrons_used t = ts_computrons_used s \<Longrightarrow> metered budget 0 s (Inr (), t)"
  by (rule metered_free) (simp_all add: over_budget_def)

section \<open>The tree\<close>

lemma unpriced_preconditions: "unpriced (check_preconditions V a c)"
  by (auto simp: check_preconditions_def dispatch_witnessed_clause_def precondition_failed_def Let_def
      split: input_ref.split intro!: unpriced_rules)

lemma unpriced_gate: "unpriced (program_gate E V a parent L_old L)"
proof -
  have "unpriced (check_bound_delta i old L c)" for i old c
    by (cases "(i, old, L, c)" rule: check_bound_delta.cases) (auto intro!: unpriced_rules)
  moreover have "unpriced (check_capability_uniqueness E i L c)" for i c
    by (cases "(E, i, L, c)" rule: check_capability_uniqueness.cases)
       (auto simp: Let_def simp del: all_ok.simps intro!: unpriced_rules)
  ultimately show ?thesis
    by (auto simp: program_gate_def check_touched_cell_def validate_bound_delta_program_def
        validate_capability_uniqueness_def Let_def simp del: all_ok.simps
        split: option.split cell_program.split intro!: unpriced_rules)
qed

lemma unpriced_refusals: "unpriced (check_refusals effs)" "unpriced (check_witness_indices a)"
  by (auto simp: check_refusals_def check_witness_indices_def Let_def
      split: effect.split prod.split intro!: unpriced_rules)

lemma unpriced_capability_gate: "unpriced (fst (capability_gate E V a parent mode S))"
  by (auto simp: capability_gate_def Let_def split: option.split)

lemma unpriced_child: "unpriced (child_gate a b)"
  by (auto simp: child_gate_def split: delegation_mode.split)

lemma metered_declared: "metered budget 0 s (apply_balance_delta path i delta s)"
  by (rule metered_free)
     (auto simp: apply_balance_delta_def Let_def over_budget_def split: option.split)

lemma metered_step:
  "metered budget (compute_effect_cost E (tv_costs V) eff) s (step_effect E V turn target actor budget path eff s)"
proof -
  have "metered budget (saturating_add_word (compute_effect_cost E (tv_costs V) eff) 0) s
      (step_effect E V turn target actor budget path eff s)"
    unfolding step_effect_def
    by (intro metered_then metered_charge metered_free_then metered_exec metered_ok)
       (simp_all add: unpriced_map_sum)
  then show ?thesis by simp
qed

lemma metered_effects:
  "metered budget (sat_sum (map (compute_effect_cost E (tv_costs V)) effs)) s
     (run_effects E V turn target actor budget path effs s)"
proof (induction effs arbitrary: s)
  case Nil
  show ?case by (simp add: metered_ok)
next
  case (Cons eff effs)
  then show ?case by (auto simp del: compute_effect_cost.simps intro!: metered_then metered_step)
qed

text \<open>The costs of an action without its children, in the order they are charged.\<close>

lemma metered_option:
  "(x = None \<Longrightarrow> metered budget c s n) \<Longrightarrow> (\<And>v. x = Some v \<Longrightarrow> metered budget c s (f v)) \<Longrightarrow>
     metered budget c s (case x of None \<Rightarrow> n | Some v \<Rightarrow> f v)"
  by (cases x) auto

lemma metered_stop: "\<not> budget_error e \<Longrightarrow> metered budget c s (Inl (e, path), t)"
  by (auto simp: metered_def over_budget_def)

lemma metered_declared_option:
  "metered budget 0 s (case x of None \<Rightarrow> (Inr (), s) | Some delta \<Rightarrow> apply_balance_delta path i delta s)"
  by (rule metered_option) (simp_all add: metered_ok metered_declared)

lemmas metered_action_steps =
  metered_option metered_stop metered_then [OF metered_charge] metered_then [OF metered_effects]
  metered_free_then [OF metered_guard] metered_free_then [OF metered_exec] metered_free_then [OF metered_ok]
  metered_free_then [OF metered_declared_option]

lemmas unpriced_action =
  unpriced_preconditions unpriced_refusals unpriced_gate unpriced_capability_gate unpriced_map_sum

lemma metered_action:
  fixes V :: "'v tree_env_scheme" and a :: turn_action
  defines "K \<equiv> tv_costs V"
  shows "metered budget (saturating_add_word (cc_action_base K) (saturating_add_word
      (estimate_authorization_cost K (ta_authorization a)) (sat_sum (map (compute_effect_cost E K) (ta_effects a))))) s
    (execute_action E V n agent turn budget a parent mode path s)"
proof -
  let ?f = "map (compute_effect_cost E K)"
  have split: "sat_sum (?f (ta_effects a)) =
      saturating_add_word (sat_sum (?f (filter (\<lambda>e. \<not> is_permission_effect e) (ta_effects a))))
        (saturating_add_word (sat_sum (?f (filter is_permission_effect (ta_effects a)))) 0)"
    by (simp only: sat_sum_partition sat.right_neutral)
  show ?thesis
    unfolding split unfolding execute_action_def Let_def K_def
    by (rule metered_action_steps unpriced_action metered_ok | simp)+
qed

lemma metered_children:
  fixes V :: "'v tree_env_scheme"
  assumes "\<And>tree parent mode path s. tree \<in> set trees \<Longrightarrow>
      metered budget (estimate_tree_cost E (tv_costs V) tree) s
        (execute_tree E V n agent turn budget tree parent mode path s)"
  shows "metered budget (sat_sum (map (estimate_tree_cost E (tv_costs V)) trees)) s
    (execute_children E V n agent turn budget a k trees path s)"
  using assms
proof (induction trees arbitrary: k s)
  case Nil
  show ?case by (simp add: metered_ok)
next
  case (Cons tree trees)
  then show ?case
    by (auto simp del: estimate_tree_cost.simps
        intro!: metered_free_then [OF metered_guard [OF unpriced_child]] metered_then)
qed

lemma metered_tree:
  "metered budget (estimate_tree_cost E (tv_costs V) tree) s
     (execute_tree E V n agent turn budget tree parent mode path s)"
proof (induction tree arbitrary: parent mode path s)
  case (CallTree a trees)
  show ?case
    unfolding estimate_tree_sum execute_tree.simps
    using metered_then [OF metered_action metered_children [OF CallTree.IH]] by (simp only: sat.assoc)
qed

text \<open>C30. Metering is exact. When the execution of a call tree succeeds, the computrons it has charged are
  exactly those of the estimate that \<open>validate_without_apply\<close> makes of the tree without executing it
  (saturating at the top of the range, like the estimate), and they are within the budget; and a tree
  whose estimate is within the budget never stops because of the budget.\<close>

theorem metering_exact:
  assumes "execute_tree E V n agent turn budget tree parent mode path s = (r, t)"
    and "ts_computrons_used s \<le> budget"
  shows "(r = Inr () \<longrightarrow> ts_computrons_used t \<le> budget \<and>
      ts_computrons_used t = saturating_add_word (ts_computrons_used s) (estimate_tree_cost E (tv_costs V) tree)) \<and>
    (saturating_add_word (ts_computrons_used s) (estimate_tree_cost E (tv_costs V) tree) \<le> budget \<longrightarrow>
      (\<forall>b u p. r \<noteq> Inl (TeBudgetExceeded b u, p)))"
  using metered_tree [of budget E V tree s n agent turn parent mode path] assms
  by (auto simp: metered_def over_budget_def simp del: estimate_tree_cost.simps)

end
