(* ===== verification/AuthorizeLaws.thy ===== *)
theory AuthorizeLaws
  imports Authorize
begin

text \<open>
  What an accepted authorization means. For the direct kinds (signatures, proofs, breadstuffs and no
  authorization at all) it means evidence for every permission slot that the effects need. For the
  others the theorems state what the checks leave open: a bearer capability is not tied to the target
  of the action, a delivered message may carry a certificate that its sender signed himself, and the
  message of a full signature does not separate arguments from effects.
\<close>

section \<open>Evidence\<close>

definition direct :: "authorization \<Rightarrow> bool" where
  "direct auth =
     (case auth of AuCustom _ \<Rightarrow> False | AuCapTpDelivered _ _ _ _ \<Rightarrow> False | AuBearer _ \<Rightarrow> False
      | AuToken _ _ _ \<Rightarrow> False | AuOneOf _ _ \<Rightarrow> False | _ \<Rightarrow> True)"

text \<open>The signature that the action carries is one by the key of the target cell, or by the one-time key it
  names and that derives from the key of the cell, over the message of this very action; where a
  post-quantum half is there or required, it verifies too.\<close>

definition owner_signed ::
  "('a turn_crypto_scheme) \<Rightarrow> ('v turn_env_scheme) \<Rightarrow> turn_action \<Rightarrow> cell \<Rightarrow> nat list \<Rightarrow> u64 \<Rightarrow> bool" where
  "owner_signed E V a c path n \<longleftrightarrow>
     (let message = bytes32_bytes (signed_message E V a path n) in
      case ta_authorization a of
        AuSignature r s \<Rightarrow> \<not> tv_require_pq V \<and> verify_strict E (c_public_key c) message (r, s)
      | AuHybridSignature ed ml pk \<Rightarrow> verify_strict E (c_public_key c) message ed \<and>
          (if ml = [] then \<not> tv_require_pq V else ml_dsa_verify E pk message ml)
      | AuStealth one_time eph blinding sig \<Rightarrow> stealth_point E (c_public_key c) blinding = Some one_time \<and>
          verify_strict E one_time (bytes32_bytes (stealth_signing_message E (tv_federation V) (action_hash E a)
            eph blinding (path_position path) n)) sig
      | _ \<Rightarrow> False)"

text \<open>The proof that the action carries is not empty and the configured verifier accepts it under the key of
  the cell.\<close>

definition proof_accepted :: "('v turn_env_scheme) \<Rightarrow> turn_action \<Rightarrow> cell \<Rightarrow> bool" where
  "proof_accepted V a c \<longleftrightarrow>
     (case (ta_authorization a, x_proof_verifier (tv_exec V), c_verification_key c) of
        (AuProof prf act res, Some verifier, Some vk) \<Rightarrow> prf \<noteq> [] \<and> verifier prf act res (vk_data vk)
      | _ \<Rightarrow> False)"

text \<open>The capability that the token of the action selects: the first of the actor's with this token and the
  target of the action. It has not expired; neither the capability nor the channel of the token is among
  the committed revocations; a registered channel of this name is not tripped.\<close>

definition selected_breadstuff ::
  "('a turn_crypto_scheme) \<Rightarrow> ('v turn_env_scheme) \<Rightarrow> append_set \<Rightarrow> turn_action \<Rightarrow> ledger \<Rightarrow> cell_id \<Rightarrow> capability_ref \<Rightarrow> bool" where
  "selected_breadstuff E V revoked a L actor cap \<longleftrightarrow>
     (case (ta_authorization a, l_cells L actor) of
        (AuBreadstuff token, Some c) \<Rightarrow>
          find (\<lambda>cap. cr_breadstuff cap = Some token \<and> cr_target cap = ta_target a) (cs_refs (c_capabilities c)) = Some cap \<and>
          unexpired (cr_expires_at cap) (tv_height V) \<and>
          \<not> append_contains revoked (cred_nul (blake3 E) (cr_provenance cap)) \<and>
          \<not> append_contains revoked (chan_nul (blake3 E) token) \<and>
          (\<forall>channels ch. x_revocation_channels (tv_exec V) = Some channels \<and> channels token = Some ch \<longrightarrow> rc_state ch = Active)
      | _ \<Rightarrow> False)"

text \<open>Its facet covers every effect of the action.\<close>

definition holds_breadstuff ::
  "('a turn_crypto_scheme) \<Rightarrow> ('v turn_env_scheme) \<Rightarrow> append_set \<Rightarrow> turn_action \<Rightarrow> ledger \<Rightarrow> cell_id \<Rightarrow> bool" where
  "holds_breadstuff E V revoked a L actor \<longleftrightarrow>
     (\<exists>cap. selected_breadstuff E V revoked a L actor cap \<and>
        (case cr_allowed_effects cap of None \<Rightarrow> True | Some m \<Rightarrow> within_mask (effects_mask a) m))"

text \<open>Its facet is the empty mask, which permits nothing according to \<open>is_effect_permitted\<close> but which
  \<open>check_breadstuff\<close> passes over.\<close>

definition holds_empty_facet ::
  "('a turn_crypto_scheme) \<Rightarrow> ('v turn_env_scheme) \<Rightarrow> append_set \<Rightarrow> turn_action \<Rightarrow> ledger \<Rightarrow> cell_id \<Rightarrow> bool" where
  "holds_empty_facet E V revoked a L actor \<longleftrightarrow>
     (\<exists>cap. selected_breadstuff E V revoked a L actor cap \<and> cr_allowed_effects cap = Some 0)"

lemma ed25519_owner:
  "ta_authorization a = AuSignature r s \<Longrightarrow> \<not> tv_require_pq V \<Longrightarrow>
   verify_ed25519_signature E V a c (r, s) path n = Inr () \<Longrightarrow> owner_signed E V a c path n"
  by (simp add: owner_signed_def verify_ed25519_signature_def Let_def split: if_splits)

lemma hybrid_owner:
  "ta_authorization a = AuHybridSignature ed ml pk \<Longrightarrow>
   verify_hybrid_signature E V a c ed ml pk path n = Inr () \<Longrightarrow> owner_signed E V a c path n"
  by (simp add: owner_signed_def verify_hybrid_signature_def Let_def split: if_splits)

lemma stealth_owner:
  "verify_stealth_authorization E V a c path n = Inr () \<Longrightarrow> owner_signed E V a c path n"
  by (auto simp: owner_signed_def verify_stealth_authorization_def Let_def split: authorization.splits option.splits if_splits)

lemma zk_proof_accepted:
  "ta_authorization a = AuProof prf act res \<Longrightarrow> verify_zk_proof V c prf act res = Inr () \<Longrightarrow> proof_accepted V a c"
  by (auto simp: verify_zk_proof_def proof_accepted_def split: if_splits option.splits)

lemma breadstuff_held:
  assumes "ta_authorization a = AuBreadstuff token"
    and "check_breadstuff E V revoked L actor token name req (ta_target a) (effects_mask a) = Inr ()"
  shows "holds_breadstuff E V revoked a L actor \<or> holds_empty_facet E V revoked a L actor"
proof -
  obtain c cap where c: "l_cells L actor = Some c"
      and f: "find (\<lambda>cap. cr_breadstuff cap = Some token \<and> cr_target cap = ta_target a)
        (cs_refs (c_capabilities c)) = Some cap"
    using assms(2) by (auto simp: check_breadstuff_def split: option.splits)
  have "unexpired (cr_expires_at cap) (tv_height V)"
    "\<not> append_contains revoked (cred_nul (blake3 E) (cr_provenance cap))" "\<not> append_contains revoked (chan_nul (blake3 E) token)"
    and facet: "case cr_allowed_effects cap of None \<Rightarrow> True | Some m \<Rightarrow> m = 0 \<or> within_mask (effects_mask a) m"
    using assms(2) c f by (auto simp: check_breadstuff_def unexpired_def split: if_splits option.splits)
  moreover have "rc_state ch = Active" if "x_revocation_channels (tv_exec V) = Some channels" "channels token = Some ch" for channels ch
    using assms(2) c f that by (auto simp: check_breadstuff_def check_exercise_permitted_def split: if_splits channel_state.splits)
  ultimately have "selected_breadstuff E V revoked a L actor cap"
    using c f assms(1) by (auto simp: selected_breadstuff_def)
  then show ?thesis using facet by (auto simp: holds_breadstuff_def holds_empty_facet_def split: option.splits)
qed

lemmas evidence_rules = ed25519_owner hybrid_owner stealth_owner zk_proof_accepted breadstuff_held

lemma plain_direct:
  assumes "direct (ta_authorization a)" "verify_authorization E V revoked a c L actor path n = Inr ()"
  shows "check_permission_slots E V revoked a c L actor path n = Inr ()"
  using assms
  by (auto simp: direct_def verify_authorization_def verify_plain_authorization_def and_then_ok
      split: authorization.splits)

lemma requirement_evidence:
  assumes "direct (ta_authorization a)"
    "check_single_auth_requirement E V revoked a c L actor path n req name = Inr ()"
  shows "case req of
      AuthNone \<Rightarrow> True
    | Signature \<Rightarrow> owner_signed E V a c path n \<or> holds_breadstuff E V revoked a L actor \<or> holds_empty_facet E V revoked a L actor
    | Proof \<Rightarrow> proof_accepted V a c
    | Either \<Rightarrow> owner_signed E V a c path n \<or> proof_accepted V a c \<or> holds_breadstuff E V revoked a L actor \<or>
        holds_empty_facet E V revoked a L actor
    | Impossible \<Rightarrow> False
    | Custom _ \<Rightarrow> False"
  using assms unfolding check_single_auth_requirement_def direct_def
  by (cases "ta_authorization a"; cases req)
     (auto simp: Let_def split: if_splits dest: evidence_rules)

section \<open>Direct authorizations are sound\<close>

text \<open>C31. An action with a direct authorization (a signature, a hybrid or stealth signature, a proof, a
  breadstuff, or none) is accepted only with evidence for every permission slot its effects need, and
  for the Access slot when they need none, and the evidence is what the action itself carries. A slot that
  asks for a signature is matched by the signature of the action, by the cell's own key or the one-time
  key that derives from it, over this very action; or by the capability that the token of the action
  selects in the actor's list: unexpired, revoked neither itself nor through its channel, and with a facet
  that covers all the effects or is the empty mask, which the check passes over although it is meant to
  permit nothing. A slot that asks for a proof is matched by the proof of the action, accepted by the
  configured verifier under the cell's key; a slot that is Impossible or Custom by nothing. Every
  transfer goes to a cell that receives freely.\<close>

theorem direct_authorization_sound:
  assumes "verify_authorization E V revoked a c L actor path n = Inr ()" "direct (ta_authorization a)"
    and "(p, name) \<in> set (captp_floors a)"
  shows "(case for_action (c_permissions c) p of
      AuthNone \<Rightarrow> True
    | Signature \<Rightarrow> owner_signed E V a c path n \<or> holds_breadstuff E V revoked a L actor \<or> holds_empty_facet E V revoked a L actor
    | Proof \<Rightarrow> proof_accepted V a c
    | Either \<Rightarrow> owner_signed E V a c path n \<or> proof_accepted V a c \<or> holds_breadstuff E V revoked a L actor \<or>
        holds_empty_facet E V revoked a L actor
    | Impossible \<Rightarrow> False
    | Custom _ \<Rightarrow> False) \<and>
    (\<forall>src dst amount d. ETransfer src dst amount \<in> set (ta_effects a) \<and> l_cells L dst = Some d \<longrightarrow>
       for_action (c_permissions d) Receive = AuthNone)"
proof -
  have ok: "check_permission_slots E V revoked a c L actor path n = Inr ()"
    by (rule plain_direct [OF assms(2,1)])
  then have slots: "check_all (\<lambda>(p, name). check_single_auth_requirement E V revoked a c L actor path n
        (for_action (c_permissions c) p) name) (captp_floors a) = Inr ()"
    and recv: "check_all (check_receive L) (ta_effects a) = Inr ()"
    by (simp_all add: check_permission_slots_def captp_floors_def and_then_ok Let_def)
  have "check_single_auth_requirement E V revoked a c L actor path n (for_action (c_permissions c) p) name
      = Inr ()"
    using check_all_ok [OF slots assms(3)] by simp
  note requirement_evidence [OF assms(2) this]
  moreover have "for_action (c_permissions d) Receive = AuthNone"
    if "ETransfer src dst amount \<in> set (ta_effects a)" "l_cells L dst = Some d" for src dst amount d
    using check_all_ok [OF recv that(1)] that(2) by (simp add: check_receive_def Let_def)
  ultimately show ?thesis by blast
qed

text \<open>A small world: signatures verify when their first half is the key, keys are valid, hashes constant.\<close>

definition demo_turn_crypto :: turn_crypto where
  "demo_turn_crypto = exec_crypto.extend demo_exec_crypto
     \<lparr>shielded_hash_bytes = (\<lambda>_. []), preconditions_postcard = (\<lambda>_. []), predicate_postcard = (\<lambda>_. []),
      candidates_postcard = (\<lambda>_. []), key_ref_postcard = (\<lambda>_. []), effects_postcard = (\<lambda>_. []),
      shielded_bytes = (\<lambda>_. 0), valid_key = (\<lambda>_. True), verify_strict = (\<lambda>k _ sig. fst sig = k),
      ml_dsa_verify = (\<lambda>_ _ _. False), stealth_point = (\<lambda>_ _. None),
      verify_stark_delegation_binding = (\<lambda>_ _ _ _ _ _. False), detect_token = (\<lambda>_. None),
      verify_biscuit = (\<lambda>_ _ _. TvInvalid), verify_macaroon = (\<lambda>_ _ _ _. TvInvalid)\<rparr>"

definition demo_turn_env :: turn_env where
  "demo_turn_env = \<lparr>tv_exec = demo_env, tv_costs = zero_costs, tv_require_pq = False,
     tv_witnessed_registry = None\<rparr>"

definition demo_action :: "cell_id \<Rightarrow> authorization \<Rightarrow> effect list \<Rightarrow> turn_action" where
  "demo_action target auth effs =
     \<lparr>ta_target = target, ta_method = 0, ta_args = [], ta_authorization = auth,
      ta_preconditions = preconditions_default, ta_effects = effs, ta_may_delegate = DmNone,
      ta_commitment_mode = CmFull, ta_balance_change = None, ta_witness_blobs = []\<rparr>"

lemma demo_action_simps [simp]:
  "ta_target (demo_action t au effs) = t" "ta_authorization (demo_action t au effs) = au"
  "ta_effects (demo_action t au effs) = effs" "ta_balance_change (demo_action t au effs) = None"
  "ta_preconditions (demo_action t au effs) = preconditions_default"
  "ta_commitment_mode (demo_action t au effs) = CmFull" "ta_witness_blobs (demo_action t au effs) = []"
  "ta_may_delegate (demo_action t au effs) = DmNone" "ta_method (demo_action t au effs) = 0"
  by (simp_all add: demo_action_def)

lemma demo_turn_crypto_simps [simp]:
  "verify_strict demo_turn_crypto = (\<lambda>k _ sig. fst sig = k)" "valid_key demo_turn_crypto = (\<lambda>_. True)"
  "stealth_point demo_turn_crypto = (\<lambda>_ _. None)"
  by (simp_all add: demo_turn_crypto_def exec_crypto.defs)

lemma demo_turn_env_simps [simp]:
  "tv_exec demo_turn_env = demo_env" "tv_require_pq demo_turn_env = False"
  "tv_costs demo_turn_env = zero_costs" "tv_witnessed_registry demo_turn_env = None"
  by (simp_all add: demo_turn_env_def)

lemma demo_hosted_key [simp]: "c_public_key (demo_hosted i tok b) = i"
  by (simp add: demo_hosted_def with_balance_def)

lemmas authorize_simps = verify_authorization_def verify_plain_authorization_def check_permission_slots_def
  check_single_auth_requirement_def verify_ed25519_signature_def determine_required_permissions_def
  require_permission_def check_receive_def Let_def default_user_def

lemma demo_signed_accepted:
  "verify_authorization demo_turn_crypto demo_turn_env append_new
     (demo_action 1 (AuSignature 1 0) [EIncrementNonce 1]) (demo_hosted 1 7 100) (xs_ledger demo_exec) 1 [0] 0 =
     Inr ()"
  by (simp add: authorize_simps)

theorem direct_authorization_sound_witness:
  "owner_signed demo_turn_crypto demo_turn_env (demo_action 1 (AuSignature 1 0) [EIncrementNonce 1])
     (demo_hosted 1 7 100) [0] 0"
  using direct_authorization_sound [OF demo_signed_accepted, of IncrementNonce "''IncrementNonce''"]
  by (simp add: direct_def captp_floors_def determine_required_permissions_def require_permission_def
      Let_def default_user_def holds_breadstuff_def holds_empty_facet_def selected_breadstuff_def)

text \<open>A breadstuff with an empty facet authorizes every effect: where the signature slot of the cell is asked
  for, whatever capability the token selects passes if its facet is the empty mask.\<close>

lemma empty_facet_authorizes:
  assumes "selected_breadstuff E V revoked a L actor cap" "cr_allowed_effects cap = Some 0"
  shows "check_single_auth_requirement E V revoked a c L actor path n Signature name = Inr () \<and>
    \<not> is_effect_permitted (cr_allowed_effects cap) kind"
  using assms
  by (auto simp: selected_breadstuff_def check_single_auth_requirement_def check_breadstuff_def unexpired_def
      check_exercise_permitted_def saturating_sub_word_def Let_def split: authorization.splits option.splits)

section \<open>What the other kinds leave open\<close>

text \<open>A bearer capability is not tied to the action it authorizes. The verdict on an action with a
  bearer authorization depends on the proof, the ledger and the kinds of the effects only: the same
  proof authorizes the same effects on any other target cell, whatever that cell's permissions are.\<close>

theorem bearer_ignores_target:
  assumes "ta_authorization a = AuBearer p"
  shows "verify_authorization E V revoked (a\<lparr>ta_target := victim\<rparr>) victim_cell L actor path n =
         verify_authorization E V revoked a c L actor path n"
  using assms
  by (simp add: verify_authorization_def verify_plain_authorization_def verify_bearer_authorization_def
      effects_mask_def cong: option.case_cong)

text \<open>Cell 1 delegates access to itself and, with that proof, withdraws from cell 2.\<close>

definition demo_bearer :: bearer_cap_proof where
  "demo_bearer = \<lparr>bp_target = 1, bp_permissions = AuthNone,
     bp_delegation_proof = SignedDelegation 1 (1, 0) 9, bp_expires_at = 1000,
     bp_revocation_channel = None, bp_allowed_effects = None\<rparr>"

definition demo_world :: exec_state where
  "demo_world = demo_exec\<lparr>xs_ledger := (xs_ledger demo_exec)\<lparr>l_pubkey_index := [1 \<mapsto> [1], 2 \<mapsto> [2]]\<rparr>\<rparr>"

lemma demo_world_simps [simp]:
  "l_cells (xs_ledger demo_world) = [1 \<mapsto> demo_hosted 1 7 100, 2 \<mapsto> demo_hosted 2 7 5]"
  "l_pubkey_index (xs_ledger demo_world) = [1 \<mapsto> [1], 2 \<mapsto> [2]]" "xs_revoked demo_world = append_new"
  "xs_journal demo_world = []"
  by (simp_all add: demo_world_def demo_exec_def)

lemmas bearer_simps = verify_authorization_def verify_plain_authorization_def verify_bearer_authorization_def
  verify_bearer_cap_def bearer_channel_ok_def verify_signed_delegation_def cell_by_pubkey_def
  has_access_including_delegation_at_def capabilities_for_def Let_def

lemma demo_bearer_accepted:
  "verify_authorization demo_turn_crypto demo_turn_env append_new
     (demo_action 1 (AuBearer demo_bearer) [ETransfer 2 1 5]) (demo_hosted 1 7 100) (xs_ledger demo_world) 1 [0] 0 =
     Inr ()"
  by (simp add: bearer_simps demo_bearer_def demo_env_def clist_new_def)

theorem bearer_ignores_target_witness:
  "verify_authorization demo_turn_crypto demo_turn_env append_new
     ((demo_action 1 (AuBearer demo_bearer) [ETransfer 2 1 5])\<lparr>ta_target := 2\<rparr>)
     ((demo_hosted 2 7 5)\<lparr>c_permissions := frozen\<rparr>) (xs_ledger demo_world) 1 [0] 0 = Inr ()"
  by (rule trans [OF bearer_ignores_target demo_bearer_accepted]) simp

text \<open>A facet of zero is no facet: a bearer who sets it is not held to the facet of the delegator, and the
  message that the delegator signs does not cover it.\<close>

lemma bearer_zero_facet:
  "bp_allowed_effects p = Some 0 \<Longrightarrow>
   verify_bearer_authorization E V revoked L a p = map_sum id (\<lambda>_. ()) (verify_bearer_cap E V revoked L p)"
  by (auto simp: verify_bearer_authorization_def and_then_def split: sum.splits)

text \<open>A delivered message may vouch for itself. Whoever holds two key pairs can write a handoff
  certificate for any target cell with the narrowest permission, sign it with the first key, name the
  second as its recipient, and have any action on that cell accepted: the key of the introducer is an
  argument of the authorization and is compared with nothing.\<close>

theorem captp_self_signed:
  assumes "valid_key E sender" "hc_recipient_pk cert = sender" "hc_target_federation cert = tv_federation V"
    and "hc_target_cell cert = ta_target a" "hc_permissions cert = Impossible"
    and "hc_allowed_effects cert = None" "hc_expires_at cert = None"
    and "verify_strict E introducer (handoff_signing_message cert) (hc_introducer_signature cert)"
    and "verify_strict E sender (captp_delivered_signing_message_for_federation E (tv_federation V)
          (hc_nonce cert) (ta_target a) (ta_target a) n (ta_effects a)) sig"
    and "ta_authorization a = AuCapTpDelivered cert introducer sender sig"
  shows "verify_authorization E V revoked a c L actor path n = Inr ()"
  using assms
  by (simp add: verify_authorization_def verify_plain_authorization_def verify_captp_delivered_def
      handoff_verify_signature_def handoff_is_valid_def list_all_iff)

definition demo_cert :: handoff_certificate where
  "demo_cert = \<lparr>hc_introducer = 0, hc_introducer_signature = (8, 0), hc_target_federation = 0,
     hc_target_cell = 2, hc_recipient_pk = 9, hc_permissions = Impossible, hc_allowed_effects = None,
     hc_expires_at = None, hc_max_uses = None, hc_nonce = 0, hc_swiss = 0\<rparr>"

theorem captp_self_signed_witness:
  "verify_authorization demo_turn_crypto demo_turn_env append_new
     (demo_action 2 (AuCapTpDelivered demo_cert 8 9 (9, 0)) [ETransfer 2 1 5])
     ((demo_hosted 2 7 5)\<lparr>c_permissions := frozen\<rparr>) (xs_ledger demo_world) 1 [0] 0 = Inr ()"
  by (rule captp_self_signed [where cert = demo_cert and introducer = 8 and sender = 9 and sig = "(9, 0)"])
     (simp_all add: demo_cert_def demo_env_def)

text \<open>The message of a full signature runs the arguments and the effect hashes together: an action and
  the one whose last argument is the hash of its first effect, with that effect dropped, have the same
  message. A signature on one is a signature on the other.\<close>

theorem signing_message_ambiguous:
  "compute_signing_message E (a\<lparr>ta_args := ta_args a @ [effect_hash E e], ta_effects := es\<rparr>) f n =
   compute_signing_message E (a\<lparr>ta_effects := e # es\<rparr>) f n"
  by (simp add: compute_signing_message_def action_body_def)

text \<open>A signature in partial mode cannot be made. The message contains the hash of the action with its
  authorization; the action as it is signed carries another authorization than the action with the
  signature in it, so, unless BLAKE3 collides, the executor checks the signature against a message that
  was not signed.\<close>

theorem partial_signature_moves_message:
  fixes E :: "'a turn_crypto_scheme" and a b :: turn_action and f :: bytes32
  assumes "ta_authorization a = AuUnchecked" "b = a\<lparr>ta_authorization := AuSignature r s\<rparr>"
    and "inj_on (blake3 E) {action_preimage E a, action_preimage E b}"
    and "inj_on (blake3 E) {partial_preimage (action_hash E a) i f n, partial_preimage (action_hash E b) i f n}"
  shows "compute_partial_signing_message E b i f n \<noteq> compute_partial_signing_message E a i f n"
proof -
  have "action_preimage E b \<noteq> action_preimage E a"
    using assms(1,2) by (simp add: action_preimage_def)
  then have "action_hash E b \<noteq> action_hash E a"
    using assms(3) by (simp add: action_hash_def)
  then have "partial_preimage (action_hash E b) i f n \<noteq> partial_preimage (action_hash E a) i f n"
    by (simp add: partial_preimage_def)
  then show ?thesis
    using assms(4) by (simp add: compute_partial_signing_message_def)
qed

text \<open>A hash for the witness: the length, or, on the 101 bytes of a partial message, the action hash in it.\<close>

definition demo_length_hash :: "u8 list \<Rightarrow> bytes32" where
  "demo_length_hash bs =
     (if length bs = 101 then from_bytes32 (take 32 (drop 53 bs)) else of_nat (length bs))"

lemma demo_length_hash_partial: "demo_length_hash (partial_preimage h i f n) = h"
  by (simp add: demo_length_hash_def partial_preimage_def ascii_def)

theorem partial_signature_moves_message_witness:
  "compute_partial_signing_message (demo_turn_crypto\<lparr>blake3 := demo_length_hash\<rparr>)
     (demo_action 1 (AuSignature 5 6) []) 0 0 0 \<noteq>
   compute_partial_signing_message (demo_turn_crypto\<lparr>blake3 := demo_length_hash\<rparr>)
     (demo_action 1 AuUnchecked []) 0 0 0"
proof (rule partial_signature_moves_message [where r = 5 and s = 6])
  show "demo_action 1 (AuSignature 5 6) [] = (demo_action 1 AuUnchecked [])\<lparr>ta_authorization := AuSignature 5 6\<rparr>"
    by (simp add: demo_action_def)
  let ?E = "demo_turn_crypto\<lparr>blake3 := demo_length_hash\<rparr>"
  show "inj_on (blake3 ?E) {partial_preimage (action_hash ?E (demo_action 1 AuUnchecked [])) 0 0 0,
      partial_preimage (action_hash ?E (demo_action 1 (AuSignature 5 6) [])) 0 0 0}"
    by (auto simp: inj_on_def demo_length_hash_partial)
  show "inj_on (blake3 ?E) {action_preimage ?E (demo_action 1 AuUnchecked []),
      action_preimage ?E (demo_action 1 (AuSignature 5 6) [])}"
    by (simp add: action_preimage_def demo_action_def demo_length_hash_def ascii_def
        balance_change_bytes_def demo_turn_crypto_def exec_crypto.defs)
qed simp

text \<open>A predicate authorization on a cell that names no custom key is whatever the caller makes of it: the
  permissions of the cell are not consulted.\<close>

lemma custom_ignores_permissions:
  assumes "ta_authorization a = AuCustom p" "required_custom_vk (c_permissions c) = None"
    "required_custom_vk perms = None"
  shows "verify_authorization E V revoked a (c\<lparr>c_permissions := perms\<rparr>) L actor path n =
         verify_authorization E V revoked a c L actor path n"
  using assms
  by (cases "wp_input_ref p")
     (simp_all add: verify_authorization_def verify_plain_authorization_def verify_custom_authorization_def)

text \<open>The second half of a hybrid signature is checked against a key that comes with it.\<close>

lemma hybrid_pq_key_free:
  assumes "valid_key E (c_public_key c)" "ml \<noteq> []"
    "verify_strict E (c_public_key c) (bytes32_bytes (signed_message E V a path n)) ed"
    "ml_dsa_verify E pk (bytes32_bytes (signed_message E V a path n)) ml"
  shows "verify_hybrid_signature E V a c ed ml pk path n = Inr ()"
  using assms by (simp add: verify_hybrid_signature_def Let_def)

end
