(* ===== verification/ExecuteTreeLaws.thy ===== *)
theory ExecuteTreeLaws
  imports TurnMetering AuthorizeLaws ExecutorSupply ProgramLaws
begin

text \<open>
  What the execution of a call tree guarantees. The locale \<open>tree_rel\<close> states what a relation between
  the state before and after has to satisfy at each elementary step of the executor; it then holds of
  whole trees. Its interpretations give that the journal of a tree, finished or stopped anywhere, undoes
  it, and that a tree that succeeds creates no value beyond the excess it declares. The metering is
  shown equal to the estimate that is made without executing, and a bearer proof is shown to empty a
  cell of somebody else.
\<close>

section \<open>Relations that hold of every step\<close>

locale tree_rel =
  fixes E :: "'a turn_crypto_scheme" and V :: "'v tree_env_scheme" and turn :: bytes32
    and R :: "tree_state \<Rightarrow> bool \<Rightarrow> tree_state \<Rightarrow> bool"
  assumes seq: "R s True t \<Longrightarrow> R t ok u \<Longrightarrow> R s ok u"
    and still: "ts_exec t = ts_exec s \<Longrightarrow> ts_excess t = ts_excess s \<Longrightarrow> R s ok t"
    and applied: "apply_effect E (tv_exec V) turn target actor eff (ts_exec s) = (r, S) \<Longrightarrow>
      R s (\<not> isl r) (s\<lparr>ts_exec := S\<rparr>)"
    and borrowed: "R s ok (s\<lparr>ts_exec := borrow_snapshot E V parent ancestor (ts_exec s)\<rparr>)"
    and proved: "R s ok (s\<lparr>ts_exec := set_proved b i (ts_exec s)\<rparr>)"
    and declared: "apply_balance_delta path i delta s = (q, t) \<Longrightarrow> R s (\<not> isl q) t"
    and bumped: "R s ok (s\<lparr>ts_exec := bump_target_nonce a agent L (ts_exec s)\<rparr>)"
begin

definition holds :: "tree_state \<Rightarrow> tree_result \<Rightarrow> bool" where
  "holds s m \<longleftrightarrow> R s (\<not> isl (fst m)) (snd m)"

lemma holds_then:
  assumes "holds s m" "\<And>t. snd m = t \<Longrightarrow> holds t (k t)"
  shows "holds s (then_do m k)"
proof (cases m)
  case (Pair q t)
  then show ?thesis
    using assms seq [of s t "\<not> isl (fst (k t))" "snd (k t)"] by (cases q) (auto simp: then_do_def holds_def)
qed

lemma holds_still: "ts_exec (snd m) = ts_exec s \<Longrightarrow> ts_excess (snd m) = ts_excess s \<Longrightarrow> holds s m"
  by (simp add: holds_def still)

lemma holds_guard: "holds s (guard_at path r s)"
  by (rule holds_still) (simp_all add: guard_at_def)

lemma holds_charge: "holds s (charge path budget cost s)"
  by (rule holds_still) (simp_all add: charge_def Let_def)

lemma isl_at_path [simp]: "isl (at_path path r) = isl r"
  by (cases r) (simp_all add: at_path_def)

lemma holds_on_exec: "R s (\<not> isl (fst m)) (s\<lparr>ts_exec := snd m\<rparr>) \<Longrightarrow> holds s (on_exec path m s)"
  by (simp add: holds_def on_exec_def)

lemma gate_holds: "holds s (on_exec path (capability_gate E V a parent mode (ts_exec s)) s)"
proof (rule holds_on_exec)
  let ?m = "capability_gate E V a parent mode (ts_exec s)"
  have "snd ?m = ts_exec s \<or> (\<exists>anc. snd ?m = borrow_snapshot E V parent anc (ts_exec s))"
    by (auto simp: capability_gate_def Let_def split: option.splits if_splits)
  then show "R s (\<not> isl (fst ?m)) (s\<lparr>ts_exec := snd ?m\<rparr>)"
    using still [of "s\<lparr>ts_exec := ts_exec s\<rparr>" s] borrowed by auto
qed

lemma step_holds: "holds s (step_effect E V turn target actor budget path eff s)"
  unfolding step_effect_def
proof (intro holds_then holds_charge)
  fix t :: tree_state
  let ?m = "apply_effect E (tv_exec V) turn target actor eff (ts_exec t)"
  show "holds t (on_exec path (apfst (map_sum te_turn id) ?m) t)"
    using applied [of target actor eff t "fst ?m" "snd ?m"] by (intro holds_on_exec) (simp add: isl_map_sum)
qed (rule holds_still; simp)

lemma effects_hold: "holds s (run_effects E V turn target actor budget path effs s)"
proof (induction effs arbitrary: s)
  case Nil
  show ?case by (rule holds_still) simp_all
next
  case (Cons eff effs)
  then show ?case by (auto intro!: holds_then step_holds)
qed

lemma fold_proved: "R s ok (s\<lparr>ts_exec := fold (set_proved b) is (ts_exec s)\<rparr>)"
proof (induction "is" arbitrary: s)
  case Nil
  show ?case by (rule still) simp_all
next
  case (Cons i "is")
  show ?case using seq [OF proved Cons.IH, of s b i] by simp
qed

lemma update_holds: "holds s (Inr (), s\<lparr>ts_exec := update_proved V p w (ts_exec s)\<rparr>)"
  using fold_proved by (simp add: holds_def update_proved_def Let_def)

lemma holds_option:
  "(x = None \<Longrightarrow> holds s n) \<Longrightarrow> (\<And>c. x = Some c \<Longrightarrow> holds s (f c)) \<Longrightarrow>
     holds s (case x of None \<Rightarrow> n | Some c \<Rightarrow> f c)"
  by (cases x) auto

lemma declared_holds: "holds s (apply_balance_delta path i delta s)"
  using declared [of path i delta s] by (simp add: holds_def)

lemma stop_holds: "holds s (q, s)"
  by (rule holds_still) simp_all

lemma bump_holds: "holds s (Inr (), s\<lparr>ts_exec := bump_target_nonce a agent L (ts_exec s)\<rparr>)"
  by (simp add: holds_def bumped)

lemma action_holds: "holds s (execute_action E V n agent turn budget a parent mode path s)"
  unfolding execute_action_def Let_def
  by (intro holds_then holds_option holds_charge holds_guard gate_holds effects_hold update_holds
      declared_holds stop_holds bump_holds)

lemma children_hold:
  assumes "\<And>tree parent mode path s. tree \<in> set trees \<Longrightarrow>
      holds s (execute_tree E V n agent turn budget tree parent mode path s)"
  shows "holds s (execute_children E V n agent turn budget a k trees path s)"
  using assms
proof (induction trees arbitrary: k s)
  case Nil
  show ?case by (simp add: stop_holds)
next
  case (Cons tree trees)
  then show ?case by (auto intro!: holds_then holds_guard)
qed

lemma tree_holds: "holds s (execute_tree E V n agent turn budget tree parent mode path s)"
  by (induction tree arbitrary: parent mode path s)
     (auto intro!: holds_then action_holds children_hold)

lemma tree_run:
  assumes "execute_tree E V n agent turn budget tree parent mode path s = (r, t)"
  shows "R s (\<not> isl r) t"
  using tree_holds [of s n agent budget tree parent mode path] assms by (simp add: holds_def)

end

section \<open>The journal of a tree\<close>

lemma write_journalled:
  assumes "cell_at S i = Some c" "\<And>U :: exec_state. undo_entry E e U = with_cell i f U" "entry_cell e = Some i"
    and "journal_view (f (invalidate_leaf_cache (g (invalidate_leaf_cache c)))) = journal_view c"
  shows "journalled E S (record_entry (with_cell i g S) e)"
proof (rule journalledI)
  show "undoable E S [e] (record_entry (with_cell i g S) e)"
    by (rule undoable_write [OF assms(2,1), of _ "g (invalidate_leaf_cache c)"])
       (simp_all add: assms cell_at_with_cell)
  show "untouched S [e] (record_entry (with_cell i g S) e)"
    by (intro untouched_eq) (auto simp: touched_one assms cell_at_with_cell)
qed (simp add: with_cell_def)

definition kept :: "('a turn_crypto_scheme) \<Rightarrow> exec_state \<Rightarrow> exec_state \<Rightarrow> bool" where
  "kept E S T \<longleftrightarrow> (cells_ok E S \<longrightarrow> journalled E S T \<and> cells_ok E T)"

lemma kept_refl: "kept E S S"
  by (simp add: kept_def journalled_refl)

lemma kept_trans: "kept E S T \<Longrightarrow> kept E T U \<Longrightarrow> kept E S U"
  unfolding kept_def by (blast intro: journalled_trans)

lemma kept_steps: "exec_steps E B S T \<Longrightarrow> kept E S T"
  unfolding kept_def by (blast dest: exec_steps_journalled)

lemma get_mut_put:
  assumes "get_mut S i = (Some c, T)"
  shows "\<exists>d. cell_at S i = Some d \<and> c = invalidate_leaf_cache d \<and> put_cell T i c' = with_cell i (\<lambda>_. c') S"
  using get_mut_SomeD [OF assms] by auto

text \<open>A journalled write to the state of a cell that leaves its overflow fields alone.\<close>

lemma kept_state_write:
  assumes "cell_at S i = Some c" "\<And>U :: exec_state. undo_entry E e U = with_cell i (map_state u) U"
    and "entry_cell e = Some i" "u (w (c_state c)) = c_state c"
    and "st_fields_root (w (c_state c)) = st_fields_root (c_state c)"
      "st_fields_map (w (c_state c)) = st_fields_map (c_state c)"
  shows "kept E S (record_entry (with_cell i (map_state w) S) e)"
  unfolding kept_def
proof (intro impI conjI)
  assume ok: "cells_ok E S"
  show "journalled E S (record_entry (with_cell i (map_state w) S) e)"
    by (rule write_journalled [OF assms(1,2,3)])
       (simp add: map_state_def journal_view_def invalidate_leaf_cache_def assms(4))
  have "fields_sealed E (map_state w (invalidate_leaf_cache c)) = fields_sealed E c"
    by (simp add: fields_sealed_def map_state_def assms(5,6))
  then show "cells_ok E (record_entry (with_cell i (map_state w) S) e)"
    using ok assms(1) by (auto simp: cells_ok_def cell_at_with_cell map_state_def)
qed

lemma set_proved_kept: "kept E S (set_proved b i S)"
proof (cases "cell_at S i")
  case None
  obtain r T where T: "get_mut S i = (r, T)" by fastforce
  then have "r = None" using get_mutD(4) [OF T] None by blast
  then show ?thesis using kept_steps [OF get_mutD(3) [OF T]] T by (simp add: set_proved_def)
next
  case (Some d)
  obtain r T where T: "get_mut S i = (r, T)" by fastforce
  then obtain c where r: "r = Some c" using get_mutD(4) [OF T] Some by auto
  have c: "c = invalidate_leaf_cache d" using get_mut_SomeD(2) [OF T [unfolded r] Some] .
  have k: "kept E S (record_entry (with_cell i (map_state (\<lambda>s. s\<lparr>st_proved_state := b\<rparr>)) S)
      (JSetProvedState i (st_proved_state (c_state d))))"
    by (rule kept_state_write [OF Some, where u = "\<lambda>s. s\<lparr>st_proved_state := st_proved_state (c_state d)\<rparr>"])
       simp_all
  have w: "put_cell T i c' = with_cell i (\<lambda>_. c') S" for c' using get_mut_SomeD(3) [OF T [unfolded r]] .
  show ?thesis
    using k kept_steps [OF get_mutD(3) [OF T]]
    by (auto simp: set_proved_def T r w c with_cell_const [OF Some, of "map_state _"])
qed

lemma bump_kept: "kept E S (bump_target_nonce a agent L S)"
proof -
  have "kept E S (record_entry (with_cell i (map_state (\<lambda>st. snd (increment_nonce st))) S)
      (JSetNonce i (st_nonce (c_state c))))" if "cell_at S i = Some c" for i c
    by (rule kept_state_write [OF that, where u = "\<lambda>s. s\<lparr>st_nonce := st_nonce (c_state c)\<rparr>"])
       (simp_all add: increment_nonce_def split: option.split)
  then show ?thesis
    by (auto simp: bump_target_nonce_def Let_def kept_refl split: option.split)
qed

lemma declared_kept:
  assumes "apply_balance_delta path i delta s = (q, t)"
  shows "kept E (ts_exec s) (ts_exec t)"
proof -
  have "kept E S (record_entry (with_cell i (map_state (\<lambda>st. st\<lparr>st_balance := b\<rparr>)) S)
      (JSetBalance i (st_balance (c_state c))))" if "cell_at S i = Some c" for S c b
    by (rule kept_state_write [OF that, where u = "\<lambda>s. s\<lparr>st_balance := st_balance (c_state c)\<rparr>"]) simp_all
  then show ?thesis
    using assms by (auto simp: apply_balance_delta_def Let_def kept_refl split: option.splits if_splits)
qed

lemma write_first_delegation:
  "c_delegation c = None \<Longrightarrow> cell_write E UNIV i c (JSetDelegation i None) (c\<lparr>c_delegation := d\<rparr>)"
  using cell_write.delegation [of d UNIV E i c] by simp

lemma borrow_steps: "exec_steps E UNIV S (borrow_snapshot E V parent ancestor S)"
  by (auto simp: borrow_snapshot_def Let_def split: option.splits prod.splits
      intro: steps_none steps_some steps_cell write_first_delegation)

lemma apply_effect_steps:
  assumes "shielded_distinct E" "apply_effect E X turn target actor eff S = (r, T)"
  shows "exec_steps E UNIV S T"
  using apply_effects_steps [OF assms(1), of X turn target actor "[eff]" S] assms(2)
  by (cases r) simp_all

interpretation kept: tree_rel E V turn
  "\<lambda>s ok t. shielded_distinct E \<longrightarrow> kept E (ts_exec s) (ts_exec t)" for E V turn
  by unfold_locales
     (auto intro: kept_trans kept_refl kept_steps apply_effect_steps borrow_steps set_proved_kept bump_kept declared_kept)

text \<open>C28. A call tree is atomic through its journal. Execute any call tree (capability gates with borrowed
  snapshots, effects of every kind, proved-state flags, declared balance changes, nonces of targets,
  children at any depth) from an empty journal, and roll the journal back, wherever the execution
  stopped. The same cells exist as before, each with its balance, nonce, fields, overflow fields, heap,
  permissions, keys, program, delegation and lifecycle, and with the same capability in each slot of its
  c-list; the four append-only sets have the same entries; and the invariant of the cells holds. That is
  the equality of \<open>stores_view\<close>, and it is not equality of the stores: a rollback does not bring back the
  commitment that a field write cleared, nor the order, the tombstones and the slot counter of a c-list
  (so the capability root may differ), nor the factory counts; and nothing is said here of the digest memo,
  the sovereign commitments and the public-key index.\<close>

theorem tree_rollback_restores:
  assumes "shielded_distinct E" "cells_ok E (ts_exec s)" "xs_journal (ts_exec s) = []"
    and "execute_tree E V n agent turn budget tree parent mode path s = (r, t)"
  shows "stores_view (rollback E (xs_journal (ts_exec t)) (ts_exec t)) = stores_view (ts_exec s) \<and>
    cells_ok E (ts_exec t)"
proof -
  have "kept E (ts_exec s) (ts_exec t)"
    using kept.tree_run [OF assms(4)] assms(1) by blast
  then show ?thesis using assms(2,3) by (auto simp: kept_def journalled_def undoable_def)
qed

section \<open>Value\<close>

lemma shifts_state_write:
  assumes "cell_at S i = Some c" "d = st_balance (w (c_state c)) - st_balance (c_state c)" "entry_exported e = 0"
  shows "shifts d S (record_entry (with_cell i (map_state w) S) e)"
  using assms by (intro shifts_plain shifts_with_cell) (simp_all add: cell_balance_def map_state_def)

lemma borrow_shifts: "shifts 0 S (borrow_snapshot E V parent ancestor S)"
  by (auto simp: borrow_snapshot_def Let_def cell_balance_def split: option.splits prod.splits
      intro!: shifts_plain intro: shifts_get_mut shifts_put)

lemma set_proved_shifts: "shifts 0 S (set_proved b i S)"
  by (auto simp: set_proved_def cell_balance_def map_state_def split: option.splits prod.splits
      intro!: shifts_plain intro: shifts_get_mut shifts_put)

lemma bump_shifts: "shifts 0 S (bump_target_nonce a agent L S)"
  by (auto simp: bump_target_nonce_def Let_def increment_nonce_def split: option.splits
      intro!: shifts_state_write)

lemma declared_shifts:
  assumes "apply_balance_delta path i delta s = (Inr (), t)"
  shows "shifts (ts_excess s - ts_excess t) (ts_exec s) (ts_exec t)"
  using assms
  by (auto simp: apply_balance_delta_def Let_def checked_add_i64_def checked_sub_i64_def
      split: option.splits if_splits intro!: shifts_state_write)

lemma effect_shifts:
  assumes "shielded_distinct E" "apply_effect E X turn target actor eff S = (Inr (), T)"
  shows "shifts 0 S T"
  using conserve.effects [of "[eff]" E X turn target actor S "Inr ()" T] assms
  by (simp add: all_basic_True)

interpretation conserved: tree_rel E V turn
  "\<lambda>s ok t. shielded_distinct E \<longrightarrow> ok \<longrightarrow> shifts (ts_excess s - ts_excess t) (ts_exec s) (ts_exec t)" for E V turn
proof (unfold_locales, goal_cases)
  case (1 s t ok u)
  then show ?case using shifts_trans [of "ts_excess s - ts_excess t" _ _ "ts_excess t - ts_excess u"] by auto
next
  case (3 target actor eff s r S)
  then show ?case by (cases r) (auto intro: effect_shifts)
next
  case (6 path i delta s q t)
  then show ?case by (cases q) (auto intro: declared_shifts)
qed (auto intro: borrow_shifts set_proved_shifts bump_shifts)

text \<open>C29. A call tree creates no value. When the execution of a tree succeeds, the sum of the hosted
  balances, together with the balances of the cells it made sovereign, grew by exactly what the excess
  fell, whatever the tree does and however deep it calls; so a tree that ends with the excess it began
  with neither creates nor destroys value.\<close>

theorem tree_conserves_value:
  assumes "shielded_distinct E" "finite (dom (cell_at (ts_exec s)))"
    and "execute_tree E V n agent turn budget tree parent mode path s = (Inr (), t)"
  shows "finite (dom (cell_at (ts_exec t))) \<and>
    worth (ts_exec t) + ts_excess t = worth (ts_exec s) + ts_excess s"
  using conserved.tree_run [OF assms(3)] assms(1,2) by (simp add: shifts_def)

section \<open>A run\<close>

definition demo_tree_env :: tree_env where
  "demo_tree_env = turn_env.extend demo_turn_env
     \<lparr>te_codec = demo_codec, te_rate_limit_counters = Map.empty, te_rate_limit_sum_counters = Map.empty,
      te_key_order = id\<rparr>"

definition demo_start :: "exec_state \<Rightarrow> tree_state" where
  "demo_start S = \<lparr>ts_exec = S, ts_computrons_used = 0, ts_effects_hashes = [], ts_excess = 0\<rparr>"

text \<open>Cell 1 withdraws the five units of cell 2 with a bearer proof for itself.\<close>

definition demo_theft :: call_tree where
  "demo_theft = CallTree (demo_action 2 (AuBearer demo_bearer) [ETransfer 2 1 5]) []"

abbreviation demo_tree_run :: "call_tree \<Rightarrow> tree_result" where
  "demo_tree_run tree \<equiv> execute_tree demo_turn_crypto demo_tree_env 0 1 0 1000 tree 1 DmParentsOwn [0] (demo_start demo_world)"

lemma demo_tree_env_simps [simp]:
  "tv_exec demo_tree_env = demo_env" "tv_require_pq demo_tree_env = False"
  "tv_costs demo_tree_env = zero_costs" "tv_witnessed_registry demo_tree_env = None"
  "te_key_order demo_tree_env = id"
  by (simp_all add: demo_tree_env_def turn_env.defs demo_turn_env_def)

lemma demo_start_simps [simp]:
  "ts_exec (demo_start S) = S" "ts_computrons_used (demo_start S) = 0" "ts_excess (demo_start S) = 0"
  "ts_effects_hashes (demo_start S) = []"
  by (simp_all add: demo_start_def)

lemma demo_bearer_tree:
  "verify_authorization demo_turn_crypto demo_tree_env append_new
     (demo_action 2 (AuBearer demo_bearer) [ETransfer 2 1 5]) (demo_hosted 2 7 5) (xs_ledger demo_world) 1 [0] 0 =
     Inr ()"
  by (simp add: bearer_simps demo_bearer_def demo_env_def clist_new_def)

lemma demo_hosted_program [simp]: "c_program (demo_hosted i tok b) = ProgNone"
  by (simp add: demo_hosted_def with_balance_def)

text \<open>Evaluation of the steps at no cost and of an action without arguments or preconditions.\<close>

lemma then_do_simps [simp]: "then_do (Inr u, s) k = k s" "then_do (Inl e, s) k = (Inl e, s)"
  by (simp_all add: then_do_def)

lemma step_simps [simp]:
  "guard_at path (Inr ()) s = (Inr (), s)" "on_exec path (Inr (), S) s = (Inr (), s\<lparr>ts_exec := S\<rparr>)"
  "ts_computrons_used s \<le> budget \<Longrightarrow> charge path budget 0 s = (Inr (), s)"
  by (simp_all add: guard_at_def on_exec_def at_path_def charge_def Let_def leD)

lemma free_transfer [simp]:
  "compute_effect_cost E zero_costs (ETransfer i j v) = 0" "cc_action_base zero_costs = 0" "cc_signature_verify zero_costs = 0"
  "estimate_authorization_cost zero_costs (AuBearer p) = 0"
  by (simp_all add: zero_costs_def saturating_add_word_def saturating_mul_word_def)

lemma demo_preconditions [simp]: "check_preconditions demo_tree_env (demo_action i auth effs) c = Inr ()"
  by (simp add: check_preconditions_def preconditions_default_def Let_def preconditions_evaluate_def
      cell_state_evaluate_def network_evaluate_def eval_context_minimal_def map_err_def)

definition demo_robbed :: exec_state where
  "demo_robbed = snd (apply_effect demo_turn_crypto demo_env 0 2 1 (ETransfer 2 1 5) demo_world)"

lemma demo_transfer:
  "apply_effect demo_turn_crypto demo_env 0 2 1 (ETransfer 2 1 5) demo_world = (Inr (), demo_robbed)"
  "cell_at demo_robbed =
     [1 \<mapsto> map_state (\<lambda>s. s\<lparr>st_balance := 105\<rparr>) (invalidate_leaf_cache (demo_hosted 1 7 100)),
      2 \<mapsto> map_state (\<lambda>s. s\<lparr>st_balance := 0\<rparr>) (invalidate_leaf_cache (demo_hosted 2 7 5))]"
  by (simp_all add: demo_robbed_def demo_exec_simps Let_def fun_upd_twist)

lemma demo_gates:
  "capability_gate E V (demo_action i (AuBearer p) effs) parent mode S = (Inr (), S)"
  "check_refusals [ETransfer i j v] = Inr ()" "check_witness_indices (demo_action i auth [ETransfer j k v]) = Inr ()"
  "update_proved demo_tree_env b (field_writes [ETransfer j k v]) S = S"
  by (simp_all add: capability_gate_def check_refusals_def check_witness_indices_def update_proved_def
      field_writes_def Let_def map_filter_simps)

lemma gate_without_programs:
  assumes "\<And>i c. l_cells L i = Some c \<Longrightarrow> c_program c = ProgNone"
  shows "program_gate E V a parent L_old L = Inr ()"
proof -
  have "check_touched_cell E V L old sender meta W i = Inr ()" for old sender meta W i
    using assms by (auto simp: check_touched_cell_def split: option.split)
  then have "check_all (check_touched_cell E V L old sender meta W) xs = Inr ()" for old sender meta W xs
    by (induction xs) simp_all
  then show ?thesis by (simp add: program_gate_def Let_def)
qed

lemma demo_program_gate:
  "program_gate demo_turn_crypto demo_tree_env (demo_action 2 auth [ETransfer 2 1 5]) 1
     (xs_ledger demo_world) (xs_ledger demo_robbed) = Inr ()"
  by (rule gate_without_programs) (auto simp: demo_transfer map_state_def split: if_splits)

lemma demo_theft_run:
  "demo_tree_run demo_theft = (Inr (), (demo_start demo_world)
     \<lparr>ts_effects_hashes := [effect_hash demo_turn_crypto (ETransfer 2 1 5)],
      ts_exec := bump_target_nonce (demo_action 2 (AuBearer demo_bearer) [ETransfer 2 1 5]) 1
        (xs_ledger demo_world) demo_robbed\<rparr>)"
  by (simp add: demo_theft_def execute_action_def demo_gates demo_bearer_tree step_effect_def demo_transfer(1)
      demo_program_gate is_permission_effect_def Let_def del: compute_effect_cost.simps)

lemma bump_balance:
  assumes "cell_at S i = Some c"
  shows "cell_balance (the (cell_at (bump_target_nonce a agent L S) i)) = cell_balance c"
  using assms
  by (auto simp: bump_target_nonce_def Let_def cell_at_with_cell map_state_def cell_balance_def
      increment_nonce_def split: option.split)

text \<open>C33. A bearer proof empties somebody else's cell. Cell 1 signs, with its own key, a delegation of
  access to itself, and sends a turn whose only action targets cell 2 with that proof and transfers the
  balance of cell 2 to cell 1. The tree runs to the end: cell 2 is empty, cell 1 has its balance, although
  cell 2 asks for a signature on every transfer and its key has signed nothing.\<close>

theorem bearer_theft:
  "for_action (c_permissions (the (cell_at demo_world 2))) Send = Signature \<and>
   fst (demo_tree_run demo_theft) = Inr () \<and>
   cell_balance (the (cell_at (ts_exec (snd (demo_tree_run demo_theft))) 1)) = 105 \<and>
   cell_balance (the (cell_at (ts_exec (snd (demo_tree_run demo_theft))) 2)) = 0"
  by (simp add: demo_theft_run bump_balance demo_transfer(2) map_state_def default_user_def)
     (simp add: cell_balance_def)

lemma demo_turn_shielded: "shielded_distinct demo_turn_crypto"
  by (simp add: shielded_distinct_def demo_turn_crypto_def exec_crypto.defs demo_exec_crypto_def cell_crypto.defs)

lemma demo_turn_sealed: "fields_sealed demo_turn_crypto (demo_hosted i tok b)"
  by (simp add: fields_sealed_def demo_hosted_def with_balance_def cell_state_new_def demo_turn_crypto_def
      exec_crypto.defs)

lemma demo_world_ok: "cells_ok demo_turn_crypto demo_world"
  by (auto simp: cells_ok_def demo_turn_sealed split: if_splits)

lemma demo_world_finite: "finite (dom (cell_at demo_world))"
  by simp

theorem tree_rollback_restores_witness:
  "let T = ts_exec (snd (demo_tree_run demo_theft))
   in stores_view (rollback demo_turn_crypto (xs_journal T) T) = stores_view demo_world"
  using tree_rollback_restores [OF demo_turn_shielded _ _ prod.collapse [symmetric],
      of "demo_start demo_world" demo_tree_env 0 1 0 1000 demo_theft 1 DmParentsOwn "[0]"] demo_world_ok
  by (simp add: Let_def)

theorem tree_conserves_value_witness:
  "worth (ts_exec (snd (demo_tree_run demo_theft))) = worth demo_world"
  using tree_conserves_value [OF demo_turn_shielded _ demo_theft_run] demo_world_finite
  by (simp add: demo_theft_run)

text \<open>At no cost the tree runs to the end; at the default costs a budget of 50 stops it, so its estimate is more.\<close>

definition demo_priced_env :: tree_env where
  "demo_priced_env = demo_tree_env\<lparr>tv_costs := default_costs\<rparr>"

abbreviation demo_priced_run :: "call_tree \<Rightarrow> tree_result" where
  "demo_priced_run tree \<equiv>
     execute_tree demo_turn_crypto demo_priced_env 0 1 0 50 tree 1 DmParentsOwn [0] (demo_start demo_world)"

lemma demo_priced_costs [simp]: "tv_costs demo_priced_env = default_costs"
  by (simp add: demo_priced_env_def)

lemma demo_priced_stops: "fst (demo_priced_run demo_theft) = Inl (TeBudgetExceeded 50 100, [0])"
  by (simp add: demo_theft_def execute_action_def charge_def saturating_add_word_def demo_priced_env_def
      default_costs_def Let_def)

theorem metering_exact_witness:
  "ts_computrons_used (snd (demo_tree_run demo_theft)) \<le> 1000 \<and>
   ts_computrons_used (snd (demo_tree_run demo_theft)) =
     saturating_add_word 0 (estimate_tree_cost demo_turn_crypto zero_costs demo_theft) \<and>
   \<not> saturating_add_word 0 (estimate_tree_cost demo_turn_crypto default_costs demo_theft) \<le> 50"
  using metering_exact [OF demo_theft_run]
    metering_exact [OF prod.collapse [symmetric],
      of "demo_start demo_world" 50 demo_turn_crypto demo_priced_env 0 1 0 demo_theft 1 DmParentsOwn "[0]"]
  by (simp add: demo_theft_run demo_priced_stops del: estimate_tree_cost.simps)

end
