(* ===== verification/MigrationManager.thy ===== *)
theory MigrationManager
  imports Prelude "HOL-Library.AList"
begin

text \<open>
  The executor's table of cell migrations (\<open>turn/src/executor/migration.rs\<close>): a state per cell, the
  operations that move it on, and the test that keeps turns away from a frozen cell. The hash map is an
  association list with one entry per cell; its order is that of the iteration. The operations refine an
  abstract protocol, the step relation \<open>protocol_step\<close> on the state of one cell.
\<close>

section \<open>States and operations\<close>

datatype migration_cancel_reason = CancelTimeout | CancelExplicit | CancelTargetRejected

datatype migration_state =
    MsIdle
  | MsFrozen cell_id bytes32 u64 u64
  | MsAwaitingReceipt cell_id bytes32 u64 u64
  | MsCompleted cell_id bytes32 u64
  | MsCancelled cell_id migration_cancel_reason

datatype manager_error = MeAlreadyMigrating | MeNotMigrating | MeInvalidTransition

type_synonym migration_manager = "(cell_id \<times> migration_state) list"

definition manager_new :: migration_manager where
  "manager_new = []"

definition begin_migration ::
  "migration_manager \<Rightarrow> cell_id \<Rightarrow> bytes32 \<Rightarrow> u64 \<Rightarrow> u64 \<Rightarrow> (manager_error + unit) \<times> migration_manager" where
  "begin_migration m i target current_height timeout =
     (if (case map_of m i of None \<Rightarrow> False | Some MsIdle \<Rightarrow> False | Some (MsCancelled _ _) \<Rightarrow> False | _ \<Rightarrow> True)
      then (Inl MeAlreadyMigrating, m)
      else (Inr (), AList.update i (MsFrozen i target current_height timeout) m))"

definition bundle_sent ::
  "migration_manager \<Rightarrow> cell_id \<Rightarrow> u64 \<Rightarrow> u64 \<Rightarrow> (manager_error + unit) \<times> migration_manager" where
  "bundle_sent m i current_height receipt_timeout =
     (case map_of m i of
        None \<Rightarrow> (Inl MeNotMigrating, m)
      | Some (MsFrozen _ target _ _) \<Rightarrow>
          (Inr (), AList.update i (MsAwaitingReceipt i target current_height receipt_timeout) m)
      | Some _ \<Rightarrow> (Inl MeInvalidTransition, m))"

definition confirm_receipt ::
  "migration_manager \<Rightarrow> cell_id \<Rightarrow> u64 \<Rightarrow> (manager_error + unit) \<times> migration_manager" where
  "confirm_receipt m i current_height =
     (case map_of m i of
        None \<Rightarrow> (Inl MeNotMigrating, m)
      | Some (MsAwaitingReceipt _ target _ _) \<Rightarrow> (Inr (), AList.update i (MsCompleted i target current_height) m)
      | Some _ \<Rightarrow> (Inl MeInvalidTransition, m))"

fun timed_out :: "u64 \<Rightarrow> migration_state \<Rightarrow> bool" where
  "timed_out h (MsFrozen _ _ frozen_at timeout) \<longleftrightarrow> timeout < saturating_sub_word h frozen_at"
| "timed_out h (MsAwaitingReceipt _ _ sent_at timeout) \<longleftrightarrow> timeout < saturating_sub_word h sent_at"
| "timed_out h _ \<longleftrightarrow> False"

definition check_migration_timeouts :: "migration_manager \<Rightarrow> u64 \<Rightarrow> cell_id list \<times> migration_manager" where
  "check_migration_timeouts m current_height =
     (let timed_out_ids = map fst (filter (\<lambda>(i, st). timed_out current_height st) m)
      in (timed_out_ids, fold (\<lambda>i. AList.update i (MsCancelled i CancelTimeout)) timed_out_ids m))"

definition cancel_migration ::
  "migration_manager \<Rightarrow> cell_id \<Rightarrow> migration_cancel_reason \<Rightarrow> (manager_error + unit) \<times> migration_manager" where
  "cancel_migration m i reason =
     (case map_of m i of
        None \<Rightarrow> (Inl MeNotMigrating, m)
      | Some (MsFrozen _ _ _ _) \<Rightarrow> (Inr (), AList.update i (MsCancelled i reason) m)
      | Some (MsAwaitingReceipt _ _ _ _) \<Rightarrow> (Inr (), AList.update i (MsCancelled i reason) m)
      | Some _ \<Rightarrow> (Inl MeInvalidTransition, m))"

fun frozen_state :: "migration_state \<Rightarrow> bool" where
  "frozen_state (MsFrozen _ _ _ _) = True"
| "frozen_state (MsAwaitingReceipt _ _ _ _) = True"
| "frozen_state _ = False"

definition is_frozen :: "migration_manager \<Rightarrow> cell_id \<Rightarrow> bool" where
  "is_frozen m i \<longleftrightarrow> (case map_of m i of Some st \<Rightarrow> frozen_state st | None \<Rightarrow> False)"

definition any_frozen :: "migration_manager \<Rightarrow> bool" where
  "any_frozen m \<longleftrightarrow> list_ex (\<lambda>(_, st). frozen_state st) m"

definition is_cancelled :: "migration_manager \<Rightarrow> cell_id \<Rightarrow> bool" where
  "is_cancelled m i \<longleftrightarrow> (case map_of m i of Some (MsCancelled _ _) \<Rightarrow> True | _ \<Rightarrow> False)"

fun finished_state :: "migration_state \<Rightarrow> bool" where
  "finished_state (MsCompleted _ _ _) = True"
| "finished_state (MsCancelled _ _) = True"
| "finished_state _ = False"

definition gc_completed :: "migration_manager \<Rightarrow> cell_id list \<times> migration_manager" where
  "gc_completed m =
     (let removable = map fst (filter (\<lambda>(_, st). finished_state st) m)
      in (removable, fold AList.delete removable m))"

section \<open>The protocol\<close>

text \<open>The state of one cell. An absent entry is a cell that does not migrate.\<close>

inductive protocol_step :: "cell_id \<Rightarrow> migration_state option \<Rightarrow> migration_state option \<Rightarrow> bool" for i where
  freeze: "st \<in> {None, Some MsIdle} \<or> (\<exists>j r. st = Some (MsCancelled j r)) \<Longrightarrow>
    protocol_step i st (Some (MsFrozen i tgt h t))"
| send: "protocol_step i (Some (MsFrozen j tgt h t)) (Some (MsAwaitingReceipt i tgt h' t'))"
| confirm: "protocol_step i (Some (MsAwaitingReceipt j tgt h t)) (Some (MsCompleted i tgt h'))"
| give_up: "frozen_state st \<Longrightarrow> protocol_step i (Some st) (Some (MsCancelled i r))"
| forget: "finished_state st \<Longrightarrow> protocol_step i (Some st) None"

inductive_cases protocol_stepE: "protocol_step i st st'"

datatype migration_op =
    MoBegin cell_id bytes32 u64 u64 | MoSent cell_id u64 u64 | MoConfirm cell_id u64
  | MoTimeouts u64 | MoCancel cell_id migration_cancel_reason | MoGc

fun run_op :: "migration_op \<Rightarrow> migration_manager \<Rightarrow> migration_manager" where
  "run_op (MoBegin i tgt h t) m = snd (begin_migration m i tgt h t)"
| "run_op (MoSent i h t) m = snd (bundle_sent m i h t)"
| "run_op (MoConfirm i h) m = snd (confirm_receipt m i h)"
| "run_op (MoTimeouts h) m = snd (check_migration_timeouts m h)"
| "run_op (MoCancel i r) m = snd (cancel_migration m i r)"
| "run_op MoGc m = snd (gc_completed m)"

definition manager_wf :: "migration_manager \<Rightarrow> bool" where
  "manager_wf m \<longleftrightarrow> distinct (map fst m)"

lemma fold_update_map_of:
  "map_of (fold (\<lambda>i. AList.update i (f i)) is m) = (\<lambda>j. if j \<in> set is then Some (f j) else map_of m j)"
  by (induction "is" arbitrary: m) (auto simp: update_conv' fun_eq_iff)

lemma fold_delete_map_of:
  "map_of (fold AList.delete is m) = (\<lambda>j. if j \<in> set is then None else map_of m j)"
  by (induction "is" arbitrary: m) (auto simp: delete_conv' fun_eq_iff)

lemma in_keys_where:
  assumes "manager_wf m"
  shows "j \<in> set (map fst (filter (\<lambda>(i, st). P st) m)) \<longleftrightarrow> (\<exists>st. map_of m j = Some st \<and> P st)"
proof
  assume "j \<in> set (map fst (filter (\<lambda>(i, st). P st) m))"
  then obtain st where "(j, st) \<in> set m" "P st" by auto
  then show "\<exists>st. map_of m j = Some st \<and> P st" using assms by (auto simp: manager_wf_def)
next
  assume "\<exists>st. map_of m j = Some st \<and> P st"
  then show "j \<in> set (map fst (filter (\<lambda>(i, st). P st) m))"
    by (force dest: map_of_SomeD)
qed

lemma timeouts_map_of:
  assumes "manager_wf m"
  shows "map_of (snd (check_migration_timeouts m h)) j =
    (case map_of m j of Some st \<Rightarrow> if timed_out h st then Some (MsCancelled j CancelTimeout) else Some st | None \<Rightarrow> None)"
  using in_keys_where [OF assms, of j "timed_out h"]
  by (cases "map_of m j") (simp_all add: check_migration_timeouts_def Let_def fold_update_map_of)

lemma gc_map_of:
  assumes "manager_wf m"
  shows "map_of (snd (gc_completed m)) j =
    (case map_of m j of Some st \<Rightarrow> if finished_state st then None else Some st | None \<Rightarrow> None)"
  using in_keys_where [OF assms, of j finished_state]
  by (cases "map_of m j") (simp_all add: gc_completed_def Let_def fold_delete_map_of)

lemma run_op_wf:
  assumes "manager_wf m"
  shows "manager_wf (run_op op m)"
proof -
  have "distinct (map fst (fold (\<lambda>i. AList.update i (f i)) is m))" for f :: "cell_id \<Rightarrow> migration_state" and "is"
    using assms unfolding manager_wf_def by (induction "is" arbitrary: m) (auto simp: distinct_update)
  moreover have "distinct (map fst (fold AList.delete is m))" for "is"
    using assms unfolding manager_wf_def by (induction "is" arbitrary: m) (auto simp: distinct_delete)
  ultimately show ?thesis
    using assms
    by (cases op)
       (auto simp: begin_migration_def bundle_sent_def confirm_receipt_def cancel_migration_def check_migration_timeouts_def
         gc_completed_def Let_def manager_wf_def distinct_update split: option.split migration_state.split)
qed

lemma timed_out_frozen: "timed_out h st \<Longrightarrow> frozen_state st"
  by (cases st) auto

text \<open>C32. The table of migrations keeps to the two-phase protocol. Whatever operation is called, and whether
  it succeeds or not, the state of every cell stays as it is or takes one step of the protocol: freeze
  (only from idle or a cancelled attempt), send (only from frozen), confirm (only after sending), give up
  (only while frozen, by timeout or cancellation), forget (only when finished); each cell keeps one entry,
  and after a sweep no cell is left frozen past its timeout.\<close>

theorem migration_protocol:
  assumes "manager_wf m"
  shows "manager_wf (run_op op m) \<and>
    (map_of (run_op op m) i = map_of m i \<or> protocol_step i (map_of m i) (map_of (run_op op m) i)) \<and>
    (map_of (run_op (MoTimeouts h) m) i = Some st \<longrightarrow> \<not> timed_out h st)"
proof (intro conjI)
  show "manager_wf (run_op op m)" by (rule run_op_wf [OF assms])
  show "map_of (run_op op m) i = map_of m i \<or> protocol_step i (map_of m i) (map_of (run_op op m) i)"
    by (cases op)
       (auto simp: begin_migration_def bundle_sent_def confirm_receipt_def cancel_migration_def
         timeouts_map_of [OF assms] gc_map_of [OF assms] update_conv'
         split: option.split migration_state.split intro: protocol_step.intros timed_out_frozen)
  show "map_of (run_op (MoTimeouts h) m) i = Some st \<longrightarrow> \<not> timed_out h st"
    by (auto simp: timeouts_map_of [OF assms] split: option.splits if_splits)
qed

theorem migration_protocol_witness:
  "map_of (run_op (MoTimeouts 50) (run_op (MoBegin 7 3 10 20) manager_new)) 7 = Some (MsCancelled 7 CancelTimeout) \<and>
   manager_wf (run_op (MoTimeouts 50) (run_op (MoBegin 7 3 10 20) manager_new))"
proof -
  have "manager_wf manager_new" by (simp add: manager_wf_def manager_new_def)
  then have "manager_wf (run_op (MoBegin 7 3 10 20) manager_new)" using migration_protocol by blast
  from migration_protocol [OF this, of "MoTimeouts 50"] show ?thesis
    by (simp add: begin_migration_def check_migration_timeouts_def manager_new_def Let_def saturating_sub_word_def)
qed

text \<open>A confirmed migration opens the source cell again: the test that keeps turns away only knows the two
  states before the confirmation. And a sweep forgets cancelled attempts, so that a late target is no
  longer told to refuse.\<close>

lemma confirmed_not_frozen:
  assumes "confirm_receipt m i h = (Inr (), m')"
  shows "is_frozen m i" "\<not> is_frozen m' i"
  using assms
  by (auto simp: confirm_receipt_def is_frozen_def update_conv' split: option.splits migration_state.splits)

lemma gc_forgets_cancelled: "manager_wf m \<Longrightarrow> \<not> is_cancelled (snd (gc_completed m)) i"
  by (auto simp: is_cancelled_def gc_map_of split: option.split migration_state.split)

lemma any_frozen_iff:
  assumes "manager_wf m"
  shows "any_frozen m \<longleftrightarrow> (\<exists>i. is_frozen m i)"
proof -
  have "is_frozen m i \<longleftrightarrow> i \<in> set (map fst (filter (\<lambda>(i, st). frozen_state st) m))" for i
    using in_keys_where [OF assms, of i frozen_state]
    by (cases "map_of m i") (simp_all add: is_frozen_def)
  then show ?thesis by (auto simp: any_frozen_def list_ex_iff)
qed

end
