(* ===== verification/EffectBinding.thy ===== *)
theory EffectBinding
  imports AuthorizeLaws
begin

text \<open>
  What the hash of an effect (\<open>turn/src/action.rs\<close>, \<open>Effect::hash\<close>) says about the effect. Signatures,
  receipts and the forest root cover effects through this hash only. For the effects of
  \<open>hash_bound\<close> the bytes hashed determine the effect. Outside are a grant, a spend and a mint across the
  bridge, because their encodings leave fields out or are not framed; a \<open>PipelinedSend\<close>, whose boxed
  action enters by \<open>Action::hash\<close> only, which covers neither the rights of a grant inside it nor the number
  of its arguments; and the other kinds whose encodings are not followed field by field here.
\<close>

section \<open>Encodings\<close>

lemma option_bytes_prefix [simp]:
  "option_bytes bytes32_bytes x @ r = option_bytes bytes32_bytes y @ s \<longleftrightarrow> x = y \<and> r = s"
  "option_bytes u64_bytes a @ r = option_bytes u64_bytes b @ s \<longleftrightarrow> a = b \<and> r = s"
  "option_bytes u32_bytes c @ r = option_bytes u32_bytes d @ s \<longleftrightarrow> c = d \<and> r = s"
  by (auto simp: option_bytes_def split: option.splits)

lemma option_u64_inject [simp]: "option_bytes u64_bytes a = option_bytes u64_bytes b \<longleftrightarrow> a = b"
  using option_bytes_prefix(2) [of a "[]" b "[]"] by simp

lemma auth_inject [simp]: "hash_auth_required x = hash_auth_required y \<longleftrightarrow> x = y"
  using auth_prefix [of x "[]" y "[]"] by simp

lemma refusal_prefix [simp]: "refusal_reason_bytes x @ r = refusal_reason_bytes y @ s \<longleftrightarrow> x = y \<and> r = s"
  by (cases x; cases y) (auto simp: refusal_reason_bytes_def)

definition short_bytes :: "u8 list option \<Rightarrow> bool" where
  "short_bytes x = (case x of None \<Rightarrow> True | Some b \<Rightarrow> length b < 2 ^ 64)"

lemma option_framed_inject:
  assumes "short_bytes x" "short_bytes y"
  shows "option_bytes framed x = option_bytes framed y \<longleftrightarrow> x = y"
proof (cases x; cases y)
  fix a b
  assume "x = Some a" "y = Some b"
  then show ?thesis using assms framed_prefix [of a b "[]" "[]"] by (simp add: option_bytes_def short_bytes_def)
qed (simp_all add: option_bytes_def)

lemma words_inject: "concat (map bytes32_bytes xs) = concat (map bytes32_bytes ys) \<longleftrightarrow> xs = ys"
proof
  assume "concat (map bytes32_bytes xs) = concat (map bytes32_bytes ys)"
  then show "xs = ys"
  proof (induction xs arbitrary: ys)
    case Nil
    show ?case
    proof (cases ys)
      case (Cons y zs)
      then have "bytes32_bytes y = []" using Nil by simp
      then show ?thesis using length_bytes32_bytes [of y] by simp
    qed simp
  next
    case (Cons x xs)
    then show ?case
    proof (cases ys)
      case Nil
      then have "bytes32_bytes x = []" using Cons.prems by simp
      then show ?thesis using length_bytes32_bytes [of x] by simp
    qed simp
  qed
qed simp

section \<open>Effects that their hash binds\<close>

fun hash_bound :: "effect \<Rightarrow> bool" where
  "hash_bound (ESetField _ _ _) = True"
| "hash_bound (ETransfer _ _ _) = True"
| "hash_bound (ERevokeCapability _ _) = True"
| "hash_bound (EEmitEvent _ _ _) = True"
| "hash_bound (EIncrementNonce _) = True"
| "hash_bound (ECreateCell _ _ _) = True"
| "hash_bound (ESetPermissions _ _) = True"
| "hash_bound (ENoteCreate _ _ _ note _ rp) \<longleftrightarrow> length note < 2 ^ 64 \<and> short_bytes rp"
| "hash_bound (EIntroduce _ _ _ _) = True"
| "hash_bound (ESpawnWithDelegation _ _ _) = True"
| "hash_bound (ERefreshDelegation _ _) = True"
| "hash_bound (ERevokeDelegation _) = True"
| "hash_bound (EExerciseViaCapability _ inner) = list_all hash_bound inner"
| "hash_bound (EMakeSovereign _) = True"
| "hash_bound (ECellSeal _ _) = True"
| "hash_bound (ECellUnseal _) = True"
| "hash_bound (EBurn _ _ _) = True"
| "hash_bound (EMint _ _ _) = True"
| "hash_bound (EAttenuateCapability _ _ _ _ _) = True"
| "hash_bound (ERefusal _ _ _ _) = True"
| "hash_bound (ECustom _ _ _) = True"
| "hash_bound _ = False"

text \<open>The inputs that hashing an effect gives to BLAKE3.\<close>

fun hashed_inputs :: "('a turn_crypto_scheme) \<Rightarrow> effect \<Rightarrow> u8 list set" where
  "hashed_inputs E (EExerciseViaCapability slot inner) =
     insert (effect_preimage E (EExerciseViaCapability slot inner)) (\<Union> (set (map (hashed_inputs E) inner)))"
| "hashed_inputs E eff = {effect_preimage E eff}"

lemma preimage_hashed: "effect_preimage E eff \<in> hashed_inputs E eff"
  by (cases eff) auto

lemma exercise_preimage:
  "effect_preimage E (EExerciseViaCapability slot inner) = effect_preimage E e' \<Longrightarrow> hash_bound e' \<Longrightarrow>
     \<exists>inner'. e' = EExerciseViaCapability slot inner' \<and> map (effect_hash E) inner = map (effect_hash E) inner'"
proof (cases e')
  case (EExerciseViaCapability slot' inner')
  assume "effect_preimage E (EExerciseViaCapability slot inner) = effect_preimage E e'"
  then have "slot = slot' \<and>
      concat (map bytes32_bytes (map (effect_hash E) inner)) = concat (map bytes32_bytes (map (effect_hash E) inner'))"
    by (simp add: EExerciseViaCapability effect_hash_def [abs_def] comp_def)
  then show ?thesis unfolding words_inject using EExerciseViaCapability by simp
qed auto

lemma leaf_preimage:
  assumes "effect_preimage E e = effect_preimage E e'" "hash_bound e" "hash_bound e'"
    and "\<And>slot inner. e \<noteq> EExerciseViaCapability slot inner"
  shows "e = e'"
  using assms
  by (cases e; cases e')
    (auto simp: words_inject framed_prefix option_framed_inject intro: permissions.equality)

lemma preimage_binding:
  "effect_preimage E e = effect_preimage E e' \<Longrightarrow> hash_bound e \<Longrightarrow> hash_bound e' \<Longrightarrow>
     inj_on (blake3 E) (hashed_inputs E e \<union> hashed_inputs E e') \<Longrightarrow> e = e'"
proof (induction e arbitrary: e')
  case (EExerciseViaCapability slot inner)
  then obtain inner' where e': "e' = EExerciseViaCapability slot inner'"
    and hashes: "map (effect_hash E) inner = map (effect_hash E) inner'"
    using exercise_preimage by blast
  have len: "length inner = length inner'" using hashes map_eq_imp_length_eq by blast
  have "inner = inner'"
  proof (rule nth_equalityI [OF len])
    fix k
    assume k: "k < length inner"
    let ?a = "inner ! k" and ?b = "inner' ! k"
    have mem: "?a \<in> set inner" "?b \<in> set inner'" using k len by simp_all
    have inj: "inj_on (blake3 E) (hashed_inputs E ?a \<union> hashed_inputs E ?b)"
      by (rule inj_on_subset [OF EExerciseViaCapability.prems(4)]) (use mem e' in auto)
    have "blake3 E (effect_preimage E ?a) = blake3 E (effect_preimage E ?b)"
      using hashes k len nth_map [of k inner "effect_hash E"] nth_map [of k inner' "effect_hash E"]
      by (simp add: effect_hash_def)
    then have "effect_preimage E ?a = effect_preimage E ?b"
      by (rule inj_onD [OF inj]) (simp_all add: preimage_hashed)
    then show "?a = ?b"
      by (rule EExerciseViaCapability.IH [OF mem(1) _ _ _ inj])
        (use mem EExerciseViaCapability.prems e' in \<open>auto simp: list_all_iff\<close>)
  qed
  then show ?case using e' by simp
qed (rule leaf_preimage; simp)+

text \<open>C35. What the hash of an effect binds. Take two effects of the kinds in \<open>hash_bound\<close>, exercises with
  any nesting of such effects included, and suppose BLAKE3 has no collision among the byte strings that
  hashing the two feeds to it. Then the hashes agree if and only if the effects do, in every field: none of
  these kinds can pass for another one under a signature. Grants, note spends, bridge mints and pipelined
  sends are not among these kinds; what the hash of a grant leaves open is
  \<open>grant_signature_covers_any_rights\<close> below.\<close>

theorem effect_hash_binding:
  assumes "hash_bound e" "hash_bound e'"
    and "inj_on (blake3 E) (hashed_inputs E e \<union> hashed_inputs E e')"
  shows "effect_hash E e = effect_hash E e' \<longleftrightarrow> e = e'"
proof
  assume "effect_hash E e = effect_hash E e'"
  then have "effect_preimage E e = effect_preimage E e'"
    using assms(3) preimage_hashed unfolding effect_hash_def by (blast dest: inj_onD)
  then show "e = e'" using assms preimage_binding by blast
qed simp

theorem effect_hash_binding_witness:
  "effect_hash (demo_turn_crypto\<lparr>blake3 := demo_length_hash\<rparr>) (EExerciseViaCapability 2 [ETransfer 1 2 5]) \<noteq>
   effect_hash (demo_turn_crypto\<lparr>blake3 := demo_length_hash\<rparr>) (EIncrementNonce 1)"
  by (subst effect_hash_binding) (simp_all add: demo_length_hash_def)

text \<open>The hash of a grant does not cover the rights granted. Two grants of a capability of the same
  target and slot have the same hash whatever permissions, facet, expiry or bearer token they carry; so a
  signature on an action that grants a restricted capability is a signature on the action that grants an
  unrestricted one.\<close>

theorem grant_signature_covers_any_rights:
  assumes "cr_target strong = cr_target weak" "cr_slot strong = cr_slot weak"
  shows "compute_signing_message E (a\<lparr>ta_effects := [EGrantCapability src dst strong]\<rparr>) f n =
    compute_signing_message E (a\<lparr>ta_effects := [EGrantCapability src dst weak]\<rparr>) f n"
  using assms by (simp add: compute_signing_message_def action_body_def effect_hash_def)

theorem grant_signature_covers_any_rights_witness:
  "compute_signing_message demo_turn_crypto (demo_action 1 AuUnchecked [EGrantCapability 1 2 (demo_cap 3 0 None None)]) 0 7 =
   compute_signing_message demo_turn_crypto (demo_action 1 AuUnchecked [EGrantCapability 1 2 (demo_cap 3 0 (Some 0) (Some 11))]) 0 7"
  using grant_signature_covers_any_rights [where E = demo_turn_crypto and a = "demo_action 1 AuUnchecked []"
      and strong = "demo_cap 3 0 None None" and weak = "demo_cap 3 0 (Some 0) (Some 11)" and src = 1 and dst = 2 and f = 0 and n = 7]
  by (simp add: demo_cap_def demo_action_def)

end
