(* ===== verification/Derivation.thy ===== *)
theory Derivation
  imports TurnAction "HOL-Library.Multiset"
begin

text \<open>
  The capability derivation tree (\<open>cell/src/derivation.rs\<close>) and the derivation records that a receipt
  carries (\<open>turn/src/executor/finalize.rs\<close>). The tree keeps, for every slot of every c-list, the slot it
  was derived from. Its walks towards the root follow parent links without a bound, so they are partial
  functions: the theorems say when they return and what. Nothing in the tree or in the records keeps the
  links acyclic, and a grant of a cell to itself closes a loop.
\<close>

section \<open>Edges, nodes, the tree\<close>

datatype derivation_type = DtGrant | DtIntroduce | DtDelegate | DtUnseal | DtAttenuate

record derivation_edge =
  de_source_cell :: cell_id
  de_source_slot :: u32
  de_derivation_type :: derivation_type
  de_parent_provenance :: bytes32

fun derivation_type_tag :: "derivation_type \<Rightarrow> u8" where
  "derivation_type_tag DtGrant = 0"
| "derivation_type_tag DtIntroduce = 1"
| "derivation_type_tag DtDelegate = 2"
| "derivation_type_tag DtUnseal = 3"
| "derivation_type_tag DtAttenuate = 4"

definition edge_hash :: "('a crypto_scheme) \<Rightarrow> derivation_edge \<Rightarrow> bytes32" where
  "edge_hash E e = blake3 E (ascii ''dregg-derivation-edge-v1'' @ bytes32_bytes (de_source_cell e) @
     u32_bytes (de_source_slot e) @ [derivation_type_tag (de_derivation_type e)] @
     bytes32_bytes (de_parent_provenance e))"

type_synonym cap_key = "cell_id \<times> u32"

record derivation_node =
  dn_cell :: cell_id
  dn_slot :: u32
  dn_parent :: "derivation_edge option"
  dn_created_at :: u64
  dn_created_by_turn :: bytes32

definition derivation_node_hash :: "('a crypto_scheme) \<Rightarrow> derivation_node \<Rightarrow> bytes32" where
  "derivation_node_hash E n =
     (let parent_provenance = (case dn_parent n of Some e \<Rightarrow> de_parent_provenance e | None \<Rightarrow> mint_provenance (blake3 E))
      in cap_provenance (blake3 E) (dn_cell n) (dn_slot n) parent_provenance (dn_created_by_turn n))"

definition node_key :: "derivation_node \<Rightarrow> cap_key" where
  "node_key n = (dn_cell n, dn_slot n)"

definition parent_key :: "derivation_node \<Rightarrow> cap_key option" where
  "parent_key n = map_option (\<lambda>e. (de_source_cell e, de_source_slot e)) (dn_parent n)"

record derivation_tree =
  dt_nodes :: "cap_key \<rightharpoonup> derivation_node"
  dt_children :: "cap_key \<rightharpoonup> cap_key list"

definition derivation_tree_new :: derivation_tree where
  "derivation_tree_new = \<lparr>dt_nodes = Map.empty, dt_children = Map.empty\<rparr>"

definition record_derivation :: "derivation_tree \<Rightarrow> derivation_node \<Rightarrow> derivation_tree" where
  "record_derivation T n =
     (let key = node_key n;
          kids = (case Option.bind (dt_nodes T key) parent_key of
              None \<Rightarrow> dt_children T
            | Some old_parent \<Rightarrow>
                (case dt_children T old_parent of
                   None \<Rightarrow> dt_children T
                 | Some ks \<Rightarrow> (dt_children T)(old_parent \<mapsto> filter (\<lambda>k. k \<noteq> key) ks)));
          kids = (case parent_key n of
              None \<Rightarrow> kids
            | Some p \<Rightarrow> kids(p \<mapsto> (case kids p of None \<Rightarrow> [] | Some ks \<Rightarrow> ks) @ [key]))
      in \<lparr>dt_nodes = (dt_nodes T)(key \<mapsto> n), dt_children = kids\<rparr>)"

section \<open>Walks\<close>

definition parent_of :: "derivation_tree \<Rightarrow> cap_key \<Rightarrow> cap_key option" where
  "parent_of T k = Option.bind (dt_nodes T k) parent_key"

partial_function (option) ancestors_loop ::
  "derivation_tree \<Rightarrow> cap_key \<Rightarrow> cap_key option \<Rightarrow> derivation_node list \<Rightarrow> derivation_node list option" where
  "ancestors_loop T start current res =
     (case current of
        None \<Rightarrow> Some res
      | Some key \<Rightarrow>
          (case dt_nodes T key of
             None \<Rightarrow> Some res
           | Some n \<Rightarrow> ancestors_loop T start (parent_key n) (if key \<noteq> start then res @ [n] else res)))"

definition ancestors :: "derivation_tree \<Rightarrow> cap_key \<Rightarrow> derivation_node list option" where
  "ancestors T k = ancestors_loop T k (Some k) []"

partial_function (option) descendants_loop ::
  "derivation_tree \<Rightarrow> cap_key list \<Rightarrow> derivation_node list \<Rightarrow> derivation_node list option" where
  "descendants_loop T queue res =
     (case queue of
        [] \<Rightarrow> Some res
      | key # queue \<Rightarrow>
          (let ns = List.map_filter (dt_nodes T) (case dt_children T key of Some ks \<Rightarrow> ks | None \<Rightarrow> [])
           in descendants_loop T (queue @ filter (\<lambda>k. dt_nodes T k \<noteq> None)
                (case dt_children T key of Some ks \<Rightarrow> ks | None \<Rightarrow> [])) (res @ ns)))"

definition descendants :: "derivation_tree \<Rightarrow> cap_key \<Rightarrow> derivation_node list option" where
  "descendants T k = descendants_loop T [k] []"

text \<open>The loop of the two tests: \<open>while let Some(key) = current\<close>, with a return when \<open>stop\<close> holds.\<close>

partial_function (option) climb :: "('k \<Rightarrow> 'k option) \<Rightarrow> ('k \<Rightarrow> bool) \<Rightarrow> 'k option \<Rightarrow> bool option" where
  "climb up stop current =
     (case current of
        None \<Rightarrow> Some False
      | Some key \<Rightarrow> if stop key then Some True else climb up stop (up key))"

definition is_descendant_of :: "derivation_tree \<Rightarrow> cap_key \<Rightarrow> cap_key \<Rightarrow> bool option" where
  "is_descendant_of T child anc = climb (parent_of T) (\<lambda>key. key = anc) (Some child)"

definition has_revoked_ancestor :: "derivation_tree \<Rightarrow> cap_key \<Rightarrow> cap_key set \<Rightarrow> bool option" where
  "has_revoked_ancestor T k R =
     (if k \<in> R then Some True else climb (parent_of T) (\<lambda>key. key \<in> R) (parent_of T k))"

partial_function (option) path_loop ::
  "derivation_tree \<Rightarrow> cap_key option \<Rightarrow> derivation_node list \<Rightarrow> derivation_node list option" where
  "path_loop T current path =
     (case current of
        None \<Rightarrow> Some path
      | Some key \<Rightarrow>
          (case dt_nodes T key of None \<Rightarrow> Some path | Some n \<Rightarrow> path_loop T (parent_key n) (path @ [n])))"

definition derivation_path :: "derivation_tree \<Rightarrow> cap_key \<Rightarrow> derivation_node list option" where
  "derivation_path T k = path_loop T (Some k) []"

definition path_commitment :: "('a crypto_scheme) \<Rightarrow> derivation_tree \<Rightarrow> cap_key \<Rightarrow> bytes32 option" where
  "path_commitment E T k =
     map_option (\<lambda>path. if path = [] then 0
       else foldr (\<lambda>n acc. derive_key E ''dregg-cdt-path-v1'' (bytes32_bytes (derivation_node_hash E n) @ bytes32_bytes acc))
              path 0) (derivation_path T k)"

definition revocation_hash :: "('a crypto_scheme) \<Rightarrow> cap_key \<Rightarrow> bytes32" where
  "revocation_hash E k = derive_key E ''dregg-cdt-revocation-v1'' (bytes32_bytes (fst k) @ u32_bytes (snd k))"

section \<open>Records\<close>

record derivation_record =
  dr_target_cell :: cell_id
  dr_target_slot :: u32
  dr_edge :: derivation_edge
  dr_created_at :: u64

definition derivation_record_hash :: "('a crypto_scheme) \<Rightarrow> derivation_record \<Rightarrow> bytes32" where
  "derivation_record_hash E r = blake3 E (ascii ''dregg-derivation-record-v1'' @ bytes32_bytes (dr_target_cell r) @
     u32_bytes (dr_target_slot r) @ bytes32_bytes (edge_hash E (dr_edge r)) @ u64_bytes (dr_created_at r))"

definition to_node :: "derivation_record \<Rightarrow> bytes32 \<Rightarrow> derivation_node" where
  "to_node r turn_hash = \<lparr>dn_cell = dr_target_cell r, dn_slot = dr_target_slot r, dn_parent = Some (dr_edge r),
     dn_created_at = dr_created_at r, dn_created_by_turn = turn_hash\<rparr>"

text \<open>The counter of slots runs over the whole turn, whatever cell receives the capability.\<close>

fun effect_record ::
  "('a crypto_scheme) \<Rightarrow> cell_id \<Rightarrow> u64 \<Rightarrow> effect \<Rightarrow> u32 \<Rightarrow> derivation_record option" where
  "effect_record E target ts (EGrantCapability src dst cap) slot_counter =
     Some \<lparr>dr_target_cell = dst, dr_target_slot = slot_counter,
       dr_edge = \<lparr>de_source_cell = src, de_source_slot = cr_slot cap, de_derivation_type = DtGrant,
         de_parent_provenance = cr_provenance cap\<rparr>, dr_created_at = ts\<rparr>"
| "effect_record E target ts (EIntroduce introducer recipient _ _) slot_counter =
     Some \<lparr>dr_target_cell = recipient, dr_target_slot = slot_counter,
       dr_edge = \<lparr>de_source_cell = introducer, de_source_slot = 0, de_derivation_type = DtIntroduce,
         de_parent_provenance = mint_provenance (blake3 E)\<rparr>, dr_created_at = ts\<rparr>"
| "effect_record E target ts (ESpawnWithDelegation pk tok _) slot_counter =
     Some \<lparr>dr_target_cell = derive_raw E pk tok, dr_target_slot = slot_counter,
       dr_edge = \<lparr>de_source_cell = target, de_source_slot = 0, de_derivation_type = DtDelegate,
         de_parent_provenance = mint_provenance (blake3 E)\<rparr>, dr_created_at = ts\<rparr>"
| "effect_record E target ts _ slot_counter = None"

definition push_record ::
  "('a crypto_scheme) \<Rightarrow> cell_id \<Rightarrow> u64 \<Rightarrow> effect \<Rightarrow> derivation_record list \<times> u32 \<Rightarrow> derivation_record list \<times> u32" where
  "push_record E target ts eff acc =
     (case effect_record E target ts eff (snd acc) of
        None \<Rightarrow> acc
      | Some r \<Rightarrow> (fst acc @ [r], snd acc + 1))"

fun collect_derivation_records_tree ::
  "('a crypto_scheme) \<Rightarrow> u64 \<Rightarrow> call_tree \<Rightarrow> derivation_record list \<times> u32 \<Rightarrow> derivation_record list \<times> u32" where
  "collect_derivation_records_tree E ts (CallTree a children) acc =
     fold (collect_derivation_records_tree E ts) children (fold (push_record E (ta_target a) ts) (ta_effects a) acc)"

definition collect_derivation_records ::
  "('a crypto_scheme) \<Rightarrow> u64 \<Rightarrow> call_forest \<Rightarrow> derivation_record list" where
  "collect_derivation_records E ts roots = fst (fold (collect_derivation_records_tree E ts) roots ([], 0))"

section \<open>What the walks compute\<close>

abbreviation above :: "('k \<Rightarrow> 'k option) \<Rightarrow> 'k \<Rightarrow> 'k \<Rightarrow> bool" where
  "above up \<equiv> (\<lambda>k p. up k = Some p)\<^sup>*\<^sup>*"

definition rooted :: "('k \<Rightarrow> 'k option) \<Rightarrow> 'k \<Rightarrow> bool" where
  "rooted up k \<longleftrightarrow> (\<exists>r. above up k r \<and> up r = None)"

lemma above_step: "up k = Some p \<Longrightarrow> above up k a \<longleftrightarrow> k = a \<or> above up p a"
  by (auto elim: converse_rtranclpE intro: converse_rtranclp_into_rtranclp)

lemma above_root: "up k = None \<Longrightarrow> above up k a \<longleftrightarrow> k = a"
  by (auto elim: converse_rtranclpE)

lemma rooted_step: "up k = Some p \<Longrightarrow> rooted up k = rooted up p"
  unfolding rooted_def by (auto simp: above_step)

lemma climb_hit:
  assumes "above up k a" "P a"
  shows "climb up P (Some k) = Some True"
  using assms by (induction rule: converse_rtranclp_induct) (simp_all add: climb.simps)

lemma climb_miss:
  assumes "above up k r" "up r = None" "\<forall>a. above up k a \<longrightarrow> \<not> P a"
  shows "climb up P (Some k) = Some False"
  using assms(1,3)
proof (induction rule: converse_rtranclp_induct)
  case base
  then show ?case using assms(2) by (simp add: climb.simps)
next
  case (step k p)
  then show ?case by (simp add: climb.simps above_step [where up = up, OF step.hyps(1)])
qed

lemma climb_returns:
  assumes "climb up P cur = Some b"
  shows "case cur of None \<Rightarrow> \<not> b | Some k \<Rightarrow> if b then \<exists>a. above up k a \<and> P a else rooted up k"
proof (rule climb.raw_induct [where P = "\<lambda>up P cur b. case cur of None \<Rightarrow> \<not> b
    | Some k \<Rightarrow> if b then \<exists>a. above up k a \<and> P a else rooted up k", OF _ assms])
  fix f and up :: "'a \<Rightarrow> 'a option" and P cur b
  assume IH: "\<And>up P cur b. f up P cur = Some b \<Longrightarrow>
      (case cur of None \<Rightarrow> \<not> b | Some k \<Rightarrow> if b then \<exists>a. above up k a \<and> P a else rooted up k)"
    and eq: "(case cur of None \<Rightarrow> Some False | Some key \<Rightarrow> if P key then Some True else f up P (up key)) = Some b"
  show "case cur of None \<Rightarrow> \<not> b | Some k \<Rightarrow> if b then \<exists>a. above up k a \<and> P a else rooted up k"
  proof (cases cur)
    case (Some k)
    show ?thesis
    proof (cases "P k")
      case False
      then have "f up P (up k) = Some b" using eq Some by simp
      from IH [OF this] show ?thesis
        by (cases "up k") (auto simp: Some rooted_step above_step rooted_def above_root)
    qed (use eq Some in auto)
  qed (use eq in simp)
qed

lemma climb_exact:
  "climb up P (Some k) =
     (if \<exists>a. P a \<and> above up k a then Some True else if rooted up k then Some False else None)"
proof (cases "climb up P (Some k)")
  case None
  then have none: "\<not> (\<exists>a. P a \<and> above up k a)" using climb_hit [of up k _ P] by auto
  then have "\<not> rooted up k" using None climb_miss [of up k _ P] unfolding rooted_def by fastforce
  then show ?thesis using None none by simp
next
  case (Some b)
  then show ?thesis using climb_returns [OF Some] climb_hit [of up k _ P] by (cases b) auto
qed

text \<open>The revocation check is exact wherever it returns. Walking up from a capability it answers yes
  if a capability it was derived from, at any distance, or the capability itself is revoked; it answers
  no if none is and the chain of parents ends; and in the remaining case, a chain of parents that never
  ends and meets no revoked entry, it does not return. The test for descent is exact in the same way.\<close>

theorem revoked_ancestor_exact:
  "has_revoked_ancestor T k R =
     (if \<exists>a. a \<in> R \<and> above (parent_of T) k a then Some True
      else if rooted (parent_of T) k then Some False else None) \<and>
   is_descendant_of T k anc =
     (if above (parent_of T) k anc then Some True
      else if rooted (parent_of T) k then Some False else None)"
proof
  have "has_revoked_ancestor T k R = climb (parent_of T) (\<lambda>key. key \<in> R) (Some k)"
    by (simp add: has_revoked_ancestor_def climb.simps [of _ _ "Some k"])
  then show "has_revoked_ancestor T k R =
     (if \<exists>a. a \<in> R \<and> above (parent_of T) k a then Some True
      else if rooted (parent_of T) k then Some False else None)"
    by (simp only: climb_exact)
  show "is_descendant_of T k anc =
     (if above (parent_of T) k anc then Some True
      else if rooted (parent_of T) k then Some False else None)"
    by (simp add: is_descendant_of_def climb_exact)
qed

section \<open>The index of children\<close>

definition kids :: "derivation_tree \<Rightarrow> cap_key \<Rightarrow> cap_key list" where
  "kids T p = (case dt_children T p of Some ks \<Rightarrow> ks | None \<Rightarrow> [])"

definition tree_ok :: "derivation_tree \<Rightarrow> bool" where
  "tree_ok T \<longleftrightarrow> (\<forall>p. distinct (kids T p)) \<and> (\<forall>p k. k \<in> set (kids T p) \<longleftrightarrow> parent_of T k = Some p) \<and>
     (\<forall>k n. dt_nodes T k = Some n \<longrightarrow> node_key n = k)"

lemma tree_okD:
  assumes "tree_ok T"
  shows "distinct (kids T p)" "k \<in> set (kids T p) \<longleftrightarrow> parent_of T k = Some p"
    "dt_nodes T k = Some n \<Longrightarrow> node_key n = k"
  using assms unfolding tree_ok_def by blast+

lemma tree_ok_new: "tree_ok derivation_tree_new"
  by (simp add: tree_ok_def derivation_tree_new_def kids_def parent_of_def)

lemma parent_record: "parent_of (record_derivation T n) = (parent_of T)(node_key n := parent_key n)"
  by (rule ext) (simp add: parent_of_def record_derivation_def Let_def)

lemma kids_record:
  assumes "tree_ok T"
  shows "kids (record_derivation T n) p =
    filter (\<lambda>k. k \<noteq> node_key n) (kids T p) @ (if parent_key n = Some p then [node_key n] else [])"
proof -
  have clear: "filter (\<lambda>k. k \<noteq> node_key n) (kids T q) = kids T q" if "parent_of T (node_key n) \<noteq> Some q" for q
    using tree_okD(2) [OF assms, of "node_key n" q] that by (intro filter_True) auto
  show ?thesis
  proof (cases "parent_of T (node_key n) = Some p")
    case True
    then show ?thesis
      by (cases "parent_key n") (auto simp: kids_def record_derivation_def Let_def parent_of_def split: option.split)
  next
    case False
    have "kids (record_derivation T n) p = kids T p @ (if parent_key n = Some p then [node_key n] else [])"
      using False by (cases "parent_of T (node_key n)"; cases "parent_key n")
        (auto simp: kids_def record_derivation_def Let_def parent_of_def split: option.split)
    then show ?thesis using clear [OF False] by simp
  qed
qed

lemma record_ok:
  assumes "tree_ok T"
  shows "tree_ok (record_derivation T n)"
  using tree_okD [OF assms]
  by (auto simp: tree_ok_def kids_record [OF assms] parent_record)
     (auto simp: record_derivation_def Let_def split: if_splits)

section \<open>Descendants\<close>

abbreviation child_rel :: "derivation_tree \<Rightarrow> (cap_key \<times> cap_key) set" where
  "child_rel T \<equiv> {(c, k). parent_of T c = Some k}"

lemma descendants_loop_step:
  assumes "tree_ok T"
  shows "descendants_loop T (k # queue) res =
    descendants_loop T (queue @ kids T k) (res @ map (the \<circ> dt_nodes T) (kids T k))"
proof -
  have some: "dt_nodes T c \<noteq> None" if "c \<in> set (kids T k)" for c
    using tree_okD(2) [OF assms, of c k] that by (cases "dt_nodes T c") (simp_all add: parent_of_def)
  have "filter (\<lambda>c. dt_nodes T c \<noteq> None) (kids T k) = kids T k" using some by (intro filter_True) blast
  moreover have "List.map_filter (dt_nodes T) (kids T k) = map (the \<circ> dt_nodes T) (kids T k)"
    using some by (simp add: List.map_filter_def)
  ultimately show ?thesis
    unfolding descendants_loop.simps [of T "k # queue"] by (simp add: kids_def Let_def)
qed

lemma kids_mult:
  assumes "tree_ok T"
  shows "(mset (queue @ kids T k), mset (k # queue)) \<in> mult (child_rel T)"
proof -
  have "(mset queue + mset (kids T k), mset queue + {#k#}) \<in> mult (child_rel T)"
    using tree_okD(2) [OF assms] by (intro one_step_implies_mult) auto
  then show ?thesis by simp
qed

lemma trancl_last: "(d, k) \<in> r\<^sup>+ \<longleftrightarrow> (d, k) \<in> r \<or> (\<exists>c. (c, k) \<in> r \<and> (d, c) \<in> r\<^sup>+)"
  by (auto elim: tranclE intro: trancl_into_trancl)

lemma below_kids:
  assumes "tree_ok T"
  shows "(d, k) \<in> (child_rel T)\<^sup>+ \<longleftrightarrow> d \<in> set (kids T k) \<or> (\<exists>c \<in> set (kids T k). (d, c) \<in> (child_rel T)\<^sup>+)"
  unfolding Bex_def tree_okD(2) [OF assms] by (subst trancl_last) simp

lemma descendants_loop_exact:
  assumes "tree_ok T" "wf (child_rel T)"
  shows "\<exists>xs. descendants_loop T queue res = Some (res @ xs) \<and>
    node_key ` set xs = {d. \<exists>k \<in> set queue. (d, k) \<in> (child_rel T)\<^sup>+}"
proof (induction "mset queue" arbitrary: queue res rule: wf_induct_rule [OF wf_mult [OF assms(2)]])
  case (1 queue)
  show ?case
  proof (cases queue)
    case Nil
    then show ?thesis by (simp add: descendants_loop.simps)
  next
    case (Cons k rest)
    let ?ns = "map (the \<circ> dt_nodes T) (kids T k)"
    obtain xs where xs: "descendants_loop T (rest @ kids T k) (res @ ?ns) = Some ((res @ ?ns) @ xs)"
        "node_key ` set xs = {d. \<exists>c \<in> set (rest @ kids T k). (d, c) \<in> (child_rel T)\<^sup>+}"
      using "1.hyps" [of "rest @ kids T k" "res @ ?ns"] kids_mult [OF assms(1), of rest k] Cons by auto
    have "node_key (the (dt_nodes T c)) = c" if "c \<in> set (kids T k)" for c
      using tree_okD(2,3) [OF assms(1)] that by (auto simp: parent_of_def split: bind_splits)
    then have "node_key ` set ?ns = set (kids T k)" by (force simp: image_iff)
    then have "node_key ` set (?ns @ xs) = {d. \<exists>k \<in> set queue. (d, k) \<in> (child_rel T)\<^sup>+}"
      using xs(2) below_kids [OF assms(1), of _ k] Cons by (simp add: image_Un) blast
    then show ?thesis
      using xs(1) by (simp add: Cons descendants_loop_step [OF assms(1)] del: map_map)
  qed
qed

text \<open>The index of children is kept, and the search for descendants ends. Recording a derivation, a
  second one for the same slot included, keeps the children of every slot the slots that name it as their
  parent, each once. In such a tree, as long as nothing is derived from itself, the breadth-first search
  returns, and what it lists are exactly the capabilities derived from the given one, at any distance.\<close>

theorem descendants_exact:
  assumes "tree_ok T" "wf (child_rel (record_derivation T n))"
  shows "tree_ok (record_derivation T n) \<and>
    (\<exists>xs. descendants (record_derivation T n) k = Some xs \<and>
       node_key ` set xs = {d. (d, k) \<in> (child_rel (record_derivation T n))\<^sup>+})"
  using descendants_loop_exact [OF record_ok [OF assms(1)] assms(2), of "[k]" "[]"] record_ok [OF assms(1)]
  by (simp add: descendants_def)

definition demo_child_node :: derivation_node where
  "demo_child_node = \<lparr>dn_cell = 2, dn_slot = 0, dn_parent = Some \<lparr>de_source_cell = 1, de_source_slot = 0,
     de_derivation_type = DtGrant, de_parent_provenance = 0\<rparr>, dn_created_at = 5, dn_created_by_turn = 9\<rparr>"

lemma demo_child_rel: "child_rel (record_derivation derivation_tree_new demo_child_node) = {((2, 0), (1, 0))}"
  by (auto simp: parent_record demo_child_node_def node_key_def parent_key_def derivation_tree_new_def parent_of_def
      split: if_splits)

theorem descendants_exact_witness:
  "\<exists>xs. descendants (record_derivation derivation_tree_new demo_child_node) (1, 0) = Some xs \<and>
     node_key ` set xs = {(2, 0)}"
proof -
  have w: "wf {((2 :: cell_id, 0 :: u32), (1 :: cell_id, 0 :: u32))}" by (simp add: wf_insert)
  have "{((2 :: cell_id, 0 :: u32), (1 :: cell_id, 0 :: u32))}\<^sup>+ = {((2, 0), (1, 0))}" by (auto elim: tranclE converse_tranclE)
  then show ?thesis
    using descendants_exact [OF tree_ok_new, of demo_child_node "(1, 0)"] w unfolding demo_child_rel by auto
qed

section \<open>A loop from a receipt\<close>

text \<open>A grant to oneself hangs the check. A turn whose first effect grants a capability in slot 0 of a
  cell to that same cell produces a derivation record that names itself as its parent. In every tree
  that this record has been entered into as the last one, the revocation check of that slot does not
  return, unless the slot itself is revoked.\<close>

theorem self_grant_hangs:
  assumes "cr_slot cap = 0" "(i, 0) \<notin> R"
    and "r = hd (collect_derivation_records E ts [CallTree (a\<lparr>ta_effects := [EGrantCapability i i cap]\<rparr>) []])"
  shows "has_revoked_ancestor (record_derivation T (to_node r turn_hash)) (i, 0) R = None"
proof -
  let ?T = "record_derivation T (to_node r turn_hash)"
  have p: "parent_of ?T (i, 0) = Some (i, 0)"
    using assms(1,3)
    by (simp add: collect_derivation_records_def push_record_def record_derivation_def parent_of_def
        to_node_def node_key_def parent_key_def Let_def)
  have "above (parent_of ?T) k x \<Longrightarrow> k = (i, 0) \<Longrightarrow> x = (i, 0)" for k x
    by (induction rule: rtranclp_induct) (simp_all add: p)
  then have only: "above (parent_of ?T) (i, 0) x \<longleftrightarrow> x = (i, 0)" for x by blast
  then have "\<not> rooted (parent_of ?T) (i, 0)" by (simp add: rooted_def p)
  moreover have "has_revoked_ancestor ?T (i, 0) R = climb (parent_of ?T) (\<lambda>key. key \<in> R) (Some (i, 0))"
    by (simp add: has_revoked_ancestor_def climb.simps [of _ _ "Some (i, 0)"])
  ultimately show ?thesis using assms(2) by (simp only: climb_exact only) auto
qed

text \<open>A capability to itself in slot 0 of cell 1.\<close>

definition demo_self_cap :: capability_ref where
  "demo_self_cap = \<lparr>cr_target = 1, cr_slot = 0, cr_permissions = AuthNone, cr_breadstuff = None, cr_expires_at = None,
     cr_allowed_effects = None, cr_stored_epoch = None, cr_provenance = 0\<rparr>"

definition demo_grant_action :: turn_action where
  "demo_grant_action = \<lparr>ta_target = 1, ta_method = 0, ta_args = [], ta_authorization = AuSignature 0 0,
     ta_preconditions = preconditions_default, ta_effects = [], ta_may_delegate = DmNone,
     ta_commitment_mode = CmFull, ta_balance_change = None, ta_witness_blobs = []\<rparr>"

theorem self_grant_hangs_witness:
  "has_revoked_ancestor (record_derivation derivation_tree_new (to_node (hd (collect_derivation_records demo_crypto 5
     [CallTree (demo_grant_action\<lparr>ta_effects := [EGrantCapability 1 1 demo_self_cap]\<rparr>) []])) 9)) (1, 0) {} = None"
  by (rule self_grant_hangs [where cap = demo_self_cap]) (simp_all add: demo_self_cap_def)

end
