(* ===== verification/NoteConservation.thy ===== *)
theory NoteConservation
  imports Derivation ExecutorUndo "HOL-Library.AList"
begin

text \<open>
  Conservation of notes over a turn (\<open>turn/src/executor/finalize.rs\<close>): whether the notes of a forest are
  in the clear, committed or mixed, the totals of the notes spent and created per asset, and the checks
  on committed values. The totals are kept in hash maps, here association lists; \<open>order\<close> is the order in
  which the set of asset types yields its elements. The verifier of a conservation proof is the argument
  \<open>verify_conservation\<close>, which includes decoding the proof.
\<close>

section \<open>Commitment modes\<close>

datatype note_commitment_mode = NcEmpty | NcCleartext | NcCommitted | NcMixed

definition note_flag :: "bytes32 option \<Rightarrow> bool \<times> bool \<Rightarrow> bool \<times> bool" where
  "note_flag vc flags = (if vc \<noteq> None then (True, snd flags) else (fst flags, True))"

fun detect_commitment_mode_effect :: "effect \<Rightarrow> bool \<times> bool \<Rightarrow> bool \<times> bool" where
  "detect_commitment_mode_effect (ENoteSpend _ _ _ _ _ vc) flags = note_flag vc flags"
| "detect_commitment_mode_effect (ENoteCreate _ _ _ _ vc _) flags = note_flag vc flags"
| "detect_commitment_mode_effect (EExerciseViaCapability _ inner) flags = fold detect_commitment_mode_effect inner flags"
| "detect_commitment_mode_effect _ flags = flags"

fun detect_commitment_mode_tree :: "call_tree \<Rightarrow> bool \<times> bool \<Rightarrow> bool \<times> bool" where
  "detect_commitment_mode_tree (CallTree a children) flags =
     fold detect_commitment_mode_tree children (fold detect_commitment_mode_effect (ta_effects a) flags)"

definition detect_commitment_mode :: "call_forest \<Rightarrow> note_commitment_mode" where
  "detect_commitment_mode roots =
     (case fold detect_commitment_mode_tree roots (False, False) of
        (False, False) \<Rightarrow> NcEmpty
      | (True, False) \<Rightarrow> NcCommitted
      | (False, True) \<Rightarrow> NcCleartext
      | (True, True) \<Rightarrow> NcMixed)"

section \<open>Notes in the clear\<close>

text \<open>A loop with \<open>?\<close> over a state.\<close>

primrec fold_ok :: "('x \<Rightarrow> 's \<Rightarrow> 'e + 's) \<Rightarrow> 'x list \<Rightarrow> 's \<Rightarrow> 'e + 's" where
  "fold_ok f [] s = Inr s"
| "fold_ok f (x # xs) s = and_then (f x s) (fold_ok f xs)"

lemma fold_ok_cong [fundef_cong]:
  "xs = ys \<Longrightarrow> s = t \<Longrightarrow> (\<And>x s. x \<in> set ys \<Longrightarrow> f x s = g x s) \<Longrightarrow> fold_ok f xs s = fold_ok g ys t"
proof (induction xs arbitrary: ys s t)
  case (Cons x xs)
  then show ?case by (cases "g x t") auto
qed simp

lemma fold_ok_append: "fold_ok f (xs @ ys) s = and_then (fold_ok f xs s) (fold_ok f ys)"
proof (induction xs arbitrary: s)
  case (Cons x xs)
  then show ?case by (cases "f x s") simp_all
qed simp

lemma fold_ok_concat: "fold_ok f (concat xss) s = fold_ok (fold_ok f) xss s"
proof (induction xss arbitrary: s)
  case (Cons xs xss)
  then show ?case by (cases "fold_ok f xs s") (simp_all add: fold_ok_append)
qed simp

type_synonym note_totals = "(u64 \<times> u64) list"

definition total_of :: "note_totals \<Rightarrow> u64 \<Rightarrow> u64" where
  "total_of m asset = (case map_of m asset of Some v \<Rightarrow> v | None \<Rightarrow> 0)"

definition add_total :: "note_totals \<Rightarrow> u64 \<Rightarrow> u64 \<Rightarrow> note_totals option" where
  "add_total m asset v =
     map_option (\<lambda>w. AList.update asset w m) (checked_add_word (total_of m asset) v)"

definition add_input :: "u64 \<Rightarrow> u64 \<Rightarrow> note_totals \<times> note_totals \<Rightarrow> u64 \<times> u64 \<times> u64 + note_totals \<times> note_totals" where
  "add_input asset v io = map_sum id (\<lambda>i. (i, snd io)) (ok_or (add_total (fst io) asset v) (asset, - 1, 0))"

definition add_output :: "u64 \<Rightarrow> u64 \<Rightarrow> note_totals \<times> note_totals \<Rightarrow> u64 \<times> u64 \<times> u64 + note_totals \<times> note_totals" where
  "add_output asset v io = map_sum id (\<lambda>oo. (fst io, oo)) (ok_or (add_total (snd io) asset v) (asset, 0, - 1))"

fun collect_note_effects_from_effect ::
  "effect \<Rightarrow> note_totals \<times> note_totals \<Rightarrow> u64 \<times> u64 \<times> u64 + note_totals \<times> note_totals" where
  "collect_note_effects_from_effect (ENoteSpend _ _ value asset_type _ _) io = add_input asset_type value io"
| "collect_note_effects_from_effect (ENoteCreate _ value asset_type _ _ _) io = add_output asset_type value io"
| "collect_note_effects_from_effect (EBridgeMint p) io =
     and_then (add_input (pn_asset_type p) (pn_value p) io) (add_output (pn_asset_type p) (pn_value p))"
| "collect_note_effects_from_effect (EExerciseViaCapability _ inner) io =
     fold_ok collect_note_effects_from_effect inner io"
| "collect_note_effects_from_effect _ io = Inr io"

fun collect_note_effects_tree ::
  "call_tree \<Rightarrow> note_totals \<times> note_totals \<Rightarrow> u64 \<times> u64 \<times> u64 + note_totals \<times> note_totals" where
  "collect_note_effects_tree (CallTree a children) io =
     (case fold_ok collect_note_effects_from_effect (ta_effects a) io of
        Inl e \<Rightarrow> Inl e | Inr io \<Rightarrow> fold_ok collect_note_effects_tree children io)"

definition collect_note_effects ::
  "call_forest \<Rightarrow> note_totals \<times> note_totals \<Rightarrow> u64 \<times> u64 \<times> u64 + note_totals \<times> note_totals" where
  "collect_note_effects roots io = fold_ok collect_note_effects_tree roots io"

section \<open>Committed notes\<close>

fun collect_committed_notes_from_effect ::
  "('a exec_crypto_scheme) \<Rightarrow> effect \<Rightarrow> bytes32 list \<times> bytes32 list \<Rightarrow> string + bytes32 list \<times> bytes32 list" where
  "collect_committed_notes_from_effect E (ENoteSpend _ _ _ _ _ (Some vc)) io =
     (if valid_point E vc then Inr (fst io @ [vc], snd io) else Inl ''NoteSpend value_commitment'')"
| "collect_committed_notes_from_effect E (ENoteCreate _ _ _ _ (Some vc) _) io =
     (if valid_point E vc then Inr (fst io, snd io @ [vc]) else Inl ''NoteCreate value_commitment'')"
| "collect_committed_notes_from_effect E (EExerciseViaCapability _ inner) io =
     fold_ok (collect_committed_notes_from_effect E) inner io"
| "collect_committed_notes_from_effect E _ io = Inr io"

fun collect_committed_notes_tree ::
  "('a exec_crypto_scheme) \<Rightarrow> call_tree \<Rightarrow> bytes32 list \<times> bytes32 list \<Rightarrow> string + bytes32 list \<times> bytes32 list" where
  "collect_committed_notes_tree E (CallTree a children) io =
     (case fold_ok (collect_committed_notes_from_effect E) (ta_effects a) io of
        Inl e \<Rightarrow> Inl e | Inr io \<Rightarrow> fold_ok (collect_committed_notes_tree E) children io)"

definition collect_committed_notes ::
  "('a exec_crypto_scheme) \<Rightarrow> call_forest \<Rightarrow> string + bytes32 list \<times> bytes32 list" where
  "collect_committed_notes E roots = fold_ok (collect_committed_notes_tree E) roots ([], [])"

fun verify_output_range_proof_effect :: "('a exec_crypto_scheme) \<Rightarrow> effect \<Rightarrow> string + unit" where
  "verify_output_range_proof_effect E (ENoteCreate _ _ _ _ (Some vc) rp) =
     (case rp of
        None \<Rightarrow> Inl ''no range_proof''
      | Some bytes \<Rightarrow> all_ok
          [ensure (bytes \<noteq> []) ''range_proof is empty'', ensure (valid_point E vc) ''value_commitment'',
           ensure (verify_range E vc bytes) ''range proof''])"
| "verify_output_range_proof_effect E (EExerciseViaCapability _ inner) =
     all_ok (map (verify_output_range_proof_effect E) inner)"
| "verify_output_range_proof_effect E _ = Inr ()"

fun verify_output_range_proofs_tree :: "('a exec_crypto_scheme) \<Rightarrow> call_tree \<Rightarrow> string + unit" where
  "verify_output_range_proofs_tree E (CallTree a children) =
     all_ok (map (verify_output_range_proof_effect E) (ta_effects a) @ map (verify_output_range_proofs_tree E) children)"

definition verify_output_range_proofs :: "('a exec_crypto_scheme) \<Rightarrow> call_forest \<Rightarrow> string + unit" where
  "verify_output_range_proofs E roots = all_ok (map (verify_output_range_proofs_tree E) roots)"

definition check_committed_conservation ::
  "('a exec_crypto_scheme) \<Rightarrow> (bytes32 list \<Rightarrow> bytes32 list \<Rightarrow> u8 list \<Rightarrow> bytes32 \<Rightarrow> bool) \<Rightarrow> call_forest \<Rightarrow>
     u8 list option \<Rightarrow> bytes32 \<Rightarrow> string + unit" where
  "check_committed_conservation E verify_conservation roots conservation_proof turn_hash =
     and_then (ok_or conservation_proof ''no conservation_proof'') (\<lambda>proof_bytes.
     and_then (collect_committed_notes E roots) (\<lambda>io.
     and_then (ensure (verify_conservation (fst io) (snd io) proof_bytes turn_hash) ''conservation proof invalid'') (\<lambda>_.
       verify_output_range_proofs E roots)))"

definition check_note_conservation ::
  "('a exec_crypto_scheme) \<Rightarrow> (bytes32 list \<Rightarrow> bytes32 list \<Rightarrow> u8 list \<Rightarrow> bytes32 \<Rightarrow> bool) \<Rightarrow> (u64 list \<Rightarrow> u64 list) \<Rightarrow>
     call_forest \<Rightarrow> u8 list option \<Rightarrow> bytes32 \<Rightarrow> u64 \<times> u64 \<times> u64 + unit" where
  "check_note_conservation E verify_conservation order roots conservation_proof turn_hash =
     (case detect_commitment_mode roots of
        NcCleartext \<Rightarrow>
          and_then (collect_note_effects roots ([], [])) (\<lambda>(inputs, outputs).
            check_all (\<lambda>asset. ensure (total_of inputs asset = total_of outputs asset)
                (asset, total_of inputs asset, total_of outputs asset))
              (order (remdups (map fst inputs @ map fst outputs))))
      | NcCommitted \<Rightarrow>
          map_sum (\<lambda>_. (0, 0, 0)) id (check_committed_conservation E verify_conservation roots conservation_proof turn_hash)
      | NcMixed \<Rightarrow> Inl (0, 0, 0)
      | NcEmpty \<Rightarrow> Inr ())"

section \<open>Exactness\<close>

text \<open>The effects of a forest, with those of exercises in their place.\<close>

fun leaf_effects :: "effect \<Rightarrow> effect list" where
  "leaf_effects (EExerciseViaCapability _ inner) = concat (map leaf_effects inner)"
| "leaf_effects eff = [eff]"

fun tree_leaves :: "call_tree \<Rightarrow> effect list" where
  "tree_leaves (CallTree a children) = concat (map leaf_effects (ta_effects a)) @ concat (map tree_leaves children)"

definition forest_leaves :: "call_forest \<Rightarrow> effect list" where
  "forest_leaves roots = concat (map tree_leaves roots)"

fun note_in :: "u64 \<Rightarrow> effect \<Rightarrow> nat" where
  "note_in asset (ENoteSpend _ _ value a _ _) = (if asset = a then unat value else 0)"
| "note_in asset (EBridgeMint p) = (if asset = pn_asset_type p then unat (pn_value p) else 0)"
| "note_in asset _ = 0"

fun note_out :: "u64 \<Rightarrow> effect \<Rightarrow> nat" where
  "note_out asset (ENoteCreate _ value a _ _ _) = (if asset = a then unat value else 0)"
| "note_out asset (EBridgeMint p) = (if asset = pn_asset_type p then unat (pn_value p) else 0)"
| "note_out asset _ = 0"

definition notes_spent :: "call_forest \<Rightarrow> u64 \<Rightarrow> nat" where
  "notes_spent roots asset = sum_list (map (note_in asset) (forest_leaves roots))"

definition notes_created :: "call_forest \<Rightarrow> u64 \<Rightarrow> nat" where
  "notes_created roots asset = sum_list (map (note_out asset) (forest_leaves roots))"

lemma and_then_Inr [simp]: "and_then r Inr = r"
  by (cases r) simp_all

lemma fold_ok_map: "fold_ok f (map g xs) s = fold_ok (\<lambda>x. f (g x)) xs s"
proof (induction xs arbitrary: s)
  case (Cons x xs)
  then show ?case by (cases "f (g x) s") simp_all
qed simp

lemma fold_ok_Nil [simp]: "fold_ok f [] = Inr"
  by (rule ext) simp

lemma collect_effect_leaves:
  "collect_note_effects_from_effect eff io = fold_ok collect_note_effects_from_effect (leaf_effects eff) io"
proof (induction eff arbitrary: io)
  case (EExerciseViaCapability slot inner)
  have "fold_ok collect_note_effects_from_effect inner io =
      fold_ok (\<lambda>e. fold_ok collect_note_effects_from_effect (leaf_effects e)) inner io"
    by (rule fold_ok_cong [OF refl refl]) (rule EExerciseViaCapability.IH)
  then show ?case by (simp add: fold_ok_concat fold_ok_map)
qed simp_all

lemma collect_effects_leaves:
  "fold_ok collect_note_effects_from_effect effs io =
     fold_ok collect_note_effects_from_effect (concat (map leaf_effects effs)) io"
  unfolding fold_ok_concat fold_ok_map by (rule fold_ok_cong [OF refl refl]) (rule collect_effect_leaves)

lemma collect_tree_leaves:
  "collect_note_effects_tree tree io = fold_ok collect_note_effects_from_effect (tree_leaves tree) io"
proof (induction tree arbitrary: io)
  case (CallTree a children)
  have "fold_ok collect_note_effects_tree children io =
      fold_ok collect_note_effects_from_effect (concat (map tree_leaves children)) io" for io
    unfolding fold_ok_concat fold_ok_map by (rule fold_ok_cong [OF refl refl]) (rule CallTree.IH)
  then show ?case
    using collect_effects_leaves [of "ta_effects a" io] by (simp add: fold_ok_append and_then_def split: sum.split)
qed

lemma collect_forest_leaves:
  "collect_note_effects roots io = fold_ok collect_note_effects_from_effect (forest_leaves roots) io"
  unfolding collect_note_effects_def forest_leaves_def fold_ok_concat fold_ok_map
  by (rule fold_ok_cong [OF refl refl]) (rule collect_tree_leaves)

text \<open>The totals after a run, and why a run stops.\<close>

definition adds :: "note_totals \<Rightarrow> (u64 \<Rightarrow> nat) \<Rightarrow> note_totals \<Rightarrow> bool" where
  "adds m d m' \<longleftrightarrow> (\<forall>asset. unat (total_of m' asset) = unat (total_of m asset) + d asset)"

definition overflows :: "note_totals \<Rightarrow> (u64 \<Rightarrow> nat) \<Rightarrow> bool" where
  "overflows m d \<longleftrightarrow> (\<exists>asset. 2 ^ 64 \<le> unat (total_of m asset) + d asset)"

lemma adds_trans: "adds m d m' \<Longrightarrow> adds m' e m'' \<Longrightarrow> adds m (\<lambda>a. d a + e a) m''"
  by (simp add: adds_def)

lemma overflows_later: "adds m d m' \<Longrightarrow> overflows m' e \<longleftrightarrow> overflows m (\<lambda>a. d a + e a)"
  by (simp add: adds_def overflows_def add.assoc)

lemma overflows_mono: "overflows m d \<Longrightarrow> overflows m (\<lambda>a. d a + e a)"
  unfolding overflows_def by (meson le_add1 add_left_mono le_trans)

lemma adds_zero [simp]: "adds m (\<lambda>_. 0) m"
  by (simp add: adds_def)

lemma add_total_adds:
  "add_total m asset v = Some m' \<Longrightarrow> adds m (\<lambda>a. if a = asset then unat v else 0) m'"
  "add_total m asset v = None \<Longrightarrow> overflows m (\<lambda>a. if a = asset then unat v else 0)"
  by (auto simp: add_total_def adds_def overflows_def total_of_def checked_add_word_def update_conv' unat_word_ariths
      split: if_splits)

definition exact_run :: "note_totals \<times> note_totals \<Rightarrow> (u64 \<Rightarrow> nat) \<Rightarrow> (u64 \<Rightarrow> nat) \<Rightarrow>
    u64 \<times> u64 \<times> u64 + note_totals \<times> note_totals \<Rightarrow> bool" where
  "exact_run io d e r =
     (case r of
        Inr io' \<Rightarrow> adds (fst io) d (fst io') \<and> adds (snd io) e (snd io')
      | Inl _ \<Rightarrow> overflows (fst io) d \<or> overflows (snd io) e)"

lemma exact_then:
  assumes "exact_run io d e r" "\<And>io'. r = Inr io' \<Longrightarrow> exact_run io' d' e' (k io')"
  shows "exact_run io (\<lambda>a. d a + d' a) (\<lambda>a. e a + e' a) (and_then r k)"
proof (cases r)
  case (Inl x)
  then show ?thesis using assms(1) by (auto simp: exact_run_def intro: overflows_mono)
next
  case (Inr io')
  then show ?thesis
    using assms(1) assms(2) [OF Inr]
    by (cases "k io'") (auto simp: exact_run_def overflows_later intro: adds_trans)
qed

lemma exact_input: "exact_run io (\<lambda>a. if a = asset then unat v else 0) (\<lambda>_. 0) (add_input asset v io)"
  by (cases "add_total (fst io) asset v") (auto simp: exact_run_def add_input_def add_total_adds)

lemma exact_output: "exact_run io (\<lambda>_. 0) (\<lambda>a. if a = asset then unat v else 0) (add_output asset v io)"
  by (cases "add_total (snd io) asset v") (auto simp: exact_run_def add_output_def add_total_adds)

lemma exact_mint:
  "exact_run io (\<lambda>a. if a = asset then unat v else 0) (\<lambda>a. if a = asset then unat v else 0)
     (and_then (add_input asset v io) (add_output asset v))"
  using exact_then [OF exact_input exact_output, of io asset v] by simp

lemma exact_none: "exact_run io (\<lambda>_. 0) (\<lambda>_. 0) (Inr io)"
  by (simp add: exact_run_def)

definition leaf :: "effect \<Rightarrow> bool" where
  "leaf eff \<longleftrightarrow> (\<forall>slot inner. eff \<noteq> EExerciseViaCapability slot inner)"

lemma exact_leaf:
  assumes "leaf eff"
  shows "exact_run io (\<lambda>a. note_in a eff) (\<lambda>a. note_out a eff) (collect_note_effects_from_effect eff io)"
  using assms by (cases eff) (simp_all add: leaf_def exact_input exact_output exact_mint exact_none)

lemma exact_leaves:
  assumes "list_all leaf effs"
  shows "exact_run io (\<lambda>a. sum_list (map (note_in a) effs)) (\<lambda>a. sum_list (map (note_out a) effs))
    (fold_ok collect_note_effects_from_effect effs io)"
  using assms
proof (induction effs arbitrary: io)
  case Nil
  show ?case by (simp add: exact_run_def)
next
  case (Cons eff effs)
  then show ?case by (auto intro!: exact_then exact_leaf)
qed

lemma leaves_leaf: "list_all leaf (leaf_effects eff)"
  by (induction eff) (auto simp: leaf_def list_all_iff)

lemma tree_leaves_leaf: "list_all leaf (tree_leaves tree)"
  using leaves_leaf by (induction tree) (fastforce simp: list_all_iff)

lemma exact_forest:
  "exact_run io (notes_spent roots) (notes_created roots) (collect_note_effects roots io)"
proof -
  have "list_all leaf (forest_leaves roots)"
    using tree_leaves_leaf by (fastforce simp: forest_leaves_def list_all_iff)
  from exact_leaves [OF this, of io] show ?thesis
    unfolding collect_forest_leaves notes_spent_def [abs_def] notes_created_def [abs_def] .
qed

lemma total_of_absent: "asset \<notin> fst ` set m \<Longrightarrow> total_of m asset = 0"
  by (simp add: total_of_def map_of_eq_None_iff [THEN iffD2])

text \<open>C34. Notes are conserved exactly. A turn whose notes are all in the clear passes the check if and only
  if for every asset type the notes it creates are worth what the notes it spends are worth (bridged
  notes counting on both sides, effects inside exercises and nested calls included) and that sum is
  below 2 to the 64: sums that would wrap are refused, never compared.\<close>

theorem note_conservation_exact:
  assumes "detect_commitment_mode roots = NcCleartext" "\<And>xs. set (order xs) = set xs"
  shows "check_note_conservation E vcf order roots prf h = Inr () \<longleftrightarrow>
    (\<forall>asset. notes_spent roots asset = notes_created roots asset \<and> notes_spent roots asset < 2 ^ 64)"
proof (cases "collect_note_effects roots ([], [])")
  case (Inl e)
  then have "overflows [] (notes_spent roots) \<or> overflows [] (notes_created roots)"
    using exact_forest [of "([], [])" roots] by (simp add: exact_run_def)
  then show ?thesis using assms(1) Inl
    by (auto simp: check_note_conservation_def overflows_def total_of_def not_less) (metis leD)+
next
  case (Inr io)
  obtain inputs outputs where io: "io = (inputs, outputs)" by fastforce
  have s: "unat (total_of inputs a) = notes_spent roots a" "unat (total_of outputs a) = notes_created roots a" for a
    using exact_forest [of "([], [])" roots] Inr by (simp_all add: exact_run_def adds_def io total_of_def)
  have lt: "notes_spent roots a < 2 ^ 64" for a
    using unsigned_less [of "total_of inputs a", where 'a = nat] by (simp add: s)
  have "check_note_conservation E vcf order roots prf h = Inr () \<longleftrightarrow>
      (\<forall>a \<in> set (map fst inputs @ map fst outputs). total_of inputs a = total_of outputs a)"
    using assms by (simp add: check_note_conservation_def Inr io check_all_iff)
  also have "\<dots> \<longleftrightarrow> (\<forall>a. total_of inputs a = total_of outputs a)"
    using total_of_absent [of _ inputs] total_of_absent [of _ outputs] by simp (metis UnCI)
  finally show ?thesis using lt by (simp add: word_unat_eq_iff s)
qed

definition demo_payment_notes :: call_forest where
  "demo_payment_notes =
     [CallTree (demo_grant_action\<lparr>ta_effects := [ENoteSpend 3 4 9 7 [] None, EExerciseViaCapability 0 [ENoteCreate 5 4 7 [] None None]]\<rparr>)
        [CallTree (demo_grant_action\<lparr>ta_effects := [ENoteCreate 6 5 7 [] None None]\<rparr>) []]]"

theorem note_conservation_exact_witness:
  "check_note_conservation demo_exec_crypto (\<lambda>_ _ _ _. False) id demo_payment_notes None 0 = Inr ()"
  by (subst note_conservation_exact)
    (simp_all add: demo_payment_notes_def detect_commitment_mode_def note_flag_def notes_spent_def notes_created_def forest_leaves_def)

end
