(* ===== verification/TurnRecord.thy ===== *)
theory TurnRecord
  imports Derivation
begin

text \<open>
  A turn and its receipt (\<open>turn/src/turn.rs\<close>, \<open>binding_proof.rs\<close>, \<open>routing.rs\<close>, and the functions of
  \<open>executor/finalize.rs\<close> that collect the parts of a receipt), with the bytes their hashes cover. The map of
  sovereign witnesses is an association list in the order in which the hash map yields its entries. A
  memo, a schema name and a field name are the bytes of their UTF-8 text. The state of a witness is the
  whole cell.
\<close>

section \<open>Turns\<close>

record sovereign_cell_witness =
  sw_cell_id :: cell_id
  sw_old_commitment :: bytes32
  sw_new_commitment :: bytes32
  sw_effects_hash :: bytes32
  sw_timestamp :: int
  sw_sequence :: u64
  sw_signature :: sig64
  sw_cell_state :: cell
  sw_transition_proof :: "u8 list option"

definition sovereign_signing_message ::
  "cell_id \<Rightarrow> bytes32 \<Rightarrow> bytes32 \<Rightarrow> bytes32 \<Rightarrow> int \<Rightarrow> u64 \<Rightarrow> u8 list" where
  "sovereign_signing_message i old_commitment new_commitment effs_hash timestamp sequence =
     ascii ''dregg-sovereign-witness-v1:'' @ bytes32_bytes i @ bytes32_bytes old_commitment @
     bytes32_bytes new_commitment @ bytes32_bytes effs_hash @ i64_bytes timestamp @ u64_bytes sequence"

definition sovereign_signing_message_for_federation ::
  "bytes32 \<Rightarrow> cell_id \<Rightarrow> bytes32 \<Rightarrow> bytes32 \<Rightarrow> bytes32 \<Rightarrow> int \<Rightarrow> u64 \<Rightarrow> u8 list" where
  "sovereign_signing_message_for_federation federation_id i old_commitment new_commitment effs_hash timestamp sequence =
     (if federation_id = 0
      then sovereign_signing_message i old_commitment new_commitment effs_hash timestamp sequence
      else ascii ''dregg-sovereign-witness-v2:'' @ bytes32_bytes federation_id @ bytes32_bytes i @
        bytes32_bytes old_commitment @ bytes32_bytes new_commitment @ bytes32_bytes effs_hash @
        i64_bytes timestamp @ u64_bytes sequence)"

record custom_program_proof =
  cp_vk_hash :: bytes32
  cp_proof_bytes :: "u8 list"
  cp_public_inputs :: "u32 list"

record effect_binding_proof =
  eb_effect_index :: u32
  eb_schema_id :: "u8 list"
  eb_proof_bytes :: "u8 list"
  eb_public_inputs :: "u32 list"

record effect_dependency =
  ed_producer_index :: u32
  ed_consumer_index :: u32
  ed_field_name :: "u8 list"
  ed_value_commit :: bytes32

record effect_witness_index =
  ew_effect_index :: u32
  ew_witness_index :: u32

record turn =
  tn_agent :: cell_id
  tn_nonce :: u64
  tn_call_forest :: call_forest
  tn_fee :: u64
  tn_memo :: "u8 list option"
  tn_valid_until :: "int option"
  tn_previous_receipt_hash :: "bytes32 option"
  tn_depends_on :: "bytes32 list"
  tn_conservation_proof :: "u8 list option"
  tn_sovereign_witnesses :: "(cell_id \<times> sovereign_cell_witness) list"
  tn_execution_proof :: "u8 list option"
  tn_execution_proof_cell :: "cell_id option"
  tn_execution_proof_new_commitment :: "bytes32 option"
  tn_custom_program_proofs :: "custom_program_proof list option"
  tn_effect_binding_proofs :: "effect_binding_proof list"
  tn_cross_effect_dependencies :: "effect_dependency list"
  tn_effect_witness_index_map :: "effect_witness_index list"

definition list_bytes :: "('v \<Rightarrow> u8 list) \<Rightarrow> 'v list \<Rightarrow> u8 list" where
  "list_bytes f xs = u64_bytes (of_nat (length xs)) @ concat (map f xs)"

definition binding_proof_bytes :: "effect_binding_proof \<Rightarrow> u8 list" where
  "binding_proof_bytes p = u32_bytes (eb_effect_index p) @ framed (eb_schema_id p) @ framed (eb_proof_bytes p) @
     list_bytes u32_bytes (eb_public_inputs p)"

definition dependency_bytes :: "effect_dependency \<Rightarrow> u8 list" where
  "dependency_bytes d = u32_bytes (ed_producer_index d) @ u32_bytes (ed_consumer_index d) @
     framed (ed_field_name d) @ bytes32_bytes (ed_value_commit d)"

definition witness_index_bytes :: "effect_witness_index \<Rightarrow> u8 list" where
  "witness_index_bytes w = u32_bytes (ew_effect_index w) @ u32_bytes (ew_witness_index w)"

definition sovereign_entry_bytes ::
  "('a cell_crypto_scheme) \<Rightarrow> cell_id \<times> sovereign_cell_witness \<Rightarrow> u8 list" where
  "sovereign_entry_bytes E e =
     (let w = snd e in
      bytes32_bytes (fst e) @ bytes32_bytes (sw_cell_id w) @ bytes32_bytes (sw_old_commitment w) @
      bytes32_bytes (sw_new_commitment w) @ bytes32_bytes (sw_effects_hash w) @ i64_bytes (sw_timestamp w) @
      u64_bytes (sw_sequence w) @ sig64_bytes (sw_signature w) @
      bytes32_bytes (compute_canonical_state_commitment E (sw_cell_state w)) @
      option_bytes framed (sw_transition_proof w))"

definition custom_proof_bytes :: "custom_program_proof \<Rightarrow> u8 list" where
  "custom_proof_bytes p = bytes32_bytes (cp_vk_hash p) @ framed (cp_proof_bytes p) @
     list_bytes u32_bytes (cp_public_inputs p)"

text \<open>Entries are sorted by the bytes of the cell id, which is the order of the words.\<close>

definition turn_preimage :: "('a cell_crypto_scheme) \<Rightarrow> turn \<Rightarrow> bytes32 \<Rightarrow> u8 list" where
  "turn_preimage E t forest_hash =
     ascii ''dregg-turn-v3:'' @ bytes32_bytes (tn_agent t) @ u64_bytes (tn_nonce t) @ bytes32_bytes forest_hash @
     u64_bytes (tn_fee t) @ option_bytes framed (tn_memo t) @ option_bytes i64_bytes (tn_valid_until t) @
     list_bytes bytes32_bytes (tn_depends_on t) @ option_bytes bytes32_bytes (tn_previous_receipt_hash t) @
     option_bytes framed (tn_execution_proof t) @ option_bytes bytes32_bytes (tn_execution_proof_cell t) @
     option_bytes bytes32_bytes (tn_execution_proof_new_commitment t) @
     list_bytes (sovereign_entry_bytes E) (sort_key fst (tn_sovereign_witnesses t)) @
     option_bytes (list_bytes custom_proof_bytes) (tn_custom_program_proofs t) @
     (if tn_effect_binding_proofs t = [] \<and> tn_cross_effect_dependencies t = [] \<and> tn_effect_witness_index_map t = []
      then []
      else 1 # list_bytes binding_proof_bytes (tn_effect_binding_proofs t) @
        list_bytes dependency_bytes (tn_cross_effect_dependencies t) @
        list_bytes witness_index_bytes (tn_effect_witness_index_map t))"

definition hash_with_forest :: "('a cell_crypto_scheme) \<Rightarrow> turn \<Rightarrow> bytes32 \<Rightarrow> bytes32" where
  "hash_with_forest E t forest_hash = blake3 E (turn_preimage E t forest_hash)"

definition turn_hash :: "('a turn_crypto_scheme) \<Rightarrow> turn \<Rightarrow> bytes32" where
  "turn_hash E t = hash_with_forest E t (forest_compute_hash E (tn_call_forest t))"

section \<open>Receipts\<close>

record routing_directive =
  rd_sender :: cell_id
  rd_target :: cell_id
  rd_authorizing_turn :: bytes32
  rd_expires :: "u64 option"

definition routing_directive_hash :: "('a crypto_scheme) \<Rightarrow> routing_directive \<Rightarrow> bytes32" where
  "routing_directive_hash E d = blake3 E (ascii ''dregg-routing-directive-v1'' @ bytes32_bytes (rd_sender d) @
     bytes32_bytes (rd_target d) @ bytes32_bytes (rd_authorizing_turn d) @ option_bytes u64_bytes (rd_expires d))"

record introduction_export =
  ie_target :: cell_id
  ie_recipient :: cell_id
  ie_authorizing_turn :: bytes32
  ie_expires :: "u64 option"

record emitted_event =
  em_cell :: cell_id
  em_topic :: bytes32
  em_data :: "field_element list"

datatype finality = Final | Tentative

text \<open>The witnesses of consumed capabilities enter a receipt by their hashes.\<close>

record turn_receipt =
  tr_turn_hash :: bytes32
  tr_forest_hash :: bytes32
  tr_pre_state_hash :: bytes32
  tr_post_state_hash :: bytes32
  tr_timestamp :: int
  tr_effects_hash :: bytes32
  tr_computrons_used :: u64
  tr_action_count :: nat
  tr_previous_receipt_hash :: "bytes32 option"
  tr_agent :: cell_id
  tr_federation_id :: bytes32
  tr_routing_directives :: "routing_directive list"
  tr_introduction_exports :: "introduction_export list"
  tr_derivation_records :: "derivation_record list"
  tr_emitted_events :: "emitted_event list"
  tr_executor_signature :: "u8 list option"
  tr_finality :: finality
  tr_was_encrypted :: bool
  tr_was_burn :: bool
  tr_consumed_capabilities :: "bytes32 list"

definition bool_byte :: "bool \<Rightarrow> u8" where
  "bool_byte b = (if b then 1 else 0)"

definition introduction_export_bytes :: "introduction_export \<Rightarrow> u8 list" where
  "introduction_export_bytes e = bytes32_bytes (ie_target e) @ bytes32_bytes (ie_recipient e) @
     bytes32_bytes (ie_authorizing_turn e) @ option_bytes u64_bytes (ie_expires e)"

definition event_bytes :: "emitted_event \<Rightarrow> u8 list" where
  "event_bytes e = bytes32_bytes (em_cell e) @ bytes32_bytes (em_topic e) @ concat (map bytes32_bytes (em_data e))"

definition receipt_preimage :: "('a crypto_scheme) \<Rightarrow> turn_receipt \<Rightarrow> u8 list" where
  "receipt_preimage E r =
     ascii ''dregg-receipt-v3'' @ bytes32_bytes (tr_turn_hash r) @ bytes32_bytes (tr_forest_hash r) @
     bytes32_bytes (tr_pre_state_hash r) @ bytes32_bytes (tr_post_state_hash r) @ i64_bytes (tr_timestamp r) @
     bytes32_bytes (tr_effects_hash r) @ u64_bytes (tr_computrons_used r) @
     u64_bytes (of_nat (tr_action_count r)) @ bytes32_bytes (tr_agent r) @ bytes32_bytes (tr_federation_id r) @
     option_bytes bytes32_bytes (tr_previous_receipt_hash r) @
     list_bytes (\<lambda>d. bytes32_bytes (routing_directive_hash E d)) (tr_routing_directives r) @
     list_bytes introduction_export_bytes (tr_introduction_exports r) @
     list_bytes (\<lambda>d. bytes32_bytes (derivation_record_hash E d)) (tr_derivation_records r) @
     list_bytes event_bytes (tr_emitted_events r) @
     [case tr_finality r of Final \<Rightarrow> 1 | Tentative \<Rightarrow> 2, bool_byte (tr_was_encrypted r), bool_byte (tr_was_burn r)] @
     list_bytes bytes32_bytes (tr_consumed_capabilities r)"

definition receipt_hash :: "('a crypto_scheme) \<Rightarrow> turn_receipt \<Rightarrow> bytes32" where
  "receipt_hash E r = blake3 E (receipt_preimage E r)"

definition canonical_executor_signed_message :: "('a crypto_scheme) \<Rightarrow> turn_receipt \<Rightarrow> u8 list" where
  "canonical_executor_signed_message E r = ascii ''executor-receipt-sig-v3:'' @ bytes32_bytes (receipt_hash E r)"

section \<open>The parts of a receipt\<close>

definition compute_effects_hash :: "('a crypto_scheme) \<Rightarrow> bytes32 list \<Rightarrow> bytes32" where
  "compute_effects_hash E hashes =
     (if hashes = [] then 0 else blake3 E (concat (map bytes32_bytes hashes)))"

fun effect_is_burn :: "effect \<Rightarrow> bool" where
  "effect_is_burn (EBurn _ _ _) = True"
| "effect_is_burn (EExerciseViaCapability _ inner) = list_ex effect_is_burn inner"
| "effect_is_burn _ = False"

fun tree_has_burn_effect :: "call_tree \<Rightarrow> bool" where
  "tree_has_burn_effect (CallTree a children) \<longleftrightarrow>
     list_ex effect_is_burn (ta_effects a) \<or> list_ex tree_has_burn_effect children"

definition forest_carries_burn :: "call_forest \<Rightarrow> bool" where
  "forest_carries_burn roots = list_ex tree_has_burn_effect roots"

fun emitted_event_of :: "journal_entry \<Rightarrow> emitted_event option" where
  "emitted_event_of (JEventEmitted i topic data) = Some \<lparr>em_cell = i, em_topic = topic, em_data = data\<rparr>"
| "emitted_event_of _ = None"

definition collect_emitted_events :: "ledger_journal \<Rightarrow> emitted_event list" where
  "collect_emitted_events J = List.map_filter emitted_event_of J"

text \<open>The sum of the height and the lifetime wraps in a release build.\<close>

fun routing_of :: "bytes32 \<Rightarrow> u64 \<Rightarrow> u64 \<Rightarrow> effect \<Rightarrow> routing_directive option" where
  "routing_of th block_height max_lifetime (EIntroduce _ recipient target _) =
     Some \<lparr>rd_sender = recipient, rd_target = target, rd_authorizing_turn = th,
       rd_expires = Some (block_height + max_lifetime)\<rparr>"
| "routing_of th block_height max_lifetime _ = None"

fun collect_routing_directives_tree :: "bytes32 \<Rightarrow> u64 \<Rightarrow> u64 \<Rightarrow> call_tree \<Rightarrow> routing_directive list" where
  "collect_routing_directives_tree th h l (CallTree a children) =
     List.map_filter (routing_of th h l) (ta_effects a) @ concat (map (collect_routing_directives_tree th h l) children)"

definition collect_routing_directives :: "call_forest \<Rightarrow> bytes32 \<Rightarrow> u64 \<Rightarrow> u64 \<Rightarrow> routing_directive list" where
  "collect_routing_directives roots th h l = concat (map (collect_routing_directives_tree th h l) roots)"

fun export_of :: "bytes32 \<Rightarrow> u64 \<Rightarrow> u64 \<Rightarrow> effect \<Rightarrow> introduction_export option" where
  "export_of th block_height max_lifetime (EIntroduce _ recipient target _) =
     Some \<lparr>ie_target = target, ie_recipient = recipient, ie_authorizing_turn = th,
       ie_expires = Some (block_height + max_lifetime)\<rparr>"
| "export_of th block_height max_lifetime _ = None"

fun collect_introduction_exports_tree :: "bytes32 \<Rightarrow> u64 \<Rightarrow> u64 \<Rightarrow> call_tree \<Rightarrow> introduction_export list" where
  "collect_introduction_exports_tree th h l (CallTree a children) =
     List.map_filter (export_of th h l) (ta_effects a) @ concat (map (collect_introduction_exports_tree th h l) children)"

definition collect_introduction_exports :: "call_forest \<Rightarrow> bytes32 \<Rightarrow> u64 \<Rightarrow> u64 \<Rightarrow> introduction_export list" where
  "collect_introduction_exports roots th h l = concat (map (collect_introduction_exports_tree th h l) roots)"

section \<open>What a receipt binds\<close>

text \<open>The events of a receipt are not framed. Two receipts that differ in their events alone have the
  same hash, and so the same signature of the executor: the topic and the data of a second event may be
  read as data of the first, and the other way round.\<close>

theorem receipt_events_ambiguous:
  "receipt_hash E (r\<lparr>tr_emitted_events := [\<lparr>em_cell = i, em_topic = t, em_data = [x, y]\<rparr>, \<lparr>em_cell = j, em_topic = u, em_data = []\<rparr>]\<rparr>) =
   receipt_hash E (r\<lparr>tr_emitted_events := [\<lparr>em_cell = i, em_topic = t, em_data = []\<rparr>, \<lparr>em_cell = x, em_topic = y, em_data = [j, u]\<rparr>]\<rparr>)"
  by (simp add: receipt_hash_def receipt_preimage_def list_bytes_def event_bytes_def)

end
