(* ===== verification/BudgetGate.thy ===== *)
theory BudgetGate
  imports CellState "HOL-Library.Multiset"
begin

text \<open>
  The budget gate of a silo (\<open>turn/src/budget_gate.rs\<close>): a slice of the budget with the digests of the debits
  made from it, and the gate that debits the fee of a turn and gives it back when the turn fails. The
  abstract view of a slice is the multiset of debits that were made and not given back.
\<close>

section \<open>Slices\<close>

record budget_slice =
  bs_ceiling :: u64
  bs_spent :: u64
  bs_debits :: "bytes32 list"
  bs_version :: u64

definition budget_slice_new :: "u64 \<Rightarrow> budget_slice" where
  "budget_slice_new ceiling = \<lparr>bs_ceiling = ceiling, bs_spent = 0, bs_debits = [], bs_version = 0\<rparr>"

definition slice_with_version :: "u64 \<Rightarrow> u64 \<Rightarrow> budget_slice" where
  "slice_with_version ceiling version = \<lparr>bs_ceiling = ceiling, bs_spent = 0, bs_debits = [], bs_version = version\<rparr>"

definition slice_remaining :: "budget_slice \<Rightarrow> u64" where
  "slice_remaining b = saturating_sub_word (bs_ceiling b) (bs_spent b)"

definition slice_has_budget :: "budget_slice \<Rightarrow> bool" where
  "slice_has_budget b \<longleftrightarrow> 0 < slice_remaining b"

definition slice_try_debit :: "u64 \<Rightarrow> bytes32 \<Rightarrow> budget_slice \<Rightarrow> (u64 + unit) \<times> budget_slice" where
  "slice_try_debit amount digest b =
     (if slice_remaining b < amount then (Inl (slice_remaining b), b)
      else (Inr (), b\<lparr>bs_spent := saturating_add_word (bs_spent b) amount, bs_debits := bs_debits b @ [digest]\<rparr>))"

text \<open>\<open>Vec::swap_remove\<close> puts the last element in the place of the one removed.\<close>

definition swap_remove :: "nat \<Rightarrow> 'a list \<Rightarrow> 'a list" where
  "swap_remove k xs = butlast (xs[k := last xs])"

primrec position :: "'a \<Rightarrow> 'a list \<Rightarrow> nat option" where
  "position x [] = None"
| "position x (y # ys) = (if y = x then Some 0 else map_option Suc (position x ys))"

definition slice_refund :: "u64 \<Rightarrow> bytes32 \<Rightarrow> budget_slice \<Rightarrow> bool \<times> budget_slice" where
  "slice_refund amount digest b =
     (case position digest (bs_debits b) of
        Some pos \<Rightarrow> (True, b\<lparr>bs_debits := swap_remove pos (bs_debits b), bs_spent := saturating_sub_word (bs_spent b) amount\<rparr>)
      | None \<Rightarrow> (False, b))"

definition slice_commit_debit :: "bytes32 \<Rightarrow> budget_slice \<Rightarrow> budget_slice" where
  "slice_commit_debit digest b = b"

section \<open>Gates\<close>

record budget_gate =
  bg_silo_id :: u32
  bg_slice :: budget_slice
  bg_expected_version :: u64

definition budget_gate_new :: "u32 \<Rightarrow> budget_slice \<Rightarrow> budget_gate" where
  "budget_gate_new silo_id b = \<lparr>bg_silo_id = silo_id, bg_slice = b, bg_expected_version = bs_version b\<rparr>"

definition compute_debit_digest :: "('a crypto_scheme) \<Rightarrow> bytes32 \<Rightarrow> bytes32" where
  "compute_debit_digest E th = derive_key E ''dregg-budget-gate debit-digest v1'' (bytes32_bytes th)"

definition gate_try_debit :: "('a crypto_scheme) \<Rightarrow> u64 \<Rightarrow> bytes32 \<Rightarrow> budget_gate \<Rightarrow> (u64 + bytes32) \<times> budget_gate" where
  "gate_try_debit E fee th g =
     (if bs_version (bg_slice g) \<noteq> bg_expected_version g then (Inl 0, g)
      else let digest = compute_debit_digest E th in
        case slice_try_debit fee digest (bg_slice g) of
          (Inl left, b) \<Rightarrow> (Inl left, g\<lparr>bg_slice := b\<rparr>)
        | (Inr _, b) \<Rightarrow> (Inr digest, g\<lparr>bg_slice := b\<rparr>))"

definition set_expected_version :: "u64 \<Rightarrow> budget_gate \<Rightarrow> budget_gate" where
  "set_expected_version version g = g\<lparr>bg_expected_version := version\<rparr>"

definition fast_unlock :: "u64 \<Rightarrow> bytes32 \<Rightarrow> budget_gate \<Rightarrow> budget_gate" where
  "fast_unlock fee digest g = g\<lparr>bg_slice := snd (slice_refund fee digest (bg_slice g))\<rparr>"

definition gate_commit_debit :: "bytes32 \<Rightarrow> budget_gate \<Rightarrow> budget_gate" where
  "gate_commit_debit digest g = g\<lparr>bg_slice := slice_commit_debit digest (bg_slice g)\<rparr>"

section \<open>A slice is a multiset of debits\<close>

lemma position_Some: "position x xs = Some k \<Longrightarrow> k < length xs \<and> xs ! k = x"
  by (induction xs arbitrary: k) (auto split: if_splits)

lemma position_None: "position x xs = None \<longleftrightarrow> x \<notin> set xs"
  by (induction xs) auto

lemma mset_swap_remove: "k < length xs \<Longrightarrow> mset (swap_remove k xs) = mset xs - {#xs ! k#}"
proof (cases xs rule: rev_cases)
  case (snoc ys y)
  assume k: "k < length xs"
  show ?thesis
  proof (cases "k < length ys")
    case True
    then have "swap_remove k xs = ys[k := y]"
      by (simp add: swap_remove_def snoc list_update_append)
    then show ?thesis using True by (simp add: snoc nth_append mset_update nth_mem add_mset_commute)
  next
    case False
    then have "k = length ys" using k snoc by simp
    then show ?thesis by (simp add: swap_remove_def snoc)
  qed
qed simp

definition debit_total :: "(bytes32 \<times> u64) multiset \<Rightarrow> nat" where
  "debit_total M = (\<Sum>d \<in># M. unat (snd d))"

definition slice_rel :: "budget_slice \<Rightarrow> (bytes32 \<times> u64) multiset \<Rightarrow> bool" where
  "slice_rel b M \<longleftrightarrow> mset (bs_debits b) = image_mset fst M \<and> unat (bs_spent b) = debit_total M \<and> bs_spent b \<le> bs_ceiling b"

lemma remaining_exact: "slice_rel b M \<Longrightarrow> unat (slice_remaining b) = unat (bs_ceiling b) - debit_total M"
  by (simp add: slice_rel_def slice_remaining_def saturating_sub_word_def unat_sub)

lemma debit_rel:
  assumes "slice_rel b M" "amount \<le> slice_remaining b"
  shows "slice_rel (snd (slice_try_debit amount digest b)) (add_mset (digest, amount) M)"
proof -
  have fits: "unat (bs_spent b) + unat amount \<le> unat (bs_ceiling b)"
    using assms by (auto simp: slice_rel_def slice_remaining_def saturating_sub_word_def word_le_nat_alt unat_sub)
  then have lt: "unat (bs_spent b) + unat amount < 2 ^ 64"
    using unsigned_less [of "bs_ceiling b", where 'a = nat] by (simp add: le_less_trans)
  then have "unat (bs_spent b + amount) = unat (bs_spent b) + unat amount" by (simp add: unat_word_ariths)
  then show ?thesis
    using assms fits lt
    by (simp add: slice_rel_def slice_try_debit_def saturating_add_word_def debit_total_def word_le_nat_alt not_less)
qed

lemma refund_rel:
  assumes "slice_rel b M" "(digest, amount) \<in># M"
  shows "fst (slice_refund amount digest b)"
    and "slice_rel (snd (slice_refund amount digest b)) (M - {#(digest, amount)#})"
proof -
  have "digest \<in># mset (bs_debits b)"
    using assms unfolding slice_rel_def by (metis fst_conv imageI set_image_mset)
  then obtain k where k: "position digest (bs_debits b) = Some k"
    using position_None [of digest "bs_debits b"] by (cases "position digest (bs_debits b)") auto
  have le: "amount \<le> bs_spent b"
    using assms unfolding slice_rel_def debit_total_def word_le_nat_alt
    by (metis (no_types, lifting) le_add1 multi_member_split image_mset_add_mset snd_conv sum_mset.add_mset)
  show "fst (slice_refund amount digest b)" by (simp add: slice_refund_def k)
  have "debit_total (M - {#(digest, amount)#}) = debit_total M - unat amount"
    using multi_member_split [OF assms(2)] by (auto simp: debit_total_def)
  moreover have "image_mset fst (M - {#(digest, amount)#}) = image_mset fst M - {#digest#}"
    using multi_member_split [OF assms(2)] by auto
  moreover have "bs_spent b - amount \<le> bs_ceiling b"
    using assms(1) le by (auto simp: slice_rel_def word_le_nat_alt unat_sub)
  ultimately show "slice_rel (snd (slice_refund amount digest b)) (M - {#(digest, amount)#})"
    using assms(1) le position_Some [OF k]
    by (simp add: slice_rel_def slice_refund_def k mset_swap_remove saturating_sub_word_def unat_sub)
qed

text \<open>The life of a gate: turns debit it, and each debit stays open until the turn fails and is unlocked with its
  fee or commits. The first multiset holds the open debits, the second the committed ones. Unlocking or
  committing a digest that is not there changes nothing.\<close>

inductive gate_run ::
  "('a crypto_scheme) \<Rightarrow> budget_gate \<Rightarrow> budget_gate \<Rightarrow> (bytes32 \<times> u64) multiset \<Rightarrow> (bytes32 \<times> u64) multiset \<Rightarrow> bool"
  for E g0 where
  start: "gate_run E g0 g0 {#} {#}"
| debit: "gate_run E g0 g M C \<Longrightarrow> gate_try_debit E fee th g = (Inr digest, g') \<Longrightarrow>
    gate_run E g0 g' (add_mset (digest, fee) M) C"
| refuse: "gate_run E g0 g M C \<Longrightarrow> gate_try_debit E fee th g = (Inl left, g') \<Longrightarrow> gate_run E g0 g' M C"
| unlock: "gate_run E g0 g M C \<Longrightarrow> (digest, fee) \<in># M \<Longrightarrow>
    gate_run E g0 (fast_unlock fee digest g) (M - {#(digest, fee)#}) C"
| unlock_unknown: "gate_run E g0 g M C \<Longrightarrow> digest \<notin> fst ` set_mset (M + C) \<Longrightarrow> gate_run E g0 (fast_unlock fee digest g) M C"
| commit: "gate_run E g0 g M C \<Longrightarrow> (digest, fee) \<in># M \<Longrightarrow>
    gate_run E g0 (gate_commit_debit digest g) (M - {#(digest, fee)#}) (add_mset (digest, fee) C)"
| commit_unknown: "gate_run E g0 g M C \<Longrightarrow> digest \<notin> fst ` set_mset M \<Longrightarrow> gate_run E g0 (gate_commit_debit digest g) M C"
| epoch: "gate_run E g0 g M C \<Longrightarrow> gate_run E g0 (set_expected_version version g) M C"

lemma gate_debit_eq:
  "gate_try_debit E fee th g =
     (if bs_version (bg_slice g) = bg_expected_version g \<and> fee \<le> slice_remaining (bg_slice g)
      then (Inr (compute_debit_digest E th),
        g\<lparr>bg_slice := snd (slice_try_debit fee (compute_debit_digest E th) (bg_slice g))\<rparr>)
      else (Inl (if bs_version (bg_slice g) = bg_expected_version g then slice_remaining (bg_slice g) else 0), g))"
  by (auto simp: gate_try_debit_def slice_try_debit_def Let_def)

lemma debit_ceiling: "bs_ceiling (snd (slice_try_debit fee digest b)) = bs_ceiling b"
  by (simp add: slice_try_debit_def)

lemma refund_ceiling: "bs_ceiling (snd (slice_refund fee digest b)) = bs_ceiling b"
  by (simp add: slice_refund_def split: option.split)

lemma refund_unknown: "slice_rel b M \<Longrightarrow> digest \<notin> fst ` set_mset M \<Longrightarrow> slice_refund fee digest b = (False, b)"
proof -
  assume "slice_rel b M" "digest \<notin> fst ` set_mset M"
  then have "digest \<notin># mset (bs_debits b)" by (simp only: slice_rel_def set_image_mset not_False_eq_True)
  then have "position digest (bs_debits b) = None" by (simp add: position_None)
  then show ?thesis by (simp add: slice_refund_def)
qed

lemma gate_run_rel:
  assumes "gate_run E (budget_gate_new silo (slice_with_version ceiling v)) g M C"
  shows "slice_rel (bg_slice g) (M + C) \<and> bs_ceiling (bg_slice g) = ceiling"
  using assms
proof (induction rule: gate_run.induct)
  case start
  then show ?case by (simp add: budget_gate_new_def slice_with_version_def slice_rel_def debit_total_def)
next
  case (debit g M C fee th digest g')
  then have "fee \<le> slice_remaining (bg_slice g)" "digest = compute_debit_digest E th"
    "bg_slice g' = snd (slice_try_debit fee digest (bg_slice g))"
    by (auto simp: gate_debit_eq split: if_splits)
  then show ?case using debit.IH debit_rel by (simp add: debit_ceiling)
next
  case (refuse g M C fee th left g')
  then show ?case by (simp add: gate_debit_eq split: if_splits)
next
  case (unlock g M C digest fee)
  then have "(digest, fee) \<in># M + C" "M + C - {#(digest, fee)#} = M - {#(digest, fee)#} + C"
    by (auto dest!: multi_member_split)
  then show ?case using unlock.IH refund_rel(2) [of "bg_slice g" "M + C" digest fee] by (simp add: fast_unlock_def refund_ceiling)
next
  case (unlock_unknown g M C digest fee)
  then show ?case using refund_unknown [of "bg_slice g" "M + C" digest fee] by (simp add: fast_unlock_def)
next
  case (commit g M C digest fee)
  have "M - {#(digest, fee)#} + add_mset (digest, fee) C = add_mset (digest, fee) (M - {#(digest, fee)#}) + C" by simp
  also have "\<dots> = M + C" using commit.hyps(2) by (simp only: insert_DiffM)
  finally show ?case using commit.IH by (simp only: gate_commit_debit_def slice_commit_debit_def) simp
qed (simp_all add: gate_commit_debit_def slice_commit_debit_def set_expected_version_def)

text \<open>C36. A budget gate never overspends. Start from a fresh slice and let turns debit the gate, be refused,
  and be unlocked with their fee after a failure or be committed after success, in any order of the turns
  and with changes of the expected epoch in between. Then the slice holds exactly the debits that are
  open or committed: their digests are the recorded ones, the sum of their fees is the amount spent, what
  is left is the rest of the ceiling, and a debit is accepted if and only if the expected epoch is the
  one of the slice and the fee fits into what is left.\<close>

theorem budget_gate_exact:
  assumes "gate_run E (budget_gate_new silo (slice_with_version ceiling v)) g M C"
  shows "mset (bs_debits (bg_slice g)) = image_mset fst (M + C) \<and>
    unat (bs_spent (bg_slice g)) = debit_total (M + C) \<and> debit_total (M + C) \<le> unat ceiling \<and>
    unat (slice_remaining (bg_slice g)) = unat ceiling - debit_total (M + C) \<and>
    ((\<exists>digest g'. gate_try_debit E fee th g = (Inr digest, g')) \<longleftrightarrow>
       bg_expected_version g = bs_version (bg_slice g) \<and> debit_total (M + C) + unat fee \<le> unat ceiling)"
proof -
  note inv = gate_run_rel [OF assms]
  then have rel: "slice_rel (bg_slice g) (M + C)" and ceil: "bs_ceiling (bg_slice g) = ceiling" by simp_all
  have le: "debit_total (M + C) \<le> unat ceiling" using rel ceil by (simp add: slice_rel_def word_le_nat_alt)
  have rem: "unat (slice_remaining (bg_slice g)) = unat ceiling - debit_total (M + C)"
    using remaining_exact [OF rel] ceil by simp
  have "fee \<le> slice_remaining (bg_slice g) \<longleftrightarrow> debit_total (M + C) + unat fee \<le> unat ceiling"
    using rem le by (auto simp: word_le_nat_alt)
  then have "(\<exists>digest g'. gate_try_debit E fee th g = (Inr digest, g')) \<longleftrightarrow>
      bg_expected_version g = bs_version (bg_slice g) \<and> debit_total (M + C) + unat fee \<le> unat ceiling"
    by (auto simp: gate_debit_eq)
  then show ?thesis using rel le rem by (simp add: slice_rel_def)
qed

text \<open>What a commit does not do: a committed debit can still be unlocked, and its fee is given back. The
  documentation says that \<open>commit_debit\<close> makes a debit permanent.\<close>

lemma committed_debit_refunded:
  assumes "gate_run E (budget_gate_new silo (slice_with_version ceiling v)) g M C" "(digest, fee) \<in># C"
  shows "unat (bs_spent (bg_slice (fast_unlock fee digest g))) = debit_total (M + C) - unat fee"
proof -
  have mem: "(digest, fee) \<in># M + C" using assms(2) by simp
  have "slice_rel (bg_slice (fast_unlock fee digest g)) (M + C - {#(digest, fee)#})"
    using refund_rel(2) [OF conjunct1 [OF gate_run_rel [OF assms(1)]] mem] by (simp add: fast_unlock_def)
  moreover have "debit_total (M + C) = debit_total (M + C - {#(digest, fee)#}) + unat fee"
    by (subst insert_DiffM [OF mem, symmetric]) (simp add: debit_total_def)
  ultimately show ?thesis by (simp add: slice_rel_def)
qed

definition demo_gate :: budget_gate where
  "demo_gate = budget_gate_new 1 (slice_with_version 100 3)"

theorem budget_gate_exact_witness:
  "unat (slice_remaining (bg_slice (snd (gate_try_debit demo_crypto 60 7 demo_gate)))) = 40"
proof -
  let ?g = "snd (gate_try_debit demo_crypto 60 7 demo_gate)"
  have "gate_run demo_crypto demo_gate ?g (add_mset (0, 60) {#}) {#}"
    by (rule gate_run.debit [OF gate_run.start, where th = 7])
      (simp add: demo_gate_def budget_gate_new_def slice_with_version_def gate_try_debit_def slice_try_debit_def
        slice_remaining_def saturating_sub_word_def compute_debit_digest_def demo_crypto_def)
  then show ?thesis using budget_gate_exact [of demo_crypto 1 100 3 ?g "{#(0, 60)#}" "{#}"]
    unfolding demo_gate_def [symmetric] by (simp add: debit_total_def)
qed

end
