(* ===== verification/Conflict.thy ===== *)
theory Conflict
  imports TurnRecord
begin

unbundle bit_operations_syntax

text \<open>
  Conflict sets (\<open>turn/src/conflict.rs\<close>): a Bloom filter of 256 bits over the cells that a turn reads and
  writes, and the walk over the call forest that collects these cells. The estimate of the false positive
  rate, a floating-point number for display, is left out. The counter of insertions wraps in a release build.
\<close>

section \<open>Bloom filters\<close>

definition BLOOM_K :: nat where
  "BLOOM_K = 8"

definition BLOOM_BITS :: nat where
  "BLOOM_BITS = 256"

definition BLOOM_BYTES :: nat where
  "BLOOM_BYTES = BLOOM_BITS div 8"

record conflict_set =
  cf_filter :: "u8 list"
  cf_cell_count :: "16 word"

definition conflict_set_new :: conflict_set where
  "conflict_set_new = \<lparr>cf_filter = replicate BLOOM_BYTES 0, cf_cell_count = 0\<rparr>"

definition hash_positions :: "('a crypto_scheme) \<Rightarrow> cell_id \<Rightarrow> nat list" where
  "hash_positions E i =
     (let hash_bytes = bytes32_bytes (blake3 E (bytes32_bytes i)) in
      map (\<lambda>k. unat (from_le_bytes (take 4 (drop (k * 4) hash_bytes)) :: u32) mod BLOOM_BITS) [0..<BLOOM_K])"

definition set_bit_at :: "nat \<Rightarrow> u8 list \<Rightarrow> u8 list" where
  "set_bit_at pos bs = bs[pos div 8 := (bs ! (pos div 8)) OR push_bit (pos mod 8) 1]"

definition conflict_insert :: "('a crypto_scheme) \<Rightarrow> cell_id \<Rightarrow> conflict_set \<Rightarrow> conflict_set" where
  "conflict_insert E i cs =
     \<lparr>cf_filter = fold set_bit_at (hash_positions E i) (cf_filter cs), cf_cell_count = cf_cell_count cs + 1\<rparr>"

definition may_conflict_with :: "conflict_set \<Rightarrow> conflict_set \<Rightarrow> bool" where
  "may_conflict_with cs other \<longleftrightarrow>
     list_ex (\<lambda>k. (cf_filter cs ! k) AND (cf_filter other ! k) \<noteq> 0) [0..<BLOOM_BYTES]"

definition conflict_commitment :: "('a crypto_scheme) \<Rightarrow> conflict_set \<Rightarrow> bytes32" where
  "conflict_commitment E cs =
     blake3 E (ascii ''dregg-conflict-set-v1'' @ cf_filter cs @ le_bytes 2 (cf_cell_count cs))"

definition popcount :: "conflict_set \<Rightarrow> nat" where
  "popcount cs = sum_list (map (\<lambda>b. length (filter (bit b) [0..<8])) (cf_filter cs))"

definition build_conflict_set :: "('a crypto_scheme) \<Rightarrow> cell_id list \<Rightarrow> cell_id list \<Rightarrow> conflict_set" where
  "build_conflict_set E read_cells write_cells =
     fold (conflict_insert E) write_cells (fold (conflict_insert E) read_cells conflict_set_new)"

section \<open>Access sets\<close>

fun inner_writes :: "effect \<Rightarrow> cell_id list" where
  "inner_writes (ESetField i _ _) = [i]"
| "inner_writes (ETransfer src dst _) = [src, dst]"
| "inner_writes (EIncrementNonce i) = [i]"
| "inner_writes _ = []"

text \<open>The cells an effect reads and those it writes.\<close>

fun effect_access :: "('a crypto_scheme) \<Rightarrow> effect \<Rightarrow> cell_id list \<times> cell_id list" where
  "effect_access E (ESetField i _ _) = ([], [i])"
| "effect_access E (ETransfer src dst _) = ([], [src, dst])"
| "effect_access E (EGrantCapability src dst _) = ([src], [dst])"
| "effect_access E (ERevokeCapability i _) = ([], [i])"
| "effect_access E (EIncrementNonce i) = ([], [i])"
| "effect_access E (ECreateCell pk tok _) = ([], [derive_raw E pk tok])"
| "effect_access E (ESetPermissions i _) = ([], [i])"
| "effect_access E (ESetVerificationKey i _) = ([], [i])"
| "effect_access E (ESetProgram i _) = ([], [i])"
| "effect_access E (EEmitEvent i _ _) = ([i], [])"
| "effect_access E (EExerciseViaCapability _ inner) = ([], concat (map inner_writes inner))"
| "effect_access E (ECustom i _ _) = ([], [i])"
| "effect_access E _ = ([], [])"

fun extract_tree_access :: "('a crypto_scheme) \<Rightarrow> call_tree \<Rightarrow> cell_id list \<times> cell_id list" where
  "extract_tree_access E (CallTree a children) =
     (let accesses = map (effect_access E) (ta_effects a); below = map (extract_tree_access E) children in
      (ta_target a # concat (map fst accesses) @ concat (map fst below),
       concat (map snd accesses) @ (if ta_balance_change a \<noteq> None then [ta_target a] else []) @
       concat (map snd below)))"

text \<open>Sorting and removing neighbours leaves each cell once.\<close>

definition extract_access_sets :: "('a crypto_scheme) \<Rightarrow> cell_id \<Rightarrow> call_forest \<Rightarrow> cell_id list \<times> cell_id list" where
  "extract_access_sets E agent roots =
     (let accesses = map (extract_tree_access E) roots in
      (remdups_adj (sort (agent # concat (map fst accesses))),
       remdups_adj (sort (agent # concat (map snd accesses)))))"

section \<open>No false negatives\<close>

definition has_bit :: "u8 list \<Rightarrow> nat \<Rightarrow> bool" where
  "has_bit bs pos \<longleftrightarrow> bit (bs ! (pos div 8)) (pos mod 8)"

lemma length_set_bit [simp]: "length (set_bit_at pos bs) = length bs"
  by (simp add: set_bit_at_def)

lemma has_bit_set_bit:
  assumes "pos div 8 < length bs"
  shows "has_bit (set_bit_at pos bs) q \<longleftrightarrow> q = pos \<or> has_bit bs q"
proof (cases "q div 8 = pos div 8")
  case True
  have "q mod 8 = pos mod 8 \<longleftrightarrow> q = pos" using True by (metis div_mult_mod_eq)
  then show ?thesis using True assms
    by (auto simp: has_bit_def set_bit_at_def bit_or_iff bit_push_bit_iff bit_1_iff push_bit_of_1 bit_exp_iff)
next
  case False
  then have "q \<noteq> pos" by auto
  then show ?thesis using False by (simp add: has_bit_def set_bit_at_def)
qed

lemma fold_set_bit:
  "\<forall>p \<in> set ps. p div 8 < length bs \<Longrightarrow>
     length (fold set_bit_at ps bs) = length bs \<and> (has_bit (fold set_bit_at ps bs) q \<longleftrightarrow> q \<in> set ps \<or> has_bit bs q)"
  by (induction ps arbitrary: bs) (auto simp: has_bit_set_bit)

lemma positions_small: "p \<in> set (hash_positions E i) \<Longrightarrow> p < 256"
  by (auto simp: hash_positions_def BLOOM_BITS_def)

lemma positions_nonempty: "hash_positions E i \<noteq> []"
  by (simp add: hash_positions_def BLOOM_K_def Let_def)

definition filter_of :: "('a crypto_scheme) \<Rightarrow> cell_id set \<Rightarrow> conflict_set \<Rightarrow> bool" where
  "filter_of E S cs \<longleftrightarrow> length (cf_filter cs) = 32 \<and>
     (\<forall>q. q < 256 \<longrightarrow> (has_bit (cf_filter cs) q \<longleftrightarrow> (\<exists>i \<in> S. q \<in> set (hash_positions E i))))"

lemma filter_of_new: "filter_of E {} conflict_set_new"
  by (auto simp: filter_of_def conflict_set_new_def BLOOM_BYTES_def BLOOM_BITS_def has_bit_def)

lemma filter_of_insert: "filter_of E S cs \<Longrightarrow> filter_of E (insert i S) (conflict_insert E i cs)"
  using fold_set_bit [of "hash_positions E i" "cf_filter cs"] positions_small [of _ E i]
  by (fastforce simp: filter_of_def conflict_insert_def)

lemma filter_of_fold: "filter_of E S cs \<Longrightarrow> filter_of E (set xs \<union> S) (fold (conflict_insert E) xs cs)"
proof (induction xs arbitrary: S cs)
  case (Cons x xs)
  then show ?case using Cons.IH [OF filter_of_insert [OF Cons.prems, of x]] by simp
qed simp

lemma filter_of_build: "filter_of E (set rs \<union> set ws) (build_conflict_set E rs ws)"
  unfolding build_conflict_set_def
  using filter_of_fold [where xs = ws, OF filter_of_fold [where xs = rs, OF filter_of_new [of E]]] by (simp add: Un_commute)

lemma may_conflict_bits:
  assumes "filter_of E S cs" "filter_of E S' cs'"
  shows "may_conflict_with cs cs' \<longleftrightarrow>
    (\<exists>i \<in> S. \<exists>j \<in> S'. set (hash_positions E i) \<inter> set (hash_positions E j) \<noteq> {})"
proof
  assume "may_conflict_with cs cs'"
  then obtain k where k: "k < 32" "(cf_filter cs ! k) AND (cf_filter cs' ! k) \<noteq> 0"
    by (auto simp: may_conflict_with_def list_ex_iff BLOOM_BYTES_def BLOOM_BITS_def)
  then obtain n where n: "bit ((cf_filter cs ! k) AND (cf_filter cs' ! k)) n"
    using bit_eq_iff [of "(cf_filter cs ! k) AND (cf_filter cs' ! k)" 0] by auto
  then have "n < 8" using bit_imp_le_length by fastforce
  then have "has_bit (cf_filter cs) (8 * k + n)" "has_bit (cf_filter cs') (8 * k + n)" "8 * k + n < 256"
    using n k(1) by (simp_all add: has_bit_def bit_and_iff)
  then show "\<exists>i \<in> S. \<exists>j \<in> S'. set (hash_positions E i) \<inter> set (hash_positions E j) \<noteq> {}"
    using assms unfolding filter_of_def by blast
next
  assume "\<exists>i \<in> S. \<exists>j \<in> S'. set (hash_positions E i) \<inter> set (hash_positions E j) \<noteq> {}"
  then obtain i j q where q: "i \<in> S" "j \<in> S'" "q \<in> set (hash_positions E i)" "q \<in> set (hash_positions E j)" by blast
  have lt: "q < 256" using positions_small q(3) by blast
  have "has_bit (cf_filter cs) q" "has_bit (cf_filter cs') q" using assms q lt unfolding filter_of_def by blast+
  then have "bit ((cf_filter cs ! (q div 8)) AND (cf_filter cs' ! (q div 8))) (q mod 8)"
    by (simp add: has_bit_def bit_and_iff)
  then have "(cf_filter cs ! (q div 8)) AND (cf_filter cs' ! (q div 8)) \<noteq> 0" by (metis bit_0_eq bot_apply bot_bool_def)
  moreover have "q div 8 < 32" using lt by auto
  ultimately show "may_conflict_with cs cs'"
    by (auto simp: may_conflict_with_def list_ex_iff BLOOM_BYTES_def BLOOM_BITS_def intro!: bexI [of _ "q div 8"])
qed

definition turn_conflict_set :: "('a crypto_scheme) \<Rightarrow> cell_id \<Rightarrow> call_forest \<Rightarrow> conflict_set" where
  "turn_conflict_set E agent roots =
     (let (rs, ws) = extract_access_sets E agent roots in build_conflict_set E rs ws)"

definition accessed :: "('a crypto_scheme) \<Rightarrow> cell_id \<Rightarrow> call_forest \<Rightarrow> cell_id set" where
  "accessed E agent roots =
     (let (rs, ws) = extract_access_sets E agent roots in set rs \<union> set ws)"

lemma turn_conflict_bits:
  "may_conflict_with (turn_conflict_set E a roots) (turn_conflict_set E b roots') \<longleftrightarrow>
     (\<exists>i \<in> accessed E a roots. \<exists>j \<in> accessed E b roots'. set (hash_positions E i) \<inter> set (hash_positions E j) \<noteq> {})"
  unfolding turn_conflict_set_def accessed_def
  by (simp add: split_beta may_conflict_bits [OF filter_of_build filter_of_build])

lemma accessed_agent: "a \<in> accessed E a roots"
  by (simp add: accessed_def extract_access_sets_def Let_def set_insort_key)

lemma accessed_tree:
  "accessed E a roots = {a} \<union> (\<Union>t \<in> set roots. set (fst (extract_tree_access E t)) \<union> set (snd (extract_tree_access E t)))"
  by (auto simp: accessed_def extract_access_sets_def Let_def set_insort_key)

text \<open>C37. The filter is exact on bit positions and has no false negatives. Two turns are reported as possibly
  in conflict if and only if a cell that the walk over the one collects and a cell that the walk over the
  other collects share a bit position of the filter. So two turns are always reported when both walks
  collect some cell, when they have the same agent, or when an action of each has the same target.\<close>

theorem conflict_no_false_negative:
  "(may_conflict_with (turn_conflict_set E a roots) (turn_conflict_set E b roots') \<longleftrightarrow>
     (\<exists>i \<in> accessed E a roots. \<exists>j \<in> accessed E b roots'. set (hash_positions E i) \<inter> set (hash_positions E j) \<noteq> {})) \<and>
   (accessed E a roots \<inter> accessed E b roots' \<noteq> {} \<longrightarrow>
     may_conflict_with (turn_conflict_set E a roots) (turn_conflict_set E b roots')) \<and>
   may_conflict_with (turn_conflict_set E a roots) (turn_conflict_set E a roots') \<and>
   may_conflict_with (turn_conflict_set E a (CallTree act ts # roots)) (turn_conflict_set E b (CallTree (act'\<lparr>ta_target := ta_target act\<rparr>) ts' # roots'))"
proof -
  have shared: "may_conflict_with (turn_conflict_set E a roots) (turn_conflict_set E b roots')"
    if "i \<in> accessed E a roots" "i \<in> accessed E b roots'" for a b i roots roots'
    using that positions_nonempty [of E i] unfolding turn_conflict_bits by (auto intro!: bexI [of _ i])
  have target: "ta_target act \<in> accessed E a (CallTree act ts # roots)" for act a ts roots
    by (simp add: accessed_tree Let_def)
  show ?thesis
  proof (intro conjI impI)
    assume "accessed E a roots \<inter> accessed E b roots' \<noteq> {}"
    then show "may_conflict_with (turn_conflict_set E a roots) (turn_conflict_set E b roots')" using shared by blast
  next
    show "may_conflict_with (turn_conflict_set E a roots) (turn_conflict_set E a roots')"
      by (rule shared [OF accessed_agent accessed_agent])
  next
    show "may_conflict_with (turn_conflict_set E a (CallTree act ts # roots))
        (turn_conflict_set E b (CallTree (act'\<lparr>ta_target := ta_target act\<rparr>) ts' # roots'))"
      using shared [OF target] target [of "act'\<lparr>ta_target := ta_target act\<rparr>" b ts' roots'] by simp
  qed (rule turn_conflict_bits)
qed

text \<open>A hash for examples: the first position of the filter, or the second for inputs that end in two.\<close>

definition demo_fill_hash :: "u8 list \<Rightarrow> bytes32" where
  "demo_fill_hash bs = (if last bs = 2 then 454086624460063511464984254936031011189294057512315937409637584344757371137 else 0)"

text \<open>The walk misses most effects on cells. It has no arm for destroying, sealing, burning, minting,
  attenuating, refusing, refreshing or introducing, so two turns that destroy the same cell are reported
  as free of conflict, for every pair of agents whose own positions differ.\<close>

theorem conflict_misses_destroy:
  assumes "set (hash_positions E a) \<inter> set (hash_positions E b) = {}"
  shows "\<not> may_conflict_with
    (turn_conflict_set E a [CallTree (act\<lparr>ta_target := a, ta_effects := [ECellDestroy i cert]\<rparr>) []])
    (turn_conflict_set E b [CallTree (act'\<lparr>ta_target := b, ta_effects := [ECellDestroy i cert']\<rparr>) []])"
  using assms unfolding turn_conflict_bits by (auto simp: accessed_tree Let_def)

definition demo_fill_crypto :: crypto where
  "demo_fill_crypto = demo_crypto\<lparr>blake3 := demo_fill_hash\<rparr>"

lemma demo_bytes: "bytes32_bytes 0 = replicate 32 0" "bytes32_bytes 454086624460063511464984254936031011189294057512315937409637584344757371137 = replicate 32 1"
  by code_simp+

lemma demo_last: "last (bytes32_bytes 1) = 1" "last (bytes32_bytes 2) = 2"
  by code_simp+

lemma positions_constant:
  assumes "bytes32_bytes (blake3 E (bytes32_bytes i)) = replicate 32 b"
  shows "set (hash_positions E i) = {unat (from_le_bytes (replicate 4 b) :: u32) mod 256}"
proof -
  have "take 4 (drop (k * 4) (replicate 32 b)) = replicate 4 b" if "k < 8" for k
    using that by (simp add: min_def)
  then have "hash_positions E i = map (\<lambda>_. unat (from_le_bytes (replicate 4 b) :: u32) mod 256) [0..<8]"
    unfolding hash_positions_def Let_def assms BLOOM_K_def BLOOM_BITS_def by (intro map_cong refl) simp
  then show ?thesis by (simp add: image_constant_conv)
qed

lemma replicate_four: "replicate 4 x = [x, x, x, x]"
  by (simp add: numeral_eq_Suc)

lemma demo_le: "unat (from_le_bytes (replicate 4 0) :: u32) mod 256 = 0" "unat (from_le_bytes (replicate 4 1) :: u32) mod 256 = 1"
  unfolding replicate_four by simp_all

lemma demo_positions:
  "set (hash_positions demo_fill_crypto 1) = {0}" "set (hash_positions demo_fill_crypto 2) = {1}"
  using positions_constant [of demo_fill_crypto 1 0] positions_constant [of demo_fill_crypto 2 1]
  by (simp_all only: demo_le) (simp_all add: demo_fill_crypto_def demo_fill_hash_def demo_last demo_bytes)

theorem conflict_misses_destroy_witness:
  "\<not> may_conflict_with
    (turn_conflict_set demo_fill_crypto 1 [CallTree (demo_grant_action\<lparr>ta_target := 1, ta_effects := [ECellDestroy 9 demo_certificate]\<rparr>) []])
    (turn_conflict_set demo_fill_crypto 2 [CallTree (demo_grant_action\<lparr>ta_target := 2, ta_effects := [ECellDestroy 9 demo_certificate]\<rparr>) []])"
  by (rule conflict_misses_destroy) (simp add: demo_positions)

theorem conflict_no_false_negative_witness:
  "may_conflict_with (turn_conflict_set demo_fill_crypto 1 [CallTree (demo_grant_action\<lparr>ta_effects := [ETransfer 1 3 5]\<rparr>) []])
     (turn_conflict_set demo_fill_crypto 2 [CallTree (demo_grant_action\<lparr>ta_target := 2, ta_effects := [ETransfer 2 3 5]\<rparr>) []])"
proof -
  have "3 \<in> accessed demo_fill_crypto 1 [CallTree (demo_grant_action\<lparr>ta_effects := [ETransfer 1 3 5]\<rparr>) []] \<inter>
      accessed demo_fill_crypto 2 [CallTree (demo_grant_action\<lparr>ta_target := 2, ta_effects := [ETransfer 2 3 5]\<rparr>) []]"
    by (simp add: accessed_tree Let_def)
  then show ?thesis using conflict_no_false_negative by blast
qed

end
