(* ===== verification/TurnDelta.thy ===== *)
theory TurnDelta
  imports ExecutorSupply "HOL-Library.AList"
begin

text \<open>
  Fees and the ledger delta of a turn (\<open>turn/src/executor/execute.rs\<close>, \<open>distribute_fee_shares\<close>, and
  \<open>finalize.rs\<close>, \<open>compute_delta_from_journal\<close>, \<open>compute_delta_from_journal_with_fee\<close>). The delta is read off the
  journal and the ledger after the turn. Hash maps are association lists; \<open>order\<close> and \<open>field_order\<close> are the orders
  in which the map of updated cells and the map of first field values yield their entries.
\<close>

section \<open>Distribution of the fee\<close>

text \<open>A credit through \<open>get_mut\<close>: nothing happens to a missing cell, and a refused credit leaves the balance.\<close>

definition credit_cell :: "cell_id option \<Rightarrow> u64 \<Rightarrow> ledger \<Rightarrow> bool \<times> ledger" where
  "credit_cell target amount L =
     (case target of
        None \<Rightarrow> (False, L)
      | Some i \<Rightarrow>
          (case l_cells L i of
             None \<Rightarrow> (False, get_mut_with L i id)
           | Some c \<Rightarrow> (fst (credit_balance (c_state c) amount),
               get_mut_with L i (map_state (\<lambda>s. snd (credit_balance s amount))))))"

text \<open>The product of the fee wraps in a release build.\<close>

definition proposer_share :: "u64 \<Rightarrow> u64" where
  "proposer_share fee = fee div 2"

definition treasury_share :: "u64 \<Rightarrow> u64" where
  "treasury_share fee = fee * 3 div 10"

definition distribute_fee_shares ::
  "cell_id option \<Rightarrow> cell_id option \<Rightarrow> cell_id option \<Rightarrow> u64 \<Rightarrow> ledger \<Rightarrow> ledger" where
  "distribute_fee_shares proposer treasury fee_well fee L =
     (let (p_ok, L) = credit_cell proposer (proposer_share fee) L;
          (t_ok, L) = credit_cell treasury (treasury_share fee) L;
          delivered = (if p_ok then proposer_share fee else 0) + (if t_ok then treasury_share fee else 0)
      in snd (credit_cell fee_well (fee - delivered) L))"

section \<open>The delta of a journal\<close>

definition upd_entry ::
  "cell_id \<Rightarrow> (cell_state_delta \<Rightarrow> cell_state_delta) \<Rightarrow> (cell_id \<times> cell_state_delta) list \<Rightarrow> (cell_id \<times> cell_state_delta) list" where
  "upd_entry i f m =
     AList.update i (f (case map_of m i of Some d \<Rightarrow> d | None \<Rightarrow> cell_state_delta_empty)) m"

definition or_insert :: "'k \<Rightarrow> 'v \<Rightarrow> ('k \<times> 'v) list \<Rightarrow> ('k \<times> 'v) list" where
  "or_insert k v m = (if map_of m k = None then m @ [(k, v)] else m)"

record delta_scan =
  sc_created :: "cell list"
  sc_removed :: "cell_id list"
  sc_created_ids :: "cell_id list"
  sc_updated :: "(cell_id \<times> cell_state_delta) list"
  sc_first_balance :: "(cell_id \<times> int) list"
  sc_first_nonce :: "(cell_id \<times> u64) list"
  sc_first_fields :: "((cell_id \<times> u64) \<times> field_element option) list"

definition scan_start :: delta_scan where
  "scan_start = \<lparr>sc_created = [], sc_removed = [], sc_created_ids = [], sc_updated = [], sc_first_balance = [],
     sc_first_nonce = [], sc_first_fields = []\<rparr>"

fun scan_entry :: "ledger \<Rightarrow> journal_entry \<Rightarrow> delta_scan \<Rightarrow> delta_scan" where
  "scan_entry L (JCreateCell i) s =
     (case l_cells L i of
        Some c \<Rightarrow> s\<lparr>sc_created := sc_created s @ [c], sc_created_ids := i # sc_created_ids s\<rparr>
      | None \<Rightarrow> s)"
| "scan_entry L (JMakeSovereign c) s = s\<lparr>sc_removed := sc_removed s @ [c_id c]\<rparr>"
| "scan_entry L (JSetField i index old) s =
     (if i \<in> set (sc_created_ids s) then s else s\<lparr>sc_first_fields := or_insert (i, index) old (sc_first_fields s)\<rparr>)"
| "scan_entry L (JSetBalance i old) s =
     (if i \<in> set (sc_created_ids s) then s else s\<lparr>sc_first_balance := or_insert i old (sc_first_balance s)\<rparr>)"
| "scan_entry L (JSetNonce i old) s =
     (if i \<in> set (sc_created_ids s) then s else s\<lparr>sc_first_nonce := or_insert i old (sc_first_nonce s)\<rparr>)"
| "scan_entry L (JGrantCapability i slot) s =
     (if i \<in> set (sc_created_ids s) then s
      else case l_cells L i of
        None \<Rightarrow> s
      | Some c \<Rightarrow>
          (case clist_lookup (c_capabilities c) slot of
             None \<Rightarrow> s
           | Some cap \<Rightarrow> s\<lparr>sc_updated := upd_entry i
               (\<lambda>d. d\<lparr>cd_capability_grants := cd_capability_grants d @ [cap]\<rparr>) (sc_updated s)\<rparr>))"
| "scan_entry L (JRevokeCapability i old_cap) s =
     (if i \<in> set (sc_created_ids s) then s
      else s\<lparr>sc_updated := upd_entry i
        (\<lambda>d. d\<lparr>cd_capability_revocations := cd_capability_revocations d @ [cr_slot old_cap]\<rparr>) (sc_updated s)\<rparr>)"
| "scan_entry L (JSetPermissions i _) s =
     (if i \<in> set (sc_created_ids s) then s
      else s\<lparr>sc_updated := upd_entry i
        (\<lambda>d. case l_cells L i of Some c \<Rightarrow> d\<lparr>cd_permission_changes := Some (c_permissions c)\<rparr> | None \<Rightarrow> d) (sc_updated s)\<rparr>)"
| "scan_entry L _ s = s"

definition i64_clamp :: "int \<Rightarrow> int" where
  "i64_clamp d = (if in_i64 d then d else if 0 < d then 2 ^ 63 - 1 else - (2 ^ 63))"

definition field_delta ::
  "ledger \<Rightarrow> (cell_id \<times> u64) \<times> field_element option \<Rightarrow> (cell_id \<times> cell_state_delta) list \<Rightarrow> (cell_id \<times> cell_state_delta) list" where
  "field_delta L e m =
     (let ((i, index), old_value) = e in
      case l_cells L i of
        None \<Rightarrow> m
      | Some c \<Rightarrow>
          let new_value = get_field_ext (c_state c) index in
          if new_value \<noteq> old_value
          then upd_entry i (\<lambda>d. d\<lparr>cd_field_updates := cd_field_updates d @
            [(unat index, case new_value of Some v \<Rightarrow> v | None \<Rightarrow> FIELD_ZERO)]\<rparr>) m
          else m)"

definition balance_delta ::
  "ledger \<Rightarrow> cell_id \<times> int \<Rightarrow> (cell_id \<times> cell_state_delta) list \<Rightarrow> (cell_id \<times> cell_state_delta) list" where
  "balance_delta L e m =
     (let (i, old_balance) = e in
      case l_cells L i of
        None \<Rightarrow> m
      | Some c \<Rightarrow>
          let diff = st_balance (c_state c) - old_balance in
          if diff \<noteq> 0 then upd_entry i (\<lambda>d. d\<lparr>cd_balance_change := i64_clamp diff\<rparr>) m else m)"

definition nonce_delta ::
  "ledger \<Rightarrow> cell_id \<times> u64 \<Rightarrow> (cell_id \<times> cell_state_delta) list \<Rightarrow> (cell_id \<times> cell_state_delta) list" where
  "nonce_delta L e m =
     (let (i, old_nonce) = e in
      case l_cells L i of
        None \<Rightarrow> m
      | Some c \<Rightarrow>
          if old_nonce < st_nonce (c_state c) then upd_entry i (\<lambda>d. d\<lparr>cd_nonce_increment := True\<rparr>) m else m)"

definition nonempty_delta :: "cell_state_delta \<Rightarrow> bool" where
  "nonempty_delta d \<longleftrightarrow> cd_field_updates d \<noteq> [] \<or> cd_nonce_increment d \<or> cd_balance_change d \<noteq> 0 \<or>
     cd_permission_changes d \<noteq> None \<or> cd_capability_grants d \<noteq> [] \<or> cd_capability_revocations d \<noteq> []"

type_synonym update_order = "(cell_id \<times> cell_state_delta) list \<Rightarrow> (cell_id \<times> cell_state_delta) list"

type_synonym field_order = "((cell_id \<times> u64) \<times> field_element option) list \<Rightarrow> ((cell_id \<times> u64) \<times> field_element option) list"

definition compute_delta_from_journal ::
  "update_order \<Rightarrow> field_order \<Rightarrow> ledger_journal \<Rightarrow> ledger \<Rightarrow> ledger_delta" where
  "compute_delta_from_journal order forder J L =
     (let s = fold (scan_entry L) J scan_start;
          m = fold (field_delta L) (forder (sc_first_fields s)) (sc_updated s);
          m = fold (balance_delta L) (sc_first_balance s) m;
          m = fold (nonce_delta L) (sc_first_nonce s) m
      in ledger_delta_new\<lparr>ld_created := sc_created s, ld_removed := sc_removed s,
           ld_updated := filter (\<lambda>(_, d). nonempty_delta d) (order m)\<rparr>)"

text \<open>Arithmetic on i64 wraps in a release build, and a cast from u64 reinterprets the bits.\<close>

definition wrap_i64 :: "int \<Rightarrow> int" where
  "wrap_i64 x = (x + 2 ^ 63) mod 2 ^ 64 - 2 ^ 63"

definition u64_as_i64 :: "u64 \<Rightarrow> int" where
  "u64_as_i64 w = wrap_i64 (uint w)"

text \<open>The first entry of a cell is changed, or one is added.\<close>

fun adjust_entry ::
  "cell_id \<Rightarrow> (cell_state_delta \<Rightarrow> cell_state_delta) \<Rightarrow> (cell_id \<times> cell_state_delta) list \<Rightarrow> (cell_id \<times> cell_state_delta) list" where
  "adjust_entry i f [] = [(i, f cell_state_delta_empty)]"
| "adjust_entry i f ((j, d) # m) = (if j = i then (j, f d) # m else (j, d) # adjust_entry i f m)"

definition add_change :: "int \<Rightarrow> cell_state_delta \<Rightarrow> cell_state_delta" where
  "add_change x d = d\<lparr>cd_balance_change := wrap_i64 (cd_balance_change d + x)\<rparr>"

definition fee_credit ::
  "ledger \<Rightarrow> cell_id option \<Rightarrow> u64 \<Rightarrow> u64 \<times> (cell_id \<times> cell_state_delta) list \<Rightarrow> u64 \<times> (cell_id \<times> cell_state_delta) list" where
  "fee_credit L target share acc =
     (case target of
        None \<Rightarrow> acc
      | Some i \<Rightarrow>
          if l_cells L i = None then acc
          else (fst acc + share, adjust_entry i (add_change (u64_as_i64 share)) (snd acc)))"

definition compute_delta_from_journal_with_fee ::
  "update_order \<Rightarrow> field_order \<Rightarrow> ledger_journal \<Rightarrow> ledger \<Rightarrow> cell_id \<Rightarrow> u64 \<Rightarrow> cell_id option \<Rightarrow> cell_id option \<Rightarrow>
     cell_id option \<Rightarrow> ledger_delta" where
  "compute_delta_from_journal_with_fee order forder J L agent fee proposer treasury fee_well =
     (let delta = compute_delta_from_journal order forder J L;
          m = adjust_entry agent (\<lambda>d. (add_change (- u64_as_i64 fee) d)\<lparr>cd_nonce_increment := True\<rparr>) (ld_updated delta);
          (delivered, m) = fee_credit L treasury (treasury_share fee) (fee_credit L proposer (proposer_share fee) (0, m));
          m = (case fee_well of
                 Some w \<Rightarrow> if l_cells L w \<noteq> None \<and> delivered < fee
                   then adjust_entry w (add_change (u64_as_i64 (fee - delivered))) m else m
               | None \<Rightarrow> m)
      in delta\<lparr>ld_updated := m\<rparr>)"

section \<open>Fees are moved\<close>

lemma treasury_small: "unat (proposer_share fee) + unat (treasury_share fee) \<le> unat fee"
proof -
  have "unat (fee * 3) \<le> unat fee * 3" by (simp add: unat_word_ariths)
  then have "unat (treasury_share fee) \<le> unat fee * 3 div 10"
    by (simp add: treasury_share_def unat_div div_le_mono)
  moreover have "unat (proposer_share fee) = unat fee div 2" by (simp add: proposer_share_def unat_div)
  ultimately show ?thesis by linarith
qed

lemma credit_balance_result:
  "credit_balance s amount =
     (if unat amount < 2 ^ 63 \<and> in_i64 (st_balance s + int (unat amount))
      then (True, s\<lparr>st_balance := st_balance s + int (unat amount)\<rparr>) else (False, s))"
  by (auto simp: credit_balance_def i64_try_from_def split: option.split)

definition bal_at :: "ledger \<Rightarrow> cell_id \<Rightarrow> int" where
  "bal_at L i = (case l_cells L i of Some c \<Rightarrow> cell_balance c | None \<Rightarrow> 0)"

lemma credit_cell_effect:
  assumes "credit_cell target amount L = (ok, L')" "finite (dom (l_cells L))"
  shows "dom (l_cells L') = dom (l_cells L)"
    and "total_balance (l_cells L') = total_balance (l_cells L) + (if ok then int (unat amount) else 0)"
    and "bal_at L' i = bal_at L i + (if ok \<and> target = Some i then int (unat amount) else 0)"
proof -
  have "dom (l_cells L') = dom (l_cells L) \<and>
      total_balance (l_cells L') = total_balance (l_cells L) + (if ok then int (unat amount) else 0) \<and>
      bal_at L' i = bal_at L i + (if ok \<and> target = Some i then int (unat amount) else 0)"
  proof (cases "\<exists>j c. target = Some j \<and> l_cells L j = Some c")
    case True
    then obtain j c where j: "target = Some j" "l_cells L j = Some c" by blast
    let ?c = "map_state (\<lambda>s. snd (credit_balance s amount)) (invalidate_leaf_cache c)"
    have eq: "ok = fst (credit_balance (c_state c) amount)" "l_cells L' = (l_cells L)(j \<mapsto> ?c)"
      using assms(1) j by (auto simp: credit_cell_def)
    have "cell_balance ?c = cell_balance c + (if ok then int (unat amount) else 0)"
      unfolding eq by (simp add: cell_balance_def map_state_def credit_balance_result invalidate_leaf_cache_def)
    then show ?thesis
      using j assms(2) by (auto simp: eq(2) total_balance_write bal_at_def insert_absorb domI)
  next
    case False
    then have "\<not> ok \<and> l_cells L' = l_cells L"
      using assms(1) by (auto simp: credit_cell_def split: option.splits)
    then show ?thesis by (simp add: bal_at_def)
  qed
  then show "dom (l_cells L') = dom (l_cells L)"
    and "total_balance (l_cells L') = total_balance (l_cells L) + (if ok then int (unat amount) else 0)"
    and "bal_at L' i = bal_at L i + (if ok \<and> target = Some i then int (unat amount) else 0)" by blast+
qed

lemma credit_cell_ok:
  assumes "l_cells L i = Some c" "unat amount < 2 ^ 63" "in_i64 (bal_at L i + int (unat amount))"
  shows "fst (credit_cell (Some i) amount L)"
  using assms by (simp add: credit_cell_def credit_balance_result bal_at_def cell_balance_def)

lemma unat_delivered:
  fixes p t :: bool
  shows "unat ((if p then proposer_share fee else 0) + (if t then treasury_share fee else 0)) =
    (if p then unat (proposer_share fee) else 0) + (if t then unat (treasury_share fee) else 0)"
  using treasury_small [of fee] unsigned_less [of fee, where 'a = nat]
  by (simp add: unat_word_ariths)

text \<open>The whole fee is delivered. If the fee well is a hosted cell whose balance has room for the fee,
  the distribution raises the total of the hosted balances by exactly the fee, in every case: proposer
  and treasury configured or not, hosted or not, full or not, equal to each other or to the well; and
  for every fee, although three times the fee may wrap around. Together with the debit of the agent the
  fee creates and destroys nothing.\<close>

theorem fee_distribution_exact:
  assumes "finite (dom (l_cells L))" "l_cells L w = Some c" "cell_balance c + int (unat fee) < 2 ^ 63"
    and "unat fee < 2 ^ 63" "0 \<le> cell_balance c"
  shows "total_balance (l_cells (distribute_fee_shares proposer treasury (Some w) fee L)) =
    total_balance (l_cells L) + int (unat fee)"
proof -
  obtain p_ok L1 where 1: "credit_cell proposer (proposer_share fee) L = (p_ok, L1)" by fastforce
  obtain t_ok L2 where 2: "credit_cell treasury (treasury_share fee) L1 = (t_ok, L2)" by fastforce
  define d where "d = (if p_ok then proposer_share fee else 0) + (if t_ok then treasury_share fee else 0)"
  note e1 = credit_cell_effect [OF 1 assms(1)]
  have fin1: "finite (dom (l_cells L1))" using e1(1) assms(1) by simp
  note e2 = credit_cell_effect [OF 2 fin1]
  have d: "unat d = (if p_ok then unat (proposer_share fee) else 0) + (if t_ok then unat (treasury_share fee) else 0)"
    unfolding d_def by (rule unat_delivered)
  have le: "unat d \<le> unat fee" using d treasury_small [of fee] by (auto split: if_splits)
  then have le': "uint d \<le> uint fee" by (metis word_le_nat_alt word_le_def)
  have rest: "unat (fee - d) = unat fee - unat d" using le by (simp add: unat_sub word_le_nat_alt)
  have bal: "0 \<le> bal_at L2 w" "bal_at L2 w \<le> cell_balance c + int (unat d)"
    using e1(3) [of w] e2(3) [of w] assms(2,5) d by (auto simp: bal_at_def split: if_splits)
  obtain c2 where "l_cells L2 w = Some c2" using e1(1) e2(1) assms(2) by (metis domD domI)
  then have ok: "fst (credit_cell (Some w) (fee - d) L2)"
    using rest le le' bal assms(3,4) by (intro credit_cell_ok) (auto simp: in_i64_def)
  obtain L3 where 3: "credit_cell (Some w) (fee - d) L2 = (True, L3)" using ok by (metis prod.collapse)
  have fin2: "finite (dom (l_cells L2))" using e2(1) fin1 by simp
  have "l_cells (distribute_fee_shares proposer treasury (Some w) fee L) = l_cells L3"
    using 3 by (simp add: distribute_fee_shares_def 1 2 d_def [symmetric])
  then show ?thesis using credit_cell_effect(2) [OF 3 fin2] e1(2) e2(2) d rest le by (auto split: if_splits)
qed

theorem fee_distribution_exact_witness:
  "total_balance (l_cells (distribute_fee_shares (Some 2) None (Some 1) 11 (demo_ledger 0))) =
   total_balance (l_cells (demo_ledger 0)) + 11"
  using fee_distribution_exact [of "demo_ledger 0" 1 "demo_account 1 10 0" 11 "Some 2" None]
  by (simp add: demo_ledger_def demo_account_def cell_balance_def cell_state_new_def)

lemma wrap_i64_id: "in_i64 x \<Longrightarrow> wrap_i64 x = x"
  by (simp add: wrap_i64_def in_i64_def)

lemma in_i64_nonneg: "0 \<le> x \<Longrightarrow> x < 2 ^ 63 \<Longrightarrow> in_i64 x"
  by (simp add: in_i64_def)

lemma share_as_i64: "u64_as_i64 (proposer_share fee) = uint (proposer_share fee)"
proof -
  have "uint (proposer_share fee) = uint fee div 2" by (simp add: proposer_share_def uint_div)
  moreover have "0 \<le> uint fee" "uint fee < 2 ^ 64" using unsigned_less [of fee, where 'a = int] by simp_all
  ultimately have "0 \<le> uint (proposer_share fee)" "uint (proposer_share fee) < 2 ^ 63" by simp_all
  then have "in_i64 (uint (proposer_share fee))" by (rule in_i64_nonneg)
  then show ?thesis unfolding u64_as_i64_def by (rule wrap_i64_id)
qed

text \<open>The delta counts a fee share twice. The delta of a turn is computed from the ledger after the fee
  was distributed, and adds the share of the proposer to the change it reads there. If the journal
  touched the balance of the proposer, the change it reports is that of the ledger plus the share.\<close>

theorem delta_counts_share_twice:
  assumes "l_cells L p = Some c" "p \<noteq> agent" "before \<noteq> cell_balance c" "in_i64 (cell_balance c - before)"
    and "in_i64 (cell_balance c - before + uint (proposer_share fee))"
  shows "map_option cd_balance_change (map_of (ld_updated (compute_delta_from_journal_with_fee id id
      [JSetBalance p before] L agent fee (Some p) None None)) p) =
    Some (cell_balance c - before + uint (proposer_share fee))"
  using assms
  by (simp add: compute_delta_from_journal_with_fee_def compute_delta_from_journal_def scan_start_def or_insert_def
      balance_delta_def cell_balance_def fee_credit_def upd_entry_def nonempty_delta_def i64_clamp_def add_change_def
      cell_state_delta_empty_def ledger_delta_new_def share_as_i64 wrap_i64_id)

theorem delta_counts_share_twice_witness:
  "map_option cd_balance_change (map_of (ld_updated (compute_delta_from_journal_with_fee id id [JSetBalance 1 3]
      (demo_ledger 0) 2 100 (Some 1) None None)) 1) = Some 57"
  using delta_counts_share_twice [of "demo_ledger 0" 1 "demo_account 1 10 0" 2 3 100]
  by (simp add: demo_ledger_def demo_account_def cell_balance_def cell_state_new_def in_i64_def proposer_share_def)

end
