(* ===== verification/Execute.thy ===== *)
theory Execute
  imports ExecuteTree NoteConservation BudgetGate Conflict MigrationManager TurnDelta
begin

text \<open>
  The execution of a turn (\<open>turn/src/executor/execute.rs\<close>): admission, the debit of the silo's budget, the fee
  and the nonce, the proof-carrying path, the injection of sovereign witnesses, the call forest with its
  rollback, the checks at the end, the committed heights, the fee shares, the counters of rate limits and
  the receipt; and the producer's variants of \<open>finalize.rs\<close>. The verifiers of execution and binding proofs,
  the signing key and the witnesses captured by authorization are fields of \<open>turn_externals\<close>, as are the
  orders of hash maps and the observer that may veto a commit. Profiling and the memory trace are left out.
\<close>

section \<open>State and results\<close>

datatype pipeline_error =
    PeTree tree_error
  | PeEmptyForest
  | PeExpired int int
  | PeDeadAgent
  | PeNonceReplay u64 u64
  | PeCellFrozen cell_id
  | PeReceiptChainMismatch "bytes32 option" "bytes32 option"
  | PeBudgetExhausted u32 u64 u64
  | PeInvalidExecutionProof string
  | PeProofCarryingRequiresSovereign cell_id
  | PeBindingProof string
  | PeSovereignCommitmentMismatch cell_id bytes32 bytes32
  | PeNoteConservationViolation u64 u64 u64
  | PeExcessNotZero int
  | PeVeto string

abbreviation pe_turn :: "turn_error \<Rightarrow> pipeline_error" where
  "pe_turn e \<equiv> PeTree (te_turn e)"

datatype turn_result = TrCommitted ledger_delta turn_receipt u64 | TrRejected pipeline_error "nat list"

fun is_committed :: "turn_result \<Rightarrow> bool" where
  "is_committed (TrCommitted _ _ _) = True"
| "is_committed (TrRejected _ _) = False"

record turn_externals =
  ext_verify_and_commit_proof :: "cell_id \<Rightarrow> u8 list \<Rightarrow> turn \<Rightarrow> ledger \<Rightarrow> (pipeline_error + unit) \<times> ledger"
  ext_verify_effect_binding_proofs :: "turn \<Rightarrow> ledger \<Rightarrow> string + unit"
  ext_verify_conservation :: "bytes32 list \<Rightarrow> bytes32 list \<Rightarrow> u8 list \<Rightarrow> bytes32 \<Rightarrow> bool"
  ext_consumed :: "turn \<Rightarrow> ledger \<Rightarrow> bytes32 list"
  ext_sign :: "(u8 list \<Rightarrow> u8 list) option"
  ext_asset_order :: "u64 list \<Rightarrow> u64 list"
  ext_update_order :: update_order
  ext_field_order :: field_order
  ext_veto :: "turn \<Rightarrow> turn_result \<Rightarrow> ledger \<Rightarrow> string option"

text \<open>What the executor keeps between turns. The heads of the receipt chains and the rate counters are part
  of the environment of a call tree.\<close>

record turn_executor =
  tx_env :: tree_env
  tx_stores :: exec_state
  tx_budget_gate :: "budget_gate option"
  tx_migrations :: migration_manager
  tx_proposer_cell :: "cell_id option"
  tx_treasury_cell :: "cell_id option"
  tx_fee_well_cell :: "cell_id option"
  tx_symbolic :: bool
  tx_last_write_set :: "cell_id list"

abbreviation tx_ledger :: "turn_executor \<Rightarrow> ledger" where
  "tx_ledger X \<equiv> xs_ledger (tx_stores X)"

abbreviation tx_exec :: "turn_executor \<Rightarrow> exec_env" where
  "tx_exec X \<equiv> tv_exec (tx_env X)"

definition on_ledger :: "(ledger \<Rightarrow> ledger) \<Rightarrow> turn_executor \<Rightarrow> turn_executor" where
  "on_ledger f X = X\<lparr>tx_stores := (tx_stores X)\<lparr>xs_ledger := f (tx_ledger X)\<rparr>\<rparr>"

definition get_last_receipt_hash :: "turn_executor \<Rightarrow> cell_id \<Rightarrow> bytes32 option" where
  "get_last_receipt_hash X agent = x_last_receipt_hash (tx_exec X) agent"

definition set_receipt_heads :: "(cell_id \<rightharpoonup> bytes32) \<Rightarrow> turn_executor \<Rightarrow> turn_executor" where
  "set_receipt_heads m X = X\<lparr>tx_env := (tx_env X)\<lparr>tv_exec := (tx_exec X)\<lparr>x_last_receipt_hash := m\<rparr>\<rparr>\<rparr>"

definition record_receipt_hash :: "cell_id \<Rightarrow> bytes32 \<Rightarrow> turn_executor \<Rightarrow> turn_executor" where
  "record_receipt_hash agent h X = set_receipt_heads ((x_last_receipt_hash (tx_exec X))(agent \<mapsto> h)) X"

definition restore_last_receipt_hash :: "cell_id \<Rightarrow> bytes32 option \<Rightarrow> turn_executor \<Rightarrow> turn_executor" where
  "restore_last_receipt_hash agent prev X = set_receipt_heads ((x_last_receipt_hash (tx_exec X))(agent := prev)) X"

definition reset_receipt_chain :: "turn_executor \<Rightarrow> turn_executor" where
  "reset_receipt_chain X = set_receipt_heads Map.empty X"

section \<open>Admission\<close>

definition check_not_frozen :: "turn_executor \<Rightarrow> cell_id \<Rightarrow> pipeline_error + unit" where
  "check_not_frozen X i = ensure (\<not> is_frozen (tx_migrations X) i) (PeCellFrozen i)"

definition check_previous_receipt_hash :: "turn_executor \<Rightarrow> cell_id \<Rightarrow> bytes32 option \<Rightarrow> pipeline_error + unit" where
  "check_previous_receipt_hash X agent claimed =
     ensure (get_last_receipt_hash X agent = claimed) (PeReceiptChainMismatch (get_last_receipt_hash X agent) claimed)"

text \<open>The checks that \<open>execute\<close> and \<open>validate_without_apply\<close> share.\<close>

definition admit_agent :: "turn_executor \<Rightarrow> turn \<Rightarrow> pipeline_error + unit" where
  "admit_agent X t =
     and_then (ensure (tn_call_forest t \<noteq> []) PeEmptyForest) (\<lambda>_.
     and_then (case tn_valid_until t of
         Some v \<Rightarrow> ensure (x_current_timestamp (tx_exec X) \<le> v) (PeExpired v (x_current_timestamp (tx_exec X)))
       | None \<Rightarrow> Inr ()) (\<lambda>_.
     and_then (ok_or (l_cells (tx_ledger X) (tn_agent t)) (pe_turn (TCellNotFound (tn_agent t)))) (\<lambda>c.
     and_then (ensure (\<not> is_terminal (c_lifecycle c)) PeDeadAgent) (\<lambda>_.
     and_then (ensure (st_nonce (c_state c) = tn_nonce t) (PeNonceReplay (st_nonce (c_state c)) (tn_nonce t))) (\<lambda>_.
       ensure (0 \<le> st_balance (c_state c) \<and> tn_fee t \<le> of_int (st_balance (c_state c)))
         (pe_turn (TInsufficientBalance (tn_agent t) (tn_fee t) (st_balance (c_state c)))))))))"

definition admit_turn :: "('a turn_crypto_scheme) \<Rightarrow> turn_executor \<Rightarrow> turn \<Rightarrow> pipeline_error + unit" where
  "admit_turn E X t =
     and_then (admit_agent X t) (\<lambda>_.
     and_then (check_not_frozen X (tn_agent t)) (\<lambda>_.
     and_then (if any_frozen (tx_migrations X)
       then check_all (check_not_frozen X) (snd (extract_access_sets E (tn_agent t) (tn_call_forest t)))
       else Inr ()) (\<lambda>_.
       check_previous_receipt_hash X (tn_agent t) (tn_previous_receipt_hash t))))"

definition validate_without_apply :: "('a turn_crypto_scheme) \<Rightarrow> turn_executor \<Rightarrow> turn \<Rightarrow> pipeline_error + unit" where
  "validate_without_apply E X t =
     and_then (admit_agent X t) (\<lambda>_.
       let estimated = estimate_cost E (tv_costs (tx_env X)) (tn_call_forest t) in
       ensure (estimated \<le> tn_fee t) (PeTree (TeBudgetExceeded (tn_fee t) estimated)))"

section \<open>Budget, fee and nonce\<close>

type_synonym debit = "(bytes32 \<times> u64) option"

definition debit_budget ::
  "('a turn_crypto_scheme) \<Rightarrow> turn \<Rightarrow> turn_executor \<Rightarrow> (pipeline_error + debit) \<times> turn_executor" where
  "debit_budget E t X =
     (case tx_budget_gate X of
        None \<Rightarrow> (Inr None, X)
      | Some g \<Rightarrow>
          (case gate_try_debit E (tn_fee t) (turn_hash E t) g of
             (Inr digest, g) \<Rightarrow> (Inr (Some (digest, tn_fee t)), X\<lparr>tx_budget_gate := Some g\<rparr>)
           | (Inl left, g) \<Rightarrow> (Inl (PeBudgetExhausted (bg_silo_id g) (tn_fee t) left), X\<lparr>tx_budget_gate := Some g\<rparr>)))"

definition unlock_budget :: "debit \<Rightarrow> turn_executor \<Rightarrow> turn_executor" where
  "unlock_budget d X =
     (case (tx_budget_gate X, d) of
        (Some g, Some (digest, fee)) \<Rightarrow> X\<lparr>tx_budget_gate := Some (fast_unlock fee digest g)\<rparr>
      | _ \<Rightarrow> X)"

definition commit_budget :: "debit \<Rightarrow> turn_executor \<Rightarrow> turn_executor" where
  "commit_budget d X =
     (case (tx_budget_gate X, d) of
        (Some g, Some (digest, _)) \<Rightarrow> X\<lparr>tx_budget_gate := Some (gate_commit_debit digest g)\<rparr>
      | _ \<Rightarrow> X)"

text \<open>The agent was found by admission; \<open>unwrap\<close> on its absence panics.\<close>

definition commit_fee_nonce :: "turn \<Rightarrow> ledger \<Rightarrow> (pipeline_error + unit) \<times> ledger" where
  "commit_fee_nonce t L =
     (case l_cells L (tn_agent t) of
        None \<Rightarrow> (Inl (pe_turn (TCellNotFound (tn_agent t))), get_mut_with L (tn_agent t) id)
      | Some c \<Rightarrow>
          let (paid, s1) = debit_balance (c_state c) (tn_fee t); (bumped, s2) = increment_nonce s1 in
          if \<not> paid
          then (Inl (pe_turn (TInsufficientBalance (tn_agent t) (tn_fee t) (st_balance (c_state c)))),
            get_mut_with L (tn_agent t) id)
          else if \<not> bumped
          then (Inl (pe_turn (TNonceOverflow (tn_agent t))), get_mut_with L (tn_agent t) (map_state (\<lambda>_. s1)))
          else (Inr (), get_mut_with L (tn_agent t) (map_state (\<lambda>_. s2))))"

definition state_hash :: "('a turn_crypto_scheme) \<Rightarrow> bool \<Rightarrow> turn_executor \<Rightarrow> bytes32 \<times> turn_executor" where
  "state_hash E deferred X =
     (if deferred then (0, X)
      else let (root, L) = ledger_root E (tx_ledger X) in (root, on_ledger (\<lambda>_. L) X))"

section \<open>Receipts\<close>

definition maybe_sign_receipt :: "('a turn_crypto_scheme) \<Rightarrow> turn_externals \<Rightarrow> turn_receipt \<Rightarrow> u8 list option" where
  "maybe_sign_receipt E Y r = map_option (\<lambda>sign. sign (canonical_executor_signed_message E r)) (ext_sign Y)"

definition sign_receipt :: "('a turn_crypto_scheme) \<Rightarrow> turn_externals \<Rightarrow> turn_receipt \<Rightarrow> turn_receipt" where
  "sign_receipt E Y r = r\<lparr>tr_executor_signature := maybe_sign_receipt E Y r\<rparr>"

fun collect_effect_hashes :: "('a turn_crypto_scheme) \<Rightarrow> call_tree \<Rightarrow> bytes32 list" where
  "collect_effect_hashes E (CallTree a children) =
     map (effect_hash E) (ta_effects a) @ concat (map (collect_effect_hashes E) children)"

text \<open>The receipt of a turn whose effects were not executed here: the proof-carrying and the producer's path.\<close>

definition attested_computrons :: "turn_executor \<Rightarrow> turn \<Rightarrow> u64" where
  "attested_computrons X t =
     saturating_mul_word (cc_effect_base (tv_costs (tx_env X))) (of_nat (forest_action_count (tn_call_forest t)))"

definition attested_receipt ::
  "('a turn_crypto_scheme) \<Rightarrow> turn_externals \<Rightarrow> turn_executor \<Rightarrow> turn \<Rightarrow> bytes32 \<Rightarrow> bytes32 \<Rightarrow> turn_receipt" where
  "attested_receipt E Y X t pre post =
     (let fh = forest_compute_hash E (tn_call_forest t) in
      sign_receipt E Y
       \<lparr>tr_turn_hash = hash_with_forest E t fh, tr_forest_hash = fh, tr_pre_state_hash = pre,
        tr_post_state_hash = post, tr_timestamp = x_current_timestamp (tx_exec X),
        tr_effects_hash = compute_effects_hash E (concat (map (collect_effect_hashes E) (tn_call_forest t))),
        tr_computrons_used = attested_computrons X t, tr_action_count = forest_action_count (tn_call_forest t),
        tr_previous_receipt_hash = tn_previous_receipt_hash t, tr_agent = tn_agent t,
        tr_federation_id = x_local_federation_id (tx_exec X), tr_routing_directives = [],
        tr_introduction_exports = [], tr_derivation_records = [], tr_emitted_events = [],
        tr_executor_signature = None, tr_finality = Final, tr_was_encrypted = False,
        tr_was_burn = forest_carries_burn (tn_call_forest t), tr_consumed_capabilities = ext_consumed Y t (tx_ledger X)\<rparr>)"

text \<open>Its delta lists the configured cells, hosted or not.\<close>

definition change_entry :: "cell_id \<Rightarrow> int \<Rightarrow> cell_id \<times> cell_state_delta" where
  "change_entry i x = (i, cell_state_delta_empty\<lparr>cd_balance_change := x\<rparr>)"

definition share_entries :: "cell_id option \<Rightarrow> u64 \<Rightarrow> (cell_id \<times> cell_state_delta) list" where
  "share_entries target share = (case target of Some i \<Rightarrow> [change_entry i (u64_as_i64 share)] | None \<Rightarrow> [])"

definition attested_delta :: "turn_executor \<Rightarrow> turn \<Rightarrow> ledger_delta" where
  "attested_delta X t =
     (let fee = tn_fee t;
          delivered = (if tx_proposer_cell X \<noteq> None then proposer_share fee else 0) +
            (if tx_treasury_cell X \<noteq> None then treasury_share fee else 0)
      in ledger_delta_new\<lparr>ld_updated :=
           [(tn_agent t, cell_state_delta_empty\<lparr>cd_balance_change := wrap_i64 (- u64_as_i64 fee), cd_nonce_increment := True\<rparr>)] @
           share_entries (tx_proposer_cell X) (proposer_share fee) @
           share_entries (tx_treasury_cell X) (treasury_share fee) @
           share_entries (tx_fee_well_cell X) (fee - delivered)\<rparr>)"

definition commit_attested ::
  "('a turn_crypto_scheme) \<Rightarrow> turn_externals \<Rightarrow> turn \<Rightarrow> bytes32 \<Rightarrow> bytes32 \<Rightarrow> turn_executor \<Rightarrow> turn_result \<times> turn_executor" where
  "commit_attested E Y t pre post X =
     (let r = attested_receipt E Y X t pre post in
      (TrCommitted (attested_delta X t) r (attested_computrons X t),
       record_receipt_hash (tn_agent t) (receipt_hash E r) X))"

definition restamp_committed_receipt ::
  "('a turn_crypto_scheme) \<Rightarrow> turn_externals \<Rightarrow> turn_receipt \<Rightarrow> bytes32 \<Rightarrow> turn_receipt" where
  "restamp_committed_receipt E Y r authoritative_post_root =
     sign_receipt E Y (r\<lparr>tr_post_state_hash := authoritative_post_root, tr_executor_signature := None\<rparr>)"

definition build_producer_committed_result ::
  "('a turn_crypto_scheme) \<Rightarrow> turn_externals \<Rightarrow> turn \<Rightarrow> bytes32 \<Rightarrow> bytes32 \<Rightarrow> turn_executor \<Rightarrow> turn_result \<times> turn_executor" where
  "build_producer_committed_result E Y t pre_root post_root X = commit_attested E Y t pre_root post_root X"

section \<open>The proof-carrying path\<close>

definition share_fee :: "u64 \<Rightarrow> turn_executor \<Rightarrow> turn_executor" where
  "share_fee fee X =
     on_ledger (distribute_fee_shares (tx_proposer_cell X) (tx_treasury_cell X) (tx_fee_well_cell X) fee) X"

definition reject :: "pipeline_error \<Rightarrow> turn_executor \<Rightarrow> turn_result \<times> turn_executor" where
  "reject e X = (TrRejected e [], X)"

definition execute_proof_carrying ::
  "('a turn_crypto_scheme) \<Rightarrow> turn_externals \<Rightarrow> turn \<Rightarrow> u8 list \<Rightarrow> debit \<Rightarrow> bytes32 \<Rightarrow> turn_executor \<Rightarrow>
     turn_result \<times> turn_executor" where
  "execute_proof_carrying E Y t proof_bytes d pre X =
     (case tn_execution_proof_cell t of
        None \<Rightarrow> reject (PeInvalidExecutionProof ''execution_proof_cell is None'') (unlock_budget d X)
      | Some i \<Rightarrow>
          if \<not> is_sovereign (tx_ledger X) i \<and> \<not> is_sovereign_registered (tx_ledger X) i
          then reject (PeProofCarryingRequiresSovereign i) (unlock_budget d X)
          else (case ext_verify_and_commit_proof Y i proof_bytes t (tx_ledger X) of
              (Inl e, L) \<Rightarrow> reject e (unlock_budget d (on_ledger (\<lambda>_. L) X))
            | (Inr _, L) \<Rightarrow>
                let X = share_fee (tn_fee t) (commit_budget d (on_ledger (\<lambda>_. L) X));
                    (post, X) = state_hash E False X
                in commit_attested E Y t pre post X))"

section \<open>Sovereign witnesses\<close>

definition check_sovereign_witness ::
  "('a turn_crypto_scheme) \<Rightarrow> bytes32 \<Rightarrow> ledger \<Rightarrow> cell_id \<Rightarrow> sovereign_cell_witness \<Rightarrow> pipeline_error + unit" where
  "check_sovereign_witness E federation L i w =
     and_then (ensure (sw_cell_id w = i) (pe_turn (TInvalidEffect ''payload cell_id''))) (\<lambda>_.
     and_then (ok_or (l_sovereign_commitments L i) (pe_turn (TInvalidEffect ''non-sovereign cell''))) (\<lambda>stored.
       let computed = compute_canonical_state_commitment E (sw_cell_state w) in
       all_ok
        [ensure (sw_old_commitment w = stored) (PeSovereignCommitmentMismatch i stored (sw_old_commitment w)),
         ensure (computed = sw_old_commitment w) (PeSovereignCommitmentMismatch i (sw_old_commitment w) computed),
         ensure (c_id (sw_cell_state w) = i) (pe_turn (TInvalidEffect ''cell ID mismatch'')),
         ensure (valid_key E (c_public_key (sw_cell_state w))) (pe_turn (TInvalidEffect ''public key invalid'')),
         ensure (verify_strict E (c_public_key (sw_cell_state w))
             (sovereign_signing_message_for_federation federation i (sw_old_commitment w) (sw_new_commitment w)
               (sw_effects_hash w) (sw_timestamp w) (sw_sequence w)) (sw_signature w))
           (pe_turn (TInvalidEffect ''signature invalid'')),
         ensure (sw_sequence w = last_sovereign_witness_sequence L i + 1) (pe_turn (TInvalidEffect ''sequence gap'')),
         ensure (sw_new_commitment w \<noteq> 0) (pe_turn (TInvalidEffect ''zero new_commitment placeholder'')),
         ensure (sw_effects_hash w \<noteq> 0) (pe_turn (TInvalidEffect ''zero effects_hash placeholder'')),
         ensure (sw_transition_proof w = None) (PeInvalidExecutionProof ''v1 transition_proof'')]))"

definition inject_cell :: "cell_id \<Rightarrow> cell \<Rightarrow> ledger \<Rightarrow> (pipeline_error + unit) \<times> ledger" where
  "inject_cell i c L =
     (if l_cells L i \<noteq> None then (Inr (), get_mut_with L i (\<lambda>_. c))
      else case insert_cell L c of
        (Inl _, L) \<Rightarrow> (Inl (pe_turn (TInvalidEffect ''failed to inject'')), L)
      | (Inr _, L) \<Rightarrow> (Inr (), L))"

text \<open>A failure leaves the cells injected so far in the ledger.\<close>

fun inject_witnesses ::
  "('a turn_crypto_scheme) \<Rightarrow> bytes32 \<Rightarrow> (cell_id \<times> sovereign_cell_witness) list \<Rightarrow> ledger \<Rightarrow>
     (pipeline_error + unit) \<times> ledger" where
  "inject_witnesses E federation [] L = (Inr (), L)"
| "inject_witnesses E federation ((i, w) # ws) L =
     then_do (check_sovereign_witness E federation L i w, L) (\<lambda>L.
     then_do (inject_cell i (sw_cell_state w) L) (inject_witnesses E federation ws))"

definition remove_cells :: "cell_id list \<Rightarrow> ledger \<Rightarrow> ledger" where
  "remove_cells ids L = fold (\<lambda>i L. snd (ledger_remove L i)) ids L"

definition check_new_commitment ::
  "('a turn_crypto_scheme) \<Rightarrow> ledger \<Rightarrow> cell_id \<times> sovereign_cell_witness \<Rightarrow> pipeline_error + unit" where
  "check_new_commitment E L e =
     (case l_cells L (fst e) of
        None \<Rightarrow> Inl (pe_turn (TInvalidEffect ''sovereign witness cell missing after execution''))
      | Some c \<Rightarrow>
          let actual = compute_canonical_state_commitment E c in
          ensure (actual = sw_new_commitment (snd e)) (PeSovereignCommitmentMismatch (fst e) (sw_new_commitment (snd e)) actual))"

definition settle_cell :: "('a turn_crypto_scheme) \<Rightarrow> cell_id \<Rightarrow> ledger \<Rightarrow> ledger" where
  "settle_cell E i L =
     (case ledger_remove L i of
        (Some c, L) \<Rightarrow> snd (update_sovereign_commitment L i (compute_canonical_state_commitment E c))
      | (None, L) \<Rightarrow> L)"

definition settle_witnesses :: "('a turn_crypto_scheme) \<Rightarrow> (cell_id \<times> sovereign_cell_witness) list \<Rightarrow> ledger \<Rightarrow> ledger" where
  "settle_witnesses E ws L =
     fold (\<lambda>(i, w) L. bump_sovereign_witness_sequence L i (sw_sequence w)) ws
       (fold (\<lambda>(i, w). settle_cell E i) ws L)"

section \<open>The end of a turn\<close>

text \<open>The entries whose cells get the height of the chain; programs and heaps are not among them.\<close>

fun stamped_cell :: "journal_entry \<Rightarrow> cell_id option" where
  "stamped_cell (JSetField i _ _) = Some i"
| "stamped_cell (JSetBalance i _) = Some i"
| "stamped_cell (JSetNonce i _) = Some i"
| "stamped_cell (JGrantCapability i _) = Some i"
| "stamped_cell (JRevokeCapability i _) = Some i"
| "stamped_cell (JCreateCell i) = Some i"
| "stamped_cell (JSetProvedState i _) = Some i"
| "stamped_cell (JSetPermissions i _) = Some i"
| "stamped_cell (JSetVerificationKey i _) = Some i"
| "stamped_cell (JSetDelegation i _) = Some i"
| "stamped_cell (JSetDelegationEpoch i _) = Some i"
| "stamped_cell (JSetCommittedHeight i _) = Some i"
| "stamped_cell (JEventEmitted i _ _) = Some i"
| "stamped_cell (JSetLifecycle i _) = Some i"
| "stamped_cell (JAttenuateCapability i _ _ _ _) = Some i"
| "stamped_cell _ = None"

definition stamp_height :: "u64 \<Rightarrow> cell_id \<Rightarrow> exec_state \<Rightarrow> exec_state" where
  "stamp_height height i S =
     (case cell_at S i of
        None \<Rightarrow> with_cell i id S
      | Some c \<Rightarrow>
          if st_committed_height (c_state c) = height then with_cell i id S
          else record_entry (with_cell i (map_state (\<lambda>s. s\<lparr>st_committed_height := height\<rparr>)) S)
            (JSetCommittedHeight i (st_committed_height (c_state c))))"

definition stamp_heights :: "u64 \<Rightarrow> exec_state \<Rightarrow> exec_state" where
  "stamp_heights height S =
     fold (stamp_height height) (remdups_adj (sort (List.map_filter stamped_cell (xs_journal S)))) S"

fun mutated_cell :: "journal_entry \<Rightarrow> cell_id option" where
  "mutated_cell (JSetField i _ _) = Some i"
| "mutated_cell (JSetBalance i _) = Some i"
| "mutated_cell (JSetNonce i _) = Some i"
| "mutated_cell (JSetPermissions i _) = Some i"
| "mutated_cell (JSetVerificationKey i _) = Some i"
| "mutated_cell (JSetDelegation i _) = Some i"
| "mutated_cell (JSetDelegationEpoch i _) = Some i"
| "mutated_cell (JSetProvedState i _) = Some i"
| "mutated_cell (JGrantCapability i _) = Some i"
| "mutated_cell (JRevokeCapability i _) = Some i"
| "mutated_cell (JCreateCell i) = Some i"
| "mutated_cell (JSetLifecycle i _) = Some i"
| "mutated_cell (JAttenuateCapability i _ _ _ _) = Some i"
| "mutated_cell _ = None"

fun first_field_old :: "ledger_journal \<Rightarrow> cell_id \<Rightarrow> u64 \<Rightarrow> field_element option option" where
  "first_field_old [] i index = None"
| "first_field_old (JSetField j k old # J) i index = (if j = i \<and> k = index then Some old else first_field_old J i index)"
| "first_field_old (_ # J) i index = first_field_old J i index"

definition executor_field_to_u64 :: "field_element \<Rightarrow> u64" where
  "executor_field_to_u64 f = from_le_bytes (rev (drop 24 (bytes32_bytes f)))"

definition count_or_zero :: "('k \<rightharpoonup> 'v::zero) \<Rightarrow> 'k \<Rightarrow> 'v" where
  "count_or_zero m k = (case m k of Some v \<Rightarrow> v | None \<Rightarrow> 0)"

definition count_constraint ::
  "bytes32 \<Rightarrow> ledger_journal \<Rightarrow> cell_id \<Rightarrow> cell \<Rightarrow> state_constraint \<Rightarrow> tree_env \<Rightarrow> tree_env" where
  "count_constraint sender J i c constraint V =
     (case rate_limit_of constraint of
        Some (_, d) \<Rightarrow>
          let k = (i, sender, epoch_for_height (tv_height V) d) in
          V\<lparr>te_rate_limit_counters := (te_rate_limit_counters V)
            (k \<mapsto> saturating_add_word (count_or_zero (te_rate_limit_counters V) k) 1)\<rparr>
      | None \<Rightarrow>
          (case rate_limit_sum_of constraint of
             None \<Rightarrow> V
           | Some (slot, d) \<Rightarrow>
               if STATE_SLOTS \<le> unat slot then V
               else (case first_field_old J i (ucast slot) of
                   Some (Some old) \<Rightarrow>
                     let delta = saturating_sub_word (executor_field_to_u64 (st_fields (c_state c) ! unat slot)) (executor_field_to_u64 old);
                         k = (i, slot, epoch_for_height (tv_height V) d) in
                     if delta = 0 then V
                     else V\<lparr>te_rate_limit_sum_counters := (te_rate_limit_sum_counters V)
                       (k \<mapsto> saturating_add_word (count_or_zero (te_rate_limit_sum_counters V) k) delta)\<rparr>
                 | _ \<Rightarrow> V)))"

definition count_cell :: "bytes32 \<Rightarrow> ledger \<Rightarrow> ledger_journal \<Rightarrow> cell_id \<Rightarrow> tree_env \<Rightarrow> tree_env" where
  "count_cell sender L J i V =
     (case l_cells L i of
        None \<Rightarrow> V
      | Some c \<Rightarrow>
          (case c_program c of Predicate constraints \<Rightarrow> fold (count_constraint sender J i c) constraints V | _ \<Rightarrow> V))"

text \<open>Counters of different cells have different keys, so the order of the set does not matter.\<close>

definition record_state_constraint_counters :: "turn \<Rightarrow> turn_executor \<Rightarrow> turn_executor" where
  "record_state_constraint_counters t X =
     (case l_cells (tx_ledger X) (tn_agent t) of
        None \<Rightarrow> X
      | Some agent \<Rightarrow>
          let J = xs_journal (tx_stores X) in
          X\<lparr>tx_env := fold (count_cell (c_public_key agent) (tx_ledger X) J)
             (remdups (List.map_filter mutated_cell J)) (tx_env X)\<rparr>)"

definition forest_receipt ::
  "('a turn_crypto_scheme) \<Rightarrow> turn_externals \<Rightarrow> turn_executor \<Rightarrow> turn \<Rightarrow> bytes32 \<Rightarrow> bytes32 \<Rightarrow> tree_state \<Rightarrow> turn_receipt" where
  "forest_receipt E Y X t pre post s =
     (let fh = forest_compute_hash E (tn_call_forest t); th = hash_with_forest E t fh in
      sign_receipt E Y
       \<lparr>tr_turn_hash = th, tr_forest_hash = fh, tr_pre_state_hash = pre, tr_post_state_hash = post,
        tr_timestamp = x_current_timestamp (tx_exec X), tr_effects_hash = compute_effects_hash E (ts_effects_hashes s),
        tr_computrons_used = ts_computrons_used s, tr_action_count = forest_action_count (tn_call_forest t),
        tr_previous_receipt_hash = tn_previous_receipt_hash t, tr_agent = tn_agent t,
        tr_federation_id = x_local_federation_id (tx_exec X),
        tr_routing_directives = collect_routing_directives (tn_call_forest t) th (tv_height (tx_env X))
          (x_max_introduction_lifetime (tx_exec X)),
        tr_introduction_exports = collect_introduction_exports (tn_call_forest t) th (tv_height (tx_env X))
          (x_max_introduction_lifetime (tx_exec X)),
        tr_derivation_records = collect_derivation_records E (of_int (x_current_timestamp (tx_exec X))) (tn_call_forest t),
        tr_emitted_events = collect_emitted_events (xs_journal (tx_stores X)),
        tr_executor_signature = None, tr_finality = Final, tr_was_encrypted = False,
        tr_was_burn = forest_carries_burn (tn_call_forest t), tr_consumed_capabilities = ext_consumed Y t (tx_ledger X)\<rparr>)"

section \<open>The call forest\<close>

fun run_forest ::
  "('a turn_crypto_scheme) \<Rightarrow> ('v tree_env_scheme) \<Rightarrow> u64 \<Rightarrow> cell_id \<Rightarrow> bytes32 \<Rightarrow> u64 \<Rightarrow> nat \<Rightarrow> call_tree list \<Rightarrow>
     tree_state \<Rightarrow> tree_result" where
  "run_forest E V nonce agent th budget k [] s = (Inr (), s)"
| "run_forest E V nonce agent th budget k (tree # trees) s =
     then_do (execute_tree E V nonce agent th budget tree agent DmParentsOwn [k] s)
       (run_forest E V nonce agent th budget (Suc k) trees)"

text \<open>Rollback of a failed forest: journal, injected cells, budget.\<close>

definition abort_turn ::
  "('a turn_crypto_scheme) \<Rightarrow> cell_id list \<Rightarrow> debit \<Rightarrow> exec_state \<Rightarrow> turn_executor \<Rightarrow> turn_executor" where
  "abort_turn E ids d S X =
     unlock_budget d (on_ledger (remove_cells ids) (X\<lparr>tx_stores := rollback E (xs_journal S) S\<rparr>))"

definition check_forest_end ::
  "('a turn_crypto_scheme) \<Rightarrow> turn_externals \<Rightarrow> turn \<Rightarrow> tree_state \<Rightarrow> pipeline_error + unit" where
  "check_forest_end E Y t s =
     and_then (ensure (ts_computrons_used s \<le> tn_fee t) (PeTree (TeBudgetExceeded (tn_fee t) (ts_computrons_used s)))) (\<lambda>_.
     and_then (map_sum (\<lambda>(asset, i, out). PeNoteConservationViolation asset i out) id
       (check_note_conservation E (ext_verify_conservation Y) (ext_asset_order Y) (tn_call_forest t)
         (tn_conservation_proof t) (turn_hash E t))) (\<lambda>_.
     and_then (ensure (ts_excess s = 0) (PeExcessNotZero (ts_excess s))) (\<lambda>_.
       check_all (check_new_commitment E (ts_ledger s)) (tn_sovereign_witnesses t))))"

definition finish_turn ::
  "('a turn_crypto_scheme) \<Rightarrow> turn_externals \<Rightarrow> turn \<Rightarrow> debit \<Rightarrow> bool \<Rightarrow> bytes32 \<Rightarrow> tree_state \<Rightarrow> turn_executor \<Rightarrow>
     turn_result \<times> turn_executor" where
  "finish_turn E Y t d deferred pre s X =
     (let X = commit_budget d (on_ledger (settle_witnesses E (tn_sovereign_witnesses t)) (X\<lparr>tx_stores := ts_exec s\<rparr>));
          X = X\<lparr>tx_stores := stamp_heights (tv_height (tx_env X)) (tx_stores X)\<rparr>;
          X = record_state_constraint_counters t (share_fee (tn_fee t) X);
          (post, X) = state_hash E deferred X;
          J = xs_journal (tx_stores X);
          delta = compute_delta_from_journal_with_fee (ext_update_order Y) (ext_field_order Y) J (tx_ledger X)
            (tn_agent t) (tn_fee t) (tx_proposer_cell X) (tx_treasury_cell X) (tx_fee_well_cell X);
          r = forest_receipt E Y X t pre post s;
          X = (record_receipt_hash (tn_agent t) (receipt_hash E r) X)\<lparr>tx_last_write_set := touched_cells J\<rparr>
      in (TrCommitted delta r (ts_computrons_used s), X))"

definition execute_forest ::
  "('a turn_crypto_scheme) \<Rightarrow> turn_externals \<Rightarrow> turn \<Rightarrow> debit \<Rightarrow> bool \<Rightarrow> bytes32 \<Rightarrow> turn_executor \<Rightarrow>
     turn_result \<times> turn_executor" where
  "execute_forest E Y t d deferred pre X =
     (let ids = map fst (tn_sovereign_witnesses t);
          s0 = \<lparr>ts_exec = (tx_stores X)\<lparr>xs_journal := []\<rparr>, ts_computrons_used = 0, ts_effects_hashes = [], ts_excess = 0\<rparr>
      in case run_forest E (tx_env X) (tn_nonce t) (tn_agent t) (turn_hash E t) (tn_fee t) 0 (tn_call_forest t) s0 of
           (Inl (e, path), s) \<Rightarrow> (TrRejected (PeTree e) path, abort_turn E ids d (ts_exec s) X)
         | (Inr _, s) \<Rightarrow>
             (case check_forest_end E Y t s of
                Inl e \<Rightarrow> (TrRejected e [], abort_turn E ids d (ts_exec s) X)
              | Inr _ \<Rightarrow> finish_turn E Y t d deferred pre s X))"

definition execute_hosted ::
  "('a turn_crypto_scheme) \<Rightarrow> turn_externals \<Rightarrow> turn \<Rightarrow> debit \<Rightarrow> bool \<Rightarrow> bytes32 \<Rightarrow> turn_executor \<Rightarrow>
     turn_result \<times> turn_executor" where
  "execute_hosted E Y t d deferred pre X =
     (case inject_witnesses E (x_local_federation_id (tx_exec X)) (tn_sovereign_witnesses t) (tx_ledger X) of
        (Inl e, L) \<Rightarrow> reject e (on_ledger (\<lambda>_. L) X)
      | (Inr _, L) \<Rightarrow>
          let X = on_ledger (\<lambda>_. L) X in
          (case (if tn_effect_binding_proofs t \<noteq> [] \<or> tn_cross_effect_dependencies t \<noteq> [] \<or> tn_effect_witness_index_map t \<noteq> []
              then ext_verify_effect_binding_proofs Y t L else Inr ()) of
             Inl e \<Rightarrow> reject (PeBindingProof e)
               (unlock_budget d (on_ledger (remove_cells (map fst (tn_sovereign_witnesses t))) X))
           | Inr _ \<Rightarrow> execute_forest E Y t d deferred pre X))"

definition execute_without_shadow ::
  "('a turn_crypto_scheme) \<Rightarrow> turn_externals \<Rightarrow> turn \<Rightarrow> turn_executor \<Rightarrow> turn_result \<times> turn_executor" where
  "execute_without_shadow E Y t X =
     (case admit_turn E X t of
        Inl e \<Rightarrow> reject e X
      | Inr _ \<Rightarrow>
          (case debit_budget E t X of
             (Inl e, X) \<Rightarrow> reject e X
           | (Inr d, X) \<Rightarrow>
               let deferred = (tx_symbolic X \<and> tn_execution_proof t = None);
                   (pre, X) = state_hash E deferred X
               in (case commit_fee_nonce t (tx_ledger X) of
                  (Inl e, L) \<Rightarrow> reject e (on_ledger (\<lambda>_. L) X)
                | (Inr _, L) \<Rightarrow>
                    let X = on_ledger (\<lambda>_. L) X in
                    (case tn_execution_proof t of
                       Some proof_bytes \<Rightarrow> execute_proof_carrying E Y t proof_bytes d pre X
                     | None \<Rightarrow> execute_hosted E Y t d deferred pre X))))"

text \<open>A veto of the observer puts the ledger back, and the ledger alone.\<close>

definition execute ::
  "('a turn_crypto_scheme) \<Rightarrow> turn_externals \<Rightarrow> turn \<Rightarrow> turn_executor \<Rightarrow> turn_result \<times> turn_executor" where
  "execute E Y t X =
     (let (r, X') = execute_without_shadow E Y t X in
      case (if is_committed r then ext_veto Y t r (tx_ledger X') else None) of
        Some reason \<Rightarrow> reject (PeVeto reason) (on_ledger (\<lambda>_. tx_ledger X) X')
      | None \<Rightarrow> (r, X'))"

end
