(* ===== verification/ExecuteLaws.thy ===== *)
theory ExecuteLaws
  imports Execute ExecuteTreeLaws
begin

text \<open>
  What the execution of a turn guarantees: a rejected turn costs its fee and its nonce and leaves the view
  of the stores otherwise as it was, a committed turn creates no value, and the receipts of an agent form a hash chain. The forest inherits the
  laws of \<open>ExecuteTreeLaws\<close>; the other phases are followed through projections of the executor (the view of
  its stores, its budget gate, the heads of the receipt chains). The last section shows what some paths
  leave behind.
\<close>

section \<open>Projections\<close>

lemma on_ledger_simps [simp]:
  "tx_stores (on_ledger f X) = (tx_stores X)\<lparr>xs_ledger := f (tx_ledger X)\<rparr>"
  "tx_env (on_ledger f X) = tx_env X" "tx_budget_gate (on_ledger f X) = tx_budget_gate X"
  "tx_migrations (on_ledger f X) = tx_migrations X" "tx_last_write_set (on_ledger f X) = tx_last_write_set X"
  by (simp_all add: on_ledger_def)

lemma unlock_budget_simps [simp]:
  "tx_stores (unlock_budget d X) = tx_stores X" "tx_env (unlock_budget d X) = tx_env X"
  "tx_migrations (unlock_budget d X) = tx_migrations X" "tx_last_write_set (unlock_budget d X) = tx_last_write_set X"
  by (simp_all add: unlock_budget_def split: option.split prod.split)

lemma commit_budget_simps [simp]:
  "tx_stores (commit_budget d X) = tx_stores X" "tx_env (commit_budget d X) = tx_env X"
  by (simp_all add: commit_budget_def split: option.split prod.split)

lemma set_receipt_heads_simps [simp]:
  "tx_stores (set_receipt_heads m X) = tx_stores X" "x_last_receipt_hash (tx_exec (set_receipt_heads m X)) = m"
  by (simp_all add: set_receipt_heads_def)

section \<open>Materialising the root\<close>

lemma strip_digest: "strip_leaf (snd (cached_leaf_digest E c)) = strip_leaf c"
  by (simp add: cached_leaf_digest_def strip_leaf_def Let_def split: option.split)

lemma strip_update_leaf: "strip_cells (l_cells (update_leaf E i L)) = strip_cells (l_cells L)"
  by (auto simp: update_leaf_def strip_cells_def Let_def split_beta strip_digest split: option.split)

lemma strip_materialize: "strip_cells (l_cells (materialize E L)) = strip_cells (l_cells L)"
proof -
  have leaves: "strip_cells (l_cells (fold (update_leaf E) ids L)) = strip_cells (l_cells L)" for ids L
    by (induction ids arbitrary: L) (simp_all add: strip_update_leaf)
  have rebuild: "strip_cells (l_cells (rebuild_tree E L)) = strip_cells (l_cells L)" for L
    by (simp add: rebuild_tree_def Let_def strip_cells_def option.map_comp comp_def strip_digest)
  show ?thesis by (simp add: materialize_def Let_def leaves rebuild split: pending.split)
qed

definition same_content :: "exec_state \<Rightarrow> exec_state \<Rightarrow> bool" where
  "same_content S T \<longleftrightarrow> strip_cells (cell_at S) = strip_cells (cell_at T) \<and> sets_view S = sets_view T"

lemma state_hash_content:
  assumes "state_hash E deferred X = (h, X')"
  shows "same_content (tx_stores X') (tx_stores X)" "tx_env X' = tx_env X" "tx_budget_gate X' = tx_budget_gate X"
    "tx_migrations X' = tx_migrations X" "tx_last_write_set X' = tx_last_write_set X"
    "xs_journal (tx_stores X') = xs_journal (tx_stores X)"
  using assms
  by (auto simp: state_hash_def ledger_root_def Let_def same_content_def strip_materialize sets_view_def split: if_splits)

lemma strip_at:
  assumes "strip_cells a = strip_cells b"
  shows "map_option strip_leaf (a i) = map_option strip_leaf (b i)"
  using assms unfolding strip_cells_def by (rule fun_cong)

lemma strip_fields:
  assumes "strip_leaf c = strip_leaf d"
  shows "c_state c = c_state d" "c_id c = c_id d" "c_capabilities c = c_capabilities d" "journal_view c = journal_view d"
    "c_lifecycle c = c_lifecycle d" "invalidate_leaf_cache c = invalidate_leaf_cache d"
  using assms unfolding strip_leaf_def journal_view_def invalidate_leaf_cache_def
  by (cases c; cases d; simp)+

lemma strip_cases:
  assumes "strip_cells a = strip_cells b"
  obtains "a i = None" "b i = None" | c d where "a i = Some c" "b i = Some d" "strip_leaf c = strip_leaf d"
  using strip_at [OF assms, of i] by (cases "a i"; cases "b i") auto

lemma content_view:
  assumes "same_content S T"
  shows "stores_view S = stores_view T"
proof -
  have "cells_view (xs_ledger S) = cells_view (xs_ledger T)"
  proof
    fix i
    show "cells_view (xs_ledger S) i = cells_view (xs_ledger T) i"
      using assms unfolding same_content_def
      by (elim conjE strip_cases [where i = i]) (auto simp: cells_view_def dest: strip_fields)
  qed
  then show ?thesis using assms by (simp add: stores_view_def same_content_def)
qed

lemma content_ok:
  assumes "same_content S T" "cells_ok E T"
  shows "cells_ok E S"
  unfolding cells_ok_def
proof (intro allI impI)
  fix i c
  assume "cell_at S i = Some c"
  then obtain d where "cell_at T i = Some d" "strip_leaf c = strip_leaf d"
    using assms(1) unfolding same_content_def by (elim conjE strip_cases [where i = i]) auto
  then show "c_id c = i \<and> clist_wf (c_capabilities c) \<and> fields_sealed E c"
    using assms(2) by (auto simp: cells_ok_def fields_sealed_def dest: strip_fields)
qed

lemma content_total:
  assumes "same_content S T"
  shows "total_balance (cell_at S) = total_balance (cell_at T)" "dom (cell_at S) = dom (cell_at T)"
proof -
  have strip: "strip_cells (cell_at S) = strip_cells (cell_at T)" using assms by (simp add: same_content_def)
  then show d: "dom (cell_at S) = dom (cell_at T)" using dom_strip by metis
  have "cell_balance (the (cell_at S i)) = cell_balance (the (cell_at T i))" if "i \<in> dom (cell_at S)" for i
    by (rule strip_cases [OF strip, of i]) (use that in \<open>auto simp: cell_balance_def dest: strip_fields\<close>)
  then show "total_balance (cell_at S) = total_balance (cell_at T)"
    using d by (simp add: total_balance_def map_total_def)
qed

lemma content_trans: "same_content S T \<Longrightarrow> same_content T U \<Longrightarrow> same_content S U"
  by (simp add: same_content_def)

lemma content_with_cell:
  assumes "same_content S T"
  shows "same_content (with_cell i f S) (with_cell i f T)"
proof -
  have strip: "strip_cells (cell_at S) = strip_cells (cell_at T)" and sets: "sets_view S = sets_view T"
    using assms by (simp_all add: same_content_def)
  from strip have "strip_cells (cell_at (with_cell i f S)) = strip_cells (cell_at (with_cell i f T))"
  proof (cases rule: strip_cases [where i = i])
    case (2 c d)
    then show ?thesis using strip strip_fields(6) [OF 2(3)] by (simp add: with_cell_def strip_cells_upd)
  qed (simp add: with_cell_def strip)
  then show ?thesis using sets by (simp add: same_content_def with_cell_def sets_view_def)
qed

section \<open>Fee and nonce\<close>

text \<open>The payment of a turn: the fee is taken and the nonce goes up. When the nonce is at its maximum the code
  takes the fee first and then refuses; \<open>nonce_free\<close> says that this is not the case.\<close>

definition charge_fee :: "turn \<Rightarrow> exec_state \<Rightarrow> exec_state" where
  "charge_fee t S = with_cell (tn_agent t)
     (map_state (\<lambda>s. s\<lparr>st_balance := st_balance s - int (unat (tn_fee t))\<rparr>)) S"

definition pay_fee :: "turn \<Rightarrow> exec_state \<Rightarrow> exec_state" where
  "pay_fee t S = with_cell (tn_agent t)
     (map_state (\<lambda>s. s\<lparr>st_balance := st_balance s - int (unat (tn_fee t)), st_nonce := st_nonce s + 1\<rparr>)) S"

definition agent_ok :: "turn_executor \<Rightarrow> turn \<Rightarrow> bool" where
  "agent_ok X t \<longleftrightarrow> (case l_cells (tx_ledger X) (tn_agent t) of
     Some c \<Rightarrow> in_i64 (st_balance (c_state c)) | None \<Rightarrow> True)"

definition nonce_free :: "turn_executor \<Rightarrow> turn \<Rightarrow> bool" where
  "nonce_free X t \<longleftrightarrow> (case l_cells (tx_ledger X) (tn_agent t) of
     Some c \<Rightarrow> unat (st_nonce (c_state c)) + 1 < 2 ^ 64 | None \<Rightarrow> True)"

lemma fee_fits:
  fixes fee :: u64
  assumes "fee \<le> of_int b" "0 \<le> b" "in_i64 b"
  shows "unat fee < 2 ^ 63" "int (unat fee) \<le> b"
proof -
  have "uint (of_int b :: u64) = b" using assms(2,3) by (simp add: in_i64_def uint_word_of_int_eq take_bit_int_eq_self)
  then have "uint fee \<le> b" using assms(1) by (simp add: word_le_def)
  then show "int (unat fee) \<le> b" by simp
  have "uint fee < 2 ^ 63" using \<open>uint fee \<le> b\<close> assms(3) by (simp add: in_i64_def)
  then have "int (unat fee) < int (2 ^ 63)" by simp
  then show "unat fee < 2 ^ 63" by (simp only: of_nat_less_iff)
qed

lemma commit_fee_pays:
  assumes "cell_at S (tn_agent t) = Some c" "tn_fee t \<le> of_int (st_balance (c_state c))" "0 \<le> st_balance (c_state c)"
    and "in_i64 (st_balance (c_state c))" "unat (st_nonce (c_state c)) + 1 < 2 ^ 64"
  shows "commit_fee_nonce t (xs_ledger S) = (Inr (), xs_ledger (pay_fee t S))"
proof -
  note fits = fee_fits [OF assms(2,3,4)]
  show ?thesis
    using assms(1,5) fits
    by (simp add: commit_fee_nonce_def debit_balance_def increment_nonce_def i64_try_from_def checked_add_word_def Let_def
        pay_fee_def with_cell_def get_mut_with_def map_state_def invalidate_leaf_cache_def)
qed

lemma commit_fee_overflows:
  assumes "cell_at S (tn_agent t) = Some c" "tn_fee t \<le> of_int (st_balance (c_state c))" "0 \<le> st_balance (c_state c)"
    and "in_i64 (st_balance (c_state c))" "\<not> unat (st_nonce (c_state c)) + 1 < 2 ^ 64"
  shows "commit_fee_nonce t (xs_ledger S) = (Inl (pe_turn (TNonceOverflow (tn_agent t))), xs_ledger (charge_fee t S))"
proof -
  note fits = fee_fits [OF assms(2,3,4)]
  show ?thesis
    using assms(1,5) fits
    by (simp add: commit_fee_nonce_def debit_balance_def increment_nonce_def i64_try_from_def checked_add_word_def Let_def
        charge_fee_def with_cell_def get_mut_with_def map_state_def invalidate_leaf_cache_def)
qed

lemma pay_fee_ok: "cells_ok E S \<Longrightarrow> cells_ok E (pay_fee t S)"
  by (auto simp: cells_ok_def pay_fee_def with_cell_def map_state_def invalidate_leaf_cache_def fields_sealed_def
      split: option.splits if_splits)

section \<open>The forest\<close>

lemma forest_kept:
  assumes "shielded_distinct E"
  shows "run_forest E V n agent th budget k trees s = (r, t) \<Longrightarrow> kept E (ts_exec s) (ts_exec t)"
proof (induction trees arbitrary: k s)
  case (Cons tree trees)
  obtain q u where run: "execute_tree E V n agent th budget tree agent DmParentsOwn [k] s = (q, u)" by fastforce
  then have one: "kept E (ts_exec s) (ts_exec u)" using kept.tree_run [OF run] assms by blast
  show ?case
  proof (cases q)
    case (Inl e)
    then show ?thesis using Cons.prems run one by simp
  next
    case (Inr x)
    then show ?thesis using Cons.prems run Cons.IH [of "Suc k" u] kept_trans [OF one] by simp
  qed
qed (simp add: kept_refl)

lemma forest_shifts:
  assumes "shielded_distinct E"
  shows "run_forest E V n agent th budget k trees s = (Inr x, t) \<Longrightarrow>
    shifts (ts_excess s - ts_excess t) (ts_exec s) (ts_exec t)"
proof (induction trees arbitrary: k s)
  case (Cons tree trees)
  obtain q u where run: "execute_tree E V n agent th budget tree agent DmParentsOwn [k] s = (q, u)" by fastforce
  then obtain y where q: "q = Inr y" using Cons.prems by (cases q) auto
  then have "shifts (ts_excess s - ts_excess u) (ts_exec s) (ts_exec u)"
    using conserved.tree_run [OF run] assms by simp
  then show ?case
    using Cons.prems run q Cons.IH [of "Suc k" u] shifts_trans [of "ts_excess s - ts_excess u" _ _ "ts_excess u - ts_excess t"]
    by simp
qed simp

section \<open>Budget\<close>

lemma swap_remove_pushed:
  assumes "position x (xs @ [x]) = Some k"
  shows "swap_remove k (xs @ [x]) = xs"
proof (cases "k < length xs")
  case True
  then have "xs ! k = x" using position_Some [OF assms] by (simp add: nth_append)
  then show ?thesis using True list_update_id [of xs k] by (simp add: swap_remove_def list_update_append)
next
  case False
  then have "k = length xs" using position_Some [OF assms] by simp
  then show ?thesis by (simp add: swap_remove_def)
qed

lemma spent_restored:
  fixes spent amount ceiling :: u64
  assumes "amount \<le> saturating_sub_word ceiling spent"
  shows "saturating_sub_word (saturating_add_word spent amount) amount = spent"
proof (cases "spent \<le> ceiling")
  case True
  then have "unat spent + unat amount \<le> unat ceiling"
    using assms by (auto simp: saturating_sub_word_def word_le_nat_alt unat_sub)
  then have "unat spent + unat amount < 2 ^ 64" using unsigned_less [of ceiling, where 'a = nat] by simp
  then show ?thesis
    by (simp add: saturating_add_word_def saturating_sub_word_def word_le_nat_alt unat_word_ariths)
next
  case False
  then have "amount = 0" using assms by (simp add: saturating_sub_word_def)
  then show ?thesis
    using unsigned_less [of spent, where 'a = nat] by (simp add: saturating_add_word_def saturating_sub_word_def)
qed

lemma unlock_restores:
  assumes "gate_try_debit E fee th g = (Inr digest, g')"
  shows "fast_unlock fee digest g' = g"
proof -
  let ?b = "bg_slice g"
  have digest: "digest = compute_debit_digest E th" and le: "fee \<le> slice_remaining ?b"
    and g': "g' = g\<lparr>bg_slice := ?b\<lparr>bs_spent := saturating_add_word (bs_spent ?b) fee, bs_debits := bs_debits ?b @ [digest]\<rparr>\<rparr>"
    using assms by (auto simp: gate_debit_eq slice_try_debit_def not_less split: if_splits)
  obtain k where k: "position digest (bs_debits ?b @ [digest]) = Some k"
    using position_None [of digest "bs_debits ?b @ [digest]"] by auto
  have "saturating_sub_word (saturating_add_word (bs_spent ?b) fee) fee = bs_spent ?b"
    using le by (intro spent_restored) (simp add: slice_remaining_def)
  then show ?thesis by (simp add: g' fast_unlock_def slice_refund_def k swap_remove_pushed [OF k])
qed

lemma debit_budget_keeps:
  assumes "debit_budget E t X = (r, X1)"
  shows "tx_stores X1 = tx_stores X" "tx_env X1 = tx_env X" "tx_migrations X1 = tx_migrations X"
    "tx_last_write_set X1 = tx_last_write_set X" "isl r \<Longrightarrow> X1 = X"
  using assms by (auto simp: debit_budget_def gate_debit_eq split: option.splits prod.splits sum.splits if_splits)

lemma debit_budget_unlock:
  assumes "debit_budget E t X = (Inr d, X1)" "tx_budget_gate X2 = tx_budget_gate X1"
  shows "tx_budget_gate (unlock_budget d X2) = tx_budget_gate X"
  using assms by (auto simp: debit_budget_def unlock_budget_def unlock_restores split: option.splits prod.splits sum.splits)

section \<open>Rejected turns\<close>

lemma forest_rejected:
  assumes "shielded_distinct E" "cells_ok E (tx_stores X)" "tn_sovereign_witnesses t = []"
    and "execute_forest E Y t d deferred pre X = (TrRejected e path, X')"
  shows "stores_view (tx_stores X') = stores_view (tx_stores X)"
    and "tx_env X' = tx_env X" "tx_migrations X' = tx_migrations X" "tx_last_write_set X' = tx_last_write_set X"
    and "tx_budget_gate X' = tx_budget_gate (unlock_budget d X)"
proof -
  define s0 where "s0 = \<lparr>ts_exec = (tx_stores X)\<lparr>xs_journal := []\<rparr>, ts_computrons_used = 0,
    ts_effects_hashes = [], ts_excess = 0\<rparr>"
  obtain r s where run: "run_forest E (tx_env X) (tn_nonce t) (tn_agent t) (turn_hash E t) (tn_fee t) 0 (tn_call_forest t) s0 = (r, s)"
    by fastforce
  have X': "X' = abort_turn E [] d (ts_exec s) X"
    using assms(3,4) run by (auto simp: execute_forest_def Let_def s0_def finish_turn_def split_beta split: sum.splits)
  have "cells_ok E (ts_exec s0)" "xs_journal (ts_exec s0) = []" using assms(2) by (simp_all add: s0_def cells_ok_def)
  then have "stores_view (rollback E (xs_journal (ts_exec s)) (ts_exec s)) = stores_view (ts_exec s0)"
    using forest_kept [OF assms(1) run] by (auto simp: kept_def journalled_def undoable_def)
  then show "stores_view (tx_stores X') = stores_view (tx_stores X)"
    by (simp add: X' abort_turn_def remove_cells_def s0_def stores_view_def sets_view_def)
  show "tx_env X' = tx_env X" "tx_migrations X' = tx_migrations X" "tx_last_write_set X' = tx_last_write_set X"
    by (simp_all add: X' abort_turn_def)
  show "tx_budget_gate X' = tx_budget_gate (unlock_budget d X)"
    by (simp add: X' abort_turn_def unlock_budget_def split: option.split prod.split)
qed

lemma hosted_rejected:
  assumes "shielded_distinct E" "cells_ok E (tx_stores X)" "tn_sovereign_witnesses t = []"
    and "execute_hosted E Y t d deferred pre X = (TrRejected e path, X')"
  shows "stores_view (tx_stores X') = stores_view (tx_stores X)"
    and "tx_env X' = tx_env X" "tx_migrations X' = tx_migrations X" "tx_last_write_set X' = tx_last_write_set X"
    and "tx_budget_gate X' = tx_budget_gate (unlock_budget d X)"
proof -
  let ?X = "on_ledger (\<lambda>_. tx_ledger X) X"
  have same: "?X = X" by (simp add: on_ledger_def)
  consider "X' = unlock_budget d (on_ledger (remove_cells []) X)" | "execute_forest E Y t d deferred pre X = (TrRejected e path, X')"
    using assms(3,4) same by (auto simp: execute_hosted_def reject_def Let_def split: sum.splits if_splits)
  then have "stores_view (tx_stores X') = stores_view (tx_stores X) \<and> tx_env X' = tx_env X \<and>
      tx_migrations X' = tx_migrations X \<and> tx_last_write_set X' = tx_last_write_set X \<and>
      tx_budget_gate X' = tx_budget_gate (unlock_budget d X)"
  proof cases
    case 1
    then show ?thesis by (simp add: remove_cells_def unlock_budget_def split: option.split prod.split)
  next
    case 2
    from forest_rejected [OF assms(1-3) this] show ?thesis by blast
  qed
  then show "stores_view (tx_stores X') = stores_view (tx_stores X)" "tx_env X' = tx_env X"
    "tx_migrations X' = tx_migrations X" "tx_last_write_set X' = tx_last_write_set X"
    "tx_budget_gate X' = tx_budget_gate (unlock_budget d X)" by blast+
qed

lemma admitted_agent:
  assumes "admit_turn E X t = Inr ()" "agent_ok X t" "same_content (tx_stores X1) (tx_stores X)"
  obtains c where "l_cells (tx_ledger X1) (tn_agent t) = Some c" "0 \<le> st_balance (c_state c)"
    "tn_fee t \<le> of_int (st_balance (c_state c))" "in_i64 (st_balance (c_state c))"
    "nonce_free X t \<longleftrightarrow> unat (st_nonce (c_state c)) + 1 < 2 ^ 64"
proof -
  obtain c where c: "l_cells (tx_ledger X) (tn_agent t) = Some c"
    and bal: "0 \<le> st_balance (c_state c)" "tn_fee t \<le> of_int (st_balance (c_state c))"
    using assms(1) by (auto simp: admit_turn_def admit_agent_def and_then_ok)
  have strip: "strip_cells (l_cells (tx_ledger X1)) = strip_cells (l_cells (tx_ledger X))"
    using assms(3) by (simp add: same_content_def)
  have "map_option strip_leaf (l_cells (tx_ledger X1) (tn_agent t)) = Some (strip_leaf c)"
    using strip_at [OF strip, of "tn_agent t"] c by simp
  then obtain c1 where c1: "l_cells (tx_ledger X1) (tn_agent t) = Some c1" "strip_leaf c1 = strip_leaf c"
    unfolding map_option_eq_Some by blast
  show ?thesis
    by (rule that [OF c1(1)])
      (use strip_fields(1) [OF c1(2)] bal assms(2) c in \<open>simp_all add: agent_ok_def nonce_free_def\<close>)
qed

lemma admitted_pays:
  assumes "admit_turn E X t = Inr ()" "agent_ok X t" "same_content (tx_stores X1) (tx_stores X)" "nonce_free X t"
  obtains L where "commit_fee_nonce t (tx_ledger X1) = (Inr (), L)"
    "same_content ((tx_stores X1)\<lparr>xs_ledger := L\<rparr>) (pay_fee t (tx_stores X))"
proof -
  obtain c where c: "l_cells (tx_ledger X1) (tn_agent t) = Some c" "0 \<le> st_balance (c_state c)"
    "tn_fee t \<le> of_int (st_balance (c_state c))" "in_i64 (st_balance (c_state c))"
    "nonce_free X t \<longleftrightarrow> unat (st_nonce (c_state c)) + 1 < 2 ^ 64"
    using admitted_agent [OF assms(1-3)] by blast
  have paid: "commit_fee_nonce t (tx_ledger X1) = (Inr (), xs_ledger (pay_fee t (tx_stores X1)))"
    using commit_fee_pays [OF c(1)] c assms(4) by simp
  have "(tx_stores X1)\<lparr>xs_ledger := xs_ledger (pay_fee t (tx_stores X1))\<rparr> = pay_fee t (tx_stores X1)"
    by (simp add: pay_fee_def with_cell_def)
  moreover have "same_content (pay_fee t (tx_stores X1)) (pay_fee t (tx_stores X))"
    unfolding pay_fee_def by (rule content_with_cell [OF assms(3)])
  ultimately show ?thesis using that [OF paid] by simp
qed

lemma admitted_overflows:
  assumes "admit_turn E X t = Inr ()" "agent_ok X t" "same_content (tx_stores X1) (tx_stores X)" "\<not> nonce_free X t"
  obtains L where "commit_fee_nonce t (tx_ledger X1) = (Inl (pe_turn (TNonceOverflow (tn_agent t))), L)"
    "same_content ((tx_stores X1)\<lparr>xs_ledger := L\<rparr>) (charge_fee t (tx_stores X))"
proof -
  obtain c where c: "l_cells (tx_ledger X1) (tn_agent t) = Some c" "0 \<le> st_balance (c_state c)"
    "tn_fee t \<le> of_int (st_balance (c_state c))" "in_i64 (st_balance (c_state c))"
    "nonce_free X t \<longleftrightarrow> unat (st_nonce (c_state c)) + 1 < 2 ^ 64"
    using admitted_agent [OF assms(1-3)] by blast
  have taken: "commit_fee_nonce t (tx_ledger X1) =
      (Inl (pe_turn (TNonceOverflow (tn_agent t))), xs_ledger (charge_fee t (tx_stores X1)))"
    using commit_fee_overflows [OF c(1)] c assms(4) by simp
  have "(tx_stores X1)\<lparr>xs_ledger := xs_ledger (charge_fee t (tx_stores X1))\<rparr> = charge_fee t (tx_stores X1)"
    by (simp add: charge_fee_def with_cell_def)
  moreover have "same_content (charge_fee t (tx_stores X1)) (charge_fee t (tx_stores X))"
    unfolding charge_fee_def by (rule content_with_cell [OF assms(3)])
  ultimately show ?thesis using that [OF taken] by simp
qed

lemma committed_nonce_free:
  assumes "admit_turn E X t = Inr ()" "agent_ok X t"
    and "execute_without_shadow E Y t X = (TrCommitted delta r used, X')"
  shows "nonce_free X t"
proof (rule ccontr)
  assume over: "\<not> nonce_free X t"
  obtain q X1 where debit: "debit_budget E t X = (q, X1)" by fastforce
  obtain pre X2 where hash: "state_hash E (tx_symbolic X1 \<and> tn_execution_proof t = None) X1 = (pre, X2)" by fastforce
  have "same_content (tx_stores X2) (tx_stores X)"
    using state_hash_content(1) [OF hash] debit_budget_keeps(1) [OF debit] by simp
  then obtain L where "commit_fee_nonce t (tx_ledger X2) = (Inl (pe_turn (TNonceOverflow (tn_agent t))), L)"
    using admitted_overflows [OF assms(1,2) _ over] by blast
  then show False
    using assms(1,3) debit hash by (cases q) (simp_all add: execute_without_shadow_def reject_def)
qed

text \<open>What a rejected turn has paid: nothing before the fee phase, the fee and the nonce after it, and the fee
  alone when its nonce cannot go up.\<close>

definition fee_reached :: "('a turn_crypto_scheme) \<Rightarrow> turn \<Rightarrow> turn_executor \<Rightarrow> bool" where
  "fee_reached E t X \<longleftrightarrow> admit_turn E X t = Inr () \<and> \<not> isl (fst (debit_budget E t X))"

definition paid_stores :: "('a turn_crypto_scheme) \<Rightarrow> turn \<Rightarrow> turn_executor \<Rightarrow> exec_state" where
  "paid_stores E t X =
     (if \<not> fee_reached E t X then tx_stores X
      else if nonce_free X t then pay_fee t (tx_stores X) else charge_fee t (tx_stores X))"

definition paid_gate :: "('a turn_crypto_scheme) \<Rightarrow> turn \<Rightarrow> turn_executor \<Rightarrow> budget_gate option" where
  "paid_gate E t X =
     (if fee_reached E t X \<and> \<not> nonce_free X t then tx_budget_gate (snd (debit_budget E t X)) else tx_budget_gate X)"

text \<open>C1. What a rejected turn costs. Take a turn without an execution proof and without sovereign witnesses
  that is rejected, at whatever check and however deep in its call forest. If it was refused before the
  fee phase, it costs nothing. Otherwise the stores look as if the agent had only paid the fee and moved its
  nonce, and the budget of the silo is back where it was; but a turn whose nonce is at the maximum pays the
  fee, leaves the nonce alone and keeps the budget debited. The heads of the receipt chains, the rate
  counters, the table of migrations and the last write set are in every case exactly what they were.

  The stores are compared by \<open>stores_view\<close>: which cells exist, all parts of a cell but those named next, the
  capability in each slot of its c-list, and the entries of the four append-only sets. It leaves out the
  stored commitments of fields and the order, tombstones and slot counter of a c-list, which a rollback does
  not bring back, the factory counts, which a rejected turn uses up, and the digest memo, the sovereign
  commitments and the public-key index.\<close>

theorem rejected_turn_only_pays:
  assumes "shielded_distinct E" "cells_ok E (tx_stores X)" "agent_ok X t"
    and "tn_execution_proof t = None" "tn_sovereign_witnesses t = []"
    and "execute_without_shadow E Y t X = (TrRejected e path, X')"
  shows "stores_view (tx_stores X') = stores_view (paid_stores E t X) \<and> tx_budget_gate X' = paid_gate E t X \<and>
    tx_env X' = tx_env X \<and> tx_migrations X' = tx_migrations X \<and> tx_last_write_set X' = tx_last_write_set X"
proof (cases "fee_reached E t X")
  case False
  then have "X' = X"
    using assms(6) debit_budget_keeps(5) [OF prod.collapse [symmetric], of E t X]
    by (auto simp: execute_without_shadow_def reject_def fee_reached_def split: sum.splits prod.splits)
  then show ?thesis using False by (simp add: paid_stores_def paid_gate_def)
next
  case reached: True
  then obtain d X1 where adm: "admit_turn E X t = Inr ()" and debit: "debit_budget E t X = (Inr d, X1)"
    by (cases "debit_budget E t X"; cases "fst (debit_budget E t X)") (auto simp: fee_reached_def)
  note keeps = debit_budget_keeps [OF debit]
  let ?df = "tx_symbolic X1 \<and> tn_execution_proof t = None"
  obtain pre X2 where hash: "state_hash E ?df X1 = (pre, X2)" by fastforce
  note same = state_hash_content [OF hash]
  have content: "same_content (tx_stores X2) (tx_stores X)" using same(1) keeps(1) by simp
  show ?thesis
  proof (cases "nonce_free X t")
    case False
    then obtain L where taken: "commit_fee_nonce t (tx_ledger X2) = (Inl (pe_turn (TNonceOverflow (tn_agent t))), L)"
      and pay: "same_content ((tx_stores X2)\<lparr>xs_ledger := L\<rparr>) (charge_fee t (tx_stores X))"
      using admitted_overflows [OF adm assms(3) content] by blast
    then have "X' = on_ledger (\<lambda>_. L) X2"
      using assms(6) adm debit hash by (simp add: execute_without_shadow_def reject_def)
    then show ?thesis
      using reached False same keeps debit content_view [OF pay] by (simp add: paid_stores_def paid_gate_def)
  next
    case True
    then obtain L where paid: "commit_fee_nonce t (tx_ledger X2) = (Inr (), L)"
      and pay: "same_content ((tx_stores X2)\<lparr>xs_ledger := L\<rparr>) (pay_fee t (tx_stores X))"
      using admitted_pays [OF adm assms(3) content] by blast
    let ?X = "on_ledger (\<lambda>_. L) X2"
    have ok: "cells_ok E (tx_stores ?X)"
      using content_ok [OF pay pay_fee_ok [OF assms(2)]] by simp
    have run: "execute_hosted E Y t d ?df pre ?X = (TrRejected e path, X')"
      using assms(4,6) adm debit hash paid by (simp add: execute_without_shadow_def)
    note rej = hosted_rejected [OF assms(1) ok assms(5) run]
    have "tx_budget_gate (unlock_budget d ?X) = tx_budget_gate X"
      using debit same(3) by (intro debit_budget_unlock) simp_all
    then show ?thesis
      using rej same keeps reached True content_view [OF pay] by (simp add: paid_stores_def paid_gate_def)
  qed
qed

section \<open>Receipt chains\<close>

abbreviation heads :: "turn_executor \<Rightarrow> cell_id \<rightharpoonup> bytes32" where
  "heads X \<equiv> x_last_receipt_hash (tx_exec X)"

lemma count_env: "tv_exec (count_constraint sender J i c constraint V) = tv_exec V"
  by (simp add: count_constraint_def Let_def split: option.split prod.split)

lemma count_cell_env: "tv_exec (count_cell sender L J i V) = tv_exec V"
proof -
  have "tv_exec (fold (count_constraint sender J i c) cs V) = tv_exec V" for c cs V
    by (induction cs arbitrary: V) (simp_all add: count_env)
  then show ?thesis by (simp add: count_cell_def split: option.split cell_program.split)
qed

lemma counters_keep:
  "tx_exec (record_state_constraint_counters t X) = tx_exec X"
  "tx_stores (record_state_constraint_counters t X) = tx_stores X"
proof -
  have "tv_exec (fold (count_cell sender L J) ids V) = tv_exec V" for sender L J ids V
    by (induction ids arbitrary: V) (simp_all add: count_cell_env)
  then show "tx_exec (record_state_constraint_counters t X) = tx_exec X"
    "tx_stores (record_state_constraint_counters t X) = tx_stores X"
    by (simp_all add: record_state_constraint_counters_def Let_def split: option.split)
qed

definition head_step ::
  "('a turn_crypto_scheme) \<Rightarrow> turn \<Rightarrow> turn_executor \<Rightarrow> turn_result \<times> turn_executor \<Rightarrow> bool" where
  "head_step E t X m =
     (case fst m of
        TrRejected _ _ \<Rightarrow> heads (snd m) = heads X
      | TrCommitted _ r _ \<Rightarrow> tr_agent r = tn_agent t \<and> tr_previous_receipt_hash r = tn_previous_receipt_hash t \<and>
          heads (snd m) = (heads X)(tn_agent t \<mapsto> receipt_hash E r))"

lemma head_step_rejected: "tx_env X' = tx_env X \<Longrightarrow> head_step E t X (TrRejected e path, X')"
  by (simp add: head_step_def)

lemma head_step_reject: "tx_env X' = tx_env X \<Longrightarrow> head_step E t X (reject e X')"
  by (simp add: head_step_rejected reject_def)

lemma abort_env: "tx_env (abort_turn E ids d S X) = tx_env X"
  by (simp add: abort_turn_def)

lemma head_step_attested: "head_step E t X (commit_attested E Y t pre post X)"
  by (simp add: head_step_def commit_attested_def Let_def attested_receipt_def sign_receipt_def record_receipt_hash_def)

lemma head_step_cong: "tx_env X = tx_env X' \<Longrightarrow> head_step E t X m = head_step E t X' m"
  by (simp add: head_step_def split: turn_result.split)

lemma head_step_proof: "head_step E t X (execute_proof_carrying E Y t proof_bytes d pre X)"
proof -
  have "head_step E t X (commit_attested E Y t pre post X')" if "state_hash E df (share_fee fee (commit_budget d (on_ledger f X))) = (post, X')"
    for df fee f post X'
    using head_step_attested [of E t X' Y pre post] head_step_cong [of X X' E t] state_hash_content(2) [OF that]
    by (simp add: share_fee_def)
  then show ?thesis
    unfolding execute_proof_carrying_def Let_def
    by (auto intro: head_step_reject split: option.split sum.split prod.split)
qed

lemma state_hash_env: "tx_env (snd (state_hash E df X)) = tx_env X"
  by (simp add: state_hash_def Let_def split_beta)

lemma head_step_finish: "head_step E t X (finish_turn E Y t d deferred pre s X)"
  by (simp add: head_step_def finish_turn_def Let_def split_beta forest_receipt_def sign_receipt_def
      record_receipt_hash_def counters_keep share_fee_def state_hash_env set_receipt_heads_def)

lemma head_step_hosted: "head_step E t X (execute_hosted E Y t d deferred pre X)"
proof -
  have forest: "head_step E t X (execute_forest E Y t d deferred pre X)" for X
    unfolding execute_forest_def Let_def
    by (auto intro!: head_step_finish head_step_rejected simp: abort_env split: sum.split prod.split)
  have "head_step E t X (execute_forest E Y t d deferred pre (on_ledger f X))" for f
    using forest [of "on_ledger f X"] head_step_cong [of X "on_ledger f X" E t] by simp
  then show ?thesis
    unfolding execute_hosted_def Let_def
    by (auto intro: head_step_reject split: sum.split prod.split)
qed

lemma head_step_execute: "head_step E t X (execute_without_shadow E Y t X)"
proof (cases "admit_turn E X t")
  case (Inr u)
  obtain r X1 where debit: "debit_budget E t X = (r, X1)" by fastforce
  then have env1: "tx_env X1 = tx_env X" by (rule debit_budget_keeps)
  obtain pre X2 where hash: "state_hash E (tx_symbolic X1 \<and> tn_execution_proof t = None) X1 = (pre, X2)" by fastforce
  have env2: "tx_env X2 = tx_env X" using env1 state_hash_content(2) [OF hash] by simp
  have step: "head_step E t X m" if "head_step E t (on_ledger f X2) m" for f m
    using that head_step_cong [of X "on_ledger f X2" E t] env2 by simp
  show ?thesis
    unfolding execute_without_shadow_def
    by (auto simp: Inr debit hash env1 env2 Let_def intro!: head_step_reject step head_step_proof head_step_hosted
        split: sum.split prod.split option.split)
qed (simp add: execute_without_shadow_def head_step_reject)

lemma committed_admitted:
  assumes "execute_without_shadow E Y t X = (TrCommitted delta r used, X')"
  shows "tn_previous_receipt_hash t = heads X (tn_agent t)"
proof -
  have "admit_turn E X t = Inr ()"
    using assms by (cases "admit_turn E X t") (simp_all add: execute_without_shadow_def reject_def)
  then show ?thesis
    by (simp add: admit_turn_def and_then_ok check_previous_receipt_hash_def get_last_receipt_hash_def)
qed

text \<open>The receipts that a sequence of turns gives an agent, and what it is for them to form a chain.\<close>

fun run_turns ::
  "('a turn_crypto_scheme) \<Rightarrow> turn_externals \<Rightarrow> turn list \<Rightarrow> turn_executor \<Rightarrow> turn_result list \<times> turn_executor" where
  "run_turns E Y [] X = ([], X)"
| "run_turns E Y (t # ts) X =
     (let (r, X1) = execute_without_shadow E Y t X; (rs, X2) = run_turns E Y ts X1 in (r # rs, X2))"

fun receipts_of :: "cell_id \<Rightarrow> turn_result list \<Rightarrow> turn_receipt list" where
  "receipts_of a [] = []"
| "receipts_of a (TrCommitted _ r _ # rs) = (if tr_agent r = a then r # receipts_of a rs else receipts_of a rs)"
| "receipts_of a (TrRejected _ _ # rs) = receipts_of a rs"

fun receipt_chain :: "('a turn_crypto_scheme) \<Rightarrow> bytes32 option \<Rightarrow> turn_receipt list \<Rightarrow> bytes32 option \<Rightarrow> bool" where
  "receipt_chain E h [] h' \<longleftrightarrow> h = h'"
| "receipt_chain E h (r # rs) h' \<longleftrightarrow> tr_previous_receipt_hash r = h \<and> receipt_chain E (Some (receipt_hash E r)) rs h'"

text \<open>C2. The receipts of an agent form one hash chain. Run any sequence of turns of any agents, committed or
  rejected, hosted or proof-carrying. The receipts of each agent, in order, name their predecessor: the
  first names the head the executor had stored for the agent, every other one the hash of the one
  before, and the head stored in the end is the hash of the last. So no turn is accepted twice unless
  its receipt has the hash it names, and no receipt of an agent can be left out.\<close>

theorem receipts_form_chain:
  "run_turns E Y ts X = (rs, X') \<Longrightarrow> receipt_chain E (heads X a) (receipts_of a rs) (heads X' a)"
proof (induction ts arbitrary: X rs)
  case (Cons t ts)
  obtain m X1 where run: "execute_without_shadow E Y t X = (m, X1)" by fastforce
  obtain ms X2 where rest: "run_turns E Y ts X1 = (ms, X2)" by fastforce
  have rs: "rs = m # ms" "X' = X2" using Cons.prems run rest by auto
  have step: "head_step E t X (m, X1)" using head_step_execute [of E t X Y] run by simp
  show ?case
  proof (cases m)
    case (TrCommitted delta r used)
    then show ?thesis
      using step Cons.IH [OF rest [folded rs(2)]] committed_admitted [of E Y t X] run by (auto simp: rs head_step_def)
  next
    case (TrRejected e path)
    then show ?thesis using step Cons.IH [OF rest [folded rs(2)]] by (simp add: rs head_step_def)
  qed
qed simp

section \<open>Committed turns\<close>

lemma pay_total:
  assumes "finite (dom (cell_at S))" "cell_at S (tn_agent t) = Some c"
  shows "total_balance (cell_at (pay_fee t S)) = total_balance (cell_at S) - int (unat (tn_fee t))"
    "dom (cell_at (pay_fee t S)) = dom (cell_at S)"
  using assms
  by (auto simp: pay_fee_def with_cell_def total_balance_write cell_balance_def map_state_def invalidate_leaf_cache_def)

lemma distribute_bounds:
  assumes "finite (dom (l_cells L))"
  shows "total_balance (l_cells L) \<le> total_balance (l_cells (distribute_fee_shares p q w fee L))"
    and "total_balance (l_cells (distribute_fee_shares p q w fee L)) \<le> total_balance (l_cells L) + int (unat fee)"
    and "dom (l_cells (distribute_fee_shares p q w fee L)) = dom (l_cells L)"
proof -
  obtain a L1 where 1: "credit_cell p (proposer_share fee) L = (a, L1)" by fastforce
  obtain b L2 where 2: "credit_cell q (treasury_share fee) L1 = (b, L2)" by fastforce
  define d where "d = (if a then proposer_share fee else 0) + (if b then treasury_share fee else 0)"
  obtain x L3 where 3: "credit_cell w (fee - d) L2 = (x, L3)" by fastforce
  note e1 = credit_cell_effect [OF 1 assms]
  have f1: "finite (dom (l_cells L1))" using e1(1) assms by simp
  note e2 = credit_cell_effect [OF 2 f1]
  have f2: "finite (dom (l_cells L2))" using e2(1) f1 by simp
  note e3 = credit_cell_effect [OF 3 f2]
  have d: "unat d = (if a then unat (proposer_share fee) else 0) + (if b then unat (treasury_share fee) else 0)"
    unfolding d_def by (rule unat_delivered)
  have le: "unat d \<le> unat fee" using d treasury_small [of fee] by (auto split: if_splits)
  then have rest: "unat (fee - d) = unat fee - unat d" by (simp add: unat_sub word_le_nat_alt)
  have total: "total_balance (l_cells L3) = total_balance (l_cells L) + int (unat d + (if x then unat fee - unat d else 0))"
    using e1(2) e2(2) e3(2) d rest by (auto split: if_splits)
  have out: "distribute_fee_shares p q w fee L = L3"
    using 3 by (simp add: distribute_fee_shares_def 1 2 d_def [symmetric])
  show "dom (l_cells (distribute_fee_shares p q w fee L)) = dom (l_cells L)" using out e1(1) e2(1) e3(1) by simp
  have "int (unat d + (if x then unat fee - unat d else 0)) \<le> int (unat fee)"
    using le by (intro of_nat_mono) simp
  then show "total_balance (l_cells L) \<le> total_balance (l_cells (distribute_fee_shares p q w fee L))"
    "total_balance (l_cells (distribute_fee_shares p q w fee L)) \<le> total_balance (l_cells L) + int (unat fee)"
    using total unfolding out by linarith+
qed

lemma stamp_worth:
  assumes "finite (dom (cell_at S))"
  shows "worth (stamp_height h i S) = worth S" "finite (dom (cell_at (stamp_height h i S)))"
  using assms
  by (auto simp: stamp_height_def worth_def with_cell_def record_entry_def journal_push_def total_balance_write
      cell_balance_def map_state_def invalidate_leaf_cache_def split: option.split)

lemma stamps_worth:
  assumes "finite (dom (cell_at S))"
  shows "worth (stamp_heights h S) = worth S" "finite (dom (cell_at (stamp_heights h S)))"
proof -
  have "finite (dom (cell_at S)) \<Longrightarrow>
      worth (fold (stamp_height h) ids S) = worth S \<and> finite (dom (cell_at (fold (stamp_height h) ids S)))" for ids S
    by (induction ids arbitrary: S) (simp_all add: stamp_worth)
  then show "worth (stamp_heights h S) = worth S" "finite (dom (cell_at (stamp_heights h S)))"
    using assms by (simp_all add: stamp_heights_def)
qed

lemma finish_worth:
  assumes "finish_turn E Y t d deferred pre s X = (res, X')" "tn_sovereign_witnesses t = []" "finite (dom (cell_at (ts_exec s)))"
  shows "worth (ts_exec s) \<le> worth (tx_stores X')" "worth (tx_stores X') \<le> worth (ts_exec s) + int (unat (tn_fee t))"
proof -
  define X1 where "X1 = commit_budget d (on_ledger (settle_witnesses E []) (X\<lparr>tx_stores := ts_exec s\<rparr>))"
  define X2 where "X2 = X1\<lparr>tx_stores := stamp_heights (tv_height (tx_env X1)) (tx_stores X1)\<rparr>"
  define X3 where "X3 = record_state_constraint_counters t (share_fee (tn_fee t) X2)"
  obtain post X4 where hash: "state_hash E deferred X3 = (post, X4)" by fastforce
  have X': "tx_stores X' = tx_stores X4"
    using assms(1,2) hash
    by (auto simp: finish_turn_def Let_def X1_def [symmetric] X2_def [symmetric] X3_def [symmetric] record_receipt_hash_def)
  have s1: "tx_stores X1 = ts_exec s" by (simp add: X1_def settle_witnesses_def)
  have w2: "worth (tx_stores X2) = worth (ts_exec s)" "finite (dom (cell_at (tx_stores X2)))"
    using stamps_worth [OF assms(3)] by (simp_all add: X2_def s1)
  have w4: "worth (tx_stores X4) = worth (tx_stores X3)"
    using content_total(1) [OF state_hash_content(1) [OF hash]] state_hash_content(6) [OF hash] by (simp add: worth_def)
  have s3: "tx_stores X3 = (tx_stores X2)\<lparr>xs_ledger := distribute_fee_shares (tx_proposer_cell X2) (tx_treasury_cell X2)
      (tx_fee_well_cell X2) (tn_fee t) (tx_ledger X2)\<rparr>"
    by (simp add: X3_def counters_keep share_fee_def)
  show "worth (ts_exec s) \<le> worth (tx_stores X')" "worth (tx_stores X') \<le> worth (ts_exec s) + int (unat (tn_fee t))"
    using distribute_bounds [OF w2(2), of "tx_proposer_cell X2" "tx_treasury_cell X2" "tx_fee_well_cell X2" "tn_fee t"] w2(1) w4
    by (simp_all add: X' worth_def s3)
qed

text \<open>C3. A committed turn creates no value and pays for its work. Take a turn without an execution proof and
  without sovereign witnesses that commits. The sum of the hosted balances, plus the balances of the
  cells it made sovereign, is not more than before and not less than before by more than the fee; the
  computrons it used are those of its receipt and at most its fee; and its journal starts from the empty
  one, so the sum is that of this turn alone.\<close>

theorem committed_turn_creates_nothing:
  assumes "shielded_distinct E" "finite (dom (l_cells (tx_ledger X)))" "agent_ok X t"
    and "tn_execution_proof t = None" "tn_sovereign_witnesses t = []"
    and "execute_without_shadow E Y t X = (TrCommitted delta r used, X')"
  shows "worth (tx_stores X') \<le> total_balance (l_cells (tx_ledger X)) \<and>
    total_balance (l_cells (tx_ledger X)) - int (unat (tn_fee t)) \<le> worth (tx_stores X') \<and>
    tr_computrons_used r = used \<and> used \<le> tn_fee t"
proof -
  have adm: "admit_turn E X t = Inr ()"
    using assms(6) by (cases "admit_turn E X t") (simp_all add: execute_without_shadow_def reject_def)
  then obtain c where c: "cell_at (tx_stores X) (tn_agent t) = Some c"
    by (auto simp: admit_turn_def admit_agent_def and_then_ok)
  obtain rr X1 where debit: "debit_budget E t X = (rr, X1)" by fastforce
  obtain d where d: "rr = Inr d"
    using assms(6) adm debit by (cases rr) (simp_all add: execute_without_shadow_def reject_def)
  let ?df = "tx_symbolic X1 \<and> tn_execution_proof t = None"
  obtain pre X2 where hash: "state_hash E ?df X1 = (pre, X2)" by fastforce
  have content: "same_content (tx_stores X2) (tx_stores X)"
    using state_hash_content(1) [OF hash] debit_budget_keeps(1) [OF debit] by simp
  obtain L where paid: "commit_fee_nonce t (tx_ledger X2) = (Inr (), L)"
    and pay: "same_content ((tx_stores X2)\<lparr>xs_ledger := L\<rparr>) (pay_fee t (tx_stores X))"
    using admitted_pays [OF adm assms(3) content committed_nonce_free [OF adm assms(3,6)]] by blast
  define X3 where "X3 = on_ledger (\<lambda>_. L) X2"
  have total: "total_balance (cell_at (tx_stores X3)) = total_balance (l_cells (tx_ledger X)) - int (unat (tn_fee t))"
    and fin: "finite (dom (cell_at (tx_stores X3)))"
    using content_total [OF pay] pay_total [OF assms(2) c] assms(2) by (simp_all add: X3_def)
  have run: "execute_hosted E Y t d ?df pre X3 = (TrCommitted delta r used, X')"
    using assms(4,6) adm debit d hash paid by (simp add: execute_without_shadow_def X3_def)
  have same: "on_ledger (\<lambda>_. tx_ledger X3) X3 = X3" by (simp add: on_ledger_def)
  define s0 where "s0 = \<lparr>ts_exec = (tx_stores X3)\<lparr>xs_journal := []\<rparr>, ts_computrons_used = 0,
    ts_effects_hashes = [], ts_excess = 0\<rparr>"
  have forest: "execute_forest E Y t d ?df pre X3 = (TrCommitted delta r used, X')"
    using run assms(5) same by (auto simp: execute_hosted_def reject_def Let_def split: sum.splits if_splits)
  obtain q s where walk: "run_forest E (tx_env X3) (tn_nonce t) (tn_agent t) (turn_hash E t) (tn_fee t) 0 (tn_call_forest t) s0 = (q, s)"
    by fastforce
  have q: "q = Inr ()" and fine: "check_forest_end E Y t s = Inr ()"
    and fin_run: "finish_turn E Y t d ?df pre s X3 = (TrCommitted delta r used, X')"
    using forest walk by (auto simp: execute_forest_def Let_def s0_def split: sum.splits)
  have "shifts 0 (ts_exec s0) (ts_exec s)"
    using forest_shifts [OF assms(1) walk [unfolded q]] fine by (simp add: s0_def check_forest_end_def and_then_ok)
  then have w: "worth (ts_exec s) = total_balance (cell_at (tx_stores X3))" "finite (dom (cell_at (ts_exec s)))"
    using fin by (simp_all add: shifts_def s0_def worth_def exported_def)
  have "tr_computrons_used r = used" "used \<le> tn_fee t"
    using fin_run fine by (auto simp: finish_turn_def Let_def split_beta forest_receipt_def sign_receipt_def
        check_forest_end_def and_then_ok)
  then show ?thesis using finish_worth [OF fin_run assms(5) w(2)] w(1) total by simp
qed

section \<open>Runs\<close>

text \<open>Agent 1 sends an empty action to itself and pays ten units.\<close>

definition demo_idle :: call_tree where
  "demo_idle = CallTree (demo_action 1 (AuSignature 1 0) []) []"

definition demo_idle_turn :: turn where
  "demo_idle_turn = \<lparr>tn_agent = 1, tn_nonce = 0, tn_call_forest = [demo_idle], tn_fee = 10, tn_memo = None,
     tn_valid_until = None, tn_previous_receipt_hash = None, tn_depends_on = [], tn_conservation_proof = None,
     tn_sovereign_witnesses = [], tn_execution_proof = None, tn_execution_proof_cell = None,
     tn_execution_proof_new_commitment = None, tn_custom_program_proofs = None, tn_effect_binding_proofs = [],
     tn_cross_effect_dependencies = [], tn_effect_witness_index_map = []\<rparr>"

definition demo_externals :: turn_externals where
  "demo_externals = \<lparr>ext_verify_and_commit_proof = (\<lambda>_ _ _ L. (Inl (PeInvalidExecutionProof ''''), L)),
     ext_verify_effect_binding_proofs = (\<lambda>_ _. Inr ()), ext_verify_conservation = (\<lambda>_ _ _ _. False),
     ext_consumed = (\<lambda>_ _. []), ext_sign = None, ext_asset_order = id, ext_update_order = id,
     ext_field_order = id, ext_veto = (\<lambda>_ _ _. None)\<rparr>"

definition demo_executor :: turn_executor where
  "demo_executor = \<lparr>tx_env = demo_tree_env, tx_stores = demo_world, tx_budget_gate = Some demo_gate,
     tx_migrations = [], tx_proposer_cell = None, tx_treasury_cell = None, tx_fee_well_cell = Some 2,
     tx_symbolic = True, tx_last_write_set = []\<rparr>"

lemma demo_idle_turn_simps [simp]:
  "tn_agent demo_idle_turn = 1" "tn_nonce demo_idle_turn = 0" "tn_call_forest demo_idle_turn = [demo_idle]"
  "tn_fee demo_idle_turn = 10" "tn_sovereign_witnesses demo_idle_turn = []" "tn_execution_proof demo_idle_turn = None"
  "tn_effect_binding_proofs demo_idle_turn = []" "tn_cross_effect_dependencies demo_idle_turn = []"
  "tn_effect_witness_index_map demo_idle_turn = []" "tn_previous_receipt_hash demo_idle_turn = None"
  "tn_valid_until demo_idle_turn = None"
  by (simp_all add: demo_idle_turn_def)

lemma demo_executor_simps [simp]:
  "tx_env demo_executor = demo_tree_env" "tx_stores demo_executor = demo_world"
  "tx_budget_gate demo_executor = Some demo_gate" "tx_migrations demo_executor = []" "tx_symbolic demo_executor"
  "tx_fee_well_cell demo_executor = Some 2" "tx_proposer_cell demo_executor = None" "tx_treasury_cell demo_executor = None"
  by (simp_all add: demo_executor_def)

lemma demo_idle_tree:
  assumes "cell_at S 1 = Some c" "c_public_key c = 1" "c_permissions c = default_user"
    and "\<And>i d. cell_at S i = Some d \<Longrightarrow> c_program d = ProgNone" "ts_exec s = S" "ts_computrons_used s \<le> budget"
  shows "execute_tree demo_turn_crypto demo_tree_env 0 1 th budget demo_idle 1 DmParentsOwn [0] s = (Inr (), s)"
proof -
  have "verify_authorization demo_turn_crypto demo_tree_env R (demo_action 1 (AuSignature 1 0) []) c L 1 [0] 0 = Inr ()" for R L
    using assms(2,3) by (simp add: authorize_simps)
  moreover have "program_gate demo_turn_crypto demo_tree_env (demo_action 1 (AuSignature 1 0) []) 1 L (xs_ledger S) = Inr ()" for L
    using assms(4) by (rule gate_without_programs)
  moreover have "capability_gate demo_turn_crypto demo_tree_env (demo_action 1 (AuSignature 1 0) []) 1 DmParentsOwn S = (Inr (), S)"
    by (simp add: capability_gate_def)
  moreover have "check_refusals [] = Inr ()" "check_witness_indices (demo_action 1 (AuSignature 1 0) []) = Inr ()"
    "update_proved demo_tree_env False (field_writes []) S = S" "estimate_authorization_cost zero_costs (AuSignature 1 0) = 0"
    "bump_target_nonce (demo_action 1 (AuSignature 1 0) []) 1 L S = S" for L
    by (simp_all add: check_refusals_def check_witness_indices_def update_proved_def field_writes_def map_filter_simps
        zero_costs_def bump_target_nonce_def Let_def)
  ultimately show ?thesis
    using assms(1,5,6) by (simp add: demo_idle_def execute_action_def Let_def)
qed

lemma demo_admitted: "admit_turn demo_turn_crypto demo_executor demo_idle_turn = Inr ()"
  by (simp add: admit_turn_def admit_agent_def check_not_frozen_def is_frozen_def any_frozen_def
      check_previous_receipt_hash_def get_last_receipt_hash_def demo_env_def)

lemma demo_agent_ok: "agent_ok demo_executor demo_idle_turn"
  by (simp add: agent_ok_def in_i64_def)

lemma demo_debited: "\<exists>d g. debit_budget demo_turn_crypto demo_idle_turn demo_executor = (Inr d, demo_executor\<lparr>tx_budget_gate := Some g\<rparr>)"
  by (simp add: debit_budget_def gate_debit_eq demo_gate_def budget_gate_new_def slice_with_version_def
      slice_remaining_def saturating_sub_word_def) blast

lemma demo_paid:
  "commit_fee_nonce demo_idle_turn (xs_ledger demo_world) = (Inr (), xs_ledger (pay_fee demo_idle_turn demo_world))"
  by (rule commit_fee_pays [where c = "demo_hosted 1 7 100"]) (simp_all add: in_i64_def)

lemma demo_paid_cells:
  "\<exists>c. cell_at (pay_fee demo_idle_turn demo_world) 1 = Some c \<and> c_public_key c = 1 \<and> c_permissions c = default_user"
  "cell_at (pay_fee demo_idle_turn demo_world) i = Some d \<Longrightarrow> c_program d = ProgNone"
  by (auto simp: pay_fee_def with_cell_def map_state_def invalidate_leaf_cache_def split: if_splits)

lemma demo_idle_empty: "detect_commitment_mode [demo_idle] = NcEmpty"
  by (simp add: detect_commitment_mode_def demo_idle_def)

lemma finish_commits: "\<exists>delta r X'. finish_turn E Y t d deferred pre s X = (TrCommitted delta r (ts_computrons_used s), X')"
  by (simp add: finish_turn_def Let_def split_beta)

lemma demo_idle_commits:
  "\<exists>delta r X'. execute_without_shadow demo_turn_crypto Y demo_idle_turn demo_executor = (TrCommitted delta r 0, X')"
proof -
  obtain d g where debit: "debit_budget demo_turn_crypto demo_idle_turn demo_executor = (Inr d, demo_executor\<lparr>tx_budget_gate := Some g\<rparr>)"
    using demo_debited by blast
  let ?X = "on_ledger (\<lambda>_. xs_ledger (pay_fee demo_idle_turn demo_world)) (demo_executor\<lparr>tx_budget_gate := Some g\<rparr>)"
  have stores: "tx_stores ?X = pay_fee demo_idle_turn demo_world" by (simp add: pay_fee_def with_cell_def)
  define s0 where "s0 = \<lparr>ts_exec = (tx_stores ?X)\<lparr>xs_journal := []\<rparr>, ts_computrons_used = 0,
    ts_effects_hashes = [], ts_excess = 0\<rparr>"
  obtain c where c: "cell_at (pay_fee demo_idle_turn demo_world) 1 = Some c" "c_public_key c = 1" "c_permissions c = default_user"
    using demo_paid_cells(1) by blast
  have run: "execute_tree demo_turn_crypto demo_tree_env 0 1 th 10 demo_idle 1 DmParentsOwn [0] s0 = (Inr (), s0)" for th
    by (rule demo_idle_tree [of "ts_exec s0" c]) (use c demo_paid_cells(2) in \<open>auto simp: s0_def stores\<close>)
  have "check_forest_end demo_turn_crypto Y demo_idle_turn s0 = Inr ()"
    by (simp add: check_forest_end_def s0_def check_note_conservation_def demo_idle_empty)
  then have "\<exists>delta r X'. execute_forest demo_turn_crypto Y demo_idle_turn d True 0 ?X = (TrCommitted delta r 0, X')"
    using run finish_commits [of demo_turn_crypto Y demo_idle_turn d True 0 s0 ?X]
    by (simp add: execute_forest_def Let_def s0_def [symmetric]) (simp add: s0_def)
  then show ?thesis
    using debit demo_admitted demo_paid
    by (simp add: execute_without_shadow_def state_hash_def execute_hosted_def Let_def on_ledger_def)
qed

theorem committed_turn_creates_nothing_witness:
  "\<exists>delta r X'. execute_without_shadow demo_turn_crypto demo_externals demo_idle_turn demo_executor = (TrCommitted delta r 0, X') \<and>
     worth (tx_stores X') \<le> 105"
proof -
  obtain delta r X' where run: "execute_without_shadow demo_turn_crypto demo_externals demo_idle_turn demo_executor = (TrCommitted delta r 0, X')"
    using demo_idle_commits by blast
  have "total_balance (cell_at demo_world) = 105"
    by (simp add: total_balance_def map_total_def cell_balance_def)
  then show ?thesis
    using run committed_turn_creates_nothing [OF demo_turn_shielded _ demo_agent_ok _ _ run] demo_world_finite by auto
qed

text \<open>Agent 1 transfers five units to cell 2 and then one unit to a cell that does not exist.\<close>

definition demo_failing :: turn_action where
  "demo_failing = demo_action 1 (AuSignature 1 0) [ETransfer 1 2 5, ETransfer 1 9 1]"

definition demo_failing_turn :: turn where
  "demo_failing_turn = demo_idle_turn\<lparr>tn_call_forest := [CallTree demo_failing []]\<rparr>"

lemma demo_failing_simps [simp]:
  "tn_agent demo_failing_turn = 1" "tn_nonce demo_failing_turn = 0" "tn_fee demo_failing_turn = 10"
  "tn_call_forest demo_failing_turn = [CallTree demo_failing []]" "tn_sovereign_witnesses demo_failing_turn = []"
  "tn_execution_proof demo_failing_turn = None" "tn_effect_binding_proofs demo_failing_turn = []"
  "tn_cross_effect_dependencies demo_failing_turn = []" "tn_effect_witness_index_map demo_failing_turn = []"
  "tn_previous_receipt_hash demo_failing_turn = None" "tn_valid_until demo_failing_turn = None"
  by (simp_all add: demo_failing_turn_def)

lemma demo_failing_pays [simp]:
  "pay_fee demo_failing_turn S = pay_fee demo_idle_turn S" "agent_ok X demo_failing_turn = agent_ok X demo_idle_turn"
  "nonce_free X demo_failing_turn = nonce_free X demo_idle_turn"
  "commit_fee_nonce demo_failing_turn L = commit_fee_nonce demo_idle_turn L"
  unfolding pay_fee_def agent_ok_def nonce_free_def commit_fee_nonce_def demo_failing_simps demo_idle_turn_simps by (rule refl)+

lemma demo_failing_admitted: "admit_turn demo_turn_crypto demo_executor demo_failing_turn = Inr ()"
  by (simp add: admit_turn_def admit_agent_def check_not_frozen_def is_frozen_def any_frozen_def
      check_previous_receipt_hash_def get_last_receipt_hash_def demo_env_def)

lemma demo_failing_debited:
  "\<exists>d g. debit_budget demo_turn_crypto demo_failing_turn demo_executor = (Inr d, demo_executor\<lparr>tx_budget_gate := Some g\<rparr>)"
  by (simp add: debit_budget_def gate_debit_eq demo_gate_def budget_gate_new_def slice_with_version_def
      slice_remaining_def saturating_sub_word_def) blast

lemma demo_paid_world:
  "cell_at (pay_fee demo_idle_turn demo_world) =
     [1 \<mapsto> map_state (\<lambda>s. s\<lparr>st_balance := 90, st_nonce := 1\<rparr>) (invalidate_leaf_cache (demo_hosted 1 7 100)),
      2 \<mapsto> demo_hosted 2 7 5]"
  by (simp add: pay_fee_def with_cell_def map_state_def fun_upd_twist)

lemma demo_failing_authorized:
  assumes "c_public_key c = 1" "c_permissions c = default_user"
    and "l_cells L = cell_at (pay_fee demo_idle_turn demo_world)"
  shows "verify_authorization demo_turn_crypto demo_tree_env R demo_failing c L 1 [0] 0 = Inr ()"
  using assms by (simp add: demo_failing_def authorize_simps demo_paid_world)

lemma demo_failing_effects:
  assumes "cell_at S = cell_at (pay_fee demo_idle_turn demo_world)"
  shows "\<exists>T. apply_effect demo_turn_crypto demo_env th 1 1 (ETransfer 1 2 5) S = (Inr (), T) \<and>
      xs_journal T = xs_journal S @ [JSetBalance 1 90, JSetBalance 2 5] \<and>
      apply_effect demo_turn_crypto demo_env th 1 1 (ETransfer 1 9 1) T = (Inl (TTransferDestNotFound 9), T)"
  using assms by (simp add: demo_exec_simps demo_paid_world Let_def record_entry_def journal_push_def with_cell_def)

lemma demo_failing_gates:
  "capability_gate E V demo_failing 1 mode S = (Inr (), S)"
  "check_refusals (ta_effects demo_failing) = Inr ()" "check_witness_indices demo_failing = Inr ()"
  "check_preconditions demo_tree_env demo_failing c = Inr ()" "ta_target demo_failing = 1"
  "estimate_authorization_cost zero_costs (ta_authorization demo_failing) = 0"
  "filter (\<lambda>e. \<not> is_permission_effect e) (ta_effects demo_failing) = [ETransfer 1 2 5, ETransfer 1 9 1]"
  by (simp_all add: demo_failing_def capability_gate_def check_refusals_def check_witness_indices_def zero_costs_def
      is_permission_effect_def)

lemma demo_failing_run:
  assumes "ts_exec s = (pay_fee demo_idle_turn demo_world)\<lparr>xs_journal := []\<rparr>" "ts_computrons_used s = 0"
  shows "\<exists>s'. execute_tree demo_turn_crypto demo_tree_env 0 1 th 10 (CallTree demo_failing []) 1 DmParentsOwn [0] s =
      (Inl (te_turn (TTransferDestNotFound 9), [0]), s') \<and>
    xs_journal (ts_exec s') = [JSetBalance 1 90, JSetBalance 2 5]"
proof -
  let ?S = "(pay_fee demo_idle_turn demo_world)\<lparr>xs_journal := []\<rparr>"
  obtain T where T: "apply_effect demo_turn_crypto demo_env th 1 1 (ETransfer 1 2 5) ?S = (Inr (), T)"
    "xs_journal T = [JSetBalance 1 90, JSetBalance 2 5]"
    "apply_effect demo_turn_crypto demo_env th 1 1 (ETransfer 1 9 1) T = (Inl (TTransferDestNotFound 9), T)"
    using demo_failing_effects [of ?S th] by auto
  obtain c where c: "cell_at ?S 1 = Some c" "c_public_key c = 1" "c_permissions c = default_user"
    using demo_paid_cells(1) by auto
  have auth: "verify_authorization demo_turn_crypto demo_tree_env R demo_failing c (xs_ledger ?S) 1 [0] 0 = Inr ()" for R
    using c by (intro demo_failing_authorized) simp_all
  show ?thesis
    using assms c(1) auth T
    by (simp add: execute_action_def demo_failing_gates step_effect_def Let_def on_exec_def at_path_def
        del: compute_effect_cost.simps)
qed

lemma demo_failing_rejected:
  "\<exists>X'. execute_without_shadow demo_turn_crypto Y demo_failing_turn demo_executor =
     (TrRejected (PeTree (te_turn (TTransferDestNotFound 9))) [0], X')"
proof -
  obtain d g where debit: "debit_budget demo_turn_crypto demo_failing_turn demo_executor = (Inr d, demo_executor\<lparr>tx_budget_gate := Some g\<rparr>)"
    using demo_failing_debited by blast
  let ?X = "on_ledger (\<lambda>_. xs_ledger (pay_fee demo_idle_turn demo_world)) (demo_executor\<lparr>tx_budget_gate := Some g\<rparr>)"
  have stores: "tx_stores ?X = pay_fee demo_idle_turn demo_world" by (simp add: pay_fee_def with_cell_def)
  define s0 where "s0 = \<lparr>ts_exec = (tx_stores ?X)\<lparr>xs_journal := []\<rparr>, ts_computrons_used = 0,
    ts_effects_hashes = [], ts_excess = 0\<rparr>"
  have "ts_exec s0 = (pay_fee demo_idle_turn demo_world)\<lparr>xs_journal := []\<rparr>" "ts_computrons_used s0 = 0"
    using stores by (simp_all only: s0_def tree_state.simps)
  then obtain s where "execute_tree demo_turn_crypto demo_tree_env 0 1 (turn_hash demo_turn_crypto demo_failing_turn) 10
      (CallTree demo_failing []) 1 DmParentsOwn [0] s0 = (Inl (te_turn (TTransferDestNotFound 9), [0]), s)"
    using demo_failing_run [of s0 "turn_hash demo_turn_crypto demo_failing_turn"] by blast
  then have "\<exists>X'. execute_forest demo_turn_crypto Y demo_failing_turn d True 0 ?X =
      (TrRejected (PeTree (te_turn (TTransferDestNotFound 9))) [0], X')"
    by (simp add: execute_forest_def Let_def s0_def)
  then show ?thesis
    using debit demo_failing_admitted demo_paid
    by (simp add: execute_without_shadow_def state_hash_def execute_hosted_def Let_def on_ledger_def)
qed

text \<open>The turn is rejected after its first transfer was made: the transfer is undone, the fee of ten and the
  nonce are gone, and the budget of the silo is back.\<close>

theorem rejected_turn_only_pays_witness:
  "\<exists>X'. execute_without_shadow demo_turn_crypto demo_externals demo_failing_turn demo_executor =
       (TrRejected (PeTree (te_turn (TTransferDestNotFound 9))) [0], X') \<and>
     stores_view (tx_stores X') = stores_view (pay_fee demo_failing_turn demo_world) \<and>
     cell_balance (the (cell_at (pay_fee demo_failing_turn demo_world) 1)) = 90 \<and>
     tx_budget_gate X' = Some demo_gate"
proof -
  obtain X' where run: "execute_without_shadow demo_turn_crypto demo_externals demo_failing_turn demo_executor =
      (TrRejected (PeTree (te_turn (TTransferDestNotFound 9))) [0], X')"
    using demo_failing_rejected by blast
  have "fee_reached demo_turn_crypto demo_failing_turn demo_executor" "nonce_free demo_executor demo_idle_turn"
    using demo_failing_debited by (auto simp: fee_reached_def demo_failing_admitted nonce_free_def)
  then show ?thesis
    using run rejected_turn_only_pays [OF demo_turn_shielded _ _ _ _ run] demo_world_ok demo_agent_ok
    by (simp add: paid_stores_def paid_gate_def demo_paid_world cell_balance_def map_state_def)
qed

theorem receipts_form_chain_witness:
  "receipt_chain demo_turn_crypto None (receipts_of 1 (fst (run_turns demo_turn_crypto demo_externals
       [demo_idle_turn, demo_idle_turn] demo_executor)))
     (heads (snd (run_turns demo_turn_crypto demo_externals [demo_idle_turn, demo_idle_turn] demo_executor)) 1)"
  using receipts_form_chain [where E = demo_turn_crypto and Y = demo_externals and ts = "[demo_idle_turn, demo_idle_turn]"
      and X = demo_executor and a = 1, OF prod.collapse [symmetric]]
  by (simp add: demo_env_def)

section \<open>What is left behind\<close>

text \<open>C38. A turn that destroys a cell under migration is admitted. The freeze test at admission looks at the
  write set of \<open>extract_access_sets\<close>, which has no arm for destroying a cell (nor for sealing, burning,
  minting, refusing and others), and no handler tests for a freeze.\<close>

theorem frozen_cell_not_protected:
  assumes "admit_agent X t = Inr ()" "check_not_frozen X (tn_agent t) = Inr ()"
    and "get_last_receipt_hash X (tn_agent t) = tn_previous_receipt_hash t"
    and "tn_call_forest t = [CallTree a []]" "ta_effects a = [ECellDestroy i cert]" "ta_balance_change a = None"
  shows "admit_turn E X t = Inr ()"
  using assms by (simp add: admit_turn_def extract_access_sets_def check_previous_receipt_hash_def)

definition demo_freezing :: turn_executor where
  "demo_freezing = demo_executor\<lparr>tx_migrations := [(2, MsFrozen 2 9 1 100)]\<rparr>"

theorem frozen_cell_not_protected_witness:
  "is_frozen (tx_migrations demo_freezing) 2 \<and>
   admit_turn demo_turn_crypto demo_freezing
     (demo_idle_turn\<lparr>tn_call_forest := [CallTree (demo_action 1 (AuSignature 1 0) [ECellDestroy 2 demo_certificate]) []]\<rparr>) = Inr ()"
proof
  show "is_frozen (tx_migrations demo_freezing) 2" by (simp add: demo_freezing_def is_frozen_def)
  show "admit_turn demo_turn_crypto demo_freezing
     (demo_idle_turn\<lparr>tn_call_forest := [CallTree (demo_action 1 (AuSignature 1 0) [ECellDestroy 2 demo_certificate]) []]\<rparr>) = Inr ()"
    by (rule frozen_cell_not_protected [where a = "demo_action 1 (AuSignature 1 0) [ECellDestroy 2 demo_certificate]"
          and i = 2 and cert = demo_certificate])
       (simp_all add: admit_agent_def demo_freezing_def check_not_frozen_def is_frozen_def get_last_receipt_hash_def demo_env_def)
qed

text \<open>A witness that fails leaves the cells of earlier witnesses hosted. The loop over the sovereign
  witnesses returns at the first one that fails without removing the cells it injected before, so the
  state of a sovereign cell stays in the hosted table, beside the commitment to it that stays too.\<close>

theorem failed_witness_leaves_cell:
  assumes "tn_sovereign_witnesses t = [(i, w), (j, v)]" "l_cells (tx_ledger X) i = None"
    and "check_sovereign_witness E (x_local_federation_id (tx_exec X)) (tx_ledger X) i w = Inr ()"
    and "sw_cell_id v \<noteq> j"
    and "execute_hosted E Y t d deferred pre X = (res, X')"
  shows "\<not> is_committed res \<and> l_cells (tx_ledger X') i = Some (invalidate_leaf_cache (sw_cell_state w)) \<and>
    l_sovereign_commitments (tx_ledger X') i = Some (sw_old_commitment w) \<and> tx_budget_gate X' = tx_budget_gate X"
proof -
  have ok: "c_id (sw_cell_state w) = i" "l_sovereign_commitments (tx_ledger X) i = Some (sw_old_commitment w)"
    using assms(3) unfolding check_sovereign_witness_def Let_def and_then_ok all_ok_iff by auto
  have "l_cells (snd (insert_cell (tx_ledger X) (sw_cell_state w))) i = Some (invalidate_leaf_cache (sw_cell_state w))"
    "l_sovereign_commitments (snd (insert_cell (tx_ledger X) (sw_cell_state w))) = l_sovereign_commitments (tx_ledger X)"
    "\<not> isl (fst (insert_cell (tx_ledger X) (sw_cell_state w)))"
    using assms(2) ok(1) by (simp_all add: insert_cell_def Let_def)
  then show ?thesis
    using assms ok
    by (auto simp: execute_hosted_def inject_cell_def check_sovereign_witness_def reject_def ensure_def split: prod.splits sum.splits)
qed

text \<open>A veto leaves the receipt behind. When the observer vetoes a committed turn the ledger is put back,
  but the head of the agent's receipt chain is that of the vetoed receipt, which nobody was given: a turn
  of that agent is admitted only if it names that receipt as its predecessor. (Nullifiers, note
  commitments, rate counters, factory counts and the budget stay as the vetoed turn left them, too.)\<close>

theorem veto_leaves_receipt_head:
  assumes "execute_without_shadow E Y t X = (TrCommitted delta r used, X1)"
    and "ext_veto Y t (TrCommitted delta r used) (tx_ledger X1) = Some reason"
    and "execute E Y t X = (res, X')"
  shows "res = TrRejected (PeVeto reason) [] \<and> tx_ledger X' = tx_ledger X \<and>
    heads X' (tn_agent t) = Some (receipt_hash E r) \<and>
    (tn_agent t' = tn_agent t \<longrightarrow> admit_turn E X' t' = Inr () \<longrightarrow> tn_previous_receipt_hash t' = Some (receipt_hash E r))"
proof -
  have X': "res = TrRejected (PeVeto reason) []" "X' = on_ledger (\<lambda>_. tx_ledger X) X1"
    using assms by (auto simp: execute_def reject_def)
  have "heads X' (tn_agent t) = Some (receipt_hash E r)"
    using head_step_execute [of E t X Y] assms(1) by (simp add: X' head_step_def)
  then show ?thesis
    by (auto simp: X' admit_turn_def and_then_ok check_previous_receipt_hash_def get_last_receipt_hash_def)
qed

theorem veto_leaves_receipt_head_witness:
  "\<exists>reason. fst (execute demo_turn_crypto (demo_externals\<lparr>ext_veto := (\<lambda>_ _ _. Some ''admission'')\<rparr>) demo_idle_turn demo_executor) =
       TrRejected (PeVeto reason) [] \<and>
     tx_ledger (snd (execute demo_turn_crypto (demo_externals\<lparr>ext_veto := (\<lambda>_ _ _. Some ''admission'')\<rparr>) demo_idle_turn demo_executor)) =
       xs_ledger demo_world"
proof -
  let ?Y = "demo_externals\<lparr>ext_veto := (\<lambda>_ _ _. Some ''admission'')\<rparr>"
  obtain delta r X' where run: "execute_without_shadow demo_turn_crypto ?Y demo_idle_turn demo_executor = (TrCommitted delta r 0, X')"
    using demo_idle_commits by blast
  show ?thesis
    using veto_leaves_receipt_head [OF run, of "''admission''" _ _ demo_idle_turn, OF _ prod.collapse [symmetric]] by simp
qed

text \<open>Two witnesses, of which the second names another cell than its key.\<close>

definition demo_sovereign :: cell where
  "demo_sovereign = demo_hosted 3 7 50"

definition demo_witness :: "cell_id \<Rightarrow> sovereign_cell_witness" where
  "demo_witness i = \<lparr>sw_cell_id = i, sw_old_commitment = compute_canonical_state_commitment demo_turn_crypto demo_sovereign,
     sw_new_commitment = 1, sw_effects_hash = 1, sw_timestamp = 0, sw_sequence = 1, sw_signature = (3, 0),
     sw_cell_state = demo_sovereign, sw_transition_proof = None\<rparr>"

definition demo_witnessed :: turn_executor where
  "demo_witnessed = on_ledger (\<lambda>L. L\<lparr>l_sovereign_commitments :=
     [3 \<mapsto> compute_canonical_state_commitment demo_turn_crypto demo_sovereign], l_sovereign_witness_sequence := Map.empty\<rparr>) demo_executor"

theorem failed_witness_leaves_cell_witness:
  "l_cells (tx_ledger (snd (execute_hosted demo_turn_crypto demo_externals
      (demo_idle_turn\<lparr>tn_sovereign_witnesses := [(3, demo_witness 3), (4, demo_witness 3)]\<rparr>) None True 0 demo_witnessed))) 3 =
    Some (invalidate_leaf_cache demo_sovereign)"
proof -
  let ?t = "demo_idle_turn\<lparr>tn_sovereign_witnesses := [(3, demo_witness 3), (4, demo_witness 3)]\<rparr>"
  have ok: "check_sovereign_witness demo_turn_crypto (x_local_federation_id (tx_exec demo_witnessed)) (tx_ledger demo_witnessed) 3
      (demo_witness 3) = Inr ()"
    by (simp add: check_sovereign_witness_def demo_witness_def demo_witnessed_def demo_sovereign_def
        last_sovereign_witness_sequence_def)
  show ?thesis
    using failed_witness_leaves_cell [OF _ _ ok _ prod.collapse [symmetric], of ?t 4 "demo_witness 3" demo_externals None True 0]
    by (simp add: demo_witness_def demo_witnessed_def)
qed

end
