(* ===== verification/Stingray.thy ===== *)
theory Stingray
  imports BudgetGate "HOL-Library.AList"
begin

text \<open>
  Bounded counters and fast unlock (\<open>coord/src/budget.rs\<close>): the balance of an agent is cut into slices, one
  for each silo; a silo debits its slice on its own and certifies what it spent when the slices are
  rebalanced; resources locked for a proposal are released by a commit or by the votes of a quorum.
  Ed25519 is a parameter (\<open>sig_scheme\<close>). The hash map of slices is an association list in which each silo
  occurs once. Arithmetic on \<open>usize\<close> and \<open>u64\<close> that is not written as saturating wraps in a release build.
\<close>

section \<open>Slices and certificates\<close>

type_synonym signature64 = "bytes32 \<times> bytes32"

record sig_scheme =
  sg_valid_key :: "bytes32 \<Rightarrow> bool"
  sg_verify_strict :: "bytes32 \<Rightarrow> u8 list \<Rightarrow> signature64 \<Rightarrow> bool"
  sg_sign :: "bytes32 \<Rightarrow> u8 list \<Rightarrow> signature64"

text \<open>\<open>BePanic\<close> stands for the one \<open>expect\<close> of the file that can fail.\<close>

datatype budget_error =
    BeSliceExhausted cell_id u64 u64
  | BeInsufficientSilos u64 u64
  | BeUnknownSilo bytes32
  | BeWrongAgent cell_id cell_id
  | BeVersionMismatch u64 u64
  | BeDuplicateCertificate bytes32
  | BeDuplicateDebit bytes32
  | BeCertificateExceedsCeiling bytes32 u64 u64
  | BeAlreadyLocked bytes32
  | BeAlreadyReleased bytes32
  | BeLockNotFound bytes32
  | BeInsufficientUnlockVotes u64 u64
  | BeConflictingUnlock bytes32 bytes32
  | BeIncompleteCertificates u64 u64
  | BeMissingSiloPubkey bytes32
  | BeInvalidCertificateSignature bytes32
  | BeInvalidUnlockVoteSignature bytes32
  | BePanic

record stingray_slice =
  ss_agent :: cell_id
  ss_version :: u64
  ss_ceiling :: u64
  ss_spent :: u64
  ss_debits :: "bytes32 list"
  ss_debit_set :: "bytes32 set"

definition stingray_slice_new :: "cell_id \<Rightarrow> u64 \<Rightarrow> u64 \<Rightarrow> stingray_slice" where
  "stingray_slice_new agent version ceiling =
     \<lparr>ss_agent = agent, ss_version = version, ss_ceiling = ceiling, ss_spent = 0, ss_debits = [], ss_debit_set = {}\<rparr>"

definition ss_remaining :: "stingray_slice \<Rightarrow> u64" where
  "ss_remaining s = saturating_sub_word (ss_ceiling s) (ss_spent s)"

definition ss_has_budget :: "stingray_slice \<Rightarrow> bool" where
  "ss_has_budget s \<longleftrightarrow> 0 < ss_remaining s"

definition ss_try_debit :: "u64 \<Rightarrow> bytes32 \<Rightarrow> stingray_slice \<Rightarrow> (budget_error + unit) \<times> stingray_slice" where
  "ss_try_debit amount digest s =
     (if ss_remaining s < amount then (Inl (BeSliceExhausted (ss_agent s) (ss_remaining s) amount), s)
      else (Inr (), s\<lparr>ss_spent := saturating_add_word (ss_spent s) amount, ss_debits := ss_debits s @ [digest],
              ss_debit_set := insert digest (ss_debit_set s)\<rparr>))"

definition ss_try_debit_fresh :: "u64 \<Rightarrow> bytes32 \<Rightarrow> stingray_slice \<Rightarrow> (budget_error + unit) \<times> stingray_slice" where
  "ss_try_debit_fresh amount digest s =
     (if digest \<in> ss_debit_set s then (Inl (BeDuplicateDebit digest), s) else ss_try_debit amount digest s)"

definition ss_refund :: "u64 \<Rightarrow> stingray_slice \<Rightarrow> stingray_slice" where
  "ss_refund amount s = s\<lparr>ss_spent := saturating_sub_word (ss_spent s) amount\<rparr>"

definition ss_unwind_debit :: "u64 \<Rightarrow> bytes32 \<Rightarrow> stingray_slice \<Rightarrow> bool \<times> stingray_slice" where
  "ss_unwind_debit amount digest s =
     (case position digest (ss_debits s) of
        Some pos \<Rightarrow> (True, s\<lparr>ss_debits := swap_remove pos (ss_debits s), ss_debit_set := ss_debit_set s - {digest},
                      ss_spent := saturating_sub_word (ss_spent s) amount\<rparr>)
      | None \<Rightarrow> (False, s))"

text \<open>The persisted form leaves the set out and builds it from the list again.\<close>

record slice_repr =
  sp_agent :: cell_id
  sp_version :: u64
  sp_ceiling :: u64
  sp_spent :: u64
  sp_debits :: "bytes32 list"

definition slice_to_repr :: "stingray_slice \<Rightarrow> slice_repr" where
  "slice_to_repr s = \<lparr>sp_agent = ss_agent s, sp_version = ss_version s, sp_ceiling = ss_ceiling s,
     sp_spent = ss_spent s, sp_debits = ss_debits s\<rparr>"

definition slice_from_repr :: "slice_repr \<Rightarrow> stingray_slice" where
  "slice_from_repr r = \<lparr>ss_agent = sp_agent r, ss_version = sp_version r, ss_ceiling = sp_ceiling r,
     ss_spent = sp_spent r, ss_debits = sp_debits r, ss_debit_set = set (sp_debits r)\<rparr>"

record spending_certificate =
  ct_silo :: bytes32
  ct_agent :: cell_id
  ct_version :: u64
  ct_total_spent :: u64
  ct_debits :: "bytes32 list"
  ct_signature :: signature64

definition spending_message :: "cell_id \<Rightarrow> u64 \<Rightarrow> u64 \<Rightarrow> bytes32 \<Rightarrow> u8 list" where
  "spending_message agent version spent silo =
     bytes32_bytes agent @ u64_bytes version @ u64_bytes spent @ bytes32_bytes silo"

definition slice_certificate :: "sig_scheme \<Rightarrow> bytes32 \<Rightarrow> bytes32 \<Rightarrow> stingray_slice \<Rightarrow> spending_certificate" where
  "slice_certificate G silo signing_key s =
     \<lparr>ct_silo = silo, ct_agent = ss_agent s, ct_version = ss_version s, ct_total_spent = ss_spent s,
      ct_debits = ss_debits s,
      ct_signature = sg_sign G signing_key (spending_message (ss_agent s) (ss_version s) (ss_spent s) silo)\<rparr>"

definition cert_signing_message :: "spending_certificate \<Rightarrow> u8 list" where
  "cert_signing_message c = spending_message (ct_agent c) (ct_version c) (ct_total_spent c) (ct_silo c)"

definition cert_verify_signature :: "sig_scheme \<Rightarrow> bytes32 \<Rightarrow> spending_certificate \<Rightarrow> bool" where
  "cert_verify_signature G pubkey c \<longleftrightarrow>
     sg_valid_key G pubkey \<and> sg_verify_strict G pubkey (cert_signing_message c) (ct_signature c)"

section \<open>The counter\<close>

record stingray_counter =
  sk_agent :: cell_id
  sk_silos :: "bytes32 list"
  sk_byzantine_tolerance :: u64
  sk_version :: u64
  sk_silo_states :: "(bytes32 \<times> stingray_slice) list"
  sk_total_balance :: u64
  sk_total_allocated :: u64
  sk_silo_pubkeys :: "bytes32 \<rightharpoonup> bytes32"

text \<open>The product is taken in u128, where it fits; the quotient is cut to u64.\<close>

definition slice_ceiling_for :: "u64 \<Rightarrow> u64 \<Rightarrow> u64" where
  "slice_ceiling_for f balance = of_nat ((unat balance * unat (f + 1)) div unat (2 * f + 1))"

definition compute_slice_ceiling :: "stingray_counter \<Rightarrow> u64" where
  "compute_slice_ceiling C = slice_ceiling_for (sk_byzantine_tolerance C) (sk_total_balance C)"

definition distribute_slices :: "stingray_counter \<Rightarrow> stingray_counter" where
  "distribute_slices C =
     (let ceiling = compute_slice_ceiling C; fresh = stingray_slice_new (sk_agent C) (sk_version C) ceiling in
      C\<lparr>sk_silo_states := fold (\<lambda>silo m. AList.update silo fresh m) (sk_silos C) [],
        sk_total_allocated := fold (\<lambda>_ a. saturating_add_word a ceiling) (sk_silos C) 0\<rparr>)"

definition stingray_new :: "cell_id \<Rightarrow> u64 \<Rightarrow> bytes32 list \<Rightarrow> u64 \<Rightarrow> budget_error + stingray_counter" where
  "stingray_new agent total_balance silos f =
     (let n = of_nat (length silos) in
      if n < 3 * f + 1 then Inl (BeInsufficientSilos n (3 * f + 1))
      else Inr (distribute_slices
        \<lparr>sk_agent = agent, sk_silos = silos, sk_byzantine_tolerance = f, sk_version = 0, sk_silo_states = [],
         sk_total_balance = total_balance, sk_total_allocated = 0, sk_silo_pubkeys = Map.empty\<rparr>))"

definition counter_register_pubkey :: "bytes32 \<Rightarrow> bytes32 \<Rightarrow> stingray_counter \<Rightarrow> stingray_counter" where
  "counter_register_pubkey silo pubkey C = C\<lparr>sk_silo_pubkeys := (sk_silo_pubkeys C)(silo \<mapsto> pubkey)\<rparr>"

definition on_slice ::
  "bytes32 \<Rightarrow> (stingray_slice \<Rightarrow> (budget_error + 'r) \<times> stingray_slice) \<Rightarrow> stingray_counter \<Rightarrow>
     (budget_error + 'r) \<times> stingray_counter" where
  "on_slice silo f C =
     (case map_of (sk_silo_states C) silo of
        None \<Rightarrow> (Inl (BeUnknownSilo silo), C)
      | Some s \<Rightarrow> (fst (f s), C\<lparr>sk_silo_states := AList.update silo (snd (f s)) (sk_silo_states C)\<rparr>))"

definition counter_try_debit ::
  "bytes32 \<Rightarrow> u64 \<Rightarrow> bytes32 \<Rightarrow> stingray_counter \<Rightarrow> (budget_error + unit) \<times> stingray_counter" where
  "counter_try_debit silo amount digest = on_slice silo (ss_try_debit amount digest)"

definition counter_try_debit_fresh ::
  "bytes32 \<Rightarrow> u64 \<Rightarrow> bytes32 \<Rightarrow> stingray_counter \<Rightarrow> (budget_error + unit) \<times> stingray_counter" where
  "counter_try_debit_fresh silo amount digest = on_slice silo (ss_try_debit_fresh amount digest)"

definition counter_refund :: "bytes32 \<Rightarrow> u64 \<Rightarrow> stingray_counter \<Rightarrow> (budget_error + unit) \<times> stingray_counter" where
  "counter_refund silo amount = on_slice silo (\<lambda>s. (Inr (), ss_refund amount s))"

definition counter_unwind_debit ::
  "bytes32 \<Rightarrow> u64 \<Rightarrow> bytes32 \<Rightarrow> stingray_counter \<Rightarrow> (budget_error + bool) \<times> stingray_counter" where
  "counter_unwind_debit silo amount digest =
     on_slice silo (\<lambda>s. (Inr (fst (ss_unwind_debit amount digest s)), snd (ss_unwind_debit amount digest s)))"

definition lift_ceilings :: "u64 \<Rightarrow> u64 \<Rightarrow> stingray_counter \<Rightarrow> stingray_counter" where
  "lift_ceilings balance ceiling C =
     C\<lparr>sk_total_balance := balance,
       sk_silo_states := map (\<lambda>(i, s). (i, s\<lparr>ss_ceiling := ceiling\<rparr>)) (sk_silo_states C),
       sk_total_allocated := fold (\<lambda>_ a. saturating_add_word a ceiling) (sk_silo_states C) 0\<rparr>"

definition restore_unapplied ::
  "bytes32 \<Rightarrow> u64 \<Rightarrow> bytes32 \<Rightarrow> stingray_counter \<Rightarrow> (budget_error + unit) \<times> stingray_counter" where
  "restore_unapplied silo amount digest C =
     (let restored = saturating_add_word (sk_total_balance C) amount;
          ceiling = slice_ceiling_for (sk_byzantine_tolerance C) restored
      in case map_of (sk_silo_states C) silo of
           None \<Rightarrow> (Inl (BeUnknownSilo silo), C)
         | Some s \<Rightarrow>
             if digest \<in> ss_debit_set s then (Inl (BeDuplicateDebit digest), C)
             else if ceiling < saturating_add_word (ss_spent s) amount
             then (Inl (BeSliceExhausted (sk_agent C) (saturating_sub_word ceiling (ss_spent s)) amount), C)
             else (case counter_try_debit_fresh silo amount digest (lift_ceilings restored ceiling C) of
                 (Inl _, C) \<Rightarrow> (Inl BePanic, C)
               | (Inr _, C) \<Rightarrow> (Inr (), C)))"

definition counter_remaining :: "stingray_counter \<Rightarrow> bytes32 \<Rightarrow> u64 option" where
  "counter_remaining C silo = map_option ss_remaining (map_of (sk_silo_states C) silo)"

definition counter_total_spent :: "stingray_counter \<Rightarrow> u64" where
  "counter_total_spent C = sum_list (map (\<lambda>(i, s). ss_spent s) (sk_silo_states C))"

definition hex_digit :: "nat \<Rightarrow> char" where
  "hex_digit k = ''0123456789abcdef'' ! k"

definition budget_state_for_request :: "stingray_counter \<Rightarrow> bytes32 \<Rightarrow> (string \<times> u64) list" where
  "budget_state_for_request C silo =
     (case map_of (sk_silo_states C) silo of
        Some s \<Rightarrow> [(concat (map (\<lambda>b. [hex_digit (unat b div 16), hex_digit (unat b mod 16)]) (bytes32_bytes (ss_agent s))),
                   ss_remaining s)]
      | None \<Rightarrow> [])"

definition check_certificate ::
  "sig_scheme \<Rightarrow> stingray_counter \<Rightarrow> bytes32 list \<Rightarrow> spending_certificate \<Rightarrow> budget_error + unit" where
  "check_certificate G C seen c =
     and_then (ensure (ct_agent c = sk_agent C) (BeWrongAgent (sk_agent C) (ct_agent c))) (\<lambda>_.
     and_then (ensure (ct_version c = sk_version C) (BeVersionMismatch (sk_version C) (ct_version c))) (\<lambda>_.
     and_then (ensure (ct_silo c \<notin> set seen) (BeDuplicateCertificate (ct_silo c))) (\<lambda>_.
     and_then (ok_or (map_of (sk_silo_states C) (ct_silo c)) (BeUnknownSilo (ct_silo c))) (\<lambda>s.
     and_then (ensure (ct_total_spent c \<le> ss_ceiling s)
       (BeCertificateExceedsCeiling (ct_silo c) (ct_total_spent c) (ss_ceiling s))) (\<lambda>_.
     and_then (ok_or (sk_silo_pubkeys C (ct_silo c)) (BeMissingSiloPubkey (ct_silo c))) (\<lambda>pubkey.
       ensure (cert_verify_signature G pubkey c) (BeInvalidCertificateSignature (ct_silo c))))))))"

fun sum_certificates ::
  "sig_scheme \<Rightarrow> stingray_counter \<Rightarrow> bytes32 list \<Rightarrow> u64 \<Rightarrow> spending_certificate list \<Rightarrow> budget_error + bytes32 list \<times> u64" where
  "sum_certificates G C seen acc [] = Inr (seen, acc)"
| "sum_certificates G C seen acc (c # cs) =
     and_then (check_certificate G C seen c) (\<lambda>_.
       sum_certificates G C (ct_silo c # seen) (saturating_add_word acc (ct_total_spent c)) cs)"

definition assume_missing :: "stingray_counter \<Rightarrow> bytes32 list \<Rightarrow> u64 \<Rightarrow> u64" where
  "assume_missing C seen acc =
     fold (\<lambda>silo a. if silo \<in> set seen then a else saturating_add_word a (compute_slice_ceiling C)) (sk_silos C) acc"

definition next_epoch :: "u64 \<Rightarrow> stingray_counter \<Rightarrow> stingray_counter" where
  "next_epoch total_spent C =
     distribute_slices (C\<lparr>sk_total_balance := (if sk_total_balance C < total_spent then 0 else sk_total_balance C - total_spent),
       sk_version := sk_version C + 1\<rparr>)"

definition rebalance_inner ::
  "sig_scheme \<Rightarrow> spending_certificate list \<Rightarrow> bool \<Rightarrow> stingray_counter \<Rightarrow> (budget_error + u64) \<times> stingray_counter" where
  "rebalance_inner G certs require_all C =
     (if require_all \<and> length certs < length (sk_silos C)
      then (Inl (BeIncompleteCertificates (of_nat (length certs)) (of_nat (length (sk_silos C)))), C)
      else case sum_certificates G C [] 0 certs of
        Inl e \<Rightarrow> (Inl e, C)
      | Inr (seen, acc) \<Rightarrow>
          let acc = (if require_all then acc else assume_missing C seen acc)
          in (Inr acc, next_epoch acc C))"

definition rebalance ::
  "sig_scheme \<Rightarrow> spending_certificate list \<Rightarrow> stingray_counter \<Rightarrow> (budget_error + u64) \<times> stingray_counter" where
  "rebalance G certs C = rebalance_inner G certs True C"

definition rebalance_partial ::
  "sig_scheme \<Rightarrow> spending_certificate list \<Rightarrow> stingray_counter \<Rightarrow> (budget_error + u64) \<times> stingray_counter" where
  "rebalance_partial G certs C = rebalance_inner G certs False C"

section \<open>Fast unlock\<close>

datatype lock_status = Locked bytes32 u64 bytes32 u64 | Released

record unlock_request =
  ur_proposal_id :: bytes32
  ur_agent :: cell_id
  ur_amount :: u64
  ur_requester :: bytes32

record unlock_vote =
  uv_request :: unlock_request
  uv_voter :: bytes32
  uv_has_conflict :: bool
  uv_signature :: signature64

definition unlock_message :: "bytes32 \<Rightarrow> bytes32 \<Rightarrow> bool \<Rightarrow> u8 list" where
  "unlock_message proposal_id voter has_conflict =
     bytes32_bytes proposal_id @ bytes32_bytes voter @ [if has_conflict then 1 else 0]"

definition vote_signing_message :: "unlock_vote \<Rightarrow> u8 list" where
  "vote_signing_message v = unlock_message (ur_proposal_id (uv_request v)) (uv_voter v) (uv_has_conflict v)"

definition vote_verify_signature :: "sig_scheme \<Rightarrow> bytes32 \<Rightarrow> unlock_vote \<Rightarrow> bool" where
  "vote_verify_signature G pubkey v \<longleftrightarrow>
     sg_valid_key G pubkey \<and> sg_verify_strict G pubkey (vote_signing_message v) (uv_signature v)"

record unlock_certificate =
  uc_request :: unlock_request
  uc_votes :: "unlock_vote list"

record unlock_manager =
  um_locks :: "bytes32 \<rightharpoonup> lock_status"
  um_byzantine_tolerance :: u64
  um_total_silos :: u64
  um_silo_pubkeys :: "bytes32 \<rightharpoonup> bytes32"

definition unlock_manager_new :: "u64 \<Rightarrow> u64 \<Rightarrow> unlock_manager" where
  "unlock_manager_new f n =
     \<lparr>um_locks = Map.empty, um_byzantine_tolerance = f, um_total_silos = n, um_silo_pubkeys = Map.empty\<rparr>"

definition manager_register_pubkey :: "bytes32 \<Rightarrow> bytes32 \<Rightarrow> unlock_manager \<Rightarrow> unlock_manager" where
  "manager_register_pubkey silo pubkey M = M\<lparr>um_silo_pubkeys := (um_silo_pubkeys M)(silo \<mapsto> pubkey)\<rparr>"

definition manager_lock ::
  "bytes32 \<Rightarrow> u64 \<Rightarrow> bytes32 \<Rightarrow> u64 \<Rightarrow> unlock_manager \<Rightarrow> (budget_error + unit) \<times> unlock_manager" where
  "manager_lock proposal_id amount silo version M =
     (if um_locks M proposal_id \<noteq> None then (Inl (BeAlreadyLocked proposal_id), M)
      else (Inr (), M\<lparr>um_locks := (um_locks M)(proposal_id \<mapsto> Locked proposal_id amount silo version)\<rparr>))"

definition release_lock :: "bytes32 \<Rightarrow> unlock_manager \<Rightarrow> (budget_error + u64 \<times> bytes32) \<times> unlock_manager" where
  "release_lock proposal_id M =
     (case um_locks M proposal_id of
        Some (Locked _ amount silo _) \<Rightarrow>
          (Inr (amount, silo), M\<lparr>um_locks := (um_locks M)(proposal_id \<mapsto> Released)\<rparr>)
      | Some Released \<Rightarrow> (Inl (BeAlreadyReleased proposal_id), M)
      | None \<Rightarrow> (Inl (BeLockNotFound proposal_id), M))"

definition release_on_commit :: "bytes32 \<Rightarrow> unlock_manager \<Rightarrow> (budget_error + u64) \<times> unlock_manager" where
  "release_on_commit proposal_id M =
     (map_sum id fst (fst (release_lock proposal_id M)), snd (release_lock proposal_id M))"

definition vote_unlock :: "sig_scheme \<Rightarrow> unlock_request \<Rightarrow> bytes32 \<Rightarrow> bool \<Rightarrow> bytes32 \<Rightarrow> unlock_vote" where
  "vote_unlock G request voter has_signed_commit signing_key =
     \<lparr>uv_request = request, uv_voter = voter, uv_has_conflict = has_signed_commit,
      uv_signature = sg_sign G signing_key (unlock_message (ur_proposal_id request) voter has_signed_commit)\<rparr>"

fun check_votes ::
  "sig_scheme \<Rightarrow> unlock_manager \<Rightarrow> unlock_request \<Rightarrow> bytes32 list \<Rightarrow> unlock_vote list \<Rightarrow> budget_error + unit" where
  "check_votes G M request seen [] = Inr ()"
| "check_votes G M request seen (v # vs) =
     and_then (ensure (uv_request v = request) (BeInvalidUnlockVoteSignature (uv_voter v))) (\<lambda>_.
     and_then (ensure (uv_voter v \<notin> set seen) (BeInvalidUnlockVoteSignature (uv_voter v))) (\<lambda>_.
     and_then (ok_or (um_silo_pubkeys M (uv_voter v)) (BeMissingSiloPubkey (uv_voter v))) (\<lambda>pubkey.
     and_then (ensure (vote_verify_signature G pubkey v) (BeInvalidUnlockVoteSignature (uv_voter v))) (\<lambda>_.
       check_votes G M request (uv_voter v # seen) vs))))"

definition unlock_quorum :: "unlock_manager \<Rightarrow> u64" where
  "unlock_quorum M = 2 * um_byzantine_tolerance M + 1"

definition check_unlock_certificate :: "sig_scheme \<Rightarrow> unlock_certificate \<Rightarrow> unlock_manager \<Rightarrow> budget_error + unit" where
  "check_unlock_certificate G cert M =
     and_then (ensure (unlock_quorum M \<le> of_nat (length (uc_votes cert)))
       (BeInsufficientUnlockVotes (of_nat (length (uc_votes cert))) (unlock_quorum M))) (\<lambda>_.
     and_then (check_votes G M (uc_request cert) [] (uc_votes cert)) (\<lambda>_.
       check_all (\<lambda>v. ensure (\<not> uv_has_conflict v)
         (BeConflictingUnlock (uv_voter v) (ur_proposal_id (uc_request cert)))) (uc_votes cert)))"

definition apply_unlock_certificate ::
  "sig_scheme \<Rightarrow> unlock_certificate \<Rightarrow> unlock_manager \<Rightarrow> (budget_error + u64 \<times> bytes32) \<times> unlock_manager" where
  "apply_unlock_certificate G cert M =
     (case check_unlock_certificate G cert M of
        Inl e \<Rightarrow> (Inl e, M)
      | Inr _ \<Rightarrow> release_lock (ur_proposal_id (uc_request cert)) M)"

definition apply_unlock_and_refund ::
  "sig_scheme \<Rightarrow> unlock_certificate \<Rightarrow> unlock_manager \<times> stingray_counter \<Rightarrow>
     (budget_error + u64) \<times> unlock_manager \<times> stingray_counter" where
  "apply_unlock_and_refund G cert MC =
     (case apply_unlock_certificate G cert (fst MC) of
        (Inl e, M) \<Rightarrow> (Inl e, M, snd MC)
      | (Inr (amount, silo), M) \<Rightarrow> (Inr amount, M, snd (counter_refund silo amount (snd MC))))"

definition is_locked :: "unlock_manager \<Rightarrow> bytes32 \<Rightarrow> bool" where
  "is_locked M proposal_id \<longleftrightarrow> (case um_locks M proposal_id of Some (Locked _ _ _ _) \<Rightarrow> True | _ \<Rightarrow> False)"

definition locked_amount :: "unlock_manager \<Rightarrow> bytes32 \<Rightarrow> u64 option" where
  "locked_amount M proposal_id =
     (case um_locks M proposal_id of Some (Locked _ amount _ _) \<Rightarrow> Some amount | _ \<Rightarrow> None)"

section \<open>Every reachable counter is in step\<close>

definition slice_in_step :: "stingray_counter \<Rightarrow> stingray_slice \<Rightarrow> bool" where
  "slice_in_step C s \<longleftrightarrow> ss_agent s = sk_agent C \<and> ss_version s = sk_version C \<and>
     ss_ceiling s = compute_slice_ceiling C \<and> ss_spent s \<le> ss_ceiling s"

definition counter_ok :: "stingray_counter \<Rightarrow> bool" where
  "counter_ok C \<longleftrightarrow> distinct (map fst (sk_silo_states C)) \<and> fst ` set (sk_silo_states C) = set (sk_silos C) \<and>
     (\<forall>i s. map_of (sk_silo_states C) i = Some s \<longrightarrow> slice_in_step C s)"

definition spent_sum :: "stingray_counter \<Rightarrow> nat" where
  "spent_sum C = sum_list (map (\<lambda>(i, s). unat (ss_spent s)) (sk_silo_states C))"

lemma fold_update_all:
  "map_of (fold (\<lambda>i m. AList.update i v m) xs m0) = (\<lambda>i. if i \<in> set xs then Some v else map_of m0 i)"
  by (induction xs arbitrary: m0) (auto simp: update_conv')

lemma fold_update_keys:
  "distinct (map fst m0) \<Longrightarrow> distinct (map fst (fold (\<lambda>i m. AList.update i v m) xs m0))"
  "fst ` set (fold (\<lambda>i m. AList.update i v m) xs m0) = set xs \<union> fst ` set m0"
  by (induction xs arbitrary: m0) (auto simp: distinct_update dom_update)

lemma distribute_fields [simp]:
  "sk_agent (distribute_slices C) = sk_agent C" "sk_silos (distribute_slices C) = sk_silos C"
  "sk_byzantine_tolerance (distribute_slices C) = sk_byzantine_tolerance C"
  "sk_version (distribute_slices C) = sk_version C" "sk_total_balance (distribute_slices C) = sk_total_balance C"
  "sk_silo_pubkeys (distribute_slices C) = sk_silo_pubkeys C"
  "compute_slice_ceiling (distribute_slices C) = compute_slice_ceiling C"
  by (simp_all add: distribute_slices_def compute_slice_ceiling_def Let_def)

lemma distribute_states:
  "map_of (sk_silo_states (distribute_slices C)) i =
     (if i \<in> set (sk_silos C) then Some (stingray_slice_new (sk_agent C) (sk_version C) (compute_slice_ceiling C)) else None)"
  by (simp add: distribute_slices_def Let_def fold_update_all)

lemma distribute_ok: "counter_ok (distribute_slices C)"
proof -
  have "distinct (map fst (sk_silo_states (distribute_slices C)))"
    "fst ` set (sk_silo_states (distribute_slices C)) = set (sk_silos C)"
    by (simp_all add: distribute_slices_def Let_def fold_update_keys)
  then show ?thesis
    by (auto simp: counter_ok_def distribute_states slice_in_step_def stingray_slice_new_def)
qed

lemma on_slice_ok:
  assumes "counter_ok C" "\<And>s. slice_in_step C s \<Longrightarrow> slice_in_step C (snd (f s))"
  shows "counter_ok (snd (on_slice silo f C))"
proof (cases "map_of (sk_silo_states C) silo")
  case (Some s)
  have mem: "silo \<in> fst ` set (sk_silo_states C)" using Some by (metis map_of_SomeD fst_conv imageI)
  have same: "slice_in_step (C\<lparr>sk_silo_states := m\<rparr>) = slice_in_step C" for m
    by (simp add: fun_eq_iff slice_in_step_def compute_slice_ceiling_def)
  show ?thesis
    using assms mem Some
    by (auto simp: counter_ok_def on_slice_def distinct_update dom_update update_conv' same split: if_splits)
qed (use assms in \<open>simp add: on_slice_def\<close>)

lemma try_debit_in_step: "slice_in_step C s \<Longrightarrow> slice_in_step C (snd (ss_try_debit amount digest s))"
proof (cases "ss_remaining s < amount")
  case False
  assume ok: "slice_in_step C s"
  then have fits: "unat (ss_spent s) + unat amount \<le> unat (ss_ceiling s)"
    using False by (auto simp: slice_in_step_def ss_remaining_def saturating_sub_word_def word_le_nat_alt
        word_less_nat_alt unat_sub not_less)
  also have "\<dots> < 2 ^ 64" using unsigned_less [of "ss_ceiling s", where 'a = nat] by simp
  finally have "unat (saturating_add_word (ss_spent s) amount) = unat (ss_spent s) + unat amount"
    by (simp add: saturating_add_word_def unat_word_ariths)
  then show ?thesis using ok fits False by (simp add: slice_in_step_def ss_try_debit_def word_le_nat_alt)
qed (simp add: ss_try_debit_def)

lemma try_debit_fresh_in_step: "slice_in_step C s \<Longrightarrow> slice_in_step C (snd (ss_try_debit_fresh amount digest s))"
  by (simp add: ss_try_debit_fresh_def try_debit_in_step)

lemma saturating_sub_le: "a \<le> c \<Longrightarrow> saturating_sub_word a b \<le> (c :: 'a::len word)"
  by (auto simp: saturating_sub_word_def word_le_nat_alt unat_sub)

lemma refund_in_step: "slice_in_step C s \<Longrightarrow> slice_in_step C (ss_refund amount s)"
  by (auto simp: slice_in_step_def ss_refund_def intro: saturating_sub_le)

lemma unwind_in_step: "slice_in_step C s \<Longrightarrow> slice_in_step C (snd (ss_unwind_debit amount digest s))"
  by (auto simp: slice_in_step_def ss_unwind_debit_def intro: saturating_sub_le split: option.split)

lemmas slice_steps = try_debit_in_step try_debit_fresh_in_step refund_in_step unwind_in_step

text \<open>The ceiling is the formula on numbers, and grows with the balance.\<close>

lemma slice_ceiling_nat:
  assumes "unat f < 2 ^ 63"
  shows "unat (slice_ceiling_for f balance) = unat balance * (unat f + 1) div (2 * unat f + 1)"
proof -
  have f: "unat (f + 1) = unat f + 1" "unat (2 * f + 1) = 2 * unat f + 1"
    using assms by (simp_all add: unat_word_ariths)
  have "unat balance * (unat f + 1) div (2 * unat f + 1) \<le> unat balance * (2 * unat f + 1) div (2 * unat f + 1)"
    by (intro div_le_mono mult_le_mono2) simp
  then have "unat balance * (unat f + 1) div (2 * unat f + 1) \<le> unat balance"
    by (metis Suc_eq_plus1 nonzero_mult_div_cancel_right Zero_not_Suc)
  also have "unat balance < 2 ^ 64" using unsigned_less [of balance, where 'a = nat] by simp
  finally show ?thesis unfolding slice_ceiling_for_def f by (simp add: unsigned_of_nat take_bit_nat_eq_self)
qed

lemma slice_ceiling_mono:
  "unat f < 2 ^ 63 \<Longrightarrow> b \<le> b' \<Longrightarrow> slice_ceiling_for f b \<le> slice_ceiling_for f b'"
  unfolding word_le_nat_alt by (simp only: slice_ceiling_nat) (intro div_le_mono mult_le_mono1)

lemma saturating_add_ge: "a \<le> saturating_add_word a (b :: 'a::len word)"
proof (cases "unat a + unat b < 2 ^ LENGTH('a)")
  case True
  then show ?thesis by (simp add: saturating_add_word_def word_le_nat_alt unat_word_ariths)
qed (simp add: saturating_add_word_def)

lemma lift_ceilings_ok:
  assumes "counter_ok C" "unat (sk_byzantine_tolerance C) < 2 ^ 63" "sk_total_balance C \<le> restored"
  shows "counter_ok (lift_ceilings restored (slice_ceiling_for (sk_byzantine_tolerance C) restored) C)"
proof -
  have "compute_slice_ceiling C \<le> slice_ceiling_for (sk_byzantine_tolerance C) restored"
    using assms by (simp add: compute_slice_ceiling_def slice_ceiling_mono)
  moreover have "map_of (map (\<lambda>(i, s). (i, g s)) m) i = map_option g (map_of m i)" for g :: "stingray_slice \<Rightarrow> stingray_slice" and m i
    by (induction m) auto
  ultimately show ?thesis
    using assms(1)
    by (force simp: counter_ok_def lift_ceilings_def slice_in_step_def compute_slice_ceiling_def
        image_image case_prod_beta comp_def intro: order_trans)
qed

inductive counter_step :: "sig_scheme \<Rightarrow> stingray_counter \<Rightarrow> stingray_counter \<Rightarrow> bool" for G where
  "counter_step G C (counter_register_pubkey silo pubkey C)"
| "counter_step G C (snd (counter_try_debit silo amount digest C))"
| "counter_step G C (snd (counter_try_debit_fresh silo amount digest C))"
| "counter_step G C (snd (counter_refund silo amount C))"
| "counter_step G C (snd (counter_unwind_debit silo amount digest C))"
| "counter_step G C (snd (restore_unapplied silo amount digest C))"
| "counter_step G C (snd (rebalance_inner G certs require_all C))"

abbreviation counter_run :: "sig_scheme \<Rightarrow> stingray_counter \<Rightarrow> stingray_counter \<Rightarrow> bool" where
  "counter_run G \<equiv> (counter_step G)\<^sup>*\<^sup>*"

lemma rebalance_ok: "counter_ok C \<Longrightarrow> counter_ok (snd (rebalance_inner G certs require_all C))"
  by (simp add: rebalance_inner_def next_epoch_def Let_def distribute_ok split: sum.split)

lemma register_ok: "counter_ok (counter_register_pubkey silo pubkey C) = counter_ok C"
  by (simp add: counter_ok_def counter_register_pubkey_def slice_in_step_def compute_slice_ceiling_def)

lemma on_slice_frame:
  "sk_silos (snd (on_slice silo f C)) = sk_silos C"
  "sk_byzantine_tolerance (snd (on_slice silo f C)) = sk_byzantine_tolerance C"
  by (simp_all add: on_slice_def split: option.split)

lemma restore_cases:
  "snd (restore_unapplied silo amount digest C) = C \<or>
   snd (restore_unapplied silo amount digest C) =
     snd (on_slice silo (ss_try_debit_fresh amount digest)
       (lift_ceilings (saturating_add_word (sk_total_balance C) amount)
         (slice_ceiling_for (sk_byzantine_tolerance C) (saturating_add_word (sk_total_balance C) amount)) C))"
  by (simp add: restore_unapplied_def Let_def counter_try_debit_fresh_def case_prod_beta split: option.split sum.split)

lemma restore_frame:
  "sk_silos (snd (restore_unapplied silo amount digest C)) = sk_silos C \<and>
   sk_byzantine_tolerance (snd (restore_unapplied silo amount digest C)) = sk_byzantine_tolerance C"
  using restore_cases [of silo amount digest C]
  by (rule disjE) (simp_all add: on_slice_frame lift_ceilings_def)

lemma restore_ok:
  assumes "counter_ok C" "unat (sk_byzantine_tolerance C) < 2 ^ 63"
  shows "counter_ok (snd (restore_unapplied silo amount digest C))"
  using restore_cases [of silo amount digest C] on_slice_ok [OF lift_ceilings_ok [OF assms saturating_add_ge]
      try_debit_fresh_in_step] assms(1)
  by (elim disjE) simp_all

lemma counter_step_frame:
  "counter_step G C C' \<Longrightarrow> sk_silos C' = sk_silos C \<and> sk_byzantine_tolerance C' = sk_byzantine_tolerance C"
  by (induction rule: counter_step.induct)
    (auto simp: counter_register_pubkey_def counter_try_debit_def counter_try_debit_fresh_def counter_refund_def
      counter_unwind_debit_def on_slice_frame restore_frame rebalance_inner_def next_epoch_def Let_def split: sum.split)

lemma counter_step_ok:
  "counter_step G C C' \<Longrightarrow> counter_ok C \<Longrightarrow> unat (sk_byzantine_tolerance C) < 2 ^ 63 \<Longrightarrow> counter_ok C'"
  by (induction rule: counter_step.induct)
    (simp_all add: register_ok counter_try_debit_def counter_try_debit_fresh_def counter_refund_def
      counter_unwind_debit_def on_slice_ok slice_steps restore_ok rebalance_ok)

lemma counter_run_ok:
  assumes "counter_run G C0 C" "counter_ok C0" "unat (sk_byzantine_tolerance C0) < 2 ^ 63"
  shows "counter_ok C \<and> sk_silos C = sk_silos C0 \<and> sk_byzantine_tolerance C = sk_byzantine_tolerance C0"
  using assms by (induction rule: rtranclp_induct) (auto dest: counter_step_ok counter_step_frame)

lemma spent_sum_le:
  assumes "counter_ok C"
  shows "spent_sum C \<le> card (set (sk_silos C)) * unat (compute_slice_ceiling C)"
proof -
  have "unat (ss_spent s) \<le> unat (compute_slice_ceiling C)" if "(i, s) \<in> set (sk_silo_states C)" for i s
    using assms that unfolding counter_ok_def slice_in_step_def word_le_nat_alt by (metis map_of_is_SomeI)
  then have "spent_sum C \<le> sum_list (map (\<lambda>_. unat (compute_slice_ceiling C)) (sk_silo_states C))"
    unfolding spent_sum_def by (intro sum_list_mono) auto
  also have "\<dots> = length (sk_silo_states C) * unat (compute_slice_ceiling C)" by (simp add: sum_list_triv)
  also have "length (sk_silo_states C) = card (set (sk_silos C))"
    using assms by (metis counter_ok_def distinct_card length_map list.set_map)
  finally show ?thesis .
qed

lemma debit_accepted_iff:
  "slice_in_step C s \<Longrightarrow> fst (ss_try_debit amount digest s) = Inr () \<longleftrightarrow> unat (ss_spent s) + unat amount \<le> unat (ss_ceiling s)"
  by (auto simp: slice_in_step_def ss_try_debit_def ss_remaining_def saturating_sub_word_def word_le_nat_alt
      word_less_nat_alt unat_sub not_less)

lemma stingray_new_ok:
  "stingray_new agent balance silos f = Inr C \<Longrightarrow> counter_ok C \<and> sk_silos C = silos \<and> sk_byzantine_tolerance C = f"
  by (auto simp: stingray_new_def Let_def distribute_ok split: if_splits)

text \<open>C6. A bounded counter stays in bounds. Start from any counter that \<open>new\<close> accepts and let silos debit,
  refund and unwind, let settlements be restored and epochs be closed with any certificates, in any order.
  Then there is one slice for each silo and no other; all slices carry the agent and the epoch of the
  counter and the same ceiling, which is the formula applied to the current balance; no slice is
  overspent, so the silos together have spent at most the number of silos times the ceiling; and a silo
  can debit an amount exactly when it is known and the amount fits under its ceiling.\<close>

theorem stingray_bounded:
  assumes "stingray_new agent balance silos f = Inr C0" "unat f < 2 ^ 63" "counter_run G C0 C"
  shows "dom (map_of (sk_silo_states C)) = set silos \<and>
    (\<forall>i s. map_of (sk_silo_states C) i = Some s \<longrightarrow> ss_agent s = sk_agent C \<and> ss_version s = sk_version C \<and>
       unat (ss_ceiling s) = unat (sk_total_balance C) * (unat f + 1) div (2 * unat f + 1) \<and> ss_spent s \<le> ss_ceiling s) \<and>
    spent_sum C \<le> card (set silos) * (unat (sk_total_balance C) * (unat f + 1) div (2 * unat f + 1)) \<and>
    (fst (counter_try_debit i amount digest C) = Inr () \<longleftrightarrow>
       (\<exists>s. map_of (sk_silo_states C) i = Some s \<and> unat (ss_spent s) + unat amount \<le> unat (ss_ceiling s)))"
proof -
  have ok: "counter_ok C" and frame: "sk_silos C = silos" "sk_byzantine_tolerance C = f"
    using counter_run_ok [OF assms(3)] stingray_new_ok [OF assms(1)] assms(2) by auto
  have ceiling: "unat (compute_slice_ceiling C) = unat (sk_total_balance C) * (unat f + 1) div (2 * unat f + 1)"
    using assms(2) by (simp only: compute_slice_ceiling_def frame slice_ceiling_nat)
  have step: "slice_in_step C s" if "map_of (sk_silo_states C) i = Some s" for i s
    using ok that by (simp add: counter_ok_def)
  have "fst (counter_try_debit i amount digest C) = Inr () \<longleftrightarrow>
      (\<exists>s. map_of (sk_silo_states C) i = Some s \<and> unat (ss_spent s) + unat amount \<le> unat (ss_ceiling s))"
    using debit_accepted_iff [OF step] by (auto simp: counter_try_debit_def on_slice_def split: option.split)
  moreover have "dom (map_of (sk_silo_states C)) = set silos"
    using ok frame by (simp add: counter_ok_def dom_map_of_conv_image_fst)
  moreover have "spent_sum C \<le> card (set silos) * (unat (sk_total_balance C) * (unat f + 1) div (2 * unat f + 1))"
    using spent_sum_le [OF ok] unfolding ceiling frame .
  ultimately show ?thesis using step ceiling unfolding slice_in_step_def by metis
qed

section \<open>Rebalancing\<close>

definition cert_ok :: "sig_scheme \<Rightarrow> stingray_counter \<Rightarrow> spending_certificate \<Rightarrow> bool" where
  "cert_ok G C c \<longleftrightarrow> ct_agent c = sk_agent C \<and> ct_version c = sk_version C \<and> ct_silo c \<in> set (sk_silos C) \<and>
     ct_total_spent c \<le> compute_slice_ceiling C \<and>
     (\<exists>pubkey. sk_silo_pubkeys C (ct_silo c) = Some pubkey \<and> cert_verify_signature G pubkey c)"

lemma known_silo:
  assumes "counter_ok C"
  shows "(\<exists>s. map_of (sk_silo_states C) i = Some s \<and> x \<le> ss_ceiling s) \<longleftrightarrow> i \<in> set (sk_silos C) \<and> x \<le> compute_slice_ceiling C"
proof -
  have "i \<in> set (sk_silos C) \<longleftrightarrow> (\<exists>s. map_of (sk_silo_states C) i = Some s)"
    using assms unfolding counter_ok_def by (metis domIff dom_map_of_conv_image_fst not_Some_eq)
  then show ?thesis using assms unfolding counter_ok_def slice_in_step_def by metis
qed

lemma check_certificate_iff:
  assumes "counter_ok C"
  shows "check_certificate G C seen c = Inr () \<longleftrightarrow> cert_ok G C c \<and> ct_silo c \<notin> set seen"
  using known_silo [OF assms, of "ct_silo c" "ct_total_spent c"]
  by (auto simp: check_certificate_def cert_ok_def and_then_ok)

lemma sum_certificates_iff:
  assumes "counter_ok C"
  shows "sum_certificates G C seen acc cs = Inr r \<longleftrightarrow>
    (\<forall>c \<in> set cs. cert_ok G C c) \<and> distinct (map ct_silo cs) \<and> set (map ct_silo cs) \<inter> set seen = {} \<and>
    r = (rev (map ct_silo cs) @ seen, fold (\<lambda>c a. saturating_add_word a (ct_total_spent c)) cs acc)"
proof (induction cs arbitrary: seen acc)
  case (Cons c cs)
  have "sum_certificates G C seen acc (c # cs) = Inr r \<longleftrightarrow> (cert_ok G C c \<and> ct_silo c \<notin> set seen) \<and>
      sum_certificates G C (ct_silo c # seen) (saturating_add_word acc (ct_total_spent c)) cs = Inr r"
    using check_certificate_iff [OF assms, of G seen c] by (auto simp: and_then_ok)
  then show ?case unfolding Cons.IH by auto
qed auto

lemma min_min_add: "min (m :: nat) (min m (a + b) + c) = min m (a + (b + c))"
  by (simp add: min_def)

lemma fold_saturating:
  "unat (fold (\<lambda>x a. saturating_add_word a (g x)) xs acc :: 'a::len word) =
     min (2 ^ LENGTH('a) - 1) (unat acc + sum_list (map (\<lambda>x. unat (g x)) xs))"
proof (induction xs arbitrary: acc)
  case Nil
  have "unat acc < 2 ^ LENGTH('a)" by (rule unsigned_less)
  then have "unat acc \<le> 2 ^ LENGTH('a) - 1" by linarith
  then show ?case by simp
qed (simp only: fold.simps comp_apply unat_saturating_add min_min_add list.map sum_list.Cons)

lemma certs_cover:
  assumes "distinct xs" "distinct ys" "set xs \<subseteq> set ys" "length ys \<le> length xs"
  shows "mset xs = mset ys"
proof -
  have "set xs = set ys"
    using assms by (intro card_seteq) (simp_all add: distinct_card)
  then show ?thesis using assms by (simp add: set_eq_iff_mset_eq_distinct)
qed

text \<open>C7. An epoch closes on one signed certificate of each silo and on nothing else. For a reachable
  counter whose silos are distinct, \<open>rebalance\<close> succeeds if and only if every certificate names the
  agent and the current epoch, comes from a known silo, claims no more than the ceiling and verifies
  under the key registered for the silo, and the certificates are those of all silos, each exactly once.
  It then returns the sum of the claims, cut at the largest u64, subtracts it from the balance down to
  zero, opens the next epoch with fresh slices, and refuses each of these certificates from then on.\<close>

theorem rebalance_exact:
  assumes "stingray_new agent balance silos f = Inr C0" "unat f < 2 ^ 63" "counter_run G C0 C" "distinct silos"
  shows "(rebalance G certs C = (Inr t, C') \<longleftrightarrow>
      mset (map ct_silo certs) = mset silos \<and> (\<forall>c \<in> set certs. cert_ok G C c) \<and>
      unat t = min (2 ^ 64 - 1) (sum_list (map (\<lambda>c. unat (ct_total_spent c)) certs)) \<and> C' = next_epoch t C) \<and>
    unat (sk_total_balance (next_epoch t C)) = unat (sk_total_balance C) - unat t \<and> spent_sum (next_epoch t C) = 0 \<and>
      (cert_ok G C c \<longrightarrow> \<not> cert_ok G (next_epoch t C) c)"
proof -
  have ok: "counter_ok C" and frame: "sk_silos C = silos"
    using counter_run_ok [OF assms(3)] stingray_new_ok [OF assms(1)] assms(2) by auto
  let ?sum = "fold (\<lambda>c a. saturating_add_word a (ct_total_spent c)) certs (0 :: u64)"
  have "(\<not> length certs < length silos \<and> (\<forall>c \<in> set certs. cert_ok G C c) \<and> distinct (map ct_silo certs)) \<longleftrightarrow>
      mset (map ct_silo certs) = mset silos \<and> (\<forall>c \<in> set certs. cert_ok G C c)" (is "?L \<longleftrightarrow> ?R")
  proof
    assume L: ?L
    then have "set (map ct_silo certs) \<subseteq> set silos" using frame by (auto simp: cert_ok_def)
    then show ?R using L assms(4) certs_cover [of "map ct_silo certs" silos] by simp
  next
    assume R: ?R
    then show ?L using assms(4) by (metis length_map mset_eq_imp_distinct_iff size_mset less_irrefl)
  qed
  moreover have "rebalance G certs C = (Inr t, C') \<longleftrightarrow> (\<not> length certs < length silos \<and>
      (\<forall>c \<in> set certs. cert_ok G C c) \<and> distinct (map ct_silo certs)) \<and> t = ?sum \<and> C' = next_epoch t C"
  proof (cases "(\<forall>c \<in> set certs. cert_ok G C c) \<and> distinct (map ct_silo certs)")
    case True
    then have "sum_certificates G C [] 0 certs = Inr (rev (map ct_silo certs), ?sum)"
      by (subst sum_certificates_iff [OF ok]) simp
    then show ?thesis using True by (auto simp: rebalance_def rebalance_inner_def frame)
  next
    case False
    then have "sum_certificates G C [] 0 certs \<noteq> Inr r" for r by (subst sum_certificates_iff [OF ok]) blast
    then obtain e where "sum_certificates G C [] 0 certs = Inl e" by (metis sum.exhaust)
    then show ?thesis using False by (auto simp: rebalance_def rebalance_inner_def)
  qed
  moreover have "t = ?sum \<longleftrightarrow> unat t = min (2 ^ 64 - 1) (sum_list (map (\<lambda>c. unat (ct_total_spent c)) certs))"
    unfolding word_unat_eq_iff by (subst fold_saturating) simp
  ultimately have "rebalance G certs C = (Inr t, C') \<longleftrightarrow>
      mset (map ct_silo certs) = mset silos \<and> (\<forall>c \<in> set certs. cert_ok G C c) \<and>
      unat t = min (2 ^ 64 - 1) (sum_list (map (\<lambda>c. unat (ct_total_spent c)) certs)) \<and> C' = next_epoch t C"
    by blast
  moreover have "spent_sum (distribute_slices D) = 0" for D
    using distribute_ok [of D] unfolding spent_sum_def counter_ok_def
    by (auto simp: sum_list_eq_0_iff distribute_states stingray_slice_new_def split: if_splits
        dest!: map_of_is_SomeI [rotated])
  then have "unat (sk_total_balance (next_epoch t C)) = unat (sk_total_balance C) - unat t \<and> spent_sum (next_epoch t C) = 0 \<and>
      (cert_ok G C c \<longrightarrow> \<not> cert_ok G (next_epoch t C) c)"
    by (auto simp: next_epoch_def cert_ok_def unat_sub word_le_nat_alt word_less_nat_alt not_less)
  ultimately show ?thesis by blast
qed

section \<open>What the slices allow together\<close>

lemma sum_update:
  fixes g :: "'v \<Rightarrow> nat"
  shows "distinct (map fst m) \<Longrightarrow> map_of m i = Some s \<Longrightarrow>
    sum_list (map (\<lambda>(i, s). g s) (AList.update i s' m)) + g s = sum_list (map (\<lambda>(i, s). g s) m) + g s'"
  by (induction m) (auto split: if_splits)

lemma full_debit:
  assumes "map_of (sk_silo_states C) i = Some s" "ss_spent s = 0" "ss_ceiling s = c" "distinct (map fst (sk_silo_states C))"
  shows "spent_sum (snd (counter_try_debit i c digest C)) = spent_sum C + unat c"
    and "j \<noteq> i \<Longrightarrow> map_of (sk_silo_states (snd (counter_try_debit i c digest C))) j = map_of (sk_silo_states C) j"
    and "distinct (map fst (sk_silo_states (snd (counter_try_debit i c digest C))))"
    and "fst (counter_try_debit i c digest C) = Inr ()"
proof -
  have spent: "ss_try_debit c digest s = (Inr (), s\<lparr>ss_spent := c, ss_debits := ss_debits s @ [digest],
      ss_debit_set := insert digest (ss_debit_set s)\<rparr>)"
    using assms unsigned_less [of c, where 'a = nat]
    by (simp add: ss_try_debit_def ss_remaining_def saturating_sub_word_def saturating_add_word_def)
  show "spent_sum (snd (counter_try_debit i c digest C)) = spent_sum C + unat c"
    using sum_update [OF assms(4,1), of "\<lambda>s. unat (ss_spent s)"] assms(1,2)
    by (simp add: counter_try_debit_def on_slice_def spent spent_sum_def)
  show "distinct (map fst (sk_silo_states (snd (counter_try_debit i c digest C))))"
    using assms by (simp add: counter_try_debit_def on_slice_def distinct_update)
  show "fst (counter_try_debit i c digest C) = Inr ()"
    using assms(1) by (simp add: counter_try_debit_def on_slice_def spent)
  show "map_of (sk_silo_states (snd (counter_try_debit i c digest C))) j = map_of (sk_silo_states C) j" if "j \<noteq> i"
    using assms(1) that by (simp add: counter_try_debit_def on_slice_def update_conv')
qed

definition debit_each :: "u64 \<Rightarrow> bytes32 list \<Rightarrow> stingray_counter \<Rightarrow> stingray_counter" where
  "debit_each c silos C = fold (\<lambda>i C. snd (counter_try_debit i c i C)) silos C"

lemma debit_each_sum:
  assumes "distinct silos" "distinct (map fst (sk_silo_states C))"
    and "\<forall>i \<in> set silos. \<exists>s. map_of (sk_silo_states C) i = Some s \<and> ss_spent s = 0 \<and> ss_ceiling s = c"
  shows "spent_sum (debit_each c silos C) = spent_sum C + length silos * unat c"
  using assms
proof (induction silos arbitrary: C)
  case (Cons i silos)
  then obtain s where s: "map_of (sk_silo_states C) i = Some s" "ss_spent s = 0" "ss_ceiling s = c" by auto
  note step = full_debit [OF s Cons.prems(2), where digest = i]
  have "\<exists>t. map_of (sk_silo_states (snd (counter_try_debit i c i C))) j = Some t \<and> ss_spent t = 0 \<and> ss_ceiling t = c"
    if "j \<in> set silos" for j
  proof -
    have "j \<noteq> i" using that Cons.prems(1) by auto
    then show ?thesis using Cons.prems(3) that by (simp add: step(2))
  qed
  then have "spent_sum (debit_each c silos (snd (counter_try_debit i c i C))) =
      spent_sum (snd (counter_try_debit i c i C)) + length silos * unat c"
    using Cons.prems(1) step(3) by (intro Cons.IH) simp_all
  then show ?case using step(1) by (simp add: debit_each_def)
qed (simp add: debit_each_def)

lemma ceiling_times_silos:
  assumes "3 * f + 1 \<le> n" "2 \<le> n" "2 \<le> (B :: nat)"
  shows "B < n * (B * (f + 1) div (2 * f + 1))"
proof (cases "f = 0")
  case True
  then show ?thesis using assms mult_le_mono [of 2 n B B] by simp
next
  case False
  have "B div 2 \<le> B * (f + 1) div (2 * f + 1)"
  proof -
    have "B div 2 * (2 * f + 1) \<le> B * (f + 1)"
    proof -
      have "B div 2 * (2 * f + 1) \<le> B div 2 * (2 * (f + 1))" by (intro mult_le_mono2) simp
      also have "\<dots> = 2 * (B div 2) * (f + 1)" by simp
      also have "\<dots> \<le> B * (f + 1)" by (intro mult_le_mono1) simp
      finally show ?thesis .
    qed
    then have "B div 2 * (2 * f + 1) div (2 * f + 1) \<le> B * (f + 1) div (2 * f + 1)" by (rule div_le_mono)
    then show ?thesis by (metis Suc_eq_plus1 nonzero_mult_div_cancel_right Zero_not_Suc)
  qed
  moreover have "4 \<le> n" using assms False by linarith
  ultimately have "4 * (B div 2) \<le> n * (B * (f + 1) div (2 * f + 1))" by (intro mult_le_mono)
  moreover have "B < 4 * (B div 2)" using assms(3) by presburger
  ultimately show ?thesis by linarith
qed

text \<open>C40. Honest silos alone can spend more than there is. With two silos or more and a balance of at least
  two units, let every silo debit its whole slice once. What they have spent together then is the number
  of silos times the ceiling, so every debit was accepted, and it exceeds the balance that the slices
  were cut from. No silo has to be faulty for this, whatever tolerance the counter was made for.\<close>

theorem honest_silos_overspend:
  assumes "stingray_new agent balance silos f = Inr C0" "unat f < 2 ^ 62" "distinct silos" "length silos < 2 ^ 64"
    and "2 \<le> length silos" "2 \<le> unat balance"
  shows "let C = debit_each (compute_slice_ceiling C0) silos C0 in
    spent_sum C = length silos * (unat balance * (unat f + 1) div (2 * unat f + 1)) \<and> unat balance < spent_sum C"
proof -
  have f: "unat (3 * f + 1) = 3 * unat f + 1" using assms(2) by (simp add: unat_word_ariths)
  have n: "unat (of_nat (length silos) :: u64) = length silos"
    using assms(4) by (simp add: unsigned_of_nat take_bit_nat_eq_self)
  have C0: "C0 = distribute_slices \<lparr>sk_agent = agent, sk_silos = silos, sk_byzantine_tolerance = f, sk_version = 0,
      sk_silo_states = [], sk_total_balance = balance, sk_total_allocated = 0, sk_silo_pubkeys = Map.empty\<rparr>"
    and enough: "3 * f + 1 \<le> of_nat (length silos)"
    using assms(1) by (auto simp: stingray_new_def Let_def split: if_splits)
  have "3 * unat f + 1 \<le> length silos" using enough unfolding word_le_nat_alt f n .
  then have more: "unat balance < length silos * (unat balance * (unat f + 1) div (2 * unat f + 1))"
    using assms(5,6) by (rule ceiling_times_silos)
  have ceiling: "unat (compute_slice_ceiling C0) = unat balance * (unat f + 1) div (2 * unat f + 1)"
    unfolding C0 compute_slice_ceiling_def using assms(2) by (subst slice_ceiling_nat) simp_all
  have ok: "counter_ok C0" unfolding C0 by (rule distribute_ok)
  have state: "map_of (sk_silo_states C0) i =
      (if i \<in> set silos then Some (stingray_slice_new agent 0 (compute_slice_ceiling C0)) else None)" for i
    unfolding C0 by (simp add: distribute_states)
  have fresh: "\<forall>i \<in> set silos. \<exists>s. map_of (sk_silo_states C0) i = Some s \<and> ss_spent s = 0 \<and> ss_ceiling s = compute_slice_ceiling C0"
    by (simp add: state stingray_slice_new_def)
  have "spent_sum C0 = 0"
    using ok unfolding spent_sum_def counter_ok_def
    by (auto simp: sum_list_eq_0_iff state stingray_slice_new_def split: if_splits dest!: map_of_is_SomeI [rotated])
  then show ?thesis
    using debit_each_sum [OF assms(3) _ fresh] ok more by (simp add: Let_def counter_ok_def ceiling)
qed

text \<open>Repeated silos count towards \<open>3f + 1\<close>: one silo named four times passes for four.\<close>

lemma repeated_silos_accepted:
  "\<exists>C. stingray_new agent balance [i, i, i, i] 1 = Inr C \<and> dom (map_of (sk_silo_states C)) = {i}"
proof -
  obtain C where C: "stingray_new agent balance [i, i, i, i] 1 = Inr C" by (simp add: stingray_new_def Let_def)
  then have "dom (map_of (sk_silo_states C)) = {i}"
    using stingray_new_ok [OF C] by (simp add: counter_ok_def dom_map_of_conv_image_fst)
  then show ?thesis using C by blast
qed

text \<open>The persisted form restores a slice exactly when the set of digests is that of the list. Fresh debits
  keep it so; a plain debit of a known digest does not, once one of the two is unwound.\<close>

lemma slice_serde_roundtrip: "slice_from_repr (slice_to_repr s) = s \<longleftrightarrow> ss_debit_set s = set (ss_debits s)"
  by (cases s) (auto simp: slice_from_repr_def slice_to_repr_def)

definition twin_ok :: "stingray_slice \<Rightarrow> bool" where
  "twin_ok s \<longleftrightarrow> distinct (ss_debits s) \<and> ss_debit_set s = set (ss_debits s)"

lemma twin_fresh_debit: "twin_ok s \<Longrightarrow> twin_ok (snd (ss_try_debit_fresh amount digest s))"
  by (auto simp: twin_ok_def ss_try_debit_fresh_def ss_try_debit_def)

lemma twin_unwind: "twin_ok s \<Longrightarrow> twin_ok (snd (ss_unwind_debit amount digest s))"
proof (cases "position digest (ss_debits s)")
  case (Some k)
  assume twin: "twin_ok s"
  have k: "k < length (ss_debits s)" "ss_debits s ! k = digest" using position_Some [OF Some] by auto
  have m: "mset (swap_remove k (ss_debits s)) = mset (ss_debits s) - {#digest#}" using mset_swap_remove [OF k(1)] k(2) by simp
  then have "mset (swap_remove k (ss_debits s)) = mset (remove1 digest (ss_debits s))" by simp
  then have "distinct (swap_remove k (ss_debits s))" "set (swap_remove k (ss_debits s)) = set (ss_debits s) - {digest}"
    using twin by (metis distinct_remove1 mset_eq_imp_distinct_iff twin_ok_def)
      (metis \<open>mset (swap_remove k (ss_debits s)) = mset (remove1 digest (ss_debits s))\<close> set_mset_mset set_remove1_eq twin twin_ok_def)
  then show ?thesis using twin by (simp add: twin_ok_def ss_unwind_debit_def Some)
qed (simp add: ss_unwind_debit_def)

lemma replay_after_unwind:
  assumes "a \<le> c" "b \<le> c - a"
  shows "let s = snd (ss_unwind_debit b d (snd (ss_try_debit b d (snd (ss_try_debit a d (stingray_slice_new agent v c)))))) in
    d \<in> set (ss_debits s) \<and> d \<notin> ss_debit_set s"
proof -
  have "unat a < 2 ^ 64" using unsigned_less [of a, where 'a = nat] by simp
  then show ?thesis using assms
    by (simp add: ss_try_debit_def ss_unwind_debit_def stingray_slice_new_def ss_remaining_def saturating_sub_word_def
        saturating_add_word_def swap_remove_def Let_def not_less)
qed

section \<open>Fast unlock against commit\<close>

lemma check_votes_iff:
  "check_votes G M request seen vs = Inr () \<longleftrightarrow>
     distinct (map uv_voter vs) \<and> set (map uv_voter vs) \<inter> set seen = {} \<and>
     (\<forall>v \<in> set vs. uv_request v = request \<and>
        (\<exists>pubkey. um_silo_pubkeys M (uv_voter v) = Some pubkey \<and> vote_verify_signature G pubkey v))"
  by (induction vs arbitrary: seen) (auto simp: and_then_ok)

lemma unlock_accepted_iff:
  "check_unlock_certificate G cert M = Inr () \<longleftrightarrow>
     unlock_quorum M \<le> of_nat (length (uc_votes cert)) \<and> distinct (map uv_voter (uc_votes cert)) \<and>
     (\<forall>v \<in> set (uc_votes cert). \<not> uv_has_conflict v \<and> uv_request v = uc_request cert \<and>
        (\<exists>pubkey. um_silo_pubkeys M (uv_voter v) = Some pubkey \<and> vote_verify_signature G pubkey v))"
  by (auto simp: check_unlock_certificate_def and_then_ok check_votes_iff check_all_iff)

lemma quorums_meet:
  assumes "finite S" "card S \<le> 3 * f + 1" "Q \<subseteq> S" "V \<subseteq> S" "2 * f + 1 \<le> card Q" "2 * f + 1 \<le> card V" "card F \<le> f" "finite F"
  shows "\<exists>i. i \<in> Q \<and> i \<in> V \<and> i \<notin> F"
proof (rule ccontr)
  assume "\<not> ?thesis"
  then have sub: "Q \<inter> V \<subseteq> F" by blast
  have fin: "finite Q" "finite V" using assms finite_subset by blast+
  have "card Q + card V = card (Q \<union> V) + card (Q \<inter> V)" using fin by (rule card_Un_Int)
  moreover have "card (Q \<union> V) \<le> card S" using assms by (intro card_mono) auto
  moreover have "card (Q \<inter> V) \<le> card F" using sub assms(8) by (rule card_mono [rotated])
  ultimately show False using assms by linarith
qed

lemma unlock_message_inject:
  "unlock_message p i b = unlock_message q j d \<longleftrightarrow> p = q \<and> i = j \<and> b = d"
  by (auto simp: unlock_message_def)

text \<open>The votes of a certificate that come from a silo outside \<open>faulty\<close> and verify were cast by it: \<open>cast\<close> holds the
  requests and flags with which each silo called \<open>vote_unlock\<close>. This is the unforgeability of signatures,
  for the signatures in the certificate.\<close>

definition votes_were_cast ::
  "sig_scheme \<Rightarrow> unlock_manager \<Rightarrow> (bytes32 \<Rightarrow> (unlock_request \<times> bool \<times> bytes32) set) \<Rightarrow> bytes32 set \<Rightarrow> unlock_certificate \<Rightarrow> bool" where
  "votes_were_cast G M cast faulty cert \<longleftrightarrow>
     (\<forall>v \<in> set (uc_votes cert). \<forall>pubkey. uv_voter v \<notin> faulty \<and> um_silo_pubkeys M (uv_voter v) = Some pubkey \<and>
        vote_verify_signature G pubkey v \<longrightarrow>
        (\<exists>(request, has_signed, key) \<in> cast (uv_voter v).
           vote_signing_message (vote_unlock G request (uv_voter v) has_signed key) = vote_signing_message v))"

text \<open>C8. A proposal that a quorum committed cannot be unlocked. Let at most \<open>3f + 1\<close> silos be registered, at most
  \<open>f\<close> of them faulty, and let a quorum have signed the commit of a proposal. Let a silo that is not faulty
  and signed the commit call \<open>vote_unlock\<close> for this proposal with the flag that says so, and let nobody
  forge votes in its name. Then every unlock certificate for the proposal is refused and the locks stay as
  they are, whatever votes it holds, honest or not, and whoever assembled it.\<close>

theorem unlock_excludes_commit:
  assumes "finite (dom (um_silo_pubkeys M))" "card (dom (um_silo_pubkeys M)) \<le> 3 * unat (um_byzantine_tolerance M) + 1"
    and "unat (um_byzantine_tolerance M) < 2 ^ 62"
    and "committed \<subseteq> dom (um_silo_pubkeys M)" "2 * unat (um_byzantine_tolerance M) + 1 \<le> card committed"
    and "finite faulty" "card faulty \<le> unat (um_byzantine_tolerance M)"
    and "\<forall>i \<in> committed - faulty. \<forall>(request, has_signed, key) \<in> cast i.
      ur_proposal_id request = ur_proposal_id (uc_request cert) \<longrightarrow> has_signed"
    and "votes_were_cast G M cast faulty cert"
  shows "isl (fst (apply_unlock_certificate G cert M)) \<and> snd (apply_unlock_certificate G cert M) = M"
proof -
  have "check_unlock_certificate G cert M \<noteq> Inr ()"
  proof
    assume "check_unlock_certificate G cert M = Inr ()"
    then have quorum: "unlock_quorum M \<le> of_nat (length (uc_votes cert))"
      and dist: "distinct (map uv_voter (uc_votes cert))"
      and votes: "\<And>v. v \<in> set (uc_votes cert) \<Longrightarrow> \<not> uv_has_conflict v \<and> uv_request v = uc_request cert \<and>
        (\<exists>pubkey. um_silo_pubkeys M (uv_voter v) = Some pubkey \<and> vote_verify_signature G pubkey v)"
      unfolding unlock_accepted_iff by auto
    let ?V = "uv_voter ` set (uc_votes cert)"
    have sub: "?V \<subseteq> dom (um_silo_pubkeys M)" using votes by blast
    have "card ?V = length (uc_votes cert)" using dist by (metis distinct_card length_map list.set_map)
    moreover have "unat (of_nat (length (uc_votes cert)) :: u64) \<le> length (uc_votes cert)"
      by (simp add: unsigned_of_nat take_bit_nat_less_eq_self)
    moreover have "unat (unlock_quorum M) = 2 * unat (um_byzantine_tolerance M) + 1"
      using assms(3) by (simp add: unlock_quorum_def unat_word_ariths)
    ultimately have "2 * unat (um_byzantine_tolerance M) + 1 \<le> card ?V"
      using quorum unfolding word_le_nat_alt by linarith
    then obtain i where i: "i \<in> committed" "i \<in> ?V" "i \<notin> faulty"
      using quorums_meet [OF assms(1,2,4) sub assms(5) _ assms(7,6)] by blast
    then obtain v where v: "v \<in> set (uc_votes cert)" "uv_voter v = i" by blast
    then obtain request has_signed key where c: "(request, has_signed, key) \<in> cast i"
      "vote_signing_message (vote_unlock G request i has_signed key) = vote_signing_message v"
      using assms(9) votes [OF v(1)] i(3) unfolding votes_were_cast_def by blast
    then have "ur_proposal_id request = ur_proposal_id (uc_request cert) \<and> has_signed = uv_has_conflict v"
      using votes [OF v(1)] by (simp add: vote_signing_message_def vote_unlock_def unlock_message_inject)
    then show False using assms(8) c(1) i votes [OF v(1)] by blast
  qed
  then obtain e where "check_unlock_certificate G cert M = Inl e" by (cases "check_unlock_certificate G cert M") auto
  then show ?thesis by (simp add: apply_unlock_certificate_def)
qed

text \<open>The number of silos is stored but the quorum does not depend on it: of seven silos with tolerance one,
  three can commit and three others unlock.\<close>

lemma quorum_ignores_silos: "unlock_quorum (M\<lparr>um_total_silos := n\<rparr>) = unlock_quorum M"
  by (simp add: unlock_quorum_def)

text \<open>A lock is released once.\<close>

inductive lock_run :: "sig_scheme \<Rightarrow> unlock_manager \<Rightarrow> bytes32 list \<Rightarrow> unlock_manager \<Rightarrow> bool" for G M0 where
  start: "lock_run G M0 [] M0"
| register: "lock_run G M0 rs M \<Longrightarrow> lock_run G M0 rs (manager_register_pubkey silo pubkey M)"
| lock: "lock_run G M0 rs M \<Longrightarrow> lock_run G M0 rs (snd (manager_lock p amount silo version M))"
| commit: "lock_run G M0 rs M \<Longrightarrow> release_on_commit p M = (Inr amount, M') \<Longrightarrow> lock_run G M0 (p # rs) M'"
| no_commit: "lock_run G M0 rs M \<Longrightarrow> release_on_commit p M = (Inl e, M') \<Longrightarrow> lock_run G M0 rs M'"
| unlock: "lock_run G M0 rs M \<Longrightarrow> apply_unlock_certificate G cert M = (Inr r, M') \<Longrightarrow>
    lock_run G M0 (ur_proposal_id (uc_request cert) # rs) M'"
| no_unlock: "lock_run G M0 rs M \<Longrightarrow> apply_unlock_certificate G cert M = (Inl e, M') \<Longrightarrow> lock_run G M0 rs M'"

lemma release_effect:
  "release_lock p M = (Inr r, M') \<Longrightarrow> um_locks M p \<noteq> Some Released \<and> M' = M\<lparr>um_locks := (um_locks M)(p \<mapsto> Released)\<rparr>"
  "release_lock p M = (Inl e, M') \<Longrightarrow> M' = M"
  by (auto simp: release_lock_def split: option.splits lock_status.splits)

lemma release_on_commit_effect:
  "release_on_commit p M = (Inr a, M') \<Longrightarrow> \<exists>r. release_lock p M = (Inr r, M')"
  "release_on_commit p M = (Inl e, M') \<Longrightarrow> M' = M"
  by (cases "release_lock p M"; cases "fst (release_lock p M)"; auto simp: release_on_commit_def release_effect)+

lemma apply_unlock_effect:
  "apply_unlock_certificate G cert M = (Inr r, M') \<Longrightarrow> release_lock (ur_proposal_id (uc_request cert)) M = (Inr r, M')"
  "apply_unlock_certificate G cert M = (Inl e, M') \<Longrightarrow> M' = M"
  by (auto simp: apply_unlock_certificate_def release_effect split: sum.splits)

text \<open>No lock pays out twice. Over any run of a fresh manager, with commits and unlock certificates in any
  order, the proposals whose lock was released are pairwise distinct, and they are exactly those that
  the manager remembers as released: none can be locked again.\<close>

theorem lock_released_once:
  assumes "lock_run G (unlock_manager_new f n) rs M"
  shows "distinct rs \<and> set rs = {p. um_locks M p = Some Released}"
  using assms
proof (induction rule: lock_run.induct)
  case (lock rs M p amount silo version)
  then show ?case by (auto simp: manager_lock_def)
next
  case (commit rs M p amount M')
  then obtain r where "release_lock p M = (Inr r, M')" using release_on_commit_effect(1) by blast
  then show ?case using commit.IH release_effect(1) by fastforce
next
  case (unlock rs M cert r M')
  have "release_lock (ur_proposal_id (uc_request cert)) M = (Inr r, M')"
    using apply_unlock_effect(1) [OF unlock.hyps(2)] .
  then show ?case using unlock.IH release_effect(1) by fastforce
next
  case (no_commit rs M p e M')
  then show ?case using release_on_commit_effect(2) [OF no_commit.hyps(2)] by simp
next
  case (no_unlock rs M cert e M')
  then show ?case using apply_unlock_effect(2) [OF no_unlock.hyps(2)] by simp
qed (simp_all add: unlock_manager_new_def manager_register_pubkey_def)

text \<open>The epoch of a lock is stored and never compared, so an unlock after a rebalance gives the amount back
  to the slice of the next epoch, which never paid it.\<close>

lemma stale_unlock_refunds:
  assumes "um_locks M p = Some (Locked p amount silo version)" "ur_proposal_id (uc_request cert) = p"
    and "check_unlock_certificate G cert M = Inr ()" "map_of (sk_silo_states C) silo = Some s"
  shows "map_of (sk_silo_states (snd (snd (apply_unlock_and_refund G cert (M, C))))) silo = Some (ss_refund amount s)"
  using assms
  by (simp add: apply_unlock_and_refund_def apply_unlock_certificate_def release_lock_def counter_refund_def on_slice_def update_conv')

section \<open>Examples\<close>

definition demo_sigs :: sig_scheme where
  "demo_sigs = \<lparr>sg_valid_key = (\<lambda>_. True), sg_verify_strict = (\<lambda>k m sig. fst sig = k), sg_sign = (\<lambda>k m. (k, 0))\<rparr>"

definition demo_counter :: stingray_counter where
  "demo_counter = (case stingray_new 9 90 [1, 2, 3, 4] 1 of Inr C \<Rightarrow> C)"

lemma demo_counter_new: "stingray_new 9 90 [1, 2, 3, 4] 1 = Inr demo_counter"
  by (simp add: demo_counter_def stingray_new_def Let_def)

lemma demo_ceiling: "compute_slice_ceiling demo_counter = 60"
  by (simp add: demo_counter_def stingray_new_def Let_def) (simp add: compute_slice_ceiling_def slice_ceiling_for_def)

theorem stingray_bounded_witness:
  "spent_sum (snd (counter_try_debit 1 50 7 demo_counter)) \<le> 240"
proof -
  have run: "counter_run demo_sigs demo_counter (snd (counter_try_debit 1 50 7 demo_counter))"
    by (rule r_into_rtranclp) (rule counter_step.intros)
  have balance: "sk_total_balance (snd (counter_try_debit 1 50 7 demo_counter)) = 90"
    by (simp add: counter_try_debit_def on_slice_def demo_counter_def stingray_new_def Let_def split: option.split)
  have "spent_sum (snd (counter_try_debit 1 50 7 demo_counter)) \<le>
      card (set [1, 2, 3, 4 :: bytes32]) * (unat (90 :: u64) * (unat (1 :: u64) + 1) div (2 * unat (1 :: u64) + 1))"
    using stingray_bounded [OF demo_counter_new _ run] unfolding balance by simp
  then show ?thesis by simp
qed

theorem honest_silos_overspend_witness:
  "spent_sum (debit_each 60 [1, 2, 3, 4] demo_counter) = 240 \<and> (90 :: nat) < 240"
  using honest_silos_overspend [OF demo_counter_new] by (simp add: demo_ceiling Let_def)

theorem lock_released_once_witness:
  "distinct [5 :: bytes32] \<and> snd (release_on_commit 5 (snd (manager_lock 5 10 1 0 (unlock_manager_new 1 4)))) =
     (unlock_manager_new 1 4)\<lparr>um_locks := [5 \<mapsto> Released]\<rparr>"
proof -
  let ?M = "snd (manager_lock 5 10 1 0 (unlock_manager_new 1 4))"
  have run: "release_on_commit 5 ?M = (Inr 10, (unlock_manager_new 1 4)\<lparr>um_locks := [5 \<mapsto> Released]\<rparr>)"
    by (simp add: release_on_commit_def release_lock_def manager_lock_def unlock_manager_new_def)
  have "lock_run demo_sigs (unlock_manager_new 1 4) [5] ((unlock_manager_new 1 4)\<lparr>um_locks := [5 \<mapsto> Released]\<rparr>)"
    by (rule lock_run.commit [OF lock_run.lock [OF lock_run.start] run])
  then show ?thesis using lock_released_once run by simp
qed

definition demo_manager :: unlock_manager where
  "demo_manager = \<lparr>um_locks = [5 \<mapsto> Locked 5 10 1 0], um_byzantine_tolerance = 1, um_total_silos = 4,
     um_silo_pubkeys = [1 \<mapsto> 1, 2 \<mapsto> 2, 3 \<mapsto> 3, 4 \<mapsto> 4]\<rparr>"

text \<open>Signatures that determine the key and the flag of the vote they are for.\<close>

definition vote_sigs :: sig_scheme where
  "vote_sigs = \<lparr>sg_valid_key = (\<lambda>_. True), sg_verify_strict = (\<lambda>k m sig. sig = (k, ucast (last m))),
     sg_sign = (\<lambda>k m. (k, ucast (last m)))\<rparr>"

definition demo_request :: unlock_request where
  "demo_request = \<lparr>ur_proposal_id = 5, ur_agent = 9, ur_amount = 10, ur_requester = 4\<rparr>"

text \<open>Silos 1, 2 and 3 signed the commit, silo 4 is faulty and asks for an unlock: its own vote denies a conflict,
  and all three votes in the certificate have valid signatures.\<close>

theorem unlock_excludes_commit_witness:
  "let cert = \<lparr>uc_request = demo_request, uc_votes = [vote_unlock vote_sigs demo_request 4 False 4,
       vote_unlock vote_sigs demo_request 2 True 2, vote_unlock vote_sigs demo_request 3 True 3]\<rparr>
   in check_votes vote_sigs demo_manager demo_request [] (uc_votes cert) = Inr () \<and>
      apply_unlock_certificate vote_sigs cert demo_manager = (Inl (BeConflictingUnlock 2 5), demo_manager)"
proof -
  let ?votes = "[vote_unlock vote_sigs demo_request 4 False 4, vote_unlock vote_sigs demo_request 2 True 2,
    vote_unlock vote_sigs demo_request 3 True 3]"
  let ?cert = "\<lparr>uc_request = demo_request, uc_votes = ?votes\<rparr>"
  let ?cast = "\<lambda>i. {(demo_request, i \<in> {1, 2, 3 :: bytes32}, i)}"
  have dom: "dom (um_silo_pubkeys demo_manager) = {1, 2, 3, 4}" by (auto simp: demo_manager_def)
  have F: "um_byzantine_tolerance demo_manager = 1" by (simp add: demo_manager_def)
  have signed: "check_votes vote_sigs demo_manager demo_request [] ?votes = Inr ()"
    by (simp add: demo_manager_def vote_unlock_def vote_verify_signature_def vote_signing_message_def vote_sigs_def)
  have "votes_were_cast vote_sigs demo_manager ?cast {4} ?cert"
    by (auto simp: votes_were_cast_def vote_unlock_def vote_signing_message_def)
  then have "isl (fst (apply_unlock_certificate vote_sigs ?cert demo_manager)) \<and>
      snd (apply_unlock_certificate vote_sigs ?cert demo_manager) = demo_manager"
    by (intro unlock_excludes_commit [where committed = "{1, 2, 3}" and faulty = "{4}" and cast = ?cast]) (auto simp: dom F)
  moreover have "fst (apply_unlock_certificate vote_sigs ?cert demo_manager) = Inl (BeConflictingUnlock 2 5)"
    using signed by (simp add: apply_unlock_certificate_def check_unlock_certificate_def unlock_quorum_def F vote_unlock_def
        demo_request_def)
  ultimately show ?thesis using signed by (simp add: Let_def prod_eq_iff)
qed

theorem rebalance_exact_witness:
  "rebalance demo_sigs (map (\<lambda>i. slice_certificate demo_sigs i i (stingray_slice_new 9 0 60)) [2, 1, 4, 3])
     (demo_counter\<lparr>sk_silo_pubkeys := [1 \<mapsto> 1, 2 \<mapsto> 2, 3 \<mapsto> 3, 4 \<mapsto> 4]\<rparr>) =
   (Inr 0, next_epoch 0 (demo_counter\<lparr>sk_silo_pubkeys := [1 \<mapsto> 1, 2 \<mapsto> 2, 3 \<mapsto> 3, 4 \<mapsto> 4]\<rparr>))"
proof -
  let ?C = "demo_counter\<lparr>sk_silo_pubkeys := [1 \<mapsto> 1, 2 \<mapsto> 2, 3 \<mapsto> 3, 4 \<mapsto> 4]\<rparr>"
  let ?reg = counter_register_pubkey
  have init: "sk_silo_pubkeys demo_counter = Map.empty" "sk_silos demo_counter = [1, 2, 3, 4]" "sk_agent demo_counter = 9"
    "sk_version demo_counter = 0"
    by (simp_all add: demo_counter_def stingray_new_def Let_def)
  have "counter_run demo_sigs demo_counter (?reg 4 4 (?reg 3 3 (?reg 2 2 (?reg 1 1 demo_counter))))"
    by (meson counter_step.intros(1) rtranclp.rtrancl_into_rtrancl rtranclp.rtrancl_refl)
  then have run: "counter_run demo_sigs demo_counter ?C" by (simp add: counter_register_pubkey_def init)
  have ceiling: "compute_slice_ceiling ?C = 60" using demo_ceiling by (simp add: compute_slice_ceiling_def)
  show ?thesis
    by (subst rebalance_exact [OF demo_counter_new _ run, THEN conjunct1])
      (auto simp: init ceiling cert_ok_def slice_certificate_def stingray_slice_new_def cert_verify_signature_def demo_sigs_def)
qed

end
