(* ===== verification/TwoPhase.thy ===== *)
theory TwoPhase
  imports ExecuteLaws Stingray
begin

text \<open>
  Atomic turns of several parties (\<open>coord/src/atomic.rs\<close>): a forest that every participant votes on, the
  coordinator as a state machine from a proposal over the votes to a commit or an abort, and the
  participants that vote and replay the committed forest on their own ledger. Instants and durations are
  numbers; the clock is an argument. The registered decision gate, the codec and the order of hash maps are
  fields of \<open>coord_env\<close>. Private legs and the postcard encoding of a forest are left out.
\<close>

section \<open>Forests and votes\<close>

record atomic_forest =
  af_participants :: "bytes32 list"
  af_forest :: call_forest
  af_preconditions :: "(cell_id \<times> preconditions) list"
  af_initiator :: cell_id
  af_fee :: u64
  af_hash :: bytes32

definition atomic_forest_bytes ::
  "('a turn_crypto_scheme) \<Rightarrow> bytes32 list \<Rightarrow> bytes32 \<Rightarrow> (cell_id \<times> preconditions) list \<Rightarrow> cell_id \<Rightarrow> u64 \<Rightarrow> u8 list" where
  "atomic_forest_bytes E participants forest_hash preconditions initiator fee =
     ascii ''dregg-coord:atomic-forest'' @ concat (map bytes32_bytes participants) @ bytes32_bytes forest_hash @
     concat (map (\<lambda>(i, p). bytes32_bytes i @ bytes32_bytes (preconditions_hash E (predicate_postcard E) p)) preconditions) @
     bytes32_bytes initiator @ u64_bytes fee"

definition atomic_forest_new ::
  "('a turn_crypto_scheme) \<Rightarrow> bytes32 list \<Rightarrow> call_forest \<Rightarrow> (cell_id \<times> preconditions) list \<Rightarrow> cell_id \<Rightarrow> u64 \<Rightarrow> atomic_forest" where
  "atomic_forest_new E participants forest preconditions initiator fee =
     \<lparr>af_participants = participants, af_forest = forest, af_preconditions = preconditions, af_initiator = initiator,
      af_fee = fee,
      af_hash = blake3 E (atomic_forest_bytes E participants (forest_compute_hash E forest) preconditions initiator fee)\<rparr>"

datatype coord_error =
    CeInvalidCoordinatorState string string
  | CeThresholdNotMet nat nat
  | CeUnknownParticipant bytes32
  | CeDuplicateVote bytes32
  | CeEmptyForest
  | CeNoParticipants
  | CeInvalidThreshold nat nat
  | CeInvalidVoteSignature bytes32
  | CeBudgetExceeded u64 u64
  | CeTurnExecution pipeline_error

definition forest_validate :: "atomic_forest \<Rightarrow> coord_error + unit" where
  "forest_validate f =
     and_then (ensure (af_participants f \<noteq> []) CeNoParticipants) (\<lambda>_. ensure (af_forest f \<noteq> []) CeEmptyForest)"

definition is_participant :: "atomic_forest \<Rightarrow> bytes32 \<Rightarrow> bool" where
  "is_participant f node \<longleftrightarrow> node \<in> set (af_participants f)"

definition atomic_estimated_cost :: "computron_costs \<Rightarrow> atomic_forest \<Rightarrow> u64" where
  "atomic_estimated_cost costs f =
     saturating_mul_word (of_nat (forest_action_count (af_forest f)))
       (saturating_add_word (cc_action_base costs) (cc_effect_base costs))"

datatype vote = VoteYes signature64 | VoteNo string signature64

fun is_yes :: "vote \<Rightarrow> bool" where
  "is_yes (VoteYes _) = True"
| "is_yes (VoteNo _ _) = False"

fun is_no :: "vote \<Rightarrow> bool" where
  "is_no (VoteYes _) = False"
| "is_no (VoteNo _ _) = True"

definition VOTE_YES_FLAG :: u8 where "VOTE_YES_FLAG = 1"

definition VOTE_NO_FLAG :: u8 where "VOTE_NO_FLAG = 0"

definition ABORT_FLAG :: u8 where "ABORT_FLAG = 2"

definition vote_message :: "bytes32 \<Rightarrow> bytes32 \<Rightarrow> u8 \<Rightarrow> u8 list" where
  "vote_message proposal_id forest_hash flag = bytes32_bytes proposal_id @ bytes32_bytes forest_hash @ [flag]"

definition sign_yes :: "sig_scheme \<Rightarrow> bytes32 \<Rightarrow> bytes32 \<Rightarrow> bytes32 \<Rightarrow> signature64" where
  "sign_yes G proposal_id forest_hash key = sg_sign G key (vote_message proposal_id forest_hash VOTE_YES_FLAG)"

definition sign_no :: "sig_scheme \<Rightarrow> bytes32 \<Rightarrow> bytes32 \<Rightarrow> bytes32 \<Rightarrow> signature64" where
  "sign_no G proposal_id forest_hash key = sg_sign G key (vote_message proposal_id forest_hash VOTE_NO_FLAG)"

definition verify_yes :: "sig_scheme \<Rightarrow> signature64 \<Rightarrow> bytes32 \<Rightarrow> bytes32 \<Rightarrow> bytes32 \<Rightarrow> bool" where
  "verify_yes G sig proposal_id forest_hash pubkey \<longleftrightarrow>
     sg_valid_key G pubkey \<and> sg_verify_strict G pubkey (vote_message proposal_id forest_hash VOTE_YES_FLAG) sig"

definition verify_no :: "sig_scheme \<Rightarrow> signature64 \<Rightarrow> bytes32 \<Rightarrow> bytes32 \<Rightarrow> bytes32 \<Rightarrow> bool" where
  "verify_no G sig proposal_id forest_hash pubkey \<longleftrightarrow>
     sg_valid_key G pubkey \<and> sg_verify_strict G pubkey (vote_message proposal_id forest_hash VOTE_NO_FLAG) sig"

datatype decision = DCommit | DAbort | DPending

section \<open>The executor of an atomic turn\<close>

record coord_env =
  ce_codec :: pred_codec
  ce_registry :: "predicate_registry option"
  ce_key_order :: "cell_id list \<Rightarrow> cell_id list"
  ce_externals :: turn_externals
  ce_vote_order :: "(bytes32 \<times> vote) list \<Rightarrow> (bytes32 \<times> vote) list"
  ce_gate :: "nat \<Rightarrow> nat \<Rightarrow> nat \<Rightarrow> nat \<Rightarrow> decision option"

definition turn_executor_new :: "coord_env \<Rightarrow> computron_costs \<Rightarrow> ledger \<Rightarrow> turn_executor" where
  "turn_executor_new P costs L =
     \<lparr>tx_env =
        \<lparr>tv_exec = \<lparr>x_block_height = 0, x_current_timestamp = 0, x_max_introduction_lifetime = 1000,
           x_issuer_wells = Map.empty, x_revocation_channels = None, x_proof_verifier = None,
           x_last_receipt_hash = Map.empty, x_local_federation_id = 0, x_trusted_federation_roots = []\<rparr>,
         tv_costs = costs, tv_require_pq = False, tv_witnessed_registry = ce_registry P, te_codec = ce_codec P,
         te_rate_limit_counters = Map.empty, te_rate_limit_sum_counters = Map.empty, te_key_order = ce_key_order P\<rparr>,
      tx_stores = \<lparr>xs_ledger = L, xs_bridged = [], xs_nullifiers = append_new, xs_commitments = append_new,
         xs_revoked = append_new, xs_journal = [], xs_factories = registry_new\<rparr>,
      tx_budget_gate = None, tx_migrations = manager_new, tx_proposer_cell = None, tx_treasury_cell = None,
      tx_fee_well_cell = None, tx_symbolic = False, tx_last_write_set = []\<rparr>"

definition atomic_turn :: "atomic_forest \<Rightarrow> u64 \<Rightarrow> turn" where
  "atomic_turn f nonce =
     \<lparr>tn_agent = af_initiator f, tn_nonce = nonce, tn_call_forest = af_forest f, tn_fee = af_fee f,
      tn_memo = Some (ascii ''atomic multi-party turn''), tn_valid_until = None, tn_previous_receipt_hash = None,
      tn_depends_on = [], tn_conservation_proof = None, tn_sovereign_witnesses = [], tn_execution_proof = None,
      tn_execution_proof_cell = None, tn_execution_proof_new_commitment = None, tn_custom_program_proofs = None,
      tn_effect_binding_proofs = [], tn_cross_effect_dependencies = [], tn_effect_witness_index_map = []\<rparr>"

text \<open>A new executor has no signing key and an observer that does nothing.\<close>

definition run_atomic ::
  "('a turn_crypto_scheme) \<Rightarrow> coord_env \<Rightarrow> computron_costs \<Rightarrow> atomic_forest \<Rightarrow> ledger \<Rightarrow> (coord_error + turn_receipt) \<times> ledger" where
  "run_atomic E P costs f L =
     (case l_cells L (af_initiator f) of
        None \<Rightarrow> (Inl (CeTurnExecution (pe_turn (TCellNotFound (af_initiator f)))), L)
      | Some agent \<Rightarrow>
          (case execute E ((ce_externals P)\<lparr>ext_sign := None, ext_veto := (\<lambda>_ _ _. None)\<rparr>)
              (atomic_turn f (st_nonce (c_state agent))) (turn_executor_new P costs L) of
             (TrCommitted _ receipt _, X) \<Rightarrow> (Inr receipt, tx_ledger X)
           | (TrRejected reason _, X) \<Rightarrow> (Inl (CeTurnExecution reason), tx_ledger X)))"

section \<open>The coordinator\<close>

record propose_message =
  pm_forest :: atomic_forest
  pm_coordinator :: bytes32
  pm_proposal_id :: bytes32

record commit_message =
  cm_proposal_id :: bytes32
  cm_receipt :: turn_receipt
  cm_signatures :: "(bytes32 \<times> signature64) list"

record abort_message =
  am_proposal_id :: bytes32
  am_reason :: string
  am_rejectors :: "bytes32 list"
  am_signature :: signature64

datatype coordinator_state =
    CsIdle
  | CsProposing atomic_forest "(bytes32 \<times> vote) list" bytes32 "nat option"
  | CsCommitted turn_receipt bytes32
  | CsAborted string bytes32

fun coord_state_name :: "coordinator_state \<Rightarrow> string" where
  "coord_state_name CsIdle = ''Idle''"
| "coord_state_name (CsProposing _ _ _ _) = ''Proposing''"
| "coord_state_name (CsCommitted _ _) = ''Committed''"
| "coord_state_name (CsAborted _ _) = ''Aborted''"

record coordinator =
  co_state :: coordinator_state
  co_threshold :: nat
  co_node_id :: bytes32
  co_signing_key :: bytes32
  co_costs :: computron_costs
  co_max_budget :: u64
  co_participant_keys :: "bytes32 \<rightharpoonup> bytes32"
  co_proposal_timeout :: nat

definition coordinator_new ::
  "bytes32 \<Rightarrow> bytes32 \<Rightarrow> nat \<Rightarrow> computron_costs \<Rightarrow> u64 \<Rightarrow> (bytes32 \<rightharpoonup> bytes32) \<Rightarrow> coordinator" where
  "coordinator_new node_id key threshold costs max_budget keys =
     \<lparr>co_state = CsIdle, co_threshold = threshold, co_node_id = node_id, co_signing_key = key, co_costs = costs,
      co_max_budget = max_budget, co_participant_keys = keys, co_proposal_timeout = 30\<rparr>"

definition with_proposal_timeout :: "nat \<Rightarrow> coordinator \<Rightarrow> coordinator" where
  "with_proposal_timeout timeout C = C\<lparr>co_proposal_timeout := timeout\<rparr>"

definition proposal_id_for :: "('a crypto_scheme) \<Rightarrow> bytes32 \<Rightarrow> bytes32 \<Rightarrow> bytes32" where
  "proposal_id_for E forest_hash node =
     blake3 E (ascii ''dregg-coord:proposal'' @ bytes32_bytes forest_hash @ bytes32_bytes node)"

definition propose ::
  "('a crypto_scheme) \<Rightarrow> nat \<Rightarrow> atomic_forest \<Rightarrow> coordinator \<Rightarrow> (coord_error + propose_message) \<times> coordinator" where
  "propose E now f C =
     (case and_then (ensure (co_state C = CsIdle) (CeInvalidCoordinatorState ''Idle'' (coord_state_name (co_state C)))) (\<lambda>_.
        and_then (forest_validate f) (\<lambda>_.
        and_then (ensure (co_threshold C \<noteq> 0 \<and> co_threshold C \<le> length (af_participants f))
          (CeInvalidThreshold (co_threshold C) (length (af_participants f)))) (\<lambda>_.
          ensure (atomic_estimated_cost (co_costs C) f \<le> co_max_budget C)
            (CeBudgetExceeded (atomic_estimated_cost (co_costs C) f) (co_max_budget C))))) of
        Inl e \<Rightarrow> (Inl e, C)
      | Inr _ \<Rightarrow>
          let pid = proposal_id_for E (af_hash f) (co_node_id C) in
          (Inr \<lparr>pm_forest = f, pm_coordinator = co_node_id C, pm_proposal_id = pid\<rparr>,
           C\<lparr>co_state := CsProposing f [] pid (Some now)\<rparr>))"

text \<open>A proposal with more than \<open>n\<close> as threshold is refused, so the subtraction does not go below zero.\<close>

definition decide_native :: "nat \<Rightarrow> nat \<Rightarrow> nat \<Rightarrow> nat \<Rightarrow> decision" where
  "decide_native yes no n threshold =
     (if threshold \<le> yes then DCommit else if n - threshold < no then DAbort else DPending)"

definition yes_count :: "(bytes32 \<times> vote) list \<Rightarrow> nat" where
  "yes_count votes = length (filter (\<lambda>(_, v). is_yes v) votes)"

definition no_count :: "(bytes32 \<times> vote) list \<Rightarrow> nat" where
  "no_count votes = length (filter (\<lambda>(_, v). is_no v) votes)"

fun tally_of :: "nat \<Rightarrow> coordinator_state \<Rightarrow> (nat \<times> nat \<times> nat \<times> nat) option" where
  "tally_of threshold (CsProposing f votes _ _) =
     Some (yes_count votes, no_count votes, length (af_participants f), threshold)"
| "tally_of threshold _ = None"

definition current_tally :: "coordinator \<Rightarrow> (nat \<times> nat \<times> nat \<times> nat) option" where
  "current_tally C = tally_of (co_threshold C) (co_state C)"

definition evaluate_votes_native :: "coordinator \<Rightarrow> decision" where
  "evaluate_votes_native C =
     (case current_tally C of None \<Rightarrow> DPending | Some (yes, no, n, threshold) \<Rightarrow> decide_native yes no n threshold)"

definition evaluate_votes :: "coord_env \<Rightarrow> coordinator \<Rightarrow> decision" where
  "evaluate_votes P C =
     (case current_tally C of
        Some (yes, no, n, threshold) \<Rightarrow>
          (case ce_gate P yes no n threshold of Some d \<Rightarrow> d | None \<Rightarrow> evaluate_votes_native C)
      | None \<Rightarrow> evaluate_votes_native C)"

definition vote_valid :: "sig_scheme \<Rightarrow> bytes32 \<Rightarrow> bytes32 \<Rightarrow> bytes32 \<Rightarrow> vote \<Rightarrow> bool" where
  "vote_valid G pid forest_hash pubkey v =
     (case v of VoteYes sig \<Rightarrow> verify_yes G sig pid forest_hash pubkey
      | VoteNo _ sig \<Rightarrow> verify_no G sig pid forest_hash pubkey)"

definition receive_vote ::
  "sig_scheme \<Rightarrow> coord_env \<Rightarrow> bytes32 \<Rightarrow> vote \<Rightarrow> coordinator \<Rightarrow> (coord_error + decision option) \<times> coordinator" where
  "receive_vote G P i v C =
     (case co_state C of
        CsProposing f votes pid at \<Rightarrow>
          (case and_then (ensure (is_participant f i) (CeUnknownParticipant i)) (\<lambda>_.
             and_then (ensure (i \<notin> set (map fst votes)) (CeDuplicateVote i)) (\<lambda>_.
             and_then (ok_or (co_participant_keys C i) (CeUnknownParticipant i)) (\<lambda>pubkey.
               ensure (vote_valid G pid (af_hash f) pubkey v) (CeInvalidVoteSignature i)))) of
             Inl e \<Rightarrow> (Inl e, C)
           | Inr _ \<Rightarrow>
               let C = C\<lparr>co_state := CsProposing f (votes @ [(i, v)]) pid at\<rparr>; d = evaluate_votes P C
               in (Inr (if d = DPending then None else Some d), C))
      | other \<Rightarrow> (Inl (CeInvalidCoordinatorState ''Proposing'' (coord_state_name other)), C))"

definition yes_signatures :: "coord_env \<Rightarrow> (bytes32 \<times> vote) list \<Rightarrow> (bytes32 \<times> signature64) list" where
  "yes_signatures P votes =
     List.map_filter (\<lambda>(i, v). case v of VoteYes sig \<Rightarrow> Some (i, sig) | VoteNo _ _ \<Rightarrow> None) (ce_vote_order P votes)"

definition coord_commit ::
  "('a turn_crypto_scheme) \<Rightarrow> coord_env \<Rightarrow> coordinator \<times> ledger \<Rightarrow> (coord_error + commit_message) \<times> coordinator \<times> ledger" where
  "coord_commit E P CL =
     (let (C, L) = CL in
      case co_state C of
        CsProposing f votes pid _ \<Rightarrow>
          if yes_count votes < co_threshold C
          then (Inl (CeThresholdNotMet (co_threshold C) (yes_count votes)), C, L)
          else (case run_atomic E P (co_costs C) f L of
              (Inl e, L) \<Rightarrow> (Inl e, C, L)
            | (Inr receipt, L) \<Rightarrow>
                (Inr \<lparr>cm_proposal_id = pid, cm_receipt = receipt, cm_signatures = yes_signatures P votes\<rparr>,
                 C\<lparr>co_state := CsCommitted receipt pid\<rparr>, L))
      | other \<Rightarrow> (Inl (CeInvalidCoordinatorState ''Proposing'' (coord_state_name other)), C, L))"

definition abort_bytes :: "bytes32 \<Rightarrow> u8 list" where
  "abort_bytes pid = bytes32_bytes pid @ [ABORT_FLAG]"

definition sign_abort :: "sig_scheme \<Rightarrow> bytes32 \<Rightarrow> bytes32 \<Rightarrow> signature64" where
  "sign_abort G pid key = sg_sign G key (abort_bytes pid)"

definition verify_abort :: "sig_scheme \<Rightarrow> abort_message \<Rightarrow> bytes32 \<Rightarrow> bool" where
  "verify_abort G m pubkey \<longleftrightarrow>
     sg_valid_key G pubkey \<and> sg_verify_strict G pubkey (abort_bytes (am_proposal_id m)) (am_signature m)"

definition abort_with ::
  "sig_scheme \<Rightarrow> coord_env \<Rightarrow> string \<Rightarrow> (bytes32 \<times> vote) list \<Rightarrow> bytes32 \<Rightarrow> coordinator \<Rightarrow> abort_message \<times> coordinator" where
  "abort_with G P reason votes pid C =
     (\<lparr>am_proposal_id = pid, am_reason = reason,
       am_rejectors = map fst (filter (\<lambda>(_, v). is_no v) (ce_vote_order P votes)),
       am_signature = sign_abort G pid (co_signing_key C)\<rparr>,
      C\<lparr>co_state := CsAborted reason pid\<rparr>)"

definition coord_abort ::
  "sig_scheme \<Rightarrow> coord_env \<Rightarrow> string \<Rightarrow> coordinator \<Rightarrow> (coord_error + abort_message) \<times> coordinator" where
  "coord_abort G P reason C =
     (case co_state C of
        CsProposing f votes pid _ \<Rightarrow> (Inr (fst (abort_with G P reason votes pid C)), snd (abort_with G P reason votes pid C))
      | other \<Rightarrow> (Inl (CeInvalidCoordinatorState ''Proposing'' (coord_state_name other)), C))"

definition check_timeout ::
  "sig_scheme \<Rightarrow> coord_env \<Rightarrow> nat \<Rightarrow> coordinator \<Rightarrow> abort_message option \<times> coordinator" where
  "check_timeout G P now C =
     (case co_state C of
        CsProposing f votes pid (Some start) \<Rightarrow>
          if now - start < co_proposal_timeout C then (None, C)
          else (Some (fst (abort_with G P ''proposal timed out'' votes pid C)),
                snd (abort_with G P ''proposal timed out'' votes pid C))
      | _ \<Rightarrow> (None, C))"

definition coord_reset :: "coordinator \<Rightarrow> coordinator" where
  "coord_reset C = C\<lparr>co_state := CsIdle\<rparr>"

section \<open>Participants\<close>

record participant =
  pa_cell_id :: cell_id
  pa_node_id :: bytes32
  pa_signing_key :: bytes32
  pa_ledger :: ledger
  pa_costs :: computron_costs
  pa_vote_timeout :: nat
  pa_voted_yes_at :: "nat option"
  pa_active_proposal :: "bytes32 option"

definition participant_with_costs ::
  "cell_id \<Rightarrow> bytes32 \<Rightarrow> bytes32 \<Rightarrow> ledger \<Rightarrow> computron_costs \<Rightarrow> participant" where
  "participant_with_costs cell node key L costs =
     \<lparr>pa_cell_id = cell, pa_node_id = node, pa_signing_key = key, pa_ledger = L, pa_costs = costs,
      pa_vote_timeout = 60, pa_voted_yes_at = None, pa_active_proposal = None\<rparr>"

definition participant_new :: "cell_id \<Rightarrow> bytes32 \<Rightarrow> bytes32 \<Rightarrow> ledger \<Rightarrow> participant" where
  "participant_new cell node key L = participant_with_costs cell node key L default_costs"

definition with_vote_timeout :: "nat \<Rightarrow> participant \<Rightarrow> participant" where
  "with_vote_timeout timeout X = X\<lparr>pa_vote_timeout := timeout\<rparr>"

definition has_vote_timed_out :: "nat \<Rightarrow> participant \<Rightarrow> bool" where
  "has_vote_timed_out now X =
     (case pa_voted_yes_at X of Some voted_at \<Rightarrow> pa_vote_timeout X \<le> now - voted_at | None \<Rightarrow> False)"

definition timeout_abort :: "participant \<Rightarrow> participant" where
  "timeout_abort X = X\<lparr>pa_voted_yes_at := None, pa_active_proposal := None\<rparr>"

text \<open>Only the cell-state clauses of the preconditions for the participant's own cell are looked at.\<close>

definition check_own_precondition :: "participant \<Rightarrow> cell_id \<times> preconditions \<Rightarrow> string + unit" where
  "check_own_precondition X e =
     (if fst e = pa_cell_id X
      then case pc_cell_state (snd e) of
          None \<Rightarrow> Inr ()
        | Some pre \<Rightarrow>
            (case l_cells (pa_ledger X) (pa_cell_id X) of
               None \<Rightarrow> Inl ''our cell not found in local ledger''
             | Some c \<Rightarrow>
                 (case cell_state_evaluate pre (c_state c) of
                    Inl _ \<Rightarrow> Inl ''precondition failed''
                  | Inr _ \<Rightarrow> Inr ()))
      else Inr ())"

definition evaluate_proposal :: "sig_scheme \<Rightarrow> nat \<Rightarrow> bytes32 \<Rightarrow> atomic_forest \<Rightarrow> participant \<Rightarrow> vote \<times> participant" where
  "evaluate_proposal G now pid f X =
     (case and_then (ensure (is_participant f (pa_node_id X)) ''not listed as participant'') (\<lambda>_.
        and_then (map_sum (\<lambda>_. ''invalid forest'') id (forest_validate f)) (\<lambda>_.
          check_all (check_own_precondition X) (af_preconditions f))) of
        Inl reason \<Rightarrow> (VoteNo reason (sign_no G pid (af_hash f) (pa_signing_key X)), X)
      | Inr _ \<Rightarrow>
          (VoteYes (sign_yes G pid (af_hash f) (pa_signing_key X)),
           X\<lparr>pa_voted_yes_at := Some now, pa_active_proposal := Some pid\<rparr>))"

definition check_commit_signature ::
  "sig_scheme \<Rightarrow> (bytes32 \<rightharpoonup> bytes32) \<Rightarrow> bytes32 \<Rightarrow> bytes32 \<Rightarrow> bytes32 \<times> signature64 \<Rightarrow> coord_error + unit" where
  "check_commit_signature G keys pid forest_hash e =
     and_then (ok_or (keys (fst e)) (CeUnknownParticipant (fst e))) (\<lambda>pubkey.
       ensure (verify_yes G (snd e) pid forest_hash pubkey) (CeInvalidVoteSignature (fst e)))"

definition check_commit_quorum ::
  "sig_scheme \<Rightarrow> (bytes32 \<rightharpoonup> bytes32) \<Rightarrow> nat \<Rightarrow> commit_message \<Rightarrow> atomic_forest \<Rightarrow> coord_error + unit" where
  "check_commit_quorum G keys threshold m f =
     and_then (ensure (threshold \<le> length (cm_signatures m)) (CeThresholdNotMet threshold (length (cm_signatures m)))) (\<lambda>_.
       check_all (check_commit_signature G keys (cm_proposal_id m) (af_hash f)) (cm_signatures m))"

definition apply_commit ::
  "('a turn_crypto_scheme) \<Rightarrow> sig_scheme \<Rightarrow> coord_env \<Rightarrow> commit_message \<Rightarrow> atomic_forest \<Rightarrow> (bytes32 \<rightharpoonup> bytes32) \<Rightarrow> nat \<Rightarrow>
     participant \<Rightarrow> (coord_error + turn_receipt) \<times> participant" where
  "apply_commit E G P m f keys threshold X =
     (case check_commit_quorum G keys threshold m f of
        Inl e \<Rightarrow> (Inl e, X)
      | Inr _ \<Rightarrow>
          if l_cells (pa_ledger X) (af_initiator f) = None
          then (Inl (CeTurnExecution (pe_turn (TCellNotFound (af_initiator f)))), X)
          else let (r, L) = run_atomic E P (pa_costs X) f (pa_ledger X)
            in (r, X\<lparr>pa_ledger := L, pa_voted_yes_at := None, pa_active_proposal := None\<rparr>))"

definition verify_commit :: "sig_scheme \<Rightarrow> commit_message \<Rightarrow> atomic_forest \<Rightarrow> (bytes32 \<rightharpoonup> bytes32) \<Rightarrow> bool" where
  "verify_commit G m f keys \<longleftrightarrow>
     list_all (\<lambda>(i, sig). case keys i of
        None \<Rightarrow> False | Some pubkey \<Rightarrow> verify_yes G sig (cm_proposal_id m) (af_hash f) pubkey) (cm_signatures m)"

section \<open>Only a quorum commits, and decisions are final\<close>

inductive coord_step :: "('a turn_crypto_scheme) \<Rightarrow> sig_scheme \<Rightarrow> coord_env \<Rightarrow> coordinator \<Rightarrow> coordinator \<Rightarrow> bool" for E G P where
  "coord_step E G P C (snd (propose E now f C))"
| "coord_step E G P C (snd (receive_vote G P i v C))"
| "coord_step E G P C (fst (snd (coord_commit E P (C, L))))"
| "coord_step E G P C (snd (coord_abort G P reason C))"
| "coord_step E G P C (snd (check_timeout G P now C))"
| "coord_step E G P C (coord_reset C)"

abbreviation coord_run :: "('a turn_crypto_scheme) \<Rightarrow> sig_scheme \<Rightarrow> coord_env \<Rightarrow> coordinator \<Rightarrow> coordinator \<Rightarrow> bool" where
  "coord_run E G P \<equiv> (coord_step E G P)\<^sup>*\<^sup>*"

definition votes_ok :: "sig_scheme \<Rightarrow> coordinator \<Rightarrow> atomic_forest \<Rightarrow> bytes32 \<Rightarrow> (bytes32 \<times> vote) list \<Rightarrow> bool" where
  "votes_ok G C f pid votes \<longleftrightarrow> distinct (map fst votes) \<and>
     (\<forall>(i, v) \<in> set votes. i \<in> set (af_participants f) \<and>
        (\<exists>pubkey. co_participant_keys C i = Some pubkey \<and> vote_valid G pid (af_hash f) pubkey v))"

definition coordinator_ok :: "('a crypto_scheme) \<Rightarrow> sig_scheme \<Rightarrow> coordinator \<Rightarrow> bool" where
  "coordinator_ok E G C =
     (case co_state C of
        CsProposing f votes pid at \<Rightarrow>
          0 < co_threshold C \<and> co_threshold C \<le> length (af_participants f) \<and> af_forest f \<noteq> [] \<and>
          pid = proposal_id_for E (af_hash f) (co_node_id C) \<and> votes_ok G C f pid votes
      | _ \<Rightarrow> True)"

definition same_setup :: "coordinator \<Rightarrow> coordinator \<Rightarrow> bool" where
  "same_setup C C' \<longleftrightarrow> co_threshold C' = co_threshold C \<and> co_node_id C' = co_node_id C \<and>
     co_participant_keys C' = co_participant_keys C"

lemma propose_cases:
  "snd (propose E now f C) = C \<or>
   (snd (propose E now f C) = C\<lparr>co_state := CsProposing f [] (proposal_id_for E (af_hash f) (co_node_id C)) (Some now)\<rparr> \<and>
    0 < co_threshold C \<and> co_threshold C \<le> length (af_participants f) \<and> af_forest f \<noteq> [])"
  by (auto simp: propose_def forest_validate_def and_then_ok Let_def split: sum.split)

lemma propose_ok:
  "coordinator_ok E G C \<Longrightarrow> coordinator_ok E G (snd (propose E now f C)) \<and> same_setup C (snd (propose E now f C))"
  using propose_cases [of E now f C]
  by (elim disjE conjE) (simp_all add: coordinator_ok_def same_setup_def votes_ok_def)

lemma receive_vote_cases:
  obtains "snd (receive_vote G P i v C) = C"
  | f votes pid at pubkey where "co_state C = CsProposing f votes pid at" "i \<in> set (af_participants f)"
      "i \<notin> set (map fst votes)" "co_participant_keys C i = Some pubkey" "vote_valid G pid (af_hash f) pubkey v"
      "snd (receive_vote G P i v C) = C\<lparr>co_state := CsProposing f (votes @ [(i, v)]) pid at\<rparr>"
      "fst (receive_vote G P i v C) = Inr (let d = evaluate_votes P (C\<lparr>co_state := CsProposing f (votes @ [(i, v)]) pid at\<rparr>)
         in if d = DPending then None else Some d)"
proof (cases "co_state C")
  case (CsProposing f votes pid at)
  let ?checks = "and_then (ensure (is_participant f i) (CeUnknownParticipant i)) (\<lambda>_.
      and_then (ensure (i \<notin> set (map fst votes)) (CeDuplicateVote i)) (\<lambda>_.
      and_then (ok_or (co_participant_keys C i) (CeUnknownParticipant i)) (\<lambda>pubkey.
        ensure (vote_valid G pid (af_hash f) pubkey v) (CeInvalidVoteSignature i))))"
  show ?thesis
  proof (cases ?checks)
    case (Inl e)
    then have "snd (receive_vote G P i v C) = C" by (simp add: receive_vote_def CsProposing)
    then show ?thesis using that(1) by blast
  next
    case (Inr u)
    then obtain pubkey where "i \<in> set (af_participants f)" "i \<notin> set (map fst votes)" "co_participant_keys C i = Some pubkey"
      "vote_valid G pid (af_hash f) pubkey v"
      by (auto simp: and_then_ok is_participant_def)
    moreover have "receive_vote G P i v C =
        (Inr (let d = evaluate_votes P (C\<lparr>co_state := CsProposing f (votes @ [(i, v)]) pid at\<rparr>)
           in if d = DPending then None else Some d), C\<lparr>co_state := CsProposing f (votes @ [(i, v)]) pid at\<rparr>)"
      using Inr by (simp add: receive_vote_def CsProposing Let_def)
    ultimately show ?thesis using that(2) CsProposing by simp
  qed
qed (use that(1) in \<open>simp_all add: receive_vote_def\<close>)

lemma receive_vote_ok:
  assumes "coordinator_ok E G C"
  shows "coordinator_ok E G (snd (receive_vote G P i v C)) \<and> same_setup C (snd (receive_vote G P i v C))"
proof (rule receive_vote_cases [of G P i v C])
  fix f votes pid at pubkey
  assume *: "co_state C = CsProposing f votes pid at" "i \<in> set (af_participants f)"
      "i \<notin> set (map fst votes)" "co_participant_keys C i = Some pubkey" "vote_valid G pid (af_hash f) pubkey v"
      "snd (receive_vote G P i v C) = C\<lparr>co_state := CsProposing f (votes @ [(i, v)]) pid at\<rparr>"
  show ?thesis using assms *(1-5) unfolding *(6)
    by (auto simp: coordinator_ok_def votes_ok_def same_setup_def)
qed (use assms in \<open>simp_all add: same_setup_def\<close>)

lemma commit_cases:
  "fst (snd (coord_commit E P (C, L))) = C \<or> (\<exists>receipt pid. fst (snd (coord_commit E P (C, L))) = C\<lparr>co_state := CsCommitted receipt pid\<rparr>)"
  by (auto simp: coord_commit_def split: coordinator_state.split prod.split sum.split)

lemma coord_step_ok: "coord_step E G P C C' \<Longrightarrow> coordinator_ok E G C \<Longrightarrow> coordinator_ok E G C' \<and> same_setup C C'"
proof (induction rule: coord_step.induct)
  case (1 C now f)
  then show ?case by (rule propose_ok)
next
  case (2 C i v)
  then show ?case by (rule receive_vote_ok)
next
  case (3 C L)
  from commit_cases [of E P C L] show ?case
  proof (elim disjE exE)
    assume "fst (snd (coord_commit E P (C, L))) = C"
    then show ?thesis using 3 by (simp add: same_setup_def)
  qed (simp add: coordinator_ok_def same_setup_def)
qed (auto simp: coordinator_ok_def same_setup_def coord_abort_def check_timeout_def abort_with_def coord_reset_def
    split: coordinator_state.split option.split)

lemma coord_run_ok:
  "coord_run E G P C C' \<Longrightarrow> coordinator_ok E G C \<Longrightarrow> coordinator_ok E G C' \<and> same_setup C C'"
  by (induction rule: rtranclp_induct) (auto dest: coord_step_ok simp: same_setup_def)

lemma coordinator_new_ok: "coordinator_ok E G (coordinator_new node key threshold costs budget keys)"
  by (simp add: coordinator_ok_def coordinator_new_def)

lemma yes_signatures_facts:
  assumes "mset (ce_vote_order P votes) = mset votes"
  shows "length (yes_signatures P votes) = yes_count votes"
    and "distinct (map fst votes) \<Longrightarrow> distinct (map fst (yes_signatures P votes))"
    and "set (yes_signatures P votes) = {(i, sig). (i, VoteYes sig) \<in> set votes}"
proof -
  let ?g = "\<lambda>(i, v). case v of VoteYes sig \<Rightarrow> Some (i, sig) | VoteNo _ _ \<Rightarrow> None"
  have len: "length (List.map_filter ?g vs) = length (filter (\<lambda>(_, v). is_yes v) vs)" for vs :: "(bytes32 \<times> vote) list"
    by (induction vs) (auto simp: List.map_filter_simps split: vote.split)
  have members: "set (List.map_filter ?g vs) = {(i, sig). (i, VoteYes sig) \<in> set vs}" for vs :: "(bytes32 \<times> vote) list"
    by (induction vs) (auto simp: List.map_filter_simps split: vote.splits)
  have "length (filter Q (ce_vote_order P votes)) = length (filter Q votes)" for Q
    using assms by (metis mset_filter size_mset)
  then show "length (yes_signatures P votes) = yes_count votes" by (simp add: yes_signatures_def yes_count_def len)
  have keys: "map fst (List.map_filter ?g vs) = map fst (filter (\<lambda>(_, v). is_yes v) vs)" for vs :: "(bytes32 \<times> vote) list"
    by (induction vs) (auto simp: List.map_filter_simps split: vote.split)
  have "distinct (map fst (ce_vote_order P votes))" if "distinct (map fst votes)"
    using that assms by (metis mset_map mset_eq_imp_distinct_iff)
  then show "distinct (map fst (yes_signatures P votes))" if "distinct (map fst votes)"
    using that by (simp add: yes_signatures_def keys distinct_map_filter)
  have "set (ce_vote_order P votes) = set votes" using assms by (rule mset_eq_setD)
  then show "set (yes_signatures P votes) = {(i, sig). (i, VoteYes sig) \<in> set votes}"
    by (simp add: yes_signatures_def members)
qed

text \<open>C4. Only a quorum commits. Run a new coordinator through any sequence of proposals, votes, commits, aborts,
  timeouts and resets, and let it then commit. The commit message names the proposal under way; the
  signatures in it come from different participants of the forest, at least as many as the threshold,
  which is positive; each verifies, under the key registered for its participant, as a Yes to exactly this
  proposal and this forest; the receipt and the ledger are those of the execution of the forest. The
  coordinator is then in the committed state, where it refuses a second commit, an abort, a vote and a new
  proposal, and no timeout fires.\<close>

theorem commit_needs_quorum:
  assumes "coord_run E G P (coordinator_new node key threshold costs budget keys) C"
    and "\<forall>votes. mset (ce_vote_order P votes) = mset votes"
    and "coord_commit E P (C, L) = (Inr m, C', L')"
  shows "\<exists>f votes at. co_state C = CsProposing f votes (cm_proposal_id m) at \<and> 0 < threshold \<and>
    threshold \<le> length (cm_signatures m) \<and> distinct (map fst (cm_signatures m)) \<and>
    (\<forall>(i, sig) \<in> set (cm_signatures m). i \<in> set (af_participants f) \<and>
       (\<exists>pubkey. keys i = Some pubkey \<and> verify_yes G sig (cm_proposal_id m) (af_hash f) pubkey)) \<and>
    run_atomic E P (co_costs C) f L = (Inr (cm_receipt m), L') \<and>
    isl (fst (coord_commit E P (C', L'))) \<and> isl (fst (coord_abort G P reason C')) \<and> isl (fst (receive_vote G P i v C')) \<and>
    isl (fst (propose E now g C')) \<and> fst (check_timeout G P now C') = None"
proof -
  have ok: "coordinator_ok E G C" and conf: "co_threshold C = threshold" "co_participant_keys C = keys"
    using coord_run_ok [OF assms(1) coordinator_new_ok] by (auto simp: same_setup_def coordinator_new_def)
  obtain f votes pid at where state: "co_state C = CsProposing f votes pid at"
    using assms(3) by (auto simp: coord_commit_def split: coordinator_state.splits)
  have enough: "threshold \<le> yes_count votes" and run: "run_atomic E P (co_costs C) f L = (Inr (cm_receipt m), L')"
    and m: "cm_proposal_id m = pid" "cm_signatures m = yes_signatures P votes"
    and C': "C' = C\<lparr>co_state := CsCommitted (cm_receipt m) pid\<rparr>"
    using assms(3) by (auto simp: coord_commit_def state conf split: if_splits prod.splits sum.splits)
  note sigs = yes_signatures_facts [OF assms(2) [rule_format], of votes]
  have votes: "0 < threshold" "votes_ok G C f pid votes" using ok by (auto simp: coordinator_ok_def state conf)
  then have "distinct (map fst (cm_signatures m))" using sigs(2) by (simp add: m votes_ok_def)
  moreover have "i \<in> set (af_participants f) \<and> (\<exists>pubkey. keys i = Some pubkey \<and> verify_yes G sig pid (af_hash f) pubkey)"
    if "(i, sig) \<in> set (cm_signatures m)" for i sig
  proof -
    have "(i, VoteYes sig) \<in> set votes" using that by (simp add: m sigs(3))
    then show ?thesis using votes(2) by (force simp: votes_ok_def conf vote_valid_def)
  qed
  moreover have "isl (fst (coord_commit E P (C', L'))) \<and> isl (fst (coord_abort G P reason C')) \<and> isl (fst (receive_vote G P i v C')) \<and>
      isl (fst (propose E now g C')) \<and> fst (check_timeout G P now C') = None"
    by (simp add: C' coord_commit_def coord_abort_def receive_vote_def propose_def check_timeout_def)
  ultimately show ?thesis using state votes(1) enough run sigs(1) m by auto
qed

text \<open>The votes that arrive after a decision.\<close>

inductive more_votes :: "sig_scheme \<Rightarrow> coord_env \<Rightarrow> coordinator \<Rightarrow> coordinator \<Rightarrow> bool" for G P C where
  "more_votes G P C C"
| "more_votes G P C C' \<Longrightarrow> more_votes G P C (snd (receive_vote G P i v C'))"

definition gate_agrees :: "coord_env \<Rightarrow> bool" where
  "gate_agrees P \<longleftrightarrow> (\<forall>yes no n t d. ce_gate P yes no n t = Some d \<longrightarrow> d = decide_native yes no n t)"

lemma evaluate_votes_eq: "gate_agrees P \<Longrightarrow> evaluate_votes P C = evaluate_votes_native C"
  by (auto simp: evaluate_votes_def evaluate_votes_native_def gate_agrees_def split: option.split prod.split)

lemma is_no_iff: "is_no v \<longleftrightarrow> \<not> is_yes v"
  by (cases v) simp_all

lemma vote_counts:
  assumes "votes_ok G C f pid votes"
  shows "yes_count votes + no_count votes \<le> length (af_participants f)"
proof -
  have "yes_count votes + no_count votes = length votes"
    using sum_length_filter_compl [of "\<lambda>e. is_yes (snd e)" votes]
    by (simp add: yes_count_def no_count_def is_no_iff case_prod_unfold)
  also have "\<dots> = card (set (map fst votes))" using assms by (metis votes_ok_def distinct_card length_map)
  also have "\<dots> \<le> card (set (af_participants f))"
    using assms by (intro card_mono) (auto simp: votes_ok_def)
  also have "\<dots> \<le> length (af_participants f)" by (rule card_length)
  finally show ?thesis .
qed

lemma more_votes_grow:
  assumes "more_votes G P C C'" "co_state C = CsProposing f votes pid at"
  shows "\<exists>late. co_state C' = CsProposing f (votes @ late) pid at \<and> co_threshold C' = co_threshold C"
  using assms
proof (induction rule: more_votes.induct)
  case (2 C' i v)
  then obtain late where late: "co_state C' = CsProposing f (votes @ late) pid at" "co_threshold C' = co_threshold C" by blast
  show ?case by (rule receive_vote_cases [of G P i v C']) (use late in auto)
qed simp

text \<open>C5. Decisions never conflict. Once the votes of a proposal decide for a commit, every decision after further
  votes is a commit; once they decide for an abort, it is an abort, and the threshold of Yes votes can no
  longer be reached, so \<open>commit\<close> refuses. This holds with the registered gate, as long as the gate
  computes the function it is specified to compute.\<close>

theorem decisions_never_conflict:
  assumes "coord_run E G P (coordinator_new node key threshold costs budget keys) C" "gate_agrees P"
    and "co_state C = CsProposing f votes pid at" "more_votes G P C C'"
  shows "(evaluate_votes P C = DCommit \<longrightarrow> evaluate_votes P C' = DCommit) \<and>
    (evaluate_votes P C = DAbort \<longrightarrow> evaluate_votes P C' = DAbort \<and>
       (\<exists>n k. fst (coord_commit E P (C', L)) = Inl (CeThresholdNotMet n k)))"
proof -
  obtain late where late: "co_state C' = CsProposing f (votes @ late) pid at" "co_threshold C' = co_threshold C"
    using more_votes_grow [OF assms(4,3)] by blast
  have "coordinator_ok E G C' \<and> same_setup C C'"
    using assms(4,1)
  proof (induction rule: more_votes.induct)
    case 1
    then show ?case using coord_run_ok [OF 1 coordinator_new_ok] by (simp add: same_setup_def)
  next
    case (2 C' i v)
    then show ?case using receive_vote_ok [of E G C' P i v] by (auto simp: same_setup_def)
  qed
  then have ok: "co_threshold C \<le> length (af_participants f)" "votes_ok G C' f pid (votes @ late)"
    by (auto simp: coordinator_ok_def late)
  have sum: "yes_count (votes @ late) + no_count (votes @ late) \<le> length (af_participants f)" using vote_counts [OF ok(2)] .
  have grow: "yes_count votes \<le> yes_count (votes @ late)" "no_count votes \<le> no_count (votes @ late)"
    by (simp_all add: yes_count_def no_count_def)
  have C: "evaluate_votes P C = decide_native (yes_count votes) (no_count votes) (length (af_participants f)) (co_threshold C)"
    using assms(2,3) by (simp add: evaluate_votes_eq evaluate_votes_native_def current_tally_def)
  have C': "evaluate_votes P C' =
      decide_native (yes_count (votes @ late)) (no_count (votes @ late)) (length (af_participants f)) (co_threshold C)"
    using assms(2) late by (simp add: evaluate_votes_eq evaluate_votes_native_def current_tally_def)
  have "evaluate_votes P C = DAbort \<Longrightarrow> yes_count (votes @ late) < co_threshold C \<and>
      length (af_participants f) - co_threshold C < no_count (votes @ late)"
    using sum grow ok(1) unfolding C decide_native_def by (auto split: if_splits)
  then show ?thesis using grow unfolding C' unfolding C
    by (auto simp: decide_native_def coord_commit_def late split: if_splits)
qed

section \<open>What participants check\<close>

text \<open>An honest commit is accepted everywhere: the quorum check of a participant that knows the same keys and
  asks for the same threshold passes, and a participant with the ledger and the costs of the coordinator
  ends with the coordinator's receipt and ledger.\<close>

lemma commit_replays:
  assumes "coord_run E G P (coordinator_new node key threshold costs budget keys) C"
    and "\<forall>votes. mset (ce_vote_order P votes) = mset votes"
    and "coord_commit E P (C, L) = (Inr m, C', L')" "co_state C = CsProposing f votes pid at"
    and "pa_ledger X = L" "pa_costs X = co_costs C"
  shows "fst (apply_commit E G P m f keys threshold X) = Inr (cm_receipt m) \<and>
    pa_ledger (snd (apply_commit E G P m f keys threshold X)) = L'"
proof -
  have ok: "coordinator_ok E G C" and conf: "co_threshold C = threshold" "co_participant_keys C = keys"
    using coord_run_ok [OF assms(1) coordinator_new_ok] by (auto simp: same_setup_def coordinator_new_def)
  have enough: "threshold \<le> yes_count votes" and run: "run_atomic E P (co_costs C) f L = (Inr (cm_receipt m), L')"
    and m: "cm_proposal_id m = pid" "cm_signatures m = yes_signatures P votes"
    using assms(3) by (auto simp: coord_commit_def assms(4) conf split: if_splits prod.splits sum.splits)
  note sigs = yes_signatures_facts [OF assms(2) [rule_format], of votes]
  have "votes_ok G C f pid votes" using ok by (auto simp: coordinator_ok_def assms(4))
  then have "check_commit_signature G keys pid (af_hash f) e = Inr ()" if "e \<in> set (yes_signatures P votes)" for e
    using that unfolding sigs(3) by (force simp: check_commit_signature_def and_then_ok votes_ok_def conf vote_valid_def)
  then have "check_commit_quorum G keys threshold m f = Inr ()"
    using enough by (simp add: check_commit_quorum_def m sigs(1) and_then_ok check_all_iff)
  moreover have "l_cells L (af_initiator f) \<noteq> None" using run by (auto simp: run_atomic_def split: option.splits)
  ultimately show ?thesis by (simp add: apply_commit_def assms(5,6) run)
qed

text \<open>C39. One Yes vote makes a quorum. A participant that receives a commit counts the signatures and verifies each,
  but does not ask that they come from different nodes, nor that the nodes are participants of the
  forest. So a commit message that repeats one valid Yes signature as often as the threshold asks is
  applied: the participant executes the forest on its ledger, whatever it voted itself.\<close>

theorem repeated_signature_is_quorum:
  assumes "keys i = Some pubkey" "verify_yes G sig (cm_proposal_id m) (af_hash f) pubkey"
    and "l_cells (pa_ledger X) (af_initiator f) \<noteq> None"
  shows "apply_commit E G P (m\<lparr>cm_signatures := replicate threshold (i, sig)\<rparr>) f keys threshold X =
    (fst (run_atomic E P (pa_costs X) f (pa_ledger X)),
     X\<lparr>pa_ledger := snd (run_atomic E P (pa_costs X) f (pa_ledger X)), pa_voted_yes_at := None, pa_active_proposal := None\<rparr>)"
proof -
  have "check_commit_signature G keys (cm_proposal_id m) (af_hash f) (i, sig) = Inr ()"
    using assms(1,2) by (simp add: check_commit_signature_def)
  then have "check_commit_quorum G keys threshold (m\<lparr>cm_signatures := replicate threshold (i, sig)\<rparr>) f = Inr ()"
    by (simp add: check_commit_quorum_def check_all_iff)
  then show ?thesis using assms(3) by (auto simp: apply_commit_def case_prod_beta)
qed

text \<open>The hash that a forest carries is taken on trust: votes and quorum depend on the content of the forest only
  through that field, so a quorum on one forest is a quorum on every forest that claims its hash.\<close>

lemma forest_hash_unchecked:
  "check_commit_quorum G keys threshold m (f\<lparr>af_forest := other, af_fee := fee, af_initiator := thief\<rparr>) =
   check_commit_quorum G keys threshold m f"
  by (simp add: check_commit_quorum_def)

text \<open>The identifier of a proposal has no clock in it: a vote for a forest is accepted again when the coordinator
  is reset and proposes the same forest a second time.\<close>

lemma votes_replay_after_reset:
  assumes "coordinator_ok E G C" "co_state C = CsProposing f votes pid at" "(i, v) \<in> set votes"
    and "propose E now f (coord_reset C) = (Inr m, C1)"
  shows "\<exists>d. fst (receive_vote G P i v C1) = Inr d"
proof -
  have v: "i \<in> set (af_participants f)" "\<exists>pubkey. co_participant_keys C i = Some pubkey \<and> vote_valid G pid (af_hash f) pubkey v"
    and pid: "pid = proposal_id_for E (af_hash f) (co_node_id C)"
    using assms(1-3) by (auto simp: coordinator_ok_def votes_ok_def)
  have "C1 = C\<lparr>co_state := CsProposing f [] pid (Some now)\<rparr>"
    using assms(4) pid by (auto simp: propose_def coord_reset_def Let_def split: sum.splits)
  then show ?thesis using v by (auto simp: receive_vote_def is_participant_def Let_def)
qed

text \<open>Participants and preconditions are hashed without counts: two forests that cut the same words differently have
  the same hash.\<close>

lemma atomic_forest_bytes_ambiguous:
  "atomic_forest_bytes E [p, q, r] h [] initiator fee =
   atomic_forest_bytes E [p] q [(r, pre)] initiator fee" if "h = preconditions_hash E (predicate_postcard E) pre"
  by (simp add: atomic_forest_bytes_def that)

lemma empty_commit_verifies: "verify_commit G (m\<lparr>cm_signatures := []\<rparr>) f keys"
  by (simp add: verify_commit_def)

section \<open>Examples\<close>

definition demo_coord_env :: "pred_codec \<Rightarrow> turn_externals \<Rightarrow> coord_env" where
  "demo_coord_env codec Y = \<lparr>ce_codec = codec, ce_registry = None, ce_key_order = id, ce_externals = Y, ce_vote_order = id,
     ce_gate = (\<lambda>_ _ _ _. None)\<rparr>"

definition demo_atomic :: atomic_forest where
  "demo_atomic = \<lparr>af_participants = [1, 2, 3], af_forest = [demo_idle], af_preconditions = [], af_initiator = 1, af_fee = 10,
     af_hash = 0\<rparr>"

abbreviation demo_P :: coord_env where
  "demo_P \<equiv> demo_coord_env demo_codec demo_externals"

definition demo_shared_ledger :: ledger where
  "demo_shared_ledger = (xs_ledger demo_world)\<lparr>l_pending := Clean\<rparr>"

abbreviation demo_fresh :: turn_executor where
  "demo_fresh \<equiv> turn_executor_new demo_P zero_costs demo_shared_ledger"

lemma demo_fresh_fields [simp]:
  "xs_ledger (tx_stores demo_fresh) = demo_shared_ledger" "tx_budget_gate demo_fresh = None" "\<not> tx_symbolic demo_fresh"
  "tx_migrations demo_fresh = []" "tv_costs (tx_env demo_fresh) = zero_costs" "tv_require_pq (tx_env demo_fresh) = False"
  "te_key_order (tx_env demo_fresh) = id" "x_last_receipt_hash (tx_exec demo_fresh) = Map.empty" "x_current_timestamp (tx_exec demo_fresh) = 0"
  by (simp_all add: turn_executor_new_def demo_coord_env_def manager_new_def)

lemma demo_shared_ledger_cells [simp]: "l_cells demo_shared_ledger = [1 \<mapsto> demo_hosted 1 7 100, 2 \<mapsto> demo_hosted 2 7 5]"
  by (simp add: demo_shared_ledger_def)

lemma demo_fresh_tree:
  assumes "cell_at S 1 = Some c" "c_public_key c = 1" "c_permissions c = default_user"
    and "\<And>i d. cell_at S i = Some d \<Longrightarrow> c_program d = ProgNone" "ts_exec s = S" "ts_computrons_used s \<le> budget"
  shows "execute_tree demo_turn_crypto (tx_env demo_fresh) 0 1 th budget demo_idle 1 DmParentsOwn [0] s = (Inr (), s)"
proof -
  let ?V = "tx_env demo_fresh"
  have "verify_authorization demo_turn_crypto ?V R (demo_action 1 (AuSignature 1 0) []) c L 1 [0] 0 = Inr ()" for R L
    using assms(2,3) by (simp add: authorize_simps)
  moreover have "program_gate demo_turn_crypto ?V (demo_action 1 (AuSignature 1 0) []) 1 L (xs_ledger S) = Inr ()" for L
    using assms(4) by (rule gate_without_programs)
  moreover have "capability_gate demo_turn_crypto ?V (demo_action 1 (AuSignature 1 0) []) 1 DmParentsOwn S = (Inr (), S)"
    by (simp add: capability_gate_def)
  moreover have "check_refusals [] = Inr ()" "check_witness_indices (demo_action 1 (AuSignature 1 0) []) = Inr ()"
    "estimate_authorization_cost zero_costs (AuSignature 1 0) = 0"
    "bump_target_nonce (demo_action 1 (AuSignature 1 0) []) 1 L S = S" for L
    by (simp_all add: check_refusals_def check_witness_indices_def zero_costs_def bump_target_nonce_def Let_def)
  moreover have "update_proved ?V False (field_writes []) S = S"
    by (simp add: update_proved_def field_writes_def map_filter_simps)
  moreover have "check_preconditions ?V (demo_action 1 (AuSignature 1 0) []) c = Inr ()"
    by (simp add: check_preconditions_def preconditions_default_def Let_def preconditions_evaluate_def all_ok_iff map_err_def)
  ultimately show ?thesis
    using assms(1,5,6) by (simp add: demo_idle_def execute_action_def Let_def)
qed

lemma demo_fresh_commits:
  "\<exists>delta r X'. execute_without_shadow demo_turn_crypto Y (atomic_turn demo_atomic 0) demo_fresh = (TrCommitted delta r 0, X')"
proof -
  define t where "t = atomic_turn demo_atomic 0"
  have tf [simp]: "tn_agent t = 1" "tn_nonce t = 0" "tn_call_forest t = [demo_idle]" "tn_fee t = 10"
    "tn_sovereign_witnesses t = []" "tn_execution_proof t = None" "tn_effect_binding_proofs t = []"
    "tn_cross_effect_dependencies t = []" "tn_effect_witness_index_map t = []" "tn_previous_receipt_hash t = None"
    "tn_valid_until t = None"
    by (simp_all add: t_def atomic_turn_def demo_atomic_def)
  have admitted: "admit_turn demo_turn_crypto demo_fresh t = Inr ()"
    by (simp add: admit_turn_def admit_agent_def check_not_frozen_def is_frozen_def any_frozen_def
        check_previous_receipt_hash_def get_last_receipt_hash_def)
  have hash: "state_hash demo_turn_crypto False demo_fresh = (l_root demo_shared_ledger, demo_fresh)"
    by (simp add: state_hash_def ledger_root_def materialize_def demo_shared_ledger_def on_ledger_def turn_executor_new_def Let_def)
  have paid: "commit_fee_nonce t demo_shared_ledger = (Inr (), xs_ledger (pay_fee t (tx_stores demo_fresh)))"
    using commit_fee_pays [of "tx_stores demo_fresh" t "demo_hosted 1 7 100"] by (simp add: in_i64_def)
  let ?X = "on_ledger (\<lambda>_. xs_ledger (pay_fee t (tx_stores demo_fresh))) demo_fresh"
  have stores: "tx_stores ?X = pay_fee t (tx_stores demo_fresh)" by (simp add: on_ledger_def pay_fee_def with_cell_def)
  define s0 where "s0 = \<lparr>ts_exec = (tx_stores ?X)\<lparr>xs_journal := []\<rparr>, ts_computrons_used = 0,
    ts_effects_hashes = [], ts_excess = 0\<rparr>"
  have cells: "\<exists>c. cell_at (ts_exec s0) 1 = Some c \<and> c_public_key c = 1 \<and> c_permissions c = default_user"
    "\<And>i d. cell_at (ts_exec s0) i = Some d \<Longrightarrow> c_program d = ProgNone"
    by (auto simp: s0_def stores pay_fee_def with_cell_def map_state_def invalidate_leaf_cache_def split: if_splits)
  have run: "execute_tree demo_turn_crypto (tx_env demo_fresh) 0 1 th 10 demo_idle 1 DmParentsOwn [0] s0 = (Inr (), s0)" for th
    using cells(1) by (elim exE) (rule demo_fresh_tree [of "ts_exec s0"], use cells(2) in \<open>auto simp: s0_def\<close>)
  have "check_forest_end demo_turn_crypto Y t s0 = Inr ()"
    by (simp add: check_forest_end_def s0_def check_note_conservation_def demo_idle_empty)
  then have "\<exists>delta r X'. execute_forest demo_turn_crypto Y t None False (l_root demo_shared_ledger) ?X = (TrCommitted delta r 0, X')"
    using run finish_commits [of demo_turn_crypto Y t None False "l_root demo_shared_ledger" s0 ?X]
    by (simp add: execute_forest_def Let_def s0_def [symmetric]) (simp add: s0_def)
  then show ?thesis
    using admitted paid hash unfolding t_def [symmetric]
    by (simp add: execute_without_shadow_def debit_budget_def execute_hosted_def Let_def on_ledger_def)
qed

lemma demo_atomic_runs: "\<exists>receipt L'. run_atomic demo_turn_crypto demo_P zero_costs demo_atomic demo_shared_ledger = (Inr receipt, L')"
proof -
  let ?Y = "(ce_externals demo_P)\<lparr>ext_sign := None, ext_veto := (\<lambda>_ _ _. None)\<rparr>"
  obtain delta r X' where "execute_without_shadow demo_turn_crypto ?Y (atomic_turn demo_atomic 0) demo_fresh = (TrCommitted delta r 0, X')"
    using demo_fresh_commits by blast
  then have "execute demo_turn_crypto ?Y (atomic_turn demo_atomic 0) demo_fresh = (TrCommitted delta r 0, X')"
    by (simp add: execute_def)
  moreover have "l_cells demo_shared_ledger (af_initiator demo_atomic) = Some (demo_hosted 1 7 100)" by (simp add: demo_atomic_def)
  moreover have "st_nonce (c_state (demo_hosted 1 7 100)) = 0" by simp
  ultimately show ?thesis by (simp add: run_atomic_def)
qed

abbreviation demo_coordinator :: coordinator where
  "demo_coordinator \<equiv> coordinator_new 9 9 2 zero_costs 1000 [1 \<mapsto> 1, 2 \<mapsto> 2, 3 \<mapsto> 3]"

definition demo_voted :: coordinator where
  "demo_voted = snd (receive_vote demo_sigs demo_P 2 (VoteYes (2, 0)) (snd (receive_vote demo_sigs demo_P 1 (VoteYes (1, 0))
     (snd (propose demo_turn_crypto 0 demo_atomic demo_coordinator)))))"

lemma demo_voted_run: "coord_run demo_turn_crypto demo_sigs demo_P demo_coordinator demo_voted"
  unfolding demo_voted_def by (meson coord_step.intros(1,2) rtranclp.rtrancl_into_rtrancl rtranclp.rtrancl_refl)

lemma demo_voted_state:
  "demo_voted = demo_coordinator\<lparr>co_state := CsProposing demo_atomic [(1, VoteYes (1, 0)), (2, VoteYes (2, 0))]
     (proposal_id_for demo_turn_crypto 0 9) (Some 0)\<rparr>"
  by (simp add: demo_voted_def propose_def coordinator_new_def forest_validate_def demo_atomic_def atomic_estimated_cost_def
      zero_costs_def saturating_mul_word_def saturating_add_word_def receive_vote_def is_participant_def vote_valid_def verify_yes_def demo_sigs_def
      Let_def)

lemma demo_vote_order: "\<forall>votes. mset (ce_vote_order demo_P votes) = mset votes"
  by (simp add: demo_coord_env_def)

theorem commit_needs_quorum_witness:
  "\<exists>m C' L'. coord_commit demo_turn_crypto demo_P (demo_voted, demo_shared_ledger) = (Inr m, C', L') \<and> 2 \<le> length (cm_signatures m) \<and>
     distinct (map fst (cm_signatures m))"
proof -
  obtain receipt L' where run: "run_atomic demo_turn_crypto demo_P zero_costs demo_atomic demo_shared_ledger = (Inr receipt, L')"
    using demo_atomic_runs by blast
  have "co_costs demo_voted = zero_costs" "co_threshold demo_voted = 2" by (simp_all add: demo_voted_state coordinator_new_def)
  moreover have "co_state demo_voted = CsProposing demo_atomic [(1, VoteYes (1, 0)), (2, VoteYes (2, 0))]
      (proposal_id_for demo_turn_crypto 0 9) (Some 0)" by (simp add: demo_voted_state)
  ultimately obtain m C' where commit: "coord_commit demo_turn_crypto demo_P (demo_voted, demo_shared_ledger) = (Inr m, C', L')"
    using run by (simp add: coord_commit_def yes_count_def)
  then show ?thesis using commit_needs_quorum [OF demo_voted_run demo_vote_order commit] by blast
qed

theorem decisions_never_conflict_witness: "evaluate_votes demo_P demo_voted = DCommit"
proof -
  let ?C1 = "demo_coordinator\<lparr>co_state := CsProposing demo_atomic [(1, VoteYes (1, 0)), (2, VoteYes (2, 0))]
     (proposal_id_for demo_turn_crypto 0 9) (Some 0)\<rparr>"
  have "gate_agrees demo_P" by (simp add: gate_agrees_def demo_coord_env_def)
  moreover have "evaluate_votes demo_P demo_voted = DCommit"
    by (simp add: evaluate_votes_def demo_voted_state current_tally_def demo_coord_env_def evaluate_votes_native_def
        decide_native_def coordinator_new_def yes_count_def)
  ultimately show ?thesis
    using decisions_never_conflict [OF demo_voted_run, where C' = demo_voted] demo_voted_state more_votes.intros(1) by auto
qed

theorem repeated_signature_is_quorum_witness:
  "\<exists>receipt. fst (apply_commit demo_turn_crypto demo_sigs demo_P
     \<lparr>cm_proposal_id = 5, cm_receipt = receipt, cm_signatures = replicate 3 (1, (1, 0))\<rparr> demo_atomic [1 \<mapsto> 1, 2 \<mapsto> 2, 3 \<mapsto> 3] 3
     (participant_with_costs 2 2 2 demo_shared_ledger zero_costs)) = Inr receipt"
proof -
  obtain receipt L' where run: "run_atomic demo_turn_crypto demo_P zero_costs demo_atomic demo_shared_ledger = (Inr receipt, L')"
    using demo_atomic_runs by blast
  let ?X = "participant_with_costs 2 2 2 demo_shared_ledger zero_costs"
  have "fst (apply_commit demo_turn_crypto demo_sigs demo_P
      (\<lparr>cm_proposal_id = 5, cm_receipt = receipt, cm_signatures = []\<rparr>\<lparr>cm_signatures := replicate 3 (1, (1, 0))\<rparr>)
      demo_atomic [1 \<mapsto> 1, 2 \<mapsto> 2, 3 \<mapsto> 3] 3 ?X) = fst (run_atomic demo_turn_crypto demo_P (pa_costs ?X) demo_atomic (pa_ledger ?X))"
    by (subst repeated_signature_is_quorum [where pubkey = 1])
      (simp_all add: verify_yes_def demo_sigs_def participant_with_costs_def demo_atomic_def)
  then have "fst (apply_commit demo_turn_crypto demo_sigs demo_P
      \<lparr>cm_proposal_id = 5, cm_receipt = receipt, cm_signatures = replicate 3 (1, (1, 0))\<rparr>
      demo_atomic [1 \<mapsto> 1, 2 \<mapsto> 2, 3 \<mapsto> 3] 3 ?X) = Inr receipt"
    using run by (simp add: participant_with_costs_def)
  then show ?thesis by blast
qed

end
