(* ===== verification/CapGc.thy ===== *)
theory CapGc
  imports Permissions Facet "HOL-Library.AList" "HOL-Library.Multiset"
begin

text \<open>
  References across federations (\<open>captp/src/gc.rs\<close>, \<open>sturdy.rs\<close>, \<open>session.rs\<close>): reference counts of exported
  capabilities per holder and session, the counts of imports, the table of swiss numbers behind sturdy
  references, and the exports, imports and promises of a session. Hash maps are association lists; a
  lookup takes the first entry of a key and an update replaces it. Random numbers and the registered gate
  for drops are arguments. The session-free \<open>process_drop\<close> always answers \<open>Invalid\<close>.
\<close>

section \<open>Export side\<close>

type_synonym peer_federation = bytes32

type_synonym session_id = u64

record ref_count =
  rc_count :: u64
  rc_last_activity :: u64
  rc_sessions :: "(session_id \<times> u64) list"

definition session_count :: "ref_count \<Rightarrow> session_id \<Rightarrow> u64" where
  "session_count rc s = (case map_of (rc_sessions rc) s of Some n \<Rightarrow> n | None \<Rightarrow> 0)"

record gc_export_entry =
  ge_cell_id :: cell_id
  ge_holders :: "(peer_federation \<times> ref_count) list"
  ge_total_refs :: u64
  ge_exported_at :: u64

datatype drop_result = StillHeld | CanRevoke | InvalidDrop

type_synonym export_gc = "(cell_id \<times> gc_export_entry) list"

definition export_gc_new :: export_gc where
  "export_gc_new = []"

definition record_export_with_session :: "cell_id \<Rightarrow> peer_federation \<Rightarrow> u64 \<Rightarrow> session_id \<Rightarrow> export_gc \<Rightarrow> export_gc" where
  "record_export_with_session c fed height s X =
     (let e = (case map_of X c of Some e \<Rightarrow> e
               | None \<Rightarrow> \<lparr>ge_cell_id = c, ge_holders = [], ge_total_refs = 0, ge_exported_at = height\<rparr>);
          rc = (case map_of (ge_holders e) fed of Some rc \<Rightarrow> rc
                | None \<Rightarrow> \<lparr>rc_count = 0, rc_last_activity = height, rc_sessions = []\<rparr>);
          rc = rc\<lparr>rc_count := rc_count rc + 1, rc_last_activity := height,
                  rc_sessions := AList.update s (session_count rc s + 1) (rc_sessions rc)\<rparr>
      in AList.update c (e\<lparr>ge_holders := AList.update fed rc (ge_holders e), ge_total_refs := ge_total_refs e + 1\<rparr>) X)"

definition record_export :: "cell_id \<Rightarrow> peer_federation \<Rightarrow> u64 \<Rightarrow> export_gc \<Rightarrow> export_gc" where
  "record_export c fed height X = record_export_with_session c fed height 0 X"

text \<open>One reference less in the bucket of a session; emptied buckets and holders go.\<close>

definition drop_bucket :: "session_id \<Rightarrow> u64 \<Rightarrow> ref_count \<Rightarrow> ref_count" where
  "drop_bucket s n rc =
     rc\<lparr>rc_count := rc_count rc - 1,
        rc_sessions := (if n - 1 = 0 then AList.delete s (rc_sessions rc) else AList.update s (n - 1) (rc_sessions rc))\<rparr>"

definition drop_holder :: "peer_federation \<Rightarrow> ref_count \<Rightarrow> gc_export_entry \<Rightarrow> gc_export_entry" where
  "drop_holder fed rc e =
     e\<lparr>ge_total_refs := ge_total_refs e - 1,
       ge_holders := (if rc_count rc = 0 then AList.delete fed (ge_holders e) else AList.update fed rc (ge_holders e))\<rparr>"

definition process_drop_inner ::
  "drop_result option \<Rightarrow> cell_id \<Rightarrow> peer_federation \<Rightarrow> session_id \<Rightarrow> export_gc \<Rightarrow> drop_result \<times> export_gc" where
  "process_drop_inner verified c fed s X =
     (if verified = Some InvalidDrop then (InvalidDrop, X)
      else case map_of X c of
        None \<Rightarrow> (InvalidDrop, X)
      | Some e \<Rightarrow>
          (case map_of (ge_holders e) fed of
             None \<Rightarrow> (InvalidDrop, X)
           | Some rc \<Rightarrow>
               (case map_of (rc_sessions rc) s of
                  None \<Rightarrow> (InvalidDrop, X)
                | Some n \<Rightarrow>
                    if n = 0 then (InvalidDrop, X)
                    else
                      let e' = drop_holder fed (drop_bucket s n rc) e;
                          native = (if ge_total_refs e' = 0 then CanRevoke else StillHeld)
                      in (case verified of Some v \<Rightarrow> v | None \<Rightarrow> native, AList.update c e' X))))"

definition process_drop_with_session ::
  "(export_gc \<Rightarrow> cell_id \<Rightarrow> peer_federation \<Rightarrow> session_id \<Rightarrow> drop_result option) \<Rightarrow> cell_id \<Rightarrow> peer_federation \<Rightarrow> session_id \<Rightarrow>
     export_gc \<Rightarrow> drop_result \<times> export_gc" where
  "process_drop_with_session gate c fed s X = process_drop_inner (gate X c fed s) c fed s X"

definition process_drop :: "cell_id \<Rightarrow> peer_federation \<Rightarrow> export_gc \<Rightarrow> drop_result \<times> export_gc" where
  "process_drop c fed X = (InvalidDrop, X)"

definition stale_exports :: "u64 \<Rightarrow> u64 \<Rightarrow> export_gc \<Rightarrow> cell_id list" where
  "stale_exports max_idle height X =
     map (\<lambda>(_, e). ge_cell_id e)
       (filter (\<lambda>(_, e). list_all (\<lambda>(_, rc). max_idle < saturating_sub_word height (rc_last_activity rc)) (ge_holders e)) X)"

definition gc_sweep :: "export_gc \<Rightarrow> cell_id list \<times> export_gc" where
  "gc_sweep X =
     (let dead = map fst (filter (\<lambda>(_, e). ge_total_refs e = 0) X) in (dead, fold AList.delete dead X))"

section \<open>Import side\<close>

record gc_import_entry =
  gi_remote_federation :: peer_federation
  gi_remote_cell_id :: cell_id
  gi_local_refs :: u64

record drop_message =
  dm_target_federation :: peer_federation
  dm_cell_id :: cell_id

type_synonym import_gc = "((peer_federation \<times> cell_id) \<times> gc_import_entry) list"

definition import_gc_new :: import_gc where
  "import_gc_new = []"

definition record_import :: "peer_federation \<Rightarrow> cell_id \<Rightarrow> import_gc \<Rightarrow> import_gc" where
  "record_import fed c I =
     (let e = (case map_of I (fed, c) of Some e \<Rightarrow> e
               | None \<Rightarrow> \<lparr>gi_remote_federation = fed, gi_remote_cell_id = c, gi_local_refs = 0\<rparr>)
      in AList.update (fed, c) (e\<lparr>gi_local_refs := gi_local_refs e + 1\<rparr>) I)"

definition local_ref_dropped :: "peer_federation \<Rightarrow> cell_id \<Rightarrow> import_gc \<Rightarrow> drop_message option \<times> import_gc" where
  "local_ref_dropped fed c I =
     (case map_of I (fed, c) of
        None \<Rightarrow> (None, I)
      | Some e \<Rightarrow>
          if gi_local_refs e = 0 then (None, I)
          else if gi_local_refs e - 1 = 0
          then (Some \<lparr>dm_target_federation = fed, dm_cell_id = c\<rparr>, AList.delete (fed, c) I)
          else (None, AList.update (fed, c) (e\<lparr>gi_local_refs := gi_local_refs e - 1\<rparr>) I))"

section \<open>Sturdy references\<close>

datatype enliven_error = EnNotFound | EnExpired | EnExhaustedUses

record swiss_entry =
  sw_cell_id :: cell_id
  sw_permissions :: auth_required
  sw_allowed_effects :: "u32 option"
  sw_expires_at :: "u64 option"
  sw_created_at :: u64
  sw_max_uses :: "u32 option"
  sw_use_count :: u32

record swiss_table =
  sb_entries :: "(bytes32 \<times> swiss_entry) list"
  sb_seen_handoff_nonces :: "bytes32 set"

definition swiss_table_new :: swiss_table where
  "swiss_table_new = \<lparr>sb_entries = [], sb_seen_handoff_nonces = {}\<rparr>"

definition handoff_nonce_seen :: "swiss_table \<Rightarrow> bytes32 \<Rightarrow> bool" where
  "handoff_nonce_seen T nonce \<longleftrightarrow> nonce \<in> sb_seen_handoff_nonces T"

definition register_handoff_nonce :: "bytes32 \<Rightarrow> swiss_table \<Rightarrow> bool \<times> swiss_table" where
  "register_handoff_nonce nonce T =
     (nonce \<notin> sb_seen_handoff_nonces T, T\<lparr>sb_seen_handoff_nonces := insert nonce (sb_seen_handoff_nonces T)\<rparr>)"

text \<open>The swiss number comes from the random source.\<close>

definition export_with_options ::
  "bytes32 \<Rightarrow> cell_id \<Rightarrow> auth_required \<Rightarrow> u64 \<Rightarrow> u64 option \<Rightarrow> u32 option \<Rightarrow> u32 option \<Rightarrow> swiss_table \<Rightarrow> bytes32 \<times> swiss_table" where
  "export_with_options swiss c permissions height expires_at allowed max_uses T =
     (swiss, T\<lparr>sb_entries := AList.update swiss
        \<lparr>sw_cell_id = c, sw_permissions = permissions, sw_allowed_effects = allowed, sw_expires_at = expires_at,
         sw_created_at = height, sw_max_uses = max_uses, sw_use_count = 0\<rparr> (sb_entries T)\<rparr>)"

definition swiss_export ::
  "bytes32 \<Rightarrow> cell_id \<Rightarrow> auth_required \<Rightarrow> u64 \<Rightarrow> u64 option \<Rightarrow> swiss_table \<Rightarrow> bytes32 \<times> swiss_table" where
  "swiss_export swiss c permissions height expires_at T = export_with_options swiss c permissions height expires_at None None T"

definition swiss_check :: "swiss_table \<Rightarrow> bytes32 \<Rightarrow> u64 \<Rightarrow> enliven_error + swiss_entry" where
  "swiss_check T swiss height =
     and_then (ok_or (map_of (sb_entries T) swiss) EnNotFound) (\<lambda>e.
     and_then (ensure (case sw_expires_at e of Some x \<Rightarrow> height \<le> x | None \<Rightarrow> True) EnExpired) (\<lambda>_.
     and_then (ensure (case sw_max_uses e of Some m \<Rightarrow> sw_use_count e < m | None \<Rightarrow> True) EnExhaustedUses) (\<lambda>_. Inr e)))"

definition enliven :: "bytes32 \<Rightarrow> u64 \<Rightarrow> swiss_table \<Rightarrow> (enliven_error + swiss_entry) \<times> swiss_table" where
  "enliven swiss height T =
     (case swiss_check T swiss height of
        Inl err \<Rightarrow> (Inl err, T)
      | Inr e \<Rightarrow>
          let e = e\<lparr>sw_use_count := sw_use_count e + 1\<rparr> in (Inr e, T\<lparr>sb_entries := AList.update swiss e (sb_entries T)\<rparr>))"

definition swiss_revoke :: "bytes32 \<Rightarrow> swiss_table \<Rightarrow> bool \<times> swiss_table" where
  "swiss_revoke swiss T =
     (map_of (sb_entries T) swiss \<noteq> None, T\<lparr>sb_entries := AList.delete swiss (sb_entries T)\<rparr>)"

definition swiss_contains :: "swiss_table \<Rightarrow> bytes32 \<Rightarrow> bool" where
  "swiss_contains T swiss \<longleftrightarrow> map_of (sb_entries T) swiss \<noteq> None"

definition swiss_peek :: "swiss_table \<Rightarrow> bytes32 \<Rightarrow> swiss_entry option" where
  "swiss_peek T swiss = map_of (sb_entries T) swiss"

section \<open>Sessions\<close>

record session_export =
  se_cell_id :: cell_id
  se_permissions :: auth_required
  se_ref_count :: u32

record session_import =
  si_remote_cell_id :: cell_id
  si_permissions :: auth_required
  si_live :: bool

datatype promise_state = PsPending | PsFulfilled cell_id | PsBroken string

record cap_session =
  cp_peer_id :: bytes32
  cp_peer_strand :: "bytes32 option"
  cp_epoch :: u64
  cp_exports :: "(cell_id \<times> session_export) list"
  cp_imports :: "(cell_id \<times> session_import) list"
  cp_promises :: "(u64 \<times> promise_state) list"
  cp_next_promise_id :: u64

definition session_with_epoch :: "bytes32 \<Rightarrow> u64 \<Rightarrow> cap_session" where
  "session_with_epoch peer epoch =
     \<lparr>cp_peer_id = peer, cp_peer_strand = None, cp_epoch = epoch, cp_exports = [], cp_imports = [], cp_promises = [],
      cp_next_promise_id = 0\<rparr>"

definition session_new :: "bytes32 \<Rightarrow> cap_session" where
  "session_new peer = session_with_epoch peer 0"

definition session_with_strand :: "bytes32 \<Rightarrow> u64 \<Rightarrow> cap_session" where
  "session_with_strand strand epoch = (session_with_epoch strand epoch)\<lparr>cp_peer_strand := Some strand\<rparr>"

definition session_export_cap :: "cell_id \<Rightarrow> auth_required \<Rightarrow> cap_session \<Rightarrow> cell_id \<times> cap_session" where
  "session_export_cap c permissions S =
     (let e = (case map_of (cp_exports S) c of Some e \<Rightarrow> e
               | None \<Rightarrow> \<lparr>se_cell_id = c, se_permissions = permissions, se_ref_count = 0\<rparr>);
          e = e\<lparr>se_ref_count := se_ref_count e + 1\<rparr>;
          e = (if is_narrower_or_equal permissions (se_permissions e) then e\<lparr>se_permissions := permissions\<rparr> else e)
      in (c, S\<lparr>cp_exports := AList.update c e (cp_exports S)\<rparr>))"

definition release_export :: "cell_id \<Rightarrow> cap_session \<Rightarrow> bool \<times> cap_session" where
  "release_export c S =
     (case map_of (cp_exports S) c of
        None \<Rightarrow> (False, S)
      | Some e \<Rightarrow>
          let n = saturating_sub_word (se_ref_count e) 1 in
          if n = 0 then (True, S\<lparr>cp_exports := AList.delete c (cp_exports S)\<rparr>)
          else (False, S\<lparr>cp_exports := AList.update c (e\<lparr>se_ref_count := n\<rparr>) (cp_exports S)\<rparr>))"

definition session_import_cap :: "cell_id \<Rightarrow> auth_required \<Rightarrow> cap_session \<Rightarrow> cap_session" where
  "session_import_cap c permissions S =
     S\<lparr>cp_imports := AList.update c \<lparr>si_remote_cell_id = c, si_permissions = permissions, si_live = True\<rparr> (cp_imports S)\<rparr>"

definition disconnect_import :: "cell_id \<Rightarrow> cap_session \<Rightarrow> cap_session" where
  "disconnect_import c S =
     (case map_of (cp_imports S) c of
        None \<Rightarrow> S
      | Some e \<Rightarrow> S\<lparr>cp_imports := AList.update c (e\<lparr>si_live := False\<rparr>) (cp_imports S)\<rparr>)"

definition session_create_promise :: "cap_session \<Rightarrow> u64 \<times> cap_session" where
  "session_create_promise S =
     (let k = cp_next_promise_id S in
      (k, S\<lparr>cp_next_promise_id := k + 1, cp_promises := AList.update k PsPending (cp_promises S)\<rparr>))"

definition settle_promise :: "u64 \<Rightarrow> promise_state \<Rightarrow> cap_session \<Rightarrow> bool \<times> cap_session" where
  "settle_promise k v S =
     (if map_of (cp_promises S) k = Some PsPending
      then (True, S\<lparr>cp_promises := AList.update k v (cp_promises S)\<rparr>) else (False, S))"

definition fulfill_promise :: "u64 \<Rightarrow> cell_id \<Rightarrow> cap_session \<Rightarrow> bool \<times> cap_session" where
  "fulfill_promise k c S = settle_promise k (PsFulfilled c) S"

definition session_break_promise :: "u64 \<Rightarrow> string \<Rightarrow> cap_session \<Rightarrow> bool \<times> cap_session" where
  "session_break_promise k reason S = settle_promise k (PsBroken reason) S"

definition session_is_active :: "cap_session \<Rightarrow> bool" where
  "session_is_active S \<longleftrightarrow> cp_exports S \<noteq> [] \<or> list_ex (\<lambda>(_, e). si_live e) (cp_imports S)"

section \<open>Counts are the references that are out\<close>

type_synonym minted = "(cell_id \<times> peer_federation \<times> session_id) multiset"

definition refs_cell :: "minted \<Rightarrow> cell_id \<Rightarrow> minted" where
  "refs_cell M c = filter_mset (\<lambda>r. fst r = c) M"

definition refs_holder :: "minted \<Rightarrow> cell_id \<Rightarrow> peer_federation \<Rightarrow> minted" where
  "refs_holder M c fed = filter_mset (\<lambda>r. fst r = c \<and> fst (snd r) = fed) M"

definition holder_rel :: "minted \<Rightarrow> cell_id \<Rightarrow> peer_federation \<Rightarrow> ref_count \<Rightarrow> bool" where
  "holder_rel M c fed rc \<longleftrightarrow> unat (rc_count rc) = size (refs_holder M c fed) \<and>
     (\<forall>s. unat (session_count rc s) = count M (c, fed, s))"

definition entry_rel :: "minted \<Rightarrow> cell_id \<Rightarrow> gc_export_entry \<Rightarrow> bool" where
  "entry_rel M c e \<longleftrightarrow> unat (ge_total_refs e) = size (refs_cell M c) \<and>
     (\<forall>fed. case map_of (ge_holders e) fed of None \<Rightarrow> refs_holder M c fed = {#} | Some rc \<Rightarrow> holder_rel M c fed rc)"

definition gc_rel :: "minted \<Rightarrow> export_gc \<Rightarrow> bool" where
  "gc_rel M X \<longleftrightarrow> distinct (map fst X) \<and>
     (\<forall>c. case map_of X c of None \<Rightarrow> refs_cell M c = {#} | Some e \<Rightarrow> entry_rel M c e)"

lemma refs_add [simp]:
  "refs_cell (add_mset (c, fed, s) M) c' = (if c' = c then add_mset (c, fed, s) (refs_cell M c) else refs_cell M c')"
  "refs_holder (add_mset (c, fed, s) M) c' fed' =
     (if c' = c \<and> fed' = fed then add_mset (c, fed, s) (refs_holder M c fed) else refs_holder M c' fed')"
  by (auto simp: refs_cell_def refs_holder_def)

lemma refs_sub:
  "refs_cell (M - {#(c, fed, s)#}) c' = (if c' = c then refs_cell M c - {#(c, fed, s)#} else refs_cell M c')"
  "refs_holder (M - {#(c, fed, s)#}) c' fed' =
     (if c' = c \<and> fed' = fed then refs_holder M c fed - {#(c, fed, s)#} else refs_holder M c' fed')"
  by (auto simp: refs_cell_def refs_holder_def multiset_eq_iff)

lemma refs_size: "size (refs_cell M c) \<le> size M" "size (refs_holder M c fed) \<le> size M" "count M r \<le> size M"
  by (simp_all add: refs_cell_def refs_holder_def size_mset_mono count_le_size)

lemma refs_member:
  assumes "(c, fed, s) \<in># M"
  shows "(c, fed, s) \<in># refs_cell M c" "(c, fed, s) \<in># refs_holder M c fed"
  using assms by (simp_all add: refs_cell_def refs_holder_def)

lemma unat_suc: "unat (x :: u64) < 2 ^ 64 - 1 \<Longrightarrow> unat (x + 1) = unat x + 1"
  by (simp add: unat_word_ariths)

lemma unat_pred: "unat (x :: u64) = k \<Longrightarrow> 0 < k \<Longrightarrow> unat (x - 1) = k - 1"
  by (metis One_nat_def Suc_leI unat_1 unat_sub word_le_nat_alt)

lemma record_export_rel:
  assumes "gc_rel M X" "size M < 2 ^ 64 - 1"
  shows "gc_rel (add_mset (c, fed, s) M) (record_export_with_session c fed height s X)"
proof -
  define e where "e = (case map_of X c of Some e \<Rightarrow> e
    | None \<Rightarrow> \<lparr>ge_cell_id = c, ge_holders = [], ge_total_refs = 0, ge_exported_at = height\<rparr>)"
  define rc where "rc = (case map_of (ge_holders e) fed of Some rc \<Rightarrow> rc
    | None \<Rightarrow> \<lparr>rc_count = 0, rc_last_activity = height, rc_sessions = []\<rparr>)"
  define rc' where "rc' = rc\<lparr>rc_count := rc_count rc + 1, rc_last_activity := height,
    rc_sessions := AList.update s (session_count rc s + 1) (rc_sessions rc)\<rparr>"
  define e' where "e' = e\<lparr>ge_holders := AList.update fed rc' (ge_holders e), ge_total_refs := ge_total_refs e + 1\<rparr>"
  have none: "refs_cell M c = {#} \<Longrightarrow> refs_holder M c fed' = {#}" for fed'
    by (auto simp: refs_cell_def refs_holder_def filter_mset_eq_conv)
  have e: "entry_rel M c e"
  proof (cases "map_of X c")
    case None
    then have "refs_cell M c = {#}" using assms(1) by (auto simp: gc_rel_def dest: spec [where x = c])
    then show ?thesis using none by (simp add: e_def None entry_rel_def)
  qed (use assms(1) in \<open>auto simp: e_def gc_rel_def dest: spec [where x = c]\<close>)
  have rc: "holder_rel M c fed rc"
  proof (cases "map_of (ge_holders e) fed")
    case None
    then have empty: "refs_holder M c fed = {#}" using e by (auto simp: entry_rel_def dest: spec [where x = fed])
    then have "count M (c, fed, t) = 0" for t using refs_member(2) [of c fed t M] by (auto simp: not_in_iff [symmetric])
    then show ?thesis using empty by (simp add: rc_def None holder_rel_def session_count_def)
  qed (use e in \<open>auto simp: rc_def entry_rel_def dest: spec [where x = fed]\<close>)
  have bounds: "unat (rc_count rc) < 2 ^ 64 - 1" "unat (session_count rc s) < 2 ^ 64 - 1" "unat (ge_total_refs e) < 2 ^ 64 - 1"
    using rc e assms(2) le_less_trans [OF refs_size(1)] le_less_trans [OF refs_size(2)] le_less_trans [OF refs_size(3)]
    by (simp_all add: holder_rel_def entry_rel_def del: One_nat_def)
  have "session_count rc' t = (if t = s then session_count rc s + 1 else session_count rc t)" for t
    by (simp add: session_count_def rc'_def update_conv')
  then have "holder_rel (add_mset (c, fed, s) M) c fed rc'"
    using rc bounds(1,2) unat_suc by (auto simp: holder_rel_def rc'_def)
  then have "entry_rel (add_mset (c, fed, s) M) c e'"
    using e bounds(3) unat_suc
    by (simp add: entry_rel_def e'_def update_conv' holder_rel_def cong: option.case_cong)
  moreover have "record_export_with_session c fed height s X = AList.update c e' X"
    by (simp add: record_export_with_session_def Let_def e_def rc_def rc'_def e'_def)
  moreover have "entry_rel (add_mset (c, fed, s) M) c' d = entry_rel M c' d" if "c' \<noteq> c" for c' d
    using that by (simp add: entry_rel_def holder_rel_def cong: option.case_cong)
  ultimately show ?thesis
    using assms(1) by (simp add: gc_rel_def update_conv' distinct_update cong: option.case_cong)
qed

text \<open>Where a reference is out, its bucket is there; where none is, the drop is invalid.\<close>

lemma bucket_found:
  assumes "gc_rel M X" "(c, fed, s) \<in># M"
  obtains e rc n where "map_of X c = Some e" "map_of (ge_holders e) fed = Some rc" "map_of (rc_sessions rc) s = Some n"
    "unat n = count M (c, fed, s)" "n \<noteq> 0" "entry_rel M c e" "holder_rel M c fed rc"
proof -
  have ne: "refs_cell M c \<noteq> {#}" "refs_holder M c fed \<noteq> {#}" "0 < count M (c, fed, s)"
    using refs_member [OF assms(2)] assms(2) by auto
  obtain e where e: "map_of X c = Some e" "entry_rel M c e"
    using assms(1) ne(1) by (auto simp: gc_rel_def split: option.splits dest: spec [where x = c])
  obtain rc where rc: "map_of (ge_holders e) fed = Some rc" "holder_rel M c fed rc"
    using e(2) ne(2) by (auto simp: entry_rel_def split: option.splits dest: spec [where x = fed])
  have count: "unat (session_count rc s) = count M (c, fed, s)" using rc(2) by (simp add: holder_rel_def)
  then have "map_of (rc_sessions rc) s \<noteq> None" using ne(3) by (intro notI) (simp add: session_count_def)
  then obtain n where "map_of (rc_sessions rc) s = Some n" "unat n = count M (c, fed, s)"
    using count by (auto simp: session_count_def)
  moreover from this have "n \<noteq> 0" using ne(3) by (intro notI) simp
  ultimately show ?thesis using that e rc by blast
qed

lemma drop_invalid:
  assumes "gc_rel M X" "(c, fed, s) \<notin># M"
  shows "process_drop_inner verified c fed s X = (InvalidDrop, X)"
proof -
  have "unat n = 0" if "map_of X c = Some e" "map_of (ge_holders e) fed = Some rc" "map_of (rc_sessions rc) s = Some n" for e rc n
  proof -
    have "entry_rel M c e" using assms(1) that(1) by (auto simp: gc_rel_def dest: spec [where x = c])
    then have "holder_rel M c fed rc" using that(2) by (auto simp: entry_rel_def dest: spec [where x = fed])
    then have "unat (session_count rc s) = 0" using assms(2) by (simp add: holder_rel_def not_in_iff)
    then show ?thesis by (simp add: session_count_def that(3))
  qed
  then show ?thesis by (auto simp: process_drop_inner_def unat_eq_zero split: option.split)
qed

lemma drop_rel:
  assumes "gc_rel M X" "(c, fed, s) \<in># M"
  shows "gc_rel (M - {#(c, fed, s)#}) (snd (process_drop_inner None c fed s X))"
    and "fst (process_drop_inner None c fed s X) =
      (if refs_cell (M - {#(c, fed, s)#}) c = {#} then CanRevoke else StillHeld)"
proof -
  obtain e rc n where f: "map_of X c = Some e" "map_of (ge_holders e) fed = Some rc" "map_of (rc_sessions rc) s = Some n"
    "unat n = count M (c, fed, s)" "n \<noteq> 0" and e: "entry_rel M c e" and rc: "holder_rel M c fed rc"
    using bucket_found [OF assms] by blast
  let ?M = "M - {#(c, fed, s)#}" and ?rc = "drop_bucket s n rc"
  let ?e = "drop_holder fed ?rc e"
  have out: "process_drop_inner None c fed s X = (if ge_total_refs ?e = 0 then CanRevoke else StillHeld, AList.update c ?e X)"
    using f by (simp add: process_drop_inner_def Let_def)
  note mem = refs_member [OF assms(2)]
  have pos: "0 < size (refs_cell M c)" "0 < size (refs_holder M c fed)" "0 < count M (c, fed, s)"
    using mem assms(2) by (auto simp: nonempty_has_size [symmetric])
  have n: "unat (n - 1) = count ?M (c, fed, s)" using unat_pred [OF f(4)] pos(3) by simp
  have sessions: "unat (session_count ?rc t) = count ?M (c, fed, t)" for t
  proof (cases "t = s")
    case True
    have "session_count ?rc s = n - 1" by (simp add: session_count_def drop_bucket_def update_conv' delete_conv')
    then show ?thesis using n True by simp
  next
    case False
    then have "session_count ?rc t = session_count rc t"
      by (simp add: session_count_def drop_bucket_def update_conv' delete_conv')
    then show ?thesis using False rc by (simp add: holder_rel_def)
  qed
  have count: "unat (rc_count ?rc) = size (refs_holder ?M c fed)"
    using unat_pred [of "rc_count rc"] rc pos(2) mem(2) by (simp add: holder_rel_def drop_bucket_def refs_sub size_Diff_singleton)
  have holder: "holder_rel ?M c fed ?rc" using sessions count by (simp add: holder_rel_def)
  have total: "unat (ge_total_refs ?e) = size (refs_cell ?M c)"
    using unat_pred [of "ge_total_refs e"] e pos(1) mem(1) by (simp add: entry_rel_def drop_holder_def refs_sub size_Diff_singleton)
  have others: "holder_rel ?M c fed' r = holder_rel M c fed' r" if "fed' \<noteq> fed" for fed' r
    using that by (simp add: holder_rel_def refs_sub)
  have "case map_of (ge_holders ?e) fed' of None \<Rightarrow> refs_holder ?M c fed' = {#} | Some r \<Rightarrow> holder_rel ?M c fed' r" for fed'
  proof (cases "fed' = fed")
    case True
    have "rc_count ?rc = 0 \<Longrightarrow> refs_holder ?M c fed = {#}" using count by (metis size_eq_0_iff_empty unat_0)
    then show ?thesis using True holder by (simp add: drop_holder_def update_conv' delete_conv')
  next
    case False
    then have "map_of (ge_holders ?e) fed' = map_of (ge_holders e) fed'" by (simp add: drop_holder_def update_conv' delete_conv')
    then show ?thesis using False e others by (auto simp: entry_rel_def refs_sub split: option.splits dest: spec [where x = fed'])
  qed
  then have "entry_rel ?M c ?e" using total by (simp add: entry_rel_def)
  moreover have "entry_rel ?M c' d = entry_rel M c' d" if "c' \<noteq> c" for c' d
    using that by (simp add: entry_rel_def holder_rel_def refs_sub cong: option.case_cong)
  ultimately show "gc_rel ?M (snd (process_drop_inner None c fed s X))"
    using assms(1) unfolding out by (simp add: gc_rel_def update_conv' distinct_update refs_sub cong: option.case_cong)
  have "ge_total_refs ?e = 0 \<longleftrightarrow> refs_cell ?M c = {#}" using total by (metis size_eq_0_iff_empty unat_eq_zero)
  then show "fst (process_drop_inner None c fed s X) = (if refs_cell ?M c = {#} then CanRevoke else StillHeld)"
    unfolding out by simp
qed

lemma fold_delete: "map_of (fold AList.delete ks m) i = (if i \<in> set ks then None else map_of m i)"
  by (induction ks arbitrary: m) (auto simp: delete_conv')

lemma fold_delete_distinct: "distinct (map fst m) \<Longrightarrow> distinct (map fst (fold AList.delete ks m))"
  by (induction ks arbitrary: m) (simp_all add: distinct_delete)

lemma sweep_dead:
  assumes "gc_rel M X"
  shows "c \<in> set (fst (gc_sweep X)) \<longleftrightarrow> map_of X c \<noteq> None \<and> refs_cell M c = {#}"
proof -
  have "unat (ge_total_refs e) = size (refs_cell M c)" if "map_of X c = Some e" for e
    using assms that by (auto simp: gc_rel_def entry_rel_def dest: spec [where x = c])
  then have zero: "ge_total_refs e = 0 \<longleftrightarrow> refs_cell M c = {#}" if "map_of X c = Some e" for e
    using that by (metis size_eq_0_iff_empty unat_eq_zero)
  have "c \<in> set (fst (gc_sweep X)) \<longleftrightarrow> (\<exists>e. (c, e) \<in> set X \<and> ge_total_refs e = 0)"
    by (force simp: gc_sweep_def Let_def)
  also have "\<dots> \<longleftrightarrow> (\<exists>e. map_of X c = Some e \<and> ge_total_refs e = 0)"
    using assms by (auto simp: gc_rel_def)
  finally show ?thesis using zero by auto
qed

lemma sweep_rel: "gc_rel M X \<Longrightarrow> gc_rel M (snd (gc_sweep X))"
  using sweep_dead [of M X]
  by (auto simp: gc_rel_def gc_sweep_def Let_def fold_delete fold_delete_distinct split: option.splits if_splits)

definition gate_sound :: "(export_gc \<Rightarrow> cell_id \<Rightarrow> peer_federation \<Rightarrow> session_id \<Rightarrow> drop_result option) \<Rightarrow> bool" where
  "gate_sound gate \<longleftrightarrow> (\<forall>X c fed s v. gate X c fed s = Some v \<longrightarrow> v = fst (process_drop_inner None c fed s X))"

lemma gated_drop: "gate_sound gate \<Longrightarrow> process_drop_with_session gate c fed s X = process_drop_inner None c fed s X"
proof (cases "gate X c fed s")
  case (Some v)
  assume "gate_sound gate"
  then have v: "v = fst (process_drop_inner None c fed s X)" using Some by (simp add: gate_sound_def)
  show ?thesis
    unfolding process_drop_with_session_def Some v
    by (auto simp: process_drop_inner_def Let_def split: option.splits if_splits)
qed (simp add: process_drop_with_session_def)

text \<open>The life of the table: exports under sessions, drops from anybody, sweeps.\<close>

inductive gc_run :: "(export_gc \<Rightarrow> cell_id \<Rightarrow> peer_federation \<Rightarrow> session_id \<Rightarrow> drop_result option) \<Rightarrow> export_gc \<Rightarrow> minted \<Rightarrow> bool"
  for gate where
  start: "gc_run gate export_gc_new {#}"
| export: "gc_run gate X M \<Longrightarrow> size M < 2 ^ 64 - 1 \<Longrightarrow>
    gc_run gate (record_export_with_session c fed height s X) (add_mset (c, fed, s) M)"
| dropped: "gc_run gate X M \<Longrightarrow> process_drop_with_session gate c fed s X = (r, X') \<Longrightarrow> r \<noteq> InvalidDrop \<Longrightarrow>
    gc_run gate X' (M - {#(c, fed, s)#})"
| refused: "gc_run gate X M \<Longrightarrow> process_drop_with_session gate c fed s X = (InvalidDrop, X') \<Longrightarrow> gc_run gate X' M"
| sweep: "gc_run gate X M \<Longrightarrow> gc_run gate (snd (gc_sweep X)) M"

lemma gc_run_rel:
  assumes "gc_run gate X M" "gate_sound gate"
  shows "gc_rel M X"
  using assms(1)
proof (induction rule: gc_run.induct)
  case start
  then show ?case by (simp add: gc_rel_def export_gc_new_def refs_cell_def)
next
  case (export X M c fed height s)
  then show ?case by (intro record_export_rel)
next
  case (dropped X M c fed s r X')
  then have drop: "process_drop_inner None c fed s X = (r, X')" using gated_drop [OF assms(2)] by simp
  then have "(c, fed, s) \<in># M" using drop_invalid [OF dropped.IH] dropped.hyps(3) by fastforce
  then show ?case using drop_rel(1) [OF dropped.IH, of c fed s] drop by simp
next
  case (refused X M c fed s X')
  then have drop: "process_drop_inner None c fed s X = (InvalidDrop, X')" using gated_drop [OF assms(2)] by simp
  show ?case
  proof (cases "(c, fed, s) \<in># M")
    case True
    then show ?thesis using drop_rel(2) [OF refused.IH True] drop by (simp split: if_splits)
  next
    case False
    then show ?thesis using drop_invalid [OF refused.IH False] drop refused.IH by simp
  qed
next
  case (sweep X M)
  then show ?case by (intro sweep_rel)
qed

text \<open>C9. No premature reclaim. Whatever the order of exports, drops and sweeps, and whoever sends the drops: a
  drop is accepted exactly when a reference of this holder minted under this very session is out, so no
  session can drop the references of another; it is answered with \<open>CanRevoke\<close> exactly when no reference
  to the cell is left; the total kept for a cell is the number of references out; and a sweep removes a
  cell exactly if it is listed and no reference to it is out.\<close>

theorem no_premature_reclaim:
  assumes "gc_run gate X M" "gate_sound gate"
  shows "fst (process_drop_with_session gate c fed s X) =
      (if (c, fed, s) \<notin># M then InvalidDrop
       else if refs_cell (M - {#(c, fed, s)#}) c = {#} then CanRevoke else StillHeld) \<and>
    (c \<in> set (fst (gc_sweep X)) \<longleftrightarrow> map_of X c \<noteq> None \<and> refs_cell M c = {#}) \<and>
    (refs_cell M c \<noteq> {#} \<longrightarrow> (\<exists>e. map_of (snd (gc_sweep X)) c = Some e \<and> unat (ge_total_refs e) = size (refs_cell M c)))"
proof -
  note rel = gc_run_rel [OF assms]
  have "\<exists>e. map_of (snd (gc_sweep X)) c = Some e \<and> unat (ge_total_refs e) = size (refs_cell M c)" if "refs_cell M c \<noteq> {#}"
    using sweep_rel [OF rel] that by (auto simp: gc_rel_def entry_rel_def split: option.splits dest!: spec [where x = c])
  then show ?thesis
    using drop_rel(2) [OF rel] drop_invalid [OF rel] sweep_dead [OF rel] by (simp add: gated_drop [OF assms(2)])
qed

text \<open>Two references of one holder under two sessions: the first drop leaves the cell held, a drop under a
  session that minted nothing is refused, the last drop frees the cell.\<close>

lemma gc_run_two:
  "gc_run (\<lambda>_ _ _ _. None) (record_export_with_session 1 9 5 2
     (record_export_with_session 1 9 4 1 export_gc_new))
     {#(1, 9, 2), (1, 9, 1)#}"
  by (intro gc_run.intros) simp_all

theorem no_premature_reclaim_witness:
  "let X = record_export_with_session 1 9 5 2
       (record_export_with_session 1 9 4 1 export_gc_new);
     gate = (\<lambda>_ _ _ _. None)
   in fst (process_drop_with_session gate 1 9 2 X) = StillHeld \<and>
      fst (process_drop_with_session gate 1 9 3 X) = InvalidDrop \<and>
      fst (gc_sweep X) = []"
  using no_premature_reclaim [OF gc_run_two, of 1 9 2]
    no_premature_reclaim [OF gc_run_two, of 1 9 3]
  by (simp add: gate_sound_def refs_cell_def Let_def record_export_with_session_def export_gc_new_def gc_sweep_def)

section \<open>Drops of a reference that was exported more than once\<close>

text \<open>The importer counts its copies itself and sends one message when the last one goes. Exported twice to the
  same holder, the cell keeps one reference: the exporter answers \<open>StillHeld\<close> to the only drop it ever gets, and
  no sweep removes the cell.\<close>

lemma reexport_leaks:
  fixes fed me c height s
  defines "X \<equiv> record_export_with_session c fed height s (record_export_with_session c fed height s export_gc_new)"
    and "I \<equiv> record_import me c (record_import me c import_gc_new)"
  shows "fst (local_ref_dropped me c I) = None \<and>
    fst (local_ref_dropped me c (snd (local_ref_dropped me c I))) = Some \<lparr>dm_target_federation = me, dm_cell_id = c\<rparr> \<and>
    snd (local_ref_dropped me c (snd (local_ref_dropped me c I))) = [] \<and>
    fst (process_drop_with_session (\<lambda>_ _ _ _. None) c fed s X) = StillHeld \<and>
    fst (gc_sweep (snd (process_drop_with_session (\<lambda>_ _ _ _. None) c fed s X))) = []"
  by (simp add: X_def I_def record_import_def import_gc_new_def local_ref_dropped_def record_export_with_session_def
      export_gc_new_def process_drop_with_session_def process_drop_inner_def drop_bucket_def drop_holder_def
      session_count_def gc_sweep_def Let_def)

section \<open>Sturdy references\<close>

definition same_grant :: "swiss_entry \<Rightarrow> swiss_entry \<Rightarrow> bool" where
  "same_grant d e \<longleftrightarrow> sw_cell_id e = sw_cell_id d \<and> sw_permissions e = sw_permissions d \<and>
     sw_allowed_effects e = sw_allowed_effects d \<and> sw_expires_at e = sw_expires_at d \<and> sw_max_uses e = sw_max_uses d"

lemma same_grant_refl [simp]: "same_grant d d"
  by (simp add: same_grant_def)

text \<open>The life of a swiss number from its export on: enlivenings at any height, other exports under other
  numbers, revocations, handoff nonces. The list holds what was enlivened, the flag that it was revoked.\<close>

inductive swiss_run :: "bytes32 \<Rightarrow> swiss_entry \<Rightarrow> swiss_table \<Rightarrow> bool \<Rightarrow> (u64 \<times> swiss_entry) list \<Rightarrow> bool"
  for swiss d where
  exported: "export_with_options swiss c p h x a m T = (swiss, T') \<Longrightarrow> swiss_peek T' swiss = Some d \<Longrightarrow>
    swiss_run swiss d T' False []"
| enlivened: "swiss_run swiss d T gone log \<Longrightarrow> enliven swiss h T = (Inr e, T') \<Longrightarrow> swiss_run swiss d T' gone ((h, e) # log)"
| failed: "swiss_run swiss d T gone log \<Longrightarrow> enliven swiss h T = (Inl err, T') \<Longrightarrow> swiss_run swiss d T' gone log"
| enlivened_other: "swiss_run swiss d T gone log \<Longrightarrow> other \<noteq> swiss \<Longrightarrow> swiss_run swiss d (snd (enliven other h T)) gone log"
| exported_other: "swiss_run swiss d T gone log \<Longrightarrow> other \<noteq> swiss \<Longrightarrow>
    swiss_run swiss d (snd (export_with_options other c p h x a m T)) gone log"
| revoked: "swiss_run swiss d T gone log \<Longrightarrow> swiss_run swiss d (snd (swiss_revoke swiss T)) True log"
| revoked_other: "swiss_run swiss d T gone log \<Longrightarrow> other \<noteq> swiss \<Longrightarrow> swiss_run swiss d (snd (swiss_revoke other T)) gone log"
| nonce: "swiss_run swiss d T gone log \<Longrightarrow> swiss_run swiss d (snd (register_handoff_nonce n T)) gone log"

lemma enliven_other [simp]: "other \<noteq> swiss \<Longrightarrow> map_of (sb_entries (snd (enliven other h T))) swiss = map_of (sb_entries T) swiss"
  by (simp add: enliven_def Let_def update_conv' split: sum.split)

lemma swiss_check_Inr:
  "swiss_check T swiss h = Inr e \<longleftrightarrow> map_of (sb_entries T) swiss = Some e \<and>
     (case sw_expires_at e of Some x \<Rightarrow> h \<le> x | None \<Rightarrow> True) \<and>
     (case sw_max_uses e of Some m \<Rightarrow> sw_use_count e < m | None \<Rightarrow> True)"
  by (auto simp: swiss_check_def and_then_def ok_or_def ensure_def split: option.split sum.split)

definition swiss_inv :: "bytes32 \<Rightarrow> swiss_entry \<Rightarrow> swiss_table \<Rightarrow> bool \<Rightarrow> (u64 \<times> swiss_entry) list \<Rightarrow> bool" where
  "swiss_inv swiss d T gone log \<longleftrightarrow>
     (if gone then map_of (sb_entries T) swiss = None
      else \<exists>e. map_of (sb_entries T) swiss = Some e \<and> same_grant d e \<and>
             (sw_max_uses d \<noteq> None \<longrightarrow> unat (sw_use_count e) = length log)) \<and>
     (\<forall>m. sw_max_uses d = Some m \<longrightarrow> length log \<le> unat m) \<and>
     (\<forall>(h, e) \<in> set log. same_grant d e \<and> (\<forall>x. sw_expires_at d = Some x \<longrightarrow> h \<le> x))"

lemma enliven_inv:
  assumes "swiss_inv swiss d T gone log" "enliven swiss h T = (Inr e, T')"
  shows "swiss_inv swiss d T' gone ((h, e) # log)"
proof -
  obtain f where f: "swiss_check T swiss h = Inr f" "e = f\<lparr>sw_use_count := sw_use_count f + 1\<rparr>"
    "T' = T\<lparr>sb_entries := AList.update swiss e (sb_entries T)\<rparr>"
    using assms(2) by (auto simp: enliven_def Let_def split: sum.splits)
  have live: "\<not> gone" "same_grant d f" "sw_max_uses d \<noteq> None \<longrightarrow> unat (sw_use_count f) = length log"
    using assms(1) f(1) by (auto simp: swiss_inv_def swiss_check_Inr split: if_splits)
  have used: "unat (sw_use_count f + 1) = Suc (length log) \<and> Suc (length log) \<le> unat m" if "sw_max_uses d = Some m" for m
  proof -
    have "sw_use_count f < m" using f(1) live(2) that by (simp add: swiss_check_Inr same_grant_def)
    then show ?thesis using live(3) that
      using unsigned_less [of m, where 'a = nat] by (simp add: word_less_nat_alt unat_word_ariths)
  qed
  have "same_grant d e" using live(2) f(2) by (simp add: same_grant_def)
  moreover have "h \<le> x" if "sw_expires_at d = Some x" for x
    using f(1) live(2) that by (simp add: swiss_check_Inr same_grant_def)
  ultimately show ?thesis
    using assms(1) live f(2,3) used by (auto simp: swiss_inv_def update_conv')
qed

lemma swiss_run_inv:
  assumes "swiss_run swiss d T gone log"
  shows "swiss_inv swiss d T gone log"
  using assms
proof (induction rule: swiss_run.induct)
  case (exported c p h x a m T T')
  then show ?case by (auto simp: swiss_inv_def swiss_peek_def export_with_options_def update_conv')
next
  case (enlivened T gone log h e T')
  then show ?case by (intro enliven_inv)
next
  case (failed T gone log h err T')
  then have "T' = T" by (auto simp: enliven_def Let_def split: sum.splits)
  then show ?case using failed.IH by simp
qed (auto simp: swiss_inv_def export_with_options_def swiss_revoke_def register_handoff_nonce_def update_conv'
    delete_conv' split: if_splits)

text \<open>C10. A sturdy reference gives what was exported and no more. From its export on, whatever else happens to
  the table, a swiss number is enlivened at most \<open>max_uses\<close> times, never after its expiry height, and every
  time with the cell, permissions and effect mask it was exported with; while it is not revoked an attempt
  in time with a use left succeeds, and after \<open>revoke\<close> every attempt fails with \<open>NotFound\<close>.\<close>

theorem sturdy_ref_bounded:
  assumes "swiss_run swiss d T gone log"
  shows "(\<forall>m. sw_max_uses d = Some m \<longrightarrow> length log \<le> unat m) \<and>
    (\<forall>(h, e) \<in> set log. same_grant d e \<and> (\<forall>x. sw_expires_at d = Some x \<longrightarrow> h \<le> x)) \<and>
    (if gone then fst (enliven swiss height T) = Inl EnNotFound
     else isl (fst (enliven swiss height T)) \<longleftrightarrow>
       (\<exists>x. sw_expires_at d = Some x \<and> x < height) \<or> (\<exists>m. sw_max_uses d = Some m \<and> unat m \<le> length log))"
proof -
  note inv = swiss_run_inv [OF assms]
  have "isl (fst (enliven swiss height T)) \<longleftrightarrow>
      (\<exists>x. sw_expires_at d = Some x \<and> x < height) \<or> (\<exists>m. sw_max_uses d = Some m \<and> unat m \<le> length log)" if live: "\<not> gone"
  proof -
    obtain e where e: "map_of (sb_entries T) swiss = Some e" "same_grant d e"
      "sw_max_uses d \<noteq> None \<longrightarrow> unat (sw_use_count e) = length log"
      using inv live by (auto simp: swiss_inv_def)
    have "isl (fst (enliven swiss height T)) \<longleftrightarrow> isl (swiss_check T swiss height)"
      by (simp add: enliven_def Let_def split: sum.split)
    also have "\<dots> \<longleftrightarrow> \<not> (case sw_expires_at e of Some x \<Rightarrow> height \<le> x | None \<Rightarrow> True) \<or>
        \<not> (case sw_max_uses e of Some m \<Rightarrow> sw_use_count e < m | None \<Rightarrow> True)"
      using e(1) by (simp add: swiss_check_def and_then_def ok_or_def ensure_def)
    finally show ?thesis
      using e(2,3) by (auto simp: same_grant_def word_less_nat_alt word_le_nat_alt not_le not_less split: option.splits)
  qed
  then show ?thesis
    using inv by (auto simp: swiss_inv_def enliven_def swiss_check_def and_then_def ok_or_def split: if_splits)
qed

text \<open>A single-use number exported at height 5 and good until height 10: enlivened once, then used up.\<close>

theorem sturdy_ref_bounded_witness:
  "let T = snd (enliven 7 6 (snd (export_with_options 7 1 Signature 5 (Some 10) None (Some 1) swiss_table_new)))
   in isl (fst (enliven 7 8 T)) \<and> fst (enliven 7 8 (snd (swiss_revoke 7 T))) = Inl EnNotFound"
proof -
  define d where "d = \<lparr>sw_cell_id = 1, sw_permissions = Signature, sw_allowed_effects = None, sw_expires_at = Some 10,
    sw_created_at = 5, sw_max_uses = Some 1, sw_use_count = 0\<rparr>"
  define T0 where "T0 = snd (export_with_options 7 1 Signature 5 (Some 10) None (Some 1) swiss_table_new)"
  define T where "T = snd (enliven 7 6 T0)"
  have run0: "swiss_run 7 d T0 False []"
    by (rule swiss_run.exported [where T = swiss_table_new])
      (auto simp: T0_def d_def export_with_options_def swiss_peek_def swiss_table_new_def)
  have "enliven 7 6 T0 = (Inr (d\<lparr>sw_use_count := 1\<rparr>), T)"
    by (simp add: T_def T0_def d_def enliven_def export_with_options_def swiss_check_def swiss_table_new_def and_then_def
        ok_or_def ensure_def Let_def)
  then have run: "swiss_run 7 d T False [(6, d\<lparr>sw_use_count := 1\<rparr>)]" by (rule swiss_run.enlivened [OF run0])
  have "isl (fst (enliven 7 8 T))" using sturdy_ref_bounded [OF run, of 8] by (simp add: d_def)
  moreover have "fst (enliven 7 8 (snd (swiss_revoke 7 T))) = Inl EnNotFound"
    using sturdy_ref_bounded [OF swiss_run.revoked [OF run], of 8] by simp
  ultimately show ?thesis by (simp add: T_def T0_def)
qed

section \<open>Promises of a session\<close>

text \<open>A promise is settled once: after a fulfilment or a break, every further one is refused and leaves the session.\<close>

lemma promise_settles_once:
  assumes "settle_promise k v S = (True, S')" "v \<noteq> PsPending"
  shows "settle_promise k w S' = (False, S') \<and> map_of (cp_promises S') k = Some v"
  using assms by (auto simp: settle_promise_def update_conv' split: if_splits)

end
