(* ===== verification/CapPipeline.thy ===== *)
theory CapPipeline
  imports CapGc "HOL-Library.Finite_Map" "HOL-Library.Sublist"
begin

text \<open>
  Promise pipelining between federations (\<open>captp/src/pipeline.rs\<close>): the registry that queues messages for
  unresolved promises, delivers them on resolution and cascades a break, and the bridge that keeps one
  registry per peer beside the local one. The registries of the peers are an association list, so that the
  order in which they are visited is explicit. The order the registered gate dictates for a drain is an
  argument: \<open>None\<close> where there is no gate, no answer or no well-formed one.
\<close>

section \<open>Messages and promises\<close>

record pipelined_action =
  pa_method :: string
  pa_args :: "u8 list"
  pa_authorization :: "u8 list"

record pipelined_message =
  pm_target_promise_id :: u64
  pm_action :: pipelined_action
  pm_result_promise_id :: "u64 option"
  pm_sender :: peer_federation

datatype pipeline_promise_state =
    PpPending
  | PpFulfilled cell_id
  | PpBroken string

record broken_promise_notification =
  bn_promise_id :: u64
  bn_reason :: string
  bn_notify_federation :: peer_federation

datatype pipe_error =
    PromiseNotFound u64
  | PromiseAlreadyBroken u64 string
  | EmptyChain

record pipeline_registry =
  pq_queued :: "(u64, pipelined_message list) fmap"
  pq_promises :: "(u64, pipeline_promise_state) fmap"
  pq_next_id :: u64

type_synonym drain_gate = "nat \<Rightarrow> bool \<Rightarrow> nat list option"

section \<open>Draining\<close>

text \<open>The messages in the order of the indices, each slot taken once.\<close>

fun take_slots :: "nat list \<Rightarrow> 'm option list \<Rightarrow> 'm list" where
  "take_slots [] slots = []"
| "take_slots (i # order) slots =
     (case slots ! i of
        Some m \<Rightarrow> m # take_slots order (slots[i := None])
      | None \<Rightarrow> take_slots order slots)"

definition verified_drain_reorder :: "drain_gate \<Rightarrow> 'm list \<Rightarrow> bool \<Rightarrow> 'm list" where
  "verified_drain_reorder gate drained fulfill =
     (case gate (length drained) fulfill of
        None \<Rightarrow> drained
      | Some order \<Rightarrow>
          if list_ex (\<lambda>i. length drained \<le> i) order then drained
          else take_slots order (map Some drained))"

section \<open>The registry\<close>

definition pipeline_registry_new :: pipeline_registry where
  "pipeline_registry_new = \<lparr>pq_queued = fmempty, pq_promises = fmempty, pq_next_id = 0\<rparr>"

definition create_promise :: "pipeline_registry \<Rightarrow> u64 \<times> pipeline_registry" where
  "create_promise R =
     (let k = pq_next_id R in
      (k, R\<lparr>pq_next_id := k + 1, pq_promises := fmupd k PpPending (pq_promises R), pq_queued := fmupd k [] (pq_queued R)\<rparr>))"

definition queue_of :: "pipeline_registry \<Rightarrow> u64 \<Rightarrow> pipelined_message list" where
  "queue_of R k = (case fmlookup (pq_queued R) k of Some q \<Rightarrow> q | None \<Rightarrow> [])"

definition enqueue :: "pipelined_message \<Rightarrow> pipeline_registry \<Rightarrow> pipeline_registry" where
  "enqueue msg R =
     R\<lparr>pq_queued := fmupd (pm_target_promise_id msg) (queue_of R (pm_target_promise_id msg) @ [msg]) (pq_queued R)\<rparr>"

definition pipeline_message :: "pipelined_message \<Rightarrow> pipeline_registry \<Rightarrow> (pipe_error + unit) \<times> pipeline_registry" where
  "pipeline_message msg R =
     (let target = pm_target_promise_id msg in
      case fmlookup (pq_promises R) target of
        None \<Rightarrow> (Inl (PromiseNotFound target), R)
      | Some (PpBroken reason) \<Rightarrow> (Inl (PromiseAlreadyBroken target reason), R)
      | Some (PpFulfilled _) \<Rightarrow> (Inr (), enqueue msg R)
      | Some PpPending \<Rightarrow> (Inr (), enqueue msg R))"

text \<open>The state is overwritten if the promise is known; the queue goes either way.\<close>

definition set_promise :: "u64 \<Rightarrow> pipeline_promise_state \<Rightarrow> pipeline_registry \<Rightarrow> pipeline_registry" where
  "set_promise k v R =
     (if fmlookup (pq_promises R) k = None then R else R\<lparr>pq_promises := fmupd k v (pq_promises R)\<rparr>)"

definition settle :: "u64 \<Rightarrow> pipeline_promise_state \<Rightarrow> pipeline_registry \<Rightarrow> pipelined_message list \<times> pipeline_registry" where
  "settle k v R =
     (let R = set_promise k v R in (queue_of R k, R\<lparr>pq_queued := fmdrop k (pq_queued R)\<rparr>))"

definition resolve_promise ::
  "drain_gate \<Rightarrow> u64 \<Rightarrow> cell_id \<Rightarrow> pipeline_registry \<Rightarrow> pipelined_message list \<times> pipeline_registry" where
  "resolve_promise gate k c R =
     (let (drained, R) = settle k (PpFulfilled c) R in (verified_drain_reorder gate drained True, R))"

fun decimal :: "nat \<Rightarrow> string" where
  "decimal n = (if n < 10 then [char_of (48 + n)] else decimal (n div 10) @ [char_of (48 + n mod 10)])"

declare decimal.simps [simp del]

definition cascade_reason :: "u64 \<Rightarrow> string \<Rightarrow> string" where
  "cascade_reason k reason = ''upstream promise '' @ decimal (unat k) @ '' broken: '' @ reason"

lemma settle_simps [simp]:
  "fst (settle k v R) = queue_of R k"
  "pq_queued (snd (settle k v R)) = fmdrop k (pq_queued R)"
  "pq_promises (snd (settle k v R)) =
     (if fmlookup (pq_promises R) k = None then pq_promises R else fmupd k v (pq_promises R))"
  by (simp_all add: settle_def set_promise_def Let_def queue_of_def)

abbreviation queues :: "pipeline_registry \<Rightarrow> nat" where
  "queues R \<equiv> fcard (fmdom (pq_queued R))"

lemma settle_measure: "queues (snd (settle k v R)) < queues R \<or> queues (snd (settle k v R)) = queues R \<and> fst (settle k v R) = []"
proof (cases "fmlookup (pq_queued R) k")
  case None
  then have "fmdrop k (pq_queued R) = pq_queued R" by (simp add: fmdrop_idle fmdom_notI)
  then show ?thesis by (simp add: queue_of_def None)
next
  case (Some q)
  then have "k |\<in>| fmdom (pq_queued R)" by (rule fmdomI)
  then show ?thesis unfolding settle_simps fmdom_drop by (intro disjI1 fcard_fminus1_less)
qed

lemma settle_queues: "queues (snd (settle k v R)) \<le> queues R"
  using settle_measure [of k v R] by linarith

text \<open>The loop of \<open>break_promise\<close> over the messages of a promise, with the recursive call inside.\<close>

function break_messages ::
  "u64 \<Rightarrow> string \<Rightarrow> pipelined_message list \<Rightarrow> pipeline_registry \<Rightarrow> broken_promise_notification list \<times> pipeline_registry" where
  "break_messages k reason [] R = ([], R)"
| "break_messages k reason (msg # msgs) R =
     (case pm_result_promise_id msg of
        None \<Rightarrow> break_messages k reason msgs R
      | Some r \<Rightarrow>
          let why = cascade_reason k reason;
              note = \<lparr>bn_promise_id = r, bn_reason = why, bn_notify_federation = pm_sender msg\<rparr>;
              (inner, R1) =
                (if fmlookup (pq_promises R) r \<noteq> None
                 then break_messages r why (fst (settle r (PpBroken why) R)) (snd (settle r (PpBroken why) R))
                 else ([], R));
              (rest, R2) = break_messages k reason msgs R1
          in (note # inner @ rest, R2))"
  by pat_completeness auto

termination
proof (relation "measures [\<lambda>(_, _, _, R). queues R, \<lambda>(_, _, msgs, _). length msgs]")
  have shrinks: "queues (snd (break_messages k reason msgs R)) \<le> queues R" if "break_messages_dom (k, reason, msgs, R)"
    for k reason msgs R
    using that
  proof (induction rule: break_messages.pinduct)
    case (2 k reason msg msgs R)
    show ?case
    proof (cases "pm_result_promise_id msg")
      case None
      then show ?thesis using 2 by (simp add: break_messages.psimps)
    next
      case (Some r)
      let ?why = "cascade_reason k reason"
      let ?set = "settle r (PpBroken ?why) R"
      let ?in = "if fmlookup (pq_promises R) r \<noteq> None then break_messages r ?why (fst ?set) (snd ?set) else ([], R)"
      have "queues (snd ?in) \<le> queues R"
        using 2(3) [OF Some refl refl] settle_queues [of r "PpBroken ?why" R] by auto
      moreover have "queues (snd (break_messages k reason msgs (snd ?in))) \<le> queues (snd ?in)"
        using 2(4) [OF Some refl refl refl prod.collapse] by simp
      ultimately show ?thesis
        using 2(1) by (simp add: break_messages.psimps Some Let_def prod.case_eq_if)
    qed
  qed (simp add: break_messages.psimps)
  fix k reason msg msgs R r why notice
  show "((r, why, fst (settle r (PpBroken why) R), snd (settle r (PpBroken why) R)), k, reason, msg # msgs, R)
      \<in> measures [\<lambda>(_, _, _, R). queues R, \<lambda>(_, _, msgs, _). length msgs]"
    using settle_measure [of r "PpBroken why" R] by auto
  fix q inner R1
  assume sub: "q = (if fmlookup (pq_promises R) r \<noteq> None
      then break_messages r why (fst (settle r (PpBroken why) R)) (snd (settle r (PpBroken why) R)) else ([], R))"
    "(inner, R1) = q"
    and d: "fmlookup (pq_promises R) r \<noteq> None \<Longrightarrow>
      break_messages_dom (r, why, fst (settle r (PpBroken why) R), snd (settle r (PpBroken why) R))"
  have "queues R1 \<le> queues R"
    using shrinks [OF d] sub settle_queues [of r "PpBroken why" R] by (auto simp: prod_eq_iff split: if_splits)
  then show "((k, reason, msgs, R1), k, reason, msg # msgs, R)
      \<in> measures [\<lambda>(_, _, _, R). queues R, \<lambda>(_, _, msgs, _). length msgs]"
    by auto
qed auto

definition break_promise :: "u64 \<Rightarrow> string \<Rightarrow> pipeline_registry \<Rightarrow> broken_promise_notification list \<times> pipeline_registry" where
  "break_promise k reason R =
     (let (messages, R) = settle k (PpBroken reason) R in break_messages k reason messages R)"

text \<open>One step of a chain: a promise for its result, and the message to the current target.\<close>

fun chain_steps :: "peer_federation \<Rightarrow> pipelined_action list \<Rightarrow> u64 \<Rightarrow> pipeline_registry \<Rightarrow> u64 \<times> pipeline_registry" where
  "chain_steps sender [] target R = (target, R)"
| "chain_steps sender (action # steps) target R =
     (let (result, R) = create_promise R;
          (_, R) = pipeline_message \<lparr>pm_target_promise_id = target, pm_action = action,
                     pm_result_promise_id = Some result, pm_sender = sender\<rparr> R
      in chain_steps sender steps result R)"

definition pipeline_chain ::
  "u64 \<Rightarrow> pipelined_action list \<Rightarrow> peer_federation \<Rightarrow> pipeline_registry \<Rightarrow> (pipe_error + u64) \<times> pipeline_registry" where
  "pipeline_chain initial steps sender R =
     (if steps = [] then (Inl EmptyChain, R)
      else case fmlookup (pq_promises R) initial of
        None \<Rightarrow> (Inl (PromiseNotFound initial), R)
      | Some (PpBroken reason) \<Rightarrow> (Inl (PromiseAlreadyBroken initial reason), R)
      | Some _ \<Rightarrow> (let (final, R) = chain_steps sender steps initial R in (Inr final, R)))"

definition queued_count :: "pipeline_registry \<Rightarrow> u64 \<Rightarrow> nat" where
  "queued_count R k = (case fmlookup (pq_queued R) k of None \<Rightarrow> 0 | Some q \<Rightarrow> length q)"

definition promise_count :: "pipeline_registry \<Rightarrow> nat" where
  "promise_count R = fcard (fmdom (pq_promises R))"

section \<open>The bridge between federations\<close>

datatype pipeline_result_value =
    ResultSuccess cell_id bytes32
  | ResultFailure string

datatype pipeline_wire_message =
    PipelineToPromise u64 pipelined_action "u64 option" peer_federation
  | PromiseResolved u64 cell_id
  | PromiseBroken u64 string
  | PipelineResult u64 pipeline_result_value

record pipeline_bridge =
  br_peers :: "(peer_federation \<times> pipeline_registry) list"
  br_local :: pipeline_registry
  br_outbox :: "(peer_federation \<times> pipeline_wire_message) list"
  br_local_federation :: "peer_federation option"

definition bridge_new :: pipeline_bridge where
  "bridge_new = \<lparr>br_peers = [], br_local = pipeline_registry_new, br_outbox = [], br_local_federation = None\<rparr>"

definition with_local_federation :: "peer_federation \<Rightarrow> pipeline_bridge" where
  "with_local_federation fed = bridge_new\<lparr>br_local_federation := Some fed\<rparr>"

definition set_local_federation :: "peer_federation \<Rightarrow> pipeline_bridge \<Rightarrow> pipeline_bridge" where
  "set_local_federation fed B = B\<lparr>br_local_federation := Some fed\<rparr>"

definition outbound_sender :: "pipeline_bridge \<Rightarrow> peer_federation" where
  "outbound_sender B = (case br_local_federation B of Some fed \<Rightarrow> fed | None \<Rightarrow> 0)"

definition pipeline_to_remote ::
  "peer_federation \<Rightarrow> u64 \<Rightarrow> pipelined_action \<Rightarrow> pipeline_bridge \<Rightarrow> u64 \<times> pipeline_bridge" where
  "pipeline_to_remote target promise action B =
     (let (result, L) = create_promise (br_local B) in
      (result, B\<lparr>br_local := L,
         br_outbox := br_outbox B @ [(target, PipelineToPromise promise action (Some result) (outbound_sender B))]\<rparr>))"

fun chain_to_remote ::
  "peer_federation \<Rightarrow> pipelined_action list \<Rightarrow> u64 \<Rightarrow> u64 \<Rightarrow> pipeline_bridge \<Rightarrow> u64 \<times> pipeline_bridge" where
  "chain_to_remote target [] promise final B = (final, B)"
| "chain_to_remote target (action # steps) promise final B =
     (let (result, B) = pipeline_to_remote target promise action B
      in chain_to_remote target steps result result B)"

definition pipeline_chain_to_remote ::
  "peer_federation \<Rightarrow> u64 \<Rightarrow> pipelined_action list \<Rightarrow> pipeline_bridge \<Rightarrow> (pipe_error + u64) \<times> pipeline_bridge" where
  "pipeline_chain_to_remote target initial steps B =
     (if steps = [] then (Inl EmptyChain, B)
      else let (final, B) = chain_to_remote target steps initial 0 B in (Inr final, B))"

text \<open>The sender of a resolution, of a breakage or of a result is not looked at.\<close>

definition on_remote_resolution ::
  "drain_gate \<Rightarrow> peer_federation \<Rightarrow> u64 \<Rightarrow> cell_id \<Rightarrow> pipeline_bridge \<Rightarrow> pipelined_message list \<times> pipeline_bridge" where
  "on_remote_resolution gate from_fed k c B =
     (let (ms, L) = resolve_promise gate k c (br_local B) in (ms, B\<lparr>br_local := L\<rparr>))"

definition on_remote_breakage ::
  "peer_federation \<Rightarrow> u64 \<Rightarrow> string \<Rightarrow> pipeline_bridge \<Rightarrow> broken_promise_notification list \<times> pipeline_bridge" where
  "on_remote_breakage from_fed k reason B =
     (let (ns, L) = break_promise k reason (br_local B) in (ns, B\<lparr>br_local := L\<rparr>))"

definition peer_registry :: "pipeline_bridge \<Rightarrow> peer_federation \<Rightarrow> pipeline_registry" where
  "peer_registry B fed = (case map_of (br_peers B) fed of Some R \<Rightarrow> R | None \<Rightarrow> pipeline_registry_new)"

definition ensure_promise :: "u64 \<Rightarrow> pipeline_registry \<Rightarrow> pipeline_registry" where
  "ensure_promise k R =
     (if fmlookup (pq_promises R) k = None
      then R\<lparr>pq_promises := fmupd k PpPending (pq_promises R), pq_queued := fmupd k [] (pq_queued R)\<rparr> else R)"

definition on_pipeline_message ::
  "peer_federation \<Rightarrow> u64 \<Rightarrow> pipelined_action \<Rightarrow> u64 option \<Rightarrow> pipeline_bridge \<Rightarrow> (pipe_error + unit) \<times> pipeline_bridge" where
  "on_pipeline_message from_fed k action result B =
     (let R = peer_registry B from_fed;
          B = B\<lparr>br_peers := AList.update from_fed R (br_peers B)\<rparr>;
          msg = \<lparr>pm_target_promise_id = k, pm_action = action, pm_result_promise_id = result, pm_sender = from_fed\<rparr>
      in if fmlookup (pq_promises (br_local B)) k \<noteq> None
         then let (r, L) = pipeline_message msg (br_local B) in (r, B\<lparr>br_local := L\<rparr>)
         else let (r, R) = pipeline_message msg (ensure_promise k R)
              in (r, B\<lparr>br_peers := AList.update from_fed R (br_peers B)\<rparr>))"

definition on_pipeline_result ::
  "drain_gate \<Rightarrow> peer_federation \<Rightarrow> u64 \<Rightarrow> pipeline_result_value \<Rightarrow> pipeline_bridge \<Rightarrow> pipelined_message list \<times> pipeline_bridge" where
  "on_pipeline_result gate from_fed k result B =
     (case result of
        ResultSuccess c _ \<Rightarrow> (let (ms, L) = resolve_promise gate k c (br_local B) in (ms, B\<lparr>br_local := L\<rparr>))
      | ResultFailure err \<Rightarrow> (let (_, L) = break_promise k err (br_local B) in ([], B\<lparr>br_local := L\<rparr>)))"

text \<open>The loop over the registries of the peers, in the order of the list.\<close>

fun on_peers ::
  "u64 \<Rightarrow> (pipeline_registry \<Rightarrow> 'o list \<times> pipeline_registry) \<Rightarrow> (peer_federation \<times> pipeline_registry) list \<Rightarrow>
     'o list \<times> (peer_federation \<times> pipeline_registry) list" where
  "on_peers k f [] = ([], [])"
| "on_peers k f ((fed, R) # ps) =
     (let (os, R) = (if fmlookup (pq_promises R) k \<noteq> None then f R else ([], R));
          (rest, ps) = on_peers k f ps
      in (os @ rest, (fed, R) # ps))"

definition resolve_local_promise ::
  "drain_gate \<Rightarrow> u64 \<Rightarrow> cell_id \<Rightarrow> pipeline_bridge \<Rightarrow> pipelined_message list \<times> pipeline_bridge" where
  "resolve_local_promise gate k c B =
     (let (ms, ps) = on_peers k (resolve_promise gate k c) (br_peers B);
          (own, L) = resolve_promise gate k c (br_local B)
      in (ms @ own, B\<lparr>br_peers := ps, br_local := L\<rparr>))"

definition break_local_promise ::
  "u64 \<Rightarrow> string \<Rightarrow> pipeline_bridge \<Rightarrow> broken_promise_notification list \<times> pipeline_bridge" where
  "break_local_promise k reason B =
     (let (ns, ps) = on_peers k (break_promise k reason) (br_peers B);
          (own, L) = break_promise k reason (br_local B)
      in (ns @ own, B\<lparr>br_peers := ps, br_local := L\<rparr>))"

definition drain_outbox :: "pipeline_bridge \<Rightarrow> (peer_federation \<times> pipeline_wire_message) list \<times> pipeline_bridge" where
  "drain_outbox B = (br_outbox B, B\<lparr>br_outbox := []\<rparr>)"

section \<open>Every message is delivered or answered once\<close>

definition queue_at :: "(u64, pipelined_message list) fmap \<Rightarrow> u64 \<Rightarrow> pipelined_message list" where
  "queue_at m k = (case fmlookup m k of Some q \<Rightarrow> q | None \<Rightarrow> [])"

definition waiting :: "(u64, pipelined_message list) fmap \<Rightarrow> pipelined_message multiset" where
  "waiting m = (\<Sum>k \<in> fset (fmdom m). mset (queue_at m k))"

definition answers :: "pipelined_message multiset \<Rightarrow> (u64 \<times> peer_federation) multiset" where
  "answers M = image_mset (\<lambda>m. (the (pm_result_promise_id m), pm_sender m)) (filter_mset (\<lambda>m. pm_result_promise_id m \<noteq> None) M)"

definition notices :: "broken_promise_notification list \<Rightarrow> (u64 \<times> peer_federation) multiset" where
  "notices ns = mset (map (\<lambda>n. (bn_promise_id n, bn_notify_federation n)) ns)"

lemma queue_of_at: "queue_of R k = queue_at (pq_queued R) k"
  by (simp add: queue_of_def queue_at_def)

lemma queue_at_simps [simp]:
  "queue_at (fmupd k q m) k' = (if k' = k then q else queue_at m k')"
  "queue_at (fmdrop k m) k' = (if k' = k then [] else queue_at m k')"
  "queue_at fmempty k' = []"
  by (simp_all add: queue_at_def)

lemma waiting_empty [simp]: "waiting fmempty = {#}"
  by (simp add: waiting_def)

lemma waiting_split: "waiting m = mset (queue_at m k) + waiting (fmdrop k m)"
proof (cases "k |\<in>| fmdom m")
  case True
  then have "waiting m = mset (queue_at m k) + (\<Sum>i \<in> fset (fmdom m) - {k}. mset (queue_at m i))"
    unfolding waiting_def by (simp add: sum.remove)
  also have "(\<Sum>i \<in> fset (fmdom m) - {k}. mset (queue_at m i)) = waiting (fmdrop k m)"
    unfolding waiting_def by (intro sum.cong) auto
  finally show ?thesis .
next
  case False
  then show ?thesis by (simp add: fmdrop_idle queue_at_def fmdom_notD)
qed

lemma waiting_upd: "waiting (fmupd k q m) = mset q + waiting (fmdrop k m)"
proof -
  have "fmdrop k (fmupd k q m) = fmdrop k m" by (rule fmap_ext) simp
  then show ?thesis using waiting_split [of "fmupd k q m" k] by simp
qed

lemma answers_simps [simp]:
  "answers {#} = {#}" "answers (M + N) = answers M + answers N"
  "answers (add_mset m M) = (case pm_result_promise_id m of None \<Rightarrow> answers M | Some r \<Rightarrow> add_mset (r, pm_sender m) (answers M))"
  by (auto simp: answers_def split: option.split)

lemma notices_simps [simp]:
  "notices [] = {#}" "notices (n # ns) = add_mset (bn_promise_id n, bn_notify_federation n) (notices ns)"
  "notices (ns @ ns') = notices ns + notices ns'"
  by (simp_all add: notices_def)

lemma settle_waiting: "waiting (pq_queued R) = mset (fst (settle k v R)) + waiting (pq_queued (snd (settle k v R)))"
  using waiting_split [of "pq_queued R" k] by (simp add: queue_of_at)

text \<open>A break answers the messages it was given and those it takes from the queues.\<close>

lemma break_messages_lost:
  "\<exists>lost. waiting (pq_queued R) = lost + waiting (pq_queued (snd (break_messages k reason msgs R))) \<and>
     notices (fst (break_messages k reason msgs R)) = answers (mset msgs + lost)"
proof (induction k reason msgs R rule: break_messages.induct)
  case (2 k reason msg msgs R)
  show ?case
  proof (cases "pm_result_promise_id msg")
    case None
    then show ?thesis using 2(1) by auto
  next
    case (Some r)
    let ?why = "cascade_reason k reason"
    let ?set = "settle r (PpBroken ?why) R"
    let ?in = "if fmlookup (pq_promises R) r \<noteq> None then break_messages r ?why (fst ?set) (snd ?set) else ([], R)"
    obtain lost1 where one: "waiting (pq_queued R) = lost1 + waiting (pq_queued (snd ?in))" "notices (fst ?in) = answers lost1"
    proof (cases "fmlookup (pq_promises R) r = None")
      case False
      obtain l where "waiting (pq_queued (snd ?set)) = l + waiting (pq_queued (snd ?in))" "notices (fst ?in) = answers (mset (fst ?set) + l)"
        using 2(2) [OF Some refl refl] False by auto
      then show ?thesis using that [of "mset (fst ?set) + l"] settle_waiting [of R r "PpBroken ?why"] by (simp add: add.assoc)
    qed (use that [of "{#}"] in simp)
    obtain lost2 where two: "waiting (pq_queued (snd ?in)) = lost2 + waiting (pq_queued (snd (break_messages k reason msgs (snd ?in))))"
      "notices (fst (break_messages k reason msgs (snd ?in))) = answers (mset msgs + lost2)"
      using 2(3) [OF Some refl refl refl prod.collapse] by blast
    show ?thesis
      by (rule exI [of _ "lost1 + lost2"]) (use one two Some in \<open>simp add: Let_def case_prod_beta add.assoc union_ac\<close>)
  qed
qed simp

lemma break_lost:
  "\<exists>lost. waiting (pq_queued R) = lost + waiting (pq_queued (snd (break_promise k reason R))) \<and>
     notices (fst (break_promise k reason R)) = answers lost"
proof -
  let ?set = "settle k (PpBroken reason) R"
  obtain l where "waiting (pq_queued (snd ?set)) = l + waiting (pq_queued (snd (break_promise k reason R)))"
    "notices (fst (break_promise k reason R)) = answers (mset (fst ?set) + l)"
    using break_messages_lost [of "snd ?set" k reason "fst ?set"] by (auto simp: break_promise_def case_prod_beta)
  then show ?thesis using settle_waiting [of R k "PpBroken reason"] by (intro exI [of _ "mset (fst ?set) + l"]) (simp add: add.assoc)
qed

definition gate_fifo :: "drain_gate \<Rightarrow> bool" where
  "gate_fifo gate \<longleftrightarrow> (\<forall>n. gate n True = None \<or> gate n True = Some [0..<n])"

lemma take_slots_rest:
  "take_slots [length xs..<length xs + length ys] (map (\<lambda>_ :: 'a. None) xs @ map Some (ys :: 'a list)) = ys"
proof (induction ys arbitrary: xs)
  case (Cons y ys)
  have "[length xs..<length xs + length (y # ys)] = length xs # [length (xs @ [y])..<length (xs @ [y]) + length ys]"
    by (subst upt_conv_Cons) simp_all
  then show ?case using Cons [of "xs @ [y]"] by (simp add: nth_append list_update_append)
qed simp

lemma fifo_drain: "gate_fifo gate \<Longrightarrow> verified_drain_reorder gate ms True = ms"
  using take_slots_rest [of "[]" ms]
  by (auto simp: verified_drain_reorder_def gate_fifo_def list_ex_iff split: option.split)
    (metis option.distinct(1) option.inject)

text \<open>The life of a registry, with the messages it accepted, the messages it handed out for delivery and the
  notifications of broken promises. A promise id is not used twice: there are fewer than \<open>2 ^ 64\<close>.\<close>

inductive pipeline_run ::
  "drain_gate \<Rightarrow> pipeline_registry \<Rightarrow> pipelined_message list \<Rightarrow> pipelined_message list \<Rightarrow> broken_promise_notification list \<Rightarrow> bool"
  for gate where
  started: "pipeline_run gate pipeline_registry_new [] [] []"
| created: "pipeline_run gate R accepted out ns \<Longrightarrow> unat (pq_next_id R) < 2 ^ 64 - 1 \<Longrightarrow>
    pipeline_run gate (snd (create_promise R)) accepted out ns"
| accepted: "pipeline_run gate R accepted out ns \<Longrightarrow> pipeline_message msg R = (Inr (), R') \<Longrightarrow>
    pipeline_run gate R' (accepted @ [msg]) out ns"
| refused: "pipeline_run gate R accepted out ns \<Longrightarrow> pipeline_message msg R = (Inl err, R') \<Longrightarrow>
    pipeline_run gate R' accepted out ns"
| resolved: "pipeline_run gate R accepted out ns \<Longrightarrow> resolve_promise gate k c R = (ms, R') \<Longrightarrow>
    pipeline_run gate R' accepted (out @ ms) ns"
| broken: "pipeline_run gate R accepted out ns \<Longrightarrow> break_promise k reason R = (ns', R') \<Longrightarrow>
    pipeline_run gate R' accepted out (ns @ ns')"

definition registry_inv :: "pipeline_registry \<Rightarrow> pipelined_message list \<Rightarrow> pipelined_message list \<Rightarrow> broken_promise_notification list \<Rightarrow> bool" where
  "registry_inv R accepted out ns \<longleftrightarrow>
     (\<exists>lost. mset accepted = mset out + lost + waiting (pq_queued R) \<and> notices ns = answers lost) \<and>
     (\<forall>k. suffix (queue_of R k) (filter (\<lambda>m. pm_target_promise_id m = k) accepted)) \<and>
     (\<forall>k. k |\<in>| fmdom (pq_promises R) \<or> k |\<in>| fmdom (pq_queued R) \<longrightarrow> k < pq_next_id R)"

definition shrunk :: "pipeline_registry \<Rightarrow> pipeline_registry \<Rightarrow> bool" where
  "shrunk R R' \<longleftrightarrow> fmdom (pq_promises R') = fmdom (pq_promises R) \<and> fmdom (pq_queued R') |\<subseteq>| fmdom (pq_queued R) \<and>
     pq_next_id R' = pq_next_id R \<and> (\<forall>k. queue_of R' k = queue_of R k \<or> queue_of R' k = [])"

lemma shrunk_refl [simp]: "shrunk R R"
  by (simp add: shrunk_def)

lemma shrunk_trans: "shrunk R R' \<Longrightarrow> shrunk R' R'' \<Longrightarrow> shrunk R R''"
  unfolding shrunk_def by (metis (no_types, lifting) order.trans)

lemma settle_shrunk: "shrunk R (snd (settle k v R))"
proof -
  have "pq_next_id (snd (settle k v R)) = pq_next_id R" by (simp add: settle_def set_promise_def Let_def)
  then show ?thesis by (auto simp: shrunk_def queue_of_at fmdomI)
qed

lemma break_messages_shrunk: "shrunk R (snd (break_messages k reason msgs R))"
proof (induction k reason msgs R rule: break_messages.induct)
  case (2 k reason msg msgs R)
  show ?case
  proof (cases "pm_result_promise_id msg")
    case None
    then show ?thesis using 2(1) by simp
  next
    case (Some r)
    let ?why = "cascade_reason k reason"
    let ?set = "settle r (PpBroken ?why) R"
    let ?in = "if fmlookup (pq_promises R) r \<noteq> None then break_messages r ?why (fst ?set) (snd ?set) else ([], R)"
    have "shrunk R (snd ?in)"
      using 2(2) [OF Some refl refl] shrunk_trans [OF settle_shrunk [of R r "PpBroken ?why"]] by auto
    then have "shrunk R (snd (break_messages k reason msgs (snd ?in)))"
      using 2(3) [OF Some refl refl refl prod.collapse] by (rule shrunk_trans)
    then show ?thesis using Some by (simp add: Let_def case_prod_beta)
  qed
qed simp

lemma break_shrunk: "shrunk R (snd (break_promise k reason R))"
  using shrunk_trans [OF settle_shrunk break_messages_shrunk] by (simp add: break_promise_def case_prod_beta)

lemma shrunk_inv:
  assumes "registry_inv R accepted out ns" "shrunk R R'"
    and "waiting (pq_queued R) = mset ms + lost + waiting (pq_queued R')" "notices ns' = answers lost"
  shows "registry_inv R' accepted (out @ ms) (ns @ ns')"
proof -
  obtain l where "mset accepted = mset out + l + waiting (pq_queued R)" "notices ns = answers l"
    using assms(1) by (auto simp: registry_inv_def)
  then have "mset accepted = mset (out @ ms) + (l + lost) + waiting (pq_queued R') \<and> notices (ns @ ns') = answers (l + lost)"
    using assms(3,4) by (simp add: ac_simps)
  moreover have "suffix (queue_of R' k) (filter (\<lambda>m. pm_target_promise_id m = k) accepted)" for k
  proof -
    have "queue_of R' k = queue_of R k \<or> queue_of R' k = []" using assms(2) by (simp add: shrunk_def)
    then show ?thesis using assms(1) by (auto simp: registry_inv_def)
  qed
  moreover have "k < pq_next_id R'" if "k |\<in>| fmdom (pq_promises R') \<or> k |\<in>| fmdom (pq_queued R')" for k
    using assms(1,2) that by (auto simp: registry_inv_def shrunk_def)
  ultimately show ?thesis unfolding registry_inv_def by blast
qed

lemma accepted_inv:
  assumes "registry_inv R accepted out ns" "pipeline_message msg R = (Inr (), R')"
  shows "registry_inv R' (accepted @ [msg]) out ns"
proof -
  let ?k = "pm_target_promise_id msg"
  have R': "R' = enqueue msg R" and known: "?k |\<in>| fmdom (pq_promises R)"
    using assms(2) by (auto simp: pipeline_message_def Let_def fmdomI split: option.splits pipeline_promise_state.splits)
  obtain l where l: "mset accepted = mset out + l + waiting (pq_queued R)" "notices ns = answers l"
    using assms(1) by (auto simp: registry_inv_def)
  have "waiting (pq_queued R') = add_mset msg (waiting (pq_queued R))"
    using waiting_split [of "pq_queued R" ?k] by (simp add: R' enqueue_def waiting_upd queue_of_at)
  then have "mset (accepted @ [msg]) = mset out + l + waiting (pq_queued R')" using l(1) by simp
  moreover have "suffix (queue_of R' k) (filter (\<lambda>m. pm_target_promise_id m = k) (accepted @ [msg]))" for k
    using assms(1) by (auto simp: registry_inv_def R' enqueue_def queue_of_at)
  moreover have "k < pq_next_id R'" if "k |\<in>| fmdom (pq_promises R') \<or> k |\<in>| fmdom (pq_queued R')" for k
    using assms(1) that known by (auto simp: registry_inv_def R' enqueue_def)
  ultimately show ?thesis using l(2) unfolding registry_inv_def by blast
qed

lemma promise_created_inv:
  assumes "registry_inv R accepted out ns" "unat (pq_next_id R) < 2 ^ 64 - 1"
  shows "registry_inv (snd (create_promise R)) accepted out ns"
proof -
  let ?n = "pq_next_id R" and ?R = "snd (create_promise R)"
  have fresh: "?n |\<notin>| fmdom (pq_queued R)" using assms(1) by (auto simp: registry_inv_def)
  then have same: "queue_of ?R k = queue_of R k" for k
    by (simp add: create_promise_def Let_def queue_of_at) (simp add: queue_at_def fmdom_notD)
  have "waiting (pq_queued ?R) = waiting (pq_queued R)"
    using fresh by (simp add: create_promise_def Let_def waiting_upd fmdrop_idle)
  moreover have "?n < ?n + 1" using assms(2) unat_suc [of ?n] by (simp add: word_less_nat_alt)
  then have "k < pq_next_id ?R" if "k |\<in>| fmdom (pq_promises ?R) \<or> k |\<in>| fmdom (pq_queued ?R)" for k
    using assms(1) that less_trans [of k ?n "?n + 1"] by (auto simp: registry_inv_def create_promise_def Let_def)
  ultimately show ?thesis using assms(1) same unfolding registry_inv_def by metis
qed

lemma pipeline_run_inv:
  assumes "pipeline_run gate R accepted out ns" "gate_fifo gate"
  shows "registry_inv R accepted out ns"
  using assms(1)
proof (induction rule: pipeline_run.induct)
  case started
  then show ?case by (simp add: registry_inv_def pipeline_registry_new_def queue_of_at)
next
  case (created R accepted out ns)
  then show ?case by (intro promise_created_inv)
next
  case (accepted R accepted out ns msg R')
  then show ?case by (intro accepted_inv)
next
  case (refused R accepted out ns msg err R')
  then have "R' = R" by (auto simp: pipeline_message_def Let_def split: option.splits pipeline_promise_state.splits)
  then show ?case using refused.IH by simp
next
  case (resolved R accepted out ns k c ms R')
  then have "ms = fst (settle k (PpFulfilled c) R)" "R' = snd (settle k (PpFulfilled c) R)"
    using fifo_drain [OF assms(2)] by (auto simp: resolve_promise_def case_prod_beta)
  moreover from this have "shrunk R R'" using settle_shrunk by simp
  ultimately show ?case
    using shrunk_inv [OF resolved.IH, of R' ms "{#}" "[]"] settle_waiting [of R k "PpFulfilled c"] by simp
next
  case (broken R accepted out ns k reason ns' R')
  then have "shrunk R R'" using break_shrunk [of R k reason] by simp
  then show ?case
    using break_lost [of R k reason] shrunk_inv [OF broken.IH, of R' "[]" _ ns'] broken.hyps(2) by auto
qed

text \<open>C11. What becomes of pipelined messages. After any sequence of new promises, messages,
  resolutions and breaks, cyclic chains included, the messages that the registry accepted are those it
  handed out for delivery, those it lost in breaks and those that still wait, each counted as often as it
  was accepted; every lost message that asked for a result got exactly one notification, to its sender and
  for its result promise, and there are no others (a lost message that asked for none is dropped without
  one). A resolution hands out the whole queue of the promise,
  which are the last accepted messages for it in the order in which they came, and leaves none.\<close>

theorem pipelined_delivered_or_answered:
  assumes "pipeline_run gate R accepted out ns" "gate_fifo gate" "resolve_promise gate k c R = (ms, R')"
  shows "(\<exists>lost. mset accepted = mset out + lost + waiting (pq_queued R) \<and> notices ns = answers lost) \<and>
    suffix ms (filter (\<lambda>m. pm_target_promise_id m = k) accepted) \<and> queued_count R' k = 0 \<and>
    (\<forall>j. j \<noteq> k \<longrightarrow> queue_of R' j = queue_of R j)"
proof -
  have "ms = queue_of R k" "pq_queued R' = fmdrop k (pq_queued R)"
    using assms(3) fifo_drain [OF assms(2)] settle_simps [of k "PpFulfilled c" R] by (auto simp: resolve_promise_def case_prod_beta)
  then show ?thesis
    using pipeline_run_inv [OF assms(1,2)] by (simp add: registry_inv_def queue_of_at queued_count_def)
qed

definition demo_message :: "u64 \<Rightarrow> pipelined_message" where
  "demo_message r = \<lparr>pm_target_promise_id = 0, pm_action = \<lparr>pa_method = ''get'', pa_args = [], pa_authorization = []\<rparr>,
     pm_result_promise_id = Some r, pm_sender = 5\<rparr>"

definition demo_pipeline :: pipeline_registry where
  "demo_pipeline = snd (pipeline_message (demo_message 4) (snd (pipeline_message (demo_message 3)
     (snd (create_promise pipeline_registry_new)))))"

lemmas pipeline_eval = demo_pipeline_def demo_message_def pipeline_message_def create_promise_def pipeline_registry_new_def
  enqueue_def queue_of_def Let_def

lemma demo_pipeline_run: "pipeline_run (\<lambda>_ _. None) demo_pipeline [demo_message 3, demo_message 4] [] []"
proof -
  let ?R0 = "snd (create_promise pipeline_registry_new)"
  let ?R1 = "snd (pipeline_message (demo_message 3) ?R0)"
  have "pipeline_run (\<lambda>_ _. None) ?R0 [] [] []"
    by (intro pipeline_run.created pipeline_run.started) (simp add: pipeline_registry_new_def)
  moreover have "pipeline_message (demo_message 3) ?R0 = (Inr (), ?R1)" by (simp add: pipeline_eval)
  ultimately have "pipeline_run (\<lambda>_ _. None) ?R1 ([] @ [demo_message 3]) [] []" by (rule pipeline_run.accepted)
  moreover have "pipeline_message (demo_message 4) ?R1 = (Inr (), demo_pipeline)" by (simp add: pipeline_eval)
  ultimately have "pipeline_run (\<lambda>_ _. None) demo_pipeline (([] @ [demo_message 3]) @ [demo_message 4]) [] []"
    by (rule pipeline_run.accepted)
  then show ?thesis by simp
qed

text \<open>Two messages wait for promise 0; its resolution hands out both, in their order.\<close>

theorem pipelined_delivered_or_answered_witness:
  "resolve_promise (\<lambda>_ _. None) 0 7 demo_pipeline = ([demo_message 3, demo_message 4], snd (resolve_promise (\<lambda>_ _. None) 0 7 demo_pipeline)) \<and>
   suffix [demo_message 3, demo_message 4] [demo_message 3, demo_message 4] \<and>
   queued_count (snd (resolve_promise (\<lambda>_ _. None) 0 7 demo_pipeline)) 0 = 0"
proof -
  have step: "resolve_promise (\<lambda>_ _. None) 0 7 demo_pipeline =
      ([demo_message 3, demo_message 4], snd (resolve_promise (\<lambda>_ _. None) 0 7 demo_pipeline))"
    by (simp add: resolve_promise_def settle_def set_promise_def verified_drain_reorder_def pipeline_eval)
  show ?thesis
    using pipelined_delivered_or_answered [OF demo_pipeline_run _ step] step
    by (simp add: gate_fifo_def demo_message_def)
qed

section \<open>What the registry leaves open\<close>

text \<open>The result promise of a message is numbered by its sender, the cascade looks the number up among the promises
  of this registry: a peer whose result promise has the number of an unrelated promise here breaks that one.\<close>

lemma foreign_number_breaks_promise:
  assumes "fmlookup (pq_promises R) k = Some PpPending" "fmlookup (pq_promises R) r = Some PpPending" "r \<noteq> k"
    and "queue_of R k = []" "queue_of R r = []" "pm_target_promise_id msg = k" "pm_result_promise_id msg = Some r"
  shows "fmlookup (pq_promises (snd (break_promise k reason (snd (pipeline_message msg R))))) r =
    Some (PpBroken (cascade_reason k reason))"
proof -
  let ?R = "snd (pipeline_message msg R)"
  have R: "?R = R\<lparr>pq_queued := fmupd k [msg] (pq_queued R)\<rparr>"
    using assms by (simp add: pipeline_message_def enqueue_def)
  have "queue_of (snd (settle k (PpBroken reason) ?R)) r = []" "queue_of ?R k = [msg]"
    using assms(3,5) by (simp_all add: R queue_of_at)
  then show ?thesis
    using assms(1,2,3,7) by (simp add: break_promise_def case_prod_beta Let_def R)
qed

text \<open>A promise that is settled can be settled again, the other way round.\<close>

lemma broken_promise_resolves:
  assumes "fmlookup (pq_promises R) k \<noteq> None"
  shows "fmlookup (pq_promises (snd (resolve_promise gate k c (snd (break_promise k reason R))))) k = Some (PpFulfilled c)"
proof -
  have "k |\<in>| fmdom (pq_promises (snd (break_promise k reason R)))"
    using break_shrunk [of R k reason] assms by (auto simp: shrunk_def fmdomI)
  then show ?thesis by (auto simp: resolve_promise_def case_prod_beta fmlookup_dom_iff)
qed

text \<open>A failed result breaks the promise and its dependents like any break, but the notifications are thrown away.\<close>

lemma failed_result_unanswered:
  assumes "queue_of (br_local B) k = msg # msgs" "pm_result_promise_id msg = Some r"
  shows "fst (on_pipeline_result gate fed k (ResultFailure err) B) = [] \<and>
    queue_of (br_local (snd (on_pipeline_result gate fed k (ResultFailure err) B))) k = [] \<and>
    fst (break_promise k err (br_local B)) \<noteq> []"
proof -
  let ?S = "snd (settle k (PpBroken err) (br_local B))"
  have "queue_of (snd (break_messages k err (msg # msgs) ?S)) k = []"
    using break_messages_shrunk [of ?S k err "msg # msgs"] by (auto simp: shrunk_def queue_of_at dest: spec [where x = k])
  then show ?thesis
    using assms by (auto simp: on_pipeline_result_def break_promise_def case_prod_beta Let_def)
qed

end
