(* ===== verification/Spec2Isabelle.thy ===== *)
theory Spec2Isabelle
  imports LedgerWitness ExecutorSafety ExecutorFactory Pending ProgramLaws ProgramGates ExecuteTreeLaws
    MigrationManager EffectBinding NoteConservation TurnRecord ExecuteLaws Stingray TwoPhase CapGc CapPipeline
begin

text \<open>
  \<^bold>\<open>Verification of the dregg capability-cell kernel.\<close>

  dregg is a distributed object-capability system. Its kernel is made of \<^emph>\<open>cells\<close> (accounts with a
  balance, a nonce, sixteen fields, an overflow map, a heap, permissions, a program and a list of
  capabilities), a \<^emph>\<open>ledger\<close> of cells under a Merkle root, and an \<^emph>\<open>executor\<close> that applies the effects of
  a turn to the ledger and to a few append-only sets. This library models the crate \<open>cell\<close>
  (\<open>src/cell/src\<close>), the executor of the crate \<open>turn\<close> (\<open>src/turn/src\<close>), and above them the coordination of
  several parties (\<open>src/coord/src\<close>) and the references between federations (\<open>src/captp/src\<close>). The models are written
  from the Rust source, one definition per function, with the early returns as branches; a method that
  changes its receiver returns the result together with the new value, and an error that leaves a half
  finished change behind leaves it behind in the model too.

  \<^bold>\<open>Theories and sources.\<close>

  \<^item> \<open>Prelude\<close>: words of 8 to 256 bits, byte encodings and their injectivity, totals over finite maps,
    association and list lemmas, the loop combinators that the components share.
  \<^item> \<open>Permissions\<close> (\<open>permissions.rs\<close>): the lattice of authorization requirements, the permission record,
    its presets. \<open>Facet\<close> (\<open>facet.rs\<close>): effect masks and extended facets.
  \<^item> \<open>Capability\<close> (\<open>capability.rs\<close>, \<open>derivation.rs\<close>): capability lists with tombstones, the slot counter and
    the cached root. Theorems: a list that only attenuates and revokes never gains authority, a
    revoked slot never returns, reachable lists are well formed, the cached root is the root.
  \<^item> \<open>CellState\<close>, \<open>Lifecycle\<close>, \<open>Program\<close>, \<open>Cell\<close>, \<open>Commitment\<close> (\<open>state.rs\<close>, \<open>lifecycle.rs\<close>, \<open>program/types.rs\<close>,
    \<open>cell.rs\<close>, \<open>commitment.rs\<close>): the cell, its balance discipline on i64, its lifecycle as a step relation
    with absorbing states, and the canonical state commitment, which binds the content of a cell.
  \<^item> \<open>WitnessedPredicate\<close> (\<open>predicate.rs\<close>) and \<open>Preconditions\<close> (\<open>preconditions.rs\<close>): the registry of proof
    verifiers with its built-in verifiers, and the preconditions of an action.
  \<^item> \<open>ProgramEval\<close> (\<open>program/eval.rs\<close>, \<open>collection.rs\<close>, the guards of \<open>types.rs\<close>): the evaluator of cell
    programs, one definition per arm. \<open>ProgramLaws\<close>: what a program enforces on single transitions holds over
    the whole history of a cell (locale \<open>transition_law\<close>, interpreted for six constraints), the search behind
    reachability is exact, cases are default-deny, negation fails closed, the arithmetic is exact on the
    admitted ranges. \<open>ProgramGates\<close>: key rotation, standing obligations, credentials, the default registry.
  \<^item> \<open>Merkle\<close>, \<open>Ledger\<close>, \<open>LedgerTree\<close>, \<open>LedgerDelta\<close>, \<open>LedgerRun\<close>, \<open>LedgerWitness\<close> (\<open>ledger.rs\<close>): the ledger with
    its public-key index, the incrementally maintained tree, deltas with validation and rollback,
    restore points, membership proofs, witness diffs. Theorems: after any run of operations, deltas
    whose created cells have distinct ids and no stale memo included, the lazily maintained root is the root
    of a full rebuild; a failed delta changes nothing; a restore point
    undoes a run of operations; membership proofs are complete and, absent a collision, sound.
  \<^item> \<open>Migration\<close> (\<open>migration.rs\<close>): the PREPARE, ACCEPT, COMMIT protocol between two federations as a step
    relation; in every interleaving at most one of them holds a cell without a lock (which no write looks at), and a migration that is
    prepared can be carried through.
  \<^item> \<open>AppendSet\<close> (\<open>nullifier_set.rs\<close>, \<open>commitment_set.rs\<close>, \<open>revoked_set.rs\<close>, \<open>note_bridge.rs\<close>): the append-only
    sets, as refinements of a sequence without duplicates (locale \<open>spend_once\<close>), their recovery from
    records in any order, and the non-membership proofs of the nullifier set.
  \<^item> \<open>RevocationChannel\<close> (\<open>revocation_channel.rs\<close>) and \<open>Factory\<close> (\<open>factory.rs\<close>): the channels that switch
    capabilities off, and the factories that create cells under a descriptor and a budget.
  \<^item> \<open>Journal\<close> (\<open>turn/src/journal.rs\<close>): the undo journal of a turn, its write set and its rollback.
    \<open>stores_view\<close> is the part of the stores that a rollback is held to: the cells with the capability in each
    slot and the entries of the sets, without stored field commitments, the layout of a c-list, factory
    counts, sovereign commitments and the public-key index.
  \<^item> \<open>Executor\<close> (\<open>turn/src/executor/apply.rs\<close>, \<open>action.rs\<close>): one definition per effect handler, the cross-cell
    checks, and the dispatcher with its recursion through exercised capabilities (total: the measure is
    the size of the effect).
  \<^item> \<open>ExecutorSteps\<close>: the handlers as runs of elementary steps. \<open>cell_write\<close> and \<open>exec_step\<close> name every write
    a handler makes together with its journal entry, and the powers it uses (moving value, adding
    authority); \<open>effect_rel\<close> is the locale that lifts a fact about single handlers to lists of effects
    with nested exercises.
  \<^item> \<open>ExecutorUndo\<close>, \<open>ExecutorSupply\<close>, \<open>ExecutorAuthority\<close>, \<open>ExecutorSafety\<close>, \<open>ExecutorFactory\<close>: the theorems about
    the executor. Rolling back the journal restores the view of the stores; the write set is complete; well-formed
    stores stay so; value is conserved; authority is confined to what was held before; terminal cells
    stay frozen; notes are spent once; tripped channels block; a factory's child conforms.
  \<^item> \<open>ExecutorGates\<close> (\<open>turn/src/executor/authorize.rs\<close>): the permissions an action needs and the cells its
    program gate covers, compared with what an exercise lets through.
  \<^item> \<open>TurnAction\<close> (\<open>action.rs\<close>, \<open>forest.rs\<close>, \<open>costs.rs\<close>): actions with their authorizations, call forests, hashes
    and signing messages, costs. \<open>Authorize\<close> (\<open>authorize.rs\<close>): every kind of authorization, check by check.
    \<open>AuthorizeLaws\<close>: a direct authorization is accepted only if the action carries evidence for each
    permission slot (a token that selects a capability with an empty facet counts in the code); what bearer, delivered and partial authorizations leave open.
  \<^item> \<open>ExecuteTree\<close> (\<open>execute_tree.rs\<close>): the execution of a call tree, from the capability gate to the children.
    \<open>TurnMetering\<close>: the computrons charged are those of the estimate. \<open>ExecuteTreeLaws\<close>: the locale \<open>tree_rel\<close>
    lifts a relation that every elementary step satisfies to whole trees; its two interpretations give
    that the journal of a tree undoes it up to the view and that a tree creates no value; and a theft with a bearer proof.
  \<^item> \<open>EffectBinding\<close> (\<open>Effect::hash\<close> of \<open>action.rs\<close>): which effects their hash determines, and what a signature
    over a grant leaves open. \<open>Derivation\<close> (\<open>derivation.rs\<close>, the records of \<open>finalize.rs\<close>): derivation trees and
    their walks. \<open>NoteConservation\<close> (\<open>finalize.rs\<close>): the conservation of notes over a call forest.
    \<open>TurnRecord\<close> (\<open>turn.rs\<close>, \<open>binding_proof.rs\<close>, \<open>routing.rs\<close>): turns, receipts and the bytes of their hashes.
  \<^item> \<open>BudgetGate\<close> (\<open>budget_gate.rs\<close>): the budget of a silo, as a refinement of the multisets of open and
    committed debits. \<open>Conflict\<close>
    (\<open>conflict.rs\<close>): the Bloom filters and the access sets of a turn. \<open>TurnDelta\<close> (\<open>execute.rs\<close>, \<open>finalize.rs\<close>): the
    distribution of a fee and the delta of a journal.
  \<^item> \<open>Execute\<close> (\<open>execute.rs\<close>, \<open>mod.rs\<close>): the whole of \<open>execute\<close>: admission, budget, fee and nonce, the
    proof-carrying path, sovereign witnesses, the call forest with its rollback, the checks after it,
    settlement, heights, fees, counters, delta and receipt. \<open>ExecuteLaws\<close>: in the view of the stores a
    rejected turn costs its fee and its nonce only (the fee alone when the nonce is at its maximum, and then the
    budget stays debited), a committed one creates no value, the receipts of an agent form one hash
    chain; and what a failing witness, a frozen cell and a veto leave behind.
  \<^item> \<open>MigrationManager\<close> (\<open>executor/migration.rs\<close>): the table of migrating cells as a refinement of a protocol
    for each cell.
  \<^item> \<open>Pending\<close> (\<open>turn/src/pending.rs\<close>): the registry of pending turns; the broken-promise cascade is shown to
    end and to remove exactly what depends on the broken turn, timeouts not to depend on the order of
    the hash map.
  \<^item> \<open>Stingray\<close> (\<open>coord/src/budget.rs\<close>): the balance of an agent split into slices for silos, certificates,
    rebalancing, locks and their release by votes. Reachable counters keep their bounds, an epoch closes
    on one certificate of each silo, a committed proposal cannot be unlocked if nobody forges votes of honest
    silos; and what honest silos can
    overspend.
  \<^item> \<open>TwoPhase\<close> (\<open>coord/src/atomic.rs\<close>): the two-phase commit of a forest of several parties, coordinator
    and participants, executing the turn with \<open>execute\<close>. Only a quorum commits, decisions never conflict; and
    what a participant accepts as a quorum.
  \<^item> \<open>CapGc\<close> (\<open>captp/src/gc.rs\<close>, \<open>sturdy.rs\<close>, \<open>session.rs\<close>): the reference counts of exported cells, as a
    refinement of the multiset of references that are out, sturdy references and sessions.
  \<^item> \<open>CapPipeline\<close> (\<open>captp/src/pipeline.rs\<close>): messages to unresolved promises, their delivery and the cascade of
    a break, with its termination, and the bridge between federations. Every accepted message is
    delivered, lost in a break (answered if it asked for a result) or still queued; and whose numbers and senders the code takes for its own.

  \<^bold>\<open>Parameters and hypotheses.\<close> BLAKE3, Poseidon2 roots, postcard encodings, range proofs, STARK and
  signature verifiers are fields of the records \<open>crypto\<close>, \<open>cell_crypto\<close>,
  \<open>exec_crypto\<close> and \<open>turn_crypto\<close>; the verifiers of execution proofs and binding proofs, the key that signs
  receipts, the witnesses of consumed capabilities and the observer that may veto a commit are fields of
  \<open>turn_externals\<close>; \<open>sig_scheme\<close> is the signature scheme of votes and certificates, \<open>coord_env\<close> the registered
  gates, codecs and map orders of the coordinator. Where a theorem
  needs collision resistance it says so for the two inputs at hand. \<open>shielded_distinct\<close> states what the
  verifier of a shielded transfer promises: distinct nullifiers. The order in which a hash map yields
  its keys is an argument. Machine integers are words of their width, or \<open>int\<close> with the i64 range written
  out for balances; additions that the release build lets wrap are word additions.

  \<^bold>\<open>Bounds and fuel.\<close> No definition runs on fuel. The delegation walk has the code's own limit of sixteen
  hops; the cascade of \<open>Pending\<close> recurses on the number of entries, the one of \<open>CapPipeline\<close> on the number of
  queues and the messages left, which every call reduces.

  \<^bold>\<open>Simplifications.\<close> Error values keep their constructor and cells but not formatted texts.
  The action in a \<open>PipelinedSend\<close> is its hash. The three copies of the cost table (\<open>execute_tree.rs\<close>, \<open>finalize.rs\<close>,
  \<open>mod.rs\<close>) are one definition each for authorizations and effects. A panic of the source is an error branch, with a note at the definition.

  \<^bold>\<open>Not modelled.\<close> Pipelined turns (\<open>executor/atomic.rs\<close> and \<open>executor/pipeline.rs\<close>), private legs of atomic forests, the wire
  protocol of \<open>captp\<close>, the reactive
  effects, the verification of STARK proofs (\<open>proof_verify.rs\<close>), the memory trace, profiling and the
  context that is handed to the vetoing observer. Circuits, provers, consensus, networking, storage,
  bindings, bridges and applications are outside the kernel.
\<close>

end
